(* ===== verification/Prelude.thy ===== *)
theory Prelude
  imports Main "HOL-Library.Word"
begin

text \<open>
  What every component of the development shares: the machine types of the Go code, Go
  strings and byte slices, the big-endian integers of \<^verbatim>\<open>encoding/binary\<close>,
  \<^verbatim>\<open>bytes.Compare\<close>, \<^verbatim>\<open>utf8.Valid\<close>, \<^verbatim>\<open>encoding/hex\<close>, and the
  generic lemmas on them. A Go \<^verbatim>\<open>string\<close> is a \<open>string\<close> (one \<open>char\<close> per byte), a
  \<^verbatim>\<open>[]byte\<close> is a \<open>byte list\<close>, a fallible function returns \<open>'e + 'a\<close> with \<open>Inl\<close>
  for the error. The collection \<open>codec_simps\<close> holds the equations with which the
  simplifier runs the decoders, \<open>err_simps\<close> the case distinctions on results.
\<close>

unbundle bit_operations_syntax

named_theorems codec_simps "equations that execute an encoder or a decoder step"
named_theorems err_simps "facts on results of fallible operations"

type_synonym byte = "8 word"
type_synonym bytes = "byte list"
type_synonym u32 = "32 word"
type_synonym u64 = "64 word"

section \<open>Results of fallible operations\<close>

text \<open>Sequencing of fallible steps, as \<^verbatim>\<open>if err != nil { return err }\<close> does.\<close>

fun bind_res :: "'e + 'a \<Rightarrow> ('a \<Rightarrow> 'e + 'b) \<Rightarrow> 'e + 'b" where
  "bind_res (Inl e) f = Inl e"
| "bind_res (Inr x) f = f x"

text \<open>\<open>guard_res b e\<close> is the early return of error \<open>e\<close> unless \<open>b\<close> holds.\<close>

definition guard_res :: "bool \<Rightarrow> 'e \<Rightarrow> 'e + unit" where
  "guard_res b e = (if b then Inr () else Inl e)"

lemma bind_res_Inr_iff [err_simps]:
  "bind_res m f = Inr y \<longleftrightarrow> (\<exists>x. m = Inr x \<and> f x = Inr y)"
  by (cases m) auto

lemma bind_res_Inl_iff [err_simps]:
  "bind_res m f = Inl e \<longleftrightarrow> m = Inl e \<or> (\<exists>x. m = Inr x \<and> f x = Inl e)"
  by (cases m) auto

lemma guard_res_Inr_iff [err_simps]: "guard_res b e = Inr u \<longleftrightarrow> b"
  by (simp add: guard_res_def)

lemma guard_res_Inl_iff [err_simps]: "guard_res b e = Inl e' \<longleftrightarrow> \<not> b \<and> e' = e"
  by (auto simp: guard_res_def)

lemma case_res_Inr_iff [err_simps]:
  "(case r of Inl e \<Rightarrow> Inl (f e) | Inr x \<Rightarrow> g x) = Inr y \<longleftrightarrow> (\<exists>x. r = Inr x \<and> g x = Inr y)"
  by (cases r) auto

lemma case_res_Inl_iff [err_simps]:
  "(case r of Inl e \<Rightarrow> Inl (f e) | Inr x \<Rightarrow> g x) = Inl y \<longleftrightarrow> (\<exists>e. r = Inl e \<and> y = f e) \<or> (\<exists>x. r = Inr x \<and> g x = Inl y)"
  by (cases r) auto

lemma bind_guard_res [simp]: "bind_res (guard_res b e) f = (if b then f () else Inl e)"
  by (simp add: guard_res_def)

lemma find_append: "find P (xs @ ys) = (case find P xs of None \<Rightarrow> find P ys | Some x \<Rightarrow> Some x)"
  by (induction xs) auto

section \<open>Strings and byte slices\<close>

definition str_bytes :: "string \<Rightarrow> bytes" where
  "str_bytes s = map of_char s"

definition bytes_str :: "bytes \<Rightarrow> string" where
  "bytes_str bs = map (\<lambda>b. char_of (unat b)) bs"

lemma unat_of_char [simp]: "unat (of_char c :: byte) = of_char c"
proof -
  have "(of_char c :: byte) = word_of_nat (of_char c)"
    by (simp add: of_nat_of_char)
  moreover have "(of_char c :: nat) < 256"
    by (rule nat_of_char_less_256)
  ultimately show ?thesis by (simp add: unat_of_nat)
qed

lemma bytes_str_str_bytes [simp]: "bytes_str (str_bytes s) = s"
  by (simp add: bytes_str_def str_bytes_def comp_def)

lemma unat_byte_less [simp]: "unat (b :: byte) < 256"
proof -
  have "unat b < 2 ^ LENGTH(8)" by (rule unsigned_less)
  then show ?thesis by simp
qed

lemma byte_exhaust: "list_all P (map word_of_nat [0..<256]) \<Longrightarrow> P (b :: byte)"
proof -
  assume "list_all P (map word_of_nat [0..<256])"
  moreover have "b = word_of_nat (unat b)" and "unat b \<in> set [0..<256]"
    by simp_all
  ultimately show "P b" unfolding list_all_iff set_map by (metis image_eqI)
qed

lemma char_byte_inverse: "(of_char (char_of (unat b)) :: byte) = b"
  by (rule word_unat_eq_iff [THEN iffD2]) simp

lemma str_bytes_bytes_str [simp]: "str_bytes (bytes_str bs) = bs"
  by (simp add: bytes_str_def str_bytes_def comp_def char_byte_inverse)

lemma length_str_bytes [simp]: "length (str_bytes s) = length s"
  by (simp add: str_bytes_def)

lemma length_bytes_str [simp]: "length (bytes_str s) = length s"
  by (simp add: bytes_str_def)

lemma str_bytes_inject [simp]: "str_bytes s = str_bytes t \<longleftrightarrow> s = t"
  by (metis bytes_str_str_bytes)

section \<open>Big-endian integers\<close>

text \<open>
  \<open>be_bytes n v\<close> is what \<^verbatim>\<open>binary.BigEndian.AppendUint16/32/64\<close> appends for
  \<open>n = 2, 4, 8\<close>: the bytes \<^verbatim>\<open>byte(v >> 8*(n-1)) ... byte(v)\<close>. \<open>be_word\<close> is the
  decoding loop \<^verbatim>\<open>value = value<<8 | uint64(b)\<close>.
\<close>

fun be_bytes :: "nat \<Rightarrow> 'a::len word \<Rightarrow> bytes" where
  "be_bytes 0 v = []"
| "be_bytes (Suc n) v = ucast (drop_bit (8 * n) v) # be_bytes n v"

definition be_word :: "bytes \<Rightarrow> 'a::len word" where
  "be_word bs = foldl (\<lambda>value b. push_bit 8 value OR ucast b) 0 bs"

definition be_nat :: "bytes \<Rightarrow> nat" where
  "be_nat bs = foldl (\<lambda>value b. value * 256 + unat b) 0 bs"

lemma length_be_bytes [simp]: "length (be_bytes n v) = n"
  by (induction n) auto

lemma be_nat_Nil [simp]: "be_nat [] = 0"
  by (simp add: be_nat_def)

lemma be_nat_snoc [simp]: "be_nat (bs @ [b]) = be_nat bs * 256 + unat b"
  by (simp add: be_nat_def)

lemma be_nat_append: "be_nat (as @ bs) = be_nat as * 256 ^ length bs + be_nat bs"
proof (induction bs rule: rev_induct)
  case (snoc b bs)
  then show ?case
    by (metis (no_types, lifting) add.assoc append_assoc be_nat_snoc distrib_right
        length_append_singleton mult.assoc power_Suc2)
qed simp

lemma be_nat_Cons: "be_nat (b # bs) = unat b * 256 ^ length bs + be_nat bs"
  using be_nat_append [of "[b]" bs] be_nat_snoc [of "[]" b] by simp

lemma be_nat_less: "be_nat bs < 256 ^ length bs"
proof (induction bs rule: rev_induct)
  case (snoc b bs)
  have "be_nat (bs @ [b]) = be_nat bs * 256 + unat b" by simp
  moreover have "256 ^ length (bs @ [b]) = 256 * (256 :: nat) ^ length bs" by simp
  ultimately show ?case using snoc unat_byte_less [of b] by linarith
qed simp

lemma ucast_of_nat_unat: "(ucast (b :: byte) :: 'a::len word) = word_of_nat (unat b)"
  by (simp add: word_unat_eq_iff unsigned_ucast_eq unat_of_nat take_bit_eq_mod)

lemma push_or_ucast:
  "push_bit 8 (word_of_nat n) OR (ucast (b :: byte)) = (word_of_nat (n * 256 + unat b) :: 'a::len word)"
proof -
  have "push_bit 8 (word_of_nat n :: 'a word) AND ucast b = 0"
    by (rule bit_word_eqI) (auto simp: bit_simps dest: bit_imp_le_length)
  then have "push_bit 8 (word_of_nat n :: 'a word) OR ucast b = push_bit 8 (word_of_nat n) + ucast b"
    by (simp add: disjunctive_add_eq_or)
  also have "\<dots> = word_of_nat n * 256 + word_of_nat (unat b)"
    by (simp only: push_bit_eq_mult ucast_of_nat_unat) simp
  finally show ?thesis by simp
qed

lemma be_word_eq_nat: "be_word bs = word_of_nat (be_nat bs)"
proof (induction bs rule: rev_induct)
  case Nil
  show ?case by (simp add: be_word_def)
next
  case (snoc b bs)
  then show ?case by (simp add: be_word_def push_or_ucast)
qed

lemma be_nat_be_bytes: "be_nat (be_bytes n v) = unat v mod 256 ^ n"
proof (induction n)
  case (Suc n)
  have "unat (ucast (drop_bit (8 * n) v) :: byte) = unat v div 256 ^ n mod 256"
  proof -
    have "unat (ucast (drop_bit (8 * n) v) :: byte) = take_bit 8 (drop_bit (8 * n) (unat v))"
      by (simp add: unsigned_ucast_eq unat_drop_bit_eq)
    then show ?thesis by (simp add: drop_bit_eq_div take_bit_eq_mod power_mult)
  qed
  then show ?case
    using Suc mod_mult2_eq [of "unat v" "256 ^ n" 256]
    by (simp add: be_nat_Cons mult.commute add.commute)
qed simp

lemma be_word_be_bytes:
  assumes "unat v < 256 ^ n"
  shows "be_word (be_bytes n v) = (word_of_nat (unat v) :: 'a::len word)"
  using assms by (simp add: be_word_eq_nat be_nat_be_bytes)

lemma be_nat_inject: "length as = length bs \<Longrightarrow> be_nat as = be_nat bs \<longleftrightarrow> as = bs"
proof (induction as bs rule: list_induct2)
  case (Cons a as b bs)
  have "unat a = unat b \<and> be_nat as = be_nat bs"
    if "unat a * 256 ^ length bs + be_nat as = unat b * 256 ^ length bs + be_nat bs"
  proof -
    have la: "be_nat as < 256 ^ length bs" using be_nat_less [of as] Cons by simp
    have lb: "be_nat bs < 256 ^ length bs" by (rule be_nat_less)
    from that have "(unat a * 256 ^ length bs + be_nat as) div 256 ^ length bs
        = (unat b * 256 ^ length bs + be_nat bs) div 256 ^ length bs" by simp
    with la lb have "unat a = unat b" by simp
    with that show ?thesis by simp
  qed
  with Cons show ?case by (auto simp: be_nat_Cons word_unat_eq_iff)
qed simp

lemma be_bytes_be_word:
  assumes "length bs = n" and "8 * n \<le> LENGTH('a)"
  shows "be_bytes n (be_word bs :: 'a::len word) = bs"
proof -
  have "be_nat bs < 2 ^ (8 * n)" using be_nat_less [of bs] assms(1) by (simp add: power_mult)
  also have "\<dots> \<le> 2 ^ LENGTH('a)" using assms(2) by simp
  finally have "unat (be_word bs :: 'a word) = be_nat bs"
    by (simp add: be_word_eq_nat unat_of_nat)
  then have "be_nat (be_bytes n (be_word bs :: 'a word)) = be_nat bs"
    using be_nat_less [of bs] assms(1) by (simp add: be_nat_be_bytes)
  then show ?thesis using assms(1) by (simp add: be_nat_inject)
qed

section \<open>Three-way comparison\<close>

text \<open>\<^verbatim>\<open>bytes.Compare\<close>: the lexicographic three-way comparison of two byte slices.\<close>

fun bytes_compare :: "bytes \<Rightarrow> bytes \<Rightarrow> int" where
  "bytes_compare [] [] = 0"
| "bytes_compare [] (y # ys) = - 1"
| "bytes_compare (x # xs) [] = 1"
| "bytes_compare (x # xs) (y # ys) =
     (if x < y then - 1 else if y < x then 1 else bytes_compare xs ys)"

text \<open>
  The contract of a three-way comparison: equality is the value 0, swapping the arguments
  flips the sign, and "before" is transitive. Everything that sorts or merges by a
  \<^verbatim>\<open>Compare\<close> method relies on these laws only.
\<close>

locale comparator =
  fixes cmp :: "'a \<Rightarrow> 'a \<Rightarrow> int"
  assumes cmp_eq: "cmp a b = 0 \<longleftrightarrow> a = b"
    and cmp_swap: "cmp b a = - cmp a b"
    and cmp_trans: "cmp a b < 0 \<Longrightarrow> cmp b c < 0 \<Longrightarrow> cmp a c < 0"
begin

lemma cmp_refl [simp]: "cmp a a = 0"
  by (simp add: cmp_eq)

lemma cmp_pos_iff: "0 < cmp a b \<longleftrightarrow> cmp b a < 0"
  using cmp_swap [of a b] by linarith

lemma cmp_cases: "cmp a b < 0 \<or> a = b \<or> cmp b a < 0"
  using cmp_swap [of a b] cmp_eq [of a b] by linarith

lemma cmp_le_trans: "cmp a b \<le> 0 \<Longrightarrow> cmp b c \<le> 0 \<Longrightarrow> cmp a c \<le> 0"
  using cmp_trans [of a b c] cmp_eq [of a b] cmp_eq [of b c] by (cases "a = b"; cases "b = c") auto

lemma cmp_antisym: "cmp a b \<le> 0 \<Longrightarrow> cmp b a \<le> 0 \<Longrightarrow> a = b"
  using cmp_swap [of a b] cmp_eq [of a b] by linarith

end

lemma bytes_compare_eq: "bytes_compare a b = 0 \<longleftrightarrow> a = b"
  by (induction a b rule: bytes_compare.induct) auto

lemma bytes_compare_swap: "bytes_compare b a = - bytes_compare a b"
  by (induction a b rule: bytes_compare.induct) auto

lemma bytes_compare_trans:
  "bytes_compare a b < 0 \<Longrightarrow> bytes_compare b c < 0 \<Longrightarrow> bytes_compare a c < 0"
proof (induction a b arbitrary: c rule: bytes_compare.induct)
  case (2 y ys)
  then show ?case by (cases c) auto
next
  case (4 x xs y ys)
  then show ?case by (cases c) (auto split: if_splits)
qed auto

interpretation bytes_cmp: comparator bytes_compare
  by unfold_locales (fact bytes_compare_eq bytes_compare_swap bytes_compare_trans)+

section \<open>Hexadecimal text\<close>

definition hex_digit :: "nat \<Rightarrow> char" where
  "hex_digit n = ''0123456789abcdef'' ! n"

definition from_hex :: "char \<Rightarrow> nat option" where
  "from_hex c =
     (let n = of_char c in
      if 48 \<le> n \<and> n \<le> 57 then Some (n - 48)
      else if 97 \<le> n \<and> n \<le> 102 then Some (n - 87)
      else if 65 \<le> n \<and> n \<le> 70 then Some (n - 55)
      else None)"

text \<open>\<^verbatim>\<open>hex.EncodeToString\<close> and \<^verbatim>\<open>hex.DecodeString\<close>.\<close>

fun hex_encode :: "bytes \<Rightarrow> string" where
  "hex_encode [] = []"
| "hex_encode (b # bs) = hex_digit (unat b div 16) # hex_digit (unat b mod 16) # hex_encode bs"

fun hex_decode :: "string \<Rightarrow> bytes option" where
  "hex_decode [] = Some []"
| "hex_decode [c] = None"
| "hex_decode (c # d # cs) =
     (case (from_hex c, from_hex d) of
        (Some h, Some l) \<Rightarrow> map_option (\<lambda>bs. word_of_nat (16 * h + l) # bs) (hex_decode cs)
      | _ \<Rightarrow> None)"

lemma from_hex_hex_digit [simp]:
  assumes "n < 16"
  shows "from_hex (hex_digit n) = Some n"
proof -
  have "list_all (\<lambda>n. from_hex (hex_digit n) = Some n) [0..<16]"
    by code_simp
  with assms show ?thesis by (auto simp: list_all_iff)
qed

lemma length_hex_encode [simp]: "length (hex_encode bs) = 2 * length bs"
  by (induction bs) auto

lemma hex_decode_encode [simp]: "hex_decode (hex_encode bs) = Some bs"
proof (induction bs)
  case (Cons b bs)
  have "unat b div 16 < 16" using unat_byte_less [of b] by linarith
  with Cons show ?case by simp
qed simp

lemma length_hex_decode: "hex_decode s = Some bs \<Longrightarrow> length s = 2 * length bs"
  by (induction s arbitrary: bs rule: hex_decode.induct) (auto split: option.splits)

section \<open>UTF-8\<close>

text \<open>
  \<^verbatim>\<open>utf8.Valid\<close>: the accepted byte sequences are those of RFC 3629 (no overlong form, no
  surrogate, nothing above U+10FFFF).
\<close>

definition in_range :: "nat \<Rightarrow> nat \<Rightarrow> byte \<Rightarrow> bool" where
  "in_range lo hi b \<longleftrightarrow> lo \<le> unat b \<and> unat b \<le> hi"

abbreviation cont_byte :: "byte \<Rightarrow> bool" where
  "cont_byte \<equiv> in_range 128 191"

fun utf8_valid :: "bytes \<Rightarrow> bool" where
  "utf8_valid [] = True"
| "utf8_valid (a # bs) =
     (if in_range 0 127 a then utf8_valid bs
      else if in_range 194 223 a then
        (case bs of b # cs \<Rightarrow> cont_byte b \<and> utf8_valid cs | _ \<Rightarrow> False)
      else if in_range 224 239 a then
        (case bs of b # c # cs \<Rightarrow>
             in_range (if unat a = 224 then 160 else 128) (if unat a = 237 then 159 else 191) b
             \<and> cont_byte c \<and> utf8_valid cs
         | _ \<Rightarrow> False)
      else if in_range 240 244 a then
        (case bs of b # c # d # cs \<Rightarrow>
             in_range (if unat a = 240 then 144 else 128) (if unat a = 244 then 143 else 191) b
             \<and> cont_byte c \<and> cont_byte d \<and> utf8_valid cs
         | _ \<Rightarrow> False)
      else False)"

lemma utf8_valid_ascii: "list_all (\<lambda>b. unat b < 128) bs \<Longrightarrow> utf8_valid bs"
  by (induction bs) (auto simp: in_range_def)

lemma utf8_valid_str_ascii: "list_all (\<lambda>c. (of_char c :: nat) < 128) s \<Longrightarrow> utf8_valid (str_bytes s)"
  by (rule utf8_valid_ascii) (simp add: str_bytes_def list_all_iff)

section \<open>Comparison of byte strings without early exit\<close>

text \<open>The comparison without early exit, \<^verbatim>\<open>difference |= left[i] ^ right[i]\<close>.\<close>

definition equalBytes :: "bytes \<Rightarrow> bytes \<Rightarrow> bool" where
  "equalBytes left right \<longleftrightarrow>
     length left = length right \<and> foldl (\<lambda>difference (l, r). difference OR (l XOR r)) 0 (zip left right) = 0"

lemma fold_or_zero:
  "foldl (\<lambda>difference (l, r). difference OR (l XOR r)) d ps = (0 :: byte) \<longleftrightarrow> d = 0 \<and> list_all (\<lambda>(l, r). l = r) ps"
proof (induction ps arbitrary: d)
  case (Cons p ps)
  have "x OR (y XOR z) = 0 \<longleftrightarrow> x = 0 \<and> y = z" for x y z :: byte
    by (simp add: or_eq_0_iff bit_eq_iff [of y z] bit_eq_iff [of "y XOR z" 0] bit_simps)
  with Cons show ?case by (cases p) auto
qed simp

lemma equalBytes_iff [simp]: "equalBytes a b \<longleftrightarrow> a = b"
proof -
  have "length a = length b \<Longrightarrow> list_all (\<lambda>(l, r). l = r) (zip a b) \<longleftrightarrow> a = b" for a b :: bytes
    by (induction a b rule: list_induct2) auto
  then show ?thesis by (auto simp: equalBytes_def fold_or_zero)
qed

end
