(* ===== verification/Identifiers.thy ===== *)
theory Identifiers
  imports Prelude
begin

text \<open>
  The identifiers of \<^verbatim>\<open>core/model/id.go\<close>: 16-byte RFC 9562 UUIDv7 values with their
  constructor, the binary and the textual parser, the canonical text form, the validity
  check and the bytewise order. The fixed-size array \<^verbatim>\<open>[16]byte\<close> is the type \<open>ID\<close> of byte
  lists of length 16. The random source of \<open>newID\<close> is the list of bytes it delivers.
\<close>

section \<open>The array type\<close>

typedef ID = "{b :: bytes. length b = 16}" morphisms id_array Abs_ID
  by (rule exI [of _ "replicate 16 0"]) simp

text \<open>Go's \<^verbatim>\<open>copy(id[:], value)\<close> into a zero array.\<close>

definition id_copy :: "bytes \<Rightarrow> ID" where
  "id_copy value = Abs_ID (take 16 (value @ replicate 16 0))"

definition NilID :: ID where
  "NilID = id_copy []"

text \<open>The method \<^verbatim>\<open>Bytes\<close> returns the 16 bytes.\<close>

definition ID_Bytes :: "ID \<Rightarrow> bytes" where
  "ID_Bytes i = id_array i"

datatype id_error = ErrInvalidID

section \<open>Operations\<close>

definition ID_IsZero :: "ID \<Rightarrow> bool" where
  "ID_IsZero i \<longleftrightarrow> i = NilID"

definition ID_Validate :: "ID \<Rightarrow> id_error + unit" where
  "ID_Validate i =
     (if i = NilID then Inl ErrInvalidID
      else if (id_array i ! 6) AND 0xf0 \<noteq> 0x70 then Inl ErrInvalidID
      else if (id_array i ! 8) AND 0xc0 \<noteq> 0x80 then Inl ErrInvalidID
      else Inr ())"

definition newID :: "bytes \<Rightarrow> int \<Rightarrow> id_error + ID" where
  "newID random unixMilli =
     (if length random < 16 then Inl ErrInvalidID
      else
        let i = take 16 random;
            ms = (word_of_int unixMilli :: u64) AND 0xffffffffffff;
            i = i[0 := ucast (drop_bit 40 ms)];
            i = i[1 := ucast (drop_bit 32 ms)];
            i = i[2 := ucast (drop_bit 24 ms)];
            i = i[3 := ucast (drop_bit 16 ms)];
            i = i[4 := ucast (drop_bit 8 ms)];
            i = i[5 := ucast ms];
            i = i[6 := ((i ! 6) AND 0x0f) OR 0x70];
            i = i[8 := ((i ! 8) AND 0x3f) OR 0x80]
        in Inr (id_copy i))"

definition ParseID :: "bytes \<Rightarrow> id_error + ID" where
  "ParseID value =
     (if length value \<noteq> 16 then Inl ErrInvalidID
      else let i = id_copy value in bind_res (ID_Validate i) (\<lambda>_. Inr i))"

definition ID_Compare :: "ID \<Rightarrow> ID \<Rightarrow> int" where
  "ID_Compare i j = bytes_compare (id_array i) (id_array j)"

text \<open>\<open>slice xs a b\<close> is Go's \<^verbatim>\<open>xs[a:b]\<close> for \<open>a \<le> b \<le> length xs\<close>.\<close>

definition slice :: "'a list \<Rightarrow> nat \<Rightarrow> nat \<Rightarrow> 'a list" where
  "slice xs a b = take (b - a) (drop a xs)"

definition ID_String :: "ID \<Rightarrow> string" where
  "ID_String i =
     (let a = id_array i in
      hex_encode (slice a 0 4) @ ''-'' @ hex_encode (slice a 4 6) @ ''-'' @
      hex_encode (slice a 6 8) @ ''-'' @ hex_encode (slice a 8 10) @ ''-'' @
      hex_encode (slice a 10 16))"

definition id_segments :: "(nat \<times> nat) list" where
  "id_segments = [(0, 8), (9, 13), (14, 18), (19, 23), (24, 36)]"

text \<open>The loop over the five segments, \<open>i\<close> counting them.\<close>

fun parse_segments :: "string \<Rightarrow> (nat \<times> nat) list \<Rightarrow> nat \<Rightarrow> bytes \<Rightarrow> id_error + bytes" where
  "parse_segments value [] i raw = Inr raw"
| "parse_segments value ((start, end) # segs) i raw =
     (if 0 < i \<and> value ! (start - 1) \<noteq> CHR ''-'' then Inl ErrInvalidID
      else case hex_decode (slice value start end) of
             None \<Rightarrow> Inl ErrInvalidID
           | Some decoded \<Rightarrow> parse_segments value segs (Suc i) (raw @ decoded))"

definition ParseIDString :: "string \<Rightarrow> id_error + ID" where
  "ParseIDString value =
     (if length value \<noteq> 36 then Inl ErrInvalidID
      else case parse_segments value id_segments 0 [] of
             Inl e \<Rightarrow> Inl e
           | Inr raw \<Rightarrow>
               (case ParseID raw of
                  Inl e \<Rightarrow> Inl ErrInvalidID
                | Inr i \<Rightarrow> if ID_String i \<noteq> value then Inl ErrInvalidID else Inr i))"

text \<open>A family of well-formed identifiers, for concrete instances.\<close>

definition demo_id :: "byte \<Rightarrow> ID" where
  "demo_id n = id_copy [0, 0, 0, 0, 0, 0, 0x70, 0, 0x80, 0, 0, 0, 0, 0, 0, n]"

abbreviation valid_id :: "ID \<Rightarrow> bool" where
  "valid_id i \<equiv> ID_Validate i = Inr ()"

section \<open>The array view\<close>

lemma length_id_array [simp]: "length (id_array i) = 16"
  using id_array [of i] by simp

lemma length_ID_Bytes [simp]: "length (ID_Bytes i) = 16"
  by (simp add: ID_Bytes_def)

text \<open>Identifiers execute as their byte lists.\<close>

lemma ID_abstype [code abstype]: "Abs_ID (id_array i) = i"
  by (rule id_array_inverse)

lemma id_copy_code [code abstract]: "id_array (id_copy value) = take 16 (value @ replicate 16 0)"
  by (simp add: id_copy_def Abs_ID_inverse)

instantiation ID :: equal
begin

definition equal_ID :: "ID \<Rightarrow> ID \<Rightarrow> bool" where
  "equal_ID i j \<longleftrightarrow> id_array i = id_array j"

instance
  by standard (simp add: equal_ID_def id_array_inject)

end

lemma id_array_copy [simp]: "length bs = 16 \<Longrightarrow> id_array (id_copy bs) = bs"
  by (simp add: id_copy_def Abs_ID_inverse)

lemma id_copy_array [simp]: "id_copy (id_array i) = i"
  by (simp add: id_copy_def id_array_inverse)

lemma id_copy_Bytes [simp]: "id_copy (ID_Bytes i) = i"
  by (simp add: ID_Bytes_def)

lemma ID_Bytes_inject [simp]: "ID_Bytes i = ID_Bytes j \<longleftrightarrow> i = j"
  by (metis id_copy_Bytes)

lemma id_copy_inject: "length as = 16 \<Longrightarrow> length bs = 16 \<Longrightarrow> id_copy as = id_copy bs \<longleftrightarrow> as = bs"
  by (metis id_array_copy)

lemma ID_Validate_cases: "valid_id i \<or> ID_Validate i = Inl ErrInvalidID"
  by (simp add: ID_Validate_def)

lemma ParseID_Bytes [simp]: "valid_id i \<Longrightarrow> ParseID (ID_Bytes i) = Inr i"
  by (simp add: ParseID_def)

lemma ParseID_Inr_iff: "ParseID bs = Inr i \<longleftrightarrow> bs = ID_Bytes i \<and> valid_id i"
  by (auto simp: ParseID_def ID_Bytes_def err_simps Let_def)

section \<open>The order\<close>

interpretation id_cmp: comparator ID_Compare
proof unfold_locales
  fix a b c :: ID
  show "ID_Compare a b = 0 \<longleftrightarrow> a = b"
    by (simp add: ID_Compare_def bytes_compare_eq id_array_inject)
  show "ID_Compare b a = - ID_Compare a b"
    unfolding ID_Compare_def by (rule bytes_compare_swap)
  show "ID_Compare a b < 0 \<Longrightarrow> ID_Compare b c < 0 \<Longrightarrow> ID_Compare a c < 0"
    unfolding ID_Compare_def by (rule bytes_compare_trans)
qed

instantiation ID :: linorder
begin

definition less_eq_ID :: "ID \<Rightarrow> ID \<Rightarrow> bool" where
  "less_eq_ID i j \<longleftrightarrow> ID_Compare i j \<le> 0"

definition less_ID :: "ID \<Rightarrow> ID \<Rightarrow> bool" where
  "less_ID i j \<longleftrightarrow> ID_Compare i j < 0"

instance
proof
  fix x y z :: ID
  show "x < y \<longleftrightarrow> x \<le> y \<and> \<not> y \<le> x"
    using id_cmp.cmp_swap [of x y] by (auto simp: less_eq_ID_def less_ID_def)
  show "x \<le> x" by (simp add: less_eq_ID_def)
  show "x \<le> y \<Longrightarrow> y \<le> z \<Longrightarrow> x \<le> z"
    unfolding less_eq_ID_def by (rule id_cmp.cmp_le_trans)
  show "x \<le> y \<Longrightarrow> y \<le> x \<Longrightarrow> x = y"
    unfolding less_eq_ID_def by (rule id_cmp.cmp_antisym)
  show "x \<le> y \<or> y \<le> x"
    using id_cmp.cmp_cases [of x y] by (auto simp: less_eq_ID_def)
qed

end

section \<open>The text form\<close>

lemma slice_append_slice: "a \<le> b \<Longrightarrow> b \<le> c \<Longrightarrow> slice xs a b @ slice xs b c = slice xs a c"
  using take_add [of "b - a" "c - b" "drop a xs"] by (simp add: slice_def)

lemma length_slice [simp]: "b \<le> length xs \<Longrightarrow> length (slice xs a b) = b - a"
  by (simp add: slice_def)

lemma slice_full [simp]: "n = length xs \<Longrightarrow> slice xs 0 n = xs"
  by (simp add: slice_def)

lemma length_ID_String [simp]: "length (ID_String i) = 36"
  by (simp add: ID_String_def Let_def)

lemma parse_segments_String: "parse_segments (ID_String i) id_segments 0 [] = Inr (id_array i)"
proof -
  let ?a = "id_array i"
  have "slice ?a 0 4 @ slice ?a 4 6 @ slice ?a 6 8 @ slice ?a 8 10 @ slice ?a 10 16 = ?a"
    by (simp add: slice_append_slice)
  moreover have "slice (ID_String i) 0 8 = hex_encode (slice ?a 0 4)"
    and "slice (ID_String i) 9 13 = hex_encode (slice ?a 4 6)"
    and "slice (ID_String i) 14 18 = hex_encode (slice ?a 6 8)"
    and "slice (ID_String i) 19 23 = hex_encode (slice ?a 8 10)"
    and "slice (ID_String i) 24 36 = hex_encode (slice ?a 10 16)"
    by (simp_all add: ID_String_def Let_def slice_def [of "_ @ _"] slice_def [of "_ # _"])
  moreover have "ID_String i ! 8 = CHR ''-''" "ID_String i ! 13 = CHR ''-''"
    "ID_String i ! 18 = CHR ''-''" "ID_String i ! 23 = CHR ''-''"
    by (simp_all add: ID_String_def Let_def nth_append nth_Cons')
  ultimately show ?thesis by (simp add: id_segments_def)
qed

text \<open>
  The text form is a bijection: \<open>ParseIDString\<close> accepts exactly the canonical text of the
  valid identifiers and returns the identifier written there, so no second spelling of an
  identifier (upper case, missing dashes, surplus characters) is ever accepted.
\<close>

lemma ParseIDString_iff: "ParseIDString s = Inr i \<longleftrightarrow> valid_id i \<and> s = ID_String i"
proof
  assume "ParseIDString s = Inr i"
  then show "valid_id i \<and> s = ID_String i"
    by (auto simp: ParseIDString_def ParseID_Inr_iff split: if_splits sum.splits)
next
  assume "valid_id i \<and> s = ID_String i"
  then show "ParseIDString s = Inr i"
    using ParseID_Bytes [of i] by (simp add: ParseIDString_def parse_segments_String ID_Bytes_def)
qed

lemma ID_String_inject [simp]: "ID_String i = ID_String j \<longleftrightarrow> i = j"
  by (metis parse_segments_String id_array_inject Inr_inject)

section \<open>Generated identifiers\<close>

lemma valid_id_iff:
  "valid_id i \<longleftrightarrow> (id_array i ! 6) AND 0xf0 = 0x70 \<and> (id_array i ! 8) AND 0xc0 = 0x80"
proof -
  have "id_array NilID ! 6 = 0"
    by (simp add: NilID_def id_copy_def Abs_ID_inverse)
  then show ?thesis by (auto simp: ID_Validate_def)
qed

lemma valid_demo_id [simp]: "valid_id (demo_id n)"
  by (simp add: valid_id_iff demo_id_def)

lemma demo_id_inject [simp]: "demo_id m = demo_id n \<longleftrightarrow> m = n"
  by (simp add: demo_id_def id_copy_inject)

lemma demo_id_not_Nil [simp]: "demo_id n \<noteq> NilID" "\<not> ID_IsZero (demo_id n)"
  using valid_demo_id [of n] by (auto simp: ID_Validate_def ID_IsZero_def split: if_splits)

lemma version_bits: "((x AND 0x0f) OR 0x70) AND 0xf0 = (0x70 :: byte)"
  by (simp add: bit.conj_disj_distrib2 and.assoc)

lemma variant_bits: "((x AND 0x3f) OR 0x80) AND 0xc0 = (0x80 :: byte)"
  by (simp add: bit.conj_disj_distrib2 and.assoc)

lemma newID_Inr:
  assumes "newID random t = Inr i"
  shows "valid_id i" and "take 6 (id_array i) = be_bytes 6 ((word_of_int t :: u64) AND 0xffffffffffff)"
proof -
  define ms where "ms = (word_of_int t :: u64) AND 0xffffffffffff"
  from assms have "16 \<le> length random"
    by (auto simp: newID_def split: if_splits)
  with assms have i: "id_array i = (take 16 random)[0 := ucast (drop_bit 40 ms), 1 := ucast (drop_bit 32 ms),
      2 := ucast (drop_bit 24 ms), 3 := ucast (drop_bit 16 ms), 4 := ucast (drop_bit 8 ms), 5 := ucast ms,
      6 := ((random ! 6) AND 0x0f) OR 0x70, 8 := ((random ! 8) AND 0x3f) OR 0x80]"
    by (auto simp: newID_def Let_def ms_def)
  with \<open>16 \<le> length random\<close> show "valid_id i"
    by (simp add: valid_id_iff version_bits variant_bits)
  have "take 6 (id_array i) = be_bytes 6 ms"
  proof (rule nth_equalityI)
    fix k assume "k < length (take 6 (id_array i))"
    then have "k = 0 \<or> k = 1 \<or> k = 2 \<or> k = 3 \<or> k = 4 \<or> k = 5" by auto
    with \<open>16 \<le> length random\<close> show "take 6 (id_array i) ! k = be_bytes 6 ms ! k"
      by (auto simp: i numeral_eq_Suc)
  qed simp
  then show "take 6 (id_array i) = be_bytes 6 ((word_of_int t :: u64) AND 0xffffffffffff)"
    by (simp add: ms_def)
qed

lemma take_48_bits: "(w :: u64) AND 0xffffffffffff = take_bit 48 w"
  by (simp add: take_bit_eq_mask mask_eq_exp_minus_1)

text \<open>
  An identifier made by \<open>newID\<close> from a random source that delivers 16 bytes always passes
  \<open>Validate\<close>, and its first six bytes are the big-endian millisecond time modulo 48 bits;
  a shorter random source is the error \<open>ErrInvalidID\<close>, never a partial identifier.
\<close>

lemma newID_valid:
  "(16 \<le> length random \<longrightarrow>
      (\<exists>i. newID random t = Inr i \<and> valid_id i \<and>
           int (be_nat (take 6 (id_array i))) = t mod 2 ^ 48))
   \<and> (length random < 16 \<longrightarrow> newID random t = Inl ErrInvalidID)"
proof (intro conjI impI)
  assume "16 \<le> length random"
  then obtain i where i: "newID random t = Inr i"
    by (simp add: newID_def Let_def)
  have "uint (take_bit 48 (word_of_int t :: u64)) = t mod 2 ^ 48"
  proof -
    have "uint (take_bit 48 (word_of_int t :: u64)) = take_bit 48 (take_bit 64 t)"
      by (simp add: unsigned_take_bit_eq unsigned_of_int)
    also have "\<dots> = take_bit 48 t" by simp
    finally show ?thesis by (simp only: take_bit_eq_mod)
  qed
  then have "int (be_nat (take 6 (id_array i))) = t mod 2 ^ 48"
    by (simp add: newID_Inr(2) [OF i] be_nat_be_bytes take_48_bits zmod_int)
  with i newID_Inr(1) [OF i] show "\<exists>i. newID random t = Inr i \<and> valid_id i \<and>
           int (be_nat (take 6 (id_array i))) = t mod 2 ^ 48" by blast
qed (simp add: newID_def)

end
