(* ===== verification/CBOR.thy ===== *)
theory CBOR
  imports Identifiers
begin

text \<open>
  The deterministic CBOR subset (RFC 8949, major types 0, 2, 3 and 5, shortest integers, no
  indefinite lengths) that the envelope codec writes and reads: \<^verbatim>\<open>appendCBORHead\<close> and
  its wrappers and the pull decoder \<^verbatim>\<open>cborDecoder\<close> of \<^verbatim>\<open>core/sync/codec.go\<close>, and
  the second encoder \<^verbatim>\<open>appendCBORHeader\<close> of \<^verbatim>\<open>core/crypto/aad.go\<close>.
  A decoder method returns its value with the advanced decoder, or the error; after an
  error no caller reads the decoder again.
\<close>

section \<open>Encoder\<close>

definition appendCBORHead :: "bytes \<Rightarrow> byte \<Rightarrow> u64 \<Rightarrow> bytes" where
  "appendCBORHead dst major value =
     (if value < 24 then dst @ [push_bit 5 major OR ucast value]
      else if value \<le> 0xff then dst @ [push_bit 5 major OR 24, ucast value]
      else if value \<le> 0xffff then dst @ [push_bit 5 major OR 25] @ be_bytes 2 (ucast value :: 16 word)
      else if value \<le> 0xffffffff then dst @ [push_bit 5 major OR 26] @ be_bytes 4 (ucast value :: u32)
      else dst @ [push_bit 5 major OR 27] @ be_bytes 8 value)"

definition appendCBORUint :: "bytes \<Rightarrow> u64 \<Rightarrow> bytes" where
  "appendCBORUint dst value = appendCBORHead dst 0 value"

definition appendCBORBytes :: "bytes \<Rightarrow> bytes \<Rightarrow> bytes" where
  "appendCBORBytes dst value = appendCBORHead dst 2 (word_of_nat (length value)) @ value"

definition appendCBORText :: "bytes \<Rightarrow> string \<Rightarrow> bytes" where
  "appendCBORText dst value = appendCBORHead dst 3 (word_of_nat (length value)) @ str_bytes value"

text \<open>The encoder of \<^verbatim>\<open>core/crypto\<close>, which writes the integer through a fixed array.\<close>

definition appendCBORHeader :: "bytes \<Rightarrow> byte \<Rightarrow> u64 \<Rightarrow> bytes" where
  "appendCBORHeader destination major value =
     (if value < 24 then destination @ [push_bit 5 major OR ucast value]
      else if value \<le> 0xff then destination @ [push_bit 5 major OR 24, ucast value]
      else if value \<le> 0xffff then
        (let encoded = be_bytes 2 (ucast value :: 16 word)
         in destination @ [push_bit 5 major OR 25, encoded ! 0, encoded ! 1])
      else if value \<le> 0xffffffff then
        (let encoded = be_bytes 4 (ucast value :: u32)
         in (destination @ [push_bit 5 major OR 26]) @ encoded)
      else
        (let encoded = be_bytes 8 value
         in (destination @ [push_bit 5 major OR 27]) @ encoded))"

section \<open>Decoder\<close>

record cborDecoder =
  cbor_data :: bytes
  offset :: nat

datatype cbor_error =
  TruncatedItem | UnexpectedItem | NonMinimalInteger | ReservedInfo | TruncatedInteger
| InvalidMapLength | InvalidBytesLength | InvalidTextLength | InvalidUTF8 | InvalidIdentifier
| InvalidParsedID id_error
| InvalidHLCMap | InvalidHLCField | InvalidHLCLogical | UnknownHLCField | MissingHLCField

type_synonym 'a decoded = "cbor_error + 'a \<times> cborDecoder"

definition takeUint :: "nat \<Rightarrow> cborDecoder \<Rightarrow> u64 decoded" where
  "takeUint sz d =
     (if sz < 1 \<or> offset d + sz > length (cbor_data d) then Inl TruncatedInteger
      else Inr (be_word (slice (cbor_data d) (offset d) (offset d + sz)),
                d\<lparr>offset := offset d + sz\<rparr>))"

text \<open>One multi-byte case of \<open>head\<close>: the value must not fit the next smaller width.\<close>

definition minimal_uint :: "nat \<Rightarrow> (u64 \<Rightarrow> bool) \<Rightarrow> cborDecoder \<Rightarrow> u64 decoded" where
  "minimal_uint sz tooSmall d =
     (case takeUint sz d of
        Inl _ \<Rightarrow> Inl NonMinimalInteger
      | Inr (value, d') \<Rightarrow> if tooSmall value then Inl NonMinimalInteger else Inr (value, d'))"

definition cbor_head :: "byte \<Rightarrow> cborDecoder \<Rightarrow> u64 decoded" where
  "cbor_head expectedMajor d =
     (if offset d \<ge> length (cbor_data d) then Inl TruncatedItem
      else
        let initial = cbor_data d ! offset d;
            d = d\<lparr>offset := offset d + 1\<rparr>;
            major = drop_bit 5 initial;
            additional = initial AND 31
        in if major \<noteq> expectedMajor \<or> additional = 31 then Inl UnexpectedItem
           else if additional < 24 then Inr (ucast additional, d)
           else if additional = 24 then minimal_uint 1 (\<lambda>v. v < 24) d
           else if additional = 25 then minimal_uint 2 (\<lambda>v. v \<le> 0xff) d
           else if additional = 26 then minimal_uint 4 (\<lambda>v. v \<le> 0xffff) d
           else if additional = 27 then minimal_uint 8 (\<lambda>v. v \<le> 0xffffffff) d
           else Inl ReservedInfo)"

definition cbor_uint :: "cborDecoder \<Rightarrow> u64 decoded" where
  "cbor_uint d = cbor_head 0 d"

definition cbor_mapLength :: "u64 \<Rightarrow> cborDecoder \<Rightarrow> u64 decoded" where
  "cbor_mapLength mx d =
     (case cbor_head 5 d of
        Inl _ \<Rightarrow> Inl InvalidMapLength
      | Inr (len, d') \<Rightarrow> if mx < len then Inl InvalidMapLength else Inr (len, d'))"

definition cbor_bytes :: "nat \<Rightarrow> cborDecoder \<Rightarrow> bytes decoded" where
  "cbor_bytes mx d =
     (case cbor_head 2 d of
        Inl _ \<Rightarrow> Inl InvalidBytesLength
      | Inr (len, d') \<Rightarrow>
          if mx < unat len \<or> length (cbor_data d') - offset d' < unat len
          then Inl InvalidBytesLength
          else Inr (slice (cbor_data d') (offset d') (offset d' + unat len),
                    d'\<lparr>offset := offset d' + unat len\<rparr>))"

definition cbor_text :: "nat \<Rightarrow> cborDecoder \<Rightarrow> string decoded" where
  "cbor_text mx d =
     (case cbor_head 3 d of
        Inl _ \<Rightarrow> Inl InvalidTextLength
      | Inr (len, d') \<Rightarrow>
          if mx < unat len \<or> length (cbor_data d') - offset d' < unat len
          then Inl InvalidTextLength
          else
            let value = slice (cbor_data d') (offset d') (offset d' + unat len)
            in if \<not> utf8_valid value then Inl InvalidUTF8
               else Inr (bytes_str value, d'\<lparr>offset := offset d' + unat len\<rparr>))"

definition cbor_id :: "cborDecoder \<Rightarrow> ID decoded" where
  "cbor_id d =
     (case cbor_bytes 16 d of
        Inl _ \<Rightarrow> Inl InvalidIdentifier
      | Inr (value, d') \<Rightarrow>
          if length value \<noteq> 16 then Inl InvalidIdentifier
          else case ParseID value of
                 Inl e \<Rightarrow> Inl (InvalidParsedID e)
               | Inr i \<Rightarrow> Inr (i, d'))"

section \<open>Appending\<close>

text \<open>The items as byte strings of their own.\<close>

abbreviation enc_head :: "byte \<Rightarrow> u64 \<Rightarrow> bytes" where
  "enc_head \<equiv> appendCBORHead []"

abbreviation enc_uint :: "u64 \<Rightarrow> bytes" where
  "enc_uint \<equiv> appendCBORUint []"

abbreviation enc_bytes :: "bytes \<Rightarrow> bytes" where
  "enc_bytes \<equiv> appendCBORBytes []"

abbreviation enc_text :: "string \<Rightarrow> bytes" where
  "enc_text \<equiv> appendCBORText []"

lemma appendCBORHead_append: "NO_MATCH [] dst \<Longrightarrow> appendCBORHead dst m v = dst @ enc_head m v"
  by (simp add: appendCBORHead_def)

lemma appendCBORUint_append: "NO_MATCH [] dst \<Longrightarrow> appendCBORUint dst v = dst @ enc_uint v"
  by (simp add: appendCBORUint_def appendCBORHead_def)

lemma appendCBORBytes_append: "NO_MATCH [] dst \<Longrightarrow> appendCBORBytes dst v = dst @ enc_bytes v"
  by (simp add: appendCBORBytes_def appendCBORHead_def)

lemma appendCBORText_append: "NO_MATCH [] dst \<Longrightarrow> appendCBORText dst v = dst @ enc_text v"
  by (simp add: appendCBORText_def appendCBORHead_def)

lemmas cbor_append = appendCBORHead_append appendCBORUint_append appendCBORBytes_append appendCBORText_append

text \<open>Both encoders of the repository write the same head.\<close>

lemma appendCBORHeader_eq: "appendCBORHeader dst m v = appendCBORHead dst m v"
  by (simp add: appendCBORHeader_def appendCBORHead_def Let_def numeral_2_eq_2)

section \<open>A decoder between what it has read and what is left\<close>

definition mk_dec :: "bytes \<Rightarrow> bytes \<Rightarrow> cborDecoder" where
  "mk_dec pre post = \<lparr>cbor_data = pre @ post, offset = length pre\<rparr>"

lemma mk_dec_sel [simp]: "cbor_data (mk_dec pre post) = pre @ post" "offset (mk_dec pre post) = length pre"
  by (simp_all add: mk_dec_def)

lemma mk_dec_0: "\<lparr>cbor_data = data, offset = 0\<rparr> = mk_dec [] data"
  by (simp add: mk_dec_def)

lemma mk_dec_skip: "n = length xs \<Longrightarrow> mk_dec pre (xs @ post)\<lparr>offset := length pre + n\<rparr> = mk_dec (pre @ xs) post"
  by (simp add: mk_dec_def)

lemma mk_dec_skip1: "mk_dec pre (i # post)\<lparr>offset := Suc (length pre)\<rparr> = mk_dec (pre @ [i]) post"
  by (simp add: mk_dec_def)

lemma slice_mk_dec: "n = length xs \<Longrightarrow> slice (pre @ xs @ post) (length pre) (length pre + n) = xs"
  by (simp add: slice_def)

lemma mk_dec_inject: "mk_dec pre post = mk_dec pre post' \<longleftrightarrow> post = post'"
  by (simp add: mk_dec_def)

lemma decoder_is_mk_dec:
  "offset d \<le> length (cbor_data d) \<Longrightarrow>
   (d :: cborDecoder) = mk_dec (take (offset d) (cbor_data d)) (drop (offset d) (cbor_data d))"
  by (simp add: mk_dec_def min_def)

section \<open>Heads\<close>

lemma head_byte_join: "push_bit 5 (drop_bit 5 i) OR (i AND 31) = (i :: byte)"
proof -
  have "list_all (\<lambda>i. push_bit 5 (drop_bit 5 i) OR (i AND 31) = (i :: byte)) (map word_of_nat [0..<256])"
    by code_simp
  then show ?thesis by (rule byte_exhaust)
qed

lemma head_byte_split:
  fixes m a :: byte
  assumes "m < 8" "a < 32"
  shows "drop_bit 5 (push_bit 5 m OR a) = m" and "(push_bit 5 m OR a) AND 31 = a"
proof -
  have all: "list_all (\<lambda>m. list_all (\<lambda>a. drop_bit 5 (push_bit 5 m OR a) = m \<and> (push_bit 5 m OR a) AND 31 = a)
      (map word_of_nat [0..<32])) (map word_of_nat [0..<8] :: byte list)"
    by code_simp
  have "unat m < 8" "unat a < 32"
    using assms by (simp_all add: word_less_nat_alt)
  then have "m \<in> set (map word_of_nat [0..<8])" "a \<in> set (map word_of_nat [0..<32])"
    by (auto simp: image_iff intro: bexI [of _ "unat m"] bexI [of _ "unat a"])
  with all show "drop_bit 5 (push_bit 5 m OR a) = m" and "(push_bit 5 m OR a) AND 31 = a"
    unfolding list_all_iff by blast+
qed

lemma takeUint_mk_dec:
  "takeUint n (mk_dec pre post) =
     (if n < 1 \<or> length post < n then Inl TruncatedInteger
      else Inr (be_word (take n post), mk_dec (pre @ take n post) (drop n post)))"
  using mk_dec_skip [of n "take n post" pre "drop n post"]
  by (auto simp: takeUint_def slice_def)

text \<open>The payload of a head after the initial byte, by the additional information.\<close>

lemma minimal_uint_iff:
  assumes "0 < n" "n \<le> 8"
  shows "minimal_uint n small (mk_dec pre post) = Inr (v, d) \<longleftrightarrow>
     (\<exists>rest. post = be_bytes n v @ rest \<and> unat v < 256 ^ n \<and> \<not> small v
             \<and> d = mk_dec (pre @ be_bytes n v) rest)" (is "?L \<longleftrightarrow> ?R")
proof
  assume ?L
  then have "n \<le> length post" and v: "v = be_word (take n post)" and "\<not> small v"
    and d: "d = mk_dec (pre @ take n post) (drop n post)"
    using assms by (auto simp: minimal_uint_def takeUint_mk_dec split: if_splits)
  have bv: "be_bytes n v = take n post"
    unfolding v using \<open>n \<le> length post\<close> assms by (intro be_bytes_be_word) auto
  have len: "length (take n post) = n" using \<open>n \<le> length post\<close> by simp
  have "be_nat (take n post) < 256 ^ n"
    using be_nat_less [of "take n post"] unfolding len .
  moreover have "unat v \<le> be_nat (take n post)"
    by (simp add: v be_word_eq_nat unat_of_nat)
  ultimately have "unat v < 256 ^ n" by simp
  with bv d \<open>\<not> small v\<close> show ?R by (metis append_take_drop_id)
next
  assume ?R
  then show ?L
    using assms by (auto simp: minimal_uint_def takeUint_mk_dec be_word_be_bytes)
qed

lemma be_bytes_ucast:
  assumes "unat (v :: u64) < 2 ^ LENGTH('a)"
  shows "be_bytes n (ucast v :: 'a::len word) = be_bytes n v"
proof -
  have "unat (ucast v :: 'a word) = unat v"
    using assms by (simp add: unsigned_ucast_eq take_bit_eq_mod)
  then have "be_nat (be_bytes n (ucast v :: 'a word)) = be_nat (be_bytes n v)"
    by (simp add: be_nat_be_bytes)
  then show ?thesis by (simp add: be_nat_inject)
qed

text \<open>The five shapes of a head in one form.\<close>

lemma enc_head_eq:
  "enc_head m v =
     (if unat v < 24 then [push_bit 5 m OR ucast v]
      else if unat v < 256 then (push_bit 5 m OR 24) # be_bytes 1 v
      else if unat v < 65536 then (push_bit 5 m OR 25) # be_bytes 2 v
      else if unat v < 4294967296 then (push_bit 5 m OR 26) # be_bytes 4 v
      else (push_bit 5 m OR 27) # be_bytes 8 v)"
  by (auto simp: appendCBORHead_def word_less_nat_alt word_le_nat_alt be_bytes_ucast)

lemma cbor_head_Cons:
  "cbor_head m (mk_dec pre (i # post)) =
     (let major = drop_bit 5 i; additional = i AND 31; d = mk_dec (pre @ [i]) post
      in if major \<noteq> m \<or> additional = 31 then Inl UnexpectedItem
         else if additional < 24 then Inr (ucast additional, d)
         else if additional = 24 then minimal_uint 1 (\<lambda>v. v < 24) d
         else if additional = 25 then minimal_uint 2 (\<lambda>v. v \<le> 0xff) d
         else if additional = 26 then minimal_uint 4 (\<lambda>v. v \<le> 0xffff) d
         else if additional = 27 then minimal_uint 8 (\<lambda>v. v \<le> 0xffffffff) d
         else Inl ReservedInfo)"
  by (simp add: cbor_head_def Let_def nth_append mk_dec_skip1)

lemma cbor_head_Nil: "cbor_head m (mk_dec pre []) = Inl TruncatedItem"
  by (simp add: cbor_head_def)

lemma unat_ucast_u64: "unat (ucast (a :: byte) :: u64) = unat a"
proof -
  have "unat (ucast a :: u64) = take_bit LENGTH(64) (unat a)" by (rule unsigned_ucast_eq)
  also have "\<dots> = unat a" using unat_byte_less [of a] by (simp add: take_bit_nat_eq_self_iff del: unat_byte_less)
  finally show ?thesis .
qed

lemma unat_ucast_byte: "unat (v :: u64) < 256 \<Longrightarrow> unat (ucast v :: byte) = unat v"
proof -
  assume "unat v < 256"
  have "unat (ucast v :: byte) = take_bit LENGTH(8) (unat v)" by (rule unsigned_ucast_eq)
  also have "\<dots> = unat v" using \<open>unat v < 256\<close> by (simp add: take_bit_nat_eq_self_iff)
  finally show ?thesis .
qed

lemma ucast_small_byte: "(a :: byte) < 24 \<Longrightarrow> unat (ucast a :: u64) < 24 \<and> (ucast (ucast a :: u64) :: byte) = a"
  by (simp add: word_less_nat_alt word_unat_eq_iff unat_ucast_u64 unat_ucast_byte)

lemma ucast_small_u64: "unat (v :: u64) < 24 \<Longrightarrow> (ucast v :: byte) < 24 \<and> (ucast (ucast v :: byte) :: u64) = v"
  by (simp add: word_less_nat_alt word_unat_eq_iff unat_ucast_u64 unat_ucast_byte)

lemma cbor_head_sound:
  assumes "cbor_head m (mk_dec pre post) = Inr (v, d)"
  shows "\<exists>rest. post = enc_head m v @ rest \<and> d = mk_dec (pre @ enc_head m v) rest"
proof (cases post)
  case Nil
  with assms show ?thesis by (simp add: cbor_head_Nil)
next
  case (Cons i rest)
  define a where "a = i AND 31"
  have i: "i = push_bit 5 m OR a"
    using assms head_byte_join [of i] by (auto simp: Cons cbor_head_Cons Let_def a_def split: if_splits)
  from assms consider "a < 24" "v = ucast a" "d = mk_dec (pre @ [i]) rest"
    | "a = 24" "minimal_uint 1 (\<lambda>v. v < 24) (mk_dec (pre @ [i]) rest) = Inr (v, d)"
    | "a = 25" "minimal_uint 2 (\<lambda>v. v \<le> 0xff) (mk_dec (pre @ [i]) rest) = Inr (v, d)"
    | "a = 26" "minimal_uint 4 (\<lambda>v. v \<le> 0xffff) (mk_dec (pre @ [i]) rest) = Inr (v, d)"
    | "a = 27" "minimal_uint 8 (\<lambda>v. v \<le> 0xffffffff) (mk_dec (pre @ [i]) rest) = Inr (v, d)"
    by (simp add: Cons cbor_head_Cons Let_def a_def [symmetric] split: if_splits)
  then show ?thesis
  proof cases
    case 1
    then show ?thesis using ucast_small_byte [of a] i Cons by (auto simp: enc_head_eq)
  qed (auto simp: minimal_uint_iff enc_head_eq Cons i word_less_nat_alt word_le_nat_alt)
qed

lemma cbor_head_complete:
  assumes "m < 8"
  shows "cbor_head m (mk_dec pre (enc_head m v @ rest)) = Inr (v, mk_dec (pre @ enc_head m v) rest)"
proof -
  have sp: "drop_bit 5 (push_bit 5 m OR a) = m" "(push_bit 5 m OR a) AND 31 = a" if "a < 32" for a
    using head_byte_split [OF assms that] by simp_all
  have v: "unat v < 256 ^ 8" using unsigned_less [of v] by simp
  consider "unat v < 24" | "\<not> unat v < 24" "unat v < 256" | "\<not> unat v < 256" "unat v < 65536"
    | "\<not> unat v < 65536" "unat v < 4294967296" | "\<not> unat v < 4294967296" by linarith
  then show ?thesis
  proof cases
    case 1
    then have "(ucast v :: byte) < 32"
      by (simp add: word_less_nat_alt unat_ucast_byte)
    moreover from 1 have "(ucast v :: byte) \<noteq> 31"
      by (simp add: word_unat_eq_iff unat_ucast_byte)
    ultimately show ?thesis
      using 1 ucast_small_u64 [of v] by (simp add: enc_head_eq cbor_head_Cons sp Let_def del: drop_bit_or)
  qed (use v in \<open>simp_all add: enc_head_eq cbor_head_Cons sp Let_def minimal_uint_iff
         word_less_nat_alt word_le_nat_alt del: drop_bit_or\<close>)
qed

text \<open>
  The head decoder accepts exactly the shortest-form heads the encoder writes: for a major
  type below 8 it succeeds if and only if the unread input starts with the encoding of the
  value, and it consumes exactly that encoding. Truncated, indefinite, reserved, over-long
  and wrongly typed heads are all rejected.
\<close>

lemma cbor_head_iff:
  assumes "m < 8"
  shows "cbor_head m (mk_dec pre post) = Inr (v, d) \<longleftrightarrow>
    (\<exists>rest. post = enc_head m v @ rest \<and> d = mk_dec (pre @ enc_head m v) rest)"
  using cbor_head_sound [of m pre post v d] cbor_head_complete [OF assms, of pre v] by auto

section \<open>Items that are read back\<close>

text \<open>
  The contract between an item writer and its reader: on the values the writer is used for,
  the reader returns the value and stops right after the item. Everything that composes
  items into maps relies on this law only; in particular the encoding is prefix free.
\<close>

locale item_codec =
  fixes enc :: "'a \<Rightarrow> bytes" and dec :: "cborDecoder \<Rightarrow> 'a decoded" and ok :: "'a \<Rightarrow> bool"
  assumes dec_enc: "ok x \<Longrightarrow> dec (mk_dec pre (enc x @ post)) = Inr (x, mk_dec (pre @ enc x) post)"
begin

lemma dec_enc_end: "ok x \<Longrightarrow> dec (mk_dec pre (enc x)) = Inr (x, mk_dec (pre @ enc x) [])"
  using dec_enc [of x pre "[]"] by simp

lemma enc_prefix_free:
  assumes "ok x" "ok y" "enc x @ p = enc y @ q"
  shows "x = y \<and> p = q"
  using dec_enc [OF assms(1), of "[]" p] dec_enc [OF assms(2), of "[]" q] assms(3) by auto

lemma enc_append_inject: "ok x \<Longrightarrow> ok y \<Longrightarrow> enc x @ p = enc y @ q \<longleftrightarrow> x = y \<and> p = q"
  using enc_prefix_free by blast

lemma enc_inject: "ok x \<Longrightarrow> ok y \<Longrightarrow> enc x = enc y \<longleftrightarrow> x = y"
  using enc_prefix_free [of x y "[]" "[]"] by auto

end

interpretation uint_item: item_codec enc_uint cbor_uint "\<lambda>_. True"
  by unfold_locales (simp add: cbor_uint_def appendCBORUint_def cbor_head_complete)

interpretation map_item: item_codec "enc_head 5" "cbor_mapLength mx" "\<lambda>v. v \<le> mx" for mx
  by unfold_locales (simp add: cbor_mapLength_def cbor_head_complete)

lemma unat_of_length: "n < 2 ^ 64 \<Longrightarrow> unat (word_of_nat n :: u64) = n"
  by (simp add: unat_of_nat)

interpretation bytes_item: item_codec enc_bytes "cbor_bytes mx" "\<lambda>b. length b \<le> mx \<and> length b < 2 ^ 64" for mx
proof
  fix b pre post :: bytes
  assume "length b \<le> mx \<and> length b < 2 ^ 64"
  then show "cbor_bytes mx (mk_dec pre (enc_bytes b @ post)) = Inr (b, mk_dec (pre @ enc_bytes b) post)"
    using mk_dec_skip [of "length b" b "pre @ enc_head 2 (word_of_nat (length b))" post]
      slice_mk_dec [of "length b" b "pre @ enc_head 2 (word_of_nat (length b))" post]
    by (simp add: cbor_bytes_def appendCBORBytes_def cbor_head_complete unat_of_length del: unat_of_nat)
qed

interpretation text_item: item_codec enc_text "cbor_text mx"
  "\<lambda>s. length s \<le> mx \<and> length s < 2 ^ 64 \<and> utf8_valid (str_bytes s)" for mx
proof
  fix s :: string and pre post :: bytes
  assume "length s \<le> mx \<and> length s < 2 ^ 64 \<and> utf8_valid (str_bytes s)"
  then show "cbor_text mx (mk_dec pre (enc_text s @ post)) = Inr (s, mk_dec (pre @ enc_text s) post)"
    using mk_dec_skip [of "length s" "str_bytes s" "pre @ enc_head 3 (word_of_nat (length s))" post]
      slice_mk_dec [of "length s" "str_bytes s" "pre @ enc_head 3 (word_of_nat (length s))" post]
    by (simp add: cbor_text_def appendCBORText_def cbor_head_complete unat_of_length Let_def del: unat_of_nat)
qed

interpretation id_item: item_codec "\<lambda>i. enc_bytes (ID_Bytes i)" cbor_id valid_id
  by unfold_locales (simp add: cbor_id_def bytes_item.dec_enc)

end
