(* ===== verification/Hybrid_Clock.thy ===== *)
theory Hybrid_Clock
  imports Identifiers
begin

text \<open>
  The Hybrid Logical Clock of \<^verbatim>\<open>core/model/hlc.go\<close> and the last-writer-wins register of
  \<^verbatim>\<open>core/model/lww.go\<close>. \<open>Tick\<close> and \<open>Observe\<close> take the wall clock reading
  \<^verbatim>\<open>c.now().UnixMilli()\<close> and the clock, and return the issued value (or the error) with the
  clock after the call; the mutex makes each call one such step. The physical component is a
  64-bit and the logical counter a 32-bit word, so the addition of the skew wraps as in Go.
\<close>

section \<open>Clock values\<close>

record HLC =
  PhysicalMS :: u64
  Logical :: u32
  ClockDeviceID :: ID

datatype hlc_error = ErrInvalidHLC | ErrClockOverflow

definition HLC_IsZero :: "HLC \<Rightarrow> bool" where
  "HLC_IsZero h \<longleftrightarrow> PhysicalMS h = 0 \<and> Logical h = 0 \<and> ID_IsZero (ClockDeviceID h)"

definition HLC_Validate :: "HLC \<Rightarrow> hlc_error + unit" where
  "HLC_Validate h =
     (if HLC_IsZero h then Inr ()
      else case ID_Validate (ClockDeviceID h) of Inl _ \<Rightarrow> Inl ErrInvalidHLC | Inr _ \<Rightarrow> Inr ())"

definition HLC_Compare :: "HLC \<Rightarrow> HLC \<Rightarrow> int" where
  "HLC_Compare h other =
     (if PhysicalMS h < PhysicalMS other then - 1
      else if PhysicalMS other < PhysicalMS h then 1
      else if Logical h < Logical other then - 1
      else if Logical other < Logical h then 1
      else ID_Compare (ClockDeviceID h) (ClockDeviceID other))"

abbreviation MaxUint32 :: u32 where
  "MaxUint32 \<equiv> 0xffffffff"

definition advance :: "HLC \<Rightarrow> u64 \<Rightarrow> ID \<Rightarrow> hlc_error + HLC" where
  "advance h nowMS dev =
     (if PhysicalMS h < nowMS then Inr \<lparr>PhysicalMS = nowMS, Logical = 0, ClockDeviceID = dev\<rparr>
      else if Logical h = MaxUint32 then Inl ErrClockOverflow
      else Inr \<lparr>PhysicalMS = PhysicalMS h, Logical = Logical h + 1, ClockDeviceID = dev\<rparr>)"

section \<open>The device clock\<close>

record Clock =
  deviceID :: ID
  last_hlc :: HLC
  maxFutureSkew :: int  \<comment> \<open>a \<^verbatim>\<open>time.Duration\<close> in nanoseconds\<close>

definition DefaultMaxFutureSkew :: int where
  "DefaultMaxFutureSkew = 5 * 60 * 1000000000"

text \<open>\<^verbatim>\<open>Duration.Milliseconds\<close> truncates towards zero.\<close>

definition duration_ms :: "int \<Rightarrow> int" where
  "duration_ms d = sgn d * (\<bar>d\<bar> div 1000000)"

definition NewClock :: "ID \<Rightarrow> HLC \<Rightarrow> int \<Rightarrow> hlc_error + Clock" where
  "NewClock dev persisted skew =
     (case ID_Validate dev of
        Inl _ \<Rightarrow> Inl ErrInvalidHLC
      | Inr _ \<Rightarrow> bind_res (HLC_Validate persisted) (\<lambda>_.
          Inr \<lparr>deviceID = dev, last_hlc = persisted,
               maxFutureSkew = (if skew \<le> 0 then DefaultMaxFutureSkew else skew)\<rparr>))"

definition Tick :: "int \<Rightarrow> Clock \<Rightarrow> (hlc_error + HLC) \<times> Clock" where
  "Tick unixMilli c =
     (let nowMS = word_of_int unixMilli in
      case advance (last_hlc c) nowMS (deviceID c) of
        Inl e \<Rightarrow> (Inl e, c)
      | Inr nxt \<Rightarrow> (Inr nxt, c\<lparr>last_hlc := nxt\<rparr>))"

text \<open>
  The part of \<open>Observe\<close> after the remote value is validated and clamped: the merged physical
  time and the logical counter chosen by the four-way \<^verbatim>\<open>switch\<close>.
\<close>

definition max_allowed :: "int \<Rightarrow> Clock \<Rightarrow> u64" where
  "max_allowed unixMilli c = word_of_int unixMilli + word_of_int (duration_ms (maxFutureSkew c))"

definition merge_logical :: "HLC \<Rightarrow> u64 \<Rightarrow> u64 \<Rightarrow> u32 \<Rightarrow> hlc_error + u32" where
  "merge_logical lst physical remotePhysical remoteLogical =
     (if physical = PhysicalMS lst \<and> physical = remotePhysical then
        let logical = (if Logical lst < remoteLogical then remoteLogical else Logical lst)
        in if logical = MaxUint32 then Inl ErrClockOverflow else Inr (logical + 1)
      else if physical = PhysicalMS lst then
        (if Logical lst = MaxUint32 then Inl ErrClockOverflow else Inr (Logical lst + 1))
      else if physical = remotePhysical then
        (if remoteLogical = MaxUint32 then Inl ErrClockOverflow else Inr (remoteLogical + 1))
      else Inr 0)"

definition Observe :: "int \<Rightarrow> HLC \<Rightarrow> Clock \<Rightarrow> (hlc_error + HLC) \<times> Clock" where
  "Observe unixMilli remote c =
     (case HLC_Validate remote of
        Inl e \<Rightarrow> (Inl e, c)
      | Inr _ \<Rightarrow>
          (let nowMS = word_of_int unixMilli;
               maxAllowed = max_allowed unixMilli c;
               remotePhysical = (if maxAllowed < PhysicalMS remote then maxAllowed else PhysicalMS remote);
               remoteLogical = (if maxAllowed < PhysicalMS remote then 0 else Logical remote);
               physical = PhysicalMS (last_hlc c);
               physical = (if physical < remotePhysical then remotePhysical else physical);
               physical = (if physical < nowMS then nowMS else physical)
           in case merge_logical (last_hlc c) physical remotePhysical remoteLogical of
                Inl e \<Rightarrow> (Inl e, c)
              | Inr logical \<Rightarrow>
                  (let nxt = \<lparr>PhysicalMS = physical, Logical = logical, ClockDeviceID = deviceID c\<rparr>
                   in (Inr nxt, c\<lparr>last_hlc := nxt\<rparr>))))"

text \<open>A run of clock calls, and the values they issued in order.\<close>

datatype clock_call = CallTick int | CallObserve int HLC

fun clock_step :: "clock_call \<Rightarrow> Clock \<Rightarrow> (hlc_error + HLC) \<times> Clock" where
  "clock_step (CallTick t) c = Tick t c"
| "clock_step (CallObserve t h) c = Observe t h c"

fun clock_run :: "Clock \<Rightarrow> clock_call list \<Rightarrow> HLC list \<times> Clock" where
  "clock_run c [] = ([], c)"
| "clock_run c (e # es) =
     (case clock_step e c of
        (Inl _, c') \<Rightarrow> clock_run c' es
      | (Inr h, c') \<Rightarrow> (let (hs, c'') = clock_run c' es in (h # hs, c'')))"

section \<open>Last-writer-wins registers\<close>

record 'a LWW =
  Value :: 'a
  LWWClock :: HLC

definition LWW_Merge :: "'a LWW \<Rightarrow> 'a LWW \<Rightarrow> 'a LWW" where
  "LWW_Merge r other = (if 0 < HLC_Compare (LWWClock other) (LWWClock r) then other else r)"

section \<open>The order of clock values\<close>

lemma HLC_eqI:
  "PhysicalMS a = PhysicalMS b \<Longrightarrow> Logical a = Logical b \<Longrightarrow> ClockDeviceID a = ClockDeviceID b \<Longrightarrow> a = (b :: HLC)"
  by simp

interpretation hlc_cmp: comparator HLC_Compare
proof unfold_locales
  fix a b c :: HLC
  show "HLC_Compare a b = 0 \<longleftrightarrow> a = b"
    by (auto simp: HLC_Compare_def id_cmp.cmp_eq intro: HLC_eqI)
  show "HLC_Compare b a = - HLC_Compare a b"
    using id_cmp.cmp_swap [of "ClockDeviceID a" "ClockDeviceID b"] by (auto simp: HLC_Compare_def)
  show "HLC_Compare a b < 0 \<Longrightarrow> HLC_Compare b c < 0 \<Longrightarrow> HLC_Compare a c < 0"
    using id_cmp.cmp_trans [of "ClockDeviceID a" "ClockDeviceID b" "ClockDeviceID c"]
    by (auto simp: HLC_Compare_def split: if_splits)
qed

abbreviation hlc_before :: "HLC \<Rightarrow> HLC \<Rightarrow> bool" where
  "hlc_before a b \<equiv> HLC_Compare a b < 0"

lemma hlc_before_iff:
  "hlc_before a b \<longleftrightarrow> PhysicalMS a < PhysicalMS b \<or>
     PhysicalMS a = PhysicalMS b \<and>
       (Logical a < Logical b \<or> Logical a = Logical b \<and> ID_Compare (ClockDeviceID a) (ClockDeviceID b) < 0)"
  by (auto simp: HLC_Compare_def)

section \<open>Steps of the clock\<close>

lemma less_succ_u32:
  assumes "x \<noteq> MaxUint32"
  shows "x < x + (1 :: u32)"
proof -
  have "x + 1 \<noteq> 0"
  proof
    assume "x + 1 = 0"
    then have "x = - 1" by (simp add: eq_neg_iff_add_eq_0)
    with assms show False by simp
  qed
  then have "unat (x + 1) = unat x + 1"
    using unatSuc [of x] by (simp add: add.commute)
  then show ?thesis by (simp add: word_less_nat_alt)
qed

lemma advance_after: "advance h t d = Inr n \<Longrightarrow> hlc_before h n \<and> ClockDeviceID n = d"
  by (auto simp: advance_def hlc_before_iff less_succ_u32 split: if_splits)

lemma merge_logical_after_last:
  "merge_logical lst physical rp rl = Inr l \<Longrightarrow> physical = PhysicalMS lst \<Longrightarrow> Logical lst < l"
  by (auto simp: merge_logical_def Let_def less_succ_u32 split: if_splits)
     (meson less_succ_u32 less_trans)

lemma merge_logical_after_remote:
  "merge_logical lst physical rp rl = Inr l \<Longrightarrow> physical = rp \<Longrightarrow> rl < l"
  by (auto simp: merge_logical_def Let_def less_succ_u32 split: if_splits)
     (meson less_succ_u32 le_less_trans not_less)

text \<open>A successful \<open>Observe\<close>, taken apart: the clamped remote value and the merged result.\<close>

lemma Observe_InrE:
  assumes "Observe t remote c = (Inr h, c')"
  obtains rp rl where
    "HLC_Validate remote = Inr ()" "c' = c\<lparr>last_hlc := h\<rparr>" "ClockDeviceID h = deviceID c"
    "rp \<le> max_allowed t c" "PhysicalMS remote \<le> max_allowed t c \<Longrightarrow> rp = PhysicalMS remote \<and> rl = Logical remote"
    "PhysicalMS h = max (max (PhysicalMS (last_hlc c)) rp) (word_of_int t)"
    "merge_logical (last_hlc c) (PhysicalMS h) rp rl = Inr (Logical h)"
proof -
  define rp where "rp = (if max_allowed t c < PhysicalMS remote then max_allowed t c else PhysicalMS remote)"
  define rl where "rl = (if max_allowed t c < PhysicalMS remote then 0 else Logical remote)"
  define ph where "ph = max (max (PhysicalMS (last_hlc c)) rp) (word_of_int t)"
  have "(if (if PhysicalMS (last_hlc c) < rp then rp else PhysicalMS (last_hlc c)) < word_of_int t
         then word_of_int t else (if PhysicalMS (last_hlc c) < rp then rp else PhysicalMS (last_hlc c))) = ph"
    by (auto simp: ph_def max_def)
  with assms have "HLC_Validate remote = Inr ()" "c' = c\<lparr>last_hlc := h\<rparr>" "ClockDeviceID h = deviceID c"
    "PhysicalMS h = ph" "merge_logical (last_hlc c) ph rp rl = Inr (Logical h)"
    by (auto simp: Observe_def Let_def rp_def [symmetric] rl_def [symmetric] split: sum.splits)
  then show thesis
    by (intro that [of rp rl]) (auto simp: rp_def rl_def ph_def)
qed

lemma Observe_after_last: "Observe t remote c = (Inr h, c') \<Longrightarrow> hlc_before (last_hlc c) h"
  by (erule Observe_InrE)
     (auto simp: hlc_before_iff max_def merge_logical_after_last split: if_splits)

lemma Observe_error_keeps: "Observe t remote c = (Inl e, c') \<Longrightarrow> c' = c"
  by (auto simp: Observe_def Let_def split: sum.splits)

lemma Tick_InrD:
  "Tick t c = (Inr h, c') \<Longrightarrow> c' = c\<lparr>last_hlc := h\<rparr> \<and> hlc_before (last_hlc c) h \<and> ClockDeviceID h = deviceID c"
  by (auto simp: Tick_def Let_def dest: advance_after split: sum.splits)

lemma clock_step_Inr:
  assumes "clock_step e c = (Inr h, c')"
  shows "c' = c\<lparr>last_hlc := h\<rparr>" and "hlc_before (last_hlc c) h" and "ClockDeviceID h = deviceID c"
  using assms by (cases e; auto dest: Tick_InrD Observe_after_last elim: Observe_InrE)+

lemma clock_step_Inl: "clock_step e c = (Inl x, c') \<Longrightarrow> c' = c"
  by (cases e) (auto simp: Tick_def Let_def dest: Observe_error_keeps split: sum.splits)

section \<open>Properties of the clock\<close>

text \<open>
  C18. Every value the clock issues, by \<open>Tick\<close> or by \<open>Observe\<close>, is strictly after the
  persisted value it started from and after every value issued before it, whatever the wall
  clock does (backward jumps included) and whatever remote values are observed; all of
  them carry the device's own identifier. Failed calls issue nothing.
\<close>

theorem clock_run_increasing:
  "sorted_wrt hlc_before (last_hlc c # fst (clock_run c calls)) \<and>
   list_all (\<lambda>h. ClockDeviceID h = deviceID c) (fst (clock_run c calls))"
proof (induction calls arbitrary: c)
  case (Cons e es)
  show ?case
  proof (cases "clock_step e c")
    case (Pair r c')
    show ?thesis
    proof (cases r)
      case (Inl x)
      with Pair clock_step_Inl [of e c x c'] Cons [of c] show ?thesis by simp
    next
      case (Inr h)
      with Pair have st: "c' = c\<lparr>last_hlc := h\<rparr>" "hlc_before (last_hlc c) h" "ClockDeviceID h = deviceID c"
        by (auto dest: clock_step_Inr)
      with Cons [of c'] Pair Inr show ?thesis
        by (auto simp: split_beta Let_def intro: hlc_cmp.cmp_trans)
    qed
  qed
qed simp

text \<open>
  A value merged from a remote clock that is not too far in the future is strictly after
  the remote value and after the local one, so operations emitted next are causally later.
\<close>

lemma Observe_after_remote:
  assumes "Observe t remote c = (Inr h, c')" and "PhysicalMS remote \<le> max_allowed t c"
  shows "hlc_before remote h \<and> hlc_before (last_hlc c) h \<and> last_hlc c' = h"
proof -
  have "hlc_before remote h"
    using assms(1)
  proof (rule Observe_InrE)
    fix rp rl
    assume a: "PhysicalMS remote \<le> max_allowed t c \<Longrightarrow> rp = PhysicalMS remote \<and> rl = Logical remote"
      and p: "PhysicalMS h = max (max (PhysicalMS (last_hlc c)) rp) (word_of_int t)"
      and m: "merge_logical (last_hlc c) (PhysicalMS h) rp rl = Inr (Logical h)"
    from p have "rp \<le> PhysicalMS h" by (simp add: le_max_iff_disj)
    with a [OF assms(2)] merge_logical_after_remote [OF m] show ?thesis
      by (auto simp: hlc_before_iff order_le_less)
  qed
  moreover have "last_hlc c' = h" using assms(1) by (auto elim: Observe_InrE)
  ultimately show ?thesis using Observe_after_last [OF assms(1)] by simp
qed

text \<open>
  A remote value can push the clock at most the allowed skew beyond the wall clock: after
  \<open>Observe\<close> the physical time is the old one or at most wall clock plus skew, when the wall
  clock reading is not negative and the sum fits 64 bits.
\<close>

lemma Observe_bounded_skew:
  assumes "Observe t remote c = (Inr h, c')" and "0 \<le> t" and "0 \<le> maxFutureSkew c"
    and "t + duration_ms (maxFutureSkew c) < 2 ^ 64"
  shows "uint (PhysicalMS h) \<le> max (uint (PhysicalMS (last_hlc c))) (t + duration_ms (maxFutureSkew c))"
proof -
  have d: "0 \<le> duration_ms (maxFutureSkew c)"
    using assms(3) by (cases "maxFutureSkew c = 0") (simp_all add: duration_ms_def)
  have ut: "uint (word_of_int t :: u64) = t"
    using assms d by (simp add: unsigned_of_int take_bit_eq_mod)
  have um: "uint (max_allowed t c) = t + duration_ms (maxFutureSkew c)"
  proof -
    have "max_allowed t c = word_of_int (t + duration_ms (maxFutureSkew c))"
      by (simp add: max_allowed_def)
    then have "uint (max_allowed t c) = (t + duration_ms (maxFutureSkew c)) mod 2 ^ 64"
      by (simp only: unsigned_of_int take_bit_eq_mod) simp
    then show ?thesis using assms d by simp
  qed
  from assms(1) show ?thesis
  proof (rule Observe_InrE)
    fix rp rl
    assume "rp \<le> max_allowed t c" and p: "PhysicalMS h = max (max (PhysicalMS (last_hlc c)) rp) (word_of_int t)"
    then have "uint rp \<le> t + duration_ms (maxFutureSkew c)"
      using um by (simp add: word_le_def)
    with p ut d show ?thesis by (auto simp: max_def word_le_def split: if_splits)
  qed
qed

text \<open>
  Witnesses: a clock whose last value is ahead of the wall clock, and a remote value that is
  later still but within the five-minute skew.
\<close>

definition demo_clock :: Clock where
  "demo_clock = \<lparr>deviceID = demo_id 1,
     last_hlc = \<lparr>PhysicalMS = 1000, Logical = 7, ClockDeviceID = demo_id 1\<rparr>,
     maxFutureSkew = DefaultMaxFutureSkew\<rparr>"

definition demo_remote :: HLC where
  "demo_remote = \<lparr>PhysicalMS = 2000, Logical = 3, ClockDeviceID = demo_id 2\<rparr>"

lemmas demo_clock_simps = demo_clock_def demo_remote_def Observe_def HLC_Validate_def HLC_IsZero_def
  max_allowed_def merge_logical_def Let_def DefaultMaxFutureSkew_def duration_ms_def

lemma demo_observe:
  "Observe 500 demo_remote demo_clock =
     (Inr \<lparr>PhysicalMS = 2000, Logical = 4, ClockDeviceID = demo_id 1\<rparr>,
      demo_clock\<lparr>last_hlc := \<lparr>PhysicalMS = 2000, Logical = 4, ClockDeviceID = demo_id 1\<rparr>\<rparr>)"
  by (simp add: demo_clock_simps word_less_def)

section \<open>Convergence of last-writer-wins registers\<close>

text \<open>
  The contract of a register that keeps the value with the greater key. It is stated for any
  comparison of keys, so that each place where the code keeps the later writer is one instance.
\<close>

locale latest_wins = comparator cmp for cmp :: "'k \<Rightarrow> 'k \<Rightarrow> int" +
  fixes key :: "'r \<Rightarrow> 'k" and merge :: "'r \<Rightarrow> 'r \<Rightarrow> 'r"
  assumes merge_eq: "merge r s = (if 0 < cmp (key s) (key r) then s else r)"
begin

lemma merge_idem: "merge r r = r"
  by (simp add: merge_eq)

lemma merge_assoc: "merge (merge r s) t = merge r (merge s t)"
  using cmp_trans [of "key r" "key s" "key t"] cmp_le_trans [of "key t" "key s" "key r"]
  by (auto simp: merge_eq cmp_pos_iff not_less) (metis cmp_swap neg_0_le_iff_le not_less)+

lemma merge_commute: "(key r = key s \<longrightarrow> r = s) \<Longrightarrow> merge r s = merge s r"
  using cmp_cases [of "key r" "key s"] cmp_trans [of "key r" "key s" "key r"]
  by (auto simp: merge_eq cmp_pos_iff)

lemma fold_merge_in: "fold (\<lambda>s r. merge r s) ws r \<in> insert r (set ws)"
proof (induction ws arbitrary: r)
  case (Cons w ws)
  show ?case using Cons [of "merge r w"] by (auto simp: merge_eq split: if_splits)
qed simp

lemma fold_merge_ge_start: "cmp (key r) (key (fold (\<lambda>s r. merge r s) ws r)) \<le> 0"
proof (induction ws arbitrary: r)
  case (Cons w ws)
  have "cmp (key r) (key (merge r w)) \<le> 0"
    by (simp add: merge_eq cmp_pos_iff)
  then show ?case using Cons [of "merge r w"] cmp_le_trans by fastforce
qed simp

lemma fold_merge_ge: "w \<in> insert r (set ws) \<Longrightarrow> cmp (key w) (key (fold (\<lambda>s r. merge r s) ws r)) \<le> 0"
proof (induction ws arbitrary: r)
  case (Cons v ws)
  have "cmp (key v) (key (merge r v)) \<le> 0"
    using cmp_swap [of "key r" "key v"] by (auto simp: merge_eq)
  then have "cmp (key v) (key (fold (\<lambda>s r. merge r s) ws (merge r v))) \<le> 0"
    using fold_merge_ge_start [of "merge r v" ws] by (rule cmp_le_trans)
  then show ?case using Cons fold_merge_ge_start [of r "v # ws"] by auto
qed simp

lemma fold_merge_converges:
  assumes "insert r (set ws) = insert r' (set ws')" and "inj_on key (insert r (set ws))"
  shows "fold (\<lambda>s r. merge r s) ws r = fold (\<lambda>s r. merge r s) ws' r'"
proof -
  let ?a = "fold (\<lambda>s r. merge r s) ws r" and ?b = "fold (\<lambda>s r. merge r s) ws' r'"
  have in_sets: "?a \<in> insert r (set ws)" "?b \<in> insert r (set ws)"
    using fold_merge_in [of ws r] fold_merge_in [of ws' r'] assms(1) by auto
  have "cmp (key ?a) (key ?b) \<le> 0" "cmp (key ?b) (key ?a) \<le> 0"
    using fold_merge_ge in_sets assms(1) by metis+
  then have "key ?a = key ?b" by (rule cmp_antisym)
  with in_sets show ?thesis using assms(2) by (simp only: inj_on_eq_iff)
qed

end

interpretation lww: latest_wins HLC_Compare LWWClock LWW_Merge
  by unfold_locales (simp add: LWW_Merge_def)

text \<open>
  Replicas that received the same writes hold the same register, in whatever order and
  however often each write arrived, provided two writes with the same clock are the same
  write; the value held is the one of the latest clock.
\<close>

lemma LWW_converges:
  assumes "insert r (set ws) = insert r' (set ws')" and "inj_on LWWClock (insert r (set ws))"
  shows "fold (\<lambda>w reg. LWW_Merge reg w) ws r = fold (\<lambda>w reg. LWW_Merge reg w) ws' r'
    \<and> list_all (\<lambda>w. \<not> hlc_before (LWWClock (fold (\<lambda>w reg. LWW_Merge reg w) ws r)) (LWWClock w)) (r # ws)"
proof -
  have "\<not> hlc_before (LWWClock (fold (\<lambda>w reg. LWW_Merge reg w) ws r)) (LWWClock w)"
    if "w \<in> insert r (set ws)" for w
    using lww.fold_merge_ge [OF that] by (simp add: hlc_cmp.cmp_pos_iff [symmetric] not_less)
  then show ?thesis
    using lww.fold_merge_converges [OF assms] by (auto simp: list_all_iff)
qed

end
