(* ===== verification/Wire_Codec.thy ===== *)
theory Wire_Codec
  imports CBOR Hybrid_Clock
begin

text \<open>
  The operation envelope of \<^verbatim>\<open>core/sync/codec.go\<close>: the record \<open>WireOperation\<close>, its
  structural validation, the deterministic encoder and the strict decoder with its limits.
  The loops over map entries recurse on the number of entries left, at most eleven for an
  envelope and three for a clock. Errors are the package's three sentinels.
\<close>

section \<open>Data\<close>

record WireOperation =
  Op_ID :: ID
  Op_WorkspaceID :: ID
  Op_DeviceID :: ID
  Op_Sequence :: u64
  Op_Clock :: HLC
  Op_KeyID :: bytes
  Op_Nonce :: bytes
  Op_Ciphertext :: bytes
  Op_Signature :: bytes

record CodecLimits =
  MaxEnvelopeBytes :: int
  MaxCiphertextBytes :: int

datatype codec_error = ErrMalformedOperation | ErrUnsupportedVersion | ErrOperationSizeExceeded

definition ProtocolV1 :: string where
  "ProtocolV1 = ''beresta.sync.v1''"

definition SchemaVersionV1 :: u32 where
  "SchemaVersionV1 = 1"

abbreviation DefaultMaxOperationBytes :: int where
  "DefaultMaxOperationBytes \<equiv> 1048576"

abbreviation HardMaxOperationBytes :: int where
  "HardMaxOperationBytes \<equiv> 16777216"

abbreviation MaxOperationEnvelopeBytes :: int where
  "MaxOperationEnvelopeBytes \<equiv> HardMaxOperationBytes + 4096"

abbreviation operationEnvelopeFieldCount :: u64 where
  "operationEnvelopeFieldCount \<equiv> 10"

abbreviation AEADTagBytes :: nat where
  "AEADTagBytes \<equiv> 16"

abbreviation SignatureSize :: nat where
  "SignatureSize \<equiv> 64"

abbreviation MaxInt64 :: u64 where
  "MaxInt64 \<equiv> 0x7fffffffffffffff"

section \<open>Limits, version and validation\<close>

definition normalized :: "CodecLimits \<Rightarrow> CodecLimits" where
  "normalized l =
     (let l = (if MaxCiphertextBytes l \<le> 0 then l\<lparr>MaxCiphertextBytes := DefaultMaxOperationBytes\<rparr> else l);
          l = (if HardMaxOperationBytes < MaxCiphertextBytes l then l\<lparr>MaxCiphertextBytes := HardMaxOperationBytes\<rparr> else l);
          l = (if MaxEnvelopeBytes l \<le> 0 then l\<lparr>MaxEnvelopeBytes := MaxCiphertextBytes l + 4096\<rparr> else l);
          l = (if MaxOperationEnvelopeBytes < MaxEnvelopeBytes l then l\<lparr>MaxEnvelopeBytes := MaxOperationEnvelopeBytes\<rparr> else l)
      in l)"

fun NegotiateVersion :: "u32 list \<Rightarrow> codec_error + u32" where
  "NegotiateVersion [] = Inl ErrUnsupportedVersion"
| "NegotiateVersion (version # peer) =
     (if version = SchemaVersionV1 then Inr SchemaVersionV1 else NegotiateVersion peer)"

definition validateWireOperation :: "WireOperation \<Rightarrow> bool \<Rightarrow> int \<Rightarrow> codec_error + unit" where
  "validateWireOperation op requireSignature maxCiphertext =
     (if ID_Validate (Op_ID op) \<noteq> Inr () then Inl ErrMalformedOperation
      else if ID_Validate (Op_WorkspaceID op) \<noteq> Inr () then Inl ErrMalformedOperation
      else if ID_Validate (Op_DeviceID op) \<noteq> Inr () \<or> ClockDeviceID (Op_Clock op) \<noteq> Op_DeviceID op
              \<or> MaxInt64 < PhysicalMS (Op_Clock op) then Inl ErrMalformedOperation
      else if length (Op_KeyID op) \<noteq> 16 \<or> length (Op_Nonce op) \<noteq> 24 \<or> length (Op_Ciphertext op) < AEADTagBytes
      then Inl ErrMalformedOperation
      else if maxCiphertext < int (length (Op_Ciphertext op)) then Inl ErrOperationSizeExceeded
      else if requireSignature \<and> length (Op_Signature op) \<noteq> SignatureSize then Inl ErrMalformedOperation
      else Inr ())"

section \<open>Encoder\<close>

definition EncodeOperation :: "WireOperation \<Rightarrow> codec_error + bytes" where
  "EncodeOperation op =
     bind_res (validateWireOperation op True HardMaxOperationBytes) (\<lambda>_.
       let fieldCount = operationEnvelopeFieldCount;
           fieldCount = (if Op_Sequence op \<noteq> 0 then fieldCount + 1 else fieldCount);
           out = appendCBORHead [] 5 fieldCount;
           out = appendCBORText out ''protocol'';
           out = appendCBORText out ProtocolV1;
           out = appendCBORText out ''schema_version'';
           out = appendCBORUint out (ucast SchemaVersionV1);
           out = appendCBORText out ''op_id'';
           out = appendCBORBytes out (ID_Bytes (Op_ID op));
           out = appendCBORText out ''workspace_id'';
           out = appendCBORBytes out (ID_Bytes (Op_WorkspaceID op));
           out = appendCBORText out ''device_id'';
           out = appendCBORBytes out (ID_Bytes (Op_DeviceID op));
           out = (if Op_Sequence op \<noteq> 0 then appendCBORUint (appendCBORText out ''seq'') (Op_Sequence op) else out);
           out = appendCBORText out ''hlc'';
           out = appendCBORHead out 5 3;
           out = appendCBORText out ''physical_ms'';
           out = appendCBORUint out (PhysicalMS (Op_Clock op));
           out = appendCBORText out ''logical'';
           out = appendCBORUint out (ucast (Logical (Op_Clock op)));
           out = appendCBORText out ''device_id'';
           out = appendCBORBytes out (ID_Bytes (ClockDeviceID (Op_Clock op)));
           out = appendCBORText out ''key_id'';
           out = appendCBORBytes out (Op_KeyID op);
           out = appendCBORText out ''nonce'';
           out = appendCBORBytes out (Op_Nonce op);
           out = appendCBORText out ''ciphertext'';
           out = appendCBORBytes out (Op_Ciphertext op);
           out = appendCBORText out ''sig'';
           out = appendCBORBytes out (Op_Signature op)
       in Inr out)"

section \<open>Decoder\<close>

text \<open>The loop of \<^verbatim>\<open>cborDecoder.hlc\<close>: \<open>n\<close> entries left, the clock and the keys seen so far.\<close>

fun hlc_fields :: "nat \<Rightarrow> HLC \<Rightarrow> string set \<Rightarrow> cborDecoder \<Rightarrow> (HLC \<times> string set) decoded" where
  "hlc_fields 0 clock seen d = Inr ((clock, seen), d)"
| "hlc_fields (Suc n) clock seen d =
     (case cbor_text 16 d of
        Inl _ \<Rightarrow> Inl InvalidHLCField
      | Inr (key, d) \<Rightarrow>
          if key \<in> seen then Inl InvalidHLCField
          else let seen = insert key seen in
            if key = ''physical_ms'' then
              (case cbor_uint d of
                 Inl e \<Rightarrow> Inl e
               | Inr (v, d) \<Rightarrow> hlc_fields n (clock\<lparr>PhysicalMS := v\<rparr>) seen d)
            else if key = ''logical'' then
              (case cbor_uint d of
                 Inl _ \<Rightarrow> Inl InvalidHLCLogical
               | Inr (v, d) \<Rightarrow>
                   if 0xffffffff < v then Inl InvalidHLCLogical
                   else hlc_fields n (clock\<lparr>Logical := ucast v\<rparr>) seen d)
            else if key = ''device_id'' then
              (case cbor_id d of
                 Inl e \<Rightarrow> Inl e
               | Inr (v, d) \<Rightarrow> hlc_fields n (clock\<lparr>ClockDeviceID := v\<rparr>) seen d)
            else Inl UnknownHLCField)"

definition zero_HLC :: HLC where
  "zero_HLC = \<lparr>PhysicalMS = 0, Logical = 0, ClockDeviceID = NilID\<rparr>"

definition cbor_hlc :: "cborDecoder \<Rightarrow> HLC decoded" where
  "cbor_hlc d =
     (case cbor_mapLength 3 d of
        Inl _ \<Rightarrow> Inl InvalidHLCMap
      | Inr (len, d) \<Rightarrow>
          if len \<noteq> 3 then Inl InvalidHLCMap
          else case hlc_fields (unat len) zero_HLC {} d of
                 Inl e \<Rightarrow> Inl e
               | Inr ((clock, seen), d) \<Rightarrow>
                   if ''physical_ms'' \<notin> seen \<or> ''logical'' \<notin> seen \<or> ''device_id'' \<notin> seen
                   then Inl MissingHLCField
                   else Inr (clock, d))"

text \<open>The local variables of \<^verbatim>\<open>DecodeOperation\<close>.\<close>

record decode_state =
  dec_op :: WireOperation
  dec_seen :: "string set"
  dec_protocol :: string
  dec_schema :: u64
  dec_input :: cborDecoder

definition zero_WireOperation :: WireOperation where
  "zero_WireOperation = \<lparr>Op_ID = NilID, Op_WorkspaceID = NilID, Op_DeviceID = NilID, Op_Sequence = 0,
     Op_Clock = zero_HLC, Op_KeyID = [], Op_Nonce = [], Op_Ciphertext = [], Op_Signature = []\<rparr>"

text \<open>
  One case of the switch: read an item, check it, store it. Every error of an item becomes
  \<open>ErrMalformedOperation\<close> by \<^verbatim>\<open>wrapMalformed\<close>.
\<close>

fun store_item ::
  "'a decoded \<Rightarrow> ('a \<Rightarrow> bool) \<Rightarrow> ('a \<Rightarrow> decode_state \<Rightarrow> decode_state) \<Rightarrow> decode_state \<Rightarrow> codec_error + decode_state" where
  "store_item (Inl _) accept put st = Inl ErrMalformedOperation"
| "store_item (Inr (v, d)) accept put st =
     (if accept v then Inr ((put v st)\<lparr>dec_input := d\<rparr>) else Inl ErrMalformedOperation)"

abbreviation put_op :: "(WireOperation \<Rightarrow> WireOperation) \<Rightarrow> decode_state \<Rightarrow> decode_state" where
  "put_op f st \<equiv> st\<lparr>dec_op := f (dec_op st)\<rparr>"

definition decode_value :: "CodecLimits \<Rightarrow> string \<Rightarrow> decode_state \<Rightarrow> codec_error + decode_state" where
  "decode_value limits key st =
     (let d = dec_input st in
      if key = ''protocol'' then store_item (cbor_text 32 d) (\<lambda>_. True) (\<lambda>v. dec_protocol_update (\<lambda>_. v)) st
      else if key = ''schema_version'' then store_item (cbor_uint d) (\<lambda>_. True) (\<lambda>v. dec_schema_update (\<lambda>_. v)) st
      else if key = ''op_id'' then store_item (cbor_id d) (\<lambda>_. True) (\<lambda>v. put_op (Op_ID_update (\<lambda>_. v))) st
      else if key = ''workspace_id'' then store_item (cbor_id d) (\<lambda>_. True) (\<lambda>v. put_op (Op_WorkspaceID_update (\<lambda>_. v))) st
      else if key = ''device_id'' then store_item (cbor_id d) (\<lambda>_. True) (\<lambda>v. put_op (Op_DeviceID_update (\<lambda>_. v))) st
      else if key = ''seq'' then store_item (cbor_uint d) (\<lambda>_. True) (\<lambda>v. put_op (Op_Sequence_update (\<lambda>_. v))) st
      else if key = ''hlc'' then store_item (cbor_hlc d) (\<lambda>_. True) (\<lambda>v. put_op (Op_Clock_update (\<lambda>_. v))) st
      else if key = ''key_id'' then store_item (cbor_bytes 16 d) (\<lambda>v. length v = 16) (\<lambda>v. put_op (Op_KeyID_update (\<lambda>_. v))) st
      else if key = ''nonce'' then store_item (cbor_bytes 24 d) (\<lambda>v. length v = 24) (\<lambda>v. put_op (Op_Nonce_update (\<lambda>_. v))) st
      else if key = ''ciphertext'' then
        store_item (cbor_bytes (nat (MaxCiphertextBytes limits)) d) (\<lambda>_. True) (\<lambda>v. put_op (Op_Ciphertext_update (\<lambda>_. v))) st
      else if key = ''sig'' then
        store_item (cbor_bytes SignatureSize d) (\<lambda>v. length v = SignatureSize) (\<lambda>v. put_op (Op_Signature_update (\<lambda>_. v))) st
      else Inl ErrMalformedOperation)"

fun decode_fields :: "nat \<Rightarrow> CodecLimits \<Rightarrow> decode_state \<Rightarrow> codec_error + decode_state" where
  "decode_fields 0 limits st = Inr st"
| "decode_fields (Suc n) limits st =
     (case cbor_text 32 (dec_input st) of
        Inl _ \<Rightarrow> Inl ErrMalformedOperation
      | Inr (key, d) \<Rightarrow>
          if key \<in> dec_seen st then Inl ErrMalformedOperation
          else bind_res (decode_value limits key (st\<lparr>dec_seen := insert key (dec_seen st), dec_input := d\<rparr>))
                 (decode_fields n limits))"

definition required_fields :: "string list" where
  "required_fields = [''protocol'', ''schema_version'', ''op_id'', ''workspace_id'', ''device_id'', ''hlc'',
     ''key_id'', ''nonce'', ''ciphertext'', ''sig'']"

definition DecodeOperation :: "bytes \<Rightarrow> CodecLimits \<Rightarrow> codec_error + WireOperation" where
  "DecodeOperation data limits =
     (let limits = normalized limits in
      if MaxEnvelopeBytes limits < int (length data) then Inl ErrOperationSizeExceeded
      else case cbor_mapLength (operationEnvelopeFieldCount + 1) \<lparr>cbor_data = data, offset = 0\<rparr> of
        Inl _ \<Rightarrow> Inl ErrMalformedOperation
      | Inr (nfields, d) \<Rightarrow>
          if nfields \<noteq> operationEnvelopeFieldCount \<and> nfields \<noteq> operationEnvelopeFieldCount + 1
          then Inl ErrMalformedOperation
          else bind_res (decode_fields (unat nfields) limits
                  \<lparr>dec_op = zero_WireOperation, dec_seen = {}, dec_protocol = [], dec_schema = 0, dec_input = d\<rparr>)
            (\<lambda>st.
               if offset (dec_input st) \<noteq> length data then Inl ErrMalformedOperation
               else if dec_protocol st \<noteq> ProtocolV1 \<or> dec_schema st \<noteq> ucast SchemaVersionV1
               then Inl ErrUnsupportedVersion
               else if list_ex (\<lambda>key. key \<notin> dec_seen st) required_fields then Inl ErrMalformedOperation
               else bind_res (validateWireOperation (dec_op st) True (MaxCiphertextBytes limits)) (\<lambda>_.
                      bind_res (EncodeOperation (dec_op st)) (\<lambda>canonical.
                        if canonical \<noteq> data then Inl ErrMalformedOperation else Inr (dec_op st)))))"

section \<open>The encoded form\<close>

definition enc_hlc :: "HLC \<Rightarrow> bytes" where
  "enc_hlc h = enc_head 5 3 @ enc_text ''physical_ms'' @ enc_uint (PhysicalMS h) @
     enc_text ''logical'' @ enc_uint (ucast (Logical h)) @
     enc_text ''device_id'' @ enc_bytes (ID_Bytes (ClockDeviceID h))"

definition enc_seq :: "u64 \<Rightarrow> bytes" where
  "enc_seq q = (if q \<noteq> 0 then enc_text ''seq'' @ enc_uint q else [])"

definition enc_op :: "WireOperation \<Rightarrow> bytes" where
  "enc_op op = enc_head 5 (if Op_Sequence op \<noteq> 0 then 11 else 10) @
     enc_text ''protocol'' @ enc_text ProtocolV1 @ enc_text ''schema_version'' @ enc_uint 1 @
     enc_text ''op_id'' @ enc_bytes (ID_Bytes (Op_ID op)) @
     enc_text ''workspace_id'' @ enc_bytes (ID_Bytes (Op_WorkspaceID op)) @
     enc_text ''device_id'' @ enc_bytes (ID_Bytes (Op_DeviceID op)) @ enc_seq (Op_Sequence op) @
     enc_text ''hlc'' @ enc_hlc (Op_Clock op) @ enc_text ''key_id'' @ enc_bytes (Op_KeyID op) @
     enc_text ''nonce'' @ enc_bytes (Op_Nonce op) @ enc_text ''ciphertext'' @ enc_bytes (Op_Ciphertext op) @
     enc_text ''sig'' @ enc_bytes (Op_Signature op)"

lemma EncodeOperation_eq:
  "EncodeOperation op = bind_res (validateWireOperation op True HardMaxOperationBytes) (\<lambda>_. Inr (enc_op op))"
  by (simp add: EncodeOperation_def Let_def cbor_append enc_op_def enc_seq_def enc_hlc_def SchemaVersionV1_def)

lemma unat_u32_less [simp]: "unat (l :: u32) < 4294967296"
proof -
  have "unat l < 2 ^ LENGTH(32)" by (rule unsigned_less)
  then show ?thesis by simp
qed

lemma ucast_u32_u64: "unat (ucast (l :: u32) :: u64) = unat l"
proof -
  have "unat (ucast l :: u64) = take_bit LENGTH(64) (unat l)" by (rule unsigned_ucast_eq)
  also have "\<dots> = unat l" using unat_u32_less [of l] by (simp add: take_bit_nat_eq_self_iff del: unat_u32_less)
  finally show ?thesis .
qed

lemma ucast_u32_back [simp]: "(ucast (ucast (l :: u32) :: u64) :: u32) = l"
proof -
  have "unat (ucast (ucast l :: u64) :: u32) = take_bit LENGTH(32) (unat (ucast l :: u64))"
    by (rule unsigned_ucast_eq)
  also have "\<dots> = unat l" by (simp add: ucast_u32_u64 take_bit_nat_eq_self_iff)
  finally show ?thesis by (simp add: word_unat_eq_iff)
qed

lemma ucast_u32_le [simp]: "\<not> (0xffffffff < (ucast (l :: u32) :: u64))"
  using unat_u32_less [of l] by (simp add: word_less_nat_alt ucast_u32_u64 not_less del: unat_u32_less)

lemmas read_items = text_item.dec_enc uint_item.dec_enc bytes_item.dec_enc bytes_item.dec_enc_end
  id_item.dec_enc id_item.dec_enc_end map_item.dec_enc utf8_valid_str_ascii

interpretation hlc_item: item_codec enc_hlc cbor_hlc "\<lambda>h. valid_id (ClockDeviceID h)"
proof
  fix h :: HLC and pre post :: bytes
  assume v: "valid_id (ClockDeviceID h)"
  have n: "(3 :: nat) = Suc (Suc (Suc 0))" by simp
  have u: "unat (3 :: u64) = 3" by simp
  show "cbor_hlc (mk_dec pre (enc_hlc h @ post)) = Inr (h, mk_dec (pre @ enc_hlc h) post)"
    by (simp add: cbor_hlc_def enc_hlc_def read_items v zero_HLC_def u del: unsigned_numeral) (simp add: n read_items v)
qed

text \<open>Reading one entry of the envelope map.\<close>

lemma decode_fields_entry:
  assumes "dec_input st = mk_dec pre (enc_text key @ post)" and "key \<notin> dec_seen st"
    and "length key \<le> 32" and "list_all (\<lambda>c. (of_char c :: nat) < 128) key"
  shows "decode_fields (Suc n) limits st =
    bind_res (decode_value limits key (st\<lparr>dec_seen := insert key (dec_seen st),
        dec_input := mk_dec (pre @ enc_text key) post\<rparr>)) (decode_fields n limits)"
  using assms by (simp add: text_item.dec_enc utf8_valid_str_ascii)

lemma decode_fields_op:
  assumes "validateWireOperation op True HardMaxOperationBytes = Inr ()"
    and "int (length (Op_Ciphertext op)) \<le> MaxCiphertextBytes limits"
  shows "\<exists>seen. set required_fields \<subseteq> seen \<and>
    decode_fields (if Op_Sequence op \<noteq> 0 then 11 else 10) limits
      \<lparr>dec_op = zero_WireOperation, dec_seen = {}, dec_protocol = [], dec_schema = 0,
        dec_input = mk_dec (enc_head 5 (if Op_Sequence op \<noteq> 0 then 11 else 10))
          (drop (length (enc_head 5 (if Op_Sequence op \<noteq> 0 then 11 else 10))) (enc_op op))\<rparr>
    = Inr \<lparr>dec_op = op, dec_seen = seen, dec_protocol = ProtocolV1, dec_schema = 1, dec_input = mk_dec (enc_op op) []\<rparr>"
proof -
  have "valid_id (Op_ID op)" "valid_id (Op_WorkspaceID op)" "valid_id (Op_DeviceID op)"
    "valid_id (ClockDeviceID (Op_Clock op))" "length (Op_KeyID op) = 16" "length (Op_Nonce op) = 24"
    "length (Op_Ciphertext op) < 18446744073709551616" "length (Op_Signature op) = 64"
    "length (Op_Ciphertext op) \<le> nat (MaxCiphertextBytes limits)"
    using assms by (auto simp: validateWireOperation_def split: if_splits)
  note facts = this
  show ?thesis
  proof (cases "Op_Sequence op = 0")
    case True
    have n: "(10 :: nat) = Suc (Suc (Suc (Suc (Suc (Suc (Suc (Suc (Suc (Suc 0)))))))))" by simp
    show ?thesis
      by (simp add: True enc_op_def enc_seq_def n decode_fields_entry decode_value_def read_items
          hlc_item.dec_enc facts required_fields_def zero_WireOperation_def ProtocolV1_def
          del: decode_fields.simps(2))
  next
    case False
    have n: "(11 :: nat) = Suc (Suc (Suc (Suc (Suc (Suc (Suc (Suc (Suc (Suc (Suc 0))))))))))" by simp
    from False show ?thesis
      by (simp add: enc_op_def enc_seq_def n decode_fields_entry decode_value_def read_items
          hlc_item.dec_enc facts required_fields_def zero_WireOperation_def ProtocolV1_def
          del: decode_fields.simps(2))
  qed
qed

section \<open>Properties\<close>

lemma normalized_bounds:
  "0 < MaxCiphertextBytes (normalized l)" "MaxCiphertextBytes (normalized l) \<le> HardMaxOperationBytes"
  "0 < MaxEnvelopeBytes (normalized l)" "MaxEnvelopeBytes (normalized l) \<le> MaxOperationEnvelopeBytes"
  by (simp_all add: normalized_def Let_def)

lemma validateWireOperation_mono:
  "validateWireOperation op b m = Inr () \<Longrightarrow> m \<le> m' \<Longrightarrow> validateWireOperation op b m' = Inr ()"
  by (auto simp: validateWireOperation_def split: if_splits)

lemma validateWireOperation_limit:
  assumes "validateWireOperation op b m = Inr ()"
  shows "validateWireOperation op b m' = Inr () \<longleftrightarrow> int (length (Op_Ciphertext op)) \<le> m'"
  using assms by (auto simp: validateWireOperation_def split: if_splits)

lemma DecodeOperation_complete:
  assumes enc: "EncodeOperation op = Inr data"
    and env: "int (length data) \<le> MaxEnvelopeBytes (normalized limits)"
    and ct: "int (length (Op_Ciphertext op)) \<le> MaxCiphertextBytes (normalized limits)"
  shows "DecodeOperation data limits = Inr op"
proof -
  from enc have v: "validateWireOperation op True HardMaxOperationBytes = Inr ()" and data: "data = enc_op op"
    by (auto simp: EncodeOperation_eq err_simps)
  let ?n = "if Op_Sequence op \<noteq> 0 then 11 else 10"
  define rest where "rest = drop (length (enc_head 5 ?n)) (enc_op op)"
  have split: "enc_op op = enc_head 5 ?n @ rest"
    unfolding rest_def by (simp add: enc_op_def)
  have len: "cbor_mapLength 11 \<lparr>cbor_data = data, offset = 0\<rparr> = Inr (?n, mk_dec (enc_head 5 ?n) rest)"
    using map_item.dec_enc [of ?n 11 "[]" rest] by (simp add: mk_dec_0 data split)
  obtain seen where seen: "set required_fields \<subseteq> seen" and
    run: "decode_fields (if Op_Sequence op \<noteq> 0 then 11 else 10) (normalized limits)
      \<lparr>dec_op = zero_WireOperation, dec_seen = {}, dec_protocol = [], dec_schema = 0,
        dec_input = mk_dec (enc_head 5 ?n) rest\<rparr>
      = Inr \<lparr>dec_op = op, dec_seen = seen, dec_protocol = ProtocolV1, dec_schema = 1, dec_input = mk_dec (enc_op op) []\<rparr>"
    using decode_fields_op [OF v ct] unfolding rest_def by blast
  have "list_ex (\<lambda>key. key \<notin> seen) required_fields = False"
    using seen by (auto simp: list_ex_iff)
  moreover have "validateWireOperation op True (MaxCiphertextBytes (normalized limits)) = Inr ()"
    using validateWireOperation_limit [OF v] ct by simp
  ultimately show ?thesis
    using run env enc
    by (cases "Op_Sequence op = 0") (simp_all add: DecodeOperation_def Let_def len [unfolded data] SchemaVersionV1_def data)
qed

lemma DecodeOperation_sound:
  assumes "DecodeOperation data limits = Inr op"
  shows "EncodeOperation op = Inr data \<and> int (length data) \<le> MaxEnvelopeBytes (normalized limits) \<and>
    int (length (Op_Ciphertext op)) \<le> MaxCiphertextBytes (normalized limits)"
proof -
  from assms have env: "int (length data) \<le> MaxEnvelopeBytes (normalized limits)"
    and enc: "EncodeOperation op = Inr data"
    and v: "validateWireOperation op True (MaxCiphertextBytes (normalized limits)) = Inr ()"
    by (auto simp: DecodeOperation_def Let_def err_simps split: if_splits sum.splits)
  moreover have "int (length (Op_Ciphertext op)) \<le> MaxCiphertextBytes (normalized limits)"
    using validateWireOperation_limit [OF v] v by blast
  ultimately show ?thesis by blast
qed

text \<open>
  C8. The strict decoder is the exact inverse of the encoder: it returns an operation for a byte
  string if and only if that byte string is the operation's one deterministic encoding and
  both size limits hold. So every operation round-trips, no two encodings decode to the
  same operation, and every truncated, padded, reordered or otherwise non-canonical
  envelope is rejected.
\<close>

theorem DecodeOperation_iff:
  "DecodeOperation data limits = Inr op \<longleftrightarrow>
     EncodeOperation op = Inr data \<and> int (length data) \<le> MaxEnvelopeBytes (normalized limits) \<and>
     int (length (Op_Ciphertext op)) \<le> MaxCiphertextBytes (normalized limits)"
  using DecodeOperation_complete [of op data limits] DecodeOperation_sound [of data limits op] by blast

lemma length_enc_head: "length (enc_head m v) \<le> 9"
  by (simp add: enc_head_eq)

lemma length_enc_bytes: "length (enc_bytes b) \<le> 9 + length b"
  using length_enc_head by (simp add: appendCBORBytes_def)

lemma length_enc_text: "length (enc_text t) \<le> 9 + length t"
  using length_enc_head by (simp add: appendCBORText_def)

lemma length_enc_uint: "length (enc_uint v) \<le> 9"
  using length_enc_head by (simp add: appendCBORUint_def)

lemma length_enc_hlc: "length (enc_hlc h) \<le> 200"
  using length_enc_head [of 5 3] length_enc_text [of "''physical_ms''"] length_enc_uint [of "PhysicalMS h"]
    length_enc_text [of "''logical''"] length_enc_uint [of "ucast (Logical h)"] length_enc_text [of "''device_id''"]
    length_enc_bytes [of "ID_Bytes (ClockDeviceID h)"]
  by (simp add: enc_hlc_def)

lemma length_enc_seq: "length (enc_seq q) \<le> 30"
  using length_enc_text [of "''seq''"] length_enc_uint [of q] by (simp add: enc_seq_def)

lemma length_enc_op:
  assumes "validateWireOperation op True m = Inr ()"
  shows "length (enc_op op) \<le> length (Op_Ciphertext op) + 4096"
proof -
  have "length (Op_KeyID op) = 16" "length (Op_Nonce op) = 24" "length (Op_Signature op) = 64"
    using assms by (auto simp: validateWireOperation_def split: if_splits)
  then show ?thesis
    using length_enc_head [of 5 "if Op_Sequence op \<noteq> 0 then 11 else 10"] length_enc_text [of "''protocol''"]
      length_enc_text [of ProtocolV1] length_enc_text [of "''schema_version''"] length_enc_uint [of 1]
      length_enc_text [of "''op_id''"] length_enc_bytes [of "ID_Bytes (Op_ID op)"]
      length_enc_text [of "''workspace_id''"] length_enc_bytes [of "ID_Bytes (Op_WorkspaceID op)"]
      length_enc_text [of "''device_id''"] length_enc_bytes [of "ID_Bytes (Op_DeviceID op)"]
      length_enc_seq [of "Op_Sequence op"] length_enc_text [of "''hlc''"] length_enc_hlc [of "Op_Clock op"]
      length_enc_text [of "''key_id''"] length_enc_bytes [of "Op_KeyID op"] length_enc_text [of "''nonce''"]
      length_enc_bytes [of "Op_Nonce op"] length_enc_text [of "''ciphertext''"]
      length_enc_bytes [of "Op_Ciphertext op"] length_enc_text [of "''sig''"] length_enc_bytes [of "Op_Signature op"]
    by (simp add: enc_op_def ProtocolV1_def)
qed

text \<open>
  The envelope limit chosen by default never gets in the way: an operation that encodes and
  whose ciphertext is within the normalized ciphertext limit decodes to itself when the
  caller leaves the envelope limit at zero.
\<close>

lemma EncodeOperation_decodes:
  assumes "EncodeOperation op = Inr data" and "MaxEnvelopeBytes limits = 0"
    and "int (length (Op_Ciphertext op)) \<le> MaxCiphertextBytes (normalized limits)"
  shows "DecodeOperation data limits = Inr op"
proof -
  from assms(1) have "length data \<le> length (Op_Ciphertext op) + 4096"
    using length_enc_op by (auto simp: EncodeOperation_eq err_simps)
  moreover have "MaxEnvelopeBytes (normalized limits) = MaxCiphertextBytes (normalized limits) + 4096"
    using assms(2) by (simp add: normalized_def Let_def)
  ultimately show ?thesis using assms by (intro DecodeOperation_complete) auto
qed

definition demo_op :: WireOperation where
  "demo_op = \<lparr>Op_ID = demo_id 1, Op_WorkspaceID = demo_id 2, Op_DeviceID = demo_id 3, Op_Sequence = 0,
     Op_Clock = \<lparr>PhysicalMS = 1700000000000, Logical = 4, ClockDeviceID = demo_id 3\<rparr>,
     Op_KeyID = replicate 16 5, Op_Nonce = replicate 24 6, Op_Ciphertext = replicate 20 7, Op_Signature = replicate 64 8\<rparr>"

lemma demo_op_valid: "16 \<le> length ct \<Longrightarrow> int (length ct) \<le> m \<Longrightarrow>
   validateWireOperation (demo_op\<lparr>Op_Ciphertext := ct, Op_Sequence := q\<rparr>) True m = Inr ()"
  by (simp add: demo_op_def validateWireOperation_def)

end
