(* ===== verification/Sync_Types.thy ===== *)
theory Sync_Types
  imports Wire_Codec "HOL-Library.Multiset"
begin

text \<open>
  The vocabulary shared by the worker and the repository, from \<^verbatim>\<open>core/sync/worker.go\<close>:
  cursors, pull pages and push results with the two validators that the worker applies to
  everything a transport returns, and the errors. A Go error is a tree of wrapped values;
  \<open>err_is\<close> and \<open>as_rejected\<close> are \<^verbatim>\<open>errors.Is\<close> and \<^verbatim>\<open>errors.As\<close> on it.
\<close>

section \<open>Errors\<close>

datatype sync_error =
  ErrWorkspaceQuarantined | ErrInvalidCursor | ErrSnapshotRequired
| ErrCodec codec_error
| ContextCanceled | ContextDeadlineExceeded
| TrustFailure
| RejectedOperationError WireOperation string sync_error
| SqlError
| PlainError string
| Wrapped string sync_error
| Joined sync_error sync_error

fun err_is :: "sync_error \<Rightarrow> sync_error \<Rightarrow> bool" where
  "err_is e (Wrapped m x) = (e = Wrapped m x \<or> err_is e x)"
| "err_is e (Joined x y) = (e = Joined x y \<or> err_is e x \<or> err_is e y)"
| "err_is e (RejectedOperationError op c x) = (e = RejectedOperationError op c x \<or> err_is e x)"
| "err_is e x = (e = x)"

fun as_rejected :: "sync_error \<Rightarrow> (WireOperation \<times> string \<times> sync_error) option" where
  "as_rejected (RejectedOperationError op c x) = Some (op, c, x)"
| "as_rejected (Wrapped m x) = as_rejected x"
| "as_rejected (Joined x y) = (case as_rejected x of Some r \<Rightarrow> Some r | None \<Rightarrow> as_rejected y)"
| "as_rejected _ = None"

definition Reject :: "WireOperation \<Rightarrow> string \<Rightarrow> sync_error \<Rightarrow> sync_error" where
  "Reject op cls err = RejectedOperationError op (if cls = [] then ''invalid_operation'' else cls) err"

text \<open>\<^verbatim>\<open>errors.As(err, &trust) && trust.TrustFailure()\<close>.\<close>

definition classifySyncError :: "sync_error \<Rightarrow> string" where
  "classifySyncError err =
     (if err_is ContextDeadlineExceeded err then ''timeout''
      else if err_is (ErrCodec ErrUnsupportedVersion) err then ''unsupported_version''
      else if err_is TrustFailure err then ''trust_or_configuration''
      else ''transient_transport'')"

section \<open>Cursors, pages and results\<close>

record Cursor =
  Cur_WorkspaceID :: ID
  LastSequence :: u64
  Epoch :: u32

record PullPage =
  Page_Cursor :: Cursor
  Page_Operations :: "WireOperation list"
  Page_More :: bool

record PushResult =
  Push_OpID :: ID
  Push_Sequence :: u64
  Push_Duplicate :: bool
  PermanentError :: string

text \<open>The loop of \<open>validatePullPage\<close>: the sequence number expected next, or the error.\<close>

fun check_sequences :: "ID \<Rightarrow> u64 \<Rightarrow> WireOperation list \<Rightarrow> sync_error + u64" where
  "check_sequences workspace expected [] = Inr expected"
| "check_sequences workspace expected (operation # operations) =
     (if Op_WorkspaceID operation \<noteq> workspace \<or> Op_Sequence operation \<noteq> expected then Inl ErrInvalidCursor
      else check_sequences workspace (expected + 1) operations)"

definition validatePullPage :: "ID \<Rightarrow> Cursor \<Rightarrow> PullPage \<Rightarrow> int \<Rightarrow> sync_error + unit" where
  "validatePullPage workspace previous page limit =
     (if Cur_WorkspaceID (Page_Cursor page) \<noteq> workspace \<or> Epoch (Page_Cursor page) = 0
         \<or> limit < int (length (Page_Operations page)) then Inl ErrInvalidCursor
      else if Epoch previous \<noteq> 0 \<and> Epoch (Page_Cursor page) \<noteq> Epoch previous then Inl ErrInvalidCursor
      else bind_res (check_sequences workspace (LastSequence previous + 1) (Page_Operations page)) (\<lambda>expected.
        if Page_Operations page \<noteq> [] \<and> LastSequence (Page_Cursor page) \<noteq> expected - 1 then Inl ErrInvalidCursor
        else if Page_Operations page = [] \<and> LastSequence (Page_Cursor page) < LastSequence previous then Inl ErrInvalidCursor
        else Inr ()))"

fun check_results :: "PushResult list \<Rightarrow> ID set \<Rightarrow> sync_error + ID set" where
  "check_results [] seen = Inr seen"
| "check_results (result # results) seen =
     (if ((Push_Sequence result = 0) = (PermanentError result = [])) \<or> Push_OpID result \<in> seen
      then Inl (PlainError ''invalid push response'')
      else check_results results (insert (Push_OpID result) seen))"

definition validatePushResults :: "WireOperation list \<Rightarrow> PushResult list \<Rightarrow> sync_error + unit" where
  "validatePushResults pending results =
     (if length results \<noteq> length pending then Inl (PlainError ''push response does not cover the submitted batch'')
      else bind_res (check_results results {}) (\<lambda>seen.
        if list_ex (\<lambda>operation. Op_ID operation \<notin> seen) pending
        then Inl (PlainError ''push response omitted an operation'')
        else Inr ()))"

section \<open>What an accepted page is\<close>

lemma check_sequences_iff:
  "check_sequences w e ops = Inr e' \<longleftrightarrow>
     map Op_WorkspaceID ops = replicate (length ops) w \<and>
     map Op_Sequence ops = map (\<lambda>i. e + word_of_nat i) [0..<length ops] \<and> e' = e + word_of_nat (length ops)"
proof (induction ops arbitrary: e)
  case (Cons op ops)
  have "map (\<lambda>i. e + word_of_nat i) [0..<length (op # ops)] = e # map (\<lambda>i. e + 1 + word_of_nat i) [0..<length ops]"
    by (simp add: map_upt_Suc add.assoc del: upt_Suc)
  then show ?case using Cons [of "e + 1"] by (auto simp: add.assoc)
qed auto

text \<open>
  A page passes the worker's check exactly when it continues the cursor: it belongs to the
  workspace and epoch, fits the limit, its operations carry the consecutive sequence numbers
  after the cursor, and its own cursor is the last of them (or has not moved back when the
  page is empty).
\<close>

lemma validatePullPage_iff:
  "validatePullPage w prev page limit = Inr () \<longleftrightarrow>
     Cur_WorkspaceID (Page_Cursor page) = w \<and> Epoch (Page_Cursor page) \<noteq> 0 \<and>
     (Epoch prev = 0 \<or> Epoch (Page_Cursor page) = Epoch prev) \<and> int (length (Page_Operations page)) \<le> limit \<and>
     map Op_WorkspaceID (Page_Operations page) = replicate (length (Page_Operations page)) w \<and>
     map Op_Sequence (Page_Operations page) =
       map (\<lambda>i. LastSequence prev + 1 + word_of_nat i) [0..<length (Page_Operations page)] \<and>
     (if Page_Operations page = [] then LastSequence prev \<le> LastSequence (Page_Cursor page)
      else LastSequence (Page_Cursor page) = LastSequence prev + word_of_nat (length (Page_Operations page)))"
proof (cases "Page_Operations page = []")
  case True
  then show ?thesis by (auto simp: validatePullPage_def not_less)
next
  case False
  have "LastSequence prev + 1 + word_of_nat n - 1 = LastSequence prev + word_of_nat n" for n :: nat
    by simp
  with False show ?thesis
    by (simp add: validatePullPage_def check_sequences_iff err_simps not_less) linarith
qed

section \<open>What an accepted push response is\<close>

lemma check_results_iff:
  "check_results rs seen = Inr s \<longleftrightarrow>
     s = seen \<union> Push_OpID ` set rs \<and> distinct (map Push_OpID rs) \<and> Push_OpID ` set rs \<inter> seen = {} \<and>
     list_all (\<lambda>r. (Push_Sequence r = 0) \<noteq> (PermanentError r = [])) rs"
  by (induction rs arbitrary: seen) auto

lemma validatePushResults_iff:
  "validatePushResults pending results = Inr () \<longleftrightarrow>
     length results = length pending \<and> distinct (map Push_OpID results) \<and>
     set (map Op_ID pending) \<subseteq> set (map Push_OpID results) \<and>
     list_all (\<lambda>r. (Push_Sequence r = 0) \<noteq> (PermanentError r = [])) results"
  by (auto simp: validatePushResults_def err_simps check_results_iff list_ex_iff)

lemma validatePushResults_mset:
  assumes "validatePushResults pending results = Inr ()" and "distinct (map Op_ID pending)"
  shows "mset (map Push_OpID results) = mset (map Op_ID pending)"
proof -
  from assms(1) have r: "length results = length pending" "distinct (map Push_OpID results)"
    "set (map Op_ID pending) \<subseteq> set (map Push_OpID results)"
    by (simp_all add: validatePushResults_iff)
  have "card (set (map Op_ID pending)) = card (set (map Push_OpID results))"
    using r(1) distinct_card [OF assms(2)] distinct_card [OF r(2)] by simp
  then have "set (map Op_ID pending) = set (map Push_OpID results)"
    using card_subset_eq [OF _ r(3)] by simp
  then show ?thesis using r(2) assms(2) set_eq_iff_mset_eq_distinct by blast
qed

text \<open>
  An accepted push response answers a batch without repeated identifiers exactly once per
  operation: the answered identifiers are a permutation of the submitted ones, and each
  answer is either a sequence number or a permanent error, never both or neither.
\<close>

lemma validatePushResults_exact:
  assumes "validatePushResults pending results = Inr ()" and "distinct (map Op_ID pending)"
  shows "mset (map Push_OpID results) = mset (map Op_ID pending) \<and>
    list_all (\<lambda>r. (Push_Sequence r = 0) \<noteq> (PermanentError r = [])) results"
  using validatePushResults_mset [OF assms] assms(1) by (simp add: validatePushResults_iff)

end
