(* ===== verification/Sync_Repository.thy ===== *)
theory Sync_Repository
  imports Sync_Types "HOL-Library.Sublist"
begin

text \<open>
  The durable boundary of synchronization, \<^verbatim>\<open>core/store/sync_repository.go\<close> and
  \<^verbatim>\<open>core/store/keyrotation.go\<close>, over the tables of the client database
  (\<^verbatim>\<open>core/store/migrations\<close>). A table is the list of its rows in insertion order, or a map
  where only its primary key matters; the unique indexes and the foreign key to
  \<^verbatim>\<open>workspaces\<close> are checked where a statement can violate them, and a violation is
  \<open>SqlError\<close>, as is an unsigned value that the SQL driver cannot store. A method that runs a
  transaction returns the new database or the error; on an error the caller keeps the old
  database, which is the rollback. The materialized notes are an abstract component changed
  only by the verified operations of the processor, which is a parameter: it returns the
  class of its failure, no action, or an action on the materialized part.
\<close>

section \<open>Tables\<close>

record inbox_row =
  in_op :: WireOperation
  in_received :: int
  in_status :: nat
  in_reason :: "string option"

record outbox_row =
  ob_op_id :: ID
  ob_workspace :: ID
  ob_device :: ID
  ob_physical_ms :: u64
  ob_logical :: u32
  ob_key_id :: bytes
  ob_nonce :: bytes
  ob_ciphertext :: bytes
  ob_signature :: bytes
  ob_pushed :: "int option"
  ob_server_seq :: "u64 option"
  ob_rejection :: "string option"

record applied_row =
  ap_workspace :: ID
  ap_op_id :: ID
  ap_seq :: u64
  ap_hash :: bytes
  ap_time :: int

record cursor_row =
  cr_transport :: string
  cr_last_seq :: u64
  cr_epoch :: u32
  cr_updated :: int

record 'm client_db =
  db_workspaces :: "ID set"
  db_inbox :: "inbox_row list"
  db_outbox :: "outbox_row list"
  db_applied :: "applied_row list"
  db_cursors :: "ID \<rightharpoonup> cursor_row"
  db_rotations :: "ID \<rightharpoonup> int"
  db_blob_transfers :: "ID \<times> bytes \<times> int \<times> int \<rightharpoonup> bytes \<times> int"
  db_notes :: 'm

text \<open>The processor: its failure classes, and the action of a verified operation.\<close>

datatype verify_failure = UnsupportedVersionFailure | OtherFailure string

type_synonym 'm apply_action = "'m \<Rightarrow> string + 'm"
type_synonym 'm processor = "WireOperation \<Rightarrow> verify_failure + 'm apply_action option"

abbreviation StatusPending :: nat where "StatusPending \<equiv> 1"
abbreviation StatusApplied :: nat where "StatusApplied \<equiv> 2"
abbreviation StatusQuarantined :: nat where "StatusQuarantined \<equiv> 3"

section \<open>Cursor and quarantine\<close>

definition row_cursor :: "string \<Rightarrow> ID \<Rightarrow> 'm client_db \<Rightarrow> Cursor" where
  "row_cursor transport ws db =
     (case db_cursors db ws of
        Some r \<Rightarrow> if cr_transport r = transport
                  then \<lparr>Cur_WorkspaceID = ws, LastSequence = cr_last_seq r, Epoch = cr_epoch r\<rparr>
                  else \<lparr>Cur_WorkspaceID = ws, LastSequence = 0, Epoch = 1\<rparr>
      | None \<Rightarrow> \<lparr>Cur_WorkspaceID = ws, LastSequence = 0, Epoch = 1\<rparr>)"

definition Repo_Cursor :: "string \<Rightarrow> ID \<Rightarrow> 'm client_db \<Rightarrow> sync_error + Cursor" where
  "Repo_Cursor transport ws db = Inr (row_cursor transport ws db)"

abbreviation inbox_key :: "inbox_row \<Rightarrow> ID \<times> ID" where
  "inbox_key r \<equiv> (Op_WorkspaceID (in_op r), Op_ID (in_op r))"

abbreviation inbox_seq :: "inbox_row \<Rightarrow> ID \<times> u64" where
  "inbox_seq r \<equiv> (Op_WorkspaceID (in_op r), Op_Sequence (in_op r))"

abbreviation applied_key :: "applied_row \<Rightarrow> ID \<times> ID" where
  "applied_key r \<equiv> (ap_workspace r, ap_op_id r)"

definition quarantined :: "ID \<Rightarrow> inbox_row \<Rightarrow> bool" where
  "quarantined ws r \<longleftrightarrow> Op_WorkspaceID (in_op r) = ws \<and> in_status r = StatusQuarantined"

definition Repo_QuarantineBlocked :: "ID \<Rightarrow> 'm client_db \<Rightarrow> sync_error + bool" where
  "Repo_QuarantineBlocked ws db = Inr (list_ex (quarantined ws) (db_inbox db))"

text \<open>Values a statement can bind and rows whose workspace exists.\<close>

definition storable :: "WireOperation \<Rightarrow> bool" where
  "storable op \<longleftrightarrow> PhysicalMS (Op_Clock op) \<le> MaxInt64 \<and> Op_Sequence op \<le> MaxInt64"

text \<open>
  \<^verbatim>\<open>INSERT INTO inbox ... ON CONFLICT(workspace_id, op_id) DO ...\<close>: an existing row of the
  key is changed by \<open>upd\<close>; otherwise the row is appended, unless its sequence number is taken.
\<close>

definition inbox_upsert :: "(inbox_row \<Rightarrow> inbox_row) \<Rightarrow> inbox_row \<Rightarrow> 'm client_db \<Rightarrow> sync_error + 'm client_db" where
  "inbox_upsert upd r db =
     (if \<not> storable (in_op r) \<or> Op_WorkspaceID (in_op r) \<notin> db_workspaces db then Inl SqlError
      else if list_ex (\<lambda>x. inbox_key x = inbox_key r) (db_inbox db)
      then Inr (db\<lparr>db_inbox := map (\<lambda>x. if inbox_key x = inbox_key r then upd x else x) (db_inbox db)\<rparr>)
      else if list_ex (\<lambda>x. inbox_seq x = inbox_seq r) (db_inbox db) then Inl SqlError
      else Inr (db\<lparr>db_inbox := db_inbox db @ [r]\<rparr>))"

definition Repo_Quarantine :: "WireOperation \<Rightarrow> string \<Rightarrow> int \<Rightarrow> 'm client_db \<Rightarrow> sync_error + 'm client_db" where
  "Repo_Quarantine op reason now db =
     (let reason = (if reason = [] \<or> 128 < length reason then ''invalid_operation'' else reason) in
      case inbox_upsert (\<lambda>x. x\<lparr>in_status := StatusQuarantined, in_reason := Some reason\<rparr>)
             \<lparr>in_op = op, in_received = now, in_status = StatusQuarantined, in_reason = Some reason\<rparr> db of
        Inl e \<Rightarrow> Inl (Wrapped ''store: quarantine operation'' e)
      | Inr db' \<Rightarrow> Inr db')"

definition Repo_ListQuarantine :: "ID \<Rightarrow> 'm client_db \<Rightarrow> sync_error + (ID \<times> u64 \<times> string option \<times> int) list" where
  "Repo_ListQuarantine ws db =
     (let rows = sort_key (\<lambda>r. Op_Sequence (in_op r)) (filter (quarantined ws) (db_inbox db)) in
      if list_ex (\<lambda>r. ID_Validate (Op_ID (in_op r)) \<noteq> Inr ()) rows then Inl (PlainError ''invalid ID'')
      else Inr (map (\<lambda>r. (Op_ID (in_op r), Op_Sequence (in_op r), in_reason r, in_received r)) rows))"

definition Repo_CountQuarantine :: "ID \<Rightarrow> 'm client_db \<Rightarrow> sync_error + nat" where
  "Repo_CountQuarantine ws db = Inr (length (filter (quarantined ws) (db_inbox db)))"

definition Repo_RetryQuarantined :: "ID \<Rightarrow> ID \<Rightarrow> 'm client_db \<Rightarrow> sync_error + 'm client_db" where
  "Repo_RetryQuarantined ws opID db =
     Inr (db\<lparr>db_inbox := filter (\<lambda>r. \<not> (inbox_key r = (ws, opID) \<and> in_status r = StatusQuarantined)) (db_inbox db)\<rparr>)"

section \<open>Applying a page\<close>

definition verificationClass :: "verify_failure \<Rightarrow> string" where
  "verificationClass f = (case f of UnsupportedVersionFailure \<Rightarrow> ''unsupported_version'' | OtherFailure _ \<Rightarrow> ''verification_failed'')"

definition verify_error :: "verify_failure \<Rightarrow> sync_error" where
  "verify_error f = (case f of UnsupportedVersionFailure \<Rightarrow> ErrCodec ErrUnsupportedVersion | OtherFailure m \<Rightarrow> PlainError m)"

text \<open>The verification loop: all operations are verified before the transaction starts.\<close>

fun verify_all :: "'m processor \<Rightarrow> WireOperation list \<Rightarrow> sync_error + 'm apply_action list" where
  "verify_all verify [] = Inr []"
| "verify_all verify (operation # operations) =
     (case verify operation of
        Inl err \<Rightarrow> Inl (Reject operation (verificationClass err) (verify_error err))
      | Inr None \<Rightarrow> Inl (Reject operation ''empty_verified_operation'' (PlainError ''processor returned no apply action''))
      | Inr (Some act) \<Rightarrow> bind_res (verify_all verify operations) (\<lambda>acts. Inr (act # acts)))"

definition applied_hash :: "ID \<Rightarrow> ID \<Rightarrow> 'm client_db \<Rightarrow> bytes option" where
  "applied_hash ws opID db = map_option ap_hash (find (\<lambda>r. applied_key r = (ws, opID)) (db_applied db))"

definition insert_applied :: "applied_row \<Rightarrow> 'm client_db \<Rightarrow> sync_error + 'm client_db" where
  "insert_applied r db =
     (if MaxInt64 < ap_seq r \<or> ap_workspace r \<notin> db_workspaces db \<or>
         list_ex (\<lambda>x. applied_key x = applied_key r \<or> (ap_workspace x, ap_seq x) = (ap_workspace r, ap_seq r)) (db_applied db)
      then Inl SqlError
      else Inr (db\<lparr>db_applied := db_applied db @ [r]\<rparr>))"

definition mark_inbox_applied :: "ID \<Rightarrow> ID \<Rightarrow> 'm client_db \<Rightarrow> 'm client_db" where
  "mark_inbox_applied ws opID db =
     db\<lparr>db_inbox := map (\<lambda>r. if inbox_key r = (ws, opID) then r\<lparr>in_status := StatusApplied, in_reason := None\<rparr> else r) (db_inbox db)\<rparr>"

text \<open>One iteration of the apply loop, inside the transaction.\<close>

definition apply_one ::
  "(bytes \<Rightarrow> bytes) \<Rightarrow> int \<Rightarrow> WireOperation \<Rightarrow> 'm apply_action \<Rightarrow> 'm client_db \<Rightarrow> sync_error + 'm client_db" where
  "apply_one sha256 now operation act db =
     (case EncodeOperation operation of
        Inl e \<Rightarrow> Inl (ErrCodec e)
      | Inr encoded \<Rightarrow>
          let digest = sha256 encoded in
          case applied_hash (Op_WorkspaceID operation) (Op_ID operation) db of
            Some priorHash \<Rightarrow>
              if priorHash \<noteq> digest
              then Inl (Reject operation ''op_id_reuse'' (PlainError ''operation identifier reused with different content''))
              else Inr db
          | None \<Rightarrow>
              bind_res (inbox_upsert (\<lambda>x. x)
                  \<lparr>in_op = operation, in_received = now, in_status = StatusPending, in_reason = None\<rparr> db) (\<lambda>db.
                case act (db_notes db) of
                  Inl err \<Rightarrow> Inl (Reject operation ''apply_failed'' (PlainError err))
                | Inr notes \<Rightarrow>
                    bind_res (insert_applied \<lparr>ap_workspace = Op_WorkspaceID operation, ap_op_id = Op_ID operation,
                        ap_seq = Op_Sequence operation, ap_hash = digest, ap_time = now\<rparr> (db\<lparr>db_notes := notes\<rparr>)) (\<lambda>db.
                      Inr (mark_inbox_applied (Op_WorkspaceID operation) (Op_ID operation) db))))"

fun apply_all ::
  "(bytes \<Rightarrow> bytes) \<Rightarrow> int \<Rightarrow> (WireOperation \<times> 'm apply_action) list \<Rightarrow> 'm client_db \<Rightarrow> sync_error + 'm client_db" where
  "apply_all sha256 now [] db = Inr db"
| "apply_all sha256 now ((operation, act) # rest) db =
     bind_res (apply_one sha256 now operation act db) (apply_all sha256 now rest)"

definition upsert_cursor :: "string \<Rightarrow> Cursor \<Rightarrow> int \<Rightarrow> 'm client_db \<Rightarrow> sync_error + 'm client_db" where
  "upsert_cursor transport cursor now db =
     (if MaxInt64 < LastSequence cursor \<or> Cur_WorkspaceID cursor \<notin> db_workspaces db then Inl SqlError
      else Inr (db\<lparr>db_cursors := (db_cursors db)(Cur_WorkspaceID cursor \<mapsto>
        \<lparr>cr_transport = transport, cr_last_seq = LastSequence cursor, cr_epoch = Epoch cursor, cr_updated = now\<rparr>)\<rparr>))"

definition Repo_ApplyPage ::
  "(bytes \<Rightarrow> bytes) \<Rightarrow> string \<Rightarrow> Cursor \<Rightarrow> WireOperation list \<Rightarrow> 'm processor \<Rightarrow> int \<Rightarrow> 'm client_db
   \<Rightarrow> sync_error + 'm client_db" where
  "Repo_ApplyPage sha256 transport cursor operations verify now db =
     bind_res (verify_all verify operations) (\<lambda>verified.
       let current = row_cursor transport (Cur_WorkspaceID cursor) db in
       if Epoch cursor \<noteq> Epoch current \<or>
          (operations \<noteq> [] \<and> Op_Sequence (hd operations) \<noteq> LastSequence current + 1)
       then Inl ErrInvalidCursor
       else bind_res (apply_all sha256 now (zip operations verified) db) (upsert_cursor transport cursor now))"

section \<open>The outbox\<close>

definition KeyRotationPending :: "ID \<Rightarrow> 'm client_db \<Rightarrow> bool" where
  "KeyRotationPending ws db \<longleftrightarrow> db_rotations db ws \<noteq> None"

definition MarkKeyRotationPending :: "ID \<Rightarrow> int \<Rightarrow> 'm client_db \<Rightarrow> sync_error + 'm client_db" where
  "MarkKeyRotationPending ws now db =
     (if db_rotations db ws \<noteq> None then Inr db
      else if ws \<notin> db_workspaces db then Inl SqlError
      else Inr (db\<lparr>db_rotations := (db_rotations db)(ws \<mapsto> now)\<rparr>))"

definition ClearKeyRotationPending :: "ID \<Rightarrow> 'm client_db \<Rightarrow> 'm client_db" where
  "ClearKeyRotationPending ws db = db\<lparr>db_rotations := (db_rotations db)(ws := None)\<rparr>"

definition InsertOutboxOperation :: "WireOperation \<Rightarrow> u64 \<Rightarrow> 'm client_db \<Rightarrow> sync_error + 'm client_db" where
  "InsertOutboxOperation op createdUnixMS db =
     (if MaxInt64 < PhysicalMS (Op_Clock op) \<or> MaxInt64 < createdUnixMS \<or> Op_WorkspaceID op \<notin> db_workspaces db
         \<or> list_ex (\<lambda>r. ob_op_id r = Op_ID op) (db_outbox db)
      then Inl (Wrapped ''store: insert outbox operation'' SqlError)
      else Inr (db\<lparr>db_outbox := db_outbox db @
        [\<lparr>ob_op_id = Op_ID op, ob_workspace = Op_WorkspaceID op, ob_device = Op_DeviceID op,
          ob_physical_ms = PhysicalMS (Op_Clock op), ob_logical = Logical (Op_Clock op), ob_key_id = Op_KeyID op,
          ob_nonce = Op_Nonce op, ob_ciphertext = Op_Ciphertext op, ob_signature = Op_Signature op,
          ob_pushed = None, ob_server_seq = None, ob_rejection = None\<rparr>]\<rparr>))"

definition pending_row :: "ID \<Rightarrow> outbox_row \<Rightarrow> bool" where
  "pending_row ws r \<longleftrightarrow> ob_workspace r = ws \<and> ob_pushed r = None \<and> ob_rejection r = None"

definition scan_outbox :: "outbox_row \<Rightarrow> sync_error + WireOperation" where
  "scan_outbox r =
     (if ID_Validate (ob_op_id r) \<noteq> Inr () \<or> ID_Validate (ob_workspace r) \<noteq> Inr () \<or> ID_Validate (ob_device r) \<noteq> Inr ()
      then Inl (PlainError ''store: malformed outbox identifier'')
      else Inr \<lparr>Op_ID = ob_op_id r, Op_WorkspaceID = ob_workspace r, Op_DeviceID = ob_device r, Op_Sequence = 0,
             Op_Clock = \<lparr>PhysicalMS = ob_physical_ms r, Logical = ob_logical r, ClockDeviceID = ob_device r\<rparr>,
             Op_KeyID = ob_key_id r, Op_Nonce = ob_nonce r, Op_Ciphertext = ob_ciphertext r, Op_Signature = ob_signature r\<rparr>)"

fun scan_all :: "outbox_row list \<Rightarrow> sync_error + WireOperation list" where
  "scan_all [] = Inr []"
| "scan_all (r # rs) = bind_res (scan_outbox r) (\<lambda>op. bind_res (scan_all rs) (\<lambda>ops. Inr (op # ops)))"

definition Repo_Pending :: "ID \<Rightarrow> int \<Rightarrow> 'm client_db \<Rightarrow> sync_error + WireOperation list" where
  "Repo_Pending ws limit db =
     (if limit \<le> 0 \<or> 256 < limit then Inl (PlainError ''store: invalid outbox limit'')
      else if KeyRotationPending ws db then Inr []
      else scan_all (take (nat limit) (filter (pending_row ws) (db_outbox db))))"

definition Repo_CountPending :: "ID \<Rightarrow> 'm client_db \<Rightarrow> nat" where
  "Repo_CountPending ws db = length (filter (pending_row ws) (db_outbox db))"

definition update_outbox :: "(outbox_row \<Rightarrow> bool) \<Rightarrow> (outbox_row \<Rightarrow> outbox_row) \<Rightarrow> 'm client_db \<Rightarrow> 'm client_db" where
  "update_outbox P f db = db\<lparr>db_outbox := map (\<lambda>r. if P r then f r else r) (db_outbox db)\<rparr>"

definition mark_one :: "ID \<Rightarrow> int \<Rightarrow> PushResult \<Rightarrow> 'm client_db \<Rightarrow> sync_error + 'm client_db" where
  "mark_one ws now result db =
     (if PermanentError result \<noteq> [] then
        Inr (update_outbox (\<lambda>r. ob_workspace r = ws \<and> ob_op_id r = Push_OpID result)
               (\<lambda>r. r\<lparr>ob_rejection := Some (PermanentError result)\<rparr>) db)
      else if MaxInt64 < Push_Sequence result then Inl SqlError
      else
        let P = (\<lambda>r. ob_workspace r = ws \<and> ob_op_id r = Push_OpID result \<and> ob_pushed r = None) in
        if length (filter P (db_outbox db)) \<noteq> 1
        then Inl (PlainError ''store: push result does not match a pending operation'')
        else Inr (update_outbox P (\<lambda>r. r\<lparr>ob_pushed := Some now, ob_server_seq := Some (Push_Sequence result), ob_rejection := None\<rparr>) db))"

fun mark_all :: "ID \<Rightarrow> int \<Rightarrow> PushResult list \<Rightarrow> 'm client_db \<Rightarrow> sync_error + 'm client_db" where
  "mark_all ws now [] db = Inr db"
| "mark_all ws now (result # results) db = bind_res (mark_one ws now result db) (mark_all ws now results)"

definition Repo_MarkPushed :: "ID \<Rightarrow> PushResult list \<Rightarrow> int \<Rightarrow> 'm client_db \<Rightarrow> sync_error + 'm client_db" where
  "Repo_MarkPushed ws results now db = mark_all ws now results db"

section \<open>Blob transfer checkpoints\<close>

definition blob_args_ok :: "bytes \<Rightarrow> int \<Rightarrow> bool" where
  "blob_args_ok blobID direction \<longleftrightarrow> length blobID = 32 \<and> (direction = 1 \<or> direction = 2)"

definition RecordBlobChunk ::
  "ID \<Rightarrow> bytes \<Rightarrow> int \<Rightarrow> int \<Rightarrow> bytes \<Rightarrow> int \<Rightarrow> 'm client_db \<Rightarrow> sync_error + 'm client_db" where
  "RecordBlobChunk ws blobID direction chunkIndex digest now db =
     (if \<not> blob_args_ok blobID direction \<or> length digest \<noteq> 32 \<or> chunkIndex < 0
      then Inl (PlainError ''store: invalid blob transfer checkpoint'')
      else if ws \<notin> db_workspaces db then Inl SqlError
      else Inr (db\<lparr>db_blob_transfers := (db_blob_transfers db)((ws, blobID, direction, chunkIndex) \<mapsto> (digest, now))\<rparr>))"

definition HasBlobChunk :: "ID \<Rightarrow> bytes \<Rightarrow> int \<Rightarrow> int \<Rightarrow> bytes \<Rightarrow> 'm client_db \<Rightarrow> sync_error + bool" where
  "HasBlobChunk ws blobID direction chunkIndex digest db =
     (if \<not> blob_args_ok blobID direction \<or> length digest \<noteq> 32 \<or> chunkIndex < 0
      then Inl (PlainError ''store: invalid blob transfer checkpoint'')
      else case db_blob_transfers db (ws, blobID, direction, chunkIndex) of
             None \<Rightarrow> Inr False
           | Some (stored, _) \<Rightarrow> Inr (stored = digest))"

definition CompleteBlobTransfer :: "ID \<Rightarrow> bytes \<Rightarrow> int \<Rightarrow> 'm client_db \<Rightarrow> sync_error + 'm client_db" where
  "CompleteBlobTransfer ws blobID direction db =
     (if \<not> blob_args_ok blobID direction then Inl (PlainError ''store: invalid blob transfer checkpoint'')
      else Inr (db\<lparr>db_blob_transfers := (\<lambda>(w, b, d, i).
        if (w, b, d) = (ws, blobID, direction) then None else db_blob_transfers db (w, b, d, i))\<rparr>))"

section \<open>Exactly-once application\<close>

text \<open>
  The specification of applying a page: the identifiers applied so far and the notes. An
  operation acts once, when its identifier is new.
\<close>

type_synonym 'm apply_state = "(ID \<times> ID) set \<times> 'm"

abbreviation op_key :: "WireOperation \<Rightarrow> ID \<times> ID" where
  "op_key op \<equiv> (Op_WorkspaceID op, Op_ID op)"

fun apply_spec :: "(WireOperation \<times> 'm apply_action) list \<Rightarrow> 'm apply_state \<Rightarrow> 'm apply_state option" where
  "apply_spec [] st = Some st"
| "apply_spec ((op, act) # rest) (A, n) =
     (if op_key op \<in> A then apply_spec rest (A, n)
      else case act n of Inl _ \<Rightarrow> None | Inr n' \<Rightarrow> apply_spec rest (insert (op_key op) A, n'))"

definition abs_db :: "'m client_db \<Rightarrow> 'm apply_state" where
  "abs_db db = (applied_key ` set (db_applied db), db_notes db)"

definition op_digest :: "(bytes \<Rightarrow> bytes) \<Rightarrow> WireOperation \<Rightarrow> bytes option" where
  "op_digest sha256 op = (case EncodeOperation op of Inl _ \<Rightarrow> None | Inr e \<Rightarrow> Some (sha256 e))"

lemma applied_hash_None: "applied_hash ws i db = None \<longleftrightarrow> (ws, i) \<notin> fst (abs_db db)"
  by (auto simp: applied_hash_def abs_db_def find_None_iff)

lemma inbox_upsert_Inr:
  "inbox_upsert upd r db = Inr db' \<Longrightarrow> \<exists>rows. db' = db\<lparr>db_inbox := rows\<rparr>"
  by (auto simp: inbox_upsert_def split: if_splits)

lemma apply_one_new:
  assumes "apply_one sha256 now op act db = Inr db'" and "op_key op \<notin> fst (abs_db db)"
  shows "\<exists>d. op_digest sha256 op = Some d \<and> act (db_notes db) = Inr (db_notes db') \<and>
    db_applied db' = db_applied db @
      [\<lparr>ap_workspace = Op_WorkspaceID op, ap_op_id = Op_ID op, ap_seq = Op_Sequence op, ap_hash = d, ap_time = now\<rparr>]"
proof -
  from assms(2) have none: "applied_hash (Op_WorkspaceID op) (Op_ID op) db = None"
    by (simp add: applied_hash_None)
  from assms(1) obtain e d1 n d2 where enc: "EncodeOperation op = Inr e"
    and up: "inbox_upsert (\<lambda>x. x) \<lparr>in_op = op, in_received = now, in_status = StatusPending, in_reason = None\<rparr> db = Inr d1"
    and act: "act (db_notes d1) = Inr n"
    and ins: "insert_applied \<lparr>ap_workspace = Op_WorkspaceID op, ap_op_id = Op_ID op, ap_seq = Op_Sequence op,
        ap_hash = sha256 e, ap_time = now\<rparr> (d1\<lparr>db_notes := n\<rparr>) = Inr d2"
    and db': "db' = mark_inbox_applied (Op_WorkspaceID op) (Op_ID op) d2"
    by (auto simp: apply_one_def Let_def none err_simps)
  from inbox_upsert_Inr [OF up] obtain rows where "d1 = db\<lparr>db_inbox := rows\<rparr>" by blast
  with enc act ins db' show ?thesis
    by (auto simp: op_digest_def insert_applied_def mark_inbox_applied_def split: if_splits)
qed

lemma apply_one_old:
  assumes "apply_one sha256 now op act db = Inr db'" and "op_key op \<in> fst (abs_db db)"
  shows "db' = db \<and> applied_hash (Op_WorkspaceID op) (Op_ID op) db = op_digest sha256 op"
proof -
  from assms(2) obtain h where h: "applied_hash (Op_WorkspaceID op) (Op_ID op) db = Some h"
    using applied_hash_None [of "Op_WorkspaceID op" "Op_ID op" db] by (cases "applied_hash (Op_WorkspaceID op) (Op_ID op) db") auto
  with assms(1) show ?thesis
    by (auto simp: apply_one_def Let_def op_digest_def split: sum.splits if_splits)
qed

lemma applied_hash_append:
  "db_applied db' = db_applied db @ [r] \<Longrightarrow> applied_hash ws i db' =
     (case applied_hash ws i db of Some h \<Rightarrow> Some h | None \<Rightarrow> if applied_key r = (ws, i) then Some (ap_hash r) else None)"
  by (auto simp: applied_hash_def find_append split: option.splits)

lemma apply_one_digest:
  assumes "apply_one sha256 now op act db = Inr db'"
  shows "applied_hash (Op_WorkspaceID op) (Op_ID op) db' = op_digest sha256 op \<and> op_digest sha256 op \<noteq> None"
proof (cases "op_key op \<in> fst (abs_db db)")
  case True
  with apply_one_old [OF assms] applied_hash_None [of "Op_WorkspaceID op" "Op_ID op" db] show ?thesis by auto
next
  case False
  then have "applied_hash (Op_WorkspaceID op) (Op_ID op) db = None" by (simp add: applied_hash_None)
  with apply_one_new [OF assms False] show ?thesis by (auto simp: applied_hash_append)
qed

lemma apply_one_keeps_hash:
  assumes "apply_one sha256 now op act db = Inr db'" and "applied_hash ws i db = Some h"
  shows "applied_hash ws i db' = Some h"
proof (cases "op_key op \<in> fst (abs_db db)")
  case True
  with apply_one_old [OF assms(1)] assms(2) show ?thesis by simp
next
  case False
  with apply_one_new [OF assms(1)] assms(2) show ?thesis by (auto simp: applied_hash_append)
qed

lemma apply_one_again:
  assumes "applied_hash (Op_WorkspaceID op) (Op_ID op) db = op_digest sha256 op" and "op_digest sha256 op \<noteq> None"
  shows "apply_one sha256 now op act db = Inr db"
  using assms by (auto simp: apply_one_def op_digest_def Let_def split: sum.splits)

lemma apply_all_refines:
  "apply_all sha256 now items db = Inr db' \<Longrightarrow> apply_spec items (abs_db db) = Some (abs_db db')"
proof (induction items arbitrary: db)
  case (Cons item items)
  obtain op act where item: "item = (op, act)" by (cases item)
  from Cons.prems item obtain d1 where one: "apply_one sha256 now op act db = Inr d1" and rest: "apply_all sha256 now items d1 = Inr db'"
    by (auto simp: err_simps)
  show ?case
  proof (cases "op_key op \<in> fst (abs_db db)")
    case True
    with apply_one_old [OF one True] Cons.IH [OF rest] item show ?thesis by (cases "abs_db db") simp
  next
    case False
    with apply_one_new [OF one False] have "fst (abs_db d1) = insert (op_key op) (fst (abs_db db))"
      "act (snd (abs_db db)) = Inr (snd (abs_db d1))"
      by (auto simp: abs_db_def)
    with Cons.IH [OF rest] False item show ?thesis
      by (cases "abs_db db"; cases "abs_db d1") simp
  qed
qed simp

lemma apply_all_keeps_hash:
  "apply_all sha256 now items db = Inr db' \<Longrightarrow> applied_hash ws i db = Some h \<Longrightarrow> applied_hash ws i db' = Some h"
proof (induction items arbitrary: db)
  case (Cons item items)
  obtain op act where "item = (op, act)" by (cases item)
  with Cons.prems obtain d1 where "apply_one sha256 now op act db = Inr d1" "apply_all sha256 now items d1 = Inr db'"
    by (auto simp: err_simps)
  with Cons.IH apply_one_keeps_hash Cons.prems(2) show ?case by blast
qed simp

lemma apply_all_digests:
  "apply_all sha256 now items db = Inr db' \<Longrightarrow> (op, act) \<in> set items \<Longrightarrow>
   applied_hash (Op_WorkspaceID op) (Op_ID op) db' = op_digest sha256 op \<and> op_digest sha256 op \<noteq> None"
proof (induction items arbitrary: db)
  case (Cons item items)
  obtain o1 a1 where item: "item = (o1, a1)" by (cases item)
  from Cons.prems item obtain d1 where one: "apply_one sha256 now o1 a1 db = Inr d1" and rest: "apply_all sha256 now items d1 = Inr db'"
    by (auto simp: err_simps)
  show ?case
  proof (cases "(op, act) \<in> set items")
    case False
    with Cons.prems item have "op = o1" by auto
    with apply_one_digest [OF one] apply_all_keeps_hash [OF rest] show ?thesis by fastforce
  qed (use Cons.IH rest in blast)
qed simp

lemma apply_all_again:
  "\<forall>op \<in> set (map fst items). applied_hash (Op_WorkspaceID op) (Op_ID op) db = op_digest sha256 op \<and> op_digest sha256 op \<noteq> None \<Longrightarrow>
   apply_all sha256 now items db = Inr db"
  by (induction items) (auto simp: apply_one_again)

text \<open>
  C1. Applying a page refines exactly-once application: if \<open>ApplyPage\<close> commits, then every
  operation of the page was verified first, the notes are the result of running, in page
  order, the actions of exactly those operations whose identifier had not been applied
  before, every identifier of the page is recorded, and the cursor is the page's cursor.
\<close>

theorem ApplyPage_exactly_once:
  assumes "Repo_ApplyPage sha256 transport cursor ops verify now db = Inr db'"
  shows "\<exists>acts. verify_all verify ops = Inr acts \<and>
    apply_spec (zip ops acts) (abs_db db) = Some (abs_db db') \<and>
    row_cursor transport (Cur_WorkspaceID cursor) db' = cursor"
proof -
  from assms obtain acts d1 where v: "verify_all verify ops = Inr acts"
    and a: "apply_all sha256 now (zip ops acts) db = Inr d1" and u: "upsert_cursor transport cursor now d1 = Inr db'"
    by (auto simp: Repo_ApplyPage_def Let_def err_simps split: if_splits)
  from u have "abs_db db' = abs_db d1" "row_cursor transport (Cur_WorkspaceID cursor) db' = cursor"
    by (auto simp: upsert_cursor_def abs_db_def row_cursor_def split: if_splits)
  with v apply_all_refines [OF a] show ?thesis by simp
qed

text \<open>
  Redelivery is harmless: if the operations of a committed page are delivered again (after a
  crash, a restore of the cursor, or by a transport that repeats itself), applying them
  again changes nothing in the database, whatever the time and the actions.
\<close>

lemma apply_all_redelivery:
  assumes "apply_all sha256 now items db = Inr db'" and "map fst items' = map fst items"
  shows "apply_all sha256 now' items' db' = Inr db'"
proof (rule apply_all_again, rule ballI)
  fix op assume "op \<in> set (map fst items')"
  then obtain act where "(op, act) \<in> set items" unfolding assms(2) by auto
  with apply_all_digests [OF assms(1)]
  show "applied_hash (Op_WorkspaceID op) (Op_ID op) db' = op_digest sha256 op \<and> op_digest sha256 op \<noteq> None" by blast
qed

section \<open>Integrity of the tables\<close>

text \<open>The uniqueness constraints of the schema, and the pairing of statuses and reasons.\<close>

definition reason_ok :: "inbox_row \<Rightarrow> bool" where
  "reason_ok r \<longleftrightarrow> (in_reason r = None \<longleftrightarrow> in_status r \<noteq> StatusQuarantined)"

definition inbox_ok :: "inbox_row list \<Rightarrow> bool" where
  "inbox_ok rows \<longleftrightarrow> distinct (map inbox_key rows) \<and> distinct (map inbox_seq rows) \<and> list_all reason_ok rows"

definition applied_ok :: "applied_row list \<Rightarrow> bool" where
  "applied_ok rows \<longleftrightarrow> distinct (map applied_key rows) \<and> distinct (map (\<lambda>r. (ap_workspace r, ap_seq r)) rows)"

definition repo_inv :: "'m client_db \<Rightarrow> bool" where
  "repo_inv db \<longleftrightarrow> inbox_ok (db_inbox db) \<and> applied_ok (db_applied db) \<and> distinct (map ob_op_id (db_outbox db))"

lemma repo_invI_tables:
  "repo_inv db \<Longrightarrow> db_inbox db' = db_inbox db \<Longrightarrow> db_applied db' = db_applied db \<Longrightarrow> db_outbox db' = db_outbox db \<Longrightarrow> repo_inv db'"
  by (simp add: repo_inv_def)

lemma inbox_ok_map:
  assumes "inbox_ok rows" "\<And>x. in_op (f x) = in_op x" "\<And>x. reason_ok x \<Longrightarrow> reason_ok (f x)"
  shows "inbox_ok (map f rows)"
  using assms by (simp add: inbox_ok_def comp_def list_all_iff)

lemma inbox_ok_snoc:
  "inbox_ok rows \<Longrightarrow> inbox_key r \<notin> inbox_key ` set rows \<Longrightarrow> inbox_seq r \<notin> inbox_seq ` set rows \<Longrightarrow> reason_ok r \<Longrightarrow> inbox_ok (rows @ [r])"
  by (simp add: inbox_ok_def)

lemma applied_ok_snoc:
  "applied_ok rows \<Longrightarrow> applied_key r \<notin> applied_key ` set rows \<Longrightarrow>
   (ap_workspace r, ap_seq r) \<notin> (\<lambda>r. (ap_workspace r, ap_seq r)) ` set rows \<Longrightarrow> applied_ok (rows @ [r])"
  by (simp add: applied_ok_def)

lemma inbox_upsert_inv:
  assumes "repo_inv db" "inbox_upsert upd r db = Inr db'" "\<And>x. in_op (upd x) = in_op x"
    "reason_ok r" "\<And>x. reason_ok x \<Longrightarrow> reason_ok (upd x)"
  shows "repo_inv db'"
proof (cases "list_ex (\<lambda>x. inbox_key x = inbox_key r) (db_inbox db)")
  case True
  with assms(2) have d: "db' = db\<lparr>db_inbox := map (\<lambda>x. if inbox_key x = inbox_key r then upd x else x) (db_inbox db)\<rparr>"
    by (simp add: inbox_upsert_def split: if_splits)
  have "inbox_ok (map (\<lambda>x. if inbox_key x = inbox_key r then upd x else x) (db_inbox db))"
    using assms by (intro inbox_ok_map) (auto simp: repo_inv_def)
  with assms(1) d show ?thesis by (simp add: repo_inv_def)
next
  case False
  with assms(2) have d: "db' = db\<lparr>db_inbox := db_inbox db @ [r]\<rparr>" and n: "\<not> list_ex (\<lambda>x. inbox_seq x = inbox_seq r) (db_inbox db)"
    by (auto simp: inbox_upsert_def split: if_splits)
  have "inbox_ok (db_inbox db @ [r])"
    using assms(1,4) False n by (intro inbox_ok_snoc) (force simp: repo_inv_def list_ex_iff)+
  with assms(1) d show ?thesis by (simp add: repo_inv_def)
qed

lemma Quarantine_inv: "repo_inv db \<Longrightarrow> Repo_Quarantine op reason now db = Inr db' \<Longrightarrow> repo_inv db'"
  by (auto simp: Repo_Quarantine_def Let_def err_simps reason_ok_def elim!: inbox_upsert_inv)

lemma RetryQuarantined_inv: "repo_inv db \<Longrightarrow> Repo_RetryQuarantined ws i db = Inr db' \<Longrightarrow> repo_inv db'"
  by (auto simp: Repo_RetryQuarantined_def repo_inv_def inbox_ok_def list_all_iff intro: distinct_map_filter)

lemma mark_inbox_applied_inv: "repo_inv db \<Longrightarrow> repo_inv (mark_inbox_applied ws i db)"
  by (auto simp: repo_inv_def mark_inbox_applied_def reason_ok_def intro!: inbox_ok_map)

lemma insert_applied_inv:
  assumes "repo_inv db" "insert_applied r db = Inr db'"
  shows "repo_inv db'"
proof -
  from assms(2) have d: "db' = db\<lparr>db_applied := db_applied db @ [r]\<rparr>"
    and n: "\<forall>x \<in> set (db_applied db). applied_key x \<noteq> applied_key r \<and> (ap_workspace x, ap_seq x) \<noteq> (ap_workspace r, ap_seq r)"
    by (auto simp: insert_applied_def list_ex_iff split: if_splits)
  have "applied_ok (db_applied db @ [r])"
    using assms(1) n by (intro applied_ok_snoc) (force simp: repo_inv_def)+
  with assms(1) d show ?thesis by (simp add: repo_inv_def)
qed

lemma apply_one_inv:
  assumes "repo_inv db" "apply_one sha256 now op act db = Inr db'"
  shows "repo_inv db'"
proof (cases "applied_hash (Op_WorkspaceID op) (Op_ID op) db")
  case (Some h)
  with assms show ?thesis by (auto simp: apply_one_def Let_def err_simps split: if_splits)
next
  case None
  with assms(2) obtain e d1 n d2 where up: "inbox_upsert (\<lambda>x. x) \<lparr>in_op = op, in_received = now, in_status = StatusPending, in_reason = None\<rparr> db = Inr d1"
    and ins: "insert_applied \<lparr>ap_workspace = Op_WorkspaceID op, ap_op_id = Op_ID op, ap_seq = Op_Sequence op,
        ap_hash = sha256 e, ap_time = now\<rparr> (d1\<lparr>db_notes := n\<rparr>) = Inr d2"
    and db': "db' = mark_inbox_applied (Op_WorkspaceID op) (Op_ID op) d2"
    by (auto simp: apply_one_def Let_def err_simps)
  have "repo_inv d1" using assms(1) up by (rule inbox_upsert_inv) (simp_all add: reason_ok_def)
  then have "repo_inv (d1\<lparr>db_notes := n\<rparr>)" by (rule repo_invI_tables) simp_all
  with ins have "repo_inv d2" by (blast intro: insert_applied_inv)
  then show ?thesis unfolding db' by (rule mark_inbox_applied_inv)
qed

lemma apply_all_inv: "repo_inv db \<Longrightarrow> apply_all sha256 now items db = Inr db' \<Longrightarrow> repo_inv db'"
proof (induction items arbitrary: db)
  case (Cons item items)
  then show ?case by (cases item) (auto simp: err_simps intro: apply_one_inv)
qed simp

lemma ApplyPage_inv:
  assumes "repo_inv db" "Repo_ApplyPage sha256 tr cursor ops verify now db = Inr db'"
  shows "repo_inv db'"
proof -
  from assms(2) obtain acts d1 where a: "apply_all sha256 now (zip ops acts) db = Inr d1" and u: "upsert_cursor tr cursor now d1 = Inr db'"
    by (auto simp: Repo_ApplyPage_def Let_def err_simps split: if_splits)
  have "repo_inv d1" using assms(1) a by (rule apply_all_inv)
  then show ?thesis using u by (auto simp: upsert_cursor_def repo_inv_def split: if_splits)
qed

lemma update_outbox_inv:
  assumes "repo_inv db" "\<And>r. ob_op_id (f r) = ob_op_id r"
  shows "repo_inv (update_outbox P f db)"
proof -
  have "(\<lambda>x. ob_op_id (if P x then f x else x)) = ob_op_id" using assms(2) by auto
  with assms(1) show ?thesis by (simp add: repo_inv_def update_outbox_def comp_def)
qed

lemma mark_one_inv: "repo_inv db \<Longrightarrow> mark_one ws now r db = Inr db' \<Longrightarrow> repo_inv db'"
  by (auto simp: mark_one_def Let_def split: if_splits intro!: update_outbox_inv)

lemma MarkPushed_inv: "repo_inv db \<Longrightarrow> Repo_MarkPushed ws results now db = Inr db' \<Longrightarrow> repo_inv db'"
  unfolding Repo_MarkPushed_def
  by (induction results arbitrary: db) (auto simp: err_simps intro: mark_one_inv)

lemma InsertOutboxOperation_inv:
  assumes "repo_inv db" "InsertOutboxOperation op t db = Inr db'"
  shows "repo_inv db'"
proof -
  from assms(2) have "\<not> list_ex (\<lambda>r. ob_op_id r = Op_ID op) (db_outbox db)"
    by (simp add: InsertOutboxOperation_def split: if_splits)
  then have "Op_ID op \<notin> ob_op_id ` set (db_outbox db)"
    by (force simp: list_ex_iff)
  with assms show ?thesis by (simp add: InsertOutboxOperation_def repo_inv_def split: if_splits) auto
qed

section \<open>Quarantine\<close>

lemma Quarantine_Inr:
  assumes "Repo_Quarantine op reason now db = Inr db'"
  shows "Repo_QuarantineBlocked (Op_WorkspaceID op) db' = Inr True" and "db_cursors db' = db_cursors db" and "abs_db db' = abs_db db"
proof -
  define why where "why = (if reason = [] \<or> 128 < length reason then ''invalid_operation'' else reason)"
  from assms have up: "inbox_upsert (\<lambda>x. x\<lparr>in_status := StatusQuarantined, in_reason := Some why\<rparr>)
      \<lparr>in_op = op, in_received = now, in_status = StatusQuarantined, in_reason = Some why\<rparr> db = Inr db'"
    by (auto simp: Repo_Quarantine_def Let_def err_simps why_def)
  then have same: "db_cursors db' = db_cursors db" "abs_db db' = abs_db db"
    by (auto simp: inbox_upsert_def abs_db_def split: if_splits)
  have "list_ex (quarantined (Op_WorkspaceID op)) (db_inbox db')"
  proof (cases "list_ex (\<lambda>x. inbox_key x = op_key op) (db_inbox db)")
    case True
    then obtain x where x: "x \<in> set (db_inbox db)" "inbox_key x = op_key op" by (auto simp: list_ex_iff)
    define upd where "upd = (\<lambda>x. if inbox_key x = op_key op then x\<lparr>in_status := StatusQuarantined, in_reason := Some why\<rparr> else x)"
    from up True have "db_inbox db' = map upd (db_inbox db)"
      by (auto simp: inbox_upsert_def upd_def split: if_splits)
    then have "upd x \<in> set (db_inbox db')" using x(1) by simp
    moreover from x have "quarantined (Op_WorkspaceID op) (upd x)" by (simp add: quarantined_def upd_def)
    ultimately show ?thesis unfolding list_ex_iff by blast
  next
    case False
    with up show ?thesis by (auto simp: inbox_upsert_def list_ex_iff quarantined_def split: if_splits)
  qed
  then show "Repo_QuarantineBlocked (Op_WorkspaceID op) db' = Inr True" by (simp add: Repo_QuarantineBlocked_def)
  show "db_cursors db' = db_cursors db" "abs_db db' = abs_db db" by (fact same)+
qed

text \<open>
  A quarantined operation blocks its workspace until it is retried: after a successful
  \<open>Quarantine\<close> the workspace reports blocked, and \<open>RetryQuarantined\<close> of that operation
  removes its record but leaves cursor, applied operations and notes as they are, so the
  operation has to be delivered and verified again.
\<close>

lemma Quarantine_blocks:
  assumes "Repo_Quarantine op reason now db = Inr db'"
  shows "Repo_QuarantineBlocked (Op_WorkspaceID op) db' = Inr True \<and>
    db_cursors db' = db_cursors db \<and> abs_db db' = abs_db db \<and>
    (\<exists>db''. Repo_RetryQuarantined (Op_WorkspaceID op) (Op_ID op) db' = Inr db'' \<and>
       \<not> list_ex (\<lambda>r. inbox_key r = op_key op \<and> in_status r = StatusQuarantined) (db_inbox db'') \<and>
       db_cursors db'' = db_cursors db \<and> abs_db db'' = abs_db db)"
  using Quarantine_Inr [OF assms]
  by (auto simp: Repo_RetryQuarantined_def abs_db_def list_ex_iff)

section \<open>Progress of the outbox\<close>

lemma filter_unique:
  assumes "distinct (map f xs)" "x \<in> set xs" "P x" "\<And>y. P y \<Longrightarrow> f y = f x"
  shows "filter P xs = [x]"
  using assms(1,2)
proof (induction xs)
  case (Cons a xs)
  show ?case
  proof (cases "a = x")
    case True
    from Cons.prems(1) have "f a \<notin> f ` set xs" by simp
    then have "\<not> P y" if "y \<in> set xs" for y
      using that True assms(4) [of y] by (metis imageI)
    then have "filter P xs = []" by (simp add: filter_empty_conv)
    with True assms(3) show ?thesis by simp
  next
    case False
    with Cons.prems have "f a \<noteq> f x" by force
    with assms(4) have "\<not> P a" by blast
    with False Cons show ?thesis by simp
  qed
qed simp

lemma filter_not_taken:
  assumes "distinct (map f xs)"
  shows "filter (\<lambda>x. f x \<notin> f ` set (take n xs)) xs = drop n xs"
proof -
  have d: "distinct (map f (take n xs @ drop n xs))" using assms by simp
  have "filter (\<lambda>x. f x \<notin> f ` set (take n xs)) (take n xs @ drop n xs) = drop n xs"
    using d unfolding filter_append map_append distinct_append
    by (auto simp: filter_empty_conv intro!: filter_True)
  then show ?thesis by simp
qed

lemma mark_one_pending:
  assumes inv: "repo_inv db" and r: "r \<in> set (filter (pending_row ws) (db_outbox db))" "ob_op_id r = Push_OpID result"
    and ok: "(Push_Sequence result = 0) \<noteq> (PermanentError result = [])" "Push_Sequence result \<le> MaxInt64"
  shows "\<exists>db'. mark_one ws now result db = Inr db' \<and>
    filter (pending_row ws) (db_outbox db') = filter (\<lambda>r. ob_op_id r \<noteq> Push_OpID result) (filter (pending_row ws) (db_outbox db))"
proof (cases "PermanentError result = []")
  case False
  have "filter (pending_row ws) (map (\<lambda>r. if ob_workspace r = ws \<and> ob_op_id r = Push_OpID result
      then r\<lparr>ob_rejection := Some (PermanentError result)\<rparr> else r) rows)
    = filter (\<lambda>r. ob_op_id r \<noteq> Push_OpID result) (filter (pending_row ws) rows)" for rows
    by (induction rows) (auto simp: pending_row_def)
  with False show ?thesis by (simp add: mark_one_def update_outbox_def)
next
  case True
  let ?P = "\<lambda>r. ob_workspace r = ws \<and> ob_op_id r = Push_OpID result \<and> ob_pushed r = None"
  have one: "filter ?P (db_outbox db) = [r]"
    using inv r by (intro filter_unique [where f = ob_op_id]) (auto simp: repo_inv_def pending_row_def)
  have "filter (pending_row ws) (map (\<lambda>r. if ?P r then r\<lparr>ob_pushed := Some now, ob_server_seq := Some (Push_Sequence result),
      ob_rejection := None\<rparr> else r) rows) = filter (\<lambda>r. ob_op_id r \<noteq> Push_OpID result) (filter (pending_row ws) rows)" for rows
    by (induction rows) (auto simp: pending_row_def)
  with True ok one show ?thesis by (simp add: mark_one_def update_outbox_def Let_def not_less)
qed

lemma mark_all_pending:
  assumes "repo_inv db" "distinct (map Push_OpID results)"
    "Push_OpID ` set results \<subseteq> ob_op_id ` set (filter (pending_row ws) (db_outbox db))"
    "list_all (\<lambda>r. (Push_Sequence r = 0) \<noteq> (PermanentError r = []) \<and> Push_Sequence r \<le> MaxInt64) results"
  shows "\<exists>db'. mark_all ws now results db = Inr db' \<and>
    filter (pending_row ws) (db_outbox db') = filter (\<lambda>r. ob_op_id r \<notin> Push_OpID ` set results) (filter (pending_row ws) (db_outbox db))"
  using assms
proof (induction results arbitrary: db)
  case (Cons a results)
  from Cons.prems(3) have "Push_OpID a \<in> ob_op_id ` set (filter (pending_row ws) (db_outbox db))" by simp
  then obtain r where r: "r \<in> set (filter (pending_row ws) (db_outbox db))" "ob_op_id r = Push_OpID a" by force
  with Cons.prems obtain d1 where d1: "mark_one ws now a db = Inr d1" and
    f1: "filter (pending_row ws) (db_outbox d1) = filter (\<lambda>r. ob_op_id r \<noteq> Push_OpID a) (filter (pending_row ws) (db_outbox db))"
    using mark_one_pending [of db r ws a now] by auto
  have "Push_OpID ` set results \<subseteq> ob_op_id ` set (filter (pending_row ws) (db_outbox d1))"
    unfolding f1 using Cons.prems(2,3) by force
  moreover have "repo_inv d1" using Cons.prems(1) d1 by (rule mark_one_inv)
  ultimately obtain d2 where "mark_all ws now results d1 = Inr d2" and
    "filter (pending_row ws) (db_outbox d2) = filter (\<lambda>r. ob_op_id r \<notin> Push_OpID ` set results) (filter (pending_row ws) (db_outbox d1))"
    using Cons.IH [of d1] Cons.prems by auto
  with d1 f1 show ?case by (auto simp: filter_filter intro: filter_cong)
qed simp

lemma scan_all_ids: "scan_all rows = Inr ops \<Longrightarrow> map Op_ID ops = map ob_op_id rows"
  by (induction rows arbitrary: ops) (auto simp: err_simps scan_outbox_def split: if_splits)

text \<open>
  Committing an accepted response consumes the batch: the pending queue afterwards is the old
  queue without its first \<open>limit\<close> entries.
\<close>

lemma MarkPushed_consumes:
  assumes "repo_inv db" "Repo_Pending ws limit db = Inr pending" "validatePushResults pending results = Inr ()"
    "list_all (\<lambda>r. Push_Sequence r \<le> MaxInt64) results" "pending \<noteq> []"
  shows "\<exists>db'. Repo_MarkPushed ws results now db = Inr db' \<and>
    filter (pending_row ws) (db_outbox db') = drop (nat limit) (filter (pending_row ws) (db_outbox db))"
proof -
  let ?L = "filter (pending_row ws) (db_outbox db)"
  from assms(2,5) have "scan_all (take (nat limit) ?L) = Inr pending"
    by (auto simp: Repo_Pending_def split: if_splits)
  then have ids: "map Op_ID pending = map ob_op_id (take (nat limit) ?L)" by (rule scan_all_ids)
  have d: "distinct (map ob_op_id ?L)"
    using assms(1) by (auto simp: repo_inv_def intro: distinct_map_filter)
  then have "distinct (map Op_ID pending)"
    unfolding ids by (metis distinct_take take_map)
  then have "mset (map Push_OpID results) = mset (map ob_op_id (take (nat limit) ?L))"
    using validatePushResults_mset [OF assms(3)] ids by simp
  then have same: "Push_OpID ` set results = ob_op_id ` set (take (nat limit) ?L)"
    by (metis list.set_map set_mset_mset)
  have "\<exists>db'. mark_all ws now results db = Inr db' \<and>
      filter (pending_row ws) (db_outbox db') = filter (\<lambda>r. ob_op_id r \<notin> Push_OpID ` set results) ?L"
  proof (rule mark_all_pending)
    show "Push_OpID ` set results \<subseteq> ob_op_id ` set ?L"
      unfolding same by (intro image_mono set_take_subset)
  qed (use assms in \<open>auto simp: validatePushResults_iff list_all_iff\<close>)
  then show ?thesis
    unfolding Repo_MarkPushed_def same filter_not_taken [OF d] .
qed

text \<open>
  Every push makes progress: when the worker reads a batch, pushes it and gets a response that
  passes its check, recording the response never fails and shortens the queue of pending
  operations by exactly the batch, so nothing is pushed twice and nothing is lost from the
  queue without an answer.
\<close>

lemma MarkPushed_progress:
  assumes "repo_inv db" and "Repo_Pending ws limit db = Inr pending" and "pending \<noteq> []"
    and "validatePushResults pending results = Inr ()" and "list_all (\<lambda>r. Push_Sequence r \<le> MaxInt64) results"
  shows "\<exists>db'. Repo_MarkPushed ws results now db = Inr db' \<and> repo_inv db' \<and>
    Repo_CountPending ws db' + length pending = Repo_CountPending ws db"
proof -
  from MarkPushed_consumes [OF assms(1,2,4,5,3)] obtain db' where m: "Repo_MarkPushed ws results now db = Inr db'"
    and f: "filter (pending_row ws) (db_outbox db') = drop (nat limit) (filter (pending_row ws) (db_outbox db))" by blast
  from assms(2,3) have "length pending = length (take (nat limit) (filter (pending_row ws) (db_outbox db)))"
    by (auto simp: Repo_Pending_def dest: scan_all_ids [THEN arg_cong [where f = length]] split: if_splits)
  with m f MarkPushed_inv [OF assms(1) m] show ?thesis by (auto simp: Repo_CountPending_def)
qed

section \<open>Histories of the repository\<close>

text \<open>One successful call of any method that changes the database.\<close>

inductive repo_step :: "(bytes \<Rightarrow> bytes) \<Rightarrow> 'm client_db \<Rightarrow> 'm client_db \<Rightarrow> bool" for sha256 where
  step_apply: "Repo_ApplyPage sha256 tr cursor ops verify now db = Inr db' \<Longrightarrow> repo_step sha256 db db'"
| step_quarantine: "Repo_Quarantine op reason now db = Inr db' \<Longrightarrow> repo_step sha256 db db'"
| step_retry: "Repo_RetryQuarantined ws i db = Inr db' \<Longrightarrow> repo_step sha256 db db'"
| step_pushed: "Repo_MarkPushed ws results now db = Inr db' \<Longrightarrow> repo_step sha256 db db'"
| step_outbox: "InsertOutboxOperation op t db = Inr db' \<Longrightarrow> repo_step sha256 db db'"
| step_rotation: "MarkKeyRotationPending ws now db = Inr db' \<Longrightarrow> repo_step sha256 db db'"
| step_clear: "repo_step sha256 db (ClearKeyRotationPending ws db)"
| step_chunk: "RecordBlobChunk ws blob dir idx digest now db = Inr db' \<Longrightarrow> repo_step sha256 db db'"
| step_blob: "CompleteBlobTransfer ws blob dir db = Inr db' \<Longrightarrow> repo_step sha256 db db'"

lemma apply_all_prefix: "apply_all sha256 now items db = Inr db' \<Longrightarrow> prefix (db_applied db) (db_applied db')"
proof (induction items arbitrary: db)
  case (Cons item items)
  obtain op act where item: "item = (op, act)" by (cases item)
  with Cons.prems obtain d1 where one: "apply_one sha256 now op act db = Inr d1" and rest: "apply_all sha256 now items d1 = Inr db'"
    by (auto simp: err_simps)
  have "prefix (db_applied db) (db_applied d1)"
    using apply_one_old [OF one] apply_one_new [OF one] by (cases "op_key op \<in> fst (abs_db db)") auto
  then show ?case using Cons.IH [OF rest] by (rule prefix_order.trans)
qed simp

lemma mark_all_applied: "mark_all ws now results db = Inr db' \<Longrightarrow> db_applied db' = db_applied db"
  by (induction results arbitrary: db)
     (auto simp: err_simps mark_one_def Let_def update_outbox_def split: if_splits)

lemma repo_step_inv: "repo_step sha256 db db' \<Longrightarrow> repo_inv db \<Longrightarrow> repo_inv db'"
proof (induction rule: repo_step.induct)
  case (step_rotation ws now db db')
  then show ?case by (auto simp: MarkKeyRotationPending_def repo_inv_def split: if_splits)
next
  case (step_chunk ws blob dir idx digest now db db')
  then show ?case by (auto simp: RecordBlobChunk_def repo_inv_def split: if_splits)
next
  case (step_blob ws blob dir db db')
  then show ?case by (auto simp: CompleteBlobTransfer_def repo_inv_def split: if_splits)
next
  case (step_clear db ws)
  then show ?case by (simp add: ClearKeyRotationPending_def repo_inv_def)
qed (rule ApplyPage_inv Quarantine_inv RetryQuarantined_inv MarkPushed_inv InsertOutboxOperation_inv; assumption)+

lemma repo_step_applied: "repo_step sha256 db db' \<Longrightarrow> prefix (db_applied db) (db_applied db')"
proof (induction rule: repo_step.induct)
  case (step_apply tr cursor ops verify now db db')
  then obtain items d1 where "apply_all sha256 now items db = Inr d1" "upsert_cursor tr cursor now d1 = Inr db'"
    by (auto simp: Repo_ApplyPage_def Let_def err_simps split: if_splits)
  then show ?case using apply_all_prefix by (fastforce simp: upsert_cursor_def split: if_splits)
next
  case (step_quarantine op reason now db db')
  then show ?case by (auto simp: Repo_Quarantine_def Let_def err_simps dest!: inbox_upsert_Inr)
next
  case (step_pushed ws results now db db')
  then show ?case by (simp add: Repo_MarkPushed_def mark_all_applied)
qed (auto simp: Repo_RetryQuarantined_def InsertOutboxOperation_def MarkKeyRotationPending_def ClearKeyRotationPending_def
     RecordBlobChunk_def CompleteBlobTransfer_def split: if_splits)

definition empty_db :: "ID set \<Rightarrow> 'm \<Rightarrow> 'm client_db" where
  "empty_db ws notes = \<lparr>db_workspaces = ws, db_inbox = [], db_outbox = [], db_applied = [], db_cursors = Map.empty,
     db_rotations = Map.empty, db_blob_transfers = Map.empty, db_notes = notes\<rparr>"

text \<open>
  Over the methods of the repository, from a fresh database, the keys of the tables stay
  unique, an inbox row has a reason exactly when it is quarantined, and no method deletes from
  the record of applied operations. (The collection of the operation log in
  \<^verbatim>\<open>core/account/oplog_gc.go\<close>, which is not among these methods, does.)
\<close>

lemma repo_history:
  assumes "(repo_step sha256)\<^sup>*\<^sup>* (empty_db ws notes) db" and "(repo_step sha256)\<^sup>*\<^sup>* db db'"
  shows "repo_inv db' \<and> prefix (db_applied db) (db_applied db')"
proof -
  have inv: "repo_inv d'" if "(repo_step sha256)\<^sup>*\<^sup>* d d'" "repo_inv d" for d d' :: "'a client_db"
    using that by (induction rule: rtranclp_induct) (auto intro: repo_step_inv)
  have "repo_inv (empty_db ws notes)" by (simp add: empty_db_def repo_inv_def inbox_ok_def applied_ok_def)
  then have "repo_inv db'" using inv assms by blast
  moreover from assms(2) have "prefix (db_applied db) (db_applied db')"
    by (induction rule: rtranclp_induct) (auto dest: repo_step_applied intro: prefix_order.trans)
  ultimately show ?thesis by simp
qed

text \<open>
  While a key rotation is pending nothing is offered for pushing: from \<open>MarkKeyRotationPending\<close>
  until \<open>ClearKeyRotationPending\<close>, \<open>Pending\<close> returns the empty batch for the workspace
  whatever is queued, and clearing the marker gives back exactly the queued batch.
\<close>

lemma Pending_held_during_rotation:
  assumes "MarkKeyRotationPending ws now db = Inr db'" and "0 < limit" and "limit \<le> 256"
  shows "Repo_Pending ws limit db' = Inr [] \<and>
    Repo_Pending ws limit (ClearKeyRotationPending ws db') =
      scan_all (take (nat limit) (filter (pending_row ws) (db_outbox db)))"
  using assms
  by (auto simp: MarkKeyRotationPending_def Repo_Pending_def KeyRotationPending_def ClearKeyRotationPending_def split: if_splits)

section \<open>Concrete instances\<close>

definition demo_db :: "ID list client_db" where
  "demo_db = empty_db {demo_id 2} []"

definition demo_verify :: "ID list processor" where
  "demo_verify op = Inr (Some (\<lambda>notes. Inr (notes @ [Op_ID op])))"

definition demo_wire :: WireOperation where
  "demo_wire = demo_op\<lparr>Op_Sequence := 1\<rparr>"

definition demo_cursor :: Cursor where
  "demo_cursor = \<lparr>Cur_WorkspaceID = demo_id 2, LastSequence = 1, Epoch = 1\<rparr>"

definition demo_db1 :: "ID list client_db" where
  "demo_db1 = demo_db\<lparr>db_inbox := [\<lparr>in_op = demo_wire, in_received = 5, in_status = StatusApplied, in_reason = None\<rparr>],
     db_notes := [demo_id 1],
     db_applied := [\<lparr>ap_workspace = demo_id 2, ap_op_id = demo_id 1, ap_seq = 1, ap_hash = enc_op demo_wire, ap_time = 5\<rparr>]\<rparr>"

lemma demo_wire_encodes: "EncodeOperation demo_wire = Inr (enc_op demo_wire)"
  by (simp add: EncodeOperation_eq demo_wire_def demo_op_def validateWireOperation_def)

lemma demo_apply_all: "apply_all (\<lambda>b. b) 5 [(demo_wire, \<lambda>notes. Inr (notes @ [demo_id 1]))] demo_db = Inr demo_db1"
  by (simp add: apply_one_def demo_wire_encodes applied_hash_def demo_db_def empty_db_def inbox_upsert_def insert_applied_def
      mark_inbox_applied_def storable_def demo_db1_def)
     (simp add: demo_wire_def demo_op_def)

lemma demo_apply_page:
  "\<exists>db'. Repo_ApplyPage (\<lambda>b. b) ''server'' demo_cursor [demo_wire] demo_verify 5 demo_db = Inr db' \<and> db_notes db' = [demo_id 1]"
proof -
  have "Op_ID demo_wire = demo_id 1" by (simp add: demo_wire_def demo_op_def)
  then show ?thesis
    using demo_apply_all
    by (simp add: Repo_ApplyPage_def demo_verify_def row_cursor_def demo_cursor_def upsert_cursor_def Let_def)
       (simp add: demo_db1_def demo_db_def empty_db_def demo_wire_def)
qed

theorem ApplyPage_exactly_once_witness:
  "\<exists>db' acts. Repo_ApplyPage (\<lambda>b. b) ''server'' demo_cursor [demo_wire] demo_verify 5 demo_db = Inr db' \<and>
     verify_all demo_verify [demo_wire] = Inr acts \<and> apply_spec (zip [demo_wire] acts) (abs_db demo_db) = Some (abs_db db') \<and>
     row_cursor ''server'' (demo_id 2) db' = demo_cursor"
proof -
  obtain db' where a: "Repo_ApplyPage (\<lambda>b. b) ''server'' demo_cursor [demo_wire] demo_verify 5 demo_db = Inr db'"
    using demo_apply_page by blast
  from ApplyPage_exactly_once [OF a] a show ?thesis by (auto simp: demo_cursor_def)
qed

definition demo_out :: "ID list client_db" where
  "demo_out = demo_db\<lparr>db_outbox := [\<lparr>ob_op_id = demo_id 1, ob_workspace = demo_id 2, ob_device = demo_id 3, ob_physical_ms = 4,
     ob_logical = 0, ob_key_id = [], ob_nonce = [], ob_ciphertext = [], ob_signature = [], ob_pushed = None,
     ob_server_seq = None, ob_rejection = None\<rparr>]\<rparr>"

end
