(* ===== verification/Note_Operations.thy ===== *)
theory Note_Operations
  imports Hybrid_Clock
begin

text \<open>
  The plaintext payloads that local note commands put into the outbox, and the records they
  change: \<^verbatim>\<open>core/sync/operation.go\<close> (note body and title),
  \<^verbatim>\<open>core/sync/metadata_operation.go\<close> (notebook, tag, flags, tombstone, attachment) and the
  structural validation of notes, devices and workspaces of \<^verbatim>\<open>core/model\<close>. A nil byte
  slice or pointer is \<open>None\<close>; an enumeration over \<^verbatim>\<open>uint8\<close> is a byte, so that values
  outside the enumeration exist as they do in Go.
\<close>

section \<open>Records of the domain model\<close>

type_synonym NoteFlags = u32

abbreviation validNoteFlags :: NoteFlags where
  "validNoteFlags \<equiv> 3"

record Note =
  Note_ID :: ID
  Note_WorkspaceID :: ID
  Note_NotebookID :: "ID LWW"
  Note_Title :: "string LWW"
  Note_Flags :: "NoteFlags LWW"
  Note_Deleted :: "bool LWW"
  Note_CreatedAt :: HLC

datatype record_error = ErrInvalidNote | ErrInvalidDevice | ErrInvalidWorkspace

definition MaxNoteTitleBytes :: nat where
  "MaxNoteTitleBytes = 1024"

definition Note_Validate :: "Note \<Rightarrow> record_error + unit" where
  "Note_Validate n =
     (if ID_Validate (Note_ID n) \<noteq> Inr () then Inl ErrInvalidNote
      else if ID_Validate (Note_WorkspaceID n) \<noteq> Inr () then Inl ErrInvalidNote
      else if \<not> ID_IsZero (Value (Note_NotebookID n)) \<and> ID_Validate (Value (Note_NotebookID n)) \<noteq> Inr ()
      then Inl ErrInvalidNote
      else if HLC_Validate (LWWClock (Note_NotebookID n)) \<noteq> Inr () then Inl ErrInvalidNote
      else if MaxNoteTitleBytes < length (Value (Note_Title n)) then Inl ErrInvalidNote
      else if HLC_Validate (LWWClock (Note_Title n)) \<noteq> Inr () then Inl ErrInvalidNote
      else if Value (Note_Flags n) AND NOT validNoteFlags \<noteq> 0 then Inl ErrInvalidNote
      else if HLC_Validate (LWWClock (Note_Flags n)) \<noteq> Inr () then Inl ErrInvalidNote
      else if HLC_Validate (LWWClock (Note_Deleted n)) \<noteq> Inr () then Inl ErrInvalidNote
      else if HLC_Validate (Note_CreatedAt n) \<noteq> Inr () \<or> HLC_IsZero (Note_CreatedAt n) then Inl ErrInvalidNote
      else Inr ())"

type_synonym DeviceStatus = byte

definition DeviceStatus_valid :: "DeviceStatus \<Rightarrow> bool" where
  "DeviceStatus_valid s \<longleftrightarrow> s = 1 \<or> s = 2"

record Device =
  Device_ID :: ID
  Device_AccountID :: ID
  Device_PublicKey :: bytes
  Device_Status :: DeviceStatus
  Device_CreatedAt :: HLC

definition Ed25519PublicKeyBytes :: nat where
  "Ed25519PublicKeyBytes = 32"

definition Device_Validate :: "Device \<Rightarrow> record_error + unit" where
  "Device_Validate d =
     (if ID_Validate (Device_ID d) \<noteq> Inr () then Inl ErrInvalidDevice
      else if ID_Validate (Device_AccountID d) \<noteq> Inr () then Inl ErrInvalidDevice
      else if length (Device_PublicKey d) \<noteq> Ed25519PublicKeyBytes then Inl ErrInvalidDevice
      else if \<not> DeviceStatus_valid (Device_Status d) then Inl ErrInvalidDevice
      else if HLC_Validate (Device_CreatedAt d) \<noteq> Inr () \<or> HLC_IsZero (Device_CreatedAt d) then Inl ErrInvalidDevice
      else Inr ())"

record Workspace =
  Workspace_ID :: ID
  Workspace_CreatedAt :: HLC

definition Workspace_Validate :: "Workspace \<Rightarrow> record_error + unit" where
  "Workspace_Validate w =
     (if ID_Validate (Workspace_ID w) \<noteq> Inr () then Inl ErrInvalidWorkspace
      else if HLC_Validate (Workspace_CreatedAt w) \<noteq> Inr () \<or> HLC_IsZero (Workspace_CreatedAt w)
      then Inl ErrInvalidWorkspace
      else Inr ())"

section \<open>Length-prefixed fields\<close>

datatype payload_error = ErrMalformedNoteBodyOperation | ErrMalformedNoteMetadataOperation

definition appendLengthPrefixed :: "bytes \<Rightarrow> bytes \<Rightarrow> bytes" where
  "appendLengthPrefixed dst value = (dst @ be_bytes 4 (word_of_nat (length value) :: u32)) @ value"

definition readLengthPrefixed :: "bytes \<Rightarrow> payload_error + bytes \<times> bytes" where
  "readLengthPrefixed data =
     (if length data < 4 then Inl ErrMalformedNoteBodyOperation
      else
        let len = be_word (take 4 data) :: u32;
            data = drop 4 data
        in if length data < unat len then Inl ErrMalformedNoteBodyOperation
           else Inr (take (unat len) data, drop (unat len) data))"

section \<open>Note body operations\<close>

record NoteBodyOperation =
  NB_NoteID :: ID
  NB_CRDTUpdate :: "bytes option"
  NB_Title :: "string option"

abbreviation noteBodyOperationVersion :: byte where
  "noteBodyOperationVersion \<equiv> 1"

definition EncodeNoteBodyOperation :: "NoteBodyOperation \<Rightarrow> payload_error + bytes" where
  "EncodeNoteBodyOperation op =
     (if ID_IsZero (NB_NoteID op) then Inl ErrMalformedNoteBodyOperation
      else if NB_CRDTUpdate op = None \<and> NB_Title op = None then Inl ErrMalformedNoteBodyOperation
      else
        let buf = [noteBodyOperationVersion];
            buf = buf @ ID_Bytes (NB_NoteID op);
            flags = (0 :: byte);
            flags = (if NB_CRDTUpdate op \<noteq> None then flags OR 1 else flags);
            flags = (if NB_Title op \<noteq> None then flags OR 2 else flags);
            buf = buf @ [flags];
            buf = (case NB_CRDTUpdate op of None \<Rightarrow> buf | Some u \<Rightarrow> appendLengthPrefixed buf u);
            buf = (case NB_Title op of None \<Rightarrow> buf | Some t \<Rightarrow> appendLengthPrefixed buf (str_bytes t))
        in Inr buf)"

definition DecodeNoteBodyOperation :: "bytes \<Rightarrow> payload_error + NoteBodyOperation" where
  "DecodeNoteBodyOperation data =
     (if length data < 18 then Inl ErrMalformedNoteBodyOperation
      else if data ! 0 \<noteq> noteBodyOperationVersion then Inl ErrMalformedNoteBodyOperation
      else case ParseID (slice data 1 17) of
        Inl _ \<Rightarrow> Inl ErrMalformedNoteBodyOperation
      | Inr noteID \<Rightarrow>
          let flags = data ! 17 in
          if flags = 0 \<or> flags AND NOT 3 \<noteq> 0 then Inl ErrMalformedNoteBodyOperation
          else
            bind_res
              (if flags AND 1 \<noteq> 0 then
                 bind_res (readLengthPrefixed (drop 18 data)) (\<lambda>(update, tail). Inr (Some update, tail))
               else Inr (None, drop 18 data))
              (\<lambda>(update, rest).
                 bind_res
                   (if flags AND 2 \<noteq> 0 then
                      bind_res (readLengthPrefixed rest) (\<lambda>(titleBytes, tail).
                        if \<not> utf8_valid titleBytes then Inl ErrMalformedNoteBodyOperation
                        else Inr (Some (bytes_str titleBytes), tail))
                    else Inr (None, rest))
                   (\<lambda>(title, rest).
                      if length rest \<noteq> 0 then Inl ErrMalformedNoteBodyOperation
                      else Inr \<lparr>NB_NoteID = noteID, NB_CRDTUpdate = update, NB_Title = title\<rparr>)))"

section \<open>Note metadata operations\<close>

type_synonym NoteMetadataKind = byte

abbreviation NoteMetadataKindNotebook :: NoteMetadataKind where "NoteMetadataKindNotebook \<equiv> 1"
abbreviation NoteMetadataKindTag :: NoteMetadataKind where "NoteMetadataKindTag \<equiv> 2"
abbreviation NoteMetadataKindFlags :: NoteMetadataKind where "NoteMetadataKindFlags \<equiv> 3"
abbreviation NoteMetadataKindDeleted :: NoteMetadataKind where "NoteMetadataKindDeleted \<equiv> 4"
abbreviation NoteMetadataKindAttachment :: NoteMetadataKind where "NoteMetadataKindAttachment \<equiv> 5"
abbreviation AttachmentBlobIDBytes :: nat where "AttachmentBlobIDBytes \<equiv> 32"

definition NoteMetadataKind_valid :: "NoteMetadataKind \<Rightarrow> bool" where
  "NoteMetadataKind_valid k \<longleftrightarrow> NoteMetadataKindNotebook \<le> k \<and> k \<le> NoteMetadataKindAttachment"

record NoteMetadataOperation =
  NM_NoteID :: ID
  NM_Kind :: NoteMetadataKind
  NM_NotebookID :: ID
  NM_TagID :: ID
  NM_TagPresent :: bool
  NM_Flags :: NoteFlags
  NM_Deleted :: bool
  NM_AttachmentBlobID :: bytes
  NM_AttachmentPresent :: bool

definition boolByte :: "bool \<Rightarrow> byte" where
  "boolByte v = (if v then 1 else 0)"

definition decodeBoolByte :: "byte \<Rightarrow> payload_error + bool" where
  "decodeBoolByte b =
     (if b = 0 then Inr False else if b = 1 then Inr True else Inl ErrMalformedNoteMetadataOperation)"

definition EncodeNoteMetadataOperation :: "NoteMetadataOperation \<Rightarrow> payload_error + bytes" where
  "EncodeNoteMetadataOperation op =
     (if ID_IsZero (NM_NoteID op) then Inl ErrMalformedNoteMetadataOperation
      else if \<not> NoteMetadataKind_valid (NM_Kind op) then Inl ErrMalformedNoteMetadataOperation
      else
        let buf = [1] @ ID_Bytes (NM_NoteID op) @ [NM_Kind op] in
        if NM_Kind op = NoteMetadataKindNotebook then Inr (buf @ ID_Bytes (NM_NotebookID op))
        else if NM_Kind op = NoteMetadataKindTag then
          (if ID_IsZero (NM_TagID op) then Inl ErrMalformedNoteMetadataOperation
           else Inr (buf @ ID_Bytes (NM_TagID op) @ [boolByte (NM_TagPresent op)]))
        else if NM_Kind op = NoteMetadataKindFlags then
          Inr (buf @ [ucast (drop_bit 24 (NM_Flags op)), ucast (drop_bit 16 (NM_Flags op)),
                      ucast (drop_bit 8 (NM_Flags op)), ucast (NM_Flags op)])
        else if NM_Kind op = NoteMetadataKindDeleted then Inr (buf @ [boolByte (NM_Deleted op)])
        else if NM_Kind op = NoteMetadataKindAttachment then
          (if length (NM_AttachmentBlobID op) \<noteq> AttachmentBlobIDBytes then Inl ErrMalformedNoteMetadataOperation
           else Inr (buf @ NM_AttachmentBlobID op @ [boolByte (NM_AttachmentPresent op)]))
        else Inr buf)"

text \<open>The value with only note and kind set; all other fields are Go's zero values.\<close>

definition zero_metadata :: "ID \<Rightarrow> NoteMetadataKind \<Rightarrow> NoteMetadataOperation" where
  "zero_metadata noteID kind = \<lparr>NM_NoteID = noteID, NM_Kind = kind, NM_NotebookID = NilID, NM_TagID = NilID,
     NM_TagPresent = False, NM_Flags = 0, NM_Deleted = False, NM_AttachmentBlobID = [], NM_AttachmentPresent = False\<rparr>"

definition decode_metadata_rest :: "ID \<Rightarrow> NoteMetadataKind \<Rightarrow> bytes \<Rightarrow> payload_error + NoteMetadataOperation" where
  "decode_metadata_rest noteID kind rest =
     (let op = zero_metadata noteID kind in
      if kind = NoteMetadataKindNotebook then
        (if length rest \<noteq> 16 then Inl ErrMalformedNoteMetadataOperation
         else
           let notebookID = id_copy rest in
           if notebookID \<noteq> NilID \<and> ID_Validate notebookID \<noteq> Inr () then Inl ErrMalformedNoteMetadataOperation
           else Inr (op\<lparr>NM_NotebookID := notebookID\<rparr>))
      else if kind = NoteMetadataKindTag then
        (if length rest \<noteq> 17 then Inl ErrMalformedNoteMetadataOperation
         else case ParseID (take 16 rest) of
                Inl _ \<Rightarrow> Inl ErrMalformedNoteMetadataOperation
              | Inr tagID \<Rightarrow>
                  bind_res (decodeBoolByte (rest ! 16)) (\<lambda>present.
                    Inr (op\<lparr>NM_TagID := tagID, NM_TagPresent := present\<rparr>)))
      else if kind = NoteMetadataKindFlags then
        (if length rest \<noteq> 4 then Inl ErrMalformedNoteMetadataOperation
         else Inr (op\<lparr>NM_Flags := push_bit 24 (ucast (rest ! 0)) OR push_bit 16 (ucast (rest ! 1))
                         OR push_bit 8 (ucast (rest ! 2)) OR ucast (rest ! 3)\<rparr>))
      else if kind = NoteMetadataKindDeleted then
        (if length rest \<noteq> 1 then Inl ErrMalformedNoteMetadataOperation
         else bind_res (decodeBoolByte (rest ! 0)) (\<lambda>deleted. Inr (op\<lparr>NM_Deleted := deleted\<rparr>)))
      else if kind = NoteMetadataKindAttachment then
        (if length rest \<noteq> AttachmentBlobIDBytes + 1 then Inl ErrMalformedNoteMetadataOperation
         else
           let op = op\<lparr>NM_AttachmentBlobID := take AttachmentBlobIDBytes rest\<rparr> in
           bind_res (decodeBoolByte (rest ! AttachmentBlobIDBytes)) (\<lambda>present.
             Inr (op\<lparr>NM_AttachmentPresent := present\<rparr>)))
      else Inr op)"

definition DecodeNoteMetadataOperation :: "bytes \<Rightarrow> payload_error + NoteMetadataOperation" where
  "DecodeNoteMetadataOperation data =
     (if length data < 18 then Inl ErrMalformedNoteMetadataOperation
      else if data ! 0 \<noteq> 1 then Inl ErrMalformedNoteMetadataOperation
      else case ParseID (slice data 1 17) of
        Inl _ \<Rightarrow> Inl ErrMalformedNoteMetadataOperation
      | Inr noteID \<Rightarrow>
          let kind = data ! 17 in
          if \<not> NoteMetadataKind_valid kind then Inl ErrMalformedNoteMetadataOperation
          else decode_metadata_rest noteID kind (drop 18 data))"

section \<open>Reading back length-prefixed fields\<close>

lemma readLengthPrefixed_iff:
  "readLengthPrefixed data = Inr (v, rest) \<longleftrightarrow>
     length v < 2 ^ 32 \<and> data = appendLengthPrefixed [] v @ rest" (is "?L \<longleftrightarrow> ?R")
proof
  assume ?L
  then have l: "4 \<le> length data" "unat (be_word (take 4 data) :: u32) \<le> length data - 4"
    and v: "v = take (unat (be_word (take 4 data) :: u32)) (drop 4 data)"
    and r: "rest = drop (unat (be_word (take 4 data) :: u32)) (drop 4 data)"
    by (auto simp: readLengthPrefixed_def Let_def split: if_splits)
  have len: "length v = unat (be_word (take 4 data) :: u32)" using l v by simp
  have "be_bytes 4 (be_word (take 4 data) :: u32) = take 4 data"
    using l by (intro be_bytes_be_word) auto
  then have "data = appendLengthPrefixed [] v @ rest"
    unfolding appendLengthPrefixed_def len by (simp add: v r del: drop_drop)
  moreover have "length v < 2 ^ 32"
    unfolding len using unsigned_less [of "be_word (take 4 data) :: u32"] by simp
  ultimately show ?R by simp
next
  assume ?R
  then have l: "unat (word_of_nat (length v) :: u32) = length v" by (simp add: unat_of_nat)
  have "be_word (be_bytes 4 (word_of_nat (length v) :: u32)) = (word_of_nat (length v) :: u32)"
    using \<open>?R\<close> by (subst be_word_be_bytes) (simp_all add: l)
  with \<open>?R\<close> l show ?L by (simp add: readLengthPrefixed_def appendLengthPrefixed_def Let_def)
qed

lemma appendLengthPrefixed_append: "NO_MATCH [] dst \<Longrightarrow> appendLengthPrefixed dst v = dst @ appendLengthPrefixed [] v"
  by (simp add: appendLengthPrefixed_def)

lemma header_split:
  "18 \<le> length data \<Longrightarrow> data = (data ! 0) # slice data 1 17 @ (data ! 17) # drop 18 data"
proof -
  assume "18 \<le> length data"
  then have "drop 17 data = data ! 17 # drop 18 data" "data = data ! 0 # drop 1 data"
    using Cons_nth_drop_Suc [of 17 data] by (simp, cases data, simp_all)
  moreover have "drop 1 data = slice data 1 17 @ drop 17 data"
    unfolding slice_def using append_take_drop_id [of 16 "drop 1 data"] by simp
  ultimately show ?thesis by metis
qed

lemma header_parts:
  assumes "data = a # ID_Bytes i @ f # rest"
  shows "data ! 0 = a" "slice data 1 17 = ID_Bytes i" "data ! 17 = f" "drop 18 data = rest" "18 \<le> length data"
  using assms by (simp_all add: slice_def nth_append)

section \<open>Round trips\<close>

lemma body_flags: "\<not> ((f :: byte) = 0 \<or> f AND NOT 3 \<noteq> 0) \<longleftrightarrow> f = 1 \<or> f = 2 \<or> f = 3"
proof -
  have "list_all (\<lambda>f. \<not> ((f :: byte) = 0 \<or> f AND NOT 3 \<noteq> 0) \<longleftrightarrow> f = 1 \<or> f = 2 \<or> f = 3) (map word_of_nat [0..<256])"
    by code_simp
  then show ?thesis by (rule byte_exhaust)
qed

text \<open>What a body operation must satisfy beyond being encodable to be read back.\<close>

definition body_readable :: "NoteBodyOperation \<Rightarrow> bool" where
  "body_readable op \<longleftrightarrow> valid_id (NB_NoteID op) \<and> pred_option (\<lambda>u. length u < 2 ^ 32) (NB_CRDTUpdate op) \<and>
     pred_option (\<lambda>t. length t < 2 ^ 32 \<and> utf8_valid (str_bytes t)) (NB_Title op)"

definition enc_body :: "NoteBodyOperation \<Rightarrow> bytes" where
  "enc_body op = (case NB_CRDTUpdate op of None \<Rightarrow> [] | Some u \<Rightarrow> appendLengthPrefixed [] u) @
     (case NB_Title op of None \<Rightarrow> [] | Some t \<Rightarrow> appendLengthPrefixed [] (str_bytes t))"

definition flags_body :: "NoteBodyOperation \<Rightarrow> byte" where
  "flags_body op = (if NB_CRDTUpdate op \<noteq> None then 1 else 0) + (if NB_Title op \<noteq> None then 2 else 0)"

lemma EncodeNoteBodyOperation_iff:
  "EncodeNoteBodyOperation op = Inr data \<longleftrightarrow> \<not> ID_IsZero (NB_NoteID op) \<and> flags_body op \<noteq> 0 \<and>
     data = 1 # ID_Bytes (NB_NoteID op) @ flags_body op # enc_body op"
  by (auto simp: EncodeNoteBodyOperation_def enc_body_def flags_body_def Let_def appendLengthPrefixed_append
      split: option.splits)

lemma valid_id_nonzero: "valid_id i \<Longrightarrow> \<not> ID_IsZero i"
  by (auto simp: ID_Validate_def ID_IsZero_def split: if_splits)

lemma decode_body_complete:
  assumes "body_readable op" "flags_body op \<noteq> 0"
  shows "DecodeNoteBodyOperation (1 # ID_Bytes (NB_NoteID op) @ flags_body op # enc_body op) = Inr op"
proof -
  define data where "data = 1 # ID_Bytes (NB_NoteID op) @ flags_body op # enc_body op"
  have id: "valid_id (NB_NoteID op)" using assms(1) by (simp add: body_readable_def)
  have rd: "readLengthPrefixed (appendLengthPrefixed [] v @ rest) = Inr (v, rest)" if "length v < 4294967296" for v rest
    using that by (simp add: readLengthPrefixed_iff)
  have rd': "readLengthPrefixed (appendLengthPrefixed [] v) = Inr (v, [])" if "length v < 4294967296" for v
    using rd [OF that, of "[]"] by simp
  show ?thesis
    using assms header_parts [OF data_def] unfolding data_def [symmetric] DecodeNoteBodyOperation_def
    by (auto simp: body_readable_def flags_body_def enc_body_def rd rd' id split: option.splits)
qed

lemma decode_body_sound:
  assumes "DecodeNoteBodyOperation data = Inr op"
  shows "body_readable op \<and> flags_body op \<noteq> 0 \<and> data = 1 # ID_Bytes (NB_NoteID op) @ flags_body op # enc_body op"
proof -
  from assms obtain i where l: "18 \<le> length data" and v: "data ! 0 = 1" and i: "slice data 1 17 = ID_Bytes i" "valid_id i"
    and f: "data ! 17 = 1 \<or> data ! 17 = 2 \<or> data ! 17 = 3"
    by (auto simp: DecodeNoteBodyOperation_def Let_def ParseID_Inr_iff body_flags [symmetric] split: if_splits sum.splits)
  have data: "data = 1 # ID_Bytes i @ (data ! 17) # drop 18 data"
    using header_split [OF l] v i by simp
  have "NB_NoteID op = i" "body_readable op" "flags_body op = data ! 17" "drop 18 data = enc_body op"
    using assms l v i f
    by (auto simp: DecodeNoteBodyOperation_def Let_def body_readable_def flags_body_def enc_body_def
        readLengthPrefixed_iff err_simps split: if_splits prod.splits)
  with data f show ?thesis by auto
qed

text \<open>
  The body payload codec is exact: decoding succeeds precisely on the encodings of
  operations that can be read back (a valid note identifier, fields shorter than 4 GiB, a
  UTF-8 title), and returns the encoded operation.
\<close>

lemma DecodeNoteBodyOperation_iff:
  "DecodeNoteBodyOperation data = Inr op \<longleftrightarrow> EncodeNoteBodyOperation op = Inr data \<and> body_readable op"
  using decode_body_complete [of op] decode_body_sound [of data op]
  by (auto simp: EncodeNoteBodyOperation_iff body_readable_def dest: valid_id_nonzero)

text \<open>What a metadata operation must satisfy to be read back: only its kind's fields are set.\<close>

definition metadata_readable :: "NoteMetadataOperation \<Rightarrow> bool" where
  "metadata_readable op \<longleftrightarrow> valid_id (NM_NoteID op) \<and>
     (let z = zero_metadata (NM_NoteID op) (NM_Kind op) in
      if NM_Kind op = NoteMetadataKindNotebook then
        op = z\<lparr>NM_NotebookID := NM_NotebookID op\<rparr> \<and> (NM_NotebookID op = NilID \<or> valid_id (NM_NotebookID op))
      else if NM_Kind op = NoteMetadataKindTag then
        op = z\<lparr>NM_TagID := NM_TagID op, NM_TagPresent := NM_TagPresent op\<rparr> \<and> valid_id (NM_TagID op)
      else if NM_Kind op = NoteMetadataKindFlags then op = z\<lparr>NM_Flags := NM_Flags op\<rparr>
      else if NM_Kind op = NoteMetadataKindDeleted then op = z\<lparr>NM_Deleted := NM_Deleted op\<rparr>
      else op = z\<lparr>NM_AttachmentBlobID := NM_AttachmentBlobID op, NM_AttachmentPresent := NM_AttachmentPresent op\<rparr>)"

lemma decodeBoolByte_iff: "decodeBoolByte b = Inr v \<longleftrightarrow> b = boolByte v"
  by (auto simp: decodeBoolByte_def boolByte_def)

lemma be_bytes_u32: "[ucast (drop_bit 24 f), ucast (drop_bit 16 f), ucast (drop_bit 8 f), ucast f] = be_bytes 4 (f :: u32)"
  by (simp add: numeral_eq_Suc)

lemma be_word_u32:
  "push_bit 24 (ucast a) OR push_bit 16 (ucast b) OR push_bit 8 (ucast c) OR ucast d = (be_word [a, b, c, d] :: u32)"
  by (simp add: be_word_def push_bit_or or.assoc)

lemma list4: "length xs = 4 \<Longrightarrow> [xs ! 0, xs ! 1, xs ! 2, xs ! 3] = xs"
  by (auto simp: numeral_eq_Suc length_Suc_conv)

lemma flags_rest:
  assumes "length rest = 4"
  shows "push_bit 24 (ucast (rest ! 0)) OR push_bit 16 (ucast (rest ! 1)) OR push_bit 8 (ucast (rest ! 2))
      OR ucast (rest ! 3) = (f :: u32) \<longleftrightarrow> rest = be_bytes 4 f"
proof -
  have "(be_word rest :: u32) = f \<longleftrightarrow> rest = be_bytes 4 f"
    using be_bytes_be_word [of rest 4, where 'a = 32] be_word_be_bytes [of f 4, where 'a = 32] assms
      unsigned_less [of f] by auto
  then show ?thesis unfolding be_word_u32 list4 [OF assms] .
qed

lemma split_last: "length rest = Suc n \<Longrightarrow> rest = xs @ [b] \<longleftrightarrow> take n rest = xs \<and> rest ! n = b"
  by (metis append_eq_conv_conj length_append_singleton nat.inject nth_append_length
      take_Suc_conv_app_nth take_all_iff le_refl lessI)

lemma NoteMetadataKind_valid_iff:
  "NoteMetadataKind_valid k \<longleftrightarrow> k = 1 \<or> k = 2 \<or> k = 3 \<or> k = 4 \<or> k = 5"
proof -
  have "list_all (\<lambda>k. NoteMetadataKind_valid k \<longleftrightarrow> k = 1 \<or> k = 2 \<or> k = 3 \<or> k = 4 \<or> k = 5) (map word_of_nat [0..<256])"
    by code_simp
  then show ?thesis by (rule byte_exhaust)
qed

definition enc_metadata :: "NoteMetadataOperation \<Rightarrow> bytes" where
  "enc_metadata op =
     (if NM_Kind op = NoteMetadataKindNotebook then ID_Bytes (NM_NotebookID op)
      else if NM_Kind op = NoteMetadataKindTag then ID_Bytes (NM_TagID op) @ [boolByte (NM_TagPresent op)]
      else if NM_Kind op = NoteMetadataKindFlags then be_bytes 4 (NM_Flags op)
      else if NM_Kind op = NoteMetadataKindDeleted then [boolByte (NM_Deleted op)]
      else NM_AttachmentBlobID op @ [boolByte (NM_AttachmentPresent op)])"

lemma EncodeNoteMetadataOperation_iff:
  assumes "metadata_readable op"
  shows "EncodeNoteMetadataOperation op = Inr data \<longleftrightarrow> NoteMetadataKind_valid (NM_Kind op) \<and>
    (NM_Kind op = 5 \<longrightarrow> length (NM_AttachmentBlobID op) = 32) \<and>
    data = 1 # ID_Bytes (NM_NoteID op) @ NM_Kind op # enc_metadata op"
  using assms
  by (auto simp: EncodeNoteMetadataOperation_def metadata_readable_def enc_metadata_def Let_def valid_id_nonzero
      be_bytes_u32 NoteMetadataKind_valid_iff)

lemma id_copy_eq_iff: "length rest = 16 \<and> id_copy rest = i \<longleftrightarrow> rest = ID_Bytes i"
  by (metis ID_Bytes_def id_array_copy id_copy_Bytes length_ID_Bytes)

lemma decode_metadata_rest_iff:
  assumes "NoteMetadataKind_valid kind" and "valid_id i"
  shows "decode_metadata_rest i kind rest = Inr op \<longleftrightarrow>
    metadata_readable op \<and> NM_NoteID op = i \<and> NM_Kind op = kind \<and> rest = enc_metadata op \<and>
    (kind = 5 \<longrightarrow> length (NM_AttachmentBlobID op) = 32)" (is "?L \<longleftrightarrow> ?R")
proof -
  from assms(1) consider "kind = 1" | "kind = 2" | "kind = 3" | "kind = 4" | "kind = 5"
    by (auto simp: NoteMetadataKind_valid_iff)
  then show ?thesis
  proof cases
    case 1
    have "?L \<longleftrightarrow> (\<exists>n. (length rest = 16 \<and> id_copy rest = n) \<and> (n = NilID \<or> valid_id n) \<and>
        op = (zero_metadata i 1)\<lparr>NM_NotebookID := n\<rparr>)"
      using 1 by (auto simp: decode_metadata_rest_def Let_def)
    also have "\<dots> \<longleftrightarrow> ?R"
      unfolding id_copy_eq_iff
      using 1 assms(2) by (auto simp: metadata_readable_def enc_metadata_def zero_metadata_def Let_def)
    finally show ?thesis .
  next
    case 2
    have last: "length rest = 17 \<and> take 16 rest = xs \<and> rest ! 16 = b \<longleftrightarrow> rest = xs @ [b]" if "length xs = 16" for xs b
      using that split_last [of rest 16 xs b] by (auto simp: nth_append)
    have "?L \<longleftrightarrow> (\<exists>t p. (length rest = 17 \<and> take 16 rest = ID_Bytes t \<and> rest ! 16 = boolByte p) \<and> valid_id t \<and>
        op = (zero_metadata i 2)\<lparr>NM_TagID := t, NM_TagPresent := p\<rparr>)"
      using 2 by (auto simp: decode_metadata_rest_def Let_def ParseID_Inr_iff decodeBoolByte_iff err_simps
          split: sum.splits)
    also have "\<dots> \<longleftrightarrow> (\<exists>t p. rest = ID_Bytes t @ [boolByte p] \<and> valid_id t \<and>
        op = (zero_metadata i 2)\<lparr>NM_TagID := t, NM_TagPresent := p\<rparr>)"
      by (simp only: last length_ID_Bytes)
    also have "\<dots> \<longleftrightarrow> ?R"
      using 2 assms(2) by (auto simp: metadata_readable_def enc_metadata_def zero_metadata_def Let_def)
    finally show ?thesis .
  next
    case 3
    have "?L \<longleftrightarrow> length rest = 4 \<and> (\<exists>f. rest = be_bytes 4 f \<and> op = (zero_metadata i 3)\<lparr>NM_Flags := f\<rparr>)"
      using 3 flags_rest [of rest] by (auto simp: decode_metadata_rest_def Let_def)
    also have "\<dots> \<longleftrightarrow> ?R"
      using 3 assms(2) by (auto simp: metadata_readable_def enc_metadata_def zero_metadata_def Let_def)
    finally show ?thesis .
  next
    case 4
    have "?L \<longleftrightarrow> (\<exists>b. rest = [boolByte b] \<and> op = (zero_metadata i 4)\<lparr>NM_Deleted := b\<rparr>)"
      using 4 by (auto simp: decode_metadata_rest_def Let_def decodeBoolByte_iff err_simps length_Suc_conv)
    also have "\<dots> \<longleftrightarrow> ?R"
      using 4 assms(2) by (auto simp: metadata_readable_def enc_metadata_def zero_metadata_def Let_def)
    finally show ?thesis .
  next
    case 5
    have "?L \<longleftrightarrow> (\<exists>p. length rest = 33 \<and> rest ! 32 = boolByte p \<and>
        op = (zero_metadata i 5)\<lparr>NM_AttachmentBlobID := take 32 rest, NM_AttachmentPresent := p\<rparr>)"
      using 5 by (auto simp: decode_metadata_rest_def Let_def decodeBoolByte_iff err_simps)
    also have "\<dots> \<longleftrightarrow> (\<exists>a p. length a = 32 \<and> rest = a @ [boolByte p] \<and>
        op = (zero_metadata i 5)\<lparr>NM_AttachmentBlobID := a, NM_AttachmentPresent := p\<rparr>)"
      using split_last [of rest 32] by (auto simp: nth_append)
    also have "\<dots> \<longleftrightarrow> ?R"
      using 5 assms(2) by (auto simp: metadata_readable_def enc_metadata_def zero_metadata_def Let_def)
    finally show ?thesis .
  qed
qed

text \<open>
  The metadata payload codec is exact: decoding succeeds precisely on the encodings of
  operations that set only the fields of their kind, with valid identifiers (or the nil
  notebook), and returns the encoded operation. Every other byte string is rejected.
\<close>

lemma DecodeNoteMetadataOperation_iff:
  "DecodeNoteMetadataOperation data = Inr op \<longleftrightarrow> EncodeNoteMetadataOperation op = Inr data \<and> metadata_readable op"
proof
  assume d: "DecodeNoteMetadataOperation data = Inr op"
  then obtain i where l: "18 \<le> length data" and v: "data ! 0 = 1" and i: "slice data 1 17 = ID_Bytes i" "valid_id i"
    and k: "NoteMetadataKind_valid (data ! 17)" and r: "decode_metadata_rest i (data ! 17) (drop 18 data) = Inr op"
    by (auto simp: DecodeNoteMetadataOperation_def Let_def ParseID_Inr_iff split: if_splits sum.splits)
  have "data = 1 # ID_Bytes i @ (data ! 17) # drop 18 data"
    using header_split [OF l] v i by simp
  with r k i show "EncodeNoteMetadataOperation op = Inr data \<and> metadata_readable op"
    by (auto simp: decode_metadata_rest_iff EncodeNoteMetadataOperation_iff)
next
  assume e: "EncodeNoteMetadataOperation op = Inr data \<and> metadata_readable op"
  then have data: "data = 1 # ID_Bytes (NM_NoteID op) @ NM_Kind op # enc_metadata op"
    and k: "NoteMetadataKind_valid (NM_Kind op)" and a: "NM_Kind op = 5 \<longrightarrow> length (NM_AttachmentBlobID op) = 32"
    by (auto simp: EncodeNoteMetadataOperation_iff)
  have "valid_id (NM_NoteID op)" using e by (simp add: metadata_readable_def)
  with e k a show "DecodeNoteMetadataOperation data = Inr op"
    unfolding DecodeNoteMetadataOperation_def header_parts [OF data]
    using header_parts(5) [OF data] by (simp add: decode_metadata_rest_iff)
qed

end
