(* ===== verification/Note_Store.thy ===== *)
theory Note_Store
  imports Sync_Repository Note_Operations
begin

text \<open>
  The tables that hold the user's notes and the methods that change them:
  \<^verbatim>\<open>core/store/notes.go\<close>, \<^verbatim>\<open>notebooks.go\<close>, \<^verbatim>\<open>tags.go\<close>, \<^verbatim>\<open>attachments.go\<close>, \<^verbatim>\<open>crdt.go\<close>,
  \<^verbatim>\<open>revisions.go\<close>, \<^verbatim>\<open>fts.go\<close>, \<^verbatim>\<open>devices.go\<close> and the comparison of \<^verbatim>\<open>lww.go\<close>. A table is the list of its
  rows in insertion order. The three clock columns of a register are one value of type \<open>HLC\<close>,
  an optional one where the schema allows NULL; an identifier column that allows NULL holds
  the zero identifier instead, as \<^verbatim>\<open>idColumn\<close> writes it. Foreign keys, unique indexes and
  values that the driver cannot bind are checked where a statement can violate them. A
  method returns an error or the new tables; the caller's transaction discards the tables
  of a failed method.
\<close>

section \<open>Tables\<close>

datatype store_error =
  StoreNotFound | StoreWrongWorkspace | StoreNotebookCycle | StoreInvalidName | StoreInvalidNote | StoreMalformed string | StoreSql

record note_row =
  nr_id :: ID
  nr_workspace :: ID
  nr_notebook :: ID
  nr_notebook_clock :: "HLC option"
  nr_title :: string
  nr_title_clock :: HLC
  nr_flags :: NoteFlags
  nr_flags_clock :: "HLC option"
  nr_deleted :: bool
  nr_deleted_clock :: "HLC option"
  nr_created :: HLC

record notebook_row =
  nb_id :: ID
  nb_workspace :: ID
  nb_parent :: ID
  nb_parent_clock :: "HLC option"
  nb_name :: string
  nb_name_clock :: HLC
  nb_deleted :: bool
  nb_deleted_clock :: "HLC option"
  nb_created :: HLC

record tag_row =
  tg_id :: ID
  tg_workspace :: ID
  tg_name :: string
  tg_created :: HLC
  tg_deleted :: bool
  tg_deleted_clock :: "HLC option"

text \<open>A row of \<^verbatim>\<open>note_tags\<close> or \<^verbatim>\<open>note_attachments\<close>: the register of one pair.\<close>

record 'k pair_row =
  pr_note :: ID
  pr_other :: 'k
  pr_present :: bool
  pr_clock :: HLC

record attachment_row =
  at_blob :: bytes
  at_workspace :: ID
  at_key :: bytes
  at_manifest :: bytes
  at_size :: int
  at_chunks :: u32
  at_created :: int
  at_orphaned :: "int option"

record CRDTState =
  Snapshot :: bytes
  StateVector :: bytes

record update_row =
  up_note :: ID
  up_bytes :: bytes
  up_origin :: ID
  up_created :: u64

record Revision =
  Rev_ID :: ID
  Rev_NoteID :: ID
  Rev_Kind :: nat
  Rev_Format :: byte
  Rev_Data :: bytes
  Rev_CreatedUnixMS :: u64

record fts_row =
  ft_note :: ID
  ft_title :: string
  ft_body :: string

record client_device =
  dv_id :: ID
  dv_public :: bytes
  dv_status :: int
  dv_physical :: u64
  dv_logical :: u32

text \<open>
  The workspaces are the table that \<open>client_db\<close> has too; no method below changes it. The
  revisions are in the order of their row identifiers, which grow with every insertion.
\<close>

record note_db =
  nd_workspaces :: "ID set"
  nd_devices :: "client_device list"
  nd_notebooks :: "notebook_row list"
  nd_tags :: "tag_row list"
  nd_notes :: "note_row list"
  nd_note_tags :: "ID pair_row list"
  nd_attachments :: "attachment_row list"
  nd_note_attachments :: "bytes pair_row list"
  nd_crdt_states :: "ID \<rightharpoonup> CRDTState \<times> u64"
  nd_crdt_updates :: "update_row list"
  nd_revisions :: "Revision list"
  nd_fts :: "fts_row list"

section \<open>Last-writer-wins columns\<close>

text \<open>\<open>lwwWhereClause\<close> with the arguments of \<open>lwwArgs\<close>; byte strings are compared as \<^verbatim>\<open>memcmp\<close> does.\<close>

definition lwwWhereClause :: "HLC option \<Rightarrow> HLC \<Rightarrow> bool" where
  "lwwWhereClause stored clock \<longleftrightarrow>
     (case stored of
        None \<Rightarrow> True
      | Some c \<Rightarrow>
          PhysicalMS c < PhysicalMS clock \<or>
          (PhysicalMS clock = PhysicalMS c \<and> Logical c < Logical clock) \<or>
          (PhysicalMS clock = PhysicalMS c \<and> Logical clock = Logical c \<and>
           0 < bytes_compare (ID_Bytes (ClockDeviceID clock)) (ID_Bytes (ClockDeviceID c))))"

text \<open>An unsigned value with the highest bit set is refused by the driver.\<close>

abbreviation bindable :: "HLC \<Rightarrow> bool" where
  "bindable clock \<equiv> PhysicalMS clock \<le> MaxInt64"

text \<open>
  \<^verbatim>\<open>UPDATE ... WHERE id = ? AND\<close> the clause above, followed by \<open>ignoreStaleWrite\<close>: a row that
  exists but has a later clock is left alone, a missing row is an error.
\<close>

definition lww_update :: "('r \<Rightarrow> bool) \<Rightarrow> ('r \<Rightarrow> HLC option) \<Rightarrow> HLC \<Rightarrow> ('r \<Rightarrow> 'r) \<Rightarrow> 'r list \<Rightarrow> store_error + 'r list" where
  "lww_update is_row reg clock set_value rows =
     (if \<not> bindable clock then Inl StoreSql
      else
        let hit = (\<lambda>r. is_row r \<and> lwwWhereClause (reg r) clock);
            updated = map (\<lambda>r. if hit r then set_value r else r) rows
        in if list_ex hit rows then Inr updated
           else if list_ex is_row rows then Inr updated
           else Inl StoreNotFound)"

definition scan_clock :: "HLC option \<Rightarrow> HLC" where
  "scan_clock c =
     (case c of
        None \<Rightarrow> zero_HLC
      | Some h \<Rightarrow> if ID_Validate (ClockDeviceID h) = Inr () then h else h\<lparr>ClockDeviceID := NilID\<rparr>)"

section \<open>Notes\<close>

definition scanNote :: "note_row \<Rightarrow> store_error + Note" where
  "scanNote r =
     (if ID_Validate (nr_id r) \<noteq> Inr () then Inl (StoreMalformed ''stored note ID'')
      else if ID_Validate (nr_workspace r) \<noteq> Inr () then Inl (StoreMalformed ''stored note workspace ID'')
      else if nr_notebook r \<noteq> NilID \<and> ID_Validate (nr_notebook r) \<noteq> Inr () then Inl (StoreMalformed ''stored note notebook ID'')
      else Inr \<lparr>Note_ID = nr_id r, Note_WorkspaceID = nr_workspace r,
                Note_NotebookID = \<lparr>Value = nr_notebook r, LWWClock = scan_clock (nr_notebook_clock r)\<rparr>,
                Note_Title = \<lparr>Value = nr_title r, LWWClock = scan_clock (Some (nr_title_clock r))\<rparr>,
                Note_Flags = \<lparr>Value = nr_flags r, LWWClock = scan_clock (nr_flags_clock r)\<rparr>,
                Note_Deleted = \<lparr>Value = nr_deleted r, LWWClock = scan_clock (nr_deleted_clock r)\<rparr>,
                Note_CreatedAt = scan_clock (Some (nr_created r))\<rparr>)"

definition Store_GetNote :: "ID \<Rightarrow> note_db \<Rightarrow> store_error + Note" where
  "Store_GetNote noteID db =
     (case find (\<lambda>r. nr_id r = noteID) (nd_notes db) of None \<Rightarrow> Inl StoreNotFound | Some r \<Rightarrow> scanNote r)"

fun scan_notes :: "note_row list \<Rightarrow> store_error + Note list" where
  "scan_notes [] = Inr []"
| "scan_notes (r # rs) = bind_res (scanNote r) (\<lambda>n. bind_res (scan_notes rs) (\<lambda>ns. Inr (n # ns)))"

definition Store_ListNotes :: "ID \<Rightarrow> note_db \<Rightarrow> store_error + Note list" where
  "Store_ListNotes ws db = scan_notes (filter (\<lambda>r. nr_workspace r = ws) (nd_notes db))"

text \<open>The checks of an \<^verbatim>\<open>INSERT INTO notes\<close>, apart from the primary key.\<close>

definition note_fks :: "note_row \<Rightarrow> note_db \<Rightarrow> bool" where
  "note_fks r db \<longleftrightarrow> nr_workspace r \<in> nd_workspaces db \<and>
     (nr_notebook r = NilID \<or> list_ex (\<lambda>b. nb_id b = nr_notebook r) (nd_notebooks db))"

definition Store_CreateNote :: "ID \<Rightarrow> ID \<Rightarrow> ID \<Rightarrow> string \<Rightarrow> HLC \<Rightarrow> note_db \<Rightarrow> store_error + Note \<times> note_db" where
  "Store_CreateNote newid workspaceID notebookID title clock db =
     (let note = \<lparr>Note_ID = newid, Note_WorkspaceID = workspaceID, Note_NotebookID = \<lparr>Value = notebookID, LWWClock = clock\<rparr>,
            Note_Title = \<lparr>Value = title, LWWClock = clock\<rparr>, Note_Flags = \<lparr>Value = 0, LWWClock = zero_HLC\<rparr>,
            Note_Deleted = \<lparr>Value = False, LWWClock = zero_HLC\<rparr>, Note_CreatedAt = clock\<rparr>;
          row = \<lparr>nr_id = newid, nr_workspace = workspaceID, nr_notebook = notebookID,
            nr_notebook_clock = (if ID_IsZero notebookID then None else Some clock), nr_title = title, nr_title_clock = clock,
            nr_flags = 0, nr_flags_clock = None, nr_deleted = False, nr_deleted_clock = None, nr_created = clock\<rparr>
      in case Note_Validate note of
           Inl _ \<Rightarrow> Inl StoreInvalidNote
         | Inr _ \<Rightarrow>
             if \<not> bindable clock \<or> \<not> note_fks row db \<or> list_ex (\<lambda>r. nr_id r = newid) (nd_notes db) then Inl StoreSql
             else Inr (note, db\<lparr>nd_notes := nd_notes db @ [row]\<rparr>))"

definition InsertReplicatedNote :: "ID \<Rightarrow> ID \<Rightarrow> string \<Rightarrow> HLC \<Rightarrow> note_db \<Rightarrow> store_error + Note \<times> note_db" where
  "InsertReplicatedNote noteID workspaceID title clock db =
     (if ID_Validate noteID \<noteq> Inr () \<or> MaxNoteTitleBytes < length title \<or> HLC_IsZero clock then Inl StoreInvalidNote
      else
        let row = \<lparr>nr_id = noteID, nr_workspace = workspaceID, nr_notebook = NilID, nr_notebook_clock = None, nr_title = title,
              nr_title_clock = clock, nr_flags = 0, nr_flags_clock = None, nr_deleted = False, nr_deleted_clock = None, nr_created = clock\<rparr>
        in if \<not> bindable clock then Inl StoreSql
           else if list_ex (\<lambda>r. nr_id r = noteID) (nd_notes db) then
             bind_res (Store_GetNote noteID db) (\<lambda>note.
               if Note_WorkspaceID note \<noteq> workspaceID then Inl StoreWrongWorkspace else Inr (note, db))
           else if \<not> note_fks row db then Inl StoreSql
           else Inr (\<lparr>Note_ID = noteID, Note_WorkspaceID = workspaceID, Note_NotebookID = \<lparr>Value = NilID, LWWClock = zero_HLC\<rparr>,
                      Note_Title = \<lparr>Value = title, LWWClock = clock\<rparr>, Note_Flags = \<lparr>Value = 0, LWWClock = zero_HLC\<rparr>,
                      Note_Deleted = \<lparr>Value = False, LWWClock = zero_HLC\<rparr>, Note_CreatedAt = clock\<rparr>,
                     db\<lparr>nd_notes := nd_notes db @ [row]\<rparr>))"

definition on_notes :: "(note_row list \<Rightarrow> store_error + note_row list) \<Rightarrow> note_db \<Rightarrow> store_error + note_db" where
  "on_notes f db = bind_res (f (nd_notes db)) (\<lambda>rows. Inr (db\<lparr>nd_notes := rows\<rparr>))"

definition SetNoteTitle :: "ID \<Rightarrow> string \<Rightarrow> HLC \<Rightarrow> note_db \<Rightarrow> store_error + note_db" where
  "SetNoteTitle noteID title clock db =
     (if MaxNoteTitleBytes < length title then Inl StoreInvalidNote
      else on_notes (lww_update (\<lambda>r. nr_id r = noteID) (\<lambda>r. Some (nr_title_clock r)) clock
             (\<lambda>r. r\<lparr>nr_title := title, nr_title_clock := clock\<rparr>)) db)"

text \<open>The foreign key of the notebook column is checked when a row is written.\<close>

definition SetNoteNotebook :: "ID \<Rightarrow> ID \<Rightarrow> HLC \<Rightarrow> note_db \<Rightarrow> store_error + note_db" where
  "SetNoteNotebook noteID notebookID clock db =
     (if list_ex (\<lambda>r. nr_id r = noteID \<and> lwwWhereClause (nr_notebook_clock r) clock) (nd_notes db) \<and>
         notebookID \<noteq> NilID \<and> \<not> list_ex (\<lambda>b. nb_id b = notebookID) (nd_notebooks db)
      then Inl StoreSql
      else on_notes (lww_update (\<lambda>r. nr_id r = noteID) nr_notebook_clock clock
             (\<lambda>r. r\<lparr>nr_notebook := notebookID, nr_notebook_clock := Some clock\<rparr>)) db)"

definition SetNoteFlags :: "ID \<Rightarrow> NoteFlags \<Rightarrow> HLC \<Rightarrow> note_db \<Rightarrow> store_error + note_db" where
  "SetNoteFlags noteID flags clock =
     on_notes (lww_update (\<lambda>r. nr_id r = noteID) nr_flags_clock clock (\<lambda>r. r\<lparr>nr_flags := flags, nr_flags_clock := Some clock\<rparr>))"

definition SetNoteDeleted :: "ID \<Rightarrow> bool \<Rightarrow> HLC \<Rightarrow> note_db \<Rightarrow> store_error + note_db" where
  "SetNoteDeleted noteID deleted clock =
     on_notes (lww_update (\<lambda>r. nr_id r = noteID) nr_deleted_clock clock (\<lambda>r. r\<lparr>nr_deleted := deleted, nr_deleted_clock := Some clock\<rparr>))"

definition ReplaceNoteFTS :: "ID \<Rightarrow> string \<Rightarrow> string \<Rightarrow> note_db \<Rightarrow> note_db" where
  "ReplaceNoteFTS noteID title body db =
     db\<lparr>nd_fts := filter (\<lambda>f. ft_note f \<noteq> noteID) (nd_fts db) @ [\<lparr>ft_note = noteID, ft_title = title, ft_body = body\<rparr>]\<rparr>"


section \<open>Notebooks\<close>

record Notebook =
  Nb_ID :: ID
  Nb_WorkspaceID :: ID
  Nb_ParentID :: ID
  Nb_ParentClock :: HLC
  Nb_Name :: string
  Nb_NameClock :: HLC
  Nb_Deleted :: bool
  Nb_DeletedClock :: HLC
  Nb_CreatedAt :: HLC

definition validateName :: "string \<Rightarrow> nat \<Rightarrow> store_error + unit" where
  "validateName name maxBytes = (if length name = 0 \<or> maxBytes < length name then Inl StoreInvalidName else Inr ())"

abbreviation maxNotebookNameBytes :: nat where "maxNotebookNameBytes \<equiv> 256"
abbreviation maxTagNameBytes :: nat where "maxTagNameBytes \<equiv> 128"

definition syncPlaceholderNamePrefix :: string where
  "syncPlaceholderNamePrefix = ''sync-pending-''"

definition scanNotebook :: "notebook_row \<Rightarrow> store_error + Notebook" where
  "scanNotebook r =
     (if ID_Validate (nb_id r) \<noteq> Inr () then Inl (StoreMalformed ''stored notebook ID'')
      else if ID_Validate (nb_workspace r) \<noteq> Inr () then Inl (StoreMalformed ''stored notebook workspace ID'')
      else if nb_parent r \<noteq> NilID \<and> ID_Validate (nb_parent r) \<noteq> Inr () then Inl (StoreMalformed ''stored notebook parent ID'')
      else Inr \<lparr>Nb_ID = nb_id r, Nb_WorkspaceID = nb_workspace r, Nb_ParentID = nb_parent r, Nb_ParentClock = scan_clock (nb_parent_clock r),
                Nb_Name = nb_name r, Nb_NameClock = scan_clock (Some (nb_name_clock r)), Nb_Deleted = nb_deleted r,
                Nb_DeletedClock = (if nb_deleted r then scan_clock (nb_deleted_clock r) else zero_HLC),
                Nb_CreatedAt = scan_clock (Some (nb_created r))\<rparr>)"

definition getNotebook :: "ID \<Rightarrow> note_db \<Rightarrow> store_error + Notebook" where
  "getNotebook i db =
     (case find (\<lambda>r. nb_id r = i) (nd_notebooks db) of None \<Rightarrow> Inl StoreNotFound | Some r \<Rightarrow> scanNotebook r)"

text \<open>The checks of an \<^verbatim>\<open>INSERT INTO notebooks\<close>, apart from the primary key. A row may name itself as its parent.\<close>

definition notebook_fks :: "notebook_row \<Rightarrow> note_db \<Rightarrow> bool" where
  "notebook_fks r db \<longleftrightarrow> nb_workspace r \<in> nd_workspaces db \<and>
     (nb_parent r = NilID \<or> nb_parent r = nb_id r \<or> list_ex (\<lambda>b. nb_id b = nb_parent r) (nd_notebooks db))"

definition Store_CreateNotebook :: "ID \<Rightarrow> ID \<Rightarrow> ID \<Rightarrow> string \<Rightarrow> HLC \<Rightarrow> note_db \<Rightarrow> store_error + Notebook \<times> note_db" where
  "Store_CreateNotebook newid workspaceID parentID name clock db =
     bind_res (validateName name maxNotebookNameBytes) (\<lambda>_.
     bind_res (if ID_IsZero parentID then Inr ()
               else bind_res (getNotebook parentID db) (\<lambda>parent.
                 if Nb_WorkspaceID parent \<noteq> workspaceID then Inl StoreWrongWorkspace
                 else if Nb_Deleted parent then Inl StoreNotFound
                 else Inr ())) (\<lambda>_.
       let row = \<lparr>nb_id = newid, nb_workspace = workspaceID, nb_parent = parentID, nb_parent_clock = Some clock, nb_name = name,
             nb_name_clock = clock, nb_deleted = False, nb_deleted_clock = None, nb_created = clock\<rparr>
       in if \<not> bindable clock \<or> \<not> notebook_fks row db \<or> list_ex (\<lambda>r. nb_id r = newid) (nd_notebooks db) then Inl StoreSql
          else Inr (\<lparr>Nb_ID = newid, Nb_WorkspaceID = workspaceID, Nb_ParentID = parentID, Nb_ParentClock = clock, Nb_Name = name,
                     Nb_NameClock = clock, Nb_Deleted = False, Nb_DeletedClock = zero_HLC, Nb_CreatedAt = clock\<rparr>,
                    db\<lparr>nd_notebooks := nd_notebooks db @ [row]\<rparr>)))"

text \<open>The workspace of the row after an insertion that does nothing on a conflict.\<close>

definition same_workspace :: "ID option \<Rightarrow> ID \<Rightarrow> 'a \<Rightarrow> store_error + 'a" where
  "same_workspace stored workspaceID x =
     (case stored of
        None \<Rightarrow> Inl StoreSql
      | Some ws \<Rightarrow>
          if ID_Validate ws \<noteq> Inr () then Inl (StoreMalformed ''stored placeholder workspace ID'')
          else if ws \<noteq> workspaceID then Inl StoreWrongWorkspace
          else Inr x)"

definition EnsureNotebookPlaceholder :: "ID \<Rightarrow> ID \<Rightarrow> HLC \<Rightarrow> note_db \<Rightarrow> store_error + note_db" where
  "EnsureNotebookPlaceholder workspaceID notebookID clock db =
     (if ID_IsZero notebookID then Inl (StoreMalformed ''notebook placeholder ID is zero'')
      else if \<not> bindable clock then Inl StoreSql
      else
        let row = \<lparr>nb_id = notebookID, nb_workspace = workspaceID, nb_parent = NilID, nb_parent_clock = None,
              nb_name = syncPlaceholderNamePrefix @ hex_encode (ID_Bytes notebookID), nb_name_clock = clock, nb_deleted = True,
              nb_deleted_clock = Some clock, nb_created = clock\<rparr>
        in bind_res (if list_ex (\<lambda>r. nb_id r = notebookID) (nd_notebooks db) then Inr db
                     else if \<not> notebook_fks row db then Inl StoreSql
                     else Inr (db\<lparr>nd_notebooks := nd_notebooks db @ [row]\<rparr>)) (\<lambda>db.
             same_workspace (map_option nb_workspace (find (\<lambda>r. nb_id r = notebookID) (nd_notebooks db))) workspaceID db))"

definition on_notebooks :: "(notebook_row list \<Rightarrow> store_error + notebook_row list) \<Rightarrow> note_db \<Rightarrow> store_error + note_db" where
  "on_notebooks f db = bind_res (f (nd_notebooks db)) (\<lambda>rows. Inr (db\<lparr>nd_notebooks := rows\<rparr>))"

definition Store_RenameNotebook :: "ID \<Rightarrow> string \<Rightarrow> HLC \<Rightarrow> note_db \<Rightarrow> store_error + note_db" where
  "Store_RenameNotebook notebookID name clock db =
     bind_res (validateName name maxNotebookNameBytes) (\<lambda>_.
       on_notebooks (lww_update (\<lambda>r. nb_id r = notebookID) (\<lambda>r. Some (nb_name_clock r)) clock
         (\<lambda>r. r\<lparr>nb_name := name, nb_name_clock := clock\<rparr>)) db)"

text \<open>
  The walk from the new parent to the root. It follows the stored parents and returns only
  if they end; \<open>None\<close> is a walk that does not.
\<close>

partial_function (option) ancestor_walk :: "ID \<Rightarrow> ID \<Rightarrow> note_db \<Rightarrow> ID \<Rightarrow> (store_error + unit) option" where
  "ancestor_walk notebookID workspaceID db ancestor =
     (if ID_IsZero ancestor then Some (Inr ())
      else if ancestor = notebookID then Some (Inl StoreNotebookCycle)
      else
        case getNotebook ancestor db of
          Inl e \<Rightarrow> Some (Inl e)
        | Inr nxt \<Rightarrow>
            if Nb_WorkspaceID nxt \<noteq> workspaceID then Some (Inl StoreWrongWorkspace)
            else ancestor_walk notebookID workspaceID db (Nb_ParentID nxt))"

definition move_row :: "ID \<Rightarrow> ID \<Rightarrow> HLC \<Rightarrow> note_db \<Rightarrow> store_error + note_db" where
  "move_row notebookID newParentID clock =
     on_notebooks (lww_update (\<lambda>r. nb_id r = notebookID) nb_parent_clock clock
       (\<lambda>r. r\<lparr>nb_parent := newParentID, nb_parent_clock := Some clock\<rparr>))"

definition Store_MoveNotebook :: "ID \<Rightarrow> ID \<Rightarrow> HLC \<Rightarrow> note_db \<Rightarrow> (store_error + note_db) option" where
  "Store_MoveNotebook notebookID newParentID clock db =
     (if notebookID = newParentID then Some (Inl StoreNotebookCycle)
      else
        case getNotebook notebookID db of
          Inl e \<Rightarrow> Some (Inl e)
        | Inr notebook \<Rightarrow>
            map_option (\<lambda>r. bind_res r (\<lambda>_. move_row notebookID newParentID clock db))
              (ancestor_walk notebookID (Nb_WorkspaceID notebook) db newParentID))"

definition Store_SetNotebookDeleted :: "ID \<Rightarrow> bool \<Rightarrow> HLC \<Rightarrow> note_db \<Rightarrow> store_error + note_db" where
  "Store_SetNotebookDeleted notebookID deleted clock =
     on_notebooks (lww_update (\<lambda>r. nb_id r = notebookID) nb_deleted_clock clock
       (\<lambda>r. r\<lparr>nb_deleted := deleted, nb_deleted_clock := Some clock\<rparr>))"


definition nullable_clock :: "bool \<Rightarrow> HLC \<Rightarrow> HLC option" where
  "nullable_clock set_value clock = (if set_value then Some clock else None)"

text \<open>The row that \<^verbatim>\<open>UpsertSnapshotNotebook\<close> writes, over the existing row of its identifier if there is one.\<close>

definition snapshot_notebook_row :: "Notebook \<Rightarrow> notebook_row" where
  "snapshot_notebook_row n =
     \<lparr>nb_id = Nb_ID n, nb_workspace = Nb_WorkspaceID n, nb_parent = Nb_ParentID n, nb_parent_clock = Some (Nb_ParentClock n),
      nb_name = Nb_Name n, nb_name_clock = Nb_NameClock n, nb_deleted = Nb_Deleted n,
      nb_deleted_clock = nullable_clock (Nb_Deleted n) (Nb_DeletedClock n), nb_created = Nb_CreatedAt n\<rparr>"

definition UpsertSnapshotNotebook :: "Notebook \<Rightarrow> note_db \<Rightarrow> store_error + note_db" where
  "UpsertSnapshotNotebook n db =
     bind_res (validateName (Nb_Name n) maxNotebookNameBytes) (\<lambda>_.
       if ID_IsZero (Nb_ID n) \<or> ID_IsZero (Nb_WorkspaceID n) then Inl (StoreMalformed ''invalid snapshot notebook'')
       else if \<not> bindable (Nb_ParentClock n) \<or> \<not> bindable (Nb_NameClock n) \<or> (Nb_Deleted n \<and> \<not> bindable (Nb_DeletedClock n)) \<or>
               \<not> bindable (Nb_CreatedAt n) \<or> \<not> notebook_fks (snapshot_notebook_row n) db then Inl StoreSql
       else if list_ex (\<lambda>r. nb_id r = Nb_ID n) (nd_notebooks db)
       then Inr (db\<lparr>nd_notebooks := map (\<lambda>r. if nb_id r = Nb_ID n then snapshot_notebook_row n else r) (nd_notebooks db)\<rparr>)
       else Inr (db\<lparr>nd_notebooks := nd_notebooks db @ [snapshot_notebook_row n]\<rparr>))"

section \<open>Tags\<close>

record Tag =
  Tag_ID :: ID
  Tag_WorkspaceID :: ID
  Tag_Name :: string
  Tag_CreatedAt :: HLC
  Tag_Deleted :: bool
  Tag_DeletedClock :: HLC

text \<open>The foreign key and the unique index on workspace and name.\<close>

definition tag_ok :: "tag_row \<Rightarrow> note_db \<Rightarrow> bool" where
  "tag_ok r db \<longleftrightarrow> tg_workspace r \<in> nd_workspaces db \<and>
     \<not> list_ex (\<lambda>t. tg_id t \<noteq> tg_id r \<and> tg_workspace t = tg_workspace r \<and> tg_name t = tg_name r) (nd_tags db)"

definition Store_CreateTag :: "ID \<Rightarrow> ID \<Rightarrow> string \<Rightarrow> HLC \<Rightarrow> note_db \<Rightarrow> store_error + Tag \<times> note_db" where
  "Store_CreateTag newid workspaceID name clock db =
     bind_res (validateName name maxTagNameBytes) (\<lambda>_.
       let row = \<lparr>tg_id = newid, tg_workspace = workspaceID, tg_name = name, tg_created = clock, tg_deleted = False, tg_deleted_clock = None\<rparr>
       in if \<not> bindable clock \<or> \<not> tag_ok row db \<or> list_ex (\<lambda>t. tg_id t = newid) (nd_tags db) then Inl StoreSql
          else Inr (\<lparr>Tag_ID = newid, Tag_WorkspaceID = workspaceID, Tag_Name = name, Tag_CreatedAt = clock, Tag_Deleted = False,
                     Tag_DeletedClock = zero_HLC\<rparr>, db\<lparr>nd_tags := nd_tags db @ [row]\<rparr>))"

definition snapshot_tag_row :: "Tag \<Rightarrow> tag_row" where
  "snapshot_tag_row t =
     \<lparr>tg_id = Tag_ID t, tg_workspace = Tag_WorkspaceID t, tg_name = Tag_Name t, tg_created = Tag_CreatedAt t, tg_deleted = Tag_Deleted t,
      tg_deleted_clock = nullable_clock (Tag_Deleted t) (Tag_DeletedClock t)\<rparr>"

definition UpsertSnapshotTag :: "Tag \<Rightarrow> note_db \<Rightarrow> store_error + note_db" where
  "UpsertSnapshotTag t db =
     bind_res (validateName (Tag_Name t) maxTagNameBytes) (\<lambda>_.
       if ID_IsZero (Tag_ID t) \<or> ID_IsZero (Tag_WorkspaceID t) then Inl (StoreMalformed ''invalid snapshot tag'')
       else if \<not> bindable (Tag_CreatedAt t) \<or> (Tag_Deleted t \<and> \<not> bindable (Tag_DeletedClock t)) \<or> \<not> tag_ok (snapshot_tag_row t) db
       then Inl StoreSql
       else if list_ex (\<lambda>r. tg_id r = Tag_ID t) (nd_tags db)
       then Inr (db\<lparr>nd_tags := map (\<lambda>r. if tg_id r = Tag_ID t then snapshot_tag_row t else r) (nd_tags db)\<rparr>)
       else Inr (db\<lparr>nd_tags := nd_tags db @ [snapshot_tag_row t]\<rparr>))"

definition EnsureTagPlaceholder :: "ID \<Rightarrow> ID \<Rightarrow> HLC \<Rightarrow> note_db \<Rightarrow> store_error + note_db" where
  "EnsureTagPlaceholder workspaceID tagID clock db =
     (if ID_IsZero tagID then Inl (StoreMalformed ''tag placeholder ID is zero'')
      else if \<not> bindable clock then Inl StoreSql
      else
        let row = \<lparr>tg_id = tagID, tg_workspace = workspaceID, tg_name = syncPlaceholderNamePrefix @ hex_encode (ID_Bytes tagID),
              tg_created = clock, tg_deleted = True, tg_deleted_clock = Some clock\<rparr>
        in bind_res (if list_ex (\<lambda>t. tg_id t = tagID) (nd_tags db) then Inr db
                     else if \<not> tag_ok row db then Inl StoreSql
                     else Inr (db\<lparr>nd_tags := nd_tags db @ [row]\<rparr>)) (\<lambda>db.
             same_workspace (map_option tg_workspace (find (\<lambda>t. tg_id t = tagID) (nd_tags db))) workspaceID db))"

definition Store_SetTagDeleted :: "ID \<Rightarrow> bool \<Rightarrow> HLC \<Rightarrow> note_db \<Rightarrow> store_error + note_db" where
  "Store_SetTagDeleted tagID deleted clock db =
     bind_res (lww_update (\<lambda>t. tg_id t = tagID) tg_deleted_clock clock
         (\<lambda>t. t\<lparr>tg_deleted := deleted, tg_deleted_clock := Some clock\<rparr>) (nd_tags db)) (\<lambda>rows. Inr (db\<lparr>nd_tags := rows\<rparr>))"

text \<open>
  \<^verbatim>\<open>INSERT ... ON CONFLICT(note_id, ...) DO UPDATE ... WHERE\<close> the new clock is later. A new row
  needs its two foreign keys, which an existing row has.
\<close>

definition pair_upsert :: "bool \<Rightarrow> ID \<Rightarrow> 'k \<Rightarrow> bool \<Rightarrow> HLC \<Rightarrow> 'k pair_row list \<Rightarrow> store_error + 'k pair_row list" where
  "pair_upsert fks noteID other present clock rows =
     (if \<not> bindable clock then Inl StoreSql
      else if list_ex (\<lambda>p. pr_note p = noteID \<and> pr_other p = other) rows
      then Inr (map (\<lambda>p. if pr_note p = noteID \<and> pr_other p = other \<and> lwwWhereClause (Some (pr_clock p)) clock
                         then p\<lparr>pr_present := present, pr_clock := clock\<rparr> else p) rows)
      else if \<not> fks then Inl StoreSql
      else Inr (rows @ [\<lparr>pr_note = noteID, pr_other = other, pr_present = present, pr_clock = clock\<rparr>]))"

definition SetNoteTag :: "ID \<Rightarrow> ID \<Rightarrow> bool \<Rightarrow> HLC \<Rightarrow> note_db \<Rightarrow> store_error + note_db" where
  "SetNoteTag noteID tagID present clock db =
     bind_res (pair_upsert (list_ex (\<lambda>r. nr_id r = noteID) (nd_notes db) \<and> list_ex (\<lambda>t. tg_id t = tagID) (nd_tags db))
         noteID tagID present clock (nd_note_tags db)) (\<lambda>rows. Inr (db\<lparr>nd_note_tags := rows\<rparr>))"

definition NoteTagIDs :: "ID \<Rightarrow> note_db \<Rightarrow> ID list" where
  "NoteTagIDs noteID db = map pr_other (filter (\<lambda>p. pr_note p = noteID \<and> pr_present p) (nd_note_tags db))"

section \<open>Attachments\<close>

text \<open>
  The found row has the identifier that was asked for, a fixed array of 32 bytes in the source,
  so the check of \<^verbatim>\<open>ParseBlobID\<close> on the stored identifier cannot fail; the same holds for the
  pairs that \<open>SetNoteAttachment\<close> writes and \<open>NoteAttachmentBlobIDs\<close> reads.
\<close>

definition Store_GetAttachment :: "bytes \<Rightarrow> note_db \<Rightarrow> store_error + attachment_row" where
  "Store_GetAttachment blobID db =
     (case find (\<lambda>a. at_blob a = blobID) (nd_attachments db) of
        None \<Rightarrow> Inl StoreNotFound
      | Some a \<Rightarrow> if ID_Validate (at_workspace a) \<noteq> Inr () then Inl (StoreMalformed ''stored attachment workspace ID'') else Inr a)"

text \<open>The size is bound as a signed number.\<close>

definition CreateAttachment ::
  "ID \<Rightarrow> bytes \<Rightarrow> bytes \<Rightarrow> bytes \<Rightarrow> u64 \<Rightarrow> u32 \<Rightarrow> int \<Rightarrow> note_db \<Rightarrow> store_error + attachment_row \<times> note_db" where
  "CreateAttachment workspaceID blobID keyID manifest sizeBytes chunkCount nowUnixMS db =
     (let row = \<lparr>at_blob = blobID, at_workspace = workspaceID, at_key = keyID, at_manifest = manifest, at_size = sint sizeBytes,
            at_chunks = chunkCount, at_created = nowUnixMS, at_orphaned = None\<rparr>;
          upgrade = (\<lambda>a. if at_blob a = blobID \<and> at_manifest a = [] \<and> manifest \<noteq> [] \<and> at_workspace a = workspaceID
                         then row\<lparr>at_orphaned := at_orphaned a\<rparr> else a)
      in bind_res (if list_ex (\<lambda>a. at_blob a = blobID) (nd_attachments db)
                   then Inr (db\<lparr>nd_attachments := map upgrade (nd_attachments db)\<rparr>)
                   else if workspaceID \<notin> nd_workspaces db then Inl StoreSql
                   else Inr (db\<lparr>nd_attachments := nd_attachments db @ [row]\<rparr>)) (\<lambda>db.
           bind_res (Store_GetAttachment blobID db) (\<lambda>a. Inr (a, db))))"

definition EnsureAttachmentPlaceholder :: "ID \<Rightarrow> bytes \<Rightarrow> int \<Rightarrow> note_db \<Rightarrow> store_error + attachment_row \<times> note_db" where
  "EnsureAttachmentPlaceholder workspaceID blobID nowUnixMS db =
     bind_res (if list_ex (\<lambda>a. at_blob a = blobID) (nd_attachments db) then Inr db
               else if workspaceID \<notin> nd_workspaces db then Inl StoreSql
               else Inr (db\<lparr>nd_attachments := nd_attachments db @
                 [\<lparr>at_blob = blobID, at_workspace = workspaceID, at_key = [], at_manifest = [], at_size = 0, at_chunks = 0,
                   at_created = nowUnixMS, at_orphaned = None\<rparr>]\<rparr>)) (\<lambda>db.
     bind_res (Store_GetAttachment blobID db) (\<lambda>a.
       if at_workspace a \<noteq> workspaceID then Inl StoreWrongWorkspace else Inr (a, db)))"

definition referenced :: "bytes \<Rightarrow> note_db \<Rightarrow> bool" where
  "referenced blobID db \<longleftrightarrow> list_ex (\<lambda>p. pr_other p = blobID \<and> pr_present p) (nd_note_attachments db)"

definition reconcileAttachmentOrphan :: "bytes \<Rightarrow> int \<Rightarrow> note_db \<Rightarrow> note_db" where
  "reconcileAttachmentOrphan blobID nowUnixMS db =
     (if referenced blobID db
      then db\<lparr>nd_attachments := map (\<lambda>a. if at_blob a = blobID \<and> at_orphaned a \<noteq> None then a\<lparr>at_orphaned := None\<rparr> else a) (nd_attachments db)\<rparr>
      else db\<lparr>nd_attachments := map (\<lambda>a. if at_blob a = blobID \<and> at_orphaned a = None then a\<lparr>at_orphaned := Some nowUnixMS\<rparr> else a)
             (nd_attachments db)\<rparr>)"

definition SetNoteAttachment :: "ID \<Rightarrow> bytes \<Rightarrow> bool \<Rightarrow> HLC \<Rightarrow> int \<Rightarrow> note_db \<Rightarrow> store_error + note_db" where
  "SetNoteAttachment noteID blobID present clock nowUnixMS db =
     bind_res (pair_upsert (list_ex (\<lambda>r. nr_id r = noteID) (nd_notes db) \<and> list_ex (\<lambda>a. at_blob a = blobID) (nd_attachments db))
         noteID blobID present clock (nd_note_attachments db)) (\<lambda>rows.
       Inr (reconcileAttachmentOrphan blobID nowUnixMS (db\<lparr>nd_note_attachments := rows\<rparr>)))"

definition NoteAttachmentBlobIDs :: "ID \<Rightarrow> note_db \<Rightarrow> bytes list" where
  "NoteAttachmentBlobIDs noteID db = map pr_other (filter (\<lambda>p. pr_note p = noteID \<and> pr_present p) (nd_note_attachments db))"

definition ListOrphanedAttachments :: "ID \<Rightarrow> int \<Rightarrow> note_db \<Rightarrow> attachment_row list" where
  "ListOrphanedAttachments ws cutoff db =
     filter (\<lambda>a. at_workspace a = ws \<and> (case at_orphaned a of None \<Rightarrow> False | Some t \<Rightarrow> t \<le> cutoff)) (nd_attachments db)"

definition DeleteAttachment :: "bytes \<Rightarrow> note_db \<Rightarrow> note_db" where
  "DeleteAttachment blobID db =
     db\<lparr>nd_note_attachments := filter (\<lambda>p. pr_other p \<noteq> blobID) (nd_note_attachments db),
        nd_attachments := filter (\<lambda>a. at_blob a \<noteq> blobID) (nd_attachments db)\<rparr>"

text \<open>\<^verbatim>\<open>HasPendingSyncPlaceholders\<close>; \<^verbatim>\<open>LIKE\<close> ignores the case of ASCII letters.\<close>

definition ascii_lower :: "string \<Rightarrow> string" where
  "ascii_lower = map (\<lambda>c. if 65 \<le> (of_char c :: nat) \<and> (of_char c :: nat) \<le> 90 then char_of (of_char c + 32 :: nat) else c)"

definition HasPendingSyncPlaceholders :: "ID \<Rightarrow> note_db \<Rightarrow> bool" where
  "HasPendingSyncPlaceholders ws db \<longleftrightarrow>
     list_ex (\<lambda>b. nb_workspace b = ws \<and> nb_deleted b \<and> prefix syncPlaceholderNamePrefix (ascii_lower (nb_name b))) (nd_notebooks db) \<or>
     list_ex (\<lambda>t. tg_workspace t = ws \<and> tg_deleted t \<and> prefix syncPlaceholderNamePrefix (ascii_lower (tg_name t))) (nd_tags db) \<or>
     list_ex (\<lambda>a. at_workspace a = ws \<and> at_manifest a = []) (nd_attachments db)"


section \<open>Document states, revisions, index, clock\<close>

definition LoadCRDTState :: "ID \<Rightarrow> note_db \<Rightarrow> CRDTState option" where
  "LoadCRDTState noteID db = map_option fst (nd_crdt_states db noteID)"

definition note_exists :: "ID \<Rightarrow> note_db \<Rightarrow> bool" where
  "note_exists noteID db \<longleftrightarrow> list_ex (\<lambda>r. nr_id r = noteID) (nd_notes db)"

definition UpsertCRDTState :: "ID \<Rightarrow> CRDTState \<Rightarrow> u64 \<Rightarrow> note_db \<Rightarrow> store_error + note_db" where
  "UpsertCRDTState noteID state updatedUnixMS db =
     (if MaxInt64 < updatedUnixMS \<or> \<not> note_exists noteID db then Inl StoreSql
      else Inr (db\<lparr>nd_crdt_states := (nd_crdt_states db)(noteID \<mapsto> (state, updatedUnixMS))\<rparr>))"

definition InsertCRDTUpdate :: "ID \<Rightarrow> bytes \<Rightarrow> ID \<Rightarrow> u64 \<Rightarrow> note_db \<Rightarrow> store_error + note_db" where
  "InsertCRDTUpdate noteID updateBytes originDeviceID createdUnixMS db =
     (if MaxInt64 < createdUnixMS \<or> \<not> note_exists noteID db then Inl StoreSql
      else Inr (db\<lparr>nd_crdt_updates := nd_crdt_updates db @
        [\<lparr>up_note = noteID, up_bytes = updateBytes, up_origin = originDeviceID, up_created = createdUnixMS\<rparr>]\<rparr>))"

abbreviation RevisionKindCheckpoint :: nat where "RevisionKindCheckpoint \<equiv> 1"
abbreviation RevisionKindDelta :: nat where "RevisionKindDelta \<equiv> 2"

definition InsertRevision :: "ID \<Rightarrow> ID \<Rightarrow> nat \<Rightarrow> byte \<Rightarrow> bytes \<Rightarrow> u64 \<Rightarrow> note_db \<Rightarrow> store_error + note_db" where
  "InsertRevision revisionID noteID kind format data createdUnixMS db =
     (if MaxInt64 < createdUnixMS \<or> \<not> note_exists noteID db \<or> list_ex (\<lambda>v. Rev_ID v = revisionID) (nd_revisions db) then Inl StoreSql
      else Inr (db\<lparr>nd_revisions := nd_revisions db @
        [\<lparr>Rev_ID = revisionID, Rev_NoteID = noteID, Rev_Kind = kind, Rev_Format = format, Rev_Data = data, Rev_CreatedUnixMS = createdUnixMS\<rparr>]\<rparr>))"

text \<open>The deltas with a row identifier above that of the last checkpoint: those written after it.\<close>

definition deltas_since_checkpoint :: "ID \<Rightarrow> Revision list \<Rightarrow> Revision list" where
  "deltas_since_checkpoint noteID revs =
     filter (\<lambda>v. Rev_NoteID v = noteID \<and> Rev_Kind v = RevisionKindDelta)
       (rev (takeWhile (\<lambda>v. \<not> (Rev_NoteID v = noteID \<and> Rev_Kind v = RevisionKindCheckpoint)) (rev revs)))"

definition CheckpointDue :: "ID \<Rightarrow> nat \<Rightarrow> note_db \<Rightarrow> bool" where
  "CheckpointDue noteID interval db \<longleftrightarrow> interval \<le> length (deltas_since_checkpoint noteID (nd_revisions db))"

definition ListRevisions :: "ID \<Rightarrow> note_db \<Rightarrow> Revision list" where
  "ListRevisions noteID db = filter (\<lambda>v. Rev_NoteID v = noteID) (nd_revisions db)"

text \<open>
  A revision goes when a checkpoint of its note, old enough, was written after it. The list
  is walked in the order of the row identifiers.
\<close>

definition prunable_base :: "int \<Rightarrow> ID \<Rightarrow> Revision \<Rightarrow> bool" where
  "prunable_base cutoff noteID v \<longleftrightarrow> Rev_NoteID v = noteID \<and> Rev_Kind v = RevisionKindCheckpoint \<and> uint (Rev_CreatedUnixMS v) \<le> cutoff"

fun pruned :: "int \<Rightarrow> Revision list \<Rightarrow> Revision list" where
  "pruned cutoff [] = []"
| "pruned cutoff (v # vs) =
     (if list_ex (prunable_base cutoff (Rev_NoteID v)) vs then pruned cutoff vs else v # pruned cutoff vs)"

definition PruneRevisions :: "int \<Rightarrow> note_db \<Rightarrow> nat \<times> note_db" where
  "PruneRevisions cutoff db =
     (length (nd_revisions db) - length (pruned cutoff (nd_revisions db)), db\<lparr>nd_revisions := pruned cutoff (nd_revisions db)\<rparr>)"

definition MissingNoteFTSRows :: "ID \<Rightarrow> note_db \<Rightarrow> ID list" where
  "MissingNoteFTSRows ws db =
     map nr_id (filter (\<lambda>r. nr_workspace r = ws \<and> \<not> nr_deleted r \<and> \<not> list_ex (\<lambda>f. ft_note f = nr_id r) (nd_fts db)) (nd_notes db))"

definition OrphanedNoteFTSRows :: "note_db \<Rightarrow> ID list" where
  "OrphanedNoteFTSRows db = map ft_note (filter (\<lambda>f. \<not> note_exists (ft_note f) db) (nd_fts db))"

definition DeleteNoteFTSRow :: "ID \<Rightarrow> note_db \<Rightarrow> note_db" where
  "DeleteNoteFTSRow noteID db = db\<lparr>nd_fts := filter (\<lambda>f. ft_note f \<noteq> noteID) (nd_fts db)\<rparr>"

definition LoadDeviceClock :: "ID \<Rightarrow> note_db \<Rightarrow> store_error + HLC" where
  "LoadDeviceClock i db =
     (case find (\<lambda>d. dv_id d = i) (nd_devices db) of
        None \<Rightarrow> Inl StoreSql
      | Some d \<Rightarrow>
          if dv_physical d = 0 \<and> dv_logical d = 0 then Inr zero_HLC
          else Inr \<lparr>PhysicalMS = dv_physical d, Logical = dv_logical d, ClockDeviceID = i\<rparr>)"

definition AdvanceDeviceClock :: "ID \<Rightarrow> HLC \<Rightarrow> note_db \<Rightarrow> store_error + note_db" where
  "AdvanceDeviceClock i clock db =
     (if \<not> bindable clock then Inl StoreSql
      else Inr (db\<lparr>nd_devices := map (\<lambda>d.
        if dv_id d = i \<and> (dv_physical d < PhysicalMS clock \<or> (dv_physical d = PhysicalMS clock \<and> dv_logical d < Logical clock))
        then d\<lparr>dv_physical := PhysicalMS clock, dv_logical := Logical clock\<rparr> else d) (nd_devices db)\<rparr>))"

section \<open>Erasing a note\<close>

definition DeleteNoteCompletely :: "ID \<Rightarrow> int \<Rightarrow> note_db \<Rightarrow> note_db" where
  "DeleteNoteCompletely noteID nowUnixMS db =
     (let blobIDs = NoteAttachmentBlobIDs noteID db;
          db = db\<lparr>nd_note_attachments := filter (\<lambda>p. pr_note p \<noteq> noteID) (nd_note_attachments db)\<rparr>;
          db = fold (\<lambda>blobID. reconcileAttachmentOrphan blobID nowUnixMS) blobIDs db
      in db\<lparr>nd_note_tags := filter (\<lambda>p. pr_note p \<noteq> noteID) (nd_note_tags db),
            nd_revisions := filter (\<lambda>v. Rev_NoteID v \<noteq> noteID) (nd_revisions db),
            nd_crdt_updates := filter (\<lambda>u. up_note u \<noteq> noteID) (nd_crdt_updates db),
            nd_crdt_states := (nd_crdt_states db)(noteID := None),
            nd_fts := filter (\<lambda>f. ft_note f \<noteq> noteID) (nd_fts db),
            nd_notes := filter (\<lambda>r. nr_id r \<noteq> noteID) (nd_notes db)\<rparr>)"

section \<open>The comparison of registers\<close>

lemma lwwWhereClause_Compare [simp]:
  "lwwWhereClause None clock" "lwwWhereClause (Some c) clock \<longleftrightarrow> 0 < HLC_Compare clock c"
  by (auto simp: lwwWhereClause_def HLC_Compare_def ID_Compare_def ID_Bytes_def)

end
