(* ===== verification/Canonical_Inputs.thy ===== *)
theory Canonical_Inputs
  imports Wire_Codec
begin

text \<open>
  The byte strings that the cryptography binds: the associated data of
  \<^verbatim>\<open>core/crypto/aad.go\<close>, the signature inputs of \<^verbatim>\<open>core/crypto/sync_signatures.go\<close>,
  the domain-separated messages of \<^verbatim>\<open>core/crypto/identity.go\<close> and the key-derivation
  contexts of \<^verbatim>\<open>core/crypto/hkdf.go\<close>, with the validation each performs first. HKDF,
  Ed25519 and the AEAD are parameters of the definitions that call them; a nil or closed
  secret is \<open>None\<close>. The theorems show that each input determines every field it covers.
\<close>

section \<open>Constants and metadata\<close>

datatype crypto_error =
  ErrUnsupportedCryptoProfile | ErrInvalidEncryptionMetadata | ErrInvalidKDFParams | ErrInvalidOperationFields
| ErrInvalidSnapshotFields | ErrInvalidSnapshotAckFields | ErrAttachmentResourceLimit | ErrBackupResourceLimit
| ErrInvalidDerivationContext | ErrInvalidDerivationKey | ErrSecretClosed | ErrInvalidSignatureInput
| ErrInvalidPrivateKey | ErrInvalidPublicKey | ErrSignatureVerification | ErrInvalidSecretSize | ErrRandomSource
| ErrInvalidEncryptionKey | ErrCiphertextAuthentication | ErrKeybagUnlock | ErrMalformedEncryptedBlob | ErrMalformedEnvelope
| ErrEnvelopeAuthentication

definition CryptoProfileV1 :: string where
  "CryptoProfileV1 = ''beresta.crypto.v1''"

abbreviation XChaCha20NonceBytes :: nat where "XChaCha20NonceBytes \<equiv> 24"
abbreviation BlobIDBytes :: nat where "BlobIDBytes \<equiv> 32"
abbreviation MaxSnapshotCiphertextBytes :: nat where "MaxSnapshotCiphertextBytes \<equiv> 268435456"
abbreviation MaxOperationCiphertextBytes :: nat where "MaxOperationCiphertextBytes \<equiv> 1048576"

record Argon2idParams =
  KDF_CryptoProfile :: string
  KDF_Algorithm :: string
  KDF_Salt :: bytes
  KDF_MemoryKiB :: u32
  KDF_TimeCost :: u32
  KDF_Parallelism :: u32
  KDF_DerivedKeyBytes :: u32

definition Argon2idParams_Validate :: "Argon2idParams \<Rightarrow> crypto_error + unit" where
  "Argon2idParams_Validate p =
     (if KDF_CryptoProfile p \<noteq> CryptoProfileV1 then Inl ErrInvalidKDFParams
      else if KDF_Algorithm p \<noteq> ''argon2id'' then Inl ErrInvalidKDFParams
      else if length (KDF_Salt p) \<noteq> 16 then Inl ErrInvalidKDFParams
      else if KDF_MemoryKiB p < 8 * 1024 \<or> 128 * 1024 < KDF_MemoryKiB p then Inl ErrInvalidKDFParams
      else if KDF_TimeCost p < 1 \<or> 32 < KDF_TimeCost p then Inl ErrInvalidKDFParams
      else if KDF_Parallelism p = 0 \<or> 64 < KDF_Parallelism p then Inl ErrInvalidKDFParams
      else if KDF_DerivedKeyBytes p \<noteq> 32 then Inl ErrInvalidKDFParams
      else Inr ())"

record KeybagHeader =
  KB_Magic :: bytes
  KB_FormatVersion :: u32
  KB_CryptoProfile :: string
  KB_AccountID :: bytes
  KB_KeybagVersion :: u64
  KB_KDF :: Argon2idParams

definition KeybagHeader_validate :: "KeybagHeader \<Rightarrow> crypto_error + unit" where
  "KeybagHeader_validate header =
     (if KB_CryptoProfile header \<noteq> CryptoProfileV1 then Inl ErrUnsupportedCryptoProfile
      else if bytes_str (KB_Magic header) \<noteq> ''BRSTKDF1'' \<or> KB_FormatVersion header \<noteq> 1 \<or> KB_KeybagVersion header = 0
      then Inl ErrInvalidEncryptionMetadata
      else if KDF_CryptoProfile (KB_KDF header) \<noteq> CryptoProfileV1 then Inl ErrUnsupportedCryptoProfile
      else if length (KB_AccountID header) \<noteq> 16 then Inl ErrInvalidEncryptionMetadata
      else if Argon2idParams_Validate (KB_KDF header) \<noteq> Inr ()
              \<or> KDF_CryptoProfile (KB_KDF header) \<noteq> KB_CryptoProfile header then Inl ErrInvalidEncryptionMetadata
      else Inr ())"

definition validObjectType :: "string \<Rightarrow> bool" where
  "validObjectType t \<longleftrightarrow> t \<in> {''operation-payload'', ''note-snapshot'', ''workspace-snapshot'', ''revision''}"

record ObjectMetadata =
  OM_SchemaVersion :: u32
  OM_CryptoProfile :: string
  OM_WorkspaceID :: bytes
  OM_ObjectID :: bytes
  OM_ObjectType :: string
  OM_KeyID :: bytes

definition ObjectMetadata_validate :: "ObjectMetadata \<Rightarrow> crypto_error + unit" where
  "ObjectMetadata_validate m =
     (if OM_CryptoProfile m \<noteq> CryptoProfileV1 \<or> OM_SchemaVersion m \<noteq> 1 then Inl ErrUnsupportedCryptoProfile
      else if length (OM_WorkspaceID m) \<noteq> 16 then Inl ErrInvalidEncryptionMetadata
      else if length (OM_ObjectID m) \<noteq> 16 then Inl ErrInvalidEncryptionMetadata
      else if length (OM_KeyID m) \<noteq> 16 then Inl ErrInvalidEncryptionMetadata
      else if \<not> validObjectType (OM_ObjectType m) then Inl ErrInvalidEncryptionMetadata
      else Inr ())"

record AttachmentMetadata =
  AM_SchemaVersion :: u32
  AM_CryptoProfile :: string
  AM_WorkspaceID :: bytes
  AM_BlobID :: bytes
  AM_KeyID :: bytes

definition AttachmentMetadata_validate :: "AttachmentMetadata \<Rightarrow> crypto_error + unit" where
  "AttachmentMetadata_validate m =
     (if AM_CryptoProfile m \<noteq> CryptoProfileV1 \<or> AM_SchemaVersion m \<noteq> 1 then Inl ErrUnsupportedCryptoProfile
      else if length (AM_WorkspaceID m) \<noteq> 16 \<or> length (AM_BlobID m) \<noteq> BlobIDBytes \<or> length (AM_KeyID m) \<noteq> 16
      then Inl ErrInvalidEncryptionMetadata
      else Inr ())"

record AttachmentChunkMetadata =
  CM_CryptoProfile :: string
  CM_WorkspaceID :: bytes
  CM_BlobID :: bytes
  CM_KeyID :: bytes
  CM_ChunkIndex :: u32
  CM_PlaintextSize :: u32

definition AttachmentChunkMetadata_validate :: "AttachmentChunkMetadata \<Rightarrow> crypto_error + unit" where
  "AttachmentChunkMetadata_validate m =
     (if CM_CryptoProfile m \<noteq> CryptoProfileV1 then Inl ErrUnsupportedCryptoProfile
      else if length (CM_WorkspaceID m) \<noteq> 16 \<or> length (CM_BlobID m) \<noteq> BlobIDBytes \<or> length (CM_KeyID m) \<noteq> 16
      then Inl ErrInvalidEncryptionMetadata
      else if 512 \<le> CM_ChunkIndex m \<or> 4 * 1024 * 1024 < CM_PlaintextSize m then Inl ErrAttachmentResourceLimit
      else Inr ())"

section \<open>Writers of \<^verbatim>\<open>core/crypto\<close>\<close>

definition aad_text :: "bytes \<Rightarrow> string \<Rightarrow> bytes" where
  "aad_text destination value = appendCBORHeader destination 3 (word_of_nat (length value)) @ str_bytes value"

definition aad_bytes :: "bytes \<Rightarrow> bytes \<Rightarrow> bytes" where
  "aad_bytes destination value = appendCBORHeader destination 2 (word_of_nat (length value)) @ value"

definition aad_uint :: "bytes \<Rightarrow> u64 \<Rightarrow> bytes" where
  "aad_uint destination value = appendCBORHeader destination 0 value"

definition appendKDFHeaderCBOR :: "bytes \<Rightarrow> Argon2idParams \<Rightarrow> bytes" where
  "appendKDFHeaderCBOR destination params =
     (let d = appendCBORHeader destination 5 6;
          d = aad_text d ''salt'';
          d = aad_bytes d (KDF_Salt params);
          d = aad_text d ''algorithm'';
          d = aad_text d (KDF_Algorithm params);
          d = aad_text d ''time_cost'';
          d = aad_uint d (ucast (KDF_TimeCost params));
          d = aad_text d ''memory_kib'';
          d = aad_uint d (ucast (KDF_MemoryKiB params));
          d = aad_text d ''parallelism'';
          d = aad_uint d (ucast (KDF_Parallelism params));
          d = aad_text d ''derived_key_bytes'';
          d = aad_uint d (ucast (KDF_DerivedKeyBytes params))
      in d)"

section \<open>Associated data\<close>

definition CanonicalKeybagAAD :: "KeybagHeader \<Rightarrow> crypto_error + bytes" where
  "CanonicalKeybagAAD header =
     bind_res (KeybagHeader_validate header) (\<lambda>_.
       let e = appendCBORHeader [] 5 6;
           e = aad_text e ''kdf'';
           e = appendKDFHeaderCBOR e (KB_KDF header);
           e = aad_text e ''container'';
           e = aad_text e ''keybag'';
           e = aad_text e ''account_id'';
           e = aad_bytes e (KB_AccountID header);
           e = aad_text e ''crypto_profile'';
           e = aad_text e (KB_CryptoProfile header);
           e = aad_text e ''format_version'';
           e = aad_uint e (ucast (KB_FormatVersion header));
           e = aad_text e ''keybag_version'';
           e = aad_uint e (KB_KeybagVersion header)
       in Inr e)"

definition CanonicalObjectAAD :: "ObjectMetadata \<Rightarrow> crypto_error + bytes" where
  "CanonicalObjectAAD m =
     bind_res (ObjectMetadata_validate m) (\<lambda>_.
       let e = appendCBORHeader [] 5 6;
           e = aad_text e ''key_id'';
           e = aad_bytes e (OM_KeyID m);
           e = aad_text e ''object_id'';
           e = aad_bytes e (OM_ObjectID m);
           e = aad_text e ''object_type'';
           e = aad_text e (OM_ObjectType m);
           e = aad_text e ''workspace_id'';
           e = aad_bytes e (OM_WorkspaceID m);
           e = aad_text e ''crypto_profile'';
           e = aad_text e (OM_CryptoProfile m);
           e = aad_text e ''schema_version'';
           e = aad_uint e (ucast (OM_SchemaVersion m))
       in Inr e)"

definition CanonicalAttachmentManifestAAD :: "AttachmentMetadata \<Rightarrow> crypto_error + bytes" where
  "CanonicalAttachmentManifestAAD m =
     bind_res (AttachmentMetadata_validate m) (\<lambda>_.
       let e = appendCBORHeader [] 5 5;
           e = aad_text e ''key_id'';
           e = aad_bytes e (AM_KeyID m);
           e = aad_text e ''blob_id'';
           e = aad_bytes e (AM_BlobID m);
           e = aad_text e ''workspace_id'';
           e = aad_bytes e (AM_WorkspaceID m);
           e = aad_text e ''crypto_profile'';
           e = aad_text e (AM_CryptoProfile m);
           e = aad_text e ''schema_version'';
           e = aad_uint e (ucast (AM_SchemaVersion m))
       in Inr e)"

definition CanonicalAttachmentChunkAAD :: "AttachmentChunkMetadata \<Rightarrow> crypto_error + bytes" where
  "CanonicalAttachmentChunkAAD m =
     bind_res (AttachmentChunkMetadata_validate m) (\<lambda>_.
       let e = appendCBORHeader [] 5 6;
           e = aad_text e ''key_id'';
           e = aad_bytes e (CM_KeyID m);
           e = aad_text e ''blob_id'';
           e = aad_bytes e (CM_BlobID m);
           e = aad_text e ''chunk_index'';
           e = aad_uint e (ucast (CM_ChunkIndex m));
           e = aad_text e ''workspace_id'';
           e = aad_bytes e (CM_WorkspaceID m);
           e = aad_text e ''crypto_profile'';
           e = aad_text e (CM_CryptoProfile m);
           e = aad_text e ''plaintext_size'';
           e = aad_uint e (ucast (CM_PlaintextSize m))
       in Inr e)"

record BackupHeader =
  BH_Magic :: bytes
  BH_FormatVersion :: u32
  BH_CryptoProfile :: string
  BH_AccountID :: bytes
  BH_BackupID :: bytes
  BH_CreatedUnixMS :: u64
  BH_KDF :: Argon2idParams
  BH_Nonce :: bytes
  BH_CiphertextSize :: u64

definition BackupMetadata_validate :: "BackupHeader \<Rightarrow> crypto_error + unit" where
  "BackupMetadata_validate h =
     (if BH_CryptoProfile h \<noteq> CryptoProfileV1 \<or> KDF_CryptoProfile (BH_KDF h) \<noteq> CryptoProfileV1
      then Inl ErrUnsupportedCryptoProfile
      else if bytes_str (BH_Magic h) \<noteq> ''BRSTBAK1'' \<or> BH_FormatVersion h \<noteq> 1 then Inl ErrInvalidEncryptionMetadata
      else if length (BH_AccountID h) \<noteq> 16 \<or> length (BH_BackupID h) \<noteq> 16 then Inl ErrInvalidEncryptionMetadata
      else if Argon2idParams_Validate (BH_KDF h) \<noteq> Inr () then Inl ErrInvalidEncryptionMetadata
      else Inr ())"

definition BackupHeader_validate :: "BackupHeader \<Rightarrow> crypto_error + unit" where
  "BackupHeader_validate h =
     bind_res (BackupMetadata_validate h) (\<lambda>_.
       if length (BH_Nonce h) \<noteq> XChaCha20NonceBytes \<or> BH_CiphertextSize h < 16
          \<or> 64 * 1024 * 1024 * 1024 < BH_CiphertextSize h
       then Inl ErrInvalidEncryptionMetadata else Inr ())"

definition CanonicalBackupAAD :: "BackupHeader \<Rightarrow> crypto_error + bytes" where
  "CanonicalBackupAAD h =
     bind_res (BackupHeader_validate h) (\<lambda>_.
       let e = appendCBORHeader [] 5 9;
           e = aad_text e ''kdf'';
           e = appendKDFHeaderCBOR e (BH_KDF h);
           e = aad_text e ''magic'';
           e = aad_bytes e (BH_Magic h);
           e = aad_text e ''nonce'';
           e = aad_bytes e (BH_Nonce h);
           e = aad_text e ''backup_id'';
           e = aad_bytes e (BH_BackupID h);
           e = aad_text e ''account_id'';
           e = aad_bytes e (BH_AccountID h);
           e = aad_text e ''crypto_profile'';
           e = aad_text e (BH_CryptoProfile h);
           e = aad_text e ''format_version'';
           e = aad_uint e (ucast (BH_FormatVersion h));
           e = aad_text e ''ciphertext_size'';
           e = aad_uint e (BH_CiphertextSize h);
           e = aad_text e ''created_unix_ms'';
           e = aad_uint e (BH_CreatedUnixMS h)
       in Inr e)"

section \<open>Signature inputs\<close>

record OperationSignatureFields =
  OS_OpID :: bytes
  OS_WorkspaceID :: bytes
  OS_DeviceID :: bytes
  OS_HLCPhysicalMS :: u64
  OS_HLCLogical :: u32
  OS_HLCDeviceID :: bytes
  OS_KeyID :: bytes
  OS_Nonce :: bytes
  OS_Ciphertext :: bytes

definition OperationSignatureFields_validate :: "OperationSignatureFields \<Rightarrow> crypto_error + unit" where
  "OperationSignatureFields_validate f =
     (if length (OS_OpID f) \<noteq> 16 then Inl ErrInvalidOperationFields
      else if length (OS_WorkspaceID f) \<noteq> 16 then Inl ErrInvalidOperationFields
      else if length (OS_DeviceID f) \<noteq> 16 then Inl ErrInvalidOperationFields
      else if length (OS_HLCDeviceID f) \<noteq> 16 then Inl ErrInvalidOperationFields
      else if OS_HLCDeviceID f \<noteq> OS_DeviceID f then Inl ErrInvalidOperationFields
      else if length (OS_KeyID f) \<noteq> 16 then Inl ErrInvalidOperationFields
      else if length (OS_Nonce f) \<noteq> XChaCha20NonceBytes then Inl ErrInvalidOperationFields
      else if length (OS_Ciphertext f) < AEADTagBytes \<or> MaxOperationCiphertextBytes < length (OS_Ciphertext f)
      then Inl ErrInvalidOperationFields
      else Inr ())"

definition CanonicalOperationSignatureInput :: "OperationSignatureFields \<Rightarrow> crypto_error + bytes" where
  "CanonicalOperationSignatureInput f =
     bind_res (OperationSignatureFields_validate f) (\<lambda>_.
       let e = appendCBORHeader [] 5 8;
           e = aad_text e ''protocol'';
           e = aad_text e ProtocolV1;
           e = aad_text e ''schema_version'';
           e = aad_uint e 1;
           e = aad_text e ''op_id'';
           e = aad_bytes e (OS_OpID f);
           e = aad_text e ''workspace_id'';
           e = aad_bytes e (OS_WorkspaceID f);
           e = aad_text e ''device_id'';
           e = aad_bytes e (OS_DeviceID f);
           e = aad_text e ''hlc'';
           e = appendCBORHeader e 5 3;
           e = aad_text e ''physical_ms'';
           e = aad_uint e (OS_HLCPhysicalMS f);
           e = aad_text e ''logical'';
           e = aad_uint e (ucast (OS_HLCLogical f));
           e = aad_text e ''device_id'';
           e = aad_bytes e (OS_HLCDeviceID f);
           e = aad_text e ''key_id'';
           e = aad_bytes e (OS_KeyID f);
           e = aad_text e ''nonce'';
           e = aad_bytes e (OS_Nonce f);
           e = aad_text e ''ciphertext'';
           e = aad_bytes e (OS_Ciphertext f)
       in Inr e)"

text \<open>The wrapper of \<^verbatim>\<open>core/sync/codec.go\<close>; its two error types are the sum.\<close>

definition OperationSignatureInput :: "WireOperation \<Rightarrow> (codec_error + crypto_error) + bytes" where
  "OperationSignatureInput op =
     (case validateWireOperation op False DefaultMaxOperationBytes of
        Inl e \<Rightarrow> Inl (Inl e)
      | Inr _ \<Rightarrow>
          (case CanonicalOperationSignatureInput
              \<lparr>OS_OpID = ID_Bytes (Op_ID op), OS_WorkspaceID = ID_Bytes (Op_WorkspaceID op),
               OS_DeviceID = ID_Bytes (Op_DeviceID op), OS_HLCPhysicalMS = PhysicalMS (Op_Clock op),
               OS_HLCLogical = Logical (Op_Clock op), OS_HLCDeviceID = ID_Bytes (ClockDeviceID (Op_Clock op)),
               OS_KeyID = Op_KeyID op, OS_Nonce = Op_Nonce op, OS_Ciphertext = Op_Ciphertext op\<rparr> of
             Inl e \<Rightarrow> Inl (Inr e)
           | Inr input \<Rightarrow> Inr input))"

record SnapshotSignatureFields =
  SS_SnapshotID :: bytes
  SS_WorkspaceID :: bytes
  SS_BaseSequence :: u64
  SS_CursorEpoch :: u32
  SS_KeyID :: bytes
  SS_CreatorDeviceID :: bytes
  SS_HLCPhysicalMS :: u64
  SS_HLCLogical :: u32
  SS_HLCDeviceID :: bytes
  SS_Nonce :: bytes
  SS_CiphertextHash :: bytes
  SS_Ciphertext :: bytes

definition CanonicalSnapshotSignatureInput :: "SnapshotSignatureFields \<Rightarrow> crypto_error + bytes" where
  "CanonicalSnapshotSignatureInput f =
     (if length (SS_SnapshotID f) \<noteq> 16 \<or> length (SS_WorkspaceID f) \<noteq> 16 \<or>
         length (SS_KeyID f) \<noteq> 16 \<or> length (SS_CreatorDeviceID f) \<noteq> 16 \<or>
         length (SS_HLCDeviceID f) \<noteq> 16 \<or> SS_HLCDeviceID f \<noteq> SS_CreatorDeviceID f \<or>
         SS_CursorEpoch f = 0 \<or> length (SS_Nonce f) \<noteq> XChaCha20NonceBytes \<or> length (SS_CiphertextHash f) \<noteq> 32 \<or>
         length (SS_Ciphertext f) < AEADTagBytes \<or> MaxSnapshotCiphertextBytes < length (SS_Ciphertext f)
      then Inl ErrInvalidSnapshotFields
      else
       let e = appendCBORHeader [] 5 12;
           e = aad_text e ''protocol'';
           e = aad_text e ProtocolV1;
           e = aad_text e ''schema_version'';
           e = aad_uint e 1;
           e = aad_text e ''snapshot_id'';
           e = aad_bytes e (SS_SnapshotID f);
           e = aad_text e ''workspace_id'';
           e = aad_bytes e (SS_WorkspaceID f);
           e = aad_text e ''base_seq'';
           e = aad_uint e (SS_BaseSequence f);
           e = aad_text e ''cursor_epoch'';
           e = aad_uint e (ucast (SS_CursorEpoch f));
           e = aad_text e ''key_id'';
           e = aad_bytes e (SS_KeyID f);
           e = aad_text e ''creator_device_id'';
           e = aad_bytes e (SS_CreatorDeviceID f);
           e = aad_text e ''created_hlc'';
           e = appendCBORHeader e 5 3;
           e = aad_text e ''physical_ms'';
           e = aad_uint e (SS_HLCPhysicalMS f);
           e = aad_text e ''logical'';
           e = aad_uint e (ucast (SS_HLCLogical f));
           e = aad_text e ''device_id'';
           e = aad_bytes e (SS_HLCDeviceID f);
           e = aad_text e ''nonce'';
           e = aad_bytes e (SS_Nonce f);
           e = aad_text e ''ciphertext_hash'';
           e = aad_bytes e (SS_CiphertextHash f);
           e = aad_text e ''ciphertext'';
           e = aad_bytes e (SS_Ciphertext f)
       in Inr e)"

record SnapshotAckSignatureFields =
  SA_SnapshotID :: bytes
  SA_WorkspaceID :: bytes
  SA_DeviceID :: bytes
  SA_BaseSequence :: u64
  SA_CiphertextHash :: bytes

definition CanonicalSnapshotAckSignatureInput :: "SnapshotAckSignatureFields \<Rightarrow> crypto_error + bytes" where
  "CanonicalSnapshotAckSignatureInput f =
     (if length (SA_SnapshotID f) \<noteq> 16 \<or> length (SA_WorkspaceID f) \<noteq> 16 \<or>
         length (SA_DeviceID f) \<noteq> 16 \<or> length (SA_CiphertextHash f) \<noteq> 32
      then Inl ErrInvalidSnapshotAckFields
      else
       let e = appendCBORHeader [] 5 7;
           e = aad_text e ''protocol'';
           e = aad_text e ProtocolV1;
           e = aad_text e ''schema_version'';
           e = aad_uint e 1;
           e = aad_text e ''snapshot_id'';
           e = aad_bytes e (SA_SnapshotID f);
           e = aad_text e ''workspace_id'';
           e = aad_bytes e (SA_WorkspaceID f);
           e = aad_text e ''device_id'';
           e = aad_bytes e (SA_DeviceID f);
           e = aad_text e ''base_seq'';
           e = aad_uint e (SA_BaseSequence f);
           e = aad_text e ''ciphertext_hash'';
           e = aad_bytes e (SA_CiphertextHash f)
       in Inr e)"

section \<open>Domain separation of signatures and keys\<close>

definition lp :: "bytes \<Rightarrow> bytes \<Rightarrow> bytes" where
  "lp destination value = (destination @ be_bytes 4 (word_of_nat (length value) :: u32)) @ value"

definition signature_domains :: "string list" where
  "signature_domains = [''beresta.challenge.signature.v1'', ''beresta.operation.signature.v1'',
     ''beresta.snapshot.signature.v1'', ''beresta.snapshot-ack.signature.v1'', ''beresta.membership.signature.v1'',
     ''beresta.device-authorization.signature.v1'', ''beresta.revocation.signature.v1'',
     ''beresta.key-transition.signature.v1'']"

definition validSignatureDomain :: "string \<Rightarrow> bool" where
  "validSignatureDomain domain \<longleftrightarrow> domain \<in> set signature_domains"

definition validateSignatureInput :: "string \<Rightarrow> string \<Rightarrow> bytes \<Rightarrow> crypto_error + unit" where
  "validateSignatureInput profile domain payload =
     (if profile \<noteq> CryptoProfileV1 then Inl ErrUnsupportedCryptoProfile
      else if \<not> validSignatureDomain domain \<or> length payload = 0 \<or> MaxSnapshotCiphertextBytes + 4096 < length payload
      then Inl ErrInvalidSignatureInput
      else Inr ())"

definition SignCanonical ::
  "(bytes \<Rightarrow> bytes \<Rightarrow> bytes) \<Rightarrow> string \<Rightarrow> bytes option \<Rightarrow> string \<Rightarrow> bytes \<Rightarrow> crypto_error + bytes" where
  "SignCanonical ed25519Sign profile privateKey domain payload =
     bind_res (validateSignatureInput profile domain payload) (\<lambda>_.
       case privateKey of
         None \<Rightarrow> Inl ErrSecretClosed
       | Some privateBytes \<Rightarrow>
           let input = lp [] (str_bytes domain) @ payload in
           if length privateBytes \<noteq> 64 then Inl ErrInvalidPrivateKey
           else Inr (ed25519Sign privateBytes input))"

definition VerifyCanonical ::
  "(bytes \<Rightarrow> bytes \<Rightarrow> bytes \<Rightarrow> bool) \<Rightarrow> string \<Rightarrow> bytes \<Rightarrow> string \<Rightarrow> bytes \<Rightarrow> bytes \<Rightarrow> crypto_error + unit" where
  "VerifyCanonical ed25519Verify profile publicKey domain payload signature =
     bind_res (validateSignatureInput profile domain payload) (\<lambda>_.
       if length publicKey \<noteq> 32 then Inl ErrInvalidPublicKey
       else if length signature \<noteq> SignatureSize then Inl ErrSignatureVerification
       else
         let input = lp [] (str_bytes domain) @ payload in
         if \<not> ed25519Verify publicKey input signature then Inl ErrSignatureVerification else Inr ())"

definition buildHKDFInfo :: "string \<Rightarrow> string \<Rightarrow> bytes list \<Rightarrow> bytes" where
  "buildHKDFInfo profile domain parts =
     foldl lp (lp (lp [] (str_bytes profile)) (str_bytes domain)) parts"

definition validHKDFDomain :: "string \<Rightarrow> bool" where
  "validHKDFDomain domain \<longleftrightarrow> domain \<in> {''keybag'', ''workspace-object'', ''blob-id'', ''blob-manifest'', ''blob-chunk'',
     ''backup'', ''pairing-export''}"

type_synonym hkdf = "bytes \<Rightarrow> bytes \<Rightarrow> bytes"

definition deriveHKDF :: "hkdf \<Rightarrow> string \<Rightarrow> bytes option \<Rightarrow> string \<Rightarrow> bytes list \<Rightarrow> crypto_error + bytes" where
  "deriveHKDF hkdf profile inputKey domain parts =
     (if profile \<noteq> CryptoProfileV1 then Inl ErrUnsupportedCryptoProfile
      else if \<not> validHKDFDomain domain then Inl ErrInvalidDerivationContext
      else case inputKey of
             None \<Rightarrow> Inl ErrSecretClosed
           | Some input \<Rightarrow>
               let info = buildHKDFInfo profile domain parts in
               if length input \<noteq> 32 then Inl ErrInvalidDerivationKey
               else Inr (hkdf input info))"

definition DeriveKeybagKey :: "hkdf \<Rightarrow> string \<Rightarrow> bytes option \<Rightarrow> bytes \<Rightarrow> crypto_error + bytes" where
  "DeriveKeybagKey hkdf profile rootKey accountID =
     bind_res (guard_res (length accountID = 16) ErrInvalidDerivationContext) (\<lambda>_.
       deriveHKDF hkdf profile rootKey ''keybag'' [accountID])"

definition DeriveWorkspaceObjectKey ::
  "hkdf \<Rightarrow> string \<Rightarrow> bytes option \<Rightarrow> bytes \<Rightarrow> string \<Rightarrow> u32 \<Rightarrow> crypto_error + bytes" where
  "DeriveWorkspaceObjectKey hkdf profile workspaceKey objectID objectType schemaVersion =
     (if length objectID \<noteq> 16 then Inl ErrInvalidDerivationContext
      else if 64 < length objectType \<or> \<not> utf8_valid (str_bytes objectType) \<or> \<not> validObjectType objectType
      then Inl ErrInvalidDerivationContext
      else if schemaVersion \<noteq> 1 then Inl ErrUnsupportedCryptoProfile
      else deriveHKDF hkdf profile workspaceKey ''workspace-object''
             [objectID, str_bytes objectType, be_bytes 4 schemaVersion])"

definition DeriveBlobIDKey :: "hkdf \<Rightarrow> string \<Rightarrow> bytes option \<Rightarrow> bytes \<Rightarrow> crypto_error + bytes" where
  "DeriveBlobIDKey hkdf profile workspaceKey workspaceID =
     bind_res (guard_res (length workspaceID = 16) ErrInvalidDerivationContext) (\<lambda>_.
       deriveHKDF hkdf profile workspaceKey ''blob-id'' [workspaceID])"

definition DeriveBlobManifestKey :: "hkdf \<Rightarrow> string \<Rightarrow> bytes option \<Rightarrow> bytes \<Rightarrow> crypto_error + bytes" where
  "DeriveBlobManifestKey hkdf profile workspaceKey blobID =
     bind_res (guard_res (length blobID = BlobIDBytes) ErrInvalidDerivationContext) (\<lambda>_.
       deriveHKDF hkdf profile workspaceKey ''blob-manifest'' [blobID])"

definition DeriveBlobChunkKey :: "hkdf \<Rightarrow> string \<Rightarrow> bytes option \<Rightarrow> bytes \<Rightarrow> u64 \<Rightarrow> crypto_error + bytes" where
  "DeriveBlobChunkKey hkdf profile workspaceKey blobID chunkIndex =
     bind_res (guard_res (length blobID = BlobIDBytes) ErrInvalidDerivationContext) (\<lambda>_.
       deriveHKDF hkdf profile workspaceKey ''blob-chunk'' [blobID, be_bytes 8 chunkIndex])"

definition DeriveBackupKey :: "hkdf \<Rightarrow> string \<Rightarrow> bytes option \<Rightarrow> bytes \<Rightarrow> bytes \<Rightarrow> crypto_error + bytes" where
  "DeriveBackupKey hkdf profile rootKey accountID backupID =
     bind_res (guard_res (length accountID = 16) ErrInvalidDerivationContext) (\<lambda>_.
       bind_res (guard_res (length backupID = 16) ErrInvalidDerivationContext) (\<lambda>_.
         deriveHKDF hkdf profile rootKey ''backup'' [accountID, backupID]))"

definition DerivePairingExportKey :: "hkdf \<Rightarrow> string \<Rightarrow> bytes option \<Rightarrow> bytes \<Rightarrow> bytes \<Rightarrow> crypto_error + bytes" where
  "DerivePairingExportKey hkdf profile sessionKey sessionID transcriptHash =
     bind_res (guard_res (length sessionID = 16) ErrInvalidDerivationContext) (\<lambda>_.
       bind_res (guard_res (length transcriptHash = 32) ErrInvalidDerivationContext) (\<lambda>_.
         deriveHKDF hkdf profile sessionKey ''pairing-export'' [sessionID, transcriptHash]))"

section \<open>Injectivity of the writers\<close>

lemma aad_append:
  "aad_text dst t = appendCBORText dst t" "aad_bytes dst b = appendCBORBytes dst b" "aad_uint dst v = appendCBORUint dst v"
  by (simp_all add: aad_text_def aad_bytes_def aad_uint_def appendCBORText_def appendCBORBytes_def appendCBORUint_def
      appendCBORHeader_eq)

lemma enc_uint_append_inject: "enc_uint v @ p = enc_uint w @ q \<longleftrightarrow> v = w \<and> p = q"
  by (rule uint_item.enc_append_inject) simp_all

lemma enc_uint_inject: "enc_uint v = enc_uint w \<longleftrightarrow> v = w"
  by (rule uint_item.enc_inject) simp_all

lemma enc_bytes_append_inject:
  "length a < 18446744073709551616 \<Longrightarrow> length b < 18446744073709551616 \<Longrightarrow> enc_bytes a @ p = enc_bytes b @ q \<longleftrightarrow> a = b \<and> p = q"
  by (rule bytes_item.enc_append_inject [where mx = "2 ^ 64"]) simp_all

lemma enc_bytes_inject:
  "length a < 18446744073709551616 \<Longrightarrow> length b < 18446744073709551616 \<Longrightarrow> enc_bytes a = enc_bytes b \<longleftrightarrow> a = b"
  using enc_bytes_append_inject [of a b "[]" "[]"] by simp

lemma ucast_u32_inject: "(ucast (a :: u32) :: u64) = ucast b \<longleftrightarrow> a = b"
  by (metis ucast_u32_back)

lemma enc_head_append_inject: "m < 8 \<Longrightarrow> enc_head m v @ p = enc_head m w @ q \<longleftrightarrow> v = w \<and> p = q"
  using cbor_head_complete [of m "[]" v p] cbor_head_complete [of m "[]" w q] by auto

lemma enc_text_append_inject:
  "length s < 18446744073709551616 \<Longrightarrow> length t < 18446744073709551616 \<Longrightarrow> enc_text s @ p = enc_text t @ q \<longleftrightarrow> s = t \<and> p = q"
  unfolding appendCBORText_def append_assoc
  by (auto simp: enc_head_append_inject dest!: arg_cong [where f = "unat :: u64 \<Rightarrow> nat"] simp: unat_of_length)

lemmas writer_inject = enc_uint_append_inject enc_uint_inject enc_bytes_append_inject enc_bytes_inject
  ucast_u32_inject enc_text_append_inject

lemmas writer_simps = cbor_append aad_append appendCBORHeader_eq

section \<open>What a signature or an authentication tag binds\<close>

lemma CanonicalOperationSignatureInput_inject:
  assumes "CanonicalOperationSignatureInput f = Inr e" "CanonicalOperationSignatureInput g = Inr e"
  shows "f = g"
proof -
  from assms have v: "OperationSignatureFields_validate f = Inr ()" "OperationSignatureFields_validate g = Inr ()"
    by (auto simp: CanonicalOperationSignatureInput_def err_simps)
  then have l: "length (OS_OpID f) = 16" "length (OS_WorkspaceID f) = 16" "length (OS_DeviceID f) = 16"
    "length (OS_HLCDeviceID f) = 16" "length (OS_KeyID f) = 16" "length (OS_Nonce f) = 24"
    "length (OS_Ciphertext f) \<le> 1048576"
    "length (OS_OpID g) = 16" "length (OS_WorkspaceID g) = 16" "length (OS_DeviceID g) = 16"
    "length (OS_HLCDeviceID g) = 16" "length (OS_KeyID g) = 16" "length (OS_Nonce g) = 24"
    "length (OS_Ciphertext g) \<le> 1048576"
    by (simp_all add: OperationSignatureFields_validate_def split: if_splits)
  from assms v have "CanonicalOperationSignatureInput f = CanonicalOperationSignatureInput g" by simp
  then show ?thesis
    using v l by (simp add: CanonicalOperationSignatureInput_def writer_simps Let_def writer_inject)
qed

text \<open>
  C23. An operation signature covers every field a client chooses: two operations with the same
  signature input agree in identifier, workspace, device, clock, key, nonce and ciphertext,
  and can differ only in the transport's sequence number and in the signature itself.
\<close>

theorem OperationSignatureInput_binds:
  assumes "OperationSignatureInput op = Inr e" and "OperationSignatureInput op' = Inr e"
  shows "op\<lparr>Op_Sequence := 0, Op_Signature := []\<rparr> = op'\<lparr>Op_Sequence := 0, Op_Signature := []\<rparr>"
proof -
  let ?f = "\<lambda>op. \<lparr>OS_OpID = ID_Bytes (Op_ID op), OS_WorkspaceID = ID_Bytes (Op_WorkspaceID op),
               OS_DeviceID = ID_Bytes (Op_DeviceID op), OS_HLCPhysicalMS = PhysicalMS (Op_Clock op),
               OS_HLCLogical = Logical (Op_Clock op), OS_HLCDeviceID = ID_Bytes (ClockDeviceID (Op_Clock op)),
               OS_KeyID = Op_KeyID op, OS_Nonce = Op_Nonce op, OS_Ciphertext = Op_Ciphertext op\<rparr>"
  from assms have "CanonicalOperationSignatureInput (?f op) = Inr e" "CanonicalOperationSignatureInput (?f op') = Inr e"
    by (simp_all add: OperationSignatureInput_def split: sum.splits)
  then have "?f op = ?f op'" by (rule CanonicalOperationSignatureInput_inject)
  then show ?thesis by simp
qed

theorem OperationSignatureInput_binds_witness:
  "\<exists>e. OperationSignatureInput demo_op = Inr e \<and> OperationSignatureInput (demo_op\<lparr>Op_Sequence := 7\<rparr>) = Inr e \<and>
     demo_op\<lparr>Op_Sequence := 0, Op_Signature := []\<rparr> = demo_op\<lparr>Op_Sequence := 7\<rparr>\<lparr>Op_Sequence := 0, Op_Signature := []\<rparr>"
proof -
  obtain e where e: "OperationSignatureInput demo_op = Inr e" "OperationSignatureInput (demo_op\<lparr>Op_Sequence := 7\<rparr>) = Inr e"
    by (simp add: OperationSignatureInput_def demo_op_def validateWireOperation_def CanonicalOperationSignatureInput_def
        OperationSignatureFields_validate_def Let_def)
  from OperationSignatureInput_binds [OF e] e show ?thesis by blast
qed

lemma AttachmentChunkMetadata_validD:
  "AttachmentChunkMetadata_validate m = Inr () \<Longrightarrow> CM_CryptoProfile m = CryptoProfileV1 \<and>
     length (CM_WorkspaceID m) = 16 \<and> length (CM_BlobID m) = 32 \<and> length (CM_KeyID m) = 16"
  by (simp add: AttachmentChunkMetadata_validate_def split: if_splits)

text \<open>
  The associated data of an attachment chunk determines the chunk completely: workspace, blob,
  key, index and size. A ciphertext chunk therefore cannot be moved to another position,
  another attachment or another workspace without changing the authenticated bytes.
\<close>

lemma CanonicalAttachmentChunkAAD_binds:
  assumes "CanonicalAttachmentChunkAAD m = Inr e" and "CanonicalAttachmentChunkAAD m' = Inr e"
  shows "m = m'"
proof -
  from assms have v: "AttachmentChunkMetadata_validate m = Inr ()" "AttachmentChunkMetadata_validate m' = Inr ()"
    by (auto simp: CanonicalAttachmentChunkAAD_def err_simps)
  from assms have "CanonicalAttachmentChunkAAD m = CanonicalAttachmentChunkAAD m'" by simp
  then show ?thesis
    using v [THEN AttachmentChunkMetadata_validD]
    by (simp add: CanonicalAttachmentChunkAAD_def v writer_simps Let_def writer_inject)
qed

definition demo_chunk :: AttachmentChunkMetadata where
  "demo_chunk = \<lparr>CM_CryptoProfile = CryptoProfileV1, CM_WorkspaceID = replicate 16 1, CM_BlobID = replicate 32 2,
     CM_KeyID = replicate 16 3, CM_ChunkIndex = 4, CM_PlaintextSize = 500\<rparr>"

lemma CanonicalSnapshotSignatureInput_validD:
  "CanonicalSnapshotSignatureInput f = Inr e \<Longrightarrow>
     length (SS_SnapshotID f) = 16 \<and> length (SS_WorkspaceID f) = 16 \<and> length (SS_KeyID f) = 16 \<and>
     length (SS_CreatorDeviceID f) = 16 \<and> length (SS_HLCDeviceID f) = 16 \<and> SS_HLCDeviceID f = SS_CreatorDeviceID f \<and>
     length (SS_Nonce f) = 24 \<and> length (SS_CiphertextHash f) = 32 \<and> length (SS_Ciphertext f) < 18446744073709551616 \<and>
     e = enc_head 5 12 @ enc_text ''protocol'' @ enc_text ProtocolV1 @ enc_text ''schema_version'' @ enc_uint 1 @
       enc_text ''snapshot_id'' @ enc_bytes (SS_SnapshotID f) @ enc_text ''workspace_id'' @ enc_bytes (SS_WorkspaceID f) @
       enc_text ''base_seq'' @ enc_uint (SS_BaseSequence f) @ enc_text ''cursor_epoch'' @ enc_uint (ucast (SS_CursorEpoch f)) @
       enc_text ''key_id'' @ enc_bytes (SS_KeyID f) @ enc_text ''creator_device_id'' @ enc_bytes (SS_CreatorDeviceID f) @
       enc_text ''created_hlc'' @ enc_head 5 3 @ enc_text ''physical_ms'' @ enc_uint (SS_HLCPhysicalMS f) @
       enc_text ''logical'' @ enc_uint (ucast (SS_HLCLogical f)) @ enc_text ''device_id'' @ enc_bytes (SS_HLCDeviceID f) @
       enc_text ''nonce'' @ enc_bytes (SS_Nonce f) @ enc_text ''ciphertext_hash'' @ enc_bytes (SS_CiphertextHash f) @
       enc_text ''ciphertext'' @ enc_bytes (SS_Ciphertext f)"
  by (auto simp: CanonicalSnapshotSignatureInput_def writer_simps Let_def split: if_splits)

lemma CanonicalSnapshotSignatureInput_inject:
  assumes "CanonicalSnapshotSignatureInput f = Inr e" and "CanonicalSnapshotSignatureInput g = Inr e"
  shows "f = g"
  using assms [THEN CanonicalSnapshotSignatureInput_validD] by (auto simp: writer_inject)

lemma CanonicalSnapshotAckSignatureInput_inject:
  assumes "CanonicalSnapshotAckSignatureInput f = Inr e" and "CanonicalSnapshotAckSignatureInput g = Inr e"
  shows "f = g"
  using assms by (auto simp: CanonicalSnapshotAckSignatureInput_def writer_simps Let_def writer_inject split: if_splits)

lemma validObjectType_length: "validObjectType t \<Longrightarrow> length t < 18446744073709551616"
  by (auto simp: validObjectType_def)

lemma CanonicalObjectAAD_inject:
  assumes "CanonicalObjectAAD m = Inr e" and "CanonicalObjectAAD m' = Inr e"
  shows "m = m'"
  using assms
  by (auto simp: CanonicalObjectAAD_def ObjectMetadata_validate_def writer_simps Let_def writer_inject validObjectType_length
      split: if_splits)

lemma CanonicalAttachmentManifestAAD_inject:
  assumes "CanonicalAttachmentManifestAAD m = Inr e" and "CanonicalAttachmentManifestAAD m' = Inr e"
  shows "m = m'"
  using assms
  by (auto simp: CanonicalAttachmentManifestAAD_def AttachmentMetadata_validate_def writer_simps Let_def writer_inject
      split: if_splits)

section \<open>Length-prefixed contexts\<close>

lemma lp_append_inject:
  assumes "length v < 2 ^ 32" "length w < 2 ^ 32"
  shows "lp [] v @ p = lp [] w @ q \<longleftrightarrow> v = w \<and> p = q"
proof
  assume eq: "lp [] v @ p = lp [] w @ q"
  then have "be_bytes 4 (word_of_nat (length v) :: u32) = be_bytes 4 (word_of_nat (length w) :: u32)"
    by (simp add: lp_def append_eq_append_conv)
  then have "be_nat (be_bytes 4 (word_of_nat (length v) :: u32)) = be_nat (be_bytes 4 (word_of_nat (length w) :: u32))"
    by simp
  with assms have "length v = length w"
    by (simp add: be_nat_be_bytes unat_of_nat)
  with eq show "v = w \<and> p = q" by (simp add: lp_def)
qed simp

lemma lp_not_Nil [simp]: "lp dst v \<noteq> []"
proof -
  have "length (lp dst v) \<noteq> 0" by (simp add: lp_def)
  then show ?thesis by blast
qed

lemma lp_append: "NO_MATCH [] dst \<Longrightarrow> lp dst v = dst @ lp [] v"
  by (simp add: lp_def)

lemma foldl_lp: "foldl lp dst parts = dst @ concat (map (lp []) parts)"
proof (induction parts arbitrary: dst)
  case (Cons a parts)
  have "lp dst a = dst @ lp [] a" by (simp add: lp_def)
  with Cons show ?case by simp
qed simp

lemma concat_lp_inject:
  "list_all (\<lambda>x. length x < 2 ^ 32) xs \<Longrightarrow> list_all (\<lambda>x. length x < 2 ^ 32) ys \<Longrightarrow>
   concat (map (lp []) xs) = concat (map (lp []) ys) \<Longrightarrow> xs = ys"
proof (induction xs arbitrary: ys)
  case Nil
  then show ?case by (cases ys) simp_all
next
  case (Cons x xs)
  from Cons.prems obtain y zs where ys: "ys = y # zs" by (cases ys) simp_all
  from Cons.prems have "x = y \<and> concat (map (lp []) xs) = concat (map (lp []) zs)"
    unfolding ys by (subst lp_append_inject [symmetric]) simp_all
  moreover have "list_all (\<lambda>x. length x < 2 ^ 32) xs" "list_all (\<lambda>x. length x < 2 ^ 32) zs"
    using Cons.prems ys by simp_all
  ultimately show ?case using Cons.IH [of zs] ys by blast
qed

lemma buildHKDFInfo_concat: "buildHKDFInfo profile domain parts = concat (map (lp []) (str_bytes profile # str_bytes domain # parts))"
  unfolding buildHKDFInfo_def foldl_lp by (simp add: lp_append)

text \<open>
  Key-derivation contexts never collide: equal HKDF info strings come from the same profile,
  the same purpose and the same list of parts, wherever the boundaries between parts lie.
  Keys for different objects, chunks, backups or purposes are derived from different inputs.
\<close>

lemma buildHKDFInfo_inject:
  assumes "buildHKDFInfo profile domain parts = buildHKDFInfo profile' domain' parts'"
    and "list_all (\<lambda>x. length x < 2 ^ 32) (str_bytes profile # str_bytes domain # parts)"
    and "list_all (\<lambda>x. length x < 2 ^ 32) (str_bytes profile' # str_bytes domain' # parts')"
  shows "profile = profile' \<and> domain = domain' \<and> parts = parts'"
  using concat_lp_inject [OF assms(2,3)] assms(1) by (simp add: buildHKDFInfo_concat)

lemma signature_domain_length: "validSignatureDomain d \<Longrightarrow> length (str_bytes d) < 2 ^ 32"
  by (auto simp: validSignatureDomain_def signature_domains_def)

text \<open>
  Signatures of different record classes cannot be exchanged: if a signature verifies for one
  domain and payload, then the bytes given to Ed25519 for any other accepted domain or
  payload are different bytes.
\<close>

lemma VerifyCanonical_domain_separation:
  assumes "VerifyCanonical vrfy profile pk domain payload sig = Inr ()"
    and "VerifyCanonical vrfy' profile' pk' domain' payload' sig' = Inr ()"
  shows "lp [] (str_bytes domain) @ payload = lp [] (str_bytes domain') @ payload' \<longleftrightarrow> domain = domain' \<and> payload = payload'"
proof -
  from assms have "validSignatureDomain domain" "validSignatureDomain domain'"
    by (auto simp: VerifyCanonical_def validateSignatureInput_def split: if_splits)
  then have "lp [] (str_bytes domain) @ payload = lp [] (str_bytes domain') @ payload' \<longleftrightarrow>
      str_bytes domain = str_bytes domain' \<and> payload = payload'"
    by (intro lp_append_inject signature_domain_length)
  then show ?thesis by simp
qed

text \<open>
  The header byte of the operation signature input announces a map of eight pairs, while nine
  pairs follow: the strict reader of the same package, reading the announced eight entries,
  stops in front of the remaining \<^verbatim>\<open>ciphertext\<close> entry.
\<close>

lemma operation_signature_map_is_short:
  assumes "CanonicalOperationSignatureInput f = Inr e"
  shows "\<exists>front. e = enc_head 5 8 @ front @ enc_text ''ciphertext'' @ enc_bytes (OS_Ciphertext f) \<and>
    front = enc_text ''protocol'' @ enc_text ProtocolV1 @ enc_text ''schema_version'' @ enc_uint 1 @
      enc_text ''op_id'' @ enc_bytes (OS_OpID f) @ enc_text ''workspace_id'' @ enc_bytes (OS_WorkspaceID f) @
      enc_text ''device_id'' @ enc_bytes (OS_DeviceID f) @
      enc_text ''hlc'' @ (enc_head 5 3 @ enc_text ''physical_ms'' @ enc_uint (OS_HLCPhysicalMS f) @
        enc_text ''logical'' @ enc_uint (ucast (OS_HLCLogical f)) @ enc_text ''device_id'' @ enc_bytes (OS_HLCDeviceID f)) @
      enc_text ''key_id'' @ enc_bytes (OS_KeyID f) @ enc_text ''nonce'' @ enc_bytes (OS_Nonce f)"
  using assms by (auto simp: CanonicalOperationSignatureInput_def err_simps writer_simps Let_def)

end
