(* ===== verification/Object_Encryption.thy ===== *)
theory Object_Encryption
  imports Canonical_Inputs
begin

text \<open>
  Sealing and opening of workspace objects and keybags: \<^verbatim>\<open>core/crypto/aead.go\<close> and
  \<^verbatim>\<open>core/crypto/objectblob.go\<close>. The primitives (XChaCha20-Poly1305, HKDF, Ed25519) and the
  capacity of a freshly made slice are the fields of \<open>crypto_env\<close>; a nonce is what the random
  source delivered, \<open>None\<close> when it failed. A \<^verbatim>\<open>Secret\<close> is its bytes, \<open>None\<close> when nil or closed;
  wiping is not observable and left out. \<open>crypto_laws\<close> states what the documentation of the
  primitives promises: opening inverts sealing, the tag is 16 bytes, a derived key is 32 bytes
  and a signature made with a private key verifies under its public key.
\<close>

section \<open>Primitives\<close>

record crypto_env =
  ce_hkdf :: hkdf
  ce_seal :: "bytes \<Rightarrow> bytes \<Rightarrow> bytes \<Rightarrow> bytes \<Rightarrow> bytes"
  ce_open :: "bytes \<Rightarrow> bytes \<Rightarrow> bytes \<Rightarrow> bytes \<Rightarrow> bytes option"
  ce_sign :: "bytes \<Rightarrow> bytes \<Rightarrow> bytes"
  ce_verify :: "bytes \<Rightarrow> bytes \<Rightarrow> bytes \<Rightarrow> bool"
  ce_public :: "bytes \<Rightarrow> bytes"
  ce_capacity :: "bytes \<Rightarrow> nat"

definition MaxSecretBytes :: nat where
  "MaxSecretBytes = 1048576"

definition MaxCiphertextBytes :: nat where
  "MaxCiphertextBytes = MaxSecretBytes + AEADTagBytes"

definition crypto_laws :: "crypto_env \<Rightarrow> bool" where
  "crypto_laws env \<longleftrightarrow>
     (\<forall>key nonce plaintext aad. ce_open env key nonce (ce_seal env key nonce plaintext aad) aad = Some plaintext \<and>
        length (ce_seal env key nonce plaintext aad) = length plaintext + AEADTagBytes) \<and>
     (\<forall>input info. length (ce_hkdf env input info) = 32) \<and>
     (\<forall>private message. length (ce_sign env private message) = SignatureSize \<and> length (ce_public env private) = 32 \<and>
        ce_verify env (ce_public env private) message (ce_sign env private message)) \<and>
     (\<forall>value. length value \<le> ce_capacity env value)"

section \<open>Sealing and opening\<close>

definition TakeSecret :: "crypto_env \<Rightarrow> bytes \<Rightarrow> crypto_error + bytes" where
  "TakeSecret env value =
     (if length value = 0 \<or> MaxSecretBytes < ce_capacity env value then Inl ErrInvalidSecretSize else Inr value)"

definition sealXChaCha ::
  "crypto_env \<Rightarrow> bytes option \<Rightarrow> bytes option \<Rightarrow> bytes \<Rightarrow> bytes option \<Rightarrow> crypto_error + bytes \<times> bytes" where
  "sealXChaCha env key plaintext aad random =
     (case (key, plaintext) of
        (Some keyBytes, Some plaintextBytes) \<Rightarrow>
          if length plaintextBytes = 0 \<or> MaxSecretBytes < length plaintextBytes then Inl ErrInvalidSecretSize
          else (case random of
                  None \<Rightarrow> Inl ErrRandomSource
                | Some nonce \<Rightarrow>
                    if length nonce \<noteq> XChaCha20NonceBytes then Inl ErrRandomSource
                    else if length keyBytes \<noteq> 32 then Inl ErrInvalidEncryptionKey
                    else Inr (nonce, ce_seal env keyBytes nonce plaintextBytes aad))
      | _ \<Rightarrow> Inl ErrSecretClosed)"

definition openXChaCha :: "crypto_env \<Rightarrow> bytes option \<Rightarrow> bytes \<Rightarrow> bytes \<Rightarrow> bytes \<Rightarrow> crypto_error + bytes" where
  "openXChaCha env key nonce ciphertext aad =
     (case key of
        None \<Rightarrow> Inl ErrSecretClosed
      | Some keyBytes \<Rightarrow>
          if length nonce \<noteq> XChaCha20NonceBytes \<or> length ciphertext < AEADTagBytes \<or> MaxCiphertextBytes < length ciphertext
          then Inl ErrInvalidEncryptionMetadata
          else if length keyBytes \<noteq> 32 then Inl ErrInvalidEncryptionKey
          else (case ce_open env keyBytes nonce ciphertext aad of
                  None \<Rightarrow> Inl ErrCiphertextAuthentication
                | Some plaintext \<Rightarrow> TakeSecret env plaintext))"

section \<open>Workspace objects\<close>

record EncryptedObject =
  EO_Metadata :: ObjectMetadata
  EO_Nonce :: bytes
  EO_Ciphertext :: bytes

definition EncryptedObject_validate :: "EncryptedObject \<Rightarrow> crypto_error + unit" where
  "EncryptedObject_validate envelope =
     bind_res (ObjectMetadata_validate (EO_Metadata envelope)) (\<lambda>_.
       if length (EO_Nonce envelope) \<noteq> XChaCha20NonceBytes \<or> length (EO_Ciphertext envelope) < AEADTagBytes \<or>
          MaxCiphertextBytes < length (EO_Ciphertext envelope)
       then Inl ErrInvalidEncryptionMetadata else Inr ())"

definition object_key :: "crypto_env \<Rightarrow> bytes option \<Rightarrow> ObjectMetadata \<Rightarrow> crypto_error + bytes" where
  "object_key env workspaceKey m =
     DeriveWorkspaceObjectKey (ce_hkdf env) (OM_CryptoProfile m) workspaceKey (OM_ObjectID m) (OM_ObjectType m) (OM_SchemaVersion m)"

definition EncryptObject ::
  "crypto_env \<Rightarrow> bytes option \<Rightarrow> ObjectMetadata \<Rightarrow> bytes option \<Rightarrow> bytes option \<Rightarrow> crypto_error + EncryptedObject" where
  "EncryptObject env workspaceKey m plaintext random =
     bind_res (ObjectMetadata_validate m) (\<lambda>_.
     bind_res (CanonicalObjectAAD m) (\<lambda>aad.
     bind_res (object_key env workspaceKey m) (\<lambda>key.
     bind_res (sealXChaCha env (Some key) plaintext aad random) (\<lambda>(nonce, ciphertext).
       Inr \<lparr>EO_Metadata = m, EO_Nonce = nonce, EO_Ciphertext = ciphertext\<rparr>))))"

definition OpenObject :: "crypto_env \<Rightarrow> bytes option \<Rightarrow> EncryptedObject \<Rightarrow> crypto_error + bytes" where
  "OpenObject env workspaceKey envelope =
     bind_res (EncryptedObject_validate envelope) (\<lambda>_.
     bind_res (CanonicalObjectAAD (EO_Metadata envelope)) (\<lambda>aad.
     bind_res (object_key env workspaceKey (EO_Metadata envelope)) (\<lambda>key.
       openXChaCha env (Some key) (EO_Nonce envelope) (EO_Ciphertext envelope) aad)))"

definition EncryptAndPackObject ::
  "crypto_env \<Rightarrow> bytes option \<Rightarrow> ObjectMetadata \<Rightarrow> bytes option \<Rightarrow> bytes option \<Rightarrow> crypto_error + bytes" where
  "EncryptAndPackObject env workspaceKey m plaintext random =
     bind_res (EncryptObject env workspaceKey m plaintext random) (\<lambda>encrypted.
       Inr (OM_KeyID m @ EO_Nonce encrypted @ EO_Ciphertext encrypted))"

definition UnpackAndOpenObject :: "crypto_env \<Rightarrow> bytes option \<Rightarrow> ObjectMetadata \<Rightarrow> bytes \<Rightarrow> crypto_error + bytes" where
  "UnpackAndOpenObject env workspaceKey m blob =
     (if length blob < 16 + XChaCha20NonceBytes + AEADTagBytes then Inl ErrMalformedEncryptedBlob
      else OpenObject env workspaceKey
             \<lparr>EO_Metadata = m\<lparr>OM_KeyID := take 16 blob\<rparr>, EO_Nonce = take XChaCha20NonceBytes (drop 16 blob),
              EO_Ciphertext = drop (16 + XChaCha20NonceBytes) blob\<rparr>)"

section \<open>Keybags\<close>

record EncryptedKeybag =
  EK_Header :: KeybagHeader
  EK_Nonce :: bytes
  EK_Ciphertext :: bytes

definition EncryptedKeybag_validate :: "EncryptedKeybag \<Rightarrow> crypto_error + unit" where
  "EncryptedKeybag_validate envelope =
     bind_res (KeybagHeader_validate (EK_Header envelope)) (\<lambda>_.
       if length (EK_Nonce envelope) \<noteq> XChaCha20NonceBytes \<or> length (EK_Ciphertext envelope) < AEADTagBytes \<or>
          MaxCiphertextBytes < length (EK_Ciphertext envelope)
       then Inl ErrInvalidEncryptionMetadata else Inr ())"

definition EncryptKeybag ::
  "crypto_env \<Rightarrow> bytes option \<Rightarrow> KeybagHeader \<Rightarrow> bytes option \<Rightarrow> bytes option \<Rightarrow> crypto_error + EncryptedKeybag" where
  "EncryptKeybag env rootKey header plaintext random =
     bind_res (KeybagHeader_validate header) (\<lambda>_.
     bind_res (CanonicalKeybagAAD header) (\<lambda>aad.
     bind_res (DeriveKeybagKey (ce_hkdf env) (KB_CryptoProfile header) rootKey (KB_AccountID header)) (\<lambda>key.
     bind_res (sealXChaCha env (Some key) plaintext aad random) (\<lambda>(nonce, ciphertext).
       Inr \<lparr>EK_Header = header, EK_Nonce = nonce, EK_Ciphertext = ciphertext\<rparr>))))"

definition OpenKeybag :: "crypto_env \<Rightarrow> bytes option \<Rightarrow> EncryptedKeybag \<Rightarrow> crypto_error + bytes" where
  "OpenKeybag env rootKey envelope =
     bind_res (EncryptedKeybag_validate envelope) (\<lambda>_.
     bind_res (CanonicalKeybagAAD (EK_Header envelope)) (\<lambda>aad.
     bind_res (DeriveKeybagKey (ce_hkdf env) (KB_CryptoProfile (EK_Header envelope)) rootKey (KB_AccountID (EK_Header envelope))) (\<lambda>key.
       case openXChaCha env (Some key) (EK_Nonce envelope) (EK_Ciphertext envelope) aad of
         Inl e \<Rightarrow> Inl (if e = ErrCiphertextAuthentication then ErrKeybagUnlock else e)
       | Inr plaintext \<Rightarrow> Inr plaintext)))"

section \<open>Opening inverts sealing\<close>

lemma seal_open:
  assumes laws: "crypto_laws env" and s: "sealXChaCha env (Some key) (Some plaintext) aad random = Inr (nonce, ciphertext)"
    and cap: "ce_capacity env plaintext \<le> MaxSecretBytes"
  shows "openXChaCha env (Some key) nonce ciphertext aad = Inr plaintext"
    and "length nonce = XChaCha20NonceBytes" "AEADTagBytes \<le> length ciphertext" "length ciphertext \<le> MaxCiphertextBytes"
    and "length ciphertext = length plaintext + AEADTagBytes"
proof -
  from s have k: "length key = 32" "length nonce = 24" "plaintext \<noteq> []" "length plaintext \<le> MaxSecretBytes"
    and c: "ciphertext = ce_seal env key nonce plaintext aad"
    by (auto simp: sealXChaCha_def split: if_splits option.splits)
  have l: "ce_open env key nonce ciphertext aad = Some plaintext" "length ciphertext = length plaintext + AEADTagBytes"
    using laws c by (simp_all add: crypto_laws_def)
  show "openXChaCha env (Some key) nonce ciphertext aad = Inr plaintext"
    using k l cap by (simp add: openXChaCha_def TakeSecret_def MaxCiphertextBytes_def)
  show "length nonce = XChaCha20NonceBytes" "AEADTagBytes \<le> length ciphertext" "length ciphertext \<le> MaxCiphertextBytes"
    "length ciphertext = length plaintext + AEADTagBytes"
    using k l by (simp_all add: MaxCiphertextBytes_def)
qed

lemma EncryptObject_open:
  assumes "crypto_laws env" "EncryptObject env workspaceKey m (Some plaintext) random = Inr envelope" "ce_capacity env plaintext \<le> MaxSecretBytes"
  shows "OpenObject env workspaceKey envelope = Inr plaintext" "EO_Metadata envelope = m" "EncryptedObject_validate envelope = Inr ()"
    "length (EO_Ciphertext envelope) = length plaintext + AEADTagBytes"
proof -
  from assms(2) obtain aad key where v: "ObjectMetadata_validate m = Inr ()" "CanonicalObjectAAD m = Inr aad" "object_key env workspaceKey m = Inr key"
    and s: "sealXChaCha env (Some key) (Some plaintext) aad random = Inr (EO_Nonce envelope, EO_Ciphertext envelope)" and m: "EO_Metadata envelope = m"
    by (auto simp: EncryptObject_def err_simps)
  note so = seal_open [OF assms(1) s assms(3)]
  show "EncryptedObject_validate envelope = Inr ()" using so v by (simp add: EncryptedObject_validate_def m)
  then show "OpenObject env workspaceKey envelope = Inr plaintext" using so v by (simp add: OpenObject_def m)
  show "EO_Metadata envelope = m" by (rule m)
  show "length (EO_Ciphertext envelope) = length plaintext + AEADTagBytes" by (rule so)
qed

text \<open>Sealing succeeds for valid metadata, a workspace key of 32 bytes, a nonce and a plaintext of acceptable size.\<close>

lemma object_key_total:
  assumes "crypto_laws env" "ObjectMetadata_validate m = Inr ()" "length key = 32"
  shows "\<exists>k. object_key env (Some key) m = Inr k \<and> length k = 32"
proof -
  from assms(2) have f: "OM_CryptoProfile m = CryptoProfileV1" "OM_SchemaVersion m = 1" "length (OM_ObjectID m) = 16" "validObjectType (OM_ObjectType m)"
    by (auto simp: ObjectMetadata_validate_def split: if_splits)
  from f(4) have "length (OM_ObjectType m) \<le> 64 \<and> utf8_valid (str_bytes (OM_ObjectType m))"
    unfolding validObjectType_def by (elim insertE emptyE) (simp_all, code_simp+)
  with f assms show ?thesis
    by (simp add: object_key_def DeriveWorkspaceObjectKey_def deriveHKDF_def validHKDFDomain_def crypto_laws_def Let_def)
qed

lemma EncryptObject_total:
  assumes "crypto_laws env" "ObjectMetadata_validate m = Inr ()" "length key = 32" "length nonce = XChaCha20NonceBytes"
    and "plaintext \<noteq> []" "length plaintext \<le> MaxSecretBytes"
  shows "\<exists>e. EncryptObject env (Some key) m (Some plaintext) (Some nonce) = Inr e \<and> EO_Nonce e = nonce"
proof -
  obtain k where k: "object_key env (Some key) m = Inr k" "length k = 32" using object_key_total [OF assms(1-3)] by blast
  obtain aad where "CanonicalObjectAAD m = Inr aad" using assms(2) by (simp add: CanonicalObjectAAD_def Let_def)
  with k assms show ?thesis by (simp add: EncryptObject_def sealXChaCha_def)
qed

lemma Pack_open:
  assumes "crypto_laws env" "EncryptAndPackObject env workspaceKey m (Some plaintext) random = Inr blob" "ce_capacity env plaintext \<le> MaxSecretBytes"
    and "m' = m\<lparr>OM_KeyID := k\<rparr>"
  shows "UnpackAndOpenObject env workspaceKey m' blob = Inr plaintext" "take 16 blob = OM_KeyID m" "16 \<le> length blob"
proof -
  from assms(2) obtain e where e: "EncryptObject env workspaceKey m (Some plaintext) random = Inr e"
    and b: "blob = OM_KeyID m @ EO_Nonce e @ EO_Ciphertext e"
    by (auto simp: EncryptAndPackObject_def err_simps)
  note open_e = EncryptObject_open [OF assms(1) e assms(3)]
  from open_e(2,3) have l: "length (OM_KeyID m) = 16" "length (EO_Nonce e) = 24" "AEADTagBytes \<le> length (EO_Ciphertext e)"
    by (auto simp: EncryptedObject_validate_def ObjectMetadata_validate_def split: if_splits)
  have "\<lparr>EO_Metadata = m'\<lparr>OM_KeyID := take 16 blob\<rparr>, EO_Nonce = take XChaCha20NonceBytes (drop 16 blob),
      EO_Ciphertext = drop (16 + XChaCha20NonceBytes) blob\<rparr> = e"
    using l open_e(2) assms(4) by (simp add: b)
  then show "UnpackAndOpenObject env workspaceKey m' blob = Inr plaintext"
    using l open_e(1) by (simp add: UnpackAndOpenObject_def b)
  show "take 16 blob = OM_KeyID m" "16 \<le> length blob" using l by (simp_all add: b)
qed

lemma EncryptKeybag_open:
  assumes "crypto_laws env" "EncryptKeybag env rootKey header (Some plaintext) random = Inr keybag" "ce_capacity env plaintext \<le> MaxSecretBytes"
  shows "OpenKeybag env rootKey keybag = Inr plaintext" "EK_Header keybag = header"
proof -
  from assms(2) obtain aad key where v: "KeybagHeader_validate header = Inr ()" "CanonicalKeybagAAD header = Inr aad"
    "DeriveKeybagKey (ce_hkdf env) (KB_CryptoProfile header) rootKey (KB_AccountID header) = Inr key"
    and s: "sealXChaCha env (Some key) (Some plaintext) aad random = Inr (EK_Nonce keybag, EK_Ciphertext keybag)" and h: "EK_Header keybag = header"
    by (auto simp: EncryptKeybag_def err_simps)
  show "OpenKeybag env rootKey keybag = Inr plaintext" "EK_Header keybag = header"
    using seal_open [OF assms(1) s assms(3)] v by (simp_all add: OpenKeybag_def EncryptedKeybag_validate_def h)
qed

text \<open>
  What is sealed can be opened. A keybag or workspace object that was encrypted opens with
  the same key to the same plaintext; a packed object also opens when the caller does not
  know the key identifier, which the blob carries in its first sixteen bytes.
\<close>

lemma encryption_roundtrip:
  assumes "crypto_laws env" "ce_capacity env plaintext \<le> MaxSecretBytes"
  shows "(EncryptKeybag env rootKey header (Some plaintext) random = Inr keybag \<longrightarrow>
      OpenKeybag env rootKey keybag = Inr plaintext \<and> EK_Header keybag = header) \<and>
    (EncryptObject env workspaceKey m (Some plaintext) random = Inr envelope \<longrightarrow> OpenObject env workspaceKey envelope = Inr plaintext) \<and>
    (EncryptAndPackObject env workspaceKey m (Some plaintext) random = Inr blob \<longrightarrow>
      UnpackAndOpenObject env workspaceKey (m\<lparr>OM_KeyID := other\<rparr>) blob = Inr plaintext \<and> take 16 blob = OM_KeyID m)"
proof (intro conjI impI)
  assume "EncryptKeybag env rootKey header (Some plaintext) random = Inr keybag"
  then show "OpenKeybag env rootKey keybag = Inr plaintext" "EK_Header keybag = header"
    using EncryptKeybag_open [OF assms(1) _ assms(2)] by blast+
next
  assume "EncryptObject env workspaceKey m (Some plaintext) random = Inr envelope"
  then show "OpenObject env workspaceKey envelope = Inr plaintext" by (rule EncryptObject_open [OF assms(1) _ assms(2)])
next
  assume p: "EncryptAndPackObject env workspaceKey m (Some plaintext) random = Inr blob"
  show "UnpackAndOpenObject env workspaceKey (m\<lparr>OM_KeyID := other\<rparr>) blob = Inr plaintext" "take 16 blob = OM_KeyID m"
    using Pack_open [OF assms(1) p assms(2) refl] by blast+
qed

text \<open>A concrete environment that satisfies the laws: the tag repeats the first bytes of the key, a signature those of the public key.\<close>

definition demo_crypto :: crypto_env where
  "demo_crypto = \<lparr>ce_hkdf = (\<lambda>input info. take 32 (input @ replicate 32 0)),
     ce_seal = (\<lambda>key nonce plaintext aad. plaintext @ take AEADTagBytes (key @ replicate AEADTagBytes 0)),
     ce_open = (\<lambda>key nonce ciphertext aad.
       let n = length ciphertext - AEADTagBytes in
       if drop n ciphertext = take AEADTagBytes (key @ replicate AEADTagBytes 0) then Some (take n ciphertext) else None),
     ce_sign = (\<lambda>private message. take SignatureSize (take 32 (private @ replicate 32 0) @ replicate SignatureSize 0)),
     ce_verify = (\<lambda>public message signature. signature = take SignatureSize (public @ replicate SignatureSize 0)),
     ce_public = (\<lambda>private. take 32 (private @ replicate 32 0)), ce_capacity = length\<rparr>"

lemma demo_crypto_laws: "crypto_laws demo_crypto"
  by (simp add: crypto_laws_def demo_crypto_def Let_def) (simp add: min_def)

definition demo_metadata :: ObjectMetadata where
  "demo_metadata = \<lparr>OM_SchemaVersion = 1, OM_CryptoProfile = CryptoProfileV1, OM_WorkspaceID = replicate 16 1, OM_ObjectID = replicate 16 2,
     OM_ObjectType = ''revision'', OM_KeyID = replicate 16 3\<rparr>"

end
