(* ===== verification/Sync_Processor.thy ===== *)
theory Sync_Processor
  imports Note_Store Object_Encryption
begin

text \<open>
  The unlocked account and what it does with operations: verifying and applying those of other
  devices (\<^verbatim>\<open>core/account/sync_processor.go\<close>) and committing local changes together with
  the operation that announces them (\<^verbatim>\<open>core/account/notes.go\<close>, \<^verbatim>\<open>notecommands.go\<close>). The
  account's mutex makes a look-up one step. The Yjs library is the record of functions \<open>yjs\<close>,
  the cryptography a \<open>crypto_env\<close>; fresh identifiers and nonces are arguments, and so are the
  readings of the wall clock.
\<close>

section \<open>The account\<close>

record workspaceKeyEntry =
  ke_KeyID :: bytes
  ke_Key :: "bytes option"
  ke_State :: byte

record Account =
  ac_ID :: ID
  ac_DeviceID :: ID
  ac_IdentityPublicKey :: bytes
  ac_AuthorityPublicKey :: bytes
  ac_DevicePublicKey :: bytes
  ac_locked :: bool
  ac_identityPrivate :: "bytes option"
  ac_authorityPrivate :: "bytes option"
  ac_devicePrivate :: "bytes option"
  ac_rootKey :: "bytes option"
  ac_workspaceKeys :: "ID \<rightharpoonup> workspaceKeyEntry"
  ac_historicalWorkspaceKeys :: "ID \<Rightarrow> workspaceKeyEntry list"
  ac_clock :: Clock

datatype account_error =
  ErrAccountLocked | ErrUnknownWorkspace | AccStore store_error | AccClock hlc_error | AccCrypto crypto_error
| AccSignature "codec_error + crypto_error" | AccPayload payload_error | AccSync sync_error | AccID id_error
| ErrAlreadyMember | ErrInvalidKeybagPayload | ErrNoLocalAccount | AccPlain string

abbreviation in_store :: "store_error + 'a \<Rightarrow> account_error + 'a" where
  "in_store r \<equiv> map_sum AccStore id r"

abbreviation in_crypto :: "crypto_error + 'a \<Rightarrow> account_error + 'a" where
  "in_crypto r \<equiv> map_sum AccCrypto id r"

abbreviation in_payload :: "payload_error + 'a \<Rightarrow> account_error + 'a" where
  "in_payload r \<equiv> map_sum AccPayload id r"

definition workspaceSession :: "ID \<Rightarrow> Account \<Rightarrow> account_error + workspaceKeyEntry" where
  "workspaceSession workspaceID a =
     (if ac_locked a then Inl ErrAccountLocked
      else case ac_workspaceKeys a workspaceID of None \<Rightarrow> Inl ErrUnknownWorkspace | Some entry \<Rightarrow> Inr entry)"

definition equalKeyID :: "workspaceKeyEntry \<Rightarrow> bytes \<Rightarrow> bool" where
  "equalKeyID entry candidate \<longleftrightarrow> equalBytes (ke_KeyID entry) candidate"

definition workspaceKeyByID :: "ID \<Rightarrow> bytes \<Rightarrow> Account \<Rightarrow> workspaceKeyEntry option" where
  "workspaceKeyByID workspaceID candidate a =
     (if ac_locked a then None
      else
        case ac_workspaceKeys a workspaceID of
          Some entry \<Rightarrow>
            if equalKeyID entry candidate then Some entry
            else find (\<lambda>e. equalKeyID e candidate) (ac_historicalWorkspaceKeys a workspaceID)
        | None \<Rightarrow> find (\<lambda>e. equalKeyID e candidate) (ac_historicalWorkspaceKeys a workspaceID))"

definition tick :: "int \<Rightarrow> Account \<Rightarrow> (account_error + HLC) \<times> Account" where
  "tick unixMilli a =
     (if ac_locked a then (Inl ErrAccountLocked, a)
      else
        case Tick unixMilli (ac_clock a) of
          (Inl e, c) \<Rightarrow> (Inl (AccClock e), a\<lparr>ac_clock := c\<rparr>)
        | (Inr h, c) \<Rightarrow> (Inr h, a\<lparr>ac_clock := c\<rparr>))"

section \<open>Verification\<close>

datatype operation_payload = BodyPayload NoteBodyOperation | MetadataPayload NoteMetadataOperation

record verifiedNoteOperation =
  vo_entry :: workspaceKeyEntry
  vo_wire :: WireOperation
  vo_payload :: operation_payload

definition ObjectTypeOperationPayload :: string where
  "ObjectTypeOperationPayload = ''operation-payload''"

definition ObjectTypeNoteSnapshot :: string where
  "ObjectTypeNoteSnapshot = ''note-snapshot''"

definition ObjectTypeRevision :: string where
  "ObjectTypeRevision = ''revision''"

definition SignatureDomainOperation_client :: string where
  "SignatureDomainOperation_client = ''beresta.operation.signature.v1''"

definition object_metadata :: "ID \<Rightarrow> ID \<Rightarrow> string \<Rightarrow> bytes \<Rightarrow> ObjectMetadata" where
  "object_metadata workspaceID objectID objectType keyID =
     \<lparr>OM_SchemaVersion = 1, OM_CryptoProfile = CryptoProfileV1, OM_WorkspaceID = ID_Bytes workspaceID, OM_ObjectID = ID_Bytes objectID,
      OM_ObjectType = objectType, OM_KeyID = keyID\<rparr>"

text \<open>The payload is tried as a body operation first.\<close>

definition decode_payload :: "bytes \<Rightarrow> account_error + operation_payload" where
  "decode_payload payload =
     (case DecodeNoteBodyOperation payload of
        Inr body \<Rightarrow> Inr (BodyPayload body)
      | Inl _ \<Rightarrow>
          (case DecodeNoteMetadataOperation payload of
             Inl _ \<Rightarrow> Inl (AccPlain ''unknown or malformed encrypted operation payload'')
           | Inr metadata \<Rightarrow> Inr (MetadataPayload metadata)))"

definition Verify ::
  "crypto_env \<Rightarrow> int \<Rightarrow> int \<Rightarrow> Account \<Rightarrow> note_db \<Rightarrow> WireOperation \<Rightarrow> account_error + verifiedNoteOperation" where
  "Verify env skew now a db operation =
     bind_res (workspaceSession (Op_WorkspaceID operation) a) (\<lambda>current.
     if (word_of_int ((now + skew) div 1000000) :: u64) < PhysicalMS (Op_Clock operation)
     then Inl (AccPlain ''operation HLC exceeds future-skew limit'')
     else
       bind_res (if equalKeyID current (Op_KeyID operation) then Inr current
                 else case workspaceKeyByID (Op_WorkspaceID operation) (Op_KeyID operation) a of
                        None \<Rightarrow> Inl (AccPlain ''operation uses an unavailable workspace key'')
                      | Some historical \<Rightarrow> Inr historical) (\<lambda>entry.
       case find (\<lambda>d. dv_id d = Op_DeviceID operation) (nd_devices db) of
         None \<Rightarrow> Inl (AccPlain ''load operation device'')
       | Some device \<Rightarrow>
           if (dv_status device \<noteq> 1 \<and> dv_status device \<noteq> 2) \<or> length (dv_public device) \<noteq> Ed25519PublicKeyBytes
           then Inl (AccPlain ''operation device key is unavailable'')
           else
             bind_res (map_sum AccSignature id (OperationSignatureInput operation)) (\<lambda>input.
             if VerifyCanonical (ce_verify env) CryptoProfileV1 (dv_public device) SignatureDomainOperation_client input (Op_Signature operation)
                \<noteq> Inr ()
             then Inl (AccPlain ''operation signature verification failed'')
             else
               case OpenObject env (ke_Key entry)
                   \<lparr>EO_Metadata = object_metadata (Op_WorkspaceID operation) (Op_ID operation) ObjectTypeOperationPayload (Op_KeyID operation),
                    EO_Nonce = Op_Nonce operation, EO_Ciphertext = Op_Ciphertext operation\<rparr> of
                 Inl _ \<Rightarrow> Inl (AccPlain ''operation ciphertext authentication failed'')
               | Inr payload \<Rightarrow>
                   bind_res (decode_payload payload) (\<lambda>decoded.
                     Inr \<lparr>vo_entry = entry, vo_wire = operation, vo_payload = decoded\<rparr>))))"

section \<open>Documents\<close>

abbreviation FormatV1 :: byte where "FormatV1 \<equiv> 1"
abbreviation FormatV2 :: byte where "FormatV2 \<equiv> 2"
abbreviation noteSnapshotFormat :: byte where "noteSnapshotFormat \<equiv> FormatV2"

record 'd yjs =
  yj_new :: 'd
  yj_restore :: "byte \<Rightarrow> bytes \<Rightarrow> 'd option"
  yj_apply :: "byte \<Rightarrow> bytes \<Rightarrow> 'd \<Rightarrow> 'd option"
  yj_encode :: "byte \<Rightarrow> 'd \<Rightarrow> bytes option"
  yj_vector :: "'d \<Rightarrow> bytes option"
  yj_markdown :: "'d \<Rightarrow> string option"

definition need :: "string \<Rightarrow> 'a option \<Rightarrow> account_error + 'a" where
  "need message x = (case x of None \<Rightarrow> Inl (AccPlain message) | Some v \<Rightarrow> Inr v)"

definition loadNoteDocument :: "crypto_env \<Rightarrow> 'd yjs \<Rightarrow> Account \<Rightarrow> ID \<Rightarrow> ID \<Rightarrow> note_db \<Rightarrow> account_error + 'd" where
  "loadNoteDocument env yj a workspaceID noteID db =
     (case LoadCRDTState noteID db of
        None \<Rightarrow> Inr (yj_new yj)
      | Some state \<Rightarrow>
          if length (Snapshot state) < 16 then Inl (AccPlain ''malformed note snapshot'')
          else
            bind_res (need ''note snapshot uses an unavailable workspace key'' (workspaceKeyByID workspaceID (take 16 (Snapshot state)) a)) (\<lambda>entry.
            bind_res (in_crypto (UnpackAndOpenObject env (ke_Key entry) (object_metadata workspaceID noteID ObjectTypeNoteSnapshot []) (Snapshot state)))
              (\<lambda>snapshot. need ''restore note snapshot'' (yj_restore yj noteSnapshotFormat snapshot))))"

definition saveNoteSnapshot ::
  "crypto_env \<Rightarrow> bytes option \<Rightarrow> workspaceKeyEntry \<Rightarrow> ID \<Rightarrow> ID \<Rightarrow> bytes \<Rightarrow> bytes \<Rightarrow> u64 \<Rightarrow> note_db \<Rightarrow> account_error + note_db" where
  "saveNoteSnapshot env random entry workspaceID noteID snapshot stateVector updatedUnixMS db =
     bind_res (in_crypto (TakeSecret env snapshot)) (\<lambda>plaintext.
     bind_res (in_crypto (EncryptAndPackObject env (ke_Key entry) (object_metadata workspaceID noteID ObjectTypeNoteSnapshot (ke_KeyID entry))
         (Some plaintext) random)) (\<lambda>blob.
       in_store (UpsertCRDTState noteID \<lparr>Snapshot = blob, StateVector = stateVector\<rparr> updatedUnixMS db)))"

definition applyUnknownYjsFormat :: "'d yjs \<Rightarrow> bytes \<Rightarrow> 'd \<Rightarrow> account_error + 'd" where
  "applyUnknownYjsFormat yj update doc =
     bind_res (need ''encode state'' (yj_encode yj FormatV2 doc)) (\<lambda>snapshot.
       case yj_apply yj FormatV2 update doc of
         Some doc \<Rightarrow> Inr doc
       | None \<Rightarrow>
           bind_res (need ''restore Yjs state after decoder failure'' (yj_restore yj FormatV2 snapshot)) (\<lambda>doc.
             need ''reject malformed Yjs update'' (yj_apply yj FormatV1 update doc)))"

section \<open>Applying a verified operation\<close>

definition update_body ::
  "crypto_env \<Rightarrow> 'd yjs \<Rightarrow> bytes option \<Rightarrow> Account \<Rightarrow> verifiedNoteOperation \<Rightarrow> NoteBodyOperation \<Rightarrow> Note \<Rightarrow> bytes \<Rightarrow> note_db \<Rightarrow> account_error + note_db" where
  "update_body env yj random a v body note update db =
     (let wire = vo_wire v; noteID = NB_NoteID body; ms = PhysicalMS (Op_Clock wire) in
      bind_res (loadNoteDocument env yj a (Op_WorkspaceID wire) noteID db) (\<lambda>doc.
      bind_res (applyUnknownYjsFormat yj update doc) (\<lambda>doc.
      bind_res (need ''encode snapshot'' (yj_encode yj noteSnapshotFormat doc)) (\<lambda>snapshot.
      bind_res (need ''encode state vector'' (yj_vector yj doc)) (\<lambda>stateVector.
      bind_res (need ''project markdown'' (yj_markdown yj doc)) (\<lambda>markdown.
      bind_res (saveNoteSnapshot env random (vo_entry v) (Op_WorkspaceID wire) noteID snapshot stateVector ms db) (\<lambda>db.
      bind_res (in_store (InsertCRDTUpdate noteID update (Op_DeviceID wire) ms db)) (\<lambda>db.
        let title = (case NB_Title body of
              Some t \<Rightarrow> if 0 < HLC_Compare (Op_Clock wire) (LWWClock (Note_Title note)) then t else Value (Note_Title note)
            | None \<Rightarrow> Value (Note_Title note))
        in Inr (ReplaceNoteFTS noteID title markdown db)))))))))"

text \<open>Without an update the document is loaded all the same, and a failure to load it is an error.\<close>

definition applyBody ::
  "crypto_env \<Rightarrow> 'd yjs \<Rightarrow> bytes option \<Rightarrow> Account \<Rightarrow> verifiedNoteOperation \<Rightarrow> NoteBodyOperation \<Rightarrow> Note \<Rightarrow> note_db \<Rightarrow> account_error + note_db" where
  "applyBody env yj random a v body note db =
     bind_res (if NB_CRDTUpdate body = None \<or> NB_CRDTUpdate body = Some []
               then bind_res (loadNoteDocument env yj a (Op_WorkspaceID (vo_wire v)) (NB_NoteID body) db) (\<lambda>_. Inr db)
               else update_body env yj random a v body note (the (NB_CRDTUpdate body)) db) (\<lambda>db.
       case NB_Title body of
         None \<Rightarrow> Inr db
       | Some title \<Rightarrow> in_store (SetNoteTitle (NB_NoteID body) title (Op_Clock (vo_wire v)) db))"

definition applyMetadata :: "WireOperation \<Rightarrow> NoteMetadataOperation \<Rightarrow> note_db \<Rightarrow> store_error + note_db" where
  "applyMetadata wire op db =
     (let clock = Op_Clock wire; ws = Op_WorkspaceID wire; ms = sint (PhysicalMS clock) in
      if NM_Kind op = NoteMetadataKindNotebook then
        bind_res (if ID_IsZero (NM_NotebookID op) then Inr db else EnsureNotebookPlaceholder ws (NM_NotebookID op) clock db)
          (SetNoteNotebook (NM_NoteID op) (NM_NotebookID op) clock)
      else if NM_Kind op = NoteMetadataKindTag then
        bind_res (EnsureTagPlaceholder ws (NM_TagID op) clock db) (SetNoteTag (NM_NoteID op) (NM_TagID op) (NM_TagPresent op) clock)
      else if NM_Kind op = NoteMetadataKindFlags then SetNoteFlags (NM_NoteID op) (NM_Flags op) clock db
      else if NM_Kind op = NoteMetadataKindDeleted then SetNoteDeleted (NM_NoteID op) (NM_Deleted op) clock db
      else if NM_Kind op = NoteMetadataKindAttachment then
        (if length (NM_AttachmentBlobID op) \<noteq> BlobIDBytes then Inl (StoreMalformed ''invalid blob ID length'')
         else
           bind_res (EnsureAttachmentPlaceholder ws (NM_AttachmentBlobID op) ms db) (\<lambda>(_, db).
             SetNoteAttachment (NM_NoteID op) (NM_AttachmentBlobID op) (NM_AttachmentPresent op) clock ms db))
      else Inl (StoreMalformed ''unsupported note metadata mutation''))"

text \<open>The note of the operation; the first body operation of an unknown note creates it.\<close>

definition find_or_insert :: "verifiedNoteOperation \<Rightarrow> note_db \<Rightarrow> store_error + Note \<times> note_db" where
  "find_or_insert v db =
     (let wire = vo_wire v;
          noteID = (case vo_payload v of BodyPayload b \<Rightarrow> NB_NoteID b | MetadataPayload m \<Rightarrow> NM_NoteID m)
      in case Store_GetNote noteID db of
           Inr note \<Rightarrow> Inr (note, db)
         | Inl e \<Rightarrow>
             (case vo_payload v of
                BodyPayload b \<Rightarrow>
                  if e = StoreNotFound then
                    let title = (case NB_Title b of None \<Rightarrow> [] | Some t \<Rightarrow> t) in
                    bind_res (InsertReplicatedNote noteID (Op_WorkspaceID wire) title (Op_Clock wire) db) (\<lambda>(note, db).
                      Inr (note, ReplaceNoteFTS noteID title [] db))
                  else Inl e
              | MetadataPayload _ \<Rightarrow> Inl e))"

text \<open>What the operation does to the tables, before the clocks are advanced.\<close>

definition apply_effect :: "crypto_env \<Rightarrow> 'd yjs \<Rightarrow> bytes option \<Rightarrow> Account \<Rightarrow> verifiedNoteOperation \<Rightarrow> note_db \<Rightarrow> account_error + note_db" where
  "apply_effect env yj random a v db =
     bind_res (in_store (find_or_insert v db)) (\<lambda>(note, db).
       if Note_WorkspaceID note \<noteq> Op_WorkspaceID (vo_wire v) then Inl (AccStore StoreWrongWorkspace)
       else
         case vo_payload v of
           BodyPayload body \<Rightarrow>
             if \<not> Value (Note_Deleted note) \<or> 0 < HLC_Compare (Op_Clock (vo_wire v)) (LWWClock (Note_Deleted note))
             then applyBody env yj random a v body note db else Inr db
         | MetadataPayload metadata \<Rightarrow> in_store (applyMetadata (vo_wire v) metadata db))"

definition Apply ::
  "crypto_env \<Rightarrow> 'd yjs \<Rightarrow> bytes option \<Rightarrow> int \<Rightarrow> verifiedNoteOperation \<Rightarrow> Account \<Rightarrow> note_db \<Rightarrow> (account_error + note_db) \<times> Account" where
  "Apply env yj random unixMilli v a db =
     (case apply_effect env yj random a v db of
        Inl e \<Rightarrow> (Inl e, a)
      | Inr db \<Rightarrow>
          (case Observe unixMilli (Op_Clock (vo_wire v)) (ac_clock a) of
             (Inl e, c) \<Rightarrow> (Inl (AccClock e), a\<lparr>ac_clock := c\<rparr>)
           | (Inr merged, c) \<Rightarrow> (in_store (AdvanceDeviceClock (ac_DeviceID a) merged db), a\<lparr>ac_clock := c\<rparr>)))"


section \<open>Local commands\<close>

text \<open>
  A command ticks the account's clock first and keeps that tick even if it fails afterwards;
  the changes of the database are one transaction.
\<close>

type_synonym account_db = "note_db client_db"

abbreviation on_store :: "(note_db \<Rightarrow> store_error + note_db) \<Rightarrow> account_db \<Rightarrow> account_error + account_db" where
  "on_store f db \<equiv> bind_res (in_store (f (db_notes db))) (\<lambda>notes. Inr (db\<lparr>db_notes := notes\<rparr>))"

record fresh =
  fr_id :: ID
  fr_nonce :: "bytes option"

definition writeOutboxOperation ::
  "crypto_env \<Rightarrow> fresh \<Rightarrow> workspaceKeyEntry \<Rightarrow> bytes option \<Rightarrow> ID \<Rightarrow> ID \<Rightarrow> HLC \<Rightarrow> bytes \<Rightarrow> account_db \<Rightarrow> account_error + account_db" where
  "writeOutboxOperation env new entry devicePrivate workspaceID device clock payload db =
     bind_res (in_crypto (TakeSecret env payload)) (\<lambda>plaintext.
     bind_res (in_crypto (EncryptObject env (ke_Key entry) (object_metadata workspaceID (fr_id new) ObjectTypeOperationPayload (ke_KeyID entry))
         (Some plaintext) (fr_nonce new))) (\<lambda>encrypted.
     bind_res (in_crypto (CanonicalOperationSignatureInput
         \<lparr>OS_OpID = ID_Bytes (fr_id new), OS_WorkspaceID = ID_Bytes workspaceID, OS_DeviceID = ID_Bytes device,
          OS_HLCPhysicalMS = PhysicalMS clock, OS_HLCLogical = Logical clock, OS_HLCDeviceID = ID_Bytes (ClockDeviceID clock),
          OS_KeyID = ke_KeyID entry, OS_Nonce = EO_Nonce encrypted, OS_Ciphertext = EO_Ciphertext encrypted\<rparr>)) (\<lambda>signatureInput.
     bind_res (in_crypto (SignCanonical (ce_sign env) CryptoProfileV1 devicePrivate SignatureDomainOperation_client signatureInput)) (\<lambda>signature.
       map_sum AccSync id (InsertOutboxOperation
         \<lparr>Op_ID = fr_id new, Op_WorkspaceID = workspaceID, Op_DeviceID = device, Op_Sequence = 0, Op_Clock = clock, Op_KeyID = ke_KeyID entry,
          Op_Nonce = EO_Nonce encrypted, Op_Ciphertext = EO_Ciphertext encrypted, Op_Signature = signature\<rparr> (PhysicalMS clock) db)))))"

text \<open>The shape of all commands: the session, the tick, then the transaction.\<close>

definition with_session ::
  "ID \<Rightarrow> int \<Rightarrow> Account \<Rightarrow> (workspaceKeyEntry \<Rightarrow> HLC \<Rightarrow> account_error + 'x) \<Rightarrow> (account_error + 'x) \<times> Account" where
  "with_session workspaceID unixMilli a body =
     (case workspaceSession workspaceID a of
        Inl e \<Rightarrow> (Inl e, a)
      | Inr entry \<Rightarrow>
          (case tick unixMilli a of
             (Inl e, a) \<Rightarrow> (Inl e, a)
           | (Inr clock, a) \<Rightarrow> (body entry clock, a)))"

definition commitNoteMetadata ::
  "crypto_env \<Rightarrow> fresh \<Rightarrow> int \<Rightarrow> ID \<Rightarrow> NoteMetadataOperation \<Rightarrow> (HLC \<Rightarrow> note_db \<Rightarrow> store_error + note_db) \<Rightarrow> Account \<Rightarrow> account_db
   \<Rightarrow> (account_error + account_db) \<times> Account" where
  "commitNoteMetadata env new unixMilli workspaceID op apply_change a db =
     with_session workspaceID unixMilli a (\<lambda>entry clock.
       bind_res (in_store (Store_GetNote (NM_NoteID op) (db_notes db))) (\<lambda>note.
       if Note_WorkspaceID note \<noteq> workspaceID then Inl (AccStore StoreWrongWorkspace)
       else
         bind_res (on_store (apply_change clock) db) (\<lambda>db.
         bind_res (in_payload (EncodeNoteMetadataOperation op)) (\<lambda>payload.
         bind_res (writeOutboxOperation env new entry (ac_devicePrivate a) workspaceID (ac_DeviceID a) clock payload db) (\<lambda>db.
           on_store (AdvanceDeviceClock (ac_DeviceID a) clock) db)))))"

definition Account_SetNoteNotebook where
  "Account_SetNoteNotebook env new unixMilli workspaceID noteID notebookID =
     commitNoteMetadata env new unixMilli workspaceID ((zero_metadata noteID NoteMetadataKindNotebook)\<lparr>NM_NotebookID := notebookID\<rparr>)
       (SetNoteNotebook noteID notebookID)"

definition Account_SetNoteFlags where
  "Account_SetNoteFlags env new unixMilli workspaceID noteID flags =
     commitNoteMetadata env new unixMilli workspaceID ((zero_metadata noteID NoteMetadataKindFlags)\<lparr>NM_Flags := flags\<rparr>) (SetNoteFlags noteID flags)"

definition setNoteDeleted where
  "setNoteDeleted env new unixMilli workspaceID noteID deleted =
     commitNoteMetadata env new unixMilli workspaceID ((zero_metadata noteID NoteMetadataKindDeleted)\<lparr>NM_Deleted := deleted\<rparr>)
       (SetNoteDeleted noteID deleted)"

definition Account_SetNoteTag where
  "Account_SetNoteTag env new unixMilli workspaceID noteID tagID present =
     commitNoteMetadata env new unixMilli workspaceID ((zero_metadata noteID NoteMetadataKindTag)\<lparr>NM_TagID := tagID, NM_TagPresent := present\<rparr>)
       (SetNoteTag noteID tagID present)"

definition Account_CreateNote ::
  "crypto_env \<Rightarrow> ID \<Rightarrow> fresh \<Rightarrow> fresh \<Rightarrow> int \<Rightarrow> ID \<Rightarrow> ID \<Rightarrow> string \<Rightarrow> Account \<Rightarrow> account_db \<Rightarrow> (account_error + Note \<times> account_db) \<times> Account" where
  "Account_CreateNote env noteID new1 new2 unixMilli workspaceID notebookID title a db =
     with_session workspaceID unixMilli a (\<lambda>entry clock.
       bind_res (in_store (Store_CreateNote noteID workspaceID notebookID title clock (db_notes db))) (\<lambda>(note, notes).
       let db = db\<lparr>db_notes := ReplaceNoteFTS (Note_ID note) title [] notes\<rparr> in
       bind_res (in_payload (EncodeNoteBodyOperation \<lparr>NB_NoteID = Note_ID note, NB_CRDTUpdate = None, NB_Title = Some title\<rparr>)) (\<lambda>payload.
       bind_res (writeOutboxOperation env new1 entry (ac_devicePrivate a) workspaceID (ac_DeviceID a) clock payload db) (\<lambda>db.
       bind_res (if ID_IsZero notebookID then Inr db
                 else bind_res (in_payload (EncodeNoteMetadataOperation
                     ((zero_metadata (Note_ID note) NoteMetadataKindNotebook)\<lparr>NM_NotebookID := notebookID\<rparr>))) (\<lambda>metadataPayload.
                   writeOutboxOperation env new2 entry (ac_devicePrivate a) workspaceID (ac_DeviceID a) clock metadataPayload db)) (\<lambda>db.
       bind_res (on_store (AdvanceDeviceClock (ac_DeviceID a) clock) db) (\<lambda>db. Inr (note, db)))))))"

record NoteBodyCommand =
  NC_WorkspaceID :: ID
  NC_NoteID :: ID
  NC_Update :: bytes
  NC_UpdateFormat :: byte
  NC_Title :: "string option"

definition saveNoteRevision ::
  "crypto_env \<Rightarrow> fresh \<Rightarrow> workspaceKeyEntry \<Rightarrow> ID \<Rightarrow> ID \<Rightarrow> nat \<Rightarrow> byte \<Rightarrow> bytes \<Rightarrow> u64 \<Rightarrow> note_db \<Rightarrow> account_error + note_db" where
  "saveNoteRevision env new entry workspaceID noteID kind format data createdUnixMS db =
     bind_res (in_crypto (TakeSecret env data)) (\<lambda>plaintext.
     bind_res (in_crypto (EncryptAndPackObject env (ke_Key entry) (object_metadata workspaceID noteID ObjectTypeRevision (ke_KeyID entry))
         (Some plaintext) (fr_nonce new))) (\<lambda>blob.
       in_store (InsertRevision (fr_id new) noteID kind format blob createdUnixMS db)))"

abbreviation noteRevisionCheckpointInterval :: nat where "noteRevisionCheckpointInterval \<equiv> 20"

definition maybeCheckpointNoteRevisions ::
  "crypto_env \<Rightarrow> fresh \<Rightarrow> workspaceKeyEntry \<Rightarrow> ID \<Rightarrow> ID \<Rightarrow> bytes \<Rightarrow> u64 \<Rightarrow> note_db \<Rightarrow> account_error + note_db" where
  "maybeCheckpointNoteRevisions env new entry workspaceID noteID snapshot createdUnixMS db =
     (if \<not> CheckpointDue noteID noteRevisionCheckpointInterval db then Inr db
      else saveNoteRevision env new entry workspaceID noteID RevisionKindCheckpoint noteSnapshotFormat snapshot createdUnixMS db)"

text \<open>The tables after a local body edit: document, title, index, update log, revisions.\<close>

definition edit_body ::
  "crypto_env \<Rightarrow> 'd yjs \<Rightarrow> fresh \<Rightarrow> fresh \<Rightarrow> fresh \<Rightarrow> workspaceKeyEntry \<Rightarrow> HLC \<Rightarrow> NoteBodyCommand \<Rightarrow> Account \<Rightarrow> note_db \<Rightarrow> account_error + note_db" where
  "edit_body env yj newSnapshot newRevision newCheckpoint entry clock cmd a db =
     bind_res (in_store (Store_GetNote (NC_NoteID cmd) db)) (\<lambda>note.
     if Note_WorkspaceID note \<noteq> NC_WorkspaceID cmd then Inl (AccStore StoreWrongWorkspace)
     else
       bind_res (loadNoteDocument env yj a (NC_WorkspaceID cmd) (NC_NoteID cmd) db) (\<lambda>doc.
       bind_res (need ''apply note body update'' (yj_apply yj (NC_UpdateFormat cmd) (NC_Update cmd) doc)) (\<lambda>doc.
       bind_res (need ''encode note snapshot'' (yj_encode yj noteSnapshotFormat doc)) (\<lambda>snapshot.
       bind_res (need ''encode note state vector'' (yj_vector yj doc)) (\<lambda>stateVector.
       bind_res (need ''project note markdown'' (yj_markdown yj doc)) (\<lambda>markdown.
       bind_res (saveNoteSnapshot env (fr_nonce newSnapshot) entry (NC_WorkspaceID cmd) (NC_NoteID cmd) snapshot stateVector (PhysicalMS clock) db) (\<lambda>db.
       bind_res (case NC_Title cmd of
                   None \<Rightarrow> Inr (Value (Note_Title note), db)
                 | Some title \<Rightarrow> bind_res (in_store (SetNoteTitle (NC_NoteID cmd) title clock db)) (\<lambda>db. Inr (title, db))) (\<lambda>(title, db).
       bind_res (in_store (InsertCRDTUpdate (NC_NoteID cmd) (NC_Update cmd) (ac_DeviceID a) (PhysicalMS clock)
           (ReplaceNoteFTS (NC_NoteID cmd) title markdown db))) (\<lambda>db.
       bind_res (saveNoteRevision env newRevision entry (NC_WorkspaceID cmd) (NC_NoteID cmd) RevisionKindDelta (NC_UpdateFormat cmd) (NC_Update cmd)
           (PhysicalMS clock) db) (\<lambda>db.
         maybeCheckpointNoteRevisions env newCheckpoint entry (NC_WorkspaceID cmd) (NC_NoteID cmd) snapshot (PhysicalMS clock) db))))))))))"

definition CommitNoteBody ::
  "crypto_env \<Rightarrow> 'd yjs \<Rightarrow> fresh \<Rightarrow> fresh \<Rightarrow> fresh \<Rightarrow> fresh \<Rightarrow> int \<Rightarrow> NoteBodyCommand \<Rightarrow> Account \<Rightarrow> account_db \<Rightarrow> (account_error + account_db) \<times> Account" where
  "CommitNoteBody env yj newSnapshot newRevision newCheckpoint newOp unixMilli cmd a db =
     (if length (NC_Update cmd) = 0 then (Inl (AccPlain ''note body command requires an update''), a)
      else
        with_session (NC_WorkspaceID cmd) unixMilli a (\<lambda>entry clock.
          bind_res (edit_body env yj newSnapshot newRevision newCheckpoint entry clock cmd a (db_notes db)) (\<lambda>notes.
          let db = db\<lparr>db_notes := notes\<rparr> in
          bind_res (in_payload (EncodeNoteBodyOperation \<lparr>NB_NoteID = NC_NoteID cmd, NB_CRDTUpdate = Some (NC_Update cmd), NB_Title = NC_Title cmd\<rparr>)) (\<lambda>payload.
          bind_res (writeOutboxOperation env newOp entry (ac_devicePrivate a) (NC_WorkspaceID cmd) (ac_DeviceID a) clock payload db) (\<lambda>db.
            on_store (AdvanceDeviceClock (ac_DeviceID a) clock) db)))))"

text \<open>
  Notebooks and tags change without an operation: the statement, then the clock, each committed
  on its own. A change that does not return is \<open>None\<close>.
\<close>

definition mutateWorkspace ::
  "ID \<Rightarrow> int \<Rightarrow> (HLC \<Rightarrow> note_db \<Rightarrow> (store_error + 'x \<times> note_db) option) \<Rightarrow> Account \<Rightarrow> note_db
   \<Rightarrow> ((account_error + 'x) \<times> note_db \<times> Account) option" where
  "mutateWorkspace workspaceID unixMilli apply_change a db =
     (case with_session workspaceID unixMilli a (\<lambda>_ clock. Inr clock) of
        (Inl e, a) \<Rightarrow> Some (Inl e, db, a)
      | (Inr clock, a) \<Rightarrow>
          map_option (\<lambda>r. case r of
              Inl e \<Rightarrow> (Inl (AccStore e), db, a)
            | Inr (x, db) \<Rightarrow>
                (case AdvanceDeviceClock (ac_DeviceID a) clock db of
                   Inl e \<Rightarrow> (Inl (AccStore e), db, a)
                 | Inr db \<Rightarrow> (Inr x, db, a))) (apply_change clock db))"

abbreviation no_result :: "(HLC \<Rightarrow> note_db \<Rightarrow> store_error + note_db) \<Rightarrow> HLC \<Rightarrow> note_db \<Rightarrow> (store_error + unit \<times> note_db) option" where
  "no_result f \<equiv> (\<lambda>clock db. Some (map_sum id (Pair ()) (f clock db)))"

definition Account_CreateNotebook where
  "Account_CreateNotebook newid workspaceID parentID name unixMilli =
     mutateWorkspace workspaceID unixMilli (\<lambda>clock db. Some (Store_CreateNotebook newid workspaceID parentID name clock db))"

definition Account_RenameNotebook where
  "Account_RenameNotebook workspaceID notebookID name unixMilli = mutateWorkspace workspaceID unixMilli (no_result (Store_RenameNotebook notebookID name))"

definition Account_MoveNotebook where
  "Account_MoveNotebook workspaceID notebookID newParentID unixMilli =
     mutateWorkspace workspaceID unixMilli (\<lambda>clock db. map_option (map_sum id (Pair ())) (Store_MoveNotebook notebookID newParentID clock db))"

definition Account_SetNotebookDeleted where
  "Account_SetNotebookDeleted workspaceID notebookID deleted unixMilli =
     mutateWorkspace workspaceID unixMilli (no_result (Store_SetNotebookDeleted notebookID deleted))"

definition Account_CreateTag where
  "Account_CreateTag newid workspaceID name unixMilli =
     mutateWorkspace workspaceID unixMilli (\<lambda>clock db. Some (Store_CreateTag newid workspaceID name clock db))"

definition Account_SetTagDeleted where
  "Account_SetTagDeleted workspaceID tagID deleted unixMilli = mutateWorkspace workspaceID unixMilli (no_result (Store_SetTagDeleted tagID deleted))"

definition verifyNoteInWorkspace :: "ID \<Rightarrow> ID \<Rightarrow> note_db \<Rightarrow> account_error + unit" where
  "verifyNoteInWorkspace workspaceID noteID db =
     bind_res (in_store (Store_GetNote noteID db)) (\<lambda>note.
       if Note_WorkspaceID note \<noteq> workspaceID then Inl (AccStore StoreWrongWorkspace) else Inr ())"

definition NoteDocumentState :: "crypto_env \<Rightarrow> 'd yjs \<Rightarrow> Account \<Rightarrow> ID \<Rightarrow> ID \<Rightarrow> note_db \<Rightarrow> account_error + bytes \<times> byte" where
  "NoteDocumentState env yj a workspaceID noteID db =
     bind_res (workspaceSession workspaceID a) (\<lambda>_.
     bind_res (verifyNoteInWorkspace workspaceID noteID db) (\<lambda>_.
     bind_res (loadNoteDocument env yj a workspaceID noteID db) (\<lambda>doc.
     bind_res (need ''encode note document state'' (yj_encode yj noteSnapshotFormat doc)) (\<lambda>state. Inr (state, noteSnapshotFormat)))))"

end
