(* ===== verification/Keybag.thy ===== *)
theory Keybag
  imports Sync_Processor
begin

text \<open>
  The keybag: the account's key pairs and workspace keys as bytes (\<^verbatim>\<open>core/account/keybag.go\<close>).
  The keybag is sealed by \<open>EncryptKeybag\<close> of \<open>Object_Encryption\<close>. A \<^verbatim>\<open>Secret\<close> is its bytes,
  \<open>None\<close> when nil or closed.
\<close>

section \<open>Records\<close>

abbreviation (input) workspaceKeyStateCurrent :: byte where "workspaceKeyStateCurrent \<equiv> 1"
abbreviation (input) workspaceKeyStateHistorical :: byte where "workspaceKeyStateHistorical \<equiv> 2"
abbreviation (input) workspaceKeyStateRetired :: byte where "workspaceKeyStateRetired \<equiv> 3"

definition workspaceKeyState_valid :: "byte \<Rightarrow> bool" where
  "workspaceKeyState_valid s \<longleftrightarrow> s = workspaceKeyStateCurrent \<or> s = workspaceKeyStateHistorical \<or> s = workspaceKeyStateRetired"

record keybagWorkspaceKey =
  wk_WorkspaceID :: ID
  wk_KeyID :: bytes
  wk_Key :: "bytes option"
  wk_State :: byte

record keybagPlaintext =
  kp_IdentityPublicKey :: bytes
  kp_IdentityPrivateKey :: "bytes option"
  kp_AuthorityPublicKey :: bytes
  kp_AuthorityPrivateKey :: "bytes option"
  kp_WorkspaceKeys :: "keybagWorkspaceKey list"

abbreviation (input) maxWorkspaceKeys :: nat where "maxWorkspaceKeys \<equiv> 4096"
abbreviation (input) workspaceKeyIDBytes :: nat where "workspaceKeyIDBytes \<equiv> 16"
abbreviation (input) workspaceKeyBytes :: nat where "workspaceKeyBytes \<equiv> 32"

definition keybagPayloadMagic :: bytes where
  "keybagPayloadMagic = str_bytes ''BRSTKBG1''"

abbreviation (input) keybagPayloadVersion :: byte where "keybagPayloadVersion \<equiv> 1"

section \<open>Length-prefixed fields\<close>

definition appendU32 :: "bytes \<Rightarrow> u32 \<Rightarrow> bytes" where
  "appendU32 dst value = dst @ be_bytes 4 value"

definition appendLP :: "bytes \<Rightarrow> bytes \<Rightarrow> bytes" where
  "appendLP dst value = appendU32 dst (word_of_nat (length value)) @ value"

definition appendSecretLP :: "bytes \<Rightarrow> bytes option \<Rightarrow> account_error + bytes" where
  "appendSecretLP dst secret =
     (case secret of None \<Rightarrow> Inl (AccCrypto ErrSecretClosed) | Some value \<Rightarrow> Inr (appendLP dst value))"

definition readU32 :: "bytes \<Rightarrow> account_error + u32 \<times> bytes" where
  "readU32 data = (if length data < 4 then Inl ErrInvalidKeybagPayload else Inr (be_word (take 4 data), drop 4 data))"

definition readLP :: "bytes \<Rightarrow> account_error + bytes \<times> bytes" where
  "readLP data =
     bind_res (readU32 data) (\<lambda>(l, data).
       if unat l > length data then Inl ErrInvalidKeybagPayload else Inr (take (unat l) data, drop (unat l) data))"

section \<open>Encoding\<close>

fun encode_workspace_keys :: "keybagWorkspaceKey list \<Rightarrow> bytes \<Rightarrow> account_error + bytes" where
  "encode_workspace_keys [] buffer = Inr buffer"
| "encode_workspace_keys (wk # wks) buffer =
     (if length (wk_KeyID wk) \<noteq> workspaceKeyIDBytes \<or> \<not> workspaceKeyState_valid (wk_State wk) then Inl ErrInvalidKeybagPayload
      else bind_res (appendSecretLP (appendLP (appendLP buffer (ID_Bytes (wk_WorkspaceID wk))) (wk_KeyID wk)) (wk_Key wk)) (\<lambda>buffer.
             encode_workspace_keys wks (buffer @ [wk_State wk])))"

definition encodeKeybagPlaintext :: "crypto_env \<Rightarrow> keybagPlaintext \<Rightarrow> account_error + bytes" where
  "encodeKeybagPlaintext env payload =
     (if length (kp_WorkspaceKeys payload) > maxWorkspaceKeys then Inl ErrInvalidKeybagPayload
      else
        let buffer = keybagPayloadMagic @ [keybagPayloadVersion];
            buffer = appendLP buffer (kp_IdentityPublicKey payload);
            buffer = appendLP buffer (kp_AuthorityPublicKey payload)
        in bind_res (appendSecretLP buffer (kp_IdentityPrivateKey payload)) (\<lambda>buffer.
           bind_res (appendSecretLP buffer (kp_AuthorityPrivateKey payload)) (\<lambda>buffer.
           bind_res (encode_workspace_keys (kp_WorkspaceKeys payload)
                       (appendU32 buffer (word_of_nat (length (kp_WorkspaceKeys payload))))) (\<lambda>buffer.
             in_crypto (TakeSecret env buffer)))))"

section \<open>Decoding\<close>

definition in_id :: "id_error + 'a \<Rightarrow> account_error + 'a" where
  "in_id r = map_sum AccID id r"

definition decode_workspace_key :: "crypto_env \<Rightarrow> bytes \<Rightarrow> account_error + keybagWorkspaceKey \<times> bytes" where
  "decode_workspace_key env data =
     bind_res (readLP data) (\<lambda>(workspaceIDBytes, data).
     bind_res (readLP data) (\<lambda>(keyID, data).
     bind_res (readLP data) (\<lambda>(keyBytes, data).
       if length data < 1 then Inl ErrInvalidKeybagPayload
       else
         let state = hd data; data = tl data in
         bind_res (in_id (ParseID workspaceIDBytes)) (\<lambda>workspaceID.
         if length keyID \<noteq> workspaceKeyIDBytes \<or> length keyBytes \<noteq> workspaceKeyBytes \<or> \<not> workspaceKeyState_valid state
         then Inl ErrInvalidKeybagPayload
         else bind_res (in_crypto (TakeSecret env keyBytes)) (\<lambda>keySecret.
           Inr (\<lparr>wk_WorkspaceID = workspaceID, wk_KeyID = keyID, wk_Key = Some keySecret, wk_State = state\<rparr>, data))))))"

fun decode_workspace_keys :: "crypto_env \<Rightarrow> nat \<Rightarrow> bytes \<Rightarrow> account_error + keybagWorkspaceKey list \<times> bytes" where
  "decode_workspace_keys env 0 data = Inr ([], data)"
| "decode_workspace_keys env (Suc n) data =
     bind_res (decode_workspace_key env data) (\<lambda>(wk, data).
     bind_res (decode_workspace_keys env n data) (\<lambda>(wks, data). Inr (wk # wks, data)))"

definition decodeKeybagPlaintext :: "crypto_env \<Rightarrow> bytes option \<Rightarrow> account_error + keybagPlaintext" where
  "decodeKeybagPlaintext env secret =
     (case secret of
        None \<Rightarrow> Inl (AccCrypto ErrSecretClosed)
      | Some data \<Rightarrow>
          if length data < length keybagPayloadMagic + 1 \<or> take (length keybagPayloadMagic) data \<noteq> keybagPayloadMagic
          then Inl ErrInvalidKeybagPayload
          else let data = drop (length keybagPayloadMagic) data in
          if hd data \<noteq> keybagPayloadVersion then Inl ErrInvalidKeybagPayload
          else let data = tl data in
            bind_res (readLP data) (\<lambda>(identityPub, data).
            bind_res (readLP data) (\<lambda>(authorityPub, data).
            bind_res (readLP data) (\<lambda>(identityPriv, data).
            bind_res (readLP data) (\<lambda>(authorityPriv, data).
            if length identityPub \<noteq> 32 \<or> length identityPriv \<noteq> 32 then Inl ErrInvalidKeybagPayload
            else if length authorityPub \<noteq> 32 \<or> length authorityPriv \<noteq> 64 then Inl ErrInvalidKeybagPayload
            else
              bind_res (in_crypto (TakeSecret env identityPriv)) (\<lambda>identityPrivate.
              bind_res (in_crypto (TakeSecret env authorityPriv)) (\<lambda>authorityPrivate.
              bind_res (readU32 data) (\<lambda>(count, data).
              if unat count > maxWorkspaceKeys then Inl ErrInvalidKeybagPayload
              else
                bind_res (decode_workspace_keys env (unat count) data) (\<lambda>(workspaceKeys, data).
                if length data \<noteq> 0 then Inl ErrInvalidKeybagPayload
                else Inr \<lparr>kp_IdentityPublicKey = identityPub, kp_IdentityPrivateKey = Some identityPrivate,
                          kp_AuthorityPublicKey = authorityPub, kp_AuthorityPrivateKey = Some authorityPrivate,
                          kp_WorkspaceKeys = workspaceKeys\<rparr>)))))))))"

section \<open>The decoder accepts what the encoder writes\<close>

text \<open>A payload that the decoder can produce; \<open>fits\<close> is the check of \<open>TakeSecret\<close> on a fresh copy.\<close>

definition fits :: "crypto_env \<Rightarrow> bytes \<Rightarrow> bool" where
  "fits env value \<longleftrightarrow> value \<noteq> [] \<and> ce_capacity env value \<le> MaxSecretBytes"

definition workspace_key_wf :: "crypto_env \<Rightarrow> keybagWorkspaceKey \<Rightarrow> bool" where
  "workspace_key_wf env wk \<longleftrightarrow> valid_id (wk_WorkspaceID wk) \<and> length (wk_KeyID wk) = workspaceKeyIDBytes \<and>
     workspaceKeyState_valid (wk_State wk) \<and>
     (case wk_Key wk of None \<Rightarrow> False | Some key \<Rightarrow> length key = workspaceKeyBytes \<and> fits env key)"

definition keybag_wf :: "crypto_env \<Rightarrow> keybagPlaintext \<Rightarrow> bool" where
  "keybag_wf env p \<longleftrightarrow> length (kp_IdentityPublicKey p) = 32 \<and> length (kp_AuthorityPublicKey p) = 32 \<and>
     (case kp_IdentityPrivateKey p of None \<Rightarrow> False | Some key \<Rightarrow> length key = 32 \<and> fits env key) \<and>
     (case kp_AuthorityPrivateKey p of None \<Rightarrow> False | Some key \<Rightarrow> length key = 64 \<and> fits env key) \<and>
     length (kp_WorkspaceKeys p) \<le> maxWorkspaceKeys \<and> list_all (workspace_key_wf env) (kp_WorkspaceKeys p)"

lemma appendLP_append: "NO_MATCH [] dst \<Longrightarrow> appendLP dst v = dst @ appendLP [] v"
  by (simp add: appendLP_def appendU32_def)

lemma appendU32_append: "NO_MATCH [] dst \<Longrightarrow> appendU32 dst v = dst @ appendU32 [] v"
  by (simp add: appendU32_def)

lemma readU32_iff: "readU32 data = Inr (v, rest) \<longleftrightarrow> data = appendU32 [] v @ rest"
proof
  assume "readU32 data = Inr (v, rest)"
  then have l: "4 \<le> length data" and v: "v = be_word (take 4 data)" "rest = drop 4 data"
    by (auto simp: readU32_def split: if_splits)
  have "be_bytes 4 (be_word (take 4 data) :: u32) = take 4 data" using l by (intro be_bytes_be_word) auto
  then show "data = appendU32 [] v @ rest" by (simp add: appendU32_def v)
next
  assume "data = appendU32 [] v @ rest"
  moreover have "unat v < 256 ^ 4" using unsigned_less [of v] by simp
  then have "be_word (be_bytes 4 v) = v" by (simp add: be_word_be_bytes)
  ultimately show "readU32 data = Inr (v, rest)" by (simp add: readU32_def appendU32_def)
qed

lemma readLP_iff: "readLP data = Inr (v, rest) \<longleftrightarrow> length v < 2 ^ 32 \<and> data = appendLP [] v @ rest"
proof
  assume "readLP data = Inr (v, rest)"
  then obtain l data' where r: "readU32 data = Inr (l, data')" and l: "unat l \<le> length data'" "v = take (unat l) data'" "rest = drop (unat l) data'"
    by (auto simp: readLP_def err_simps split: if_splits)
  have n: "length v = unat l" using l by simp
  moreover have "unat l < 2 ^ 32" using unsigned_less [of l] by simp
  moreover have "data' = v @ rest" by (simp add: l)
  ultimately show "length v < 2 ^ 32 \<and> data = appendLP [] v @ rest"
    using r by (simp add: readU32_iff appendLP_def n)
next
  assume a: "length v < 2 ^ 32 \<and> data = appendLP [] v @ rest"
  then have "readU32 data = Inr (word_of_nat (length v), v @ rest)" by (simp add: readU32_iff appendLP_def)
  moreover have "unat (word_of_nat (length v) :: u32) = length v" using a by (simp add: unat_of_nat)
  ultimately show "readLP data = Inr (v, rest)" by (simp add: readLP_def)
qed

text \<open>The bytes of one key and of a payload.\<close>

definition key_bytes :: "keybagWorkspaceKey \<Rightarrow> bytes" where
  "key_bytes wk = appendLP [] (ID_Bytes (wk_WorkspaceID wk)) @ appendLP [] (wk_KeyID wk) @ appendLP [] (the (wk_Key wk)) @ [wk_State wk]"

definition payload_bytes :: "keybagPlaintext \<Rightarrow> bytes" where
  "payload_bytes p = keybagPayloadMagic @ [keybagPayloadVersion] @ appendLP [] (kp_IdentityPublicKey p) @
     appendLP [] (kp_AuthorityPublicKey p) @ appendLP [] (the (kp_IdentityPrivateKey p)) @ appendLP [] (the (kp_AuthorityPrivateKey p)) @
     appendU32 [] (word_of_nat (length (kp_WorkspaceKeys p))) @ concat (map key_bytes (kp_WorkspaceKeys p))"

lemma map_sum_Inr_iff [simp]: "map_sum f id r = Inr x \<longleftrightarrow> r = Inr x"
  by (cases r) auto

lemma TakeSecret_iff: "TakeSecret env value = Inr s \<longleftrightarrow> fits env value \<and> s = value"
  by (auto simp: TakeSecret_def fits_def)

lemma encode_workspace_keys_iff:
  "encode_workspace_keys wks buffer = Inr out \<longleftrightarrow>
     list_all (\<lambda>wk. length (wk_KeyID wk) = workspaceKeyIDBytes \<and> workspaceKeyState_valid (wk_State wk) \<and> wk_Key wk \<noteq> None) wks \<and>
     out = buffer @ concat (map key_bytes wks)"
proof (induction wks arbitrary: buffer)
  case Nil
  show ?case by auto
next
  case (Cons wk wks)
  show ?case
    by (cases "wk_Key wk") (auto simp: appendSecretLP_def Cons.IH key_bytes_def appendLP_append split: if_splits)
qed

lemma encodeKeybagPlaintext_iff:
  "encodeKeybagPlaintext env p = Inr data \<longleftrightarrow>
     length (kp_WorkspaceKeys p) \<le> maxWorkspaceKeys \<and> kp_IdentityPrivateKey p \<noteq> None \<and> kp_AuthorityPrivateKey p \<noteq> None \<and>
     list_all (\<lambda>wk. length (wk_KeyID wk) = workspaceKeyIDBytes \<and> workspaceKeyState_valid (wk_State wk) \<and> wk_Key wk \<noteq> None) (kp_WorkspaceKeys p) \<and>
     fits env data \<and> data = payload_bytes p"
  by (cases "kp_IdentityPrivateKey p"; cases "kp_AuthorityPrivateKey p")
    (auto simp: encodeKeybagPlaintext_def appendSecretLP_def Let_def err_simps encode_workspace_keys_iff TakeSecret_iff map_sum_Inr_iff
      payload_bytes_def appendLP_append appendU32_append)

lemma decode_workspace_key_iff:
  "decode_workspace_key env data = Inr (wk, rest) \<longleftrightarrow> workspace_key_wf env wk \<and> data = key_bytes wk @ rest"
proof
  assume "decode_workspace_key env data = Inr (wk, rest)"
  then show "workspace_key_wf env wk \<and> data = key_bytes wk @ rest"
    by (auto simp: decode_workspace_key_def err_simps in_id_def TakeSecret_iff ParseID_Inr_iff readLP_iff Let_def workspace_key_wf_def key_bytes_def neq_Nil_conv
        split: if_splits)
next
  assume "workspace_key_wf env wk \<and> data = key_bytes wk @ rest"
  then obtain key where k: "wk_Key wk = Some key" "length key = 32" "fits env key"
    and v: "valid_id (wk_WorkspaceID wk)" "length (wk_KeyID wk) = 16" "workspaceKeyState_valid (wk_State wk)"
    and d: "data = appendLP [] (ID_Bytes (wk_WorkspaceID wk)) @ appendLP [] (wk_KeyID wk) @ appendLP [] key @ wk_State wk # rest"
    by (auto simp: workspace_key_wf_def key_bytes_def split: option.splits)
  have r: "readLP (appendLP [] x @ y) = Inr (x, y)" if "length x \<le> 32" for x y
    using that by (simp add: readLP_iff)
  have "TakeSecret env key = Inr key" using k by (simp add: TakeSecret_iff)
  then show "decode_workspace_key env data = Inr (wk, rest)"
    using k v by (simp add: decode_workspace_key_def d r in_id_def Let_def)
qed

lemma decode_workspace_keys_iff:
  "decode_workspace_keys env n data = Inr (wks, rest) \<longleftrightarrow>
     length wks = n \<and> list_all (workspace_key_wf env) wks \<and> data = concat (map key_bytes wks) @ rest"
proof (induction n arbitrary: data wks)
  case 0
  show ?case by auto
next
  case (Suc n)
  show ?case
    by (cases wks) (auto simp: err_simps Suc.IH decode_workspace_key_iff)
qed

lemma keybag_lengths:
  "length (appendLP [] v) = 4 + length v" "length keybagPayloadMagic = 8"
  by (simp_all add: appendLP_def appendU32_def keybagPayloadMagic_def)

lemma decode_payload_bytes:
  assumes "keybag_wf env p"
  shows "decodeKeybagPlaintext env (Some (payload_bytes p)) = Inr p"
proof -
  obtain ip ap where k: "kp_IdentityPrivateKey p = Some ip" "kp_AuthorityPrivateKey p = Some ap" "length ip = 32" "length ap = 64" "fits env ip" "fits env ap"
    and l: "length (kp_IdentityPublicKey p) = 32" "length (kp_AuthorityPublicKey p) = 32"
    and w: "length (kp_WorkspaceKeys p) \<le> 4096" "list_all (workspace_key_wf env) (kp_WorkspaceKeys p)"
    using assms by (auto simp: keybag_wf_def split: option.splits)
  have r: "readLP (appendLP [] x @ y) = Inr (x, y)" if "length x \<le> 64" for x y
    using that by (simp add: readLP_iff)
  have u: "readU32 (appendU32 [] v @ y) = Inr (v, y)" for v y by (simp add: readU32_iff)
  have n: "unat (word_of_nat (length (kp_WorkspaceKeys p)) :: u32) = length (kp_WorkspaceKeys p)"
    using w(1) by (simp add: unat_of_nat)
  have d: "decode_workspace_keys env (length (kp_WorkspaceKeys p)) (concat (map key_bytes (kp_WorkspaceKeys p))) = Inr (kp_WorkspaceKeys p, [])"
    using w(2) by (simp add: decode_workspace_keys_iff)
  have t: "TakeSecret env ip = Inr ip" "TakeSecret env ap = Inr ap" using k by (simp_all add: TakeSecret_iff)
  show ?thesis
    using w(1) l k by (simp add: decodeKeybagPlaintext_def payload_bytes_def Let_def keybag_lengths r u t n d)
qed

lemma decode_payload_only:
  assumes "decodeKeybagPlaintext env (Some data) = Inr p"
  shows "keybag_wf env p \<and> data = payload_bytes p"
proof -
  let ?m = "length keybagPayloadMagic"
  from assms obtain d0 ip d1 ap d2 ip2 d3 ap2 d4 count d5 where d: "take ?m data = keybagPayloadMagic" "?m + 1 \<le> length data" "hd (drop ?m data) = 1" "d0 = tl (drop ?m data)"
    and r: "readLP d0 = Inr (ip, d1)" "readLP d1 = Inr (ap, d2)" "readLP d2 = Inr (ip2, d3)" "readLP d3 = Inr (ap2, d4)"
    and c: "readU32 d4 = Inr (count, d5)" "unat count \<le> 4096" "decode_workspace_keys env (unat count) d5 = Inr (kp_WorkspaceKeys p, [])"
    and f: "length ip = 32" "length ip2 = 32" "length ap = 32" "length ap2 = 64" "fits env ip2" "fits env ap2"
    and p: "kp_IdentityPublicKey p = ip" "kp_AuthorityPublicKey p = ap" "kp_IdentityPrivateKey p = Some ip2" "kp_AuthorityPrivateKey p = Some ap2"
    by (auto simp: decodeKeybagPlaintext_def Let_def err_simps TakeSecret_iff not_less split: if_splits)
  have "drop ?m data \<noteq> []" using d(2) by auto
  then have "drop ?m data = 1 # d0" using d(3,4) by (metis list.collapse)
  then have data: "data = keybagPayloadMagic @ 1 # d0" using d(1) by (metis append_take_drop_id)
  have n: "(word_of_nat (length (kp_WorkspaceKeys p)) :: u32) = count"
    using c(3) by (auto simp: decode_workspace_keys_iff)
  show ?thesis
    using r c f n by (auto simp: readLP_iff readU32_iff decode_workspace_keys_iff keybag_wf_def payload_bytes_def data p)
qed

text \<open>
  C11. The keybag is read back as it was written, and nothing else is accepted: the decoder returns a payload
  exactly when the bytes are what the encoder writes for it and the payload has keys of the right sizes, valid
  identifiers and states, and at most 4096 workspace keys.
\<close>

theorem keybag_codec_exact:
  assumes "fits env data"
  shows "decodeKeybagPlaintext env (Some data) = Inr p \<longleftrightarrow> encodeKeybagPlaintext env p = Inr data \<and> keybag_wf env p"
proof
  assume "decodeKeybagPlaintext env (Some data) = Inr p"
  from decode_payload_only [OF this] show "encodeKeybagPlaintext env p = Inr data \<and> keybag_wf env p"
    using assms by (auto simp: encodeKeybagPlaintext_iff keybag_wf_def workspace_key_wf_def list_all_iff split: option.splits)
next
  assume "encodeKeybagPlaintext env p = Inr data \<and> keybag_wf env p"
  then show "decodeKeybagPlaintext env (Some data) = Inr p" by (auto simp: encodeKeybagPlaintext_iff decode_payload_bytes)
qed

definition demo_keybag :: keybagPlaintext where
  "demo_keybag = \<lparr>kp_IdentityPublicKey = replicate 32 4, kp_IdentityPrivateKey = Some (replicate 32 4), kp_AuthorityPublicKey = replicate 32 5,
     kp_AuthorityPrivateKey = Some (replicate 64 5),
     kp_WorkspaceKeys = [\<lparr>wk_WorkspaceID = demo_id 2, wk_KeyID = replicate 16 3, wk_Key = Some (replicate 32 7), wk_State = 1\<rparr>]\<rparr>"

theorem keybag_codec_exact_witness:
  "encodeKeybagPlaintext demo_crypto demo_keybag = Inr (payload_bytes demo_keybag) \<and>
   decodeKeybagPlaintext demo_crypto (Some (payload_bytes demo_keybag)) = Inr demo_keybag"
proof -
  have f: "fits demo_crypto (payload_bytes demo_keybag)"
    by (simp add: fits_def demo_crypto_def payload_bytes_def demo_keybag_def keybag_lengths keybagPayloadMagic_def MaxSecretBytes_def key_bytes_def appendU32_def str_bytes_def)
  have "encodeKeybagPlaintext demo_crypto demo_keybag = Inr (payload_bytes demo_keybag)"
    using f by (simp add: encodeKeybagPlaintext_iff demo_keybag_def workspaceKeyState_valid_def)
  moreover have "keybag_wf demo_crypto demo_keybag"
    by (simp add: keybag_wf_def demo_keybag_def workspace_key_wf_def workspaceKeyState_valid_def fits_def demo_crypto_def MaxSecretBytes_def)
  ultimately show ?thesis using keybag_codec_exact [OF f, of demo_keybag] by simp
qed

end
