(* ===== verification/Account_Keys.thy ===== *)
theory Account_Keys
  imports Keybag "HOL-Library.Multiset" "HOL-Library.List_Lexorder" "HOL-Library.Char_ord"
begin

text \<open>
  The keys of an account: creation and unlocking (\<^verbatim>\<open>core/account/account.go\<close>), granting a workspace
  (\<^verbatim>\<open>sharing.go\<close>), rotating its key (\<^verbatim>\<open>keyrotation.go\<close>), signed revocations (\<^verbatim>\<open>revocation.go\<close>) and the
  sealed key envelopes of \<^verbatim>\<open>core/crypto/identity.go\<close>. The NaCl box is the record \<open>box_env\<close>; the draws of
  the random source, the results of Argon2id and of the platform key store are arguments. The key
  tables are the record \<open>key_db\<close>, which contains the note tables of the same database. Go's iteration over a
  map visits its keys in an order that the language leaves open: that order is the argument \<open>visit\<close>.
\<close>

section \<open>Sealed key envelopes\<close>

record box_env =
  bx_public :: "bytes \<Rightarrow> bytes"
  bx_seal :: "bytes \<Rightarrow> bytes \<Rightarrow> bytes \<Rightarrow> bytes"
  bx_open :: "bytes \<Rightarrow> bytes \<Rightarrow> bytes \<Rightarrow> bytes option"

abbreviation (input) AnonymousOverhead :: nat where "AnonymousOverhead \<equiv> 48"
abbreviation (input) MaxWorkspaceKeyEnvelopePlaintextBytes :: nat where "MaxWorkspaceKeyEnvelopePlaintextBytes \<equiv> 65536"

text \<open>What the documentation of \<^verbatim>\<open>nacl/box\<close> promises: opening inverts sealing, and sealing adds 48 bytes.\<close>

definition box_laws :: "box_env \<Rightarrow> bool" where
  "box_laws bx \<longleftrightarrow>
     (\<forall>private. length private = 32 \<longrightarrow> length (bx_public bx private) = 32) \<and>
     (\<forall>private message ephemeral. length private = 32 \<longrightarrow>
        bx_open bx (bx_public bx private) private (bx_seal bx (bx_public bx private) message ephemeral) = Some message) \<and>
     (\<forall>public message ephemeral. length (bx_seal bx public message ephemeral) = length message + AnonymousOverhead)"

definition generateX25519Identity :: "crypto_env \<Rightarrow> box_env \<Rightarrow> bytes option \<Rightarrow> crypto_error + bytes \<times> bytes" where
  "generateX25519Identity env bx random =
     (case random of
        None \<Rightarrow> Inl ErrRandomSource
      | Some privateKey \<Rightarrow>
          if length privateKey \<noteq> 32 then Inl ErrRandomSource
          else bind_res (TakeSecret env privateKey) (\<lambda>private. Inr (bx_public bx privateKey, private)))"

definition generateEd25519Key :: "crypto_env \<Rightarrow> bytes option \<Rightarrow> crypto_error + bytes \<times> bytes" where
  "generateEd25519Key env random =
     (case random of
        None \<Rightarrow> Inl ErrRandomSource
      | Some privateKey \<Rightarrow>
          if length privateKey \<noteq> 64 then Inl ErrRandomSource
          else bind_res (TakeSecret env privateKey) (\<lambda>private. Inr (ce_public env privateKey, private)))"

definition x25519PublicKey :: "bytes \<Rightarrow> crypto_error + bytes" where
  "x25519PublicKey value = (if length value \<noteq> 32 then Inl ErrInvalidPublicKey else Inr value)"

definition SealWorkspaceKeyEnvelope ::
  "box_env \<Rightarrow> string \<Rightarrow> bytes \<Rightarrow> bytes option \<Rightarrow> bytes option \<Rightarrow> crypto_error + bytes" where
  "SealWorkspaceKeyEnvelope bx profile recipientPublicKey plaintext random =
     (if profile \<noteq> CryptoProfileV1 then Inl ErrUnsupportedCryptoProfile
      else bind_res (x25519PublicKey recipientPublicKey) (\<lambda>recipient.
        case plaintext of
          None \<Rightarrow> Inl ErrSecretClosed
        | Some value \<Rightarrow>
            if length value = 0 \<or> length value > MaxWorkspaceKeyEnvelopePlaintextBytes then Inl ErrMalformedEnvelope
            else case random of None \<Rightarrow> Inl ErrRandomSource | Some ephemeral \<Rightarrow> Inr (bx_seal bx recipient value ephemeral)))"

definition OpenWorkspaceKeyEnvelope ::
  "crypto_env \<Rightarrow> box_env \<Rightarrow> string \<Rightarrow> bytes \<Rightarrow> bytes option \<Rightarrow> bytes \<Rightarrow> crypto_error + bytes" where
  "OpenWorkspaceKeyEnvelope env bx profile recipientPublicKey recipientPrivateKey sealed =
     (if profile \<noteq> CryptoProfileV1 then Inl ErrUnsupportedCryptoProfile
      else bind_res (x25519PublicKey recipientPublicKey) (\<lambda>recipientPublic.
        case recipientPrivateKey of
          None \<Rightarrow> Inl ErrSecretClosed
        | Some privateBytes \<Rightarrow>
            if length sealed \<le> AnonymousOverhead \<or> length sealed > MaxWorkspaceKeyEnvelopePlaintextBytes + AnonymousOverhead
            then Inl ErrMalformedEnvelope
            else if length privateBytes \<noteq> 32 then Inl ErrInvalidPrivateKey
            else case bx_open bx recipientPublic privateBytes sealed of
                   None \<Rightarrow> Inl ErrEnvelopeAuthentication
                 | Some plaintext \<Rightarrow> TakeSecret env plaintext))"

section \<open>The key tables\<close>

record account_row =
  ar_id :: ID
  ar_keybagVersion :: u64
  ar_keybagNonce :: bytes
  ar_keybagCiphertext :: bytes
  ar_kdfSalt :: bytes
  ar_kdfMemoryKiB :: u32
  ar_kdfTimeCost :: u32
  ar_kdfParallelism :: u32

record localDeviceRow =
  ld_id :: ID
  ld_publicKey :: bytes
  ld_signingKeyEnvelope :: bytes

record workspace_key_row =
  kr_key :: bytes
  kr_workspace :: ID
  kr_state :: byte
  kr_activated :: HLC

record key_db =
  kd_accounts :: "account_row list"
  kd_local :: "localDeviceRow option"
  kd_keys :: "workspace_key_row list"
  kd_notes :: note_db

definition loadAccountRow :: "key_db \<Rightarrow> account_error + account_row" where
  "loadAccountRow db =
     (case kd_accounts db of
        [] \<Rightarrow> Inl ErrNoLocalAccount
      | row # _ \<Rightarrow> bind_res (in_id (ParseID (ID_Bytes (ar_id row)))) (\<lambda>_. Inr row))"

definition loadLocalDeviceRow :: "key_db \<Rightarrow> account_error + localDeviceRow" where
  "loadLocalDeviceRow db =
     (case kd_local db of
        None \<Rightarrow> Inl ErrNoLocalAccount
      | Some row \<Rightarrow> bind_res (in_id (ParseID (ID_Bytes (ld_id row)))) (\<lambda>_. Inr row))"

text \<open>\<^verbatim>\<open>INSERT INTO workspace_keys\<close> with its primary key, its reference and the index that allows one current key per workspace.\<close>

definition insert_workspace_key :: "workspace_key_row \<Rightarrow> key_db \<Rightarrow> account_error + key_db" where
  "insert_workspace_key row db =
     (if list_ex (\<lambda>r. kr_key r = kr_key row) (kd_keys db) \<or> kr_workspace row \<notin> nd_workspaces (kd_notes db) \<or>
         (kr_state row = workspaceKeyStateCurrent \<and>
          list_ex (\<lambda>r. kr_workspace r = kr_workspace row \<and> kr_state r = workspaceKeyStateCurrent) (kd_keys db))
      then Inl (AccStore StoreSql)
      else Inr (db\<lparr>kd_keys := kd_keys db @ [row]\<rparr>))"

definition row_kdf :: "account_row \<Rightarrow> Argon2idParams" where
  "row_kdf row = \<lparr>KDF_CryptoProfile = CryptoProfileV1, KDF_Algorithm = ''argon2id'', KDF_Salt = ar_kdfSalt row, KDF_MemoryKiB = ar_kdfMemoryKiB row,
     KDF_TimeCost = ar_kdfTimeCost row, KDF_Parallelism = ar_kdfParallelism row, KDF_DerivedKeyBytes = 32\<rparr>"

definition NewKeybagHeader :: "bytes \<Rightarrow> u64 \<Rightarrow> Argon2idParams \<Rightarrow> crypto_error + KeybagHeader" where
  "NewKeybagHeader accountID keybagVersion params =
     (let header = \<lparr>KB_Magic = str_bytes ''BRSTKDF1'', KB_FormatVersion = 1, KB_CryptoProfile = CryptoProfileV1, KB_AccountID = accountID,
                    KB_KeybagVersion = keybagVersion, KB_KDF = params\<rparr>
      in bind_res (KeybagHeader_validate header) (\<lambda>_. Inr header))"

section \<open>Writing the keybag\<close>

record keybagIdentity =
  ki_IdentityPublicKey :: bytes
  ki_IdentityPrivateKey :: "bytes option"
  ki_AuthorityPublicKey :: bytes
  ki_AuthorityPrivateKey :: "bytes option"

definition reencryptKeybag ::
  "crypto_env \<Rightarrow> bytes option \<Rightarrow> bytes option \<Rightarrow> keybagIdentity \<Rightarrow> ID \<Rightarrow> keybagWorkspaceKey list \<Rightarrow> key_db \<Rightarrow> account_error + key_db" where
  "reencryptKeybag env random rootKey identity accountID workspaceKeys db =
     (case find (\<lambda>r. ar_id r = accountID) (kd_accounts db) of
        None \<Rightarrow> Inl (AccStore StoreSql)
      | Some row \<Rightarrow>
          bind_res (encodeKeybagPlaintext env
            \<lparr>kp_IdentityPublicKey = ki_IdentityPublicKey identity, kp_IdentityPrivateKey = ki_IdentityPrivateKey identity,
             kp_AuthorityPublicKey = ki_AuthorityPublicKey identity, kp_AuthorityPrivateKey = ki_AuthorityPrivateKey identity,
             kp_WorkspaceKeys = workspaceKeys\<rparr>) (\<lambda>payloadSecret.
          bind_res (in_crypto (NewKeybagHeader (ID_Bytes accountID) (ar_keybagVersion row) (row_kdf row))) (\<lambda>header.
          bind_res (in_crypto (EncryptKeybag env rootKey header (Some payloadSecret) random)) (\<lambda>encrypted.
            Inr (db\<lparr>kd_accounts := map (\<lambda>r. if ar_id r = accountID
                      then r\<lparr>ar_keybagNonce := EK_Nonce encrypted, ar_keybagCiphertext := EK_Ciphertext encrypted\<rparr> else r) (kd_accounts db)\<rparr>)))))"

definition persistNewWorkspaceKey ::
  "crypto_env \<Rightarrow> bytes option \<Rightarrow> bytes option \<Rightarrow> keybagIdentity \<Rightarrow> ID \<Rightarrow> ID \<Rightarrow> HLC \<Rightarrow> keybagWorkspaceKey list \<Rightarrow> keybagWorkspaceKey \<Rightarrow> key_db
   \<Rightarrow> account_error + key_db" where
  "persistNewWorkspaceKey env random rootKey identity accountID workspaceID clock existingKeys newKey db =
     bind_res (insert_workspace_key \<lparr>kr_key = wk_KeyID newKey, kr_workspace = workspaceID, kr_state = wk_State newKey, kr_activated = clock\<rparr>
       (db\<lparr>kd_notes := (kd_notes db)\<lparr>nd_workspaces := insert workspaceID (nd_workspaces (kd_notes db))\<rparr>\<rparr>))
       (reencryptKeybag env random rootKey identity accountID (existingKeys @ [newKey]))"

definition persistWorkspaceKeyRotation ::
  "crypto_env \<Rightarrow> bytes option \<Rightarrow> bytes option \<Rightarrow> keybagIdentity \<Rightarrow> ID \<Rightarrow> ID \<Rightarrow> HLC \<Rightarrow> bytes \<Rightarrow> keybagWorkspaceKey list \<Rightarrow> keybagWorkspaceKey \<Rightarrow> key_db
   \<Rightarrow> account_error + key_db" where
  "persistWorkspaceKeyRotation env random rootKey identity accountID workspaceID clock oldKeyID existingKeys newKey db =
     bind_res (insert_workspace_key \<lparr>kr_key = wk_KeyID newKey, kr_workspace = workspaceID, kr_state = wk_State newKey, kr_activated = clock\<rparr>
       (db\<lparr>kd_keys := map (\<lambda>r. if kr_workspace r = workspaceID \<and> kr_key r = oldKeyID then r\<lparr>kr_state := workspaceKeyStateHistorical\<rparr> else r)
              (kd_keys db)\<rparr>))
       (reencryptKeybag env random rootKey identity accountID (existingKeys @ [newKey]))"

definition keybag_entry :: "ID \<Rightarrow> workspaceKeyEntry \<Rightarrow> keybagWorkspaceKey" where
  "keybag_entry workspaceID entry = \<lparr>wk_WorkspaceID = workspaceID, wk_KeyID = ke_KeyID entry, wk_Key = ke_Key entry, wk_State = ke_State entry\<rparr>"

definition snapshotKeybagWorkspaceKeys :: "ID list \<times> ID list \<Rightarrow> Account \<Rightarrow> keybagWorkspaceKey list" where
  "snapshotKeybagWorkspaceKeys visit a =
     concat (map (\<lambda>w. case ac_workspaceKeys a w of None \<Rightarrow> [] | Some entry \<Rightarrow> [keybag_entry w entry]) (fst visit)) @
     concat (map (\<lambda>w. map (keybag_entry w) (ac_historicalWorkspaceKeys a w)) (snd visit))"

definition account_identity :: "Account \<Rightarrow> keybagIdentity" where
  "account_identity a = \<lparr>ki_IdentityPublicKey = ac_IdentityPublicKey a, ki_IdentityPrivateKey = ac_identityPrivate a,
     ki_AuthorityPublicKey = ac_AuthorityPublicKey a, ki_AuthorityPrivateKey = ac_authorityPrivate a\<rparr>"

definition bytesEqual :: "bytes \<Rightarrow> bytes \<Rightarrow> bool" where
  "bytesEqual a b \<longleftrightarrow> length a = length b \<and> list_all (\<lambda>i. a ! i = b ! i) [0..<length a]"

section \<open>Sharing a workspace\<close>

record ShareInvitation =
  si_WorkspaceID :: ID
  si_RecipientID :: ID
  si_KeyID :: bytes
  si_Envelope :: bytes
  si_Signature :: bytes

definition SignatureDomainMembership :: string where
  "SignatureDomainMembership = ''beresta.membership.signature.v1''"

definition membershipSignatureInput :: "ID \<Rightarrow> ID \<Rightarrow> bytes \<Rightarrow> bytes" where
  "membershipSignatureInput workspaceID recipientID keyID =
     appendLP (appendLP (appendLP [] (ID_Bytes workspaceID)) (ID_Bytes recipientID)) keyID"

definition ShareWorkspace ::
  "crypto_env \<Rightarrow> box_env \<Rightarrow> bytes option \<Rightarrow> ID \<Rightarrow> ID \<Rightarrow> bytes \<Rightarrow> Account \<Rightarrow> account_error + ShareInvitation" where
  "ShareWorkspace env bx random workspaceID recipientID recipientIdentityPublicKey a =
     (if ID_Validate recipientID \<noteq> Inr () then Inl (AccPlain ''account: invalid recipient'')
      else if ac_locked a then Inl ErrAccountLocked
      else case ac_workspaceKeys a workspaceID of
             None \<Rightarrow> Inl ErrUnknownWorkspace
           | Some entry \<Rightarrow>
               if ke_State entry \<noteq> workspaceKeyStateCurrent then Inl (AccPlain ''account: only the current workspace key can be shared'')
               else
                 bind_res (in_crypto (SealWorkspaceKeyEnvelope bx CryptoProfileV1 recipientIdentityPublicKey (ke_Key entry) random)) (\<lambda>envelope.
                 bind_res (in_crypto (SignCanonical (ce_sign env) CryptoProfileV1 (ac_authorityPrivate a) SignatureDomainMembership
                   (membershipSignatureInput workspaceID recipientID (ke_KeyID entry)))) (\<lambda>signature.
                   Inr \<lparr>si_WorkspaceID = workspaceID, si_RecipientID = recipientID, si_KeyID = ke_KeyID entry, si_Envelope = envelope,
                        si_Signature = signature\<rparr>)))"

text \<open>The part of \<^verbatim>\<open>AcceptWorkspaceShare\<close> up to the second lock; \<open>Inr None\<close> when the share was accepted before.\<close>

definition share_open ::
  "crypto_env \<Rightarrow> box_env \<Rightarrow> ID \<Rightarrow> bytes \<Rightarrow> bytes \<Rightarrow> bytes \<Rightarrow> bytes \<Rightarrow> Account \<Rightarrow> account_error + bytes option" where
  "share_open env bx workspaceID keyID sealedEnvelope inviterAuthorityPublicKey membershipSignature a =
     (if ID_Validate workspaceID \<noteq> Inr () \<or> length keyID \<noteq> workspaceKeyIDBytes then Inl (AccPlain ''account: invalid workspace share'')
      else if ac_locked a then Inl ErrAccountLocked
      else case ac_workspaceKeys a workspaceID of
             Some existing \<Rightarrow> if bytesEqual (ke_KeyID existing) keyID then Inr None else Inl ErrAlreadyMember
           | None \<Rightarrow>
               bind_res (if length inviterAuthorityPublicKey \<noteq> 0
                         then in_crypto (VerifyCanonical (ce_verify env) CryptoProfileV1 inviterAuthorityPublicKey SignatureDomainMembership
                                (membershipSignatureInput workspaceID (ac_ID a) keyID) membershipSignature)
                         else Inr ()) (\<lambda>_.
               bind_res (in_crypto (OpenWorkspaceKeyEnvelope env bx CryptoProfileV1 (ac_IdentityPublicKey a) (ac_identityPrivate a) sealedEnvelope))
                 (\<lambda>workspaceKey. Inr (Some workspaceKey))))"

text \<open>The part under the second lock.\<close>

definition share_install ::
  "crypto_env \<Rightarrow> (Account \<Rightarrow> ID list \<times> ID list) \<Rightarrow> bytes option \<Rightarrow> int \<Rightarrow> ID \<Rightarrow> bytes \<Rightarrow> bytes \<Rightarrow> Account \<Rightarrow> key_db
   \<Rightarrow> (account_error + unit) \<times> Account \<times> key_db" where
  "share_install env order random unixMilli workspaceID keyID workspaceKey a db =
     (if ac_locked a then (Inl ErrAccountLocked, a, db)
      else case ac_workspaceKeys a workspaceID of
             Some existing \<Rightarrow> (if bytesEqual (ke_KeyID existing) keyID then Inr () else Inl ErrAlreadyMember, a, db)
           | None \<Rightarrow>
               (case Tick unixMilli (ac_clock a) of
                  (Inl e, c) \<Rightarrow> (Inl (AccClock e), a\<lparr>ac_clock := c\<rparr>, db)
                | (Inr clock, c) \<Rightarrow>
                    let a = a\<lparr>ac_clock := c\<rparr>;
                        newEntry = \<lparr>ke_KeyID = keyID, ke_Key = Some workspaceKey, ke_State = workspaceKeyStateCurrent\<rparr> in
                    case persistNewWorkspaceKey env random (ac_rootKey a) (account_identity a) (ac_ID a) workspaceID clock
                           (snapshotKeybagWorkspaceKeys (order a) a) (keybag_entry workspaceID newEntry) db of
                      Inl e \<Rightarrow> (Inl e, a, db)
                    | Inr db' \<Rightarrow> (Inr (), a\<lparr>ac_workspaceKeys := (ac_workspaceKeys a)(workspaceID \<mapsto> newEntry)\<rparr>, db')))"

definition AcceptWorkspaceShare ::
  "crypto_env \<Rightarrow> box_env \<Rightarrow> (Account \<Rightarrow> ID list \<times> ID list) \<Rightarrow> bytes option \<Rightarrow> int \<Rightarrow> ID \<Rightarrow> bytes \<Rightarrow> bytes \<Rightarrow> bytes \<Rightarrow> bytes \<Rightarrow> Account \<Rightarrow> key_db
   \<Rightarrow> (account_error + unit) \<times> Account \<times> key_db" where
  "AcceptWorkspaceShare env bx order random unixMilli workspaceID keyID sealedEnvelope inviterAuthorityPublicKey membershipSignature a db =
     (case share_open env bx workspaceID keyID sealedEnvelope inviterAuthorityPublicKey membershipSignature a of
        Inl e \<Rightarrow> (Inl e, a, db)
      | Inr None \<Rightarrow> (Inr (), a, db)
      | Inr (Some workspaceKey) \<Rightarrow> share_install env order random unixMilli workspaceID keyID workspaceKey a db)"

section \<open>Rotating a workspace key\<close>

record RotationRecipient =
  rr_UserID :: ID
  rr_Envelope :: bytes

record RotationInvitation =
  ri_WorkspaceID :: ID
  ri_KeyID :: bytes
  ri_Recipients :: "RotationRecipient list"
  ri_Signature :: bytes

definition SignatureDomainKeyTransition :: string where
  "SignatureDomainKeyTransition = ''beresta.key-transition.signature.v1''"

definition keyTransitionSignatureInput :: "ID \<Rightarrow> bytes \<Rightarrow> ID list \<Rightarrow> bytes" where
  "keyTransitionSignatureInput workspaceID newKeyID sortedRecipientIDs =
     foldl (\<lambda>result i. appendLP result (ID_Bytes i))
       (appendU32 (appendLP (appendLP [] (ID_Bytes workspaceID)) newKeyID) (word_of_nat (length sortedRecipientIDs))) sortedRecipientIDs"

fun seal_recipients ::
  "box_env \<Rightarrow> (ID \<Rightarrow> bytes option) \<Rightarrow> (ID \<times> bytes) list \<Rightarrow> bytes \<Rightarrow> ID list \<Rightarrow> crypto_error + RotationRecipient list" where
  "seal_recipients bx random recipients newKey [] = Inr []"
| "seal_recipients bx random recipients newKey (i # ids) =
     bind_res (SealWorkspaceKeyEnvelope bx CryptoProfileV1 (case map_of recipients i of None \<Rightarrow> [] | Some key \<Rightarrow> key) (Some newKey) (random i)) (\<lambda>envelope.
     bind_res (seal_recipients bx random recipients newKey ids) (\<lambda>rest. Inr (\<lparr>rr_UserID = i, rr_Envelope = envelope\<rparr> # rest)))"

text \<open>The map of recipients is an association list with distinct keys; \<open>newKeyID\<close> and \<open>newKeyBytes\<close> are drawn.\<close>

definition BeginWorkspaceKeyRotation ::
  "crypto_env \<Rightarrow> box_env \<Rightarrow> bytes option \<Rightarrow> bytes option \<Rightarrow> (ID \<Rightarrow> bytes option) \<Rightarrow> ID \<Rightarrow> (ID \<times> bytes) list \<Rightarrow> Account \<Rightarrow> account_error + RotationInvitation" where
  "BeginWorkspaceKeyRotation env bx newKeyID newKeyBytes random workspaceID recipients a =
     (if length recipients = 0 then Inl (AccPlain ''account: key rotation requires at least one recipient'')
      else if ac_locked a then Inl ErrAccountLocked
      else case ac_workspaceKeys a workspaceID of
             None \<Rightarrow> Inl ErrUnknownWorkspace
           | Some _ \<Rightarrow>
               (case (newKeyID, newKeyBytes) of
                  (Some keyID, Some keyBytes) \<Rightarrow>
                    if length keyID \<noteq> workspaceKeyIDBytes \<or> length keyBytes \<noteq> workspaceKeyBytes then Inl (AccCrypto ErrRandomSource)
                    else
                      bind_res (in_crypto (TakeSecret env keyBytes)) (\<lambda>newKey.
                      let recipientIDs = sort_key ID_String (map fst recipients) in
                      bind_res (in_crypto (seal_recipients bx random recipients newKey recipientIDs)) (\<lambda>sealed.
                      bind_res (in_crypto (SignCanonical (ce_sign env) CryptoProfileV1 (ac_authorityPrivate a) SignatureDomainKeyTransition
                        (keyTransitionSignatureInput workspaceID keyID recipientIDs))) (\<lambda>signature.
                        Inr \<lparr>ri_WorkspaceID = workspaceID, ri_KeyID = keyID, ri_Recipients = sealed, ri_Signature = signature\<rparr>)))
                | _ \<Rightarrow> Inl (AccCrypto ErrRandomSource)))"

definition rotation_open ::
  "crypto_env \<Rightarrow> box_env \<Rightarrow> ID \<Rightarrow> bytes \<Rightarrow> bytes \<Rightarrow> bytes \<Rightarrow> bytes \<Rightarrow> ID list \<Rightarrow> Account \<Rightarrow> account_error + bytes option" where
  "rotation_open env bx workspaceID newKeyID sealedEnvelope rotatorAuthorityPublicKey signature allRecipientIDs a =
     (if ID_Validate workspaceID \<noteq> Inr () \<or> length newKeyID \<noteq> workspaceKeyIDBytes then Inl (AccPlain ''account: invalid key rotation'')
      else if ac_locked a then Inl ErrAccountLocked
      else case ac_workspaceKeys a workspaceID of
             None \<Rightarrow> Inl ErrUnknownWorkspace
           | Some current \<Rightarrow>
               if bytesEqual (ke_KeyID current) newKeyID then Inr None
               else
                 bind_res (if length rotatorAuthorityPublicKey \<noteq> 0
                           then in_crypto (VerifyCanonical (ce_verify env) CryptoProfileV1 rotatorAuthorityPublicKey SignatureDomainKeyTransition
                                  (keyTransitionSignatureInput workspaceID newKeyID (sort_key ID_String allRecipientIDs)) signature)
                           else Inr ()) (\<lambda>_.
                 bind_res (in_crypto (OpenWorkspaceKeyEnvelope env bx CryptoProfileV1 (ac_IdentityPublicKey a) (ac_identityPrivate a) sealedEnvelope))
                   (\<lambda>newKey. Inr (Some newKey))))"

definition rotation_install ::
  "crypto_env \<Rightarrow> (Account \<Rightarrow> ID list \<times> ID list) \<Rightarrow> bytes option \<Rightarrow> int \<Rightarrow> ID \<Rightarrow> bytes \<Rightarrow> bytes \<Rightarrow> Account \<Rightarrow> key_db
   \<Rightarrow> (account_error + unit) \<times> Account \<times> key_db" where
  "rotation_install env order random unixMilli workspaceID newKeyID newKey a db =
     (if ac_locked a then (Inl ErrAccountLocked, a, db)
      else case ac_workspaceKeys a workspaceID of
             None \<Rightarrow> (Inl ErrUnknownWorkspace, a, db)
           | Some current \<Rightarrow>
               if bytesEqual (ke_KeyID current) newKeyID then (Inr (), a, db)
               else
                 (case Tick unixMilli (ac_clock a) of
                    (Inl e, c) \<Rightarrow> (Inl (AccClock e), a\<lparr>ac_clock := c\<rparr>, db)
                  | (Inr clock, c) \<Rightarrow>
                      let a = a\<lparr>ac_clock := c\<rparr>;
                          existing = map (\<lambda>wk. if wk_WorkspaceID wk = workspaceID \<and> bytesEqual (wk_KeyID wk) (ke_KeyID current)
                                               then wk\<lparr>wk_State := workspaceKeyStateHistorical\<rparr> else wk)
                                       (snapshotKeybagWorkspaceKeys (order a) a);
                          newEntry = \<lparr>ke_KeyID = newKeyID, ke_Key = Some newKey, ke_State = workspaceKeyStateCurrent\<rparr> in
                      case persistWorkspaceKeyRotation env random (ac_rootKey a) (account_identity a) (ac_ID a) workspaceID clock (ke_KeyID current)
                             existing (keybag_entry workspaceID newEntry) db of
                        Inl e \<Rightarrow> (Inl e, a, db)
                      | Inr db' \<Rightarrow>
                          (Inr (),
                           a\<lparr>ac_historicalWorkspaceKeys := (ac_historicalWorkspaceKeys a)(workspaceID :=
                                ac_historicalWorkspaceKeys a workspaceID @ [current\<lparr>ke_State := workspaceKeyStateHistorical\<rparr>]),
                             ac_workspaceKeys := (ac_workspaceKeys a)(workspaceID \<mapsto> newEntry)\<rparr>, db')))"

definition AcceptWorkspaceKeyRotation ::
  "crypto_env \<Rightarrow> box_env \<Rightarrow> (Account \<Rightarrow> ID list \<times> ID list) \<Rightarrow> bytes option \<Rightarrow> int \<Rightarrow> ID \<Rightarrow> bytes \<Rightarrow> bytes \<Rightarrow> bytes \<Rightarrow> bytes \<Rightarrow> ID list \<Rightarrow> Account \<Rightarrow> key_db
   \<Rightarrow> (account_error + unit) \<times> Account \<times> key_db" where
  "AcceptWorkspaceKeyRotation env bx order random unixMilli workspaceID newKeyID sealedEnvelope rotatorAuthorityPublicKey signature allRecipientIDs a db =
     (case rotation_open env bx workspaceID newKeyID sealedEnvelope rotatorAuthorityPublicKey signature allRecipientIDs a of
        Inl e \<Rightarrow> (Inl e, a, db)
      | Inr None \<Rightarrow> (Inr (), a, db)
      | Inr (Some newKey) \<Rightarrow> rotation_install env order random unixMilli workspaceID newKeyID newKey a db)"


section \<open>Signed revocations\<close>

abbreviation (input) RevocationKindDevice :: byte where "RevocationKindDevice \<equiv> 1"
abbreviation (input) RevocationKindMember :: byte where "RevocationKindMember \<equiv> 2"

record RevocationRecord =
  rv_Kind :: byte
  rv_TargetID :: ID
  rv_WorkspaceID :: ID
  rv_Clock :: HLC
  rv_Signature :: bytes

definition SignatureDomainRevocation :: string where
  "SignatureDomainRevocation = ''beresta.revocation.signature.v1''"

definition revocationSignatureInput :: "byte \<Rightarrow> ID \<Rightarrow> ID \<Rightarrow> HLC \<Rightarrow> bytes" where
  "revocationSignatureInput kind targetID workspaceID clock =
     (let result = [kind];
          result = appendLP result (ID_Bytes targetID);
          result = appendLP result (ID_Bytes workspaceID);
          result = appendU32 result (ucast (drop_bit 32 (PhysicalMS clock)));
          result = appendU32 result (ucast (PhysicalMS clock));
          result = appendU32 result (Logical clock)
      in appendLP result (ID_Bytes (ClockDeviceID clock)))"

text \<open>The steps that both kinds of revocation share once the target is valid.\<close>

definition sign_revocation :: "crypto_env \<Rightarrow> int \<Rightarrow> byte \<Rightarrow> ID \<Rightarrow> ID \<Rightarrow> Account \<Rightarrow> (account_error + RevocationRecord) \<times> Account" where
  "sign_revocation env unixMilli kind targetID workspaceID a =
     (if ac_locked a then (Inl ErrAccountLocked, a)
      else case tick unixMilli a of
             (Inl e, a) \<Rightarrow> (Inl e, a)
           | (Inr clock, a) \<Rightarrow>
               (bind_res (in_crypto (SignCanonical (ce_sign env) CryptoProfileV1 (ac_authorityPrivate a) SignatureDomainRevocation
                  (revocationSignatureInput kind targetID workspaceID clock))) (\<lambda>signature.
                  Inr \<lparr>rv_Kind = kind, rv_TargetID = targetID, rv_WorkspaceID = workspaceID, rv_Clock = clock, rv_Signature = signature\<rparr>), a))"

definition SignDeviceRevocation :: "crypto_env \<Rightarrow> int \<Rightarrow> ID \<Rightarrow> Account \<Rightarrow> (account_error + RevocationRecord) \<times> Account" where
  "SignDeviceRevocation env unixMilli targetDeviceID a =
     (if ID_Validate targetDeviceID \<noteq> Inr () then (Inl (AccPlain ''account: invalid target device''), a)
      else sign_revocation env unixMilli RevocationKindDevice targetDeviceID NilID a)"

definition SignMemberRevocation :: "crypto_env \<Rightarrow> int \<Rightarrow> ID \<Rightarrow> ID \<Rightarrow> Account \<Rightarrow> (account_error + RevocationRecord) \<times> Account" where
  "SignMemberRevocation env unixMilli workspaceID targetUserID a =
     (if ID_Validate workspaceID \<noteq> Inr () \<or> ID_Validate targetUserID \<noteq> Inr () then (Inl (AccPlain ''account: invalid member revocation''), a)
      else sign_revocation env unixMilli RevocationKindMember targetUserID workspaceID a)"

definition VerifyRevocation :: "crypto_env \<Rightarrow> bytes \<Rightarrow> RevocationRecord \<Rightarrow> crypto_error + unit" where
  "VerifyRevocation env authorityPublicKey r =
     VerifyCanonical (ce_verify env) CryptoProfileV1 authorityPublicKey SignatureDomainRevocation
       (revocationSignatureInput (rv_Kind r) (rv_TargetID r) (rv_WorkspaceID r) (rv_Clock r)) (rv_Signature r)"

section \<open>Creating, locking and unlocking\<close>

record account_draws =
  dr_identity :: "bytes option"
  dr_authority :: "bytes option"
  dr_device :: "bytes option"
  dr_keyID :: "bytes option"
  dr_key :: "bytes option"
  dr_nonce :: "bytes option"

definition read_full :: "nat \<Rightarrow> bytes option \<Rightarrow> crypto_error + bytes" where
  "read_full n random = (case random of None \<Rightarrow> Inl ErrRandomSource | Some b \<Rightarrow> if length b \<noteq> n then Inl ErrRandomSource else Inr b)"

definition insertNewAccount ::
  "ID \<Rightarrow> ID \<Rightarrow> ID \<Rightarrow> bytes \<Rightarrow> bytes \<Rightarrow> bytes \<Rightarrow> EncryptedKeybag \<Rightarrow> HLC \<Rightarrow> key_db \<Rightarrow> account_error + key_db" where
  "insertNewAccount accountID device workspaceID workspaceKeyID devicePublicKey signingEnvelope keybag createdClock db =
     (let kdf = KB_KDF (EK_Header keybag); notes = kd_notes db in
      if list_ex (\<lambda>r. ar_id r = accountID) (kd_accounts db) \<or>
         list_ex (\<lambda>d. dv_id d = device \<or> dv_public d = devicePublicKey) (nd_devices notes) \<or> workspaceID \<in> nd_workspaces notes
      then Inl (AccStore StoreSql)
      else insert_workspace_key \<lparr>kr_key = workspaceKeyID, kr_workspace = workspaceID, kr_state = workspaceKeyStateCurrent, kr_activated = createdClock\<rparr>
             (db\<lparr>kd_accounts := kd_accounts db @ [\<lparr>ar_id = accountID, ar_keybagVersion = KB_KeybagVersion (EK_Header keybag), ar_keybagNonce = EK_Nonce keybag,
                   ar_keybagCiphertext = EK_Ciphertext keybag, ar_kdfSalt = KDF_Salt kdf, ar_kdfMemoryKiB = KDF_MemoryKiB kdf,
                   ar_kdfTimeCost = KDF_TimeCost kdf, ar_kdfParallelism = KDF_Parallelism kdf\<rparr>],
                 kd_local := Some \<lparr>ld_id = device, ld_publicKey = devicePublicKey, ld_signingKeyEnvelope = signingEnvelope\<rparr>,
                 kd_notes := notes\<lparr>nd_workspaces := insert workspaceID (nd_workspaces notes),
                   nd_devices := nd_devices notes @ [\<lparr>dv_id = device, dv_public = devicePublicKey, dv_status = 1,
                     dv_physical = PhysicalMS createdClock, dv_logical = Logical createdClock\<rparr>]\<rparr>\<rparr>))"

text \<open>\<open>wrap\<close> is the platform key store, \<open>calibrated\<close> and \<open>derive\<close> are the results of Argon2id.\<close>

definition createAccountContent ::
  "crypto_env \<Rightarrow> box_env \<Rightarrow> account_draws \<Rightarrow> (bytes \<Rightarrow> account_error + bytes) \<Rightarrow> crypto_error + Argon2idParams \<Rightarrow> (Argon2idParams \<Rightarrow> crypto_error + bytes)
   \<Rightarrow> ID \<Rightarrow> ID \<Rightarrow> ID \<Rightarrow> HLC \<Rightarrow> key_db \<Rightarrow> account_error + Account \<times> key_db" where
  "createAccountContent env bx draws wrap calibrated derive accountID device workspaceID createdClock db =
     bind_res (in_crypto (generateX25519Identity env bx (dr_identity draws))) (\<lambda>(identityPub, identityPriv).
     bind_res (in_crypto (generateEd25519Key env (dr_authority draws))) (\<lambda>(authorityPub, authorityPriv).
     bind_res (in_crypto (generateEd25519Key env (dr_device draws))) (\<lambda>(devicePub, devicePriv).
     bind_res (wrap devicePriv) (\<lambda>signingEnvelope.
     bind_res (in_crypto (read_full workspaceKeyIDBytes (dr_keyID draws))) (\<lambda>workspaceKeyID.
     bind_res (in_crypto (read_full workspaceKeyBytes (dr_key draws))) (\<lambda>workspaceKeyRaw.
     bind_res (in_crypto (TakeSecret env workspaceKeyRaw)) (\<lambda>workspaceKey.
     bind_res (in_crypto calibrated) (\<lambda>kdfParams.
     bind_res (in_crypto (derive kdfParams)) (\<lambda>rootKey.
     bind_res (in_crypto (NewKeybagHeader (ID_Bytes accountID) 1 kdfParams)) (\<lambda>header.
     let entry = \<lparr>ke_KeyID = workspaceKeyID, ke_Key = Some workspaceKey, ke_State = workspaceKeyStateCurrent\<rparr> in
     bind_res (encodeKeybagPlaintext env \<lparr>kp_IdentityPublicKey = identityPub, kp_IdentityPrivateKey = Some identityPriv,
       kp_AuthorityPublicKey = authorityPub, kp_AuthorityPrivateKey = Some authorityPriv, kp_WorkspaceKeys = [keybag_entry workspaceID entry]\<rparr>) (\<lambda>payloadSecret.
     bind_res (in_crypto (EncryptKeybag env (Some rootKey) header (Some payloadSecret) (dr_nonce draws))) (\<lambda>encryptedKeybag.
     bind_res (insertNewAccount accountID device workspaceID workspaceKeyID devicePub signingEnvelope encryptedKeybag createdClock db) (\<lambda>db.
     bind_res (map_sum AccClock id (NewClock device createdClock 0)) (\<lambda>clock.
       Inr (\<lparr>ac_ID = accountID, ac_DeviceID = device, ac_IdentityPublicKey = identityPub, ac_AuthorityPublicKey = authorityPub,
             ac_DevicePublicKey = devicePub, ac_locked = False, ac_identityPrivate = Some identityPriv, ac_authorityPrivate = Some authorityPriv,
             ac_devicePrivate = Some devicePriv, ac_rootKey = Some rootKey, ac_workspaceKeys = [workspaceID \<mapsto> entry],
             ac_historicalWorkspaceKeys = (\<lambda>_. []), ac_clock = clock\<rparr>, db)))))))))))))))"

definition Lock :: "Account \<Rightarrow> Account" where
  "Lock a =
     (if ac_locked a then a
      else a\<lparr>ac_identityPrivate := None, ac_authorityPrivate := None, ac_devicePrivate := None, ac_rootKey := None,
             ac_workspaceKeys := Map.empty, ac_historicalWorkspaceKeys := (\<lambda>_. []), ac_locked := True\<rparr>)"

text \<open>The loop that sorts the keys of a payload into current and other ones.\<close>

definition load_key ::
  "keybagWorkspaceKey \<Rightarrow> (ID \<rightharpoonup> workspaceKeyEntry) \<times> (ID \<Rightarrow> workspaceKeyEntry list) \<Rightarrow> (ID \<rightharpoonup> workspaceKeyEntry) \<times> (ID \<Rightarrow> workspaceKeyEntry list)" where
  "load_key wk keys =
     (let entry = \<lparr>ke_KeyID = wk_KeyID wk, ke_Key = wk_Key wk, ke_State = wk_State wk\<rparr> in
      if wk_State wk = workspaceKeyStateCurrent then ((fst keys)(wk_WorkspaceID wk \<mapsto> entry), snd keys)
      else (fst keys, (snd keys)(wk_WorkspaceID wk := snd keys (wk_WorkspaceID wk) @ [entry])))"

definition unlockAccountContent ::
  "crypto_env \<Rightarrow> (bytes \<Rightarrow> account_error + bytes) \<Rightarrow> bytes option \<Rightarrow> account_row \<Rightarrow> key_db \<Rightarrow> account_error + Account" where
  "unlockAccountContent env unwrap rootKey accountRow db =
     bind_res (loadLocalDeviceRow db) (\<lambda>deviceRow.
     bind_res (unwrap (ld_signingKeyEnvelope deviceRow)) (\<lambda>devicePrivate.
     bind_res (in_crypto (NewKeybagHeader (ID_Bytes (ar_id accountRow)) (ar_keybagVersion accountRow) (row_kdf accountRow))) (\<lambda>header.
     bind_res (in_crypto (OpenKeybag env rootKey \<lparr>EK_Header = header, EK_Nonce = ar_keybagNonce accountRow, EK_Ciphertext = ar_keybagCiphertext accountRow\<rparr>)) (\<lambda>keybagSecret.
     bind_res (decodeKeybagPlaintext env (Some keybagSecret)) (\<lambda>payload.
     let keys = fold load_key (kp_WorkspaceKeys payload) (Map.empty, \<lambda>_. []) in
     bind_res (in_store (LoadDeviceClock (ld_id deviceRow) (kd_notes db))) (\<lambda>persistedClock.
     bind_res (map_sum AccClock id (NewClock (ld_id deviceRow) persistedClock 0)) (\<lambda>clock.
       Inr \<lparr>ac_ID = ar_id accountRow, ac_DeviceID = ld_id deviceRow, ac_IdentityPublicKey = kp_IdentityPublicKey payload,
            ac_AuthorityPublicKey = kp_AuthorityPublicKey payload, ac_DevicePublicKey = ld_publicKey deviceRow, ac_locked = False,
            ac_identityPrivate = kp_IdentityPrivateKey payload, ac_authorityPrivate = kp_AuthorityPrivateKey payload,
            ac_devicePrivate = Some devicePrivate, ac_rootKey = rootKey, ac_workspaceKeys = fst keys,
            ac_historicalWorkspaceKeys = snd keys, ac_clock = clock\<rparr>)))))))"

text \<open>
  \<^verbatim>\<open>Unlock\<close> once the database is open: the root key that Argon2id derives for the parameters of the
  account row, then the content.
\<close>

definition unlock_database ::
  "crypto_env \<Rightarrow> (bytes \<Rightarrow> account_error + bytes) \<Rightarrow> (Argon2idParams \<Rightarrow> crypto_error + bytes) \<Rightarrow> key_db \<Rightarrow> account_error + Account" where
  "unlock_database env unwrap derive db =
     bind_res (loadAccountRow db) (\<lambda>accountRow.
     bind_res (in_crypto (derive (row_kdf accountRow))) (\<lambda>rootKey.
       unlockAccountContent env unwrap (Some rootKey) accountRow db))"


end
