(* ===== verification/Key_Guarantees.thy ===== *)
theory Key_Guarantees
  imports Account_Keys
begin

text \<open>
  What the account promises about its keys. Every key that a device ever held stays readable, through
  shares, rotations and restarts (the keybag on disk always restores the keys in memory); and what a sealed
  key of a wrong size does.
\<close>

section \<open>Keys in memory and in the keybag\<close>

definition held :: "ID \<Rightarrow> Account \<Rightarrow> workspaceKeyEntry list" where
  "held w a = (case ac_workspaceKeys a w of None \<Rightarrow> [] | Some e \<Rightarrow> [e]) @ ac_historicalWorkspaceKeys a w"

definition entry_of :: "keybagWorkspaceKey \<Rightarrow> workspaceKeyEntry" where
  "entry_of wk = \<lparr>ke_KeyID = wk_KeyID wk, ke_Key = wk_Key wk, ke_State = wk_State wk\<rparr>"

definition entries :: "ID \<Rightarrow> keybagWorkspaceKey list \<Rightarrow> workspaceKeyEntry list" where
  "entries w wks = map entry_of (filter (\<lambda>wk. wk_WorkspaceID wk = w) wks)"

text \<open>The orders in which \<^verbatim>\<open>range\<close> visits the two maps of an account: each key once.\<close>

definition visits :: "ID list \<times> ID list \<Rightarrow> Account \<Rightarrow> bool" where
  "visits visit a \<longleftrightarrow> distinct (fst visit) \<and> set (fst visit) = dom (ac_workspaceKeys a) \<and>
     distinct (snd visit) \<and> set (snd visit) = {w. ac_historicalWorkspaceKeys a w \<noteq> []}"

definition map_order :: "(Account \<Rightarrow> ID list \<times> ID list) \<Rightarrow> bool" where
  "map_order order \<longleftrightarrow> (\<forall>a. finite (dom (ac_workspaceKeys a)) \<longrightarrow> finite {w. ac_historicalWorkspaceKeys a w \<noteq> []} \<longrightarrow> visits (order a) a)"

lemma entries_simps [simp]:
  "entries w [] = []" "entries w (xs @ ys) = entries w xs @ entries w ys"
  "entries w (wk # wks) = (if wk_WorkspaceID wk = w then entry_of wk # entries w wks else entries w wks)"
  by (simp_all add: entries_def)

lemma keybag_entry_simps [simp]:
  "wk_WorkspaceID (keybag_entry w e) = w" "wk_KeyID (keybag_entry w e) = ke_KeyID e" "wk_State (keybag_entry w e) = ke_State e"
  "wk_Key (keybag_entry w e) = ke_Key e" "entry_of (keybag_entry w e) = e"
  by (simp_all add: keybag_entry_def entry_of_def)

lemma entries_mapped [simp]: "entries w (map (keybag_entry v) es) = (if v = w then es else [])"
  by (induction es) auto

lemma entries_concat: "entries w (concat xss) = concat (map (entries w) xss)"
  by (induction xss) auto

lemma concat_one:
  assumes "distinct ws" shows "concat (map (\<lambda>v. if v = w then f v else []) ws) = (if w \<in> set ws then f w else [])"
  using assms by (induction ws) auto

lemma entries_snapshot:
  assumes "visits visit a" shows "entries w (snapshotKeybagWorkspaceKeys visit a) = held w a"
proof -
  have 1: "entries w (case ac_workspaceKeys a v of None \<Rightarrow> [] | Some e \<Rightarrow> [keybag_entry v e])
      = (if v = w then (case ac_workspaceKeys a v of None \<Rightarrow> [] | Some e \<Rightarrow> [e]) else [])" for v
    by (simp split: option.split)
  have "w \<notin> set (fst visit) \<Longrightarrow> ac_workspaceKeys a w = None" "w \<notin> set (snd visit) \<Longrightarrow> ac_historicalWorkspaceKeys a w = []"
    using assms by (auto simp: visits_def)
  with assms show ?thesis
    by (auto simp: snapshotKeybagWorkspaceKeys_def held_def entries_concat comp_def 1 concat_one visits_def)
qed

lemma set_snapshot: "wk \<in> set (snapshotKeybagWorkspaceKeys visit a) \<Longrightarrow> \<exists>w e. wk = keybag_entry w e \<and> e \<in> set (held w a)"
  by (force simp: snapshotKeybagWorkspaceKeys_def held_def split: option.splits)

section \<open>Loading\<close>

lemma load_keys:
  "fold load_key wks (m, h) = (\<lambda>w. case rev (filter (\<lambda>e. ke_State e = 1) (entries w wks)) of [] \<Rightarrow> m w | e # _ \<Rightarrow> Some e,
     \<lambda>w. h w @ filter (\<lambda>e. ke_State e \<noteq> 1) (entries w wks))"
proof (induction wks arbitrary: m h)
  case Nil
  show ?case by simp
next
  case (Cons wk wks)
  have e: "load_key wk (m, h) = (if wk_State wk = 1 then (m(wk_WorkspaceID wk \<mapsto> entry_of wk), h)
      else (m, h(wk_WorkspaceID wk := h (wk_WorkspaceID wk) @ [entry_of wk])))" "ke_State (entry_of wk) = wk_State wk"
    by (simp_all add: load_key_def entry_of_def Let_def)
  show ?case
    by (auto simp: Cons.IH e fun_eq_iff split: list.split)
qed

definition keys_typed :: "Account \<Rightarrow> bool" where
  "keys_typed a \<longleftrightarrow> (\<forall>w e. ac_workspaceKeys a w = Some e \<longrightarrow> ke_State e = 1) \<and> (\<forall>w. \<forall>e \<in> set (ac_historicalWorkspaceKeys a w). ke_State e \<noteq> 1)"

lemma load_held:
  assumes "\<And>w. mset (entries w wks) = mset (held w a)" "keys_typed a" "fold load_key wks (Map.empty, \<lambda>_. []) = (m, h)"
  shows "m = ac_workspaceKeys a" "mset (h w) = mset (ac_historicalWorkspaceKeys a w)"
proof -
  have eq: "mset (filter P (entries w wks)) = mset (filter P (held w a))" for P w
    using assms(1) [of w] by (metis mset_filter)
  have cur: "filter (\<lambda>e. ke_State e = 1) (held w a) = (case ac_workspaceKeys a w of None \<Rightarrow> [] | Some e \<Rightarrow> [e])"
    and hist: "filter (\<lambda>e. ke_State e \<noteq> 1) (held w a) = ac_historicalWorkspaceKeys a w" for w
    using assms(2) by (auto simp: held_def keys_typed_def filter_empty_conv filter_id_conv split: option.split)
  have one: "filter (\<lambda>e. ke_State e = 1) (entries w wks) = (case ac_workspaceKeys a w of None \<Rightarrow> [] | Some e \<Rightarrow> [e])" for w
    using eq [of "\<lambda>e. ke_State e = 1" w] unfolding cur
    by (cases "ac_workspaceKeys a w") (simp_all del: mset_filter)
  show "m = ac_workspaceKeys a"
  proof (rule ext)
    fix w
    have "m w = (case rev (filter (\<lambda>e. ke_State e = 1) (entries w wks)) of [] \<Rightarrow> None | e # _ \<Rightarrow> Some e)"
      using assms(3) by (auto simp: load_keys)
    then show "m w = ac_workspaceKeys a w" by (simp add: one split: option.split)
  qed
  show "mset (h w) = mset (ac_historicalWorkspaceKeys a w)"
    using assms(3) eq [of "\<lambda>e. ke_State e \<noteq> 1" w] unfolding hist by (auto simp: load_keys)
qed

section \<open>The keybag on disk restores the keys in memory\<close>

definition account_payload :: "Account \<Rightarrow> keybagWorkspaceKey list \<Rightarrow> keybagPlaintext" where
  "account_payload a wks = \<lparr>kp_IdentityPublicKey = ac_IdentityPublicKey a, kp_IdentityPrivateKey = ac_identityPrivate a,
     kp_AuthorityPublicKey = ac_AuthorityPublicKey a, kp_AuthorityPrivateKey = ac_authorityPrivate a, kp_WorkspaceKeys = wks\<rparr>"

text \<open>The keys in memory are well formed, their identifiers distinct and known to the table.\<close>

definition keys_sane :: "crypto_env \<Rightarrow> Account \<Rightarrow> key_db \<Rightarrow> bool" where
  "keys_sane env a db \<longleftrightarrow> \<not> ac_locked a \<and> keys_typed a \<and> finite (dom (ac_workspaceKeys a)) \<and> finite {w. ac_historicalWorkspaceKeys a w \<noteq> []} \<and>
     keybag_wf env (account_payload a []) \<and>
     (\<forall>w. distinct (map ke_KeyID (held w a)) \<and>
       (\<forall>e \<in> set (held w a). workspace_key_wf env (keybag_entry w e) \<and> ke_KeyID e \<in> kr_key ` set (kd_keys db)))"

definition same_keys :: "Account \<Rightarrow> Account \<Rightarrow> bool" where
  "same_keys a b \<longleftrightarrow> ac_ID a = ac_ID b \<and> account_identity a = account_identity b \<and> ac_rootKey a = ac_rootKey b \<and> ac_locked a = ac_locked b \<and>
     ac_workspaceKeys a = ac_workspaceKeys b \<and> (\<forall>w. mset (ac_historicalWorkspaceKeys a w) = mset (ac_historicalWorkspaceKeys b w))"

definition account_stored ::
  "crypto_env \<Rightarrow> (bytes \<Rightarrow> account_error + bytes) \<Rightarrow> (Argon2idParams \<Rightarrow> crypto_error + bytes) \<Rightarrow> Account \<Rightarrow> key_db \<Rightarrow> bool" where
  "account_stored env unwrap derive a db \<longleftrightarrow> keys_sane env a db \<and> (\<exists>b. unlock_database env unwrap derive db = Inr b \<and> same_keys b a)"

text \<open>What an account looks like when it was unlocked, and how it depends on the database.\<close>

definition unlocked_account :: "account_row \<Rightarrow> localDeviceRow \<Rightarrow> bytes \<Rightarrow> bytes \<Rightarrow> keybagPlaintext \<Rightarrow> Clock \<Rightarrow> Account" where
  "unlocked_account row dev devPriv root payload clock = \<lparr>ac_ID = ar_id row, ac_DeviceID = ld_id dev, ac_IdentityPublicKey = kp_IdentityPublicKey payload,
            ac_AuthorityPublicKey = kp_AuthorityPublicKey payload, ac_DevicePublicKey = ld_publicKey dev, ac_locked = False,
            ac_identityPrivate = kp_IdentityPrivateKey payload, ac_authorityPrivate = kp_AuthorityPrivateKey payload,
            ac_devicePrivate = Some devPriv, ac_rootKey = Some root, ac_workspaceKeys = fst (fold load_key (kp_WorkspaceKeys payload) (Map.empty, \<lambda>_. [])),
            ac_historicalWorkspaceKeys = snd (fold load_key (kp_WorkspaceKeys payload) (Map.empty, \<lambda>_. [])), ac_clock = clock\<rparr>"

lemma unlock_database_Inr:
  assumes "unlock_database env unwrap derive db = Inr b"
  obtains row rest dev devPriv root header secret payload persisted clock where
    "kd_accounts db = row # rest" "valid_id (ar_id row)" "kd_local db = Some dev" "valid_id (ld_id dev)"
    "unwrap (ld_signingKeyEnvelope dev) = Inr devPriv" "derive (row_kdf row) = Inr root"
    "NewKeybagHeader (ID_Bytes (ar_id row)) (ar_keybagVersion row) (row_kdf row) = Inr header"
    "OpenKeybag env (Some root) \<lparr>EK_Header = header, EK_Nonce = ar_keybagNonce row, EK_Ciphertext = ar_keybagCiphertext row\<rparr> = Inr secret"
    "decodeKeybagPlaintext env (Some secret) = Inr payload"
    "LoadDeviceClock (ld_id dev) (kd_notes db) = Inr persisted" "NewClock (ld_id dev) persisted 0 = Inr clock"
    "b = unlocked_account row dev devPriv root payload clock"
  using assms
  by (auto simp: unlocked_account_def unlock_database_def unlockAccountContent_def loadAccountRow_def loadLocalDeviceRow_def in_id_def err_simps ParseID_Inr_iff Let_def
      split: list.splits option.splits)

lemma identity_wf_iff:
  "keybag_wf env (account_payload a wks) \<longleftrightarrow> keybag_wf env (account_payload a []) \<and> length wks \<le> 4096 \<and> list_all (workspace_key_wf env) wks"
  by (auto simp: keybag_wf_def account_payload_def)

text \<open>Writing a keybag for the same account: unlocking gives the same account with the keys that were written.\<close>

definition with_payload :: "keybagPlaintext \<Rightarrow> Account \<Rightarrow> Account" where
  "with_payload p b = b\<lparr>ac_IdentityPublicKey := kp_IdentityPublicKey p, ac_identityPrivate := kp_IdentityPrivateKey p,
     ac_AuthorityPublicKey := kp_AuthorityPublicKey p, ac_authorityPrivate := kp_AuthorityPrivateKey p,
     ac_workspaceKeys := fst (fold load_key (kp_WorkspaceKeys p) (Map.empty, \<lambda>_. [])),
     ac_historicalWorkspaceKeys := snd (fold load_key (kp_WorkspaceKeys p) (Map.empty, \<lambda>_. []))\<rparr>"

lemma unlock_rewritten:
  assumes laws: "crypto_laws env" and u: "unlock_database env unwrap derive db = Inr b"
    and db1: "kd_accounts db1 = kd_accounts db" "kd_local db1 = kd_local db" "nd_devices (kd_notes db1) = nd_devices (kd_notes db)"
    and re: "reencryptKeybag env random (ac_rootKey b) (account_identity a) (ac_ID b) wks db1 = Inr db2"
  shows "unlock_database env unwrap derive db2 =
      bind_res (decodeKeybagPlaintext env (Some (payload_bytes (account_payload a wks)))) (\<lambda>p. Inr (with_payload p b))"
    and "kd_keys db2 = kd_keys db1" "length wks \<le> 4096"
proof -
  from u obtain row rest dev devPriv root header secret payload persisted clock where
    row: "kd_accounts db = row # rest" "valid_id (ar_id row)" "kd_local db = Some dev" "valid_id (ld_id dev)"
    and w: "unwrap (ld_signingKeyEnvelope dev) = Inr devPriv" "derive (row_kdf row) = Inr root"
      "NewKeybagHeader (ID_Bytes (ar_id row)) (ar_keybagVersion row) (row_kdf row) = Inr header"
    and k: "OpenKeybag env (Some root) \<lparr>EK_Header = header, EK_Nonce = ar_keybagNonce row, EK_Ciphertext = ar_keybagCiphertext row\<rparr> = Inr secret"
      "decodeKeybagPlaintext env (Some secret) = Inr payload"
    and c: "LoadDeviceClock (ld_id dev) (kd_notes db) = Inr persisted" "NewClock (ld_id dev) persisted 0 = Inr clock"
    and b: "b = unlocked_account row dev devPriv root payload clock"
    by (rule unlock_database_Inr)
  from re obtain bytes encrypted where e: "encodeKeybagPlaintext env (account_payload a wks) = Inr bytes"
    "EncryptKeybag env (Some root) header (Some bytes) random = Inr encrypted"
    and db2: "db2 = db1\<lparr>kd_accounts := map (\<lambda>r. if ar_id r = ar_id row
        then r\<lparr>ar_keybagNonce := EK_Nonce encrypted, ar_keybagCiphertext := EK_Ciphertext encrypted\<rparr> else r) (row # rest)\<rparr>"
    using w(3) by (auto simp: reencryptKeybag_def err_simps db1 row b unlocked_account_def account_identity_def account_payload_def)
  have bytes: "bytes = payload_bytes (account_payload a wks)" "fits env bytes" "length wks \<le> 4096"
    using e(1) by (auto simp: encodeKeybagPlaintext_iff account_payload_def)
  have o1: "OpenKeybag env (Some root) encrypted = Inr bytes" "EK_Header encrypted = header"
    using EncryptKeybag_open [OF laws e(2)] bytes(2) by (auto simp: fits_def)
  then have o2: "OpenKeybag env (Some root) \<lparr>EK_Header = header, EK_Nonce = EK_Nonce encrypted, EK_Ciphertext = EK_Ciphertext encrypted\<rparr> = Inr bytes"
    by (metis (full_types) EncryptedKeybag.surjective old.unit.exhaust)
  have "LoadDeviceClock (ld_id dev) (kd_notes db1) = Inr persisted" using c(1) by (simp add: LoadDeviceClock_def db1)
  moreover have "row_kdf (row\<lparr>ar_keybagNonce := n, ar_keybagCiphertext := x\<rparr>) = row_kdf row" for n x by (simp add: row_kdf_def)
  ultimately show "unlock_database env unwrap derive db2 =
      bind_res (decodeKeybagPlaintext env (Some (payload_bytes (account_payload a wks)))) (\<lambda>p. Inr (with_payload p b))"
    using row w c(2) o2 by (simp add: unlock_database_def unlockAccountContent_def loadAccountRow_def loadLocalDeviceRow_def in_id_def Let_def db2 db1 b
        unlocked_account_def with_payload_def bytes(1))
  show "kd_keys db2 = kd_keys db1" by (simp add: db2)
  show "length wks \<le> 4096" by (rule bytes(3))
qed

lemma unlock_reencrypted:
  assumes "crypto_laws env" "unlock_database env unwrap derive db = Inr b"
    and "kd_accounts db1 = kd_accounts db" "kd_local db1 = kd_local db" "nd_devices (kd_notes db1) = nd_devices (kd_notes db)"
    and "reencryptKeybag env random (ac_rootKey b) (account_identity a) (ac_ID b) wks db1 = Inr db2"
    and "keybag_wf env (account_payload a [])" "list_all (workspace_key_wf env) wks"
  shows "unlock_database env unwrap derive db2 = Inr (with_payload (account_payload a wks) b)" "kd_keys db2 = kd_keys db1"
proof -
  note r = unlock_rewritten [OF assms(1-6)]
  have "keybag_wf env (account_payload a wks)" using assms(7,8) r(3) by (simp add: identity_wf_iff [of env a wks])
  then show "unlock_database env unwrap derive db2 = Inr (with_payload (account_payload a wks) b)" using r(1) by (simp add: decode_payload_bytes)
  show "kd_keys db2 = kd_keys db1" by (rule r(2))
qed

text \<open>So a keybag with the keys of an account stores that account.\<close>

lemma stored_reencrypted:
  assumes laws: "crypto_laws env" and u: "unlock_database env unwrap derive db = Inr b" and same: "same_keys b a"
    and db1: "kd_accounts db1 = kd_accounts db" "kd_local db1 = kd_local db" "nd_devices (kd_notes db1) = nd_devices (kd_notes db)"
    and re: "reencryptKeybag env random (ac_rootKey a) (account_identity a) (ac_ID a) wks db1 = Inr db2"
    and wks: "list_all (workspace_key_wf env) wks" "\<And>w. mset (entries w wks) = mset (held w a')"
    and a': "ac_ID a' = ac_ID a" "account_identity a' = account_identity a" "ac_rootKey a' = ac_rootKey a" "ac_locked a' = ac_locked a"
    and sane: "keys_sane env a' db1"
  shows "account_stored env unwrap derive a' db2"
proof -
  have typed: "keys_typed a'" and wf: "keybag_wf env (account_payload a' [])" using sane by (simp_all add: keys_sane_def)
  have id: "ac_rootKey b = ac_rootKey a" "ac_ID b = ac_ID a" "ac_locked b = ac_locked a" using same by (simp_all add: same_keys_def)
  note un = unlock_reencrypted [OF laws u db1, of random a' wks db2, unfolded id a', OF re wf wks(1)]
  obtain m h where l: "fold load_key wks (Map.empty, \<lambda>_. []) = (m, h)" by fastforce
  note load = load_held [OF wks(2) typed l]
  have "same_keys (with_payload (account_payload a' wks) b) a'"
    using load id a' by (simp add: same_keys_def account_identity_def with_payload_def account_payload_def l)
  moreover have "keys_sane env a' db2" using sane un(2) by (simp add: keys_sane_def)
  ultimately show ?thesis using un(1) by (auto simp: account_stored_def)
qed

section \<open>Accepting a share or a rotation\<close>

lemma bytesEqual_iff [simp]: "bytesEqual a b \<longleftrightarrow> a = b"
  by (auto simp: bytesEqual_def list_all_iff intro: nth_equalityI)

lemma stored_clock [simp]:
  "account_stored env unwrap derive (a\<lparr>ac_clock := c\<rparr>) db = account_stored env unwrap derive a db" "held w (a\<lparr>ac_clock := c\<rparr>) = held w a"
  by (simp_all add: account_stored_def keys_sane_def keys_typed_def held_def same_keys_def account_payload_def account_identity_def)

text \<open>Every key of \<open>a\<close> is one of \<open>b\<close>, perhaps with another state.\<close>

definition keeps_keys :: "Account \<Rightarrow> Account \<Rightarrow> bool" where
  "keeps_keys a b \<longleftrightarrow> (\<forall>w. \<forall>e \<in> set (held w a). \<exists>e' \<in> set (held w b). ke_KeyID e' = ke_KeyID e \<and> ke_Key e' = ke_Key e)"

lemma keeps_keys_refl [simp]: "keeps_keys a a" "keeps_keys a (a\<lparr>ac_clock := c\<rparr>)"
  by (auto simp: keeps_keys_def)

lemma keeps_keys_trans: "keeps_keys a b \<Longrightarrow> keeps_keys b c \<Longrightarrow> keeps_keys a c"
  unfolding keeps_keys_def by metis

lemma insert_workspace_key_Inr:
  assumes "insert_workspace_key row db = Inr db1"
  shows "kd_accounts db1 = kd_accounts db" "kd_local db1 = kd_local db" "kd_notes db1 = kd_notes db" "kd_keys db1 = kd_keys db @ [row]"
    "kr_key row \<notin> kr_key ` set (kd_keys db)"
  using assms by (auto simp: insert_workspace_key_def list_ex_iff split: if_splits)

lemma fresh_key_id:
  assumes "keys_sane env a db" "k \<notin> kr_key ` set (kd_keys db)" "e \<in> set (held w a)" shows "ke_KeyID e \<noteq> k"
  using assms unfolding keys_sane_def by metis

lemma snapshot_wf:
  assumes "keys_sane env a db" shows "list_all (workspace_key_wf env) (snapshotKeybagWorkspaceKeys visit a)"
  using assms by (auto simp: list_all_iff keys_sane_def dest!: set_snapshot)

definition new_entry :: "bytes \<Rightarrow> bytes \<Rightarrow> workspaceKeyEntry" where
  "new_entry keyID key = \<lparr>ke_KeyID = keyID, ke_Key = Some key, ke_State = workspaceKeyStateCurrent\<rparr>"

lemma new_entry_wf: "valid_id ws \<Longrightarrow> length keyID = 16 \<Longrightarrow> length key = 32 \<Longrightarrow> fits env key \<Longrightarrow> workspace_key_wf env (keybag_entry ws (new_entry keyID key))"
  by (simp add: workspace_key_wf_def new_entry_def workspaceKeyState_valid_def)

lemma share_install_cases:
  assumes "share_install env order random ms ws keyID key a db = (r, a', db')" "\<not> ac_locked a"
  obtains "db' = db" "a' = a \<or> (\<exists>c. a' = a\<lparr>ac_clock := c\<rparr>)"
    | c clock where "ac_workspaceKeys a ws = None" "a' = a\<lparr>ac_clock := c, ac_workspaceKeys := (ac_workspaceKeys a)(ws \<mapsto> new_entry keyID key)\<rparr>"
      "persistNewWorkspaceKey env random (ac_rootKey a) (account_identity a) (ac_ID a) ws clock
         (snapshotKeybagWorkspaceKeys (order (a\<lparr>ac_clock := c\<rparr>)) (a\<lparr>ac_clock := c\<rparr>)) (keybag_entry ws (new_entry keyID key)) db = Inr db'"
proof (cases "ac_workspaceKeys a ws")
  case None
  obtain t c where tick: "Tick ms (ac_clock a) = (t, c)" by fastforce
  have id: "account_identity (a\<lparr>ac_clock := c\<rparr>) = account_identity a" by (simp add: account_identity_def)
  show ?thesis
  proof (cases t)
    case (Inl e)
    have "db' = db \<and> a' = a\<lparr>ac_clock := c\<rparr>" using assms None tick Inl by (auto simp: share_install_def)
    then show ?thesis by (intro that(1)) blast+
  next
    case (Inr clock)
    let ?p = "persistNewWorkspaceKey env random (ac_rootKey a) (account_identity a) (ac_ID a) ws clock
         (snapshotKeybagWorkspaceKeys (order (a\<lparr>ac_clock := c\<rparr>)) (a\<lparr>ac_clock := c\<rparr>)) (keybag_entry ws (new_entry keyID key)) db"
    have "share_install env order random ms ws keyID key a db = (case ?p of Inl e \<Rightarrow> (Inl e, a\<lparr>ac_clock := c\<rparr>, db)
        | Inr db' \<Rightarrow> (Inr (), a\<lparr>ac_clock := c, ac_workspaceKeys := (ac_workspaceKeys a)(ws \<mapsto> new_entry keyID key)\<rparr>, db'))"
      using assms(2) None tick Inr id by (simp add: share_install_def new_entry_def Let_def split: sum.split)
    then have eq: "(r, a', db') = (case ?p of Inl e \<Rightarrow> (Inl e, a\<lparr>ac_clock := c\<rparr>, db) | Inr db' \<Rightarrow> (Inr (), a\<lparr>ac_clock := c, ac_workspaceKeys := (ac_workspaceKeys a)(ws \<mapsto> new_entry keyID key)\<rparr>, db'))"
      unfolding assms(1) .
    show ?thesis
    proof (cases ?p)
      case (Inl e)
      have "db' = db \<and> a' = a\<lparr>ac_clock := c\<rparr>" using eq by (simp add: Inl)
      then show ?thesis by (intro that(1)) blast+
    next
      case (Inr db2)
      show ?thesis by (rule that(2) [OF None, of c clock]) (use eq in \<open>simp_all add: Inr\<close>)
    qed
  qed
next
  case (Some existing)
  have "db' = db \<and> a' = a" using assms Some by (auto simp: share_install_def)
  then show ?thesis by (intro that(1)) blast+
qed

lemma share_install_keeps:
  assumes laws: "crypto_laws env" and order: "map_order order" and st: "account_stored env unwrap derive a db"
    and i: "share_install env order random ms ws keyID key a db = (r, a', db')"
    and new: "valid_id ws" "length keyID = 16" "length key = 32" "fits env key"
  shows "account_stored env unwrap derive a' db' \<and> keeps_keys a a'"
proof -
  obtain b where sane: "keys_sane env a db" and u: "unlock_database env unwrap derive db = Inr b" and same: "same_keys b a"
    using st by (auto simp: account_stored_def)
  have "\<not> ac_locked a" using sane by (simp add: keys_sane_def)
  from i this consider "db' = db" "a' = a \<or> (\<exists>c. a' = a\<lparr>ac_clock := c\<rparr>)"
    | c clock where "ac_workspaceKeys a ws = None" "a' = a\<lparr>ac_clock := c, ac_workspaceKeys := (ac_workspaceKeys a)(ws \<mapsto> new_entry keyID key)\<rparr>"
      "persistNewWorkspaceKey env random (ac_rootKey a) (account_identity a) (ac_ID a) ws clock
         (snapshotKeybagWorkspaceKeys (order (a\<lparr>ac_clock := c\<rparr>)) (a\<lparr>ac_clock := c\<rparr>)) (keybag_entry ws (new_entry keyID key)) db = Inr db'"
    by (rule share_install_cases)
  then show ?thesis
  proof cases
    case 1
    then show ?thesis using st by auto
  next
    case 2
    let ?snap = "snapshotKeybagWorkspaceKeys (order (a\<lparr>ac_clock := c\<rparr>)) (a\<lparr>ac_clock := c\<rparr>)" and ?e = "new_entry keyID key"
    have v: "visits (order (a\<lparr>ac_clock := c\<rparr>)) (a\<lparr>ac_clock := c\<rparr>)" using order sane by (simp add: map_order_def keys_sane_def)
    from 2(3) obtain db1 where ins: "insert_workspace_key \<lparr>kr_key = keyID, kr_workspace = ws, kr_state = 1, kr_activated = clock\<rparr>
        (db\<lparr>kd_notes := (kd_notes db)\<lparr>nd_workspaces := insert ws (nd_workspaces (kd_notes db))\<rparr>\<rparr>) = Inr db1"
      and re: "reencryptKeybag env random (ac_rootKey a) (account_identity a) (ac_ID a) (?snap @ [keybag_entry ws ?e]) db1 = Inr db'"
      by (auto simp: persistNewWorkspaceKey_def err_simps new_entry_def)
    note db1 = insert_workspace_key_Inr [OF ins, simplified]
    have h: "held w a' = (if w = ws then ?e # held w a else held w a)" for w using 2(1,2) by (simp add: held_def)
    have "keys_sane env a' db1"
    proof -
      have "distinct (map ke_KeyID (held w a'))" for w
        using sane fresh_key_id [OF sane db1(5)] by (auto simp: h keys_sane_def new_entry_def)
      moreover have "workspace_key_wf env (keybag_entry w e) \<and> ke_KeyID e \<in> kr_key ` set (kd_keys db1)" if "e \<in> set (held w a')" for w e
        using that sane new_entry_wf [OF new] by (force simp: keys_sane_def h db1(4) new_entry_def split: if_splits)
      moreover have "keys_typed a'" using sane 2(1,2) by (auto simp: keys_sane_def keys_typed_def new_entry_def)
      moreover have "keybag_wf env (account_payload a' [])" "\<not> ac_locked a'" "finite (dom (ac_workspaceKeys a'))" "finite {w. ac_historicalWorkspaceKeys a' w \<noteq> []}"
        using sane by (simp_all add: keys_sane_def 2(2) account_payload_def)
      ultimately show ?thesis unfolding keys_sane_def by blast
    qed
    moreover have "list_all (workspace_key_wf env) (?snap @ [keybag_entry ws ?e])"
      using snapshot_wf [of env "a\<lparr>ac_clock := c\<rparr>" db] sane new_entry_wf [OF new]
      by (simp add: keys_sane_def keys_typed_def account_payload_def)
    moreover have "mset (entries w (?snap @ [keybag_entry ws ?e])) = mset (held w a')" for w
      by (simp add: entries_snapshot [OF v] h)
    ultimately have "account_stored env unwrap derive a' db'"
      by (intro stored_reencrypted [OF laws u same _ _ _ re]) (simp_all add: db1 2(2) account_identity_def)
    then show ?thesis by (auto simp: keeps_keys_def h)
  qed
qed

text \<open>In a rotation only the current key of the workspace is marked as historical.\<close>

definition mark_old :: "ID \<Rightarrow> bytes \<Rightarrow> keybagWorkspaceKey \<Rightarrow> keybagWorkspaceKey" where
  "mark_old ws old wk = (if wk_WorkspaceID wk = ws \<and> bytesEqual (wk_KeyID wk) old then wk\<lparr>wk_State := workspaceKeyStateHistorical\<rparr> else wk)"

lemma entries_mark_old:
  "entries w (map (mark_old ws old) wks) = map (\<lambda>e. if w = ws \<and> ke_KeyID e = old then e\<lparr>ke_State := 2\<rparr> else e) (entries w wks)"
  by (induction wks) (auto simp: mark_old_def entry_of_def)

lemma mark_old_wf: "list_all (workspace_key_wf env) wks \<Longrightarrow> list_all (workspace_key_wf env) (map (mark_old ws old) wks)"
  by (auto simp: list_all_iff mark_old_def workspace_key_wf_def workspaceKeyState_valid_def)

lemma rotation_install_cases:
  assumes "rotation_install env order random ms ws keyID key a db = (r, a', db')" "\<not> ac_locked a"
  obtains "db' = db" "a' = a \<or> (\<exists>c. a' = a\<lparr>ac_clock := c\<rparr>)"
    | c clock current where "ac_workspaceKeys a ws = Some current"
      "a' = a\<lparr>ac_clock := c, ac_historicalWorkspaceKeys := (ac_historicalWorkspaceKeys a)(ws := ac_historicalWorkspaceKeys a ws @ [current\<lparr>ke_State := 2\<rparr>]),
         ac_workspaceKeys := (ac_workspaceKeys a)(ws \<mapsto> new_entry keyID key)\<rparr>"
      "persistWorkspaceKeyRotation env random (ac_rootKey a) (account_identity a) (ac_ID a) ws clock (ke_KeyID current)
         (map (mark_old ws (ke_KeyID current)) (snapshotKeybagWorkspaceKeys (order (a\<lparr>ac_clock := c\<rparr>)) (a\<lparr>ac_clock := c\<rparr>)))
         (keybag_entry ws (new_entry keyID key)) db = Inr db'"
proof (cases "ac_workspaceKeys a ws")
  case (Some current)
  obtain t c where tick: "Tick ms (ac_clock a) = (t, c)" by fastforce
  have id: "account_identity (a\<lparr>ac_clock := c\<rparr>) = account_identity a" by (simp add: account_identity_def)
  show ?thesis
  proof (cases "ke_KeyID current = keyID")
    case True
    have "db' = db \<and> a' = a" using assms Some True by (auto simp: rotation_install_def)
    then show ?thesis by (intro that(1)) blast+
  next
    case False
    show ?thesis
    proof (cases t)
      case (Inl e)
      have "db' = db \<and> a' = a\<lparr>ac_clock := c\<rparr>" using assms False Some tick Inl by (auto simp: rotation_install_def)
      then show ?thesis by (intro that(1)) blast+
    next
      case (Inr clock)
      let ?p = "persistWorkspaceKeyRotation env random (ac_rootKey a) (account_identity a) (ac_ID a) ws clock (ke_KeyID current)
         (map (mark_old ws (ke_KeyID current)) (snapshotKeybagWorkspaceKeys (order (a\<lparr>ac_clock := c\<rparr>)) (a\<lparr>ac_clock := c\<rparr>)))
         (keybag_entry ws (new_entry keyID key)) db"
      have "rotation_install env order random ms ws keyID key a db = (case ?p of Inl e \<Rightarrow> (Inl e, a\<lparr>ac_clock := c\<rparr>, db)
          | Inr db' \<Rightarrow> (Inr (), a\<lparr>ac_clock := c,
              ac_historicalWorkspaceKeys := (ac_historicalWorkspaceKeys a)(ws := ac_historicalWorkspaceKeys a ws @ [current\<lparr>ke_State := 2\<rparr>]),
              ac_workspaceKeys := (ac_workspaceKeys a)(ws \<mapsto> new_entry keyID key)\<rparr>, db'))"
        using assms(2) False Some tick Inr id by (simp add: rotation_install_def new_entry_def mark_old_def [abs_def] Let_def split: sum.split)
      then have eq: "(r, a', db') = (case ?p of Inl e \<Rightarrow> (Inl e, a\<lparr>ac_clock := c\<rparr>, db) | Inr db' \<Rightarrow> (Inr (), a\<lparr>ac_clock := c,
              ac_historicalWorkspaceKeys := (ac_historicalWorkspaceKeys a)(ws := ac_historicalWorkspaceKeys a ws @ [current\<lparr>ke_State := 2\<rparr>]),
              ac_workspaceKeys := (ac_workspaceKeys a)(ws \<mapsto> new_entry keyID key)\<rparr>, db'))"
        unfolding assms(1) .
      show ?thesis
      proof (cases ?p)
        case (Inl e)
        have "db' = db \<and> a' = a\<lparr>ac_clock := c\<rparr>" using eq by (simp add: Inl)
        then show ?thesis by (intro that(1)) blast+
      next
        case (Inr db2)
        show ?thesis by (rule that(2) [OF Some, of c clock]) (use eq in \<open>simp_all add: Inr\<close>)
      qed
    qed
  qed
next
  case None
  have "db' = db \<and> a' = a" using assms None by (auto simp: rotation_install_def)
  then show ?thesis by (intro that(1)) blast+
qed

lemma rotation_install_keeps:
  assumes laws: "crypto_laws env" and order: "map_order order" and st: "account_stored env unwrap derive a db"
    and i: "rotation_install env order random ms ws keyID key a db = (r, a', db')"
    and new: "valid_id ws" "length keyID = 16" "length key = 32" "fits env key"
  shows "account_stored env unwrap derive a' db' \<and> keeps_keys a a'"
proof -
  obtain b where sane: "keys_sane env a db" and u: "unlock_database env unwrap derive db = Inr b" and same: "same_keys b a"
    using st by (auto simp: account_stored_def)
  have "\<not> ac_locked a" using sane by (simp add: keys_sane_def)
  from i this consider "db' = db" "a' = a \<or> (\<exists>c. a' = a\<lparr>ac_clock := c\<rparr>)"
    | c clock current where "ac_workspaceKeys a ws = Some current"
      "a' = a\<lparr>ac_clock := c, ac_historicalWorkspaceKeys := (ac_historicalWorkspaceKeys a)(ws := ac_historicalWorkspaceKeys a ws @ [current\<lparr>ke_State := 2\<rparr>]),
         ac_workspaceKeys := (ac_workspaceKeys a)(ws \<mapsto> new_entry keyID key)\<rparr>"
      "persistWorkspaceKeyRotation env random (ac_rootKey a) (account_identity a) (ac_ID a) ws clock (ke_KeyID current)
         (map (mark_old ws (ke_KeyID current)) (snapshotKeybagWorkspaceKeys (order (a\<lparr>ac_clock := c\<rparr>)) (a\<lparr>ac_clock := c\<rparr>)))
         (keybag_entry ws (new_entry keyID key)) db = Inr db'"
    by (rule rotation_install_cases)
  then show ?thesis
  proof cases
    case 1
    then show ?thesis using st by auto
  next
    case 2
    let ?snap = "snapshotKeybagWorkspaceKeys (order (a\<lparr>ac_clock := c\<rparr>)) (a\<lparr>ac_clock := c\<rparr>)" and ?e = "new_entry keyID key"
    let ?old = "current\<lparr>ke_State := 2\<rparr>"
    have v: "visits (order (a\<lparr>ac_clock := c\<rparr>)) (a\<lparr>ac_clock := c\<rparr>)" using order sane by (simp add: map_order_def keys_sane_def)
    from 2(3) obtain db1 where ins: "insert_workspace_key \<lparr>kr_key = keyID, kr_workspace = ws, kr_state = 1, kr_activated = clock\<rparr>
        (db\<lparr>kd_keys := map (\<lambda>r. if kr_workspace r = ws \<and> kr_key r = ke_KeyID current then r\<lparr>kr_state := 2\<rparr> else r) (kd_keys db)\<rparr>) = Inr db1"
      and re: "reencryptKeybag env random (ac_rootKey a) (account_identity a) (ac_ID a) (map (mark_old ws (ke_KeyID current)) ?snap @ [keybag_entry ws ?e]) db1 = Inr db'"
      by (auto simp: persistWorkspaceKeyRotation_def err_simps new_entry_def)
    note db1 = insert_workspace_key_Inr [OF ins]
    let ?keys = "map (\<lambda>r. if kr_workspace r = ws \<and> kr_key r = ke_KeyID current then r\<lparr>kr_state := 2\<rparr> else r) (kd_keys db)"
    have "kr_key ` set ?keys = kr_key ` set (kd_keys db)" unfolding set_map image_image by (rule image_cong) auto
    then have fresh: "keyID \<notin> kr_key ` set (kd_keys db)" and known: "kr_key ` set (kd_keys db1) = insert keyID (kr_key ` set (kd_keys db))"
      using db1(4,5) by simp_all
    have ha: "held ws a = current # ac_historicalWorkspaceKeys a ws" using 2(1) by (simp add: held_def)
    have h: "held w a' = (if w = ws then ?e # ac_historicalWorkspaceKeys a ws @ [?old] else held w a)" for w using 2(1,2) by (simp add: held_def)
    have wf: "workspace_key_wf env (keybag_entry ws current)" "distinct (ke_KeyID current # map ke_KeyID (ac_historicalWorkspaceKeys a ws))"
      using sane ha unfolding keys_sane_def by (metis list.set_intros(1), metis list.map(2))
    have "keys_sane env a' db1"
    proof -
      have "finite {w. ac_historicalWorkspaceKeys a' w \<noteq> []}"
        using sane by (rule_tac finite_subset [where B = "insert ws {w. ac_historicalWorkspaceKeys a w \<noteq> []}"]) (auto simp: 2(2) keys_sane_def)
      moreover have "distinct (map ke_KeyID (held w a'))" for w
      proof (cases "w = ws")
        case True
        have "ke_KeyID e \<noteq> keyID" if "e \<in> set (current # ac_historicalWorkspaceKeys a ws)" for e
          using fresh_key_id [OF sane fresh, of e ws] that ha by simp
        with True wf(2) show ?thesis by (auto simp: h new_entry_def)
      qed (use sane in \<open>simp add: h keys_sane_def\<close>)
      moreover have "workspace_key_wf env (keybag_entry w e) \<and> ke_KeyID e \<in> kr_key ` set (kd_keys db1)" if "e \<in> set (held w a')" for w e
      proof -
        have "e' \<in> set (held w a) \<Longrightarrow> workspace_key_wf env (keybag_entry w e') \<and> ke_KeyID e' \<in> kr_key ` set (kd_keys db)" for e'
          using sane by (force simp: keys_sane_def)
        moreover have "workspace_key_wf env (keybag_entry ws ?old)" using wf(1) by (simp add: workspace_key_wf_def workspaceKeyState_valid_def)
        ultimately show ?thesis using that new_entry_wf [OF new] ha by (auto simp: h known new_entry_def split: if_splits)
      qed
      moreover have "keys_typed a'" using sane 2 by (auto simp: keys_sane_def keys_typed_def new_entry_def)
      moreover have "keybag_wf env (account_payload a' [])" "\<not> ac_locked a'" "finite (dom (ac_workspaceKeys a'))"
        using sane by (simp_all add: keys_sane_def 2(2) account_payload_def)
      ultimately show ?thesis unfolding keys_sane_def by blast
    qed
    moreover have "list_all (workspace_key_wf env) (map (mark_old ws (ke_KeyID current)) ?snap @ [keybag_entry ws ?e])"
      using mark_old_wf [OF snapshot_wf [of env "a\<lparr>ac_clock := c\<rparr>" db]] sane new_entry_wf [OF new]
      by (simp add: keys_sane_def keys_typed_def account_payload_def)
    moreover have "mset (entries w (map (mark_old ws (ke_KeyID current)) ?snap @ [keybag_entry ws ?e])) = mset (held w a')" for w
    proof -
      have "map (\<lambda>e. if ke_KeyID e = ke_KeyID current then e\<lparr>ke_State := 2\<rparr> else e) (ac_historicalWorkspaceKeys a ws) = ac_historicalWorkspaceKeys a ws"
        using wf(2) by (intro map_idI) (auto simp: image_iff)
      then show ?thesis by (simp add: entries_mark_old entries_snapshot [OF v] h ha del: mset_map)
    qed
    ultimately have "account_stored env unwrap derive a' db'"
      by (intro stored_reencrypted [OF laws u same _ _ _ re]) (simp_all add: db1 2(2) account_identity_def)
    then show ?thesis using ha by (auto simp: keeps_keys_def h)
  qed
qed

section \<open>A new account is stored\<close>

lemma NewKeybagHeader_Inr:
  assumes "NewKeybagHeader i v params = Inr header"
  shows "KB_KDF header = params" "KB_KeybagVersion header = v" "KDF_CryptoProfile params = CryptoProfileV1" "KDF_Algorithm params = ''argon2id''"
    "KDF_DerivedKeyBytes params = 32"
  using assms by (auto simp: NewKeybagHeader_def Let_def err_simps KeybagHeader_validate_def Argon2idParams_Validate_def split: if_splits)

lemma NewClock_stored:
  assumes "valid_id device" "d = \<lparr>dv_id = device, dv_public = key, dv_status = 1, dv_physical = physical, dv_logical = logical\<rparr>"
    "\<forall>x \<in> set ds. dv_id x \<noteq> device" "nd_devices notes = ds @ [d]"
  shows "\<exists>persisted clock. LoadDeviceClock device notes = Inr persisted \<and> NewClock device persisted 0 = Inr clock"
proof -
  have "find (\<lambda>x. dv_id x = device) ds = None" using assms(3) by (simp add: find_None_iff)
  then have f: "find (\<lambda>x. dv_id x = device) (nd_devices notes) = Some d" using assms(2,4) by (simp add: find_append)
  show ?thesis using assms(1,2) by (auto simp: LoadDeviceClock_def f NewClock_def HLC_Validate_def zero_HLC_def HLC_IsZero_def ID_IsZero_def)
qed

lemma created_stored:
  assumes laws: "crypto_laws env" "box_laws bx" and ids: "valid_id accountID" "valid_id device" "valid_id ws" and fresh: "kd_accounts db = []"
    and wrap: "\<And>k e. wrap k = Inr e \<Longrightarrow> unwrap e = Inr k"
    and c: "createAccountContent env bx draws wrap calibrated derive accountID device ws createdClock db = Inr (a, db')"
  shows "account_stored env unwrap derive a db'"
proof -
  from c obtain ip isec ap asec dp dsec signing keyID key params root header bytes enc clk where
    g: "generateX25519Identity env bx (dr_identity draws) = Inr (ip, isec)" "generateEd25519Key env (dr_authority draws) = Inr (ap, asec)"
      "wrap dsec = Inr signing" "read_full 16 (dr_keyID draws) = Inr keyID" "read_full 32 (dr_key draws) = Inr key" "TakeSecret env key = Inr key"
      "derive params = Inr root" "NewKeybagHeader (ID_Bytes accountID) 1 params = Inr header"
    and e: "encodeKeybagPlaintext env (account_payload a [keybag_entry ws (new_entry keyID key)]) = Inr bytes"
      "EncryptKeybag env (Some root) header (Some bytes) (dr_nonce draws) = Inr enc"
    and ins: "insertNewAccount accountID device ws keyID dp signing enc createdClock db = Inr db'"
    and a: "a = \<lparr>ac_ID = accountID, ac_DeviceID = device, ac_IdentityPublicKey = ip, ac_AuthorityPublicKey = ap, ac_DevicePublicKey = dp, ac_locked = False,
      ac_identityPrivate = Some isec, ac_authorityPrivate = Some asec, ac_devicePrivate = Some dsec, ac_rootKey = Some root,
      ac_workspaceKeys = [ws \<mapsto> new_entry keyID key], ac_historicalWorkspaceKeys = (\<lambda>_. []), ac_clock = clk\<rparr>"
    by (auto simp: createAccountContent_def err_simps Let_def new_entry_def account_payload_def TakeSecret_iff)
  have l: "length ip = 32" "length isec = 32" "fits env isec" "length ap = 32" "length asec = 64" "fits env asec" "length keyID = 16" "length key = 32" "fits env key"
    using g laws by (auto simp: generateX25519Identity_def generateEd25519Key_def read_full_def TakeSecret_iff err_simps box_laws_def crypto_laws_def
        split: option.splits if_splits)
  let ?wks = "[keybag_entry ws (new_entry keyID key)]"
  have wf: "keybag_wf env (account_payload a ?wks)"
    using l new_entry_wf [OF ids(3) l(7-9)] by (simp add: keybag_wf_def account_payload_def a)
  have bytes: "bytes = payload_bytes (account_payload a ?wks)" "fits env bytes" using e(1) by (auto simp: encodeKeybagPlaintext_iff)
  have d: "decodeKeybagPlaintext env (Some bytes) = Inr (account_payload a ?wks)" unfolding bytes(1) by (rule decode_payload_bytes [OF wf])
  have o1: "OpenKeybag env (Some root) enc = Inr bytes" "EK_Header enc = header"
    using EncryptKeybag_open [OF laws(1) e(2)] bytes(2) by (auto simp: fits_def)
  then have o2: "OpenKeybag env (Some root) \<lparr>EK_Header = header, EK_Nonce = EK_Nonce enc, EK_Ciphertext = EK_Ciphertext enc\<rparr> = Inr bytes"
    by (metis (full_types) EncryptedKeybag.surjective old.unit.exhaust)
  note hd = NewKeybagHeader_Inr [OF g(8)]
  let ?row = "\<lparr>ar_id = accountID, ar_keybagVersion = 1, ar_keybagNonce = EK_Nonce enc, ar_keybagCiphertext = EK_Ciphertext enc, ar_kdfSalt = KDF_Salt params,
      ar_kdfMemoryKiB = KDF_MemoryKiB params, ar_kdfTimeCost = KDF_TimeCost params, ar_kdfParallelism = KDF_Parallelism params\<rparr>"
  let ?dev = "\<lparr>ld_id = device, ld_publicKey = dp, ld_signingKeyEnvelope = signing\<rparr>"
  have kdf: "row_kdf ?row = params" using hd by (cases params) (simp add: row_kdf_def)
  from ins have db': "kd_accounts db' = [?row]" "kd_local db' = Some ?dev" "keyID \<in> kr_key ` set (kd_keys db')"
    "nd_devices (kd_notes db') = nd_devices (kd_notes db) @ [\<lparr>dv_id = device, dv_public = dp, dv_status = 1, dv_physical = PhysicalMS createdClock, dv_logical = Logical createdClock\<rparr>]"
    "\<forall>x \<in> set (nd_devices (kd_notes db)). dv_id x \<noteq> device"
    using hd o1(2) by (auto simp: insertNewAccount_def insert_workspace_key_def Let_def list_ex_iff fresh split: if_splits)
  obtain persisted clock where c: "LoadDeviceClock device (kd_notes db') = Inr persisted" "NewClock device persisted 0 = Inr clock"
    using NewClock_stored [OF ids(2) refl db'(5,4)] by blast
  have u: "unlock_database env unwrap derive db' = Inr (unlocked_account ?row ?dev dsec root (account_payload a ?wks) clock)"
    using ids g(8) d o2 c wrap [OF g(3)] g(7)
    by (simp add: unlock_database_def loadAccountRow_def db' in_id_def kdf unlockAccountContent_def loadLocalDeviceRow_def Let_def unlocked_account_def)
  have "same_keys (unlocked_account ?row ?dev dsec root (account_payload a ?wks) clock) a"
    by (simp add: same_keys_def unlocked_account_def account_identity_def account_payload_def a load_key_def new_entry_def Let_def)
  moreover have "keys_sane env a db'"
    using wf l new_entry_wf [OF ids(3) l(7-9)] db'(3)
    by (auto simp: keys_sane_def keys_typed_def held_def a account_payload_def keybag_wf_def new_entry_def split: if_splits option.splits)
  ultimately show ?thesis using u by (auto simp: account_stored_def)
qed

section \<open>Histories\<close>

text \<open>
  What happens to the keys of a device: a share or a rotation arrives, with the nonce and the time of its
  writing, or the application is closed and the account unlocked again.
\<close>

datatype key_event =
  ShareArrives "bytes option" int ID bytes bytes bytes bytes
| RotationArrives "bytes option" int ID bytes bytes bytes bytes "ID list"
| Restart

fun key_step ::
  "crypto_env \<Rightarrow> box_env \<Rightarrow> (Account \<Rightarrow> ID list \<times> ID list) \<Rightarrow> (bytes \<Rightarrow> account_error + bytes) \<Rightarrow> (Argon2idParams \<Rightarrow> crypto_error + bytes)
   \<Rightarrow> key_event \<Rightarrow> Account \<times> key_db \<Rightarrow> Account \<times> key_db" where
  "key_step env bx order unwrap derive (ShareArrives random ms w keyID sealed inviter signature) (a, db) =
     snd (AcceptWorkspaceShare env bx order random ms w keyID sealed inviter signature a db)"
| "key_step env bx order unwrap derive (RotationArrives random ms w keyID sealed rotator signature recipients) (a, db) =
     snd (AcceptWorkspaceKeyRotation env bx order random ms w keyID sealed rotator signature recipients a db)"
| "key_step env bx order unwrap derive Restart (a, db) =
     (case unlock_database env unwrap derive db of Inl _ \<Rightarrow> (Lock a, db) | Inr b \<Rightarrow> (b, db))"

text \<open>An envelope that this account can open holds a key of 32 bytes.\<close>

definition sealed_key :: "crypto_env \<Rightarrow> box_env \<Rightarrow> Account \<Rightarrow> bytes \<Rightarrow> bool" where
  "sealed_key env bx a sealed \<longleftrightarrow>
     (case OpenWorkspaceKeyEnvelope env bx CryptoProfileV1 (ac_IdentityPublicKey a) (ac_identityPrivate a) sealed of
        Inl _ \<Rightarrow> True | Inr key \<Rightarrow> length key = workspaceKeyBytes)"

fun proper_event :: "crypto_env \<Rightarrow> box_env \<Rightarrow> Account \<Rightarrow> key_event \<Rightarrow> bool" where
  "proper_event env bx a (ShareArrives _ _ _ _ sealed _ _) \<longleftrightarrow> sealed_key env bx a sealed"
| "proper_event env bx a (RotationArrives _ _ _ _ sealed _ _ _) \<longleftrightarrow> sealed_key env bx a sealed"
| "proper_event env bx a Restart \<longleftrightarrow> True"

lemma OpenWorkspaceKeyEnvelope_fits: "OpenWorkspaceKeyEnvelope env bx p pub priv sealed = Inr key \<Longrightarrow> fits env key"
  by (auto simp: OpenWorkspaceKeyEnvelope_def err_simps TakeSecret_iff split: if_splits option.splits)

lemma share_open_Inr:
  assumes "share_open env bx w keyID sealed inviter signature a = Inr (Some key)" "sealed_key env bx a sealed"
  shows "valid_id w" "length keyID = 16" "length key = 32" "fits env key"
  using assms OpenWorkspaceKeyEnvelope_fits
  by (auto simp: share_open_def err_simps sealed_key_def split: if_splits option.splits)

lemma rotation_open_Inr:
  assumes "rotation_open env bx w keyID sealed rotator signature recipients a = Inr (Some key)" "sealed_key env bx a sealed"
  shows "valid_id w" "length keyID = 16" "length key = 32" "fits env key"
  using assms OpenWorkspaceKeyEnvelope_fits
  by (auto simp: rotation_open_def err_simps sealed_key_def split: if_splits option.splits)

lemma install_identity:
  "share_install env order random ms w keyID key a db = (r, a', db') \<Longrightarrow> \<not> ac_locked a \<Longrightarrow> account_identity a' = account_identity a"
  "rotation_install env order random ms w keyID key a db = (r, a', db') \<Longrightarrow> \<not> ac_locked a \<Longrightarrow> account_identity a' = account_identity a"
  by (erule share_install_cases; force simp: account_identity_def) (erule rotation_install_cases; force simp: account_identity_def)


text \<open>One event keeps the account stored, its identity and every key that it holds.\<close>

definition key_invariant ::
  "crypto_env \<Rightarrow> (bytes \<Rightarrow> account_error + bytes) \<Rightarrow> (Argon2idParams \<Rightarrow> crypto_error + bytes) \<Rightarrow> Account \<Rightarrow> Account \<times> key_db \<Rightarrow> bool" where
  "key_invariant env unwrap derive a0 s \<longleftrightarrow>
     account_stored env unwrap derive (fst s) (snd s) \<and> account_identity (fst s) = account_identity a0 \<and> keeps_keys a0 (fst s)"

lemma sealed_key_identity: "account_identity a = account_identity b \<Longrightarrow> sealed_key env bx a sealed = sealed_key env bx b sealed"
  by (simp add: sealed_key_def account_identity_def)

lemma restart_keeps:
  assumes "account_stored env unwrap derive a db"
  shows "\<exists>b. unlock_database env unwrap derive db = Inr b \<and> account_stored env unwrap derive b db \<and> account_identity b = account_identity a \<and> keeps_keys a b"
proof -
  obtain b where sane: "keys_sane env a db" and u: "unlock_database env unwrap derive db = Inr b" and same: "same_keys b a"
    using assms by (auto simp: account_stored_def)
  have ms: "mset (ac_historicalWorkspaceKeys b w) = mset (ac_historicalWorkspaceKeys a w)" "ac_workspaceKeys b = ac_workspaceKeys a" for w
    using same by (simp_all add: same_keys_def)
  then have h: "mset (held w b) = mset (held w a)" for w by (simp add: held_def)
  have sets: "set (held w b) = set (held w a)" "set (ac_historicalWorkspaceKeys b w) = set (ac_historicalWorkspaceKeys a w)" for w
    using h ms(1) by (metis set_mset_mset)+
  have "(ac_historicalWorkspaceKeys b w = []) = (ac_historicalWorkspaceKeys a w = [])" for w using ms(1) [of w] by (metis mset_zero_iff)
  moreover have "distinct (map ke_KeyID (held w b)) = distinct (map ke_KeyID (held w a))" for w
    using h [of w] by (metis mset_eq_imp_distinct_iff mset_map)
  moreover have "account_payload b [] = account_payload a []" "ac_locked b = ac_locked a"
    using same by (auto simp: same_keys_def account_payload_def account_identity_def)
  ultimately have "keys_sane env b db" using sane by (simp add: keys_sane_def keys_typed_def sets ms(2))
  moreover have "same_keys b b" by (simp add: same_keys_def)
  ultimately show ?thesis using u same sets by (auto simp: account_stored_def same_keys_def keeps_keys_def)
qed

lemma key_step_invariant:
  assumes laws: "crypto_laws env" "map_order order" and inv: "key_invariant env unwrap derive a0 s" and ev: "proper_event env bx a0 ev"
  shows "key_invariant env unwrap derive a0 (key_step env bx order unwrap derive ev s)"
proof -
  obtain a db where s: "s = (a, db)" by fastforce
  have st: "account_stored env unwrap derive a db" and id: "account_identity a = account_identity a0" and k: "keeps_keys a0 a"
    using inv by (simp_all add: key_invariant_def s)
  have unlocked: "\<not> ac_locked a" using st by (simp add: account_stored_def keys_sane_def)
  have fin: "key_invariant env unwrap derive a0 (a', db')"
    if "account_stored env unwrap derive a' db' \<and> keeps_keys a a'" "account_identity a' = account_identity a" for a' db'
    using that id keeps_keys_trans [OF k] by (auto simp: key_invariant_def)
  show ?thesis
  proof (cases ev)
    case (ShareArrives random ms w keyID sealed inviter signature)
    have sk: "sealed_key env bx a sealed" using ev ShareArrives sealed_key_identity [OF id] by simp
    have "key_invariant env unwrap derive a0 (snd (AcceptWorkspaceShare env bx order random ms w keyID sealed inviter signature a db))"
    proof (cases "\<exists>key. share_open env bx w keyID sealed inviter signature a = Inr (Some key)")
      case True
      then obtain key where o: "share_open env bx w keyID sealed inviter signature a = Inr (Some key)" by blast
      obtain r a' db' where i: "share_install env order random ms w keyID key a db = (r, a', db')" by (metis prod_cases3)
      show ?thesis using fin [OF share_install_keeps [OF laws st i share_open_Inr [OF o sk]] install_identity(1) [OF i unlocked]]
        by (simp add: AcceptWorkspaceShare_def o i)
    next
      case False
      then show ?thesis using inv by (auto simp: AcceptWorkspaceShare_def s split: sum.split option.split)
    qed
    then show ?thesis by (simp add: s ShareArrives)
  next
    case (RotationArrives random ms w keyID sealed rotator signature recipients)
    have sk: "sealed_key env bx a sealed" using ev RotationArrives sealed_key_identity [OF id] by simp
    have "key_invariant env unwrap derive a0 (snd (AcceptWorkspaceKeyRotation env bx order random ms w keyID sealed rotator signature recipients a db))"
    proof (cases "\<exists>key. rotation_open env bx w keyID sealed rotator signature recipients a = Inr (Some key)")
      case True
      then obtain key where o: "rotation_open env bx w keyID sealed rotator signature recipients a = Inr (Some key)" by blast
      obtain r a' db' where i: "rotation_install env order random ms w keyID key a db = (r, a', db')" by (metis prod_cases3)
      show ?thesis using fin [OF rotation_install_keeps [OF laws st i rotation_open_Inr [OF o sk]] install_identity(2) [OF i unlocked]]
        by (simp add: AcceptWorkspaceKeyRotation_def o i)
    next
      case False
      then show ?thesis using inv by (auto simp: AcceptWorkspaceKeyRotation_def s split: sum.split option.split)
    qed
    then show ?thesis by (simp add: s RotationArrives)
  next
    case Restart
    obtain b where "unlock_database env unwrap derive db = Inr b" "account_stored env unwrap derive b db" "account_identity b = account_identity a" "keeps_keys a b"
      using restart_keeps [OF st] by blast
    then show ?thesis using fin [of b db] by (simp add: s Restart)
  qed
qed

lemma key_run_invariant:
  assumes "crypto_laws env" "map_order order" "key_invariant env unwrap derive a0 s" "list_all (proper_event env bx a0) evs"
  shows "key_invariant env unwrap derive a0 (fold (key_step env bx order unwrap derive) evs s)"
  using assms(3,4)
proof (induction evs arbitrary: s)
  case (Cons ev evs)
  have "key_invariant env unwrap derive a0 (key_step env bx order unwrap derive ev s)"
    using Cons.prems by (intro key_step_invariant [OF assms(1,2)]) simp_all
  with Cons show ?case by simp
qed simp

lemma find_key_id:
  assumes "distinct (map f xs)" shows "find (\<lambda>x. f x = k) xs = Some x \<longleftrightarrow> x \<in> set xs \<and> f x = k"
  using assms by (induction xs) auto

lemma workspaceKeyByID_held:
  assumes "keys_sane env a db" shows "workspaceKeyByID w k a = Some e \<longleftrightarrow> e \<in> set (held w a) \<and> ke_KeyID e = k"
proof -
  have "workspaceKeyByID w k a = find (\<lambda>e. ke_KeyID e = k) (held w a)"
    using assms by (auto simp: workspaceKeyByID_def held_def equalKeyID_def keys_sane_def split: option.split)
  moreover have "distinct (map ke_KeyID (held w a))" using assms by (simp add: keys_sane_def)
  ultimately show ?thesis by (simp add: find_key_id)
qed

lemma key_invariant_lookup:
  assumes "key_invariant env unwrap derive a (b, db)" "account_stored env unwrap derive a db0" "workspaceKeyByID w k a = Some e"
  shows "\<exists>e'. workspaceKeyByID w k b = Some e' \<and> ke_Key e' = ke_Key e"
proof -
  have sane: "keys_sane env b db" "keys_sane env a db0" using assms(1,2) by (simp_all add: key_invariant_def account_stored_def)
  have "e \<in> set (held w a)" "ke_KeyID e = k" using assms(3) by (simp_all add: workspaceKeyByID_held [OF sane(2)])
  then show ?thesis using assms(1) by (fastforce simp: key_invariant_def keeps_keys_def workspaceKeyByID_held [OF sane(1)])
qed

text \<open>
  C6. No key is ever lost. Take an account from its creation through any history of shares, rotations and
  restarts in which every envelope that the account can open holds a key of 32 bytes, whether the single steps
  succeed or fail and in whatever order the maps are visited. A workspace key that the account can look up at some
  moment can be looked up, with the same bytes, at every later moment; so what was encrypted before a
  rotation stays readable, and the account always unlocks.
\<close>

theorem keys_survive:
  assumes "crypto_laws env" "box_laws bx" "map_order order" and "valid_id accountID" "valid_id device" "valid_id ws" "kd_accounts db = []"
    and "\<And>k e. wrap k = Inr e \<Longrightarrow> unwrap e = Inr k"
    and "createAccountContent env bx draws wrap calibrated derive accountID device ws createdClock db = Inr (a0, db0)"
    and "list_all (proper_event env bx a0) (before @ after)"
    and "fold (key_step env bx order unwrap derive) before (a0, db0) = (a1, db1)"
    and "fold (key_step env bx order unwrap derive) after (a1, db1) = (a2, db2)"
  shows "\<not> ac_locked a2 \<and> (\<forall>w k e. workspaceKeyByID w k a1 = Some e \<longrightarrow> (\<exists>e'. workspaceKeyByID w k a2 = Some e' \<and> ke_Key e' = ke_Key e))"
proof -
  have "account_stored env unwrap derive a0 db0" by (rule created_stored [OF assms(1,2,4-9)])
  then have "key_invariant env unwrap derive a0 (a0, db0)" by (simp add: key_invariant_def)
  from key_run_invariant [OF assms(1,3) this, of bx before] have i1: "account_stored env unwrap derive a1 db1" "account_identity a1 = account_identity a0"
    using assms(10,11) by (simp_all add: key_invariant_def)
  have "proper_event env bx a1 ev = proper_event env bx a0 ev" for ev by (cases ev) (simp_all add: sealed_key_identity [OF i1(2)])
  then have "list_all (proper_event env bx a1) after" using assms(10) by (simp add: list_all_iff)
  moreover have "key_invariant env unwrap derive a1 (a1, db1)" using i1 by (simp add: key_invariant_def)
  ultimately have i2: "key_invariant env unwrap derive a1 (a2, db2)"
    using key_run_invariant [OF assms(1,3), of unwrap derive a1 "(a1, db1)" bx after] assms(12) by simp
  then have "\<not> ac_locked a2" by (simp add: key_invariant_def account_stored_def keys_sane_def)
  then show ?thesis using key_invariant_lookup [OF i2 i1(1)] by blast
qed

section \<open>A sealed key of a wrong size\<close>

lemma decode_odd_key:
  assumes "list_all (workspace_key_wf env) wks" "wk_Key wk = Some key" "length key < 2 ^ 32" "length key \<noteq> 32" "length (wk_KeyID wk) = 16" "valid_id (wk_WorkspaceID wk)"
  shows "decode_workspace_keys env (length wks + 1) (concat (map key_bytes wks) @ key_bytes wk) = Inl ErrInvalidKeybagPayload"
  using assms(1)
proof (induction wks)
  case Nil
  have r: "readLP (appendLP [] x @ y) = Inr (x, y)" if "length x < 2 ^ 32" for x y using that by (simp add: readLP_iff)
  show ?case using assms by (simp add: decode_workspace_key_def key_bytes_def r in_id_def Let_def)
next
  case (Cons k wks)
  have "decode_workspace_key env (key_bytes k @ rest) = Inr (k, rest)" for rest using Cons.prems by (simp add: decode_workspace_key_iff)
  with Cons show ?case by simp
qed

lemma decode_odd_payload:
  assumes wf: "keybag_wf env (account_payload a wks)" and n: "length wks < 4096"
    and odd: "wk_Key wk = Some key" "length key < 2 ^ 32" "length key \<noteq> 32" "length (wk_KeyID wk) = 16" "valid_id (wk_WorkspaceID wk)"
  shows "decodeKeybagPlaintext env (Some (payload_bytes (account_payload a (wks @ [wk])))) = Inl ErrInvalidKeybagPayload"
proof -
  obtain ip ap where k: "ac_identityPrivate a = Some ip" "ac_authorityPrivate a = Some ap" "length ip = 32" "length ap = 64" "fits env ip" "fits env ap"
    and l: "length (ac_IdentityPublicKey a) = 32" "length (ac_AuthorityPublicKey a) = 32" and w: "list_all (workspace_key_wf env) wks"
    using wf by (auto simp: keybag_wf_def account_payload_def split: option.splits)
  have r: "readLP (appendLP [] x @ y) = Inr (x, y)" if "length x \<le> 64" for x y using that by (simp add: readLP_iff)
  have u: "readU32 (appendU32 [] v @ y) = Inr (v, y)" for v y by (simp add: readU32_iff)
  have c: "unat (word_of_nat (Suc (length wks)) :: u32) = Suc (length wks)" using n unat_of_nat [of "Suc (length wks)", where 'a = 32] by simp
  have t: "TakeSecret env ip = Inr ip" "TakeSecret env ap = Inr ap" using k by (simp_all add: TakeSecret_iff)
  show ?thesis
    using k l n decode_odd_key [OF w odd]
    by (simp add: decodeKeybagPlaintext_def payload_bytes_def account_payload_def Let_def keybag_lengths r u t c del: of_nat_Suc)
qed

text \<open>
  C39. A sealed key of a wrong size locks the account out. Sharing checks neither the size of the key that it opens
  nor the size of the keys that it writes; reading the keybag does. So when a share whose envelope holds anything
  but 32 bytes is accepted, the call succeeds, and from then on the stored account cannot be unlocked.
\<close>

theorem odd_key_locks_out:
  assumes "crypto_laws env" "map_order order" "account_stored env unwrap derive a db" "ac_workspaceKeys a ws = None"
    and "OpenWorkspaceKeyEnvelope env bx CryptoProfileV1 (ac_IdentityPublicKey a) (ac_identityPrivate a) sealed = Inr key" "length key \<noteq> workspaceKeyBytes"
    and "AcceptWorkspaceShare env bx order random ms ws keyID sealed inviter signature a db = (Inr (), a', db')"
  shows "unlock_database env unwrap derive db' = Inl ErrInvalidKeybagPayload"
proof -
  obtain b where sane: "keys_sane env a db" and u: "unlock_database env unwrap derive db = Inr b" and same: "same_keys b a"
    using assms(3) by (auto simp: account_stored_def)
  have unlocked: "\<not> ac_locked a" using sane by (simp add: keys_sane_def)
  have o: "valid_id ws" "length keyID = 16" "share_install env order random ms ws keyID key a db = (Inr (), a', db')"
    using assms(4,5,7) unlocked by (auto simp: AcceptWorkspaceShare_def share_open_def err_simps split: if_splits sum.splits)
  obtain t c where tick: "Tick ms (ac_clock a) = (t, c)" by fastforce
  let ?a = "a\<lparr>ac_clock := c\<rparr>" and ?e = "keybag_entry ws (new_entry keyID key)"
  have id: "account_identity ?a = account_identity a" by (simp add: account_identity_def)
  obtain clock where p: "persistNewWorkspaceKey env random (ac_rootKey a) (account_identity a) (ac_ID a) ws clock (snapshotKeybagWorkspaceKeys (order ?a) ?a) ?e db = Inr db'"
    using o(3) assms(4) unlocked tick id by (cases t) (auto simp: share_install_def new_entry_def Let_def split: sum.splits)
  then obtain db1 where ins: "insert_workspace_key \<lparr>kr_key = keyID, kr_workspace = ws, kr_state = 1, kr_activated = clock\<rparr>
        (db\<lparr>kd_notes := (kd_notes db)\<lparr>nd_workspaces := insert ws (nd_workspaces (kd_notes db))\<rparr>\<rparr>) = Inr db1"
    and re: "reencryptKeybag env random (ac_rootKey b) (account_identity a) (ac_ID b) (snapshotKeybagWorkspaceKeys (order ?a) ?a @ [?e]) db1 = Inr db'"
    using same by (auto simp: persistNewWorkspaceKey_def err_simps new_entry_def same_keys_def)
  note db1 = insert_workspace_key_Inr [OF ins, simplified]
  note r = unlock_rewritten [OF assms(1) u _ _ _ re]
  have wf: "list_all (workspace_key_wf env) (snapshotKeybagWorkspaceKeys (order ?a) ?a)"
    using snapshot_wf [of env ?a db] sane by (simp add: keys_sane_def keys_typed_def account_payload_def)
  have l: "length key < 2 ^ 32"
    using assms(5) crypto_laws_def [of env] assms(1) order_trans [of "length key" "ce_capacity env key" MaxSecretBytes] OpenWorkspaceKeyEnvelope_fits [OF assms(5)]
    by (auto simp: fits_def MaxSecretBytes_def)
  have "keybag_wf env (account_payload a (snapshotKeybagWorkspaceKeys (order ?a) ?a))" "length (snapshotKeybagWorkspaceKeys (order ?a) ?a) < 4096"
    using wf sane r(3) by (simp_all add: identity_wf_iff [of env a "snapshotKeybagWorkspaceKeys (order ?a) ?a"] keys_sane_def db1)
  from decode_odd_payload [OF this, of ?e key] show ?thesis
    using r(1) l assms(6) o(1,2) by (simp add: db1 new_entry_def)
qed


section \<open>Concrete accounts\<close>

lemma EncryptKeybag_total:
  assumes "crypto_laws env" "KeybagHeader_validate header = Inr ()" "length root = 32" "length nonce = 24" "fits env plaintext"
  shows "\<exists>keybag. EncryptKeybag env (Some root) header (Some plaintext) (Some nonce) = Inr keybag"
proof -
  have "length plaintext \<le> MaxSecretBytes" using assms(1,5) unfolding crypto_laws_def fits_def by (metis order_trans)
  moreover have "KB_CryptoProfile header = CryptoProfileV1" "length (KB_AccountID header) = 16"
    using assms(2) by (auto simp: KeybagHeader_validate_def split: if_splits)
  ultimately show ?thesis using assms
    by (simp add: EncryptKeybag_def CanonicalKeybagAAD_def DeriveKeybagKey_def deriveHKDF_def validHKDFDomain_def sealXChaCha_def crypto_laws_def fits_def Let_def)
qed

lemma reencrypt_total:
  assumes laws: "crypto_laws env" and u: "unlock_database env unwrap derive db = Inr b" and same: "same_keys b a" and db1: "kd_accounts db1 = kd_accounts db"
    and e: "encodeKeybagPlaintext env (account_payload a wks) = Inr bytes" and n: "length nonce = 24"
  shows "\<exists>db2. reencryptKeybag env (Some nonce) (ac_rootKey a) (account_identity a) (ac_ID a) wks db1 = Inr db2"
proof -
  from u obtain row rest dev devPriv root header secret payload persisted clock where row: "kd_accounts db = row # rest"
    and w: "NewKeybagHeader (ID_Bytes (ar_id row)) (ar_keybagVersion row) (row_kdf row) = Inr header"
    and k: "OpenKeybag env (Some root) \<lparr>EK_Header = header, EK_Nonce = ar_keybagNonce row, EK_Ciphertext = ar_keybagCiphertext row\<rparr> = Inr secret"
    and b: "b = unlocked_account row dev devPriv root payload clock"
    using unlock_database_Inr by metis
  have "KeybagHeader_validate header = Inr ()" using w by (auto simp: NewKeybagHeader_def Let_def err_simps)
  moreover have "length root = 32"
    using k by (auto simp: OpenKeybag_def err_simps DeriveKeybagKey_def deriveHKDF_def Let_def split: if_splits)
  moreover have "fits env bytes" using e by (auto simp: encodeKeybagPlaintext_iff)
  ultimately obtain keybag where "EncryptKeybag env (Some root) header (Some bytes) (Some nonce) = Inr keybag"
    using EncryptKeybag_total [OF laws] n by blast
  moreover have "ac_ID a = ar_id row" "ac_rootKey a = Some root" using same by (simp_all add: same_keys_def b unlocked_account_def)
  ultimately show ?thesis using w e by (simp add: reencryptKeybag_def db1 row account_identity_def account_payload_def)
qed

definition demo_box :: box_env where
  "demo_box = \<lparr>bx_public = id, bx_seal = (\<lambda>public message ephemeral. take 48 (public @ replicate 48 0) @ message),
     bx_open = (\<lambda>public private sealed. if public = private \<and> take 48 sealed = take 48 (public @ replicate 48 0) then Some (drop 48 sealed) else None)\<rparr>"

lemma demo_box_laws: "box_laws demo_box"
  by (auto simp: box_laws_def demo_box_def min_def)

definition demo_order :: "Account \<Rightarrow> ID list \<times> ID list" where
  "demo_order a = (sorted_list_of_set (dom (ac_workspaceKeys a)), sorted_list_of_set {w. ac_historicalWorkspaceKeys a w \<noteq> []})"

lemma demo_order_laws: "map_order demo_order"
  by (simp add: map_order_def visits_def demo_order_def)

definition demo_params :: Argon2idParams where
  "demo_params = \<lparr>KDF_CryptoProfile = CryptoProfileV1, KDF_Algorithm = ''argon2id'', KDF_Salt = replicate 16 0, KDF_MemoryKiB = 65536, KDF_TimeCost = 3,
     KDF_Parallelism = 4, KDF_DerivedKeyBytes = 32\<rparr>"

definition demo_draws :: account_draws where
  "demo_draws = \<lparr>dr_identity = Some (replicate 32 4), dr_authority = Some (replicate 64 5), dr_device = Some (replicate 64 8), dr_keyID = Some (replicate 16 3),
     dr_key = Some (replicate 32 7), dr_nonce = Some (replicate 24 0)\<rparr>"

definition demo_no_notes :: note_db where
  "demo_no_notes = \<lparr>nd_workspaces = {}, nd_devices = [], nd_notebooks = [], nd_tags = [], nd_notes = [], nd_note_tags = [], nd_attachments = [],
     nd_note_attachments = [], nd_crdt_states = Map.empty, nd_crdt_updates = [], nd_revisions = [], nd_fts = []\<rparr>"

definition demo_key_db :: key_db where
  "demo_key_db = \<lparr>kd_accounts = [], kd_local = None, kd_keys = [], kd_notes = demo_no_notes\<rparr>"

definition demo_created :: HLC where
  "demo_created = \<lparr>PhysicalMS = 100, Logical = 0, ClockDeviceID = demo_id 1\<rparr>"

abbreviation demo_derive :: "Argon2idParams \<Rightarrow> crypto_error + bytes" where
  "demo_derive \<equiv> \<lambda>_. Inr (replicate 32 6)"

lemma demo_new_account:
  "\<exists>a db. createAccountContent demo_crypto demo_box demo_draws Inr (Inr demo_params) demo_derive (demo_id 9) (demo_id 1) (demo_id 2) demo_created demo_key_db = Inr (a, db) \<and>
     ac_workspaceKeys a = [demo_id 2 \<mapsto> new_entry (replicate 16 3) (replicate 32 7)] \<and> ac_historicalWorkspaceKeys a = (\<lambda>_. []) \<and> \<not> ac_locked a \<and>
     ac_IdentityPublicKey a = replicate 32 4 \<and> ac_identityPrivate a = Some (replicate 32 4) \<and> last_hlc (ac_clock a) = demo_created \<and> map kr_key (kd_keys db) = [replicate 16 3] \<and>
     \<not> list_ex (\<lambda>r. kr_workspace r = demo_id 3) (kd_keys db)"
proof -
  have ne: "demo_id 2 \<noteq> demo_id 3" by (simp add: demo_id_def id_copy_inject)
  let ?wks = "[keybag_entry (demo_id 2) (new_entry (replicate 16 3) (replicate 32 7))]"
  let ?p = "\<lparr>kp_IdentityPublicKey = replicate 32 4, kp_IdentityPrivateKey = Some (replicate 32 4), kp_AuthorityPublicKey = replicate 32 5,
      kp_AuthorityPrivateKey = Some (replicate 64 5), kp_WorkspaceKeys = ?wks\<rparr>"
  have t: "TakeSecret demo_crypto v = Inr v" if "v \<noteq> []" "length v \<le> 1048576" for v using that by (simp add: TakeSecret_def demo_crypto_def MaxSecretBytes_def)
  have pub: "ce_public demo_crypto (replicate 64 5) = replicate 32 5" by (simp add: demo_crypto_def)
  have g: "generateX25519Identity demo_crypto demo_box (Some (replicate 32 4)) = Inr (replicate 32 4, replicate 32 4)"
    "generateEd25519Key demo_crypto (Some (replicate 64 5)) = Inr (replicate 32 5, replicate 64 5)"
    by (simp_all add: generateX25519Identity_def generateEd25519Key_def t pub) (simp add: demo_box_def)
  obtain dp where dp: "generateEd25519Key demo_crypto (Some (replicate 64 8)) = Inr (dp, replicate 64 8)" by (simp add: generateEd25519Key_def t)
  have f: "fits demo_crypto (payload_bytes ?p)"
    by (simp add: fits_def demo_crypto_def payload_bytes_def keybag_lengths keybagPayloadMagic_def MaxSecretBytes_def key_bytes_def appendU32_def str_bytes_def new_entry_def)
  have e: "encodeKeybagPlaintext demo_crypto ?p = Inr (payload_bytes ?p)"
    using f by (simp add: encodeKeybagPlaintext_iff workspaceKeyState_valid_def new_entry_def)
  obtain header where h: "NewKeybagHeader (ID_Bytes (demo_id 9)) 1 demo_params = Inr header" "KeybagHeader_validate header = Inr ()"
    by (simp add: NewKeybagHeader_def KeybagHeader_validate_def Argon2idParams_Validate_def demo_params_def Let_def word_less_def)
  obtain keybag where k: "EncryptKeybag demo_crypto (Some (replicate 32 6)) header (Some (payload_bytes ?p)) (Some (replicate 24 0)) = Inr keybag"
    using EncryptKeybag_total [OF demo_crypto_laws h(2), of "replicate 32 6" "replicate 24 0", OF _ _ f] by auto
  have c: "NewClock (demo_id 1) demo_created 0 = Inr \<lparr>deviceID = demo_id 1, last_hlc = demo_created, maxFutureSkew = DefaultMaxFutureSkew\<rparr>"
    by (simp add: NewClock_def HLC_Validate_def demo_created_def)
  show ?thesis
    using h(1) k e c ne
    by (auto simp: createAccountContent_def demo_draws_def g dp t read_full_def Let_def new_entry_def insertNewAccount_def insert_workspace_key_def demo_key_db_def demo_no_notes_def)
qed


definition demo_sealed_key :: "bytes \<Rightarrow> bytes" where
  "demo_sealed_key key = bx_seal demo_box (replicate 32 4) key []"

lemma demo_open_key:
  assumes "ac_IdentityPublicKey a = replicate 32 4" "ac_identityPrivate a = Some (replicate 32 4)" "key \<noteq> []" "length key \<le> 64"
  shows "OpenWorkspaceKeyEnvelope demo_crypto demo_box CryptoProfileV1 (ac_IdentityPublicKey a) (ac_identityPrivate a) (demo_sealed_key key) = Inr key"
  using assms
  by (simp add: OpenWorkspaceKeyEnvelope_def x25519PublicKey_def demo_sealed_key_def demo_box_def TakeSecret_def demo_crypto_def MaxSecretBytes_def)

theorem keys_survive_witness:
  "\<exists>a0 db0 a2 db2 e. createAccountContent demo_crypto demo_box demo_draws Inr (Inr demo_params) demo_derive (demo_id 9) (demo_id 1) (demo_id 2) demo_created demo_key_db
       = Inr (a0, db0) \<and>
     fold (key_step demo_crypto demo_box demo_order Inr demo_derive)
       [RotationArrives (Some (replicate 24 1)) 200 (demo_id 2) (replicate 16 6) (demo_sealed_key (replicate 32 8)) [] [] [], Restart] (a0, db0) = (a2, db2) \<and>
     workspaceKeyByID (demo_id 2) (replicate 16 3) a2 = Some e \<and> ke_Key e = Some (replicate 32 7)"
proof -
  obtain a db where c: "createAccountContent demo_crypto demo_box demo_draws Inr (Inr demo_params) demo_derive (demo_id 9) (demo_id 1) (demo_id 2) demo_created demo_key_db = Inr (a, db)"
    and k: "ac_workspaceKeys a = [demo_id 2 \<mapsto> new_entry (replicate 16 3) (replicate 32 7)]" "\<not> ac_locked a"
      "ac_IdentityPublicKey a = replicate 32 4" "ac_identityPrivate a = Some (replicate 32 4)"
    using demo_new_account by blast
  let ?evs = "[RotationArrives (Some (replicate 24 1)) 200 (demo_id 2) (replicate 16 6) (demo_sealed_key (replicate 32 8)) [] [] [], Restart]"
  obtain a2 db2 where r: "fold (key_step demo_crypto demo_box demo_order Inr demo_derive) ?evs (a, db) = (a2, db2)" by fastforce
  have "sealed_key demo_crypto demo_box a (demo_sealed_key (replicate 32 8))"
    using demo_open_key [OF k(3,4), of "replicate 32 8"] by (simp add: sealed_key_def)
  then have p: "list_all (proper_event demo_crypto demo_box a) ([] @ ?evs)" by simp
  have "workspaceKeyByID (demo_id 2) (replicate 16 3) a = Some (new_entry (replicate 16 3) (replicate 32 7))"
    using k by (simp add: workspaceKeyByID_def equalKeyID_def new_entry_def)
  with keys_survive [OF demo_crypto_laws demo_box_laws demo_order_laws _ _ _ _ _ c p _ r]
  have "\<exists>e. workspaceKeyByID (demo_id 2) (replicate 16 3) a2 = Some e \<and> ke_Key e = Some (replicate 32 7)"
    by (fastforce simp: demo_key_db_def new_entry_def)
  with c r show ?thesis by blast
qed

lemma demo_share_accepted:
  assumes st: "account_stored demo_crypto Inr demo_derive a db" and k: "ac_workspaceKeys a = [demo_id 2 \<mapsto> new_entry (replicate 16 3) (replicate 32 7)]"
    "ac_historicalWorkspaceKeys a = (\<lambda>_. [])" "\<not> ac_locked a" "ac_IdentityPublicKey a = replicate 32 4" "ac_identityPrivate a = Some (replicate 32 4)"
    "last_hlc (ac_clock a) = demo_created" "map kr_key (kd_keys db) = [replicate 16 3]"
    and noWs: "\<not> list_ex (\<lambda>r. kr_workspace r = demo_id 3) (kd_keys db)"
  shows "\<exists>a' db'. AcceptWorkspaceShare demo_crypto demo_box demo_order (Some (replicate 24 1)) 200 (demo_id 3) (replicate 16 6) (demo_sealed_key [1, 2, 3]) [] [] a db
     = (Inr (), a', db')"
proof -
  obtain b where sane: "keys_sane demo_crypto a db" and u: "unlock_database demo_crypto Inr demo_derive db = Inr b" and same: "same_keys b a"
    using st by (auto simp: account_stored_def)
  obtain clock c where tick: "Tick 200 (ac_clock a) = (Inr clock, c)"
    using k(6) by (simp add: Tick_def advance_def demo_created_def Let_def word_less_def)
  let ?a = "a\<lparr>ac_clock := c\<rparr>" and ?e = "keybag_entry (demo_id 3) (new_entry (replicate 16 6) [1, 2, 3])"
  have snap: "snapshotKeybagWorkspaceKeys (demo_order ?a) ?a = [keybag_entry (demo_id 2) (new_entry (replicate 16 3) (replicate 32 7))]"
    by (simp add: snapshotKeybagWorkspaceKeys_def demo_order_def k)
  obtain ap where id: "length (ac_AuthorityPublicKey a) = 32" "ac_authorityPrivate a = Some ap" "length ap = 64"
    using sane by (auto simp: keys_sane_def keybag_wf_def account_payload_def split: option.splits)
  let ?p = "account_payload a (snapshotKeybagWorkspaceKeys (demo_order ?a) ?a @ [?e])"
  have "fits demo_crypto (payload_bytes ?p)"
    by (simp add: fits_def demo_crypto_def snap account_payload_def payload_bytes_def keybag_lengths keybagPayloadMagic_def MaxSecretBytes_def key_bytes_def appendU32_def
        str_bytes_def new_entry_def id k)
  then have e: "encodeKeybagPlaintext demo_crypto ?p = Inr (payload_bytes ?p)"
    by (simp add: encodeKeybagPlaintext_iff snap account_payload_def workspaceKeyState_valid_def new_entry_def id k)
  have keys: "\<not> list_ex (\<lambda>r. kr_key r = replicate 16 6) (kd_keys db)" using k(7) by auto
  define db1 where "db1 = db\<lparr>kd_notes := (kd_notes db)\<lparr>nd_workspaces := insert (demo_id 3) (nd_workspaces (kd_notes db))\<rparr>,
    kd_keys := kd_keys db @ [\<lparr>kr_key = replicate 16 6, kr_workspace = demo_id 3, kr_state = 1, kr_activated = clock\<rparr>]\<rparr>"
  have "\<not> list_ex (\<lambda>r. kr_workspace r = demo_id 3 \<and> kr_state r = 1) (kd_keys db)" using noWs by (auto simp: list_ex_iff)
  then have ins: "insert_workspace_key \<lparr>kr_key = replicate 16 6, kr_workspace = demo_id 3, kr_state = 1, kr_activated = clock\<rparr>
      (db\<lparr>kd_notes := (kd_notes db)\<lparr>nd_workspaces := insert (demo_id 3) (nd_workspaces (kd_notes db))\<rparr>\<rparr>) = Inr db1"
    using keys by (simp add: insert_workspace_key_def db1_def)
  obtain db2 where "reencryptKeybag demo_crypto (Some (replicate 24 1)) (ac_rootKey a) (account_identity a) (ac_ID a) (snapshotKeybagWorkspaceKeys (demo_order ?a) ?a @ [?e]) db1 = Inr db2"
    using reencrypt_total [OF demo_crypto_laws u same _ e, of db1 "replicate 24 1"] by (auto simp: db1_def)
  with ins have p: "persistNewWorkspaceKey demo_crypto (Some (replicate 24 1)) (ac_rootKey a) (account_identity a) (ac_ID a) (demo_id 3) clock
      (snapshotKeybagWorkspaceKeys (demo_order ?a) ?a) ?e db = Inr db2"
    by (simp add: persistNewWorkspaceKey_def new_entry_def)
  have "demo_id 3 \<noteq> demo_id 2" by (simp add: demo_id_def id_copy_inject)
  then have none: "ac_workspaceKeys a (demo_id 3) = None" by (simp add: k)
  have "account_identity ?a = account_identity a" by (simp add: account_identity_def)
  then have "share_install demo_crypto demo_order (Some (replicate 24 1)) 200 (demo_id 3) (replicate 16 6) [1, 2, 3] a db
      = (Inr (), ?a\<lparr>ac_workspaceKeys := (ac_workspaceKeys a)(demo_id 3 \<mapsto> new_entry (replicate 16 6) [1, 2, 3])\<rparr>, db2)"
    using p by (simp add: share_install_def k(3) none tick Let_def new_entry_def)
  moreover have "share_open demo_crypto demo_box (demo_id 3) (replicate 16 6) (demo_sealed_key [1, 2, 3]) [] [] a = Inr (Some [1, 2, 3])"
    using demo_open_key [OF k(4,5), of "[1, 2, 3]"] by (simp add: share_open_def k(3) none)
  ultimately show ?thesis by (simp add: AcceptWorkspaceShare_def)
qed

theorem odd_key_locks_out_witness:
  "\<exists>a db a' db'. createAccountContent demo_crypto demo_box demo_draws Inr (Inr demo_params) demo_derive (demo_id 9) (demo_id 1) (demo_id 2) demo_created demo_key_db = Inr (a, db) \<and>
     AcceptWorkspaceShare demo_crypto demo_box demo_order (Some (replicate 24 1)) 200 (demo_id 3) (replicate 16 6) (demo_sealed_key [1, 2, 3]) [] [] a db = (Inr (), a', db') \<and>
     unlock_database demo_crypto Inr demo_derive db' = Inl ErrInvalidKeybagPayload"
proof -
  obtain a db where c: "createAccountContent demo_crypto demo_box demo_draws Inr (Inr demo_params) demo_derive (demo_id 9) (demo_id 1) (demo_id 2) demo_created demo_key_db = Inr (a, db)"
    and k: "ac_workspaceKeys a = [demo_id 2 \<mapsto> new_entry (replicate 16 3) (replicate 32 7)]" "ac_historicalWorkspaceKeys a = (\<lambda>_. [])" "\<not> ac_locked a"
      "ac_IdentityPublicKey a = replicate 32 4" "ac_identityPrivate a = Some (replicate 32 4)" "last_hlc (ac_clock a) = demo_created" "map kr_key (kd_keys db) = [replicate 16 3]"
      "\<not> list_ex (\<lambda>r. kr_workspace r = demo_id 3) (kd_keys db)"
    using demo_new_account by (elim exE conjE) (rule that; assumption)
  have st: "account_stored demo_crypto Inr demo_derive a db"
    by (rule created_stored [OF demo_crypto_laws demo_box_laws _ _ _ _ _ c]) (simp_all add: demo_key_db_def)
  obtain a' db' where s: "AcceptWorkspaceShare demo_crypto demo_box demo_order (Some (replicate 24 1)) 200 (demo_id 3) (replicate 16 6) (demo_sealed_key [1, 2, 3]) [] [] a db = (Inr (), a', db')"
    using demo_share_accepted [OF st k] by blast
  have "demo_id 3 \<noteq> demo_id 2" by (simp add: demo_id_def id_copy_inject)
  with odd_key_locks_out [OF demo_crypto_laws demo_order_laws st _ demo_open_key [OF k(4,5), of "[1, 2, 3]"] _ s] have "unlock_database demo_crypto Inr demo_derive db' = Inl ErrInvalidKeybagPayload"
    by (simp add: k(1))
  with c s show ?thesis by blast
qed

end
