(* ===== verification/Sync_Worker.thy ===== *)
theory Sync_Worker
  imports Sync_Repository
begin

text \<open>
  The workspace worker of \<^verbatim>\<open>core/sync/worker.go\<close>: one complete pull, verify, apply and push
  cycle (\<open>SyncOnce\<close>), and the retry policy of \<open>Run\<close>. The interfaces the worker is built
  from (\<^verbatim>\<open>WorkspaceRepository\<close>, \<^verbatim>\<open>OperationTransport\<close>, the option hooks, the
  context and the progress callback) are the functions of the record \<open>worker_env\<close> on one
  world state; the time given to the repository is read from that state. Both loops of
  \<open>SyncOnce\<close> may run forever for a badly behaved transport, so they are partial functions
  whose value \<open>None\<close> is divergence; the locale \<open>worker_contract\<close> states what repository and
  transport owe the worker, and inside it the cycle is proved to end.
\<close>

section \<open>Environment\<close>

type_synonym Phase = string

record Progress =
  Pg_WorkspaceID :: ID
  Pg_Phase :: Phase
  Pg_Pulled :: nat
  Pg_Pushed :: nat
  Pg_Cursor :: u64
  Pg_RetryIn :: int
  Pg_ErrorClass :: string
  Pg_ErrorDetail :: string
  Pg_RetryCount :: nat

definition progress :: "ID \<Rightarrow> Phase \<Rightarrow> u64 \<Rightarrow> Progress" where
  "progress ws phase cursor = \<lparr>Pg_WorkspaceID = ws, Pg_Phase = phase, Pg_Pulled = 0, Pg_Pushed = 0, Pg_Cursor = cursor,
     Pg_RetryIn = 0, Pg_ErrorClass = [], Pg_ErrorDetail = [], Pg_RetryCount = 0\<rparr>"

type_synonym ('w, 'a) action = "'w \<Rightarrow> (sync_error + 'a) \<times> 'w"

record 'w worker_env =
  env_Cursor :: "ID \<Rightarrow> 'w \<Rightarrow> sync_error + Cursor"
  env_Quarantine :: "WireOperation \<Rightarrow> string \<Rightarrow> ('w, unit) action"
  env_QuarantineBlocked :: "ID \<Rightarrow> 'w \<Rightarrow> sync_error + bool"
  env_ApplyPage :: "Cursor \<Rightarrow> WireOperation list \<Rightarrow> ('w, unit) action"
  env_Pending :: "ID \<Rightarrow> int \<Rightarrow> 'w \<Rightarrow> sync_error + WireOperation list"
  env_MarkPushed :: "ID \<Rightarrow> PushResult list \<Rightarrow> ('w, unit) action"
  env_Pull :: "ID \<Rightarrow> Cursor \<Rightarrow> int \<Rightarrow> ('w, PullPage) action"
  env_Push :: "ID \<Rightarrow> WireOperation list \<Rightarrow> ('w, PushResult list) action"
  env_ctxErr :: "'w \<Rightarrow> sync_error option"
  env_emit :: "Progress \<Rightarrow> 'w \<Rightarrow> 'w"
  env_errorText :: "sync_error \<Rightarrow> string"
  env_BatchSize :: int
  env_Prepare :: "('w, unit) action option"
  env_Bootstrap :: "('w, unit) action option"
  env_ReviewSnapshot :: "(Cursor \<Rightarrow> ('w, unit) action) option"
  env_SyncAttachments :: "('w, unit) action option"
  env_PublishSnapshot :: "(Cursor \<Rightarrow> ('w, unit) action) option"

definition syncErrorDetail :: "string \<Rightarrow> string" where
  "syncErrorDetail message = (if length message \<le> 512 then message else take (512 - 3) message @ ''...'')"

text \<open>A hook that is not configured is skipped; its error is wrapped.\<close>

definition run_hook :: "string \<Rightarrow> ('w, unit) action option \<Rightarrow> ('w, unit) action" where
  "run_hook label hook w =
     (case hook of
        None \<Rightarrow> (Inr (), w)
      | Some act \<Rightarrow> (case act w of (Inl e, w') \<Rightarrow> (Inl (Wrapped label e), w') | (Inr _, w') \<Rightarrow> (Inr (), w')))"

section \<open>One synchronization cycle\<close>

text \<open>
  Applying a pulled page, with the quarantine of a rejected operation. The result is the new
  cursor.
\<close>

definition apply_page :: "'w worker_env \<Rightarrow> ID \<Rightarrow> Cursor \<Rightarrow> PullPage \<Rightarrow> ('w, Cursor) action" where
  "apply_page env ws cursor page w =
     (if Page_Operations page = [] then (Inr cursor, w)
      else
        let w = env_emit env ((progress ws ''apply'' (LastSequence cursor))\<lparr>Pg_Pulled := length (Page_Operations page)\<rparr>) w in
        case env_ApplyPage env (Page_Cursor page) (Page_Operations page) w of
          (Inl err, w) \<Rightarrow>
            (case as_rejected err of
               Some (op, cls, inner) \<Rightarrow>
                 (case env_Quarantine env op cls w of
                    (Inl qerr, w) \<Rightarrow> (Inl (Joined err qerr), w)
                  | (Inr _, w) \<Rightarrow>
                      (Inl ErrWorkspaceQuarantined,
                       env_emit env ((progress ws ''quarantine'' (LastSequence cursor))
                         \<lparr>Pg_ErrorClass := cls, Pg_ErrorDetail := syncErrorDetail (env_errorText env inner)\<rparr>) w))
             | None \<Rightarrow> (Inl (Wrapped ''sync: apply page'' err), w))
        | (Inr _, w) \<Rightarrow> (Inr (Page_Cursor page), w))"

text \<open>What follows a failed pull: the bootstrap, once, or the error.\<close>

definition pull_failed :: "'w worker_env \<Rightarrow> ID \<Rightarrow> sync_error \<Rightarrow> bool \<Rightarrow> ('w, Cursor) action" where
  "pull_failed env ws err bootstrapped w =
     (if err_is ErrSnapshotRequired err \<and> \<not> bootstrapped then
        (case env_Bootstrap env of
           None \<Rightarrow> (Inl (Wrapped ''sync: pull'' err), w)
         | Some boot \<Rightarrow>
             (case boot w of
                (Inl e, w) \<Rightarrow> (Inl (Wrapped ''sync: snapshot bootstrap'' e), w)
              | (Inr _, w) \<Rightarrow>
                  (case env_Cursor env ws w of
                     Inl e \<Rightarrow> (Inl (Wrapped ''sync: load bootstrapped cursor'' e), w)
                   | Inr cursor \<Rightarrow> (Inr cursor, w))))
      else (Inl (Wrapped ''sync: pull'' err), w))"

text \<open>
  One round of the pull loop. Its result is the cursor, whether the bootstrap has run, and
  \<open>True\<close> when the loop goes on.
\<close>

definition pull_round :: "'w worker_env \<Rightarrow> ID \<Rightarrow> Cursor \<Rightarrow> bool \<Rightarrow> ('w, Cursor \<times> bool \<times> bool) action" where
  "pull_round env ws cursor bootstrapped w =
     (case env_ctxErr env w of
        Some e \<Rightarrow> (Inl e, w)
      | None \<Rightarrow>
          (case env_Pull env ws cursor (env_BatchSize env) (env_emit env (progress ws ''pull'' (LastSequence cursor)) w) of
             (Inl err, w) \<Rightarrow>
               (case pull_failed env ws err bootstrapped w of
                  (Inl e, w) \<Rightarrow> (Inl e, w)
                | (Inr cursor, w) \<Rightarrow> (Inr (cursor, True, True), w))
           | (Inr page, w) \<Rightarrow>
               (case validatePullPage ws cursor page (env_BatchSize env) of
                  Inl e \<Rightarrow> (Inl e, w)
                | Inr _ \<Rightarrow>
                    (case apply_page env ws cursor page w of
                       (Inl e, w) \<Rightarrow> (Inl e, w)
                     | (Inr cursor, w) \<Rightarrow> (Inr (cursor, bootstrapped, Page_More page), w)))))"

partial_function (option) pull_loop ::
  "'w worker_env \<Rightarrow> ID \<Rightarrow> Cursor \<Rightarrow> bool \<Rightarrow> 'w \<Rightarrow> ((sync_error + Cursor) \<times> 'w) option" where
  "pull_loop env ws cursor bootstrapped w =
     (case pull_round env ws cursor bootstrapped w of
        (Inl e, w) \<Rightarrow> Some (Inl e, w)
      | (Inr (cursor, bootstrapped, again), w) \<Rightarrow>
          if again then pull_loop env ws cursor bootstrapped w else Some (Inr cursor, w))"

text \<open>One round of the push loop: \<open>True\<close> when the loop goes on.\<close>

definition push_round :: "'w worker_env \<Rightarrow> ID \<Rightarrow> Cursor \<Rightarrow> ('w, bool) action" where
  "push_round env ws cursor w =
     (case env_ctxErr env w of
        Some e \<Rightarrow> (Inl e, w)
      | None \<Rightarrow>
          (case env_Pending env ws (env_BatchSize env) w of
             Inl e \<Rightarrow> (Inl (Wrapped ''sync: read outbox'' e), w)
           | Inr pending \<Rightarrow>
               if pending = [] then (Inr False, w)
               else
                 let w = env_emit env ((progress ws ''push'' (LastSequence cursor))\<lparr>Pg_Pushed := length pending\<rparr>) w in
                 case env_Push env ws pending w of
                   (Inl e, w) \<Rightarrow> (Inl (Wrapped ''sync: push'' e), w)
                 | (Inr results, w) \<Rightarrow>
                     (case validatePushResults pending results of
                        Inl e \<Rightarrow> (Inl e, w)
                      | Inr _ \<Rightarrow>
                          (case env_MarkPushed env ws results w of
                             (Inl e, w) \<Rightarrow> (Inl (Wrapped ''sync: commit push results'' e), w)
                           | (Inr _, w) \<Rightarrow> (Inr (\<not> int (length pending) < env_BatchSize env), w)))))"

partial_function (option) push_loop :: "'w worker_env \<Rightarrow> ID \<Rightarrow> Cursor \<Rightarrow> 'w \<Rightarrow> ((sync_error + unit) \<times> 'w) option" where
  "push_loop env ws cursor w =
     (case push_round env ws cursor w of
        (Inl e, w) \<Rightarrow> Some (Inl e, w)
      | (Inr again, w) \<Rightarrow> if again then push_loop env ws cursor w else Some (Inr (), w))"

text \<open>The last part of the cycle, after the push loop.\<close>

definition finish_cycle :: "'w worker_env \<Rightarrow> ID \<Rightarrow> Cursor \<Rightarrow> ('w, unit) action" where
  "finish_cycle env ws cursor w =
     (case (if LastSequence cursor \<noteq> 0
            then run_hook ''sync: publish snapshot'' (map_option (\<lambda>f. f cursor) (env_PublishSnapshot env)) w
            else (Inr (), w)) of
        (Inl e, w) \<Rightarrow> (Inl e, w)
      | (Inr _, w) \<Rightarrow> (Inr (), env_emit env (progress ws ''current'' (LastSequence cursor)) w))"

text \<open>The part of the cycle between the two loops.\<close>

definition between_loops :: "'w worker_env \<Rightarrow> Cursor \<Rightarrow> ('w, unit) action" where
  "between_loops env cursor w =
     (case run_hook ''sync: review snapshot'' (map_option (\<lambda>f. f cursor) (env_ReviewSnapshot env)) w of
        (Inl e, w) \<Rightarrow> (Inl e, w)
      | (Inr _, w) \<Rightarrow> run_hook ''sync: attachments'' (env_SyncAttachments env) w)"

definition SyncOnce :: "'w worker_env \<Rightarrow> ID \<Rightarrow> 'w \<Rightarrow> ((sync_error + unit) \<times> 'w) option" where
  "SyncOnce env ws w =
     (case run_hook ''sync: prepare'' (env_Prepare env) w of
        (Inl e, w) \<Rightarrow> Some (Inl e, w)
      | (Inr _, w) \<Rightarrow>
          (case env_QuarantineBlocked env ws w of
             Inl e \<Rightarrow> Some (Inl e, w)
           | Inr True \<Rightarrow>
               Some (Inl ErrWorkspaceQuarantined,
                     env_emit env ((progress ws ''quarantine'' 0)\<lparr>Pg_ErrorClass := ''quarantined_operation'',
                       Pg_ErrorDetail := ''a quarantined operation is blocking synchronization''\<rparr>) w)
           | Inr False \<Rightarrow>
               (case env_Cursor env ws w of
                  Inl e \<Rightarrow> Some (Inl (Wrapped ''sync: load cursor'' e), w)
                | Inr cursor \<Rightarrow>
                    Option.bind (pull_loop env ws cursor False w) (\<lambda>(r, w).
                      case r of
                        Inl e \<Rightarrow> Some (Inl e, w)
                      | Inr cursor \<Rightarrow>
                          (case between_loops env cursor w of
                             (Inl e, w) \<Rightarrow> Some (Inl e, w)
                           | (Inr _, w) \<Rightarrow>
                               Option.bind (push_loop env ws cursor w) (\<lambda>(r, w).
                                 case r of
                                   Inl e \<Rightarrow> Some (Inl e, w)
                                 | Inr _ \<Rightarrow> Some (finish_cycle env ws cursor w)))))))"

section \<open>Retry policy\<close>

record WorkerTimes =
  BatchSize :: int
  PollInterval :: int
  InitialBackoff :: int
  MaxBackoff :: int

definition WorkerOptions_normalized :: "WorkerTimes \<Rightarrow> WorkerTimes" where
  "WorkerOptions_normalized o1 =
     (let o1 = (if BatchSize o1 \<le> 0 \<or> 256 < BatchSize o1 then o1\<lparr>BatchSize := 100\<rparr> else o1);
          o1 = (if PollInterval o1 \<le> 0 then o1\<lparr>PollInterval := 30000000000\<rparr> else o1);
          o1 = (if InitialBackoff o1 \<le> 0 then o1\<lparr>InitialBackoff := 1000000000\<rparr> else o1);
          o1 = (if MaxBackoff o1 < InitialBackoff o1 then o1\<lparr>MaxBackoff := 60000000000\<rparr> else o1)
      in o1)"

record run_state =
  rs_backoff :: int
  rs_retryCount :: nat

datatype run_next = RunReturn sync_error | RunWait int "Progress option" run_state

text \<open>
  What \<open>Run\<close> does with the result of a cycle: return, or set the timer. \<open>jitter\<close> is the
  configured jitter function.
\<close>

definition after_cycle ::
  "WorkerTimes \<Rightarrow> (int \<Rightarrow> int) \<Rightarrow> (sync_error \<Rightarrow> string) \<Rightarrow> ID \<Rightarrow> sync_error + unit \<Rightarrow> run_state \<Rightarrow> run_next" where
  "after_cycle opts jitter errorText ws result st =
     (case result of
        Inr _ \<Rightarrow> RunWait (PollInterval opts) None \<lparr>rs_backoff = InitialBackoff opts, rs_retryCount = 0\<rparr>
      | Inl err \<Rightarrow>
          if err_is ContextCanceled err \<or> err_is ErrWorkspaceQuarantined err then RunReturn err
          else
            let retryCount = rs_retryCount st + 1;
                delay = jitter (rs_backoff st);
                p = (progress ws ''backoff'' 0)\<lparr>Pg_RetryIn := delay, Pg_ErrorClass := classifySyncError err,
                      Pg_ErrorDetail := syncErrorDetail (errorText err), Pg_RetryCount := retryCount\<rparr>;
                backoff = (if rs_backoff st < MaxBackoff opts div 2 then rs_backoff st * 2 else MaxBackoff opts)
            in RunWait delay (Some p) \<lparr>rs_backoff = backoff, rs_retryCount = retryCount\<rparr>)"

definition run_start :: "WorkerTimes \<Rightarrow> run_state" where
  "run_start opts = \<lparr>rs_backoff = InitialBackoff opts, rs_retryCount = 0\<rparr>"

text \<open>The states of \<open>Run\<close> after a list of cycle results, as long as it has not returned.\<close>

fun run_states :: "WorkerTimes \<Rightarrow> (int \<Rightarrow> int) \<Rightarrow> (sync_error \<Rightarrow> string) \<Rightarrow> ID \<Rightarrow> (sync_error + unit) list \<Rightarrow> run_state \<Rightarrow> run_state option" where
  "run_states opts jitter etext ws [] st = Some st"
| "run_states opts jitter etext ws (r # rs) st =
     (case after_cycle opts jitter etext ws r st of
        RunReturn _ \<Rightarrow> None
      | RunWait _ _ st' \<Rightarrow> run_states opts jitter etext ws rs st')"

section \<open>What repository and transport owe the worker\<close>

locale worker_contract =
  fixes env :: "'w worker_env" and ws :: ID and inv :: "'w \<Rightarrow> bool" and queue :: "'w \<Rightarrow> nat"
  assumes batch: "0 < env_BatchSize env" "env_BatchSize env \<le> 256"
    and emit_keeps: "inv w \<Longrightarrow> inv (env_emit env p w)"
    and emit_queue: "queue (env_emit env p w) = queue w" "env_Pending env ws n (env_emit env p w) = env_Pending env ws n w"
    and pull_keeps: "inv w \<Longrightarrow> env_Pull env ws c n w = (pulled, w') \<Longrightarrow> inv w'"
    and pull_more: "env_Pull env ws c n w = (Inr page, w') \<Longrightarrow> 0 < n \<Longrightarrow> Page_More page \<Longrightarrow> Page_Operations page \<noteq> []"
    and apply_keeps: "inv w \<Longrightarrow> env_ApplyPage env c ops w = (r, w') \<Longrightarrow> inv w'"
    and apply_bound: "inv w \<Longrightarrow> env_ApplyPage env c ops w = (Inr (), w') \<Longrightarrow> LastSequence c \<le> MaxInt64"
    and quarantine_keeps: "inv w \<Longrightarrow> env_Quarantine env op cls w = (r, w') \<Longrightarrow> inv w'"
    and cursor_bound: "inv w \<Longrightarrow> env_Cursor env ws w = Inr c \<Longrightarrow> LastSequence c \<le> MaxInt64"
    and push_keeps: "inv w \<Longrightarrow> env_Push env ws ops w = (pushed, w') \<Longrightarrow> inv w'"
    and push_queue: "env_Push env ws ops w = (pushed, w') \<Longrightarrow> queue w' = queue w \<and> env_Pending env ws n w' = env_Pending env ws n w"
    and mark_keeps: "inv w \<Longrightarrow> env_MarkPushed env ws results w = (r, w') \<Longrightarrow> inv w'"
    and mark_progress: "inv w \<Longrightarrow> env_Pending env ws n w = Inr pending \<Longrightarrow> pending \<noteq> [] \<Longrightarrow>
      validatePushResults pending results = Inr () \<Longrightarrow> env_MarkPushed env ws results w = (Inr (), w') \<Longrightarrow> queue w' < queue w"
    and hooks_keep: "act \<in> set_option (env_Prepare env) \<union> set_option (env_Bootstrap env) \<union> set_option (env_SyncAttachments env)
        \<union> (\<Union>c. set_option (map_option (\<lambda>f. f c) (env_ReviewSnapshot env)))
        \<union> (\<Union>c. set_option (map_option (\<lambda>f. f c) (env_PublishSnapshot env))) \<Longrightarrow>
      inv w \<Longrightarrow> act w = (r, w') \<Longrightarrow> inv w'"
begin

lemma run_hook_keeps:
  assumes "set_option hook \<subseteq> set_option (env_Prepare env) \<union> set_option (env_Bootstrap env) \<union> set_option (env_SyncAttachments env)
        \<union> (\<Union>c. set_option (map_option (\<lambda>f. f c) (env_ReviewSnapshot env)))
        \<union> (\<Union>c. set_option (map_option (\<lambda>f. f c) (env_PublishSnapshot env)))"
    and "inv w" "run_hook label hook w = (r, w')"
  shows "inv w'"
proof (cases hook)
  case None
  with assms show ?thesis by (simp add: run_hook_def)
next
  case (Some act)
  obtain r1 w1 where a: "act w = (r1, w1)" by (cases "act w")
  with assms Some have "w' = w1" by (auto simp: run_hook_def split: sum.splits)
  moreover have "inv w1"
    using assms Some a by (intro hooks_keep [of act w r1 w1]) auto
  ultimately show ?thesis by simp
qed

lemma apply_page_keeps: "inv w \<Longrightarrow> apply_page env ws c page w = (r, w') \<Longrightarrow> inv w'"
  by (auto simp: apply_page_def Let_def split: if_splits prod.splits sum.splits option.splits)
     (meson emit_keeps apply_keeps quarantine_keeps)+

lemma apply_page_cursor:
  assumes "inv w" "apply_page env ws c page w = (Inr c', w')" "LastSequence c \<le> MaxInt64"
  shows "LastSequence c' \<le> MaxInt64" and "Page_Operations page \<noteq> [] \<Longrightarrow> c' = Page_Cursor page"
  using assms
  by (auto simp: apply_page_def Let_def split: if_splits prod.splits sum.splits option.splits
      intro: apply_bound emit_keeps)

lemma pull_failed_keeps: "inv w \<Longrightarrow> pull_failed env ws e b w = (r, w') \<Longrightarrow> inv w'"
  by (auto simp: pull_failed_def split: if_splits prod.splits sum.splits option.splits intro: hooks_keep)

lemma pull_failed_bound: "inv w \<Longrightarrow> pull_failed env ws e b w = (Inr c, w') \<Longrightarrow> LastSequence c \<le> MaxInt64 \<and> \<not> b"
  by (auto simp: pull_failed_def split: if_splits prod.splits sum.splits option.splits intro: cursor_bound hooks_keep)

text \<open>A validated page with operations moves the cursor strictly forward.\<close>

lemma page_advances:
  assumes v: "validatePullPage ws c page (env_BatchSize env) = Inr ()" and ne: "Page_Operations page \<noteq> []"
    and b: "LastSequence c \<le> MaxInt64"
  shows "unat (LastSequence c) < unat (LastSequence (Page_Cursor page))"
proof -
  let ?n = "length (Page_Operations page)"
  from v ne have n: "int ?n \<le> env_BatchSize env" "LastSequence (Page_Cursor page) = LastSequence c + word_of_nat ?n"
    by (auto simp: validatePullPage_def check_sequences_iff err_simps split: if_splits)
  with batch have n256: "?n \<le> 256" by linarith
  have c: "unat (LastSequence c) \<le> 9223372036854775807" using b by (simp add: word_le_nat_alt)
  have "unat (LastSequence c + word_of_nat ?n) = unat (LastSequence c) + ?n"
    using c n256 by (subst unat_add_lem [THEN iffD1]) (simp_all add: unat_of_nat)
  with n ne show ?thesis by simp
qed

lemma pull_round_keeps: "inv w \<Longrightarrow> pull_round env ws c b w = (r, w') \<Longrightarrow> inv w'"
  by (auto simp: pull_round_def split: option.splits sum.splits prod.splits)
     (meson emit_keeps pull_keeps pull_failed_keeps apply_page_keeps)+

text \<open>A round after which the loop goes on has bootstrapped or moved the cursor forward.\<close>

lemma pull_round_advances:
  assumes "inv w" "LastSequence c \<le> MaxInt64" "pull_round env ws c b w = (Inr (c', b', True), w')"
  shows "LastSequence c' \<le> MaxInt64 \<and> (b' \<and> \<not> b \<or> b' = b \<and> unat (LastSequence c) < unat (LastSequence c'))"
proof -
  obtain r1 w1 where p: "env_Pull env ws c (env_BatchSize env) (env_emit env (progress ws ''pull'' (LastSequence c)) w) = (r1, w1)"
    by fastforce
  have i1: "inv w1" using assms(1) p by (blast intro: emit_keeps pull_keeps)
  show ?thesis
  proof (cases r1)
    case (Inl err)
    with assms(3) p pull_failed_bound [OF i1] show ?thesis
      by (auto simp: pull_round_def split: option.splits sum.splits prod.splits)
  next
    case (Inr page)
    with assms(3) p have v: "validatePullPage ws c page (env_BatchSize env) = Inr ()"
      and a: "apply_page env ws c page w1 = (Inr c', w')" and m: "Page_More page" "b' = b"
      by (auto simp: pull_round_def split: option.splits sum.splits prod.splits)
    from pull_more [OF p [unfolded Inr] batch(1) m(1)] have ne: "Page_Operations page \<noteq> []" .
    with apply_page_cursor [OF i1 a assms(2)] page_advances [OF v ne assms(2)] m(2) show ?thesis by auto
  qed
qed

lemma pull_loop_total:
  assumes "inv w" "LastSequence c \<le> MaxInt64"
  shows "\<exists>r w'. pull_loop env ws c b w = Some (r, w') \<and> inv w'"
  using assms
proof (induction "(if b then 0 else 1 :: nat, 2 ^ 64 - unat (LastSequence c))" arbitrary: c b w
    rule: wf_induct [OF wf_lex_prod [OF wf_less_than wf_less_than]])
  case (1 c b w)
  obtain r1 w1 where p: "pull_round env ws c b w = (r1, w1)" by fastforce
  have i1: "inv w1" using 1(2) p by (rule pull_round_keeps)
  show ?case
  proof (cases "\<exists>c' b'. r1 = Inr (c', b', True)")
    case True
    then obtain c' b' where r1: "r1 = Inr (c', b', True)" by blast
    from pull_round_advances [OF 1(2,3) p [unfolded r1]]
    have bd: "LastSequence c' \<le> MaxInt64" and adv: "b' \<and> \<not> b \<or> b' = b \<and> unat (LastSequence c) < unat (LastSequence c')" by auto
    have "unat (LastSequence c') < 2 ^ 64" using unsigned_less [of "LastSequence c'"] by simp
    with adv have "((if b' then 0 else 1, 2 ^ 64 - unat (LastSequence c')), (if b then 0 else 1, 2 ^ 64 - unat (LastSequence c)))
        \<in> less_than <*lex*> less_than" by auto
    with 1(1) i1 bd have "\<exists>r w'. pull_loop env ws c' b' w1 = Some (r, w') \<and> inv w'" by blast
    with p r1 show ?thesis by (subst pull_loop.simps) simp
  next
    case False
    with p i1 show ?thesis by (subst pull_loop.simps) (auto split: sum.splits)
  qed
qed

lemma push_round_keeps: "inv w \<Longrightarrow> push_round env ws c w = (r, w') \<Longrightarrow> inv w'"
  by (auto simp: push_round_def Let_def split: option.splits sum.splits if_splits prod.splits)
     (meson emit_keeps push_keeps mark_keeps)+

lemma push_round_progress:
  assumes "inv w" "push_round env ws c w = (Inr True, w')"
  shows "queue w' < queue w"
proof -
  from assms(2) obtain pending results w1 where pend: "env_Pending env ws (env_BatchSize env) w = Inr pending" "pending \<noteq> []"
    and push: "env_Push env ws pending (env_emit env ((progress ws ''push'' (LastSequence c))\<lparr>Pg_Pushed := length pending\<rparr>) w) = (Inr results, w1)"
    and v: "validatePushResults pending results = Inr ()" and m: "env_MarkPushed env ws results w1 = (Inr (), w')"
    by (auto simp: push_round_def Let_def split: option.splits sum.splits if_splits prod.splits)
  have "inv w1" using assms(1) push by (blast intro: emit_keeps push_keeps)
  moreover have "env_Pending env ws (env_BatchSize env) w1 = Inr pending" "queue w1 = queue w"
    using push_queue [OF push] emit_queue pend by simp_all
  ultimately show ?thesis using mark_progress [OF _ _ pend(2) v m] by simp
qed

lemma push_loop_total:
  assumes "inv w"
  shows "\<exists>r w'. push_loop env ws c w = Some (r, w') \<and> inv w'"
  using assms
proof (induction "queue w" arbitrary: w rule: less_induct)
  case less
  obtain r1 w1 where p: "push_round env ws c w = (r1, w1)" by fastforce
  have i1: "inv w1" using less.prems p by (rule push_round_keeps)
  show ?case
  proof (cases "r1 = Inr True")
    case True
    with less.hyps [OF push_round_progress i1] less.prems p show ?thesis
      by (subst push_loop.simps) simp
  next
    case False
    with p i1 show ?thesis by (subst push_loop.simps) (auto split: sum.splits)
  qed
qed

lemma SyncOnce_total:
  assumes "inv w"
  shows "\<exists>r w'. SyncOnce env ws w = Some (r, w') \<and> inv w'"
proof -
  obtain r1 w1 where h: "run_hook ''sync: prepare'' (env_Prepare env) w = (r1, w1)" by fastforce
  have i1: "inv w1" by (rule run_hook_keeps [OF _ assms h]) auto
  show ?thesis
  proof (cases "\<exists>u c. r1 = Inr u \<and> env_QuarantineBlocked env ws w1 = Inr False \<and> env_Cursor env ws w1 = Inr c")
    case False
    with h i1 show ?thesis
      by (auto simp: SyncOnce_def split: sum.splits bool.splits intro: emit_keeps)
  next
    case True
    then obtain c where c: "r1 = Inr ()" "env_QuarantineBlocked env ws w1 = Inr False" "env_Cursor env ws w1 = Inr c" by auto
    obtain r2 w2 where p: "pull_loop env ws c False w1 = Some (r2, w2)" and i2: "inv w2"
      using pull_loop_total [OF i1 cursor_bound [OF i1 c(3)]] by blast
    show ?thesis
    proof (cases r2)
      case (Inl e)
      with h c p i2 show ?thesis by (simp add: SyncOnce_def)
    next
      case (Inr c2)
      obtain r3 w3 where b: "between_loops env c2 w2 = (r3, w3)" by fastforce
      have i3: "inv w3"
        using b i2 by (auto simp: between_loops_def split: prod.splits sum.splits elim!: run_hook_keeps [rotated 2])
      obtain r4 w4 where q: "push_loop env ws c2 w3 = Some (r4, w4)" and i4: "inv w4" using push_loop_total [OF i3] by blast
      obtain r5 w5 where f: "finish_cycle env ws c2 w4 = (r5, w5)" by fastforce
      have "inv w'" if "run_hook l (map_option (\<lambda>f. f c2) (env_PublishSnapshot env)) w4 = (r, w')" for l r w'
        by (rule run_hook_keeps [OF _ i4 that]) auto
      with f i4 have i5: "inv w5"
        by (auto simp: finish_cycle_def split: prod.splits sum.splits if_splits intro: emit_keeps)
      show ?thesis
        using h c p Inr b q f i3 i4 i5 by (cases r3; cases r4) (simp_all add: SyncOnce_def)
    qed
  qed
qed

end

section \<open>The worker on the SQL repository\<close>

text \<open>The world of a device: its database, the state of the transport, the reported progress.\<close>

record ('m, 't) sync_world =
  sw_db :: "'m client_db"
  sw_env :: 't
  sw_log :: "Progress list"

definition on_db :: "('m client_db \<Rightarrow> sync_error + 'm client_db) \<Rightarrow> (('m, 't) sync_world, unit) action" where
  "on_db f w = (case f (sw_db w) of Inl e \<Rightarrow> (Inl e, w) | Inr db \<Rightarrow> (Inr (), w\<lparr>sw_db := db\<rparr>))"

definition on_env :: "('t \<Rightarrow> (sync_error + 'a) \<times> 't) \<Rightarrow> (('m, 't) sync_world, 'a) action" where
  "on_env f w = (case f (sw_env w) of (r, t) \<Rightarrow> (r, w\<lparr>sw_env := t\<rparr>))"

type_synonym 't pull_fn = "ID \<Rightarrow> Cursor \<Rightarrow> int \<Rightarrow> 't \<Rightarrow> (sync_error + PullPage) \<times> 't"
type_synonym 't push_fn = "ID \<Rightarrow> WireOperation list \<Rightarrow> 't \<Rightarrow> (sync_error + PushResult list) \<times> 't"

text \<open>
  The hooks of \<^verbatim>\<open>WorkerOptions\<close>: actions of the program around the worker, which may read
  and write the database and talk to the transport. What they do is a parameter; each of them
  may be left unset, and a hook that is called returns.
\<close>

record 'w worker_hooks =
  hk_Prepare :: "('w, unit) action option"
  hk_Bootstrap :: "('w, unit) action option"
  hk_ReviewSnapshot :: "(Cursor \<Rightarrow> ('w, unit) action) option"
  hk_SyncAttachments :: "('w, unit) action option"
  hk_PublishSnapshot :: "(Cursor \<Rightarrow> ('w, unit) action) option"

text \<open>Every action that the worker may run as a hook.\<close>

definition hook_actions :: "'w worker_hooks \<Rightarrow> ('w, unit) action set" where
  "hook_actions hooks = set_option (hk_Prepare hooks) \<union> set_option (hk_Bootstrap hooks) \<union> set_option (hk_SyncAttachments hooks)
     \<union> (\<Union>c. set_option (map_option (\<lambda>f. f c) (hk_ReviewSnapshot hooks)))
     \<union> (\<Union>c. set_option (map_option (\<lambda>f. f c) (hk_PublishSnapshot hooks)))"

text \<open>
  The environment that \<open>NewWorker\<close> builds from a \<open>SyncRepository\<close>, a transport and the
  options with their hooks.
\<close>

definition repo_env ::
  "('m, 't) sync_world worker_hooks \<Rightarrow> (bytes \<Rightarrow> bytes) \<Rightarrow> string \<Rightarrow> 'm processor \<Rightarrow> ('t \<Rightarrow> int) \<Rightarrow> ('t \<Rightarrow> sync_error option)
   \<Rightarrow> (sync_error \<Rightarrow> string) \<Rightarrow> int \<Rightarrow> 't pull_fn \<Rightarrow> 't push_fn \<Rightarrow> ('m, 't) sync_world worker_env" where
  "repo_env hooks sha256 transport verify now ctxErr errorText batch pull push =
     \<lparr>env_Cursor = (\<lambda>ws w. Repo_Cursor transport ws (sw_db w)),
      env_Quarantine = (\<lambda>op reason w. on_db (Repo_Quarantine op reason (now (sw_env w))) w),
      env_QuarantineBlocked = (\<lambda>ws w. Repo_QuarantineBlocked ws (sw_db w)),
      env_ApplyPage = (\<lambda>cursor ops w. on_db (Repo_ApplyPage sha256 transport cursor ops verify (now (sw_env w))) w),
      env_Pending = (\<lambda>ws limit w. Repo_Pending ws limit (sw_db w)),
      env_MarkPushed = (\<lambda>ws results w. on_db (Repo_MarkPushed ws results (now (sw_env w))) w),
      env_Pull = (\<lambda>ws cursor limit. on_env (pull ws cursor limit)),
      env_Push = (\<lambda>ws ops. on_env (push ws ops)),
      env_ctxErr = (\<lambda>w. ctxErr (sw_env w)),
      env_emit = (\<lambda>p w. w\<lparr>sw_log := sw_log w @ [p]\<rparr>),
      env_errorText = errorText,
      env_BatchSize = batch,
      env_Prepare = hk_Prepare hooks, env_Bootstrap = hk_Bootstrap hooks, env_ReviewSnapshot = hk_ReviewSnapshot hooks,
      env_SyncAttachments = hk_SyncAttachments hooks, env_PublishSnapshot = hk_PublishSnapshot hooks\<rparr>"

definition world_inv :: "('m, 't) sync_world \<Rightarrow> bool" where
  "world_inv w \<longleftrightarrow> repo_inv (sw_db w) \<and> (\<forall>i r. db_cursors (sw_db w) i = Some r \<longrightarrow> cr_last_seq r \<le> MaxInt64)"

lemma mark_all_sequences:
  "mark_all ws now results db = Inr db' \<Longrightarrow> list_all (\<lambda>r. PermanentError r = [] \<longrightarrow> Push_Sequence r \<le> MaxInt64) results"
  by (induction results arbitrary: db) (auto simp: err_simps mark_one_def Let_def not_less split: if_splits)

lemma MarkPushed_decreases:
  assumes "repo_inv db" "Repo_Pending ws n db = Inr pending" "pending \<noteq> []" "validatePushResults pending results = Inr ()"
    "Repo_MarkPushed ws results now db = Inr db'"
  shows "Repo_CountPending ws db' < Repo_CountPending ws db"
proof -
  have "list_all (\<lambda>r. Push_Sequence r \<le> MaxInt64) results"
    using mark_all_sequences [of ws now results db db'] assms(4,5)
    by (auto simp: Repo_MarkPushed_def validatePushResults_iff list_all_iff)
  with MarkPushed_consumes [OF assms(1,2,4) _ assms(3), of now] assms(5)
  have f: "filter (pending_row ws) (db_outbox db') = drop (nat n) (filter (pending_row ws) (db_outbox db))" by auto
  from assms(2,3) have "0 < n" "filter (pending_row ws) (db_outbox db) \<noteq> []"
    by (auto simp: Repo_Pending_def split: if_splits)
  with f show ?thesis by (auto simp: Repo_CountPending_def)
qed

lemma apply_all_cursors: "apply_all sha256 now items db = Inr db' \<Longrightarrow> db_cursors db' = db_cursors db"
proof (induction items arbitrary: db)
  case (Cons item items)
  obtain op act where item: "item = (op, act)" by (cases item)
  with Cons.prems obtain d1 where one: "apply_one sha256 now op act db = Inr d1" and rest: "apply_all sha256 now items d1 = Inr db'"
    by (auto simp: err_simps)
  from one have "db_cursors d1 = db_cursors db"
    by (auto simp: apply_one_def Let_def err_simps insert_applied_def mark_inbox_applied_def
        dest!: inbox_upsert_Inr split: if_splits option.splits)
  with Cons.IH [OF rest] show ?case by simp
qed simp

lemma ApplyPage_cursors:
  assumes "Repo_ApplyPage sha256 tr cursor ops verify now db = Inr db'"
  shows "LastSequence cursor \<le> MaxInt64 \<and> (\<exists>r. cr_last_seq r = LastSequence cursor \<and>
    db_cursors db' = (db_cursors db)(Cur_WorkspaceID cursor \<mapsto> r))"
proof -
  from assms obtain acts d1 where a: "apply_all sha256 now (zip ops acts) db = Inr d1" and u: "upsert_cursor tr cursor now d1 = Inr db'"
    by (auto simp: Repo_ApplyPage_def Let_def err_simps split: if_splits)
  let ?r = "\<lparr>cr_transport = tr, cr_last_seq = LastSequence cursor, cr_epoch = Epoch cursor, cr_updated = now\<rparr>"
  from u apply_all_cursors [OF a] have "LastSequence cursor \<le> MaxInt64" "cr_last_seq ?r = LastSequence cursor"
    "db_cursors db' = (db_cursors db)(Cur_WorkspaceID cursor \<mapsto> ?r)"
    by (auto simp: upsert_cursor_def not_less split: if_splits)
  then show ?thesis by blast
qed

lemma Quarantine_cursors: "Repo_Quarantine op reason now db = Inr db' \<Longrightarrow> db_cursors db' = db_cursors db"
  by (auto simp: Repo_Quarantine_def Let_def err_simps dest!: inbox_upsert_Inr)

lemma MarkPushed_cursors: "Repo_MarkPushed ws results now db = Inr db' \<Longrightarrow> db_cursors db' = db_cursors db"
  unfolding Repo_MarkPushed_def
  by (induction results arbitrary: db) (auto simp: err_simps mark_one_def Let_def update_outbox_def split: if_splits)

text \<open>The only thing termination asks of a transport: no empty page that announces more.\<close>

locale operation_transport =
  fixes pull :: "'t pull_fn" and push :: "'t push_fn"
  assumes page_more: "pull ws c n t = (Inr page, t') \<Longrightarrow> 0 < n \<Longrightarrow> Page_More page \<Longrightarrow> Page_Operations page \<noteq> []"

locale repo_sync = operation_transport pull push
  for pull :: "'t pull_fn" and push :: "'t push_fn" +
  fixes sha256 :: "bytes \<Rightarrow> bytes" and transport :: string and verify :: "'m processor" and now :: "'t \<Rightarrow> int"
    and ctxErr :: "'t \<Rightarrow> sync_error option" and errorText :: "sync_error \<Rightarrow> string" and batch :: int and ws :: ID
    and hooks :: "('m, 't) sync_world worker_hooks"
  assumes batch_size: "0 < batch" "batch \<le> 256"
    and hook_inv: "act \<in> hook_actions hooks \<Longrightarrow> world_inv w \<Longrightarrow> act w = (r, w') \<Longrightarrow> world_inv w'"

sublocale repo_sync \<subseteq> wc: worker_contract "repo_env hooks sha256 transport verify now ctxErr errorText batch pull push" ws
  world_inv "\<lambda>w. Repo_CountPending ws (sw_db w)"
proof (unfold_locales, goal_cases)
  case (9 w c ops w')
  then show ?case by (auto simp: repo_env_def on_db_def world_inv_def dest: ApplyPage_cursors split: sum.splits)
next
  case (8 w c ops r w')
  then show ?case
    by (auto simp: repo_env_def on_db_def world_inv_def dest: ApplyPage_inv ApplyPage_cursors split: sum.splits if_splits)
next
  case (10 w op cls r w')
  then show ?case by (auto simp: repo_env_def on_db_def world_inv_def dest: Quarantine_inv Quarantine_cursors split: sum.splits)
next
  case (14 w results r w')
  then show ?case by (auto simp: repo_env_def on_db_def world_inv_def dest: MarkPushed_inv MarkPushed_cursors split: sum.splits)
next
  case (15 w n pending results w')
  then show ?case by (auto simp: repo_env_def on_db_def world_inv_def intro: MarkPushed_decreases split: sum.splits)
next
  case (16 act w r w')
  then show ?case by (intro hook_inv [of act w r w']) (simp_all add: repo_env_def hook_actions_def)
qed (use batch_size in \<open>auto simp: repo_env_def on_env_def world_inv_def Repo_Cursor_def row_cursor_def
       dest: page_more split: prod.splits option.splits\<close>)

context repo_sync
begin

lemma cycle_total:
  "world_inv w \<Longrightarrow>
   \<exists>r w'. SyncOnce (repo_env hooks sha256 transport verify now ctxErr errorText batch pull push) ws w = Some (r, w') \<and> world_inv w'"
  by (rule wc.SyncOnce_total)

end

text \<open>
  C2. A synchronization cycle always ends, with a result, for the SQL repository, every
  transport that never announces more operations in an empty page, and every choice of the five
  hooks whose calls return and keep the table invariants: boundedly many pages can advance the
  cursor, a bootstrap re-enters the pull loop at most once, and every push round shortens the
  outbox. The table invariants hold afterwards, whatever the transport, the processor and the
  hooks returned.
\<close>

theorem SyncOnce_terminates:
  fixes pull :: "'t pull_fn" and w :: "('m, 't) sync_world"
  assumes "\<And>ws c n t page t'. pull ws c n t = (Inr page, t') \<Longrightarrow> 0 < n \<Longrightarrow> Page_More page \<Longrightarrow> Page_Operations page \<noteq> []"
    and "0 < batch" and "batch \<le> 256"
    and "\<And>act v r v'. act \<in> hook_actions hooks \<Longrightarrow> world_inv v \<Longrightarrow> act v = (r, v') \<Longrightarrow> world_inv v'"
    and "world_inv w"
  shows "\<exists>r w'. SyncOnce (repo_env hooks sha256 transport verify now ctxErr errorText batch pull push) ws w = Some (r, w') \<and> world_inv w'"
proof -
  have "repo_sync pull batch hooks"
    using assms(1-4) by unfold_locales blast+
  then show ?thesis using assms(5) by (rule repo_sync.cycle_total)
qed

text \<open>
  The condition on the transport is needed: against one that answers every pull with an empty
  page announcing more, which the page check accepts, the pull loop never returns.
\<close>

lemma pull_loop_spins_on_empty_pages:
  assumes "\<And>w. env_ctxErr env w = None"
    and "\<And>c n w. env_Pull env ws c n w = (Inr \<lparr>Page_Cursor = c, Page_Operations = [], Page_More = True\<rparr>, w)"
    and "Cur_WorkspaceID c = ws" "Epoch c \<noteq> 0" "0 \<le> env_BatchSize env"
  shows "pull_loop env ws c b w = None"
proof (rule ccontr)
  assume "pull_loop env ws c b w \<noteq> None"
  then obtain y where "pull_loop env ws c b w = Some y" by blast
  then have "env = env \<and> ws = ws \<and> c = c \<longrightarrow> False"
  proof (rule pull_loop.raw_induct [where P = "\<lambda>env' ws' c' b' w' y. env' = env \<and> ws' = ws \<and> c' = c \<longrightarrow> False", rotated], goal_cases)
    case (1 rec env' ws' c' b' w' y)
    have "pull_round env ws c b' w' = (Inr (c, b', True), env_emit env (progress ws ''pull'' (LastSequence c)) w')"
      using assms by (simp add: pull_round_def validatePullPage_def apply_page_def)
    with 1 show ?case by (cases y) fastforce
  qed
  then show False by blast
qed

section \<open>Quarantine sticks\<close>

lemma as_rejected_Reject: "as_rejected (Reject op cls e) = Some (op, if cls = [] then ''invalid_operation'' else cls, e)"
  by (simp add: Reject_def)

lemma inbox_upsert_Inl: "inbox_upsert upd r db = Inl e \<Longrightarrow> e = SqlError"
  by (auto simp: inbox_upsert_def split: if_splits)

lemma insert_applied_Inl: "insert_applied r db = Inl e \<Longrightarrow> e = SqlError"
  by (auto simp: insert_applied_def split: if_splits)

lemma verify_all_rejects: "verify_all verify ops = Inl err \<Longrightarrow> as_rejected err = Some (op, x) \<Longrightarrow> op \<in> set ops"
  by (induction ops) (auto simp: err_simps as_rejected_Reject split: sum.splits option.splits)

lemma apply_one_rejects: "apply_one sha256 now op' act db = Inl err \<Longrightarrow> as_rejected err = Some (op, x) \<Longrightarrow> op = op'"
  by (auto simp: apply_one_def Let_def err_simps as_rejected_Reject split: option.splits if_splits
      dest!: inbox_upsert_Inl insert_applied_Inl)

lemma apply_all_rejects: "apply_all sha256 now items db = Inl err \<Longrightarrow> as_rejected err = Some (op, x) \<Longrightarrow> op \<in> fst ` set items"
proof (induction items arbitrary: db)
  case (Cons item items)
  then show ?case by (cases item) (fastforce simp: err_simps dest: apply_one_rejects)
qed simp

lemma ApplyPage_rejects:
  assumes "Repo_ApplyPage sha256 tr cursor ops verify now db = Inl err" "as_rejected err = Some (op, x)"
  shows "op \<in> set ops"
  using assms
  by (auto simp: Repo_ApplyPage_def Let_def err_simps upsert_cursor_def split: if_splits
      dest: verify_all_rejects dest!: apply_all_rejects set_zip_leftD)

lemma apply_page_quarantines:
  assumes "apply_page (repo_env hooks sha256 tr verify now ctxErr etext batch pull push) ws c page w = (Inl ErrWorkspaceQuarantined, w')"
    and "validatePullPage ws c page batch = Inr ()"
  shows "Repo_QuarantineBlocked ws (sw_db w') = Inr True"
proof -
  let ?env = "repo_env hooks sha256 tr verify now ctxErr etext batch pull push"
  let ?w = "env_emit ?env ((progress ws ''apply'' (LastSequence c))\<lparr>Pg_Pulled := length (Page_Operations page)\<rparr>) w"
  from assms(1) obtain err op cls e db' where
    a: "Repo_ApplyPage sha256 tr (Page_Cursor page) (Page_Operations page) verify (now (sw_env ?w)) (sw_db ?w) = Inl err"
    and r: "as_rejected err = Some (op, cls, e)"
    and q: "Repo_Quarantine op cls (now (sw_env ?w)) (sw_db ?w) = Inr db'" and w': "sw_db w' = db'"
    by (auto simp: apply_page_def Let_def repo_env_def on_db_def split: if_splits prod.splits sum.splits option.splits)
  from ApplyPage_rejects [OF a r] have "op \<in> set (Page_Operations page)" .
  moreover from assms(2) have "map Op_WorkspaceID (Page_Operations page) = replicate (length (Page_Operations page)) ws"
    by (auto simp: validatePullPage_def err_simps check_sequences_iff split: if_splits)
  then have "set (map Op_WorkspaceID (Page_Operations page)) \<subseteq> {ws}"
    by (metis set_replicate_conv_if empty_subsetI subset_refl)
  ultimately have "Op_WorkspaceID op = ws" by auto
  with Quarantine_Inr(1) [OF q] w' show ?thesis by simp
qed

lemma check_sequences_Inl: "check_sequences w e ops = Inl x \<Longrightarrow> x = ErrInvalidCursor"
  by (induction ops arbitrary: e) (auto split: if_splits)

lemma validatePullPage_Inl: "validatePullPage w c page n = Inl x \<Longrightarrow> x = ErrInvalidCursor"
  by (auto simp: validatePullPage_def err_simps dest: check_sequences_Inl split: if_splits)

lemma check_results_Inl: "check_results rs seen = Inl e \<Longrightarrow> e \<noteq> ErrWorkspaceQuarantined"
  by (induction rs arbitrary: seen) (auto split: if_splits)

lemma validatePushResults_Inl: "validatePushResults pending results = Inl e \<Longrightarrow> e \<noteq> ErrWorkspaceQuarantined"
  by (auto simp: validatePushResults_def err_simps dest: check_results_Inl split: if_splits)

lemma pull_round_quarantines:
  assumes env: "env = repo_env hooks sha256 tr verify now ctxErr etext batch pull push"
    and ctx: "\<And>t. ctxErr t \<noteq> Some ErrWorkspaceQuarantined"
    and "pull_round env ws c b w = (Inl ErrWorkspaceQuarantined, w')"
  shows "Repo_QuarantineBlocked ws (sw_db w') = Inr True"
proof -
  have "env_ctxErr env w \<noteq> Some ErrWorkspaceQuarantined" "env_BatchSize env = batch"
    by (simp_all add: env repo_env_def ctx)
  with assms(3) obtain page w1 where "validatePullPage ws c page batch = Inr ()"
    "apply_page env ws c page w1 = (Inl ErrWorkspaceQuarantined, w')"
    by (auto simp: pull_round_def pull_failed_def dest: validatePullPage_Inl split: option.splits sum.splits prod.splits if_splits)
  then show ?thesis unfolding env by (rule apply_page_quarantines [rotated])
qed

lemma pull_loop_quarantines:
  assumes env: "env = repo_env hooks sha256 tr verify now ctxErr etext batch pull push"
    and ctx: "\<And>t. ctxErr t \<noteq> Some ErrWorkspaceQuarantined"
    and "pull_loop env ws c b w = Some (Inl ErrWorkspaceQuarantined, w')"
  shows "Repo_QuarantineBlocked ws (sw_db w') = Inr True"
proof -
  let ?P = "\<lambda>env' ws' c' b' w' y. env' = env \<and> fst y = Inl ErrWorkspaceQuarantined \<longrightarrow> Repo_QuarantineBlocked ws' (sw_db (snd y)) = Inr True"
  define y where "y = (Inl ErrWorkspaceQuarantined :: sync_error + Cursor, w')"
  from assms(3) have "pull_loop env ws c b w = Some y" by (simp add: y_def)
  then have "?P env ws c b w y"
  proof (rule pull_loop.raw_induct [where P = ?P, rotated], goal_cases)
    case (1 rec env' ws' c' b' w' y)
    then show ?case
      using pull_round_quarantines [OF env ctx, of ws' c' b' w'] by (cases y) (fastforce split: prod.splits sum.splits if_splits)
  qed
  then show ?thesis by (simp add: y_def)
qed

lemma push_round_not_quarantined:
  assumes env: "env = repo_env hooks sha256 tr verify now ctxErr etext batch pull push"
    and ctx: "\<And>t. ctxErr t \<noteq> Some ErrWorkspaceQuarantined"
  shows "push_round env ws c w \<noteq> (Inl ErrWorkspaceQuarantined, w')"
  using ctx
  by (auto simp: push_round_def env repo_env_def Let_def dest: validatePushResults_Inl split: option.splits sum.splits prod.splits)

lemma push_loop_not_quarantined:
  assumes env: "env = repo_env hooks sha256 tr verify now ctxErr etext batch pull push"
    and ctx: "\<And>t. ctxErr t \<noteq> Some ErrWorkspaceQuarantined"
  shows "push_loop env ws c w \<noteq> Some (Inl ErrWorkspaceQuarantined, w')"
proof
  let ?P = "\<lambda>env' ws' c' w' y. env' = env \<longrightarrow> fst y \<noteq> Inl ErrWorkspaceQuarantined"
  define y where "y = (Inl ErrWorkspaceQuarantined :: sync_error + unit, w')"
  assume "push_loop env ws c w = Some (Inl ErrWorkspaceQuarantined, w')"
  then have "push_loop env ws c w = Some y" by (simp add: y_def)
  then have "?P env ws c w y"
  proof (rule push_loop.raw_induct [where P = ?P, rotated], goal_cases)
    case (1 rec env' ws' c' w' y)
    then show ?case
      using push_round_not_quarantined [OF env ctx, of ws' c' w'] by (cases y) (fastforce split: prod.splits sum.splits if_splits)
  qed
  then show False by (simp add: y_def)
qed

text \<open>The error of a hook is wrapped, so it is never the quarantine error itself.\<close>

lemma run_hook_not_quarantined: "run_hook label hook w \<noteq> (Inl ErrWorkspaceQuarantined, w')"
  by (auto simp: run_hook_def split: option.splits prod.splits sum.splits)

lemma between_loops_not_quarantined: "between_loops env c w \<noteq> (Inl ErrWorkspaceQuarantined, w')"
  by (auto simp: between_loops_def run_hook_not_quarantined dest: run_hook_not_quarantined [THEN notE] split: prod.splits sum.splits)

lemma finish_cycle_not_quarantined: "finish_cycle env ws c w \<noteq> (Inl ErrWorkspaceQuarantined, w')"
  by (auto simp: finish_cycle_def dest: run_hook_not_quarantined [THEN notE] split: prod.splits sum.splits if_splits)

lemma SyncOnce_quarantines:
  assumes env: "env = repo_env hooks sha256 tr verify now ctxErr etext batch pull push"
    and ctx: "\<And>t. ctxErr t \<noteq> Some ErrWorkspaceQuarantined"
    and s: "SyncOnce env ws w = Some (Inl ErrWorkspaceQuarantined, w')"
  shows "Repo_QuarantineBlocked ws (sw_db w') = Inr True"
proof -
  have parts: "\<And>w. env_QuarantineBlocked env ws w = Repo_QuarantineBlocked ws (sw_db w)" "\<And>p w. sw_db (env_emit env p w) = sw_db w"
    by (simp_all add: env repo_env_def)
  obtain r1 w1 where h: "run_hook ''sync: prepare'' (env_Prepare env) w = (r1, w1)" by fastforce
  from s h run_hook_not_quarantined [of "''sync: prepare''" "env_Prepare env" w w1] have r1: "r1 = Inr ()"
    by (cases r1) (auto simp: SyncOnce_def)
  obtain blocked where bl: "Repo_QuarantineBlocked ws (sw_db w1) = Inr blocked" by (simp add: Repo_QuarantineBlocked_def)
  show ?thesis
  proof (cases blocked)
    case True
    with s h r1 bl show ?thesis by (auto simp: SyncOnce_def parts)
  next
    case False
    obtain c where c: "env_Cursor env ws w1 = Inr c" by (simp add: env repo_env_def Repo_Cursor_def)
    note before = h r1 bl False c parts
    from s obtain r2 w2 where p: "pull_loop env ws c False w1 = Some (r2, w2)"
      by (auto simp: SyncOnce_def before Option.bind_eq_Some_conv)
    show ?thesis
    proof (cases r2)
      case (Inl e)
      with s p have "e = ErrWorkspaceQuarantined" "w2 = w'" by (simp_all add: SyncOnce_def before)
      with Inl p show ?thesis using pull_loop_quarantines [OF env ctx] by simp
    next
      case (Inr c2)
      obtain r3 w3 where btw: "between_loops env c2 w2 = (r3, w3)" by fastforce
      with s p Inr between_loops_not_quarantined [of env c2 w2 w3] have r3: "r3 = Inr ()"
        by (cases r3) (auto simp: SyncOnce_def before)
      with s p Inr btw obtain r4 w4 where q: "push_loop env ws c2 w3 = Some (r4, w4)"
        and r: "(case r4 of Inl e \<Rightarrow> Some (Inl e, w4) | Inr _ \<Rightarrow> Some (finish_cycle env ws c2 w4)) = Some (Inl ErrWorkspaceQuarantined, w')"
        by (auto simp: SyncOnce_def before Option.bind_eq_Some_conv)
      with finish_cycle_not_quarantined [of env ws c2 w4] push_loop_not_quarantined [OF env ctx] show ?thesis by (auto split: sum.splits)
    qed
  qed
qed

text \<open>
  C19. Quarantine sticks, whatever the hooks are: when a cycle ends with
  \<open>ErrWorkspaceQuarantined\<close>, the database marks the workspace as blocked. The next cycle runs
  its \<open>Prepare\<close> hook, which is called before the mark is read. When that hook fails, its error
  is the result; otherwise, unless the hook itself took the mark away, the cycle ends with
  \<open>ErrWorkspaceQuarantined\<close> again and leaves the database and the transport as \<open>Prepare\<close> left
  them: nothing is pulled, applied or pushed. Without a \<open>Prepare\<close> hook they are unchanged.
\<close>

theorem SyncOnce_quarantine_sticks:
  fixes w :: "('m, 't) sync_world"
  assumes "SyncOnce (repo_env hooks sha256 tr verify now ctxErr etext batch pull push) ws w = Some (Inl ErrWorkspaceQuarantined, w')"
    and "\<And>t. ctxErr t \<noteq> Some ErrWorkspaceQuarantined"
  shows "Repo_QuarantineBlocked ws (sw_db w') = Inr True \<and>
    (\<forall>r v. run_hook ''sync: prepare'' (hk_Prepare hooks) w' = (r, v) \<longrightarrow>
      (case r of
         Inl e \<Rightarrow> SyncOnce (repo_env hooks sha256 tr verify now ctxErr etext batch pull push) ws w' = Some (Inl e, v)
       | Inr _ \<Rightarrow> Repo_QuarantineBlocked ws (sw_db v) = Inr True \<longrightarrow>
           (\<exists>w''. SyncOnce (repo_env hooks sha256 tr verify now ctxErr etext batch pull push) ws w'
               = Some (Inl ErrWorkspaceQuarantined, w'') \<and> sw_db w'' = sw_db v \<and> sw_env w'' = sw_env v))) \<and>
    (hk_Prepare hooks = None \<longrightarrow>
      (\<exists>w''. SyncOnce (repo_env hooks sha256 tr verify now ctxErr etext batch pull push) ws w' = Some (Inl ErrWorkspaceQuarantined, w'') \<and>
         sw_db w'' = sw_db w' \<and> sw_env w'' = sw_env w'))"
proof -
  have b: "Repo_QuarantineBlocked ws (sw_db w') = Inr True"
    by (rule SyncOnce_quarantines [OF refl assms(2) assms(1)])
  then show ?thesis by (auto simp: SyncOnce_def repo_env_def run_hook_def split: sum.split option.splits prod.splits)
qed

section \<open>Retry delays\<close>

lemma run_states_snoc:
  "run_states opts j etext ws (rs @ [r]) st =
     Option.bind (run_states opts j etext ws rs st) (\<lambda>st. case after_cycle opts j etext ws r st of
       RunReturn _ \<Rightarrow> None | RunWait _ _ st' \<Rightarrow> Some st')"
  by (induction rs arbitrary: st) (auto split: run_next.splits)

lemma normalized_times:
  "0 < BatchSize (WorkerOptions_normalized o1)" "BatchSize (WorkerOptions_normalized o1) \<le> 256"
  "0 < InitialBackoff (WorkerOptions_normalized o1)" "0 < MaxBackoff (WorkerOptions_normalized o1)"
  by (simp_all add: WorkerOptions_normalized_def Let_def)

lemma after_cycle_wait:
  assumes "after_cycle opts j etext ws r st = RunWait d p st'" "0 < InitialBackoff opts" "0 < MaxBackoff opts"
    and "0 < rs_backoff st" "rs_backoff st \<le> max (InitialBackoff opts) (MaxBackoff opts)"
  shows "0 < rs_backoff st' \<and> rs_backoff st' \<le> max (InitialBackoff opts) (MaxBackoff opts) \<and>
    rs_retryCount st' = (if isl r then rs_retryCount st + 1 else 0)"
  using assms by (auto simp: after_cycle_def Let_def max_def split: sum.splits if_splits)

text \<open>
  The retry policy is bounded and counts correctly: after any sequence of cycle results for
  which \<open>Run\<close> has not returned, the backoff is positive and at most the larger of the two
  configured bounds, and the reported retry count is the number of failures since the last
  success.
\<close>

lemma run_backoff_bounded:
  assumes "opts = WorkerOptions_normalized o1" and "run_states opts jitter etext ws rs (run_start opts) = Some st"
  shows "0 < rs_backoff st \<and> rs_backoff st \<le> max (InitialBackoff opts) (MaxBackoff opts) \<and>
    rs_retryCount st = length (takeWhile isl (rev rs))"
  using assms(2)
proof (induction rs arbitrary: st rule: rev_induct)
  case Nil
  then show ?case using normalized_times(3) [of o1] by (auto simp: run_start_def assms(1))
next
  case (snoc r rs)
  then obtain st1 where st1: "run_states opts jitter etext ws rs (run_start opts) = Some st1"
    and "(case after_cycle opts jitter etext ws r st1 of RunReturn _ \<Rightarrow> None | RunWait _ _ st' \<Rightarrow> Some st') = Some st"
    by (auto simp: run_states_snoc Option.bind_eq_Some_conv)
  then obtain d p where "after_cycle opts jitter etext ws r st1 = RunWait d p st" by (auto split: run_next.splits)
  from after_cycle_wait [OF this] snoc.IH [OF st1] normalized_times(3,4) [of o1] show ?case by (auto simp: assms(1))
qed

section \<open>Concrete cycles\<close>

definition idle_pull :: "unit pull_fn" where
  "idle_pull ws c n t = (Inr \<lparr>Page_Cursor = c, Page_Operations = [], Page_More = False\<rparr>, t)"

definition one_pull :: "unit pull_fn" where
  "one_pull ws c n t = (Inr \<lparr>Page_Cursor = demo_cursor, Page_Operations = [demo_wire], Page_More = False\<rparr>, t)"

definition refusing_push :: "unit push_fn" where
  "refusing_push ws ops t = (Inl TrustFailure, t)"

definition demo_world :: "(ID list, unit) sync_world" where
  "demo_world = \<lparr>sw_db = demo_db, sw_env = (), sw_log = []\<rparr>"

text \<open>
  A server that has compacted its log: it asks for a snapshot until the cursor has reached the
  boundary, and hands out the next operation after it. The \<open>Bootstrap\<close> hook moves the cursor
  to the boundary, as the import of a snapshot does; \<open>Prepare\<close> records that it ran.
\<close>

definition compacted_pull :: "nat pull_fn" where
  "compacted_pull ws c n t =
     (if LastSequence c < 4 then (Inl ErrSnapshotRequired, t + 1)
      else (Inr \<lparr>Page_Cursor = \<lparr>Cur_WorkspaceID = ws, LastSequence = 5, Epoch = 1\<rparr>,
                  Page_Operations = [demo_wire\<lparr>Op_Sequence := 5\<rparr>], Page_More = False\<rparr>, t + 1))"

definition demo_hooks :: "(ID list, nat) sync_world worker_hooks" where
  "demo_hooks = \<lparr>hk_Prepare = Some (\<lambda>w. (Inr (), w\<lparr>sw_env := sw_env w + 100\<rparr>)),
     hk_Bootstrap = Some (\<lambda>w. (Inr (), w\<lparr>sw_db := (sw_db w)\<lparr>db_cursors := (db_cursors (sw_db w))(demo_id 2 \<mapsto>
       \<lparr>cr_transport = ''server'', cr_last_seq = 4, cr_epoch = 1, cr_updated = 0\<rparr>)\<rparr>\<rparr>)),
     hk_ReviewSnapshot = None, hk_SyncAttachments = None, hk_PublishSnapshot = None\<rparr>"

definition demo_counted :: "(ID list, nat) sync_world" where
  "demo_counted = \<lparr>sw_db = demo_db, sw_env = 0, sw_log = []\<rparr>"

lemma demo_hooks_keep:
  assumes "act \<in> hook_actions demo_hooks" "world_inv v" "act v = (r, v')"
  shows "world_inv v'"
  using assms by (auto simp: hook_actions_def demo_hooks_def world_inv_def repo_inv_def split: if_splits)

theorem SyncOnce_terminates_witness:
  fixes env :: "(ID list, nat) sync_world worker_env"
  defines "env \<equiv> repo_env demo_hooks (\<lambda>b. b) ''server'' demo_verify (\<lambda>_. 0) (\<lambda>_. None) (\<lambda>_. []) 100 compacted_pull (\<lambda>_ _ t. (Inl TrustFailure, t))"
  shows "(\<exists>c w'. pull_round env (demo_id 2) \<lparr>Cur_WorkspaceID = demo_id 2, LastSequence = 0, Epoch = 1\<rparr> False demo_counted
        = (Inr (c, True, True), w') \<and> LastSequence c = 4) \<and>
    (\<exists>r w'. SyncOnce env (demo_id 2) demo_counted = Some (r, w') \<and> world_inv w')"
proof
  show "\<exists>c w'. pull_round env (demo_id 2) \<lparr>Cur_WorkspaceID = demo_id 2, LastSequence = 0, Epoch = 1\<rparr> False demo_counted
        = (Inr (c, True, True), w') \<and> LastSequence c = 4"
    by (simp add: env_def repo_env_def pull_round_def pull_failed_def on_env_def compacted_pull_def demo_hooks_def Repo_Cursor_def
        row_cursor_def demo_counted_def)
next
  have "world_inv demo_counted"
    by (simp add: world_inv_def demo_counted_def demo_db_def empty_db_def repo_inv_def inbox_ok_def applied_ok_def)
  moreover have "Page_Operations page \<noteq> []" if "compacted_pull ws c n t = (Inr page, t')" for ws c n t page t'
    using that by (auto simp: compacted_pull_def split: if_splits)
  ultimately show "\<exists>r w'. SyncOnce env (demo_id 2) demo_counted = Some (r, w') \<and> world_inv w'"
    unfolding env_def by (intro SyncOnce_terminates) (auto intro: demo_hooks_keep)
qed

definition noting_hooks :: "(ID list, unit) sync_world worker_hooks" where
  "noting_hooks = \<lparr>hk_Prepare = Some (\<lambda>w. (Inr (), w\<lparr>sw_log := sw_log w @ [progress (demo_id 2) ''prepare'' 0]\<rparr>)), hk_Bootstrap = None,
     hk_ReviewSnapshot = None, hk_SyncAttachments = None, hk_PublishSnapshot = None\<rparr>"

lemma bad_apply_page:
  fixes env :: "(ID list, unit) sync_world worker_env"
  assumes env: "env = repo_env hooks (\<lambda>b. b) ''server'' (\<lambda>_. Inl (OtherFailure ''bad'')) (\<lambda>_. 0) (\<lambda>_. None) (\<lambda>_. []) 100 one_pull refusing_push"
    and "sw_db w = demo_db" "Page_Operations page = [demo_wire]"
  shows "\<exists>w'. apply_page env ws c page w = (Inl ErrWorkspaceQuarantined, w')"
proof -
  obtain db' where q: "Repo_Quarantine demo_wire ''verification_failed'' 0 demo_db = Inr db'"
    by (simp add: Repo_Quarantine_def inbox_upsert_def storable_def demo_wire_def demo_op_def demo_db_def empty_db_def)
  show ?thesis
    by (simp add: apply_page_def env repo_env_def on_db_def assms(2,3) Repo_ApplyPage_def Reject_def verificationClass_def q Let_def)
qed

theorem SyncOnce_quarantine_sticks_witness:
  fixes env :: "(ID list, unit) sync_world worker_env"
  defines "env \<equiv> repo_env noting_hooks (\<lambda>b. b) ''server'' (\<lambda>_. Inl (OtherFailure ''bad'')) (\<lambda>_. 0) (\<lambda>_. None) (\<lambda>_. []) 100 one_pull refusing_push"
  shows "\<exists>w' w''. SyncOnce env (demo_id 2) demo_world = Some (Inl ErrWorkspaceQuarantined, w') \<and>
    Repo_QuarantineBlocked (demo_id 2) (sw_db w') = Inr True \<and>
    SyncOnce env (demo_id 2) w' = Some (Inl ErrWorkspaceQuarantined, w'') \<and> sw_db w'' = sw_db w'"
proof -
  let ?page = "\<lparr>Page_Cursor = demo_cursor, Page_Operations = [demo_wire], Page_More = False\<rparr>"
  let ?c = "\<lparr>Cur_WorkspaceID = demo_id 2, LastSequence = 0, Epoch = 1\<rparr>"
  let ?w0 = "demo_world\<lparr>sw_log := [progress (demo_id 2) ''prepare'' 0]\<rparr>"
  have v: "validatePullPage (demo_id 2) ?c ?page 100 = Inr ()"
    by (simp add: validatePullPage_def demo_cursor_def demo_wire_def demo_op_def)
  let ?w1 = "env_emit env (progress (demo_id 2) ''pull'' 0) ?w0"
  have pl: "env_Pull env (demo_id 2) ?c 100 ?w1 = (Inr ?page, ?w1)" "env_BatchSize env = 100"
    "env_ctxErr env ?w0 = None" "sw_db ?w1 = demo_db"
    by (simp_all add: env_def repo_env_def on_env_def one_pull_def demo_world_def)
  obtain w' where ap: "apply_page env (demo_id 2) ?c ?page ?w1 = (Inl ErrWorkspaceQuarantined, w')"
    using bad_apply_page [OF env_def [THEN meta_eq_to_obj_eq] pl(4), of ?page "demo_id 2" ?c] by (auto simp only: PullPage.select_convs)
  have p: "pull_loop env (demo_id 2) ?c False ?w0 = Some (Inl ErrWorkspaceQuarantined, w')"
    by (subst pull_loop.simps) (simp add: pull_round_def pl v ap)
  have "run_hook ''sync: prepare'' (env_Prepare env) demo_world = (Inr (), ?w0)" "env_QuarantineBlocked env (demo_id 2) ?w0 = Inr False"
    "env_Cursor env (demo_id 2) ?w0 = Inr ?c"
    by (simp_all add: env_def repo_env_def run_hook_def noting_hooks_def Repo_QuarantineBlocked_def Repo_Cursor_def row_cursor_def
        demo_world_def demo_db_def empty_db_def)
  with p have s: "SyncOnce env (demo_id 2) demo_world = Some (Inl ErrWorkspaceQuarantined, w')"
    by (simp add: SyncOnce_def)
  from SyncOnce_quarantine_sticks [OF s [unfolded env_def]]
  have "Repo_QuarantineBlocked (demo_id 2) (sw_db w') = Inr True \<and>
    (\<exists>w''. SyncOnce env (demo_id 2) w' = Some (Inl ErrWorkspaceQuarantined, w'') \<and> sw_db w'' = sw_db w')"
    by (auto simp: run_hook_def noting_hooks_def env_def)
  with s show ?thesis by blast
qed

end
