(* ===== verification/Coordinator.thy ===== *)
theory Coordinator
  imports Sync_Worker
begin

text \<open>
  The coordinator that owns the worker of a workspace: \<^verbatim>\<open>core/sync/coordinator.go\<close>. Several
  goroutines work on it: callers of \<open>Attach\<close> and \<open>Detach\<close>, which exclude each other by the lifecycle
  mutex, callers of \<open>Trigger\<close>, and one goroutine per attached worker. Every section under the
  mutex \<^verbatim>\<open>mu\<close> is one function; the goroutines interleave between these sections, and a worker may return at
  any time. The worker, its cancel function and its two channels are made together by \<open>Attach\<close> and
  are identified by the number of the run. A zero \<^verbatim>\<open>time.Time\<close> is \<^term>\<open>None\<close>.
\<close>

section \<open>State\<close>

record CoordinatorProgress =
  cp_Enabled :: bool
  cp_Phase :: Phase
  cp_LastSuccess :: "int option"
  cp_RetryDeadline :: "int option"
  cp_ErrorClass :: string
  cp_ErrorDetail :: string
  cp_ErrorAt :: "int option"
  cp_RetryCount :: nat

record Coordinator =
  co_cancel :: "nat option"
  co_worker :: "nat option"
  co_trigger :: "nat option"
  co_done :: "nat option"
  co_lastPhase :: Phase
  co_lastErrorClass :: string
  co_lastErrorDetail :: string
  co_lastErrorAt :: "int option"
  co_lastSuccess :: "int option"
  co_retryDeadline :: "int option"
  co_lastRetryCount :: nat

datatype run_stage = Working | Reported | Ended

text \<open>One goroutine with its context and the buffers of its channels.\<close>

record worker_run =
  wr_cancelled :: bool
  wr_triggered :: bool
  wr_done :: bool
  wr_stage :: run_stage

text \<open>The caller that holds the lifecycle mutex: what it waits for, and what it does then.\<close>

datatype lifecycle = Free | Stopping "nat option" bool

text \<open>\<open>cw_log\<close> is a history of the reports since the last \<open>Attach\<close>, with the run they came from; nothing reads it.\<close>

type_synonym report = "nat \<times> Progress \<times> int \<times> int"

record coordinator_world =
  cw_coordinator :: Coordinator
  cw_runs :: "worker_run list"
  cw_life :: lifecycle
  cw_log :: "report list"

section \<open>Sections under the mutex\<close>

definition NewCoordinator :: Coordinator where
  "NewCoordinator = \<lparr>co_cancel = None, co_worker = None, co_trigger = None, co_done = None, co_lastPhase = [], co_lastErrorClass = [], co_lastErrorDetail = [],
     co_lastErrorAt = None, co_lastSuccess = None, co_retryDeadline = None, co_lastRetryCount = 0\<rparr>"

definition forget_worker :: "Coordinator \<Rightarrow> Coordinator" where
  "forget_worker c = c\<lparr>co_cancel := None, co_worker := None, co_trigger := None, co_done := None\<rparr>"

definition reset_progress :: "Coordinator \<Rightarrow> Coordinator" where
  "reset_progress c = c\<lparr>co_lastPhase := [], co_lastErrorClass := [], co_lastErrorDetail := [], co_lastErrorAt := None, co_lastSuccess := None,
     co_retryDeadline := None, co_lastRetryCount := 0\<rparr>"

definition cancel_run :: "nat option \<Rightarrow> worker_run list \<Rightarrow> worker_run list" where
  "cancel_run cancel runs = (case cancel of None \<Rightarrow> runs | Some i \<Rightarrow> runs[i := (runs ! i)\<lparr>wr_cancelled := True\<rparr>])"

text \<open>\<open>stopAndWait\<close> up to the wait; the flag tells whether the caller attaches a new worker afterwards.\<close>

definition stopAndWait :: "bool \<Rightarrow> coordinator_world \<Rightarrow> coordinator_world" where
  "stopAndWait attaching w = w\<lparr>cw_runs := cancel_run (co_cancel (cw_coordinator w)) (cw_runs w), cw_coordinator := forget_worker (cw_coordinator w),
     cw_life := Stopping (co_done (cw_coordinator w)) attaching\<rparr>"

definition receive_done :: "nat \<Rightarrow> bool \<Rightarrow> coordinator_world \<Rightarrow> coordinator_world" where
  "receive_done i attaching w = w\<lparr>cw_runs := (cw_runs w)[i := (cw_runs w ! i)\<lparr>wr_done := False\<rparr>], cw_life := Stopping None attaching\<rparr>"

text \<open>The second section of \<open>Attach\<close>. The first trigger fits into the new channel.\<close>

definition Attach :: "coordinator_world \<Rightarrow> coordinator_world" where
  "Attach w =
     (let n = length (cw_runs w) in
      w\<lparr>cw_coordinator := (reset_progress (cw_coordinator w))\<lparr>co_cancel := Some n, co_worker := Some n, co_trigger := Some n, co_done := Some n\<rparr>,
        cw_runs := cw_runs w @ [\<lparr>wr_cancelled = False, wr_triggered = True, wr_done = False, wr_stage = Working\<rparr>], cw_life := Free, cw_log := []\<rparr>)"

definition Detach :: "coordinator_world \<Rightarrow> coordinator_world" where
  "Detach w = w\<lparr>cw_life := Free\<rparr>"

definition Trigger :: "coordinator_world \<Rightarrow> bool \<times> coordinator_world" where
  "Trigger w =
     (case co_trigger (cw_coordinator w) of
        None \<Rightarrow> (False, w)
      | Some i \<Rightarrow> (True, w\<lparr>cw_runs := (cw_runs w)[i := (cw_runs w ! i)\<lparr>wr_triggered := True\<rparr>]\<rparr>))"

definition Enabled :: "Coordinator \<Rightarrow> bool" where
  "Enabled c \<longleftrightarrow> co_worker c \<noteq> None"

text \<open>The times are the results of the calls of \<^verbatim>\<open>now\<close>, in their order.\<close>

definition recordProgress :: "Progress \<Rightarrow> int \<Rightarrow> int \<Rightarrow> Coordinator \<Rightarrow> Coordinator" where
  "recordProgress p now1 now2 c =
     (let c = c\<lparr>co_lastPhase := Pg_Phase p, co_lastErrorClass := Pg_ErrorClass p, co_lastErrorDetail := Pg_ErrorDetail p, co_lastRetryCount := Pg_RetryCount p\<rparr> in
      if Pg_Phase p = ''current'' then c\<lparr>co_lastSuccess := Some now1, co_retryDeadline := None, co_lastErrorAt := None\<rparr>
      else if Pg_Phase p = ''backoff'' then c\<lparr>co_retryDeadline := Some (now1 + Pg_RetryIn p), co_lastErrorAt := Some now2\<rparr>
      else if Pg_Phase p = ''quarantine'' then c\<lparr>co_retryDeadline := None, co_lastErrorAt := Some now1\<rparr>
      else c\<lparr>co_retryDeadline := None, co_lastErrorAt := None\<rparr>)"

definition Coordinator_Progress :: "Coordinator \<Rightarrow> CoordinatorProgress" where
  "Coordinator_Progress c = \<lparr>cp_Enabled = (co_worker c \<noteq> None), cp_Phase = co_lastPhase c, cp_LastSuccess = co_lastSuccess c, cp_RetryDeadline = co_retryDeadline c,
     cp_ErrorClass = co_lastErrorClass c, cp_ErrorDetail = co_lastErrorDetail c, cp_ErrorAt = co_lastErrorAt c, cp_RetryCount = co_lastRetryCount c\<rparr>"

definition run_returns :: "nat \<Rightarrow> coordinator_world \<Rightarrow> coordinator_world" where
  "run_returns i w = w\<lparr>cw_runs := (cw_runs w)[i := (cw_runs w ! i)\<lparr>wr_stage := Reported, wr_done := True\<rparr>]\<rparr>"

definition run_cleans_up :: "nat \<Rightarrow> coordinator_world \<Rightarrow> coordinator_world" where
  "run_cleans_up i w = w\<lparr>cw_runs := (cw_runs w)[i := (cw_runs w ! i)\<lparr>wr_stage := Ended\<rparr>],
     cw_coordinator := (if co_done (cw_coordinator w) = Some i then forget_worker (cw_coordinator w) else cw_coordinator w)\<rparr>"

definition take_trigger :: "nat \<Rightarrow> coordinator_world \<Rightarrow> coordinator_world" where
  "take_trigger i w = w\<lparr>cw_runs := (cw_runs w)[i := (cw_runs w ! i)\<lparr>wr_triggered := False\<rparr>]\<rparr>"

section \<open>Interleavings\<close>

definition in_stage :: "run_stage \<Rightarrow> nat \<Rightarrow> coordinator_world \<Rightarrow> bool" where
  "in_stage st i w \<longleftrightarrow> i < length (cw_runs w) \<and> wr_stage (cw_runs w ! i) = st"

inductive coordinator_step :: "coordinator_world \<Rightarrow> coordinator_world \<Rightarrow> bool" where
  stop: "cw_life w = Free \<Longrightarrow> coordinator_step w (stopAndWait attaching w)"
| waited: "cw_life w = Stopping (Some i) attaching \<Longrightarrow> i < length (cw_runs w) \<Longrightarrow> wr_done (cw_runs w ! i) \<Longrightarrow> coordinator_step w (receive_done i attaching w)"
| attach: "cw_life w = Stopping None True \<Longrightarrow> coordinator_step w (Attach w)"
| detach: "cw_life w = Stopping None False \<Longrightarrow> coordinator_step w (Detach w)"
| trigger: "coordinator_step w (snd (Trigger w))"
| report: "in_stage Working i w \<Longrightarrow> coordinator_step w
    (w\<lparr>cw_coordinator := recordProgress p now1 now2 (cw_coordinator w), cw_log := cw_log w @ [(i, p, now1, now2)]\<rparr>)"
| works: "in_stage Working i w \<Longrightarrow> wr_triggered (cw_runs w ! i) \<Longrightarrow> coordinator_step w (take_trigger i w)"
| returns: "in_stage Working i w \<Longrightarrow> coordinator_step w (run_returns i w)"
| cleans_up: "in_stage Reported i w \<Longrightarrow> coordinator_step w (run_cleans_up i w)"

inductive_cases coordinator_stepE: "coordinator_step w w'"

definition coordinator_start :: coordinator_world where
  "coordinator_start = \<lparr>cw_coordinator = NewCoordinator, cw_runs = [], cw_life = Free, cw_log = []\<rparr>"

abbreviation coordinator_reachable :: "coordinator_world \<Rightarrow> bool" where
  "coordinator_reachable \<equiv> coordinator_step\<^sup>*\<^sup>* coordinator_start"


section \<open>Invariant\<close>

definition set_run :: "nat option \<Rightarrow> Coordinator \<Rightarrow> Coordinator" where
  "set_run x c = c\<lparr>co_cancel := x, co_worker := x, co_trigger := x, co_done := x\<rparr>"

definition replay :: "report list \<Rightarrow> Coordinator" where
  "replay reports = fold (\<lambda>(i, p, now1, now2). recordProgress p now1 now2) reports NewCoordinator"

abbreviation attached :: "coordinator_world \<Rightarrow> nat option" where
  "attached w \<equiv> co_done (cw_coordinator w)"

text \<open>The run that may still work: the attached one, or the one that a caller waits for.\<close>

fun awaited :: "lifecycle \<Rightarrow> nat option" where
  "awaited Free = None"
| "awaited (Stopping d _) = d"

definition live_run :: "coordinator_world \<Rightarrow> nat option" where
  "live_run w = (case cw_life w of Free \<Rightarrow> attached w | Stopping d _ \<Rightarrow> d)"

definition run_ok :: "worker_run \<Rightarrow> bool" where
  "run_ok r \<longleftrightarrow> (wr_stage r = Working \<longrightarrow> \<not> wr_done r)"

definition replayed :: "coordinator_world \<Rightarrow> bool" where
  "replayed w \<longleftrightarrow> (\<exists>x. cw_coordinator w = set_run x (replay (cw_log w)))"

definition coordinator_inv :: "coordinator_world \<Rightarrow> bool" where
  "coordinator_inv w \<longleftrightarrow> replayed w \<and>
     (cw_life w \<noteq> Free \<longrightarrow> attached w = None) \<and>
     (\<forall>i. in_stage Working i w \<longrightarrow> live_run w = Some i \<and> Suc i = length (cw_runs w)) \<and>
     (\<forall>i. live_run w = Some i \<longrightarrow> Suc i = length (cw_runs w) \<and> (in_stage Working i w \<or> wr_done (cw_runs w ! i))) \<and>
     (\<forall>i. attached w = Some i \<longrightarrow> \<not> in_stage Ended i w) \<and>
     (\<forall>i. awaited (cw_life w) = Some i \<longrightarrow> wr_cancelled (cw_runs w ! i)) \<and>
     list_all (\<lambda>(i, _). Suc i = length (cw_runs w)) (cw_log w) \<and>
     list_all run_ok (cw_runs w)"

lemma set_run_simps [simp]: "co_done (set_run x c) = x" "set_run x (set_run y c) = set_run x c" "co_cancel (set_run x c) = x" "co_trigger (set_run x c) = x"
  by (simp_all add: set_run_def)

lemma forget_worker_set [simp]: "forget_worker c = set_run None c"
  by (simp add: set_run_def forget_worker_def)

lemma recordProgress_set [simp]: "recordProgress p a b (set_run x c) = set_run x (recordProgress p a b c)"
  by (cases c) (simp add: set_run_def recordProgress_def Let_def)

lemma reset_replay: "(reset_progress (set_run x (replay reports)))\<lparr>co_cancel := y, co_worker := y, co_trigger := y, co_done := y\<rparr> = set_run y (replay [])"
  by (simp add: reset_progress_def set_run_def replay_def NewCoordinator_def)

lemma replay_snoc: "replay (reports @ [(i, p, a, b)]) = recordProgress p a b (replay reports)"
  by (simp add: replay_def)

lemma in_stage_update:
  assumes "i < length (cw_runs w)"
  shows "in_stage st j (w\<lparr>cw_runs := (cw_runs w)[i := r]\<rparr>) \<longleftrightarrow> (if j = i then wr_stage r = st else in_stage st j w)"
  using assms by (auto simp: in_stage_def nth_list_update)

lemma coordinator_inv_start: "coordinator_inv coordinator_start"
proof -
  have "cw_coordinator coordinator_start = set_run None (replay (cw_log coordinator_start))" by (simp add: coordinator_start_def NewCoordinator_def set_run_def replay_def)
  then have "replayed coordinator_start" unfolding replayed_def by blast
  then show ?thesis by (simp add: coordinator_inv_def) (simp add: coordinator_start_def NewCoordinator_def in_stage_def live_run_def)
qed

lemma replayed_runs [simp]: "replayed (w\<lparr>cw_runs := rs\<rparr>) = replayed w" "replayed (w\<lparr>cw_life := l\<rparr>) = replayed w"
  by (simp_all add: replayed_def)

lemma live_run_runs [simp]: "live_run (w\<lparr>cw_runs := rs\<rparr>) = live_run w"
  by (simp add: live_run_def split: lifecycle.split)

lemma replayed_cancel: "replayed w \<Longrightarrow> co_cancel (cw_coordinator w) = attached w \<and> co_trigger (cw_coordinator w) = attached w \<and> co_worker (cw_coordinator w) = attached w"
  by (auto simp: replayed_def) (simp add: set_run_def)

lemma invD:
  assumes "coordinator_inv w"
  shows "replayed w" "cw_life w \<noteq> Free \<Longrightarrow> attached w = None" "in_stage Working i w \<Longrightarrow> live_run w = Some i \<and> Suc i = length (cw_runs w)"
    "live_run w = Some i \<Longrightarrow> Suc i = length (cw_runs w) \<and> (in_stage Working i w \<or> wr_done (cw_runs w ! i))"
    "attached w = Some i \<Longrightarrow> \<not> in_stage Ended i w" "awaited (cw_life w) = Some i \<Longrightarrow> wr_cancelled (cw_runs w ! i)"
    "list_all (\<lambda>(i, _). Suc i = length (cw_runs w)) (cw_log w)" "list_all run_ok (cw_runs w)"
  using assms unfolding coordinator_inv_def by blast+

text \<open>A change of the run \<open>i\<close> that keeps its stage, its message and a cancellation.\<close>

lemma inv_touch:
  assumes inv: "coordinator_inv w" and i: "i < length (cw_runs w)"
    and r: "wr_stage r = wr_stage (cw_runs w ! i)" "wr_done r = wr_done (cw_runs w ! i)" "wr_cancelled (cw_runs w ! i) \<longrightarrow> wr_cancelled r"
  shows "coordinator_inv (w\<lparr>cw_runs := (cw_runs w)[i := r]\<rparr>)"
proof -
  let ?w = "w\<lparr>cw_runs := (cw_runs w)[i := r]\<rparr>"
  have st: "in_stage st j ?w = in_stage st j w" for st j using r(1) i by (auto simp: in_stage_def nth_list_update)
  have nth: "wr_done (cw_runs ?w ! j) = wr_done (cw_runs w ! j)" "wr_cancelled (cw_runs w ! j) \<longrightarrow> wr_cancelled (cw_runs ?w ! j)" for j
    using r i by (auto simp: nth_list_update)
  have "list_all run_ok (cw_runs ?w)" using inv r i by (auto simp: coordinator_inv_def list_all_length nth_list_update run_ok_def)
  then show ?thesis using inv nth unfolding coordinator_inv_def st by auto
qed


lemma inv_stop:
  assumes inv: "coordinator_inv w" and free: "cw_life w = Free"
  shows "coordinator_inv (stopAndWait attaching w)"
proof -
  let ?w1 = "w\<lparr>cw_runs := cancel_run (attached w) (cw_runs w)\<rparr>"
  have live: "live_run w = attached w" by (simp add: live_run_def free)
  have inv1: "coordinator_inv ?w1"
  proof (cases "attached w")
    case (Some i)
    then have "i < length (cw_runs w)" using invD(4) [OF inv, of i] live by simp
    with inv show ?thesis by (simp add: Some cancel_run_def) (rule inv_touch; simp)
  qed (use inv in \<open>simp add: cancel_run_def\<close>)
  have eq: "stopAndWait attaching w = ?w1\<lparr>cw_coordinator := set_run None (cw_coordinator w), cw_life := Stopping (attached w) attaching\<rparr>"
    using replayed_cancel [OF invD(1) [OF inv]] by (simp add: stopAndWait_def)
  let ?w2 = "stopAndWait attaching w"
  have live2: "live_run ?w2 = live_run ?w1" by (simp add: eq live) (simp add: live_run_def)
  have runs: "cw_runs ?w2 = cw_runs ?w1" "cw_log ?w2 = cw_log ?w1" "attached ?w2 = None" "awaited (cw_life ?w2) = attached w" by (simp_all add: eq)
  have st: "in_stage st i ?w2 = in_stage st i ?w1" for st i by (simp add: in_stage_def runs)
  have rep: "replayed ?w2" using invD(1) [OF inv] by (auto simp: replayed_def eq)
  have can: "wr_cancelled (cw_runs ?w2 ! i)" if "attached w = Some i" for i
    using that invD(4) [OF inv, of i] live by (simp add: runs cancel_run_def)
  show ?thesis unfolding coordinator_inv_def st live2 runs
    using invD(3,4,7,8) [OF inv1] rep can by (auto simp: runs)
qed

lemma inv_waited:
  assumes inv: "coordinator_inv w" and life: "cw_life w = Stopping (Some i) attaching" and d: "wr_done (cw_runs w ! i)"
  shows "coordinator_inv (receive_done i attaching w)"
proof -
  let ?w = "receive_done i attaching w"
  have live: "live_run w = Some i" by (simp add: live_run_def life)
  from invD(4) [OF inv live] have i: "i < length (cw_runs w)" by simp
  with invD(8) [OF inv] d have "\<not> in_stage Working i w" by (auto simp: in_stage_def run_ok_def list_all_length)
  then have no: "\<not> in_stage Working j w" for j using invD(3) [OF inv, of j] live by auto
  have st: "in_stage st j ?w = in_stage st j w" for st j using i by (auto simp: in_stage_def receive_done_def nth_list_update)
  have "list_all run_ok (cw_runs ?w)" using invD(8) [OF inv] i by (auto simp: receive_done_def list_all_length nth_list_update run_ok_def)
  moreover have "replayed ?w" using invD(1) [OF inv] by (simp add: receive_done_def replayed_def)
  moreover have "live_run ?w = None" "attached ?w = None" "cw_log ?w = cw_log w" "length (cw_runs ?w) = length (cw_runs w)"
    using invD(2) [OF inv] life by (simp_all add: receive_done_def live_run_def)
  ultimately show ?thesis using no invD(7) [OF inv] unfolding coordinator_inv_def st by (auto simp: receive_done_def)
qed

lemma inv_attach:
  assumes inv: "coordinator_inv w" and life: "cw_life w = Stopping None True"
  shows "coordinator_inv (Attach w)"
proof -
  let ?n = "length (cw_runs w)" and ?w = "Attach w"
  have live: "live_run w = None" by (simp add: live_run_def life)
  have no: "\<not> in_stage Working j w" for j using invD(3) [OF inv, of j] live by auto
  have a: "attached ?w = Some ?n" "cw_log ?w = []" "length (cw_runs ?w) = Suc ?n" "cw_life ?w = Free" by (simp_all add: Attach_def Let_def)
  have live': "live_run ?w = Some ?n" by (simp add: live_run_def a)
  have st: "in_stage Working j ?w \<longleftrightarrow> j = ?n" for j using no [of j] by (auto simp: in_stage_def Attach_def Let_def nth_append)
  have "\<not> in_stage Ended ?n ?w" by (simp add: in_stage_def Attach_def Let_def)
  moreover have "replayed ?w"
  proof -
    from invD(1) [OF inv] obtain x where "cw_coordinator w = set_run x (replay (cw_log w))" by (auto simp: replayed_def)
    then have "cw_coordinator ?w = set_run (Some ?n) (replay (cw_log ?w))" by (simp add: Attach_def Let_def reset_replay)
    then show ?thesis unfolding replayed_def by blast
  qed
  moreover have "list_all run_ok (cw_runs ?w)" using invD(8) [OF inv] by (simp add: Attach_def Let_def run_ok_def)
  ultimately show ?thesis unfolding coordinator_inv_def st live' a by auto
qed

lemma inv_detach:
  assumes inv: "coordinator_inv w" and life: "cw_life w = Stopping None False"
  shows "coordinator_inv (Detach w)"
proof -
  have live: "live_run w = None" "live_run (Detach w) = None" using invD(2) [OF inv] life by (simp_all add: live_run_def Detach_def)
  have no: "\<not> in_stage Working j w" for j using invD(3) [OF inv, of j] live by auto
  have st: "in_stage st j (Detach w) = in_stage st j w" for st j by (simp add: in_stage_def Detach_def)
  show ?thesis unfolding coordinator_inv_def st live(2) using no invD [OF inv] invD(2) [OF inv] life by (auto simp: Detach_def)
qed

lemma inv_report:
  assumes inv: "coordinator_inv w" and i: "in_stage Working i w"
  shows "coordinator_inv (w\<lparr>cw_coordinator := recordProgress p a b (cw_coordinator w), cw_log := cw_log w @ [(i, p, a, b)]\<rparr>)"
proof -
  let ?w = "w\<lparr>cw_coordinator := recordProgress p a b (cw_coordinator w), cw_log := cw_log w @ [(i, p, a, b)]\<rparr>"
  have r: "co_done (recordProgress p a b c) = co_done c" for c by (simp add: recordProgress_def Let_def)
  have st: "in_stage st j ?w = in_stage st j w" for st j by (simp add: in_stage_def)
  have live: "live_run ?w = live_run w" by (simp add: live_run_def r split: lifecycle.split)
  have "replayed ?w" using invD(1) [OF inv] by (auto simp: replayed_def replay_snoc)
  moreover have "list_all (\<lambda>(i, _). Suc i = length (cw_runs w)) (cw_log ?w)" using invD(3) [OF inv i] invD(7) [OF inv] by simp
  ultimately show ?thesis unfolding coordinator_inv_def st live using invD(2-6,8) [OF inv] by (auto simp: r)
qed


lemma inv_returns:
  assumes inv: "coordinator_inv w" and i: "in_stage Working i w"
  shows "coordinator_inv (run_returns i w)"
proof -
  let ?w = "run_returns i w"
  have n: "i < length (cw_runs w)" using i by (simp add: in_stage_def)
  have st: "in_stage st j ?w \<longleftrightarrow> (if j = i then st = Reported else in_stage st j w)" for st j
    using n by (auto simp: in_stage_def run_returns_def nth_list_update)
  have nth: "wr_done (cw_runs w ! j) \<Longrightarrow> wr_done (cw_runs ?w ! j)" "wr_cancelled (cw_runs ?w ! j) = wr_cancelled (cw_runs w ! j)" "wr_done (cw_runs ?w ! i)" for j
    using n by (auto simp: run_returns_def nth_list_update)
  have same: "live_run ?w = live_run w" "replayed ?w = replayed w" "attached ?w = attached w" "cw_life ?w = cw_life w" "cw_log ?w = cw_log w" "length (cw_runs ?w) = length (cw_runs w)"
    by (simp_all add: run_returns_def)
  have "list_all run_ok (cw_runs ?w)" using invD(8) [OF inv] n by (auto simp: run_returns_def list_all_length nth_list_update run_ok_def)
  then show ?thesis unfolding coordinator_inv_def st same nth(2) using invD(1-7) [OF inv] nth(1,3) by auto
qed

lemma inv_cleans_up:
  assumes inv: "coordinator_inv w" and i: "in_stage Reported i w"
  shows "coordinator_inv (run_cleans_up i w)"
proof -
  let ?w = "run_cleans_up i w"
  have n: "i < length (cw_runs w)" using i by (simp add: in_stage_def)
  have st: "in_stage st j ?w \<longleftrightarrow> (if j = i then st = Ended else in_stage st j w)" for st j
    using n by (auto simp: in_stage_def run_cleans_up_def nth_list_update)
  have nth: "wr_done (cw_runs ?w ! j) = wr_done (cw_runs w ! j)" "wr_cancelled (cw_runs ?w ! j) = wr_cancelled (cw_runs w ! j)" for j
    using n by (auto simp: run_cleans_up_def nth_list_update)
  have same: "cw_life ?w = cw_life w" "cw_log ?w = cw_log w" "length (cw_runs ?w) = length (cw_runs w)" by (simp_all add: run_cleans_up_def)
  have att: "attached ?w = (if attached w = Some i then None else attached w)" by (simp add: run_cleans_up_def)
  have live: "live_run ?w = (if cw_life w = Free \<and> attached w = Some i then None else live_run w)"
    by (cases "cw_life w") (simp_all add: live_run_def same att)
  have free: "cw_life w = Free \<Longrightarrow> live_run w = attached w" by (simp add: live_run_def)
  have work: "\<not> in_stage Working i w" using i by (simp add: in_stage_def)
  have "replayed ?w" using invD(1) [OF inv] by (auto simp: replayed_def run_cleans_up_def)
  moreover have "list_all run_ok (cw_runs ?w)" using invD(8) [OF inv] n by (auto simp: run_cleans_up_def list_all_length nth_list_update run_ok_def)
  moreover have "j \<noteq> i \<longrightarrow> in_stage Working j w \<longrightarrow> live_run ?w = Some j \<and> Suc j = length (cw_runs w)" for j
    using invD(3) [OF inv, of j] free by (auto simp: live)
  moreover have "live_run ?w = Some j \<longrightarrow> Suc j = length (cw_runs w) \<and> ((j \<noteq> i \<and> in_stage Working j w) \<or> wr_done (cw_runs w ! j))" for j
    using invD(4) [OF inv, of j] work by (auto simp: live split: if_splits)
  ultimately show ?thesis unfolding coordinator_inv_def st same nth using invD(2,5,6,7) [OF inv] by (auto simp: att split: if_splits)
qed

lemma inv_take_trigger: "coordinator_inv w \<Longrightarrow> in_stage Working i w \<Longrightarrow> coordinator_inv (take_trigger i w)"
  unfolding take_trigger_def by (rule inv_touch) (simp_all add: in_stage_def)

lemma inv_Trigger:
  assumes inv: "coordinator_inv w"
  shows "coordinator_inv (snd (Trigger w))"
proof (cases "co_trigger (cw_coordinator w)")
  case (Some i)
  then have a: "attached w = Some i" using replayed_cancel [OF invD(1) [OF inv]] by simp
  then have "cw_life w = Free" using invD(2) [OF inv] by auto
  with a have "live_run w = Some i" by (simp add: live_run_def)
  then have "i < length (cw_runs w)" using invD(4) [OF inv] by auto
  with Some inv show ?thesis by (simp add: Trigger_def) (rule inv_touch; simp)
qed (use inv in \<open>simp add: Trigger_def\<close>)

lemma coordinator_step_inv: "coordinator_step w w' \<Longrightarrow> coordinator_inv w \<Longrightarrow> coordinator_inv w'"
  by (cases rule: coordinator_step.cases, assumption)
    (auto intro: inv_stop inv_waited inv_attach inv_detach inv_Trigger inv_report inv_take_trigger inv_returns inv_cleans_up)

lemma coordinator_reachable_inv: "coordinator_reachable w \<Longrightarrow> coordinator_inv w"
  by (induction rule: rtranclp_induct) (auto intro: coordinator_inv_start coordinator_step_inv)

section \<open>Guarantees\<close>

lemma one_position:
  assumes "\<And>i. i < length xs \<Longrightarrow> P (xs ! i) \<Longrightarrow> Suc i = length xs"
  shows "length (filter P xs) \<le> 1"
  using assms
proof (induction xs rule: rev_induct)
  case (snoc x xs)
  have "\<not> P (xs ! i)" if "i < length xs" for i using snoc.prems [of i] that by (auto simp: nth_append)
  then have "filter P xs = []" by (auto simp: filter_empty_conv in_set_conv_nth)
  then show ?case by simp
qed simp

text \<open>
  C13. The coordinator has one worker at a time, under every interleaving of callers and workers: at most one
  worker runs; what \<open>Progress\<close> shows is made from the reports of the worker attached last and of
  no other; and a caller that waits for a worker waits for one that was told to stop and has not
  returned, or its message is there, so that the caller goes on after the worker returns.\<close>

theorem coordinator_one_worker:
  assumes "coordinator_reachable w"
  shows "length (filter (\<lambda>r. wr_stage r = Working) (cw_runs w)) \<le> 1 \<and>
    Coordinator_Progress (cw_coordinator w) = (Coordinator_Progress (replay (cw_log w)))\<lparr>cp_Enabled := Enabled (cw_coordinator w)\<rparr> \<and>
    list_all (\<lambda>(i, _). Suc i = length (cw_runs w)) (cw_log w) \<and>
    (cw_life w = Stopping (Some i) attaching \<longrightarrow>
       in_stage Working i w \<and> wr_cancelled (cw_runs w ! i) \<and> cw_life (receive_done i attaching (run_returns i w)) = Stopping None attaching \<and>
         coordinator_step\<^sup>*\<^sup>* w (receive_done i attaching (run_returns i w)) \<or>
       coordinator_step w (receive_done i attaching w))"
proof -
  note inv = coordinator_reachable_inv [OF assms]
  have one: "length (filter (\<lambda>r. wr_stage r = Working) (cw_runs w)) \<le> 1"
    using invD(3) [OF inv] by (intro one_position) (simp add: in_stage_def)
  have prog: "Coordinator_Progress (cw_coordinator w) = (Coordinator_Progress (replay (cw_log w)))\<lparr>cp_Enabled := Enabled (cw_coordinator w)\<rparr>"
    using invD(1) [OF inv] by (auto simp: replayed_def Coordinator_Progress_def Enabled_def set_run_def)
  have wait: "in_stage Working i w \<and> wr_cancelled (cw_runs w ! i) \<and> cw_life (receive_done i attaching (run_returns i w)) = Stopping None attaching \<and>
      coordinator_step\<^sup>*\<^sup>* w (receive_done i attaching (run_returns i w)) \<or> coordinator_step w (receive_done i attaching w)"
    if life: "cw_life w = Stopping (Some i) attaching"
  proof -
    have live: "live_run w = Some i" by (simp add: live_run_def life)
    have n: "i < length (cw_runs w)" using invD(4) [OF inv live] by simp
    show ?thesis
    proof (cases "wr_done (cw_runs w ! i)")
      case True
      with life n show ?thesis by (auto intro: coordinator_step.waited)
    next
      case False
      then have work: "in_stage Working i w" using invD(4) [OF inv live] by simp
      have "coordinator_step (run_returns i w) (receive_done i attaching (run_returns i w))"
        using life n by (intro coordinator_step.waited) (simp_all add: run_returns_def)
      with coordinator_step.returns [OF work] have "coordinator_step\<^sup>*\<^sup>* w (receive_done i attaching (run_returns i w))"
        by (meson r_into_rtranclp rtranclp.rtrancl_into_rtrancl)
      with work invD(6) [OF inv, of i] life show ?thesis by (simp add: receive_done_def)
    qed
  qed
  from one prog invD(7) [OF inv] wait show ?thesis by blast
qed


definition demo_attached_world :: coordinator_world where
  "demo_attached_world = Attach (stopAndWait True coordinator_start)"

lemma demo_attached_reachable: "coordinator_reachable demo_attached_world"
proof -
  have "coordinator_step coordinator_start (stopAndWait True coordinator_start)" by (rule coordinator_step.stop) (simp add: coordinator_start_def)
  moreover have "coordinator_step (stopAndWait True coordinator_start) demo_attached_world"
    unfolding demo_attached_world_def by (rule coordinator_step.attach) (simp add: stopAndWait_def coordinator_start_def NewCoordinator_def)
  ultimately show ?thesis by (meson r_into_rtranclp rtranclp.rtrancl_into_rtrancl)
qed

lemma demo_attached_simps: "cw_life demo_attached_world = Free" "attached demo_attached_world = Some 0" "in_stage Working 0 demo_attached_world"
  by (simp_all add: demo_attached_world_def Attach_def stopAndWait_def coordinator_start_def NewCoordinator_def cancel_run_def in_stage_def)

theorem coordinator_one_worker_witness:
  "\<exists>w. coordinator_reachable w \<and> cw_life w = Stopping (Some 0) False \<and> length (filter (\<lambda>r. wr_stage r = Working) (cw_runs w)) \<le> 1 \<and>
     (in_stage Working 0 w \<and> wr_cancelled (cw_runs w ! 0) \<or> coordinator_step w (receive_done 0 False w))"
proof -
  let ?w = "stopAndWait False demo_attached_world"
  have r: "coordinator_reachable ?w"
    using demo_attached_reachable coordinator_step.stop [OF demo_attached_simps(1)] by (rule rtranclp.rtrancl_into_rtrancl)
  have l: "cw_life ?w = Stopping (Some 0) False" by (simp add: stopAndWait_def demo_attached_simps)
  from coordinator_one_worker [OF r, of 0 False] r l show ?thesis by blast
qed

text \<open>
  A request may still be lost: between the return of a worker and the section that forgets
  it, \<open>Trigger\<close> reports that a worker runs, and nobody reads the channel any more.
\<close>

lemma trigger_after_return:
  "\<exists>w. coordinator_reachable w \<and> fst (Trigger w) \<and> filter (\<lambda>r. wr_stage r = Working) (cw_runs w) = []"
proof -
  let ?w = "run_returns 0 demo_attached_world"
  have "coordinator_reachable ?w"
    using demo_attached_reachable coordinator_step.returns [OF demo_attached_simps(3)] by (rule rtranclp.rtrancl_into_rtrancl)
  moreover have "fst (Trigger ?w)" "filter (\<lambda>r. wr_stage r = Working) (cw_runs ?w) = []"
    by (simp_all add: Trigger_def run_returns_def demo_attached_world_def Attach_def stopAndWait_def coordinator_start_def NewCoordinator_def cancel_run_def)
  ultimately show ?thesis by blast
qed

end
