(* ===== verification/Server_Tables.thy ===== *)
theory Server_Tables
  imports Canonical_Inputs "HOL-Library.List_Lexorder" "HOL-Library.Char_ord"
begin

text \<open>
  The tables of the server database (\<^verbatim>\<open>server/migrations\<close>) and the helpers of
  \<^verbatim>\<open>server/storage.go\<close> that every handler uses. A table is the list of its rows in insertion
  order; a query is a search or filter of that list, an \<^verbatim>\<open>INSERT\<close> fails when it violates a
  key. Times are nanoseconds since the epoch, the stored times are seconds. A write
  transaction (\<open>withWriteTx\<close>) is a function on the database that returns either an error, and
  then the database is the one before, or the result with the new database; the storage mutex
  makes the transactions atomic steps. Disk failures are not modelled.
\<close>

section \<open>Errors and identifiers\<close>

datatype server_error =
  ErrNotFound | ErrForbidden | ErrConflict | ErrInvalid | ErrUnauthorized | ErrQuota | ErrRateLimited
| ErrCursorCompacted \<comment> \<open>the server's \<^verbatim>\<open>ErrSnapshotRequired\<close>\<close>
| ErrSql \<comment> \<open>an error of the database or the file system that no handler translates\<close>

definition unixNow :: "int \<Rightarrow> int" where
  "unixNow now = now div 1000000000"

definition UnixMilli :: "int \<Rightarrow> int" where
  "UnixMilli now = now div 1000000"

abbreviation days30 :: int where
  "days30 \<equiv> 30 * 24 * 3600 * 1000000000"

definition lower_hex :: "char \<Rightarrow> bool" where
  "lower_hex c \<longleftrightarrow> c \<in> set ''0123456789abcdef''"

abbreviation dash :: "char \<Rightarrow> bool" where
  "dash c \<equiv> c = CHR ''-''"

text \<open>The regular expression \<open>canonicalIDPattern\<close>, one predicate for each of its 36 characters.\<close>

definition canonicalIDPattern :: "(char \<Rightarrow> bool) list" where
  "canonicalIDPattern =
     replicate 8 lower_hex @ [dash] @ replicate 4 lower_hex @ [dash] @ [\<lambda>c. c = CHR ''7''] @ replicate 3 lower_hex
     @ [dash] @ [\<lambda>c. c \<in> set ''89ab''] @ replicate 3 lower_hex @ [dash] @ replicate 12 lower_hex"

definition matches :: "(char \<Rightarrow> bool) list \<Rightarrow> string \<Rightarrow> bool" where
  "matches pattern s \<longleftrightarrow> list_all2 (\<lambda>p c. p c) pattern s"

definition validateID :: "string \<Rightarrow> server_error + unit" where
  "validateID s = guard_res (matches canonicalIDPattern s) ErrInvalid"

text \<open>\<^verbatim>\<open>strings.ToLower\<close> on ASCII text, the only text that reaches it after the hex decoder.\<close>

definition to_lower :: "string \<Rightarrow> string" where
  "to_lower s = map (\<lambda>c. let n = of_char c :: nat in if 65 \<le> n \<and> n \<le> 90 then char_of (n + 32) else c) s"

definition validateOpaqueID :: "string \<Rightarrow> server_error + unit" where
  "validateOpaqueID s =
     (if length s \<noteq> 32 then Inl ErrInvalid
      else case hex_decode s of
             None \<Rightarrow> Inl ErrInvalid
           | Some decoded \<Rightarrow> guard_res (length decoded = 16 \<and> s = to_lower s) ErrInvalid)"

definition decodeCanonicalID :: "string \<Rightarrow> server_error + bytes" where
  "decodeCanonicalID s =
     (case hex_decode (filter (\<lambda>c. \<not> dash c) s) of
        None \<Rightarrow> Inl ErrInvalid
      | Some decoded \<Rightarrow> (case ParseID decoded of Inl _ \<Rightarrow> Inl ErrInvalid | Inr i \<Rightarrow> Inr (ID_Bytes i)))"

definition decodeOpaqueID :: "string \<Rightarrow> server_error + bytes" where
  "decodeOpaqueID s =
     (case hex_decode s of None \<Rightarrow> Inl ErrInvalid | Some d \<Rightarrow> if length d \<noteq> 16 then Inl ErrInvalid else Inr d)"

definition allZero :: "bytes \<Rightarrow> bool" where
  "allZero value \<longleftrightarrow> list_all (\<lambda>b. b = 0) value"

section \<open>Tables\<close>

record user_row =
  u_id :: string
  u_display :: string
  u_identity :: bytes
  u_authority :: bytes
  u_quota :: int
  u_created :: int

record device_row =
  d_id :: string
  d_user :: string
  d_display :: string
  d_signing :: bytes
  d_platform :: "string option"
  d_created :: int
  d_last_seen :: "int option"
  d_revoked :: "int option"

record invite_row =
  i_id :: string
  i_code_hash :: bytes
  i_display :: string
  i_expires :: int
  i_consumed :: "int option"
  i_created :: int

record challenge_row =
  c_id :: string
  c_device :: string
  c_nonce_hash :: bytes
  c_scope :: string
  c_expires :: int
  c_consumed :: "int option"
  c_created :: int

record session_row =
  s_token_hash :: bytes
  s_user :: string
  s_device :: string
  s_scope :: string
  s_expires :: int
  s_created :: int

record keybag_row =
  k_user :: string
  k_version :: int
  k_ciphertext :: bytes
  k_updated :: int

record workspace_row =
  w_id :: string
  w_owner :: string
  w_key :: string
  w_latest :: int
  w_epoch :: int
  w_created :: int
  w_compaction_snapshot :: "string option"
  w_compacted :: int

record member_row =
  m_ws :: string
  m_user :: string
  m_role :: string
  m_created :: int
  m_revoked :: "int option"

record envelope_row =
  e_ws :: string
  e_user :: string
  e_key :: string
  e_envelope :: bytes
  e_created :: int

record transition_row =
  t_ws :: string
  t_key :: string
  t_signature :: bytes
  t_recipients :: string
  t_created :: int

record operation_row =
  o_id :: string
  o_ws :: string
  o_device :: string
  o_seq :: int
  o_physical :: int
  o_logical :: u32
  o_key :: string
  o_nonce :: bytes
  o_ciphertext :: bytes
  o_signature :: bytes
  o_hash :: bytes
  o_created :: int

record snapshot_row =
  n_id :: string
  n_ws :: string
  n_base :: int
  n_epoch :: int
  n_key :: string
  n_device :: string
  n_physical :: int
  n_logical :: u32
  n_nonce :: bytes
  n_hash :: bytes
  n_ciphertext :: bytes
  n_signature :: bytes
  n_eligible :: "int option"
  n_created :: int

record ack_row =
  a_snapshot :: string
  a_device :: string
  a_hash :: bytes
  a_signature :: bytes
  a_created :: int

record server_db =
  users :: "user_row list"
  devices :: "device_row list"
  invites :: "invite_row list"
  challenges :: "challenge_row list"
  sessions :: "session_row list"
  keybags :: "keybag_row list"
  workspaces :: "workspace_row list"
  memberships :: "member_row list"
  key_envelopes :: "envelope_row list"
  key_transitions :: "transition_row list"
  operations :: "operation_row list"
  snapshots :: "snapshot_row list"
  snapshot_acks :: "ack_row list"

definition empty_server :: server_db where
  "empty_server = \<lparr>users = [], devices = [], invites = [], challenges = [], sessions = [], keybags = [], workspaces = [],
     memberships = [], key_envelopes = [], key_transitions = [], operations = [], snapshots = [], snapshot_acks = []\<rparr>"

text \<open>\<^verbatim>\<open>UPDATE table SET f WHERE P\<close>; the affected rows are those of \<open>filter P\<close>.\<close>

definition update_rows :: "('r \<Rightarrow> bool) \<Rightarrow> ('r \<Rightarrow> 'r) \<Rightarrow> 'r list \<Rightarrow> 'r list" where
  "update_rows P f rows = map (\<lambda>r. if P r then f r else r) rows"

section \<open>Configuration and principal\<close>

record ServerConfig =
  MaxOperationBytes :: int
  MaxBlobBytes :: int
  UserQuotaBytes :: int
  MaxOperationsPerBatch :: int
  MaxHLCFutureSkew :: int
  MaxHLCPastAge :: int
  ChallengeTTL :: int
  SessionTTL :: int
  serverFingerprint :: string

record Principal =
  UserID :: string
  DeviceID :: string
  Scope :: string
  TokenHash :: bytes

type_synonym 'a tx = "server_db \<Rightarrow> server_error + 'a \<times> server_db"

definition isActiveMember :: "string \<Rightarrow> string \<Rightarrow> server_db \<Rightarrow> bool" where
  "isActiveMember user ws db \<longleftrightarrow> list_ex (\<lambda>m. m_ws m = ws \<and> m_user m = user \<and> m_revoked m = None) (memberships db)"

definition requireWorkspaceOwner :: "string \<Rightarrow> string \<Rightarrow> server_db \<Rightarrow> server_error + unit" where
  "requireWorkspaceOwner user ws db =
     (case find (\<lambda>m. m_ws m = ws \<and> m_user m = user \<and> m_revoked m = None) (memberships db) of
        None \<Rightarrow> Inl ErrForbidden
      | Some m \<Rightarrow> if m_role m \<noteq> ''owner'' then Inl ErrForbidden else Inr ())"

text \<open>\<^verbatim>\<open>SELECT signing_public FROM devices WHERE device_id = ? AND user_id = ? AND revoked_at IS NULL\<close>.\<close>

definition device_key :: "string \<Rightarrow> string \<Rightarrow> server_db \<Rightarrow> bytes option" where
  "device_key device user db =
     map_option d_signing (find (\<lambda>d. d_id d = device \<and> d_user d = user \<and> d_revoked d = None) (devices db))"

definition find_ws :: "string \<Rightarrow> server_db \<Rightarrow> workspace_row option" where
  "find_ws ws db = find (\<lambda>w. w_id w = ws) (workspaces db)"

section \<open>Comparison and identifier text\<close>

lemma lower_hex_iff: "lower_hex c \<longleftrightarrow> (\<exists>n<16. c = hex_digit n)"
proof -
  have "''0123456789abcdef'' = map hex_digit [0..<16]" by code_simp
  then show ?thesis unfolding lower_hex_def by (auto simp del: upt.simps)
qed

lemma hex_pair:
  assumes "m < 16" "n < 16"
  shows "hex_encode [word_of_nat (16 * m + n)] = [hex_digit m, hex_digit n]"
proof -
  have "unat (word_of_nat (16 * m + n) :: byte) = 16 * m + n"
    using assms by (simp only: unat_of_nat) simp
  with assms show ?thesis by (simp only: hex_encode.simps) simp
qed

lemma lower_hex_encode: "list_all lower_hex s \<Longrightarrow> even (length s) \<Longrightarrow> \<exists>bs. s = hex_encode bs \<and> length s = 2 * length bs"
proof (induction s rule: induct_list012)
  case (3 c d cs)
  then obtain bs where bs: "cs = hex_encode bs" by auto
  from 3 obtain m n where mn: "m < 16" "n < 16" "c = hex_digit m" "d = hex_digit n"
    by (auto simp: lower_hex_iff)
  then have "c # d # cs = hex_encode ([word_of_nat (16 * m + n)] @ bs)"
    using hex_pair [of m n] bs by simp
  then show ?case by (metis length_hex_encode)
qed auto

lemma lower_hex_hex_digit: "n < 16 \<Longrightarrow> lower_hex (hex_digit n)"
  by (auto simp: lower_hex_iff)

lemma lower_hex_hex_encode: "list_all lower_hex (hex_encode bs)"
proof (induction bs)
  case (Cons b bs)
  have "unat b div 16 < 16" using unat_byte_less [of b] by linarith
  with Cons show ?case by (simp add: lower_hex_hex_digit)
qed simp

lemma to_lower_hex: "list_all lower_hex s \<Longrightarrow> to_lower s = s"
proof -
  have "list_all (\<lambda>c. (if 65 \<le> (of_char c :: nat) \<and> of_char c \<le> (90 :: nat) then char_of (of_char c + 32 :: nat) else c) = c)
      ''0123456789abcdef''" by code_simp
  then have "(if 65 \<le> (of_char c :: nat) \<and> of_char c \<le> (90 :: nat) then char_of (of_char c + 32 :: nat) else c) = c"
    if "lower_hex c" for c
    using that unfolding list_all_iff lower_hex_def by blast
  then show "list_all lower_hex s \<Longrightarrow> to_lower s = s"
    unfolding to_lower_def Let_def by (intro map_idI) (simp add: list_all_iff)
qed

lemma validateOpaqueID_encode [simp]: "length k = 16 \<Longrightarrow> validateOpaqueID (hex_encode k) = Inr ()"
  by (simp add: validateOpaqueID_def guard_res_def to_lower_hex lower_hex_hex_encode)

lemma decodeOpaqueID_encode [simp]: "length k = 16 \<Longrightarrow> decodeOpaqueID (hex_encode k) = Inr k"
  by (simp add: decodeOpaqueID_def)

lemma decodeOpaqueID_length: "decodeOpaqueID s = Inr k \<Longrightarrow> length k = 16"
  by (auto simp: decodeOpaqueID_def split: option.splits if_splits)

lemma filter_dash_hex [simp]: "filter (\<lambda>c. \<not> dash c) (hex_encode bs) = hex_encode bs"
proof -
  have "\<not> dash c" if "lower_hex c" for c
    using that by (auto simp: lower_hex_def)
  with lower_hex_hex_encode [of bs] show ?thesis by (auto simp: filter_id_conv list_all_iff)
qed

lemma hex_encode_append [simp]: "hex_encode (as @ bs) = hex_encode as @ hex_encode bs"
  by (induction as) auto

lemma filter_dash_String: "filter (\<lambda>c. \<not> dash c) (ID_String i) = hex_encode (ID_Bytes i)"
proof -
  let ?a = "id_array i"
  have "filter (\<lambda>c. \<not> dash c) (ID_String i) =
      hex_encode (slice ?a 0 4 @ slice ?a 4 6 @ slice ?a 6 8 @ slice ?a 8 10 @ slice ?a 10 16)"
    by (simp add: ID_String_def Let_def)
  also have "slice ?a 0 4 @ slice ?a 4 6 @ slice ?a 6 8 @ slice ?a 8 10 @ slice ?a 10 16 = ?a"
    by (simp add: slice_append_slice)
  finally show ?thesis by (simp add: ID_Bytes_def)
qed

lemma decodeCanonicalID_String [simp]: "valid_id i \<Longrightarrow> decodeCanonicalID (ID_String i) = Inr (ID_Bytes i)"
  by (simp add: decodeCanonicalID_def filter_dash_String)

lemma matches_append: "matches (ps @ qs) s \<longleftrightarrow> (\<exists>s1 s2. s = s1 @ s2 \<and> matches ps s1 \<and> matches qs s2)"
  unfolding matches_def by (metis list_all2_append1 list_all2_appendI)

lemma matches_appI: "matches ps s \<Longrightarrow> matches qs t \<Longrightarrow> matches (ps @ qs) (s @ t)"
  unfolding matches_append by blast

lemma matches_Cons: "matches (p # ps) s \<longleftrightarrow> (\<exists>c s'. s = c # s' \<and> p c \<and> matches ps s')"
  by (auto simp: matches_def list_all2_Cons1)

lemma matches_replicate: "matches (replicate n p) s \<longleftrightarrow> length s = n \<and> list_all p s"
  by (auto simp: matches_def list_all2_conv_all_nth list_all_length)

lemma matches_Nil: "matches [] s \<longleftrightarrow> s = []"
  by (simp add: matches_def)

lemma version_char: "hex_digit (unat (b :: byte) div 16) = CHR ''7'' \<longleftrightarrow> b AND 0xf0 = 0x70"
  by (rule byte_exhaust) code_simp

lemma variant_char: "hex_digit (unat (b :: byte) div 16) \<in> set ''89ab'' \<longleftrightarrow> b AND 0xc0 = 0x80"
  by (rule byte_exhaust) code_simp

lemma lower_hex_parts: "lower_hex (CHR ''7'')" "c \<in> set ''89ab'' \<Longrightarrow> lower_hex c"
  by (auto simp: lower_hex_def)

lemma hex_head: "bs \<noteq> [] \<Longrightarrow> hex_encode bs = c # s \<Longrightarrow> c = hex_digit (unat (bs ! 0) div 16)"
  by (cases bs) auto

lemma validateID_String:
  assumes "validateID s = Inr ()"
  shows "\<exists>i. valid_id i \<and> s = ID_String i"
proof -
  from assms obtain A B C v D E where s: "s = A @ ''-'' @ B @ ''-'' @ (CHR ''7'' # C) @ ''-'' @ (v # D) @ ''-'' @ E"
    and l: "length A = 8" "length B = 4" "length C = 3" "length D = 3" "length E = 12"
    and h: "list_all lower_hex A" "list_all lower_hex B" "list_all lower_hex C" "list_all lower_hex D" "list_all lower_hex E"
    and v: "v \<in> set ''89ab''"
    unfolding validateID_def guard_res_def canonicalIDPattern_def matches_append matches_Cons matches_replicate matches_Nil
    by (fastforce split: if_splits)
  obtain a where a: "A = hex_encode a" "length a = 4" using lower_hex_encode [of A] h l by auto
  obtain b where b: "B = hex_encode b" "length b = 2" using lower_hex_encode [of B] h l by auto
  obtain c where c: "CHR ''7'' # C = hex_encode c" "length c = 2"
    using lower_hex_encode [of "CHR ''7'' # C"] h l lower_hex_parts(1) by auto
  obtain d where d: "v # D = hex_encode d" "length d = 2"
    using lower_hex_encode [of "v # D"] h l lower_hex_parts(2) [OF v] by auto
  obtain e where e: "E = hex_encode e" "length e = 6" using lower_hex_encode [of E] h l by auto
  let ?i = "id_copy (a @ b @ c @ d @ e)"
  have arr: "id_array ?i = a @ b @ c @ d @ e" using a b c d e by simp
  have "c \<noteq> []" "d \<noteq> []" using c d by auto
  then have "hex_digit (unat (c ! 0) div 16) = CHR ''7''" "hex_digit (unat (d ! 0) div 16) = v"
    using hex_head [OF _ c(1) [symmetric]] hex_head [OF _ d(1) [symmetric]] by simp_all
  then have "c ! 0 AND 0xf0 = 0x70" "d ! 0 AND 0xc0 = 0x80"
    using version_char variant_char v by blast+
  then have "valid_id ?i" using a b c d by (simp add: valid_id_iff arr nth_append)
  moreover have "ID_String ?i = s"
    unfolding s c(1) d(1) using a b c(2) d(2) e by (simp add: ID_String_def Let_def arr slice_def)
  ultimately show ?thesis by metis
qed

lemma validateID_ID_String [simp]:
  assumes "valid_id i"
  shows "validateID (ID_String i) = Inr ()"
proof -
  let ?a = "id_array i"
  let ?c = "slice ?a 6 8" and ?d = "slice ?a 8 10"
  obtain c0 c1 where c: "?c = [c0, c1]" "c0 = ?a ! 6"
    by (simp add: slice_def numeral_eq_Suc take_Suc_conv_app_nth)
  obtain d0 d1 where d: "?d = [d0, d1]" "d0 = ?a ! 8"
    by (simp add: slice_def numeral_eq_Suc take_Suc_conv_app_nth)
  have "hex_digit (unat c0 div 16) = CHR ''7''" "hex_digit (unat d0 div 16) \<in> set ''89ab''"
    using assms c(2) d(2) unfolding valid_id_iff version_char variant_char by simp_all
  then obtain C D v where "hex_encode ?c = CHR ''7'' # C" "length C = 3" "list_all lower_hex C"
    "hex_encode ?d = v # D" "length D = 3" "list_all lower_hex D" "v \<in> set ''89ab''"
    using lower_hex_hex_encode [of ?c] lower_hex_hex_encode [of ?d] by (simp add: c d)
  then have "matches ([\<lambda>c. c = CHR ''7''] @ replicate 3 lower_hex) (hex_encode ?c)"
    "matches ([\<lambda>c. c \<in> set ''89ab''] @ replicate 3 lower_hex) (hex_encode ?d)"
    unfolding append_Cons append_Nil matches_Cons matches_replicate by blast+
  note parts = this
  have hex: "matches (replicate n lower_hex) (hex_encode bs)" if "n = 2 * length bs" for n bs
    using that lower_hex_hex_encode [of bs] by (simp add: matches_replicate)
  have sep: "matches [dash] ''-''" by (simp add: matches_def)
  have eq: "canonicalIDPattern = replicate 8 lower_hex @ [dash] @ replicate 4 lower_hex @ [dash]
      @ ([\<lambda>c. c = CHR ''7''] @ replicate 3 lower_hex) @ [dash] @ ([\<lambda>c. c \<in> set ''89ab''] @ replicate 3 lower_hex)
      @ [dash] @ replicate 12 lower_hex"
    by (simp add: canonicalIDPattern_def)
  have "matches canonicalIDPattern (ID_String i)"
    unfolding eq ID_String_def Let_def by (intro matches_appI hex sep parts) simp_all
  then show ?thesis by (simp add: validateID_def guard_res_def)
qed

end
