(* ===== verification/Server_Identity.thy ===== *)
theory Server_Identity
  imports Server_Tables "HOL-Library.Sublist" "HOL-Library.Product_Lexorder"
begin

text \<open>
  Accounts, devices and sessions of the server: \<^verbatim>\<open>server/identity_store.go\<close> and the device
  handlers of \<^verbatim>\<open>server/resources_store.go\<close> and \<^verbatim>\<open>server/admin_store.go\<close>. The random
  identifiers and tokens a handler draws are arguments, as are SHA-256 and Ed25519
  verification.
\<close>

section \<open>Invitations\<close>

text \<open>
  \<^verbatim>\<open>strings.TrimSpace\<close>: the UTF-8 encodings of the Unicode white space characters are removed
  at both ends.
\<close>

definition white_space :: "bytes list" where
  "white_space = [[9], [10], [11], [12], [13], [32], [0xc2, 0x85], [0xc2, 0xa0], [0xe1, 0x9a, 0x80]]
     @ map (\<lambda>b. [0xe2, 0x80, b]) [0x80, 0x81, 0x82, 0x83, 0x84, 0x85, 0x86, 0x87, 0x88, 0x89, 0x8a, 0xa8, 0xa9, 0xaf]
     @ [[0xe2, 0x81, 0x9f], [0xe3, 0x80, 0x80]]"

function trim_left :: "bytes list \<Rightarrow> bytes \<Rightarrow> bytes" where
  "trim_left spaces s =
     (case find (\<lambda>p. p \<noteq> [] \<and> prefix p s) spaces of
        None \<Rightarrow> s
      | Some p \<Rightarrow> trim_left spaces (drop (length p) s))"
  by pat_completeness auto

termination
  by (relation "measure (\<lambda>(spaces, s). length s)") (auto simp: find_Some_iff prefix_def)

declare trim_left.simps [simp del]

definition TrimSpace :: "string \<Rightarrow> string" where
  "TrimSpace s = bytes_str (rev (trim_left (map rev white_space) (rev (trim_left white_space (str_bytes s)))))"

record Invite =
  Inv_ID :: string
  Inv_Code :: string
  Inv_DisplayName :: string
  Inv_ExpiresAt :: int

definition CreateInvite :: "(bytes \<Rightarrow> bytes) \<Rightarrow> string \<Rightarrow> int \<Rightarrow> int \<Rightarrow> string \<Rightarrow> string \<Rightarrow> Invite tx" where
  "CreateInvite sha256 displayName ttl now newid code db =
     (let displayName = TrimSpace displayName; digest = sha256 (str_bytes code); expires = now + ttl in
      if displayName = [] \<or> 200 < length displayName \<or> ttl \<le> 0 \<or> days30 < ttl then Inl ErrInvalid
      else if list_ex (\<lambda>i. i_id i = newid \<or> i_code_hash i = digest) (invites db) \<or> length digest \<noteq> 32 then Inl ErrSql
      else Inr (\<lparr>Inv_ID = newid, Inv_Code = code, Inv_DisplayName = displayName, Inv_ExpiresAt = expires\<rparr>,
                db\<lparr>invites := invites db @
                  [\<lparr>i_id = newid, i_code_hash = digest, i_display = displayName, i_expires = unixNow expires, i_consumed = None,
                    i_created = unixNow now\<rparr>]\<rparr>))"

section \<open>Registration\<close>

record Registration =
  Reg_InviteCode :: string
  Reg_UserID :: string
  Reg_IdentityPublic :: bytes
  Reg_AuthorityPublic :: bytes
  Reg_DeviceID :: string
  Reg_DeviceName :: string
  Reg_Platform :: string
  Reg_SigningPublic :: bytes
  Reg_WorkspaceID :: string
  Reg_WorkspaceKeyID :: string
  Reg_WorkspaceEnvelope :: bytes
  Reg_KeybagCiphertext :: bytes

definition validateRegistration :: "Registration \<Rightarrow> server_error + unit" where
  "validateRegistration r =
     bind_res (validateID (Reg_UserID r)) (\<lambda>_.
     bind_res (validateID (Reg_DeviceID r)) (\<lambda>_.
     bind_res (validateID (Reg_WorkspaceID r)) (\<lambda>_.
     bind_res (validateOpaqueID (Reg_WorkspaceKeyID r)) (\<lambda>_.
       if length (Reg_InviteCode r) < 40 \<or> 128 < length (Reg_InviteCode r) \<or> length (Reg_DeviceName r) = 0 \<or>
          200 < length (Reg_DeviceName r) \<or> 32 < length (Reg_Platform r) \<or>
          length (Reg_IdentityPublic r) \<noteq> 32 \<or> length (Reg_AuthorityPublic r) \<noteq> 32 \<or> length (Reg_SigningPublic r) \<noteq> 32 \<or>
          allZero (Reg_IdentityPublic r) \<or> allZero (Reg_AuthorityPublic r) \<or> allZero (Reg_SigningPublic r) \<or>
          length (Reg_WorkspaceEnvelope r) = 0 \<or> length (Reg_KeybagCiphertext r) = 0
       then Inl ErrInvalid
       else Inr ()))))"

text \<open>The rows a registration inserts, each with its key check.\<close>

definition insert_user :: "user_row \<Rightarrow> server_db \<Rightarrow> server_error + server_db" where
  "insert_user u db =
     (if list_ex (\<lambda>x. u_id x = u_id u) (users db) \<or> u_quota u \<le> 0 then Inl ErrConflict
      else Inr (db\<lparr>users := users db @ [u]\<rparr>))"

definition insert_device :: "device_row \<Rightarrow> server_db \<Rightarrow> server_error + server_db" where
  "insert_device d db =
     (if list_ex (\<lambda>x. d_id x = d_id d) (devices db) \<or> \<not> list_ex (\<lambda>u. u_id u = d_user d) (users db) then Inl ErrConflict
      else Inr (db\<lparr>devices := devices db @ [d]\<rparr>))"

definition insert_keybag :: "keybag_row \<Rightarrow> server_db \<Rightarrow> server_error + server_db" where
  "insert_keybag k db =
     (if list_ex (\<lambda>x. k_user x = k_user k) (keybags db) then Inl ErrSql else Inr (db\<lparr>keybags := keybags db @ [k]\<rparr>))"

definition insert_workspace :: "workspace_row \<Rightarrow> server_db \<Rightarrow> server_error + server_db" where
  "insert_workspace w db =
     (if list_ex (\<lambda>x. w_id x = w_id w) (workspaces db) \<or> \<not> list_ex (\<lambda>u. u_id u = w_owner w) (users db) then Inl ErrConflict
      else Inr (db\<lparr>workspaces := workspaces db @ [w]\<rparr>))"

definition insert_member :: "member_row \<Rightarrow> server_db \<Rightarrow> server_error + server_db" where
  "insert_member m db =
     (if list_ex (\<lambda>x. m_ws x = m_ws m \<and> m_user x = m_user m) (memberships db) then Inl ErrSql
      else Inr (db\<lparr>memberships := memberships db @ [m]\<rparr>))"

definition insert_envelope :: "envelope_row \<Rightarrow> server_db \<Rightarrow> server_error + server_db" where
  "insert_envelope e db =
     (if list_ex (\<lambda>x. e_ws x = e_ws e \<and> e_user x = e_user e \<and> e_key x = e_key e) (key_envelopes db) then Inl ErrSql
      else Inr (db\<lparr>key_envelopes := key_envelopes db @ [e]\<rparr>))"

text \<open>A new workspace with its owner and the owner's key envelope.\<close>

definition insert_owned_workspace :: "string \<Rightarrow> string \<Rightarrow> string \<Rightarrow> bytes \<Rightarrow> int \<Rightarrow> server_db \<Rightarrow> server_error + server_db" where
  "insert_owned_workspace ws user key envelope now db =
     bind_res (insert_workspace \<lparr>w_id = ws, w_owner = user, w_key = key, w_latest = 0, w_epoch = 1, w_created = unixNow now,
                 w_compaction_snapshot = None, w_compacted = 0\<rparr> db) (\<lambda>db.
     bind_res (insert_member \<lparr>m_ws = ws, m_user = user, m_role = ''owner'', m_created = unixNow now, m_revoked = None\<rparr> db)
       (insert_envelope \<lparr>e_ws = ws, e_user = user, e_key = key, e_envelope = envelope, e_created = unixNow now\<rparr>))"

definition open_invite :: "bytes \<Rightarrow> int \<Rightarrow> invite_row \<Rightarrow> bool" where
  "open_invite digest now i \<longleftrightarrow> i_code_hash i = digest \<and> i_consumed i = None \<and> unixNow now < i_expires i"

definition Register :: "(bytes \<Rightarrow> bytes) \<Rightarrow> ServerConfig \<Rightarrow> Registration \<Rightarrow> int \<Rightarrow> (string \<times> string \<times> string) tx" where
  "Register sha256 cfg r now db =
     bind_res (validateRegistration r) (\<lambda>_.
     if MaxOperationBytes cfg < int (length (Reg_WorkspaceEnvelope r)) \<or>
        MaxOperationBytes cfg * 4 < int (length (Reg_KeybagCiphertext r)) then Inl ErrInvalid
     else if 5 \<le> length (users db) then Inl ErrConflict
     else
       (case find (open_invite (sha256 (str_bytes (Reg_InviteCode r))) now) (invites db) of
          None \<Rightarrow> Inl ErrUnauthorized
        | Some i \<Rightarrow>
            let hit = (\<lambda>x. i_id x = i_id i \<and> i_consumed x = None) in
            if length (filter hit (invites db)) \<noteq> 1 then Inl ErrUnauthorized
            else
              bind_res (insert_user \<lparr>u_id = Reg_UserID r, u_display = i_display i, u_identity = Reg_IdentityPublic r,
                  u_authority = Reg_AuthorityPublic r, u_quota = UserQuotaBytes cfg, u_created = unixNow now\<rparr>
                (db\<lparr>invites := update_rows hit (\<lambda>x. x\<lparr>i_consumed := Some (unixNow now)\<rparr>) (invites db)\<rparr>)) (\<lambda>db.
              bind_res (insert_device \<lparr>d_id = Reg_DeviceID r, d_user = Reg_UserID r, d_display = Reg_DeviceName r,
                  d_signing = Reg_SigningPublic r, d_platform = (if Reg_Platform r \<noteq> [] then Some (Reg_Platform r) else None),
                  d_created = unixNow now, d_last_seen = None, d_revoked = None\<rparr> db) (\<lambda>db.
              bind_res (insert_keybag \<lparr>k_user = Reg_UserID r, k_version = 1, k_ciphertext = Reg_KeybagCiphertext r,
                  k_updated = unixNow now\<rparr> db) (\<lambda>db.
              bind_res (insert_owned_workspace (Reg_WorkspaceID r) (Reg_UserID r) (Reg_WorkspaceKeyID r)
                  (Reg_WorkspaceEnvelope r) now db) (\<lambda>db.
                Inr ((Reg_UserID r, Reg_DeviceID r, Reg_WorkspaceID r), db)))))))"

section \<open>Challenges and sessions\<close>

definition validScope :: "string \<Rightarrow> bool" where
  "validScope scope \<longleftrightarrow> scope = ''sync''"

definition scopeAllows :: "string \<Rightarrow> string \<Rightarrow> bool" where
  "scopeAllows actual required \<longleftrightarrow> actual = required"

record Challenge =
  Ch_ID :: string
  Ch_DeviceID :: string
  Ch_ServerFingerprint :: string
  Ch_Nonce :: bytes
  Ch_Scope :: string
  Ch_ExpiresAt :: int

record ChallengeProof =
  CP_ChallengeID :: string
  CP_DeviceID :: string
  CP_ServerFingerprint :: string
  CP_Nonce :: bytes
  CP_Scope :: string
  CP_Signature :: bytes
  CP_Platform :: string

record Session =
  Ses_Token :: string
  Ses_UserID :: string
  Ses_DeviceID :: string
  Ses_Scope :: string
  Ses_ExpiresAt :: int

definition IssueChallenge ::
  "(bytes \<Rightarrow> bytes) \<Rightarrow> ServerConfig \<Rightarrow> string \<Rightarrow> string \<Rightarrow> int \<Rightarrow> string \<Rightarrow> string \<Rightarrow> Challenge tx" where
  "IssueChallenge sha256 cfg device scope now newid nonceToken db =
     bind_res (validateID device) (\<lambda>_.
     if \<not> validScope scope then Inl ErrInvalid
     else
       let digest = sha256 (str_bytes nonceToken); expires = now + ChallengeTTL cfg in
       if \<not> list_ex (\<lambda>d. d_id d = device \<and> d_revoked d = None) (devices db) then Inl ErrUnauthorized
       else if list_ex (\<lambda>c. c_id c = newid \<or> c_nonce_hash c = digest) (challenges db) \<or> length digest \<noteq> 32 then Inl ErrSql
       else Inr (\<lparr>Ch_ID = newid, Ch_DeviceID = device, Ch_ServerFingerprint = serverFingerprint cfg, Ch_Nonce = str_bytes nonceToken,
                  Ch_Scope = scope, Ch_ExpiresAt = expires\<rparr>,
                 db\<lparr>challenges := challenges db @
                   [\<lparr>c_id = newid, c_device = device, c_nonce_hash = digest, c_scope = scope, c_expires = unixNow expires,
                     c_consumed = None, c_created = unixNow now\<rparr>]\<rparr>))"

definition authSignatureDomain :: string where
  "authSignatureDomain = ''beresta.auth.v1''"

definition authSignatureInput :: "ChallengeProof \<Rightarrow> bytes" where
  "authSignatureInput proof =
     foldl (\<lambda>result field. (result @ be_bytes 4 (word_of_nat (length field) :: u32)) @ field) []
       [str_bytes authSignatureDomain, str_bytes (CP_ChallengeID proof), str_bytes (CP_DeviceID proof),
        str_bytes (CP_ServerFingerprint proof), str_bytes (CP_Scope proof), CP_Nonce proof]"

text \<open>The join of \<^verbatim>\<open>challenges\<close> and \<^verbatim>\<open>devices\<close> in \<open>verifyChallenge\<close>.\<close>

definition open_challenge :: "ChallengeProof \<Rightarrow> bytes \<Rightarrow> int \<Rightarrow> challenge_row \<Rightarrow> bool" where
  "open_challenge proof digest now c \<longleftrightarrow>
     c_id c = CP_ChallengeID proof \<and> c_device c = CP_DeviceID proof \<and> c_nonce_hash c = digest \<and> c_scope c = CP_Scope proof \<and>
     c_consumed c = None \<and> unixNow now < c_expires c"

definition challenged_device :: "ChallengeProof \<Rightarrow> bytes \<Rightarrow> int \<Rightarrow> server_db \<Rightarrow> device_row option" where
  "challenged_device proof digest now db =
     (if list_ex (open_challenge proof digest now) (challenges db)
      then find (\<lambda>d. d_id d = CP_DeviceID proof \<and> d_revoked d = None) (devices db) else None)"

text \<open>The two updates of the device row: the last login, and the platform if none is stored.\<close>

definition touch_device :: "string \<Rightarrow> string \<Rightarrow> int \<Rightarrow> device_row list \<Rightarrow> device_row list" where
  "touch_device device platform now rows =
     (let rows = update_rows (\<lambda>d. d_id d = device) (\<lambda>d. d\<lparr>d_last_seen := Some (unixNow now)\<rparr>) rows in
      if platform \<noteq> []
      then update_rows (\<lambda>d. d_id d = device \<and> d_platform d = None) (\<lambda>d. d\<lparr>d_platform := Some platform\<rparr>) rows
      else rows)"

text \<open>The session that a refresh replaces is deleted; it must be there.\<close>

definition drop_session :: "bytes \<Rightarrow> string \<Rightarrow> string \<Rightarrow> session_row list \<Rightarrow> server_error + session_row list" where
  "drop_session replaced user device rows =
     (let old = (\<lambda>s. s_token_hash s = replaced \<and> s_user s = user \<and> s_device s = device) in
      if replaced = [] then Inr rows
      else if length (filter old rows) \<noteq> 1 then Inl ErrUnauthorized
      else Inr (filter (\<lambda>s. \<not> old s) rows))"

definition verifyChallenge ::
  "(bytes \<Rightarrow> bytes) \<Rightarrow> (bytes \<Rightarrow> bytes \<Rightarrow> bytes \<Rightarrow> bool) \<Rightarrow> ServerConfig \<Rightarrow> ChallengeProof \<Rightarrow> bytes \<Rightarrow> int \<Rightarrow> string \<Rightarrow> Session tx" where
  "verifyChallenge sha256 ed25519Verify cfg proof replaced now token db =
     bind_res (validateID (CP_ChallengeID proof)) (\<lambda>_.
     bind_res (validateID (CP_DeviceID proof)) (\<lambda>_.
     if CP_ServerFingerprint proof \<noteq> serverFingerprint cfg \<or> length (CP_Nonce proof) = 0 \<or>
        length (CP_Signature proof) \<noteq> SignatureSize \<or> \<not> validScope (CP_Scope proof) then Inl ErrUnauthorized
     else
       let platform = (if 32 < length (CP_Platform proof) then [] else CP_Platform proof);
           tokenHash = sha256 (str_bytes token);
           expires = now + SessionTTL cfg;
           hit = (\<lambda>c. c_id c = CP_ChallengeID proof \<and> c_consumed c = None) in
       case challenged_device proof (sha256 (CP_Nonce proof)) now db of
         None \<Rightarrow> Inl ErrUnauthorized
       | Some d \<Rightarrow>
           if \<not> ed25519Verify (d_signing d) (authSignatureInput proof) (CP_Signature proof) then Inl ErrUnauthorized
           else if length (filter hit (challenges db)) \<noteq> 1 then Inl ErrUnauthorized
           else
             bind_res (drop_session replaced (d_user d) (CP_DeviceID proof) (sessions db)) (\<lambda>kept.
             if list_ex (\<lambda>s. s_token_hash s = tokenHash) kept \<or> length tokenHash \<noteq> 32 then Inl ErrSql
             else Inr (\<lparr>Ses_Token = token, Ses_UserID = d_user d, Ses_DeviceID = CP_DeviceID proof, Ses_Scope = CP_Scope proof,
                        Ses_ExpiresAt = expires\<rparr>,
                       db\<lparr>devices := touch_device (CP_DeviceID proof) platform now (devices db),
                          challenges := update_rows hit (\<lambda>c. c\<lparr>c_consumed := Some (unixNow now)\<rparr>) (challenges db),
                          sessions := kept @ [\<lparr>s_token_hash = tokenHash, s_user = d_user d, s_device = CP_DeviceID proof,
                            s_scope = CP_Scope proof, s_expires = unixNow expires, s_created = unixNow now\<rparr>]\<rparr>))))"

definition VerifyChallenge where
  "VerifyChallenge sha256 ed25519Verify cfg proof now token db =
     verifyChallenge sha256 ed25519Verify cfg proof [] now token db"

definition RefreshSession ::
  "(bytes \<Rightarrow> bytes) \<Rightarrow> (bytes \<Rightarrow> bytes \<Rightarrow> bytes \<Rightarrow> bool) \<Rightarrow> ServerConfig \<Rightarrow> Principal \<Rightarrow> ChallengeProof \<Rightarrow> int \<Rightarrow> string \<Rightarrow> Session tx" where
  "RefreshSession sha256 ed25519Verify cfg pr proof now token db =
     (if CP_DeviceID proof \<noteq> DeviceID pr \<or> \<not> scopeAllows (Scope pr) (CP_Scope proof) then Inl ErrForbidden
      else verifyChallenge sha256 ed25519Verify cfg proof (TokenHash pr) now token db)"

definition live_session :: "bytes \<Rightarrow> int \<Rightarrow> server_db \<Rightarrow> session_row \<Rightarrow> bool" where
  "live_session digest now db s \<longleftrightarrow>
     s_token_hash s = digest \<and> unixNow now < s_expires s \<and> list_ex (\<lambda>d. d_id d = s_device s \<and> d_revoked d = None) (devices db)"

definition Authenticate :: "(bytes \<Rightarrow> bytes) \<Rightarrow> string \<Rightarrow> int \<Rightarrow> server_db \<Rightarrow> server_error + Principal" where
  "Authenticate sha256 token now db =
     (if length token < 40 then Inl ErrUnauthorized
      else
        let digest = sha256 (str_bytes token) in
        case find (live_session digest now db) (sessions db) of
          None \<Rightarrow> Inl ErrUnauthorized
        | Some s \<Rightarrow> Inr \<lparr>UserID = s_user s, DeviceID = s_device s, Scope = s_scope s, TokenHash = digest\<rparr>)"

definition PurgeExpiredAuthRecords :: "int \<Rightarrow> unit tx" where
  "PurgeExpiredAuthRecords now db =
     Inr ((), db\<lparr>challenges := filter (\<lambda>c. \<not> (c_expires c \<le> unixNow now \<or> c_consumed c \<noteq> None)) (challenges db),
                 sessions := filter (\<lambda>s. \<not> s_expires s \<le> unixNow now) (sessions db)\<rparr>)"

definition DeleteSession :: "bytes \<Rightarrow> unit tx" where
  "DeleteSession tokenHash db = Inr ((), db\<lparr>sessions := filter (\<lambda>s. s_token_hash s \<noteq> tokenHash) (sessions db)\<rparr>)"

section \<open>Devices\<close>

text \<open>Revocation: mark the row, drop the sessions and challenges of the device.\<close>

definition revoke_rows :: "(device_row \<Rightarrow> bool) \<Rightarrow> string \<Rightarrow> int \<Rightarrow> unit tx" where
  "revoke_rows P device now db =
     (if length (filter P (devices db)) \<noteq> 1 then Inl ErrNotFound
      else Inr ((), db\<lparr>devices := update_rows P (\<lambda>d. d\<lparr>d_revoked := Some (unixNow now)\<rparr>) (devices db),
                       sessions := filter (\<lambda>s. s_device s \<noteq> device) (sessions db),
                       challenges := filter (\<lambda>c. c_device c \<noteq> device) (challenges db)\<rparr>))"

definition RevokeDevice :: "Principal \<Rightarrow> string \<Rightarrow> int \<Rightarrow> unit tx" where
  "RevokeDevice pr device now db =
     bind_res (validateID device) (\<lambda>_.
       revoke_rows (\<lambda>d. d_id d = device \<and> d_user d = UserID pr \<and> d_revoked d = None) device now db)"

definition AdminRevokeDevice :: "string \<Rightarrow> int \<Rightarrow> unit tx" where
  "AdminRevokeDevice device now db =
     bind_res (validateID device) (\<lambda>_. revoke_rows (\<lambda>d. d_id d = device \<and> d_revoked d = None) device now db)"

definition AddDevice :: "Principal \<Rightarrow> string \<Rightarrow> string \<Rightarrow> bytes \<Rightarrow> int \<Rightarrow> unit tx" where
  "AddDevice pr device displayName publicKey now db =
     bind_res (validateID device) (\<lambda>_.
     if displayName = [] \<or> 200 < length displayName \<or> length publicKey \<noteq> 32 \<or> allZero publicKey then Inl ErrInvalid
     else if 3 \<le> length (filter (\<lambda>d. d_user d = UserID pr \<and> d_revoked d = None) (devices db)) then Inl ErrConflict
     else bind_res (insert_device \<lparr>d_id = device, d_user = UserID pr, d_display = displayName, d_signing = publicKey,
              d_platform = None, d_created = unixNow now, d_last_seen = None, d_revoked = None\<rparr> db) (\<lambda>db. Inr ((), db)))"

definition ListDevices :: "Principal \<Rightarrow> server_db \<Rightarrow> device_row list" where
  "ListDevices pr db = sort_key (\<lambda>d. (d_created d, d_id d)) (filter (\<lambda>d. d_user d = UserID pr) (devices db))"

end
