(* ===== verification/Server_Resources.thy ===== *)
theory Server_Resources
  imports Server_Identity
begin

text \<open>
  Keybags, workspaces, memberships and workspace keys: \<^verbatim>\<open>server/resources_store.go\<close>. The
  device handlers of that file are in \<open>Server_Identity\<close>.
\<close>

section \<open>Keybags\<close>

record Keybag =
  KB_Version :: int
  KB_Ciphertext :: bytes

definition GetKeybag :: "Principal \<Rightarrow> server_db \<Rightarrow> server_error + Keybag" where
  "GetKeybag pr db =
     (case find (\<lambda>k. k_user k = UserID pr) (keybags db) of
        None \<Rightarrow> Inl ErrNotFound
      | Some k \<Rightarrow> Inr \<lparr>KB_Version = k_version k, KB_Ciphertext = k_ciphertext k\<rparr>)"

text \<open>A conflict is reported together with the keybag that is stored.\<close>

definition PutKeybag ::
  "ServerConfig \<Rightarrow> Principal \<Rightarrow> int \<Rightarrow> bytes \<Rightarrow> int \<Rightarrow> server_db \<Rightarrow> (server_error \<times> Keybag option) + Keybag \<times> server_db" where
  "PutKeybag cfg pr expected ciphertext now db =
     (if expected \<le> 0 \<or> length ciphertext = 0 \<or> MaxOperationBytes cfg * 4 < int (length ciphertext) then Inl (ErrInvalid, None)
      else
        let hit = (\<lambda>k. k_user k = UserID pr \<and> k_version k = expected) in
        if length (filter hit (keybags db)) \<noteq> 1 then
          (case GetKeybag pr db of Inl _ \<Rightarrow> Inl (ErrSql, None) | Inr current \<Rightarrow> Inl (ErrConflict, Some current))
        else Inr (\<lparr>KB_Version = expected + 1, KB_Ciphertext = ciphertext\<rparr>,
                  db\<lparr>keybags := update_rows hit
                       (\<lambda>k. k\<lparr>k_version := k_version k + 1, k_ciphertext := ciphertext, k_updated := unixNow now\<rparr>) (keybags db)\<rparr>))"

section \<open>Workspaces and members\<close>

definition ListWorkspaces :: "Principal \<Rightarrow> server_db \<Rightarrow> workspace_row list" where
  "ListWorkspaces pr db = sort_key w_id (filter (\<lambda>w. isActiveMember (UserID pr) (w_id w) db) (workspaces db))"

definition CreateWorkspace :: "ServerConfig \<Rightarrow> Principal \<Rightarrow> string \<Rightarrow> string \<Rightarrow> bytes \<Rightarrow> int \<Rightarrow> unit tx" where
  "CreateWorkspace cfg pr ws key envelope now db =
     bind_res (validateID ws) (\<lambda>_.
     bind_res (validateOpaqueID key) (\<lambda>_.
     if length envelope = 0 \<or> MaxOperationBytes cfg < int (length envelope) then Inl ErrInvalid
     else bind_res (insert_owned_workspace ws (UserID pr) key envelope now db) (\<lambda>db. Inr ((), db))))"

record Member =
  Mem_UserID :: string
  Mem_DisplayName :: string
  Mem_Role :: string
  Mem_IdentityPublic :: bytes
  Mem_AuthorityPublic :: bytes
  Mem_RevokedAt :: "int option"

definition ListMembers :: "Principal \<Rightarrow> string \<Rightarrow> server_db \<Rightarrow> server_error + Member list" where
  "ListMembers pr ws db =
     bind_res (validateID ws) (\<lambda>_.
     if \<not> isActiveMember (UserID pr) ws db then Inl ErrForbidden
     else Inr (concat (map (\<lambda>m. map (\<lambda>u. \<lparr>Mem_UserID = m_user m, Mem_DisplayName = u_display u, Mem_Role = m_role m,
                  Mem_IdentityPublic = u_identity u, Mem_AuthorityPublic = u_authority u, Mem_RevokedAt = m_revoked m\<rparr>)
                (filter (\<lambda>u. u_id u = m_user m) (users db)))
              (sort_key m_user (filter (\<lambda>m. m_ws m = ws) (memberships db))))))"

text \<open>\<^verbatim>\<open>INSERT ... ON CONFLICT DO UPDATE\<close> on \<^verbatim>\<open>memberships\<close> and \<^verbatim>\<open>key_envelopes\<close>.\<close>

definition upsert_member :: "string \<Rightarrow> string \<Rightarrow> int \<Rightarrow> server_db \<Rightarrow> server_error + server_db" where
  "upsert_member ws user now db =
     (let same = (\<lambda>m. m_ws m = ws \<and> m_user m = user) in
      if list_ex same (memberships db)
      then Inr (db\<lparr>memberships := update_rows same (\<lambda>m. m\<lparr>m_revoked := None\<rparr>) (memberships db)\<rparr>)
      else if \<not> list_ex (\<lambda>u. u_id u = user) (users db) then Inl ErrConflict
      else Inr (db\<lparr>memberships := memberships db @
             [\<lparr>m_ws = ws, m_user = user, m_role = ''member'', m_created = unixNow now, m_revoked = None\<rparr>]\<rparr>))"

definition upsert_envelope :: "string \<Rightarrow> string \<Rightarrow> string \<Rightarrow> bytes \<Rightarrow> int \<Rightarrow> server_db \<Rightarrow> server_error + server_db" where
  "upsert_envelope ws user key envelope now db =
     (let same = (\<lambda>e. e_ws e = ws \<and> e_user e = user \<and> e_key e = key) in
      if list_ex same (key_envelopes db)
      then Inr (db\<lparr>key_envelopes := update_rows same (\<lambda>e. e\<lparr>e_envelope := envelope, e_created := unixNow now\<rparr>) (key_envelopes db)\<rparr>)
      else if \<not> list_ex (\<lambda>m. m_ws m = ws \<and> m_user m = user) (memberships db) then Inl ErrSql
      else Inr (db\<lparr>key_envelopes := key_envelopes db @
             [\<lparr>e_ws = ws, e_user = user, e_key = key, e_envelope = envelope, e_created = unixNow now\<rparr>]\<rparr>))"

definition AddMember :: "ServerConfig \<Rightarrow> Principal \<Rightarrow> string \<Rightarrow> string \<Rightarrow> string \<Rightarrow> bytes \<Rightarrow> int \<Rightarrow> unit tx" where
  "AddMember cfg pr ws user key envelope now db =
     bind_res (validateID ws) (\<lambda>_.
     bind_res (validateID user) (\<lambda>_.
     bind_res (validateOpaqueID key) (\<lambda>_.
     if length envelope = 0 \<or> MaxOperationBytes cfg < int (length envelope) then Inl ErrInvalid
     else
       bind_res (requireWorkspaceOwner (UserID pr) ws db) (\<lambda>_.
       case find_ws ws db of
         None \<Rightarrow> Inl ErrSql
       | Some w \<Rightarrow>
           if w_key w \<noteq> key then Inl ErrConflict
           else bind_res (upsert_member ws user now db) (\<lambda>db.
                bind_res (upsert_envelope ws user key envelope now db) (\<lambda>db. Inr ((), db)))))))"

definition RevokeMember :: "Principal \<Rightarrow> string \<Rightarrow> string \<Rightarrow> int \<Rightarrow> unit tx" where
  "RevokeMember pr ws user now db =
     bind_res (validateID ws) (\<lambda>_.
     bind_res (validateID user) (\<lambda>_.
     bind_res (requireWorkspaceOwner (UserID pr) ws db) (\<lambda>_.
       let hit = (\<lambda>m. m_ws m = ws \<and> m_user m = user \<and> m_role m \<noteq> ''owner'' \<and> m_revoked m = None) in
       if length (filter hit (memberships db)) \<noteq> 1 then Inl ErrNotFound
       else Inr ((), db\<lparr>memberships := update_rows hit (\<lambda>m. m\<lparr>m_revoked := Some (unixNow now)\<rparr>) (memberships db)\<rparr>))))"

definition ListWorkspaceMemberDevices :: "Principal \<Rightarrow> string \<Rightarrow> server_db \<Rightarrow> server_error + device_row list" where
  "ListWorkspaceMemberDevices pr ws db =
     bind_res (validateID ws) (\<lambda>_.
     if \<not> isActiveMember (UserID pr) ws db then Inl ErrForbidden
     else Inr (sort_key (\<lambda>d. (d_user d, d_id d))
            (concat (map (\<lambda>d. map (\<lambda>_. d) (filter (\<lambda>m. m_ws m = ws \<and> m_user m = d_user d) (memberships db))) (devices db)))))"

section \<open>Workspace keys\<close>

definition GetKeyEnvelopes :: "Principal \<Rightarrow> string \<Rightarrow> server_db \<Rightarrow> server_error + envelope_row list" where
  "GetKeyEnvelopes pr ws db =
     bind_res (validateID ws) (\<lambda>_.
     if \<not> isActiveMember (UserID pr) ws db then Inl ErrForbidden
     else Inr (sort_key (\<lambda>e. (e_created e, e_key e)) (filter (\<lambda>e. e_ws e = ws \<and> e_user e = UserID pr) (key_envelopes db))))"

text \<open>\<^verbatim>\<open>strings.Join\<close> and \<^verbatim>\<open>strings.Split\<close> with a comma.\<close>

fun join_comma :: "string list \<Rightarrow> string" where
  "join_comma [] = []"
| "join_comma [s] = s"
| "join_comma (s # t # ss) = s @ '','' @ join_comma (t # ss)"

fun split_comma :: "string \<Rightarrow> string list" where
  "split_comma [] = [[]]"
| "split_comma (c # s) =
     (if c = CHR '','' then [] # split_comma s
      else case split_comma s of [] \<Rightarrow> [[c]] | t # ts \<Rightarrow> (c # t) # ts)"

record KeyTransition =
  KT_KeyID :: string
  KT_Signature :: bytes
  KT_RecipientUserIDs :: "string list"
  KT_CreatedAt :: int

definition GetKeyTransitions :: "Principal \<Rightarrow> string \<Rightarrow> server_db \<Rightarrow> server_error + KeyTransition list" where
  "GetKeyTransitions pr ws db =
     bind_res (validateID ws) (\<lambda>_.
     if \<not> isActiveMember (UserID pr) ws db then Inl ErrForbidden
     else Inr (map (\<lambda>t. \<lparr>KT_KeyID = t_key t, KT_Signature = t_signature t,
                  KT_RecipientUserIDs = (if t_recipients t \<noteq> [] then split_comma (t_recipients t) else []),
                  KT_CreatedAt = t_created t\<rparr>)
            (sort_key (\<lambda>t. (t_created t, t_key t)) (filter (\<lambda>t. t_ws t = ws) (key_transitions db)))))"

record KeyEnvelopeInput =
  KE_UserID :: string
  KE_Envelope :: bytes

text \<open>The loop over the envelopes before the transaction; its result is the set \<open>seen\<close>.\<close>

fun check_envelopes :: "ServerConfig \<Rightarrow> KeyEnvelopeInput list \<Rightarrow> string set \<Rightarrow> server_error + string set" where
  "check_envelopes cfg [] seen = Inr seen"
| "check_envelopes cfg (e # es) seen =
     bind_res (validateID (KE_UserID e)) (\<lambda>_.
       if KE_UserID e \<in> seen \<or> length (KE_Envelope e) = 0 \<or> MaxOperationBytes cfg < int (length (KE_Envelope e)) then Inl ErrInvalid
       else check_envelopes cfg es (insert (KE_UserID e) seen))"

fun upsert_envelopes :: "string \<Rightarrow> string \<Rightarrow> KeyEnvelopeInput list \<Rightarrow> int \<Rightarrow> server_db \<Rightarrow> server_error + server_db" where
  "upsert_envelopes ws key [] now db = Inr db"
| "upsert_envelopes ws key (e # es) now db =
     bind_res (upsert_envelope ws (KE_UserID e) key (KE_Envelope e) now db) (upsert_envelopes ws key es now)"

definition upsert_transition :: "string \<Rightarrow> string \<Rightarrow> bytes \<Rightarrow> string \<Rightarrow> int \<Rightarrow> server_db \<Rightarrow> server_db" where
  "upsert_transition ws key signature recipients now db =
     (let same = (\<lambda>t. t_ws t = ws \<and> t_key t = key) in
      if list_ex same (key_transitions db)
      then db\<lparr>key_transitions := update_rows same
             (\<lambda>t. t\<lparr>t_signature := signature, t_recipients := recipients, t_created := unixNow now\<rparr>) (key_transitions db)\<rparr>
      else db\<lparr>key_transitions := key_transitions db @
             [\<lparr>t_ws = ws, t_key = key, t_signature = signature, t_recipients = recipients, t_created = unixNow now\<rparr>]\<rparr>)"

definition active_members :: "string \<Rightarrow> server_db \<Rightarrow> string list" where
  "active_members ws db = map m_user (filter (\<lambda>m. m_ws m = ws \<and> m_revoked m = None) (memberships db))"

definition RotateWorkspaceKey ::
  "ServerConfig \<Rightarrow> Principal \<Rightarrow> string \<Rightarrow> string \<Rightarrow> KeyEnvelopeInput list \<Rightarrow> bytes \<Rightarrow> int \<Rightarrow> unit tx" where
  "RotateWorkspaceKey cfg pr ws key envelopes signature now db =
     bind_res (validateID ws) (\<lambda>_.
     bind_res (validateOpaqueID key) (\<lambda>_.
     if length envelopes = 0 \<or> 5 < length envelopes then Inl ErrInvalid
     else if length signature \<noteq> SignatureSize then Inl ErrInvalid
     else
       bind_res (check_envelopes cfg envelopes {}) (\<lambda>seen.
       bind_res (requireWorkspaceOwner (UserID pr) ws db) (\<lambda>_.
       let active = active_members ws db in
       if length active \<noteq> length envelopes then Inl ErrConflict
       else if list_ex (\<lambda>u. u \<notin> seen) active then Inl ErrConflict
       else
         bind_res (upsert_envelopes ws key envelopes now
           (db\<lparr>workspaces := update_rows (\<lambda>w. w_id w = ws) (\<lambda>w. w\<lparr>w_key := key\<rparr>) (workspaces db)\<rparr>)) (\<lambda>db.
           Inr ((), upsert_transition ws key signature (join_comma (sort active)) now db))))))"

end
