(* ===== verification/Server_Operations.thy ===== *)
theory Server_Operations
  imports Server_Resources
begin

text \<open>
  The operation log of the server: \<^verbatim>\<open>server/operation_store.go\<close>, \<^verbatim>\<open>server/snapshot_store.go\<close>
  and \<^verbatim>\<open>server/compaction.go\<close>. Pushing appends to a per-workspace sequence, pulling pages
  through it, a snapshot that every active device acknowledged makes the history below it
  removable. The reads of \<open>PullChanges\<close> are separate statements, so it takes the database
  of each; the other reads take one database.
\<close>

section \<open>Pushing operations\<close>

record ServerOperation =
  SO_Protocol :: string
  SO_SchemaVersion :: int
  SO_OpID :: string
  SO_WorkspaceID :: string
  SO_DeviceID :: string
  SO_Sequence :: int
  SO_HLCPhysicalMS :: int
  SO_HLCLogical :: u32
  SO_KeyID :: string
  SO_Nonce :: bytes
  SO_Ciphertext :: bytes
  SO_Signature :: bytes

record ServerPushResult =
  SP_OpID :: string
  SP_Sequence :: int
  SP_Duplicate :: bool

abbreviation maxOperationBatchCiphertextBytes :: int where
  "maxOperationBatchCiphertextBytes \<equiv> 50331648"

definition validateOperation :: "ServerConfig \<Rightarrow> ServerOperation \<Rightarrow> int \<Rightarrow> server_error + unit" where
  "validateOperation cfg op now =
     (if SO_Protocol op \<noteq> ''beresta.sync.v1'' \<or> SO_SchemaVersion op \<noteq> 1 then Inl ErrInvalid
      else
        bind_res (validateID (SO_OpID op)) (\<lambda>_.
        bind_res (validateID (SO_WorkspaceID op)) (\<lambda>_.
        bind_res (validateID (SO_DeviceID op)) (\<lambda>_.
        bind_res (validateOpaqueID (SO_KeyID op)) (\<lambda>_.
          if SO_Sequence op \<noteq> 0 \<or> SO_HLCPhysicalMS op < UnixMilli (now - MaxHLCPastAge cfg) \<or>
             UnixMilli (now + MaxHLCFutureSkew cfg) < SO_HLCPhysicalMS op \<or>
             length (SO_Nonce op) \<noteq> 24 \<or> length (SO_Signature op) \<noteq> SignatureSize \<or> length (SO_Ciphertext op) < AEADTagBytes \<or>
             MaxOperationBytes cfg < int (length (SO_Ciphertext op))
          then Inl ErrInvalid
          else Inr ())))))"

definition operationSignaturePayload :: "ServerOperation \<Rightarrow> server_error + bytes" where
  "operationSignaturePayload op =
     bind_res (decodeCanonicalID (SO_OpID op)) (\<lambda>opID.
     bind_res (decodeCanonicalID (SO_WorkspaceID op)) (\<lambda>workspaceID.
     bind_res (decodeCanonicalID (SO_DeviceID op)) (\<lambda>deviceID.
     bind_res (decodeOpaqueID (SO_KeyID op)) (\<lambda>keyID.
       case CanonicalOperationSignatureInput
           \<lparr>OS_OpID = opID, OS_WorkspaceID = workspaceID, OS_DeviceID = deviceID,
            OS_HLCPhysicalMS = word_of_int (SO_HLCPhysicalMS op), OS_HLCLogical = SO_HLCLogical op, OS_HLCDeviceID = deviceID,
            OS_KeyID = keyID, OS_Nonce = SO_Nonce op, OS_Ciphertext = SO_Ciphertext op\<rparr> of
         Inl _ \<Rightarrow> Inl ErrInvalid
       | Inr payload \<Rightarrow> Inr payload))))"

definition insert_operation :: "operation_row \<Rightarrow> server_db \<Rightarrow> server_error + server_db" where
  "insert_operation r db =
     (if list_ex (\<lambda>x. o_id x = o_id r \<or> (o_ws x = o_ws r \<and> o_seq x = o_seq r)) (operations db) \<or>
         o_seq r \<le> 0 \<or> o_physical r < 0 \<or> length (o_nonce r) \<noteq> 24 \<or> length (o_signature r) \<noteq> 64 \<or> length (o_hash r) \<noteq> 32 \<or>
         \<not> list_ex (\<lambda>d. d_id d = o_device r) (devices db)
      then Inl ErrConflict
      else Inr (db\<lparr>operations := operations db @ [r]\<rparr>))"

text \<open>The row that a new operation becomes.\<close>

definition stored_row :: "(bytes \<Rightarrow> bytes) \<Rightarrow> ServerOperation \<Rightarrow> bytes \<Rightarrow> int \<Rightarrow> int \<Rightarrow> operation_row" where
  "stored_row sha256 op payload sequence now =
     \<lparr>o_id = SO_OpID op, o_ws = SO_WorkspaceID op, o_device = SO_DeviceID op, o_seq = sequence, o_physical = SO_HLCPhysicalMS op,
      o_logical = SO_HLCLogical op, o_key = SO_KeyID op, o_nonce = SO_Nonce op, o_ciphertext = SO_Ciphertext op,
      o_signature = SO_Signature op, o_hash = sha256 (payload @ SO_Signature op), o_created = unixNow now\<rparr>"

definition set_latest :: "string \<Rightarrow> int \<Rightarrow> server_db \<Rightarrow> server_db" where
  "set_latest ws sequence db =
     db\<lparr>workspaces := update_rows (\<lambda>w. w_id w = ws) (\<lambda>w. w\<lparr>w_latest := sequence\<rparr>) (workspaces db)\<rparr>"

text \<open>\<^verbatim>\<open>WHERE op_id = ? AND workspace_id = ?\<close>.\<close>

definition is_row :: "ServerOperation \<Rightarrow> operation_row \<Rightarrow> bool" where
  "is_row op r \<longleftrightarrow> o_id r = SO_OpID op \<and> o_ws r = SO_WorkspaceID op"

text \<open>The part of \<open>pushOperation\<close> after the checks on the sender.\<close>

definition store_operation :: "(bytes \<Rightarrow> bytes) \<Rightarrow> ServerOperation \<Rightarrow> bytes \<Rightarrow> int \<Rightarrow> ServerPushResult tx" where
  "store_operation sha256 op payload now db =
     (case find (is_row op) (operations db) of
        Some r \<Rightarrow>
          if \<not> equalBytes (o_hash r) (sha256 (payload @ SO_Signature op)) then Inl ErrConflict
          else Inr (\<lparr>SP_OpID = SO_OpID op, SP_Sequence = o_seq r, SP_Duplicate = True\<rparr>, db)
      | None \<Rightarrow>
          (case find_ws (SO_WorkspaceID op) db of
             None \<Rightarrow> Inl ErrSql
           | Some w \<Rightarrow>
               if SO_KeyID op \<noteq> w_key w then Inl ErrConflict
               else
                 let sequence = w_latest w + 1 in
                 bind_res (insert_operation (stored_row sha256 op payload sequence now) (set_latest (SO_WorkspaceID op) sequence db))
                   (\<lambda>db. Inr (\<lparr>SP_OpID = SO_OpID op, SP_Sequence = sequence, SP_Duplicate = False\<rparr>, db))))"

type_synonym verifier = "bytes \<Rightarrow> bytes \<Rightarrow> bytes \<Rightarrow> bool"

definition SignatureDomainOperation :: string where
  "SignatureDomainOperation = ''beresta.operation.signature.v1''"

definition pushOperation ::
  "(bytes \<Rightarrow> bytes) \<Rightarrow> verifier \<Rightarrow> ServerConfig \<Rightarrow> Principal \<Rightarrow> int \<Rightarrow> ServerOperation \<Rightarrow> ServerPushResult tx" where
  "pushOperation sha256 ed25519Verify cfg pr now op db =
     bind_res (validateOperation cfg op now) (\<lambda>_.
     if SO_DeviceID op \<noteq> DeviceID pr then Inl ErrForbidden
     else if \<not> isActiveMember (UserID pr) (SO_WorkspaceID op) db then Inl ErrForbidden
     else
       (case device_key (SO_DeviceID op) (UserID pr) db of
          None \<Rightarrow> Inl ErrForbidden
        | Some publicKey \<Rightarrow>
            (case operationSignaturePayload op of
               Inl _ \<Rightarrow> Inl ErrInvalid
             | Inr payload \<Rightarrow>
                 (case VerifyCanonical ed25519Verify CryptoProfileV1 publicKey SignatureDomainOperation payload (SO_Signature op) of
                    Inl _ \<Rightarrow> Inl ErrUnauthorized
                  | Inr _ \<Rightarrow> store_operation sha256 op payload now db))))"

fun push_all ::
  "(bytes \<Rightarrow> bytes) \<Rightarrow> verifier \<Rightarrow> ServerConfig \<Rightarrow> Principal \<Rightarrow> int \<Rightarrow> ServerOperation list \<Rightarrow> ServerPushResult list tx" where
  "push_all sha256 vf cfg pr now [] db = Inr ([], db)"
| "push_all sha256 vf cfg pr now (op # ops) db =
     bind_res (pushOperation sha256 vf cfg pr now op db) (\<lambda>(result, db).
     bind_res (push_all sha256 vf cfg pr now ops db) (\<lambda>(results, db). Inr (result # results, db)))"

definition PushOperations ::
  "(bytes \<Rightarrow> bytes) \<Rightarrow> verifier \<Rightarrow> ServerConfig \<Rightarrow> Principal \<Rightarrow> ServerOperation list \<Rightarrow> int \<Rightarrow> ServerPushResult list tx" where
  "PushOperations sha256 vf cfg pr ops now db =
     (if length ops = 0 \<or> MaxOperationsPerBatch cfg < int (length ops) then Inl ErrInvalid
      else if maxOperationBatchCiphertextBytes < int (sum_list (map (length \<circ> SO_Ciphertext) ops)) then Inl ErrInvalid
      else push_all sha256 vf cfg pr now ops db)"

section \<open>Pulling changes\<close>

record Changes =
  Chg_WorkspaceID :: string
  Chg_Cursor :: int
  Chg_CursorEpoch :: int
  Chg_Operations :: "ServerOperation list"

definition row_operation :: "string \<Rightarrow> operation_row \<Rightarrow> ServerOperation" where
  "row_operation ws r = \<lparr>SO_Protocol = ''beresta.sync.v1'', SO_SchemaVersion = 1, SO_OpID = o_id r, SO_WorkspaceID = ws,
     SO_DeviceID = o_device r, SO_Sequence = o_seq r, SO_HLCPhysicalMS = o_physical r, SO_HLCLogical = o_logical r,
     SO_KeyID = o_key r, SO_Nonce = o_nonce r, SO_Ciphertext = o_ciphertext r, SO_Signature = o_signature r\<rparr>"

text \<open>The loop over the rows: it stops before the page exceeds the byte budget.\<close>

fun page_rows :: "int \<Rightarrow> operation_row list \<Rightarrow> operation_row list" where
  "page_rows responseBytes [] = []"
| "page_rows responseBytes (r # rs) =
     (if maxOperationBatchCiphertextBytes < responseBytes + int (length (o_ciphertext r)) then []
      else r # page_rows (responseBytes + int (length (o_ciphertext r))) rs)"

definition rows_after :: "string \<Rightarrow> int \<Rightarrow> server_db \<Rightarrow> operation_row list" where
  "rows_after ws cursor db = sort_key o_seq (filter (\<lambda>r. o_ws r = ws \<and> cursor < o_seq r) (operations db))"

definition PullChanges ::
  "ServerConfig \<Rightarrow> Principal \<Rightarrow> string \<Rightarrow> int \<Rightarrow> int \<Rightarrow> server_db \<Rightarrow> server_db \<Rightarrow> server_db \<Rightarrow> server_error + Changes" where
  "PullChanges cfg pr ws cursor limit db1 db2 db3 =
     bind_res (validateID ws) (\<lambda>_.
     if cursor < 0 \<or> limit \<le> 0 \<or> MaxOperationsPerBatch cfg < limit then Inl ErrInvalid
     else if \<not> isActiveMember (UserID pr) ws db1 then Inl ErrForbidden
     else
       (case find_ws ws db2 of
          None \<Rightarrow> Inl ErrSql
        | Some w \<Rightarrow>
            if cursor < w_compacted w then Inl ErrCursorCompacted
            else
              let rows = page_rows 0 (take (nat limit) (rows_after ws cursor db3)) in
              if rows = [] \<and> w_latest w < cursor then Inl ErrConflict
              else Inr \<lparr>Chg_WorkspaceID = ws, Chg_Cursor = (if rows = [] then cursor else o_seq (last rows)),
                        Chg_CursorEpoch = w_epoch w, Chg_Operations = map (row_operation ws) rows\<rparr>))"

section \<open>Snapshots\<close>

record ServerSnapshot =
  SN_Protocol :: string
  SN_SchemaVersion :: int
  SN_ID :: string
  SN_WorkspaceID :: string
  SN_BaseSequence :: int
  SN_CursorEpoch :: int
  SN_KeyID :: string
  SN_CreatorDeviceID :: string
  SN_HLCPhysicalMS :: int
  SN_HLCLogical :: u32
  SN_Nonce :: bytes
  SN_CiphertextHash :: bytes
  SN_Ciphertext :: bytes
  SN_Signature :: bytes
  SN_EligibleAt :: "int option"

record SnapshotAck =
  AK_Protocol :: string
  AK_SchemaVersion :: int
  AK_SnapshotID :: string
  AK_WorkspaceID :: string
  AK_DeviceID :: string
  AK_BaseSequence :: int
  AK_CiphertextHash :: bytes
  AK_Signature :: bytes

definition validateSnapshot :: "ServerConfig \<Rightarrow> ServerSnapshot \<Rightarrow> int \<Rightarrow> server_error + unit" where
  "validateSnapshot cfg sn now =
     (if SN_Protocol sn \<noteq> ''beresta.sync.v1'' \<or> SN_SchemaVersion sn \<noteq> 1 then Inl ErrInvalid
      else
        bind_res (validateID (SN_ID sn)) (\<lambda>_.
        bind_res (validateID (SN_WorkspaceID sn)) (\<lambda>_.
        bind_res (validateID (SN_CreatorDeviceID sn)) (\<lambda>_.
        bind_res (validateOpaqueID (SN_KeyID sn)) (\<lambda>_.
          if SN_BaseSequence sn < 0 \<or> SN_CursorEpoch sn \<le> 0 \<or> 4294967295 < SN_CursorEpoch sn \<or>
             SN_HLCPhysicalMS sn < UnixMilli (now - MaxHLCPastAge cfg) \<or>
             UnixMilli (now + MaxHLCFutureSkew cfg) < SN_HLCPhysicalMS sn \<or> length (SN_Nonce sn) \<noteq> 24 \<or>
             length (SN_CiphertextHash sn) \<noteq> 32 \<or> length (SN_Ciphertext sn) < AEADTagBytes \<or>
             MaxBlobBytes cfg < int (length (SN_Ciphertext sn)) \<or> MaxSnapshotCiphertextBytes < length (SN_Ciphertext sn) \<or>
             length (SN_Signature sn) \<noteq> SignatureSize
          then Inl ErrInvalid
          else Inr ())))))"

definition snapshotSignaturePayload :: "ServerSnapshot \<Rightarrow> server_error + bytes" where
  "snapshotSignaturePayload sn =
     bind_res (decodeCanonicalID (SN_ID sn)) (\<lambda>snapshotID.
     bind_res (decodeCanonicalID (SN_WorkspaceID sn)) (\<lambda>workspaceID.
     bind_res (decodeCanonicalID (SN_CreatorDeviceID sn)) (\<lambda>deviceID.
     bind_res (decodeOpaqueID (SN_KeyID sn)) (\<lambda>keyID.
       case CanonicalSnapshotSignatureInput
           \<lparr>SS_SnapshotID = snapshotID, SS_WorkspaceID = workspaceID, SS_BaseSequence = word_of_int (SN_BaseSequence sn),
            SS_CursorEpoch = word_of_int (SN_CursorEpoch sn), SS_KeyID = keyID, SS_CreatorDeviceID = deviceID,
            SS_HLCPhysicalMS = word_of_int (SN_HLCPhysicalMS sn), SS_HLCLogical = SN_HLCLogical sn, SS_HLCDeviceID = deviceID,
            SS_Nonce = SN_Nonce sn, SS_CiphertextHash = SN_CiphertextHash sn, SS_Ciphertext = SN_Ciphertext sn\<rparr> of
         Inl _ \<Rightarrow> Inl ErrInvalid
       | Inr payload \<Rightarrow> Inr payload))))"

definition snapshotAckSignaturePayload :: "SnapshotAck \<Rightarrow> server_error + bytes" where
  "snapshotAckSignaturePayload ack =
     bind_res (decodeCanonicalID (AK_SnapshotID ack)) (\<lambda>snapshotID.
     bind_res (decodeCanonicalID (AK_WorkspaceID ack)) (\<lambda>workspaceID.
     bind_res (decodeCanonicalID (AK_DeviceID ack)) (\<lambda>deviceID.
       case CanonicalSnapshotAckSignatureInput
           \<lparr>SA_SnapshotID = snapshotID, SA_WorkspaceID = workspaceID, SA_DeviceID = deviceID,
            SA_BaseSequence = word_of_int (AK_BaseSequence ack), SA_CiphertextHash = AK_CiphertextHash ack\<rparr> of
         Inl _ \<Rightarrow> Inl ErrInvalid
       | Inr payload \<Rightarrow> Inr payload)))"

definition snapshot_of :: "ServerSnapshot \<Rightarrow> int \<Rightarrow> snapshot_row" where
  "snapshot_of sn now =
     \<lparr>n_id = SN_ID sn, n_ws = SN_WorkspaceID sn, n_base = SN_BaseSequence sn, n_epoch = SN_CursorEpoch sn, n_key = SN_KeyID sn,
      n_device = SN_CreatorDeviceID sn, n_physical = SN_HLCPhysicalMS sn, n_logical = SN_HLCLogical sn, n_nonce = SN_Nonce sn,
      n_hash = SN_CiphertextHash sn, n_ciphertext = SN_Ciphertext sn, n_signature = SN_Signature sn, n_eligible = None,
      n_created = unixNow now\<rparr>"

definition insert_snapshot :: "snapshot_row \<Rightarrow> server_db \<Rightarrow> server_error + server_db" where
  "insert_snapshot n db =
     (if list_ex (\<lambda>x. n_id x = n_id n) (snapshots db) \<or> n_base n < 0 \<or> n_epoch n \<le> 0 \<or> n_physical n < 0 \<or>
         length (n_nonce n) \<noteq> 24 \<or> length (n_hash n) \<noteq> 32 \<or> length (n_signature n) \<noteq> 64 \<or>
         \<not> list_ex (\<lambda>d. d_id d = n_device n) (devices db)
      then Inl ErrConflict
      else Inr (db\<lparr>snapshots := snapshots db @ [n]\<rparr>))"

definition SignatureDomainSnapshot :: string where
  "SignatureDomainSnapshot = ''beresta.snapshot.signature.v1''"

definition SignatureDomainSnapshotAck :: string where
  "SignatureDomainSnapshotAck = ''beresta.snapshot-ack.signature.v1''"

definition PutSnapshot ::
  "(bytes \<Rightarrow> bytes) \<Rightarrow> verifier \<Rightarrow> ServerConfig \<Rightarrow> Principal \<Rightarrow> ServerSnapshot \<Rightarrow> int \<Rightarrow> unit tx" where
  "PutSnapshot sha256 ed25519Verify cfg pr sn now db =
     bind_res (validateSnapshot cfg sn now) (\<lambda>_.
     if SN_CreatorDeviceID sn \<noteq> DeviceID pr then Inl ErrForbidden
     else if \<not> equalBytes (sha256 (SN_Ciphertext sn)) (SN_CiphertextHash sn) then Inl ErrInvalid
     else if \<not> isActiveMember (UserID pr) (SN_WorkspaceID sn) db then Inl ErrForbidden
     else
       (case device_key (DeviceID pr) (UserID pr) db of
          None \<Rightarrow> Inl ErrForbidden
        | Some public \<Rightarrow>
            (case snapshotSignaturePayload sn of
               Inl _ \<Rightarrow> Inl ErrInvalid
             | Inr payload \<Rightarrow>
                 (case VerifyCanonical ed25519Verify CryptoProfileV1 public SignatureDomainSnapshot payload (SN_Signature sn) of
                    Inl _ \<Rightarrow> Inl ErrUnauthorized
                  | Inr _ \<Rightarrow>
                      (case find_ws (SN_WorkspaceID sn) db of
                         None \<Rightarrow> Inl ErrSql
                       | Some w \<Rightarrow>
                           if w_latest w < SN_BaseSequence sn \<or> SN_CursorEpoch sn \<noteq> w_epoch w then Inl ErrConflict
                           else if SN_KeyID sn \<noteq> w_key w then Inl ErrConflict
                           else
                             bind_res (insert_snapshot (snapshot_of sn now) db) (\<lambda>db. Inr ((), db)))))))"

text \<open>
  A snapshot is eligible when every active device of an active member acknowledged it and no
  device or membership of the workspace was revoked within the last thirty days.
\<close>

definition acknowledged :: "string \<Rightarrow> string \<Rightarrow> server_db \<Rightarrow> bool" where
  "acknowledged snapshot device db \<longleftrightarrow> list_ex (\<lambda>a. a_snapshot a = snapshot \<and> a_device a = device) (snapshot_acks db)"

definition snapshotEligible :: "string \<Rightarrow> string \<Rightarrow> int \<Rightarrow> server_db \<Rightarrow> bool" where
  "snapshotEligible snapshot ws now db \<longleftrightarrow>
     (let boundary = unixNow (now - days30);
          recent = (\<lambda>t. case t of None \<Rightarrow> False | Some x \<Rightarrow> boundary < x);
          missingActive = filter (\<lambda>d. d_revoked d = None \<and> isActiveMember (d_user d) ws db \<and> \<not> acknowledged snapshot (d_id d) db)
            (devices db);
          recentRevoked = filter (\<lambda>d. list_ex (\<lambda>m. m_ws m = ws \<and> m_user m = d_user d) (memberships db) \<and> recent (d_revoked d))
            (devices db);
          recentRevokedMembers = filter (\<lambda>m. m_ws m = ws \<and> recent (m_revoked m)) (memberships db)
      in missingActive = [] \<and> recentRevoked = [] \<and> recentRevokedMembers = [])"

definition upsert_ack :: "ack_row \<Rightarrow> server_db \<Rightarrow> server_db" where
  "upsert_ack a db =
     (let same = (\<lambda>x. a_snapshot x = a_snapshot a \<and> a_device x = a_device a) in
      if list_ex same (snapshot_acks db)
      then db\<lparr>snapshot_acks := update_rows same (\<lambda>_. a) (snapshot_acks db)\<rparr>
      else db\<lparr>snapshot_acks := snapshot_acks db @ [a]\<rparr>)"

definition AcknowledgeSnapshot :: "verifier \<Rightarrow> Principal \<Rightarrow> SnapshotAck \<Rightarrow> int \<Rightarrow> bool tx" where
  "AcknowledgeSnapshot ed25519Verify pr ack now db =
     bind_res (validateID (AK_SnapshotID ack)) (\<lambda>_.
     bind_res (validateID (AK_WorkspaceID ack)) (\<lambda>_.
     if AK_Protocol ack \<noteq> ''beresta.sync.v1'' \<or> AK_SchemaVersion ack \<noteq> 1 \<or> AK_DeviceID ack \<noteq> DeviceID pr \<or>
        AK_BaseSequence ack < 0 \<or> length (AK_CiphertextHash ack) \<noteq> 32 \<or> length (AK_Signature ack) \<noteq> SignatureSize
     then Inl ErrForbidden
     else if \<not> isActiveMember (UserID pr) (AK_WorkspaceID ack) db then Inl ErrForbidden
     else
       (case find (\<lambda>n. n_id n = AK_SnapshotID ack \<and> n_ws n = AK_WorkspaceID ack) (snapshots db) of
          None \<Rightarrow> Inl ErrNotFound
        | Some n \<Rightarrow>
            if n_base n \<noteq> AK_BaseSequence ack \<or> \<not> equalBytes (n_hash n) (AK_CiphertextHash ack) then Inl ErrConflict
            else
              (case device_key (DeviceID pr) (UserID pr) db of
                 None \<Rightarrow> Inl ErrForbidden
               | Some public \<Rightarrow>
                   (case snapshotAckSignaturePayload ack of
                      Inl _ \<Rightarrow> Inl ErrInvalid
                    | Inr payload \<Rightarrow>
                        (case VerifyCanonical ed25519Verify CryptoProfileV1 public SignatureDomainSnapshotAck payload (AK_Signature ack) of
                           Inl _ \<Rightarrow> Inl ErrUnauthorized
                         | Inr _ \<Rightarrow>
                             let db = upsert_ack \<lparr>a_snapshot = AK_SnapshotID ack, a_device = DeviceID pr,
                                        a_hash = AK_CiphertextHash ack, a_signature = AK_Signature ack, a_created = unixNow now\<rparr> db;
                                 eligible = snapshotEligible (AK_SnapshotID ack) (AK_WorkspaceID ack) now db
                             in Inr (eligible,
                                 if eligible
                                 then db\<lparr>snapshots := update_rows (\<lambda>n. n_id n = AK_SnapshotID ack)
                                        (\<lambda>n. n\<lparr>n_eligible := (case n_eligible n of None \<Rightarrow> Some (unixNow now) | Some t \<Rightarrow> Some t)\<rparr>)
                                        (snapshots db)\<rparr>
                                 else db))))))) "

definition snapshot_item :: "snapshot_row \<Rightarrow> ServerSnapshot" where
  "snapshot_item n = \<lparr>SN_Protocol = ''beresta.sync.v1'', SN_SchemaVersion = 1, SN_ID = n_id n, SN_WorkspaceID = n_ws n,
     SN_BaseSequence = n_base n, SN_CursorEpoch = n_epoch n, SN_KeyID = n_key n, SN_CreatorDeviceID = n_device n,
     SN_HLCPhysicalMS = n_physical n, SN_HLCLogical = n_logical n, SN_Nonce = n_nonce n, SN_CiphertextHash = n_hash n,
     SN_Ciphertext = n_ciphertext n, SN_Signature = n_signature n, SN_EligibleAt = n_eligible n\<rparr>"

text \<open>\<^verbatim>\<open>ORDER BY base_seq DESC, created_at DESC\<close>.\<close>

definition newest_first :: "snapshot_row list \<Rightarrow> snapshot_row list" where
  "newest_first ns = sort_key (\<lambda>n. (- n_base n, - n_created n)) ns"

definition ListSnapshots :: "Principal \<Rightarrow> string \<Rightarrow> server_db \<Rightarrow> server_error + ServerSnapshot list" where
  "ListSnapshots pr ws db =
     bind_res (validateID ws) (\<lambda>_.
     if \<not> isActiveMember (UserID pr) ws db then Inl ErrForbidden
     else Inr (map (\<lambda>n. (snapshot_item n)\<lparr>SN_Ciphertext := []\<rparr>) (newest_first (filter (\<lambda>n. n_ws n = ws) (snapshots db)))))"

definition GetSnapshot :: "Principal \<Rightarrow> string \<Rightarrow> server_db \<Rightarrow> server_error + ServerSnapshot" where
  "GetSnapshot pr snapshot db =
     bind_res (validateID snapshot) (\<lambda>_.
     case find (\<lambda>n. n_id n = snapshot) (snapshots db) of
       None \<Rightarrow> Inl ErrNotFound
     | Some n \<Rightarrow> if \<not> isActiveMember (UserID pr) (n_ws n) db then Inl ErrForbidden else Inr (snapshot_item n))"

definition LatestSnapshot :: "Principal \<Rightarrow> string \<Rightarrow> server_db \<Rightarrow> server_error + ServerSnapshot" where
  "LatestSnapshot pr ws db =
     bind_res (validateID ws) (\<lambda>_.
     if \<not> isActiveMember (UserID pr) ws db then Inl ErrForbidden
     else (case newest_first (filter (\<lambda>n. n_ws n = ws) (snapshots db)) of
             [] \<Rightarrow> Inl ErrNotFound
           | n # _ \<Rightarrow> Inr (snapshot_item n)))"

section \<open>Compaction\<close>

record CompactionResult =
  CR_WorkspaceID :: string
  CR_SnapshotID :: string
  CR_BaseSequence :: int
  CR_EligibleOperations :: nat
  CR_RemovedOperations :: nat
  CR_DryRun :: bool

definition CompactWorkspace :: "string \<Rightarrow> int \<Rightarrow> bool \<Rightarrow> CompactionResult tx" where
  "CompactWorkspace ws now dryRun db =
     bind_res (validateID ws) (\<lambda>_.
     case newest_first (filter (\<lambda>n. n_ws n = ws \<and> n_eligible n \<noteq> None) (snapshots db)) of
       [] \<Rightarrow> Inr (\<lparr>CR_WorkspaceID = ws, CR_SnapshotID = [], CR_BaseSequence = 0, CR_EligibleOperations = 0,
                   CR_RemovedOperations = 0, CR_DryRun = dryRun\<rparr>, db)
     | n # _ \<Rightarrow>
         let boundary = unixNow (now - days30);
             hit = (\<lambda>r. o_ws r = ws \<and> o_seq r \<le> n_base n \<and> o_created r \<le> boundary);
             count = length (filter hit (operations db));
             result = \<lparr>CR_WorkspaceID = ws, CR_SnapshotID = n_id n, CR_BaseSequence = n_base n, CR_EligibleOperations = count,
               CR_RemovedOperations = 0, CR_DryRun = dryRun\<rparr>
         in if dryRun then Inr (result, db)
            else Inr (result\<lparr>CR_RemovedOperations := count\<rparr>,
                   db\<lparr>operations := filter (\<lambda>r. \<not> hit r) (operations db),
                      workspaces := update_rows (\<lambda>w. w_id w = ws)
                        (\<lambda>w. w\<lparr>w_compaction_snapshot := Some (n_id n), w_compacted := max (w_compacted w) (n_base n)\<rparr>)
                        (workspaces db)\<rparr>))"

end
