(* ===== verification/HTTP_Client.thy ===== *)
theory HTTP_Client
  imports Sync_Worker Server_Operations
begin

text \<open>
  The HTTP transport of the client: \<^verbatim>\<open>core/transport/http.go\<close>. The state is the session and
  the status; the network is an argument, a function that answers a request with a reply
  and may change its own state. A reply is what \<^verbatim>\<open>net/http\<close> and \<^verbatim>\<open>encoding/json\<close> deliver:
  a connection error, or a status with the error code and the decoded body, if there are any.
  Requests and bodies are the typed values, not their JSON text.
\<close>

section \<open>Configuration and state\<close>

datatype HTTPSecurityMode = HTTPSecurityPinned | HTTPSecurityTrusted | HTTPSecurityUnset

datatype Status = StatusDisabled | StatusOffline | StatusActive | StatusCurrent | StatusFailed

record HTTPConfig =
  HC_SecurityMode :: HTTPSecurityMode
  HC_PinnedFingerprint :: string
  HC_DeviceID :: ID
  HC_SignChallenge :: "(bytes \<Rightarrow> bytes option) option"
  HC_RequestTimeout :: int
  HC_MaxOperationBytes :: int
  HC_MaxOperationsPerBatch :: int
  HC_Platform :: string

record HTTP =
  h_config :: HTTPConfig
  h_session :: string
  h_sessionEnd :: int
  h_status :: Status

text \<open>The parts of \<^verbatim>\<open>url.URL\<close> that the constructor looks at.\<close>

record parsed_url =
  url_Scheme :: string
  url_Host :: string
  url_User :: bool
  url_RawQuery :: string
  url_Fragment :: string

abbreviation authScopeSync :: string where
  "authScopeSync \<equiv> ''sync''"

definition ErrCertificatePin :: sync_error where
  "ErrCertificatePin = TrustFailure"

definition ErrAuthentication :: sync_error where
  "ErrAuthentication = TrustFailure"

definition normalizeFingerprint :: "string \<Rightarrow> string option" where
  "normalizeFingerprint value =
     (let value = to_lower (filter (\<lambda>c. c \<noteq> CHR '':'') (TrimSpace value)) in
      case hex_decode value of
        None \<Rightarrow> None
      | Some decoded \<Rightarrow> if length decoded \<noteq> 32 then None else Some value)"

definition constantHexEqual :: "string \<Rightarrow> string \<Rightarrow> bool" where
  "constantHexEqual left right \<longleftrightarrow> equalBytes (str_bytes left) (str_bytes right)"

definition NewHTTP :: "parsed_url option \<Rightarrow> HTTPConfig \<Rightarrow> sync_error + HTTP" where
  "NewHTTP base config =
     (case base of
        None \<Rightarrow> Inl (PlainError ''server URL must be an absolute HTTPS URL'')
      | Some u \<Rightarrow>
          if url_Scheme u \<noteq> ''https'' \<or> url_Host u = [] \<or> url_User u \<or> url_RawQuery u \<noteq> [] \<or> url_Fragment u \<noteq> []
          then Inl (PlainError ''server URL must be an absolute HTTPS URL'')
          else if ID_Validate (HC_DeviceID config) \<noteq> Inr () \<or> HC_SignChallenge config = None
          then Inl (PlainError ''valid device credentials are required'')
          else
            let config = (if HC_RequestTimeout config \<le> 0 then config\<lparr>HC_RequestTimeout := 30 * 1000000000\<rparr> else config);
                config = (if HC_MaxOperationBytes config \<le> 0 \<or> HardMaxOperationBytes < HC_MaxOperationBytes config
                          then config\<lparr>HC_MaxOperationBytes := DefaultMaxOperationBytes\<rparr> else config);
                config = (if HC_MaxOperationsPerBatch config \<le> 0 \<or> 256 < HC_MaxOperationsPerBatch config
                          then config\<lparr>HC_MaxOperationsPerBatch := 100\<rparr> else config);
                h = \<lparr>h_config = config, h_session = [], h_sessionEnd = 0, h_status = StatusOffline\<rparr>
            in case HC_SecurityMode config of
                 HTTPSecurityPinned \<Rightarrow>
                   (case normalizeFingerprint (HC_PinnedFingerprint config) of
                      None \<Rightarrow> Inl (PlainError ''fingerprint must be a SHA-256 digest'')
                    | Some _ \<Rightarrow> Inr h)
               | HTTPSecurityTrusted \<Rightarrow> Inr h
               | HTTPSecurityUnset \<Rightarrow> Inl (PlainError ''select pinned or trusted certificate mode''))"

text \<open>\<^verbatim>\<open>VerifyConnection\<close> of the pinned mode, on the digest of the leaf certificate.\<close>

definition VerifyConnection :: "(bytes \<Rightarrow> bytes) \<Rightarrow> string \<Rightarrow> bytes list \<Rightarrow> sync_error + unit" where
  "VerifyConnection sha256 pin certificates =
     (case certificates of
        [] \<Rightarrow> Inl ErrCertificatePin
      | leaf # _ \<Rightarrow> if \<not> constantHexEqual (hex_encode (sha256 leaf)) pin then Inl ErrCertificatePin else Inr ())"

definition setStatus :: "Status \<Rightarrow> HTTP \<Rightarrow> HTTP" where
  "setStatus s h = h\<lparr>h_status := s\<rparr>"

definition BeginSync :: "HTTP \<Rightarrow> HTTP" where
  "BeginSync = setStatus StatusActive"

definition CompleteSync :: "HTTP \<Rightarrow> HTTP" where
  "CompleteSync = setStatus StatusCurrent"

definition SyncOffline :: "HTTP \<Rightarrow> HTTP" where
  "SyncOffline = setStatus StatusOffline"

definition SyncFailed :: "HTTP \<Rightarrow> HTTP" where
  "SyncFailed = setStatus StatusFailed"

definition clearSession :: "HTTP \<Rightarrow> HTTP" where
  "clearSession h = h\<lparr>h_session := [], h_sessionEnd := 0\<rparr>"

section \<open>Requests\<close>

datatype http_request =
  GetChallenge string string
| PostVerify ChallengeProof
| PostRefresh ChallengeProof
| GetChanges string int int
| PostOps "ServerOperation list"

datatype http_payload =
  PayloadChallenge Challenge
| PayloadSession Session
| PayloadChanges Changes
| PayloadAccepted "ServerPushResult list"

datatype http_reply =
  ConnectionError sync_error
| Response int string "http_payload option"

fun as_challenge :: "http_payload \<Rightarrow> Challenge option" where
  "as_challenge (PayloadChallenge c) = Some c"
| "as_challenge _ = None"

fun as_session :: "http_payload \<Rightarrow> Session option" where
  "as_session (PayloadSession c) = Some c"
| "as_session _ = None"

fun as_changes :: "http_payload \<Rightarrow> Changes option" where
  "as_changes (PayloadChanges c) = Some c"
| "as_changes _ = None"

fun as_accepted :: "http_payload \<Rightarrow> ServerPushResult list option" where
  "as_accepted (PayloadAccepted c) = Some c"
| "as_accepted _ = None"

type_synonym 't network = "http_request \<Rightarrow> string \<Rightarrow> 't \<Rightarrow> http_reply \<times> 't"

record 't http_world =
  hw_http :: HTTP
  hw_net :: 't

definition on_http :: "(HTTP \<Rightarrow> HTTP) \<Rightarrow> 't http_world \<Rightarrow> 't http_world" where
  "on_http f w = w\<lparr>hw_http := f (hw_http w)\<rparr>"

definition decodeHTTPError :: "int \<Rightarrow> string \<Rightarrow> sync_error" where
  "decodeHTTPError status code =
     (if code = ''snapshot_required'' then ErrSnapshotRequired
      else if status = 404 then PlainError ''transport: remote object not found''
      else if status = 429 \<or> 500 \<le> status then Wrapped ''transport: transient HTTP'' (PlainError code)
      else Wrapped ''transport: permanent server rejection'' (PlainError code))"

definition requestJSON ::
  "'t network \<Rightarrow> http_request \<Rightarrow> (http_payload \<Rightarrow> 'a option) \<Rightarrow> string \<Rightarrow> 't http_world \<Rightarrow> (int \<times> (sync_error + 'a)) \<times> 't http_world" where
  "requestJSON net request output token w =
     (case net request token (hw_net w) of
        (ConnectionError e, t) \<Rightarrow> ((0, Inl e), on_http (setStatus StatusOffline) (w\<lparr>hw_net := t\<rparr>))
      | (Response status code body, t) \<Rightarrow>
          if status < 200 \<or> 300 \<le> status
          then ((status, Inl (decodeHTTPError status code)), on_http (setStatus StatusFailed) (w\<lparr>hw_net := t\<rparr>))
          else (case Option.bind body output of
                  None \<Rightarrow> ((status, Inl (PlainError ''transport: decode response'')), w\<lparr>hw_net := t\<rparr>)
                | Some value \<Rightarrow> ((status, Inr value), w\<lparr>hw_net := t\<rparr>)))"

text \<open>The client's own copy of the signed login bytes.\<close>

definition client_authSignatureInput :: "ChallengeProof \<Rightarrow> bytes" where
  "client_authSignatureInput proof =
     concat (map (\<lambda>field.
         let n = (word_of_nat (length field) :: u32) in
         [ucast (drop_bit 24 n), ucast (drop_bit 16 n), ucast (drop_bit 8 n), ucast n] @ field)
       [str_bytes ''beresta.auth.v1'', str_bytes (CP_ChallengeID proof), str_bytes (CP_DeviceID proof),
        str_bytes (CP_ServerFingerprint proof), str_bytes (CP_Scope proof), CP_Nonce proof])"

definition challenge_proof :: "HTTPConfig \<Rightarrow> Challenge \<Rightarrow> ChallengeProof" where
  "challenge_proof config c =
     \<lparr>CP_ChallengeID = Ch_ID c, CP_DeviceID = Ch_DeviceID c, CP_ServerFingerprint = Ch_ServerFingerprint c, CP_Nonce = Ch_Nonce c,
      CP_Scope = Ch_Scope c, CP_Signature = [], CP_Platform = HC_Platform config\<rparr>"

text \<open>The checks on a challenge, up to the signed proof.\<close>

definition answer_challenge :: "HTTPConfig \<Rightarrow> Challenge \<Rightarrow> sync_error + ChallengeProof" where
  "answer_challenge config c =
     (if Ch_DeviceID c \<noteq> ID_String (HC_DeviceID config) \<or> Ch_Scope c \<noteq> authScopeSync \<or> Ch_Nonce c = [] then Inl ErrAuthentication
      else if HC_SecurityMode config = HTTPSecurityPinned \<and>
              \<not> (case normalizeFingerprint (Ch_ServerFingerprint c) of
                   None \<Rightarrow> False
                 | Some serverPin \<Rightarrow>
                     constantHexEqual (case normalizeFingerprint (HC_PinnedFingerprint config) of None \<Rightarrow> [] | Some pin \<Rightarrow> pin) serverPin)
      then Inl ErrCertificatePin
      else
        let proof = challenge_proof config c in
        case Option.bind (HC_SignChallenge config) (\<lambda>sign. sign (client_authSignatureInput proof)) of
          None \<Rightarrow> Inl ErrAuthentication
        | Some signature \<Rightarrow>
            if length signature \<noteq> SignatureSize then Inl ErrAuthentication else Inr (proof\<lparr>CP_Signature := signature\<rparr>))"

definition minute :: int where
  "minute = 60 * 1000000000"

function ensureSession :: "('t \<Rightarrow> int) \<Rightarrow> 't network \<Rightarrow> bool \<Rightarrow> 't http_world \<Rightarrow> (sync_error + unit) \<times> 't http_world" where
  "ensureSession now net forceRefresh w =
     (if h_session (hw_http w) \<noteq> [] \<and> \<not> forceRefresh \<and> minute < h_sessionEnd (hw_http w) - now (hw_net w) then (Inr (), w)
      else
        let config = h_config (hw_http w); oldToken = h_session (hw_http w) in
        case requestJSON net (GetChallenge (ID_String (HC_DeviceID config)) authScopeSync) as_challenge [] w of
          ((_, Inl e), w) \<Rightarrow> (Inl e, w)
        | ((_, Inr challenge), w) \<Rightarrow>
            (case answer_challenge config challenge of
               Inl e \<Rightarrow> (Inl e, w)
             | Inr proof \<Rightarrow>
                 (case requestJSON net (if oldToken \<noteq> [] then PostRefresh proof else PostVerify proof) as_session oldToken w of
                    ((status, Inl e), w) \<Rightarrow>
                      if oldToken \<noteq> [] then
                        let w = on_http clearSession w in
                        if status = 401 then ensureSession now net False w else (Inl e, w)
                      else (Inl e, w)
                  | ((_, Inr session), w) \<Rightarrow>
                      if Ses_Token session = [] \<or> Ses_DeviceID session \<noteq> ID_String (HC_DeviceID config) \<or>
                         Ses_Scope session \<noteq> authScopeSync \<or> Ses_ExpiresAt session \<le> now (hw_net w)
                      then (Inl ErrAuthentication, w)
                      else (Inr (), on_http (\<lambda>h. h\<lparr>h_session := Ses_Token session, h_sessionEnd := Ses_ExpiresAt session\<rparr>) w))))"
  by pat_completeness auto

text \<open>The only repetition is after a rejected refresh, and then there is no session to refresh.\<close>

termination
  by (relation "measure (\<lambda>(now, net, force, w). length (h_session (hw_http w)))")
     (auto simp: on_http_def clearSession_def)

declare ensureSession.simps [simp del]

text \<open>Two attempts: a session that the server no longer accepts is dropped once.\<close>

fun json_attempts ::
  "('t \<Rightarrow> int) \<Rightarrow> 't network \<Rightarrow> http_request \<Rightarrow> (http_payload \<Rightarrow> 'a option) \<Rightarrow> nat \<Rightarrow> 't http_world \<Rightarrow> (sync_error + 'a) \<times> 't http_world" where
  "json_attempts now net request output 0 w = (Inl ErrAuthentication, w)"
| "json_attempts now net request output (Suc left) w =
     (case ensureSession now net False w of
        (Inl e, w) \<Rightarrow> (Inl e, w)
      | (Inr _, w) \<Rightarrow>
          (case requestJSON net request output (h_session (hw_http w)) w of
             ((status, result), w) \<Rightarrow>
               if status = 401 \<and> left = 1 then json_attempts now net request output left (on_http clearSession w)
               else (result, w)))"

definition doJSON where
  "doJSON now net request output w = json_attempts now net request output 2 w"

section \<open>Operations on the wire\<close>

definition operationFromWire :: "WireOperation \<Rightarrow> ServerOperation" where
  "operationFromWire op =
     \<lparr>SO_Protocol = ''beresta.sync.v1'', SO_SchemaVersion = 1, SO_OpID = ID_String (Op_ID op), SO_WorkspaceID = ID_String (Op_WorkspaceID op),
      SO_DeviceID = ID_String (Op_DeviceID op), SO_Sequence = sint (Op_Sequence op), SO_HLCPhysicalMS = sint (PhysicalMS (Op_Clock op)),
      SO_HLCLogical = Logical (Op_Clock op), SO_KeyID = hex_encode (Op_KeyID op), SO_Nonce = Op_Nonce op,
      SO_Ciphertext = Op_Ciphertext op, SO_Signature = Op_Signature op\<rparr>"

definition parseCanonicalID :: "string \<Rightarrow> sync_error + ID" where
  "parseCanonicalID value =
     (case ParseIDString value of Inl e \<Rightarrow> Inl (PlainError ''transport: invalid identifier'') | Inr i \<Rightarrow> Inr i)"

definition toWire :: "ServerOperation \<Rightarrow> sync_error + WireOperation" where
  "toWire j =
     (if SO_Protocol j \<noteq> ''beresta.sync.v1'' \<or> SO_SchemaVersion j \<noteq> 1 \<or> SO_Sequence j \<le> 0 \<or> SO_HLCPhysicalMS j < 0
      then Inl (ErrCodec ErrUnsupportedVersion)
      else
        bind_res (parseCanonicalID (SO_OpID j)) (\<lambda>opID.
        bind_res (parseCanonicalID (SO_WorkspaceID j)) (\<lambda>workspaceID.
        bind_res (parseCanonicalID (SO_DeviceID j)) (\<lambda>device.
          case hex_decode (SO_KeyID j) of
            None \<Rightarrow> Inl (PlainError ''transport: malformed key identifier'')
          | Some keyID \<Rightarrow>
              if length keyID \<noteq> 16 \<or> to_lower (SO_KeyID j) \<noteq> SO_KeyID j then Inl (PlainError ''transport: malformed key identifier'')
              else
                let result = \<lparr>Op_ID = opID, Op_WorkspaceID = workspaceID, Op_DeviceID = device,
                      Op_Sequence = word_of_int (SO_Sequence j),
                      Op_Clock = \<lparr>PhysicalMS = word_of_int (SO_HLCPhysicalMS j), Logical = SO_HLCLogical j, ClockDeviceID = device\<rparr>,
                      Op_KeyID = keyID, Op_Nonce = SO_Nonce j, Op_Ciphertext = SO_Ciphertext j, Op_Signature = SO_Signature j\<rparr>
                in case EncodeOperation result of Inl e \<Rightarrow> Inl (ErrCodec e) | Inr _ \<Rightarrow> Inr result))))"

text \<open>The loop over the operations of a page.\<close>

fun wire_operations :: "int \<Rightarrow> ServerOperation list \<Rightarrow> sync_error + WireOperation list" where
  "wire_operations maxBytes [] = Inr []"
| "wire_operations maxBytes (j # js) =
     bind_res (toWire j) (\<lambda>op.
       if maxBytes < int (length (Op_Ciphertext op)) then Inl (ErrCodec ErrOperationSizeExceeded)
       else bind_res (wire_operations maxBytes js) (\<lambda>ops. Inr (op # ops)))"

definition read_page :: "HTTPConfig \<Rightarrow> ID \<Rightarrow> int \<Rightarrow> Changes \<Rightarrow> sync_error + PullPage" where
  "read_page config ws limit response =
     (if Chg_WorkspaceID response \<noteq> ID_String ws \<or> Chg_Cursor response < 0 \<or> Chg_CursorEpoch response \<le> 0 \<or>
         4294967295 < Chg_CursorEpoch response
      then Inl ErrInvalidCursor
      else
        bind_res (wire_operations (HC_MaxOperationBytes config) (Chg_Operations response)) (\<lambda>ops.
          Inr \<lparr>Page_Cursor = \<lparr>Cur_WorkspaceID = ws, LastSequence = word_of_int (Chg_Cursor response),
                 Epoch = word_of_int (Chg_CursorEpoch response)\<rparr>,
               Page_Operations = ops, Page_More = (int (length ops) = limit)\<rparr>))"

definition HTTP_Pull :: "('t \<Rightarrow> int) \<Rightarrow> 't network \<Rightarrow> 't http_world pull_fn" where
  "HTTP_Pull now net ws cursor limit w =
     (let config = h_config (hw_http w) in
      if limit \<le> 0 \<or> HC_MaxOperationsPerBatch config < limit then (Inl (PlainError ''transport: invalid pull limit''), w)
      else
        case doJSON now net (GetChanges (ID_String ws) (uint (LastSequence cursor)) limit) as_changes w of
          (Inl e, w) \<Rightarrow> (Inl e, w)
        | (Inr response, w) \<Rightarrow> (read_page config ws limit response, w))"

fun read_accepted :: "ServerPushResult list \<Rightarrow> sync_error + PushResult list" where
  "read_accepted [] = Inr []"
| "read_accepted (a # as) =
     (case parseCanonicalID (SP_OpID a) of
        Inl e \<Rightarrow> Inl (PlainError ''transport: malformed push response'')
      | Inr i \<Rightarrow>
          if SP_Sequence a \<le> 0 then Inl (PlainError ''transport: malformed push response'')
          else bind_res (read_accepted as) (\<lambda>results.
            Inr (\<lparr>Push_OpID = i, Push_Sequence = word_of_int (SP_Sequence a), Push_Duplicate = SP_Duplicate a, PermanentError = []\<rparr> # results)))"

definition HTTP_Push :: "('t \<Rightarrow> int) \<Rightarrow> 't network \<Rightarrow> 't http_world push_fn" where
  "HTTP_Push now net ws ops w =
     (let config = h_config (hw_http w) in
      if length ops = 0 \<or> HC_MaxOperationsPerBatch config < int (length ops) then (Inl (PlainError ''transport: invalid push batch''), w)
      else if list_ex (\<lambda>op. Op_WorkspaceID op \<noteq> ws \<or> Op_Sequence op \<noteq> 0 \<or> HC_MaxOperationBytes config < int (length (Op_Ciphertext op))) ops
      then (Inl (PlainError ''transport: invalid local operation''), w)
      else
        case doJSON now net (PostOps (map operationFromWire ops)) as_accepted w of
          (Inl e, w) \<Rightarrow> (Inl e, w)
        | (Inr accepted, w) \<Rightarrow> (read_accepted accepted, w))"

end
