(* ===== verification/Server_History.thy ===== *)
theory Server_History
  imports Server_Operations
begin

text \<open>
  Histories of the server: every handler that writes is a constructor of \<open>server_call\<close>, a
  history is a list of calls, and \<open>serve\<close> is what one call does to the database (a call that
  fails changes nothing). The storage mutex serializes the transactions, so a history is any
  interleaving of the clients. An invariant is kept by one call and therefore by every
  history: that step is the locale \<open>served_invariant\<close>, interpreted for the accounts, the
  operation log, the workspace keys and the revocation of a device.
\<close>

section \<open>Calls\<close>

datatype server_call =
  CallCreateInvite string int int string string
| CallRegister Registration int
| CallIssueChallenge string string int string string
| CallVerifyChallenge ChallengeProof int string
| CallRefreshSession Principal ChallengeProof int string
| CallPurgeExpiredAuthRecords int
| CallDeleteSession bytes
| CallRevokeDevice Principal string int
| CallAdminRevokeDevice string int
| CallAddDevice Principal string string bytes int
| CallPutKeybag Principal int bytes int
| CallCreateWorkspace Principal string string bytes int
| CallAddMember Principal string string string bytes int
| CallRevokeMember Principal string string int
| CallRotateWorkspaceKey Principal string string "KeyEnvelopeInput list" bytes int
| CallPushOperations Principal "ServerOperation list" int
| CallPutSnapshot Principal ServerSnapshot int
| CallAcknowledgeSnapshot Principal SnapshotAck int
| CallCompactWorkspace string int bool

text \<open>\<open>withWriteTx\<close>: commit the new database, or roll back.\<close>

fun commit :: "'e + 'a \<times> server_db \<Rightarrow> server_db \<Rightarrow> server_db" where
  "commit (Inl e) db = db"
| "commit (Inr (x, db')) db = db'"

fun serve :: "(bytes \<Rightarrow> bytes) \<Rightarrow> verifier \<Rightarrow> ServerConfig \<Rightarrow> server_call \<Rightarrow> server_db \<Rightarrow> server_db" where
  "serve sha256 vf cfg (CallCreateInvite name ttl now i code) db = commit (CreateInvite sha256 name ttl now i code db) db"
| "serve sha256 vf cfg (CallRegister r now) db = commit (Register sha256 cfg r now db) db"
| "serve sha256 vf cfg (CallIssueChallenge d scope now i nonce) db = commit (IssueChallenge sha256 cfg d scope now i nonce db) db"
| "serve sha256 vf cfg (CallVerifyChallenge p now token) db = commit (VerifyChallenge sha256 vf cfg p now token db) db"
| "serve sha256 vf cfg (CallRefreshSession pr p now token) db = commit (RefreshSession sha256 vf cfg pr p now token db) db"
| "serve sha256 vf cfg (CallPurgeExpiredAuthRecords now) db = commit (PurgeExpiredAuthRecords now db) db"
| "serve sha256 vf cfg (CallDeleteSession h) db = commit (DeleteSession h db) db"
| "serve sha256 vf cfg (CallRevokeDevice pr d now) db = commit (RevokeDevice pr d now db) db"
| "serve sha256 vf cfg (CallAdminRevokeDevice d now) db = commit (AdminRevokeDevice d now db) db"
| "serve sha256 vf cfg (CallAddDevice pr d name key now) db = commit (AddDevice pr d name key now db) db"
| "serve sha256 vf cfg (CallPutKeybag pr v c now) db = commit (PutKeybag cfg pr v c now db) db"
| "serve sha256 vf cfg (CallCreateWorkspace pr ws key env now) db = commit (CreateWorkspace cfg pr ws key env now db) db"
| "serve sha256 vf cfg (CallAddMember pr ws user key env now) db = commit (AddMember cfg pr ws user key env now db) db"
| "serve sha256 vf cfg (CallRevokeMember pr ws user now) db = commit (RevokeMember pr ws user now db) db"
| "serve sha256 vf cfg (CallRotateWorkspaceKey pr ws key envs sig now) db = commit (RotateWorkspaceKey cfg pr ws key envs sig now db) db"
| "serve sha256 vf cfg (CallPushOperations pr ops now) db = commit (PushOperations sha256 vf cfg pr ops now db) db"
| "serve sha256 vf cfg (CallPutSnapshot pr sn now) db = commit (PutSnapshot sha256 vf cfg pr sn now db) db"
| "serve sha256 vf cfg (CallAcknowledgeSnapshot pr ack now) db = commit (AcknowledgeSnapshot vf pr ack now db) db"
| "serve sha256 vf cfg (CallCompactWorkspace ws now dry) db = commit (CompactWorkspace ws now dry db) db"

fun server_run :: "(bytes \<Rightarrow> bytes) \<Rightarrow> verifier \<Rightarrow> ServerConfig \<Rightarrow> server_call list \<Rightarrow> server_db \<Rightarrow> server_db" where
  "server_run sha256 vf cfg [] db = db"
| "server_run sha256 vf cfg (c # cs) db = server_run sha256 vf cfg cs (serve sha256 vf cfg c db)"

lemma server_run_append: "server_run sha256 vf cfg (cs @ ds) db = server_run sha256 vf cfg ds (server_run sha256 vf cfg cs db)"
  by (induction cs arbitrary: db) auto

text \<open>What a call keeps, a history keeps.\<close>

locale served_invariant =
  fixes sha256 :: "bytes \<Rightarrow> bytes" and vf :: verifier and cfg :: ServerConfig
    and allowed :: "server_call \<Rightarrow> bool" and Q :: "server_db \<Rightarrow> bool"
  assumes call_keeps: "Q db \<Longrightarrow> allowed c \<Longrightarrow> Q (serve sha256 vf cfg c db)"
begin

lemma run_keeps: "Q db \<Longrightarrow> list_all allowed cs \<Longrightarrow> Q (server_run sha256 vf cfg cs db)"
  by (induction cs arbitrary: db) (auto simp: call_keeps)

end

lemma commit_keeps: "Q db \<Longrightarrow> (\<And>x db'. r = Inr (x, db') \<Longrightarrow> Q db') \<Longrightarrow> Q (commit r db)"
  by (cases r) auto

section \<open>Tables\<close>

lemma map_update_rows: "(\<And>r. P r \<Longrightarrow> key (f r) = key r) \<Longrightarrow> map key (update_rows P f rows) = map key rows"
  by (auto simp: update_rows_def)

lemma image_update_rows:
  assumes "\<And>r. P r \<Longrightarrow> key (f r) = key r"
  shows "key ` set (update_rows P f rows) = key ` set rows"
  using map_update_rows [of P key f rows, OF assms] by (simp flip: set_map)

lemma set_update_rows: "set (update_rows P f rows) = f ` {r \<in> set rows. P r} \<union> {r \<in> set rows. \<not> P r}"
  by (auto simp: update_rows_def image_iff)

lemma filter_update_rows:
  "(\<And>r. P r \<Longrightarrow> R (f r) \<longleftrightarrow> R r) \<Longrightarrow> filter R (update_rows P f rows) = update_rows P f (filter R rows)"
  by (induction rows) (auto simp: update_rows_def)

lemma length_update_rows [simp]: "length (update_rows P f rows) = length rows"
  by (simp add: update_rows_def)

lemma update_rows_id: "(\<And>r. r \<in> set rows \<Longrightarrow> \<not> P r) \<Longrightarrow> update_rows P f rows = rows"
  by (simp add: update_rows_def map_idI)

lemma list_ex_update_rows:
  "(\<And>r. P r \<Longrightarrow> R (f r) \<longleftrightarrow> R r) \<Longrightarrow> list_ex R (update_rows P f rows) \<longleftrightarrow> list_ex R rows"
  by (auto simp: update_rows_def list_ex_iff)

lemma key_fresh: "\<not> list_ex (\<lambda>x. key x = k) rows \<longleftrightarrow> k \<notin> key ` set rows"
  by (auto simp: list_ex_iff)

lemma distinct_key: "distinct (map key rows) \<Longrightarrow> x \<in> set rows \<Longrightarrow> y \<in> set rows \<Longrightarrow> key x = key y \<Longrightarrow> x = y"
  by (metis distinct_map inj_onD)

section \<open>What each handler writes\<close>

definition new_workspace :: "string \<Rightarrow> string \<Rightarrow> string \<Rightarrow> int \<Rightarrow> workspace_row" where
  "new_workspace ws user key now = \<lparr>w_id = ws, w_owner = user, w_key = key, w_latest = 0, w_epoch = 1, w_created = unixNow now,
     w_compaction_snapshot = None, w_compacted = 0\<rparr>"

definition new_member :: "string \<Rightarrow> string \<Rightarrow> string \<Rightarrow> int \<Rightarrow> member_row" where
  "new_member ws user role now = \<lparr>m_ws = ws, m_user = user, m_role = role, m_created = unixNow now, m_revoked = None\<rparr>"

definition new_envelope :: "string \<Rightarrow> string \<Rightarrow> string \<Rightarrow> bytes \<Rightarrow> int \<Rightarrow> envelope_row" where
  "new_envelope ws user key envelope now = \<lparr>e_ws = ws, e_user = user, e_key = key, e_envelope = envelope, e_created = unixNow now\<rparr>"

lemmas new_rows = new_workspace_def new_member_def new_envelope_def

lemma insert_owned_workspace_Inr:
  "insert_owned_workspace ws user key envelope now db = Inr db' \<longleftrightarrow>
     ws \<notin> w_id ` set (workspaces db) \<and> user \<in> u_id ` set (users db) \<and>
     (ws, user) \<notin> (\<lambda>m. (m_ws m, m_user m)) ` set (memberships db) \<and>
     (ws, user, key) \<notin> (\<lambda>e. (e_ws e, e_user e, e_key e)) ` set (key_envelopes db) \<and>
     db' = db\<lparr>workspaces := workspaces db @ [new_workspace ws user key now],
              memberships := memberships db @ [new_member ws user ''owner'' now],
              key_envelopes := key_envelopes db @ [new_envelope ws user key envelope now]\<rparr>"
  by (auto simp: insert_owned_workspace_def insert_workspace_def insert_member_def insert_envelope_def err_simps new_rows list_ex_iff
      split: if_splits)

lemma CreateWorkspace_Inr:
  assumes "CreateWorkspace cfg pr ws key envelope now db = Inr (x, db')"
  shows "insert_owned_workspace ws (UserID pr) key envelope now db = Inr db'"
  using assms by (auto simp: CreateWorkspace_def err_simps split: if_splits)

definition registered_user :: "ServerConfig \<Rightarrow> Registration \<Rightarrow> invite_row \<Rightarrow> int \<Rightarrow> user_row" where
  "registered_user cfg r i now = \<lparr>u_id = Reg_UserID r, u_display = i_display i, u_identity = Reg_IdentityPublic r,
     u_authority = Reg_AuthorityPublic r, u_quota = UserQuotaBytes cfg, u_created = unixNow now\<rparr>"

definition registered_device :: "Registration \<Rightarrow> int \<Rightarrow> device_row" where
  "registered_device r now = \<lparr>d_id = Reg_DeviceID r, d_user = Reg_UserID r, d_display = Reg_DeviceName r,
     d_signing = Reg_SigningPublic r, d_platform = (if Reg_Platform r \<noteq> [] then Some (Reg_Platform r) else None),
     d_created = unixNow now, d_last_seen = None, d_revoked = None\<rparr>"

definition registered_keybag :: "Registration \<Rightarrow> int \<Rightarrow> keybag_row" where
  "registered_keybag r now = \<lparr>k_user = Reg_UserID r, k_version = 1, k_ciphertext = Reg_KeybagCiphertext r, k_updated = unixNow now\<rparr>"

lemmas registered_rows = registered_user_def registered_device_def registered_keybag_def

lemma Register_Inr:
  assumes "Register sha256 cfg r now db = Inr (x, db')"
  obtains i where "validateRegistration r = Inr ()" "length (users db) < 5"
    "find (open_invite (sha256 (str_bytes (Reg_InviteCode r))) now) (invites db) = Some i"
    "\<not> list_ex (\<lambda>x. u_id x = Reg_UserID r) (users db)" "\<not> list_ex (\<lambda>x. d_id x = Reg_DeviceID r) (devices db)"
    "\<not> list_ex (\<lambda>x. k_user x = Reg_UserID r) (keybags db)"
    "insert_owned_workspace (Reg_WorkspaceID r) (Reg_UserID r) (Reg_WorkspaceKeyID r) (Reg_WorkspaceEnvelope r) now
       (db\<lparr>invites := update_rows (\<lambda>x. i_id x = i_id i \<and> i_consumed x = None) (\<lambda>x. x\<lparr>i_consumed := Some (unixNow now)\<rparr>) (invites db),
           users := users db @ [registered_user cfg r i now], devices := devices db @ [registered_device r now],
           keybags := keybags db @ [registered_keybag r now]\<rparr>) = Inr db'"
  using assms unfolding registered_rows
  by (auto simp: Register_def err_simps Let_def insert_user_def insert_device_def insert_keybag_def not_le
      split: if_splits option.splits)

text \<open>The columns of a device that authorization depends on; logging in changes other columns only.\<close>

definition device_core :: "device_row \<Rightarrow> string \<times> string \<times> bytes \<times> int option" where
  "device_core d = (d_id d, d_user d, d_signing d, d_revoked d)"

definition dev_view :: "server_db \<Rightarrow> (string \<times> string \<times> bytes \<times> int option) list" where
  "dev_view db = map device_core (devices db)"

lemma core_list_ex: "list_ex (\<lambda>d. R (d_id d) (d_user d) (d_signing d) (d_revoked d)) (devices db) \<longleftrightarrow>
    list_ex (\<lambda>(i, u, k, t). R i u k t) (dev_view db)"
  by (auto simp: dev_view_def device_core_def list_ex_iff)

lemma core_filter: "length (filter (\<lambda>d. R (d_id d) (d_user d) (d_signing d) (d_revoked d)) (devices db)) =
    length (filter (\<lambda>(i, u, k, t). R i u k t) (dev_view db))"
  by (simp add: dev_view_def device_core_def filter_map comp_def)

lemma core_update_rows: "(\<And>r. device_core (f r) = device_core r) \<Longrightarrow> map device_core (update_rows P f rows) = map device_core rows"
  by (rule map_update_rows)

lemma core_touch_device [simp]: "map device_core (touch_device device platform now rows) = map device_core rows"
  by (simp add: touch_device_def Let_def core_update_rows device_core_def)

lemma drop_session_subset: "drop_session replaced user device rows = Inr kept \<Longrightarrow> set kept \<subseteq> set rows"
  by (auto simp: drop_session_def Let_def split: if_splits)

lemma verifyChallenge_Inr:
  assumes "verifyChallenge sha256 vf cfg proof old now token db = Inr (ses, db')"
  obtains d kept platform where
    "challenged_device proof (sha256 (CP_Nonce proof)) now db = Some d"
    "vf (d_signing d) (authSignatureInput proof) (CP_Signature proof)"
    "drop_session old (d_user d) (CP_DeviceID proof) (sessions db) = Inr kept"
    "length (filter (\<lambda>c. c_id c = CP_ChallengeID proof \<and> c_consumed c = None) (challenges db)) = 1"
    "ses = \<lparr>Ses_Token = token, Ses_UserID = d_user d, Ses_DeviceID = CP_DeviceID proof, Ses_Scope = CP_Scope proof,
       Ses_ExpiresAt = now + SessionTTL cfg\<rparr>"
    "db' = db\<lparr>devices := touch_device (CP_DeviceID proof) platform now (devices db),
       challenges := update_rows (\<lambda>c. c_id c = CP_ChallengeID proof \<and> c_consumed c = None)
         (\<lambda>c. c\<lparr>c_consumed := Some (unixNow now)\<rparr>) (challenges db),
       sessions := kept @ [\<lparr>s_token_hash = sha256 (str_bytes token), s_user = d_user d, s_device = CP_DeviceID proof,
         s_scope = CP_Scope proof, s_expires = unixNow (now + SessionTTL cfg), s_created = unixNow now\<rparr>]\<rparr>"
  using assms
  by (auto simp: verifyChallenge_def Let_def err_simps split: if_splits option.splits)

lemma login_Inr:
  assumes "VerifyChallenge sha256 vf cfg proof now token db = Inr (ses, db')
    \<or> RefreshSession sha256 vf cfg pr proof now token db = Inr (ses, db')"
  obtains old where "verifyChallenge sha256 vf cfg proof old now token db = Inr (ses, db')"
  using assms by (auto simp: VerifyChallenge_def RefreshSession_def split: if_splits)

lemma revoke_rows_Inr:
  "revoke_rows P device now db = Inr (x, db') \<longleftrightarrow>
     length (filter P (devices db)) = 1 \<and>
     db' = db\<lparr>devices := update_rows P (\<lambda>d. d\<lparr>d_revoked := Some (unixNow now)\<rparr>) (devices db),
              sessions := filter (\<lambda>s. s_device s \<noteq> device) (sessions db),
              challenges := filter (\<lambda>c. c_device c \<noteq> device) (challenges db)\<rparr>"
  by (auto simp: revoke_rows_def)

lemma revoke_Inr:
  assumes "RevokeDevice pr device now db = Inr (x, db') \<or> AdminRevokeDevice device now db = Inr (x, db')"
  obtains P where "\<And>d. P d \<Longrightarrow> d_id d = device \<and> d_revoked d = None" "revoke_rows P device now db = Inr (x, db')"
proof -
  from assms consider
    "revoke_rows (\<lambda>d. d_id d = device \<and> d_user d = UserID pr \<and> d_revoked d = None) device now db = Inr (x, db')"
  | "revoke_rows (\<lambda>d. d_id d = device \<and> d_revoked d = None) device now db = Inr (x, db')"
    unfolding RevokeDevice_def AdminRevokeDevice_def bind_res_Inr_iff by blast
  then show ?thesis
  proof cases
    case 1
    from this show ?thesis by (rule that [rotated]) simp
  next
    case 2
    from this show ?thesis by (rule that [rotated]) simp
  qed
qed

definition added_device :: "Principal \<Rightarrow> string \<Rightarrow> string \<Rightarrow> bytes \<Rightarrow> int \<Rightarrow> device_row" where
  "added_device pr device name key now = \<lparr>d_id = device, d_user = UserID pr, d_display = name, d_signing = key,
     d_platform = None, d_created = unixNow now, d_last_seen = None, d_revoked = None\<rparr>"

lemma AddDevice_Inr:
  assumes "AddDevice pr device name key now db = Inr (x, db')"
  shows "length (filter (\<lambda>d. d_user d = UserID pr \<and> d_revoked d = None) (devices db)) < 3"
    "\<not> list_ex (\<lambda>x. d_id x = device) (devices db)" "list_ex (\<lambda>u. u_id u = UserID pr) (users db)"
    "db' = db\<lparr>devices := devices db @ [added_device pr device name key now]\<rparr>"
  using assms by (auto simp: AddDevice_def insert_device_def added_device_def err_simps not_le split: if_splits)

definition env_key :: "envelope_row \<Rightarrow> string \<times> string \<times> string" where
  "env_key e = (e_ws e, e_user e, e_key e)"

lemma upsert_envelope_Inr:
  assumes "upsert_envelope ws user key envelope now db = Inr db'"
  shows "\<exists>es. db' = db\<lparr>key_envelopes := es\<rparr> \<and> env_key ` set es = insert (ws, user, key) (env_key ` set (key_envelopes db))"
proof (cases "list_ex (\<lambda>e. e_ws e = ws \<and> e_user e = user \<and> e_key e = key) (key_envelopes db)")
  case True
  let ?es = "update_rows (\<lambda>e. e_ws e = ws \<and> e_user e = user \<and> e_key e = key)
     (\<lambda>e. e\<lparr>e_envelope := envelope, e_created := unixNow now\<rparr>) (key_envelopes db)"
  have "env_key ` set ?es = env_key ` set (key_envelopes db)"
    by (rule image_update_rows) (simp add: env_key_def)
  moreover from True have "(ws, user, key) \<in> env_key ` set (key_envelopes db)"
    unfolding list_ex_iff env_key_def by blast
  moreover have "db' = db\<lparr>key_envelopes := ?es\<rparr>" using assms True by (simp add: upsert_envelope_def Let_def)
  ultimately show ?thesis by (intro exI [of _ ?es]) (simp add: insert_absorb)
next
  case False
  with assms have "db' = db\<lparr>key_envelopes := key_envelopes db @ [new_envelope ws user key envelope now]\<rparr>"
    by (simp add: upsert_envelope_def Let_def new_envelope_def split: if_splits)
  then show ?thesis by (intro exI [of _ "key_envelopes db @ [new_envelope ws user key envelope now]"])
      (simp add: env_key_def new_envelope_def)
qed

lemma upsert_envelopes_Inr:
  assumes "upsert_envelopes ws key inputs now db = Inr db'"
  shows "\<exists>es. db' = db\<lparr>key_envelopes := es\<rparr> \<and>
    env_key ` set es = (\<lambda>i. (ws, KE_UserID i, key)) ` set inputs \<union> env_key ` set (key_envelopes db)"
  using assms
proof (induction inputs arbitrary: db)
  case Nil
  then show ?case by (auto intro: exI [of _ "key_envelopes db"])
next
  case (Cons i inputs)
  then obtain db1 where 1: "upsert_envelope ws (KE_UserID i) key (KE_Envelope i) now db = Inr db1"
    and r: "upsert_envelopes ws key inputs now db1 = Inr db'" by (auto simp: err_simps)
  from upsert_envelope_Inr [OF 1] Cons.IH [OF r] show ?case by auto
qed

lemma CreateInvite_Inr: "CreateInvite sha256 name ttl now i code db = Inr (x, db') \<Longrightarrow> \<exists>is. db' = db\<lparr>invites := is\<rparr>"
  by (auto simp: CreateInvite_def Let_def split: if_splits)

lemma IssueChallenge_Inr:
  assumes "IssueChallenge sha256 cfg device scope now i nonce db = Inr (x, db')"
  shows "\<exists>c. db' = db\<lparr>challenges := challenges db @ [c]\<rparr> \<and> c_id c = i \<and> c_device c = device"
    and "list_ex (\<lambda>d. d_id d = device \<and> d_revoked d = None) (devices db)"
  using assms by (auto simp: IssueChallenge_def Let_def err_simps split: if_splits)

lemma PutKeybag_Inr: "PutKeybag cfg pr v c now db = Inr (x, db') \<Longrightarrow> \<exists>ks. db' = db\<lparr>keybags := ks\<rparr>"
  by (auto simp: PutKeybag_def Let_def split: if_splits sum.splits)

definition mem_key :: "member_row \<Rightarrow> string \<times> string" where
  "mem_key m = (m_ws m, m_user m)"

lemma upsert_member_Inr:
  assumes "upsert_member ws user now db = Inr db'"
  shows "\<exists>ms. db' = db\<lparr>memberships := ms\<rparr> \<and>
    (ms = update_rows (\<lambda>m. mem_key m = (ws, user)) (\<lambda>m. m\<lparr>m_revoked := None\<rparr>) (memberships db) \<or>
     ms = memberships db @ [new_member ws user ''member'' now] \<and> (ws, user) \<notin> mem_key ` set (memberships db))"
  using assms
  by (intro exI [of _ "memberships db'"])
    (auto simp: upsert_member_def Let_def mem_key_def new_member_def list_ex_iff split: if_splits)

lemma AddMember_Inr:
  assumes "AddMember cfg pr ws user key envelope now db = Inr (x, db')"
  shows "\<exists>w ms es. find_ws ws db = Some w \<and> w_key w = key \<and> db' = db\<lparr>memberships := ms, key_envelopes := es\<rparr> \<and>
    env_key ` set es = insert (ws, user, key) (env_key ` set (key_envelopes db)) \<and>
    (ms = update_rows (\<lambda>m. mem_key m = (ws, user)) (\<lambda>m. m\<lparr>m_revoked := None\<rparr>) (memberships db) \<or>
     ms = memberships db @ [new_member ws user ''member'' now] \<and> (ws, user) \<notin> mem_key ` set (memberships db))"
proof -
  from assms obtain w db1 where w: "find_ws ws db = Some w" "w_key w = key" and m: "upsert_member ws user now db = Inr db1"
    and e: "upsert_envelope ws user key envelope now db1 = Inr db'"
    by (auto simp: AddMember_def err_simps split: if_splits option.splits)
  obtain ms where ms: "db1 = db\<lparr>memberships := ms\<rparr>"
    "ms = update_rows (\<lambda>m. mem_key m = (ws, user)) (\<lambda>m. m\<lparr>m_revoked := None\<rparr>) (memberships db) \<or>
     ms = memberships db @ [new_member ws user ''member'' now] \<and> (ws, user) \<notin> mem_key ` set (memberships db)"
    using upsert_member_Inr [OF m] by blast
  obtain es where "db' = db1\<lparr>key_envelopes := es\<rparr>" "env_key ` set es = insert (ws, user, key) (env_key ` set (key_envelopes db1))"
    using upsert_envelope_Inr [OF e] by blast
  with w ms show ?thesis by (intro exI [of _ w] exI [of _ ms] exI [of _ es]) simp
qed

lemma RevokeMember_Inr:
  assumes "RevokeMember pr ws user now db = Inr (x, db')"
  shows "db' = db\<lparr>memberships := update_rows
      (\<lambda>m. m_ws m = ws \<and> m_user m = user \<and> m_role m \<noteq> ''owner'' \<and> m_revoked m = None)
      (\<lambda>m. m\<lparr>m_revoked := Some (unixNow now)\<rparr>) (memberships db)\<rparr>"
  using assms by (auto simp: RevokeMember_def Let_def err_simps split: if_splits)

lemma check_envelopes_Inr: "check_envelopes cfg envs seen = Inr seen' \<Longrightarrow> seen' = seen \<union> KE_UserID ` set envs"
  by (induction envs arbitrary: seen) (auto simp: err_simps split: if_splits)

lemma RotateWorkspaceKey_Inr:
  assumes "RotateWorkspaceKey cfg pr ws key envs sig now db = Inr (x, db')"
  shows "set (active_members ws db) \<subseteq> KE_UserID ` set envs"
    and "\<exists>es ts. db' = db\<lparr>workspaces := update_rows (\<lambda>w. w_id w = ws) (\<lambda>w. w\<lparr>w_key := key\<rparr>) (workspaces db),
                           key_envelopes := es, key_transitions := ts\<rparr> \<and>
      env_key ` set es = (\<lambda>i. (ws, KE_UserID i, key)) ` set envs \<union> env_key ` set (key_envelopes db)"
proof -
  let ?db = "db\<lparr>workspaces := update_rows (\<lambda>w. w_id w = ws) (\<lambda>w. w\<lparr>w_key := key\<rparr>) (workspaces db)\<rparr>"
  from assms obtain seen db1 where s: "check_envelopes cfg envs {} = Inr seen" and a: "\<not> list_ex (\<lambda>u. u \<notin> seen) (active_members ws db)"
    and u: "upsert_envelopes ws key envs now ?db = Inr db1"
    and db': "db' = upsert_transition ws key sig (join_comma (sort (active_members ws db))) now db1"
    by (auto simp: RotateWorkspaceKey_def Let_def err_simps split: if_splits)
  from check_envelopes_Inr [OF s] a show "set (active_members ws db) \<subseteq> KE_UserID ` set envs" by (auto simp: list_ex_iff)
  obtain es where es: "db1 = ?db\<lparr>key_envelopes := es\<rparr>"
    "env_key ` set es = (\<lambda>i. (ws, KE_UserID i, key)) ` set envs \<union> env_key ` set (key_envelopes db)"
    using upsert_envelopes_Inr [OF u] by auto
  show "\<exists>es ts. db' = db\<lparr>workspaces := update_rows (\<lambda>w. w_id w = ws) (\<lambda>w. w\<lparr>w_key := key\<rparr>) (workspaces db),
                           key_envelopes := es, key_transitions := ts\<rparr> \<and>
      env_key ` set es = (\<lambda>i. (ws, KE_UserID i, key)) ` set envs \<union> env_key ` set (key_envelopes db)"
    using es by (intro exI [of _ es] exI [of _ "key_transitions db'"]) (simp add: db' upsert_transition_def Let_def)
qed

lemma store_operation_Inr:
  assumes "store_operation sha256 op payload now db = Inr (res, db')"
  obtains (duplicate) r where "find (is_row op) (operations db) = Some r" "o_hash r = sha256 (payload @ SO_Signature op)"
    "res = \<lparr>SP_OpID = SO_OpID op, SP_Sequence = o_seq r, SP_Duplicate = True\<rparr>" "db' = db"
  | (new) w r where "find (is_row op) (operations db) = None" "find_ws (SO_WorkspaceID op) db = Some w" "SO_KeyID op = w_key w"
    "r = stored_row sha256 op payload (w_latest w + 1) now"
    "\<not> list_ex (\<lambda>x. o_id x = o_id r \<or> (o_ws x = o_ws r \<and> o_seq x = o_seq r)) (operations db)"
    "0 < o_seq r" "list_ex (\<lambda>d. d_id d = SO_DeviceID op) (devices db)" "0 \<le> SO_HLCPhysicalMS op"
    "res = \<lparr>SP_OpID = SO_OpID op, SP_Sequence = o_seq r, SP_Duplicate = False\<rparr>"
    "db' = (set_latest (SO_WorkspaceID op) (o_seq r) db)\<lparr>operations := operations db @ [r]\<rparr>"
proof (cases "find (is_row op) (operations db)")
  case None
  note none = this
  with assms obtain w where w: "find_ws (SO_WorkspaceID op) db = Some w"
    by (auto simp: store_operation_def Let_def split: option.splits)
  from none w assms show ?thesis
    by (intro new [of w "stored_row sha256 op payload (w_latest w + 1) now"])
       (auto simp: store_operation_def stored_row_def set_latest_def insert_operation_def Let_def err_simps not_le split: if_splits)
next
  case (Some r)
  with assms show ?thesis
    by (intro duplicate [of r]) (auto simp: store_operation_def Let_def split: if_splits)
qed

lemma pushOperation_Inr:
  assumes "pushOperation sha256 vf cfg pr now op db = Inr (res, db')"
  obtains publicKey payload where "validateOperation cfg op now = Inr ()" "SO_DeviceID op = DeviceID pr"
    "isActiveMember (UserID pr) (SO_WorkspaceID op) db" "device_key (SO_DeviceID op) (UserID pr) db = Some publicKey"
    "operationSignaturePayload op = Inr payload"
    "VerifyCanonical vf CryptoProfileV1 publicKey SignatureDomainOperation payload (SO_Signature op) = Inr ()"
    "store_operation sha256 op payload now db = Inr (res, db')"
  using assms by (auto simp: pushOperation_def err_simps split: if_splits option.splits sum.splits)

text \<open>What each operation of a batch keeps, the batch keeps.\<close>

lemma push_all_keeps:
  assumes "\<And>op res db db'. Q db \<Longrightarrow> pushOperation sha256 vf cfg pr now op db = Inr (res, db') \<Longrightarrow> Q db'"
    and "push_all sha256 vf cfg pr now ops db = Inr (rs, db')" "Q db"
  shows "Q db'"
  using assms(2,3) by (induction ops arbitrary: db rs) (auto simp: err_simps intro: assms(1))

lemma PushOperations_keeps:
  assumes "\<And>op res db db'. Q db \<Longrightarrow> pushOperation sha256 vf cfg pr now op db = Inr (res, db') \<Longrightarrow> Q db'"
    and "PushOperations sha256 vf cfg pr ops now db = Inr (rs, db')" "Q db"
  shows "Q db'"
  using assms(2,3) push_all_keeps [of Q, OF assms(1)] by (auto simp: PushOperations_def split: if_splits)

lemma PutSnapshot_Inr:
  assumes "PutSnapshot sha256 vf cfg pr sn now db = Inr (x, db')"
  shows "\<exists>w. find_ws (SN_WorkspaceID sn) db = Some w \<and> 0 \<le> SN_BaseSequence sn \<and> SN_BaseSequence sn \<le> w_latest w \<and>
    \<not> list_ex (\<lambda>n. n_id n = SN_ID sn) (snapshots db) \<and> db' = db\<lparr>snapshots := snapshots db @ [snapshot_of sn now]\<rparr>"
  using assms
  by (auto simp: PutSnapshot_def insert_snapshot_def snapshot_of_def err_simps not_less not_le split: if_splits option.splits sum.splits)

definition ack_key :: "ack_row \<Rightarrow> string \<times> string" where
  "ack_key a = (a_snapshot a, a_device a)"

lemma upsert_ack_keys:
  "\<exists>acks. upsert_ack a db = db\<lparr>snapshot_acks := acks\<rparr> \<and> ack_key ` set acks = insert (ack_key a) (ack_key ` set (snapshot_acks db))"
proof (cases "list_ex (\<lambda>x. a_snapshot x = a_snapshot a \<and> a_device x = a_device a) (snapshot_acks db)")
  case True
  let ?acks = "update_rows (\<lambda>x. a_snapshot x = a_snapshot a \<and> a_device x = a_device a) (\<lambda>_. a) (snapshot_acks db)"
  have "ack_key ` set ?acks = ack_key ` set (snapshot_acks db)"
    by (rule image_update_rows) (simp add: ack_key_def)
  moreover from True have "ack_key a \<in> ack_key ` set (snapshot_acks db)"
    by (auto simp: list_ex_iff ack_key_def intro: rev_image_eqI)
  ultimately show ?thesis using True by (intro exI [of _ ?acks]) (simp add: upsert_ack_def Let_def insert_absorb)
next
  case False
  then show ?thesis by (intro exI [of _ "snapshot_acks db @ [a]"]) (simp add: upsert_ack_def Let_def)
qed

lemma AcknowledgeSnapshot_Inr:
  assumes "AcknowledgeSnapshot vf pr ack now db = Inr (eligible, db')"
  shows "\<exists>acks. ack_key ` set acks = insert (AK_SnapshotID ack, DeviceID pr) (ack_key ` set (snapshot_acks db)) \<and>
     eligible = snapshotEligible (AK_SnapshotID ack) (AK_WorkspaceID ack) now (db\<lparr>snapshot_acks := acks\<rparr>) \<and>
     db' = db\<lparr>snapshot_acks := acks,
        snapshots := (if eligible then update_rows (\<lambda>n. n_id n = AK_SnapshotID ack)
           (\<lambda>n. n\<lparr>n_eligible := (case n_eligible n of None \<Rightarrow> Some (unixNow now) | Some t \<Rightarrow> Some t)\<rparr>) (snapshots db)
          else snapshots db)\<rparr>"
proof -
  let ?a = "\<lparr>a_snapshot = AK_SnapshotID ack, a_device = DeviceID pr, a_hash = AK_CiphertextHash ack, a_signature = AK_Signature ack,
     a_created = unixNow now\<rparr>"
  obtain acks where acks: "upsert_ack ?a db = db\<lparr>snapshot_acks := acks\<rparr>"
    "ack_key ` set acks = insert (ack_key ?a) (ack_key ` set (snapshot_acks db))"
    using upsert_ack_keys by blast
  with assms show ?thesis
    by (intro exI [of _ acks])
       (auto simp: AcknowledgeSnapshot_def Let_def err_simps ack_key_def split: if_splits option.splits sum.splits)
qed

lemma CompactWorkspace_Inr:
  assumes "CompactWorkspace ws now dry db = Inr (x, db')"
  obtains (idle) "db' = db"
  | (compacted) n boundary where "n \<in> set (snapshots db)" "n_ws n = ws" "n_eligible n \<noteq> None" "boundary = unixNow (now - days30)"
      "db' = db\<lparr>operations := filter (\<lambda>r. \<not> (o_ws r = ws \<and> o_seq r \<le> n_base n \<and> o_created r \<le> boundary)) (operations db),
         workspaces := update_rows (\<lambda>w. w_id w = ws)
           (\<lambda>w. w\<lparr>w_compaction_snapshot := Some (n_id n), w_compacted := max (w_compacted w) (n_base n)\<rparr>) (workspaces db)\<rparr>"
proof (cases "newest_first (filter (\<lambda>n. n_ws n = ws \<and> n_eligible n \<noteq> None) (snapshots db))")
  case Nil
  with assms show ?thesis by (intro idle) (auto simp: CompactWorkspace_def err_simps)
next
  case (Cons n ns)
  then have "n \<in> set (newest_first (filter (\<lambda>n. n_ws n = ws \<and> n_eligible n \<noteq> None) (snapshots db)))" by simp
  then have n: "n \<in> set (snapshots db)" "n_ws n = ws" "n_eligible n \<noteq> None" by (auto simp: newest_first_def)
  show ?thesis
  proof (cases dry)
    case True
    with Cons assms show ?thesis by (intro idle) (auto simp: CompactWorkspace_def Let_def err_simps)
  next
    case False
    with Cons assms show ?thesis by (intro compacted [OF n refl]) (auto simp: CompactWorkspace_def Let_def err_simps)
  qed
qed

end
