(* ===== verification/Server_Invariants.thy ===== *)
theory Server_Invariants
  imports Server_History
begin

text \<open>
  What holds after every history of server calls: the account limits, the shape of the
  operation log, the coverage of the current workspace key, and the finality of a device
  revocation and of a consumed challenge. Each invariant is an interpretation of
  \<open>served_invariant\<close>.
\<close>

section \<open>Accounts\<close>

definition active_devices :: "string \<Rightarrow> server_db \<Rightarrow> nat" where
  "active_devices u db = length (filter (\<lambda>(i, v, k, t). v = u \<and> t = None) (dev_view db))"

definition owners :: "server_db \<Rightarrow> (string \<times> string) set" where
  "owners db = (\<lambda>x. (fst x, fst (snd x))) ` set (dev_view db)"

definition logins :: "server_db \<Rightarrow> (string \<times> string) set" where
  "logins db = (\<lambda>s. (s_device s, s_user s)) ` set (sessions db)"

definition accounts_inv :: "server_db \<Rightarrow> bool" where
  "accounts_inv db \<longleftrightarrow>
     distinct (map u_id (users db)) \<and> length (users db) \<le> 5 \<and> distinct (map fst (dev_view db)) \<and>
     snd ` owners db \<subseteq> u_id ` set (users db) \<and> (\<forall>u. active_devices u db \<le> 3) \<and> logins db \<subseteq> owners db"

lemma accounts_frame:
  assumes "users db' = users db" "dev_view db' = dev_view db" "logins db' \<subseteq> logins db \<union> owners db" "accounts_inv db"
  shows "accounts_inv db'"
  using assms unfolding accounts_inv_def active_devices_def owners_def by auto

lemma accounts_commit:
  assumes "\<And>x db'. r = Inr (x, db') \<Longrightarrow> users db' = users db \<and> dev_view db' = dev_view db \<and> set (sessions db') \<subseteq> set (sessions db)"
    and "accounts_inv db"
  shows "accounts_inv (commit r db)"
proof (rule commit_keeps)
  fix x db' assume "r = Inr (x, db')"
  from assms(1) [OF this] show "accounts_inv db'"
    by (intro accounts_frame [OF _ _ _ assms(2)]) (auto simp: logins_def)
qed (rule assms(2))

lemma dev_view_cong: "devices db' = devices db \<Longrightarrow> dev_view db' = dev_view db"
  by (simp add: dev_view_def)

lemma accounts_Register:
  assumes "accounts_inv db" "Register sha256 cfg r now db = Inr (x, db')"
  shows "accounts_inv db'"
proof -
  from assms(2) obtain i where fresh: "length (users db) < 5" "\<not> list_ex (\<lambda>x. u_id x = Reg_UserID r) (users db)"
      "\<not> list_ex (\<lambda>x. d_id x = Reg_DeviceID r) (devices db)"
    and u: "users db' = users db @ [registered_user cfg r i now]" and d: "devices db' = devices db @ [registered_device r now]"
    and s: "sessions db' = sessions db"
    by (rule Register_Inr) (simp add: insert_owned_workspace_Inr)
  have dv: "dev_view db' = dev_view db @ [(Reg_DeviceID r, Reg_UserID r, Reg_SigningPublic r, None)]"
    by (simp add: dev_view_def d registered_device_def device_core_def)
  have uid: "Reg_UserID r \<notin> u_id ` set (users db)" and did: "Reg_DeviceID r \<notin> fst ` set (dev_view db)"
    using fresh by (auto simp: list_ex_iff dev_view_def device_core_def)
  have "filter (\<lambda>(i, v, k, t). v = Reg_UserID r \<and> t = None) (dev_view db) = []"
    using assms(1) uid by (force simp: accounts_inv_def owners_def filter_empty_conv)
  then have "active_devices v db' \<le> 3" for v
    using assms(1) by (auto simp: accounts_inv_def active_devices_def dv)
  moreover have "owners db' = insert (Reg_DeviceID r, Reg_UserID r) (owners db)" "logins db' = logins db"
    by (simp_all add: owners_def logins_def dv s)
  ultimately show ?thesis
    using assms(1) fresh(1) uid did by (auto simp: accounts_inv_def u dv registered_user_def)
qed

lemma accounts_AddDevice:
  assumes "accounts_inv db" "AddDevice pr device name key now db = Inr (x, db')"
  shows "accounts_inv db'"
proof -
  note a = AddDevice_Inr [OF assms(2)]
  have dv: "dev_view db' = dev_view db @ [(device, UserID pr, key, None)]"
    by (simp add: dev_view_def a(4) added_device_def device_core_def)
  have us: "users db' = users db" by (simp add: a(4))
  have did: "device \<notin> fst ` set (dev_view db)"
    using a(2) by (auto simp: list_ex_iff dev_view_def device_core_def)
  have "active_devices (UserID pr) db < 3"
    using a(1) core_filter [of "\<lambda>i u k t. u = UserID pr \<and> t = None" db] by (simp add: active_devices_def)
  then have "active_devices v db' \<le> 3" for v
    using assms(1) by (auto simp: accounts_inv_def active_devices_def dv)
  moreover have "UserID pr \<in> u_id ` set (users db)" using a(3) unfolding list_ex_iff by (auto intro: rev_image_eqI)
  moreover have "owners db' = insert (device, UserID pr) (owners db)" "logins db' = logins db"
    by (simp_all add: owners_def dv) (simp add: logins_def a(4))
  ultimately show ?thesis
    using assms(1) did by (simp add: accounts_inv_def dv us subset_insertI2)
qed

lemma revoked_core:
  "(\<And>d. P d \<Longrightarrow> d_revoked d = None) \<Longrightarrow>
   length (filter (\<lambda>(i, v, k, t). v = u \<and> t = None) (map device_core (update_rows P (\<lambda>d. d\<lparr>d_revoked := Some t\<rparr>) rows)))
     \<le> length (filter (\<lambda>(i, v, k, t). v = u \<and> t = None) (map device_core rows))"
  by (induction rows) (auto simp: update_rows_def device_core_def intro: le_SucI)

lemma accounts_revoke:
  assumes "accounts_inv db" "\<And>d. P d \<Longrightarrow> d_id d = device \<and> d_revoked d = None" "revoke_rows P device now db = Inr (x, db')"
  shows "accounts_inv db'"
proof -
  let ?f = "\<lambda>d. d\<lparr>d_revoked := Some (unixNow now)\<rparr>"
  from assms(3) have d: "devices db' = update_rows P ?f (devices db)" and s: "set (sessions db') \<subseteq> set (sessions db)"
    and u: "users db' = users db" by (auto simp: revoke_rows_Inr)
  have "map fst (dev_view db') = map fst (dev_view db)"
    by (auto simp: dev_view_def d update_rows_def device_core_def)
  moreover have "owners db' = owners db"
    by (auto simp: owners_def dev_view_def d update_rows_def device_core_def image_image image_iff)
  moreover have "active_devices v db' \<le> active_devices v db" for v
    unfolding active_devices_def dev_view_def d using revoked_core [of P] assms(2) by blast
  then have "active_devices v db' \<le> 3" for v
    using assms(1) unfolding accounts_inv_def by (meson le_trans)
  moreover have "logins db' \<subseteq> logins db" using s by (auto simp: logins_def)
  ultimately show ?thesis
    using assms(1) unfolding accounts_inv_def u by auto
qed

lemma accounts_login:
  assumes "accounts_inv db" "verifyChallenge sha256 vf cfg proof old now token db = Inr (ses, db')"
  shows "accounts_inv db'"
proof -
  from assms(2) obtain d kept platform where d: "challenged_device proof (sha256 (CP_Nonce proof)) now db = Some d"
    and kept: "drop_session old (d_user d) (CP_DeviceID proof) (sessions db) = Inr kept"
    and db': "users db' = users db" "devices db' = touch_device (CP_DeviceID proof) platform now (devices db)"
      "\<exists>s. sessions db' = kept @ [s] \<and> s_device s = CP_DeviceID proof \<and> s_user s = d_user d"
    by (rule verifyChallenge_Inr) simp
  have dv: "dev_view db' = dev_view db" by (simp add: dev_view_def db')
  from d have "d \<in> set (devices db)" "d_id d = CP_DeviceID proof"
    by (auto simp: challenged_device_def find_Some_iff split: if_splits)
  then have "(CP_DeviceID proof, d_user d) \<in> owners db"
    by (force simp: owners_def dev_view_def device_core_def)
  moreover have "set kept \<subseteq> set (sessions db)" by (rule drop_session_subset [OF kept])
  ultimately have "logins db' \<subseteq> logins db \<union> owners db"
    using db'(3) unfolding logins_def by fastforce
  from accounts_frame [OF db'(1) dv this assms(1)] show ?thesis .
qed

lemma pushOperation_tables:
  assumes "pushOperation sha256 vf cfg pr now op db = Inr (res, db')"
  shows "users db' = users db" "devices db' = devices db" "sessions db' = sessions db" "challenges db' = challenges db"
    "keybags db' = keybags db" "memberships db' = memberships db" "key_envelopes db' = key_envelopes db" "invites db' = invites db"
    "snapshots db' = snapshots db" "snapshot_acks db' = snapshot_acks db" "key_transitions db' = key_transitions db"
  using assms by (auto elim!: pushOperation_Inr store_operation_Inr simp: set_latest_def)

interpretation accounts: served_invariant sha256 vf cfg "\<lambda>_. True" accounts_inv for sha256 vf cfg
proof
  fix db c assume inv: "accounts_inv db"
  show "accounts_inv (serve sha256 vf cfg c db)"
  proof (cases c)
    case (CallRegister r now)
    show ?thesis unfolding CallRegister serve.simps using inv by (blast intro: commit_keeps accounts_Register)
  next
    case (CallAddDevice pr d name key now)
    show ?thesis unfolding CallAddDevice serve.simps using inv by (blast intro: commit_keeps accounts_AddDevice)
  next
    case (CallVerifyChallenge p now token)
    show ?thesis unfolding CallVerifyChallenge serve.simps VerifyChallenge_def using inv by (blast intro: commit_keeps accounts_login)
  next
    case (CallRefreshSession pr p now token)
    show ?thesis unfolding CallRefreshSession serve.simps
      using inv by (rule commit_keeps) (auto simp: RefreshSession_def intro: accounts_login [OF inv] split: if_splits)
  next
    case (CallRevokeDevice pr d now)
    show ?thesis unfolding CallRevokeDevice serve.simps using inv
      by (rule commit_keeps) (metis accounts_revoke [OF inv] revoke_Inr)
  next
    case (CallAdminRevokeDevice d now)
    show ?thesis unfolding CallAdminRevokeDevice serve.simps using inv
      by (rule commit_keeps) (metis accounts_revoke [OF inv] revoke_Inr)
  next
    case (CallPushOperations pr ops now)
    have "accounts_inv db'" if "accounts_inv db1" "pushOperation sha256 vf cfg pr now op db1 = Inr (res, db')" for op res db1 db'
      using that by (intro accounts_frame [OF _ _ _ that(1)]) (auto simp: pushOperation_tables dev_view_def logins_def)
    then show ?thesis
      unfolding CallPushOperations serve.simps using inv by (blast intro: commit_keeps PushOperations_keeps)
  next
    case (CallCreateInvite name ttl now i code)
    show ?thesis unfolding CallCreateInvite serve.simps by (rule accounts_commit [OF _ inv]) (auto simp: dev_view_def dest!: CreateInvite_Inr)
  next
    case (CallIssueChallenge d scope now i nonce)
    show ?thesis unfolding CallIssueChallenge serve.simps by (rule accounts_commit [OF _ inv]) (auto simp: dev_view_def dest!: IssueChallenge_Inr(1))
  next
    case (CallPurgeExpiredAuthRecords now)
    show ?thesis unfolding CallPurgeExpiredAuthRecords serve.simps by (rule accounts_commit [OF _ inv]) (auto simp: dev_view_def PurgeExpiredAuthRecords_def)
  next
    case (CallDeleteSession h)
    show ?thesis unfolding CallDeleteSession serve.simps by (rule accounts_commit [OF _ inv]) (auto simp: dev_view_def DeleteSession_def)
  next
    case (CallPutKeybag pr v k now)
    show ?thesis unfolding CallPutKeybag serve.simps by (rule accounts_commit [OF _ inv]) (auto simp: dev_view_def dest!: PutKeybag_Inr)
  next
    case (CallCreateWorkspace pr ws key env now)
    show ?thesis unfolding CallCreateWorkspace serve.simps by (rule accounts_commit [OF _ inv]) (auto simp: dev_view_def insert_owned_workspace_Inr dest!: CreateWorkspace_Inr)
  next
    case (CallAddMember pr ws user key env now)
    show ?thesis unfolding CallAddMember serve.simps by (rule accounts_commit [OF _ inv]) (auto simp: dev_view_def dest!: AddMember_Inr)
  next
    case (CallRevokeMember pr ws user now)
    show ?thesis unfolding CallRevokeMember serve.simps by (rule accounts_commit [OF _ inv]) (auto simp: dev_view_def dest!: RevokeMember_Inr)
  next
    case (CallRotateWorkspaceKey pr ws key envs sig now)
    show ?thesis unfolding CallRotateWorkspaceKey serve.simps by (rule accounts_commit [OF _ inv]) (auto simp: dev_view_def dest!: RotateWorkspaceKey_Inr(2))
  next
    case (CallPutSnapshot pr sn now)
    show ?thesis unfolding CallPutSnapshot serve.simps by (rule accounts_commit [OF _ inv]) (auto simp: dev_view_def dest!: PutSnapshot_Inr)
  next
    case (CallAcknowledgeSnapshot pr ack now)
    show ?thesis unfolding CallAcknowledgeSnapshot serve.simps by (rule accounts_commit [OF _ inv]) (auto simp: dev_view_def dest!: AcknowledgeSnapshot_Inr)
  next
    case (CallCompactWorkspace ws now dry)
    show ?thesis unfolding CallCompactWorkspace serve.simps by (rule accounts_commit [OF _ inv]) (auto simp: dev_view_def elim!: CompactWorkspace_Inr)
  qed
qed

section \<open>The operation log\<close>

text \<open>
  The log depends on these columns only: the counters of a workspace, the operations, and the
  base of each snapshot.
\<close>

definition ws_log :: "workspace_row \<Rightarrow> string \<times> int \<times> int \<times> int" where
  "ws_log w = (w_id w, w_latest w, w_compacted w, w_epoch w)"

definition op_key :: "operation_row \<Rightarrow> string \<times> int" where
  "op_key r = (o_ws r, o_seq r)"

definition ws_view :: "server_db \<Rightarrow> (string \<times> int \<times> int \<times> int) set" where
  "ws_view db = ws_log ` set (workspaces db)"

definition base_view :: "server_db \<Rightarrow> (string \<times> int) set" where
  "base_view db = (\<lambda>n. (n_ws n, n_base n)) ` set (snapshots db)"

text \<open>
  Above the compaction boundary every sequence up to the latest one is stored exactly once;
  no sequence and no snapshot lies beyond the latest one.
\<close>

definition counters_ok :: "server_db \<Rightarrow> bool" where
  "counters_ok db \<longleftrightarrow> (\<forall>i l c e. (i, l, c, e) \<in> ws_view db \<longrightarrow> 0 \<le> c \<and> c \<le> l \<and> e = 1 \<and>
     (\<forall>s. c < s \<longrightarrow> s \<le> l \<longrightarrow> (i, s) \<in> op_key ` set (operations db)))"

definition below_latest :: "server_db \<Rightarrow> string \<Rightarrow> int \<Rightarrow> bool" where
  "below_latest db i s \<longleftrightarrow> (\<exists>l c e. (i, l, c, e) \<in> ws_view db \<and> s \<le> l)"

definition log_inv :: "server_db \<Rightarrow> bool" where
  "log_inv db \<longleftrightarrow>
     distinct (map w_id (workspaces db)) \<and> distinct (map o_id (operations db)) \<and> distinct (map op_key (operations db)) \<and>
     counters_ok db \<and>
     (\<forall>i s. (i, s) \<in> op_key ` set (operations db) \<longrightarrow> 0 < s \<and> below_latest db i s) \<and>
     (\<forall>i b. (i, b) \<in> base_view db \<longrightarrow> 0 \<le> b \<and> below_latest db i b)"

lemma log_invI:
  assumes "distinct (map w_id (workspaces db))" "distinct (map o_id (operations db))" "distinct (map op_key (operations db))"
    and "counters_ok db"
    and "\<And>i s. (i, s) \<in> op_key ` set (operations db) \<Longrightarrow> 0 < s \<and> below_latest db i s"
    and "\<And>i b. (i, b) \<in> base_view db \<Longrightarrow> 0 \<le> b \<and> below_latest db i b"
  shows "log_inv db"
  unfolding log_inv_def by (intro conjI allI impI) (fact assms(1-4) | drule assms(5,6), simp)+

lemma counters_okI:
  "(\<And>i l c e. (i, l, c, e) \<in> ws_view db \<Longrightarrow> 0 \<le> c \<and> c \<le> l \<and> e = 1 \<and>
     (\<forall>s. c < s \<longrightarrow> s \<le> l \<longrightarrow> (i, s) \<in> op_key ` set (operations db))) \<Longrightarrow> counters_ok db"
  unfolding counters_ok_def by (intro allI impI)

lemma log_invD:
  assumes "log_inv db"
  shows "distinct (map w_id (workspaces db))" "distinct (map o_id (operations db))" "distinct (map op_key (operations db))"
    and "(i, l, c, e) \<in> ws_view db \<Longrightarrow> 0 \<le> c \<and> c \<le> l \<and> e = 1 \<and>
        (\<forall>s. c < s \<longrightarrow> s \<le> l \<longrightarrow> (i, s) \<in> op_key ` set (operations db))"
    and "(i, s) \<in> op_key ` set (operations db) \<Longrightarrow> 0 < s \<and> below_latest db i s"
    and "(i, b) \<in> base_view db \<Longrightarrow> 0 \<le> b \<and> below_latest db i b"
proof -
  have inv: "distinct (map w_id (workspaces db))" "distinct (map o_id (operations db))" "distinct (map op_key (operations db))"
    "counters_ok db" "\<forall>i s. (i, s) \<in> op_key ` set (operations db) \<longrightarrow> 0 < s \<and> below_latest db i s"
    "\<forall>i b. (i, b) \<in> base_view db \<longrightarrow> 0 \<le> b \<and> below_latest db i b"
    using assms unfolding log_inv_def by argo+
  show "distinct (map w_id (workspaces db))" "distinct (map o_id (operations db))" "distinct (map op_key (operations db))"
    by (fact inv)+
  note inv(4)
  then show "(i, l, c, e) \<in> ws_view db \<Longrightarrow> 0 \<le> c \<and> c \<le> l \<and> e = 1 \<and>
        (\<forall>s. c < s \<longrightarrow> s \<le> l \<longrightarrow> (i, s) \<in> op_key ` set (operations db))"
    unfolding counters_ok_def by blast
  show "(i, s) \<in> op_key ` set (operations db) \<Longrightarrow> 0 < s \<and> below_latest db i s"
    "(i, b) \<in> base_view db \<Longrightarrow> 0 \<le> b \<and> below_latest db i b"
    using inv(5,6) by blast+
qed

lemma log_frame:
  assumes a: "map ws_log (workspaces db') = map ws_log (workspaces db)" "operations db' = operations db"
      "base_view db' \<subseteq> base_view db" and inv: "log_inv db"
  shows "log_inv db'"
proof -
  have view: "ws_view db' = ws_view db" unfolding ws_view_def using a(1) by (metis set_map)
  have ids: "map w_id ws = map fst (map ws_log ws)" for ws by (simp add: ws_log_def)
  have "distinct (map w_id (workspaces db'))" unfolding ids a(1) using log_invD(1) [OF inv] unfolding ids .
  moreover have "below_latest db' = below_latest db" by (simp add: below_latest_def view fun_eq_iff)
  ultimately show ?thesis
    using log_invD [OF inv] a(2,3) by (intro log_invI counters_okI) (auto simp: view)
qed

lemma log_commit:
  assumes "\<And>x db'. r = Inr (x, db') \<Longrightarrow> map ws_log (workspaces db') = map ws_log (workspaces db) \<and> operations db' = operations db
      \<and> base_view db' \<subseteq> base_view db"
    and "log_inv db"
  shows "log_inv (commit r db)"
  by (rule commit_keeps) (use assms log_frame in blast)+

lemma log_new_workspace:
  assumes "log_inv db" "insert_owned_workspace ws user key envelope now db0 = Inr db'"
    and "workspaces db0 = workspaces db" "operations db0 = operations db" "snapshots db0 = snapshots db"
  shows "log_inv db'"
proof -
  from assms have "workspaces db' = workspaces db @ [new_workspace ws user key now]" "operations db' = operations db"
    "snapshots db' = snapshots db" and fresh: "ws \<notin> w_id ` set (workspaces db)"
    by (auto simp: insert_owned_workspace_Inr)
  note new = this
  have ws: "ws_view db' = insert (ws, 0, 0, 1) (ws_view db)" and bs: "base_view db' = base_view db"
    by (simp_all add: new ws_view_def base_view_def ws_log_def new_workspace_def)
  have "distinct (map w_id (workspaces db'))" using new log_invD(1) [OF assms(1)] by (simp add: new_workspace_def)
  moreover have "counters_ok db'"
  proof (rule counters_okI)
    fix i l c e assume "(i, l, c, e) \<in> ws_view db'"
    then consider "(i, l, c, e) = (ws, 0, 0, 1)" | "(i, l, c, e) \<in> ws_view db" unfolding ws by blast
    then show "0 \<le> c \<and> c \<le> l \<and> e = 1 \<and> (\<forall>s. c < s \<longrightarrow> s \<le> l \<longrightarrow> (i, s) \<in> op_key ` set (operations db'))"
      using log_invD(4) [OF assms(1)] by cases (simp_all add: new)
  qed
  moreover have "below_latest db i b \<Longrightarrow> below_latest db' i b" for i b
    unfolding below_latest_def ws by blast
  ultimately show ?thesis
    using log_invD(2,3,5,6) [OF assms(1)] by (intro log_invI) (simp_all add: bs new(2))
qed

lemma ws_view_update:
  assumes "distinct (map w_id (workspaces db))" "w \<in> set (workspaces db)"
  shows "ws_log ` set (update_rows (\<lambda>x. w_id x = w_id w) f (workspaces db)) = insert (ws_log (f w)) (ws_view db - {ws_log w})"
proof -
  have eq: "{x \<in> set (workspaces db). w_id x = w_id w} = {w}"
    using assms distinct_key [OF assms(1)] by blast
  have "ws_log ` {x \<in> set (workspaces db). w_id x \<noteq> w_id w} = ws_view db - {ws_log w}"
  proof (rule equalityI; rule subsetI)
    fix t assume "t \<in> ws_log ` {x \<in> set (workspaces db). w_id x \<noteq> w_id w}"
    then show "t \<in> ws_view db - {ws_log w}" by (auto simp: ws_view_def) (simp add: ws_log_def)
  next
    fix t assume "t \<in> ws_view db - {ws_log w}"
    then obtain x where x: "x \<in> set (workspaces db)" "t = ws_log x" "x \<noteq> w" by (auto simp: ws_view_def)
    then have "w_id x \<noteq> w_id w" using eq by blast
    with x show "t \<in> ws_log ` {x \<in> set (workspaces db). w_id x \<noteq> w_id w}" by blast
  qed
  then show ?thesis by (simp add: set_update_rows image_Un eq)
qed

lemma find_ws_Some: "find_ws ws db = Some w \<Longrightarrow> w \<in> set (workspaces db) \<and> w_id w = ws"
  by (auto simp: find_ws_def find_Some_iff)

text \<open>A workspace is determined by its identifier, also in the view.\<close>

lemma ws_view_unique:
  assumes "log_inv db" "(i, l, c, e) \<in> ws_view db" "(i, l', c', e') \<in> ws_view db"
  shows "l = l' \<and> c = c' \<and> e = e'"
  using assms(2,3) distinct_key [OF log_invD(1) [OF assms(1)]] by (auto simp: ws_view_def ws_log_def)

text \<open>Raising the counters of one workspace keeps every bound by them.\<close>

lemma bound_raised:
  assumes "ws_view db' = insert (i0, l', c', e') (ws_view db - {(i0, l, c, e)})" "l \<le> l'" and "below_latest db i b"
  shows "below_latest db' i b"
proof -
  from assms(3) obtain l1 c1 e1 where 1: "(i, l1, c1, e1) \<in> ws_view db" "b \<le> l1" unfolding below_latest_def by blast
  show ?thesis
  proof (cases "(i, l1, c1, e1) = (i0, l, c, e)")
    case True
    with 1 assms(2) have "i = i0" "b \<le> l'" by auto
    then show ?thesis unfolding below_latest_def assms(1) by blast
  next
    case False
    with 1 show ?thesis unfolding below_latest_def assms(1) by blast
  qed
qed

lemma log_store:
  assumes inv: "log_inv db" and w: "w \<in> set (workspaces db)"
    and r: "o_ws r = w_id w" "o_seq r = w_latest w + 1" "o_id r \<notin> o_id ` set (operations db)"
    and ops: "operations db' = operations db @ [r]"
    and ws: "workspaces db' = update_rows (\<lambda>x. w_id x = w_id w) (\<lambda>x. x\<lparr>w_latest := o_seq r\<rparr>) (workspaces db)"
    and sn: "snapshots db' = snapshots db"
  shows "log_inv db'"
proof -
  have old: "distinct (map w_id (workspaces db))" "distinct (map o_id (operations db))" "distinct (map op_key (operations db))"
    by (rule log_invD [OF inv])+
  have tuple: "(w_id w, w_latest w, w_compacted w, w_epoch w) \<in> ws_view db"
    using w by (force simp: ws_view_def ws_log_def)
  have view: "ws_view db' = insert (w_id w, w_latest w + 1, w_compacted w, w_epoch w)
      (ws_view db - {(w_id w, w_latest w, w_compacted w, w_epoch w)})"
    using ws_view_update [OF old(1) w, of "\<lambda>x. x\<lparr>w_latest := o_seq r\<rparr>"] r(2) by (simp add: ws_view_def ws ws_log_def)
  have base: "base_view db' = base_view db" by (simp add: base_view_def sn)
  have wi: "0 \<le> w_compacted w" "w_compacted w \<le> w_latest w" "w_epoch w = 1"
    "\<And>s. w_compacted w < s \<Longrightarrow> s \<le> w_latest w \<Longrightarrow> (w_id w, s) \<in> op_key ` set (operations db)"
    using log_invD(4) [OF inv tuple] by blast+
  have keys: "op_key ` set (operations db') = insert (w_id w, w_latest w + 1) (op_key ` set (operations db))"
    by (simp add: ops op_key_def r)
  have "(w_id w, w_latest w + 1) \<notin> op_key ` set (operations db)"
  proof
    assume "(w_id w, w_latest w + 1) \<in> op_key ` set (operations db)"
    then obtain l c e where "(w_id w, l, c, e) \<in> ws_view db" "w_latest w + 1 \<le> l"
      using log_invD(5) [OF inv] unfolding below_latest_def by blast
    with ws_view_unique [OF inv _ tuple] show False by force
  qed
  then have d: "distinct (map op_key (operations db'))" using old by (simp add: ops op_key_def r)
  show ?thesis
  proof (rule log_invI)
    show "distinct (map w_id (workspaces db'))" using old by (simp add: ws map_update_rows)
    show "distinct (map o_id (operations db'))" using old r(3) by (simp add: ops)
    show "distinct (map op_key (operations db'))" by (rule d)
    show "counters_ok db'"
    proof (rule counters_okI)
      fix i l c e assume t: "(i, l, c, e) \<in> ws_view db'"
      show "0 \<le> c \<and> c \<le> l \<and> e = 1 \<and> (\<forall>s. c < s \<longrightarrow> s \<le> l \<longrightarrow> (i, s) \<in> op_key ` set (operations db'))"
      proof (cases "(i, l, c, e) = (w_id w, w_latest w + 1, w_compacted w, w_epoch w)")
        case True
        have "s = w_latest w + 1 \<or> s \<le> w_latest w" if "s \<le> w_latest w + 1" for s using that by linarith
        with True wi show ?thesis unfolding keys by auto
      next
        case False
        with t have "(i, l, c, e) \<in> ws_view db" unfolding view by blast
        from log_invD(4) [OF inv this] show ?thesis unfolding keys by blast
      qed
    qed
    show "0 < s \<and> below_latest db' i s" if "(i, s) \<in> op_key ` set (operations db')" for i s
    proof (cases "(i, s) = (w_id w, w_latest w + 1)")
      case True
      with wi show ?thesis unfolding below_latest_def view by auto
    next
      case False
      with that have "(i, s) \<in> op_key ` set (operations db)" unfolding keys by blast
      from log_invD(5) [OF inv this] bound_raised [OF view] show ?thesis by simp
    qed
    show "0 \<le> b \<and> below_latest db' i b" if "(i, b) \<in> base_view db'" for i b
      using that log_invD(6) [OF inv] bound_raised [OF view] unfolding base by simp
  qed
qed

lemma log_push:
  assumes "log_inv db" "pushOperation sha256 vf cfg pr now op db = Inr (res, db')"
  shows "log_inv db'"
proof -
  from assms(2) obtain payload where "store_operation sha256 op payload now db = Inr (res, db')" by (rule pushOperation_Inr)
  then show ?thesis
  proof (cases rule: store_operation_Inr)
    case duplicate
    with assms(1) show ?thesis by simp
  next
    case (new w r)
    from find_ws_Some [OF new(2)] have w: "w \<in> set (workspaces db)" "w_id w = SO_WorkspaceID op" by auto
    show ?thesis
      by (rule log_store [OF assms(1) w(1), of r])
         (use new w in \<open>auto simp: stored_row_def set_latest_def list_ex_iff\<close>)
  qed
qed

lemma log_compact:
  assumes inv: "log_inv db" and n: "n \<in> set (snapshots db)"
    and ops: "operations db' = filter (\<lambda>r. \<not> (o_ws r = n_ws n \<and> o_seq r \<le> n_base n \<and> P r)) (operations db)"
    and ws: "workspaces db' = update_rows (\<lambda>w. w_id w = n_ws n)
      (\<lambda>w. w\<lparr>w_compaction_snapshot := i, w_compacted := max (w_compacted w) (n_base n)\<rparr>) (workspaces db)"
    and sn: "snapshots db' = snapshots db"
  shows "log_inv db'"
proof -
  have "(n_ws n, n_base n) \<in> base_view db" using n by (auto simp: base_view_def)
  from log_invD(6) [OF inv this] obtain l c e where b: "0 \<le> n_base n" "(n_ws n, l, c, e) \<in> ws_view db" "n_base n \<le> l"
    unfolding below_latest_def by blast
  from b(2) obtain w where w: "w \<in> set (workspaces db)" "w_id w = n_ws n" "w_latest w = l" "w_compacted w = c" "w_epoch w = e"
    by (auto simp: ws_view_def ws_log_def)
  have tuple: "ws_log w = (n_ws n, l, c, e)" by (simp add: ws_log_def w)
  have view: "ws_view db' = insert (n_ws n, l, max c (n_base n), e) (ws_view db - {(n_ws n, l, c, e)})"
    using ws_view_update [OF log_invD(1) [OF inv] w(1), unfolded tuple w(2)] w by (simp add: ws_view_def [of db'] ws ws_log_def)
  have base: "base_view db' = base_view db" by (simp add: base_view_def sn)
  have keep: "(i, s) \<in> op_key ` set (operations db')"
    if "(i, s) \<in> op_key ` set (operations db)" "i = n_ws n \<longrightarrow> n_base n < s" for i s
    using that unfolding ops by (auto simp: op_key_def image_iff)
  have sub: "op_key ` set (operations db') \<subseteq> op_key ` set (operations db)" unfolding ops by auto
  have raised: "below_latest db i s \<Longrightarrow> below_latest db' i s" for i s by (rule bound_raised [OF view]) simp_all
  show ?thesis
  proof (rule log_invI)
    show "distinct (map w_id (workspaces db'))" using log_invD(1) [OF inv] by (simp add: ws map_update_rows)
    show "distinct (map o_id (operations db'))" "distinct (map op_key (operations db'))"
      using log_invD(2,3) [OF inv] by (simp_all add: ops distinct_map_filter)
    show "counters_ok db'"
    proof (rule counters_okI)
      fix i l' c' e' assume t: "(i, l', c', e') \<in> ws_view db'"
      show "0 \<le> c' \<and> c' \<le> l' \<and> e' = 1 \<and> (\<forall>s. c' < s \<longrightarrow> s \<le> l' \<longrightarrow> (i, s) \<in> op_key ` set (operations db'))"
      proof (cases "(i, l', c', e') = (n_ws n, l, max c (n_base n), e)")
        case True
        with log_invD(4) [OF inv b(2)] b keep show ?thesis by auto
      next
        case False
        with t have old: "(i, l', c', e') \<in> ws_view db" "(i, l', c', e') \<noteq> (n_ws n, l, c, e)" unfolding view by blast+
        with ws_view_unique [OF inv b(2)] have "i \<noteq> n_ws n" by blast
        with log_invD(4) [OF inv old(1)] keep show ?thesis by simp
      qed
    qed
    show "0 < s \<and> below_latest db' i s" if "(i, s) \<in> op_key ` set (operations db')" for i s
      using log_invD(5) [OF inv] sub that raised by blast
    show "0 \<le> b \<and> below_latest db' i b" if "(i, b) \<in> base_view db'" for i b
      using that log_invD(6) [OF inv] raised unfolding base by blast
  qed
qed

lemma log_snapshot:
  assumes inv: "log_inv db" and w: "find_ws ws db = Some w" and n: "n_ws n = ws" "0 \<le> n_base n" "n_base n \<le> w_latest w"
  shows "log_inv (db\<lparr>snapshots := snapshots db @ [n]\<rparr>)" (is "log_inv ?db")
proof -
  have same: "ws_view ?db = ws_view db" "op_key ` set (operations ?db) = op_key ` set (operations db)" by (simp_all add: ws_view_def)
  have base: "base_view ?db = insert (ws, n_base n) (base_view db)" by (simp add: base_view_def n)
  have "(ws, w_latest w, w_compacted w, w_epoch w) \<in> ws_view db"
    using find_ws_Some [OF w] by (force simp: ws_view_def ws_log_def)
  then have "below_latest db ws (n_base n)" unfolding below_latest_def using n by blast
  moreover have "below_latest ?db = below_latest db" by (simp add: below_latest_def same fun_eq_iff)
  ultimately show ?thesis
    using log_invD [OF inv] n(2) by (intro log_invI counters_okI) (auto simp: same base)
qed

interpretation log: served_invariant sha256 vf cfg "\<lambda>_. True" log_inv for sha256 vf cfg
proof
  fix db c assume inv: "log_inv db"
  show "log_inv (serve sha256 vf cfg c db)"
  proof (cases c)
    case (CallRegister r now)
    have "log_inv db'" if "Register sha256 cfg r now db = Inr (x, db')" for x db'
      using that by (rule Register_Inr) (rule log_new_workspace [OF inv], assumption, simp_all)
    then show ?thesis unfolding CallRegister serve.simps using inv by (blast intro: commit_keeps)
  next
    case (CallCreateWorkspace pr ws key env now)
    show ?thesis unfolding CallCreateWorkspace serve.simps using inv
      by (rule commit_keeps) (drule CreateWorkspace_Inr, erule log_new_workspace [OF inv], simp_all)
  next
    case (CallPushOperations pr ops now)
    show ?thesis unfolding CallPushOperations serve.simps using inv by (blast intro: commit_keeps PushOperations_keeps log_push)
  next
    case (CallPutSnapshot pr sn now)
    show ?thesis unfolding CallPutSnapshot serve.simps using inv
      by (rule commit_keeps) (auto simp: snapshot_of_def intro!: log_snapshot [OF inv] dest!: PutSnapshot_Inr)
  next
    case (CallCompactWorkspace ws now dry)
    have "log_inv db'" if "CompactWorkspace ws now dry db = Inr (x, db')" for x db'
      using that
    proof (cases rule: CompactWorkspace_Inr)
      case (compacted n boundary)
      then show ?thesis by (intro log_compact [OF inv compacted(1)]) simp_all
    qed (simp add: inv)
    then show ?thesis unfolding CallCompactWorkspace serve.simps using inv by (blast intro: commit_keeps)
  next
    case (CallRotateWorkspaceKey pr ws key envs sig now)
    show ?thesis unfolding CallRotateWorkspaceKey serve.simps
      by (rule log_commit [OF _ inv]) (auto simp: map_update_rows ws_log_def base_view_def dest!: RotateWorkspaceKey_Inr(2))
  next
    case (CallAcknowledgeSnapshot pr ack now)
    have "base_view (db\<lparr>snapshot_acks := acks, snapshots := (if b then update_rows (\<lambda>n. n_id n = AK_SnapshotID ack)
           (\<lambda>n. n\<lparr>n_eligible := f n\<rparr>) (snapshots db) else snapshots db)\<rparr>) = base_view db" for acks b f
      by (simp add: base_view_def image_update_rows)
    then show ?thesis unfolding CallAcknowledgeSnapshot serve.simps
      by (intro log_commit [OF _ inv]) (drule AcknowledgeSnapshot_Inr, force)
  next
    case (CallAddDevice pr d name key now)
    show ?thesis unfolding CallAddDevice serve.simps by (rule log_commit [OF _ inv]) (auto simp: base_view_def dest!: AddDevice_Inr)
  next
    case (CallVerifyChallenge p now token)
    show ?thesis unfolding CallVerifyChallenge serve.simps VerifyChallenge_def
      by (rule log_commit [OF _ inv]) (auto simp: base_view_def elim!: verifyChallenge_Inr)
  next
    case (CallRefreshSession pr p now token)
    show ?thesis unfolding CallRefreshSession serve.simps
      by (rule log_commit [OF _ inv]) (auto simp: base_view_def RefreshSession_def elim!: verifyChallenge_Inr split: if_splits)
  next
    case (CallRevokeDevice pr d now)
    show ?thesis unfolding CallRevokeDevice serve.simps
      by (rule log_commit [OF _ inv]) (auto simp: base_view_def RevokeDevice_def revoke_rows_Inr err_simps split: if_splits)
  next
    case (CallAdminRevokeDevice d now)
    show ?thesis unfolding CallAdminRevokeDevice serve.simps
      by (rule log_commit [OF _ inv]) (auto simp: base_view_def AdminRevokeDevice_def revoke_rows_Inr err_simps split: if_splits)
  next
    case (CallCreateInvite name ttl now i code)
    show ?thesis unfolding CallCreateInvite serve.simps by (rule log_commit [OF _ inv]) (auto simp: base_view_def dest!: CreateInvite_Inr)
  next
    case (CallIssueChallenge d scope now i nonce)
    show ?thesis unfolding CallIssueChallenge serve.simps by (rule log_commit [OF _ inv]) (auto simp: base_view_def dest!: IssueChallenge_Inr(1))
  next
    case (CallPurgeExpiredAuthRecords now)
    show ?thesis unfolding CallPurgeExpiredAuthRecords serve.simps by (rule log_commit [OF _ inv]) (auto simp: base_view_def PurgeExpiredAuthRecords_def)
  next
    case (CallDeleteSession h)
    show ?thesis unfolding CallDeleteSession serve.simps by (rule log_commit [OF _ inv]) (auto simp: base_view_def DeleteSession_def)
  next
    case (CallPutKeybag pr v k now)
    show ?thesis unfolding CallPutKeybag serve.simps by (rule log_commit [OF _ inv]) (auto simp: base_view_def dest!: PutKeybag_Inr)
  next
    case (CallAddMember pr ws user key env now)
    show ?thesis unfolding CallAddMember serve.simps by (rule log_commit [OF _ inv]) (auto simp: base_view_def dest!: AddMember_Inr)
  next
    case (CallRevokeMember pr ws user now)
    show ?thesis unfolding CallRevokeMember serve.simps by (rule log_commit [OF _ inv]) (auto simp: base_view_def dest!: RevokeMember_Inr)
  qed
qed

end
