(* ===== verification/Server_Access.thy ===== *)
theory Server_Access
  imports Server_Invariants
begin

text \<open>
  Access rights after every history of server calls: each active member holds an envelope of
  the current workspace key, a revoked device stays locked out, and a challenge that was
  answered (or dropped) cannot be answered again.
\<close>

section \<open>Envelopes of the current key\<close>

definition key_view :: "server_db \<Rightarrow> (string \<times> string) set" where
  "key_view db = (\<lambda>w. (w_id w, w_key w)) ` set (workspaces db)"

definition member_view :: "server_db \<Rightarrow> (string \<times> string) set" where
  "member_view db = mem_key ` set (filter (\<lambda>m. m_revoked m = None) (memberships db))"

definition needed_view :: "server_db \<Rightarrow> (string \<times> string \<times> string) set" where
  "needed_view db = {(i, u, k). (i, u) \<in> member_view db \<and> (i, k) \<in> key_view db}"

definition key_inv :: "server_db \<Rightarrow> bool" where
  "key_inv db \<longleftrightarrow> distinct (map w_id (workspaces db)) \<and> fst ` mem_key ` set (memberships db) \<subseteq> w_id ` set (workspaces db) \<and>
     needed_view db \<subseteq> env_key ` set (key_envelopes db)"

lemma needed_viewI:
  "(\<And>i u k. (i, u) \<in> member_view db \<Longrightarrow> (i, k) \<in> key_view db \<Longrightarrow> (i, u, k) \<in> S) \<Longrightarrow> needed_view db \<subseteq> S"
  unfolding needed_view_def by blast

lemma needed_viewD:
  "key_inv db \<Longrightarrow> (i, u) \<in> member_view db \<Longrightarrow> (i, k) \<in> key_view db \<Longrightarrow> (i, u, k) \<in> env_key ` set (key_envelopes db)"
  unfolding key_inv_def needed_view_def by blast

lemma key_frame:
  assumes "map w_id (workspaces db') = map w_id (workspaces db)" "key_view db' \<subseteq> key_view db"
    and "mem_key ` set (memberships db') \<subseteq> mem_key ` set (memberships db)" "member_view db' \<subseteq> member_view db"
    and "env_key ` set (key_envelopes db) \<subseteq> env_key ` set (key_envelopes db')" "key_inv db"
  shows "key_inv db'"
proof -
  have "w_id ` set (workspaces db') = w_id ` set (workspaces db)" using arg_cong [OF assms(1), of set] by simp
  moreover have "fst ` mem_key ` set (memberships db') \<subseteq> fst ` mem_key ` set (memberships db)" by (rule image_mono [OF assms(3)])
  moreover have "needed_view db' \<subseteq> needed_view db" using assms(2,4) unfolding needed_view_def by blast
  ultimately show ?thesis using assms(1,5,6) unfolding key_inv_def by (metis order_trans)
qed

lemma key_commit:
  assumes "\<And>x db'. r = Inr (x, db') \<Longrightarrow> map (\<lambda>w. (w_id w, w_key w)) (workspaces db') = map (\<lambda>w. (w_id w, w_key w)) (workspaces db) \<and>
      memberships db' = memberships db \<and> key_envelopes db' = key_envelopes db"
    and "key_inv db"
  shows "key_inv (commit r db)"
proof (rule commit_keeps)
  fix x db' assume "r = Inr (x, db')"
  note same = assms(1) [OF this]
  have ids: "map w_id ws = map fst (map (\<lambda>w. (w_id w, w_key w)) ws)" for ws by simp
  show "key_inv db'"
  proof (rule key_frame [OF _ _ _ _ _ assms(2)])
    show "map w_id (workspaces db') = map w_id (workspaces db)" unfolding ids by (simp only: same)
    have "set (map (\<lambda>w. (w_id w, w_key w)) (workspaces db')) = set (map (\<lambda>w. (w_id w, w_key w)) (workspaces db))"
      by (simp only: same)
    then show "key_view db' \<subseteq> key_view db" by (simp add: key_view_def)
  qed (use same in \<open>simp_all add: member_view_def\<close>)
qed (rule assms(2))

lemma key_new_workspace:
  assumes inv: "key_inv db" and new: "insert_owned_workspace ws user key envelope now db0 = Inr db'"
    and db0: "workspaces db0 = workspaces db" "memberships db0 = memberships db" "key_envelopes db0 = key_envelopes db"
  shows "key_inv db'"
proof -
  from new db0 have fresh: "ws \<notin> w_id ` set (workspaces db)" and w: "workspaces db' = workspaces db @ [new_workspace ws user key now]"
    and m: "memberships db' = memberships db @ [new_member ws user ''owner'' now]"
    and e: "key_envelopes db' = key_envelopes db @ [new_envelope ws user key envelope now]"
    by (auto simp: insert_owned_workspace_Inr)
  have kv: "key_view db' = insert (ws, key) (key_view db)" by (simp add: key_view_def w new_workspace_def)
  have mv: "member_view db' = insert (ws, user) (member_view db)" by (simp add: member_view_def m new_member_def mem_key_def)
  have ev: "env_key ` set (key_envelopes db') = insert (ws, user, key) (env_key ` set (key_envelopes db))"
    by (simp add: e env_key_def new_envelope_def)
  have "ws \<notin> fst ` mem_key ` set (memberships db)" using inv fresh unfolding key_inv_def by blast
  moreover have "fst ` member_view db \<subseteq> fst ` mem_key ` set (memberships db)" unfolding member_view_def by (intro image_mono) auto
  ultimately have "(ws, u) \<notin> member_view db" for u by (metis fst_conv image_eqI subset_iff)
  moreover have "(ws, k) \<notin> key_view db" for k using fresh by (auto simp: key_view_def)
  ultimately have "needed_view db' \<subseteq> env_key ` set (key_envelopes db')"
    using needed_viewD [OF inv] unfolding ev by (intro needed_viewI) (auto simp: kv mv)
  moreover have "distinct (map w_id (workspaces db'))" using inv fresh by (simp add: key_inv_def w new_workspace_def)
  moreover have "fst ` mem_key ` set (memberships db') \<subseteq> w_id ` set (workspaces db')"
    using inv by (auto simp: key_inv_def w m new_workspace_def new_member_def mem_key_def)
  ultimately show ?thesis unfolding key_inv_def by blast
qed

lemma key_AddMember:
  assumes inv: "key_inv db" and add: "AddMember cfg pr ws user key envelope now db = Inr (x, db')"
  shows "key_inv db'"
proof -
  from AddMember_Inr [OF add] obtain w ms es where w: "find_ws ws db = Some w" "w_key w = key"
    and db': "db' = db\<lparr>memberships := ms, key_envelopes := es\<rparr>"
    and es: "env_key ` set es = insert (ws, user, key) (env_key ` set (key_envelopes db))"
    and ms: "ms = update_rows (\<lambda>m. mem_key m = (ws, user)) (\<lambda>m. m\<lparr>m_revoked := None\<rparr>) (memberships db) \<or>
       ms = memberships db @ [new_member ws user ''member'' now] \<and> (ws, user) \<notin> mem_key ` set (memberships db)"
    by (elim exE conjE) (rule that; assumption)
  from find_ws_Some [OF w(1)] have ws: "w \<in> set (workspaces db)" "w_id w = ws" by auto
  have keys: "mem_key ` set ms \<subseteq> insert (ws, user) (mem_key ` set (memberships db))"
  proof -
    have "mem_key ` set (update_rows (\<lambda>m. mem_key m = (ws, user)) (\<lambda>m. m\<lparr>m_revoked := None\<rparr>) (memberships db)) =
        mem_key ` set (memberships db)"
      by (rule image_update_rows) (simp add: mem_key_def)
    moreover have "mem_key ` set (memberships db @ [new_member ws user ''member'' now]) = insert (ws, user) (mem_key ` set (memberships db))"
      by (simp add: mem_key_def new_member_def)
    ultimately show ?thesis using ms by (elim disjE conjE) (simp_all only: subset_insertI order_refl)
  qed
  have mv: "member_view db' \<subseteq> insert (ws, user) (member_view db)"
  proof
    fix t assume "t \<in> member_view db'"
    then obtain m where m: "m \<in> set ms" "m_revoked m = None" "t = mem_key m" by (auto simp: member_view_def db')
    from ms have "m \<in> set (memberships db) \<or> mem_key m = (ws, user)"
    proof
      assume "ms = update_rows (\<lambda>m. mem_key m = (ws, user)) (\<lambda>m. m\<lparr>m_revoked := None\<rparr>) (memberships db)"
      with m(1) have "m \<in> set (update_rows (\<lambda>m. mem_key m = (ws, user)) (\<lambda>m. m\<lparr>m_revoked := None\<rparr>) (memberships db))" by simp
      then consider "m \<in> set (memberships db)" | r where "mem_key r = (ws, user)" "m = r\<lparr>m_revoked := None\<rparr>"
        unfolding set_update_rows by blast
      then show ?thesis by cases (simp_all add: mem_key_def)
    next
      assume "ms = memberships db @ [new_member ws user ''member'' now] \<and> (ws, user) \<notin> mem_key ` set (memberships db)"
      with m(1) show ?thesis by (auto simp: mem_key_def new_member_def)
    qed
    with m(2,3) show "t \<in> insert (ws, user) (member_view db)" by (auto simp: member_view_def)
  qed
  have kv: "key_view db' = key_view db" by (simp add: key_view_def db')
  have "distinct (map w_id (workspaces db))" using inv unfolding key_inv_def by simp
  note unique = distinct_key [OF this ws(1)]
  have key: "k = key" if "(ws, k) \<in> key_view db" for k
  proof -
    from that obtain y where y: "y \<in> set (workspaces db)" "w_id y = ws" "w_key y = k" by (auto simp: key_view_def)
    from unique [OF y(1)] y(2,3) ws(2) w(2) show ?thesis by simp
  qed
  have "needed_view db' \<subseteq> env_key ` set es"
  proof (rule needed_viewI)
    fix i u k assume u: "(i, u) \<in> member_view db'" and k: "(i, k) \<in> key_view db'"
    from subsetD [OF mv u] show "(i, u, k) \<in> env_key ` set es"
    proof
      assume "(i, u) = (ws, user)"
      with k key [of k] show ?thesis unfolding es kv by simp
    next
      assume "(i, u) \<in> member_view db"
      from needed_viewD [OF inv this] k show ?thesis unfolding es kv by simp
    qed
  qed
  moreover have "fst ` mem_key ` set ms \<subseteq> w_id ` set (workspaces db)"
  proof -
    have "fst ` mem_key ` set ms \<subseteq> insert ws (fst ` mem_key ` set (memberships db))" using image_mono [OF keys, of fst] by simp
    moreover have "fst ` mem_key ` set (memberships db) \<subseteq> w_id ` set (workspaces db)" using inv unfolding key_inv_def by simp
    moreover have "ws \<in> w_id ` set (workspaces db)" using ws by blast
    ultimately show ?thesis by blast
  qed
  moreover have "distinct (map w_id (workspaces db))" using inv unfolding key_inv_def by simp
  moreover have tables: "workspaces db' = workspaces db" "memberships db' = ms" "key_envelopes db' = es" by (simp_all add: db')
  ultimately show ?thesis unfolding key_inv_def tables by (intro conjI)
qed

lemma key_RotateWorkspaceKey:
  assumes inv: "key_inv db" and rot: "RotateWorkspaceKey cfg pr ws key envs sig now db = Inr (x, db')"
  shows "key_inv db'"
proof -
  from RotateWorkspaceKey_Inr(2) [OF rot] obtain es ts where
    db': "db' = db\<lparr>workspaces := update_rows (\<lambda>w. w_id w = ws) (\<lambda>w. w\<lparr>w_key := key\<rparr>) (workspaces db),
       key_envelopes := es, key_transitions := ts\<rparr>"
    and es: "env_key ` set es = (\<lambda>i. (ws, KE_UserID i, key)) ` set envs \<union> env_key ` set (key_envelopes db)"
    by (elim exE conjE) (rule that; assumption)
  have mv: "member_view db' = member_view db" by (simp add: member_view_def db')
  have kv: "(i, k) \<in> key_view db' \<Longrightarrow> i = ws \<and> k = key \<or> i \<noteq> ws \<and> (i, k) \<in> key_view db" for i k
    by (auto simp: key_view_def db' set_update_rows)
  have "u \<in> set (active_members ws db)" if "(ws, u) \<in> member_view db" for u
    using that by (force simp: member_view_def active_members_def mem_key_def)
  with RotateWorkspaceKey_Inr(1) [OF rot] have cover: "u \<in> KE_UserID ` set envs" if "(ws, u) \<in> member_view db" for u
    using that by blast
  have "(i, u, k) \<in> env_key ` set es" if m: "(i, u) \<in> member_view db" and k: "(i, k) \<in> key_view db'" for i u k
  proof (cases "i = ws")
    case True
    with kv [OF k] cover [of u] m show ?thesis unfolding es by auto
  next
    case False
    with kv [OF k] needed_viewD [OF inv m] show ?thesis unfolding es by blast
  qed
  then have "needed_view db' \<subseteq> env_key ` set es" by (intro needed_viewI) (simp_all add: mv)
  moreover have "map w_id (workspaces db') = map w_id (workspaces db)" by (simp add: db' map_update_rows)
  moreover have "w_id ` set (workspaces db') = w_id ` set (workspaces db)" by (simp add: db' image_update_rows)
  ultimately show ?thesis using inv unfolding key_inv_def by (simp add: db')
qed

lemma key_RevokeMember:
  assumes "key_inv db" "RevokeMember pr ws user now db = Inr (x, db')"
  shows "key_inv db'"
  unfolding RevokeMember_Inr [OF assms(2)]
  by (rule key_frame [OF _ _ _ _ _ assms(1)])
     (auto simp: key_view_def member_view_def set_update_rows mem_key_def)

lemma key_push:
  assumes "key_inv db" "pushOperation sha256 vf cfg pr now op db = Inr (res, db')"
  shows "key_inv db'"
proof -
  have "map (\<lambda>w. (w_id w, w_key w)) (workspaces db') = map (\<lambda>w. (w_id w, w_key w)) (workspaces db)"
    using assms(2) by (auto elim!: pushOperation_Inr store_operation_Inr simp: set_latest_def map_update_rows)
  with key_commit [of "Inr (res, db')" db] assms show ?thesis by (simp add: pushOperation_tables [OF assms(2)])
qed

interpretation keys: served_invariant sha256 vf cfg "\<lambda>_. True" key_inv for sha256 vf cfg
proof
  fix db c assume inv: "key_inv db"
  show "key_inv (serve sha256 vf cfg c db)"
  proof (cases c)
    case (CallRegister r now)
    have "key_inv db'" if "Register sha256 cfg r now db = Inr (x, db')" for x db'
      using that by (rule Register_Inr) (rule key_new_workspace [OF inv], assumption, simp_all)
    then show ?thesis unfolding CallRegister serve.simps using inv by (blast intro: commit_keeps)
  next
    case (CallCreateWorkspace pr ws key env now)
    show ?thesis unfolding CallCreateWorkspace serve.simps using inv
      by (rule commit_keeps) (drule CreateWorkspace_Inr, erule key_new_workspace [OF inv], simp_all)
  next
    case (CallAddMember pr ws user key env now)
    show ?thesis unfolding CallAddMember serve.simps using inv by (blast intro: commit_keeps key_AddMember)
  next
    case (CallRevokeMember pr ws user now)
    show ?thesis unfolding CallRevokeMember serve.simps using inv by (blast intro: commit_keeps key_RevokeMember)
  next
    case (CallRotateWorkspaceKey pr ws key envs sig now)
    show ?thesis unfolding CallRotateWorkspaceKey serve.simps using inv by (blast intro: commit_keeps key_RotateWorkspaceKey)
  next
    case (CallPushOperations pr ops now)
    show ?thesis unfolding CallPushOperations serve.simps using inv by (blast intro: commit_keeps PushOperations_keeps key_push)
  next
    case (CallCompactWorkspace ws now dry)
    show ?thesis unfolding CallCompactWorkspace serve.simps
      by (rule key_commit [OF _ inv]) (auto simp: map_update_rows elim!: CompactWorkspace_Inr)
  next
    case (CallPutSnapshot pr sn now)
    show ?thesis unfolding CallPutSnapshot serve.simps by (rule key_commit [OF _ inv]) (auto dest!: PutSnapshot_Inr)
  next
    case (CallAcknowledgeSnapshot pr ack now)
    show ?thesis unfolding CallAcknowledgeSnapshot serve.simps by (rule key_commit [OF _ inv]) (auto dest!: AcknowledgeSnapshot_Inr)
  next
    case (CallAddDevice pr d name key now)
    show ?thesis unfolding CallAddDevice serve.simps by (rule key_commit [OF _ inv]) (auto dest!: AddDevice_Inr(4))
  next
    case (CallVerifyChallenge p now token)
    show ?thesis unfolding CallVerifyChallenge serve.simps VerifyChallenge_def
      by (rule key_commit [OF _ inv]) (auto elim!: verifyChallenge_Inr)
  next
    case (CallRefreshSession pr p now token)
    show ?thesis unfolding CallRefreshSession serve.simps
      by (rule key_commit [OF _ inv]) (auto simp: RefreshSession_def elim!: verifyChallenge_Inr split: if_splits)
  next
    case (CallRevokeDevice pr d now)
    show ?thesis unfolding CallRevokeDevice serve.simps
      by (rule key_commit [OF _ inv]) (auto simp: RevokeDevice_def revoke_rows_Inr err_simps)
  next
    case (CallAdminRevokeDevice d now)
    show ?thesis unfolding CallAdminRevokeDevice serve.simps
      by (rule key_commit [OF _ inv]) (auto simp: AdminRevokeDevice_def revoke_rows_Inr err_simps)
  next
    case (CallCreateInvite name ttl now i code)
    show ?thesis unfolding CallCreateInvite serve.simps by (rule key_commit [OF _ inv]) (auto dest!: CreateInvite_Inr)
  next
    case (CallIssueChallenge d scope now i nonce)
    show ?thesis unfolding CallIssueChallenge serve.simps by (rule key_commit [OF _ inv]) (auto dest!: IssueChallenge_Inr(1))
  next
    case (CallPurgeExpiredAuthRecords now)
    show ?thesis unfolding CallPurgeExpiredAuthRecords serve.simps by (rule key_commit [OF _ inv]) (auto simp: PurgeExpiredAuthRecords_def)
  next
    case (CallDeleteSession h)
    show ?thesis unfolding CallDeleteSession serve.simps by (rule key_commit [OF _ inv]) (auto simp: DeleteSession_def)
  next
    case (CallPutKeybag pr v k now)
    show ?thesis unfolding CallPutKeybag serve.simps by (rule key_commit [OF _ inv]) (auto dest!: PutKeybag_Inr)
  qed
qed

section \<open>Revoked devices\<close>

text \<open>A device that is registered and revoked, with no session and no challenge left.\<close>

definition off_rows :: "string \<Rightarrow> device_row list \<Rightarrow> bool" where
  "off_rows d rows \<longleftrightarrow> d \<in> d_id ` set rows \<and> (\<forall>x\<in>set rows. d_id x = d \<longrightarrow> d_revoked x \<noteq> None)"

definition device_off :: "string \<Rightarrow> server_db \<Rightarrow> bool" where
  "device_off d db \<longleftrightarrow> off_rows d (devices db) \<and> d \<notin> s_device ` set (sessions db) \<and> d \<notin> c_device ` set (challenges db)"

lemma off_rows_core: "off_rows d rows \<longleftrightarrow> d \<in> fst ` set (map device_core rows) \<and>
    (\<forall>(i, u, k, t)\<in>set (map device_core rows). i = d \<longrightarrow> t \<noteq> None)"
  by (simp add: off_rows_def device_core_def image_image)

lemma off_rows_touch: "off_rows d (touch_device i platform now rows) \<longleftrightarrow> off_rows d rows"
  unfolding off_rows_core by simp

lemma off_rows_revoke: "off_rows d rows \<Longrightarrow> off_rows d (update_rows P (\<lambda>x. x\<lparr>d_revoked := Some t\<rparr>) rows)"
  unfolding off_rows_def by (simp add: image_update_rows) (auto simp: set_update_rows)

lemma off_frame:
  assumes "device_off d db" "devices db' = devices db" "set (sessions db') \<subseteq> set (sessions db)"
    and "set (challenges db') \<subseteq> set (challenges db)"
  shows "device_off d db'"
  using assms(1) image_mono [OF assms(3), of s_device] image_mono [OF assms(4), of c_device]
  unfolding device_off_def assms(2) by blast

lemma off_commit:
  assumes "\<And>x db'. r = Inr (x, db') \<Longrightarrow> devices db' = devices db \<and> set (sessions db') \<subseteq> set (sessions db) \<and>
      set (challenges db') \<subseteq> set (challenges db)"
    and "device_off d db"
  shows "device_off d (commit r db)"
  by (rule commit_keeps) (use assms off_frame in blast)+

lemma off_add:
  assumes "device_off d db" "devices db' = devices db @ [x]" "\<not> list_ex (\<lambda>y. d_id y = d_id x) (devices db)"
    and "sessions db' = sessions db" "challenges db' = challenges db"
  shows "device_off d db'"
  using assms unfolding device_off_def off_rows_def by (auto simp: list_ex_iff)

lemma off_login:
  assumes off: "device_off d db" and v: "verifyChallenge sha256 vf cfg p old now token db = Inr (ses, db')"
  shows "device_off d db'"
  using v
proof (rule verifyChallenge_Inr)
  fix x kept platform
  assume x: "challenged_device p (sha256 (CP_Nonce p)) now db = Some x"
    and kept: "drop_session old (d_user x) (CP_DeviceID p) (sessions db) = Inr kept"
    and db': "db' = db\<lparr>devices := touch_device (CP_DeviceID p) platform now (devices db),
       challenges := update_rows (\<lambda>c. c_id c = CP_ChallengeID p \<and> c_consumed c = None)
         (\<lambda>c. c\<lparr>c_consumed := Some (unixNow now)\<rparr>) (challenges db),
       sessions := kept @ [\<lparr>s_token_hash = sha256 (str_bytes token), s_user = d_user x, s_device = CP_DeviceID p,
         s_scope = CP_Scope p, s_expires = unixNow (now + SessionTTL cfg), s_created = unixNow now\<rparr>]\<rparr>"
  from x have "CP_DeviceID p \<noteq> d"
    using off by (auto simp: challenged_device_def device_off_def off_rows_def find_Some_iff split: if_splits)
  moreover have "off_rows d (devices db')" using off by (simp add: device_off_def off_rows_touch db')
  moreover have "c_device ` set (challenges db') = c_device ` set (challenges db)" by (simp add: db' image_update_rows)
  ultimately show ?thesis
    using off image_mono [OF drop_session_subset [OF kept], of s_device] unfolding device_off_def by (auto simp: db')
qed

lemma off_revoke:
  assumes off: "device_off d db" and r: "RevokeDevice pr device now db = Inr (x, db') \<or> AdminRevokeDevice device now db = Inr (x, db')"
  shows "device_off d db'"
proof -
  from r obtain P where "revoke_rows P device now db = Inr (x, db')" by (rule revoke_Inr)
  then have db': "devices db' = update_rows P (\<lambda>x. x\<lparr>d_revoked := Some (unixNow now)\<rparr>) (devices db)"
    "set (sessions db') \<subseteq> set (sessions db)" "set (challenges db') \<subseteq> set (challenges db)" by (auto simp: revoke_rows_Inr)
  from off image_mono [OF db'(2), of s_device] image_mono [OF db'(3), of c_device] show ?thesis
    unfolding device_off_def db'(1) by (blast intro: off_rows_revoke)
qed

interpretation revoked: served_invariant sha256 vf cfg "\<lambda>_. True" "device_off d" for sha256 vf cfg d
proof
  fix db c assume off: "device_off d db"
  show "device_off d (serve sha256 vf cfg c db)"
  proof (cases c)
    case (CallRegister r now)
    have "device_off d db'" if "Register sha256 cfg r now db = Inr (x, db')" for x db'
      using that by (rule Register_Inr)
        (rule off_add [OF off, of _ "registered_device r now"], auto simp: insert_owned_workspace_Inr registered_device_def)
    then show ?thesis unfolding CallRegister serve.simps using off by (blast intro: commit_keeps)
  next
    case (CallAddDevice pr i name key now)
    have "device_off d db'" if "AddDevice pr i name key now db = Inr (x, db')" for x db'
      using AddDevice_Inr [OF that] by (intro off_add [OF off, of _ "added_device pr i name key now"]) (simp_all add: added_device_def)
    then show ?thesis unfolding CallAddDevice serve.simps using off by (blast intro: commit_keeps)
  next
    case (CallIssueChallenge i scope now cid nonce)
    have "device_off d db'" if "IssueChallenge sha256 cfg i scope now cid nonce db = Inr (x, db')" for x db'
    proof -
      have "i \<noteq> d" using IssueChallenge_Inr(2) [OF that] off by (auto simp: device_off_def off_rows_def list_ex_iff)
      with IssueChallenge_Inr(1) [OF that] off show ?thesis by (auto simp: device_off_def)
    qed
    then show ?thesis unfolding CallIssueChallenge serve.simps using off by (blast intro: commit_keeps)
  next
    case (CallVerifyChallenge p now token)
    show ?thesis unfolding CallVerifyChallenge serve.simps VerifyChallenge_def using off by (blast intro: commit_keeps off_login)
  next
    case (CallRefreshSession pr p now token)
    show ?thesis unfolding CallRefreshSession serve.simps
      using off by (rule commit_keeps) (auto simp: RefreshSession_def intro: off_login [OF off] split: if_splits)
  next
    case (CallRevokeDevice pr i now)
    show ?thesis unfolding CallRevokeDevice serve.simps using off by (blast intro: commit_keeps off_revoke)
  next
    case (CallAdminRevokeDevice i now)
    show ?thesis unfolding CallAdminRevokeDevice serve.simps using off by (blast intro: commit_keeps off_revoke)
  next
    case (CallPushOperations pr ops now)
    have "device_off d db'" if "device_off d db1" "pushOperation sha256 vf cfg pr now op db1 = Inr (res, db')" for op res db1 db'
      by (rule off_frame [OF that(1)]) (simp_all add: pushOperation_tables [OF that(2)])
    then show ?thesis unfolding CallPushOperations serve.simps using off by (blast intro: commit_keeps PushOperations_keeps)
  next
    case (CallCreateInvite name ttl now i code)
    show ?thesis unfolding CallCreateInvite serve.simps by (rule off_commit [OF _ off]) (auto dest!: CreateInvite_Inr)
  next
    case (CallPurgeExpiredAuthRecords now)
    show ?thesis unfolding CallPurgeExpiredAuthRecords serve.simps by (rule off_commit [OF _ off]) (auto simp: PurgeExpiredAuthRecords_def)
  next
    case (CallDeleteSession h)
    show ?thesis unfolding CallDeleteSession serve.simps by (rule off_commit [OF _ off]) (auto simp: DeleteSession_def)
  next
    case (CallPutKeybag pr v k now)
    show ?thesis unfolding CallPutKeybag serve.simps by (rule off_commit [OF _ off]) (auto dest!: PutKeybag_Inr)
  next
    case (CallCreateWorkspace pr ws key env now)
    show ?thesis unfolding CallCreateWorkspace serve.simps
      by (rule off_commit [OF _ off]) (auto simp: insert_owned_workspace_Inr dest!: CreateWorkspace_Inr)
  next
    case (CallAddMember pr ws user key env now)
    show ?thesis unfolding CallAddMember serve.simps by (rule off_commit [OF _ off]) (auto dest!: AddMember_Inr)
  next
    case (CallRevokeMember pr ws user now)
    show ?thesis unfolding CallRevokeMember serve.simps by (rule off_commit [OF _ off]) (auto dest!: RevokeMember_Inr)
  next
    case (CallRotateWorkspaceKey pr ws key envs sig now)
    show ?thesis unfolding CallRotateWorkspaceKey serve.simps by (rule off_commit [OF _ off]) (auto dest!: RotateWorkspaceKey_Inr(2))
  next
    case (CallPutSnapshot pr sn now)
    show ?thesis unfolding CallPutSnapshot serve.simps by (rule off_commit [OF _ off]) (auto dest!: PutSnapshot_Inr)
  next
    case (CallAcknowledgeSnapshot pr ack now)
    show ?thesis unfolding CallAcknowledgeSnapshot serve.simps by (rule off_commit [OF _ off]) (auto dest!: AcknowledgeSnapshot_Inr)
  next
    case (CallCompactWorkspace ws now dry)
    show ?thesis unfolding CallCompactWorkspace serve.simps by (rule off_commit [OF _ off]) (auto elim!: CompactWorkspace_Inr)
  qed
qed

section \<open>Answered challenges\<close>

text \<open>No open challenge with this identifier is stored; only issuing one under the same identifier could change that.\<close>

definition challenge_spent :: "string \<Rightarrow> server_db \<Rightarrow> bool" where
  "challenge_spent i db \<longleftrightarrow> list_all (\<lambda>c. c_id c = i \<longrightarrow> c_consumed c \<noteq> None) (challenges db)"

fun issues :: "string \<Rightarrow> server_call \<Rightarrow> bool" where
  "issues i (CallIssueChallenge d scope now j nonce) \<longleftrightarrow> i = j"
| "issues i _ \<longleftrightarrow> False"

lemma spent_commit:
  assumes "\<And>x db'. r = Inr (x, db') \<Longrightarrow> set (challenges db') \<subseteq> set (challenges db)" "challenge_spent i db"
  shows "challenge_spent i (commit r db)"
  by (rule commit_keeps) (use assms in \<open>auto simp: challenge_spent_def list_all_iff\<close>)

lemma spent_update: "list_all Q rows \<Longrightarrow> (\<And>c. Q (f c)) \<Longrightarrow> list_all Q (update_rows P f rows)"
  by (auto simp: update_rows_def list_all_iff)

lemma spent_login:
  assumes "challenge_spent i db" "verifyChallenge sha256 vf cfg p old now token db = Inr (ses, db')"
  shows "challenge_spent i db'"
  using assms(2) by (rule verifyChallenge_Inr) (use assms(1) in \<open>simp add: challenge_spent_def spent_update\<close>)

lemma login_spends:
  assumes "verifyChallenge sha256 vf cfg p old now token db = Inr (ses, db')"
  shows "challenge_spent (CP_ChallengeID p) db'"
  using assms by (rule verifyChallenge_Inr) (auto simp: challenge_spent_def list_all_iff update_rows_def)

interpretation spent: served_invariant sha256 vf cfg "\<lambda>c. \<not> issues i c" "challenge_spent i" for sha256 vf cfg i
proof
  fix db c assume sp: "challenge_spent i db" and ok: "\<not> issues i c"
  show "challenge_spent i (serve sha256 vf cfg c db)"
  proof (cases c)
    case (CallIssueChallenge d scope now j nonce)
    with ok have "i \<noteq> j" by simp
    then have "challenge_spent i db'" if "IssueChallenge sha256 cfg d scope now j nonce db = Inr (x, db')" for x db'
      using IssueChallenge_Inr(1) [OF that] sp by (auto simp: challenge_spent_def)
    then show ?thesis unfolding CallIssueChallenge serve.simps using sp by (blast intro: commit_keeps)
  next
    case (CallVerifyChallenge p now token)
    show ?thesis unfolding CallVerifyChallenge serve.simps VerifyChallenge_def using sp by (blast intro: commit_keeps spent_login)
  next
    case (CallRefreshSession pr p now token)
    show ?thesis unfolding CallRefreshSession serve.simps
      using sp by (rule commit_keeps) (auto simp: RefreshSession_def intro: spent_login [OF sp] split: if_splits)
  next
    case (CallRegister r now)
    show ?thesis unfolding CallRegister serve.simps
      by (rule spent_commit [OF _ sp]) (auto simp: insert_owned_workspace_Inr elim!: Register_Inr)
  next
    case (CallAddDevice pr d name key now)
    show ?thesis unfolding CallAddDevice serve.simps by (rule spent_commit [OF _ sp]) (auto dest!: AddDevice_Inr(4))
  next
    case (CallRevokeDevice pr d now)
    show ?thesis unfolding CallRevokeDevice serve.simps
      by (rule spent_commit [OF _ sp]) (auto simp: RevokeDevice_def revoke_rows_Inr err_simps)
  next
    case (CallAdminRevokeDevice d now)
    show ?thesis unfolding CallAdminRevokeDevice serve.simps
      by (rule spent_commit [OF _ sp]) (auto simp: AdminRevokeDevice_def revoke_rows_Inr err_simps)
  next
    case (CallPushOperations pr ops now)
    have "challenge_spent i db'" if "challenge_spent i db1" "pushOperation sha256 vf cfg pr now op db1 = Inr (res, db')" for op res db1 db'
      using that(1) by (simp add: challenge_spent_def pushOperation_tables [OF that(2)])
    then show ?thesis unfolding CallPushOperations serve.simps using sp by (blast intro: commit_keeps PushOperations_keeps)
  next
    case (CallCreateInvite name ttl now j code)
    show ?thesis unfolding CallCreateInvite serve.simps by (rule spent_commit [OF _ sp]) (auto dest!: CreateInvite_Inr)
  next
    case (CallPurgeExpiredAuthRecords now)
    show ?thesis unfolding CallPurgeExpiredAuthRecords serve.simps by (rule spent_commit [OF _ sp]) (auto simp: PurgeExpiredAuthRecords_def)
  next
    case (CallDeleteSession h)
    show ?thesis unfolding CallDeleteSession serve.simps by (rule spent_commit [OF _ sp]) (auto simp: DeleteSession_def)
  next
    case (CallPutKeybag pr v k now)
    show ?thesis unfolding CallPutKeybag serve.simps by (rule spent_commit [OF _ sp]) (auto dest!: PutKeybag_Inr)
  next
    case (CallCreateWorkspace pr ws key env now)
    show ?thesis unfolding CallCreateWorkspace serve.simps
      by (rule spent_commit [OF _ sp]) (auto simp: insert_owned_workspace_Inr dest!: CreateWorkspace_Inr)
  next
    case (CallAddMember pr ws user key env now)
    show ?thesis unfolding CallAddMember serve.simps by (rule spent_commit [OF _ sp]) (auto dest!: AddMember_Inr)
  next
    case (CallRevokeMember pr ws user now)
    show ?thesis unfolding CallRevokeMember serve.simps by (rule spent_commit [OF _ sp]) (auto dest!: RevokeMember_Inr)
  next
    case (CallRotateWorkspaceKey pr ws key envs sig now)
    show ?thesis unfolding CallRotateWorkspaceKey serve.simps by (rule spent_commit [OF _ sp]) (auto dest!: RotateWorkspaceKey_Inr(2))
  next
    case (CallPutSnapshot pr sn now)
    show ?thesis unfolding CallPutSnapshot serve.simps by (rule spent_commit [OF _ sp]) (auto dest!: PutSnapshot_Inr)
  next
    case (CallAcknowledgeSnapshot pr ack now)
    show ?thesis unfolding CallAcknowledgeSnapshot serve.simps by (rule spent_commit [OF _ sp]) (auto dest!: AcknowledgeSnapshot_Inr)
  next
    case (CallCompactWorkspace ws now dry)
    show ?thesis unfolding CallCompactWorkspace serve.simps by (rule spent_commit [OF _ sp]) (auto elim!: CompactWorkspace_Inr)
  qed
qed

end
