(* ===== verification/Server_Log.thy ===== *)
theory Server_Log
  imports Server_Access
begin

text \<open>
  What clients may rely on when they push to and pull from the operation log, for every
  history of server calls: stored operations are well-formed, a page continues the cursor
  without gap, repeating a push changes nothing, and compaction removes only what an
  acknowledged snapshot covers.
\<close>

section \<open>Stored operations are well-formed\<close>

definition row_ok :: "ServerConfig \<Rightarrow> operation_row \<Rightarrow> bool" where
  "row_ok cfg r \<longleftrightarrow> validateID (o_id r) = Inr () \<and> validateID (o_ws r) = Inr () \<and> validateID (o_device r) = Inr () \<and>
     validateOpaqueID (o_key r) = Inr () \<and> 0 \<le> o_physical r \<and> length (o_nonce r) = 24 \<and> length (o_signature r) = SignatureSize \<and>
     AEADTagBytes \<le> length (o_ciphertext r) \<and> int (length (o_ciphertext r)) \<le> MaxOperationBytes cfg"

definition rows_ok :: "ServerConfig \<Rightarrow> server_db \<Rightarrow> bool" where
  "rows_ok cfg db \<longleftrightarrow> list_all (row_ok cfg) (operations db)"

lemma validateOperation_Inr:
  assumes "validateOperation cfg op now = Inr ()"
  shows "validateID (SO_OpID op) = Inr ()" "validateID (SO_WorkspaceID op) = Inr ()" "validateID (SO_DeviceID op) = Inr ()"
    "validateOpaqueID (SO_KeyID op) = Inr ()" "length (SO_Nonce op) = 24" "length (SO_Signature op) = SignatureSize"
    "AEADTagBytes \<le> length (SO_Ciphertext op)" "int (length (SO_Ciphertext op)) \<le> MaxOperationBytes cfg"
  using assms unfolding validateOperation_def by (simp_all add: err_simps not_less split: if_splits)

text \<open>A call adds only rows of validated operations.\<close>

definition pushed_row :: "(bytes \<Rightarrow> bytes) \<Rightarrow> ServerConfig \<Rightarrow> ServerOperation list \<Rightarrow> int \<Rightarrow> operation_row \<Rightarrow> bool" where
  "pushed_row sha256 cfg ops now r \<longleftrightarrow> (\<exists>op payload sequence. op \<in> set ops \<and> validateOperation cfg op now = Inr () \<and>
     0 \<le> SO_HLCPhysicalMS op \<and> r = stored_row sha256 op payload sequence now)"

lemma pushOperation_rows:
  assumes "pushOperation sha256 vf cfg pr now op db = Inr (res, db')" "r \<in> set (operations db')"
  shows "r \<in> set (operations db) \<or> pushed_row sha256 cfg [op] now r"
proof -
  from assms(1) obtain payload where v: "validateOperation cfg op now = Inr ()" and s: "store_operation sha256 op payload now db = Inr (res, db')"
    by (rule pushOperation_Inr)
  from s show ?thesis
  proof (cases rule: store_operation_Inr)
    case (new w r')
    with assms(2) have "r \<in> set (operations db) \<or> r = stored_row sha256 op payload (w_latest w + 1) now" by auto
    with v new(8) show ?thesis unfolding pushed_row_def by auto
  qed (use assms(2) in simp)
qed

lemma push_all_rows:
  "push_all sha256 vf cfg pr now ops db = Inr (rs, db') \<Longrightarrow> r \<in> set (operations db') \<Longrightarrow>
   r \<in> set (operations db) \<or> pushed_row sha256 cfg ops now r"
proof (induction ops arbitrary: db rs)
  case (Cons op ops)
  then obtain res db1 rs' where 1: "pushOperation sha256 vf cfg pr now op db = Inr (res, db1)"
    and 2: "push_all sha256 vf cfg pr now ops db1 = Inr (rs', db')" by (auto simp: err_simps)
  from Cons.IH [OF 2 Cons.prems(2)] pushOperation_rows [OF 1, of r] show ?case unfolding pushed_row_def by auto
qed simp

lemma operations_commit: "r \<in> set (operations (commit x db)) \<Longrightarrow> (\<And>y db'. x = Inr (y, db') \<Longrightarrow> set (operations db') \<subseteq> set (operations db)) \<Longrightarrow>
  r \<in> set (operations db)"
  by (cases x) auto

lemma serve_rows:
  assumes r: "r \<in> set (operations (serve sha256 vf cfg c db))"
  shows "r \<in> set (operations db) \<or> (\<exists>pr ops now. c = CallPushOperations pr ops now \<and> pushed_row sha256 cfg ops now r)"
proof (cases c)
  case (CallPushOperations pr ops now)
  with r show ?thesis
    by (cases "PushOperations sha256 vf cfg pr ops now db")
       (auto simp: PushOperations_def dest: push_all_rows split: if_splits)
next
  case (CallRegister reg now)
  from r have "r \<in> set (operations db)" unfolding CallRegister serve.simps
    by (rule operations_commit) (auto simp: insert_owned_workspace_Inr elim!: Register_Inr)
  then show ?thesis ..
next
  case (CallCreateWorkspace pr ws key env now)
  from r have "r \<in> set (operations db)" unfolding CallCreateWorkspace serve.simps
    by (rule operations_commit) (auto simp: insert_owned_workspace_Inr dest!: CreateWorkspace_Inr)
  then show ?thesis ..
next
  case (CallIssueChallenge d scope now j nonce)
  from r have "r \<in> set (operations db)" unfolding CallIssueChallenge serve.simps
    by (rule operations_commit) (auto dest!: IssueChallenge_Inr(1))
  then show ?thesis ..
next
  case (CallVerifyChallenge p now token)
  from r have "r \<in> set (operations db)" unfolding CallVerifyChallenge serve.simps VerifyChallenge_def
    by (rule operations_commit) (auto elim!: verifyChallenge_Inr)
  then show ?thesis ..
next
  case (CallRefreshSession pr p now token)
  from r have "r \<in> set (operations db)" unfolding CallRefreshSession serve.simps
    by (rule operations_commit) (auto simp: RefreshSession_def elim!: verifyChallenge_Inr split: if_splits)
  then show ?thesis ..
next
  case (CallAddDevice pr d name key now)
  from r have "r \<in> set (operations db)" unfolding CallAddDevice serve.simps
    by (rule operations_commit) (auto dest!: AddDevice_Inr(4))
  then show ?thesis ..
next
  case (CallRevokeDevice pr d now)
  from r have "r \<in> set (operations db)" unfolding CallRevokeDevice serve.simps
    by (rule operations_commit) (auto simp: RevokeDevice_def revoke_rows_Inr err_simps)
  then show ?thesis ..
next
  case (CallAdminRevokeDevice d now)
  from r have "r \<in> set (operations db)" unfolding CallAdminRevokeDevice serve.simps
    by (rule operations_commit) (auto simp: AdminRevokeDevice_def revoke_rows_Inr err_simps)
  then show ?thesis ..
next
  case (CallCreateInvite name ttl now j code)
  from r have "r \<in> set (operations db)" unfolding CallCreateInvite serve.simps
    by (rule operations_commit) (auto dest!: CreateInvite_Inr)
  then show ?thesis ..
next
  case (CallPurgeExpiredAuthRecords now)
  from r have "r \<in> set (operations db)" unfolding CallPurgeExpiredAuthRecords serve.simps
    by (rule operations_commit) (auto simp: PurgeExpiredAuthRecords_def)
  then show ?thesis ..
next
  case (CallDeleteSession h)
  from r have "r \<in> set (operations db)" unfolding CallDeleteSession serve.simps
    by (rule operations_commit) (auto simp: DeleteSession_def)
  then show ?thesis ..
next
  case (CallPutKeybag pr v k now)
  from r have "r \<in> set (operations db)" unfolding CallPutKeybag serve.simps
    by (rule operations_commit) (auto dest!: PutKeybag_Inr)
  then show ?thesis ..
next
  case (CallAddMember pr ws user key env now)
  from r have "r \<in> set (operations db)" unfolding CallAddMember serve.simps
    by (rule operations_commit) (auto dest!: AddMember_Inr)
  then show ?thesis ..
next
  case (CallRevokeMember pr ws user now)
  from r have "r \<in> set (operations db)" unfolding CallRevokeMember serve.simps
    by (rule operations_commit) (auto dest!: RevokeMember_Inr)
  then show ?thesis ..
next
  case (CallRotateWorkspaceKey pr ws key envs sig now)
  from r have "r \<in> set (operations db)" unfolding CallRotateWorkspaceKey serve.simps
    by (rule operations_commit) (auto dest!: RotateWorkspaceKey_Inr(2))
  then show ?thesis ..
next
  case (CallPutSnapshot pr sn now)
  from r have "r \<in> set (operations db)" unfolding CallPutSnapshot serve.simps
    by (rule operations_commit) (auto dest!: PutSnapshot_Inr)
  then show ?thesis ..
next
  case (CallAcknowledgeSnapshot pr ack now)
  from r have "r \<in> set (operations db)" unfolding CallAcknowledgeSnapshot serve.simps
    by (rule operations_commit) (auto dest!: AcknowledgeSnapshot_Inr)
  then show ?thesis ..
next
  case (CallCompactWorkspace ws now dry)
  from r have "r \<in> set (operations db)" unfolding CallCompactWorkspace serve.simps
    by (rule operations_commit) (auto elim!: CompactWorkspace_Inr)
  then show ?thesis ..
qed

lemma stored_row_ok:
  assumes "pushed_row sha256 cfg ops now r"
  shows "row_ok cfg r"
proof -
  from assms obtain op payload sequence where v: "validateOperation cfg op now = Inr ()" "0 \<le> SO_HLCPhysicalMS op"
    and r: "r = stored_row sha256 op payload sequence now" unfolding pushed_row_def by blast
  from validateOperation_Inr [OF v(1)] v(2) show ?thesis by (simp add: row_ok_def r stored_row_def)
qed

interpretation rows: served_invariant sha256 vf cfg "\<lambda>_. True" "rows_ok cfg" for sha256 vf cfg
  by unfold_locales (auto simp: rows_ok_def list_all_iff dest!: serve_rows stored_row_ok)

text \<open>
  A JSON number that does not fit the Go field is refused by the decoder, so a pushed
  timestamp is a 64-bit integer. The stored ones are, too.
\<close>

definition int64_operation :: "ServerOperation \<Rightarrow> bool" where
  "int64_operation op \<longleftrightarrow> - (2 ^ 63) \<le> SO_HLCPhysicalMS op \<and> SO_HLCPhysicalMS op < 2 ^ 63 \<and>
     - (2 ^ 63) \<le> SO_Sequence op \<and> SO_Sequence op < 2 ^ 63"

fun int64_call :: "server_call \<Rightarrow> bool" where
  "int64_call (CallPushOperations pr ops now) = list_all int64_operation ops"
| "int64_call _ = True"

definition int64_rows :: "server_db \<Rightarrow> bool" where
  "int64_rows db \<longleftrightarrow> list_all (\<lambda>r. o_physical r < 2 ^ 63) (operations db)"

interpretation int64: served_invariant sha256 vf cfg int64_call int64_rows for sha256 vf cfg
proof
  fix db c assume ok: "int64_rows db" "int64_call c"
  have "o_physical r < 2 ^ 63" if "r \<in> set (operations (serve sha256 vf cfg c db))" for r
    using serve_rows [OF that] ok
    by (auto simp: int64_rows_def list_all_iff pushed_row_def int64_operation_def stored_row_def)
  then show "int64_rows (serve sha256 vf cfg c db)" by (simp add: int64_rows_def list_all_iff)
qed

section \<open>Size of the signed payload\<close>

lemma len_head: "length dst \<le> n \<Longrightarrow> length (appendCBORHead dst m v) \<le> n + 9"
  by (cases "dst = []") (auto simp: appendCBORHead_append NO_MATCH_def enc_head_eq)

lemma len_uint: "length dst \<le> n \<Longrightarrow> length (appendCBORUint dst v) \<le> n + 9"
  unfolding appendCBORUint_def by (rule len_head)

lemma len_text: "length dst \<le> n \<Longrightarrow> length (appendCBORText dst s) \<le> n + 9 + length s"
  using len_head [of dst n] by (simp add: appendCBORText_def)

lemma len_bytes: "length dst \<le> n \<Longrightarrow> length (appendCBORBytes dst b) \<le> n + 9 + length b"
  using len_head [of dst n] by (simp add: appendCBORBytes_def)

lemma CanonicalOperationSignatureInput_total:
  assumes "OperationSignatureFields_validate f = Inr ()"
  shows "\<exists>e. CanonicalOperationSignatureInput f = Inr e \<and> e \<noteq> [] \<and> length e \<le> 1000 + length (OS_Ciphertext f)"
proof -
  have l: "length (OS_OpID f) = 16" "length (OS_WorkspaceID f) = 16" "length (OS_DeviceID f) = 16" "length (OS_HLCDeviceID f) = 16"
    "length (OS_KeyID f) = 16" "length (OS_Nonce f) = 24" and c: "16 \<le> length (OS_Ciphertext f)"
    using assms by (auto simp: OperationSignatureFields_validate_def split: if_splits)
  from c have ne: "appendCBORBytes dst (OS_Ciphertext f) \<noteq> []" for dst by (auto simp: appendCBORBytes_def)
  have init: "length ([] :: bytes) \<le> 0" by simp
  show ?thesis
    unfolding CanonicalOperationSignatureInput_def assms bind_res.simps Let_def aad_append appendCBORHeader_eq
    by (rule exI, rule conjI, rule refl, rule conjI, rule ne, rule order_trans,
        (rule len_bytes len_text len_uint len_head init)+, simp add: l ProtocolV1_def)
qed

lemma CanonicalSnapshotSignatureInput_total:
  assumes "length (SS_SnapshotID f) = 16" "length (SS_WorkspaceID f) = 16" "length (SS_KeyID f) = 16" "length (SS_CreatorDeviceID f) = 16"
    "SS_HLCDeviceID f = SS_CreatorDeviceID f" "SS_CursorEpoch f \<noteq> 0" "length (SS_Nonce f) = 24" "length (SS_CiphertextHash f) = 32"
    "AEADTagBytes \<le> length (SS_Ciphertext f)" "length (SS_Ciphertext f) \<le> MaxSnapshotCiphertextBytes"
  shows "\<exists>e. CanonicalSnapshotSignatureInput f = Inr e \<and> e \<noteq> [] \<and> length e \<le> 1000 + length (SS_Ciphertext f)"
proof -
  from assms(9) have ne: "appendCBORBytes dst (SS_Ciphertext f) \<noteq> []" for dst by (auto simp: appendCBORBytes_def)
  have init: "length ([] :: bytes) \<le> 0" by simp
  have ok: "\<not> (length (SS_SnapshotID f) \<noteq> 16 \<or> length (SS_WorkspaceID f) \<noteq> 16 \<or>
         length (SS_KeyID f) \<noteq> 16 \<or> length (SS_CreatorDeviceID f) \<noteq> 16 \<or>
         length (SS_HLCDeviceID f) \<noteq> 16 \<or> SS_HLCDeviceID f \<noteq> SS_CreatorDeviceID f \<or>
         SS_CursorEpoch f = 0 \<or> length (SS_Nonce f) \<noteq> XChaCha20NonceBytes \<or> length (SS_CiphertextHash f) \<noteq> 32 \<or>
         length (SS_Ciphertext f) < AEADTagBytes \<or> MaxSnapshotCiphertextBytes < length (SS_Ciphertext f))"
    using assms by simp
  show ?thesis
    unfolding CanonicalSnapshotSignatureInput_def if_not_P [OF ok] Let_def aad_append appendCBORHeader_eq
    by (rule exI, rule conjI, rule refl, rule conjI, rule ne, rule order_trans,
        (rule len_bytes len_text len_uint len_head init)+, simp add: assms ProtocolV1_def)
qed

lemma CanonicalSnapshotAckSignatureInput_total:
  assumes "length (SA_SnapshotID f) = 16" "length (SA_WorkspaceID f) = 16" "length (SA_DeviceID f) = 16" "length (SA_CiphertextHash f) = 32"
  shows "\<exists>e. CanonicalSnapshotAckSignatureInput f = Inr e \<and> e \<noteq> [] \<and> length e \<le> 1000"
proof -
  from assms(4) have ne: "appendCBORBytes dst (SA_CiphertextHash f) \<noteq> []" for dst by (auto simp: appendCBORBytes_def)
  have init: "length ([] :: bytes) \<le> 0" by simp
  have ok: "\<not> (length (SA_SnapshotID f) \<noteq> 16 \<or> length (SA_WorkspaceID f) \<noteq> 16 \<or>
         length (SA_DeviceID f) \<noteq> 16 \<or> length (SA_CiphertextHash f) \<noteq> 32)"
    using assms by simp
  show ?thesis
    unfolding CanonicalSnapshotAckSignatureInput_def if_not_P [OF ok] Let_def aad_append appendCBORHeader_eq
    by (rule exI, rule conjI, rule refl, rule conjI, rule ne, rule order_trans,
        (rule len_bytes len_text len_uint len_head init)+, simp add: assms ProtocolV1_def)
qed

section \<open>Pages\<close>

lemma rows_after_increasing:
  assumes "log_inv db"
  shows "sorted_wrt (<) (map o_seq (rows_after ws cursor db))"
proof -
  let ?rows = "filter (\<lambda>r. o_ws r = ws \<and> cursor < o_seq r) (operations db)"
  have "distinct (map op_key ?rows)" using log_invD(3) [OF assms] by (rule distinct_map_filter)
  moreover have "map op_key ?rows = map (Pair ws) (map o_seq ?rows)" by (simp add: op_key_def)
  ultimately have "distinct (map o_seq ?rows)" using distinct_map [of "Pair ws" "map o_seq ?rows"] by simp
  then have "distinct (map o_seq (rows_after ws cursor db))" by (simp add: rows_after_def distinct_map)
  moreover have "sorted (map o_seq (rows_after ws cursor db))" by (simp add: rows_after_def)
  ultimately show ?thesis by (simp add: strict_sorted_iff)
qed

text \<open>Above the boundary the stored numbers are those up to the latest one; none is above it.\<close>

lemma rows_after_mem:
  assumes inv: "log_inv db" and w: "find_ws ws db = Some w"
  shows "s \<in> set (map o_seq (rows_after ws cursor db)) \<Longrightarrow> cursor < s \<and> s \<le> w_latest w"
    and "cursor < s \<Longrightarrow> w_compacted w < s \<Longrightarrow> s \<le> w_latest w \<Longrightarrow> s \<in> set (map o_seq (rows_after ws cursor db))"
proof -
  from find_ws_Some [OF w] have ws: "w \<in> set (workspaces db)" "w_id w = ws" by auto
  then have view: "(ws, w_latest w, w_compacted w, w_epoch w) \<in> ws_view db" by (force simp: ws_view_def ws_log_def)
  have mem: "s \<in> set (map o_seq (rows_after ws cursor db)) \<longleftrightarrow> cursor < s \<and> (ws, s) \<in> op_key ` set (operations db)"
    by (force simp: rows_after_def op_key_def)
  show "s \<in> set (map o_seq (rows_after ws cursor db))" if "cursor < s" "w_compacted w < s" "s \<le> w_latest w"
    using log_invD(4) [OF inv view] that unfolding mem by simp
  assume "s \<in> set (map o_seq (rows_after ws cursor db))"
  then have s: "cursor < s" "(ws, s) \<in> op_key ` set (operations db)" unfolding mem by auto
  with log_invD(5) [OF inv] obtain l c e where "(ws, l, c, e) \<in> ws_view db" "s \<le> l" unfolding below_latest_def by blast
  with ws_view_unique [OF inv view] s show "cursor < s \<and> s \<le> w_latest w" by blast
qed

lemma increasing_take_last:
  fixes xs :: "'a :: linorder list"
  assumes "sorted_wrt (<) xs" "x \<in> set xs" "take n xs \<noteq> []" "x \<le> last (take n xs)"
  shows "x \<in> set (take n xs)"
proof (rule ccontr)
  assume "x \<notin> set (take n xs)"
  with assms(2) have "x \<in> set (drop n xs)" by (metis Un_iff append_take_drop_id set_append)
  moreover have "sorted_wrt (<) (take n xs @ drop n xs)" using assms(1) by simp
  ultimately have "last (take n xs) < x" using last_in_set [OF assms(3)] unfolding sorted_wrt_append by blast
  with assms(4) show False by simp
qed

lemma rows_after_log:
  assumes inv: "log_inv db" and w: "find_ws ws db = Some w" and c: "w_compacted w \<le> cursor"
  shows "map o_seq (rows_after ws cursor db) = [cursor + 1 .. w_latest w]"
proof (rule sorted_distinct_set_unique)
  from rows_after_increasing [OF inv, of ws cursor]
  show "sorted (map o_seq (rows_after ws cursor db))" "distinct (map o_seq (rows_after ws cursor db))"
    by (simp_all add: strict_sorted_iff)
  show "sorted [cursor + 1 .. w_latest w]" "distinct [cursor + 1 .. w_latest w]" by simp_all
  show "set (map o_seq (rows_after ws cursor db)) = set [cursor + 1 .. w_latest w]"
  proof (rule set_eqI, rule iffI)
    fix s assume "s \<in> set (map o_seq (rows_after ws cursor db))"
    from rows_after_mem(1) [OF inv w this] show "s \<in> set [cursor + 1 .. w_latest w]" by simp
  next
    fix s assume "s \<in> set [cursor + 1 .. w_latest w]"
    then show "s \<in> set (map o_seq (rows_after ws cursor db))" using c by (intro rows_after_mem(2) [OF inv w]) simp_all
  qed
qed

lemma page_rows_prefix: "\<exists>n. page_rows b rs = take n rs"
proof (induction rs arbitrary: b)
  case (Cons r rs)
  from Cons [of "b + int (length (o_ciphertext r))"] obtain n where "page_rows (b + int (length (o_ciphertext r))) rs = take n rs" by blast
  then have "page_rows b (r # rs) = take (if maxOperationBatchCiphertextBytes < b + int (length (o_ciphertext r)) then 0 else Suc n) (r # rs)"
    by simp
  then show ?case by blast
qed simp

lemma page_rows_empty: "page_rows 0 rs = [] \<Longrightarrow> rs \<noteq> [] \<Longrightarrow> maxOperationBatchCiphertextBytes < int (length (o_ciphertext (hd rs)))"
  by (cases rs) (auto split: if_splits)

lemma take_upto: "take n [i .. j] = [i .. min j (i + int n - 1)]"
proof (induction n arbitrary: i)
  case (Suc n)
  then show ?case by (cases "i \<le> j") (simp_all add: upto_rec1 min_def)
qed simp

lemma last_take_upto: "[i .. j] \<noteq> [] \<Longrightarrow> last [i .. j] = (j :: int)"
  by (cases "i \<le> j") (simp_all add: upto_rec2)

lemma epoch_one:
  assumes "log_inv db" "find_ws ws db = Some w"
  shows "w_epoch w = 1" "0 \<le> w_compacted w" "w_compacted w \<le> w_latest w"
proof -
  have "(ws, w_latest w, w_compacted w, w_epoch w) \<in> ws_view db"
    using find_ws_Some [OF assms(2)] by (force simp: ws_view_def ws_log_def)
  from log_invD(4) [OF assms(1) this] show "w_epoch w = 1" "0 \<le> w_compacted w" "w_compacted w \<le> w_latest w" by auto
qed

lemma PullChanges_Inr:
  assumes "PullChanges cfg pr ws cursor limit db1 db2 db3 = Inr ch"
  obtains w rows where "find_ws ws db2 = Some w" "w_compacted w \<le> cursor" "0 \<le> cursor" "0 < limit" "limit \<le> MaxOperationsPerBatch cfg"
    "validateID ws = Inr ()" "isActiveMember (UserID pr) ws db1"
    "rows = page_rows 0 (take (nat limit) (rows_after ws cursor db3))" "rows = [] \<Longrightarrow> cursor \<le> w_latest w"
    "ch = \<lparr>Chg_WorkspaceID = ws, Chg_Cursor = (if rows = [] then cursor else o_seq (last rows)),
      Chg_CursorEpoch = w_epoch w, Chg_Operations = map (row_operation ws) rows\<rparr>"
  using assms by (auto simp: PullChanges_def Let_def err_simps not_less not_le split: if_splits option.splits)

lemma PullChanges_shape:
  assumes inv: "log_inv db2" and p: "PullChanges cfg pr ws cursor limit db1 db2 db3 = Inr ch"
  shows "Chg_CursorEpoch ch = 1" "Chg_WorkspaceID ch = ws" "int (length (Chg_Operations ch)) \<le> limit"
proof -
  from p obtain w2 rows where w2: "find_ws ws db2 = Some w2" and lim: "0 < limit"
    and rows: "rows = page_rows 0 (take (nat limit) (rows_after ws cursor db3))"
    and ch: "ch = \<lparr>Chg_WorkspaceID = ws, Chg_Cursor = (if rows = [] then cursor else o_seq (last rows)),
      Chg_CursorEpoch = w_epoch w2, Chg_Operations = map (row_operation ws) rows\<rparr>"
    by (rule PullChanges_Inr)
  show "Chg_CursorEpoch ch = 1" "Chg_WorkspaceID ch = ws" using epoch_one(1) [OF inv w2] by (simp_all add: ch)
  obtain n where "rows = take n (take (nat limit) (rows_after ws cursor db3))" using page_rows_prefix rows by blast
  then show "int (length (Chg_Operations ch)) \<le> limit" using lim by (simp add: ch)
qed

lemma PullChanges_contiguous:
  assumes inv: "log_inv db2" "log_inv db3" "rows_ok cfg db3" and p: "PullChanges cfg pr ws cursor limit db1 db2 db3 = Inr ch"
    and w: "find_ws ws db3 = Some w" "w_compacted w \<le> cursor"
  shows "map SO_Sequence (Chg_Operations ch) = [cursor + 1 .. Chg_Cursor ch]" "cursor \<le> Chg_Cursor ch" "Chg_CursorEpoch ch = 1"
    "int (length (Chg_Operations ch)) \<le> limit" "Chg_WorkspaceID ch = ws"
    "\<exists>rows. Chg_Operations ch = map (row_operation ws) rows \<and> list_all (row_ok cfg) rows \<and> list_all (\<lambda>r. o_ws r = ws) rows"
    "MaxOperationBytes cfg \<le> maxOperationBatchCiphertextBytes \<Longrightarrow> cursor < w_latest w \<Longrightarrow> Chg_Operations ch \<noteq> []"
proof -
  from p obtain w2 rows where w2: "find_ws ws db2 = Some w2" and lim: "0 < limit"
    and rows: "rows = page_rows 0 (take (nat limit) (rows_after ws cursor db3))"
    and ch: "ch = \<lparr>Chg_WorkspaceID = ws, Chg_Cursor = (if rows = [] then cursor else o_seq (last rows)),
      Chg_CursorEpoch = w_epoch w2, Chg_Operations = map (row_operation ws) rows\<rparr>"
    by (rule PullChanges_Inr)
  note log = rows_after_log [OF inv(2) w]
  from page_rows_prefix [of 0 "take (nat limit) (rows_after ws cursor db3)"] obtain n
    where n: "rows = take n (take (nat limit) (rows_after ws cursor db3))" using rows by blast
  then have "map o_seq rows = take (min n (nat limit)) [cursor + 1 .. w_latest w]" by (simp add: log flip: take_map)
  then have seqs: "map o_seq rows = [cursor + 1 .. min (w_latest w) (cursor + int (min n (nat limit)))]" by (simp add: take_upto)
  have last: "rows \<noteq> [] \<Longrightarrow> o_seq (last rows) = min (w_latest w) (cursor + int (min n (nat limit)))"
    using seqs by (metis last_map last_take_upto map_is_Nil_conv)
  have "map SO_Sequence (Chg_Operations ch) = map o_seq rows" by (simp add: ch row_operation_def)
  also have "\<dots> = [cursor + 1 .. Chg_Cursor ch]" using seqs last by (cases "rows = []") (simp_all add: ch)
  finally show sq: "map SO_Sequence (Chg_Operations ch) = [cursor + 1 .. Chg_Cursor ch]" .
  have "o_seq (last rows) \<in> set [cursor + 1 .. Chg_Cursor ch]" if "rows \<noteq> []"
  proof -
    from that have "o_seq (last rows) \<in> set (map o_seq rows)" by simp
    then show ?thesis using \<open>map o_seq rows = [cursor + 1 .. Chg_Cursor ch]\<close> by metis
  qed
  then show "cursor \<le> Chg_Cursor ch" by (cases "rows = []") (auto simp: ch)
  show "Chg_CursorEpoch ch = 1" "Chg_WorkspaceID ch = ws" "int (length (Chg_Operations ch)) \<le> limit"
    by (rule PullChanges_shape [OF inv(1) p])+
  have "set rows \<subseteq> set (rows_after ws cursor db3)" unfolding n by (auto dest!: in_set_takeD)
  then have "list_all (row_ok cfg) rows \<and> list_all (\<lambda>r. o_ws r = ws) rows"
    using inv(3) by (auto simp: rows_ok_def rows_after_def list_all_iff)
  then show "\<exists>rows. Chg_Operations ch = map (row_operation ws) rows \<and> list_all (row_ok cfg) rows \<and> list_all (\<lambda>r. o_ws r = ws) rows"
    by (intro exI [of _ rows]) (simp add: ch)
  show "Chg_Operations ch \<noteq> []" if "MaxOperationBytes cfg \<le> maxOperationBatchCiphertextBytes" "cursor < w_latest w"
  proof
    assume "Chg_Operations ch = []"
    then have e: "rows = []" by (simp add: ch)
    let ?rs = "take (nat limit) (rows_after ws cursor db3)"
    have "map o_seq (rows_after ws cursor db3) \<noteq> []" using that(2) by (simp add: log)
    then have ne: "?rs \<noteq> []" using lim by simp
    have big: "maxOperationBatchCiphertextBytes < int (length (o_ciphertext (hd ?rs)))"
      by (rule page_rows_empty [OF _ ne]) (use e rows in simp)
    have "hd ?rs \<in> set ?rs" using ne by (rule hd_in_set)
    then have "hd ?rs \<in> set (operations db3)" by (auto simp: rows_after_def dest!: in_set_takeD)
    with inv(3) have "row_ok cfg (hd ?rs)" by (simp add: rows_ok_def list_all_iff)
    then have "int (length (o_ciphertext (hd ?rs))) \<le> MaxOperationBytes cfg" by (simp add: row_ok_def)
    with big that(1) show False by linarith
  qed
qed

text \<open>
  Whatever is committed between the reads, the numbers of a page increase above the cursor, and
  of the operations up to the returned cursor only those at or below the compaction boundary
  can be missing.
\<close>

lemma PullChanges_interleaved:
  assumes inv: "log_inv db3" and p: "PullChanges cfg pr ws cursor limit db1 db2 db3 = Inr ch" and w: "find_ws ws db3 = Some w"
  shows "sorted_wrt (<) (map SO_Sequence (Chg_Operations ch))" "list_all (\<lambda>op. cursor < SO_Sequence op) (Chg_Operations ch)"
    "set [max cursor (w_compacted w) + 1 .. Chg_Cursor ch] \<subseteq> SO_Sequence ` set (Chg_Operations ch)"
proof -
  from p obtain rows where rows: "rows = page_rows 0 (take (nat limit) (rows_after ws cursor db3))"
    and cur: "Chg_Cursor ch = (if rows = [] then cursor else o_seq (last rows))"
    and ops: "map SO_Sequence (Chg_Operations ch) = map o_seq rows"
    by (rule PullChanges_Inr) (simp add: row_operation_def)
  obtain n where n: "rows = take n (rows_after ws cursor db3)"
    using page_rows_prefix [of 0 "take (nat limit) (rows_after ws cursor db3)"] rows by (metis take_take)
  let ?s = "map o_seq (rows_after ws cursor db3)"
  have st: "sorted_wrt (<) ?s" by (rule rows_after_increasing [OF inv])
  then have "sorted_wrt (<) (map o_seq rows)" unfolding n take_map [symmetric] by (rule sorted_wrt_take)
  then show "sorted_wrt (<) (map SO_Sequence (Chg_Operations ch))" by (simp only: ops)
  have "set rows \<subseteq> set (rows_after ws cursor db3)" unfolding n by (rule set_take_subset)
  then have "\<forall>x \<in> set (map o_seq rows). cursor < x" by (auto simp: rows_after_def)
  then have "\<forall>x \<in> set (map SO_Sequence (Chg_Operations ch)). cursor < x" by (simp only: ops)
  then show "list_all (\<lambda>op. cursor < SO_Sequence op) (Chg_Operations ch)" by (simp add: list_all_iff)
  show "set [max cursor (w_compacted w) + 1 .. Chg_Cursor ch] \<subseteq> SO_Sequence ` set (Chg_Operations ch)"
  proof
    fix s assume s: "s \<in> set [max cursor (w_compacted w) + 1 .. Chg_Cursor ch]"
    then have ne: "rows \<noteq> []" and le: "s \<le> o_seq (last rows)" "cursor < s" "w_compacted w < s" using cur by (auto split: if_splits)
    have "last rows \<in> set (rows_after ws cursor db3)" using ne \<open>set rows \<subseteq> set (rows_after ws cursor db3)\<close> by auto
    with le rows_after_mem [OF inv w, of "o_seq (last rows)" cursor] have "s \<le> w_latest w" by force
    with le(2,3) have "s \<in> set ?s" by (intro rows_after_mem(2) [OF inv w])
    then have "s \<in> set (take n ?s)"
      using st ne le(1) increasing_take_last [of ?s s n] by (simp add: n take_map last_map)
    then have "s \<in> set (map SO_Sequence (Chg_Operations ch))" unfolding ops by (simp add: n take_map)
    then show "s \<in> SO_Sequence ` set (Chg_Operations ch)" by simp
  qed
qed

section \<open>Repeated pushes\<close>

text \<open>
  What stays of the operations of some workspaces and of the devices while other calls are
  served: the rows of those workspaces keep their places, and a device keeps its owner and key.
\<close>

definition device_name :: "device_row \<Rightarrow> string \<times> string \<times> bytes" where
  "device_name d = (d_id d, d_user d, d_signing d)"

definition rows_of :: "string set \<Rightarrow> server_db \<Rightarrow> operation_row list" where
  "rows_of W db = filter (\<lambda>r. o_ws r \<in> W) (operations db)"

definition log_extends :: "string set \<Rightarrow> server_db \<Rightarrow> server_db \<Rightarrow> bool" where
  "log_extends W db db' \<longleftrightarrow> prefix (rows_of W db) (rows_of W db') \<and>
     prefix (map device_name (devices db)) (map device_name (devices db'))"

fun compacts_none :: "string set \<Rightarrow> server_call \<Rightarrow> bool" where
  "compacts_none W (CallCompactWorkspace ws now dry) = (dry \<or> ws \<notin> W)"
| "compacts_none W _ = True"

lemma extends_refl [simp]: "log_extends W db db"
  by (simp add: log_extends_def)

lemma extends_trans: "log_extends W a b \<Longrightarrow> log_extends W b c \<Longrightarrow> log_extends W a c"
  unfolding log_extends_def using prefix_order.trans by auto

lemma extends_tables:
  "operations db' = operations db \<Longrightarrow> prefix (map device_name (devices db)) (map device_name (devices db')) \<Longrightarrow> log_extends W db db'"
  by (simp add: log_extends_def rows_of_def)

lemma extends_same: "operations db' = operations db \<Longrightarrow> map device_name (devices db') = map device_name (devices db) \<Longrightarrow> log_extends W db db'"
  by (rule extends_tables) simp_all

lemma extends_commit: "(\<And>x db'. r = Inr (x, db') \<Longrightarrow> log_extends W db db') \<Longrightarrow> log_extends W db (commit r db)"
  by (cases r) auto

lemma core_name: "map device_core rows' = map device_core rows \<Longrightarrow> map device_name rows' = map device_name rows"
proof -
  have n: "map device_name ds = map (\<lambda>(i, u, k, t). (i, u, k)) (map device_core ds)" for ds
    by (simp add: device_name_def device_core_def)
  show "map device_core rows' = map device_core rows \<Longrightarrow> map device_name rows' = map device_name rows" by (simp only: n)
qed

lemma login_extends: "verifyChallenge sha256 vf cfg proof old now token db = Inr (ses, db') \<Longrightarrow> log_extends W db db'"
  by (erule verifyChallenge_Inr) (rule extends_same, simp, rule core_name, simp)

lemma revoke_extends: "revoke_rows P device now db = Inr (x, db') \<Longrightarrow> log_extends W db db'"
  by (rule extends_same) (auto simp: revoke_rows_Inr update_rows_def device_name_def)

lemma push_extends:
  assumes "pushOperation sha256 vf cfg pr now op db = Inr (res, db')"
  shows "log_extends W db db'"
proof -
  from assms obtain payload where "store_operation sha256 op payload now db = Inr (res, db')" by (rule pushOperation_Inr)
  then have "prefix (operations db) (operations db')" by (cases rule: store_operation_Inr) simp_all
  then have "prefix (rows_of W db) (rows_of W db')" unfolding rows_of_def by (auto simp: prefix_def)
  with pushOperation_tables(2) [OF assms] show ?thesis by (simp add: log_extends_def)
qed

lemma push_all_extends: "push_all sha256 vf cfg pr now ops db = Inr (rs, db') \<Longrightarrow> log_extends W db db'"
proof (induction ops arbitrary: db rs)
  case (Cons op ops)
  then show ?case by (auto simp: err_simps intro: extends_trans push_extends)
qed simp

lemma compact_extends:
  assumes "CompactWorkspace ws now dry db = Inr (x, db')" "dry \<or> ws \<notin> W"
  shows "log_extends W db db'"
proof (cases dry)
  case True
  with assms(1) have "db' = db" by (auto simp: CompactWorkspace_def Let_def err_simps split: list.splits)
  then show ?thesis by simp
next
  case False
  with assms have W: "ws \<notin> W" and "CompactWorkspace ws now False db = Inr (x, db')" by auto
  from this(2) have "devices db' = devices db \<and> rows_of W db' = rows_of W db"
  proof (cases rule: CompactWorkspace_Inr)
    case (compacted n boundary)
    with W show ?thesis by (auto simp: rows_of_def intro: filter_cong)
  qed simp
  then show ?thesis by (simp add: log_extends_def)
qed

lemma serve_extends:
  assumes "compacts_none W c"
  shows "log_extends W db (serve sha256 vf cfg c db)"
proof (cases c)
  case (CallPushOperations pr ops now)
  show ?thesis unfolding CallPushOperations serve.simps
    by (rule extends_commit) (auto simp: PushOperations_def intro: push_all_extends split: if_splits)
next
  case (CallCompactWorkspace ws now dry)
  with assms show ?thesis unfolding CallCompactWorkspace serve.simps by (intro extends_commit compact_extends) auto
next
  case (CallRegister reg now)
  show ?thesis unfolding CallRegister serve.simps
    by (rule extends_commit, rule extends_tables) (auto simp: insert_owned_workspace_Inr elim!: Register_Inr)
next
  case (CallCreateWorkspace pr ws key env now)
  show ?thesis unfolding CallCreateWorkspace serve.simps
    by (rule extends_commit, rule extends_same) (auto simp: insert_owned_workspace_Inr dest!: CreateWorkspace_Inr)
next
  case (CallIssueChallenge d scope now j nonce)
  show ?thesis unfolding CallIssueChallenge serve.simps
    by (rule extends_commit, rule extends_same) (auto dest!: IssueChallenge_Inr(1))
next
  case (CallVerifyChallenge p now token)
  show ?thesis unfolding CallVerifyChallenge serve.simps VerifyChallenge_def
    by (rule extends_commit) (rule login_extends)
next
  case (CallRefreshSession pr p now token)
  show ?thesis unfolding CallRefreshSession serve.simps
    by (rule extends_commit) (auto simp: RefreshSession_def intro: login_extends split: if_splits)
next
  case (CallAddDevice pr d name key now)
  show ?thesis unfolding CallAddDevice serve.simps
    by (rule extends_commit, rule extends_tables) (auto dest!: AddDevice_Inr(4))
next
  case (CallRevokeDevice pr d now)
  show ?thesis unfolding CallRevokeDevice serve.simps
    by (rule extends_commit) (auto simp: RevokeDevice_def err_simps intro: revoke_extends)
next
  case (CallAdminRevokeDevice d now)
  show ?thesis unfolding CallAdminRevokeDevice serve.simps
    by (rule extends_commit) (auto simp: AdminRevokeDevice_def err_simps intro: revoke_extends)
next
  case (CallCreateInvite name ttl now j code)
  show ?thesis unfolding CallCreateInvite serve.simps
    by (rule extends_commit, rule extends_same) (auto dest!: CreateInvite_Inr)
next
  case (CallPurgeExpiredAuthRecords now)
  show ?thesis unfolding CallPurgeExpiredAuthRecords serve.simps
    by (rule extends_commit, rule extends_same) (auto simp: PurgeExpiredAuthRecords_def)
next
  case (CallDeleteSession h)
  show ?thesis unfolding CallDeleteSession serve.simps
    by (rule extends_commit, rule extends_same) (auto simp: DeleteSession_def)
next
  case (CallPutKeybag pr v k now)
  show ?thesis unfolding CallPutKeybag serve.simps
    by (rule extends_commit, rule extends_same) (auto dest!: PutKeybag_Inr)
next
  case (CallAddMember pr ws user key env now)
  show ?thesis unfolding CallAddMember serve.simps
    by (rule extends_commit, rule extends_same) (auto dest!: AddMember_Inr)
next
  case (CallRevokeMember pr ws user now)
  show ?thesis unfolding CallRevokeMember serve.simps
    by (rule extends_commit, rule extends_same) (auto dest!: RevokeMember_Inr)
next
  case (CallRotateWorkspaceKey pr ws key envs sig now)
  show ?thesis unfolding CallRotateWorkspaceKey serve.simps
    by (rule extends_commit, rule extends_same) (auto dest!: RotateWorkspaceKey_Inr(2))
next
  case (CallPutSnapshot pr sn now)
  show ?thesis unfolding CallPutSnapshot serve.simps
    by (rule extends_commit, rule extends_same) (auto dest!: PutSnapshot_Inr)
next
  case (CallAcknowledgeSnapshot pr ack now)
  show ?thesis unfolding CallAcknowledgeSnapshot serve.simps
    by (rule extends_commit, rule extends_same) (auto dest!: AcknowledgeSnapshot_Inr)
qed

interpretation extended: served_invariant sha256 vf cfg "compacts_none W" "log_extends W db0" for sha256 vf cfg W db0
  by unfold_locales (blast intro: extends_trans serve_extends)

lemma find_prefix: "prefix xs ys \<Longrightarrow> find P xs = Some x \<Longrightarrow> find P ys = Some x"
  by (auto simp: prefix_def find_append)

lemma find_rows_of: "SO_WorkspaceID op \<in> W \<Longrightarrow> find (is_row op) (operations db) = find (is_row op) (rows_of W db)"
proof -
  assume "SO_WorkspaceID op \<in> W"
  then have "find (is_row op) rows = find (is_row op) (filter (\<lambda>r. o_ws r \<in> W) rows)" for rows
    by (induction rows) (auto simp: is_row_def)
  then show ?thesis by (simp add: rows_of_def)
qed

lemma device_key_name: "device_key i u db = Some k \<Longrightarrow> (i, u, k) \<in> set (map device_name (devices db))"
  by (force simp: device_key_def device_name_def find_Some_iff dest: nth_mem)

lemma extended_key:
  assumes "log_extends W db db'" "accounts_inv db'" "device_key i u db = Some k" "device_key i u db' = Some k'"
  shows "k' = k"
proof -
  from device_key_name [OF assms(3)] have 1: "(i, u, k) \<in> set (map device_name (devices db'))"
    using assms(1) set_mono_prefix unfolding log_extends_def by blast
  note 2 = device_key_name [OF assms(4)]
  have "distinct (map d_id (devices db'))" using assms(2) by (simp add: accounts_inv_def dev_view_def comp_def device_core_def)
  from 1 2 distinct_key [OF this] show ?thesis by (force simp: device_name_def)
qed

text \<open>The sender may push: it is an active member of the workspace and its device is not revoked.\<close>

definition may_push :: "Principal \<Rightarrow> server_db \<Rightarrow> ServerOperation \<Rightarrow> bool" where
  "may_push pr db op \<longleftrightarrow> isActiveMember (UserID pr) (SO_WorkspaceID op) db \<and> device_key (SO_DeviceID op) (UserID pr) db \<noteq> None"

text \<open>An accepted operation is answered as a duplicate, with its first sequence, by every later database.\<close>

lemma push_again:
  assumes first: "pushOperation sha256 vf cfg pr now op db = Inr (res, db1)" and ext: "log_extends W db1 db2"
    and W: "SO_WorkspaceID op \<in> W" and acc: "accounts_inv db2" and may: "may_push pr db2 op"
    and v: "validateOperation cfg op now' = Inr ()"
  shows "pushOperation sha256 vf cfg pr now' op db2 = Inr (res\<lparr>SP_Duplicate := True\<rparr>, db2)"
proof -
  from first obtain key payload where ok: "SO_DeviceID op = DeviceID pr"
    "device_key (SO_DeviceID op) (UserID pr) db = Some key"
    "operationSignaturePayload op = Inr payload"
    "VerifyCanonical vf CryptoProfileV1 key SignatureDomainOperation payload (SO_Signature op) = Inr ()"
    and s: "store_operation sha256 op payload now db = Inr (res, db1)"
    by (rule pushOperation_Inr)
  have "device_key (SO_DeviceID op) (UserID pr) db1 = Some key"
    using ok(2) pushOperation_tables [OF first] by (simp add: device_key_def)
  with extended_key [OF ext acc] may have same: "device_key (SO_DeviceID op) (UserID pr) db2 = Some key"
    by (auto simp: may_push_def)
  from s obtain r where r: "find (is_row op) (operations db1) = Some r" "o_hash r = sha256 (payload @ SO_Signature op)"
    "res\<lparr>SP_Duplicate := True\<rparr> = \<lparr>SP_OpID = SO_OpID op, SP_Sequence = o_seq r, SP_Duplicate = True\<rparr>"
  proof (cases rule: store_operation_Inr)
    case (duplicate r)
    then show ?thesis by (intro that [of r]) simp_all
  next
    case (new w r)
    have "is_row op r" by (simp add: new(4) stored_row_def is_row_def)
    with new have "find (is_row op) (operations db1) = Some r" by (simp add: find_append)
    then show ?thesis by (rule that) (simp_all add: new stored_row_def)
  qed
  have "find (is_row op) (operations db2) = Some r"
    using ext r(1) unfolding log_extends_def find_rows_of [OF W] by (blast intro: find_prefix)
  then show ?thesis
    using v ok same r(2,3) may by (simp add: pushOperation_def store_operation_def may_push_def)
qed

lemma push_all_again:
  assumes "push_all sha256 vf cfg pr now ops db = Inr (rs, db1)" "log_extends W db1 db2" "SO_WorkspaceID ` set ops \<subseteq> W" "accounts_inv db2"
    and "list_all (\<lambda>op. may_push pr db2 op \<and> validateOperation cfg op now' = Inr ()) ops"
  shows "push_all sha256 vf cfg pr now' ops db2 = Inr (map (\<lambda>r. r\<lparr>SP_Duplicate := True\<rparr>) rs, db2)"
  using assms
proof (induction ops arbitrary: db rs)
  case (Cons op ops)
  then obtain res db' rs' where 1: "pushOperation sha256 vf cfg pr now op db = Inr (res, db')"
    and 2: "push_all sha256 vf cfg pr now ops db' = Inr (rs', db1)" and rs: "rs = res # rs'" by (auto simp: err_simps)
  have "log_extends W db' db2" by (rule extends_trans [OF push_all_extends [OF 2] Cons.prems(2)])
  from push_again [OF 1 this] Cons.IH [OF 2 Cons.prems(2)] Cons.prems(3-5) show ?case by (simp add: rs)
qed simp

lemma PushOperations_again:
  assumes "PushOperations sha256 vf cfg pr ops now db = Inr (rs, db1)" "log_extends (SO_WorkspaceID ` set ops) db1 db2" "accounts_inv db2"
    and "list_all (\<lambda>op. may_push pr db2 op \<and> validateOperation cfg op now' = Inr ()) ops"
  shows "PushOperations sha256 vf cfg pr ops now' db2 = Inr (map (\<lambda>r. r\<lparr>SP_Duplicate := True\<rparr>) rs, db2)"
  using assms push_all_again [of sha256 vf cfg pr now ops db rs db1 "SO_WorkspaceID ` set ops" db2 now']
  by (auto simp: PushOperations_def split: if_splits)

section \<open>Where stored operations come from\<close>

text \<open>
  A row that an accepted batch stored: all its columns are those of one operation of the batch,
  which passed every check on the database before the batch; its sequence number is the one
  that the sender was told.
\<close>

definition accepted_row ::
  "(bytes \<Rightarrow> bytes) \<Rightarrow> verifier \<Rightarrow> ServerConfig \<Rightarrow> Principal \<Rightarrow> ServerOperation list \<Rightarrow> int \<Rightarrow> server_db
   \<Rightarrow> ServerPushResult list \<Rightarrow> operation_row \<Rightarrow> bool" where
  "accepted_row sha256 vf cfg pr ops now db results r \<longleftrightarrow>
     (\<exists>op payload key. op \<in> set ops \<and> validateOperation cfg op now = Inr () \<and> SO_DeviceID op = DeviceID pr \<and>
        isActiveMember (UserID pr) (SO_WorkspaceID op) db \<and> device_key (SO_DeviceID op) (UserID pr) db = Some key \<and>
        operationSignaturePayload op = Inr payload \<and>
        VerifyCanonical vf CryptoProfileV1 key SignatureDomainOperation payload (SO_Signature op) = Inr () \<and>
        r = stored_row sha256 op payload (o_seq r) now \<and>
        \<lparr>SP_OpID = o_id r, SP_Sequence = o_seq r, SP_Duplicate = False\<rparr> \<in> set results)"

lemma pushOperation_accepts:
  assumes "pushOperation sha256 vf cfg pr now op db = Inr (res, db')" "r \<in> set (operations db')"
  shows "r \<in> set (operations db) \<or> accepted_row sha256 vf cfg pr [op] now db [res] r"
proof -
  from assms(1) obtain key payload where ok: "validateOperation cfg op now = Inr ()" "SO_DeviceID op = DeviceID pr"
    "isActiveMember (UserID pr) (SO_WorkspaceID op) db" "device_key (SO_DeviceID op) (UserID pr) db = Some key"
    "operationSignaturePayload op = Inr payload"
    "VerifyCanonical vf CryptoProfileV1 key SignatureDomainOperation payload (SO_Signature op) = Inr ()"
    and s: "store_operation sha256 op payload now db = Inr (res, db')"
    by (rule pushOperation_Inr)
  from s show ?thesis
  proof (cases rule: store_operation_Inr)
    case (new w r')
    show ?thesis
    proof (cases "r = r'")
      case True
      with new ok have "accepted_row sha256 vf cfg pr [op] now db [res] r"
        unfolding accepted_row_def by (intro exI [of _ op] exI [of _ payload] exI [of _ key]) (simp add: stored_row_def)
      then show ?thesis ..
    qed (use assms(2) new in auto)
  qed (use assms(2) in simp)
qed

lemma accepted_cong:
  assumes "accepted_row sha256 vf cfg pr ops now db results r" "memberships db' = memberships db" "devices db' = devices db"
    and "set ops \<subseteq> set ops'" "set results \<subseteq> set results'"
  shows "accepted_row sha256 vf cfg pr ops' now db' results' r"
proof -
  from assms(2,3) have "isActiveMember u ws db' = isActiveMember u ws db" "device_key d u db' = device_key d u db" for u ws d
    by (simp_all add: isActiveMember_def device_key_def)
  note same = this
  show ?thesis using assms(1,4,5) unfolding accepted_row_def same by blast
qed

lemma push_all_accepts:
  "push_all sha256 vf cfg pr now ops db = Inr (rs, db') \<Longrightarrow> r \<in> set (operations db') \<Longrightarrow>
   r \<in> set (operations db) \<or> accepted_row sha256 vf cfg pr ops now db rs r"
proof (induction ops arbitrary: db rs)
  case (Cons op ops)
  then obtain res db1 rs' where 1: "pushOperation sha256 vf cfg pr now op db = Inr (res, db1)"
    and 2: "push_all sha256 vf cfg pr now ops db1 = Inr (rs', db')" and rs: "rs = res # rs'" by (auto simp: err_simps)
  note t = pushOperation_tables(6) [OF 1, symmetric] pushOperation_tables(2) [OF 1, symmetric]
  from Cons.IH [OF 2 Cons.prems(2)] pushOperation_accepts [OF 1, of r]
  consider "r \<in> set (operations db)" | "accepted_row sha256 vf cfg pr [op] now db [res] r" | "accepted_row sha256 vf cfg pr ops now db1 rs' r"
    by blast
  then show ?case
  proof cases
    case 2
    from accepted_cong [OF this refl refl, of "op # ops" rs] show ?thesis by (simp add: rs)
  next
    case 3
    from accepted_cong [OF this t, of "op # ops" rs] show ?thesis by (auto simp: rs)
  qed simp
qed simp

lemma serve_accepts:
  assumes "r \<in> set (operations (serve sha256 vf cfg c db))" "r \<notin> set (operations db)"
  shows "\<exists>pr ops now results db'. c = CallPushOperations pr ops now \<and>
    PushOperations sha256 vf cfg pr ops now db = Inr (results, db') \<and> accepted_row sha256 vf cfg pr ops now db results r"
proof -
  from serve_rows [OF assms(1)] assms(2) obtain pr ops now where c: "c = CallPushOperations pr ops now" by blast
  with assms obtain results db' where p: "PushOperations sha256 vf cfg pr ops now db = Inr (results, db')" and r: "r \<in> set (operations db')"
    by (cases "PushOperations sha256 vf cfg pr ops now db") auto
  from p have "push_all sha256 vf cfg pr now ops db = Inr (results, db')" by (simp add: PushOperations_def split: if_splits)
  from push_all_accepts [OF this r] assms(2) c p show ?thesis by blast
qed

lemma run_accepts:
  "r \<in> set (operations (server_run sha256 vf cfg calls empty_server)) \<Longrightarrow>
   \<exists>before pr ops now after results db'. calls = before @ CallPushOperations pr ops now # after \<and>
     PushOperations sha256 vf cfg pr ops now (server_run sha256 vf cfg before empty_server) = Inr (results, db') \<and>
     accepted_row sha256 vf cfg pr ops now (server_run sha256 vf cfg before empty_server) results r"
proof (induction calls rule: rev_induct)
  case Nil
  then show ?case by (simp add: empty_server_def)
next
  case (snoc c calls)
  let ?db = "server_run sha256 vf cfg calls empty_server"
  show ?case
  proof (cases "r \<in> set (operations ?db)")
    case True
    from snoc.IH [OF this] show ?thesis by fastforce
  next
    case False
    from snoc.prems have "r \<in> set (operations (serve sha256 vf cfg c ?db))" by (simp add: server_run_append)
    from serve_accepts [OF this False] show ?thesis by fastforce
  qed
qed

end
