(* ===== verification/Server_Guarantees.thy ===== *)
theory Server_Guarantees
  imports Server_Log
begin

text \<open>
  The guarantees of the server, each stated for every history of calls from the empty
  database, with a small concrete history (one account, one device, two pushed operations)
  at which they are evaluated.
\<close>

section \<open>A concrete history\<close>

text \<open>Digests and signatures play no part in these histories: every digest is the same, every signature verifies.\<close>

definition demo_config :: ServerConfig where
  "demo_config = \<lparr>MaxOperationBytes = 1000, MaxBlobBytes = 1000, UserQuotaBytes = 1000, MaxOperationsPerBatch = 100,
     MaxHLCFutureSkew = 5000000000, MaxHLCPastAge = 5000000000, ChallengeTTL = 60000000000, SessionTTL = 60000000000, serverFingerprint = []\<rparr>"

definition demo_digest :: bytes where
  "demo_digest = replicate 32 0"

definition demo_hash :: "bytes \<Rightarrow> bytes" where
  "demo_hash b = demo_digest"

definition demo_sig_ok :: verifier where
  "demo_sig_ok key msg sig \<longleftrightarrow> True"

definition demo_text :: "byte \<Rightarrow> string" where
  "demo_text n = ID_String (demo_id n)"

definition demo_key :: string where
  "demo_key = hex_encode (replicate 16 1)"

definition demo_reg :: Registration where
  "demo_reg = \<lparr>Reg_InviteCode = replicate 40 (CHR ''a''), Reg_UserID = demo_text 1, Reg_IdentityPublic = replicate 32 1,
     Reg_AuthorityPublic = replicate 32 1, Reg_DeviceID = demo_text 2, Reg_DeviceName = ''phone'', Reg_Platform = [],
     Reg_SigningPublic = replicate 32 1, Reg_WorkspaceID = demo_text 3, Reg_WorkspaceKeyID = demo_key,
     Reg_WorkspaceEnvelope = [1], Reg_KeybagCiphertext = [1]\<rparr>"

definition demo_principal :: Principal where
  "demo_principal = \<lparr>UserID = demo_text 1, DeviceID = demo_text 2, Scope = ''sync'', TokenHash = []\<rparr>"

definition demo_push :: "byte \<Rightarrow> ServerOperation" where
  "demo_push n = \<lparr>SO_Protocol = ''beresta.sync.v1'', SO_SchemaVersion = 1, SO_OpID = demo_text n, SO_WorkspaceID = demo_text 3,
     SO_DeviceID = demo_text 2, SO_Sequence = 0, SO_HLCPhysicalMS = 10, SO_HLCLogical = 0, SO_KeyID = demo_key,
     SO_Nonce = replicate 24 0, SO_Ciphertext = replicate 16 0, SO_Signature = replicate 64 0\<rparr>"

definition demo_calls :: "server_call list" where
  "demo_calls = [CallCreateInvite ''alice'' 1000000000 0 (demo_text 9) (replicate 40 (CHR ''a'')), CallRegister demo_reg 0,
     CallPushOperations demo_principal [demo_push 4, demo_push 5] 0]"

lemma demo_text_simps [simp]:
  "validateID (demo_text n) = Inr ()" "decodeCanonicalID (demo_text n) = Inr (ID_Bytes (demo_id n))"
  "demo_text m = demo_text n \<longleftrightarrow> m = n"
  by (simp_all add: demo_text_def)

lemma demo_key_simps [simp]: "validateOpaqueID demo_key = Inr ()" "decodeOpaqueID demo_key = Inr (replicate 16 1)"
  by (simp_all add: demo_key_def del: replicate.simps hex_encode.simps)

lemma demo_hash_simps [simp]: "length demo_digest = 32" "demo_hash b = demo_digest"
  by (simp_all add: demo_hash_def demo_digest_def)

definition demo_invited :: server_db where
  "demo_invited = empty_server\<lparr>invites := [\<lparr>i_id = demo_text 9, i_code_hash = demo_digest, i_display = ''alice'', i_expires = 1,
     i_consumed = None, i_created = 0\<rparr>]\<rparr>"

lemma demo_trim: "TrimSpace ''alice'' = ''alice''"
  by code_simp

lemma demo_invite: "CreateInvite demo_hash ''alice'' 1000000000 0 (demo_text 9) (replicate 40 (CHR ''a'')) empty_server
  = Inr (\<lparr>Inv_ID = demo_text 9, Inv_Code = replicate 40 (CHR ''a''), Inv_DisplayName = ''alice'', Inv_ExpiresAt = 1000000000\<rparr>, demo_invited)"
  by (simp add: CreateInvite_def demo_trim empty_server_def demo_invited_def unixNow_def  Let_def del: replicate.simps)

definition demo_registered :: server_db where
  "demo_registered = empty_server\<lparr>invites := [\<lparr>i_id = demo_text 9, i_code_hash = demo_digest, i_display = ''alice'', i_expires = 1,
     i_consumed = Some 0, i_created = 0\<rparr>],
     users := [registered_user demo_config demo_reg \<lparr>i_id = demo_text 9, i_code_hash = demo_digest, i_display = ''alice'', i_expires = 1,
     i_consumed = None, i_created = 0\<rparr> 0], devices := [registered_device demo_reg 0], keybags := [registered_keybag demo_reg 0],
     workspaces := [new_workspace (demo_text 3) (demo_text 1) demo_key 0], memberships := [new_member (demo_text 3) (demo_text 1) ''owner'' 0],
     key_envelopes := [new_envelope (demo_text 3) (demo_text 1) demo_key [1] 0]\<rparr>"

lemma demo_register: "Register demo_hash demo_config demo_reg 0 demo_invited
  = Inr ((demo_text 1, demo_text 2, demo_text 3), demo_registered)"
proof -
  have z: "\<not> allZero (replicate 32 1)" by (simp add: allZero_def list_all_iff)
  show ?thesis
    by (simp add: Register_def validateRegistration_def demo_reg_def z del: replicate.simps)
      (simp add: open_invite_def insert_user_def insert_device_def insert_keybag_def insert_owned_workspace_def insert_workspace_def insert_member_def insert_envelope_def
       demo_invited_def demo_config_def Let_def empty_server_def unixNow_def update_rows_def registered_rows new_rows demo_registered_def demo_reg_def)
qed

lemma demo_payload:
  "\<exists>payload. operationSignaturePayload (demo_push n) = Inr payload \<and> payload \<noteq> [] \<and> length payload \<le> 4096"
proof -
  let ?f = "\<lparr>OS_OpID = ID_Bytes (demo_id n), OS_WorkspaceID = ID_Bytes (demo_id 3), OS_DeviceID = ID_Bytes (demo_id 2),
    OS_HLCPhysicalMS = 10, OS_HLCLogical = 0, OS_HLCDeviceID = ID_Bytes (demo_id 2), OS_KeyID = replicate 16 1,
    OS_Nonce = replicate 24 0, OS_Ciphertext = replicate 16 0\<rparr>"
  have "OperationSignatureFields_validate ?f = Inr ()" by (simp add: OperationSignatureFields_validate_def del: replicate.simps)
  from CanonicalOperationSignatureInput_total [OF this] show ?thesis
    by (auto simp: operationSignaturePayload_def demo_push_def simp del: replicate.simps)
qed

definition demo_row :: "byte \<Rightarrow> int \<Rightarrow> operation_row" where
  "demo_row n sequence = \<lparr>o_id = demo_text n, o_ws = demo_text 3, o_device = demo_text 2, o_seq = sequence, o_physical = 10, o_logical = 0,
     o_key = demo_key, o_nonce = replicate 24 0, o_ciphertext = replicate 16 0, o_signature = replicate 64 0, o_hash = demo_digest, o_created = 0\<rparr>"

lemma demo_push_valid: "validateOperation demo_config (demo_push n) 0 = Inr ()"
  by (simp add: validateOperation_def demo_push_def demo_config_def UnixMilli_def del: replicate.simps)

lemma demo_pushed_any:
  assumes m: "isActiveMember (UserID demo_principal) (demo_text 3) db" "device_key (demo_text 2) (UserID demo_principal) db = Some (replicate 32 1)"
    "list_ex (\<lambda>d. d_id d = demo_text 2) (devices db)" and "find_ws (demo_text 3) db = Some w" "w_key w = demo_key"
    "find (is_row (demo_push n)) (operations db) = None" "0 < w_latest w + 1"
    "\<not> list_ex (\<lambda>x. o_id x = demo_text n \<or> (o_ws x = demo_text 3 \<and> o_seq x = w_latest w + 1)) (operations db)"
  shows "pushOperation demo_hash demo_sig_ok demo_config demo_principal 0 (demo_push n) db
    = Inr (\<lparr>SP_OpID = demo_text n, SP_Sequence = w_latest w + 1, SP_Duplicate = False\<rparr>,
         (set_latest (demo_text 3) (w_latest w + 1) db)\<lparr>operations := operations db @ [demo_row n (w_latest w + 1)]\<rparr>)"
proof -
  obtain payload where p: "operationSignaturePayload (demo_push n) = Inr payload" "payload \<noteq> []" "length payload \<le> 4096"
    using demo_payload by blast
  note v = demo_push_valid [of n]
  have s: "VerifyCanonical demo_sig_ok CryptoProfileV1 (replicate 32 1) SignatureDomainOperation payload (replicate 64 0) = Inr ()"
    using p by (simp add: VerifyCanonical_def demo_sig_ok_def SignatureDomainOperation_def validateSignatureInput_def validSignatureDomain_def
      signature_domains_def del: replicate.simps)
  show ?thesis
    using assms v s p
    by (simp add: pushOperation_def demo_push_def demo_principal_def store_operation_def insert_operation_def stored_row_def set_latest_def
       demo_row_def Let_def unixNow_def del: replicate.simps)
qed

lemma demo_sender:
  assumes "devices db = devices demo_registered" "memberships db = memberships demo_registered"
  shows "isActiveMember (UserID demo_principal) (demo_text 3) db" "device_key (demo_text 2) (UserID demo_principal) db = Some (replicate 32 1)"
    "list_ex (\<lambda>d. d_id d = demo_text 2) (devices db)"
  using assms
  by (simp_all add: isActiveMember_def device_key_def demo_registered_def demo_principal_def new_rows registered_rows demo_reg_def del: replicate.simps)

lemma demo_pushed:
  assumes "devices db = devices demo_registered" "memberships db = memberships demo_registered" "find_ws (demo_text 3) db = Some w" "w_key w = demo_key"
    "find (is_row (demo_push n)) (operations db) = None" "0 < w_latest w + 1"
    "\<not> list_ex (\<lambda>x. o_id x = demo_text n \<or> (o_ws x = demo_text 3 \<and> o_seq x = w_latest w + 1)) (operations db)"
  shows "pushOperation demo_hash demo_sig_ok demo_config demo_principal 0 (demo_push n) db
    = Inr (\<lparr>SP_OpID = demo_text n, SP_Sequence = w_latest w + 1, SP_Duplicate = False\<rparr>,
         (set_latest (demo_text 3) (w_latest w + 1) db)\<lparr>operations := operations db @ [demo_row n (w_latest w + 1)]\<rparr>)"
  by (rule demo_pushed_any [OF demo_sender [OF assms(1,2)] assms(3-7)])

definition demo_workspace :: workspace_row where
  "demo_workspace = (new_workspace (demo_text 3) (demo_text 1) demo_key 0)\<lparr>w_latest := 2\<rparr>"

definition demo_log :: server_db where
  "demo_log = demo_registered\<lparr>workspaces := [demo_workspace],
     operations := [demo_row 4 1, demo_row 5 2]\<rparr>"

lemma demo_push_batch: "PushOperations demo_hash demo_sig_ok demo_config demo_principal [demo_push 4, demo_push 5] 0 demo_registered
  = Inr ([\<lparr>SP_OpID = demo_text 4, SP_Sequence = 1, SP_Duplicate = False\<rparr>, \<lparr>SP_OpID = demo_text 5, SP_Sequence = 2, SP_Duplicate = False\<rparr>],
      demo_log)"
proof -
  let ?w = "new_workspace (demo_text 3) (demo_text 1) demo_key 0"
  let ?db = "(set_latest (demo_text 3) 1 demo_registered)\<lparr>operations := [demo_row 4 1]\<rparr>"
  have reg: "find_ws (demo_text 3) demo_registered = Some ?w" "operations demo_registered = []" "workspaces demo_registered = [?w]"
    by (simp_all add: find_ws_def demo_registered_def empty_server_def new_workspace_def)
  have 1: "pushOperation demo_hash demo_sig_ok demo_config demo_principal 0 (demo_push 4) demo_registered
      = Inr (\<lparr>SP_OpID = demo_text 4, SP_Sequence = 1, SP_Duplicate = False\<rparr>, ?db)"
    using demo_pushed [OF refl refl reg(1), of 4] by (simp add: reg) (simp add: new_workspace_def)
  have db: "find_ws (demo_text 3) ?db = Some (?w\<lparr>w_latest := 1\<rparr>)" "operations ?db = [demo_row 4 1]"
    by (simp_all add: find_ws_def set_latest_def reg update_rows_def new_workspace_def)
  have 2: "pushOperation demo_hash demo_sig_ok demo_config demo_principal 0 (demo_push 5) ?db
      = Inr (\<lparr>SP_OpID = demo_text 5, SP_Sequence = 2, SP_Duplicate = False\<rparr>, demo_log)"
    using demo_pushed [OF _ _ db(1), of 5]
    by (simp add: set_latest_def reg is_row_def demo_push_def demo_row_def new_workspace_def demo_log_def demo_workspace_def update_rows_def del: replicate.simps)
  show ?thesis
    by (simp add: PushOperations_def 1 2) (simp add: demo_config_def demo_push_def del: replicate.simps)
qed

lemma demo_run: "server_run demo_hash demo_sig_ok demo_config demo_calls empty_server = demo_log"
  by (simp add: demo_calls_def demo_invite demo_register demo_push_batch)

lemma demo_find: "find_ws (demo_text 3) demo_log = Some demo_workspace"
  by (simp add: find_ws_def demo_log_def demo_workspace_def new_workspace_def)

text \<open>A third operation, pushed later.\<close>

definition demo_third :: server_call where
  "demo_third = CallPushOperations demo_principal [demo_push 6] 0"

definition demo_log3 :: server_db where
  "demo_log3 = demo_log\<lparr>workspaces := [demo_workspace\<lparr>w_latest := 3\<rparr>], operations := [demo_row 4 1, demo_row 5 2, demo_row 6 3]\<rparr>"

lemma demo_third_run: "serve demo_hash demo_sig_ok demo_config demo_third demo_log = demo_log3"
proof -
  have l: "w_latest demo_workspace = 2" "w_key demo_workspace = demo_key" "w_id demo_workspace = demo_text 3"
    by (simp_all add: demo_workspace_def new_workspace_def)
  have t: "devices demo_log = devices demo_registered" "memberships demo_log = memberships demo_registered"
    "operations demo_log = [demo_row 4 1, demo_row 5 2]" "workspaces demo_log = [demo_workspace]"
    by (simp_all add: demo_log_def)
  have "pushOperation demo_hash demo_sig_ok demo_config demo_principal 0 (demo_push 6) demo_log
      = Inr (\<lparr>SP_OpID = demo_text 6, SP_Sequence = 3, SP_Duplicate = False\<rparr>, demo_log3)"
    using demo_pushed [OF t(1,2) demo_find l(2), of 6]
    by (simp add: set_latest_def l t is_row_def demo_push_def demo_row_def update_rows_def demo_log3_def del: replicate.simps)
  then show ?thesis
    by (simp add: demo_third_def PushOperations_def) (simp add: demo_config_def demo_push_def del: replicate.simps)
qed

lemma demo_find3: "find_ws (demo_text 3) demo_log3 = Some (demo_workspace\<lparr>w_latest := 3\<rparr>)"
  by (simp add: find_ws_def demo_log3_def demo_workspace_def new_workspace_def)

section \<open>Invariants of every history\<close>

lemma empty_inv: "accounts_inv empty_server" "log_inv empty_server" "key_inv empty_server" "rows_ok cfg empty_server"
  by (simp_all add: empty_server_def accounts_inv_def log_inv_def counters_ok_def key_inv_def needed_view_def rows_ok_def
      dev_view_def owners_def logins_def active_devices_def ws_view_def base_view_def key_view_def)

lemma history_inv:
  shows accounts_history: "accounts_inv (server_run sha256 vf cfg calls empty_server)"
    and log_history: "log_inv (server_run sha256 vf cfg calls empty_server)"
    and key_history: "key_inv (server_run sha256 vf cfg calls empty_server)"
    and rows_history: "rows_ok cfg (server_run sha256 vf cfg calls empty_server)"
  by (rule accounts.run_keeps log.run_keeps keys.run_keeps rows.run_keeps; simp add: empty_inv list_all_iff)+


section \<open>The operation log\<close>

text \<open>
  C15. After every history of calls the stored operations of a workspace above its compaction
  boundary carry exactly the sequence numbers up to the latest one, each once: no gap, no
  repetition, nothing beyond.
\<close>

theorem operation_log_contiguous:
  assumes "find_ws ws (server_run sha256 vf cfg calls empty_server) = Some w"
  shows "map o_seq (rows_after ws (w_compacted w) (server_run sha256 vf cfg calls empty_server)) = [w_compacted w + 1 .. w_latest w]
    \<and> 0 \<le> w_compacted w \<and> w_compacted w \<le> w_latest w"
  using rows_after_log [OF log_history assms order_refl] epoch_one [OF log_history assms] by simp

theorem operation_log_contiguous_witness:
  "find_ws (demo_text 3) (server_run demo_hash demo_sig_ok demo_config demo_calls empty_server) = Some demo_workspace \<and>
   map o_seq (rows_after (demo_text 3) 0 (server_run demo_hash demo_sig_ok demo_config demo_calls empty_server)) = [1 .. 2]"
  using operation_log_contiguous [of "demo_text 3" demo_hash demo_sig_ok demo_config demo_calls demo_workspace]
  by (simp add: demo_run demo_find) (simp add: demo_workspace_def new_workspace_def)

text \<open>
  C28. What a page of the server can miss: whatever happened before it was requested and whatever
  is committed between the reads of \<open>PullChanges\<close>, its sequence numbers increase above the
  reader's cursor, and every operation up to the returned cursor that lies above the compaction
  boundary is in it. So only a compaction past the reader's cursor that is committed between
  the reads can leave a gap. When the boundary has not passed the cursor, the page carries the
  consecutive sequence numbers from the cursor to the returned one, and it is not empty when
  the reader is behind. It stays within the limit and the epoch in any case.
\<close>

theorem PullChanges_page:
  assumes "PullChanges cfg pr ws cursor limit db1 (server_run sha256 vf cfg calls empty_server)
      (server_run sha256 vf cfg (calls @ later) empty_server) = Inr ch"
    and "find_ws ws (server_run sha256 vf cfg (calls @ later) empty_server) = Some w"
    and "MaxOperationBytes cfg \<le> maxOperationBatchCiphertextBytes"
  shows "sorted_wrt (<) (map SO_Sequence (Chg_Operations ch)) \<and> list_all (\<lambda>op. cursor < SO_Sequence op) (Chg_Operations ch) \<and>
    set [max cursor (w_compacted w) + 1 .. Chg_Cursor ch] \<subseteq> SO_Sequence ` set (Chg_Operations ch) \<and>
    int (length (Chg_Operations ch)) \<le> limit \<and> Chg_WorkspaceID ch = ws \<and> Chg_CursorEpoch ch = 1 \<and>
    (w_compacted w \<le> cursor \<longrightarrow>
       map SO_Sequence (Chg_Operations ch) = [cursor + 1 .. Chg_Cursor ch] \<and> cursor \<le> Chg_Cursor ch \<and>
       (Chg_Operations ch = [] \<longrightarrow> w_latest w \<le> cursor))"
  using PullChanges_interleaved [OF log_history assms(1,2)] PullChanges_shape [OF log_history assms(1)]
    PullChanges_contiguous [OF log_history log_history rows_history assms(1,2)] assms(3)
  by (intro conjI impI) (auto simp: not_less [symmetric] simp del: set_upto)

text \<open>The third operation is committed after the workspace row was read: it is in the page.\<close>

lemma demo_pull_third:
  assumes "limit = 1 \<or> limit = 5"
  shows "PullChanges demo_config demo_principal (demo_text 3) 2 limit demo_log demo_log demo_log3
    = Inr \<lparr>Chg_WorkspaceID = demo_text 3, Chg_Cursor = 3, Chg_CursorEpoch = 1,
        Chg_Operations = [row_operation (demo_text 3) (demo_row 6 3)]\<rparr>"
proof -
  have "0 < limit" "limit \<le> MaxOperationsPerBatch demo_config" "take (nat limit) [demo_row 6 3] = [demo_row 6 3]"
    using assms by (auto simp: demo_config_def)
  moreover have "isActiveMember (UserID demo_principal) (demo_text 3) demo_log"
    by (simp add: isActiveMember_def demo_log_def demo_registered_def demo_principal_def new_member_def)
  moreover have "rows_after (demo_text 3) 2 demo_log3 = [demo_row 6 3]"
    by (simp add: rows_after_def demo_log3_def) (simp add: demo_row_def)
  moreover have "w_compacted demo_workspace = 0" "w_latest demo_workspace = 2" "w_epoch demo_workspace = 1"
    by (simp_all add: demo_workspace_def new_workspace_def)
  ultimately show ?thesis
    by (simp add: PullChanges_def demo_find Let_def) (simp add: demo_row_def del: replicate.simps)
qed

lemma demo_run3: "server_run demo_hash demo_sig_ok demo_config (demo_calls @ [demo_third]) empty_server = demo_log3"
  by (simp add: server_run_append demo_run demo_third_run)

theorem PullChanges_page_witness:
  "PullChanges demo_config demo_principal (demo_text 3) 2 5 demo_log
     (server_run demo_hash demo_sig_ok demo_config demo_calls empty_server)
     (server_run demo_hash demo_sig_ok demo_config (demo_calls @ [demo_third]) empty_server)
   = Inr \<lparr>Chg_WorkspaceID = demo_text 3, Chg_Cursor = 3, Chg_CursorEpoch = 1,
      Chg_Operations = [row_operation (demo_text 3) (demo_row 6 3)]\<rparr> \<and>
   map SO_Sequence [row_operation (demo_text 3) (demo_row 6 3)] = [2 + 1 .. 3]"
proof -
  have p: "PullChanges demo_config demo_principal (demo_text 3) 2 5 demo_log
     (server_run demo_hash demo_sig_ok demo_config demo_calls empty_server)
     (server_run demo_hash demo_sig_ok demo_config (demo_calls @ [demo_third]) empty_server)
   = Inr \<lparr>Chg_WorkspaceID = demo_text 3, Chg_Cursor = 3, Chg_CursorEpoch = 1,
      Chg_Operations = [row_operation (demo_text 3) (demo_row 6 3)]\<rparr>"
    unfolding demo_run3 demo_run by (rule demo_pull_third) simp
  have "find_ws (demo_text 3) (server_run demo_hash demo_sig_ok demo_config (demo_calls @ [demo_third]) empty_server)
      = Some (demo_workspace\<lparr>w_latest := 3\<rparr>)"
    unfolding demo_run3 by (rule demo_find3)
  moreover have "w_compacted demo_workspace \<le> 2" "MaxOperationBytes demo_config \<le> maxOperationBatchCiphertextBytes"
    by (simp_all add: demo_workspace_def new_workspace_def demo_config_def)
  ultimately show ?thesis using PullChanges_page [OF p] p by simp
qed

text \<open>
  C20. A retried push is recognised. A batch that was accepted in any reachable state is accepted
  again after any further calls of any clients, as long as none of them compacts a workspace of
  the batch, the timestamps are still valid and the sender is still an active member with an
  unrevoked device: every operation is answered with the sequence number it got the first time,
  marked as a duplicate, and the database does not change. (After a compaction that removed the
  operations the batch would be stored again under new numbers.)
\<close>

theorem PushOperations_retry:
  assumes "PushOperations sha256 vf cfg pr ops now (server_run sha256 vf cfg calls empty_server) = Inr (results, db1)"
    and "list_all (compacts_none (SO_WorkspaceID ` set ops)) later" and "db2 = server_run sha256 vf cfg later db1"
    and "list_all (\<lambda>op. may_push pr db2 op \<and> validateOperation cfg op now2 = Inr ()) ops"
  shows "PushOperations sha256 vf cfg pr ops now2 db2 = Inr (map (\<lambda>r. r\<lparr>SP_Duplicate := True\<rparr>) results, db2)"
proof -
  have "log_extends (SO_WorkspaceID ` set ops) db1 db2"
    unfolding assms(3) by (rule extended.run_keeps [OF extends_refl assms(2)])
  moreover have "db2 = server_run sha256 vf cfg (calls @ CallPushOperations pr ops now # later) empty_server"
    using assms(1,3) by (simp add: server_run_append)
  then have "accounts_inv db2" by (simp only: accounts_history)
  ultimately show ?thesis by (rule PushOperations_again [OF assms(1) _ _ assms(4)])
qed

theorem PushOperations_retry_witness:
  "PushOperations demo_hash demo_sig_ok demo_config demo_principal [demo_push 4, demo_push 5] 0 demo_log3
   = Inr ([\<lparr>SP_OpID = demo_text 4, SP_Sequence = 1, SP_Duplicate = True\<rparr>,
          \<lparr>SP_OpID = demo_text 5, SP_Sequence = 2, SP_Duplicate = True\<rparr>], demo_log3)"
proof -
  let ?calls = "[CallCreateInvite ''alice'' 1000000000 0 (demo_text 9) (replicate 40 (CHR ''a'')), CallRegister demo_reg 0]"
  have r: "server_run demo_hash demo_sig_ok demo_config ?calls empty_server = demo_registered"
    by (simp add: demo_invite demo_register del: replicate.simps)
  have 1: "PushOperations demo_hash demo_sig_ok demo_config demo_principal [demo_push 4, demo_push 5] 0
      (server_run demo_hash demo_sig_ok demo_config ?calls empty_server)
    = Inr ([\<lparr>SP_OpID = demo_text 4, SP_Sequence = 1, SP_Duplicate = False\<rparr>, \<lparr>SP_OpID = demo_text 5, SP_Sequence = 2, SP_Duplicate = False\<rparr>],
      demo_log)" unfolding r by (rule demo_push_batch)
  have n: "list_all (compacts_none (SO_WorkspaceID ` set [demo_push 4, demo_push 5])) [demo_third]" by (simp add: demo_third_def)
  have 2: "demo_log3 = server_run demo_hash demo_sig_ok demo_config [demo_third] demo_log" by (simp add: demo_third_run)
  have "may_push demo_principal demo_log3 (demo_push n)" for n
    by (simp add: may_push_def demo_log3_def demo_log_def demo_push_def isActiveMember_def device_key_def demo_registered_def
        demo_principal_def new_rows registered_rows demo_reg_def del: replicate.simps)
  then have v: "list_all (\<lambda>op. may_push demo_principal demo_log3 op \<and> validateOperation demo_config op 0 = Inr ()) [demo_push 4, demo_push 5]"
    by (simp add: demo_push_valid)
  from PushOperations_retry [OF 1 n 2 v] show ?thesis by simp
qed

section \<open>Snapshots and compaction\<close>

lemma CompactWorkspace_counts:
  assumes "CompactWorkspace ws now False db = Inr (res, db')"
  shows "CR_RemovedOperations res = length (operations db) - length (operations db')"
proof (cases "newest_first (filter (\<lambda>n. n_ws n = ws \<and> n_eligible n \<noteq> None) (snapshots db))")
  case Nil
  with assms show ?thesis by (auto simp: CompactWorkspace_def err_simps)
next
  case (Cons n ns)
  let ?hit = "\<lambda>r. o_ws r = ws \<and> o_seq r \<le> n_base n \<and> o_created r \<le> unixNow (now - days30)"
  from Cons assms have "CR_RemovedOperations res = length (filter ?hit (operations db))"
    "operations db' = filter (\<lambda>r. \<not> ?hit r) (operations db)"
    by (auto simp: CompactWorkspace_def Let_def err_simps)
  then show ?thesis using sum_length_filter_compl [of ?hit "operations db"] by simp
qed

text \<open>
  C21. Compaction takes nothing away from a reader it did not leave behind: for every cursor at or
  above the new compaction boundary the operations that follow are the same as before. Each
  removed operation is covered by an eligible snapshot of its workspace and is at least
  thirty days old, and the result counts the removed operations.
\<close>

theorem CompactWorkspace_safe:
  assumes "CompactWorkspace ws now False db = Inr (res, db')"
    and "find_ws ws db' = Some w" "w_compacted w \<le> cursor"
  shows "rows_after ws cursor db' = rows_after ws cursor db \<and>
    list_all (\<lambda>r. r \<in> set (operations db') \<or>
      list_ex (\<lambda>n. n_ws n = o_ws r \<and> n_eligible n \<noteq> None \<and> o_seq r \<le> n_base n) (snapshots db) \<and> o_created r \<le> unixNow (now - days30))
      (operations db) \<and>
    CR_RemovedOperations res = length (operations db) - length (operations db')"
proof -
  note count = CompactWorkspace_counts [OF assms(1)]
  from assms(1) show ?thesis
  proof (cases rule: CompactWorkspace_Inr)
    case idle
    with count show ?thesis by (simp add: list_all_iff)
  next
    case (compacted n boundary)
    let ?hit = "\<lambda>r. o_ws r = ws \<and> o_seq r \<le> n_base n \<and> o_created r \<le> boundary"
    from find_ws_Some [OF assms(2)] have w: "w \<in> set (workspaces db')" "w_id w = ws" by auto
    have "workspaces db' = update_rows (\<lambda>w. w_id w = ws)
        (\<lambda>w. w\<lparr>w_compaction_snapshot := Some (n_id n), w_compacted := max (w_compacted w) (n_base n)\<rparr>) (workspaces db)"
      by (simp add: compacted(5))
    with w have "\<exists>v. w = v\<lparr>w_compaction_snapshot := Some (n_id n), w_compacted := max (w_compacted v) (n_base n)\<rparr>"
      by (auto simp: update_rows_def)
    then have "n_base n \<le> w_compacted w" by (elim exE) simp
    with assms(3) have "cursor < o_seq r \<Longrightarrow> \<not> ?hit r" for r by auto
    then have "filter (\<lambda>r. o_ws r = ws \<and> cursor < o_seq r) (operations db') = filter (\<lambda>r. o_ws r = ws \<and> cursor < o_seq r) (operations db)"
      by (auto simp: compacted(5) intro!: filter_cong)
    then have "rows_after ws cursor db' = rows_after ws cursor db" by (simp add: rows_after_def)
    moreover have kept: "r \<in> set (operations db')" if "r \<in> set (operations db)" "\<not> ?hit r" for r
      using that by (simp add: compacted(5))
    moreover have "list_ex (\<lambda>m. n_ws m = o_ws r \<and> n_eligible m \<noteq> None \<and> o_seq r \<le> n_base m) (snapshots db)" if "?hit r" for r
      using that compacted(1-3) by (auto simp: list_ex_iff)
    ultimately show ?thesis using count compacted(4) by (auto simp: list_all_iff)
  qed
qed

text \<open>A snapshot at sequence one, acknowledged by the only device.\<close>

definition demo_upload :: ServerSnapshot where
  "demo_upload = \<lparr>SN_Protocol = ''beresta.sync.v1'', SN_SchemaVersion = 1, SN_ID = demo_text 7, SN_WorkspaceID = demo_text 3,
     SN_BaseSequence = 1, SN_CursorEpoch = 1, SN_KeyID = demo_key, SN_CreatorDeviceID = demo_text 2, SN_HLCPhysicalMS = 10,
     SN_HLCLogical = 0, SN_Nonce = replicate 24 0, SN_CiphertextHash = demo_digest, SN_Ciphertext = replicate 16 0,
     SN_Signature = replicate 64 0, SN_EligibleAt = None\<rparr>"

definition demo_ack :: SnapshotAck where
  "demo_ack = \<lparr>AK_Protocol = ''beresta.sync.v1'', AK_SchemaVersion = 1, AK_SnapshotID = demo_text 7, AK_WorkspaceID = demo_text 3,
     AK_DeviceID = demo_text 2, AK_BaseSequence = 1, AK_CiphertextHash = demo_digest, AK_Signature = replicate 64 0\<rparr>"

definition demo_snapshot :: snapshot_row where
  "demo_snapshot = (snapshot_of demo_upload 0)\<lparr>n_eligible := Some 0\<rparr>"

definition demo_snapshotted :: server_db where
  "demo_snapshotted = demo_log\<lparr>snapshots := [demo_snapshot], snapshot_acks := [\<lparr>a_snapshot = demo_text 7, a_device = demo_text 2,
     a_hash = demo_digest, a_signature = replicate 64 0, a_created = 0\<rparr>]\<rparr>"

definition demo_more :: "server_call list" where
  "demo_more = [CallPutSnapshot demo_principal demo_upload 0, CallAcknowledgeSnapshot demo_principal demo_ack 0]"

lemma demo_access:
  assumes "devices db = devices demo_registered" "memberships db = memberships demo_registered"
  shows "isActiveMember (demo_text 1) (demo_text 3) db" "device_key (demo_text 2) (demo_text 1) db = Some (replicate 32 1)"
  using assms by (simp_all add: isActiveMember_def device_key_def demo_registered_def new_rows registered_rows demo_reg_def del: replicate.simps)

lemma demo_verifies: "payload \<noteq> [] \<Longrightarrow> length payload \<le> 4096 \<Longrightarrow> domain \<in> set signature_domains \<Longrightarrow>
  VerifyCanonical demo_sig_ok CryptoProfileV1 (replicate 32 1) domain payload (replicate 64 0) = Inr ()"
  by (simp add: VerifyCanonical_def demo_sig_ok_def validateSignatureInput_def validSignatureDomain_def del: replicate.simps)

lemma demo_tables: "devices demo_log = devices demo_registered" "memberships demo_log = memberships demo_registered"
  "snapshots demo_log = []" "snapshot_acks demo_log = []"
  by (simp_all add: demo_log_def demo_registered_def empty_server_def)

lemma demo_put: "PutSnapshot demo_hash demo_sig_ok demo_config demo_principal demo_upload 0 demo_log
  = Inr ((), demo_log\<lparr>snapshots := [snapshot_of demo_upload 0]\<rparr>)"
proof -
  have v: "validateSnapshot demo_config demo_upload 0 = Inr ()"
    by (simp add: validateSnapshot_def demo_upload_def demo_config_def UnixMilli_def del: replicate.simps)
  let ?f = "\<lparr>SS_SnapshotID = ID_Bytes (demo_id 7), SS_WorkspaceID = ID_Bytes (demo_id 3), SS_BaseSequence = 1,
      SS_CursorEpoch = 1, SS_KeyID = replicate 16 1, SS_CreatorDeviceID = ID_Bytes (demo_id 2),
      SS_HLCPhysicalMS = 10, SS_HLCLogical = 0, SS_HLCDeviceID = ID_Bytes (demo_id 2),
      SS_Nonce = replicate 24 0, SS_CiphertextHash = demo_digest, SS_Ciphertext = replicate 16 0\<rparr>"
  obtain payload where p: "CanonicalSnapshotSignatureInput ?f = Inr payload" "payload \<noteq> []" "length payload \<le> 4096"
    using CanonicalSnapshotSignatureInput_total [of ?f] by (auto simp del: replicate.simps)
  have s: "snapshotSignaturePayload demo_upload = Inr payload"
    using p(1) by (simp add: snapshotSignaturePayload_def demo_upload_def del: replicate.simps)
  have "SignatureDomainSnapshot \<in> set signature_domains" by (simp add: SignatureDomainSnapshot_def signature_domains_def)
  note sig = demo_verifies [OF p(2,3) this]
  have w: "w_latest demo_workspace = 2" "w_epoch demo_workspace = 1" "w_key demo_workspace = demo_key"
    by (simp_all add: demo_workspace_def new_workspace_def)
  have d: "list_ex (\<lambda>d. d_id d = demo_text 2) (devices demo_registered)"
    by (simp add: demo_registered_def registered_rows demo_reg_def del: replicate.simps)
  have f: "SN_CreatorDeviceID demo_upload = demo_text 2" "SN_WorkspaceID demo_upload = demo_text 3" "SN_CiphertextHash demo_upload = demo_digest"
    "SN_Signature demo_upload = replicate 64 0" "SN_BaseSequence demo_upload = 1" "SN_CursorEpoch demo_upload = 1" "SN_KeyID demo_upload = demo_key"
    "UserID demo_principal = demo_text 1" "DeviceID demo_principal = demo_text 2"
    by (simp_all add: demo_upload_def demo_principal_def)
  have n: "n_base (snapshot_of demo_upload 0) = 1" "n_epoch (snapshot_of demo_upload 0) = 1" "n_physical (snapshot_of demo_upload 0) = 10"
    "n_device (snapshot_of demo_upload 0) = demo_text 2" "length (n_nonce (snapshot_of demo_upload 0)) = 24"
    "length (n_hash (snapshot_of demo_upload 0)) = 32" "length (n_signature (snapshot_of demo_upload 0)) = 64"
    by (simp_all add: snapshot_of_def demo_upload_def del: replicate.simps)
  show ?thesis
    by (simp add: PutSnapshot_def v s f demo_access demo_tables sig demo_find w insert_snapshot_def n d)
qed

lemma demo_acknowledge:
  "AcknowledgeSnapshot demo_sig_ok demo_principal demo_ack 0 (demo_log\<lparr>snapshots := [snapshot_of demo_upload 0]\<rparr>) = Inr (True, demo_snapshotted)"
proof -
  let ?f = "\<lparr>SA_SnapshotID = ID_Bytes (demo_id 7), SA_WorkspaceID = ID_Bytes (demo_id 3), SA_DeviceID = ID_Bytes (demo_id 2),
      SA_BaseSequence = 1, SA_CiphertextHash = demo_digest\<rparr>"
  obtain payload where p: "CanonicalSnapshotAckSignatureInput ?f = Inr payload" "payload \<noteq> []" "length payload \<le> 4096"
    using CanonicalSnapshotAckSignatureInput_total [of ?f] by auto
  have s: "snapshotAckSignaturePayload demo_ack = Inr payload"
    using p(1) by (simp add: snapshotAckSignaturePayload_def demo_ack_def)
  have "SignatureDomainSnapshotAck \<in> set signature_domains" by (simp add: SignatureDomainSnapshotAck_def signature_domains_def)
  note sig = demo_verifies [OF p(2,3) this]
  have f: "UserID demo_principal = demo_text 1" "DeviceID demo_principal = demo_text 2" by (simp_all add: demo_principal_def)
  have a: "AK_Protocol demo_ack = ''beresta.sync.v1''" "AK_SchemaVersion demo_ack = 1" "AK_SnapshotID demo_ack = demo_text 7"
    "AK_WorkspaceID demo_ack = demo_text 3" "AK_DeviceID demo_ack = demo_text 2" "AK_BaseSequence demo_ack = 1"
    "AK_CiphertextHash demo_ack = demo_digest" "AK_Signature demo_ack = replicate 64 0"
    by (simp_all add: demo_ack_def)
  have n: "n_id (snapshot_of demo_upload 0) = demo_text 7" "n_ws (snapshot_of demo_upload 0) = demo_text 3" "n_base (snapshot_of demo_upload 0) = 1"
    "n_hash (snapshot_of demo_upload 0) = demo_digest" "n_eligible (snapshot_of demo_upload 0) = None"
    by (simp_all add: snapshot_of_def demo_upload_def)
  have rows: "devices demo_registered = [registered_device demo_reg 0]" "memberships demo_registered = [new_member (demo_text 3) (demo_text 1) ''owner'' 0]"
    by (simp_all add: demo_registered_def)
  have row: "d_id (registered_device demo_reg 0) = demo_text 2" "d_revoked (registered_device demo_reg 0) = None"
    "m_revoked (new_member (demo_text 3) (demo_text 1) ''owner'' 0) = None"
    by (simp_all add: registered_device_def demo_reg_def new_member_def)
  show ?thesis
    by (simp add: AcknowledgeSnapshot_def a f n s sig demo_access demo_tables upsert_ack_def snapshotEligible_def acknowledged_def Let_def
        rows row update_rows_def demo_snapshotted_def demo_snapshot_def unixNow_def)
qed

lemma demo_more_run: "server_run demo_hash demo_sig_ok demo_config (demo_calls @ demo_more) empty_server = demo_snapshotted"
  by (simp add: server_run_append demo_run demo_more_def demo_put demo_acknowledge)

definition demo_compacted :: server_db where
  "demo_compacted = demo_snapshotted\<lparr>workspaces := [demo_workspace\<lparr>w_compaction_snapshot := Some (demo_text 7), w_compacted := 1\<rparr>],
     operations := [demo_row 5 2]\<rparr>"

lemma demo_compact: "CompactWorkspace (demo_text 3) days30 False demo_snapshotted
  = Inr (\<lparr>CR_WorkspaceID = demo_text 3, CR_SnapshotID = demo_text 7, CR_BaseSequence = 1, CR_EligibleOperations = 1,
      CR_RemovedOperations = 1, CR_DryRun = False\<rparr>, demo_compacted)"
proof -
  have ops: "operations demo_snapshotted = [demo_row 4 1, demo_row 5 2]" "workspaces demo_snapshotted = [demo_workspace]"
    "snapshots demo_snapshotted = [demo_snapshot]"
    by (simp_all add: demo_snapshotted_def demo_log_def)
  have row: "o_ws (demo_row n s) = demo_text 3" "o_seq (demo_row n s) = s" "o_created (demo_row n s) = 0" for n s
    by (simp_all add: demo_row_def)
  have snap: "n_ws demo_snapshot = demo_text 3" "n_eligible demo_snapshot = Some 0" "n_base demo_snapshot = 1" "n_id demo_snapshot = demo_text 7"
    by (simp_all add: demo_snapshot_def snapshot_of_def demo_upload_def)
  have "w_id demo_workspace = demo_text 3" "w_compacted demo_workspace = 0" by (simp_all add: demo_workspace_def new_workspace_def)
  then show ?thesis
    by (simp add: CompactWorkspace_def ops row snap newest_first_def Let_def unixNow_def update_rows_def demo_compacted_def)
qed

theorem CompactWorkspace_safe_witness:
  "CompactWorkspace (demo_text 3) days30 False demo_snapshotted
     = Inr (\<lparr>CR_WorkspaceID = demo_text 3, CR_SnapshotID = demo_text 7, CR_BaseSequence = 1, CR_EligibleOperations = 1,
         CR_RemovedOperations = 1, CR_DryRun = False\<rparr>, demo_compacted) \<and>
   rows_after (demo_text 3) 1 demo_compacted = rows_after (demo_text 3) 1 demo_snapshotted"
proof -
  have "find_ws (demo_text 3) demo_compacted = Some (demo_workspace\<lparr>w_compaction_snapshot := Some (demo_text 7), w_compacted := 1\<rparr>)"
    by (simp add: find_ws_def demo_compacted_def demo_workspace_def new_workspace_def)
  from CompactWorkspace_safe [OF demo_compact this, of 1] demo_compact show ?thesis by simp
qed

text \<open>Every active device of an active member has acknowledged the snapshot.\<close>

definition fully_acknowledged :: "string \<Rightarrow> string \<Rightarrow> server_db \<Rightarrow> bool" where
  "fully_acknowledged snapshot ws db \<longleftrightarrow>
     list_all (\<lambda>d. d_revoked d = None \<longrightarrow> isActiveMember (d_user d) ws db \<longrightarrow> acknowledged snapshot (d_id d) db) (devices db)"

lemma AcknowledgeSnapshot_eligible:
  assumes "AcknowledgeSnapshot vf pr ack now db = Inr (True, db')"
  shows "fully_acknowledged (AK_SnapshotID ack) (AK_WorkspaceID ack) db'"
proof -
  from AcknowledgeSnapshot_Inr [OF assms] obtain acks where e: "snapshotEligible (AK_SnapshotID ack) (AK_WorkspaceID ack) now (db\<lparr>snapshot_acks := acks\<rparr>)"
    and db': "devices db' = devices db" "memberships db' = memberships db" "snapshot_acks db' = acks" by auto
  from e show ?thesis
    by (auto simp: snapshotEligible_def fully_acknowledged_def Let_def filter_empty_conv list_all_iff isActiveMember_def acknowledged_def db')
qed

lemma find_in: "find P xs = Some x \<Longrightarrow> x \<in> set xs \<and> P x"
  by (auto simp: find_Some_iff)

lemma AcknowledgeSnapshot_found:
  assumes "AcknowledgeSnapshot vf pr ack now db = Inr (x, db')"
  obtains n where "n \<in> set (snapshots db)" "n_id n = AK_SnapshotID ack" "n_ws n = AK_WorkspaceID ack"
proof -
  from assms obtain n where "find (\<lambda>n. n_id n = AK_SnapshotID ack \<and> n_ws n = AK_WorkspaceID ack) (snapshots db) = Some n"
    by (auto simp: AcknowledgeSnapshot_def err_simps split: if_splits option.splits)
  from find_in [OF this] show ?thesis using that by blast
qed

text \<open>The three things that a call can do to the snapshots.\<close>

definition snapshots_kept where
  "snapshots_kept c db db' \<longleftrightarrow> snapshots db' = snapshots db"

definition snapshot_stored where
  "snapshot_stored c db db' \<longleftrightarrow> (\<exists>n. snapshots db' = snapshots db @ [n] \<and> n_id n \<notin> n_id ` set (snapshots db) \<and> n_eligible n = None)"

definition snapshot_released where
  "snapshot_released c db db' \<longleftrightarrow> (\<exists>pr ack now n f. c = CallAcknowledgeSnapshot pr ack now \<and>
     snapshots db' = update_rows (\<lambda>n. n_id n = AK_SnapshotID ack) (\<lambda>n. n\<lparr>n_eligible := f n\<rparr>) (snapshots db) \<and>
     n \<in> set (snapshots db) \<and> n_id n = AK_SnapshotID ack \<and> n_ws n = AK_WorkspaceID ack \<and>
     fully_acknowledged (AK_SnapshotID ack) (AK_WorkspaceID ack) db')"

lemma released_by_ack:
  assumes "AcknowledgeSnapshot vf pr ack now db = Inr (x, db')"
  shows "snapshots_kept (CallAcknowledgeSnapshot pr ack now) db db' \<or> snapshot_released (CallAcknowledgeSnapshot pr ack now) db db'"
proof (cases x)
  case True
  from assms obtain n where n: "n \<in> set (snapshots db)" "n_id n = AK_SnapshotID ack" "n_ws n = AK_WorkspaceID ack"
    by (rule AcknowledgeSnapshot_found)
  have "snapshots db' = update_rows (\<lambda>n. n_id n = AK_SnapshotID ack)
      (\<lambda>n. n\<lparr>n_eligible := (case n_eligible n of None \<Rightarrow> Some (unixNow now) | Some t \<Rightarrow> Some t)\<rparr>) (snapshots db)"
    using AcknowledgeSnapshot_Inr [OF assms] True by auto
  moreover have "fully_acknowledged (AK_SnapshotID ack) (AK_WorkspaceID ack) db'"
    using assms True by (auto intro: AcknowledgeSnapshot_eligible)
  ultimately show ?thesis using n unfolding snapshot_released_def
    by (intro disjI2 exI [of _ pr] exI [of _ ack] exI [of _ now] exI [of _ n]
        exI [of _ "\<lambda>n. case n_eligible n of None \<Rightarrow> Some (unixNow now) | Some t \<Rightarrow> Some t"]) simp
next
  case False
  with AcknowledgeSnapshot_Inr [OF assms] show ?thesis by (auto simp: snapshots_kept_def)
qed

lemma kept_commit: "(\<And>x db'. r = Inr (x, db') \<Longrightarrow> snapshots db' = snapshots db) \<Longrightarrow> snapshots_kept c db (commit r db)"
  by (cases r) (auto simp: snapshots_kept_def)

lemma push_all_snapshots: "push_all sha256 vf cfg pr now ops db = Inr (rs, db') \<Longrightarrow> snapshots db' = snapshots db"
  by (induction ops arbitrary: db rs) (auto simp: err_simps pushOperation_tables)

lemma serve_snapshots:
  "snapshots_kept c db (serve sha256 vf cfg c db) \<or> snapshot_stored c db (serve sha256 vf cfg c db) \<or> snapshot_released c db (serve sha256 vf cfg c db)"
  (is "?kept c \<or> ?stored c \<or> ?released c")
proof (cases c)
  case (CallPutSnapshot pr sn now)
  have "?kept c \<or> ?stored c" unfolding CallPutSnapshot serve.simps
    by (cases "PutSnapshot sha256 vf cfg pr sn now db")
       (auto simp: snapshots_kept_def snapshot_stored_def snapshot_of_def key_fresh dest!: PutSnapshot_Inr)
  then show ?thesis by blast
next
  case (CallAcknowledgeSnapshot pr ack now)
  show ?thesis
  proof (cases "AcknowledgeSnapshot vf pr ack now db")
    case (Inl e)
    then show ?thesis by (simp add: CallAcknowledgeSnapshot snapshots_kept_def)
  next
    case (Inr y)
    obtain x db' where "y = (x, db')" by (cases y)
    with released_by_ack [of vf pr ack now db x db'] Inr show ?thesis unfolding CallAcknowledgeSnapshot serve.simps by auto
  qed
next
  case (CallRegister r now)
  have "?kept c" unfolding CallRegister serve.simps by (rule kept_commit) (auto simp: insert_owned_workspace_Inr elim!: Register_Inr)
  then show ?thesis by blast
next
  case (CallPushOperations pr ops now)
  have "?kept c" unfolding CallPushOperations serve.simps
    by (rule kept_commit) (auto simp: PushOperations_def intro: push_all_snapshots split: if_splits)
  then show ?thesis by blast
next
  case (CallIssueChallenge d scope now j nonce)
  have "?kept c" unfolding CallIssueChallenge serve.simps by (rule kept_commit) (auto dest!: IssueChallenge_Inr(1))
  then show ?thesis by blast
next
  case (CallVerifyChallenge p now token)
  have "?kept c" unfolding CallVerifyChallenge serve.simps VerifyChallenge_def by (rule kept_commit) (auto elim!: verifyChallenge_Inr)
  then show ?thesis by blast
next
  case (CallRefreshSession pr p now token)
  have "?kept c" unfolding CallRefreshSession serve.simps
    by (rule kept_commit) (auto simp: RefreshSession_def elim!: verifyChallenge_Inr split: if_splits)
  then show ?thesis by blast
next
  case (CallAddDevice pr d name key now)
  have "?kept c" unfolding CallAddDevice serve.simps by (rule kept_commit) (auto dest!: AddDevice_Inr(4))
  then show ?thesis by blast
next
  case (CallRevokeDevice pr d now)
  have "?kept c" unfolding CallRevokeDevice serve.simps by (rule kept_commit) (auto simp: RevokeDevice_def revoke_rows_Inr err_simps)
  then show ?thesis by blast
next
  case (CallAdminRevokeDevice d now)
  have "?kept c" unfolding CallAdminRevokeDevice serve.simps
    by (rule kept_commit) (auto simp: AdminRevokeDevice_def revoke_rows_Inr err_simps)
  then show ?thesis by blast
next
  case (CallCreateInvite name ttl now j code)
  have "?kept c" unfolding CallCreateInvite serve.simps by (rule kept_commit) (auto dest!: CreateInvite_Inr)
  then show ?thesis by blast
next
  case (CallPurgeExpiredAuthRecords now)
  have "?kept c" unfolding CallPurgeExpiredAuthRecords serve.simps by (rule kept_commit) (auto simp: PurgeExpiredAuthRecords_def)
  then show ?thesis by blast
next
  case (CallDeleteSession h)
  have "?kept c" unfolding CallDeleteSession serve.simps by (rule kept_commit) (auto simp: DeleteSession_def)
  then show ?thesis by blast
next
  case (CallPutKeybag pr v k now)
  have "?kept c" unfolding CallPutKeybag serve.simps by (rule kept_commit) (auto dest!: PutKeybag_Inr)
  then show ?thesis by blast
next
  case (CallCreateWorkspace pr ws key env now)
  have "?kept c" unfolding CallCreateWorkspace serve.simps
    by (rule kept_commit) (auto simp: insert_owned_workspace_Inr dest!: CreateWorkspace_Inr)
  then show ?thesis by blast
next
  case (CallAddMember pr ws user key env now)
  have "?kept c" unfolding CallAddMember serve.simps by (rule kept_commit) (auto dest!: AddMember_Inr)
  then show ?thesis by blast
next
  case (CallRevokeMember pr ws user now)
  have "?kept c" unfolding CallRevokeMember serve.simps by (rule kept_commit) (auto dest!: RevokeMember_Inr)
  then show ?thesis by blast
next
  case (CallRotateWorkspaceKey pr ws key envs sig now)
  have "?kept c" unfolding CallRotateWorkspaceKey serve.simps by (rule kept_commit) (auto dest!: RotateWorkspaceKey_Inr(2))
  then show ?thesis by blast
next
  case (CallCompactWorkspace ws now dry)
  have "?kept c" unfolding CallCompactWorkspace serve.simps by (rule kept_commit) (auto elim!: CompactWorkspace_Inr)
  then show ?thesis by blast
qed

text \<open>Where the eligibility of a snapshot comes from.\<close>

definition released_in :: "(bytes \<Rightarrow> bytes) \<Rightarrow> verifier \<Rightarrow> ServerConfig \<Rightarrow> server_call list \<Rightarrow> snapshot_row \<Rightarrow> bool" where
  "released_in sha256 vf cfg calls n \<longleftrightarrow>
     (\<exists>before after pr ack now. calls = before @ CallAcknowledgeSnapshot pr ack now # after \<and>
        AK_SnapshotID ack = n_id n \<and> AK_WorkspaceID ack = n_ws n \<and>
        fully_acknowledged (n_id n) (n_ws n) (server_run sha256 vf cfg (before @ [CallAcknowledgeSnapshot pr ack now]) empty_server))"

lemma released_in_snoc: "released_in sha256 vf cfg calls n \<Longrightarrow> released_in sha256 vf cfg (calls @ [c]) n"
  unfolding released_in_def by (metis append_Cons append_assoc)

lemma released_in_cong: "n_id m = n_id n \<Longrightarrow> n_ws m = n_ws n \<Longrightarrow> released_in sha256 vf cfg calls m = released_in sha256 vf cfg calls n"
  by (simp add: released_in_def)

lemma eligible_history:
  "distinct (map n_id (snapshots (server_run sha256 vf cfg calls empty_server))) \<and>
   (\<forall>n\<in>set (snapshots (server_run sha256 vf cfg calls empty_server)). n_eligible n \<noteq> None \<longrightarrow> released_in sha256 vf cfg calls n)"
proof (induction calls rule: rev_induct)
  case Nil
  then show ?case by (simp add: empty_server_def)
next
  case (snoc c calls)
  let ?db = "server_run sha256 vf cfg calls empty_server"
  let ?db' = "serve sha256 vf cfg c ?db"
  have run: "server_run sha256 vf cfg (calls @ [c]) empty_server = ?db'" by (simp add: server_run_append)
  from snoc have d: "distinct (map n_id (snapshots ?db))"
    and IH: "\<And>n. n \<in> set (snapshots ?db) \<Longrightarrow> n_eligible n \<noteq> None \<Longrightarrow> released_in sha256 vf cfg (calls @ [c]) n"
    by (auto intro: released_in_snoc)
  from serve_snapshots [of c ?db sha256 vf cfg]
  have "distinct (map n_id (snapshots ?db')) \<and>
      (\<forall>n\<in>set (snapshots ?db'). n_eligible n \<noteq> None \<longrightarrow> released_in sha256 vf cfg (calls @ [c]) n)"
  proof (elim disjE)
    assume "snapshots_kept c ?db ?db'"
    then show ?thesis using d IH by (simp add: snapshots_kept_def)
  next
    assume "snapshot_stored c ?db ?db'"
    then show ?thesis using d IH by (auto simp: snapshot_stored_def)
  next
    assume "snapshot_released c ?db ?db'"
    then obtain pr ack now n0 f where c: "c = CallAcknowledgeSnapshot pr ack now"
      and s: "snapshots ?db' = update_rows (\<lambda>n. n_id n = AK_SnapshotID ack) (\<lambda>n. n\<lparr>n_eligible := f n\<rparr>) (snapshots ?db)"
      and n0: "n0 \<in> set (snapshots ?db)" "n_id n0 = AK_SnapshotID ack" "n_ws n0 = AK_WorkspaceID ack"
      and full: "fully_acknowledged (AK_SnapshotID ack) (AK_WorkspaceID ack) ?db'"
      unfolding snapshot_released_def by blast
    have this_one: "released_in sha256 vf cfg (calls @ [c]) n" if "n_id n = n_id n0" "n_ws n = n_ws n0" for n
      unfolding released_in_def c using that n0 full
      by (intro exI [of _ calls] exI [of _ "[]"] exI [of _ pr] exI [of _ ack] exI [of _ now]) (simp add: run [unfolded c] c)
    have "distinct (map n_id (snapshots ?db'))" using d by (simp add: s map_update_rows)
    moreover have "released_in sha256 vf cfg (calls @ [c]) n" if n: "n \<in> set (snapshots ?db')" "n_eligible n \<noteq> None" for n
    proof -
      from n(1) consider (old) "n \<in> set (snapshots ?db)" | (hit) m where "m \<in> set (snapshots ?db)" "n_id m = AK_SnapshotID ack" "n = m\<lparr>n_eligible := f m\<rparr>"
        unfolding s set_update_rows by blast
      then show ?thesis
      proof cases
        case old
        then show ?thesis using IH n(2) by blast
      next
        case hit
        from distinct_key [OF d hit(1) n0(1)] hit(2) n0(2) have "m = n0" by simp
        then show ?thesis using hit(3) by (intro this_one) simp_all
      qed
    qed
    ultimately show ?thesis by blast
  qed
  then show ?case unfolding run .
qed

text \<open>
  C26. Whatever compaction removes was acknowledged by everyone: when a call removes an operation
  after any history, a snapshot whose base covers it became eligible by an earlier
  acknowledgement, right after which every active device of every active member of the
  workspace had acknowledged that snapshot.
\<close>

theorem compaction_needs_every_device:
  assumes "db = server_run sha256 vf cfg calls empty_server"
    and "CompactWorkspace ws now False db = Inr (res, db')"
    and "r \<in> set (operations db)" "r \<notin> set (operations db')"
  shows "\<exists>n before after pr ack t. n \<in> set (snapshots db) \<and> o_seq r \<le> n_base n \<and> n_ws n = o_ws r \<and>
    calls = before @ CallAcknowledgeSnapshot pr ack t # after \<and> AK_SnapshotID ack = n_id n \<and>
    fully_acknowledged (n_id n) (o_ws r) (server_run sha256 vf cfg (before @ [CallAcknowledgeSnapshot pr ack t]) empty_server)"
  using assms(2)
proof (cases rule: CompactWorkspace_Inr)
  case idle
  with assms(3,4) show ?thesis by simp
next
  case (compacted n boundary)
  have "operations db' = filter (\<lambda>r. \<not> (o_ws r = ws \<and> o_seq r \<le> n_base n \<and> o_created r \<le> boundary)) (operations db)"
    by (simp add: compacted(5))
  with assms(3,4) have r: "o_ws r = n_ws n" "o_seq r \<le> n_base n" by (auto simp: compacted(2))
  from eligible_history [of sha256 vf cfg calls] compacted(1,3) have "released_in sha256 vf cfg calls n" unfolding assms(1) by blast
  with r compacted(1) show ?thesis unfolding released_in_def by metis
qed

theorem compaction_needs_every_device_witness:
  "CompactWorkspace (demo_text 3) days30 False (server_run demo_hash demo_sig_ok demo_config (demo_calls @ demo_more) empty_server)
     = Inr (\<lparr>CR_WorkspaceID = demo_text 3, CR_SnapshotID = demo_text 7, CR_BaseSequence = 1, CR_EligibleOperations = 1,
         CR_RemovedOperations = 1, CR_DryRun = False\<rparr>, demo_compacted) \<and>
   (\<exists>before after pr ack t. demo_calls @ demo_more = before @ CallAcknowledgeSnapshot pr ack t # after \<and> AK_SnapshotID ack = demo_text 7)"
proof -
  have c: "CompactWorkspace (demo_text 3) days30 False (server_run demo_hash demo_sig_ok demo_config (demo_calls @ demo_more) empty_server)
     = Inr (\<lparr>CR_WorkspaceID = demo_text 3, CR_SnapshotID = demo_text 7, CR_BaseSequence = 1, CR_EligibleOperations = 1,
         CR_RemovedOperations = 1, CR_DryRun = False\<rparr>, demo_compacted)"
    unfolding demo_more_run by (rule demo_compact)
  have "demo_row 4 1 \<in> set (operations (server_run demo_hash demo_sig_ok demo_config (demo_calls @ demo_more) empty_server))"
    "demo_row 4 1 \<notin> set (operations demo_compacted)"
    unfolding demo_more_run by (simp_all add: demo_snapshotted_def demo_log_def demo_compacted_def) (simp add: demo_row_def)
  from compaction_needs_every_device [OF refl c this] obtain n before after pr ack t where
    n: "n \<in> set (snapshots (server_run demo_hash demo_sig_ok demo_config (demo_calls @ demo_more) empty_server))"
    and split: "demo_calls @ demo_more = before @ CallAcknowledgeSnapshot pr ack t # after" "AK_SnapshotID ack = n_id n"
    by blast
  from n have "n_id n = demo_text 7"
    unfolding demo_more_run by (simp add: demo_snapshotted_def demo_snapshot_def snapshot_of_def demo_upload_def)
  with split c show ?thesis by metis
qed

section \<open>Stored rows\<close>

text \<open>
  C35. Every operation in the log was pushed and passed every check. After any history, each stored
  row comes from one accepted push of that history: its columns are exactly the fields of one
  operation of the batch, the hash of its signed payload and signature, the time of the push,
  and the sequence number that the push returned for it. At that push the operation was valid,
  its sender was an active member of the workspace, and the signature verified under the
  unrevoked key of the sender's device. So identifiers are canonical, nonce and signature have
  their lengths, the clock is not negative, and the ciphertext respects its limits.\<close>

theorem stored_operations_pushed:
  assumes "r \<in> set (operations (server_run sha256 vf cfg calls empty_server))"
  shows "(\<exists>before pr ops now after results db' op payload key.
      calls = before @ CallPushOperations pr ops now # after \<and>
      PushOperations sha256 vf cfg pr ops now (server_run sha256 vf cfg before empty_server) = Inr (results, db') \<and>
      op \<in> set ops \<and> validateOperation cfg op now = Inr () \<and> SO_DeviceID op = DeviceID pr \<and>
      isActiveMember (UserID pr) (SO_WorkspaceID op) (server_run sha256 vf cfg before empty_server) \<and>
      device_key (SO_DeviceID op) (UserID pr) (server_run sha256 vf cfg before empty_server) = Some key \<and>
      operationSignaturePayload op = Inr payload \<and>
      VerifyCanonical vf CryptoProfileV1 key SignatureDomainOperation payload (SO_Signature op) = Inr () \<and>
      r = \<lparr>o_id = SO_OpID op, o_ws = SO_WorkspaceID op, o_device = SO_DeviceID op, o_seq = o_seq r, o_physical = SO_HLCPhysicalMS op,
           o_logical = SO_HLCLogical op, o_key = SO_KeyID op, o_nonce = SO_Nonce op, o_ciphertext = SO_Ciphertext op,
           o_signature = SO_Signature op, o_hash = sha256 (payload @ SO_Signature op), o_created = unixNow now\<rparr> \<and>
      \<lparr>SP_OpID = o_id r, SP_Sequence = o_seq r, SP_Duplicate = False\<rparr> \<in> set results) \<and>
    validateID (o_id r) = Inr () \<and> validateID (o_ws r) = Inr () \<and> validateID (o_device r) = Inr () \<and> validateOpaqueID (o_key r) = Inr () \<and>
    0 \<le> o_physical r \<and> length (o_nonce r) = 24 \<and> length (o_signature r) = 64 \<and>
    16 \<le> length (o_ciphertext r) \<and> int (length (o_ciphertext r)) \<le> MaxOperationBytes cfg"
proof -
  have "row_ok cfg r" using rows_history [of cfg sha256 vf calls] assms by (simp add: rows_ok_def list_all_iff)
  with run_accepts [OF assms] show ?thesis
    unfolding accepted_row_def stored_row_def row_ok_def by (intro conjI) (blast, simp_all)
qed

theorem stored_operations_pushed_witness:
  "demo_row 5 2 \<in> set (operations (server_run demo_hash demo_sig_ok demo_config demo_calls empty_server)) \<and>
   (\<exists>before pr ops now after op. demo_calls = before @ CallPushOperations pr ops now # after \<and> op \<in> set ops \<and>
      SO_OpID op = demo_text 5 \<and> validateOperation demo_config op now = Inr ())"
proof -
  have r: "demo_row 5 2 \<in> set (operations (server_run demo_hash demo_sig_ok demo_config demo_calls empty_server))"
    unfolding demo_run by (simp add: demo_log_def)
  from stored_operations_pushed [OF r] obtain before pr ops now after op payload where
    "demo_calls = before @ CallPushOperations pr ops now # after" "op \<in> set ops" "validateOperation demo_config op now = Inr ()"
    "o_id (demo_row 5 2) = SO_OpID op" by (metis operation_row.select_convs(1))
  moreover have "o_id (demo_row 5 2) = demo_text 5" by (simp add: demo_row_def)
  ultimately show ?thesis using r by metis
qed

end
