(* ===== verification/Account_Guarantees.thy ===== *)
theory Account_Guarantees
  imports Server_Guarantees
begin

text \<open>
  What accounts, devices, sessions and keys are guaranteed after every history of server
  calls.
\<close>

section \<open>Limits and ownership\<close>

lemma core_member: "(i, u) \<in> owners db \<Longrightarrow> list_ex (\<lambda>d. d_id d = i \<and> d_user d = u) (devices db)"
  by (auto simp: owners_def dev_view_def device_core_def list_ex_iff)

text \<open>
  After every history the server holds at most five accounts, at most three active devices
  for each user, and every session belongs to the owner of its device.
\<close>

lemma account_limits:
  "length (users (server_run sha256 vf cfg calls empty_server)) \<le> 5 \<and>
   length (filter (\<lambda>d. d_user d = u \<and> d_revoked d = None) (devices (server_run sha256 vf cfg calls empty_server))) \<le> 3 \<and>
   list_all (\<lambda>s. list_ex (\<lambda>d. d_id d = s_device s \<and> d_user d = s_user s) (devices (server_run sha256 vf cfg calls empty_server)))
     (sessions (server_run sha256 vf cfg calls empty_server))"
proof -
  let ?db = "server_run sha256 vf cfg calls empty_server"
  have inv: "length (users ?db) \<le> 5" "active_devices u ?db \<le> 3" "logins ?db \<subseteq> owners ?db"
    using accounts_history [of sha256 vf cfg calls] by (auto simp: accounts_inv_def)
  have "length (filter (\<lambda>d. d_user d = u \<and> d_revoked d = None) (devices ?db)) \<le> 3"
    using inv(2) core_filter [of "\<lambda>i v k t. v = u \<and> t = None" ?db] by (simp add: active_devices_def)
  moreover have "list_all (\<lambda>s. list_ex (\<lambda>d. d_id d = s_device s \<and> d_user d = s_user s) (devices ?db)) (sessions ?db)"
    using inv(3) by (auto simp: list_all_iff logins_def intro: core_member)
  ultimately show ?thesis using inv(1) by blast
qed

section \<open>Workspace keys\<close>

text \<open>
  C25. A member is never locked out of a workspace: after every history, when an active member
  asks for its key envelopes, the answer contains one for the current key of the workspace.
\<close>

theorem member_has_current_key:
  assumes "GetKeyEnvelopes pr ws (server_run sha256 vf cfg calls empty_server) = Inr envelopes"
    and "find_ws ws (server_run sha256 vf cfg calls empty_server) = Some w"
  shows "list_ex (\<lambda>e. e_ws e = ws \<and> e_user e = UserID pr \<and> e_key e = w_key w) envelopes"
proof -
  let ?db = "server_run sha256 vf cfg calls empty_server"
  from assms(1) have m: "isActiveMember (UserID pr) ws ?db"
    and e: "set envelopes = {e \<in> set (key_envelopes ?db). e_ws e = ws \<and> e_user e = UserID pr}"
    by (auto simp: GetKeyEnvelopes_def err_simps split: if_splits)
  from m have "(ws, UserID pr) \<in> member_view ?db"
    by (auto simp: isActiveMember_def member_view_def mem_key_def list_ex_iff intro!: rev_image_eqI)
  moreover have "(ws, w_key w) \<in> key_view ?db"
    using find_ws_Some [OF assms(2)] unfolding key_view_def by (intro rev_image_eqI [of w]) simp_all
  ultimately have "(ws, UserID pr, w_key w) \<in> env_key ` set (key_envelopes ?db)"
    by (rule needed_viewD [OF key_history])
  then show ?thesis by (auto simp: env_key_def list_ex_iff e)
qed

theorem member_has_current_key_witness:
  "GetKeyEnvelopes demo_principal (demo_text 3) (server_run demo_hash demo_sig_ok demo_config demo_calls empty_server)
     = Inr [new_envelope (demo_text 3) (demo_text 1) demo_key [1] 0] \<and>
   list_ex (\<lambda>e. e_ws e = demo_text 3 \<and> e_user e = UserID demo_principal \<and> e_key e = w_key demo_workspace)
     [new_envelope (demo_text 3) (demo_text 1) demo_key [1] 0]"
proof -
  have g: "GetKeyEnvelopes demo_principal (demo_text 3) (server_run demo_hash demo_sig_ok demo_config demo_calls empty_server)
     = Inr [new_envelope (demo_text 3) (demo_text 1) demo_key [1] 0]"
    unfolding demo_run
    by (simp add: GetKeyEnvelopes_def demo_access demo_tables demo_principal_def)
       (simp add: demo_log_def demo_registered_def new_envelope_def)
  have "find_ws (demo_text 3) (server_run demo_hash demo_sig_ok demo_config demo_calls empty_server) = Some demo_workspace"
    unfolding demo_run by (rule demo_find)
  from member_has_current_key [OF g this] g show ?thesis by blast
qed

section \<open>Revocation\<close>

lemma revoked_off:
  assumes "accounts_inv db" "revoke_rows P d now db = Inr (x, db')" "\<And>y. P y \<Longrightarrow> d_id y = d \<and> d_revoked y = None"
  shows "device_off d db'"
proof -
  from assms(2) have one: "length (filter P (devices db)) = 1"
    and db': "devices db' = update_rows P (\<lambda>y. y\<lparr>d_revoked := Some (unixNow now)\<rparr>) (devices db)"
      "d \<notin> s_device ` set (sessions db')" "d \<notin> c_device ` set (challenges db')"
    by (auto simp: revoke_rows_Inr)
  from one obtain y where "y \<in> set (filter P (devices db))" by (cases "filter P (devices db)") auto
  then have y: "y \<in> set (devices db)" "P y" "d_id y = d" using assms(3) by auto
  have "distinct (map d_id (devices db))"
    using assms(1) by (simp add: accounts_inv_def dev_view_def device_core_def comp_def)
  from distinct_key [OF this _ y(1)] y(2,3) have only: "x \<in> set (devices db) \<Longrightarrow> d_id x = d \<Longrightarrow> P x" for x by auto
  have "d \<in> d_id ` set (devices db')" unfolding db'(1) using y(1,3) by (subst image_update_rows) auto
  moreover have "\<forall>z\<in>set (devices db'). d_id z = d \<longrightarrow> d_revoked z \<noteq> None"
    unfolding db'(1) set_update_rows using only by auto
  ultimately show ?thesis using db'(2,3) by (simp add: device_off_def off_rows_def)
qed

text \<open>What a device that is off cannot do any more.\<close>

lemma off_refused:
  assumes off: "device_off d db"
  shows "Authenticate sha256 token now db = Inr p \<Longrightarrow> DeviceID p \<noteq> d"
    and "\<exists>e. IssueChallenge sha256 cfg d scope now i nonce db = Inl e"
    and "CP_DeviceID proof = d \<Longrightarrow> \<exists>e. verifyChallenge sha256 vf cfg proof old now token db = Inl e"
    and "DeviceID q = d \<Longrightarrow> ops \<noteq> [] \<Longrightarrow> \<exists>e. PushOperations sha256 vf cfg q ops now db = Inl e"
proof -
  have rows: "\<And>x. x \<in> set (devices db) \<Longrightarrow> d_id x = d \<Longrightarrow> d_revoked x = None \<Longrightarrow> False" and "d \<notin> s_device ` set (sessions db)"
    using off by (auto simp: device_off_def off_rows_def)
  then show "Authenticate sha256 token now db = Inr p \<Longrightarrow> DeviceID p \<noteq> d"
    by (auto simp: Authenticate_def Let_def dest!: find_in split: if_splits option.splits)
  show "\<exists>e. IssueChallenge sha256 cfg d scope now i nonce db = Inl e"
  proof (cases "IssueChallenge sha256 cfg d scope now i nonce db")
    case (Inr y)
    then show ?thesis using IssueChallenge_Inr(2) [of sha256 cfg d scope now i nonce db "fst y" "snd y"] rows
      by (auto simp: list_ex_iff)
  qed simp
  show "\<exists>e. verifyChallenge sha256 vf cfg proof old now token db = Inl e" if "CP_DeviceID proof = d"
  proof (cases "verifyChallenge sha256 vf cfg proof old now token db")
    case (Inr y)
    obtain ses db' where "verifyChallenge sha256 vf cfg proof old now token db = Inr (ses, db')" using Inr by (cases y) auto
    then show ?thesis
      by (rule verifyChallenge_Inr) (use rows that in \<open>auto simp: challenged_device_def dest!: find_in split: if_splits\<close>)
  qed simp
  show "\<exists>e. PushOperations sha256 vf cfg q ops now db = Inl e" if q: "DeviceID q = d" "ops \<noteq> []"
  proof (cases "PushOperations sha256 vf cfg q ops now db")
    case (Inr y)
    obtain op rest where "ops = op # rest" using q(2) by (cases ops) auto
    with Inr obtain res db' where "pushOperation sha256 vf cfg q now op db = Inr (res, db')"
      by (auto simp: PushOperations_def err_simps split: if_splits)
    then show ?thesis
      by (rule pushOperation_Inr) (use rows q(1) in \<open>auto simp: device_key_def dest!: find_in\<close>)
  qed simp
qed

text \<open>
  C22. Revocation is final. After a user revoked a device of the account or an administrator
  revoked it, whatever calls follow, no token authenticates as that device, it gets no
  challenge, cannot answer one, neither to log in nor to refresh a session, and cannot push
  operations.
\<close>

theorem revoked_device_is_locked_out:
  assumes "RevokeDevice pr d now (server_run sha256 vf cfg calls empty_server) = Inr (x, db1) \<or>
      AdminRevokeDevice d now (server_run sha256 vf cfg calls empty_server) = Inr (x, db1)"
    and "db2 = server_run sha256 vf cfg later db1"
  shows "(Authenticate sha256 token t db2 = Inr p \<longrightarrow> DeviceID p \<noteq> d) \<and>
    (\<exists>e. IssueChallenge sha256 cfg d scope t i nonce db2 = Inl e) \<and>
    (CP_DeviceID proof = d \<longrightarrow> (\<exists>e. VerifyChallenge sha256 vf cfg proof t newtoken db2 = Inl e) \<and>
       (\<exists>e. RefreshSession sha256 vf cfg q proof t newtoken db2 = Inl e)) \<and>
    (DeviceID q = d \<longrightarrow> ops \<noteq> [] \<longrightarrow> (\<exists>e. PushOperations sha256 vf cfg q ops t db2 = Inl e))"
proof -
  from assms(1) have "device_off d db1"
    by (rule revoke_Inr) (rule revoked_off [OF accounts_history])
  then have off: "device_off d db2" unfolding assms(2) by (rule revoked.run_keeps) (simp add: list_all_iff)
  have refresh: "\<exists>e. RefreshSession sha256 vf cfg q proof t newtoken db2 = Inl e" if "CP_DeviceID proof = d"
    using off_refused(3) [OF off that] by (simp add: RefreshSession_def)
  show ?thesis unfolding VerifyChallenge_def
    by (intro conjI impI) (rule refresh off_refused [OF off]; assumption)+
qed

lemma demo_revoke:
  "\<exists>db1. AdminRevokeDevice (demo_text 2) 0 demo_log = Inr ((), db1)" "\<exists>db1. RevokeDevice demo_principal (demo_text 2) 0 demo_log = Inr ((), db1)"
  by (simp_all add: AdminRevokeDevice_def RevokeDevice_def revoke_rows_def demo_tables)
     (simp_all add: demo_registered_def registered_rows demo_reg_def demo_principal_def del: replicate.simps)

theorem revoked_device_is_locked_out_witness:
  "(\<exists>db1. AdminRevokeDevice (demo_text 2) 0 (server_run demo_hash demo_sig_ok demo_config demo_calls empty_server) = Inr ((), db1) \<and>
     (\<exists>e. PushOperations demo_hash demo_sig_ok demo_config demo_principal [demo_push 6] 0
        (server_run demo_hash demo_sig_ok demo_config [CallPurgeExpiredAuthRecords 0] db1) = Inl e)) \<and>
   (\<exists>db1. RevokeDevice demo_principal (demo_text 2) 0 (server_run demo_hash demo_sig_ok demo_config demo_calls empty_server) = Inr ((), db1) \<and>
     (\<exists>e. PushOperations demo_hash demo_sig_ok demo_config demo_principal [demo_push 6] 0
        (server_run demo_hash demo_sig_ok demo_config [CallPurgeExpiredAuthRecords 0] db1) = Inl e))"
proof -
  have d: "DeviceID demo_principal = demo_text 2" by (simp add: demo_principal_def)
  obtain db1 where a: "AdminRevokeDevice (demo_text 2) 0 (server_run demo_hash demo_sig_ok demo_config demo_calls empty_server) = Inr ((), db1)"
    using demo_revoke(1) unfolding demo_run by blast
  obtain db2 where b: "RevokeDevice demo_principal (demo_text 2) 0 (server_run demo_hash demo_sig_ok demo_config demo_calls empty_server) = Inr ((), db2)"
    using demo_revoke(2) unfolding demo_run by blast
  from revoked_device_is_locked_out [OF disjI2 [OF a] refl, where later = "[CallPurgeExpiredAuthRecords 0]" and q = demo_principal
      and ops = "[demo_push 6]" and t = 0] d
    revoked_device_is_locked_out [OF disjI1 [OF b] refl, where later = "[CallPurgeExpiredAuthRecords 0]" and q = demo_principal
      and ops = "[demo_push 6]" and t = 0] a b
  show ?thesis by blast
qed

section \<open>Challenges\<close>

text \<open>
  C24. A challenge can be answered once. After a login with a challenge, whatever calls follow
  (other than issuing a new challenge under the same identifier), no proof for that
  challenge is accepted, neither as a login nor as a session refresh.
\<close>

theorem challenge_single_use:
  assumes "VerifyChallenge sha256 vf cfg proof now token db = Inr (session, db1)"
    and "list_all (\<lambda>c. \<not> issues (CP_ChallengeID proof) c) later"
    and "CP_ChallengeID again = CP_ChallengeID proof"
  shows "(\<exists>e. VerifyChallenge sha256 vf cfg again t token2 (server_run sha256 vf cfg later db1) = Inl e) \<and>
    (\<exists>e. RefreshSession sha256 vf cfg pr again t token2 (server_run sha256 vf cfg later db1) = Inl e)"
proof -
  let ?db = "server_run sha256 vf cfg later db1"
  have "challenge_spent (CP_ChallengeID proof) db1" using assms(1) unfolding VerifyChallenge_def by (rule login_spends)
  then have spent: "challenge_spent (CP_ChallengeID again) ?db" unfolding assms(3) by (rule spent.run_keeps) (rule assms(2))
  have "\<exists>e. verifyChallenge sha256 vf cfg again old t token2 ?db = Inl e" for old
  proof (cases "verifyChallenge sha256 vf cfg again old t token2 ?db")
    case (Inr y)
    obtain ses db' where "verifyChallenge sha256 vf cfg again old t token2 ?db = Inr (ses, db')" using Inr by (cases y) auto
    then show ?thesis
      by (rule verifyChallenge_Inr)
         (use spent in \<open>auto simp: challenged_device_def challenge_spent_def open_challenge_def list_ex_iff list_all_iff split: if_splits\<close>)
  qed simp
  then show ?thesis by (auto simp: VerifyChallenge_def RefreshSession_def)
qed

definition demo_proof :: ChallengeProof where
  "demo_proof = \<lparr>CP_ChallengeID = demo_text 8, CP_DeviceID = demo_text 2, CP_ServerFingerprint = [], CP_Nonce = [1],
     CP_Scope = ''sync'', CP_Signature = replicate 64 0, CP_Platform = []\<rparr>"

definition demo_challenged :: server_db where
  "demo_challenged = demo_log\<lparr>challenges := [\<lparr>c_id = demo_text 8, c_device = demo_text 2, c_nonce_hash = demo_digest, c_scope = ''sync'',
     c_expires = 60, c_consumed = None, c_created = 0\<rparr>]\<rparr>"

lemma demo_login: "\<exists>session db1. VerifyChallenge demo_hash demo_sig_ok demo_config demo_proof 0 ''token'' demo_challenged = Inr (session, db1)"
proof -
  have d: "challenged_device demo_proof demo_digest 0 demo_challenged = Some (registered_device demo_reg 0)"
    by (simp add: challenged_device_def open_challenge_def demo_challenged_def demo_proof_def unixNow_def demo_tables)
       (simp add: demo_registered_def registered_device_def demo_reg_def)
  have c: "length (filter (\<lambda>c. c_id c = demo_text 8 \<and> c_consumed c = None) (challenges demo_challenged)) = 1" "sessions demo_challenged = []"
    by (simp_all add: demo_challenged_def demo_log_def demo_registered_def empty_server_def)
  have f: "CP_ChallengeID demo_proof = demo_text 8" "CP_DeviceID demo_proof = demo_text 2" "CP_ServerFingerprint demo_proof = serverFingerprint demo_config"
    "CP_Nonce demo_proof \<noteq> []" "CP_Scope demo_proof = ''sync''" "length (CP_Signature demo_proof) = 64"
    by (simp_all add: demo_proof_def demo_config_def)
  show ?thesis
    using c by (simp add: VerifyChallenge_def verifyChallenge_def f d validScope_def Let_def demo_sig_ok_def drop_session_def)
qed

theorem challenge_single_use_witness:
  "\<exists>session db1. VerifyChallenge demo_hash demo_sig_ok demo_config demo_proof 0 ''token'' demo_challenged = Inr (session, db1) \<and>
     (\<exists>e. VerifyChallenge demo_hash demo_sig_ok demo_config demo_proof 1 ''other''
        (server_run demo_hash demo_sig_ok demo_config [CallPurgeExpiredAuthRecords 0] db1) = Inl e)"
proof -
  obtain session db1 where l: "VerifyChallenge demo_hash demo_sig_ok demo_config demo_proof 0 ''token'' demo_challenged = Inr (session, db1)"
    using demo_login by blast
  have "list_all (\<lambda>c. \<not> issues (CP_ChallengeID demo_proof) c) [CallPurgeExpiredAuthRecords 0]" by simp
  from challenge_single_use [OF l this refl] l show ?thesis by blast
qed

section \<open>Keybags\<close>

text \<open>
  C27. No keybag update is lost. After a write against a version succeeded, the stored keybag is
  the written one with the next version, and a second write against the old version is
  refused with a conflict that carries it.
\<close>

theorem PutKeybag_no_lost_update:
  assumes "PutKeybag cfg pr version ciphertext now db = Inr (kb, db1)"
    and "distinct (map k_user (keybags db))"
    and "0 < length other" "int (length other) \<le> MaxOperationBytes cfg * 4"
  shows "GetKeybag pr db1 = Inr kb \<and> KB_Version kb = version + 1 \<and> KB_Ciphertext kb = ciphertext \<and>
    PutKeybag cfg pr version other t db1 = Inl (ErrConflict, Some kb)"
proof -
  let ?hit = "\<lambda>k. k_user k = UserID pr \<and> k_version k = version"
  let ?new = "\<lambda>k. k\<lparr>k_version := k_version k + 1, k_ciphertext := ciphertext, k_updated := unixNow now\<rparr>"
  from assms(1) have v: "0 < version" and one: "length (filter ?hit (keybags db)) = 1"
    and kb: "kb = \<lparr>KB_Version = version + 1, KB_Ciphertext = ciphertext\<rparr>"
    and db1: "keybags db1 = update_rows ?hit ?new (keybags db)"
    by (auto simp: PutKeybag_def Let_def split: if_splits sum.splits)
  from one obtain k where "k \<in> set (filter ?hit (keybags db))" by (cases "filter ?hit (keybags db)") auto
  then have k: "k \<in> set (keybags db)" "k_user k = UserID pr" "k_version k = version" by auto
  have only: "y = k" if "y \<in> set (keybags db)" "k_user y = UserID pr" for y
    using distinct_key [OF assms(2) that(1) k(1)] that(2) k(2) by simp
  have rows: "y = ?new k" if y: "y \<in> set (keybags db1)" "k_user y = UserID pr" for y
  proof -
    from y(1) consider (old) "y \<in> set (keybags db)" "\<not> ?hit y" | (hit) z where "z \<in> set (keybags db)" "?hit z" "y = ?new z"
      unfolding db1 set_update_rows by blast
    then show ?thesis
    proof cases
      case old
      with only [OF old(1) y(2)] k y(2) show ?thesis by simp
    next
      case hit
      with only [OF hit(1)] show ?thesis by blast
    qed
  qed
  have new: "?new k \<in> set (keybags db1)" "k_user (?new k) = UserID pr" unfolding db1 set_update_rows using k by (blast, simp)
  have found: "find (\<lambda>y. k_user y = UserID pr) (keybags db1) = Some (?new k)"
  proof (cases "find (\<lambda>y. k_user y = UserID pr) (keybags db1)")
    case None
    with new show ?thesis unfolding find_None_iff by blast
  next
    case (Some y)
    with find_in [OF Some] rows [of y] show ?thesis by blast
  qed
  then have g: "GetKeybag pr db1 = Inr kb" by (simp add: GetKeybag_def kb k)
  have "\<not> ?hit y" if "y \<in> set (keybags db1)" for y
  proof
    assume h: "?hit y"
    with rows [OF that] have "k_version y = k_version k + 1" by simp
    with h k(3) show False by simp
  qed
  then have none: "filter ?hit (keybags db1) = []" by (simp add: filter_empty_conv)
  have "PutKeybag cfg pr version other t db1 = Inl (ErrConflict, Some kb)"
    using v assms(3,4) by (simp add: PutKeybag_def Let_def none g)
  with g kb show ?thesis by simp
qed

theorem PutKeybag_no_lost_update_witness:
  "\<exists>db1. PutKeybag demo_config demo_principal 1 [7] 0 demo_log = Inr (\<lparr>KB_Version = 2, KB_Ciphertext = [7]\<rparr>, db1) \<and>
     PutKeybag demo_config demo_principal 1 [8] 0 db1 = Inl (ErrConflict, Some \<lparr>KB_Version = 2, KB_Ciphertext = [7]\<rparr>)"
proof -
  have kb: "keybags demo_log = [registered_keybag demo_reg 0]" by (simp add: demo_log_def demo_registered_def)
  have k: "k_user (registered_keybag demo_reg 0) = demo_text 1" "k_version (registered_keybag demo_reg 0) = 1"
    by (simp_all add: registered_keybag_def demo_reg_def)
  have m: "MaxOperationBytes demo_config = 1000" "UserID demo_principal = demo_text 1" by (simp_all add: demo_config_def demo_principal_def)
  obtain db1 where p: "PutKeybag demo_config demo_principal 1 [7] 0 demo_log = Inr (\<lparr>KB_Version = 2, KB_Ciphertext = [7]\<rparr>, db1)"
    by (simp add: PutKeybag_def kb k m Let_def)
  from PutKeybag_no_lost_update [OF p, of "[8]" 0] p show ?thesis by (simp add: kb m)
qed

end
