(* ===== verification/Pub_Sub.thy ===== *)
theory Pub_Sub
  imports Server_Tables "HOL-Library.Multiset"
begin

text \<open>
  Live cursor hints: \<^verbatim>\<open>server/pubsub.go\<close>. Every method holds the mutex from beginning to end,
  so a history is a sequence of calls. A channel has capacity one; it is its buffered value,
  and the reader empties it. The map from workspaces to channels is the list of channels,
  each with its workspace and number.
\<close>

record CursorHint =
  Hint_Protocol :: string
  Hint_WorkspaceID :: string
  Hint_LatestSeq :: int
  Hint_CursorEpoch :: int

record channel =
  chan_ws :: string
  chan_id :: u64
  chan_buffer :: "CursorHint option"

record PubSub =
  ps_nextID :: u64
  ps_channels :: "channel list"
  ps_byUser :: "string \<Rightarrow> int"
  ps_maxTotal :: int
  ps_total :: int

text \<open>What the cancel function of a subscription captures.\<close>

record Subscription =
  sub_ws :: string
  sub_user :: string
  sub_id :: u64

abbreviation maxSubscriptionsPerUser :: int where
  "maxSubscriptionsPerUser \<equiv> 8"

definition NewPubSub :: "int \<Rightarrow> PubSub" where
  "NewPubSub maxTotal = \<lparr>ps_nextID = 0, ps_channels = [], ps_byUser = (\<lambda>_. 0), ps_maxTotal = maxTotal, ps_total = 0\<rparr>"

definition Subscribe :: "string \<Rightarrow> string \<Rightarrow> PubSub \<Rightarrow> server_error + Subscription \<times> PubSub" where
  "Subscribe workspaceID userID p =
     (if ps_maxTotal p \<le> ps_total p \<or> maxSubscriptionsPerUser \<le> ps_byUser p userID then Inl ErrRateLimited
      else
        let i = ps_nextID p + 1 in
        Inr (\<lparr>sub_ws = workspaceID, sub_user = userID, sub_id = i\<rparr>,
          p\<lparr>ps_nextID := i,
            ps_channels := filter (\<lambda>c. \<not> (chan_ws c = workspaceID \<and> chan_id c = i)) (ps_channels p)
              @ [\<lparr>chan_ws = workspaceID, chan_id = i, chan_buffer = None\<rparr>],
            ps_byUser := (ps_byUser p)(userID := ps_byUser p userID + 1), ps_total := ps_total p + 1\<rparr>))"

text \<open>
  The three non-blocking selects on one channel: send; else drop the buffered hint and send
  again.
\<close>

definition offer :: "CursorHint \<Rightarrow> channel \<Rightarrow> channel" where
  "offer hint c =
     (case chan_buffer c of
        None \<Rightarrow> c\<lparr>chan_buffer := Some hint\<rparr>
      | Some old \<Rightarrow>
          let c = c\<lparr>chan_buffer := None\<rparr> in
          case chan_buffer c of None \<Rightarrow> c\<lparr>chan_buffer := Some hint\<rparr> | Some _ \<Rightarrow> c)"

definition Publish :: "CursorHint \<Rightarrow> PubSub \<Rightarrow> PubSub" where
  "Publish hint p =
     p\<lparr>ps_channels := map (\<lambda>c. if chan_ws c = Hint_WorkspaceID hint then offer hint c else c) (ps_channels p)\<rparr>"

definition unsubscribe :: "Subscription \<Rightarrow> PubSub \<Rightarrow> PubSub" where
  "unsubscribe s p =
     (let same = (\<lambda>c. chan_ws c = sub_ws s \<and> chan_id c = sub_id s) in
      if \<not> list_ex same (ps_channels p) then p
      else
        let n = ps_byUser p (sub_user s) - 1 in
        p\<lparr>ps_channels := filter (\<lambda>c. \<not> same c) (ps_channels p),
          ps_byUser := (ps_byUser p)(sub_user s := (if n \<le> 0 then 0 else n)),
          ps_total := ps_total p - 1\<rparr>)"

definition subscriberCount :: "PubSub \<Rightarrow> int" where
  "subscriberCount p = ps_total p"

text \<open>A reader takes the buffered hint.\<close>

definition receive :: "Subscription \<Rightarrow> PubSub \<Rightarrow> CursorHint option \<times> PubSub" where
  "receive s p =
     (let same = (\<lambda>c. chan_ws c = sub_ws s \<and> chan_id c = sub_id s) in
      (Option.bind (find same (ps_channels p)) chan_buffer,
       p\<lparr>ps_channels := map (\<lambda>c. if same c then c\<lparr>chan_buffer := None\<rparr> else c) (ps_channels p)\<rparr>))"

section \<open>Histories\<close>

text \<open>
  The live subscriptions are those handed out and not yet closed; only their holders can
  close them, any number of times.
\<close>

inductive pubsub_reach :: "int \<Rightarrow> Subscription list \<Rightarrow> Subscription list \<Rightarrow> PubSub \<Rightarrow> bool" for maxTotal where
  start: "pubsub_reach maxTotal [] [] (NewPubSub maxTotal)"
| subscribe: "pubsub_reach maxTotal live closed p \<Longrightarrow> Subscribe ws user p = Inr (s, p') \<Longrightarrow>
    length live + length closed < 2 ^ 64 - 1 \<Longrightarrow> pubsub_reach maxTotal (live @ [s]) closed p'"
| close_live: "pubsub_reach maxTotal live closed p \<Longrightarrow> s \<in> set live \<Longrightarrow>
    pubsub_reach maxTotal (remove1 s live) (s # closed) (unsubscribe s p)"
| close_again: "pubsub_reach maxTotal live closed p \<Longrightarrow> s \<in> set closed \<Longrightarrow> pubsub_reach maxTotal live closed (unsubscribe s p)"
| publish: "pubsub_reach maxTotal live closed p \<Longrightarrow> pubsub_reach maxTotal live closed (Publish hint p)"
| read: "pubsub_reach maxTotal live closed p \<Longrightarrow> pubsub_reach maxTotal live closed (snd (receive s p))"

inductive_cases pubsub_reachE: "pubsub_reach maxTotal live closed p"

definition chan_key :: "channel \<Rightarrow> string \<times> u64" where
  "chan_key c = (chan_ws c, chan_id c)"

definition sub_key :: "Subscription \<Rightarrow> string \<times> u64" where
  "sub_key s = (sub_ws s, sub_id s)"

definition user_count :: "Subscription list \<Rightarrow> string \<Rightarrow> int" where
  "user_count live u = int (length (filter (\<lambda>s. sub_user s = u) live))"

definition pubsub_inv :: "int \<Rightarrow> Subscription list \<Rightarrow> Subscription list \<Rightarrow> PubSub \<Rightarrow> bool" where
  "pubsub_inv maxTotal live closed p \<longleftrightarrow>
     map chan_key (ps_channels p) = map sub_key live \<and> distinct (map sub_id (live @ closed)) \<and>
     (\<forall>s\<in>set (live @ closed). unat (sub_id s) \<le> length live + length closed) \<and>
     unat (ps_nextID p) = length live + length closed \<and>
     ps_total p = int (length live) \<and> ps_maxTotal p = maxTotal \<and> ps_total p \<le> max 0 maxTotal \<and>
     ps_byUser p = user_count live \<and> (\<forall>u. user_count live u \<le> 8)"

lemma offer_key [simp]: "chan_key (offer hint c) = chan_key c" "chan_ws (offer hint c) = chan_ws c" "chan_id (offer hint c) = chan_id c"
  by (auto simp: offer_def chan_key_def split: option.splits)

lemma offer_buffer [simp]: "chan_buffer (offer hint c) = Some hint"
  by (auto simp: offer_def split: option.splits)

lemma same_key: "chan_ws c = sub_ws s \<and> chan_id c = sub_id s \<longleftrightarrow> chan_key c = sub_key s"
  by (simp add: chan_key_def sub_key_def)

lemma filter_keys: "map key (filter (\<lambda>c. key c \<noteq> k) xs) = filter (\<lambda>x. x \<noteq> k) (map key xs)"
  by (induction xs) auto

lemma distinct_sub_id: "distinct (map sub_id xs) \<Longrightarrow> s \<in> set xs \<Longrightarrow> t \<in> set xs \<Longrightarrow> sub_id s = sub_id t \<Longrightarrow> s = t"
  by (metis distinct_map inj_onD)

text \<open>Removing a live subscription removes exactly its channel.\<close>

lemma keys_remove:
  assumes "distinct (map sub_id live)" "s \<in> set live"
  shows "filter (\<lambda>k. k \<noteq> sub_key s) (map sub_key live) = map sub_key (remove1 s live)"
proof -
  have "distinct live" using assms(1) by (simp add: distinct_map)
  then have "remove1 s live = filter (\<lambda>t. t \<noteq> s) live" by (simp add: distinct_remove1_removeAll removeAll_filter_not_eq eq_commute [of s])
  moreover have "sub_key t \<noteq> sub_key s \<longleftrightarrow> t \<noteq> s" if "t \<in> set live" for t
    using distinct_sub_id [OF assms(1) that assms(2)] by (auto simp: sub_key_def)
  then have "filter (\<lambda>t. sub_key t \<noteq> sub_key s) live = filter (\<lambda>t. t \<noteq> s) live" by (intro filter_cong) auto
  ultimately show ?thesis by (simp add: filter_map comp_def)
qed

lemma count_remove:
  assumes "s \<in> set live"
  shows "user_count (remove1 s live) = (user_count live)(sub_user s := user_count live (sub_user s) - 1)"
    and "0 < user_count live (sub_user s)"
proof -
  have "0 < length (filter (\<lambda>t. sub_user t = sub_user s) live)" using assms by (auto simp: filter_empty_conv)
  note pos = this
  show "0 < user_count live (sub_user s)" unfolding user_count_def using pos by linarith
  have "user_count (remove1 s live) u = ((user_count live)(sub_user s := user_count live (sub_user s) - 1)) u" for u
    using assms pos by (auto simp: user_count_def filter_remove1 length_remove1 simp flip: length_greater_0_conv)
  then show "user_count (remove1 s live) = (user_count live)(sub_user s := user_count live (sub_user s) - 1)" ..
qed

lemma user_count_snoc: "user_count (live @ [s]) = (user_count live)(sub_user s := user_count live (sub_user s) + 1)"
  by (auto simp: user_count_def)

lemma pubsub_inv_subscribe:
  assumes inv: "pubsub_inv maxTotal live closed p" and sub: "Subscribe ws user p = Inr (s, p')"
    and room: "length live + length closed < 2 ^ 64 - 1"
  shows "pubsub_inv maxTotal (live @ [s]) closed p'"
proof -
  let ?n = "length live + length closed"
  let ?i = "ps_nextID p + 1"
  from inv have i0: "unat (ps_nextID p) = ?n" and old: "\<And>t. t \<in> set (live @ closed) \<Longrightarrow> unat (sub_id t) \<le> ?n"
    and keys: "map chan_key (ps_channels p) = map sub_key live" and d: "distinct (map sub_id (live @ closed))"
    by (auto simp: pubsub_inv_def)
  have i: "unat ?i = ?n + 1" using room i0 by (subst unat_add_lem [THEN iffD1]) simp_all
  have fresh: "sub_id t \<noteq> ?i" if "t \<in> set (live @ closed)" for t using old [OF that] i by auto
  have "chan_id c \<noteq> ?i" if "c \<in> set (ps_channels p)" for c
  proof -
    from that have "chan_key c \<in> set (map sub_key live)" unfolding keys [symmetric] by simp
    then obtain t where "t \<in> set live" "chan_key c = sub_key t" by auto
    with fresh [of t] show ?thesis by (simp add: chan_key_def sub_key_def)
  qed
  then have same: "filter (\<lambda>c. \<not> (chan_ws c = ws \<and> chan_id c = ?i)) (ps_channels p) = ps_channels p" by (auto simp: filter_id_conv)
  from sub have lim: "ps_total p < ps_maxTotal p" "ps_byUser p user < 8"
    and s: "s = \<lparr>sub_ws = ws, sub_user = user, sub_id = ?i\<rparr>"
    and p': "p' = p\<lparr>ps_nextID := ?i, ps_channels := ps_channels p @ [\<lparr>chan_ws = ws, chan_id = ?i, chan_buffer = None\<rparr>],
       ps_byUser := (ps_byUser p)(user := ps_byUser p user + 1), ps_total := ps_total p + 1\<rparr>"
    by (auto simp only: Subscribe_def Let_def not_le same sum.inject prod.inject split: if_splits)
  have "?i \<notin> sub_id ` set (live @ closed)" using fresh by (metis imageE)
  then have "distinct (map sub_id ((live @ [s]) @ closed))" using d by (auto simp: s)
  moreover have "\<forall>t\<in>set ((live @ [s]) @ closed). unat (sub_id t) \<le> ?n + 1" using old i by (auto simp: s intro: le_SucI)
  ultimately show ?thesis
    using inv lim i by (simp add: pubsub_inv_def p' keys user_count_snoc) (simp add: s chan_key_def sub_key_def)
qed

lemma pubsub_inv_close:
  assumes inv: "pubsub_inv maxTotal live closed p" and s: "s \<in> set live"
  shows "pubsub_inv maxTotal (remove1 s live) (s # closed) (unsubscribe s p)"
proof -
  from inv have keys: "map chan_key (ps_channels p) = map sub_key live" and d: "distinct (map sub_id (live @ closed))"
    and count: "ps_byUser p = user_count live"
    by (auto simp: pubsub_inv_def)
  have "sub_key s \<in> set (map chan_key (ps_channels p))" unfolding keys using s by simp
  then have ex: "list_ex (\<lambda>c. chan_key c = sub_key s) (ps_channels p)" by (auto simp: list_ex_iff)
  have len: "0 < length live" using s by (cases live) auto
  note pos = count_remove(2) [OF s]
  have un: "unsubscribe s p = p\<lparr>ps_channels := filter (\<lambda>c. chan_key c \<noteq> sub_key s) (ps_channels p),
      ps_byUser := (ps_byUser p)(sub_user s := ps_byUser p (sub_user s) - 1), ps_total := ps_total p - 1\<rparr>"
  proof -
    have "(if user_count live (sub_user s) - 1 \<le> 0 then 0 else user_count live (sub_user s) - 1) = user_count live (sub_user s) - 1"
      using pos by simp
    then show ?thesis using ex by (simp add: unsubscribe_def Let_def same_key count)
  qed
  have "map chan_key (ps_channels (unsubscribe s p)) = map sub_key (remove1 s live)"
    using d s by (simp add: un filter_keys keys keys_remove)
  moreover have "mset (remove1 s live @ s # closed) = mset (live @ closed)" using s by simp
  then have "image_mset sub_id (mset (remove1 s live @ s # closed)) = image_mset sub_id (mset (live @ closed))" by (rule arg_cong)
  then have "mset (map sub_id (remove1 s live @ s # closed)) = mset (map sub_id (live @ closed))" unfolding mset_map .
  then have "distinct (map sub_id (remove1 s live @ s # closed))" using d mset_eq_imp_distinct_iff by blast
  moreover have "set (remove1 s live @ s # closed) = set (live @ closed)"
  proof -
    have "mset (remove1 s live @ s # closed) = mset (live @ closed)" using s by simp
    then show ?thesis by (rule mset_eq_setD)
  qed
  moreover have "length (remove1 s live) + length (s # closed) = length live + length closed" using s len by (simp add: length_remove1)
  moreover have "ps_byUser (unsubscribe s p) = user_count (remove1 s live)" by (simp add: un count count_remove(1) [OF s])
  moreover have "user_count (remove1 s live) u \<le> 8" for u
  proof -
    have "user_count live u \<le> 8" for u using inv by (simp add: pubsub_inv_def)
    then show ?thesis unfolding count_remove(1) [OF s] by (simp add: le_diff_eq add_increasing2 order_trans [of _ 8])
  qed
  moreover have "ps_total (unsubscribe s p) = int (length (remove1 s live))" "ps_maxTotal (unsubscribe s p) = maxTotal"
    "ps_total (unsubscribe s p) \<le> max 0 maxTotal" "ps_nextID (unsubscribe s p) = ps_nextID p"
  proof -
    have "int (length live - 1) = int (length live) - 1" using len by linarith
    then show "ps_total (unsubscribe s p) = int (length (remove1 s live))" "ps_maxTotal (unsubscribe s p) = maxTotal"
      "ps_total (unsubscribe s p) \<le> max 0 maxTotal" "ps_nextID (unsubscribe s p) = ps_nextID p"
      using inv s by (simp_all add: pubsub_inv_def un length_remove1)
  qed
  ultimately show ?thesis using inv unfolding pubsub_inv_def by metis
qed

lemma pubsub_inv_again:
  assumes inv: "pubsub_inv maxTotal live closed p" and s: "s \<in> set closed"
  shows "unsubscribe s p = p"
proof -
  from inv have keys: "map chan_key (ps_channels p) = map sub_key live" and d: "distinct (map sub_id (live @ closed))"
    by (auto simp: pubsub_inv_def)
  have "sub_key s \<notin> set (map sub_key live)" using d s by (auto simp: sub_key_def)
  then have "\<not> list_ex (\<lambda>c. chan_key c = sub_key s) (ps_channels p)"
    unfolding keys [symmetric] set_map list_ex_iff by (metis image_eqI)
  then show ?thesis by (simp add: unsubscribe_def same_key)
qed

lemma inv_channels:
  assumes "pubsub_inv maxTotal live closed p" "map chan_key (ps_channels p') = map chan_key (ps_channels p)"
    and "ps_nextID p' = ps_nextID p" "ps_total p' = ps_total p" "ps_maxTotal p' = ps_maxTotal p" "ps_byUser p' = ps_byUser p"
  shows "pubsub_inv maxTotal live closed p'"
  using assms(1) unfolding pubsub_inv_def assms(2-) .

lemma pubsub_reach_inv: "pubsub_reach maxTotal live closed p \<Longrightarrow> pubsub_inv maxTotal live closed p"
proof (induction rule: pubsub_reach.induct)
  case start
  then show ?case by (simp add: pubsub_inv_def NewPubSub_def user_count_def fun_eq_iff)
next
  case (subscribe live closed p ws user s p')
  then show ?case by (blast intro: pubsub_inv_subscribe)
next
  case (close_live live closed p s)
  then show ?case by (blast intro: pubsub_inv_close)
next
  case (close_again live closed p s)
  then show ?case by (simp add: pubsub_inv_again)
next
  case (publish live closed p hint)
  have "map chan_key (map (\<lambda>c. if chan_ws c = Hint_WorkspaceID hint then offer hint c else c) cs) = map chan_key cs" for cs
    by (induction cs) auto
  then show ?case by (intro inv_channels [OF publish(2)]) (simp_all add: Publish_def)
next
  case (read live closed p s)
  have "map chan_key (map (\<lambda>c. if chan_key c = sub_key s then c\<lparr>chan_buffer := None\<rparr> else c) cs) = map chan_key cs" for cs
    by (induction cs) (auto simp: chan_key_def)
  then show ?case by (intro inv_channels [OF read(2)]) (simp_all add: receive_def Let_def same_key)
qed

text \<open>
  The hint broker never exceeds its budgets. Over any sequence of subscribing, publishing,
  reading and closing (also closing twice), the open channels are exactly those of the live
  subscriptions, their number is the broker's total and stays within the global limit, and
  no user holds more than eight.
\<close>

lemma pubsub_within_budget:
  assumes "pubsub_reach maxTotal live closed p"
  shows "map chan_key (ps_channels p) = map sub_key live \<and> subscriberCount p = int (length live) \<and>
    subscriberCount p \<le> max 0 maxTotal \<and> length (filter (\<lambda>s. sub_user s = u) live) \<le> 8"
proof -
  have inv: "pubsub_inv maxTotal live closed p" using assms by (rule pubsub_reach_inv)
  then have "user_count live u \<le> 8" by (simp add: pubsub_inv_def)
  then have "length (filter (\<lambda>s. sub_user s = u) live) \<le> 8" by (simp add: user_count_def)
  with inv show ?thesis by (simp add: pubsub_inv_def subscriberCount_def)
qed

text \<open>
  C29. Publishing reaches every live subscription of the workspace: whatever its channel held, the
  next value it reads is the published hint, so a slow reader gets the latest hint and never
  blocks the publisher.
\<close>

theorem Publish_delivers:
  assumes "pubsub_reach maxTotal live closed p" "s \<in> set live" "sub_ws s = Hint_WorkspaceID hint"
  shows "fst (receive s (Publish hint p)) = Some hint"
proof -
  have keys: "map chan_key (ps_channels p) = map sub_key live"
    using pubsub_reach_inv [OF assms(1)] by (simp add: pubsub_inv_def)
  have "sub_key s \<in> set (map chan_key (ps_channels p))" unfolding keys using assms(2) by simp
  then obtain c where c: "c \<in> set (ps_channels p)" "chan_key c = sub_key s" by auto
  let ?cs = "ps_channels (Publish hint p)"
  have all: "chan_key d = sub_key s \<Longrightarrow> chan_buffer d = Some hint" if "d \<in> set ?cs" for d
    using that assms(3) by (auto simp: Publish_def chan_key_def sub_key_def split: if_splits)
  have "offer hint c \<in> set ?cs" "chan_key (offer hint c) = sub_key s"
    using c assms(3) by (auto simp: Publish_def chan_key_def sub_key_def intro!: rev_image_eqI)
  then obtain d where "find (\<lambda>d. chan_key d = sub_key s) ?cs = Some d" by (cases "find (\<lambda>d. chan_key d = sub_key s) ?cs") (auto simp: find_None_iff)
  moreover from this have "d \<in> set ?cs" "chan_key d = sub_key s" by (auto simp: find_Some_iff)
  ultimately show ?thesis using all by (simp add: receive_def Let_def same_key)
qed

theorem Publish_delivers_witness:
  "fst (receive \<lparr>sub_ws = ''w'', sub_user = ''u'', sub_id = 1\<rparr>
     (Publish \<lparr>Hint_Protocol = ''beresta.sync.v1'', Hint_WorkspaceID = ''w'', Hint_LatestSeq = 3, Hint_CursorEpoch = 1\<rparr>
       (snd (projr (Subscribe ''w'' ''u'' (NewPubSub 1))))))
   = Some \<lparr>Hint_Protocol = ''beresta.sync.v1'', Hint_WorkspaceID = ''w'', Hint_LatestSeq = 3, Hint_CursorEpoch = 1\<rparr>"
proof -
  have "Subscribe ''w'' ''u'' (NewPubSub 1) = Inr (\<lparr>sub_ws = ''w'', sub_user = ''u'', sub_id = 1\<rparr>, snd (projr (Subscribe ''w'' ''u'' (NewPubSub 1))))"
    by (simp add: Subscribe_def NewPubSub_def Let_def)
  from pubsub_reach.subscribe [OF pubsub_reach.start this]
  have r: "pubsub_reach 1 [\<lparr>sub_ws = ''w'', sub_user = ''u'', sub_id = 1\<rparr>] [] (snd (projr (Subscribe ''w'' ''u'' (NewPubSub 1))))" by simp
  show ?thesis by (rule Publish_delivers [OF r]) simp_all
qed

end
