(* ===== verification/Server_API.thy ===== *)
theory Server_API
  imports HTTP_Client Account_Guarantees Pub_Sub
begin

text \<open>
  The part of \<^verbatim>\<open>server/api.go\<close> that the HTTP transport talks to: the middleware, the login
  handlers, the two synchronization handlers and the error mapping, as a network for
  \<open>HTTP_Client\<close>. The rate limiters and the size check of the JSON decoder are arguments; the
  random identifiers and tokens come from a numbered supply. The storage methods that write are
  transactions, one step each; \<open>PullChanges\<close> reads in three statements outside a transaction, so
  the requests of other devices that are committed before and between them are an argument too
  (\<open>lim_others\<close>).
\<close>

section \<open>Handlers\<close>

record server_world =
  sv_db :: server_db
  sv_now :: int
  sv_pubsub :: PubSub
  sv_drawn :: nat

record server_limits =
  lim_ip :: "http_request \<Rightarrow> server_world \<Rightarrow> bool"
  lim_device :: "string \<Rightarrow> server_world \<Rightarrow> bool"
  lim_body :: "http_request \<Rightarrow> bool"
  lim_text :: "nat \<Rightarrow> string"
  lim_others :: "nat \<Rightarrow> server_world \<Rightarrow> server_call list"

text \<open>
  What other requests commit at the \<open>n\<close>th point where this one gives way: any calls whose numbers
  fit the types of their fields.
\<close>

definition others ::
  "(bytes \<Rightarrow> bytes) \<Rightarrow> verifier \<Rightarrow> ServerConfig \<Rightarrow> server_limits \<Rightarrow> nat \<Rightarrow> server_world \<Rightarrow> server_world" where
  "others sha256 vf cfg lim n w = w\<lparr>sv_db := server_run sha256 vf cfg (filter int64_call (lim_others lim n w)) (sv_db w)\<rparr>"

definition writeAPIError :: "server_error \<Rightarrow> http_reply" where
  "writeAPIError err =
     (case err of
        ErrInvalid \<Rightarrow> Response 400 ''invalid_request'' None
      | ErrUnauthorized \<Rightarrow> Response 401 ''unauthorized'' None
      | ErrForbidden \<Rightarrow> Response 404 ''not_found'' None
      | ErrNotFound \<Rightarrow> Response 404 ''not_found'' None
      | ErrConflict \<Rightarrow> Response 409 ''conflict'' None
      | ErrCursorCompacted \<Rightarrow> Response 409 ''snapshot_required'' None
      | ErrQuota \<Rightarrow> Response 413 ''quota_exceeded'' None
      | ErrRateLimited \<Rightarrow> Response 429 ''rate_limited'' None
      | ErrSql \<Rightarrow> Response 500 ''internal_error'' None)"

text \<open>A storage call with its result written out; a failed call leaves the database alone.\<close>

definition answer ::
  "int \<Rightarrow> ('a \<Rightarrow> http_payload) \<Rightarrow> server_error + 'a \<times> server_db \<Rightarrow> server_world \<Rightarrow> http_reply \<times> server_world" where
  "answer status wrap r w =
     (case r of
        Inl e \<Rightarrow> (writeAPIError e, w)
      | Inr (x, db) \<Rightarrow> (Response status [] (Some (wrap x)), w\<lparr>sv_db := db\<rparr>))"

text \<open>\<^verbatim>\<open>strconv.ParseInt\<close> of a number that the client printed.\<close>

definition parseIntQuery :: "int \<Rightarrow> server_error + int" where
  "parseIntQuery value = (if 2 ^ 63 \<le> value \<or> value < - (2 ^ 63) then Inl ErrInvalid else Inr value)"

definition api_issueChallenge ::
  "(bytes \<Rightarrow> bytes) \<Rightarrow> ServerConfig \<Rightarrow> server_limits \<Rightarrow> string \<Rightarrow> string \<Rightarrow> server_world \<Rightarrow> http_reply \<times> server_world" where
  "api_issueChallenge sha256 cfg lim device scope w =
     answer 201 PayloadChallenge
       (IssueChallenge sha256 cfg device scope (sv_now w) (lim_text lim (sv_drawn w)) (lim_text lim (sv_drawn w + 1)) (sv_db w))
       (w\<lparr>sv_drawn := sv_drawn w + 2\<rparr>)"

definition api_verifyChallenge ::
  "(bytes \<Rightarrow> bytes) \<Rightarrow> verifier \<Rightarrow> ServerConfig \<Rightarrow> server_limits \<Rightarrow> ChallengeProof \<Rightarrow> server_world \<Rightarrow> http_reply \<times> server_world" where
  "api_verifyChallenge sha256 vf cfg lim proof w =
     (if \<not> lim_body lim (PostVerify proof) then (writeAPIError ErrInvalid, w)
      else answer 201 PayloadSession (VerifyChallenge sha256 vf cfg proof (sv_now w) (lim_text lim (sv_drawn w)) (sv_db w))
             (w\<lparr>sv_drawn := sv_drawn w + 1\<rparr>))"

definition api_refreshSession ::
  "(bytes \<Rightarrow> bytes) \<Rightarrow> verifier \<Rightarrow> ServerConfig \<Rightarrow> server_limits \<Rightarrow> Principal \<Rightarrow> ChallengeProof \<Rightarrow> server_world \<Rightarrow> http_reply \<times> server_world" where
  "api_refreshSession sha256 vf cfg lim pr proof w =
     (if \<not> lim_body lim (PostRefresh proof) then (writeAPIError ErrInvalid, w)
      else answer 201 PayloadSession (RefreshSession sha256 vf cfg pr proof (sv_now w) (lim_text lim (sv_drawn w)) (sv_db w))
             (w\<lparr>sv_drawn := sv_drawn w + 1\<rparr>))"

definition publishWorkspace :: "string \<Rightarrow> server_world \<Rightarrow> server_world" where
  "publishWorkspace ws w =
     (case find_ws ws (sv_db w) of
        None \<Rightarrow> w
      | Some r \<Rightarrow>
          w\<lparr>sv_pubsub := Publish \<lparr>Hint_Protocol = ''beresta.sync.v1'', Hint_WorkspaceID = ws, Hint_LatestSeq = w_latest r,
              Hint_CursorEpoch = w_epoch r\<rparr> (sv_pubsub w)\<rparr>)"

text \<open>The loop with \<^verbatim>\<open>seen\<close> publishes once per workspace, at its first occurrence.\<close>

fun publish_all :: "string set \<Rightarrow> ServerOperation list \<Rightarrow> server_world \<Rightarrow> server_world" where
  "publish_all seen [] w = w"
| "publish_all seen (op # ops) w =
     (if SO_WorkspaceID op \<in> seen then publish_all seen ops w
      else publish_all (insert (SO_WorkspaceID op) seen) ops (publishWorkspace (SO_WorkspaceID op) w))"

text \<open>\<^verbatim>\<open>decodeJSON\<close> refuses a body that is too large, malformed, or has a number out of range.\<close>

definition api_pushOperations ::
  "(bytes \<Rightarrow> bytes) \<Rightarrow> verifier \<Rightarrow> ServerConfig \<Rightarrow> server_limits \<Rightarrow> Principal \<Rightarrow> ServerOperation list \<Rightarrow> server_world \<Rightarrow> http_reply \<times> server_world" where
  "api_pushOperations sha256 vf cfg lim pr ops w =
     (if \<not> lim_body lim (PostOps ops) \<or> \<not> list_all int64_operation ops then (writeAPIError ErrInvalid, w)
      else
        case PushOperations sha256 vf cfg pr ops (sv_now w) (sv_db w) of
          Inl e \<Rightarrow> (writeAPIError e, w)
        | Inr (results, db) \<Rightarrow> (Response 200 [] (Some (PayloadAccepted results)), publish_all {} ops (w\<lparr>sv_db := db\<rparr>)))"

text \<open>
  The three statements of \<open>PullChanges\<close> read the membership, the workspace and the rows, each in
  the state that the requests committed before it left.
\<close>

definition api_pullChanges ::
  "(bytes \<Rightarrow> bytes) \<Rightarrow> verifier \<Rightarrow> ServerConfig \<Rightarrow> server_limits \<Rightarrow> Principal \<Rightarrow> string \<Rightarrow> int \<Rightarrow> int
   \<Rightarrow> server_world \<Rightarrow> http_reply \<times> server_world" where
  "api_pullChanges sha256 vf cfg lim pr ws cursor limit w =
     (case parseIntQuery cursor of
        Inl e \<Rightarrow> (writeAPIError e, w)
      | Inr cursor \<Rightarrow>
          (case parseIntQuery limit of
             Inl e \<Rightarrow> (writeAPIError e, w)
           | Inr limit \<Rightarrow>
               let w1 = others sha256 vf cfg lim 1 w;
                   w2 = others sha256 vf cfg lim 2 w1;
                   w3 = others sha256 vf cfg lim 3 w2
               in (case PullChanges cfg pr ws cursor limit (sv_db w1) (sv_db w2) (sv_db w3) of
                     Inl e \<Rightarrow> (writeAPIError e, w3)
                   | Inr changes \<Rightarrow> (Response 200 [] (Some (PayloadChanges changes)), w3))))"

text \<open>The bearer token; a request without one has no header.\<close>

definition authenticateMiddleware ::
  "(bytes \<Rightarrow> bytes) \<Rightarrow> server_limits \<Rightarrow> string \<Rightarrow> (Principal \<Rightarrow> server_world \<Rightarrow> http_reply \<times> server_world)
   \<Rightarrow> server_world \<Rightarrow> http_reply \<times> server_world" where
  "authenticateMiddleware sha256 lim token handler w =
     (if token = [] \<or> CHR '' '' \<in> set token then (writeAPIError ErrUnauthorized, w)
      else
        case Authenticate sha256 token (sv_now w) (sv_db w) of
          Inl e \<Rightarrow> (writeAPIError e, w)
        | Inr pr \<Rightarrow> if lim_device lim (DeviceID pr) w then (writeAPIError ErrRateLimited, w) else handler pr w)"

definition server_net ::
  "(bytes \<Rightarrow> bytes) \<Rightarrow> verifier \<Rightarrow> ServerConfig \<Rightarrow> server_limits \<Rightarrow> server_world network" where
  "server_net sha256 vf cfg lim request token w =
     (if lim_ip lim request w then (writeAPIError ErrRateLimited, w)
      else
        case request of
          GetChallenge device scope \<Rightarrow> api_issueChallenge sha256 cfg lim device scope w
        | PostVerify proof \<Rightarrow> api_verifyChallenge sha256 vf cfg lim proof w
        | PostRefresh proof \<Rightarrow>
            authenticateMiddleware sha256 lim token (\<lambda>pr. api_refreshSession sha256 vf cfg lim pr proof) w
        | GetChanges ws cursor limit \<Rightarrow>
            authenticateMiddleware sha256 lim token (\<lambda>pr. api_pullChanges sha256 vf cfg lim pr ws cursor limit) w
        | PostOps ops \<Rightarrow>
            authenticateMiddleware sha256 lim token (\<lambda>pr. api_pushOperations sha256 vf cfg lim pr ops) w)"

end
