(* ===== verification/HTTP_Sync.thy ===== *)
theory HTTP_Sync
  imports Server_API
begin

text \<open>
  The client's HTTP transport against the server. Whatever the network does, a cycle over this
  transport ends: it interprets \<open>operation_transport\<close>. What the network keeps, every method of
  the client keeps: that is the locale \<open>network_invariant\<close>, interpreted with the histories of
  the server. Together: a page that the server hands out is one that the worker accepts, and
  client and server sign and verify the same bytes.
\<close>

section \<open>Any network\<close>

lemma wire_operations_length: "wire_operations m js = Inr ops \<Longrightarrow> length ops = length js"
  by (induction js arbitrary: ops) (auto simp: err_simps split: if_splits)

lemma read_page_more:
  "read_page config ws limit ch = Inr page \<Longrightarrow> 0 < limit \<Longrightarrow> Page_More page \<Longrightarrow> Page_Operations page \<noteq> []"
  by (auto simp: read_page_def err_simps split: if_splits)

interpretation http: operation_transport "HTTP_Pull now net" "HTTP_Push now net" for now net
  by unfold_locales (auto simp: HTTP_Pull_def Let_def dest: read_page_more split: if_splits prod.splits sum.splits)

text \<open>
  A worker without hooks over the HTTP transport; with hooks, \<open>repo_sync\<close> asks of them that
  they keep the table invariants.
\<close>

definition no_hooks :: "'w worker_hooks" where
  "no_hooks = \<lparr>hk_Prepare = None, hk_Bootstrap = None, hk_ReviewSnapshot = None, hk_SyncAttachments = None, hk_PublishSnapshot = None\<rparr>"

lemma no_hooks_actions [simp]: "hook_actions no_hooks = {}"
  by (simp add: hook_actions_def no_hooks_def)

interpretation http_sync: repo_sync "HTTP_Pull now net" "HTTP_Push now net" sha256 transport verify clock ctxErr errorText
    "BatchSize (WorkerOptions_normalized opts)" ws no_hooks
  for now net sha256 transport verify clock ctxErr errorText opts ws
  by unfold_locales (simp_all add: normalized_times)

text \<open>
  Synchronizing over HTTP always ends. Whatever the server or the network answers (errors,
  malformed or repeated pages, rejected sessions), one cycle of the worker over the HTTP
  transport returns, with any hooks that keep the table invariants, and the client's tables are
  intact afterwards.
\<close>

lemma HTTP_SyncOnce_terminates:
  assumes "\<And>act v r v'. act \<in> hook_actions hooks \<Longrightarrow> world_inv v \<Longrightarrow> act v = (r, v') \<Longrightarrow> world_inv v'" and "world_inv w"
  shows "\<exists>r w'. SyncOnce (repo_env hooks sha256 transport verify clock ctxErr errorText (BatchSize (WorkerOptions_normalized opts))
      (HTTP_Pull now net) (HTTP_Push now net)) ws w = Some (r, w') \<and> world_inv w'"
proof -
  have "repo_sync (HTTP_Pull now net) (BatchSize (WorkerOptions_normalized opts)) hooks"
    using assms(1) by unfold_locales (auto simp: normalized_times)
  then show ?thesis using assms(2) by (rule repo_sync.cycle_total)
qed

definition demo_http :: HTTP where
  "demo_http = \<lparr>h_config = \<lparr>HC_SecurityMode = HTTPSecurityTrusted, HC_PinnedFingerprint = [], HC_DeviceID = demo_id 2,
       HC_SignChallenge = Some (\<lambda>_. Some (replicate 64 0)), HC_RequestTimeout = 1, HC_MaxOperationBytes = 1000000, HC_MaxOperationsPerBatch = 100,
       HC_Platform = []\<rparr>, h_session = [], h_sessionEnd = 0, h_status = StatusOffline\<rparr>"

section \<open>What the network keeps\<close>

locale network_invariant =
  fixes net :: "'t network" and Q :: "'t \<Rightarrow> bool"
  assumes net_keeps: "Q t \<Longrightarrow> net request token t = (reply, t') \<Longrightarrow> Q t'"
begin

lemma request_keeps: "Q (hw_net w) \<Longrightarrow> requestJSON net request output token w = (r, w') \<Longrightarrow> Q (hw_net w')"
  by (auto simp: requestJSON_def on_http_def dest: net_keeps split: prod.splits http_reply.splits if_splits option.splits)

lemma fresh_session_keeps:
  "h_session (hw_http w) = [] \<Longrightarrow> Q (hw_net w) \<Longrightarrow> ensureSession now net force w = (r, w') \<Longrightarrow> Q (hw_net w')"
  unfolding ensureSession.simps [of now net force w]
  by (auto simp: Let_def on_http_def dest!: request_keeps [rotated] split: prod.splits sum.splits if_splits)

lemma session_keeps: "Q (hw_net w) \<Longrightarrow> ensureSession now net force w = (r, w') \<Longrightarrow> Q (hw_net w')"
  unfolding ensureSession.simps [of now net force w]
  by (auto simp: Let_def on_http_def clearSession_def dest!: request_keeps [rotated] fresh_session_keeps [rotated 2]
      split: prod.splits sum.splits if_splits)

text \<open>A decoded answer came from the network, in a state that it kept.\<close>

lemma attempts_Inr:
  assumes "Q (hw_net w)" "json_attempts now net request output n w = (Inr x, w')"
  shows "\<exists>t token status code p. Q t \<and> net request token t = (Response status code (Some p), hw_net w') \<and> output p = Some x"
  using assms
proof (induction n arbitrary: w)
  case (Suc n)
  obtain r1 w1 where 1: "ensureSession now net False w = (r1, w1)" by fastforce
  have q1: "Q (hw_net w1)" using Suc.prems(1) 1 by (rule session_keeps)
  obtain status result w2 where 2: "requestJSON net request output (h_session (hw_http w1)) w1 = ((status, result), w2)" by (metis surj_pair)
  have q2: "Q (hw_net w2)" using q1 2 by (rule request_keeps)
  from Suc.prems(2) 1 2 consider (again) "json_attempts now net request output n (on_http clearSession w2) = (Inr x, w')"
    | (finished) "result = Inr x" "w' = w2"
    by (auto split: sum.splits if_splits)
  then show ?case
  proof cases
    case again
    moreover have "Q (hw_net (on_http clearSession w2))" using q2 by (simp add: on_http_def)
    ultimately show ?thesis by (intro Suc.IH)
  next
    case finished
    obtain reply t where n: "net request (h_session (hw_http w1)) (hw_net w1) = (reply, t)" by fastforce
    with 2 finished obtain code p where "reply = Response status code (Some p)" "output p = Some x" "hw_net w2 = t"
      by (auto simp: requestJSON_def on_http_def bind_eq_Some_conv split: http_reply.splits if_splits option.splits)
    with n q1 finished show ?thesis by blast
  qed
qed simp

lemma pull_answer:
  assumes "Q (hw_net w)" "HTTP_Pull now net ws cursor limit w = (Inr page, w')"
  shows "\<exists>t token status code ch. Q t \<and>
    net (GetChanges (ID_String ws) (uint (LastSequence cursor)) limit) token t = (Response status code (Some (PayloadChanges ch)), hw_net w') \<and>
    read_page (h_config (hw_http w)) ws limit ch = Inr page \<and> 0 < limit"
proof -
  from assms(2) obtain ch where l: "0 < limit" and d: "doJSON now net (GetChanges (ID_String ws) (uint (LastSequence cursor)) limit) as_changes w = (Inr ch, w')"
    and p: "read_page (h_config (hw_http w)) ws limit ch = Inr page"
    by (auto simp: HTTP_Pull_def Let_def split: if_splits prod.splits sum.splits)
  from attempts_Inr [OF assms(1) d [unfolded doJSON_def]] obtain t token status code py where
    "Q t" "net (GetChanges (ID_String ws) (uint (LastSequence cursor)) limit) token t = (Response status code (Some py), hw_net w')"
    "as_changes py = Some ch" by blast
  moreover from this(3) have "py = PayloadChanges ch" by (cases py) auto
  ultimately show ?thesis using p l by blast
qed

end

section \<open>The server as the network\<close>

definition server_reachable :: "(bytes \<Rightarrow> bytes) \<Rightarrow> verifier \<Rightarrow> ServerConfig \<Rightarrow> server_world \<Rightarrow> bool" where
  "server_reachable sha256 vf cfg w \<longleftrightarrow> (\<exists>calls. list_all int64_call calls \<and> sv_db w = server_run sha256 vf cfg calls empty_server)"

lemma reachable_commit:
  assumes "server_reachable sha256 vf cfg w" "list_all int64_call extra" "sv_db w' = server_run sha256 vf cfg extra (sv_db w)"
  shows "server_reachable sha256 vf cfg w'"
proof -
  from assms(1) obtain calls where "list_all int64_call calls" "sv_db w = server_run sha256 vf cfg calls empty_server"
    unfolding server_reachable_def by blast
  with assms(2,3) have "list_all int64_call (calls @ extra)" "sv_db w' = server_run sha256 vf cfg (calls @ extra) empty_server"
    by (simp_all add: server_run_append)
  then show ?thesis unfolding server_reachable_def by blast
qed

lemma others_reachable: "server_reachable sha256 vf cfg w \<Longrightarrow> server_reachable sha256 vf cfg (others sha256 vf cfg lim n w)"
  by (erule reachable_commit [where extra = "filter int64_call (lim_others lim n w)"]) (simp_all add: others_def list_all_iff)

lemma publish_all_db [simp]: "sv_db (publish_all seen ops w) = sv_db w"
  by (induction seen ops w rule: publish_all.induct) (auto simp: publishWorkspace_def split: option.splits)

lemma answer_db: "sv_db (snd (answer status wrap r w)) = commit r (sv_db w)"
  by (auto simp: answer_def split: sum.splits)

text \<open>A request changes the database by calls, its own or those of other requests.\<close>

lemma reachable_call:
  assumes "server_reachable sha256 vf cfg w" "int64_call c" "sv_db w' = serve sha256 vf cfg c (sv_db w)"
  shows "server_reachable sha256 vf cfg w'"
  using reachable_commit [OF assms(1), of "[c]" w'] assms(2,3) by simp

lemma reachable_same: "server_reachable sha256 vf cfg w \<Longrightarrow> sv_db w' = sv_db w \<Longrightarrow> server_reachable sha256 vf cfg w'"
  by (simp add: server_reachable_def)

lemma auth_reachable:
  "server_reachable sha256 vf cfg w \<Longrightarrow> (\<And>pr. server_reachable sha256 vf cfg (snd (handler pr w))) \<Longrightarrow>
   server_reachable sha256 vf cfg (snd (authenticateMiddleware sha256 lim token handler w))"
  by (simp add: authenticateMiddleware_def split: sum.splits)

lemma challenge_reachable:
  "server_reachable sha256 vf cfg w \<Longrightarrow> server_reachable sha256 vf cfg (snd (api_issueChallenge sha256 cfg lim device scope w))"
  by (erule reachable_call [of _ _ _ _ "CallIssueChallenge device scope (sv_now w) (lim_text lim (sv_drawn w)) (lim_text lim (sv_drawn w + 1))"])
     (simp_all add: api_issueChallenge_def answer_db)

lemma verify_reachable:
  assumes "server_reachable sha256 vf cfg w"
  shows "server_reachable sha256 vf cfg (snd (api_verifyChallenge sha256 vf cfg lim p w))"
  using assms reachable_call [OF assms, of "CallVerifyChallenge p (sv_now w) (lim_text lim (sv_drawn w))"]
  by (simp add: api_verifyChallenge_def answer_db)

lemma refresh_reachable:
  assumes "server_reachable sha256 vf cfg w"
  shows "server_reachable sha256 vf cfg (snd (api_refreshSession sha256 vf cfg lim pr p w))"
  using assms reachable_call [OF assms, of "CallRefreshSession pr p (sv_now w) (lim_text lim (sv_drawn w))"]
  by (simp add: api_refreshSession_def answer_db)

lemma pull_reachable:
  "server_reachable sha256 vf cfg w \<Longrightarrow> server_reachable sha256 vf cfg (snd (api_pullChanges sha256 vf cfg lim pr ws cursor limit w))"
  by (simp add: api_pullChanges_def Let_def others_reachable split: sum.splits)

lemma push_reachable:
  assumes "server_reachable sha256 vf cfg w"
  shows "server_reachable sha256 vf cfg (snd (api_pushOperations sha256 vf cfg lim pr ops w))"
  using assms reachable_call [OF assms, of "CallPushOperations pr ops (sv_now w)"]
  by (auto simp: api_pushOperations_def split: sum.splits)

lemma server_net_reachable:
  "server_reachable sha256 vf cfg w \<Longrightarrow> server_reachable sha256 vf cfg (snd (server_net sha256 vf cfg lim request token w))"
  by (cases request)
     (simp_all add: server_net_def challenge_reachable verify_reachable auth_reachable refresh_reachable pull_reachable push_reachable)

interpretation served: network_invariant "server_net sha256 vf cfg lim" "server_reachable sha256 vf cfg" for sha256 vf cfg lim
  by unfold_locales (metis server_net_reachable snd_conv)

section \<open>Operations across the wire\<close>

lemma parseCanonicalID_String [simp]: "valid_id i \<Longrightarrow> parseCanonicalID (ID_String i) = Inr i"
  using ParseID_Bytes [of i] by (simp add: parseCanonicalID_def ParseIDString_def parse_segments_String ID_Bytes_def)

lemma validateOpaqueID_hex: "validateOpaqueID s = Inr () \<Longrightarrow> \<exists>k. hex_decode s = Some k \<and> length k = 16 \<and> to_lower s = s"
  by (auto simp: validateOpaqueID_def guard_res_def split: if_splits option.splits)

lemma physical_bound:
  assumes "0 \<le> p" "p < 2 ^ 63"
  shows "\<not> MaxInt64 < (word_of_int p :: u64)"
proof -
  have "uint (word_of_int p :: u64) = p" using assms by (simp add: take_bit_int_eq_self word_of_int_inverse)
  then show ?thesis using assms by (simp add: word_less_def)
qed

lemma toWire_row:
  assumes ok: "row_ok cfg r" and ws: "valid_id ws" and seq: "0 < o_seq r" and p: "o_physical r < 2 ^ 63"
    and m: "MaxOperationBytes cfg \<le> HardMaxOperationBytes"
  shows "\<exists>op. toWire (row_operation (ID_String ws) r) = Inr op \<and> Op_WorkspaceID op = ws \<and> Op_Sequence op = word_of_int (o_seq r) \<and>
    Op_Ciphertext op = o_ciphertext r"
proof -
  from ok have v: "validateID (o_id r) = Inr ()" "validateID (o_device r) = Inr ()" "validateOpaqueID (o_key r) = Inr ()"
    and f: "0 \<le> o_physical r" "length (o_nonce r) = 24" "length (o_signature r) = SignatureSize"
      "AEADTagBytes \<le> length (o_ciphertext r)" "int (length (o_ciphertext r)) \<le> MaxOperationBytes cfg"
    by (simp_all add: row_ok_def)
  obtain i where i: "valid_id i" "o_id r = ID_String i" using validateID_String [OF v(1)] by blast
  obtain d where d: "valid_id d" "o_device r = ID_String d" using validateID_String [OF v(2)] by blast
  obtain k where k: "hex_decode (o_key r) = Some k" "length k = 16" "to_lower (o_key r) = o_key r" using validateOpaqueID_hex [OF v(3)] by blast
  let ?op = "\<lparr>Op_ID = i, Op_WorkspaceID = ws, Op_DeviceID = d, Op_Sequence = word_of_int (o_seq r),
      Op_Clock = \<lparr>PhysicalMS = word_of_int (o_physical r), Logical = o_logical r, ClockDeviceID = d\<rparr>,
      Op_KeyID = k, Op_Nonce = o_nonce r, Op_Ciphertext = o_ciphertext r, Op_Signature = o_signature r\<rparr>"
  have "validateWireOperation ?op True HardMaxOperationBytes = Inr ()"
    using i d k f ws m physical_bound [OF f(1) p] by (simp add: validateWireOperation_def)
  then have "EncodeOperation ?op = Inr (enc_op ?op)" by (simp add: EncodeOperation_eq)
  then have "toWire (row_operation (ID_String ws) r) = Inr ?op"
    using i d k f seq ws by (simp add: toWire_def row_operation_def Let_def)
  then show ?thesis by (intro exI [of _ ?op]) simp
qed

lemma wire_operations_rows:
  assumes "list_all (\<lambda>r. row_ok cfg r \<and> 0 < o_seq r \<and> o_physical r < 2 ^ 63) rows" "valid_id ws"
    and "MaxOperationBytes cfg \<le> HardMaxOperationBytes" "MaxOperationBytes cfg \<le> limit"
  shows "\<exists>ops. wire_operations limit (map (row_operation (ID_String ws)) rows) = Inr ops \<and>
    map Op_WorkspaceID ops = replicate (length rows) ws \<and> map Op_Sequence ops = map (word_of_int \<circ> o_seq) rows"
  using assms(1)
proof (induction rows)
  case (Cons r rows)
  then obtain ops where ops: "wire_operations limit (map (row_operation (ID_String ws)) rows) = Inr ops"
    "map Op_WorkspaceID ops = replicate (length rows) ws" "map Op_Sequence ops = map (word_of_int \<circ> o_seq) rows" by auto
  from Cons.prems have r: "row_ok cfg r" "0 < o_seq r" "o_physical r < 2 ^ 63" by auto
  obtain op where op: "toWire (row_operation (ID_String ws) r) = Inr op" "Op_WorkspaceID op = ws" "Op_Sequence op = word_of_int (o_seq r)"
    "Op_Ciphertext op = o_ciphertext r" using toWire_row [OF r(1) assms(2) r(2,3) assms(3)] by blast
  have "int (length (o_ciphertext r)) \<le> limit" using r(1) assms(4) by (simp add: row_ok_def)
  with ops op show ?case by simp
qed simp

lemma upto_words: "map word_of_int [c + 1 .. d] = map (\<lambda>i. word_of_int c + 1 + word_of_nat i :: u64) [0..<nat (d - c)]"
proof -
  have "[c + 1 .. d] = map (\<lambda>i. c + 1 + int i) [0..<nat (d - c)]"
    by (intro nth_equalityI) simp_all
  then show ?thesis by simp
qed

text \<open>A page handed out by a server that keeps its log in order is read and accepted by the client.\<close>

lemma server_page_read:
  assumes inv: "log_inv db2" "log_inv db" "rows_ok cfg db" and types: "list_all (\<lambda>r. o_physical r < 2 ^ 63) (operations db)"
    and pull: "PullChanges cfg pr (ID_String ws) (uint (LastSequence cursor)) limit db1 db2 db = Inr ch"
    and w: "find_ws (ID_String ws) db = Some w" "w_compacted w \<le> uint (LastSequence cursor)"
    and ws: "valid_id ws" and epoch: "Epoch cursor = 0 \<or> Epoch cursor = 1"
    and m: "MaxOperationBytes cfg \<le> HardMaxOperationBytes" "MaxOperationBytes cfg \<le> HC_MaxOperationBytes config"
  shows "\<exists>page. read_page config ws limit ch = Inr page \<and> validatePullPage ws cursor page limit = Inr ()"
proof -
  let ?c = "uint (LastSequence cursor)"
  from pull obtain rows where rows: "rows = page_rows 0 (take (nat limit) (rows_after (ID_String ws) ?c db))"
    and ch: "Chg_Operations ch = map (row_operation (ID_String ws)) rows" by (rule PullChanges_Inr) simp
  note con = PullChanges_contiguous [OF inv pull w]
  obtain n where "rows = take n (take (nat limit) (rows_after (ID_String ws) ?c db))" using page_rows_prefix rows by blast
  then have sub: "set rows \<subseteq> set (rows_after (ID_String ws) ?c db)" by (auto dest!: in_set_takeD)
  have row: "row_ok cfg r \<and> 0 < o_seq r \<and> o_physical r < 2 ^ 63" if "r \<in> set rows" for r
  proof -
    from that sub have "r \<in> set (operations db)" "?c < o_seq r" by (auto simp: rows_after_def)
    moreover have "0 \<le> ?c" by simp
    ultimately show ?thesis using inv(3) types unfolding rows_ok_def list_all_iff by (metis le_less_trans)
  qed
  then have "list_all (\<lambda>r. row_ok cfg r \<and> 0 < o_seq r \<and> o_physical r < 2 ^ 63) rows" by (simp add: list_all_iff)
  from wire_operations_rows [OF this ws m] obtain ops where ops: "wire_operations (HC_MaxOperationBytes config) (Chg_Operations ch) = Inr ops"
    "map Op_WorkspaceID ops = replicate (length rows) ws" "map Op_Sequence ops = map (word_of_int \<circ> o_seq) rows"
    unfolding ch by blast
  have len: "length ops = length (Chg_Operations ch)" using ops(1) by (rule wire_operations_length)
  let ?page = "\<lparr>Page_Cursor = \<lparr>Cur_WorkspaceID = ws, LastSequence = word_of_int (Chg_Cursor ch), Epoch = word_of_int (Chg_CursorEpoch ch)\<rparr>,
      Page_Operations = ops, Page_More = (int (length ops) = limit)\<rparr>"
  have read: "read_page config ws limit ch = Inr ?page"
    using con(2,3,5) ops(1) by (simp add: read_page_def) (smt (verit) uint_nonnegative)
  have seqs: "map o_seq rows = [?c + 1 .. Chg_Cursor ch]" using con(1) by (simp add: ch row_operation_def comp_def)
  have "length rows = nat (Chg_Cursor ch - ?c)" using arg_cong [OF seqs, of length] by simp
  then have l: "int (length ops) = Chg_Cursor ch - ?c" using con(2) len by (simp add: ch)
  have words: "map Op_Sequence ops = map (\<lambda>i. LastSequence cursor + 1 + word_of_nat i) [0..<length ops]"
  proof -
    have n: "nat (Chg_Cursor ch - ?c) = length ops" using l by simp
    show ?thesis unfolding ops(3) map_map [symmetric] seqs upto_words n by simp
  qed
  have last: "(word_of_int (Chg_Cursor ch) :: u64) = LastSequence cursor + word_of_nat (length ops)"
  proof -
    have "Chg_Cursor ch = ?c + int (length ops)" using l by simp
    then show ?thesis by simp
  qed
  have e1: "word_of_int (Chg_CursorEpoch ch) = (1 :: u32)" using con(3) by simp
  have "check_sequences ws (LastSequence cursor + 1) ops = Inr (LastSequence cursor + 1 + word_of_nat (length ops))"
    unfolding check_sequences_iff using ops(2) words len by (simp add: ch)
  then have "validatePullPage ws cursor ?page limit = Inr ()"
    using con(4) len epoch last e1 by (auto simp: validatePullPage_def ch)
  with read show ?thesis by blast
qed

lemma error_no_body: "writeAPIError e = Response status code body \<Longrightarrow> body = None"
  by (auto simp: writeAPIError_def split: server_error.splits)

lemma server_net_pull:
  assumes "server_net sha256 vf cfg lim (GetChanges i c l) token t = (Response status code (Some (PayloadChanges ch)), t')"
    and "server_reachable sha256 vf cfg t"
  shows "\<exists>pr t1 t2. server_reachable sha256 vf cfg t1 \<and> server_reachable sha256 vf cfg t2 \<and> server_reachable sha256 vf cfg t' \<and>
    PullChanges cfg pr i c l (sv_db t1) (sv_db t2) (sv_db t') = Inr ch"
proof -
  let ?t1 = "others sha256 vf cfg lim 1 t"
  let ?t2 = "others sha256 vf cfg lim 2 ?t1"
  from assms(1) obtain pr where "t' = others sha256 vf cfg lim 3 ?t2" "PullChanges cfg pr i c l (sv_db ?t1) (sv_db ?t2) (sv_db t') = Inr ch"
    by (auto simp: server_net_def authenticateMiddleware_def api_pullChanges_def parseIntQuery_def Let_def dest: error_no_body
        split: if_splits sum.splits)
  with assms(2) show ?thesis by (metis others_reachable)
qed

lemma reachable_parts:
  assumes "server_reachable sha256 vf cfg t"
  shows "log_inv (sv_db t)" "rows_ok cfg (sv_db t)" "list_all (\<lambda>r. o_physical r < 2 ^ 63) (operations (sv_db t))"
proof -
  from assms obtain calls where calls: "list_all int64_call calls" "sv_db t = server_run sha256 vf cfg calls empty_server"
    unfolding server_reachable_def by blast
  have "int64_rows (sv_db t)" unfolding calls(2) by (rule int64.run_keeps [OF _ calls(1)]) (simp add: int64_rows_def empty_server_def)
  then show "list_all (\<lambda>r. o_physical r < 2 ^ 63) (operations (sv_db t))" by (simp add: int64_rows_def)
  show "log_inv (sv_db t)" "rows_ok cfg (sv_db t)" unfolding calls(2) by (rule log_history, rule rows_history)
qed

text \<open>
  C14. What the server hands out, the worker takes. After any history of the server, whatever
  session handling it took to get the answer and whatever other requests were committed before
  and between the statements of \<open>PullChanges\<close>, a page that the HTTP transport returns passes the
  worker's page check, provided that the cursor is of the first epoch (the only one that the
  server assigns), that the client's limit on the size of an operation is not below the
  server's, and that no compaction passed the cursor before the rows were read. (After a
  compaction committed between the statements the page may have a gap, and the check refuses
  it.)
\<close>

theorem HTTP_Pull_page_accepted:
  assumes "server_reachable sha256 vf cfg (hw_net w)"
    and "valid_id ws" "Epoch cursor = 0 \<or> Epoch cursor = 1"
    and "MaxOperationBytes cfg \<le> HardMaxOperationBytes" "MaxOperationBytes cfg \<le> HC_MaxOperationBytes (h_config (hw_http w))"
    and "HTTP_Pull now (server_net sha256 vf cfg lim) ws cursor limit w = (Inr page, w')"
    and "find_ws (ID_String ws) (sv_db (hw_net w')) = Some r" "w_compacted r \<le> uint (LastSequence cursor)"
  shows "validatePullPage ws cursor page limit = Inr ()"
proof -
  from served.pull_answer [OF assms(1,6)] obtain t token status code ch where t: "server_reachable sha256 vf cfg t"
    and n: "server_net sha256 vf cfg lim (GetChanges (ID_String ws) (uint (LastSequence cursor)) limit) token t
       = (Response status code (Some (PayloadChanges ch)), hw_net w')"
    and p: "read_page (h_config (hw_http w)) ws limit ch = Inr page" by blast
  from server_net_pull [OF n t] obtain pr and t1 t2 :: server_world
    where r: "server_reachable sha256 vf cfg t2" "server_reachable sha256 vf cfg (hw_net w')" and pull: "PullChanges cfg pr (ID_String ws) (uint (LastSequence cursor)) limit (sv_db t1) (sv_db t2) (sv_db (hw_net w')) = Inr ch"
    by blast
  from server_page_read [OF reachable_parts(1) [OF r(1)] reachable_parts [OF r(2)] pull assms(7,8) assms(2-5)] p show ?thesis by auto
qed

text \<open>A logged in device: the concrete history, then a challenge and its answer.\<close>

definition demo_token :: string where
  "demo_token = replicate 40 (CHR ''a'')"

definition demo_session_calls :: "server_call list" where
  "demo_session_calls = demo_calls @ [CallIssueChallenge (demo_text 2) ''sync'' 0 (demo_text 8) ''n'', CallVerifyChallenge demo_proof 0 demo_token]"

definition demo_session_db :: server_db where
  "demo_session_db = demo_challenged\<lparr>devices := touch_device (demo_text 2) [] 0 (devices demo_challenged),
     challenges := update_rows (\<lambda>c. c_id c = demo_text 8 \<and> c_consumed c = None) (\<lambda>c. c\<lparr>c_consumed := Some 0\<rparr>) (challenges demo_challenged),
     sessions := [\<lparr>s_token_hash = demo_digest, s_user = demo_text 1, s_device = demo_text 2, s_scope = ''sync'', s_expires = 60, s_created = 0\<rparr>]\<rparr>"

lemma demo_device: "devices demo_log = [registered_device demo_reg 0]" "d_id (registered_device demo_reg 0) = demo_text 2"
  "d_revoked (registered_device demo_reg 0) = None" "d_user (registered_device demo_reg 0) = demo_text 1"
  by (simp_all add: demo_log_def demo_registered_def registered_device_def demo_reg_def)

lemma demo_session_run: "server_run demo_hash demo_sig_ok demo_config demo_session_calls empty_server = demo_session_db"
proof -
  have i: "serve demo_hash demo_sig_ok demo_config (CallIssueChallenge (demo_text 2) ''sync'' 0 (demo_text 8) ''n'') demo_log = demo_challenged"
    by (simp add: IssueChallenge_def validScope_def demo_device demo_challenged_def Let_def)
       (simp add: demo_log_def demo_registered_def empty_server_def demo_config_def unixNow_def)
  have d: "challenged_device demo_proof demo_digest 0 demo_challenged = Some (registered_device demo_reg 0)"
    by (simp add: challenged_device_def open_challenge_def demo_challenged_def demo_proof_def unixNow_def demo_device)
  have c: "length (filter (\<lambda>c. c_id c = demo_text 8 \<and> c_consumed c = None) (challenges demo_challenged)) = 1" "sessions demo_challenged = []"
    by (simp_all add: demo_challenged_def demo_log_def demo_registered_def empty_server_def)
  have f: "CP_ChallengeID demo_proof = demo_text 8" "CP_DeviceID demo_proof = demo_text 2" "CP_ServerFingerprint demo_proof = serverFingerprint demo_config"
    "CP_Nonce demo_proof \<noteq> []" "CP_Scope demo_proof = ''sync''" "length (CP_Signature demo_proof) = 64" "CP_Platform demo_proof = []"
    by (simp_all add: demo_proof_def demo_config_def)
  have "serve demo_hash demo_sig_ok demo_config (CallVerifyChallenge demo_proof 0 demo_token) demo_challenged = demo_session_db"
    using c by (simp add: VerifyChallenge_def verifyChallenge_def f d validScope_def Let_def demo_sig_ok_def drop_session_def demo_device demo_session_db_def)
       (simp add: demo_config_def unixNow_def)
  with i show ?thesis by (simp add: demo_session_calls_def server_run_append demo_run)
qed

lemma demo_session_tables: "operations demo_session_db = operations demo_log" "workspaces demo_session_db = workspaces demo_log"
  "memberships demo_session_db = memberships demo_log"
  by (simp_all add: demo_session_db_def demo_challenged_def)

lemma demo_authenticated: "Authenticate demo_hash demo_token 0 demo_session_db = Inr (demo_principal\<lparr>TokenHash := demo_digest\<rparr>)"
  by (simp add: Authenticate_def demo_token_def live_session_def demo_session_db_def demo_challenged_def touch_device_def update_rows_def
      demo_device unixNow_def demo_principal_def Let_def del: replicate.simps)

definition demo_served :: server_world where
  "demo_served = \<lparr>sv_db = demo_session_db, sv_now = 0, sv_pubsub = NewPubSub 1, sv_drawn = 0\<rparr>"

text \<open>While a page is read, another request pushes a third operation.\<close>

definition demo_limits :: server_limits where
  "demo_limits = \<lparr>lim_ip = (\<lambda>_ _. False), lim_device = (\<lambda>_ _. False), lim_body = (\<lambda>_. True), lim_text = (\<lambda>n. []),
     lim_others = (\<lambda>n w. if n = 3 then [demo_third] else [])\<rparr>"

definition demo_client :: "server_world http_world" where
  "demo_client = \<lparr>hw_http = demo_http\<lparr>h_session := demo_token, h_sessionEnd := 1000000000000\<rparr>, hw_net = demo_served\<rparr>"

definition start_cursor :: Cursor where
  "start_cursor = \<lparr>Cur_WorkspaceID = demo_id 3, LastSequence = 2, Epoch = 1\<rparr>"

definition demo_session_db3 :: server_db where
  "demo_session_db3 = demo_session_db\<lparr>workspaces := [demo_workspace\<lparr>w_latest := 3\<rparr>], operations := [demo_row 4 1, demo_row 5 2, demo_row 6 3]\<rparr>"

lemma demo_session_find: "find_ws (demo_text 3) demo_session_db = Some demo_workspace"
  using demo_find by (simp add: find_ws_def demo_session_tables)

lemma demo_session_third: "serve demo_hash demo_sig_ok demo_config demo_third demo_session_db = demo_session_db3"
proof -
  have l: "w_latest demo_workspace = 2" "w_key demo_workspace = demo_key" "w_id demo_workspace = demo_text 3"
    by (simp_all add: demo_workspace_def new_workspace_def)
  have t: "operations demo_session_db = [demo_row 4 1, demo_row 5 2]" "workspaces demo_session_db = [demo_workspace]"
    by (simp_all add: demo_session_tables) (simp_all add: demo_log_def)
  have m: "isActiveMember (UserID demo_principal) (demo_text 3) demo_session_db"
    "device_key (demo_text 2) (UserID demo_principal) demo_session_db = Some (replicate 32 1)"
    "list_ex (\<lambda>d. d_id d = demo_text 2) (devices demo_session_db)"
    by (simp_all add: isActiveMember_def device_key_def demo_session_db_def demo_challenged_def touch_device_def update_rows_def demo_device
        demo_principal_def Let_def del: replicate.simps)
       (simp_all add: demo_log_def demo_registered_def new_rows registered_device_def demo_reg_def del: replicate.simps)
  have "pushOperation demo_hash demo_sig_ok demo_config demo_principal 0 (demo_push 6) demo_session_db
      = Inr (\<lparr>SP_OpID = demo_text 6, SP_Sequence = 3, SP_Duplicate = False\<rparr>, demo_session_db3)"
    using demo_pushed_any [OF m demo_session_find l(2), of 6]
    by (simp add: set_latest_def l t is_row_def demo_push_def demo_row_def update_rows_def demo_session_db3_def del: replicate.simps)
  then show ?thesis
    by (simp add: demo_third_def PushOperations_def) (simp add: demo_config_def demo_push_def del: replicate.simps)
qed

lemma demo_session_pull: "PullChanges demo_config (demo_principal\<lparr>TokenHash := demo_digest\<rparr>) (demo_text 3) 2 1 demo_session_db demo_session_db demo_session_db3
  = Inr \<lparr>Chg_WorkspaceID = demo_text 3, Chg_Cursor = 3, Chg_CursorEpoch = 1, Chg_Operations = [row_operation (demo_text 3) (demo_row 6 3)]\<rparr>"
proof -
  have "isActiveMember u (demo_text 3) demo_session_db = isActiveMember u (demo_text 3) demo_log"
    "find_ws (demo_text 3) demo_session_db = find_ws (demo_text 3) demo_log"
    "rows_after (demo_text 3) 2 demo_session_db3 = rows_after (demo_text 3) 2 demo_log3" for u
    by (simp_all add: isActiveMember_def find_ws_def rows_after_def demo_session_tables demo_session_db3_def demo_log3_def)
  note same = this
  have "PullChanges demo_config (demo_principal\<lparr>TokenHash := demo_digest\<rparr>) (demo_text 3) 2 1 demo_session_db demo_session_db demo_session_db3
    = PullChanges demo_config demo_principal (demo_text 3) 2 1 demo_log demo_log demo_log3"
    unfolding PullChanges_def same by simp
  also have "\<dots> = Inr \<lparr>Chg_WorkspaceID = demo_text 3, Chg_Cursor = 3, Chg_CursorEpoch = 1,
      Chg_Operations = [row_operation (demo_text 3) (demo_row 6 3)]\<rparr>" by (rule demo_pull_third) simp
  finally show ?thesis .
qed

lemma demo_server_reachable: "server_reachable demo_hash demo_sig_ok demo_config demo_served"
proof -
  have "list_all int64_call demo_session_calls"
    by (simp add: demo_session_calls_def demo_calls_def int64_operation_def demo_push_def)
  moreover have "sv_db demo_served = server_run demo_hash demo_sig_ok demo_config demo_session_calls empty_server"
    unfolding demo_session_run by (simp add: demo_served_def)
  ultimately show ?thesis unfolding server_reachable_def by blast
qed

theorem HTTP_Pull_page_accepted_witness:
  "\<exists>page w'. HTTP_Pull sv_now (server_net demo_hash demo_sig_ok demo_config demo_limits) (demo_id 3) start_cursor 1 demo_client = (Inr page, w') \<and>
     length (Page_Operations page) = 1 \<and> validatePullPage (demo_id 3) start_cursor page 1 = Inr ()"
proof -
  let ?ch = "\<lparr>Chg_WorkspaceID = demo_text 3, Chg_Cursor = 3, Chg_CursorEpoch = 1, Chg_Operations = [row_operation (demo_text 3) (demo_row 6 3)]\<rparr>"
  let ?served3 = "demo_served\<lparr>sv_db := demo_session_db3\<rparr>"
  have oth: "others demo_hash demo_sig_ok demo_config demo_limits 1 demo_served = demo_served"
    "others demo_hash demo_sig_ok demo_config demo_limits 2 demo_served = demo_served"
    "others demo_hash demo_sig_ok demo_config demo_limits 3 demo_served = ?served3"
    using demo_session_third
    by (simp_all add: others_def demo_limits_def demo_served_def) (simp add: demo_third_def int64_operation_def demo_push_def)
  have net: "server_net demo_hash demo_sig_ok demo_config demo_limits (GetChanges (demo_text 3) 2 1) demo_token demo_served
      = (Response 200 [] (Some (PayloadChanges ?ch)), ?served3)"
  proof -
    have t: "demo_token \<noteq> []" "CHR '' '' \<notin> set demo_token" by (simp_all add: demo_token_def)
    have d: "sv_db demo_served = demo_session_db" "sv_now demo_served = 0" by (simp_all add: demo_served_def)
    have l: "lim_ip demo_limits request w = False" "lim_device demo_limits device w = False" for request w device
      by (simp_all add: demo_limits_def)
    show ?thesis
      by (simp add: server_net_def l authenticateMiddleware_def d t demo_authenticated api_pullChanges_def
          parseIntQuery_def oth [unfolded One_nat_def] Let_def demo_session_pull)
  qed
  have ok: "row_ok demo_config (demo_row 6 3)"
    by (simp add: row_ok_def demo_row_def demo_config_def)
  obtain op where op: "toWire (row_operation (demo_text 3) (demo_row 6 3)) = Inr op" "Op_Ciphertext op = replicate 16 0"
    using toWire_row [OF ok, of "demo_id 3"] by (auto simp: demo_text_def demo_row_def demo_config_def)
  have s: "ensureSession sv_now net False demo_client = (Inr (), demo_client)" for net
    unfolding ensureSession.simps [of sv_now net False demo_client]
    by (simp add: demo_client_def demo_token_def minute_def demo_served_def)
  let ?page = "\<lparr>Page_Cursor = \<lparr>Cur_WorkspaceID = demo_id 3, LastSequence = 3, Epoch = 1\<rparr>, Page_Operations = [op], Page_More = True\<rparr>"
  let ?client3 = "demo_client\<lparr>hw_net := ?served3\<rparr>"
  have c: "h_session (hw_http demo_client) = demo_token" "hw_net demo_client = demo_served"
    "HC_MaxOperationsPerBatch (h_config (hw_http demo_client)) = 100" "HC_MaxOperationBytes (h_config (hw_http demo_client)) = 1000000"
    by (simp_all add: demo_client_def demo_http_def)
  have json: "doJSON sv_now (server_net demo_hash demo_sig_ok demo_config demo_limits) (GetChanges (demo_text 3) 2 1) as_changes demo_client
      = (Inr ?ch, ?client3)"
    by (simp add: doJSON_def numeral_2_eq_2 s requestJSON_def net c)
  have read: "read_page (h_config (hw_http demo_client)) (demo_id 3) 1 ?ch = Inr ?page"
    using op by (simp add: read_page_def c demo_text_def)
  have pull: "HTTP_Pull sv_now (server_net demo_hash demo_sig_ok demo_config demo_limits) (demo_id 3) start_cursor 1 demo_client = (Inr ?page, ?client3)"
    using json read by (simp add: HTTP_Pull_def c start_cursor_def demo_text_def)
  have f: "find_ws (ID_String (demo_id 3)) (sv_db (hw_net ?client3)) = Some (demo_workspace\<lparr>w_latest := 3\<rparr>)"
    using demo_find3 by (simp add: demo_text_def demo_session_db3_def find_ws_def demo_log3_def)
  have "validatePullPage (demo_id 3) start_cursor ?page 1 = Inr ()"
    by (rule HTTP_Pull_page_accepted [OF _ _ _ _ _ pull f])
       (simp_all add: c demo_server_reachable, simp_all add: start_cursor_def demo_config_def demo_workspace_def new_workspace_def)
  with pull show ?thesis by fastforce
qed

end
