(* ===== verification/Notebook_Tree.thy ===== *)
theory Notebook_Tree
  imports Note_Store
begin

text \<open>
  The notebooks form a forest. \<open>Store_MoveNotebook\<close> walks from the new parent to the root before it
  writes; on a forest that walk ends, and what it rejects is exactly what would close a cycle.
\<close>

section \<open>Parents\<close>

definition parents :: "notebook_row list \<Rightarrow> (ID \<times> ID) set" where
  "parents rows = {(nb_id r, nb_parent r) | r. r \<in> set rows \<and> nb_parent r \<noteq> NilID}"

definition forest :: "notebook_row list \<Rightarrow> bool" where
  "forest rows \<longleftrightarrow> distinct (map nb_id rows) \<and> NilID \<notin> nb_id ` set rows \<and> snd ` parents rows \<subseteq> nb_id ` set rows \<and> acyclic (parents rows)"

lemma finite_parents: "finite (parents rows)"
proof -
  have "parents rows \<subseteq> (\<lambda>r. (nb_id r, nb_parent r)) ` set rows" by (auto simp: parents_def)
  then show ?thesis by (rule finite_subset) simp
qed

lemma parents_wf: "acyclic (parents rows) \<Longrightarrow> wf ((parents rows)\<inverse>)"
  by (rule finite_acyclic_wf_converse [OF finite_parents])

lemma distinct_find: "distinct (map f xs) \<Longrightarrow> x \<in> set xs \<Longrightarrow> find (\<lambda>y. f y = f x) xs = Some x"
proof (induction xs)
  case (Cons y ys)
  then show ?case by (cases "f y = f x") (auto simp: rev_image_eqI)
qed simp

lemma getNotebook_Inr:
  assumes "getNotebook i db = Inr n"
  shows "\<exists>r \<in> set (nd_notebooks db). nb_id r = i \<and> nb_parent r = Nb_ParentID n \<and> nb_workspace r = Nb_WorkspaceID n \<and> i \<noteq> NilID"
proof -
  from assms obtain r where f: "find (\<lambda>r. nb_id r = i) (nd_notebooks db) = Some r" and s: "scanNotebook r = Inr n"
    by (auto simp: getNotebook_def split: option.splits)
  from f have "r \<in> set (nd_notebooks db)" "nb_id r = i" by (auto simp: find_Some_iff)
  moreover from s have "nb_parent r = Nb_ParentID n" "nb_workspace r = Nb_WorkspaceID n" "nb_id r \<noteq> NilID"
    by (auto simp: scanNotebook_def ID_Validate_def split: if_splits)
  ultimately show ?thesis by blast
qed

lemma parents_unique:
  assumes "distinct (map nb_id rows)" "r \<in> set rows" "(nb_id r, p) \<in> parents rows"
  shows "p = nb_parent r"
proof -
  from assms(3) obtain s where s: "s \<in> set rows" "nb_id s = nb_id r" "p = nb_parent s" by (auto simp: parents_def)
  with distinct_find [OF assms(1,2)] distinct_find [OF assms(1) s(1)] show ?thesis by simp
qed

section \<open>The walk\<close>

lemma walk_step: "getNotebook x db = Inr n \<Longrightarrow> Nb_ParentID n \<noteq> NilID \<Longrightarrow> (x, Nb_ParentID n) \<in> parents (nd_notebooks db)"
  by (auto simp: parents_def dest!: getNotebook_Inr)

lemma ancestor_walk_total:
  assumes "acyclic (parents (nd_notebooks db))"
  shows "\<exists>r. ancestor_walk i ws db x = Some r"
  using parents_wf [OF assms]
proof (induction x rule: wf_induct_rule)
  case (less x)
  show ?case
  proof (cases "ID_IsZero x \<or> x = i")
    case True
    then show ?thesis by (subst ancestor_walk.simps) auto
  next
    case False
    show ?thesis
    proof (cases "getNotebook x db")
      case (Inl e)
      with False show ?thesis by (subst ancestor_walk.simps) simp
    next
      case (Inr n)
      have "\<exists>r. ancestor_walk i ws db (Nb_ParentID n) = Some r"
      proof (cases "Nb_ParentID n = NilID")
        case True
        then show ?thesis by (subst ancestor_walk.simps) (simp add: ID_IsZero_def)
      next
        case False
        with less walk_step [OF Inr] show ?thesis by simp
      qed
      with False Inr show ?thesis by (subst ancestor_walk.simps) simp
    qed
  qed
qed

text \<open>A walk that ends at the root did not pass the notebook.\<close>

lemma ancestor_walk_free:
  assumes f: "forest (nd_notebooks db)" and w: "ancestor_walk i ws db x = Some (Inr ())" and i: "i \<noteq> NilID"
  shows "(x, i) \<notin> (parents (nd_notebooks db))\<^sup>*"
proof -
  have "wf ((parents (nd_notebooks db))\<inverse>)" using f by (intro parents_wf) (simp add: forest_def)
  then show ?thesis using w
  proof (induction x rule: wf_induct_rule)
    case (less x)
    show ?case
    proof (cases "x = NilID")
      case True
      have "NilID \<notin> fst ` parents (nd_notebooks db)" using f by (force simp: forest_def parents_def)
      then have none: "(NilID, y) \<notin> parents (nd_notebooks db)" for y by (auto simp: rev_image_eqI)
      show ?thesis
      proof
        assume "(x, i) \<in> (parents (nd_notebooks db))\<^sup>*"
        then show False by (rule converse_rtranclE) (use True i none in simp_all)
      qed
    next
      case False
      with less.prems obtain n where x: "x \<noteq> i" and n: "getNotebook x db = Inr n" and w': "ancestor_walk i ws db (Nb_ParentID n) = Some (Inr ())"
        by (subst (asm) ancestor_walk.simps) (auto simp: ID_IsZero_def split: if_splits sum.splits)
      show ?thesis
      proof
        assume "(x, i) \<in> (parents (nd_notebooks db))\<^sup>*"
        with x obtain p where p: "(x, p) \<in> parents (nd_notebooks db)" "(p, i) \<in> (parents (nd_notebooks db))\<^sup>*"
          by (auto elim: converse_rtranclE)
        from getNotebook_Inr [OF n] obtain r where "r \<in> set (nd_notebooks db)" "nb_id r = x" "nb_parent r = Nb_ParentID n" by blast
        with parents_unique [of "nd_notebooks db" r p] p(1) f have "p = Nb_ParentID n" by (simp add: forest_def)
        with less.IH [of p] p w' show False by simp
      qed
    qed
  qed
qed

section \<open>What the operations do to the parents\<close>

lemma lww_update_rows:
  assumes "lww_update is_row reg clock f rows = Inr rows'"
  shows "\<exists>hit. rows' = map (\<lambda>r. if hit r then f r else r) rows \<and> (\<forall>r. hit r \<longrightarrow> is_row r)"
proof -
  let ?hit = "\<lambda>r. is_row r \<and> lwwWhereClause (reg r) clock"
  from assms have "rows' = map (\<lambda>r. if ?hit r then f r else r) rows" by (auto simp: lww_update_def Let_def split: if_splits)
  moreover have "\<forall>r. ?hit r \<longrightarrow> is_row r" by simp
  ultimately show ?thesis by (intro exI [of _ ?hit] conjI)
qed

lemma map_core:
  assumes "\<And>r. g (f r) = g r"
  shows "map g (map (\<lambda>r. if hit r then f r else r) rows) = map g rows"
  using assms by simp

text \<open>Identifiers and parents determine whether the rows are a forest.\<close>

definition tree_view :: "notebook_row list \<Rightarrow> (ID \<times> ID) list" where
  "tree_view rows = map (\<lambda>r. (nb_id r, nb_parent r)) rows"

lemma forest_view: "tree_view rows = tree_view rows' \<Longrightarrow> forest rows = forest rows'"
proof -
  assume v: "tree_view rows = tree_view rows'"
  have "map nb_id rows = map fst (tree_view rows)" "parents rows = {e \<in> set (tree_view rows). snd e \<noteq> NilID}"
    "map nb_id rows' = map fst (tree_view rows')" "parents rows' = {e \<in> set (tree_view rows'). snd e \<noteq> NilID}"
    by (auto simp: tree_view_def parents_def)
  with v have "map nb_id rows = map nb_id rows'" "parents rows = parents rows'" by simp_all
  then show ?thesis unfolding forest_def by (metis set_map)
qed

lemma forest_append:
  assumes "forest rows" "nb_id r \<notin> nb_id ` set rows" "nb_id r \<noteq> NilID" "nb_parent r = NilID \<or> nb_parent r \<in> nb_id ` set rows"
  shows "forest (rows @ [r])"
proof -
  have p: "parents (rows @ [r]) = (if nb_parent r = NilID then parents rows else insert (nb_id r, nb_parent r) (parents rows))"
    by (auto simp: parents_def)
  have "(nb_parent r, nb_id r) \<notin> (parents rows)\<^sup>*" if n: "nb_parent r \<noteq> NilID"
  proof
    assume "(nb_parent r, nb_id r) \<in> (parents rows)\<^sup>*"
    then have "nb_parent r = nb_id r \<or> nb_id r \<in> snd ` parents rows"
    proof (cases rule: rtranclE)
      case (step y)
      from imageI [OF step(2), of snd] show ?thesis by simp
    qed simp
    with assms n show False by (auto simp: forest_def)
  qed
  with assms p show ?thesis by (auto simp: forest_def)
qed

lemma forest_move:
  assumes f: "forest rows" and free: "(p, i) \<notin> (parents rows)\<^sup>*" and p: "p = NilID \<or> p \<in> nb_id ` set rows"
    and hit: "\<And>r. hit r \<Longrightarrow> nb_id r = i" "\<And>r. nb_id (g r) = nb_id r \<and> nb_parent (g r) = p"
  shows "forest (map (\<lambda>r. if hit r then g r else r) rows)" (is "forest ?rows")
proof -
  have ids: "map nb_id ?rows = map nb_id rows" using hit(2) by (intro map_core) simp
  then have idset: "nb_id ` set ?rows = nb_id ` set rows" by (metis set_map)
  have sub: "parents ?rows \<subseteq> (if p = NilID then parents rows else insert (i, p) (parents rows))"
    using hit by (auto simp: parents_def split: if_splits)
  have "acyclic (if p = NilID then parents rows else insert (i, p) (parents rows))"
    using f free by (simp add: forest_def)
  with sub have "acyclic (parents ?rows)" by (meson acyclic_subset)
  moreover have "snd ` parents ?rows \<subseteq> nb_id ` set ?rows"
    unfolding idset using sub p f by (fastforce simp: forest_def split: if_splits)
  ultimately show ?thesis using f unfolding forest_def ids idset by blast
qed


section \<open>Histories\<close>

text \<open>
  The methods that change the notebooks, and all others. \<open>UpsertSnapshotNotebook\<close> writes the parent of
  an imported row without a check, so its step asks that the row does not name the notebook
  itself or one of its descendants as the parent.
\<close>

inductive notebook_step :: "note_db \<Rightarrow> note_db \<Rightarrow> bool" where
  step_create: "Store_CreateNotebook newid ws parent name clock db = Inr (n, db') \<Longrightarrow> newid \<noteq> NilID \<Longrightarrow> notebook_step db db'"
| step_placeholder: "EnsureNotebookPlaceholder ws i clock db = Inr db' \<Longrightarrow> notebook_step db db'"
| step_rename: "Store_RenameNotebook i name clock db = Inr db' \<Longrightarrow> notebook_step db db'"
| step_move: "Store_MoveNotebook i p clock db = Some (Inr db') \<Longrightarrow> notebook_step db db'"
| step_deleted: "Store_SetNotebookDeleted i deleted clock db = Inr db' \<Longrightarrow> notebook_step db db'"
| step_snapshot: "UpsertSnapshotNotebook n db = Inr db' \<Longrightarrow> (Nb_ParentID n, Nb_ID n) \<notin> (parents (nd_notebooks db))\<^sup>* \<Longrightarrow> notebook_step db db'"
| step_other: "nd_notebooks db' = nd_notebooks db \<Longrightarrow> notebook_step db db'"

lemma on_notebooks_view:
  assumes "on_notebooks (lww_update is_row reg clock f) db = Inr db'" "\<And>r. nb_id (f r) = nb_id r \<and> nb_parent (f r) = nb_parent r"
  shows "tree_view (nd_notebooks db') = tree_view (nd_notebooks db)"
proof -
  from assms(1) obtain rows where "lww_update is_row reg clock f (nd_notebooks db) = Inr rows" "nd_notebooks db' = rows"
    by (auto simp: on_notebooks_def err_simps)
  with lww_update_rows [of is_row reg clock f "nd_notebooks db" rows] assms(2) show ?thesis
    by (auto simp: tree_view_def)
qed

lemma create_forest:
  assumes "forest (nd_notebooks db)" "Store_CreateNotebook newid ws parent name clock db = Inr (n, db')" "newid \<noteq> NilID"
  shows "forest (nd_notebooks db')"
proof -
  from assms(2) obtain r where r: "nd_notebooks db' = nd_notebooks db @ [r]" "nb_id r = newid" "nb_parent r = parent"
    and new: "\<not> list_ex (\<lambda>b. nb_id b = newid) (nd_notebooks db)"
    and p: "parent = NilID \<or> (\<exists>nb. getNotebook parent db = Inr nb)"
    by (auto simp: Store_CreateNotebook_def Let_def ID_IsZero_def err_simps split: if_splits)
  from p have "parent = NilID \<or> parent \<in> nb_id ` set (nd_notebooks db)" by (auto dest!: getNotebook_Inr)
  with new assms(1,3) r show ?thesis by (auto simp: list_ex_iff intro!: forest_append)
qed

lemma placeholder_forest:
  assumes "forest (nd_notebooks db)" "EnsureNotebookPlaceholder ws i clock db = Inr db'"
  shows "forest (nd_notebooks db')"
proof -
  from assms(2) consider "db' = db"
    | r where "nd_notebooks db' = nd_notebooks db @ [r]" "nb_id r = i" "nb_parent r = NilID" "i \<noteq> NilID" "\<not> list_ex (\<lambda>b. nb_id b = i) (nd_notebooks db)"
    by (auto simp: EnsureNotebookPlaceholder_def same_workspace_def Let_def ID_IsZero_def err_simps split: if_splits option.splits)
  then show ?thesis using assms(1) by cases (auto simp: list_ex_iff intro!: forest_append)
qed

lemma move_forest:
  assumes f: "forest (nd_notebooks db)" and m: "Store_MoveNotebook i p clock db = Some (Inr db')"
  shows "forest (nd_notebooks db')"
proof -
  from m obtain n where n: "getNotebook i db = Inr n" and w: "ancestor_walk i (Nb_WorkspaceID n) db p = Some (Inr ())"
    and u: "move_row i p clock db = Inr db'" and ne: "i \<noteq> p"
    by (auto simp: Store_MoveNotebook_def err_simps split: if_splits sum.splits)
  from getNotebook_Inr [OF n] have i: "i \<noteq> NilID" by blast
  have p: "p = NilID \<or> p \<in> nb_id ` set (nd_notebooks db)"
  proof (cases "p = NilID")
    case False
    with w ne obtain q where "getNotebook p db = Inr q"
      by (subst (asm) ancestor_walk.simps) (auto simp: ID_IsZero_def split: if_splits sum.splits)
    then show ?thesis by (auto dest!: getNotebook_Inr)
  qed simp
  from u obtain rows where "lww_update (\<lambda>r. nb_id r = i) nb_parent_clock clock (\<lambda>r. r\<lparr>nb_parent := p, nb_parent_clock := Some clock\<rparr>)
      (nd_notebooks db) = Inr rows" and db': "nd_notebooks db' = rows"
    by (auto simp: move_row_def on_notebooks_def err_simps)
  from lww_update_rows [OF this(1)] obtain hit where
    "rows = map (\<lambda>r. if hit r then r\<lparr>nb_parent := p, nb_parent_clock := Some clock\<rparr> else r) (nd_notebooks db)" "\<forall>r. hit r \<longrightarrow> nb_id r = i" by blast
  with forest_move [OF f ancestor_walk_free [OF f w i] p, of hit "\<lambda>r. r\<lparr>nb_parent := p, nb_parent_clock := Some clock\<rparr>"] db'
  show ?thesis by simp
qed

lemma snapshot_forest:
  assumes f: "forest (nd_notebooks db)" and u: "UpsertSnapshotNotebook n db = Inr db'"
    and free: "(Nb_ParentID n, Nb_ID n) \<notin> (parents (nd_notebooks db))\<^sup>*"
  shows "forest (nd_notebooks db')"
proof -
  let ?row = "snapshot_notebook_row n"
  have row: "nb_id ?row = Nb_ID n" "nb_parent ?row = Nb_ParentID n" by (simp_all add: snapshot_notebook_row_def)
  from u have i: "Nb_ID n \<noteq> NilID" and fk: "notebook_fks ?row db"
    by (auto simp: UpsertSnapshotNotebook_def err_simps ID_IsZero_def split: if_splits)
  from fk free have p: "Nb_ParentID n = NilID \<or> Nb_ParentID n \<in> nb_id ` set (nd_notebooks db)"
    by (force simp: notebook_fks_def row list_ex_iff)
  show ?thesis
  proof (cases "list_ex (\<lambda>r. nb_id r = Nb_ID n) (nd_notebooks db)")
    case True
    with u have "nd_notebooks db' = map (\<lambda>r. if nb_id r = Nb_ID n then ?row else r) (nd_notebooks db)"
      by (auto simp: UpsertSnapshotNotebook_def err_simps split: if_splits)
    also have "\<dots> = map (\<lambda>r. if nb_id r = Nb_ID n then ?row\<lparr>nb_id := nb_id r\<rparr> else r) (nd_notebooks db)"
      by (simp add: snapshot_notebook_row_def)
    finally show ?thesis using forest_move [OF f free p, of "\<lambda>r. nb_id r = Nb_ID n" "\<lambda>r. ?row\<lparr>nb_id := nb_id r\<rparr>"] by (simp add: row)
  next
    case False
    with u have "nd_notebooks db' = nd_notebooks db @ [?row]"
      by (auto simp: UpsertSnapshotNotebook_def err_simps split: if_splits)
    with False f i p show ?thesis by (auto simp: list_ex_iff row intro!: forest_append)
  qed
qed

lemma notebook_step_forest: "notebook_step db db' \<Longrightarrow> forest (nd_notebooks db) \<Longrightarrow> forest (nd_notebooks db')"
proof (induction rule: notebook_step.induct)
  case (step_rename i name clock db db')
  then have "tree_view (nd_notebooks db') = tree_view (nd_notebooks db)"
    by (auto simp: Store_RenameNotebook_def err_simps elim!: on_notebooks_view)
  then show ?case using step_rename.prems forest_view by blast
next
  case (step_deleted i deleted clock db db')
  then have "tree_view (nd_notebooks db') = tree_view (nd_notebooks db)"
    by (auto simp: Store_SetNotebookDeleted_def elim!: on_notebooks_view)
  then show ?case using step_deleted.prems forest_view by blast
qed (auto intro: create_forest placeholder_forest move_forest snapshot_forest)

lemma forest_steps: "notebook_step\<^sup>*\<^sup>* db db' \<Longrightarrow> forest (nd_notebooks db) \<Longrightarrow> forest (nd_notebooks db')"
  by (induction rule: rtranclp_induct) (auto intro: notebook_step_forest)

text \<open>
  C7. The notebooks of a device stay a forest, and moving a notebook always returns. Whatever
  sequence of the store's notebook methods was executed, imports of snapshot rows included as
  long as none of them names the notebook itself or one of its descendants as its parent (which
  the import does not check), no notebook is its own ancestor, and \<open>MoveNotebook\<close>, whose loop
  follows the stored parents, ends for every request; a request that names the notebook itself
  or a descendant as the new parent is refused.
\<close>

theorem MoveNotebook_forest:
  assumes "forest (nd_notebooks db)" "notebook_step\<^sup>*\<^sup>* db db'"
  shows "acyclic (parents (nd_notebooks db')) \<and> (\<exists>r. Store_MoveNotebook i p clock db' = Some r) \<and>
    ((p, i) \<in> (parents (nd_notebooks db'))\<^sup>* \<longrightarrow> (\<exists>e. Store_MoveNotebook i p clock db' = Some (Inl e)))"
proof (intro conjI impI)
  have f: "forest (nd_notebooks db')" using assms(2,1) by (rule forest_steps)
  then show a: "acyclic (parents (nd_notebooks db'))" by (simp add: forest_def)
  show total: "\<exists>r. Store_MoveNotebook i p clock db' = Some r"
    using ancestor_walk_total [OF a] by (auto simp: Store_MoveNotebook_def split: sum.splits)
  show "\<exists>e. Store_MoveNotebook i p clock db' = Some (Inl e)" if below: "(p, i) \<in> (parents (nd_notebooks db'))\<^sup>*"
  proof -
    from total obtain r where r: "Store_MoveNotebook i p clock db' = Some r" by blast
    show ?thesis
    proof (cases r)
      case (Inr d)
      with r obtain n where n: "getNotebook i db' = Inr n" and w: "ancestor_walk i (Nb_WorkspaceID n) db' p = Some (Inr ())"
        by (auto simp: Store_MoveNotebook_def err_simps split: if_splits sum.splits)
      from getNotebook_Inr [OF n] have "i \<noteq> NilID" by blast
      with ancestor_walk_free [OF f w] below show ?thesis by blast
    qed (use r in simp)
  qed
qed

definition empty_notes :: note_db where
  "empty_notes = \<lparr>nd_workspaces = {demo_id 1}, nd_devices = [], nd_notebooks = [], nd_tags = [], nd_notes = [], nd_note_tags = [],
     nd_attachments = [], nd_note_attachments = [], nd_crdt_states = Map.empty, nd_crdt_updates = [], nd_revisions = [], nd_fts = []\<rparr>"

definition demo_notebook :: "byte \<Rightarrow> ID \<Rightarrow> notebook_row" where
  "demo_notebook n parent = \<lparr>nb_id = demo_id n, nb_workspace = demo_id 1, nb_parent = parent, nb_parent_clock = Some demo_remote, nb_name = ''work'',
     nb_name_clock = demo_remote, nb_deleted = False, nb_deleted_clock = None, nb_created = demo_remote\<rparr>"

lemma demo_create:
  "Store_CreateNotebook (demo_id 3) (demo_id 1) NilID ''work'' demo_remote empty_notes
     = Inr (\<lparr>Nb_ID = demo_id 3, Nb_WorkspaceID = demo_id 1, Nb_ParentID = NilID, Nb_ParentClock = demo_remote, Nb_Name = ''work'',
         Nb_NameClock = demo_remote, Nb_Deleted = False, Nb_DeletedClock = zero_HLC, Nb_CreatedAt = demo_remote\<rparr>,
       empty_notes\<lparr>nd_notebooks := [demo_notebook 3 NilID]\<rparr>)"
  by (simp add: Store_CreateNotebook_def validateName_def ID_IsZero_def notebook_fks_def empty_notes_def demo_notebook_def demo_remote_def
      Let_def word_le_def)

text \<open>A notebook created on the device, one imported from a snapshot, and the second moved below the first.\<close>

definition demo_import :: Notebook where
  "demo_import = \<lparr>Nb_ID = demo_id 5, Nb_WorkspaceID = demo_id 1, Nb_ParentID = NilID, Nb_ParentClock = demo_remote, Nb_Name = ''work'',
     Nb_NameClock = demo_remote, Nb_Deleted = False, Nb_DeletedClock = zero_HLC, Nb_CreatedAt = demo_remote\<rparr>"

definition move_clock :: HLC where
  "move_clock = \<lparr>PhysicalMS = 3000, Logical = 0, ClockDeviceID = demo_id 2\<rparr>"

definition demo_tree :: "ID \<Rightarrow> HLC \<Rightarrow> note_db" where
  "demo_tree parent clock = empty_notes\<lparr>nd_notebooks := [demo_notebook 3 NilID, (demo_notebook 5 parent)\<lparr>nb_parent_clock := Some clock\<rparr>]\<rparr>"

lemma demo_imported: "UpsertSnapshotNotebook demo_import (empty_notes\<lparr>nd_notebooks := [demo_notebook 3 NilID]\<rparr>) = Inr (demo_tree NilID demo_remote)"
  by (simp add: UpsertSnapshotNotebook_def validateName_def ID_IsZero_def notebook_fks_def snapshot_notebook_row_def demo_import_def
      empty_notes_def demo_notebook_def demo_tree_def demo_remote_def nullable_clock_def word_le_def)

lemma demo_move: "Store_MoveNotebook (demo_id 5) (demo_id 3) move_clock (demo_tree NilID demo_remote) = Some (Inr (demo_tree (demo_id 3) move_clock))"
proof -
  let ?db = "demo_tree NilID demo_remote"
  have g: "\<exists>n. getNotebook (demo_id 3) ?db = Inr n \<and> Nb_ParentID n = NilID \<and> Nb_WorkspaceID n = demo_id 1"
      "\<exists>n. getNotebook (demo_id 5) ?db = Inr n \<and> Nb_WorkspaceID n = demo_id 1"
    by (simp_all add: getNotebook_def scanNotebook_def demo_tree_def demo_notebook_def empty_notes_def)
  then obtain n3 n5 where n: "getNotebook (demo_id 3) ?db = Inr n3" "Nb_ParentID n3 = NilID" "Nb_WorkspaceID n3 = demo_id 1"
    "getNotebook (demo_id 5) ?db = Inr n5" "Nb_WorkspaceID n5 = demo_id 1" by blast
  have "ancestor_walk (demo_id 5) (demo_id 1) ?db NilID = Some (Inr ())"
    by (subst ancestor_walk.simps) (simp add: ID_IsZero_def)
  then have w: "ancestor_walk (demo_id 5) (demo_id 1) ?db (demo_id 3) = Some (Inr ())"
    by (subst ancestor_walk.simps) (simp add: ID_IsZero_def n)
  have "move_row (demo_id 5) (demo_id 3) move_clock ?db = Inr (demo_tree (demo_id 3) move_clock)"
    by (simp add: move_row_def on_notebooks_def lww_update_def lwwWhereClause_def demo_tree_def demo_notebook_def empty_notes_def demo_remote_def
        move_clock_def HLC_Compare_def Let_def word_le_def)
  with w n show ?thesis by (simp add: Store_MoveNotebook_def)
qed

theorem MoveNotebook_forest_witness:
  "notebook_step\<^sup>*\<^sup>* empty_notes (demo_tree (demo_id 3) move_clock) \<and> acyclic (parents (nd_notebooks (demo_tree (demo_id 3) move_clock))) \<and>
   (\<exists>e. Store_MoveNotebook (demo_id 3) (demo_id 5) move_clock (demo_tree (demo_id 3) move_clock) = Some (Inl e))"
proof -
  have 1: "notebook_step empty_notes (empty_notes\<lparr>nd_notebooks := [demo_notebook 3 NilID]\<rparr>)"
    using demo_create by (rule step_create) simp
  have "parents (nd_notebooks (empty_notes\<lparr>nd_notebooks := [demo_notebook 3 NilID]\<rparr>)) = {}" by (simp add: parents_def demo_notebook_def)
  then have "(Nb_ParentID demo_import, Nb_ID demo_import) \<notin> (parents (nd_notebooks (empty_notes\<lparr>nd_notebooks := [demo_notebook 3 NilID]\<rparr>)))\<^sup>*"
    using demo_id_not_Nil(1) [of 5, symmetric] by (simp add: demo_import_def)
  with demo_imported have 2: "notebook_step (empty_notes\<lparr>nd_notebooks := [demo_notebook 3 NilID]\<rparr>) (demo_tree NilID demo_remote)" by (rule step_snapshot)
  from demo_move have 3: "notebook_step (demo_tree NilID demo_remote) (demo_tree (demo_id 3) move_clock)" by (rule step_move)
  from 1 2 3 have steps: "notebook_step\<^sup>*\<^sup>* empty_notes (demo_tree (demo_id 3) move_clock)"
    by (meson converse_rtranclp_into_rtranclp r_into_rtranclp)
  have "forest (nd_notebooks empty_notes)" by (simp add: forest_def parents_def empty_notes_def acyclic_def)
  note safe = MoveNotebook_forest [OF this steps, of "demo_id 3" "demo_id 5" move_clock]
  have "(demo_id 5, demo_id 3) \<in> (parents (nd_notebooks (demo_tree (demo_id 3) move_clock)))\<^sup>*"
    unfolding parents_def mem_Collect_eq
    by (intro r_into_rtrancl CollectI exI [of _ "(demo_notebook 5 (demo_id 3))\<lparr>nb_parent_clock := Some move_clock\<rparr>"])
       (simp add: demo_tree_def demo_notebook_def)
  with safe steps show ?thesis by blast
qed

end
