(* ===== verification/Replication.thy ===== *)
theory Replication
  imports Sync_Processor "HOL-Library.Multiset"
begin

text \<open>
  What the replication of notes promises. The metadata of the notes is a family of
  last-writer-wins registers; the functional refinement says that applying an operation
  (\<^verbatim>\<open>core/account/sync_processor.go\<close>, with the SQL statements of \<^verbatim>\<open>core/store\<close>) is one write
  to one register, and the convergence of replicas follows from the laws of \<open>latest_wins\<close>.
\<close>

section \<open>Registers with an optional clock\<close>

text \<open>A register that was never written has no clock and loses against every write.\<close>

fun opt_compare :: "HLC option \<Rightarrow> HLC option \<Rightarrow> int" where
  "opt_compare None None = 0"
| "opt_compare None (Some b) = -1"
| "opt_compare (Some a) None = 1"
| "opt_compare (Some a) (Some b) = HLC_Compare a b"

interpretation opt_cmp: comparator opt_compare
proof unfold_locales
  fix a b c :: "HLC option"
  show "opt_compare a b = 0 \<longleftrightarrow> a = b" by (cases a; cases b) (simp_all add: hlc_cmp.cmp_eq)
  show "opt_compare b a = - opt_compare a b" by (cases a; cases b) (simp_all, rule hlc_cmp.cmp_swap)
  show "opt_compare a b < 0 \<Longrightarrow> opt_compare b c < 0 \<Longrightarrow> opt_compare a c < 0"
    by (cases a; cases b; cases c) (auto intro: hlc_cmp.cmp_trans)
qed

type_synonym 'v register = "'v \<times> HLC option"

definition reg_merge :: "'v register \<Rightarrow> 'v register \<Rightarrow> 'v register" where
  "reg_merge r s = (if 0 < opt_compare (snd s) (snd r) then s else r)"

interpretation reg: latest_wins opt_compare snd reg_merge
  by unfold_locales (simp add: reg_merge_def)

lemma opt_compare_where [simp]: "0 < opt_compare (Some clock) c \<longleftrightarrow> lwwWhereClause c clock"
  by (cases c) simp_all

text \<open>Writes that are not later than the start do nothing, so only the others have to be told apart by their clocks.\<close>

context latest_wins
begin

lemma fold_merge_filter:
  "cmp (key r0) (key r) \<le> 0 \<Longrightarrow>
   fold (\<lambda>s r. merge r s) ws r = fold (\<lambda>s r. merge r s) (filter (\<lambda>w. 0 < cmp (key w) (key r0)) ws) r"
proof (induction ws arbitrary: r)
  case (Cons w ws)
  have "cmp (key r) (key (merge r w)) \<le> 0" by (simp add: merge_eq cmp_pos_iff)
  with Cons.prems have le: "cmp (key r0) (key (merge r w)) \<le> 0" by (rule cmp_le_trans)
  have "merge r w = r" if "\<not> 0 < cmp (key w) (key r0)"
    using that cmp_le_trans [OF _ Cons.prems, of "key w"] by (simp add: merge_eq)
  with Cons.IH [OF le] show ?case by simp
qed simp

lemma fold_merge_order:
  assumes "set ws = set ws'" "inj_on key (set ws)"
  shows "fold (\<lambda>s r. merge r s) ws r = fold (\<lambda>s r. merge r s) ws' r"
proof -
  let ?later = "filter (\<lambda>w. 0 < cmp (key w) (key r))"
  have "inj_on key (insert r (set (?later ws)))"
    using inj_on_subset [OF assms(2), of "set (?later ws)"] by (auto simp: inj_on_insert)
  then have "fold (\<lambda>s r. merge r s) (?later ws) r = fold (\<lambda>s r. merge r s) (?later ws') r"
    by (intro fold_merge_converges) (auto simp: assms(1))
  then show ?thesis
    using fold_merge_filter [of r r ws] fold_merge_filter [of r r ws'] by simp
qed

end

section \<open>The abstract replica\<close>

datatype register_name = NotebookOf ID | FlagsOf ID | DeletedOf ID | TagOf ID ID | AttachmentOf ID bytes

datatype register_value = InNotebook ID | HasFlags NoteFlags | IsTrue bool

type_synonym replica = "register_name \<Rightarrow> register_value register"

definition note_register :: "(note_row \<Rightarrow> 'v register) \<Rightarrow> 'v \<Rightarrow> ID \<Rightarrow> note_row list \<Rightarrow> 'v register" where
  "note_register f initial noteID rows = (case find (\<lambda>r. nr_id r = noteID) rows of None \<Rightarrow> (initial, None) | Some r \<Rightarrow> f r)"

definition pair_register :: "ID \<Rightarrow> 'k \<Rightarrow> 'k pair_row list \<Rightarrow> register_value register" where
  "pair_register noteID other rows =
     (case find (\<lambda>p. pr_note p = noteID \<and> pr_other p = other) rows of
        None \<Rightarrow> (IsTrue False, None) | Some p \<Rightarrow> (IsTrue (pr_present p), Some (pr_clock p)))"

fun replica_of :: "note_db \<Rightarrow> replica" where
  "replica_of db (NotebookOf n) = note_register (\<lambda>r. (InNotebook (nr_notebook r), nr_notebook_clock r)) (InNotebook NilID) n (nd_notes db)"
| "replica_of db (FlagsOf n) = note_register (\<lambda>r. (HasFlags (nr_flags r), nr_flags_clock r)) (HasFlags 0) n (nd_notes db)"
| "replica_of db (DeletedOf n) = note_register (\<lambda>r. (IsTrue (nr_deleted r), nr_deleted_clock r)) (IsTrue False) n (nd_notes db)"
| "replica_of db (TagOf n t) = pair_register n t (nd_note_tags db)"
| "replica_of db (AttachmentOf n b) = pair_register n b (nd_note_attachments db)"

text \<open>The write that a metadata operation stands for; a body operation writes no register.\<close>

fun metadata_target :: "NoteMetadataOperation \<Rightarrow> register_name \<times> register_value" where
  "metadata_target m =
     (if NM_Kind m = NoteMetadataKindNotebook then (NotebookOf (NM_NoteID m), InNotebook (NM_NotebookID m))
      else if NM_Kind m = NoteMetadataKindTag then (TagOf (NM_NoteID m) (NM_TagID m), IsTrue (NM_TagPresent m))
      else if NM_Kind m = NoteMetadataKindFlags then (FlagsOf (NM_NoteID m), HasFlags (NM_Flags m))
      else if NM_Kind m = NoteMetadataKindDeleted then (DeletedOf (NM_NoteID m), IsTrue (NM_Deleted m))
      else (AttachmentOf (NM_NoteID m) (NM_AttachmentBlobID m), IsTrue (NM_AttachmentPresent m)))"

declare metadata_target.simps [simp del]

fun deliver :: "WireOperation \<times> operation_payload \<Rightarrow> replica \<Rightarrow> replica" where
  "deliver (wire, BodyPayload b) s = s"
| "deliver (wire, MetadataPayload m) s =
     (let (k, v) = metadata_target m in s(k := reg_merge (s k) (v, Some (Op_Clock wire))))"

section \<open>Every statement is one write\<close>

lemma find_map_same: "(\<And>r. P (g r) \<longleftrightarrow> P r) \<Longrightarrow> find P (map g rows) = map_option g (find P rows)"
  by (induction rows) auto

lemma find_append_some: "find P (xs @ ys) = (case find P xs of None \<Rightarrow> find P ys | Some r \<Rightarrow> Some r)"
  by (induction xs) auto

lemma find_None_list_ex: "find P rows = None \<longleftrightarrow> \<not> list_ex P rows"
  by (auto simp: find_None_iff list_ex_iff)

lemma note_register_update:
  assumes u: "lww_update (\<lambda>r. nr_id r = n) reg clock f rows = Inr rows'" and id: "\<And>r. nr_id (f r) = nr_id r"
    and same: "\<And>r. g (f r) = g r"
  shows "note_register g v0 m rows' = note_register g v0 m rows"
proof -
  from u have r: "rows' = map (\<lambda>r. if nr_id r = n \<and> lwwWhereClause (reg r) clock then f r else r) rows"
    by (auto simp: lww_update_def Let_def split: if_splits)
  show ?thesis unfolding note_register_def r
    by (subst find_map_same) (auto simp: id same split: option.splits)
qed

lemma note_register_write:
  assumes u: "lww_update (\<lambda>r. nr_id r = n) reg clock f rows = Inr rows'" and id: "\<And>r. nr_id (f r) = nr_id r"
    and new: "\<And>r. g (f r) = (v, Some clock)" and reg: "\<And>r. snd (g r) = reg r"
  shows "note_register g v0 m rows' = (if m = n then reg_merge (note_register g v0 m rows) (v, Some clock) else note_register g v0 m rows)"
proof -
  from u have r: "rows' = map (\<lambda>r. if nr_id r = n \<and> lwwWhereClause (reg r) clock then f r else r) rows"
    and ex: "list_ex (\<lambda>r. nr_id r = n) rows"
    by (auto simp: lww_update_def Let_def list_ex_iff split: if_splits)
  have f: "find (\<lambda>r. nr_id r = m) rows' = map_option (\<lambda>r. if nr_id r = n \<and> lwwWhereClause (reg r) clock then f r else r) (find (\<lambda>r. nr_id r = m) rows)"
    unfolding r by (rule find_map_same) (simp add: id)
  show ?thesis
  proof (cases "find (\<lambda>r. nr_id r = m) rows")
    case None
    with ex have "m \<noteq> n" by (auto simp: find_None_list_ex)
    with None f show ?thesis by (simp add: note_register_def)
  next
    case (Some r)
    then have "nr_id r = m" by (auto simp: find_Some_iff)
    with Some f show ?thesis by (auto simp: note_register_def new reg reg_merge_def)
  qed
qed

lemma pair_register_write:
  assumes "pair_upsert fks n other present clock rows = Inr rows'"
  shows "pair_register m x rows' =
    (if m = n \<and> x = other then reg_merge (pair_register m x rows) (IsTrue present, Some clock) else pair_register m x rows)"
proof (cases "list_ex (\<lambda>p. pr_note p = n \<and> pr_other p = other) rows")
  case True
  let ?g = "\<lambda>p. if pr_note p = n \<and> pr_other p = other \<and> lwwWhereClause (Some (pr_clock p)) clock then p\<lparr>pr_present := present, pr_clock := clock\<rparr> else p"
  from assms True have r: "rows' = map ?g rows" by (auto simp: pair_upsert_def split: if_splits)
  have f: "find (\<lambda>p. pr_note p = m \<and> pr_other p = x) rows' = map_option ?g (find (\<lambda>p. pr_note p = m \<and> pr_other p = x) rows)"
    unfolding r by (rule find_map_same) simp
  show ?thesis
  proof (cases "find (\<lambda>p. pr_note p = m \<and> pr_other p = x) rows")
    case None
    with True have "\<not> (m = n \<and> x = other)" by (auto simp: find_None_list_ex)
    with None f show ?thesis by (auto simp: pair_register_def)
  next
    case (Some p)
    then have "pr_note p = m \<and> pr_other p = x" by (auto simp: find_Some_iff)
    with Some f show ?thesis by (auto simp: pair_register_def reg_merge_def)
  qed
next
  case False
  with assms have r: "rows' = rows @ [\<lparr>pr_note = n, pr_other = other, pr_present = present, pr_clock = clock\<rparr>]"
    by (auto simp: pair_upsert_def split: if_splits)
  show ?thesis
  proof (cases "m = n \<and> x = other")
    case True
    with False show ?thesis unfolding r pair_register_def by (auto simp: find_append_some find_None_list_ex [symmetric] reg_merge_def)
  next
    case ne: False
    then show ?thesis unfolding r pair_register_def by (auto simp: find_append_some split: option.splits)
  qed
qed

text \<open>Two databases with the same notes and pairs are the same replica.\<close>

lemma replica_of_cong:
  assumes "nd_notes db' = nd_notes db" "nd_note_tags db' = nd_note_tags db" "nd_note_attachments db' = nd_note_attachments db"
  shows "replica_of db' = replica_of db"
proof
  show "replica_of db' k = replica_of db k" for k by (cases k) (simp_all add: assms)
qed

section \<open>Applying an operation\<close>

lemma on_notes_frame:
  "on_notes (lww_update P reg clock f) db = Inr db' \<Longrightarrow>
   \<exists>rows. lww_update P reg clock f (nd_notes db) = Inr rows \<and> db' = db\<lparr>nd_notes := rows\<rparr>"
  by (auto simp: on_notes_def err_simps)

lemma replica_upd:
  assumes "\<And>j. replica_of db' j = (if j = k then reg_merge (replica_of db k) w else replica_of db j)"
  shows "replica_of db' = (replica_of db)(k := reg_merge (replica_of db k) w)"
  using assms by (auto simp: fun_eq_iff)

lemma SetNoteNotebook_write:
  assumes "SetNoteNotebook n b clock db = Inr db'"
  shows "replica_of db' = (replica_of db)(NotebookOf n := reg_merge (replica_of db (NotebookOf n)) (InNotebook b, Some clock))"
proof -
  from assms obtain rows where u: "lww_update (\<lambda>r. nr_id r = n) nr_notebook_clock clock (\<lambda>r. r\<lparr>nr_notebook := b, nr_notebook_clock := Some clock\<rparr>) (nd_notes db) = Inr rows"
    and db': "db' = db\<lparr>nd_notes := rows\<rparr>"
    by (auto simp: SetNoteNotebook_def dest!: on_notes_frame split: if_splits)
  show ?thesis
  proof (rule replica_upd)
    show "replica_of db' j = (if j = NotebookOf n then reg_merge (replica_of db (NotebookOf n)) (InNotebook b, Some clock) else replica_of db j)" for j
      unfolding db' by (cases j) (simp_all add: note_register_write [OF u] note_register_update [OF u])
  qed
qed

lemma SetNoteFlags_write:
  assumes "SetNoteFlags n b clock db = Inr db'"
  shows "replica_of db' = (replica_of db)(FlagsOf n := reg_merge (replica_of db (FlagsOf n)) (HasFlags b, Some clock))"
proof -
  from assms obtain rows where u: "lww_update (\<lambda>r. nr_id r = n) nr_flags_clock clock (\<lambda>r. r\<lparr>nr_flags := b, nr_flags_clock := Some clock\<rparr>) (nd_notes db) = Inr rows"
    and db': "db' = db\<lparr>nd_notes := rows\<rparr>"
    by (auto simp: SetNoteFlags_def dest!: on_notes_frame)
  show ?thesis
  proof (rule replica_upd)
    show "replica_of db' j = (if j = FlagsOf n then reg_merge (replica_of db (FlagsOf n)) (HasFlags b, Some clock) else replica_of db j)" for j
      unfolding db' by (cases j) (simp_all add: note_register_write [OF u] note_register_update [OF u])
  qed
qed

lemma SetNoteDeleted_write:
  assumes "SetNoteDeleted n b clock db = Inr db'"
  shows "replica_of db' = (replica_of db)(DeletedOf n := reg_merge (replica_of db (DeletedOf n)) (IsTrue b, Some clock))"
proof -
  from assms obtain rows where u: "lww_update (\<lambda>r. nr_id r = n) nr_deleted_clock clock (\<lambda>r. r\<lparr>nr_deleted := b, nr_deleted_clock := Some clock\<rparr>) (nd_notes db) = Inr rows"
    and db': "db' = db\<lparr>nd_notes := rows\<rparr>"
    by (auto simp: SetNoteDeleted_def dest!: on_notes_frame)
  show ?thesis
  proof (rule replica_upd)
    show "replica_of db' j = (if j = DeletedOf n then reg_merge (replica_of db (DeletedOf n)) (IsTrue b, Some clock) else replica_of db j)" for j
      unfolding db' by (cases j) (simp_all add: note_register_write [OF u] note_register_update [OF u])
  qed
qed

lemma SetNoteTag_write:
  assumes "SetNoteTag n t b clock db = Inr db'"
  shows "replica_of db' = (replica_of db)(TagOf n t := reg_merge (replica_of db (TagOf n t)) (IsTrue b, Some clock))"
proof (rule replica_upd)
  from assms obtain fks rows where u: "pair_upsert fks n t b clock (nd_note_tags db) = Inr rows" and db': "db' = db\<lparr>nd_note_tags := rows\<rparr>"
    by (auto simp: SetNoteTag_def err_simps)
  show "replica_of db' j = (if j = TagOf n t then reg_merge (replica_of db (TagOf n t)) (IsTrue b, Some clock) else replica_of db j)" for j
    unfolding db' by (cases j) (auto simp: pair_register_write [OF u])
qed

lemma reconcile_frame [simp]:
  "nd_notes (reconcileAttachmentOrphan b now db) = nd_notes db" "nd_note_tags (reconcileAttachmentOrphan b now db) = nd_note_tags db"
  "nd_note_attachments (reconcileAttachmentOrphan b now db) = nd_note_attachments db"
  by (simp_all add: reconcileAttachmentOrphan_def)

lemma SetNoteAttachment_write:
  assumes "SetNoteAttachment n x b clock now db = Inr db'"
  shows "replica_of db' = (replica_of db)(AttachmentOf n x := reg_merge (replica_of db (AttachmentOf n x)) (IsTrue b, Some clock))"
proof (rule replica_upd)
  from assms obtain fks rows where u: "pair_upsert fks n x b clock (nd_note_attachments db) = Inr rows"
    and db': "db' = reconcileAttachmentOrphan x now (db\<lparr>nd_note_attachments := rows\<rparr>)"
    by (auto simp: SetNoteAttachment_def err_simps)
  show "replica_of db' j = (if j = AttachmentOf n x then reg_merge (replica_of db (AttachmentOf n x)) (IsTrue b, Some clock) else replica_of db j)" for j
    unfolding db' by (cases j) (auto simp: pair_register_write [OF u])
qed

lemmas metadata_writes = SetNoteNotebook_write SetNoteFlags_write SetNoteDeleted_write SetNoteTag_write SetNoteAttachment_write

lemma placeholder_replica:
  "EnsureNotebookPlaceholder ws i clock db = Inr db1 \<Longrightarrow> replica_of db1 = replica_of db"
  "EnsureTagPlaceholder ws i clock db = Inr db2 \<Longrightarrow> replica_of db2 = replica_of db"
  "EnsureAttachmentPlaceholder ws b now db = Inr (x, db3) \<Longrightarrow> replica_of db3 = replica_of db"
  by (rule replica_of_cong;
      auto simp: EnsureNotebookPlaceholder_def EnsureTagPlaceholder_def EnsureAttachmentPlaceholder_def same_workspace_def Let_def err_simps
        split: if_splits option.splits)+

lemma applyMetadata_write:
  assumes "applyMetadata wire m db = Inr db'"
  shows "replica_of db' = deliver (wire, MetadataPayload m) (replica_of db)"
  using assms unfolding applyMetadata_def Let_def
  by (auto simp: metadata_target.simps err_simps placeholder_replica dest!: metadata_writes split: if_splits)

lemma SetNoteTitle_replica:
  assumes "SetNoteTitle n t clock db = Inr db'"
  shows "replica_of db' = replica_of db"
proof
  fix j
  from assms obtain rows where u: "lww_update (\<lambda>r. nr_id r = n) (\<lambda>r. Some (nr_title_clock r)) clock (\<lambda>r. r\<lparr>nr_title := t, nr_title_clock := clock\<rparr>) (nd_notes db) = Inr rows"
    and db': "db' = db\<lparr>nd_notes := rows\<rparr>"
    by (auto simp: SetNoteTitle_def dest!: on_notes_frame split: if_splits)
  show "replica_of db' j = replica_of db j"
    unfolding db' by (cases j) (simp_all add: note_register_update [OF u])
qed

lemma update_body_replica:
  assumes "update_body env yj random a v body note update db = Inr db'"
  shows "replica_of db' = replica_of db"
  using assms
  by (intro replica_of_cong)
    (auto simp: update_body_def saveNoteSnapshot_def UpsertCRDTState_def InsertCRDTUpdate_def ReplaceNoteFTS_def Let_def err_simps split: if_splits)

lemma in_store_Inr [simp]: "in_store r = Inr x \<longleftrightarrow> r = Inr x"
  by (cases r) auto

lemma applyBody_replica:
  assumes "applyBody env yj random a v body note db = Inr db'"
  shows "replica_of db' = replica_of db"
  using assms
  by (auto simp: applyBody_def err_simps dest!: update_body_replica SetNoteTitle_replica split: if_splits option.splits)

lemma new_note_replica:
  assumes "\<not> list_ex (\<lambda>r. nr_id r = nr_id row) (nd_notes db)" "nr_notebook row = NilID" "nr_notebook_clock row = None" "nr_flags row = 0"
    "nr_flags_clock row = None" "nr_deleted row = False" "nr_deleted_clock row = None"
  shows "replica_of (db\<lparr>nd_notes := nd_notes db @ [row]\<rparr>) = replica_of db"
proof
  show "replica_of (db\<lparr>nd_notes := nd_notes db @ [row]\<rparr>) j = replica_of db j" for j
    using assms by (cases j) (auto simp: note_register_def find_append_some find_None_list_ex [symmetric] split: option.splits)
qed

lemma InsertReplicatedNote_replica:
  assumes "InsertReplicatedNote n ws title clock db = Inr (nt, db')"
  shows "replica_of db' = replica_of db"
  using assms by (auto simp: InsertReplicatedNote_def Let_def err_simps new_note_replica split: if_splits)

lemma find_or_insert_replica:
  assumes "find_or_insert v db = Inr (nt, db')"
  shows "replica_of db' = replica_of db"
proof -
  have fts: "replica_of (ReplaceNoteFTS n t b d) = replica_of d" for n t b d
    by (rule replica_of_cong) (simp_all add: ReplaceNoteFTS_def)
  from assms show ?thesis
    by (auto simp: find_or_insert_def Let_def err_simps fts dest!: InsertReplicatedNote_replica
        split: if_splits sum.splits operation_payload.splits)
qed

lemma apply_effect_write:
  assumes "apply_effect env yj random a v db = Inr db'"
  shows "replica_of db' = deliver (vo_wire v, vo_payload v) (replica_of db)"
proof -
  from assms obtain nt db1 where f: "find_or_insert v db = Inr (nt, db1)"
    and e: "(case vo_payload v of
           BodyPayload body \<Rightarrow>
             if \<not> Value (Note_Deleted nt) \<or> 0 < HLC_Compare (Op_Clock (vo_wire v)) (LWWClock (Note_Deleted nt))
             then applyBody env yj random a v body nt db1 else Inr db1
         | MetadataPayload metadata \<Rightarrow> in_store (applyMetadata (vo_wire v) metadata db1)) = Inr db'"
    by (auto simp: apply_effect_def err_simps split: if_splits)
  show ?thesis unfolding find_or_insert_replica [OF f, symmetric]
    using e by (cases "vo_payload v") (auto simp: applyMetadata_write dest!: applyBody_replica split: if_splits)
qed

lemma AdvanceDeviceClock_replica: "AdvanceDeviceClock i clock db = Inr db' \<Longrightarrow> replica_of db' = replica_of db"
  by (rule replica_of_cong) (auto simp: AdvanceDeviceClock_def split: if_splits)

lemma Apply_write:
  assumes "Apply env yj random unixMilli v a db = (Inr db', a')"
  shows "replica_of db' = deliver (vo_wire v, vo_payload v) (replica_of db)"
  using assms
  by (auto simp: Apply_def apply_effect_write dest!: AdvanceDeviceClock_replica split: sum.splits prod.splits)

section \<open>Convergence\<close>

text \<open>
  A device that receives operations: each delivery has the random bytes and the wall clock of
  the moment. The first failure aborts the transaction.
\<close>

type_synonym delivery = "bytes option \<times> int \<times> verifiedNoteOperation"

fun Apply_all :: "crypto_env \<Rightarrow> 'd yjs \<Rightarrow> delivery list \<Rightarrow> Account \<Rightarrow> note_db \<Rightarrow> account_error + note_db \<times> Account" where
  "Apply_all env yj [] a db = Inr (db, a)"
| "Apply_all env yj ((random, unixMilli, v) # ds) a db =
     (case Apply env yj random unixMilli v a db of (Inl e, _) \<Rightarrow> Inl e | (Inr db, a) \<Rightarrow> Apply_all env yj ds a db)"

fun delivered :: "delivery \<Rightarrow> WireOperation \<times> operation_payload" where
  "delivered (random, unixMilli, v) = (vo_wire v, vo_payload v)"

lemma Apply_all_writes:
  "Apply_all env yj ds a db = Inr (db', a') \<Longrightarrow> replica_of db' = fold deliver (map delivered ds) (replica_of db)"
proof (induction env yj ds a db rule: Apply_all.induct)
  case (2 env yj random unixMilli v ds a db)
  then obtain db1 a1 where "Apply env yj random unixMilli v a db = (Inr db1, a1)" "Apply_all env yj ds a1 db1 = Inr (db', a')"
    by (auto split: prod.splits sum.splits)
  with 2 Apply_write show ?case by fastforce
qed simp

text \<open>Two operations conflict if they write different values to one register with the same clock.\<close>

fun conflict :: "WireOperation \<times> operation_payload \<Rightarrow> WireOperation \<times> operation_payload \<Rightarrow> bool" where
  "conflict (w, MetadataPayload m) (w', MetadataPayload m') \<longleftrightarrow>
     Op_Clock w = Op_Clock w' \<and> fst (metadata_target m) = fst (metadata_target m') \<and> snd (metadata_target m) \<noteq> snd (metadata_target m')"
| "conflict _ _ \<longleftrightarrow> False"

definition conflict_free :: "(WireOperation \<times> operation_payload) list \<Rightarrow> bool" where
  "conflict_free ops \<longleftrightarrow> list_all (\<lambda>x. list_all (\<lambda>y. \<not> conflict x y) ops) ops"

fun write_to :: "register_name \<Rightarrow> WireOperation \<times> operation_payload \<Rightarrow> register_value register option" where
  "write_to k (w, BodyPayload b) = None"
| "write_to k (w, MetadataPayload m) = (if fst (metadata_target m) = k then Some (snd (metadata_target m), Some (Op_Clock w)) else None)"

lemma fold_deliver: "fold deliver ops s k = fold (\<lambda>w r. reg_merge r w) (List.map_filter (write_to k) ops) (s k)"
proof (induction ops arbitrary: s)
  case (Cons x ops)
  have "deliver x s k = (case write_to k x of None \<Rightarrow> s k | Some w \<Rightarrow> reg_merge (s k) w)"
    by (cases "(k, x)" rule: write_to.cases) (auto split: prod.splits)
  with Cons show ?case by (simp add: map_filter_simps split: option.splits)
qed (simp add: map_filter_simps)

lemma set_map_filter: "set (List.map_filter f xs) = {y. \<exists>x \<in> set xs. f x = Some y}"
  by (induction xs) (auto simp: map_filter_simps split: option.splits)

lemma write_to_conflict:
  "write_to k x = Some u \<Longrightarrow> write_to k y = Some w \<Longrightarrow> \<not> conflict x y \<Longrightarrow> snd u = snd w \<Longrightarrow> u = w"
  by (cases "(x, y)" rule: conflict.cases) (auto split: if_splits)

lemma fold_deliver_order:
  assumes "set xs = set ys" "conflict_free xs"
  shows "fold deliver xs s = fold deliver ys s"
proof
  fix k
  have eq: "set (List.map_filter (write_to k) xs) = set (List.map_filter (write_to k) ys)" by (simp add: set_map_filter assms(1))
  have "inj_on snd (set (List.map_filter (write_to k) xs))"
  proof (rule inj_onI)
    fix u w
    assume "u \<in> set (List.map_filter (write_to k) xs)" "w \<in> set (List.map_filter (write_to k) xs)" and c: "snd u = snd w"
    then obtain x y where x: "x \<in> set xs" "write_to k x = Some u" and y: "y \<in> set xs" "write_to k y = Some w"
      by (auto simp: set_map_filter)
    then have "\<not> conflict x y" using assms(2) by (simp add: conflict_free_def list_all_iff)
    then show "u = w" using x y c write_to_conflict by blast
  qed
  with reg.fold_merge_order [OF eq] show "fold deliver xs s k = fold deliver ys s k" by (simp add: fold_deliver)
qed

text \<open>
  C3. Replicas converge. Two devices whose notes had the same metadata and that applied the same
  operations, each in its own order, any of them several times and at its own times, agree on
  every notebook assignment, every flag set, every tombstone, every tag and every attachment
  reference. The only condition is that no two operations write different values to one
  register with one clock reading.
\<close>

theorem replicas_converge:
  assumes "Apply_all env1 yj1 ds1 a1 db1 = Inr (db1', a1')" "Apply_all env2 yj2 ds2 a2 db2 = Inr (db2', a2')"
    and "replica_of db1 = replica_of db2" "set (map delivered ds1) = set (map delivered ds2)" "conflict_free (map delivered ds1)"
  shows "replica_of db1' = replica_of db2'"
  using Apply_all_writes [OF assms(1)] Apply_all_writes [OF assms(2)] assms(3) fold_deliver_order [OF assms(4,5)] by simp

definition demo_yjs :: "unit yjs" where
  "demo_yjs = \<lparr>yj_new = (), yj_restore = (\<lambda>_ _. Some ()), yj_apply = (\<lambda>_ _ _. Some ()), yj_encode = (\<lambda>_ _. Some [1]), yj_vector = (\<lambda>_. Some [1]),
     yj_markdown = (\<lambda>_. Some [])\<rparr>"

definition demo_account :: Account where
  "demo_account = \<lparr>ac_ID = demo_id 9, ac_DeviceID = demo_id 1, ac_IdentityPublicKey = replicate 32 4, ac_AuthorityPublicKey = replicate 32 5,
     ac_DevicePublicKey = replicate 32 5, ac_locked = False, ac_identityPrivate = Some (replicate 32 4), ac_authorityPrivate = Some (replicate 64 5),
     ac_devicePrivate = Some (replicate 64 5), ac_rootKey = Some (replicate 32 6),
     ac_workspaceKeys = [demo_id 2 \<mapsto> \<lparr>ke_KeyID = replicate 16 3, ke_Key = Some (replicate 32 7), ke_State = 1\<rparr>], ac_historicalWorkspaceKeys = (\<lambda>_. []),
     ac_clock = demo_clock\<rparr>"

definition demo_notes :: note_db where
  "demo_notes = \<lparr>nd_workspaces = {demo_id 2}, nd_devices = [], nd_notebooks = [], nd_tags = [],
     nd_notes = [\<lparr>nr_id = demo_id 4, nr_workspace = demo_id 2, nr_notebook = NilID, nr_notebook_clock = None, nr_title = ''a'', nr_title_clock = demo_remote,
       nr_flags = 0, nr_flags_clock = None, nr_deleted = False, nr_deleted_clock = None, nr_created = demo_remote\<rparr>],
     nd_note_tags = [], nd_attachments = [], nd_note_attachments = [], nd_crdt_states = Map.empty, nd_crdt_updates = [], nd_revisions = [], nd_fts = []\<rparr>"

definition demo_delivery :: "u64 \<Rightarrow> operation_payload \<Rightarrow> delivery" where
  "demo_delivery ms p = (None, 500, \<lparr>vo_entry = \<lparr>ke_KeyID = replicate 16 3, ke_Key = None, ke_State = 1\<rparr>,
     vo_wire = demo_op\<lparr>Op_Clock := \<lparr>PhysicalMS = ms, Logical = 0, ClockDeviceID = demo_id 3\<rparr>\<rparr>, vo_payload = p\<rparr>)"

definition demo_flags :: "NoteFlags \<Rightarrow> operation_payload" where
  "demo_flags f = MetadataPayload ((zero_metadata (demo_id 4) NoteMetadataKindFlags)\<lparr>NM_Flags := f\<rparr>)"

lemmas demo_apply_simps = Apply_def apply_effect_def find_or_insert_def Store_GetNote_def scanNote_def applyMetadata_def SetNoteFlags_def
  on_notes_def lww_update_def AdvanceDeviceClock_def scan_clock_def demo_account_def demo_notes_def demo_delivery_def demo_flags_def zero_metadata_def
  demo_op_def demo_clock_simps HLC_Compare_def word_less_def word_le_def

theorem replicas_converge_witness:
  "\<exists>r1 r2. Apply_all demo_crypto demo_yjs [demo_delivery 3000 (demo_flags 1), demo_delivery 4000 (demo_flags 2)] demo_account demo_notes = Inr r1 \<and>
     Apply_all demo_crypto demo_yjs [demo_delivery 4000 (demo_flags 2), demo_delivery 3000 (demo_flags 1), demo_delivery 3000 (demo_flags 1)]
       demo_account demo_notes = Inr r2 \<and>
     replica_of (fst r1) = replica_of (fst r2)"
proof -
  obtain r1 where r1: "Apply_all demo_crypto demo_yjs [demo_delivery 3000 (demo_flags 1), demo_delivery 4000 (demo_flags 2)] demo_account demo_notes = Inr r1"
    by (simp add: demo_apply_simps)
  obtain r2 where r2: "Apply_all demo_crypto demo_yjs [demo_delivery 4000 (demo_flags 2), demo_delivery 3000 (demo_flags 1), demo_delivery 3000 (demo_flags 1)]
       demo_account demo_notes = Inr r2"
    by (simp add: demo_apply_simps)
  have "conflict_free (map delivered [demo_delivery 3000 (demo_flags 1), demo_delivery 4000 (demo_flags 2)])"
    by (simp add: conflict_free_def demo_delivery_def demo_flags_def)
  with r1 r2 replicas_converge [of demo_crypto demo_yjs _ demo_account demo_notes "fst r1" "snd r1" demo_crypto demo_yjs _ demo_account demo_notes "fst r2" "snd r2"]
  have "replica_of (fst r1) = replica_of (fst r2)" by (simp add: insert_commute)
  with r1 r2 show ?thesis by blast
qed

end
