(* ===== verification/Delivery.thy ===== *)
theory Delivery
  imports Replication
begin

text \<open>
  From the device that makes a change to the device that receives it: the operation a command
  writes to the outbox (\<^verbatim>\<open>core/account/notecommands.go\<close>) passes the verification of every other
  device that has the workspace key and knows the sender (\<^verbatim>\<open>core/account/sync_processor.go\<close>), with
  the payload the sender encoded.
\<close>

section \<open>Telling the payloads apart\<close>

text \<open>
  Body and metadata payloads begin with the same version byte and are told apart by trying to
  decode a body first. A metadata payload is read as a body only if its notebook or tag
  identifier begins with the length of the rest of the payload; in a version 7 identifier
  these bytes are the time of its creation, in the first hour of 1970.
\<close>

definition unambiguous :: "NoteMetadataOperation \<Rightarrow> bool" where
  "unambiguous m \<longleftrightarrow>
     \<not> (NM_Kind m = NoteMetadataKindNotebook \<and> take 4 (ID_Bytes (NM_NotebookID m)) = [0, 0, 0, 12]) \<and>
     \<not> (NM_Kind m = NoteMetadataKindTag \<and> take 4 (ID_Bytes (NM_TagID m)) = [0, 0, 0, 13])"

lemma length_enc_metadata:
  "NoteMetadataKind_valid (NM_Kind m) \<Longrightarrow> (NM_Kind m = 5 \<longrightarrow> length (NM_AttachmentBlobID m) = 32) \<Longrightarrow>
   length (enc_metadata m) = (if NM_Kind m = 1 then 16 else if NM_Kind m = 2 then 17 else if NM_Kind m = 3 then 4 else if NM_Kind m = 4 then 1 else 33)"
  by (auto simp: enc_metadata_def NoteMetadataKind_valid_iff)

lemma length_appendLengthPrefixed: "length (appendLengthPrefixed [] v) = 4 + length v"
  by (simp add: appendLengthPrefixed_def)

lemma metadata_not_body:
  assumes m: "EncodeNoteMetadataOperation m = Inr data" "metadata_readable m" "unambiguous m"
    and b: "DecodeNoteBodyOperation data = Inr b"
  shows False
proof -
  from m have d: "data = 1 # ID_Bytes (NM_NoteID m) @ NM_Kind m # enc_metadata m" and k: "NoteMetadataKind_valid (NM_Kind m)"
    and a: "NM_Kind m = 5 \<longrightarrow> length (NM_AttachmentBlobID m) = 32"
    by (auto simp: EncodeNoteMetadataOperation_iff)
  from decode_body_sound [OF b] have r: "body_readable b" and d': "data = 1 # ID_Bytes (NB_NoteID b) @ flags_body b # enc_body b" by blast+
  from header_parts [OF d] header_parts [OF d'] have f: "flags_body b = NM_Kind m" and e: "enc_body b = enc_metadata m" by simp_all
  have l: "length (enc_body b) = (if NM_Kind m = 1 then 16 else if NM_Kind m = 2 then 17 else if NM_Kind m = 3 then 4 else if NM_Kind m = 4 then 1 else 33)"
    unfolding e using k a by (rule length_enc_metadata)
  show False
  proof (cases "NB_CRDTUpdate b"; cases "NB_Title b")
    fix u assume c: "NB_CRDTUpdate b = Some u" "NB_Title b = None"
    with f have k1: "NM_Kind m = 1" by (simp add: flags_body_def)
    with l c have "length u = 12" by (simp add: enc_body_def length_appendLengthPrefixed)
    with c k1 arg_cong [OF e, of "take 4"] have "take 4 (ID_Bytes (NM_NotebookID m)) = be_bytes 4 (12 :: u32)"
      by (simp add: enc_body_def enc_metadata_def appendLengthPrefixed_def)
    also have "\<dots> = [0, 0, 0, 12]" by code_simp
    finally have "take 4 (ID_Bytes (NM_NotebookID m)) = [0, 0, 0, 12]" .
    with k1 m(3) show False by (simp add: unambiguous_def)
  next
    fix t assume c: "NB_CRDTUpdate b = None" "NB_Title b = Some t"
    with f have k1: "NM_Kind m = 2" by (simp add: flags_body_def)
    with l c have "length t = 13" by (simp add: enc_body_def length_appendLengthPrefixed)
    with c k1 arg_cong [OF e, of "take 4"] have "take 4 (ID_Bytes (NM_TagID m)) = be_bytes 4 (13 :: u32)"
      by (simp add: enc_body_def enc_metadata_def appendLengthPrefixed_def)
    also have "\<dots> = [0, 0, 0, 13]" by code_simp
    finally have "take 4 (ID_Bytes (NM_TagID m)) = [0, 0, 0, 13]" .
    with k1 m(3) show False by (simp add: unambiguous_def)
  next
    fix u t assume c: "NB_CRDTUpdate b = Some u" "NB_Title b = Some t"
    with f have "NM_Kind m = 3" by (simp add: flags_body_def)
    with l c show False by (simp add: enc_body_def length_appendLengthPrefixed)
  next
    assume "NB_CRDTUpdate b = None" "NB_Title b = None"
    with f k show False by (auto simp: flags_body_def NoteMetadataKind_valid_iff)
  qed
qed

lemma decode_metadata_payload:
  assumes "EncodeNoteMetadataOperation m = Inr data" "metadata_readable m" "unambiguous m"
  shows "decode_payload data = Inr (MetadataPayload m)"
proof -
  have "DecodeNoteMetadataOperation data = Inr m" using assms(1,2) by (simp add: DecodeNoteMetadataOperation_iff)
  moreover obtain e where "DecodeNoteBodyOperation data = Inl e"
    using metadata_not_body [OF assms] by (cases "DecodeNoteBodyOperation data") auto
  ultimately show ?thesis by (simp add: decode_payload_def)
qed

lemma decode_body_payload:
  "decode_payload data = Inr (BodyPayload b) \<longleftrightarrow> EncodeNoteBodyOperation b = Inr data \<and> body_readable b"
  using DecodeNoteBodyOperation_iff [of data b] by (auto simp: decode_payload_def split: sum.splits)

text \<open>
  C30. The receiver reads every payload as the sender meant it. A byte string decodes as a body
  operation exactly when it is the encoding of that readable operation, and the encoding of a
  readable metadata operation decodes as that operation unless its notebook or tag identifier
  carries a time stamp from the first minutes of 1970.
\<close>

theorem decode_payload_exact:
  "(decode_payload data = Inr (BodyPayload b) \<longleftrightarrow> EncodeNoteBodyOperation b = Inr data \<and> body_readable b) \<and>
   (unambiguous m \<longrightarrow>
     (decode_payload data = Inr (MetadataPayload m) \<longleftrightarrow> EncodeNoteMetadataOperation m = Inr data \<and> metadata_readable m))"
proof (intro conjI impI)
  show "decode_payload data = Inr (BodyPayload b) \<longleftrightarrow> EncodeNoteBodyOperation b = Inr data \<and> body_readable b"
    by (rule decode_body_payload)
  show "decode_payload data = Inr (MetadataPayload m) \<longleftrightarrow> EncodeNoteMetadataOperation m = Inr data \<and> metadata_readable m" if "unambiguous m"
    using decode_metadata_payload [OF _ _ that, of data] DecodeNoteMetadataOperation_iff [of data m]
    by (auto simp: decode_payload_def split: sum.splits)
qed

definition demo_tagging :: NoteMetadataOperation where
  "demo_tagging = (zero_metadata (demo_id 4) NoteMetadataKindTag)\<lparr>NM_TagID := demo_id 6, NM_TagPresent := True\<rparr>"

lemma demo_tagging_ok: "metadata_readable demo_tagging" "unambiguous demo_tagging"
  by (simp_all add: demo_tagging_def metadata_readable_def unambiguous_def zero_metadata_def) (simp add: demo_id_def ID_Bytes_def id_array_copy)

lemma demo_tagging_encoded: "EncodeNoteMetadataOperation demo_tagging = Inr (1 # ID_Bytes (demo_id 4) @ 2 # ID_Bytes (demo_id 6) @ [1])"
  using demo_tagging_ok(1)
  by (simp add: EncodeNoteMetadataOperation_iff NoteMetadataKind_valid_iff enc_metadata_def demo_tagging_def zero_metadata_def boolByte_def)

theorem decode_payload_exact_witness:
  "unambiguous demo_tagging \<and> decode_payload (1 # ID_Bytes (demo_id 4) @ 2 # ID_Bytes (demo_id 6) @ [1]) = Inr (MetadataPayload demo_tagging)"
  using decode_payload_exact [of _ _ demo_tagging] demo_tagging_ok demo_tagging_encoded by simp

section \<open>Sender and receiver\<close>

text \<open>
  What the receiving device must have: an unlocked account with the workspace, the sender's
  key under its identifier, the sender's public key, and a wall clock that is not too far
  behind the sender's.
\<close>

definition can_receive :: "crypto_env \<Rightarrow> int \<Rightarrow> int \<Rightarrow> Account \<Rightarrow> note_db \<Rightarrow> workspaceKeyEntry \<Rightarrow> bytes \<Rightarrow> ID \<Rightarrow> ID \<Rightarrow> HLC \<Rightarrow> bool" where
  "can_receive env skew now peer pdb entry private ws device clock \<longleftrightarrow>
     \<not> ac_locked peer \<and> ac_workspaceKeys peer ws \<noteq> None \<and>
     map_option ke_Key (workspaceKeyByID ws (ke_KeyID entry) peer) = Some (ke_Key entry) \<and>
     (case find (\<lambda>d. dv_id d = device) (nd_devices pdb) of
        None \<Rightarrow> False | Some d \<Rightarrow> (dv_status d = 1 \<or> dv_status d = 2) \<and> dv_public d = ce_public env private) \<and>
     PhysicalMS clock \<le> word_of_int ((now + skew) div 1000000)"

lemma equalKeyID_first:
  assumes "ac_workspaceKeys a ws = Some current" "\<not> ac_locked a" "equalKeyID current k"
  shows "workspaceKeyByID ws k a = Some current"
  using assms by (simp add: workspaceKeyByID_def)

definition outbox_operation :: "fresh \<Rightarrow> ID \<Rightarrow> ID \<Rightarrow> HLC \<Rightarrow> workspaceKeyEntry \<Rightarrow> EncryptedObject \<Rightarrow> bytes \<Rightarrow> WireOperation" where
  "outbox_operation new ws device clock entry e signature =
     \<lparr>Op_ID = fr_id new, Op_WorkspaceID = ws, Op_DeviceID = device, Op_Sequence = 0, Op_Clock = clock, Op_KeyID = ke_KeyID entry,
      Op_Nonce = EO_Nonce e, Op_Ciphertext = EO_Ciphertext e, Op_Signature = signature\<rparr>"

lemma sum_map_Inr [simp]: "map_sum f id r = Inr x \<longleftrightarrow> r = Inr x"
  by (cases r) auto

lemma writeOutboxOperation_Inr:
  assumes "writeOutboxOperation env new entry (Some private) ws device clock payload db = Inr db'"
    and "valid_id (fr_id new)" "valid_id ws" "valid_id device" "ClockDeviceID clock = device"
  obtains e signature input row where
    "EncryptObject env (ke_Key entry) (object_metadata ws (fr_id new) ObjectTypeOperationPayload (ke_KeyID entry)) (Some payload) (fr_nonce new) = Inr e"
    "ce_capacity env payload \<le> MaxSecretBytes"
    "OperationSignatureInput (outbox_operation new ws device clock entry e signature) = Inr input"
    "SignCanonical (ce_sign env) CryptoProfileV1 (Some private) SignatureDomainOperation_client input = Inr signature"
    "db' = db\<lparr>db_outbox := db_outbox db @ [row]\<rparr>" "scan_outbox row = Inr (outbox_operation new ws device clock entry e signature)"
proof -
  from assms(1) obtain e input signature where cap: "ce_capacity env payload \<le> MaxSecretBytes"
    and e: "EncryptObject env (ke_Key entry) (object_metadata ws (fr_id new) ObjectTypeOperationPayload (ke_KeyID entry)) (Some payload) (fr_nonce new) = Inr e"
    and i: "CanonicalOperationSignatureInput \<lparr>OS_OpID = ID_Bytes (fr_id new), OS_WorkspaceID = ID_Bytes ws, OS_DeviceID = ID_Bytes device,
          OS_HLCPhysicalMS = PhysicalMS clock, OS_HLCLogical = Logical clock, OS_HLCDeviceID = ID_Bytes (ClockDeviceID clock),
          OS_KeyID = ke_KeyID entry, OS_Nonce = EO_Nonce e, OS_Ciphertext = EO_Ciphertext e\<rparr> = Inr input"
    and s: "SignCanonical (ce_sign env) CryptoProfileV1 (Some private) SignatureDomainOperation_client input = Inr signature"
    and o: "InsertOutboxOperation (outbox_operation new ws device clock entry e signature) (PhysicalMS clock) db = Inr db'"
    by (auto simp: writeOutboxOperation_def TakeSecret_def outbox_operation_def err_simps split: if_splits)
  from o have "PhysicalMS clock \<le> MaxInt64"
    by (auto simp: InsertOutboxOperation_def outbox_operation_def split: if_splits)
  moreover from i have "length (ke_KeyID entry) = 16" "length (EO_Nonce e) = 24" "AEADTagBytes \<le> length (EO_Ciphertext e)"
    "length (EO_Ciphertext e) \<le> MaxOperationCiphertextBytes"
    by (auto simp: CanonicalOperationSignatureInput_def OperationSignatureFields_validate_def err_simps split: if_splits)
  ultimately have v: "OperationSignatureInput (outbox_operation new ws device clock entry e signature) = Inr input"
    using assms(2-5) i by (simp add: OperationSignatureInput_def validateWireOperation_def outbox_operation_def)
  from o obtain row where "db' = db\<lparr>db_outbox := db_outbox db @ [row]\<rparr>" "scan_outbox row = Inr (outbox_operation new ws device clock entry e signature)"
    using assms(2-5) by (auto simp: InsertOutboxOperation_def outbox_operation_def scan_outbox_def split: if_splits)
  with that [OF e cap v s] show ?thesis by blast
qed

lemma OperationSignatureInput_sequence: "OperationSignatureInput (op\<lparr>Op_Sequence := seq\<rparr>) = OperationSignatureInput op"
  by (simp add: OperationSignatureInput_def validateWireOperation_def)

lemma written_operation_verifies:
  assumes laws: "crypto_laws env" and w: "writeOutboxOperation env new entry (Some private) ws device clock payload db = Inr db'"
    and ids: "valid_id (fr_id new)" "valid_id ws" "valid_id device" "ClockDeviceID clock = device"
    and peer: "can_receive env skew now peer pdb entry private ws device clock" and p: "decode_payload payload = Inr decoded"
  shows "\<exists>row operation. db' = db\<lparr>db_outbox := db_outbox db @ [row]\<rparr> \<and> scan_outbox row = Inr operation \<and>
    Op_Clock operation = clock \<and> Op_WorkspaceID operation = ws \<and>
    (\<forall>seq. \<exists>v. Verify env skew now peer pdb (operation\<lparr>Op_Sequence := seq\<rparr>) = Inr v \<and> vo_wire v = operation\<lparr>Op_Sequence := seq\<rparr> \<and> vo_payload v = decoded)"
proof -
  from writeOutboxOperation_Inr [OF w ids] obtain e signature input row where
    e: "EncryptObject env (ke_Key entry) (object_metadata ws (fr_id new) ObjectTypeOperationPayload (ke_KeyID entry)) (Some payload) (fr_nonce new) = Inr e"
      "ce_capacity env payload \<le> MaxSecretBytes"
    and i: "OperationSignatureInput (outbox_operation new ws device clock entry e signature) = Inr input"
    and s: "SignCanonical (ce_sign env) CryptoProfileV1 (Some private) SignatureDomainOperation_client input = Inr signature"
    and row: "db' = db\<lparr>db_outbox := db_outbox db @ [row]\<rparr>" "scan_outbox row = Inr (outbox_operation new ws device clock entry e signature)"
    by blast
  define operation where "operation = outbox_operation new ws device clock entry e signature"
  have simps: "Op_WorkspaceID operation = ws" "Op_KeyID operation = ke_KeyID entry" "Op_DeviceID operation = device" "Op_Clock operation = clock"
    "Op_Signature operation = signature" "Op_ID operation = fr_id new" "Op_Nonce operation = EO_Nonce e" "Op_Ciphertext operation = EO_Ciphertext e"
    by (simp_all add: operation_def outbox_operation_def)
  have i: "OperationSignatureInput (operation\<lparr>Op_Sequence := seq\<rparr>) = Inr input" for seq
    using i by (simp add: operation_def OperationSignatureInput_sequence)
  from peer obtain current entry' d where keys: "\<not> ac_locked peer" "ac_workspaceKeys peer ws = Some current"
    "workspaceKeyByID ws (ke_KeyID entry) peer = Some entry'" "ke_Key entry' = ke_Key entry"
    and d: "find (\<lambda>d. dv_id d = device) (nd_devices pdb) = Some d" "dv_status d = 1 \<or> dv_status d = 2" "dv_public d = ce_public env private"
    and t: "\<not> word_of_int ((now + skew) div 1000000) < PhysicalMS clock"
    by (auto simp: can_receive_def not_less split: option.splits)
  have key: "equalKeyID current (ke_KeyID entry) \<Longrightarrow> current = entry'"
    using keys equalKeyID_first [of peer ws current "ke_KeyID entry"] by auto
  from s have sig: "VerifyCanonical (ce_verify env) CryptoProfileV1 (ce_public env private) SignatureDomainOperation_client input signature = Inr ()"
    and pub: "length (ce_public env private) = 32"
    using laws by (auto simp: SignCanonical_def VerifyCanonical_def crypto_laws_def Let_def err_simps split: if_splits)
  have "e = \<lparr>EO_Metadata = object_metadata ws (fr_id new) ObjectTypeOperationPayload (ke_KeyID entry), EO_Nonce = EO_Nonce e, EO_Ciphertext = EO_Ciphertext e\<rparr>"
    using EncryptObject_open(2) [OF laws e] by simp
  then have "OpenObject env (ke_Key entry)
     \<lparr>EO_Metadata = object_metadata ws (fr_id new) ObjectTypeOperationPayload (ke_KeyID entry), EO_Nonce = EO_Nonce e, EO_Ciphertext = EO_Ciphertext e\<rparr> = Inr payload"
    using EncryptObject_open(1) [OF laws e] by simp
  then have "\<exists>v. Verify env skew now peer pdb (operation\<lparr>Op_Sequence := seq\<rparr>) = Inr v \<and> vo_wire v = operation\<lparr>Op_Sequence := seq\<rparr> \<and> vo_payload v = decoded" for seq
    using keys d t p sig pub by (auto simp: Verify_def workspaceSession_def simps i Ed25519PublicKeyBytes_def dest!: key)
  with row simps show ?thesis unfolding operation_def [symmetric] by blast
qed

section \<open>Commands\<close>

datatype note_command = SetNotebook ID | SetFlags NoteFlags | SetDeleted bool | SetTag ID bool

fun command_operation :: "ID \<Rightarrow> note_command \<Rightarrow> NoteMetadataOperation" where
  "command_operation n (SetNotebook b) = (zero_metadata n NoteMetadataKindNotebook)\<lparr>NM_NotebookID := b\<rparr>"
| "command_operation n (SetFlags f) = (zero_metadata n NoteMetadataKindFlags)\<lparr>NM_Flags := f\<rparr>"
| "command_operation n (SetDeleted d) = (zero_metadata n NoteMetadataKindDeleted)\<lparr>NM_Deleted := d\<rparr>"
| "command_operation n (SetTag t p) = (zero_metadata n NoteMetadataKindTag)\<lparr>NM_TagID := t, NM_TagPresent := p\<rparr>"

fun command_change :: "ID \<Rightarrow> note_command \<Rightarrow> HLC \<Rightarrow> note_db \<Rightarrow> store_error + note_db" where
  "command_change n (SetNotebook b) = SetNoteNotebook n b"
| "command_change n (SetFlags f) = SetNoteFlags n f"
| "command_change n (SetDeleted d) = SetNoteDeleted n d"
| "command_change n (SetTag t p) = SetNoteTag n t p"

fun run_command ::
  "crypto_env \<Rightarrow> fresh \<Rightarrow> int \<Rightarrow> ID \<Rightarrow> ID \<Rightarrow> note_command \<Rightarrow> Account \<Rightarrow> account_db \<Rightarrow> (account_error + account_db) \<times> Account" where
  "run_command env new unixMilli ws n (SetNotebook b) = Account_SetNoteNotebook env new unixMilli ws n b"
| "run_command env new unixMilli ws n (SetFlags f) = Account_SetNoteFlags env new unixMilli ws n f"
| "run_command env new unixMilli ws n (SetDeleted d) = setNoteDeleted env new unixMilli ws n d"
| "run_command env new unixMilli ws n (SetTag t p) = Account_SetNoteTag env new unixMilli ws n t p"

lemma run_command_eq:
  "run_command env new unixMilli ws n cmd = commitNoteMetadata env new unixMilli ws (command_operation n cmd) (command_change n cmd)"
  by (cases cmd) (simp_all add: Account_SetNoteNotebook_def Account_SetNoteFlags_def setNoteDeleted_def Account_SetNoteTag_def)

text \<open>The identifiers a command names are valid; a notebook may be the nil identifier.\<close>

fun command_ids :: "note_command \<Rightarrow> bool" where
  "command_ids (SetNotebook b) \<longleftrightarrow> b = NilID \<or> valid_id b"
| "command_ids (SetTag t p) \<longleftrightarrow> valid_id t"
| "command_ids _ \<longleftrightarrow> True"

lemma command_readable: "valid_id n \<Longrightarrow> command_ids cmd \<Longrightarrow> metadata_readable (command_operation n cmd)"
  by (cases cmd) (auto simp: metadata_readable_def zero_metadata_def)

lemma command_change_write:
  assumes "command_change n cmd clock db = Inr db'"
  shows "replica_of db' = (let (k, v) = metadata_target (command_operation n cmd) in (replica_of db)(k := reg_merge (replica_of db k) (v, Some clock)))"
  using assms
  by (cases cmd) (auto simp: metadata_target.simps zero_metadata_def dest!: metadata_writes)

lemma tick_Inr:
  assumes "tick unixMilli a = (Inr clock, a')"
  shows "clock = last_hlc (ac_clock a')" "ClockDeviceID clock = deviceID (ac_clock a)" "ac_DeviceID a' = ac_DeviceID a"
    "ac_devicePrivate a' = ac_devicePrivate a" "\<not> ac_locked a"
  using assms by (auto simp: tick_def dest: Tick_InrD split: if_splits prod.splits sum.splits)

lemma commitNoteMetadata_Inr:
  assumes "commitNoteMetadata env new unixMilli ws m change a db = (Inr db', a')"
  obtains entry nts payload db1 nt where "ac_workspaceKeys a ws = Some entry" "tick unixMilli a = (Inr (last_hlc (ac_clock a')), a')"
    "Store_GetNote (NM_NoteID m) (db_notes db) = Inr nt" "change (last_hlc (ac_clock a')) (db_notes db) = Inr nts"
    "EncodeNoteMetadataOperation m = Inr payload"
    "writeOutboxOperation env new entry (ac_devicePrivate a) ws (ac_DeviceID a) (last_hlc (ac_clock a')) payload (db\<lparr>db_notes := nts\<rparr>) = Inr db1"
    "AdvanceDeviceClock (ac_DeviceID a) (last_hlc (ac_clock a')) (db_notes db1) = Inr (db_notes db')" "db_outbox db' = db_outbox db1"
proof -
  from assms obtain entry clock where k: "ac_workspaceKeys a ws = Some entry" "tick unixMilli a = (Inr clock, a')"
    and b: "bind_res (in_store (Store_GetNote (NM_NoteID m) (db_notes db))) (\<lambda>note.
       if Note_WorkspaceID note \<noteq> ws then Inl (AccStore StoreWrongWorkspace)
       else
         bind_res (on_store (change clock) db) (\<lambda>db.
         bind_res (in_payload (EncodeNoteMetadataOperation m)) (\<lambda>payload.
         bind_res (writeOutboxOperation env new entry (ac_devicePrivate a) ws (ac_DeviceID a) clock payload db) (\<lambda>db.
           on_store (AdvanceDeviceClock (ac_DeviceID a) clock) db)))) = Inr db'"
    by (auto simp: commitNoteMetadata_def with_session_def workspaceSession_def split: if_splits option.splits sum.splits prod.splits)
  note c = tick_Inr(1) [OF k(2)]
  from b that k show ?thesis unfolding c by (auto simp: err_simps split: if_splits)
qed

lemma Store_GetNote_valid: "Store_GetNote n db = Inr nt \<Longrightarrow> valid_id n"
  by (auto simp: Store_GetNote_def scanNote_def find_Some_iff split: option.splits if_splits)

definition writes :: "NoteMetadataOperation \<Rightarrow> HLC \<Rightarrow> replica \<Rightarrow> replica" where
  "writes m clock s = (let (k, v) = metadata_target m in s(k := reg_merge (s k) (v, Some clock)))"

lemma deliver_writes: "deliver (wire, MetadataPayload m) s = writes m (Op_Clock wire) s"
  by (simp add: writes_def)

text \<open>
  What the receiving device must have to apply the change: the note in its workspace, and the
  named notebook or tag either in that workspace or unknown. (An unknown one becomes a
  placeholder, whose name must be free among the tags of the workspace.)
\<close>

fun target_free :: "ID \<Rightarrow> note_command \<Rightarrow> note_db \<Rightarrow> bool" where
  "target_free ws (SetNotebook b) db \<longleftrightarrow> (case find (\<lambda>r. nb_id r = b) (nd_notebooks db) of None \<Rightarrow> True | Some r \<Rightarrow> nb_workspace r = ws)"
| "target_free ws (SetTag t present) db \<longleftrightarrow>
     (case find (\<lambda>r. tg_id r = t) (nd_tags db) of
        None \<Rightarrow> \<not> list_ex (\<lambda>r. tg_workspace r = ws \<and> tg_name r = syncPlaceholderNamePrefix @ hex_encode (ID_Bytes t)) (nd_tags db)
      | Some r \<Rightarrow> tg_workspace r = ws)"
| "target_free ws _ db \<longleftrightarrow> True"

definition can_apply :: "ID \<Rightarrow> ID \<Rightarrow> note_command \<Rightarrow> note_db \<Rightarrow> bool" where
  "can_apply ws n cmd db \<longleftrightarrow> (case Store_GetNote n db of Inl _ \<Rightarrow> False | Inr nt \<Rightarrow> Note_WorkspaceID nt = ws) \<and>
     ws \<in> nd_workspaces db \<and> target_free ws cmd db"

lemma Store_GetNote_row: "Store_GetNote n db = Inr nt \<Longrightarrow> list_ex (\<lambda>r. nr_id r = n) (nd_notes db)"
  by (auto simp: Store_GetNote_def list_ex_iff find_Some_iff split: option.splits intro: nth_mem)

lemma lww_update_total: "list_ex is_row rows \<Longrightarrow> bindable clock \<Longrightarrow> \<exists>rows'. lww_update is_row reg clock f rows = Inr rows'"
  by (simp add: lww_update_def Let_def)

lemma find_None_ex: "find P xs = None \<Longrightarrow> \<not> list_ex P xs"
  by (simp add: find_None_iff list_ex_iff)

lemma find_Some_ex: "find P xs = Some x \<Longrightarrow> list_ex P xs"
  by (metis find_None_iff list_ex_iff option.distinct(1))

lemma find_new: "\<not> list_ex P xs \<Longrightarrow> P x \<Longrightarrow> find P (xs @ [x]) = Some x"
  by (induction xs) auto

lemma notebook_placeholder_total:
  assumes "b \<noteq> NilID" "bindable clock" "ws \<in> nd_workspaces db" "valid_id ws" "target_free ws (SetNotebook b) db"
  shows "\<exists>d. EnsureNotebookPlaceholder ws b clock db = Inr d \<and> list_ex (\<lambda>r. nb_id r = b) (nd_notebooks d) \<and> nd_notes d = nd_notes db"
proof (cases "find (\<lambda>r. nb_id r = b) (nd_notebooks db)")
  case None
  with assms find_None_ex [OF None] show ?thesis
    by (simp add: EnsureNotebookPlaceholder_def ID_IsZero_def Let_def notebook_fks_def same_workspace_def find_new)
next
  case (Some r)
  with assms find_Some_ex [OF Some] show ?thesis
    by (simp add: EnsureNotebookPlaceholder_def ID_IsZero_def Let_def same_workspace_def)
qed

lemma tag_placeholder_total:
  assumes "t \<noteq> NilID" "bindable clock" "ws \<in> nd_workspaces db" "valid_id ws" "target_free ws (SetTag t present) db"
  shows "\<exists>d. EnsureTagPlaceholder ws t clock db = Inr d \<and> list_ex (\<lambda>r. tg_id r = t) (nd_tags d) \<and> nd_notes d = nd_notes db"
proof (cases "find (\<lambda>r. tg_id r = t) (nd_tags db)")
  case None
  with assms have "\<not> list_ex (\<lambda>x. tg_id x \<noteq> t \<and> tg_workspace x = ws \<and> tg_name x = syncPlaceholderNamePrefix @ hex_encode (ID_Bytes t)) (nd_tags db)"
    by (auto simp: list_ex_iff)
  with assms find_None_ex [OF None] show ?thesis
    by (simp add: EnsureTagPlaceholder_def ID_IsZero_def Let_def tag_ok_def same_workspace_def find_new)
next
  case (Some r)
  with assms find_Some_ex [OF Some] show ?thesis
    by (simp add: EnsureTagPlaceholder_def ID_IsZero_def Let_def same_workspace_def)
qed

lemma command_applies:
  assumes can: "can_apply ws n cmd db" and ids: "command_ids cmd" "valid_id ws" and wire: "Op_WorkspaceID wire = ws" "bindable (Op_Clock wire)"
  shows "\<exists>d. applyMetadata wire (command_operation n cmd) db = Inr d"
proof -
  from can obtain nt where "Store_GetNote n db = Inr nt" and ws: "ws \<in> nd_workspaces db" and free: "target_free ws cmd db"
    by (auto simp: can_apply_def split: sum.splits)
  then have row: "list_ex (\<lambda>r. nr_id r = n) (nd_notes db)" by (simp add: Store_GetNote_row)
  note upd = lww_update_total [OF row wire(2)]
  show ?thesis
  proof (cases cmd)
    case (SetNotebook b)
    show ?thesis
    proof (cases "b = NilID")
      case True
      with SetNotebook upd [of nr_notebook_clock "\<lambda>r. r\<lparr>nr_notebook := NilID, nr_notebook_clock := Some (Op_Clock wire)\<rparr>"] show ?thesis
        by (auto simp: applyMetadata_def zero_metadata_def ID_IsZero_def SetNoteNotebook_def on_notes_def Let_def)
    next
      case False
      from notebook_placeholder_total [OF False wire(2) ws ids(2)] free SetNotebook obtain d where
        "EnsureNotebookPlaceholder ws b (Op_Clock wire) db = Inr d" "list_ex (\<lambda>r. nb_id r = b) (nd_notebooks d)" "nd_notes d = nd_notes db" by blast
      with SetNotebook False wire(1) upd [of nr_notebook_clock "\<lambda>r. r\<lparr>nr_notebook := b, nr_notebook_clock := Some (Op_Clock wire)\<rparr>"] show ?thesis
        by (auto simp: applyMetadata_def zero_metadata_def ID_IsZero_def SetNoteNotebook_def on_notes_def Let_def)
    qed
  next
    case (SetTag t present)
    then have "t \<noteq> NilID" using ids(1) by (auto simp: ID_Validate_def)
    from tag_placeholder_total [OF this wire(2) ws ids(2)] free SetTag obtain d where
      "EnsureTagPlaceholder ws t (Op_Clock wire) db = Inr d" "list_ex (\<lambda>r. tg_id r = t) (nd_tags d)" "nd_notes d = nd_notes db" by blast
    with SetTag wire row show ?thesis
      by (simp add: applyMetadata_def zero_metadata_def SetNoteTag_def pair_upsert_def Let_def)
  next
    case (SetFlags f)
    with upd [of nr_flags_clock "\<lambda>r. r\<lparr>nr_flags := f, nr_flags_clock := Some (Op_Clock wire)\<rparr>"] show ?thesis
      by (auto simp: applyMetadata_def zero_metadata_def SetNoteFlags_def on_notes_def Let_def)
  next
    case (SetDeleted d)
    with upd [of nr_deleted_clock "\<lambda>r. r\<lparr>nr_deleted := d, nr_deleted_clock := Some (Op_Clock wire)\<rparr>"] show ?thesis
      by (auto simp: applyMetadata_def zero_metadata_def SetNoteDeleted_def on_notes_def Let_def)
  qed
qed

lemma Apply_total:
  assumes can: "can_apply ws n cmd db" and ids: "command_ids cmd" "valid_id ws"
    and v: "vo_payload v = MetadataPayload (command_operation n cmd)" "Op_WorkspaceID (vo_wire v) = ws" "bindable (Op_Clock (vo_wire v))"
    and o: "Observe t (Op_Clock (vo_wire v)) (ac_clock a) = (Inr merged, c)" "bindable merged"
  shows "\<exists>db' a'. Apply env yj random t v a db = (Inr db', a')"
proof -
  from can obtain nt where nt: "Store_GetNote n db = Inr nt" "Note_WorkspaceID nt = ws" by (auto simp: can_apply_def split: sum.splits)
  have n: "NM_NoteID (command_operation n cmd) = n" by (cases cmd) (simp_all add: zero_metadata_def)
  obtain d where "applyMetadata (vo_wire v) (command_operation n cmd) db = Inr d" using command_applies [OF can ids v(2,3)] by blast
  with nt n v have "apply_effect env yj random a v db = Inr d" by (simp add: apply_effect_def find_or_insert_def Let_def)
  with o show ?thesis by (simp add: Apply_def AdvanceDeviceClock_def)
qed

text \<open>
  C4. A change made on one device is made on every other device that receives it. When a command
  for a note's notebook, flags, tombstone or tags commits (with identifiers whose encoding is
  not mistaken for a body), the sender's register holds the write and one operation is
  appended to the outbox. That operation, with whatever sequence number the server gives it, is
  accepted by every device that has the workspace key, the sender's public key and a wall clock
  not too far behind. Applying it succeeds there when the device has the note, the notebook or
  tag it names is in the workspace or unknown, and the device's clock can take the sender's
  timestamp; and whenever applying it succeeds, it is the same write.
\<close>

theorem committed_change_reaches_peers:
  assumes "crypto_laws env" and run: "run_command env new unixMilli ws n cmd a db = (Inr db', a')"
    and prv: "ac_devicePrivate a = Some private" and entry: "ac_workspaceKeys a ws = Some entry"
    and ids: "valid_id (fr_id new)" "valid_id ws" "valid_id (ac_DeviceID a)" "deviceID (ac_clock a) = ac_DeviceID a" "command_ids cmd"
    and clear: "unambiguous (command_operation n cmd)"
    and peer: "can_receive env skew now peer pdb entry private ws (ac_DeviceID a) (last_hlc (ac_clock a'))"
  shows "\<exists>row operation. replica_of (db_notes db') = writes (command_operation n cmd) (last_hlc (ac_clock a')) (replica_of (db_notes db)) \<and>
    db_outbox db' = db_outbox db @ [row] \<and> scan_outbox row = Inr operation \<and>
    (\<forall>seq. \<exists>v. Verify env skew now peer pdb (operation\<lparr>Op_Sequence := seq\<rparr>) = Inr v \<and>
      (\<forall>(yj :: 'd yjs) random t pdb' peer'. Apply env yj random t v peer pdb = (Inr pdb', peer') \<longrightarrow>
        replica_of pdb' = writes (command_operation n cmd) (last_hlc (ac_clock a')) (replica_of pdb)) \<and>
      (\<forall>(yj :: 'd yjs) random t merged c. can_apply ws n cmd pdb \<longrightarrow> Observe t (last_hlc (ac_clock a')) (ac_clock peer) = (Inr merged, c) \<longrightarrow>
        bindable merged \<longrightarrow> (\<exists>pdb' peer'. Apply env yj random t v peer pdb = (Inr pdb', peer'))))"
proof -
  let ?m = "command_operation n cmd" and ?clock = "last_hlc (ac_clock a')"
  from run [unfolded run_command_eq] obtain entry' nts payload db1 nt where k: "ac_workspaceKeys a ws = Some entry'" and t: "tick unixMilli a = (Inr ?clock, a')"
    and g: "Store_GetNote (NM_NoteID ?m) (db_notes db) = Inr nt" and ch: "command_change n cmd ?clock (db_notes db) = Inr nts"
    and p: "EncodeNoteMetadataOperation ?m = Inr payload"
    and w: "writeOutboxOperation env new entry' (ac_devicePrivate a) ws (ac_DeviceID a) ?clock payload (db\<lparr>db_notes := nts\<rparr>) = Inr db1"
    and adv: "AdvanceDeviceClock (ac_DeviceID a) ?clock (db_notes db1) = Inr (db_notes db')" "db_outbox db' = db_outbox db1"
    by (rule commitNoteMetadata_Inr)
  have bind: "bindable ?clock" using adv(1) by (simp add: AdvanceDeviceClock_def split: if_splits)
  have "valid_id n" using Store_GetNote_valid [OF g] by (cases cmd) (simp_all add: zero_metadata_def)
  then have "decode_payload payload = Inr (MetadataPayload ?m)"
    using command_readable [OF _ ids(5)] decode_metadata_payload [OF p _ clear] by simp
  from written_operation_verifies [OF assms(1) w [unfolded prv] ids(1-3) _ _ this, of skew now peer pdb] tick_Inr(2) [OF t] ids(4) peer k entry
  obtain row operation where db1: "db1 = db\<lparr>db_notes := nts\<rparr>\<lparr>db_outbox := db_outbox db @ [row]\<rparr>"
    and o: "scan_outbox row = Inr operation" "Op_Clock operation = ?clock" "Op_WorkspaceID operation = ws"
    and v: "\<forall>seq. \<exists>v. Verify env skew now peer pdb (operation\<lparr>Op_Sequence := seq\<rparr>) = Inr v \<and> vo_wire v = operation\<lparr>Op_Sequence := seq\<rparr> \<and> vo_payload v = MetadataPayload ?m"
    by auto
  have "replica_of (db_notes db') = writes ?m ?clock (replica_of (db_notes db))"
    using AdvanceDeviceClock_replica [OF adv(1)] command_change_write [OF ch] by (simp add: db1 writes_def)
  moreover have "\<exists>v. Verify env skew now peer pdb (operation\<lparr>Op_Sequence := seq\<rparr>) = Inr v \<and>
      (\<forall>(yj :: 'd yjs) random t pdb' peer'. Apply env yj random t v peer pdb = (Inr pdb', peer') \<longrightarrow> replica_of pdb' = writes ?m ?clock (replica_of pdb)) \<and>
      (\<forall>(yj :: 'd yjs) random t merged c. can_apply ws n cmd pdb \<longrightarrow> Observe t ?clock (ac_clock peer) = (Inr merged, c) \<longrightarrow>
        bindable merged \<longrightarrow> (\<exists>pdb' peer'. Apply env yj random t v peer pdb = (Inr pdb', peer')))" for seq
  proof -
    from v obtain x where x: "Verify env skew now peer pdb (operation\<lparr>Op_Sequence := seq\<rparr>) = Inr x" "vo_wire x = operation\<lparr>Op_Sequence := seq\<rparr>"
      "vo_payload x = MetadataPayload ?m" by blast
    have "replica_of pdb' = writes ?m ?clock (replica_of pdb)" if "Apply env yj random t x peer pdb = (Inr pdb', peer')" for yj :: "'d yjs" and random t pdb' peer'
      using Apply_write [OF that] x(2,3) o(2) by (simp add: deliver_writes del: deliver.simps)
    moreover have "\<exists>pdb' peer'. Apply env yj random t x peer pdb = (Inr pdb', peer')"
      if "can_apply ws n cmd pdb" "Observe t ?clock (ac_clock peer) = (Inr merged, c)" "bindable merged" for yj :: "'d yjs" and random t merged c
      using that x(2,3) o(2,3) bind by (intro Apply_total [OF that(1) ids(5,2) x(3)]) simp_all
    ultimately show ?thesis using x(1) by blast
  qed
  ultimately show ?thesis using adv(2) o(1) by (auto simp: db1)
qed

section \<open>Commands succeed\<close>

lemma length_appendCBORHeader: "length (appendCBORHeader d m v) \<le> length d + 9"
  by (simp add: appendCBORHeader_def Let_def)

lemma length_aad:
  "length d \<le> n \<Longrightarrow> length (aad_text d t) \<le> n + 9 + length t"
  "length d \<le> n \<Longrightarrow> length (aad_bytes d b) \<le> n + 9 + length b"
  "length d \<le> n \<Longrightarrow> length (aad_uint d v) \<le> n + 9"
  "length d \<le> n \<Longrightarrow> length (appendCBORHeader d m v) \<le> n + 9"
  using length_appendCBORHeader [of d 3 "word_of_nat (length t)"] length_appendCBORHeader [of d 2 "word_of_nat (length b)"]
    length_appendCBORHeader [of d 0 v] length_appendCBORHeader [of d m v]
  by (simp_all add: aad_text_def aad_bytes_def aad_uint_def)

lemma signature_input_bounded:
  assumes "OperationSignatureFields_validate f = Inr ()"
  shows "\<exists>input. CanonicalOperationSignatureInput f = Inr input \<and> input \<noteq> [] \<and> length input \<le> 1049600"
proof -
  obtain input where i: "CanonicalOperationSignatureInput f = Inr input"
    using assms by (simp add: CanonicalOperationSignatureInput_def Let_def)
  from assms have l: "length (OS_OpID f) = 16" "length (OS_WorkspaceID f) = 16" "length (OS_DeviceID f) = 16" "length (OS_HLCDeviceID f) = 16"
    "length (OS_KeyID f) = 16" "length (OS_Nonce f) = 24" "16 \<le> length (OS_Ciphertext f)" "length (OS_Ciphertext f) \<le> 1048576"
    by (auto simp: OperationSignatureFields_validate_def split: if_splits)
  have "\<exists>n. length (projr (CanonicalOperationSignatureInput f)) \<le> n \<and> n \<le> 1049600"
    unfolding CanonicalOperationSignatureInput_def Let_def assms bind_res.simps sum.sel
    by (rule exI, rule conjI, (rule length_aad)+, rule order_refl) (use l in \<open>simp add: ProtocolV1_def\<close>)
  moreover have "input \<noteq> []"
    using i assms l unfolding CanonicalOperationSignatureInput_def Let_def by (auto simp: aad_bytes_def)
  ultimately show ?thesis using i by auto
qed

lemma writeOutboxOperation_total:
  assumes laws: "crypto_laws env" and key: "ke_Key entry = Some key" "length key = 32" "length (ke_KeyID entry) = 16"
    and fr: "fr_nonce new = Some nonce" "length nonce = XChaCha20NonceBytes" and prv: "length private = 64"
    and payload: "payload \<noteq> []" "ce_capacity env payload \<le> MaxSecretBytes" "length payload + AEADTagBytes \<le> MaxOperationCiphertextBytes"
    and clock: "ClockDeviceID clock = device" "PhysicalMS clock \<le> MaxInt64"
    and db: "ws \<in> db_workspaces db" "\<not> list_ex (\<lambda>r. ob_op_id r = fr_id new) (db_outbox db)"
  shows "\<exists>db'. writeOutboxOperation env new entry (Some private) ws device clock payload db = Inr db' \<and> db_notes db' = db_notes db"
proof -
  define m where "m = object_metadata ws (fr_id new) ObjectTypeOperationPayload (ke_KeyID entry)"
  have "length payload \<le> MaxSecretBytes" using payload(3) by (simp add: MaxSecretBytes_def)
  moreover have "ObjectMetadata_validate m = Inr ()"
    using key by (simp add: m_def object_metadata_def ObjectMetadata_validate_def ObjectTypeOperationPayload_def validObjectType_def)
  ultimately obtain e where e: "EncryptObject env (Some key) m (Some payload) (Some nonce) = Inr e" "EO_Nonce e = nonce"
    using EncryptObject_total [OF laws _ key(2) fr(2) payload(1)] by blast
  have l: "length (EO_Ciphertext e) = length payload + AEADTagBytes" using EncryptObject_open(4) [OF laws e(1) payload(2)] .
  define f where "f = \<lparr>OS_OpID = ID_Bytes (fr_id new), OS_WorkspaceID = ID_Bytes ws, OS_DeviceID = ID_Bytes device,
          OS_HLCPhysicalMS = PhysicalMS clock, OS_HLCLogical = Logical clock, OS_HLCDeviceID = ID_Bytes (ClockDeviceID clock),
          OS_KeyID = ke_KeyID entry, OS_Nonce = EO_Nonce e, OS_Ciphertext = EO_Ciphertext e\<rparr>"
  have "OperationSignatureFields_validate f = Inr ()"
    using l payload(3) key fr clock e(2) by (simp add: f_def OperationSignatureFields_validate_def)
  then obtain input where input: "CanonicalOperationSignatureInput f = Inr input" "input \<noteq> []" "length input \<le> 1049600"
    using signature_input_bounded by blast
  then obtain signature where "SignCanonical (ce_sign env) CryptoProfileV1 (Some private) SignatureDomainOperation_client input = Inr signature"
    using prv by (auto simp: SignCanonical_def validateSignatureInput_def validSignatureDomain_def signature_domains_def SignatureDomainOperation_client_def Let_def)
  then show ?thesis
    using e(1) [unfolded m_def] input(1) [unfolded f_def] key(1) fr(1) payload(1,2) clock db
    by (simp add: writeOutboxOperation_def TakeSecret_def InsertOutboxOperation_def linorder_not_less)
qed

definition demo_sender :: account_db where
  "demo_sender = \<lparr>db_workspaces = {demo_id 2}, db_inbox = [], db_outbox = [], db_applied = [], db_cursors = Map.empty, db_rotations = Map.empty,
     db_blob_transfers = Map.empty, db_notes = demo_notes\<rparr>"

definition demo_peer_notes :: note_db where
  "demo_peer_notes = demo_notes\<lparr>nd_devices := [\<lparr>dv_id = demo_id 1, dv_public = ce_public demo_crypto (replicate 64 5), dv_status = 1, dv_physical = 0, dv_logical = 0\<rparr>]\<rparr>"

definition demo_fresh :: fresh where
  "demo_fresh = \<lparr>fr_id = demo_id 8, fr_nonce = Some (replicate 24 0)\<rparr>"

definition demo_tick :: HLC where
  "demo_tick = \<lparr>PhysicalMS = 1000, Logical = 8, ClockDeviceID = demo_id 1\<rparr>"

lemma demo_account_tick: "tick 500 demo_account = (Inr demo_tick, demo_account\<lparr>ac_clock := demo_clock\<lparr>last_hlc := demo_tick\<rparr>\<rparr>)"
  by (simp add: tick_def demo_account_def demo_clock_def Tick_def advance_def Let_def demo_tick_def word_less_def)

lemma demo_run_command:
  "\<exists>db'. run_command demo_crypto demo_fresh 500 (demo_id 2) (demo_id 4) (SetFlags 1) demo_account demo_sender
     = (Inr db', demo_account\<lparr>ac_clock := demo_clock\<lparr>last_hlc := demo_tick\<rparr>\<rparr>)"
proof -
  let ?m = "command_operation (demo_id 4) (SetFlags 1)" and ?e = "\<lparr>ke_KeyID = replicate 16 3, ke_Key = Some (replicate 32 7), ke_State = 1\<rparr>"
  have g: "\<exists>nt. Store_GetNote (demo_id 4) demo_notes = Inr nt \<and> Note_WorkspaceID nt = demo_id 2"
    by (simp add: Store_GetNote_def scanNote_def demo_notes_def)
  obtain nts where n: "SetNoteFlags (demo_id 4) 1 demo_tick demo_notes = Inr nts"
    by (simp add: SetNoteFlags_def on_notes_def lww_update_def demo_notes_def demo_tick_def Let_def word_le_def)
  have p: "EncodeNoteMetadataOperation ?m = Inr (1 # ID_Bytes (demo_id 4) @ [3, 0, 0, 0, 1])"
    by (simp add: EncodeNoteMetadataOperation_def NoteMetadataKind_valid_iff zero_metadata_def Let_def)
  obtain db1 where w: "writeOutboxOperation demo_crypto demo_fresh ?e (Some (replicate 64 5)) (demo_id 2) (demo_id 1) demo_tick
      (1 # ID_Bytes (demo_id 4) @ [3, 0, 0, 0, 1]) (demo_sender\<lparr>db_notes := nts\<rparr>) = Inr db1"
    using writeOutboxOperation_total [OF demo_crypto_laws, of ?e "replicate 32 7" demo_fresh "replicate 24 0" "replicate 64 5"
      "1 # ID_Bytes (demo_id 4) @ [3, 0, 0, 0, 1]" demo_tick "demo_id 1" "demo_id 2" "demo_sender\<lparr>db_notes := nts\<rparr>"]
    by (auto simp: demo_fresh_def demo_tick_def demo_sender_def MaxSecretBytes_def word_le_def demo_crypto_def [THEN arg_cong, of ce_capacity])
  have "\<exists>d. AdvanceDeviceClock (demo_id 1) demo_tick (db_notes db1) = Inr d"
    by (simp add: AdvanceDeviceClock_def demo_tick_def word_le_def)
  with g n p w demo_account_tick show ?thesis
    by (auto simp: run_command_eq commitNoteMetadata_def with_session_def workspaceSession_def)
      (auto simp: demo_account_def demo_sender_def zero_metadata_def)
qed

lemma demo_can_receive:
  "can_receive demo_crypto 0 5000000000 (demo_account\<lparr>ac_DeviceID := demo_id 9\<rparr>) demo_peer_notes
     \<lparr>ke_KeyID = replicate 16 3, ke_Key = Some (replicate 32 7), ke_State = 1\<rparr> (replicate 64 5) (demo_id 2) (demo_id 1) demo_tick"
  by (simp add: can_receive_def workspaceKeyByID_def equalKeyID_def equalBytes_iff demo_account_def demo_peer_notes_def demo_tick_def word_le_def)

lemma demo_last: "last_hlc (ac_clock (demo_account\<lparr>ac_clock := demo_clock\<lparr>last_hlc := demo_tick\<rparr>\<rparr>)) = demo_tick"
  by simp

lemma demo_observed:
  "Observe 500 demo_tick (ac_clock (demo_account\<lparr>ac_DeviceID := demo_id 9\<rparr>))
     = (Inr \<lparr>PhysicalMS = 1000, Logical = 9, ClockDeviceID = demo_id 1\<rparr>,
        demo_clock\<lparr>last_hlc := \<lparr>PhysicalMS = 1000, Logical = 9, ClockDeviceID = demo_id 1\<rparr>\<rparr>)"
  by (simp add: demo_account_def demo_clock_simps demo_tick_def word_less_def)

theorem committed_change_reaches_peers_witness:
  "\<exists>db' row operation. run_command demo_crypto demo_fresh 500 (demo_id 2) (demo_id 4) (SetFlags 1) demo_account demo_sender
       = (Inr db', demo_account\<lparr>ac_clock := demo_clock\<lparr>last_hlc := demo_tick\<rparr>\<rparr>) \<and>
     db_outbox db' = [row] \<and> scan_outbox row = Inr operation \<and>
     (\<exists>v pdb' peer'. Verify demo_crypto 0 5000000000 (demo_account\<lparr>ac_DeviceID := demo_id 9\<rparr>) demo_peer_notes (operation\<lparr>Op_Sequence := 3\<rparr>) = Inr v \<and>
        Apply demo_crypto demo_yjs None 500 v (demo_account\<lparr>ac_DeviceID := demo_id 9\<rparr>) demo_peer_notes = (Inr pdb', peer') \<and>
        replica_of pdb' (FlagsOf (demo_id 4)) = (HasFlags 1, Some demo_tick))"
proof -
  let ?peer = "demo_account\<lparr>ac_DeviceID := demo_id 9\<rparr>"
  obtain db' where run: "run_command demo_crypto demo_fresh 500 (demo_id 2) (demo_id 4) (SetFlags 1) demo_account demo_sender
     = (Inr db', demo_account\<lparr>ac_clock := demo_clock\<lparr>last_hlc := demo_tick\<rparr>\<rparr>)"
    using demo_run_command by blast
  have ids: "ac_devicePrivate demo_account = Some (replicate 64 5)" "ac_workspaceKeys demo_account (demo_id 2) = Some \<lparr>ke_KeyID = replicate 16 3, ke_Key = Some (replicate 32 7), ke_State = 1\<rparr>"
    "valid_id (fr_id demo_fresh)" "valid_id (demo_id 2)" "valid_id (ac_DeviceID demo_account)" "deviceID (ac_clock demo_account) = ac_DeviceID demo_account"
    "command_ids (SetFlags 1)" "unambiguous (command_operation (demo_id 4) (SetFlags 1))"
    by (simp_all add: demo_account_def demo_fresh_def demo_clock_def unambiguous_def zero_metadata_def)
  have "can_receive demo_crypto 0 5000000000 (demo_account\<lparr>ac_DeviceID := demo_id 9\<rparr>) demo_peer_notes
     \<lparr>ke_KeyID = replicate 16 3, ke_Key = Some (replicate 32 7), ke_State = 1\<rparr> (replicate 64 5) (demo_id 2) (ac_DeviceID demo_account)
     (last_hlc (ac_clock (demo_account\<lparr>ac_clock := demo_clock\<lparr>last_hlc := demo_tick\<rparr>\<rparr>)))"
    using demo_can_receive by (simp add: demo_account_def)
  note delivered = committed_change_reaches_peers [OF demo_crypto_laws run ids this, where 'd = unit]
  have o: "db_outbox demo_sender = []" by (simp add: demo_sender_def)
  from delivered
  obtain row operation where row: "db_outbox db' = [row]" "scan_outbox row = Inr operation"
    and deliver: "\<exists>v. Verify demo_crypto 0 5000000000 ?peer demo_peer_notes (operation\<lparr>Op_Sequence := 3\<rparr>) = Inr v \<and>
      (\<forall>(yj :: unit yjs) random t pdb' peer'. Apply demo_crypto yj random t v ?peer demo_peer_notes = (Inr pdb', peer') \<longrightarrow>
        replica_of pdb' = writes (command_operation (demo_id 4) (SetFlags 1)) demo_tick (replica_of demo_peer_notes)) \<and>
      (\<forall>(yj :: unit yjs) random t merged c. can_apply (demo_id 2) (demo_id 4) (SetFlags 1) demo_peer_notes \<longrightarrow>
        Observe t demo_tick (ac_clock ?peer) = (Inr merged, c) \<longrightarrow>
        bindable merged \<longrightarrow> (\<exists>pdb' peer'. Apply demo_crypto yj random t v ?peer demo_peer_notes = (Inr pdb', peer')))"
    unfolding demo_last o append_Nil by - (erule exE, erule exE, elim conjE, rule that, assumption, assumption, drule spec [of _ 3], assumption)
  from deliver obtain v where v: "Verify demo_crypto 0 5000000000 ?peer demo_peer_notes (operation\<lparr>Op_Sequence := 3\<rparr>) = Inr v"
    and same: "\<forall>(yj :: unit yjs) random t pdb' peer'. Apply demo_crypto yj random t v ?peer demo_peer_notes = (Inr pdb', peer') \<longrightarrow>
        replica_of pdb' = writes (command_operation (demo_id 4) (SetFlags 1)) demo_tick (replica_of demo_peer_notes)"
    and ok: "\<forall>(yj :: unit yjs) random t merged c. can_apply (demo_id 2) (demo_id 4) (SetFlags 1) demo_peer_notes \<longrightarrow>
        Observe t demo_tick (ac_clock ?peer) = (Inr merged, c) \<longrightarrow>
        bindable merged \<longrightarrow> (\<exists>pdb' peer'. Apply demo_crypto yj random t v ?peer demo_peer_notes = (Inr pdb', peer'))"
    by (elim exE conjE) (rule that)
  have can: "can_apply (demo_id 2) (demo_id 4) (SetFlags 1) demo_peer_notes"
    by (simp add: can_apply_def Store_GetNote_def scanNote_def demo_peer_notes_def demo_notes_def)
  obtain pdb' peer' where ap: "Apply demo_crypto demo_yjs None 500 v ?peer demo_peer_notes = (Inr pdb', peer')"
    using ok [rule_format, OF can demo_observed, of demo_yjs None] by (simp add: word_le_def) (elim exE, rule that)
  have "replica_of pdb' (FlagsOf (demo_id 4)) = (HasFlags 1, Some demo_tick)"
    unfolding same [rule_format, OF ap]
    by (simp add: writes_def metadata_target.simps zero_metadata_def note_register_def demo_peer_notes_def demo_notes_def reg_merge_def)
  with run row v ap show ?thesis by (intro exI conjI)
qed

end
