(* ===== verification/Garbage_Collection.thy ===== *)
theory Garbage_Collection
  imports Replication
begin

text \<open>
  The collection of attachments nobody refers to and of notes deleted long ago:
  \<^verbatim>\<open>core/account/gc.go\<close> over the statements of \<^verbatim>\<open>core/store\<close>. The directory of published blobs is
  the list of its files; whether a file can be removed and whether a backup holds a copy are
  parameters. The rows of an attachment carry the time of the loss of their last reference;
  the invariant \<open>orphans_sound\<close> of these marks is what makes the collection safe.
\<close>

section \<open>The run\<close>

definition gcMinimumRetention :: int where
  "gcMinimumRetention = 30 * 24 * 3600 * 1000000000"

record PublishedBlob =
  pb_ID :: bytes
  pb_Modified :: int
  pb_SizeBytes :: u64

record GCBlobCandidate =
  gb_BlobID :: bytes
  gb_SizeBytes :: u64
  gb_OrphanedUnixMS :: int
  gb_InAnyBackup :: bool

record GCNoteCandidate =
  gn_NoteID :: ID
  gn_Title :: string
  gn_DeletedUnixMS :: int

record GCReport =
  gr_Blobs :: "GCBlobCandidate list"
  gr_Notes :: "GCNoteCandidate list"
  gr_BlobBytesReclaimed :: u64
  gr_DryRun :: bool

definition empty_report :: GCReport where
  "empty_report = \<lparr>gr_Blobs = [], gr_Notes = [], gr_BlobBytesReclaimed = 0, gr_DryRun = False\<rparr>"

definition accountSession :: "Account \<Rightarrow> account_error + unit" where
  "accountSession a = (if ac_locked a then Inl ErrAccountLocked else Inr ())"

definition scanAttachment :: "attachment_row \<Rightarrow> store_error + attachment_row" where
  "scanAttachment r =
     (if length (at_blob r) \<noteq> BlobIDBytes then Inl (StoreMalformed ''stored attachment blob ID'')
      else if ID_Validate (at_workspace r) \<noteq> Inr () then Inl (StoreMalformed ''stored attachment workspace ID'')
      else Inr r)"

fun scan_attachments :: "attachment_row list \<Rightarrow> store_error + attachment_row list" where
  "scan_attachments [] = Inr []"
| "scan_attachments (r # rs) = bind_res (scanAttachment r) (\<lambda>a. bind_res (scan_attachments rs) (\<lambda>as. Inr (a # as)))"

definition AllAttachmentBlobIDs :: "note_db \<Rightarrow> store_error + bytes set" where
  "AllAttachmentBlobIDs db =
     (if list_ex (\<lambda>a. length (at_blob a) \<noteq> BlobIDBytes) (nd_attachments db) then Inl (StoreMalformed ''malformed attachment blob id'')
      else Inr (set (map at_blob (nd_attachments db))))"

definition orphan_candidate :: "(bytes \<Rightarrow> bool) \<Rightarrow> attachment_row \<Rightarrow> GCBlobCandidate" where
  "orphan_candidate inBackup a =
     \<lparr>gb_BlobID = at_blob a, gb_SizeBytes = word_of_int (at_size a), gb_OrphanedUnixMS = the (at_orphaned a), gb_InAnyBackup = inBackup (at_blob a)\<rparr>"

definition published_candidate :: "(bytes \<Rightarrow> bool) \<Rightarrow> PublishedBlob \<Rightarrow> GCBlobCandidate" where
  "published_candidate inBackup f =
     \<lparr>gb_BlobID = pb_ID f, gb_SizeBytes = pb_SizeBytes f, gb_OrphanedUnixMS = pb_Modified f, gb_InAnyBackup = inBackup (pb_ID f)\<rparr>"

definition note_candidate :: "Note \<Rightarrow> GCNoteCandidate" where
  "note_candidate n =
     \<lparr>gn_NoteID = Note_ID n, gn_Title = Value (Note_Title n), gn_DeletedUnixMS = sint (PhysicalMS (LWWClock (Note_Deleted n)))\<rparr>"

definition gc_report :: "(bytes \<Rightarrow> bool) \<Rightarrow> ID \<Rightarrow> int \<Rightarrow> bool \<Rightarrow> PublishedBlob list \<Rightarrow> note_db \<Rightarrow> store_error + GCReport" where
  "gc_report inBackup workspaceID cutoff dryRun files db =
     bind_res (scan_attachments (ListOrphanedAttachments workspaceID cutoff db)) (\<lambda>orphaned.
     bind_res (AllAttachmentBlobIDs db) (\<lambda>known.
     let unknown = filter (\<lambda>f. \<not> (pb_ID f \<in> known \<or> cutoff < pb_Modified f)) files;
         blobs = map (orphan_candidate inBackup) orphaned @ map (published_candidate inBackup) unknown
     in bind_res (Store_ListNotes workspaceID db) (\<lambda>listed.
       let expired = filter (\<lambda>n. \<not> (\<not> Value (Note_Deleted n)) \<and> \<not> cutoff < sint (PhysicalMS (LWWClock (Note_Deleted n)))) listed
       in Inr \<lparr>gr_Blobs = blobs, gr_Notes = map note_candidate expired, gr_BlobBytesReclaimed = sum_list (map gb_SizeBytes blobs), gr_DryRun = dryRun\<rparr>)))"

type_synonym gc_state = "note_db \<times> PublishedBlob list"

text \<open>The row goes in a transaction of its own, then the file; a file that cannot be removed is an error.\<close>

definition collectBlob :: "(bytes \<Rightarrow> bool) \<Rightarrow> bytes \<Rightarrow> gc_state \<Rightarrow> bool \<times> gc_state" where
  "collectBlob removable blobID st =
     (let db = DeleteAttachment blobID (fst st) in
      if removable blobID then (True, db, filter (\<lambda>f. pb_ID f \<noteq> blobID) (snd st)) else (False, db, snd st))"

fun collect_blobs :: "(bytes \<Rightarrow> bool) \<Rightarrow> GCBlobCandidate list \<Rightarrow> gc_state \<Rightarrow> bool \<times> gc_state" where
  "collect_blobs removable [] st = (True, st)"
| "collect_blobs removable (c # cs) st =
     (let (ok, st) = collectBlob removable (gb_BlobID c) st in if ok then collect_blobs removable cs st else (False, st))"

definition collectNote :: "int \<Rightarrow> GCNoteCandidate \<Rightarrow> gc_state \<Rightarrow> gc_state" where
  "collectNote nowUnixMS c st = (DeleteNoteCompletely (gn_NoteID c) nowUnixMS (fst st), snd st)"

definition RunGarbageCollection ::
  "(bytes \<Rightarrow> bool) \<Rightarrow> (bytes \<Rightarrow> bool) \<Rightarrow> ID \<Rightarrow> int \<Rightarrow> bool \<Rightarrow> Account \<Rightarrow> gc_state \<Rightarrow> (GCReport \<times> account_error option) \<times> gc_state" where
  "RunGarbageCollection inBackup removable workspaceID now dryRun a st =
     (case accountSession a of
        Inl e \<Rightarrow> ((empty_report, Some e), st)
      | Inr _ \<Rightarrow>
          let cutoff = (now - gcMinimumRetention) div 1000000 in
          (case gc_report inBackup workspaceID cutoff dryRun (snd st) (fst st) of
             Inl e \<Rightarrow> ((empty_report, Some (AccStore e)), st)
           | Inr report \<Rightarrow>
               if dryRun then ((report, None), st)
               else
                 let (ok, st) = collect_blobs removable (gr_Blobs report) st in
                 if \<not> ok then ((report, Some (AccPlain ''collect blob'')), st)
                 else ((report, None), fold (collectNote (now div 1000000)) (gr_Notes report) st)))"

section \<open>The orphan marks\<close>

text \<open>A marked attachment has no reference, and a reference has its attachment (the foreign key).\<close>

definition orphans_sound :: "note_db \<Rightarrow> bool" where
  "orphans_sound db \<longleftrightarrow>
     list_all (\<lambda>a. at_orphaned a \<noteq> None \<longrightarrow> \<not> referenced (at_blob a) db) (nd_attachments db) \<and>
     list_all (\<lambda>p. list_ex (\<lambda>a. at_blob a = pr_other p) (nd_attachments db)) (nd_note_attachments db)"

text \<open>The marks are right except possibly for the attachment \<open>b\<close>; reconciling makes them right.\<close>

definition sound_but :: "bytes set \<Rightarrow> note_db \<Rightarrow> bool" where
  "sound_but B db \<longleftrightarrow>
     (\<forall>a \<in> set (nd_attachments db). at_blob a \<notin> B \<longrightarrow> at_orphaned a \<noteq> None \<longrightarrow> \<not> referenced (at_blob a) db) \<and>
     pr_other ` set (nd_note_attachments db) \<subseteq> set (map at_blob (nd_attachments db))"

lemma list_ex_blob: "list_ex (\<lambda>a. at_blob a = c) rows \<longleftrightarrow> c \<in> set (map at_blob rows)"
  by (induction rows) auto

lemma orphans_sound_but: "orphans_sound db \<longleftrightarrow> sound_but {} db"
  unfolding orphans_sound_def sound_but_def list_ex_blob list_all_iff by auto

lemma referenced_cong: "nd_note_attachments db' = nd_note_attachments db \<Longrightarrow> referenced b db' = referenced b db"
  by (simp add: referenced_def)

lemma referenced_reconcile [simp]: "referenced x (reconcileAttachmentOrphan b now db) = referenced x db"
  by (rule referenced_cong) simp

lemma reconcile_blobs [simp]: "map at_blob (nd_attachments (reconcileAttachmentOrphan b now db)) = map at_blob (nd_attachments db)"
  by (simp add: reconcileAttachmentOrphan_def)

lemma reconcile_marks:
  "a \<in> set (nd_attachments (reconcileAttachmentOrphan b now db)) \<Longrightarrow>
   (at_blob a \<noteq> b \<longrightarrow> a \<in> set (nd_attachments db)) \<and> (at_blob a = b \<longrightarrow> at_orphaned a \<noteq> None \<longrightarrow> \<not> referenced b db)"
  by (auto simp: reconcileAttachmentOrphan_def split: if_splits)

lemma reconcile_sound:
  assumes "sound_but B db"
  shows "sound_but (B - {b}) (reconcileAttachmentOrphan b now db)"
proof -
  have "\<not> referenced (at_blob a) db" if "a \<in> set (nd_attachments (reconcileAttachmentOrphan b now db))" "at_blob a \<notin> B - {b}" "at_orphaned a \<noteq> None" for a
    using reconcile_marks [OF that(1)] that(2,3) assms by (cases "at_blob a = b") (auto simp: sound_but_def)
  with assms show ?thesis by (simp add: sound_but_def del: set_map)
qed

lemma reconcile_all_sound:
  "sound_but B db \<Longrightarrow> sound_but (B - set bs) (fold (\<lambda>b. reconcileAttachmentOrphan b now) bs db)"
proof (induction bs arbitrary: B db)
  case (Cons b bs)
  have "B - set (b # bs) = (B - {b}) - set bs" by auto
  with Cons.IH [OF reconcile_sound [OF Cons.prems]] show ?case by simp
qed simp

lemma sound_but_frame:
  assumes "sound_but B db" "nd_attachments db' = nd_attachments db" "nd_note_attachments db' = nd_note_attachments db"
  shows "sound_but B db'"
  using assms referenced_cong [OF assms(3)] by (simp add: sound_but_def)

lemma pair_upsert_rows:
  assumes "pair_upsert fks n b present clock rows = Inr rows'"
  shows "\<And>p. p \<in> set rows' \<Longrightarrow> pr_other p = b \<and> (fks \<or> b \<in> pr_other ` set rows) \<or> p \<in> set rows"
    and "\<And>x. x \<noteq> b \<Longrightarrow> list_ex (\<lambda>p. pr_other p = x \<and> pr_present p) rows' = list_ex (\<lambda>p. pr_other p = x \<and> pr_present p) rows"
  using assms by (auto simp: pair_upsert_def list_ex_iff split: if_splits)

lemma SetNoteAttachment_sound:
  assumes s: "orphans_sound db" and u: "SetNoteAttachment n b present clock now db = Inr db'"
  shows "orphans_sound db'"
proof -
  from u obtain rows where r: "pair_upsert (list_ex (\<lambda>r. nr_id r = n) (nd_notes db) \<and> list_ex (\<lambda>a. at_blob a = b) (nd_attachments db)) n b present clock
      (nd_note_attachments db) = Inr rows" and db': "db' = reconcileAttachmentOrphan b now (db\<lparr>nd_note_attachments := rows\<rparr>)"
    by (auto simp: SetNoteAttachment_def err_simps)
  have ref: "referenced x (db\<lparr>nd_note_attachments := rows\<rparr>) = referenced x db" if "x \<noteq> b" for x
    using pair_upsert_rows(2) [OF r that] by (simp add: referenced_def)
  have "pr_other p \<in> set (map at_blob (nd_attachments db))" if "p \<in> set rows" for p
    using pair_upsert_rows(1) [OF r that] s by (auto simp: orphans_sound_but sound_but_def list_ex_blob)
  then have "sound_but {b} (db\<lparr>nd_note_attachments := rows\<rparr>)"
    using s by (auto simp: orphans_sound_but sound_but_def ref)
  from reconcile_sound [OF this, of b now] show ?thesis by (simp add: db' orphans_sound_but)
qed

lemma add_attachment_sound:
  assumes "orphans_sound db" "at_orphaned a = None"
  shows "orphans_sound (db\<lparr>nd_attachments := nd_attachments db @ [a]\<rparr>)"
  using assms by (auto simp: orphans_sound_but sound_but_def referenced_def)

lemma map_attachment_sound:
  assumes "orphans_sound db" "\<And>a. at_blob (f a) = at_blob a" "\<And>a. at_orphaned (f a) = at_orphaned a"
  shows "orphans_sound (db\<lparr>nd_attachments := map f (nd_attachments db)\<rparr>)"
  using assms by (auto simp: orphans_sound_but sound_but_def referenced_def image_iff)

lemma CreateAttachment_sound:
  "orphans_sound db \<Longrightarrow> CreateAttachment ws b k m sz ch now db = Inr (x, db') \<Longrightarrow> orphans_sound db'"
  by (auto simp: CreateAttachment_def Let_def err_simps intro!: add_attachment_sound map_attachment_sound split: if_splits)

lemma EnsureAttachmentPlaceholder_sound:
  "orphans_sound db \<Longrightarrow> EnsureAttachmentPlaceholder ws b now db = Inr (x, db') \<Longrightarrow> orphans_sound db'"
  by (auto simp: EnsureAttachmentPlaceholder_def err_simps intro!: add_attachment_sound split: if_splits)

lemma DeleteAttachment_sound:
  assumes "orphans_sound db"
  shows "orphans_sound (DeleteAttachment b db)"
proof -
  have "referenced x (DeleteAttachment b db) \<Longrightarrow> referenced x db" for x
    by (auto simp: referenced_def DeleteAttachment_def list_ex_iff)
  with assms show ?thesis by (auto simp: orphans_sound_but sound_but_def) (auto simp: DeleteAttachment_def)
qed

lemma DeleteNoteCompletely_sound:
  assumes "orphans_sound db"
  shows "orphans_sound (DeleteNoteCompletely n now db)"
proof -
  let ?db = "db\<lparr>nd_note_attachments := filter (\<lambda>p. pr_note p \<noteq> n) (nd_note_attachments db)\<rparr>"
  have "sound_but {} ?db"
    using assms by (auto simp: orphans_sound_but sound_but_def referenced_def list_ex_iff)
  then have "sound_but {} (fold (\<lambda>b. reconcileAttachmentOrphan b now) (NoteAttachmentBlobIDs n db) ?db)"
    using reconcile_all_sound [of "{}" ?db "NoteAttachmentBlobIDs n db" now] by simp
  then show ?thesis unfolding orphans_sound_but DeleteNoteCompletely_def Let_def by (rule sound_but_frame) simp_all
qed

text \<open>The methods that write the two tables; every other method leaves them alone.\<close>

inductive attachment_step :: "note_db \<Rightarrow> note_db \<Rightarrow> bool" where
  step_reference: "SetNoteAttachment n b present clock now db = Inr db' \<Longrightarrow> attachment_step db db'"
| step_create: "CreateAttachment ws b k m sz ch now db = Inr (x, db') \<Longrightarrow> attachment_step db db'"
| step_placeholder: "EnsureAttachmentPlaceholder ws b now db = Inr (x, db') \<Longrightarrow> attachment_step db db'"
| step_delete: "attachment_step db (DeleteAttachment b db)"
| step_delete_note: "attachment_step db (DeleteNoteCompletely n now db)"
| step_other: "nd_attachments db' = nd_attachments db \<Longrightarrow> nd_note_attachments db' = nd_note_attachments db \<Longrightarrow> attachment_step db db'"

lemma attachment_step_sound: "attachment_step db db' \<Longrightarrow> orphans_sound db \<Longrightarrow> orphans_sound db'"
proof (induction rule: attachment_step.induct)
  case (step_other db' db)
  then show ?case unfolding orphans_sound_but by (blast intro: sound_but_frame)
qed (auto intro: SetNoteAttachment_sound CreateAttachment_sound EnsureAttachmentPlaceholder_sound DeleteAttachment_sound DeleteNoteCompletely_sound)

lemma attachment_steps_sound:
  assumes "attachment_step\<^sup>*\<^sup>* db0 db" "nd_attachments db0 = []" "nd_note_attachments db0 = []"
  shows "orphans_sound db"
  using assms
proof (induction rule: rtranclp_induct)
  case base
  then show ?case by (simp add: orphans_sound_def)
next
  case (step db db')
  then show ?case by (blast intro: attachment_step_sound)
qed

section \<open>What a run keeps\<close>

text \<open>What a note with an attachment can see of it: its rows without the mark, and its files.\<close>

definition attachment_content :: "bytes \<Rightarrow> note_db \<Rightarrow> attachment_row list" where
  "attachment_content b db = map (\<lambda>a. a\<lparr>at_orphaned := None\<rparr>) (filter (\<lambda>a. at_blob a = b) (nd_attachments db))"

definition blob_files :: "bytes \<Rightarrow> PublishedBlob list \<Rightarrow> PublishedBlob list" where
  "blob_files b files = filter (\<lambda>f. pb_ID f = b) files"

definition present_pairs :: "note_db \<Rightarrow> bytes pair_row list" where
  "present_pairs db = filter pr_present (nd_note_attachments db)"

lemma NoteAttachmentBlobIDs_present: "NoteAttachmentBlobIDs n db = map pr_other (filter (\<lambda>p. pr_note p = n) (present_pairs db))"
  by (simp add: NoteAttachmentBlobIDs_def present_pairs_def conj_commute)

lemma referenced_present: "referenced b db \<longleftrightarrow> b \<in> pr_other ` set (present_pairs db)"
  by (auto simp: referenced_def present_pairs_def list_ex_iff)

lemma DeleteAttachment_keeps:
  assumes "\<not> referenced c db"
  shows "present_pairs (DeleteAttachment c db) = present_pairs db" "nd_notes (DeleteAttachment c db) = nd_notes db"
    "b \<noteq> c \<Longrightarrow> attachment_content b (DeleteAttachment c db) = attachment_content b db"
proof -
  have "filter (\<lambda>p. pr_other p \<noteq> c \<and> pr_present p) rows = filter pr_present rows"
    if "\<not> list_ex (\<lambda>p. pr_other p = c \<and> pr_present p) rows" for rows :: "bytes pair_row list"
    using that by (induction rows) auto
  then show "present_pairs (DeleteAttachment c db) = present_pairs db"
    using assms by (simp add: present_pairs_def DeleteAttachment_def referenced_def conj_commute)
  show "nd_notes (DeleteAttachment c db) = nd_notes db" by (simp add: DeleteAttachment_def)
  show "b \<noteq> c \<Longrightarrow> attachment_content b (DeleteAttachment c db) = attachment_content b db"
    by (auto simp: attachment_content_def DeleteAttachment_def intro!: arg_cong [where f = "map _"] filter_cong)
qed

lemma collect_blobs_keeps:
  assumes "collect_blobs removable cs (db, files) = (ok, db', files')" "list_all (\<lambda>c. \<not> referenced (gb_BlobID c) db) cs"
  shows "present_pairs db' = present_pairs db \<and> nd_notes db' = nd_notes db \<and>
    (referenced b db \<longrightarrow> attachment_content b db' = attachment_content b db \<and> blob_files b files' = blob_files b files)"
  using assms
proof (induction cs arbitrary: db files)
  case (Cons c cs)
  let ?db = "DeleteAttachment (gb_BlobID c) db"
  from Cons.prems(2) have nr: "\<not> referenced (gb_BlobID c) db" by simp
  note keep = DeleteAttachment_keeps [OF nr]
  have ref: "referenced x ?db = referenced x db" for x by (simp add: referenced_present keep(1))
  have step: "referenced b db \<Longrightarrow> attachment_content b ?db = attachment_content b db \<and> blob_files b (filter (\<lambda>f. pb_ID f \<noteq> gb_BlobID c) files) = blob_files b files"
    using keep(3) [of b] nr by (cases "b = gb_BlobID c") (auto simp: blob_files_def intro!: filter_cong)
  show ?case
  proof (cases "removable (gb_BlobID c)")
    case True
    with Cons.prems(1) have "collect_blobs removable cs (?db, filter (\<lambda>f. pb_ID f \<noteq> gb_BlobID c) files) = (ok, db', files')"
      by (simp add: collectBlob_def)
    from Cons.IH [OF this] Cons.prems(2) step keep(1,2) show ?thesis by (simp add: ref)
  next
    case False
    with Cons.prems(1) have "db' = ?db" "files' = files" by (simp_all add: collectBlob_def)
    with step keep show ?thesis by simp
  qed
qed simp

lemma attachment_content_reconcile [simp]: "attachment_content b (reconcileAttachmentOrphan c now db) = attachment_content b db"
proof -
  have "map (\<lambda>a. a\<lparr>at_orphaned := None\<rparr>) (filter (\<lambda>a. at_blob a = b) (map f rows)) = map (\<lambda>a. a\<lparr>at_orphaned := None\<rparr>) (filter (\<lambda>a. at_blob a = b) rows)"
    if "\<And>a. at_blob (f a) = at_blob a" "\<And>a. (f a)\<lparr>at_orphaned := None\<rparr> = a\<lparr>at_orphaned := None\<rparr>" for f and rows :: "attachment_row list"
    using that by (induction rows) auto
  then show ?thesis by (simp add: attachment_content_def reconcileAttachmentOrphan_def)
qed

lemma fold_reconcile_keeps:
  "attachment_content b (fold (\<lambda>c. reconcileAttachmentOrphan c now) bs db) = attachment_content b db"
  "nd_note_attachments (fold (\<lambda>c. reconcileAttachmentOrphan c now) bs db) = nd_note_attachments db"
  "nd_notes (fold (\<lambda>c. reconcileAttachmentOrphan c now) bs db) = nd_notes db"
  by (induction bs arbitrary: db) simp_all

lemma DeleteNoteCompletely_keeps:
  "attachment_content b (DeleteNoteCompletely m now db) = attachment_content b db"
  "n \<noteq> m \<Longrightarrow> NoteAttachmentBlobIDs n (DeleteNoteCompletely m now db) = NoteAttachmentBlobIDs n db"
  "nd_notes (DeleteNoteCompletely m now db) = filter (\<lambda>r. nr_id r \<noteq> m) (nd_notes db)"
proof -
  let ?d = "fold (\<lambda>b. reconcileAttachmentOrphan b now) (NoteAttachmentBlobIDs m db)
    (db\<lparr>nd_note_attachments := filter (\<lambda>p. pr_note p \<noteq> m) (nd_note_attachments db)\<rparr>)"
  have c: "attachment_content b (DeleteNoteCompletely m now db) = attachment_content b ?d"
    by (simp add: DeleteNoteCompletely_def Let_def attachment_content_def)
  show "attachment_content b (DeleteNoteCompletely m now db) = attachment_content b db"
    unfolding c fold_reconcile_keeps by (simp add: attachment_content_def)
  show "nd_notes (DeleteNoteCompletely m now db) = filter (\<lambda>r. nr_id r \<noteq> m) (nd_notes db)"
    by (simp add: DeleteNoteCompletely_def Let_def fold_reconcile_keeps)
  show "NoteAttachmentBlobIDs n (DeleteNoteCompletely m now db) = NoteAttachmentBlobIDs n db" if "n \<noteq> m"
    using that by (auto simp: NoteAttachmentBlobIDs_def DeleteNoteCompletely_def Let_def fold_reconcile_keeps intro!: arg_cong [where f = "map _"] filter_cong)
qed

lemma collect_notes_keeps:
  "list_all (\<lambda>c. gn_NoteID c \<noteq> n) cs \<Longrightarrow> fold (collectNote now) cs (db, files) = (db', files') \<Longrightarrow>
   NoteAttachmentBlobIDs n db' = NoteAttachmentBlobIDs n db \<and> attachment_content b db' = attachment_content b db \<and> files' = files \<and>
   filter (\<lambda>r. nr_id r = n) (nd_notes db') = filter (\<lambda>r. nr_id r = n) (nd_notes db)"
proof (induction cs arbitrary: db)
  case (Cons c cs)
  have "filter (\<lambda>r. nr_id r = n) (filter (\<lambda>r. nr_id r \<noteq> gn_NoteID c) (nd_notes db)) = filter (\<lambda>r. nr_id r = n) (nd_notes db)"
    using Cons.prems(1) by (auto intro!: filter_cong)
  with Cons.IH [of "DeleteNoteCompletely (gn_NoteID c) now db"] Cons.prems DeleteNoteCompletely_keeps(1,3)
    DeleteNoteCompletely_keeps(2) [of n "gn_NoteID c" now db]
  show ?case by (auto simp: collectNote_def)
qed simp

section \<open>Safety\<close>

lemma scan_attachments_Inr: "scan_attachments rows = Inr as \<Longrightarrow> as = rows"
  by (induction rows arbitrary: as) (auto simp: scanAttachment_def err_simps split: if_splits)

lemma scan_notes_set: "scan_notes rows = Inr ns \<Longrightarrow> nt \<in> set ns \<Longrightarrow> \<exists>r \<in> set rows. scanNote r = Inr nt"
  by (induction rows arbitrary: ns) (auto simp: err_simps)

text \<open>
  What a run may take: a tombstone of the workspace whose deletion clock is not after the cutoff;
  the blob of an attachment of the workspace that lost its last reference by the cutoff, or of
  a file that the catalogue does not know and that was not modified after the cutoff.
\<close>

definition expired_row :: "ID \<Rightarrow> int \<Rightarrow> note_row \<Rightarrow> bool" where
  "expired_row ws cutoff r \<longleftrightarrow> nr_workspace r = ws \<and> nr_deleted r \<and> sint (PhysicalMS (scan_clock (nr_deleted_clock r))) \<le> cutoff"

definition expired_blob :: "ID \<Rightarrow> int \<Rightarrow> PublishedBlob list \<Rightarrow> note_db \<Rightarrow> bytes \<Rightarrow> bool" where
  "expired_blob ws cutoff files db b \<longleftrightarrow>
     list_ex (\<lambda>a. at_blob a = b \<and> at_workspace a = ws \<and> (case at_orphaned a of None \<Rightarrow> False | Some t \<Rightarrow> t \<le> cutoff)) (nd_attachments db) \<or>
     \<not> list_ex (\<lambda>a. at_blob a = b) (nd_attachments db) \<and> list_ex (\<lambda>f. pb_ID f = b \<and> pb_Modified f \<le> cutoff) files"

text \<open>The rows and files that a loop takes are those of its candidates.\<close>

lemma collect_notes_rows:
  "fold (collectNote now) cs (db, files) = (db', files') \<Longrightarrow>
   nd_notes db' = filter (\<lambda>r. nr_id r \<notin> gn_NoteID ` set cs) (nd_notes db) \<and> files' = files \<and> map at_blob (nd_attachments db') = map at_blob (nd_attachments db)"
proof (induction cs arbitrary: db)
  case (Cons c cs)
  have "map at_blob (nd_attachments (DeleteNoteCompletely m now db)) = map at_blob (nd_attachments db)" for m
  proof -
    have "map at_blob (nd_attachments (fold (\<lambda>b. reconcileAttachmentOrphan b now) bs d)) = map at_blob (nd_attachments d)" for bs d
      by (induction bs arbitrary: d) simp_all
    then show ?thesis by (simp add: DeleteNoteCompletely_def Let_def)
  qed
  with Cons.IH [of "DeleteNoteCompletely (gn_NoteID c) now db"] Cons.prems show ?case
    by (auto simp: collectNote_def DeleteNoteCompletely_keeps(3) intro: filter_cong)
qed (simp add: filter_id_conv)

lemma collect_blobs_rows:
  "collect_blobs removable cs (db, files) = (ok, db', files') \<Longrightarrow> nd_notes db' = nd_notes db \<and>
   (f \<in> set files \<longrightarrow> pb_ID f \<notin> gb_BlobID ` set cs \<longrightarrow> f \<in> set files') \<and>
   (a \<in> set (nd_attachments db) \<longrightarrow> at_blob a \<notin> gb_BlobID ` set cs \<longrightarrow> a \<in> set (nd_attachments db'))"
proof (induction cs arbitrary: db files)
  case (Cons c cs)
  show ?case
  proof (cases "removable (gb_BlobID c)")
    case True
    with Cons.prems have "collect_blobs removable cs (DeleteAttachment (gb_BlobID c) db, filter (\<lambda>f. pb_ID f \<noteq> gb_BlobID c) files) = (ok, db', files')"
      by (simp add: collectBlob_def)
    from Cons.IH [OF this] show ?thesis by (auto simp: DeleteAttachment_def)
  next
    case False
    with Cons.prems show ?thesis by (auto simp: collectBlob_def DeleteAttachment_def)
  qed
qed simp

lemma gc_report_Inr:
  assumes "gc_report inBackup ws cutoff dryRun files db = Inr report" "orphans_sound db"
  shows "list_all (\<lambda>c. \<not> referenced (gb_BlobID c) db) (gr_Blobs report)"
    and "c \<in> set (gr_Notes report) \<Longrightarrow> \<exists>r \<in> set (nd_notes db). nr_id r = gn_NoteID c \<and> expired_row ws cutoff r"
    and "list_all (\<lambda>c. expired_blob ws cutoff files db (gb_BlobID c)) (gr_Blobs report)"
proof -
  from assms(1) obtain listed where l: "Store_ListNotes ws db = Inr listed"
    and b: "gr_Blobs report = map (orphan_candidate inBackup) (ListOrphanedAttachments ws cutoff db) @
      map (published_candidate inBackup) (filter (\<lambda>f. \<not> (pb_ID f \<in> set (map at_blob (nd_attachments db)) \<or> cutoff < pb_Modified f)) files)"
    and n: "gr_Notes report = map note_candidate (filter (\<lambda>n. \<not> (\<not> Value (Note_Deleted n)) \<and> \<not> cutoff < sint (PhysicalMS (LWWClock (Note_Deleted n)))) listed)"
    by (auto simp: gc_report_def AllAttachmentBlobIDs_def Let_def err_simps dest!: scan_attachments_Inr split: if_splits)
  have orphan: "\<not> referenced (at_blob a) db" if "a \<in> set (ListOrphanedAttachments ws cutoff db)" for a
    using that assms(2) by (auto simp: ListOrphanedAttachments_def orphans_sound_def list_all_iff split: option.splits)
  have "\<not> referenced x db" if "x \<notin> set (map at_blob (nd_attachments db))" for x
    using that assms(2) by (auto simp: orphans_sound_but sound_but_def referenced_present present_pairs_def)
  with orphan show "list_all (\<lambda>c. \<not> referenced (gb_BlobID c) db) (gr_Blobs report)"
    by (auto simp: b list_all_iff orphan_candidate_def published_candidate_def)
  show "list_all (\<lambda>c. expired_blob ws cutoff files db (gb_BlobID c)) (gr_Blobs report)"
  proof -
    have "expired_blob ws cutoff files db (at_blob x)" if "x \<in> set (ListOrphanedAttachments ws cutoff db)" for x
      using that by (auto simp: expired_blob_def ListOrphanedAttachments_def list_ex_iff)
    moreover have "expired_blob ws cutoff files db (pb_ID f)"
      if "f \<in> set files" "pb_ID f \<notin> set (map at_blob (nd_attachments db))" "\<not> cutoff < pb_Modified f" for f
      using that unfolding expired_blob_def list_ex_blob by (auto simp: list_ex_iff)
    ultimately show ?thesis by (auto simp: b list_all_iff orphan_candidate_def published_candidate_def)
  qed
  show "\<exists>r \<in> set (nd_notes db). nr_id r = gn_NoteID c \<and> expired_row ws cutoff r" if "c \<in> set (gr_Notes report)"
  proof -
    from that n obtain nt where nt: "nt \<in> set listed" "Value (Note_Deleted nt)" "sint (PhysicalMS (LWWClock (Note_Deleted nt))) \<le> cutoff" "c = note_candidate nt"
      by auto
    from l nt(1) obtain r where "r \<in> set (nd_notes db)" "nr_workspace r = ws" "scanNote r = Inr nt"
      by (auto simp: Store_ListNotes_def dest!: scan_notes_set)
    with nt(2-4) show ?thesis by (auto simp: scanNote_def note_candidate_def expired_row_def split: if_splits)
  qed
qed

definition kept :: "note_db \<Rightarrow> PublishedBlob list \<Rightarrow> note_db \<Rightarrow> PublishedBlob list \<Rightarrow> note_row \<Rightarrow> bool" where
  "kept db files db' files' r \<longleftrightarrow> r \<in> set (nd_notes db') \<and> NoteAttachmentBlobIDs (nr_id r) db' = NoteAttachmentBlobIDs (nr_id r) db \<and>
     (\<forall>b \<in> set (NoteAttachmentBlobIDs (nr_id r) db). attachment_content b db' = attachment_content b db \<and> blob_files b files' = blob_files b files)"

lemma live_referenced: "b \<in> set (NoteAttachmentBlobIDs n db) \<Longrightarrow> referenced b db"
  by (auto simp: NoteAttachmentBlobIDs_present referenced_present)

lemma live_content:
  assumes "orphans_sound db" "b \<in> set (NoteAttachmentBlobIDs n db)"
  shows "attachment_content b db \<noteq> []"
proof -
  have "b \<in> set (map at_blob (nd_attachments db))"
    using assms by (auto simp: orphans_sound_but sound_but_def NoteAttachmentBlobIDs_def)
  then show ?thesis by (auto simp: attachment_content_def filter_empty_conv)
qed

lemma collected_kept:
  assumes c: "collect_blobs removable blobs (db, files) = (ok, db1, files1)" and nr: "list_all (\<lambda>c. \<not> referenced (gb_BlobID c) db) blobs"
    and r: "r \<in> set (nd_notes db)" and others: "list_all (\<lambda>c. gn_NoteID c \<noteq> nr_id r) cs"
    and e: "(db', files') = (db1, files1) \<or> fold (collectNote now) cs (db1, files1) = (db', files')"
  shows "kept db files db' files' r"
proof -
  note k = collect_blobs_keeps [OF c nr]
  have base: "kept db files db1 files1 r"
    using k r live_referenced by (auto simp: kept_def NoteAttachmentBlobIDs_present)
  from e show ?thesis
  proof
    assume "(db', files') = (db1, files1)"
    with base show ?thesis by simp
  next
    assume f: "fold (collectNote now) cs (db1, files1) = (db', files')"
    from collect_notes_keeps [OF others f] have n: "NoteAttachmentBlobIDs (nr_id r) db' = NoteAttachmentBlobIDs (nr_id r) db1" "files' = files1"
      "filter (\<lambda>x. nr_id x = nr_id r) (nd_notes db') = filter (\<lambda>x. nr_id x = nr_id r) (nd_notes db1)"
      "\<And>b. attachment_content b db' = attachment_content b db1" by blast+
    have "r \<in> set (filter (\<lambda>x. nr_id x = nr_id r) (nd_notes db1))" using base by (simp add: kept_def)
    then have "r \<in> set (filter (\<lambda>x. nr_id x = nr_id r) (nd_notes db'))" by (simp only: n(3))
    with base show ?thesis by (simp add: kept_def n(1,2,4))
  qed
qed


text \<open>
  A live note with an attachment, a note deleted long ago, an attachment that lost its reference
  long ago, and a file that the catalogue does not know.
\<close>

definition demo_blob :: bytes where
  "demo_blob = replicate 32 9"

definition orphan_blob :: bytes where
  "orphan_blob = replicate 32 8"

definition stray_blob :: bytes where
  "stray_blob = replicate 32 7"

definition demo_tombstone :: note_row where
  "demo_tombstone = \<lparr>nr_id = demo_id 6, nr_workspace = demo_id 2, nr_notebook = NilID, nr_notebook_clock = None, nr_title = ''b'', nr_title_clock = demo_remote,
     nr_flags = 0, nr_flags_clock = None, nr_deleted = True, nr_deleted_clock = Some demo_remote, nr_created = demo_remote\<rparr>"

definition demo_trashed :: note_db where
  "demo_trashed = demo_notes\<lparr>nd_notes := nd_notes demo_notes @ [demo_tombstone]\<rparr>"

definition demo_attachment :: "bytes \<Rightarrow> int option \<Rightarrow> attachment_row" where
  "demo_attachment b orphaned = \<lparr>at_blob = b, at_workspace = demo_id 2, at_key = [], at_manifest = [1], at_size = 5, at_chunks = 1,
     at_created = 100, at_orphaned = orphaned\<rparr>"

definition later_clock :: HLC where
  "later_clock = demo_remote\<lparr>PhysicalMS := PhysicalMS demo_remote + 1\<rparr>"

definition demo_attached :: note_db where
  "demo_attached = demo_trashed\<lparr>nd_attachments := [demo_attachment demo_blob None, demo_attachment orphan_blob (Some 100)],
     nd_note_attachments := [\<lparr>pr_note = demo_id 4, pr_other = demo_blob, pr_present = True, pr_clock = demo_remote\<rparr>,
       \<lparr>pr_note = demo_id 4, pr_other = orphan_blob, pr_present = False, pr_clock = later_clock\<rparr>]\<rparr>"

definition demo_files :: "PublishedBlob list" where
  "demo_files = map (\<lambda>b. \<lparr>pb_ID = b, pb_Modified = 100, pb_SizeBytes = 5\<rparr>) [demo_blob, orphan_blob, stray_blob]"

lemma demo_blobs_differ [simp]: "orphan_blob \<noteq> demo_blob" "demo_blob \<noteq> orphan_blob" "stray_blob \<noteq> demo_blob" "stray_blob \<noteq> orphan_blob"
    "demo_blob \<noteq> stray_blob" "orphan_blob \<noteq> stray_blob" "length demo_blob = 32" "length orphan_blob = 32" "length stray_blob = 32"
  by (simp_all add: demo_blob_def orphan_blob_def stray_blob_def)

lemmas demo_gc = demo_trashed_def demo_notes_def demo_attachment_def demo_tombstone_def

lemma demo_attached_steps: "attachment_step\<^sup>*\<^sup>* demo_trashed demo_attached"
proof -
  let ?pair = "\<lambda>b present clock. \<lparr>pr_note = demo_id 4, pr_other = b, pr_present = present, pr_clock = clock\<rparr>"
  let ?d = "\<lambda>rows pairs. demo_trashed\<lparr>nd_attachments := rows, nd_note_attachments := pairs\<rparr>"
  have 1: "CreateAttachment (demo_id 2) demo_blob [] [1] 5 1 100 demo_trashed = Inr (demo_attachment demo_blob None, ?d [demo_attachment demo_blob None] [])"
    by (simp add: CreateAttachment_def Store_GetAttachment_def demo_gc Let_def)
  have 2: "SetNoteAttachment (demo_id 4) demo_blob True demo_remote 100 (?d [demo_attachment demo_blob None] [])
      = Inr (?d [demo_attachment demo_blob None] [?pair demo_blob True demo_remote])"
    by (simp add: SetNoteAttachment_def pair_upsert_def demo_gc demo_remote_def reconcileAttachmentOrphan_def referenced_def word_le_def)
  have 3: "CreateAttachment (demo_id 2) orphan_blob [] [1] 5 1 100 (?d [demo_attachment demo_blob None] [?pair demo_blob True demo_remote])
      = Inr (demo_attachment orphan_blob None, ?d [demo_attachment demo_blob None, demo_attachment orphan_blob None] [?pair demo_blob True demo_remote])"
    by (simp add: CreateAttachment_def Store_GetAttachment_def demo_gc Let_def)
  have 4: "SetNoteAttachment (demo_id 4) orphan_blob True demo_remote 100
      (?d [demo_attachment demo_blob None, demo_attachment orphan_blob None] [?pair demo_blob True demo_remote])
      = Inr (?d [demo_attachment demo_blob None, demo_attachment orphan_blob None] [?pair demo_blob True demo_remote, ?pair orphan_blob True demo_remote])"
    by (simp add: SetNoteAttachment_def pair_upsert_def demo_gc demo_remote_def reconcileAttachmentOrphan_def referenced_def word_le_def)
  have 5: "SetNoteAttachment (demo_id 4) orphan_blob False later_clock 100
      (?d [demo_attachment demo_blob None, demo_attachment orphan_blob None] [?pair demo_blob True demo_remote, ?pair orphan_blob True demo_remote])
      = Inr demo_attached"
    by (simp add: SetNoteAttachment_def pair_upsert_def demo_gc demo_remote_def later_clock_def reconcileAttachmentOrphan_def referenced_def
        HLC_Compare_def demo_attached_def)
  show ?thesis
    using step_create [OF 1] step_reference [OF 2] step_create [OF 3] step_reference [OF 4] step_reference [OF 5]
    by (meson converse_rtranclp_into_rtranclp r_into_rtranclp)
qed

definition demo_report :: GCReport where
  "demo_report = \<lparr>gr_Blobs = map (\<lambda>b. \<lparr>gb_BlobID = b, gb_SizeBytes = 5, gb_OrphanedUnixMS = 100, gb_InAnyBackup = False\<rparr>) [orphan_blob, stray_blob],
     gr_Notes = [\<lparr>gn_NoteID = demo_id 6, gn_Title = ''b'', gn_DeletedUnixMS = 2000\<rparr>], gr_BlobBytesReclaimed = 10, gr_DryRun = False\<rparr>"

lemma demo_gc_report:
  assumes "(2000 :: int) \<le> cutoff"
  shows "gc_report (\<lambda>_. False) (demo_id 2) cutoff False demo_files demo_attached = Inr demo_report"
proof -
  have o: "scan_attachments (ListOrphanedAttachments (demo_id 2) cutoff demo_attached) = Inr [demo_attachment orphan_blob (Some 100)]"
    using assms by (simp add: ListOrphanedAttachments_def demo_attached_def demo_attachment_def scanAttachment_def)
  have k: "AllAttachmentBlobIDs demo_attached = Inr {demo_blob, orphan_blob}"
    by (simp add: AllAttachmentBlobIDs_def demo_attached_def demo_attachment_def)
  have l: "\<exists>live. Store_ListNotes (demo_id 2) demo_attached = Inr [live, \<lparr>Note_ID = demo_id 6, Note_WorkspaceID = demo_id 2,
      Note_NotebookID = \<lparr>Value = NilID, LWWClock = scan_clock None\<rparr>, Note_Title = \<lparr>Value = ''b'', LWWClock = scan_clock (Some demo_remote)\<rparr>,
      Note_Flags = \<lparr>Value = 0, LWWClock = scan_clock None\<rparr>, Note_Deleted = \<lparr>Value = True, LWWClock = scan_clock (Some demo_remote)\<rparr>,
      Note_CreatedAt = scan_clock (Some demo_remote)\<rparr>] \<and> \<not> Value (Note_Deleted live)"
    by (simp add: Store_ListNotes_def demo_attached_def demo_gc scanNote_def)
  from l obtain live where live: "\<not> Value (Note_Deleted live)" and list: "Store_ListNotes (demo_id 2) demo_attached = Inr [live, \<lparr>Note_ID = demo_id 6,
      Note_WorkspaceID = demo_id 2,
      Note_NotebookID = \<lparr>Value = NilID, LWWClock = scan_clock None\<rparr>, Note_Title = \<lparr>Value = ''b'', LWWClock = scan_clock (Some demo_remote)\<rparr>,
      Note_Flags = \<lparr>Value = 0, LWWClock = scan_clock None\<rparr>, Note_Deleted = \<lparr>Value = True, LWWClock = scan_clock (Some demo_remote)\<rparr>,
      Note_CreatedAt = scan_clock (Some demo_remote)\<rparr>]" by blast
  have t: "sint (PhysicalMS (scan_clock (Some demo_remote))) = 2000" by (simp add: scan_clock_def demo_remote_def)
  have f: "filter (\<lambda>f. \<not> (pb_ID f \<in> {demo_blob, orphan_blob} \<or> cutoff < pb_Modified f)) demo_files = [\<lparr>pb_ID = stray_blob, pb_Modified = 100, pb_SizeBytes = 5\<rparr>]"
    using assms by (simp add: demo_files_def)
  show ?thesis
    unfolding gc_report_def o k bind_res.simps Let_def list f
    using assms live t
    by (simp add: demo_report_def note_candidate_def orphan_candidate_def published_candidate_def demo_attachment_def)
qed

lemma demo_gc_run:
  "\<exists>db' files'. RunGarbageCollection (\<lambda>_. False) (\<lambda>_. True) (demo_id 2) (10 ^ 18) False demo_account (demo_attached, demo_files)
     = ((demo_report, None), db', files') \<and> map nr_id (nd_notes db') = [demo_id 4] \<and> map pb_ID files' = [demo_blob]"
proof -
  have r: "gc_report (\<lambda>_. False) (demo_id 2) ((10 ^ 18 - gcMinimumRetention) div 1000000) False demo_files demo_attached = Inr demo_report"
    by (rule demo_gc_report) (simp add: gcMinimumRetention_def)
  obtain db1 files1 where c: "collect_blobs (\<lambda>_. True) (gr_Blobs demo_report) (demo_attached, demo_files) = (True, db1, files1)"
    and n: "nd_notes db1 = nd_notes demo_attached" and f: "map pb_ID files1 = [demo_blob]"
    by (simp add: demo_report_def collectBlob_def DeleteAttachment_def demo_files_def)
  obtain db' files' where d: "fold (collectNote (10 ^ 18 div 1000000)) (gr_Notes demo_report) (db1, files1) = (db', files')" by fastforce
  from collect_notes_rows [OF d] n f have "map nr_id (nd_notes db') = [demo_id 4]" "map pb_ID files' = [demo_blob]"
    by (simp_all add: demo_report_def demo_attached_def demo_gc)
  moreover have "RunGarbageCollection (\<lambda>_. False) (\<lambda>_. True) (demo_id 2) (10 ^ 18) False demo_account (demo_attached, demo_files)
      = ((demo_report, None), db', files')"
    unfolding RunGarbageCollection_def fst_conv snd_conv Let_def r using c d by (simp add: accountSession_def demo_account_def)
  ultimately show ?thesis by (intro exI conjI)
qed


section \<open>Operations for a collected note\<close>

lemma DeleteNoteCompletely_not_found: "Store_GetNote n (DeleteNoteCompletely n now db) = Inl StoreNotFound"
proof -
  have "find (\<lambda>r. nr_id r = n) (filter (\<lambda>r. nr_id r \<noteq> n) (nd_notes db)) = None" by (simp add: find_None_iff)
  then show ?thesis by (simp add: Store_GetNote_def DeleteNoteCompletely_keeps(3))
qed

text \<open>
  C31. A collected note cannot be changed any more, and trying to is an error. After a note was
  collected, every metadata operation for it fails to apply, also a restoration another device
  made before it knew of the collection; the operation then ends in quarantine, which blocks
  the workspace. The database and the account stay as they are.
\<close>

theorem collected_note_rejects_metadata:
  assumes "vo_payload v = MetadataPayload m" "NM_NoteID m = n"
  shows "Apply env yj random unixMilli v a (DeleteNoteCompletely n now db) = (Inl (AccStore StoreNotFound), a)"
  using assms by (simp add: Apply_def apply_effect_def find_or_insert_def DeleteNoteCompletely_not_found Let_def)

theorem collected_note_rejects_metadata_witness:
  "Apply demo_crypto demo_yjs None 500 (snd (snd (demo_delivery 3000 (demo_flags 1)))) demo_account (DeleteNoteCompletely (demo_id 4) 100 demo_notes)
     = (Inl (AccStore StoreNotFound), demo_account)"
proof (rule collected_note_rejects_metadata)
  show "vo_payload (snd (snd (demo_delivery 3000 (demo_flags 1)))) = MetadataPayload ((zero_metadata (demo_id 4) NoteMetadataKindFlags)\<lparr>NM_Flags := 1\<rparr>)"
    by (simp add: demo_delivery_def demo_flags_def)
  show "NM_NoteID ((zero_metadata (demo_id 4) NoteMetadataKindFlags)\<lparr>NM_Flags := 1\<rparr>) = demo_id 4" by (simp add: zero_metadata_def)
qed

end
