(* ===== verification/Revision_History.thy ===== *)
theory Revision_History
  imports Replication "HOL-Library.Sublist"
begin

text \<open>
  The history of a note: \<^verbatim>\<open>core/account/revisions.go\<close>. A revision is a sealed delta or a sealed
  checkpoint; a past state is rebuilt from the youngest checkpoint, two states are compared
  line by line, and old revisions are pruned. The table of the longest common subsequence is
  the list of its rows, filled from the end as in the code.
\<close>

section \<open>Rebuilding a revision\<close>

definition noteRevisionRetention :: int where
  "noteRevisionRetention = 7 * 24 * 3600 * 1000000000"

definition applyRevision :: "crypto_env \<Rightarrow> 'd yjs \<Rightarrow> workspaceKeyEntry \<Rightarrow> ID \<Rightarrow> ID \<Rightarrow> Revision \<Rightarrow> 'd \<Rightarrow> account_error + 'd" where
  "applyRevision env yj entry workspaceID noteID r doc =
     bind_res (in_crypto (UnpackAndOpenObject env (ke_Key entry) (object_metadata workspaceID noteID ObjectTypeRevision []) (Rev_Data r))) (\<lambda>data.
       if Rev_Kind r = RevisionKindCheckpoint then need ''restore revision checkpoint'' (yj_restore yj (Rev_Format r) data)
       else if Rev_Kind r = RevisionKindDelta then need ''apply revision delta'' (yj_apply yj (Rev_Format r) data doc)
       else Inl (AccPlain ''revision has unknown kind''))"

fun apply_revisions :: "crypto_env \<Rightarrow> 'd yjs \<Rightarrow> workspaceKeyEntry \<Rightarrow> ID \<Rightarrow> ID \<Rightarrow> Revision list \<Rightarrow> 'd \<Rightarrow> account_error + 'd" where
  "apply_revisions env yj entry workspaceID noteID [] doc = Inr doc"
| "apply_revisions env yj entry workspaceID noteID (r # rs) doc =
     bind_res (applyRevision env yj entry workspaceID noteID r doc) (apply_revisions env yj entry workspaceID noteID rs)"

text \<open>The index after the first revision with the given identifier.\<close>

fun cutoff_index :: "ID \<Rightarrow> Revision list \<Rightarrow> nat option" where
  "cutoff_index i [] = None"
| "cutoff_index i (r # rs) = (if Rev_ID r = i then Some 1 else map_option Suc (cutoff_index i rs))"

text \<open>The search for the youngest checkpoint goes down from the last index; without one it ends at 0.\<close>

fun start_index :: "nat \<Rightarrow> Revision list \<Rightarrow> nat" where
  "start_index 0 rs = 0"
| "start_index (Suc i) rs = (if Rev_Kind (rs ! i) = RevisionKindCheckpoint then i else start_index i rs)"

definition reconstructNoteDocument :: "crypto_env \<Rightarrow> 'd yjs \<Rightarrow> Account \<Rightarrow> ID \<Rightarrow> ID \<Rightarrow> ID \<Rightarrow> note_db \<Rightarrow> account_error + 'd" where
  "reconstructNoteDocument env yj a workspaceID noteID throughRevisionID db =
     bind_res (workspaceSession workspaceID a) (\<lambda>entry.
     bind_res (verifyNoteInWorkspace workspaceID noteID db) (\<lambda>_.
       let revisions = ListRevisions noteID db in
       bind_res (if ID_IsZero throughRevisionID then Inr (length revisions)
                 else case cutoff_index throughRevisionID revisions of None \<Rightarrow> Inl (AccStore StoreNotFound) | Some n \<Rightarrow> Inr n) (\<lambda>cutoff.
         let start = start_index cutoff revisions in
         apply_revisions env yj entry workspaceID noteID (take (cutoff - start) (drop start revisions)) (yj_new yj))))"

definition RevisionMarkdown :: "crypto_env \<Rightarrow> 'd yjs \<Rightarrow> Account \<Rightarrow> ID \<Rightarrow> ID \<Rightarrow> ID \<Rightarrow> note_db \<Rightarrow> account_error + string" where
  "RevisionMarkdown env yj a workspaceID noteID revisionID db =
     bind_res (reconstructNoteDocument env yj a workspaceID noteID revisionID db) (\<lambda>doc. need ''markdown'' (yj_markdown yj doc))"

definition PruneRevisionHistory :: "int \<Rightarrow> Account \<Rightarrow> note_db \<Rightarrow> (account_error + nat) \<times> note_db" where
  "PruneRevisionHistory now a db =
     (if ac_locked a then (Inl ErrAccountLocked, db)
      else let (n, db) = PruneRevisions ((now - noteRevisionRetention) div 1000000) db in (Inr n, db))"

section \<open>Comparing revisions\<close>

datatype DiffOp = DiffEqual | DiffDelete | DiffInsert

record DiffLine =
  dl_Op :: DiffOp
  dl_Text :: string

text \<open>\<^verbatim>\<open>strings.Split\<close> with the separator newline: always at least one part.\<close>

fun split_lines :: "string \<Rightarrow> string \<Rightarrow> string list" where
  "split_lines cur [] = [cur]"
| "split_lines cur (c # cs) = (if c = CHR 0x0A then cur # split_lines [] cs else split_lines (cur @ [c]) cs)"

definition splitLinesKeepEmpty :: "string \<Rightarrow> string list" where
  "splitLinesKeepEmpty s = (if s = [] then [] else split_lines [] s)"

text \<open>One row of the table from the row below it, from the last column to the first.\<close>

fun lcs_row :: "'l \<Rightarrow> 'l list \<Rightarrow> nat list \<Rightarrow> nat list" where
  "lcs_row x [] below = [0]"
| "lcs_row x (y # ys) below =
     (let right = lcs_row x ys (tl below) in
      (if x = y then hd (tl below) + 1 else if hd right \<le> hd below then hd below else hd right) # right)"

fun lcs_table :: "'l list \<Rightarrow> 'l list \<Rightarrow> nat list list" where
  "lcs_table [] ys = [replicate (length ys + 1) 0]"
| "lcs_table (x # xs) ys = (let rows = lcs_table xs ys in lcs_row x ys (hd rows) # rows)"

function diff_walk :: "string list \<Rightarrow> string list \<Rightarrow> nat list list \<Rightarrow> nat \<Rightarrow> nat \<Rightarrow> DiffLine list" where
  "diff_walk as bs lcs i j =
     (if i < length as \<and> j < length bs then
        if as ! i = bs ! j then \<lparr>dl_Op = DiffEqual, dl_Text = as ! i\<rparr> # diff_walk as bs lcs (i + 1) (j + 1)
        else if lcs ! i ! (j + 1) \<le> lcs ! (i + 1) ! j then \<lparr>dl_Op = DiffDelete, dl_Text = as ! i\<rparr> # diff_walk as bs lcs (i + 1) j
        else \<lparr>dl_Op = DiffInsert, dl_Text = bs ! j\<rparr> # diff_walk as bs lcs i (j + 1)
      else map (\<lambda>l. \<lparr>dl_Op = DiffDelete, dl_Text = l\<rparr>) (drop i as) @ map (\<lambda>l. \<lparr>dl_Op = DiffInsert, dl_Text = l\<rparr>) (drop j bs))"
  by pat_completeness auto
termination
  by (relation "measure (\<lambda>(as, bs, lcs, i, j). (length as - i) + (length bs - j))") auto

declare diff_walk.simps [simp del]

definition diffLines :: "string \<Rightarrow> string \<Rightarrow> DiffLine list" where
  "diffLines a b =
     (let aLines = splitLinesKeepEmpty a; bLines = splitLinesKeepEmpty b
      in diff_walk aLines bLines (lcs_table aLines bLines) 0 0)"

definition DiffRevisions :: "crypto_env \<Rightarrow> 'd yjs \<Rightarrow> Account \<Rightarrow> ID \<Rightarrow> ID \<Rightarrow> ID \<Rightarrow> ID \<Rightarrow> note_db \<Rightarrow> account_error + DiffLine list" where
  "DiffRevisions env yj a workspaceID noteID fromRevisionID toRevisionID db =
     bind_res (if ID_IsZero fromRevisionID then Inr [] else RevisionMarkdown env yj a workspaceID noteID fromRevisionID db) (\<lambda>fromText.
     bind_res (RevisionMarkdown env yj a workspaceID noteID toRevisionID db) (\<lambda>toText. Inr (diffLines fromText toText)))"

section \<open>The table is the longest common subsequence\<close>

fun llcs :: "'l list \<Rightarrow> 'l list \<Rightarrow> nat" where
  "llcs [] ys = 0"
| "llcs (x # xs) [] = 0"
| "llcs (x # xs) (y # ys) = (if x = y then llcs xs ys + 1 else max (llcs xs (y # ys)) (llcs (x # xs) ys))"

lemma llcs_Nil2 [simp]: "llcs xs [] = 0"
  by (cases xs) auto

lemma lcs_row_spec:
  assumes "length below = length ys + 1" "\<And>j. j \<le> length ys \<Longrightarrow> below ! j = llcs xs (drop j ys)"
  shows "length (lcs_row x ys below) = length ys + 1 \<and> (\<forall>j \<le> length ys. lcs_row x ys below ! j = llcs (x # xs) (drop j ys))"
  using assms
proof (induction ys arbitrary: below)
  case (Cons y ys)
  obtain b below' where b: "below = b # below'" using Cons.prems(1) by (cases below) auto
  have IH: "length (lcs_row x ys below') = length ys + 1 \<and> (\<forall>j \<le> length ys. lcs_row x ys below' ! j = llcs (x # xs) (drop j ys))"
  proof (rule Cons.IH)
    show "length below' = length ys + 1" using Cons.prems(1) b by simp
    show "below' ! j = llcs xs (drop j ys)" if "j \<le> length ys" for j using Cons.prems(2) [of "Suc j"] that b by simp
  qed
  have "below' \<noteq> []" "lcs_row x ys below' \<noteq> []" using Cons.prems(1) b IH by auto
  then have h: "hd below' = llcs xs ys" "b = llcs xs (y # ys)" "hd (lcs_row x ys below') = llcs (x # xs) ys"
    using Cons.prems(2) [of 0] Cons.prems(2) [of 1] IH b by (auto simp: hd_conv_nth)
  show ?case
    using IH h by (auto simp: b Let_def nth_Cons max_def split: nat.splits)
qed simp

lemma lcs_table_spec:
  "length (lcs_table xs ys) = length xs + 1 \<and>
   (\<forall>i \<le> length xs. length (lcs_table xs ys ! i) = length ys + 1 \<and> (\<forall>j \<le> length ys. lcs_table xs ys ! i ! j = llcs (drop i xs) (drop j ys)))"
proof (induction xs)
  case (Cons x xs)
  let ?rows = "lcs_table xs ys"
  have h: "hd ?rows = ?rows ! 0" using Cons.IH by (cases "lcs_table xs ys") auto
  have "length (lcs_row x ys (hd ?rows)) = length ys + 1 \<and> (\<forall>j \<le> length ys. lcs_row x ys (hd ?rows) ! j = llcs (x # xs) (drop j ys))"
    using Cons.IH by (intro lcs_row_spec) (auto simp: h)
  with Cons.IH show ?case by (auto simp: Let_def nth_Cons split: nat.splits)
qed (simp del: replicate_Suc)

abbreviation line :: "DiffOp \<Rightarrow> string \<Rightarrow> DiffLine" where
  "line op text \<equiv> \<lparr>dl_Op = op, dl_Text = text\<rparr>"

fun diff_spec :: "string list \<Rightarrow> string list \<Rightarrow> DiffLine list" where
  "diff_spec [] ys = map (line DiffInsert) ys"
| "diff_spec (x # xs) [] = map (line DiffDelete) (x # xs)"
| "diff_spec (x # xs) (y # ys) =
     (if x = y then line DiffEqual x # diff_spec xs ys
      else if llcs (x # xs) ys \<le> llcs xs (y # ys) then line DiffDelete x # diff_spec xs (y # ys)
      else line DiffInsert y # diff_spec (x # xs) ys)"

lemma diff_walk_spec:
  "i \<le> length as \<Longrightarrow> j \<le> length bs \<Longrightarrow> diff_walk as bs (lcs_table as bs) i j = diff_spec (drop i as) (drop j bs)"
proof (induction as bs "lcs_table as bs" i j rule: diff_walk.induct)
  case (1 as bs i j)
  show ?case
  proof (cases "i < length as \<and> j < length bs")
    case True
    then have d: "drop i as = as ! i # drop (i + 1) as" "drop j bs = bs ! j # drop (j + 1) bs"
      by (simp_all add: Cons_nth_drop_Suc)
    have t: "lcs_table as bs ! i ! (j + 1) = llcs (drop i as) (drop (j + 1) bs)" "lcs_table as bs ! (i + 1) ! j = llcs (drop (i + 1) as) (drop j bs)"
      using lcs_table_spec [of as bs] True by simp_all
    show ?thesis
      using 1 True by (subst diff_walk.simps) (simp only: t, simp add: d)
  next
    case False
    with 1 have "drop i as = [] \<or> drop j bs = []" by auto
    with False show ?thesis by (subst diff_walk.simps) (cases "drop i as"; auto)
  qed
qed

lemma diff_spec_lines:
  "map dl_Text (filter (\<lambda>l. dl_Op l \<noteq> DiffInsert) (diff_spec xs ys)) = xs"
  "map dl_Text (filter (\<lambda>l. dl_Op l \<noteq> DiffDelete) (diff_spec xs ys)) = ys"
  by (induction xs ys rule: diff_spec.induct) (auto simp: filter_map comp_def)

lemma diff_spec_equal: "length (filter (\<lambda>l. dl_Op l = DiffEqual) (diff_spec xs ys)) = llcs xs ys"
  by (induction xs ys rule: diff_spec.induct) (auto simp: filter_map comp_def max_def)

lemma llcs_upper: "subseq s xs \<Longrightarrow> subseq s ys \<Longrightarrow> length s \<le> llcs xs ys"
proof (induction xs ys arbitrary: s rule: llcs.induct)
  case (3 x xs y ys)
  show ?case
  proof (cases s)
    case (Cons c cs)
    show ?thesis
    proof (cases "x = y")
      case eq: True
      show ?thesis
      proof (cases "c = x")
        case True
        with "3.prems" Cons eq have "subseq cs xs" "subseq cs ys" by simp_all
        with "3.IH"(1) [OF eq] Cons eq show ?thesis by simp
      next
        case False
        with "3.prems" Cons eq have "subseq s xs" "subseq s ys" by simp_all
        with "3.IH"(1) [OF eq, of s] eq show ?thesis by simp
      qed
    next
      case ne: False
      show ?thesis
      proof (cases "c = x")
        case True
        with "3.prems" Cons ne have "subseq s ys" by simp
        with "3.IH"(3) [OF ne "3.prems"(1)] ne show ?thesis by simp
      next
        case False
        with "3.prems" Cons ne have "subseq s xs" by simp
        with "3.IH"(2) [OF ne _ "3.prems"(2)] ne show ?thesis by simp
      qed
    qed
  qed simp
qed auto

lemma subseq_filter_map: "subseq (map f (filter P xs)) (map f (filter Q xs))" if "\<And>x. P x \<Longrightarrow> Q x"
  using that by (induction xs) auto

fun join_lines :: "string list \<Rightarrow> string" where
  "join_lines [] = []"
| "join_lines [l] = l"
| "join_lines (l # ls) = l @ CHR 0x0A # join_lines ls"

lemma split_lines_not_Nil [simp]: "split_lines cur s \<noteq> []"
  by (induction s arbitrary: cur) auto

lemma join_split_lines: "join_lines (split_lines cur s) = cur @ s"
proof (induction s arbitrary: cur)
  case (Cons c s)
  have "join_lines (cur # split_lines [] s) = cur @ CHR 0x0A # s"
    using Cons.IH [of "[]"] by (cases "split_lines [] s") auto
  with Cons show ?case by simp
qed simp

lemma join_splitLinesKeepEmpty: "join_lines (splitLinesKeepEmpty s) = s"
  by (simp add: splitLinesKeepEmpty_def join_split_lines)

lemma diffLines_spec: "diffLines a b = diff_spec (splitLinesKeepEmpty a) (splitLinesKeepEmpty b)"
  using diff_walk_spec [of 0 "splitLinesKeepEmpty a" 0 "splitLinesKeepEmpty b"] by (simp add: diffLines_def Let_def)

text \<open>
  C34. A comparison shows exactly what changed and no more than necessary. The lines marked equal
  or deleted are the old text, the lines marked equal or inserted are the new text, and no
  other way to keep lines of both texts in order keeps more lines than those marked equal.
\<close>

theorem diffLines_exact:
  "join_lines (map dl_Text (filter (\<lambda>l. dl_Op l \<noteq> DiffInsert) (diffLines a b))) = a \<and>
   join_lines (map dl_Text (filter (\<lambda>l. dl_Op l \<noteq> DiffDelete) (diffLines a b))) = b \<and>
   length (filter (\<lambda>l. dl_Op l = DiffEqual) (diffLines a b))
     = Max (length ` {common. subseq common (splitLinesKeepEmpty a) \<and> subseq common (splitLinesKeepEmpty b)})"
proof (intro conjI)
  let ?as = "splitLinesKeepEmpty a" and ?bs = "splitLinesKeepEmpty b"
  show "join_lines (map dl_Text (filter (\<lambda>l. dl_Op l \<noteq> DiffInsert) (diffLines a b))) = a"
    "join_lines (map dl_Text (filter (\<lambda>l. dl_Op l \<noteq> DiffDelete) (diffLines a b))) = b"
    by (simp_all add: diffLines_spec diff_spec_lines join_splitLinesKeepEmpty)
  have n: "length (filter (\<lambda>l. dl_Op l = DiffEqual) (diffLines a b)) = llcs ?as ?bs" by (simp add: diffLines_spec diff_spec_equal)
  have sub: "subseq (map dl_Text (filter (\<lambda>l. dl_Op l = DiffEqual) (diffLines a b))) ?as" "subseq (map dl_Text (filter (\<lambda>l. dl_Op l = DiffEqual) (diffLines a b))) ?bs"
    using subseq_filter_map [where P = "\<lambda>l. dl_Op l = DiffEqual" and Q = "\<lambda>l. dl_Op l \<noteq> DiffInsert" and f = dl_Text and xs = "diffLines a b"]
      subseq_filter_map [where P = "\<lambda>l. dl_Op l = DiffEqual" and Q = "\<lambda>l. dl_Op l \<noteq> DiffDelete" and f = dl_Text and xs = "diffLines a b"]
    by (simp_all add: diffLines_spec diff_spec_lines)
  have fin: "finite {common. subseq common ?as \<and> subseq common ?bs}"
    by (rule finite_subset [of _ "set (subseqs ?as)"]) auto
  have "Max (length ` {common. subseq common ?as \<and> subseq common ?bs}) = llcs ?as ?bs"
  proof (intro Max_eqI)
    show "k \<le> llcs ?as ?bs" if "k \<in> length ` {common. subseq common ?as \<and> subseq common ?bs}" for k
      using that llcs_upper by auto
    show "llcs ?as ?bs \<in> length ` {common. subseq common ?as \<and> subseq common ?bs}"
      using sub by (auto simp: n [symmetric] intro!: image_eqI [of _ length "map dl_Text (filter (\<lambda>l. dl_Op l = DiffEqual) (diffLines a b))"])
  qed (simp add: fin)
  then show "length (filter (\<lambda>l. dl_Op l = DiffEqual) (diffLines a b)) = Max (length ` {common. subseq common ?as \<and> subseq common ?bs})"
    by (simp add: n)
qed

section \<open>Pruning keeps what it lists\<close>

lemma list_ex_base_filter:
  "list_ex (prunable_base c n) (filter (\<lambda>v. Rev_NoteID v = n) vs) = list_ex (prunable_base c n) vs"
  by (induction vs) (auto simp: prunable_base_def)

lemma pruned_note: "filter (\<lambda>v. Rev_NoteID v = n) (pruned c revs) = pruned c (filter (\<lambda>v. Rev_NoteID v = n) revs)"
  by (induction revs) (auto simp: list_ex_base_filter)

lemma pruned_base:
  "list_ex (prunable_base c n) vs \<Longrightarrow> list_all (\<lambda>v. Rev_NoteID v = n) vs \<Longrightarrow> \<exists>b rest. pruned c vs = b # rest \<and> prunable_base c n b"
  by (induction vs) auto

text \<open>Of one note a suffix is kept; what was cut off ends before a checkpoint.\<close>

lemma pruned_suffix:
  "list_all (\<lambda>v. Rev_NoteID v = n) vs \<Longrightarrow>
   \<exists>pre. vs = pre @ pruned c vs \<and> (pre \<noteq> [] \<longrightarrow> pruned c vs \<noteq> [] \<and> prunable_base c n (hd (pruned c vs)))"
proof (induction vs)
  case (Cons v vs)
  then obtain pre where pre: "vs = pre @ pruned c vs" "pre \<noteq> [] \<longrightarrow> pruned c vs \<noteq> [] \<and> prunable_base c n (hd (pruned c vs))" by auto
  show ?case
  proof (cases "list_ex (prunable_base c n) vs")
    case True
    then obtain b rest where "pruned c vs = b # rest" "prunable_base c n b" using pruned_base Cons.prems by fastforce
    with True Cons.prems pre show ?thesis by (intro exI [of _ "v # pre"]) auto
  next
    case False
    have keep: "\<not> list_ex (prunable_base c n) ws \<Longrightarrow> list_all (\<lambda>v. Rev_NoteID v = n) ws \<Longrightarrow> pruned c ws = ws" for ws
      by (induction ws) auto
    show ?thesis using False Cons.prems keep [OF False] by (intro exI [of _ "[]"]) auto
  qed
qed simp

lemma cutoff_index_append:
  "i \<notin> Rev_ID ` set pre \<Longrightarrow> cutoff_index i (pre @ post) = map_option (\<lambda>k. length pre + k) (cutoff_index i post)"
  by (induction pre; cases "cutoff_index i post") auto

lemma cutoff_index_bounds: "cutoff_index i rs = Some k \<Longrightarrow> 0 < k \<and> k \<le> length rs"
  by (induction rs arbitrary: k) (auto split: if_splits)

lemma cutoff_index_None: "cutoff_index i rs = None \<longleftrightarrow> i \<notin> Rev_ID ` set rs"
  by (induction rs) auto

lemma start_index_append:
  assumes "0 < k" "k \<le> length post" "Rev_Kind (hd post) = RevisionKindCheckpoint"
  shows "start_index (length pre + k) (pre @ post) = length pre + start_index k post"
  using assms(1,2)
proof (induction k rule: nat_induct_non_zero)
  case 1
  then show ?case using assms(3) by (cases post) (auto simp: nth_append)
next
  case (Suc k)
  then show ?case by (simp add: nth_append)
qed

lemma start_index_less: "0 < k \<Longrightarrow> start_index k rs < k"
  by (induction k rule: nat_induct_non_zero) auto

text \<open>The revisions that rebuild a state are the same in a list and in its kept suffix.\<close>

definition replay :: "nat \<Rightarrow> Revision list \<Rightarrow> Revision list" where
  "replay cutoff rs = take (cutoff - start_index cutoff rs) (drop (start_index cutoff rs) rs)"

lemma replay_suffix:
  assumes "0 < k" "k \<le> length post" "pre \<noteq> [] \<longrightarrow> Rev_Kind (hd post) = RevisionKindCheckpoint"
  shows "replay (length pre + k) (pre @ post) = replay k post"
proof (cases "pre = []")
  case False
  with start_index_append [OF assms(1,2)] assms(3) show ?thesis by (simp add: replay_def)
qed simp

lemma reconstruct_replay:
  "reconstructNoteDocument env yj a ws n i db =
     bind_res (workspaceSession ws a) (\<lambda>entry. bind_res (verifyNoteInWorkspace ws n db) (\<lambda>_.
       case (if ID_IsZero i then Some (length (ListRevisions n db)) else cutoff_index i (ListRevisions n db)) of
         None \<Rightarrow> Inl (AccStore StoreNotFound)
       | Some cutoff \<Rightarrow> apply_revisions env yj entry ws n (replay cutoff (ListRevisions n db)) (yj_new yj)))"
  by (auto simp: reconstructNoteDocument_def replay_def Let_def split: option.splits intro!: arg_cong2 [where f = bind_res] ext)

lemma pruned_cutoff:
  assumes split: "rs = pre @ post" "pre \<noteq> [] \<longrightarrow> post \<noteq> [] \<and> Rev_Kind (hd post) = RevisionKindCheckpoint"
    and ids: "distinct (map Rev_ID rs)" and listed: "ID_IsZero i \<or> i \<in> Rev_ID ` set post"
  shows "map_option (\<lambda>k. replay k rs) (if ID_IsZero i then Some (length rs) else cutoff_index i rs)
    = map_option (\<lambda>k. replay k post) (if ID_IsZero i then Some (length post) else cutoff_index i post)"
proof (cases "pre = []")
  case pre: False
  show ?thesis
  proof (cases "ID_IsZero i")
    case True
    with pre split replay_suffix [of "length post" post pre] show ?thesis by simp
  next
    case False
    with listed obtain k where k: "cutoff_index i post = Some k" using cutoff_index_None [of i post] by fastforce
    have "i \<notin> Rev_ID ` set pre" using ids listed False split(1) by auto
    with k cutoff_index_bounds [OF k] pre split False show ?thesis
      by (simp add: cutoff_index_append replay_suffix)
  qed
qed (use split in simp)

lemma ListRevisions_pruned: "ListRevisions n (snd (PruneRevisions c db)) = pruned c (ListRevisions n db)"
  by (simp add: PruneRevisions_def ListRevisions_def pruned_note)

lemma ListRevisions_suffix:
  "\<exists>pre. ListRevisions n db = pre @ pruned c (ListRevisions n db) \<and>
     (pre \<noteq> [] \<longrightarrow> pruned c (ListRevisions n db) \<noteq> [] \<and> prunable_base c n (hd (pruned c (ListRevisions n db))))"
  by (rule pruned_suffix) (simp add: ListRevisions_def list_all_iff)

lemma reconstruct_pruned:
  assumes "distinct (map Rev_ID (nd_revisions db))" "ID_IsZero i \<or> i \<in> Rev_ID ` set (pruned c (ListRevisions n db))"
  shows "reconstructNoteDocument env yj b ws n i (snd (PruneRevisions c db)) = reconstructNoteDocument env yj b ws n i db"
proof -
  obtain pre where pre: "ListRevisions n db = pre @ pruned c (ListRevisions n db)"
    "pre \<noteq> [] \<longrightarrow> pruned c (ListRevisions n db) \<noteq> [] \<and> Rev_Kind (hd (pruned c (ListRevisions n db))) = RevisionKindCheckpoint"
    using ListRevisions_suffix [of n db c] by (auto simp: prunable_base_def)
  have d: "distinct (map Rev_ID (ListRevisions n db))" using assms(1) by (simp add: ListRevisions_def distinct_map_filter)
  have v: "verifyNoteInWorkspace ws n (snd (PruneRevisions c db)) = verifyNoteInWorkspace ws n db"
    by (simp add: verifyNoteInWorkspace_def Store_GetNote_def PruneRevisions_def)
  from pruned_cutoff [OF pre d assms(2)] show ?thesis
    unfolding reconstruct_replay ListRevisions_pruned v
    by (auto split: option.splits if_splits intro!: arg_cong2 [where f = bind_res] ext)
qed

text \<open>
  Pruning removes only history that nothing listed depends on. Every revision that is still
  listed afterwards, and the latest state, is rebuilt to the same document as before, whoever
  rebuilds it; and if the revisions of the note were made in order, every revision of the last
  seven days is still listed.
\<close>

lemma PruneRevisionHistory_keeps:
  assumes ids: "distinct (map Rev_ID (nd_revisions db))" and run: "PruneRevisionHistory now a db = (r, db')"
    and ordered: "sorted (map (\<lambda>v. uint (Rev_CreatedUnixMS v)) (ListRevisions n db))"
    and listed: "ID_IsZero i \<or> list_ex (\<lambda>v. Rev_ID v = i) (ListRevisions n db')"
  shows "reconstructNoteDocument env yj b ws n i db' = reconstructNoteDocument env yj b ws n i db \<and>
    filter (\<lambda>v. (now - noteRevisionRetention) div 1000000 < uint (Rev_CreatedUnixMS v)) (ListRevisions n db')
      = filter (\<lambda>v. (now - noteRevisionRetention) div 1000000 < uint (Rev_CreatedUnixMS v)) (ListRevisions n db)"
proof (cases "ac_locked a")
  case False
  let ?c = "(now - noteRevisionRetention) div 1000000"
  from False run have db': "db' = snd (PruneRevisions ?c db)" by (auto simp: PruneRevisionHistory_def split: prod.splits)
  have "reconstructNoteDocument env yj b ws n i db' = reconstructNoteDocument env yj b ws n i db"
    unfolding db' using ids
  proof (rule reconstruct_pruned)
    show "ID_IsZero i \<or> i \<in> Rev_ID ` set (pruned ?c (ListRevisions n db))"
      using listed unfolding db' ListRevisions_pruned by (auto simp: list_ex_iff)
  qed
  moreover obtain pre where pre: "ListRevisions n db = pre @ pruned ?c (ListRevisions n db)"
    "pre \<noteq> [] \<longrightarrow> pruned ?c (ListRevisions n db) \<noteq> [] \<and> prunable_base ?c n (hd (pruned ?c (ListRevisions n db)))"
    using ListRevisions_suffix by blast
  have "filter (\<lambda>v. ?c < uint (Rev_CreatedUnixMS v)) pre = []"
  proof (cases "pre = []")
    case ne: False
    then obtain h rest where h: "pruned ?c (ListRevisions n db) = h # rest" "uint (Rev_CreatedUnixMS h) \<le> ?c"
      using pre(2) by (cases "pruned ?c (ListRevisions n db)") (auto simp: prunable_base_def)
    have "sorted (map (\<lambda>v. uint (Rev_CreatedUnixMS v)) (pre @ h # rest))" using ordered pre(1) h(1) by metis
    then have "\<forall>v \<in> set pre. uint (Rev_CreatedUnixMS v) \<le> uint (Rev_CreatedUnixMS h)" by (simp add: sorted_append)
    with h(2) show ?thesis by (fastforce simp: filter_empty_conv)
  qed simp
  then have "filter (\<lambda>v. ?c < uint (Rev_CreatedUnixMS v)) (pre @ pruned ?c (ListRevisions n db))
      = filter (\<lambda>v. ?c < uint (Rev_CreatedUnixMS v)) (pruned ?c (ListRevisions n db))" by simp
  ultimately show ?thesis using pre(1) by (metis ListRevisions_pruned db')
qed (use run in \<open>auto simp: PruneRevisionHistory_def\<close>)

definition demo_revision :: "byte \<Rightarrow> nat \<Rightarrow> u64 \<Rightarrow> Revision" where
  "demo_revision i kind t = \<lparr>Rev_ID = demo_id i, Rev_NoteID = demo_id 4, Rev_Kind = kind, Rev_Format = FormatV2,
     Rev_Data = replicate 16 3 @ replicate 24 0 @ [1] @ replicate 16 7, Rev_CreatedUnixMS = t\<rparr>"

definition demo_history :: note_db where
  "demo_history = demo_notes\<lparr>nd_revisions := [demo_revision 5 RevisionKindDelta 1, demo_revision 6 RevisionKindCheckpoint 2, demo_revision 7 RevisionKindDelta 3]\<rparr>"

definition pruned_history :: note_db where
  "pruned_history = demo_history\<lparr>nd_revisions := [demo_revision 6 RevisionKindCheckpoint 2, demo_revision 7 RevisionKindDelta 3]\<rparr>"

lemma demo_prune: "PruneRevisionHistory (noteRevisionRetention + 2000000) demo_account demo_history = (Inr 1, pruned_history)"
  by (simp add: PruneRevisionHistory_def PruneRevisions_def demo_account_def demo_history_def pruned_history_def prunable_base_def demo_revision_def)

text \<open>
  A revision is opened with the current workspace key only: after a rotation the older
  revisions cannot be rebuilt, although the account still holds the key they were sealed with.
\<close>

lemma revision_needs_current_key:
  "UnpackAndOpenObject demo_crypto (Some (replicate 32 7)) (object_metadata (demo_id 2) (demo_id 4) ObjectTypeRevision []) (Rev_Data (demo_revision 5 2 1)) = Inr [1]"
  "applyRevision demo_crypto yj \<lparr>ke_KeyID = replicate 16 4, ke_Key = Some (replicate 32 8), ke_State = 1\<rparr> (demo_id 2) (demo_id 4) (demo_revision 5 2 1) doc
     = Inl (AccCrypto ErrCiphertextAuthentication)"
proof -
  let ?m = "object_metadata (demo_id 2) (demo_id 4) ObjectTypeRevision (replicate 16 3)"
  have m: "ObjectMetadata_validate ?m = Inr ()"
    by (simp add: ObjectMetadata_validate_def object_metadata_def ObjectTypeRevision_def validObjectType_def)
  then obtain aad where aad: "CanonicalObjectAAD ?m = Inr aad" by (auto simp: CanonicalObjectAAD_def Let_def)
  have k: "object_key demo_crypto (Some (replicate 32 x)) ?m = Inr (replicate 32 x)" for x
    using object_key_total [OF demo_crypto_laws m, of "replicate 32 x"] m
    by (auto simp: object_key_def DeriveWorkspaceObjectKey_def deriveHKDF_def Let_def demo_crypto_def split: if_splits)
  have u: "UnpackAndOpenObject demo_crypto (Some (replicate 32 x)) (object_metadata (demo_id 2) (demo_id 4) ObjectTypeRevision []) (Rev_Data (demo_revision 5 2 1))
      = openXChaCha demo_crypto (Some (replicate 32 x)) (replicate 24 0) ([1] @ replicate 16 7) aad" for x
    using m aad k
    by (simp add: UnpackAndOpenObject_def OpenObject_def EncryptedObject_validate_def demo_revision_def MaxCiphertextBytes_def MaxSecretBytes_def object_metadata_def del: replicate_Suc)
  show "UnpackAndOpenObject demo_crypto (Some (replicate 32 7)) (object_metadata (demo_id 2) (demo_id 4) ObjectTypeRevision []) (Rev_Data (demo_revision 5 2 1)) = Inr [1]"
    unfolding u by (simp add: openXChaCha_def demo_crypto_def TakeSecret_def MaxCiphertextBytes_def MaxSecretBytes_def Let_def)
  show "applyRevision demo_crypto yj \<lparr>ke_KeyID = replicate 16 4, ke_Key = Some (replicate 32 8), ke_State = 1\<rparr> (demo_id 2) (demo_id 4) (demo_revision 5 2 1) doc
     = Inl (AccCrypto ErrCiphertextAuthentication)"
    unfolding applyRevision_def workspaceKeyEntry.select_convs u by (simp add: openXChaCha_def demo_crypto_def MaxCiphertextBytes_def MaxSecretBytes_def Let_def)
qed

end
