(* ===== verification/Attachment_Encryption.thy ===== *)
theory Attachment_Encryption
  imports Object_Encryption
begin

text \<open>
  Attachment encryption: \<^verbatim>\<open>core/crypto/attachment.go\<close>. A file is identified by an HMAC of its
  contents under a key of the workspace, and encrypted in chunks of 4 MiB, each with a key and
  associated data of its own. SHA-256 and HMAC are arguments beside the \<open>crypto_env\<close>; a reader
  is the list of the results of its \<^verbatim>\<open>Read\<close> calls (of at most 64 KiB, the buffer), a destination tells for each write how many
  bytes it took. The context is not cancelled. Sizes stay below the limit of 2 GiB, which every
  step checks, and are natural numbers.
\<close>

section \<open>Data\<close>

datatype attachment_error =
  AttCrypto crypto_error | ErrAttachmentVerification | ErrNonceReuse | ErrDuplicateChunkIndex | AttRead | AttNoProgress | AttWrite | AttShortWrite

abbreviation in_att :: "crypto_error + 'a \<Rightarrow> attachment_error + 'a" where
  "in_att r \<equiv> map_sum AttCrypto id r"

abbreviation AttachmentChunkBytes :: nat where "AttachmentChunkBytes \<equiv> 4194304"
abbreviation MaxAttachmentChunks :: nat where "MaxAttachmentChunks \<equiv> 512"
abbreviation MaxAttachmentPlaintextBytes :: nat where "MaxAttachmentPlaintextBytes \<equiv> 2147483648"
abbreviation MaxAttachmentManifestCiphertextBytes :: nat where "MaxAttachmentManifestCiphertextBytes \<equiv> 1048576"

definition MaxAttachmentManifestPlaintextBytes :: nat where
  "MaxAttachmentManifestPlaintextBytes = MaxAttachmentManifestCiphertextBytes - AEADTagBytes"

definition MaxAttachmentChunkCiphertext :: nat where
  "MaxAttachmentChunkCiphertext = AttachmentChunkBytes + AEADTagBytes"

record EncryptedAttachmentManifest =
  EM_Metadata :: AttachmentMetadata
  EM_Nonce :: bytes
  EM_Ciphertext :: bytes

record EncryptedAttachmentChunk =
  EC_Metadata :: AttachmentChunkMetadata
  EC_Nonce :: bytes
  EC_Ciphertext :: bytes
  EC_CiphertextSHA256 :: bytes

record AttachmentChunkSealer =
  sl_usedNonces :: "bytes list"
  sl_usedIndexes :: "u32 list"
  sl_failed :: "attachment_error option"

definition NewAttachmentChunkSealer :: AttachmentChunkSealer where
  "NewAttachmentChunkSealer = \<lparr>sl_usedNonces = [], sl_usedIndexes = [], sl_failed = None\<rparr>"

section \<open>Identity\<close>

datatype read_status = ReadMore | ReadEOF | ReadFailed

text \<open>The loop of \<open>ComputeBlobID\<close>: the bytes so far are what the HMAC has absorbed. An exhausted reader is at its end.\<close>

fun absorb :: "bytes \<Rightarrow> (bytes \<times> read_status) list \<Rightarrow> attachment_error + bytes" where
  "absorb seen [] = Inr seen"
| "absorb seen ((data, status) # reads) =
     (if data \<noteq> [] \<and> length seen > MaxAttachmentPlaintextBytes - length data then Inl (AttCrypto ErrAttachmentResourceLimit)
      else case status of
             ReadEOF \<Rightarrow> Inr (seen @ data)
           | ReadFailed \<Rightarrow> Inl AttRead
           | ReadMore \<Rightarrow> if data = [] then Inl AttNoProgress else absorb (seen @ data) reads)"

definition ComputeBlobID ::
  "crypto_env \<Rightarrow> (bytes \<Rightarrow> bytes \<Rightarrow> bytes) \<Rightarrow> string \<Rightarrow> bytes option \<Rightarrow> bytes \<Rightarrow> (bytes \<times> read_status) list \<Rightarrow> attachment_error + bytes \<times> nat" where
  "ComputeBlobID env hmac profile workspaceKey workspaceID reads =
     (if profile \<noteq> CryptoProfileV1 then Inl (AttCrypto ErrUnsupportedCryptoProfile)
      else bind_res (in_att (DeriveBlobIDKey (ce_hkdf env) profile workspaceKey workspaceID)) (\<lambda>blobIDKey.
           bind_res (absorb [] reads) (\<lambda>seen. Inr (hmac blobIDKey seen, length seen))))"

section \<open>Manifests\<close>

definition EncryptedAttachmentManifest_validate :: "EncryptedAttachmentManifest \<Rightarrow> crypto_error + unit" where
  "EncryptedAttachmentManifest_validate envelope =
     bind_res (AttachmentMetadata_validate (EM_Metadata envelope)) (\<lambda>_.
       if length (EM_Nonce envelope) \<noteq> XChaCha20NonceBytes \<or> length (EM_Ciphertext envelope) < AEADTagBytes \<or>
          MaxAttachmentManifestCiphertextBytes < length (EM_Ciphertext envelope)
       then Inl ErrInvalidEncryptionMetadata else Inr ())"

definition EncryptManifest ::
  "crypto_env \<Rightarrow> bytes option \<Rightarrow> AttachmentMetadata \<Rightarrow> bytes option \<Rightarrow> bytes option \<Rightarrow> crypto_error + EncryptedAttachmentManifest" where
  "EncryptManifest env workspaceKey m canonicalManifest random =
     bind_res (AttachmentMetadata_validate m) (\<lambda>_.
     case canonicalManifest of
       None \<Rightarrow> Inl ErrSecretClosed
     | Some manifest \<Rightarrow>
         if MaxAttachmentManifestPlaintextBytes < length manifest then Inl ErrAttachmentResourceLimit
         else
           bind_res (CanonicalAttachmentManifestAAD m) (\<lambda>aad.
           bind_res (DeriveBlobManifestKey (ce_hkdf env) (AM_CryptoProfile m) workspaceKey (AM_BlobID m)) (\<lambda>key.
           bind_res (sealXChaCha env (Some key) canonicalManifest aad random) (\<lambda>(nonce, ciphertext).
             Inr \<lparr>EM_Metadata = m, EM_Nonce = nonce, EM_Ciphertext = ciphertext\<rparr>))))"

definition OpenManifest :: "crypto_env \<Rightarrow> bytes option \<Rightarrow> EncryptedAttachmentManifest \<Rightarrow> crypto_error + bytes" where
  "OpenManifest env workspaceKey envelope =
     bind_res (EncryptedAttachmentManifest_validate envelope) (\<lambda>_.
     bind_res (CanonicalAttachmentManifestAAD (EM_Metadata envelope)) (\<lambda>aad.
     bind_res (DeriveBlobManifestKey (ce_hkdf env) (AM_CryptoProfile (EM_Metadata envelope)) workspaceKey (AM_BlobID (EM_Metadata envelope))) (\<lambda>key.
       openXChaCha env (Some key) (EM_Nonce envelope) (EM_Ciphertext envelope) aad)))"

section \<open>Chunks\<close>

definition EncryptedAttachmentChunk_validate :: "EncryptedAttachmentChunk \<Rightarrow> crypto_error + unit" where
  "EncryptedAttachmentChunk_validate chunk =
     bind_res (AttachmentChunkMetadata_validate (EC_Metadata chunk)) (\<lambda>_.
       if length (EC_Nonce chunk) \<noteq> XChaCha20NonceBytes \<or> length (EC_CiphertextSHA256 chunk) \<noteq> 32 \<or>
          length (EC_Ciphertext chunk) \<noteq> unat (CM_PlaintextSize (EC_Metadata chunk)) + AEADTagBytes
       then Inl ErrInvalidEncryptionMetadata else Inr ())"

definition reserveNonce :: "u32 \<Rightarrow> bytes option \<Rightarrow> AttachmentChunkSealer \<Rightarrow> (attachment_error + bytes) \<times> AttachmentChunkSealer" where
  "reserveNonce index random s =
     (case sl_failed s of
        Some e \<Rightarrow> (Inl e, s)
      | None \<Rightarrow>
          if MaxAttachmentChunks \<le> length (sl_usedIndexes s) then (Inl (AttCrypto ErrAttachmentResourceLimit), s)
          else if index \<in> set (sl_usedIndexes s) then (Inl ErrDuplicateChunkIndex, s)
          else case random of
                 None \<Rightarrow> (Inl (AttCrypto ErrRandomSource), s\<lparr>sl_failed := Some (AttCrypto ErrRandomSource)\<rparr>)
               | Some nonce \<Rightarrow>
                   if length nonce \<noteq> XChaCha20NonceBytes then (Inl (AttCrypto ErrRandomSource), s\<lparr>sl_failed := Some (AttCrypto ErrRandomSource)\<rparr>)
                   else if nonce \<in> set (sl_usedNonces s) then (Inl ErrNonceReuse, s\<lparr>sl_failed := Some ErrNonceReuse\<rparr>)
                   else (Inr nonce, s\<lparr>sl_usedIndexes := index # sl_usedIndexes s, sl_usedNonces := nonce # sl_usedNonces s\<rparr>))"

definition sealXChaChaWithNonce :: "crypto_env \<Rightarrow> bytes option \<Rightarrow> bytes \<Rightarrow> bytes \<Rightarrow> bytes \<Rightarrow> crypto_error + bytes" where
  "sealXChaChaWithNonce env key plaintext nonce aad =
     (case key of
        None \<Rightarrow> Inl ErrSecretClosed
      | Some keyBytes \<Rightarrow>
          if length nonce \<noteq> XChaCha20NonceBytes then Inl ErrInvalidEncryptionMetadata
          else if length keyBytes \<noteq> 32 then Inl ErrInvalidEncryptionKey
          else Inr (ce_seal env keyBytes nonce plaintext aad))"

definition openXChaChaBytes :: "crypto_env \<Rightarrow> bytes option \<Rightarrow> bytes \<Rightarrow> bytes \<Rightarrow> bytes \<Rightarrow> nat \<Rightarrow> crypto_error + bytes" where
  "openXChaChaBytes env key nonce ciphertext aad maxCiphertext =
     (case key of
        None \<Rightarrow> Inl ErrSecretClosed
      | Some keyBytes \<Rightarrow>
          if length nonce \<noteq> XChaCha20NonceBytes \<or> length ciphertext < AEADTagBytes \<or> maxCiphertext < length ciphertext
          then Inl ErrInvalidEncryptionMetadata
          else if length keyBytes \<noteq> 32 then Inl ErrInvalidEncryptionKey
          else (case ce_open env keyBytes nonce ciphertext aad of None \<Rightarrow> Inl ErrCiphertextAuthentication | Some plaintext \<Rightarrow> Inr plaintext))"

definition chunk_metadata :: "AttachmentMetadata \<Rightarrow> u32 \<Rightarrow> bytes \<Rightarrow> AttachmentChunkMetadata" where
  "chunk_metadata m index plaintext = \<lparr>CM_CryptoProfile = AM_CryptoProfile m, CM_WorkspaceID = AM_WorkspaceID m, CM_BlobID = AM_BlobID m,
     CM_KeyID = AM_KeyID m, CM_ChunkIndex = index, CM_PlaintextSize = word_of_nat (length plaintext)\<rparr>"

definition chunk_key :: "crypto_env \<Rightarrow> bytes option \<Rightarrow> AttachmentChunkMetadata \<Rightarrow> crypto_error + bytes" where
  "chunk_key env workspaceKey m = DeriveBlobChunkKey (ce_hkdf env) (CM_CryptoProfile m) workspaceKey (CM_BlobID m) (ucast (CM_ChunkIndex m))"

definition SealChunk ::
  "crypto_env \<Rightarrow> (bytes \<Rightarrow> bytes) \<Rightarrow> bytes option \<Rightarrow> AttachmentMetadata \<Rightarrow> u32 \<Rightarrow> bytes \<Rightarrow> bytes option \<Rightarrow> AttachmentChunkSealer
   \<Rightarrow> (attachment_error + EncryptedAttachmentChunk) \<times> AttachmentChunkSealer" where
  "SealChunk env sha256 workspaceKey m index plaintext random s =
     (case AttachmentMetadata_validate m of
        Inl e \<Rightarrow> (Inl (AttCrypto e), s)
      | Inr _ \<Rightarrow>
          if 512 \<le> index \<or> AttachmentChunkBytes < length plaintext then (Inl (AttCrypto ErrAttachmentResourceLimit), s)
          else let cm = chunk_metadata m index plaintext in
            (case CanonicalAttachmentChunkAAD cm of
               Inl e \<Rightarrow> (Inl (AttCrypto e), s)
             | Inr aad \<Rightarrow>
                 (case reserveNonce index random s of
                    (Inl e, s) \<Rightarrow> (Inl e, s)
                  | (Inr nonce, s) \<Rightarrow>
                      (bind_res (in_att (chunk_key env workspaceKey cm)) (\<lambda>key.
                       bind_res (in_att (sealXChaChaWithNonce env (Some key) plaintext nonce aad)) (\<lambda>ciphertext.
                         Inr \<lparr>EC_Metadata = cm, EC_Nonce = nonce, EC_Ciphertext = ciphertext, EC_CiphertextSHA256 = sha256 ciphertext\<rparr>)), s))))"

definition OpenChunk :: "crypto_env \<Rightarrow> (bytes \<Rightarrow> bytes) \<Rightarrow> bytes option \<Rightarrow> EncryptedAttachmentChunk \<Rightarrow> attachment_error + bytes" where
  "OpenChunk env sha256 workspaceKey chunk =
     bind_res (in_att (EncryptedAttachmentChunk_validate chunk)) (\<lambda>_.
     if \<not> equalBytes (sha256 (EC_Ciphertext chunk)) (EC_CiphertextSHA256 chunk) then Inl ErrAttachmentVerification
     else
       bind_res (in_att (CanonicalAttachmentChunkAAD (EC_Metadata chunk))) (\<lambda>aad.
       bind_res (in_att (chunk_key env workspaceKey (EC_Metadata chunk))) (\<lambda>key.
       bind_res (in_att (openXChaChaBytes env (Some key) (EC_Nonce chunk) (EC_Ciphertext chunk) aad MaxAttachmentChunkCiphertext)) (\<lambda>plaintext.
         if length plaintext \<noteq> unat (CM_PlaintextSize (EC_Metadata chunk)) then Inl ErrAttachmentVerification else Inr plaintext))))"

definition chunkMatchesAttachment :: "AttachmentChunkMetadata \<Rightarrow> AttachmentMetadata \<Rightarrow> u32 \<Rightarrow> bool" where
  "chunkMatchesAttachment chunk attachment expectedIndex \<longleftrightarrow>
     CM_CryptoProfile chunk = AM_CryptoProfile attachment \<and> CM_ChunkIndex chunk = expectedIndex \<and>
     equalBytes (CM_WorkspaceID chunk) (AM_WorkspaceID attachment) \<and> equalBytes (CM_BlobID chunk) (AM_BlobID attachment) \<and>
     equalBytes (CM_KeyID chunk) (AM_KeyID attachment)"

text \<open>
  The loop of \<open>VerifyAttachment\<close>: \<open>count\<close> is the number of all chunks, \<open>seen\<close> what the HMAC has
  absorbed, \<open>out\<close> what the destination has received.
\<close>

type_synonym destination = "nat \<Rightarrow> bytes \<Rightarrow> nat option"

fun verify_chunks ::
  "crypto_env \<Rightarrow> (bytes \<Rightarrow> bytes) \<Rightarrow> destination \<Rightarrow> bytes option \<Rightarrow> AttachmentMetadata \<Rightarrow> nat \<Rightarrow> nat \<Rightarrow> EncryptedAttachmentChunk list \<Rightarrow> bytes \<Rightarrow> bytes
   \<Rightarrow> (attachment_error + bytes) \<times> bytes" where
  "verify_chunks env sha256 dst workspaceKey m count index [] seen out = (Inr seen, out)"
| "verify_chunks env sha256 dst workspaceKey m count index (chunk # chunks) seen out =
     (let size = CM_PlaintextSize (EC_Metadata chunk) in
      if \<not> chunkMatchesAttachment (EC_Metadata chunk) m (word_of_nat index) then (Inl ErrAttachmentVerification, out)
      else if count > 1 \<and> (index < count - 1 \<and> size \<noteq> 4194304 \<or> size = 0) then (Inl ErrAttachmentVerification, out)
      else case OpenChunk env sha256 workspaceKey chunk of
             Inl e \<Rightarrow> (Inl e, out)
           | Inr plaintext \<Rightarrow>
               if length seen > MaxAttachmentPlaintextBytes - length plaintext then (Inl (AttCrypto ErrAttachmentResourceLimit), out)
               else case dst index plaintext of
                      None \<Rightarrow> (Inl AttWrite, out)
                    | Some written \<Rightarrow>
                        if written \<noteq> unat size then (Inl AttShortWrite, out @ take written plaintext)
                        else verify_chunks env sha256 dst workspaceKey m count (index + 1) chunks (seen @ plaintext) (out @ plaintext))"

definition VerifyAttachment ::
  "crypto_env \<Rightarrow> (bytes \<Rightarrow> bytes) \<Rightarrow> (bytes \<Rightarrow> bytes \<Rightarrow> bytes) \<Rightarrow> destination \<Rightarrow> bytes option \<Rightarrow> AttachmentMetadata \<Rightarrow> EncryptedAttachmentChunk list
   \<Rightarrow> (attachment_error + nat) \<times> bytes" where
  "VerifyAttachment env sha256 hmac dst workspaceKey m chunks =
     (case AttachmentMetadata_validate m of
        Inl e \<Rightarrow> (Inl (AttCrypto e), [])
      | Inr _ \<Rightarrow>
          if chunks = [] \<or> MaxAttachmentChunks < length chunks then (Inl ErrAttachmentVerification, [])
          else case DeriveBlobIDKey (ce_hkdf env) (AM_CryptoProfile m) workspaceKey (AM_WorkspaceID m) of
                 Inl e \<Rightarrow> (Inl (AttCrypto e), [])
               | Inr blobIDKey \<Rightarrow>
                   (case verify_chunks env sha256 dst workspaceKey m (length chunks) 0 chunks [] [] of
                      (Inl e, out) \<Rightarrow> (Inl e, out)
                    | (Inr seen, out) \<Rightarrow>
                        if \<not> equalBytes (hmac blobIDKey seen) (AM_BlobID m) then (Inl ErrAttachmentVerification, out)
                        else (Inr (length seen), out)))"

section \<open>Opening inverts sealing\<close>

text \<open>What the code relies on from the two hash functions.\<close>

definition digest_laws :: "(bytes \<Rightarrow> bytes) \<Rightarrow> (bytes \<Rightarrow> bytes \<Rightarrow> bytes) \<Rightarrow> bool" where
  "digest_laws sha256 hmac \<longleftrightarrow> (\<forall>b. length (sha256 b) = 32) \<and> (\<forall>k b. length (hmac k b) = 32)"

lemma reserveNonce_Inr:
  assumes "reserveNonce index random s = (Inr nonce, s')"
  shows "random = Some nonce" "length nonce = 24" "index \<notin> set (sl_usedIndexes s)" "nonce \<notin> set (sl_usedNonces s)" "sl_failed s = None"
    "s' = s\<lparr>sl_usedIndexes := index # sl_usedIndexes s, sl_usedNonces := nonce # sl_usedNonces s\<rparr>"
  using assms by (auto simp: reserveNonce_def split: option.splits if_splits)

lemma SealChunk_Inr:
  assumes "SealChunk env sha256 workspaceKey m index plaintext random s = (Inr chunk, s')"
  obtains aad key where "AttachmentMetadata_validate m = Inr ()" "index < 512" "length plaintext \<le> AttachmentChunkBytes"
    "CanonicalAttachmentChunkAAD (chunk_metadata m index plaintext) = Inr aad" "reserveNonce index random s = (Inr (EC_Nonce chunk), s')"
    "chunk_key env workspaceKey (chunk_metadata m index plaintext) = Inr key" "length key = 32"
    "EC_Metadata chunk = chunk_metadata m index plaintext" "EC_Ciphertext chunk = ce_seal env key (EC_Nonce chunk) plaintext aad"
    "EC_CiphertextSHA256 chunk = sha256 (EC_Ciphertext chunk)"
proof -
  from assms obtain aad where v: "AttachmentMetadata_validate m = Inr ()" "index < 512" "length plaintext \<le> AttachmentChunkBytes"
    and aad: "CanonicalAttachmentChunkAAD (chunk_metadata m index plaintext) = Inr aad"
    by (auto simp: SealChunk_def Let_def not_le split: sum.splits if_splits)
  with assms obtain nonce where n: "reserveNonce index random s = (Inr nonce, s')"
    and r: "bind_res (in_att (chunk_key env workspaceKey (chunk_metadata m index plaintext))) (\<lambda>key.
       bind_res (in_att (sealXChaChaWithNonce env (Some key) plaintext nonce aad)) (\<lambda>ciphertext.
         Inr \<lparr>EC_Metadata = chunk_metadata m index plaintext, EC_Nonce = nonce, EC_Ciphertext = ciphertext, EC_CiphertextSHA256 = sha256 ciphertext\<rparr>)) = Inr chunk"
    by (auto simp: SealChunk_def Let_def not_le split: sum.splits prod.splits if_splits)
  from r obtain key where k: "chunk_key env workspaceKey (chunk_metadata m index plaintext) = Inr key" "length key = 32"
    "chunk = \<lparr>EC_Metadata = chunk_metadata m index plaintext, EC_Nonce = nonce, EC_Ciphertext = ce_seal env key nonce plaintext aad,
       EC_CiphertextSHA256 = sha256 (ce_seal env key nonce plaintext aad)\<rparr>"
    by (auto simp: err_simps sealXChaChaWithNonce_def map_sum_def split: sum.splits if_splits)
  show ?thesis by (rule that [OF v aad _ k(1,2)]) (simp_all add: n k(3))
qed

lemma chunk_size [simp]: "length plaintext \<le> AttachmentChunkBytes \<Longrightarrow> unat (CM_PlaintextSize (chunk_metadata m index plaintext)) = length plaintext"
  by (simp add: chunk_metadata_def unat_of_nat)

lemma chunk_roundtrip:
  assumes laws: "crypto_laws env" "digest_laws sha256 hmac" and s: "SealChunk env sha256 workspaceKey m index plaintext random s = (Inr chunk, s')"
  shows "OpenChunk env sha256 workspaceKey chunk = Inr plaintext"
  using s
proof (cases rule: SealChunk_Inr)
  case (1 aad key)
  from 1(5) have nonce: "length (EC_Nonce chunk) = 24" by (rule reserveNonce_Inr)
  have "AttachmentChunkMetadata_validate (EC_Metadata chunk) = Inr ()" using 1(4,8) by (auto simp: CanonicalAttachmentChunkAAD_def err_simps)
  moreover have "length (EC_Ciphertext chunk) = length plaintext + AEADTagBytes" "ce_open env key (EC_Nonce chunk) (EC_Ciphertext chunk) aad = Some plaintext"
    using laws(1) by (simp_all add: crypto_laws_def 1(9))
  ultimately show ?thesis using nonce laws(2) 1
    by (simp add: OpenChunk_def EncryptedAttachmentChunk_validate_def openXChaChaBytes_def MaxAttachmentChunkCiphertext_def digest_laws_def)
qed

lemma manifest_roundtrip:
  assumes laws: "crypto_laws env" and e: "EncryptManifest env workspaceKey m (Some manifest) random = Inr envelope" and cap: "ce_capacity env manifest \<le> MaxSecretBytes"
  shows "OpenManifest env workspaceKey envelope = Inr manifest" "EM_Metadata envelope = m" "length (EM_Nonce envelope) = 24"
    "AEADTagBytes \<le> length (EM_Ciphertext envelope)"
proof -
  from e obtain aad key where v: "AttachmentMetadata_validate m = Inr ()" "CanonicalAttachmentManifestAAD m = Inr aad"
    "DeriveBlobManifestKey (ce_hkdf env) (AM_CryptoProfile m) workspaceKey (AM_BlobID m) = Inr key" "length manifest \<le> MaxAttachmentManifestPlaintextBytes"
    and s: "sealXChaCha env (Some key) (Some manifest) aad random = Inr (EM_Nonce envelope, EM_Ciphertext envelope)" and m: "EM_Metadata envelope = m"
    by (auto simp: EncryptManifest_def err_simps not_less split: if_splits)
  note so = seal_open [OF laws s cap]
  have "EncryptedAttachmentManifest_validate envelope = Inr ()"
    using so v by (simp add: EncryptedAttachmentManifest_validate_def m MaxAttachmentManifestPlaintextBytes_def)
  then show "OpenManifest env workspaceKey envelope = Inr manifest" using so v by (simp add: OpenManifest_def m)
  show "EM_Metadata envelope = m" "length (EM_Nonce envelope) = 24" "AEADTagBytes \<le> length (EM_Ciphertext envelope)"
    using m so by simp_all
qed

section \<open>Verifying a sequence of chunks\<close>

fun sealed_from ::
  "crypto_env \<Rightarrow> (bytes \<Rightarrow> bytes) \<Rightarrow> bytes option \<Rightarrow> AttachmentMetadata \<Rightarrow> nat \<Rightarrow> bytes list \<Rightarrow> EncryptedAttachmentChunk list \<Rightarrow> bool" where
  "sealed_from env sha256 workspaceKey m i [] [] \<longleftrightarrow> True"
| "sealed_from env sha256 workspaceKey m i (p # ps) (c # cs) \<longleftrightarrow>
     EC_Metadata c = chunk_metadata m (word_of_nat i) p \<and> length p \<le> AttachmentChunkBytes \<and> OpenChunk env sha256 workspaceKey c = Inr p \<and>
     sealed_from env sha256 workspaceKey m (i + 1) ps cs"
| "sealed_from env sha256 workspaceKey m i _ _ \<longleftrightarrow> False"

lemma sealed_from_length: "sealed_from env sha256 workspaceKey m i ps cs \<Longrightarrow> length cs = length ps"
  by (induction env sha256 workspaceKey m i ps cs rule: sealed_from.induct) auto

text \<open>All chunks but the last are full, and with more than one chunk none is empty.\<close>

definition chunk_layout :: "nat \<Rightarrow> nat \<Rightarrow> bytes list \<Rightarrow> bool" where
  "chunk_layout count index pieces \<longleftrightarrow> (count > 1 \<longrightarrow>
     (\<forall>k < length pieces. (index + k < count - 1 \<longrightarrow> length (pieces ! k) = AttachmentChunkBytes) \<and> pieces ! k \<noteq> []))"

lemma chunk_layout_Cons: "chunk_layout count index (p # ps) \<longleftrightarrow>
    (count > 1 \<longrightarrow> (index < count - 1 \<longrightarrow> length p = AttachmentChunkBytes) \<and> p \<noteq> []) \<and> chunk_layout count (index + 1) ps"
  by (auto simp: chunk_layout_def less_Suc_eq_0_disj)

text \<open>A destination that takes everything.\<close>

definition whole_writes :: destination where
  "whole_writes i p = Some (length p)"

lemma verify_chunks_complete:
  assumes "sealed_from env sha256 workspaceKey m index ps cs" "chunk_layout count index ps" "length (seen @ concat ps) \<le> MaxAttachmentPlaintextBytes"
  shows "verify_chunks env sha256 whole_writes workspaceKey m count index cs seen out = (Inr (seen @ concat ps), out @ concat ps)"
  using assms
proof (induction env sha256 workspaceKey m index ps cs arbitrary: seen out rule: sealed_from.induct)
  case (2 env sha256 workspaceKey m i p ps c cs)
  from 2(2) have c: "EC_Metadata c = chunk_metadata m (word_of_nat i) p" "length p \<le> AttachmentChunkBytes" "OpenChunk env sha256 workspaceKey c = Inr p"
    and rest: "sealed_from env sha256 workspaceKey m (i + 1) ps cs" by auto
  from 2(3) have lay: "count > 1 \<Longrightarrow> (i < count - 1 \<longrightarrow> length p = AttachmentChunkBytes) \<and> p \<noteq> []" "chunk_layout count (i + 1) ps"
    by (auto simp: chunk_layout_Cons)
  have match: "chunkMatchesAttachment (EC_Metadata c) m (word_of_nat i)" by (simp add: c(1) chunkMatchesAttachment_def chunk_metadata_def)
  have size: "unat (CM_PlaintextSize (EC_Metadata c)) = length p" using c(2) by (simp add: c(1))
  have "CM_PlaintextSize (EC_Metadata c) = 4194304 \<longleftrightarrow> length p = AttachmentChunkBytes" "CM_PlaintextSize (EC_Metadata c) = 0 \<longleftrightarrow> p = []"
    using size by (auto simp: unat_eq_zero word_unat_eq_iff)
  then have ok: "\<not> (count > 1 \<and> (i < count - 1 \<and> CM_PlaintextSize (EC_Metadata c) \<noteq> 4194304 \<or> CM_PlaintextSize (EC_Metadata c) = 0))"
    using lay(1) by auto
  have "verify_chunks env sha256 whole_writes workspaceKey m count (i + 1) cs (seen @ p) (out @ p) = (Inr ((seen @ p) @ concat ps), (out @ p) @ concat ps)"
    using 2(4) by (intro "2.IH" [OF rest lay(2)]) simp
  moreover have "\<not> length seen > MaxAttachmentPlaintextBytes - length p" using 2(4) by simp
  moreover have "whole_writes i p = Some (length p)" by (simp add: whole_writes_def)
  ultimately show ?case using match ok size by (simp add: c(3) Let_def)
qed simp_all

lemma verify_chunks_sound:
  assumes "verify_chunks env sha256 dst workspaceKey m count index cs seen out = (Inr seen', out')"
  shows "\<exists>ps. seen' = seen @ concat ps \<and> out' = out @ concat ps \<and> length ps = length cs \<and>
    (\<forall>k < length cs. OpenChunk env sha256 workspaceKey (cs ! k) = Inr (ps ! k) \<and> chunkMatchesAttachment (EC_Metadata (cs ! k)) m (word_of_nat (index + k)))"
  using assms
proof (induction cs arbitrary: index seen out)
  case (Cons c cs)
  from Cons.prems obtain p where p: "OpenChunk env sha256 workspaceKey c = Inr p" "chunkMatchesAttachment (EC_Metadata c) m (word_of_nat index)"
    and rest: "verify_chunks env sha256 dst workspaceKey m count (index + 1) cs (seen @ p) (out @ p) = (Inr seen', out')"
    by (auto simp: Let_def split: if_splits sum.splits option.splits)
  from Cons.IH [OF rest] obtain ps where ps: "seen' = (seen @ p) @ concat ps" "out' = (out @ p) @ concat ps" "length ps = length cs"
    "\<forall>k < length cs. OpenChunk env sha256 workspaceKey (cs ! k) = Inr (ps ! k) \<and> chunkMatchesAttachment (EC_Metadata (cs ! k)) m (word_of_nat (index + 1 + k))"
    by blast
  show ?case
    by (rule exI [of _ "p # ps"]) (use p ps in \<open>auto simp: less_Suc_eq_0_disj ac_simps\<close>)
qed simp

lemma VerifyAttachment_complete:
  assumes "AttachmentMetadata_validate m = Inr ()" "DeriveBlobIDKey (ce_hkdf env) (AM_CryptoProfile m) workspaceKey (AM_WorkspaceID m) = Inr blobIDKey"
    and ps: "sealed_from env sha256 workspaceKey m 0 ps cs" "chunk_layout (length ps) 0 ps" "ps \<noteq> []" "length ps \<le> MaxAttachmentChunks"
      "length (concat ps) \<le> MaxAttachmentPlaintextBytes" "hmac blobIDKey (concat ps) = AM_BlobID m"
  shows "VerifyAttachment env sha256 hmac whole_writes workspaceKey m cs = (Inr (length (concat ps)), concat ps)"
proof -
  have l: "length cs = length ps" by (rule sealed_from_length [OF ps(1)])
  then have "cs \<noteq> []" using ps(3) by auto
  moreover have "verify_chunks env sha256 whole_writes workspaceKey m (length cs) 0 cs [] [] = (Inr (concat ps), concat ps)"
    using verify_chunks_complete [OF ps(1), of "length cs" "[]" "[]"] ps(2,5) l by simp
  ultimately show ?thesis using assms l by (simp add: VerifyAttachment_def)
qed

lemma SealChunk_total:
  assumes "crypto_laws env" "AttachmentMetadata_validate m = Inr ()" "length key = 32" "index < 512" "length plaintext \<le> AttachmentChunkBytes"
    and "length nonce = 24" "sl_failed s = None" "length (sl_usedIndexes s) < 512" "index \<notin> set (sl_usedIndexes s)" "nonce \<notin> set (sl_usedNonces s)"
  shows "\<exists>chunk s'. SealChunk env sha256 (Some key) m index plaintext (Some nonce) s = (Inr chunk, s')"
proof -
  let ?cm = "chunk_metadata m index plaintext"
  have size: "CM_PlaintextSize ?cm \<le> 4194304" using assms(5) by (simp add: chunk_metadata_def word_le_nat_alt unat_of_nat)
  have v: "AttachmentChunkMetadata_validate ?cm = Inr ()"
    using assms(2,4) size by (auto simp: AttachmentChunkMetadata_validate_def AttachmentMetadata_validate_def chunk_metadata_def not_le not_less split: if_splits)
  then obtain aad where "CanonicalAttachmentChunkAAD ?cm = Inr aad" by (simp add: CanonicalAttachmentChunkAAD_def Let_def)
  moreover have "\<exists>k. chunk_key env (Some key) ?cm = Inr k \<and> length k = 32"
    using assms(1-3) by (auto simp: chunk_key_def DeriveBlobChunkKey_def deriveHKDF_def validHKDFDomain_def chunk_metadata_def AttachmentMetadata_validate_def
        crypto_laws_def Let_def split: if_splits)
  ultimately show ?thesis
    using assms(2,4-10) by (auto simp: SealChunk_def reserveNonce_def sealXChaChaWithNonce_def not_le not_less Let_def)
qed

text \<open>
  C37. An attachment is only accepted whole and unchanged. When \<open>VerifyAttachment\<close> succeeds,
  every chunk at position \<open>k\<close> carried the index \<open>k\<close> and the identity of the attachment and was
  authenticated under the key of that position, the destination received the plaintexts in
  this order, the reported size is theirs, and their HMAC under the workspace's key is the
  identifier of the blob.\<close>

theorem VerifyAttachment_sound:
  assumes "VerifyAttachment env sha256 hmac dst workspaceKey m chunks = (Inr n, out)"
  shows "\<exists>ps blobIDKey. out = concat ps \<and> n = length out \<and> length ps = length chunks \<and>
    DeriveBlobIDKey (ce_hkdf env) (AM_CryptoProfile m) workspaceKey (AM_WorkspaceID m) = Inr blobIDKey \<and> hmac blobIDKey out = AM_BlobID m \<and>
    list_all (\<lambda>k. CM_ChunkIndex (EC_Metadata (chunks ! k)) = word_of_nat k \<and> CM_BlobID (EC_Metadata (chunks ! k)) = AM_BlobID m \<and>
      OpenChunk env sha256 workspaceKey (chunks ! k) = Inr (ps ! k)) [0..<length chunks]"
proof -
  from assms obtain key seen where k: "DeriveBlobIDKey (ce_hkdf env) (AM_CryptoProfile m) workspaceKey (AM_WorkspaceID m) = Inr key"
    and v: "verify_chunks env sha256 dst workspaceKey m (length chunks) 0 chunks [] [] = (Inr seen, out)" and h: "hmac key seen = AM_BlobID m" "n = length seen"
    by (auto simp: VerifyAttachment_def split: sum.splits if_splits prod.splits)
  from verify_chunks_sound [OF v] obtain ps where ps: "seen = concat ps" "out = concat ps" "length ps = length chunks"
    and each: "\<And>j. j < length chunks \<Longrightarrow> OpenChunk env sha256 workspaceKey (chunks ! j) = Inr (ps ! j) \<and> chunkMatchesAttachment (EC_Metadata (chunks ! j)) m (word_of_nat j)"
    by auto
  show ?thesis
    by (rule exI [of _ ps], rule exI [of _ key]) (use k h ps each in \<open>auto simp: list_all_iff chunkMatchesAttachment_def\<close>)
qed

definition demo_attachment :: AttachmentMetadata where
  "demo_attachment = \<lparr>AM_SchemaVersion = 1, AM_CryptoProfile = CryptoProfileV1, AM_WorkspaceID = replicate 16 1, AM_BlobID = replicate 32 0, AM_KeyID = replicate 16 3\<rparr>"

lemma demo_attachment_valid: "AttachmentMetadata_validate demo_attachment = Inr ()"
  by (simp add: AttachmentMetadata_validate_def demo_attachment_def)

lemma demo_digest_laws: "digest_laws (\<lambda>_. replicate 32 0) (\<lambda>_ _. replicate 32 0)"
  by (simp add: digest_laws_def)

theorem VerifyAttachment_sound_witness:
  "\<exists>chunk ps. VerifyAttachment demo_crypto (\<lambda>_. replicate 32 0) (\<lambda>_ _. replicate 32 0) whole_writes (Some (replicate 32 7)) demo_attachment [chunk] = (Inr 3, [1, 2, 3]) \<and>
     concat ps = ([1, 2, 3] :: bytes)"
proof -
  let ?key = "Some (replicate 32 7)" and ?sha = "\<lambda>_. replicate 32 0" and ?hmac = "\<lambda>_ _. replicate 32 0"
  obtain chunk s' where c: "SealChunk demo_crypto ?sha ?key demo_attachment 0 [1, 2, 3] (Some (replicate 24 0)) NewAttachmentChunkSealer = (Inr chunk, s')"
    using SealChunk_total [OF demo_crypto_laws demo_attachment_valid, of "replicate 32 7" 0 "[1, 2, 3]" "replicate 24 0" NewAttachmentChunkSealer ?sha]
    by (auto simp: NewAttachmentChunkSealer_def)
  have "OpenChunk demo_crypto ?sha ?key chunk = Inr [1, 2, 3]" by (rule chunk_roundtrip [OF demo_crypto_laws demo_digest_laws c])
  moreover have "EC_Metadata chunk = chunk_metadata demo_attachment 0 [1, 2, 3]" using c by (rule SealChunk_Inr)
  ultimately have sealed: "sealed_from demo_crypto ?sha ?key demo_attachment 0 [[1, 2, 3]] [chunk]" by simp
  obtain k where k: "DeriveBlobIDKey (ce_hkdf demo_crypto) (AM_CryptoProfile demo_attachment) ?key (AM_WorkspaceID demo_attachment) = Inr k"
    by (simp add: DeriveBlobIDKey_def deriveHKDF_def validHKDFDomain_def demo_attachment_def Let_def)
  have v: "VerifyAttachment demo_crypto ?sha ?hmac whole_writes ?key demo_attachment [chunk] = (Inr 3, [1, 2, 3])"
    using VerifyAttachment_complete [OF demo_attachment_valid k sealed, of ?hmac] by (simp add: chunk_layout_def demo_attachment_def)
  from VerifyAttachment_sound [OF v] obtain ps :: "bytes list" where "[1, 2, 3] = concat ps" by blast
  then have "concat ps = [1, 2, 3]" by simp
  with v show ?thesis by blast
qed

section \<open>Nonces\<close>

text \<open>A sealer over a sequence of calls: the chunks of the successful ones.\<close>

fun seal_run ::
  "crypto_env \<Rightarrow> (bytes \<Rightarrow> bytes) \<Rightarrow> (bytes option \<times> AttachmentMetadata \<times> u32 \<times> bytes \<times> bytes option) list \<Rightarrow> AttachmentChunkSealer \<Rightarrow> EncryptedAttachmentChunk list" where
  "seal_run env sha256 [] s = []"
| "seal_run env sha256 ((key, m, index, plaintext, random) # calls) s =
     (case SealChunk env sha256 key m index plaintext random s of
        (Inl e, s) \<Rightarrow> seal_run env sha256 calls s
      | (Inr chunk, s) \<Rightarrow> chunk # seal_run env sha256 calls s)"

lemma SealChunk_grows:
  assumes "SealChunk env sha256 key m index plaintext random s = (r, s')"
  shows "set (sl_usedNonces s) \<subseteq> set (sl_usedNonces s')" "set (sl_usedIndexes s) \<subseteq> set (sl_usedIndexes s')"
  using assms by (auto simp: SealChunk_def reserveNonce_def Let_def split: sum.splits if_splits option.splits prod.splits)

lemma seal_run_fresh:
  "c \<in> set (seal_run env sha256 calls s) \<Longrightarrow> EC_Nonce c \<notin> set (sl_usedNonces s) \<and> CM_ChunkIndex (EC_Metadata c) \<notin> set (sl_usedIndexes s)"
proof (induction env sha256 calls s rule: seal_run.induct)
  case (2 env sha256 key m index plaintext random calls s)
  obtain r s' where r: "SealChunk env sha256 key m index plaintext random s = (r, s')" by (cases "SealChunk env sha256 key m index plaintext random s")
  note g = SealChunk_grows [OF r]
  show ?case
  proof (cases r)
    case (Inl e)
    with r 2 g show ?thesis by auto
  next
    case (Inr chunk)
    show ?thesis
    proof (cases "c = chunk")
      case True
      from r Inr have "SealChunk env sha256 key m index plaintext random s = (Inr chunk, s')" by simp
      then show ?thesis by (rule SealChunk_Inr) (use True in \<open>auto simp: chunk_metadata_def dest: reserveNonce_Inr\<close>)
    next
      case False
      with r Inr 2 g show ?thesis by auto
    qed
  qed
qed simp

lemma SealChunk_marks:
  assumes "SealChunk env sha256 key m index plaintext random s = (Inr chunk, s')"
  shows "EC_Nonce chunk \<in> set (sl_usedNonces s') \<and> CM_ChunkIndex (EC_Metadata chunk) \<in> set (sl_usedIndexes s')"
  using assms
proof (cases rule: SealChunk_Inr)
  case (1 aad k)
  from reserveNonce_Inr(6) [OF 1(5)] 1(8) show ?thesis by (simp add: chunk_metadata_def)
qed

text \<open>
  C38. One sealer never uses a nonce twice and never seals two chunks with the same index, over
  any sequence of calls and whatever its random source delivers.\<close>

theorem sealer_never_reuses:
  "distinct (map EC_Nonce (seal_run env sha256 calls s)) \<and> distinct (map (\<lambda>c. CM_ChunkIndex (EC_Metadata c)) (seal_run env sha256 calls s))"
proof (induction env sha256 calls s rule: seal_run.induct)
  case (2 env sha256 key m index plaintext random calls s)
  obtain r s' where r: "SealChunk env sha256 key m index plaintext random s = (r, s')" by (cases "SealChunk env sha256 key m index plaintext random s")
  show ?case
  proof (cases r)
    case (Inl e)
    with r 2 show ?thesis by simp
  next
    case (Inr chunk)
    with r have s: "SealChunk env sha256 key m index plaintext random s = (Inr chunk, s')" by simp
    have "EC_Nonce chunk \<notin> EC_Nonce ` set (seal_run env sha256 calls s')"
      "CM_ChunkIndex (EC_Metadata chunk) \<notin> (\<lambda>c. CM_ChunkIndex (EC_Metadata c)) ` set (seal_run env sha256 calls s')"
      using SealChunk_marks [OF s] by (auto dest: seal_run_fresh)
    with 2(2) [OF s [symmetric] refl] s show ?thesis by simp
  qed
qed simp

end
