(* ===== verification/Attachments.thy ===== *)
theory Attachments
  imports Attachment_Encryption Delivery
begin

text \<open>
  Attachments of an account: \<^verbatim>\<open>core/account/attachments.go\<close> over the blob files of
  \<^verbatim>\<open>core/store/blob.go\<close>. Adding a file stages it, identifies it by its contents, encrypts it
  in chunks into one published file, records an encrypted manifest and writes the reference
  of the note as a signed operation; reading goes the other way and verifies everything.
  The published files are a map from blob identifiers to contents: \<open>BlobStore_Publish\<close> writes a temporary
  file and renames it, so a file is there completely or not at all. The nonces are arguments, the
  reader of the plaintext is its contents, \<open>None\<close> when reading fails.
\<close>

section \<open>Published files\<close>

type_synonym blob_dir = "bytes \<rightharpoonup> bytes"

definition ParseBlobID :: "bytes \<Rightarrow> account_error + bytes" where
  "ParseBlobID value = (if length value \<noteq> BlobIDBytes then Inl (AccPlain ''invalid blob ID length'') else Inr value)"

definition BlobStore_Exists :: "bytes \<Rightarrow> blob_dir \<Rightarrow> bool" where
  "BlobStore_Exists blobID files \<longleftrightarrow> files blobID \<noteq> None"

text \<open>The argument is the outcome of the writer, which is not called when the file exists.\<close>

definition BlobStore_Publish :: "bytes \<Rightarrow> account_error + bytes \<Rightarrow> blob_dir \<Rightarrow> (account_error + bool) \<times> blob_dir" where
  "BlobStore_Publish blobID content files =
     (if BlobStore_Exists blobID files then (Inr False, files)
      else case content of Inl e \<Rightarrow> (Inl e, files) | Inr written \<Rightarrow> (Inr True, files(blobID \<mapsto> written)))"

definition BlobStore_Open :: "bytes \<Rightarrow> blob_dir \<Rightarrow> account_error + bytes" where
  "BlobStore_Open blobID files = (case files blobID of None \<Rightarrow> Inl (AccStore StoreNotFound) | Some content \<Rightarrow> Inr content)"

section \<open>Errors and checks\<close>

fun att_error :: "attachment_error \<Rightarrow> account_error" where
  "att_error (AttCrypto e) = AccCrypto e"
| "att_error ErrAttachmentVerification = AccPlain ''attachment verification failed''"
| "att_error ErrNonceReuse = AccPlain ''nonce reuse detected''"
| "att_error ErrDuplicateChunkIndex = AccPlain ''duplicate attachment chunk index''"
| "att_error AttRead = AccPlain ''read attachment plaintext''"
| "att_error AttNoProgress = AccPlain ''no progress''"
| "att_error AttWrite = AccPlain ''write verified attachment plaintext''"
| "att_error AttShortWrite = AccPlain ''short write''"

abbreviation in_attachment :: "attachment_error + 'a \<Rightarrow> account_error + 'a" where
  "in_attachment r \<equiv> map_sum att_error id r"

abbreviation ErrInvalidAttachmentMetadata :: account_error where
  "ErrInvalidAttachmentMetadata \<equiv> AccPlain ''invalid attachment metadata''"

abbreviation ErrAttachmentBlobOrphaned :: account_error where
  "ErrAttachmentBlobOrphaned \<equiv> AccPlain ''attachment content already published without a manifest''"

abbreviation ErrAttachmentUnavailable :: account_error where
  "ErrAttachmentUnavailable \<equiv> AccPlain ''attachment content is not available on this device''"

abbreviation ErrInvalidAttachmentManifest :: account_error where
  "ErrInvalidAttachmentManifest \<equiv> AccPlain ''invalid attachment manifest payload''"

definition CheckAttachmentSize :: "u64 \<Rightarrow> account_error + unit" where
  "CheckAttachmentSize sourceSizeBytes =
     (if 2147483648 < sourceSizeBytes then Inl (AccPlain ''attachment exceeds the maximum supported size'') else Inr ())"

definition CheckAttachmentCapacity :: "u64 \<Rightarrow> u64 \<Rightarrow> account_error + unit" where
  "CheckAttachmentCapacity free sourceSizeBytes =
     (let estimated = sourceSizeBytes * 11 div 5 in
      if free < estimated then Inl (AccPlain ''insufficient free space for attachment'') else Inr ())"

text \<open>
  The control characters of Unicode are those below 20, 7F, and 80 to 9F, which UTF-8 writes as
  C2 80 to C2 9F. No other character contains these bytes, and a malformed byte is read as
  the replacement character, so the text can be scanned byte by byte.
\<close>

fun name_forbidden :: "bytes \<Rightarrow> bool" where
  "name_forbidden [] \<longleftrightarrow> False"
| "name_forbidden (b # bs) \<longleftrightarrow>
     b = 0x2F \<or> b = 0x5C \<or> b < 0x20 \<or> b = 0x7F \<or>
     b = 0xC2 \<and> (case bs of [] \<Rightarrow> False | c # _ \<Rightarrow> 0x80 \<le> c \<and> c \<le> 0x9F) \<or> name_forbidden bs"

definition validateAttachmentDisplayName :: "string \<Rightarrow> account_error + unit" where
  "validateAttachmentDisplayName name =
     (if length name = 0 \<or> 1024 < length name then Inl ErrInvalidAttachmentMetadata
      else if name_forbidden (str_bytes name) then Inl ErrInvalidAttachmentMetadata else Inr ())"

definition validateAttachmentMediaType :: "string \<Rightarrow> account_error + unit" where
  "validateAttachmentMediaType mediaType = (if length mediaType = 0 \<or> 255 < length mediaType then Inl ErrInvalidAttachmentMetadata else Inr ())"

section \<open>Manifest payload\<close>

record attachmentChunkRecord =
  cr_nonce :: bytes
  cr_ciphertextSize :: u32
  cr_plaintextSize :: u32
  cr_ciphertextSHA256 :: bytes

record attachmentManifestPayload =
  mp_plaintextSize :: u64
  mp_mediaType :: string
  mp_displayName :: string
  mp_chunks :: "attachmentChunkRecord list"

abbreviation attachmentChunkRecordBytes :: nat where "attachmentChunkRecordBytes \<equiv> 64"

definition appendShortString :: "bytes \<Rightarrow> string \<Rightarrow> bytes" where
  "appendShortString dst s = dst @ be_bytes 2 (word_of_nat (length s) :: 16 word) @ str_bytes s"

definition readShortString :: "bytes \<Rightarrow> account_error + string \<times> bytes" where
  "readShortString data =
     (if length data < 2 then Inl ErrInvalidAttachmentManifest
      else let n = unat (be_word (take 2 data) :: 16 word); rest = drop 2 data in
        if length rest < n then Inl ErrInvalidAttachmentManifest else Inr (bytes_str (take n rest), drop n rest))"

definition enc_record :: "attachmentChunkRecord \<Rightarrow> bytes" where
  "enc_record c = cr_nonce c @ be_bytes 4 (cr_ciphertextSize c) @ be_bytes 4 (cr_plaintextSize c) @ cr_ciphertextSHA256 c"

definition encodeAttachmentManifest :: "attachmentManifestPayload \<Rightarrow> account_error + bytes" where
  "encodeAttachmentManifest payload =
     (if mp_chunks payload = [] \<or> MaxAttachmentChunks < length (mp_chunks payload) then Inl ErrInvalidAttachmentManifest
      else Inr (appendShortString (appendShortString ([1] @ be_bytes 8 (mp_plaintextSize payload)) (mp_mediaType payload)) (mp_displayName payload)
             @ be_bytes 4 (word_of_nat (length (mp_chunks payload)) :: u32) @ concat (map enc_record (mp_chunks payload))))"

fun read_records :: "nat \<Rightarrow> bytes \<Rightarrow> attachmentChunkRecord list" where
  "read_records 0 rest = []"
| "read_records (Suc n) rest =
     \<lparr>cr_nonce = take 24 rest, cr_ciphertextSize = be_word (take 4 (drop 24 rest)), cr_plaintextSize = be_word (take 4 (drop 28 rest)),
      cr_ciphertextSHA256 = take 32 (drop 32 rest)\<rparr> # read_records n (drop 64 rest)"

definition decodeAttachmentManifest :: "bytes \<Rightarrow> account_error + attachmentManifestPayload" where
  "decodeAttachmentManifest data =
     (if length data < 1 + 8 + 2 then Inl ErrInvalidAttachmentManifest
      else if hd data \<noteq> 1 then Inl ErrInvalidAttachmentManifest
      else
        bind_res (readShortString (drop 9 data)) (\<lambda>(mediaType, rest).
        bind_res (readShortString rest) (\<lambda>(displayName, rest).
        if length rest < 4 then Inl ErrInvalidAttachmentManifest
        else let chunkCount = unat (be_word (take 4 rest) :: u32); rest = drop 4 rest in
          if chunkCount = 0 \<or> MaxAttachmentChunks < chunkCount then Inl ErrInvalidAttachmentManifest
          else if length rest \<noteq> chunkCount * attachmentChunkRecordBytes then Inl ErrInvalidAttachmentManifest
          else Inr \<lparr>mp_plaintextSize = be_word (take 8 (drop 1 data)), mp_mediaType = mediaType, mp_displayName = displayName,
                    mp_chunks = read_records chunkCount rest\<rparr>)))"

definition attachment_metadata :: "ID \<Rightarrow> bytes \<Rightarrow> bytes \<Rightarrow> AttachmentMetadata" where
  "attachment_metadata workspaceID blobID keyID = \<lparr>AM_SchemaVersion = 1, AM_CryptoProfile = CryptoProfileV1, AM_WorkspaceID = ID_Bytes workspaceID,
     AM_BlobID = blobID, AM_KeyID = keyID\<rparr>"

definition openAttachmentManifest :: "crypto_env \<Rightarrow> bytes option \<Rightarrow> AttachmentMetadata \<Rightarrow> bytes \<Rightarrow> account_error + attachmentManifestPayload" where
  "openAttachmentManifest env workspaceKey m manifestBlob =
     (if length manifestBlob < XChaCha20NonceBytes + AEADTagBytes then Inl ErrInvalidAttachmentManifest
      else
        bind_res (in_crypto (OpenManifest env workspaceKey
          \<lparr>EM_Metadata = m, EM_Nonce = take XChaCha20NonceBytes manifestBlob, EM_Ciphertext = drop XChaCha20NonceBytes manifestBlob\<rparr>))
          decodeAttachmentManifest)"

section \<open>Adding\<close>

definition stagePlaintext :: "bytes option \<Rightarrow> account_error + bytes" where
  "stagePlaintext plaintext =
     (case plaintext of
        None \<Rightarrow> Inl (AccPlain ''stage attachment plaintext'')
      | Some content \<Rightarrow> if MaxAttachmentPlaintextBytes < length content then Inl (AccCrypto ErrAttachmentResourceLimit) else Inr content)"

text \<open>Reading a file in blocks; \<open>n\<close> is positive.\<close>

function blocks :: "nat \<Rightarrow> bytes \<Rightarrow> bytes list" where
  "blocks n content = (if content = [] \<or> n = 0 then [] else take n content # blocks n (drop n content))"
  by pat_completeness auto
termination
  by (relation "measure (\<lambda>(n, content). length content)") (auto simp: neq_Nil_conv)

declare blocks.simps [simp del]

definition file_reads :: "bytes \<Rightarrow> (bytes \<times> read_status) list" where
  "file_reads content = map (\<lambda>b. (b, ReadMore)) (blocks 65536 content)"

definition file_pieces :: "bytes \<Rightarrow> bytes list" where
  "file_pieces content = (if content = [] then [[]] else blocks AttachmentChunkBytes content)"

definition sealAndWriteChunk ::
  "crypto_env \<Rightarrow> (bytes \<Rightarrow> bytes) \<Rightarrow> bytes option \<Rightarrow> AttachmentMetadata \<Rightarrow> u32 \<Rightarrow> bytes \<Rightarrow> bytes option \<Rightarrow> AttachmentChunkSealer
   \<Rightarrow> account_error + (bytes \<times> attachmentChunkRecord) \<times> AttachmentChunkSealer" where
  "sealAndWriteChunk env sha256 key m index plaintext random s =
     (case SealChunk env sha256 key m index plaintext random s of
        (Inl e, s) \<Rightarrow> Inl (att_error e)
      | (Inr sealed, s) \<Rightarrow>
          Inr ((EC_Ciphertext sealed, \<lparr>cr_nonce = EC_Nonce sealed, cr_ciphertextSize = word_of_nat (length (EC_Ciphertext sealed)),
             cr_plaintextSize = word_of_nat (length plaintext), cr_ciphertextSHA256 = EC_CiphertextSHA256 sealed\<rparr>), s))"

fun write_pieces ::
  "crypto_env \<Rightarrow> (bytes \<Rightarrow> bytes) \<Rightarrow> (nat \<Rightarrow> bytes option) \<Rightarrow> bytes option \<Rightarrow> AttachmentMetadata \<Rightarrow> nat \<Rightarrow> bytes list \<Rightarrow> AttachmentChunkSealer
   \<Rightarrow> account_error + bytes \<times> attachmentChunkRecord list" where
  "write_pieces env sha256 nonces key m index [] s = Inr ([], [])"
| "write_pieces env sha256 nonces key m index (p # ps) s =
     bind_res (sealAndWriteChunk env sha256 key m (word_of_nat index) p (nonces index) s) (\<lambda>((ciphertext, rec), s).
     bind_res (write_pieces env sha256 nonces key m (index + 1) ps s) (\<lambda>(rest, recs). Inr (ciphertext @ rest, rec # recs)))"

definition publishAndRecordAttachment ::
  "crypto_env \<Rightarrow> (bytes \<Rightarrow> bytes) \<Rightarrow> (nat \<Rightarrow> bytes option) \<Rightarrow> bytes option \<Rightarrow> int \<Rightarrow> workspaceKeyEntry \<Rightarrow> ID \<Rightarrow> bytes \<Rightarrow> bytes \<Rightarrow> nat \<Rightarrow> string \<Rightarrow> string
   \<Rightarrow> note_db \<Rightarrow> blob_dir \<Rightarrow> (account_error + attachment_row \<times> note_db) \<times> blob_dir" where
  "publishAndRecordAttachment env sha256 nonces manifestNonce nowUnixMS entry workspaceID blobID staged totalSize displayName mediaType db files =
     (let m = attachment_metadata workspaceID blobID (ke_KeyID entry);
          written = write_pieces env sha256 nonces (ke_Key entry) m 0 (file_pieces staged) NewAttachmentChunkSealer;
          (published, files1) = BlobStore_Publish blobID (map_sum id fst written) files
      in case published of
           Inl e \<Rightarrow> (Inl e, files1)
         | Inr fresh_file \<Rightarrow>
             let chunks = (if fresh_file then (case written of Inl _ \<Rightarrow> [] | Inr (_, recs) \<Rightarrow> recs) else []) in
             (bind_res (encodeAttachmentManifest \<lparr>mp_plaintextSize = word_of_nat totalSize, mp_mediaType = mediaType, mp_displayName = displayName, mp_chunks = chunks\<rparr>) (\<lambda>manifestPlaintext.
              bind_res (in_crypto (TakeSecret env manifestPlaintext)) (\<lambda>manifestSecret.
              bind_res (in_crypto (EncryptManifest env (ke_Key entry) m (Some manifestSecret) manifestNonce)) (\<lambda>envelope.
                in_store (CreateAttachment workspaceID blobID (ke_KeyID entry) (EM_Nonce envelope @ EM_Ciphertext envelope) (word_of_nat totalSize)
                  (word_of_nat (length chunks)) nowUnixMS db)))), files1))"

definition attachment_operation :: "ID \<Rightarrow> bytes \<Rightarrow> bool \<Rightarrow> NoteMetadataOperation" where
  "attachment_operation noteID blobID present = (zero_metadata noteID NoteMetadataKindAttachment)\<lparr>NM_AttachmentBlobID := blobID, NM_AttachmentPresent := present\<rparr>"

text \<open>The row for the staged file: an existing one, or a new one after publishing.\<close>

definition find_or_publish ::
  "crypto_env \<Rightarrow> (bytes \<Rightarrow> bytes) \<Rightarrow> (nat \<Rightarrow> bytes option) \<Rightarrow> bytes option \<Rightarrow> int \<Rightarrow> workspaceKeyEntry \<Rightarrow> ID \<Rightarrow> bytes \<Rightarrow> bytes \<Rightarrow> nat \<Rightarrow> string \<Rightarrow> string
   \<Rightarrow> note_db \<Rightarrow> blob_dir \<Rightarrow> (account_error + attachment_row \<times> note_db) \<times> blob_dir" where
  "find_or_publish env sha256 nonces manifestNonce nowUnixMS entry workspaceID blobID staged totalSize displayName mediaType db files =
     (let publish = (if BlobStore_Exists blobID files then (Inl ErrAttachmentBlobOrphaned, files)
            else publishAndRecordAttachment env sha256 nonces manifestNonce nowUnixMS entry workspaceID blobID staged totalSize displayName mediaType db files)
      in case Store_GetAttachment blobID db of
           Inr attachment \<Rightarrow>
             if at_workspace attachment \<noteq> workspaceID then (Inl (AccStore StoreWrongWorkspace), files)
             else if at_manifest attachment = [] then publish
             else (Inr (attachment, db), files)
         | Inl e \<Rightarrow> if e = StoreNotFound then publish else (Inl (AccStore e), files))"

definition AddAttachment ::
  "crypto_env \<Rightarrow> (bytes \<Rightarrow> bytes) \<Rightarrow> (bytes \<Rightarrow> bytes \<Rightarrow> bytes) \<Rightarrow> (nat \<Rightarrow> bytes option) \<Rightarrow> bytes option \<Rightarrow> fresh \<Rightarrow> int \<Rightarrow> int \<Rightarrow> ID \<Rightarrow> ID \<Rightarrow> string \<Rightarrow> string
   \<Rightarrow> bytes option \<Rightarrow> Account \<Rightarrow> account_db \<Rightarrow> blob_dir \<Rightarrow> (account_error + attachment_row) \<times> Account \<times> account_db \<times> blob_dir" where
  "AddAttachment env sha256 hmac nonces manifestNonce new nowUnixMS unixMilli workspaceID noteID displayName mediaType plaintext a db files =
     (case bind_res (validateAttachmentDisplayName displayName) (\<lambda>_.
           bind_res (validateAttachmentMediaType mediaType) (\<lambda>_.
           bind_res (workspaceSession workspaceID a) (\<lambda>entry.
           bind_res (verifyNoteInWorkspace workspaceID noteID (db_notes db)) (\<lambda>_.
           bind_res (stagePlaintext plaintext) (\<lambda>staged.
           bind_res (in_attachment (ComputeBlobID env hmac CryptoProfileV1 (ke_Key entry) (ID_Bytes workspaceID) (file_reads staged))) (\<lambda>(blobIDBytes, totalSize).
           bind_res (ParseBlobID blobIDBytes) (\<lambda>blobID. Inr (entry, staged, blobID, totalSize)))))))) of
        Inl e \<Rightarrow> (Inl e, a, db, files)
      | Inr (entry, staged, blobID, totalSize) \<Rightarrow>
          (case find_or_publish env sha256 nonces manifestNonce nowUnixMS entry workspaceID blobID staged totalSize displayName mediaType (db_notes db) files of
             (Inl e, files) \<Rightarrow> (Inl e, a, db, files)
           | (Inr (attachment, notes'), files) \<Rightarrow>
               let db = db\<lparr>db_notes := notes'\<rparr> in
               (case commitNoteMetadata env new unixMilli workspaceID (attachment_operation noteID blobID True)
                   (\<lambda>clock. SetNoteAttachment noteID blobID True clock (sint (PhysicalMS clock))) a db of
                  (Inl e, a) \<Rightarrow> (Inl e, a, db, files)
                | (Inr db, a) \<Rightarrow> (Inr attachment, a, db, files))))"

definition RemoveAttachment ::
  "crypto_env \<Rightarrow> fresh \<Rightarrow> int \<Rightarrow> ID \<Rightarrow> ID \<Rightarrow> bytes \<Rightarrow> Account \<Rightarrow> account_db \<Rightarrow> (account_error + account_db) \<times> Account" where
  "RemoveAttachment env new unixMilli workspaceID noteID blobID =
     commitNoteMetadata env new unixMilli workspaceID (attachment_operation noteID blobID False)
       (\<lambda>clock. SetNoteAttachment noteID blobID False clock (sint (PhysicalMS clock)))"

section \<open>Reading\<close>

fun read_chunks :: "AttachmentMetadata \<Rightarrow> nat \<Rightarrow> attachmentChunkRecord list \<Rightarrow> bytes \<Rightarrow> account_error + EncryptedAttachmentChunk list" where
  "read_chunks m i [] file = Inr []"
| "read_chunks m i (rec # recs) file =
     (let size = unat (cr_ciphertextSize rec) in
      if length file < size then Inl (AccPlain ''read attachment chunk'')
      else
        bind_res (read_chunks m (i + 1) recs (drop size file)) (\<lambda>chunks.
          Inr (\<lparr>EC_Metadata = \<lparr>CM_CryptoProfile = AM_CryptoProfile m, CM_WorkspaceID = AM_WorkspaceID m, CM_BlobID = AM_BlobID m, CM_KeyID = AM_KeyID m,
                 CM_ChunkIndex = word_of_nat i, CM_PlaintextSize = cr_plaintextSize rec\<rparr>,
               EC_Nonce = cr_nonce rec, EC_Ciphertext = take size file, EC_CiphertextSHA256 = cr_ciphertextSHA256 rec\<rparr> # chunks)))"

definition readAttachmentFrom ::
  "crypto_env \<Rightarrow> (bytes \<Rightarrow> bytes) \<Rightarrow> (bytes \<Rightarrow> bytes \<Rightarrow> bytes) \<Rightarrow> destination \<Rightarrow> bytes option \<Rightarrow> ID \<Rightarrow> bytes \<Rightarrow> note_db \<Rightarrow> blob_dir
   \<Rightarrow> (account_error + string \<times> string) \<times> bytes" where
  "readAttachmentFrom env sha256 hmac dst workspaceKey workspaceID blobID db files =
     (case bind_res (in_store (Store_GetAttachment blobID db)) (\<lambda>row.
           if at_workspace row \<noteq> workspaceID then Inl (AccStore StoreWrongWorkspace)
           else if at_manifest row = [] then Inl ErrAttachmentUnavailable
           else let m = attachment_metadata workspaceID blobID (at_key row) in
             bind_res (openAttachmentManifest env workspaceKey m (at_manifest row)) (\<lambda>payload.
             bind_res (BlobStore_Open blobID files) (\<lambda>blobFile.
             bind_res (read_chunks m 0 (mp_chunks payload) blobFile) (\<lambda>chunks. Inr (m, payload, chunks))))) of
        Inl e \<Rightarrow> (Inl e, [])
      | Inr (m, payload, chunks) \<Rightarrow>
          (case VerifyAttachment env sha256 hmac dst workspaceKey m chunks of
             (Inl e, out) \<Rightarrow> (Inl (att_error e), out)
           | (Inr _, out) \<Rightarrow> (Inr (mp_displayName payload, mp_mediaType payload), out)))"

definition ReadAttachment ::
  "crypto_env \<Rightarrow> (bytes \<Rightarrow> bytes) \<Rightarrow> (bytes \<Rightarrow> bytes \<Rightarrow> bytes) \<Rightarrow> destination \<Rightarrow> ID \<Rightarrow> bytes \<Rightarrow> Account \<Rightarrow> note_db \<Rightarrow> blob_dir
   \<Rightarrow> (account_error + string \<times> string) \<times> bytes" where
  "ReadAttachment env sha256 hmac dst workspaceID blobID a db files =
     (case workspaceSession workspaceID a of
        Inl e \<Rightarrow> (Inl e, [])
      | Inr entry \<Rightarrow> readAttachmentFrom env sha256 hmac dst (ke_Key entry) workspaceID blobID db files)"

record AttachmentInfo =
  ai_BlobID :: bytes
  ai_DisplayName :: string
  ai_MediaType :: string
  ai_SizeBytes :: u64

fun attachment_infos :: "crypto_env \<Rightarrow> bytes option \<Rightarrow> ID \<Rightarrow> note_db \<Rightarrow> bytes list \<Rightarrow> account_error + AttachmentInfo list" where
  "attachment_infos env workspaceKey workspaceID db [] = Inr []"
| "attachment_infos env workspaceKey workspaceID db (blobID # blobIDs) =
     bind_res (in_store (Store_GetAttachment blobID db)) (\<lambda>row.
     if at_workspace row \<noteq> workspaceID then Inl (AccStore StoreWrongWorkspace)
     else if at_manifest row = [] then attachment_infos env workspaceKey workspaceID db blobIDs
     else
       bind_res (openAttachmentManifest env workspaceKey (attachment_metadata workspaceID blobID (at_key row)) (at_manifest row)) (\<lambda>payload.
       bind_res (attachment_infos env workspaceKey workspaceID db blobIDs) (\<lambda>infos.
         Inr (\<lparr>ai_BlobID = blobID, ai_DisplayName = mp_displayName payload, ai_MediaType = mp_mediaType payload, ai_SizeBytes = mp_plaintextSize payload\<rparr> # infos))))"

definition ListNoteAttachments :: "crypto_env \<Rightarrow> ID \<Rightarrow> ID \<Rightarrow> Account \<Rightarrow> note_db \<Rightarrow> account_error + AttachmentInfo list" where
  "ListNoteAttachments env workspaceID noteID a db =
     bind_res (workspaceSession workspaceID a) (\<lambda>entry.
     bind_res (verifyNoteInWorkspace workspaceID noteID db) (\<lambda>_.
       attachment_infos env (ke_Key entry) workspaceID db (NoteAttachmentBlobIDs noteID db)))"

section \<open>The manifest payload is read as it was written\<close>

definition record_ok :: "attachmentChunkRecord \<Rightarrow> bool" where
  "record_ok c \<longleftrightarrow> length (cr_nonce c) = 24 \<and> length (cr_ciphertextSHA256 c) = 32"

lemma be_word_full: "LENGTH('a) = 8 * n \<Longrightarrow> be_word (be_bytes n (v :: 'a::len word)) = v"
  using unsigned_less [of v, where ?'a = nat] by (simp add: be_word_be_bytes power_mult)

lemma be_word4 [simp]: "be_word (be_bytes 4 (v :: u32)) = v"
  by (rule be_word_full) simp

lemma length_enc_record: "record_ok c \<Longrightarrow> length (enc_record c) = 64"
  by (simp add: record_ok_def enc_record_def)

lemma read_records_Cons: "record_ok c \<Longrightarrow> read_records (Suc n) (enc_record c @ rest) = c # read_records n rest"
  by (cases c) (simp add: record_ok_def enc_record_def)

lemma read_records_enc: "list_all record_ok cs \<Longrightarrow> read_records (length cs) (concat (map enc_record cs)) = cs"
proof (induction cs)
  case (Cons c cs)
  then show ?case using read_records_Cons [of c "length cs" "concat (map enc_record cs)"] by (simp del: read_records.simps)
qed simp

lemma length_enc_records: "list_all record_ok cs \<Longrightarrow> length (concat (map enc_record cs)) = length cs * 64"
  by (induction cs) (simp_all add: length_enc_record)

lemma readShortString_append:
  assumes "length s < 65536"
  shows "readShortString (be_bytes 2 (word_of_nat (length s) :: 16 word) @ str_bytes s @ rest) = Inr (s, rest)"
proof -
  have "be_word (be_bytes 2 (word_of_nat (length s) :: 16 word)) = (word_of_nat (length s) :: 16 word)"
    by (rule be_word_full) simp
  moreover have "unat (word_of_nat (length s) :: 16 word) = length s" using assms by (simp add: unat_of_nat)
  ultimately show ?thesis by (simp add: readShortString_def)
qed

lemma manifest_payload_roundtrip:
  assumes e: "encodeAttachmentManifest p = Inr b" and s: "length (mp_mediaType p) < 65536" "length (mp_displayName p) < 65536"
    and r: "list_all record_ok (mp_chunks p)"
  shows "decodeAttachmentManifest b = Inr p"
proof -
  let ?n = "length (mp_chunks p)" and ?records = "concat (map enc_record (mp_chunks p))"
  let ?tail = "be_bytes 4 (word_of_nat ?n :: u32) @ ?records"
  let ?names = "be_bytes 2 (word_of_nat (length (mp_mediaType p)) :: 16 word) @ str_bytes (mp_mediaType p) @
     be_bytes 2 (word_of_nat (length (mp_displayName p)) :: 16 word) @ str_bytes (mp_displayName p) @ ?tail"
  from e have n: "?n \<noteq> 0" "?n \<le> 512" and b: "b = 1 # be_bytes 8 (mp_plaintextSize p) @ ?names"
    by (auto simp: encodeAttachmentManifest_def appendShortString_def split: if_splits)
  have count: "unat (word_of_nat ?n :: u32) = ?n" using n by (simp add: unat_of_nat)
  have size: "be_word (be_bytes 8 (mp_plaintextSize p)) = mp_plaintextSize p"
    by (rule be_word_full) simp
  have b9: "drop 9 b = ?names" "hd b = 1" "take 8 (drop 1 b) = be_bytes 8 (mp_plaintextSize p)" "\<not> length b < 11" by (simp_all add: b)
  show ?thesis
    unfolding decodeAttachmentManifest_def b9 readShortString_append [OF s(1)]
    using n by (simp add: b9 readShortString_append [OF s(2)] count size length_enc_records [OF r] read_records_enc [OF r])
qed


section \<open>Reading a file in blocks\<close>

lemma blocks_Nil [simp]: "blocks n [] = []"
  by (simp add: blocks.simps)

lemma blocks_Cons: "content \<noteq> [] \<Longrightarrow> 0 < n \<Longrightarrow> blocks n content = take n content # blocks n (drop n content)"
  by (simp add: blocks.simps [of n content])

lemma concat_blocks: "0 < n \<Longrightarrow> concat (blocks n content) = content"
proof (induction n content rule: blocks.induct)
  case (1 n content)
  then show ?case by (cases "content = []") (simp_all add: blocks_Cons)
qed

lemma block_count_step:
  fixes l n :: nat
  assumes "0 < l" "0 < n"
  shows "(l + n - 1) div n = Suc ((l - n + n - 1) div n)"
proof -
  have eq: "l + n - 1 = (l - 1) + n" using assms by arith
  have "(l - 1) div n = (l - n + n - 1) div n"
  proof (cases "l \<le> n")
    case True
    then have "l - 1 < n" "l - n + n - 1 < n" using assms by arith+
    then show ?thesis by (simp only: div_less)
  next
    case False
    then have "l - n + n - 1 = l - 1" by arith
    then show ?thesis by (simp only:)
  qed
  then show ?thesis unfolding eq using assms by (simp only: div_add_self2)
qed

lemma blocks_length: "0 < n \<Longrightarrow> length (blocks n content) = (length content + n - 1) div n"
proof (induction n content rule: blocks.induct)
  case (1 n content)
  show ?case
  proof (cases "content = []")
    case False
    then have "length (blocks n content) = Suc ((length content - n + n - 1) div n)" using 1 by (simp add: blocks_Cons)
    then show ?thesis using block_count_step [of "length content" n] False 1(2) by simp
  qed (use 1(2) in simp)
qed

lemma blocks_nth:
  assumes "k < length (blocks n content)" "0 < n"
  shows "blocks n content ! k \<noteq> []" "length (blocks n content ! k) \<le> n" "k < length (blocks n content) - 1 \<Longrightarrow> length (blocks n content ! k) = n"
  using assms
proof (induction n content arbitrary: k rule: blocks.induct)
  case (1 n content)
  { case 1
    with "1.IH" show ?case by (cases "content = []"; cases k) (simp_all add: blocks_Cons) }
  { case 2
    with "1.IH" show ?case by (cases "content = []"; cases k) (simp_all add: blocks_Cons) }
  { case 3
    show ?case
    proof (cases "content = []")
      case False
      show ?thesis
      proof (cases k)
        case 0
        with 3 False have "blocks n (drop n content) \<noteq> []" by (simp add: blocks_Cons)
        then have "drop n content \<noteq> []" by auto
        with 0 3 False show ?thesis by (simp add: blocks_Cons)
      next
        case (Suc j)
        with 3 False "1.IH"(3) [of j] show ?thesis by (simp add: blocks_Cons)
      qed
    qed (use 3 in simp) }
qed

lemma absorb_blocks:
  assumes "list_all (\<lambda>b. b \<noteq> []) bs" "length (seen @ concat bs) \<le> MaxAttachmentPlaintextBytes"
  shows "absorb seen (map (\<lambda>b. (b, ReadMore)) bs) = Inr (seen @ concat bs)"
  using assms by (induction bs arbitrary: seen) auto

lemma absorb_file_reads:
  assumes "length content \<le> MaxAttachmentPlaintextBytes"
  shows "absorb [] (file_reads content) = Inr content"
proof -
  have "list_all (\<lambda>b. b \<noteq> []) (blocks 65536 content)" using blocks_nth(1) [of _ 65536 content] by (simp add: list_all_length)
  then show ?thesis using absorb_blocks [of "blocks 65536 content" "[]"] assms by (simp add: file_reads_def concat_blocks)
qed

lemma file_pieces_facts:
  assumes "length content \<le> MaxAttachmentPlaintextBytes"
  shows "concat (file_pieces content) = content" "file_pieces content \<noteq> []" "length (file_pieces content) \<le> MaxAttachmentChunks"
    "chunk_layout (length (file_pieces content)) 0 (file_pieces content)"
proof -
  show "concat (file_pieces content) = content" by (simp add: file_pieces_def concat_blocks)
  show "file_pieces content \<noteq> []" by (simp add: file_pieces_def blocks_Cons)
  show "length (file_pieces content) \<le> MaxAttachmentChunks"
    using assms div_le_mono [of "length content + AttachmentChunkBytes - 1" "MaxAttachmentPlaintextBytes + AttachmentChunkBytes - 1" AttachmentChunkBytes]
    by (simp add: file_pieces_def blocks_length)
  show "chunk_layout (length (file_pieces content)) 0 (file_pieces content)"
    using blocks_nth [of _ AttachmentChunkBytes content] by (auto simp: chunk_layout_def file_pieces_def)
qed


section \<open>The chunks are read as they were written\<close>

lemma sealAndWriteChunk_Inr:
  assumes laws: "crypto_laws env" "digest_laws sha256 hmac"
    and w: "sealAndWriteChunk env sha256 key m index plaintext random s = Inr ((ciphertext, rec), s')"
  shows "record_ok rec" "unat (cr_ciphertextSize rec) = length ciphertext" "length plaintext \<le> AttachmentChunkBytes"
    "OpenChunk env sha256 key \<lparr>EC_Metadata = (chunk_metadata m index plaintext)\<lparr>CM_PlaintextSize := cr_plaintextSize rec\<rparr>, EC_Nonce = cr_nonce rec,
       EC_Ciphertext = ciphertext, EC_CiphertextSHA256 = cr_ciphertextSHA256 rec\<rparr> = Inr plaintext"
    "cr_plaintextSize rec = word_of_nat (length plaintext)"
proof -
  from w obtain chunk where c: "SealChunk env sha256 key m index plaintext random s = (Inr chunk, s')" and ct: "ciphertext = EC_Ciphertext chunk"
    and rec: "rec = \<lparr>cr_nonce = EC_Nonce chunk, cr_ciphertextSize = word_of_nat (length (EC_Ciphertext chunk)),
      cr_plaintextSize = word_of_nat (length plaintext), cr_ciphertextSHA256 = EC_CiphertextSHA256 chunk\<rparr>"
    by (auto simp: sealAndWriteChunk_def split: prod.splits sum.splits)
  from c obtain aad k where v: "length plaintext \<le> AttachmentChunkBytes" "reserveNonce index random s = (Inr (EC_Nonce chunk), s')"
    "EC_Metadata chunk = chunk_metadata m index plaintext" "EC_Ciphertext chunk = ce_seal env k (EC_Nonce chunk) plaintext aad"
    "EC_CiphertextSHA256 chunk = sha256 (EC_Ciphertext chunk)"
    by (rule SealChunk_Inr)
  have l: "length (EC_Ciphertext chunk) = length plaintext + 16" using laws(1) by (simp add: crypto_laws_def v(4))
  show "length plaintext \<le> AttachmentChunkBytes" by (rule v(1))
  show "record_ok rec" using reserveNonce_Inr(2) [OF v(2)] laws(2) by (simp add: record_ok_def rec v(5) digest_laws_def)
  show "unat (cr_ciphertextSize rec) = length ciphertext" 
  proof -
    have "length (EC_Ciphertext chunk) < 4294967296" using v(1) l by simp
    then show ?thesis by (simp add: rec ct unat_of_nat)
  qed
  show "cr_plaintextSize rec = word_of_nat (length plaintext)" by (simp add: rec)
  have "\<lparr>EC_Metadata = (chunk_metadata m index plaintext)\<lparr>CM_PlaintextSize := cr_plaintextSize rec\<rparr>, EC_Nonce = cr_nonce rec,
       EC_Ciphertext = ciphertext, EC_CiphertextSHA256 = cr_ciphertextSHA256 rec\<rparr> = chunk"
    by (cases chunk) (use v(3) in \<open>simp add: rec ct chunk_metadata_def\<close>)
  then show "OpenChunk env sha256 key \<lparr>EC_Metadata = (chunk_metadata m index plaintext)\<lparr>CM_PlaintextSize := cr_plaintextSize rec\<rparr>, EC_Nonce = cr_nonce rec,
       EC_Ciphertext = ciphertext, EC_CiphertextSHA256 = cr_ciphertextSHA256 rec\<rparr> = Inr plaintext"
    using chunk_roundtrip [OF laws c] by simp
qed

lemma write_pieces_read:
  assumes laws: "crypto_laws env" "digest_laws sha256 hmac"
    and w: "write_pieces env sha256 nonces key m i ps s = Inr (content, recs)"
  shows "\<exists>cs. read_chunks m i recs content = Inr cs \<and> sealed_from env sha256 key m i ps cs \<and> list_all record_ok recs \<and> length recs = length ps"
  using w
proof (induction ps arbitrary: i s content recs)
  case (Cons p ps)
  from Cons.prems obtain ciphertext rec s' rest recs' where c: "sealAndWriteChunk env sha256 key m (word_of_nat i) p (nonces i) s = Inr ((ciphertext, rec), s')"
    and r: "write_pieces env sha256 nonces key m (i + 1) ps s' = Inr (rest, recs')" and f: "content = ciphertext @ rest" "recs = rec # recs'"
    by (auto simp: err_simps split: prod.splits)
  note one = sealAndWriteChunk_Inr [OF laws c]
  from Cons.IH [OF r] obtain cs where cs: "read_chunks m (i + 1) recs' rest = Inr cs" "sealed_from env sha256 key m (i + 1) ps cs"
    "list_all record_ok recs'" "length recs' = length ps" by blast
  then show ?case using one(1,2,3,4,5) by (simp add: f chunk_metadata_def)
qed simp

section \<open>What is attached is read back\<close>

abbreviation without_mark :: "attachment_row \<Rightarrow> attachment_row" where
  "without_mark r \<equiv> r\<lparr>at_orphaned := None\<rparr>"

lemma find_without_mark: "map_option without_mark (find (\<lambda>r. at_blob r = b) rows) = find (\<lambda>r. at_blob r = b) (map without_mark rows)"
  by (induction rows) auto

lemma Store_GetAttachment_same:
  assumes "map without_mark (nd_attachments db') = map without_mark (nd_attachments db)" "Store_GetAttachment b db = Inr r"
  shows "\<exists>mark. Store_GetAttachment b db' = Inr (r\<lparr>at_orphaned := mark\<rparr>)"
proof -
  from assms(2) have r: "find (\<lambda>r. at_blob r = b) (nd_attachments db) = Some r" "ID_Validate (at_workspace r) = Inr ()"
    by (auto simp: Store_GetAttachment_def split: option.splits if_splits)
  have "map_option without_mark (find (\<lambda>r. at_blob r = b) (nd_attachments db')) = Some (without_mark r)"
    unfolding find_without_mark assms(1) unfolding find_without_mark [symmetric] by (simp add: r)
  then obtain r' where r': "find (\<lambda>r. at_blob r = b) (nd_attachments db') = Some r'" "without_mark r' = without_mark r" by auto
  from r'(2) have "r' = r\<lparr>at_orphaned := at_orphaned r'\<rparr>" by (cases r'; cases r) simp
  moreover from r'(2) have "at_workspace r' = at_workspace r" by (cases r'; cases r) simp
  ultimately show ?thesis using r r'(1) by (auto simp: Store_GetAttachment_def)
qed

lemma reconcile_same: "map without_mark (nd_attachments (reconcileAttachmentOrphan b t db)) = map without_mark (nd_attachments db)"
  by (simp add: reconcileAttachmentOrphan_def)

lemma SetNoteAttachment_same:
  "SetNoteAttachment n b present clock t db = Inr db' \<Longrightarrow> map without_mark (nd_attachments db') = map without_mark (nd_attachments db)"
  by (auto simp: SetNoteAttachment_def err_simps reconcile_same simp del: list.map_comp map_map)

lemma writeOutboxOperation_notes: "writeOutboxOperation env new entry private ws device clock payload db = Inr db' \<Longrightarrow> db_notes db' = db_notes db"
  by (auto simp: writeOutboxOperation_def InsertOutboxOperation_def err_simps Let_def split: if_splits option.splits)

lemma tick_keeps: "tick unixMilli a = (r, a') \<Longrightarrow> ac_workspaceKeys a' = ac_workspaceKeys a \<and> ac_locked a' = ac_locked a"
  by (auto simp: tick_def split: if_splits prod.splits sum.splits)

lemma AdvanceDeviceClock_attachments: "AdvanceDeviceClock i clock db = Inr db' \<Longrightarrow> nd_attachments db' = nd_attachments db"
  by (auto simp: AdvanceDeviceClock_def split: if_splits)

lemma commit_attachment:
  assumes "commitNoteMetadata env new unixMilli ws m (\<lambda>clock. SetNoteAttachment n b present clock (t clock)) a db = (Inr db', a')"
  shows "map without_mark (nd_attachments (db_notes db')) = map without_mark (nd_attachments (db_notes db)) \<and>
    workspaceSession ws' a' = workspaceSession ws' a"
  using assms
proof (cases rule: commitNoteMetadata_Inr)
  case (1 entry nts payload db1 nt)
  have "nd_attachments (db_notes db') = nd_attachments (db_notes db1)" by (rule AdvanceDeviceClock_attachments [OF 1(7)])
  moreover have "db_notes db1 = nts" using writeOutboxOperation_notes [OF 1(6)] by simp
  ultimately have "map without_mark (nd_attachments (db_notes db')) = map without_mark (nd_attachments (db_notes db))"
    using SetNoteAttachment_same [OF 1(4)] by simp
  then show ?thesis using tick_keeps [OF 1(2)] by (simp add: workspaceSession_def)
qed


text \<open>A row with a manifest whose file is there and opens to the content under this key.\<close>

definition attachment_readable ::
  "crypto_env \<Rightarrow> (bytes \<Rightarrow> bytes) \<Rightarrow> (bytes \<Rightarrow> bytes \<Rightarrow> bytes) \<Rightarrow> bytes option \<Rightarrow> ID \<Rightarrow> bytes \<Rightarrow> string \<Rightarrow> string \<Rightarrow> bytes \<Rightarrow> note_db \<Rightarrow> blob_dir \<Rightarrow> bool" where
  "attachment_readable env sha256 hmac key ws b displayName mediaType content db files \<longleftrightarrow>
     readAttachmentFrom env sha256 hmac whole_writes key ws b db files = (Inr (displayName, mediaType), content)"

lemma readAttachmentFrom_same:
  assumes "map without_mark (nd_attachments db') = map without_mark (nd_attachments db)" "Store_GetAttachment b db = Inr r"
  shows "readAttachmentFrom env sha256 hmac dst key ws b db' files = readAttachmentFrom env sha256 hmac dst key ws b db files"
proof -
  obtain mark where "Store_GetAttachment b db' = Inr (r\<lparr>at_orphaned := mark\<rparr>)" using Store_GetAttachment_same [OF assms] by blast
  then show ?thesis using assms(2) by (simp add: readAttachmentFrom_def)
qed

definition hydrated :: "bytes \<Rightarrow> note_db \<Rightarrow> bool" where
  "hydrated b db \<longleftrightarrow> list_ex (\<lambda>r. at_blob r = b \<and> at_manifest r \<noteq> []) (nd_attachments db)"

lemma find_appended: "\<not> list_ex P rows \<Longrightarrow> P x \<Longrightarrow> find P (rows @ [x]) = Some x"
  by (induction rows) auto

lemma CreateAttachment_Inr:
  assumes "CreateAttachment ws b key manifest sz chunks t db = Inr (r, db')" "\<not> hydrated b db" "manifest \<noteq> []"
    and ws: "\<And>q. find (\<lambda>q. at_blob q = b) (nd_attachments db) = Some q \<Longrightarrow> at_workspace q = ws"
  shows "Store_GetAttachment b db' = Inr r" "at_blob r = b" "at_workspace r = ws" "at_key r = key" "at_manifest r = manifest" "at_size r = sint sz"
proof -
  from assms(1) show g: "Store_GetAttachment b db' = Inr r"
    by (auto simp: CreateAttachment_def err_simps Let_def split: if_splits)
  then have f: "find (\<lambda>r. at_blob r = b) (nd_attachments db') = Some r" by (auto simp: Store_GetAttachment_def split: option.splits if_splits)
  show "at_blob r = b" using f by (auto simp: find_Some_iff)
  have "at_workspace r = ws \<and> at_key r = key \<and> at_manifest r = manifest \<and> at_size r = sint sz"
  proof (cases "list_ex (\<lambda>a. at_blob a = b) (nd_attachments db)")
    case True
    define up where "up = (\<lambda>a. if at_blob a = b \<and> at_manifest a = [] \<and> manifest \<noteq> [] \<and> at_workspace a = ws
      then \<lparr>at_blob = b, at_workspace = ws, at_key = key, at_manifest = manifest, at_size = sint sz, at_chunks = chunks, at_created = t, at_orphaned = None\<rparr>\<lparr>at_orphaned := at_orphaned a\<rparr> else a)"
    from assms(1) True have "nd_attachments db' = map up (nd_attachments db)"
      by (auto simp: CreateAttachment_def err_simps Let_def up_def)
    moreover have "find (\<lambda>r. at_blob r = b) (map up rows) = map_option up (find (\<lambda>r. at_blob r = b) rows)" for rows
      by (induction rows) (auto simp: up_def)
    ultimately obtain q where q: "find (\<lambda>r. at_blob r = b) (nd_attachments db) = Some q" "r = up q" using f by auto
    then have "at_blob q = b" "q \<in> set (nd_attachments db)" by (auto simp: find_Some_iff)
    with assms(2) have "at_manifest q = []" by (auto simp: hydrated_def list_ex_iff)
    with q ws [OF q(1)] \<open>at_blob q = b\<close> assms(3) show ?thesis by (simp add: up_def)
  next
    case False
    with f assms(1) show ?thesis by (auto simp: CreateAttachment_def err_simps Let_def find_appended split: if_splits)
  qed
  then show "at_workspace r = ws" "at_key r = key" "at_manifest r = manifest" "at_size r = sint sz" by simp_all
qed


lemma publish_readable:
  assumes laws: "crypto_laws env" "digest_laws sha256 hmac"
    and size: "length content \<le> MaxAttachmentPlaintextBytes" and names: "length displayName < 65536" "length mediaType < 65536"
    and id: "DeriveBlobIDKey (ce_hkdf env) CryptoProfileV1 (ke_Key entry) (ID_Bytes ws) = Inr k" "b = hmac k content"
    and absent: "\<not> hydrated b db" "\<And>q. find (\<lambda>q. at_blob q = b) (nd_attachments db) = Some q \<Longrightarrow> at_workspace q = ws"
    and p: "publishAndRecordAttachment env sha256 nonces manifestNonce t entry ws b content (length content) displayName mediaType db files = (Inr (r, db'), files')"
  shows "Store_GetAttachment b db' = Inr r \<and> at_blob r = b \<and> at_size r = int (length content) \<and>
    readAttachmentFrom env sha256 hmac whole_writes (ke_Key entry) ws b db' files' = (Inr (displayName, mediaType), content)"
proof -
  let ?m = "attachment_metadata ws b (ke_KeyID entry)"
  note pieces = file_pieces_facts [OF size]
  from p obtain recs written where w: "write_pieces env sha256 nonces (ke_Key entry) ?m 0 (file_pieces content) NewAttachmentChunkSealer = Inr (written, recs)"
    and files': "files' = files(b \<mapsto> written)"
    and r: "bind_res (encodeAttachmentManifest \<lparr>mp_plaintextSize = word_of_nat (length content), mp_mediaType = mediaType, mp_displayName = displayName, mp_chunks = recs\<rparr>) (\<lambda>manifestPlaintext.
              bind_res (in_crypto (TakeSecret env manifestPlaintext)) (\<lambda>manifestSecret.
              bind_res (in_crypto (EncryptManifest env (ke_Key entry) ?m (Some manifestSecret) manifestNonce)) (\<lambda>envelope.
                in_store (CreateAttachment ws b (ke_KeyID entry) (EM_Nonce envelope @ EM_Ciphertext envelope) (word_of_nat (length content))
                  (word_of_nat (length recs)) t db)))) = Inr (r, db')"
    by (auto simp: publishAndRecordAttachment_def BlobStore_Publish_def encodeAttachmentManifest_def Let_def map_sum_def split: prod.splits sum.splits if_splits)
  from write_pieces_read [OF laws w] obtain cs where cs: "read_chunks ?m 0 recs written = Inr cs" "sealed_from env sha256 (ke_Key entry) ?m 0 (file_pieces content) cs"
    "list_all record_ok recs" by blast
  from r obtain manifest envelope where e: "encodeAttachmentManifest \<lparr>mp_plaintextSize = word_of_nat (length content), mp_mediaType = mediaType, mp_displayName = displayName, mp_chunks = recs\<rparr> = Inr manifest"
    "ce_capacity env manifest \<le> MaxSecretBytes" "EncryptManifest env (ke_Key entry) ?m (Some manifest) manifestNonce = Inr envelope"
    and c: "CreateAttachment ws b (ke_KeyID entry) (EM_Nonce envelope @ EM_Ciphertext envelope) (word_of_nat (length content)) (word_of_nat (length recs)) t db = Inr (r, db')"
    by (auto simp: err_simps TakeSecret_def not_less split: if_splits)
  note m = manifest_roundtrip [OF laws(1) e(3) e(2)]
  have nonempty: "EM_Nonce envelope @ EM_Ciphertext envelope \<noteq> []" using m(3) by auto
  note row = CreateAttachment_Inr [OF c absent(1) nonempty absent(2)]
  have env: "\<lparr>EM_Metadata = ?m, EM_Nonce = EM_Nonce envelope, EM_Ciphertext = EM_Ciphertext envelope\<rparr> = envelope" using m(2) by (cases envelope) simp
  have "decodeAttachmentManifest manifest = Inr \<lparr>mp_plaintextSize = word_of_nat (length content), mp_mediaType = mediaType, mp_displayName = displayName, mp_chunks = recs\<rparr>"
    using manifest_payload_roundtrip [OF e(1)] names cs(3) by simp
  then have "openAttachmentManifest env (ke_Key entry) ?m (at_manifest r) = Inr \<lparr>mp_plaintextSize = word_of_nat (length content), mp_mediaType = mediaType, mp_displayName = displayName, mp_chunks = recs\<rparr>"
    using m(1,3,4) by (simp add: openAttachmentManifest_def row(5) env)
  moreover have "VerifyAttachment env sha256 hmac whole_writes (ke_Key entry) ?m cs = (Inr (length content), content)"
  proof -
    have "AttachmentMetadata_validate ?m = Inr ()" using e(3) by (auto simp: EncryptManifest_def err_simps)
    from VerifyAttachment_complete [OF this _ cs(2) pieces(4,2,3), of k hmac] show ?thesis
      using id size pieces(1) by (simp add: attachment_metadata_def)
  qed
  moreover have "sint (word_of_nat (length content) :: u64) = int (length content)"
    using size by (simp add: signed_of_nat signed_take_bit_int_eq_self)
  ultimately show ?thesis
    using row cs(1) nonempty by (simp add: readAttachmentFrom_def BlobStore_Open_def files' Let_def)
qed


text \<open>An attachment that can be read stays as it is while others are added.\<close>

lemma readAttachmentFrom_needs:
  assumes "readAttachmentFrom env sha256 hmac dst key ws c db files = (Inr x, out)"
  obtains q f where "Store_GetAttachment c db = Inr q" "at_manifest q \<noteq> []" "files c = Some f"
  using assms by (auto simp: readAttachmentFrom_def BlobStore_Open_def err_simps Let_def split: sum.splits if_splits option.splits)

lemma readAttachmentFrom_cong:
  assumes "Store_GetAttachment c db' = Store_GetAttachment c db" "files' c = files c"
  shows "readAttachmentFrom env sha256 hmac dst key ws c db' files' = readAttachmentFrom env sha256 hmac dst key ws c db files"
proof -
  have "BlobStore_Open c files' = BlobStore_Open c files" by (simp add: BlobStore_Open_def assms)
  then show ?thesis by (simp only: readAttachmentFrom_def assms)
qed

lemma CreateAttachment_others:
  assumes c: "CreateAttachment ws b key manifest sz chunks t db = Inr (r, db')" and q: "Store_GetAttachment c db = Inr q" "at_manifest q \<noteq> []"
  shows "Store_GetAttachment c db' = Inr q"
proof -
  from q(1) have f: "find (\<lambda>a. at_blob a = c) (nd_attachments db) = Some q" "ID_Validate (at_workspace q) = Inr ()"
    by (auto simp: Store_GetAttachment_def split: option.splits if_splits)
  define up where "up = (\<lambda>a. if at_blob a = b \<and> at_manifest a = [] \<and> manifest \<noteq> [] \<and> at_workspace a = ws
    then \<lparr>at_blob = b, at_workspace = ws, at_key = key, at_manifest = manifest, at_size = sint sz, at_chunks = chunks, at_created = t, at_orphaned = None\<rparr>\<lparr>at_orphaned := at_orphaned a\<rparr> else a)"
  have "find (\<lambda>a. at_blob a = c) (map up rows) = map_option up (find (\<lambda>a. at_blob a = c) rows)" for rows by (induction rows) (auto simp: up_def)
  moreover have "find P rows = Some q \<Longrightarrow> find P (rows @ [x]) = Some q" for P and rows :: "attachment_row list" and x by (induction rows) auto
  moreover have "up q = q" using q(2) by (simp add: up_def)
  moreover from c have "nd_attachments db' = map up (nd_attachments db) \<or> (\<exists>x. nd_attachments db' = nd_attachments db @ [x])"
    by (auto simp: CreateAttachment_def err_simps Let_def up_def split: if_splits)
  ultimately have "find (\<lambda>a. at_blob a = c) (nd_attachments db') = Some q" using f(1) by auto
  then show ?thesis by (simp add: Store_GetAttachment_def f(2))
qed

lemma Publish_others: "BlobStore_Publish b content files = (r, files') \<Longrightarrow> files c = Some f \<Longrightarrow> files' c = Some f"
  by (auto simp: BlobStore_Publish_def BlobStore_Exists_def split: if_splits sum.splits)

lemma find_or_publish_keeps:
  assumes "find_or_publish env sha256 nonces manifestNonce t entry ws b staged n displayName mediaType db files = (r, files')" "files c = Some f"
  shows "files' c = Some f" "r = Inr (row, db') \<Longrightarrow> Store_GetAttachment c db = Inr q \<Longrightarrow> at_manifest q \<noteq> [] \<Longrightarrow> Store_GetAttachment c db' = Inr q"
  using assms
  by (auto simp: find_or_publish_def publishAndRecordAttachment_def Let_def err_simps dest: Publish_others CreateAttachment_others
      split: sum.splits prod.splits if_splits)


lemma AddAttachment_Inr:
  assumes "AddAttachment env sha256 hmac nonces manifestNonce new t unixMilli ws note displayName mediaType (Some content) a db files = (Inr row, a', db', files')"
  obtains entry k b notes' where "workspaceSession ws a = Inr entry" "length content \<le> MaxAttachmentPlaintextBytes" "length displayName < 65536" "length mediaType < 65536"
    "DeriveBlobIDKey (ce_hkdf env) CryptoProfileV1 (ke_Key entry) (ID_Bytes ws) = Inr k" "b = hmac k content"
    "find_or_publish env sha256 nonces manifestNonce t entry ws b content (length content) displayName mediaType (db_notes db) files = (Inr (row, notes'), files')"
    "commitNoteMetadata env new unixMilli ws (attachment_operation note b True) (\<lambda>clock. SetNoteAttachment note b True clock (sint (PhysicalMS clock))) a
       (db\<lparr>db_notes := notes'\<rparr>) = (Inr db', a')"
proof -
  from assms obtain entry staged b n where c: "bind_res (validateAttachmentDisplayName displayName) (\<lambda>_.
           bind_res (validateAttachmentMediaType mediaType) (\<lambda>_.
           bind_res (workspaceSession ws a) (\<lambda>entry.
           bind_res (verifyNoteInWorkspace ws note (db_notes db)) (\<lambda>_.
           bind_res (stagePlaintext (Some content)) (\<lambda>staged.
           bind_res (in_attachment (ComputeBlobID env hmac CryptoProfileV1 (ke_Key entry) (ID_Bytes ws) (file_reads staged))) (\<lambda>(blobIDBytes, totalSize).
           bind_res (ParseBlobID blobIDBytes) (\<lambda>blobID. Inr (entry, staged, blobID, totalSize)))))))) = Inr (entry, staged, b, n)"
    unfolding AddAttachment_def by (auto split: sum.splits prod.splits)
  then have d: "staged = content" "length content \<le> MaxAttachmentPlaintextBytes" "length displayName < 65536" "length mediaType < 65536" "workspaceSession ws a = Inr entry"
    and id: "ComputeBlobID env hmac CryptoProfileV1 (ke_Key entry) (ID_Bytes ws) (file_reads content) = Inr (b, n)"
    by (auto simp: err_simps stagePlaintext_def validateAttachmentDisplayName_def validateAttachmentMediaType_def ParseBlobID_def not_less split: if_splits prod.splits)
  from id absorb_file_reads [OF d(2)] obtain k where k: "DeriveBlobIDKey (ce_hkdf env) CryptoProfileV1 (ke_Key entry) (ID_Bytes ws) = Inr k" "b = hmac k content" "n = length content"
    by (auto simp: ComputeBlobID_def err_simps)
  from assms have "\<exists>notes'. find_or_publish env sha256 nonces manifestNonce t entry ws b content (length content) displayName mediaType (db_notes db) files = (Inr (row, notes'), files') \<and>
    commitNoteMetadata env new unixMilli ws (attachment_operation note b True) (\<lambda>clock. SetNoteAttachment note b True clock (sint (PhysicalMS clock))) a
       (db\<lparr>db_notes := notes'\<rparr>) = (Inr db', a')"
    unfolding AddAttachment_def c by (auto simp: d(1) k(3) Let_def split: sum.splits prod.splits)
  with that d k show ?thesis by blast
qed

lemma Store_GetAttachment_blob: "Store_GetAttachment b db = Inr r \<Longrightarrow> at_blob r = b"
  by (auto simp: Store_GetAttachment_def find_Some_iff split: option.splits if_splits)

lemma find_or_publish_blob:
  "find_or_publish env sha256 nonces manifestNonce t entry ws b content n displayName mediaType db files = (Inr (r, db'), files') \<Longrightarrow> at_blob r = b"
  by (auto simp: find_or_publish_def publishAndRecordAttachment_def CreateAttachment_def err_simps Let_def dest!: Store_GetAttachment_blob
      split: sum.splits prod.splits if_splits)

lemma found_or_published:
  assumes laws: "crypto_laws env" "digest_laws sha256 hmac"
    and size: "length content \<le> MaxAttachmentPlaintextBytes" and names: "length displayName < 65536" "length mediaType < 65536"
    and id: "DeriveBlobIDKey (ce_hkdf env) CryptoProfileV1 (ke_Key entry) (ID_Bytes ws) = Inr k" "b = hmac k content"
    and absent: "\<not> hydrated b db"
    and f: "find_or_publish env sha256 nonces manifestNonce t entry ws b content (length content) displayName mediaType db files = (Inr (r, db'), files')"
  shows "Store_GetAttachment b db' = Inr r \<and> at_blob r = b \<and> at_size r = int (length content) \<and>
    readAttachmentFrom env sha256 hmac whole_writes (ke_Key entry) ws b db' files' = (Inr (displayName, mediaType), content)"
proof -
  have bare: "at_manifest q = []" if "Store_GetAttachment b db = Inr q" for q
    using that absent by (auto simp: Store_GetAttachment_def hydrated_def list_ex_iff find_Some_iff split: option.splits if_splits)
  have ws: "at_workspace q = ws" if "find (\<lambda>q. at_blob q = b) (nd_attachments db) = Some q" for q
    using that f bare by (auto simp: find_or_publish_def Store_GetAttachment_def Let_def split: if_splits)
  have "publishAndRecordAttachment env sha256 nonces manifestNonce t entry ws b content (length content) displayName mediaType db files = (Inr (r, db'), files')"
    using f bare by (auto simp: find_or_publish_def Let_def split: sum.splits if_splits)
  with ws show ?thesis by (intro publish_readable [OF laws size names id absent]) auto
qed

text \<open>
  C9. What is attached is read back. When \<open>AddAttachment\<close> succeeds for contents that were not recorded
  before, reading the new attachment from the resulting database and files yields the given
  name and media type and exactly the contents, whatever their size from empty to 2 GiB; the
  recorded size is right; and every other attachment that could be read before is read with the same
  result.\<close>

theorem attachment_roundtrip:
  assumes "crypto_laws env" "digest_laws sha256 hmac"
    and "AddAttachment env sha256 hmac nonces manifestNonce new t unixMilli ws note displayName mediaType (Some content) a db files = (Inr row, a', db', files')"
    and "\<not> hydrated (at_blob row) (db_notes db)"
  shows "ReadAttachment env sha256 hmac whole_writes ws (at_blob row) a' (db_notes db') files' = (Inr (displayName, mediaType), content) \<and>
    at_size row = int (length content) \<and>
    (ReadAttachment env sha256 hmac dst ws' c a (db_notes db) files = (Inr x, out) \<longrightarrow>
     ReadAttachment env sha256 hmac dst ws' c a' (db_notes db') files' = (Inr x, out))"
  using assms(3)
proof (cases rule: AddAttachment_Inr)
  case (1 entry k b notes')
  note same = commit_attachment [OF 1(8), THEN conjunct1] and session = commit_attachment [OF 1(8), THEN conjunct2]
  have b: "at_blob row = b"
    using 1(7) by (rule find_or_publish_blob)
  from assms(4) have "\<not> hydrated b (db_notes db)" by (simp add: b)
  note new = found_or_published [OF assms(1,2) 1(2-6) this 1(7)]
  then have "readAttachmentFrom env sha256 hmac whole_writes (ke_Key entry) ws b (db_notes db') files' = (Inr (displayName, mediaType), content)"
    using readAttachmentFrom_same [OF same] by simp
  then have "ReadAttachment env sha256 hmac whole_writes ws b a' (db_notes db') files' = (Inr (displayName, mediaType), content)"
    by (simp add: ReadAttachment_def session 1(1))
  moreover have "ReadAttachment env sha256 hmac dst ws' c a' (db_notes db') files' = (Inr x, out)"
    if r: "ReadAttachment env sha256 hmac dst ws' c a (db_notes db) files = (Inr x, out)"
  proof -
    from r obtain entry' where e: "workspaceSession ws' a = Inr entry'"
      and r': "readAttachmentFrom env sha256 hmac dst (ke_Key entry') ws' c (db_notes db) files = (Inr x, out)"
      by (auto simp: ReadAttachment_def split: sum.splits)
    from r' obtain q f where q: "Store_GetAttachment c (db_notes db) = Inr q" "at_manifest q \<noteq> []" "files c = Some f" by (rule readAttachmentFrom_needs)
    note k = find_or_publish_keeps [OF 1(7) q(3)]
    have g: "Store_GetAttachment c notes' = Inr q" by (rule k(2) [OF refl q(1,2)])
    have "readAttachmentFrom env sha256 hmac dst (ke_Key entry') ws' c (db_notes db') files' = readAttachmentFrom env sha256 hmac dst (ke_Key entry') ws' c notes' files'"
      by (rule readAttachmentFrom_same) (use same g in simp_all)
    also have "\<dots> = (Inr x, out)" using readAttachmentFrom_cong [of c notes' "db_notes db" files' files] k(1) g q(1,3) r' by simp
    finally show ?thesis by (simp add: ReadAttachment_def session e)
  qed
  ultimately show ?thesis using new b by simp
qed


lemma EncryptManifest_total:
  assumes "crypto_laws env" "AttachmentMetadata_validate m = Inr ()" "length key = 32" "length nonce = 24" "manifest \<noteq> []" "length manifest \<le> MaxAttachmentManifestPlaintextBytes"
  shows "\<exists>envelope. EncryptManifest env (Some key) m (Some manifest) (Some nonce) = Inr envelope \<and> EM_Nonce envelope = nonce"
proof -
  obtain aad where "CanonicalAttachmentManifestAAD m = Inr aad" using assms(2) by (simp add: CanonicalAttachmentManifestAAD_def Let_def)
  moreover have "\<exists>k. DeriveBlobManifestKey (ce_hkdf env) (AM_CryptoProfile m) (Some key) (AM_BlobID m) = Inr k \<and> length k = 32"
    using assms(1-3) by (auto simp: DeriveBlobManifestKey_def deriveHKDF_def validHKDFDomain_def AttachmentMetadata_validate_def crypto_laws_def Let_def split: if_splits)
  ultimately show ?thesis
    using assms by (auto simp: EncryptManifest_def sealXChaCha_def MaxAttachmentManifestPlaintextBytes_def MaxSecretBytes_def)
qed

abbreviation demo_sha :: "bytes \<Rightarrow> bytes" where "demo_sha \<equiv> \<lambda>_. replicate 32 0"
abbreviation demo_hmac :: "bytes \<Rightarrow> bytes \<Rightarrow> bytes" where "demo_hmac \<equiv> \<lambda>_ _. replicate 32 0"
abbreviation demo_chunk_nonces :: "nat \<Rightarrow> bytes option" where "demo_chunk_nonces \<equiv> \<lambda>_. Some (replicate 24 0)"

lemma demo_publish:
  "\<exists>row notes' files'. find_or_publish demo_crypto demo_sha demo_chunk_nonces (Some (replicate 24 9)) 100 \<lparr>ke_KeyID = replicate 16 3, ke_Key = Some (replicate 32 7), ke_State = 1\<rparr>
     (demo_id 2) (replicate 32 0) [1, 2, 3] 3 ''a'' ''b'' demo_notes Map.empty = (Inr (row, notes'), files') \<and>
     notes' = demo_notes\<lparr>nd_attachments := [row]\<rparr> \<and> at_blob row = replicate 32 0"
proof -
  let ?entry = "\<lparr>ke_KeyID = replicate 16 3, ke_Key = Some (replicate 32 7), ke_State = 1\<rparr>" and ?m = "attachment_metadata (demo_id 2) (replicate 32 0) (replicate 16 3)"
  have m: "AttachmentMetadata_validate ?m = Inr ()" by (simp add: AttachmentMetadata_validate_def attachment_metadata_def)
  have p: "file_pieces [1, 2, 3] = [[1, 2, 3]]" by (simp add: file_pieces_def blocks_Cons)
  obtain chunk s' where "SealChunk demo_crypto demo_sha (Some (replicate 32 7)) ?m 0 [1, 2, 3] (Some (replicate 24 0)) NewAttachmentChunkSealer = (Inr chunk, s')"
    using SealChunk_total [OF demo_crypto_laws m, of "replicate 32 7" 0 "[1, 2, 3]" "replicate 24 0" NewAttachmentChunkSealer demo_sha]
    by (auto simp: NewAttachmentChunkSealer_def)
  then obtain written rec where w: "write_pieces demo_crypto demo_sha demo_chunk_nonces (Some (replicate 32 7)) ?m 0 (file_pieces [1, 2, 3]) NewAttachmentChunkSealer = Inr (written, [rec])"
    by (simp add: p sealAndWriteChunk_def)
  from write_pieces_read [OF demo_crypto_laws demo_digest_laws w] have "record_ok rec" by auto
  then obtain manifest where e: "encodeAttachmentManifest \<lparr>mp_plaintextSize = 3, mp_mediaType = ''b'', mp_displayName = ''a'', mp_chunks = [rec]\<rparr> = Inr manifest" "length manifest = 83"
    by (simp add: encodeAttachmentManifest_def appendShortString_def length_enc_record)
  have ne: "manifest \<noteq> []" using e(2) by auto
  obtain envelope where v: "EncryptManifest demo_crypto (Some (replicate 32 7)) ?m (Some manifest) (Some (replicate 24 9)) = Inr envelope" "EM_Nonce envelope = replicate 24 9"
    using EncryptManifest_total [OF demo_crypto_laws m, of "replicate 32 7" "replicate 24 9" manifest] ne e(2) by (auto simp: MaxAttachmentManifestPlaintextBytes_def)
  have "TakeSecret demo_crypto manifest = Inr manifest" using e(2) by (simp add: TakeSecret_def demo_crypto_def MaxSecretBytes_def)
  moreover have "Store_GetAttachment (replicate 32 0) demo_notes = Inl StoreNotFound" by (simp add: Store_GetAttachment_def demo_notes_def)
  ultimately show ?thesis using w e v
    by (simp add: find_or_publish_def publishAndRecordAttachment_def BlobStore_Publish_def BlobStore_Exists_def CreateAttachment_def Let_def)
      (simp add: Store_GetAttachment_def demo_notes_def)
qed


lemma demo_AddAttachment:
  "\<exists>row a' db' files'. AddAttachment demo_crypto demo_sha demo_hmac demo_chunk_nonces (Some (replicate 24 9)) demo_fresh 100 500 (demo_id 2) (demo_id 4) ''a'' ''b''
     (Some [1, 2, 3]) demo_account demo_sender Map.empty = (Inr row, a', db', files') \<and> at_blob row = replicate 32 0"
proof -
  let ?e = "\<lparr>ke_KeyID = replicate 16 3, ke_Key = Some (replicate 32 7), ke_State = 1\<rparr>" and ?b = "replicate 32 0 :: bytes"
  let ?m = "attachment_operation (demo_id 4) ?b True"
  obtain row files' where f: "find_or_publish demo_crypto demo_sha demo_chunk_nonces (Some (replicate 24 9)) 100 ?e (demo_id 2) ?b [1, 2, 3] 3 ''a'' ''b'' demo_notes Map.empty
     = (Inr (row, demo_notes\<lparr>nd_attachments := [row]\<rparr>), files')" and b: "at_blob row = ?b" using demo_publish by blast
  let ?notes = "demo_notes\<lparr>nd_attachments := [row]\<rparr>"
  have g: "\<exists>nt. Store_GetNote (demo_id 4) ?notes = Inr nt \<and> Note_WorkspaceID nt = demo_id 2" "\<exists>nt. Store_GetNote (demo_id 4) demo_notes = Inr nt \<and> Note_WorkspaceID nt = demo_id 2"
    by (simp_all add: Store_GetNote_def scanNote_def demo_notes_def)
  obtain nts where n: "SetNoteAttachment (demo_id 4) ?b True demo_tick (sint (PhysicalMS demo_tick)) ?notes = Inr nts"
    using b by (simp add: SetNoteAttachment_def pair_upsert_def demo_notes_def demo_tick_def Let_def word_le_def)
  obtain payload where p: "EncodeNoteMetadataOperation ?m = Inr payload" "payload \<noteq> []" "length payload \<le> 100"
    by (simp add: EncodeNoteMetadataOperation_def NoteMetadataKind_valid_iff zero_metadata_def attachment_operation_def Let_def)
  obtain db1 where w: "writeOutboxOperation demo_crypto demo_fresh ?e (Some (replicate 64 5)) (demo_id 2) (demo_id 1) demo_tick payload (demo_sender\<lparr>db_notes := nts\<rparr>) = Inr db1"
    using writeOutboxOperation_total [OF demo_crypto_laws, of ?e "replicate 32 7" demo_fresh "replicate 24 0" "replicate 64 5"
      payload demo_tick "demo_id 1" "demo_id 2" "demo_sender\<lparr>db_notes := nts\<rparr>"] p(2,3)
    by (auto simp: demo_fresh_def demo_tick_def demo_sender_def MaxSecretBytes_def word_le_def demo_crypto_def [THEN arg_cong, of ce_capacity])
  have "\<exists>d. AdvanceDeviceClock (demo_id 1) demo_tick (db_notes db1) = Inr d" by (simp add: AdvanceDeviceClock_def demo_tick_def word_le_def)
  with g(1) n p(1) w demo_account_tick
  have c: "\<exists>db' a'. commitNoteMetadata demo_crypto demo_fresh 500 (demo_id 2) ?m (\<lambda>clock. SetNoteAttachment (demo_id 4) ?b True clock (sint (PhysicalMS clock))) demo_account
      (demo_sender\<lparr>db_notes := ?notes\<rparr>) = (Inr db', a')"
    by (auto simp: commitNoteMetadata_def with_session_def workspaceSession_def)
      (auto simp: demo_account_def attachment_operation_def zero_metadata_def)
  have s: "workspaceSession (demo_id 2) demo_account = Inr ?e" "verifyNoteInWorkspace (demo_id 2) (demo_id 4) demo_notes = Inr ()"
    using g(2) by (auto simp: workspaceSession_def verifyNoteInWorkspace_def demo_account_def)
  have "\<exists>k. DeriveBlobIDKey (ce_hkdf demo_crypto) CryptoProfileV1 (Some (replicate 32 7)) (ID_Bytes (demo_id 2)) = Inr k"
    by (simp add: DeriveBlobIDKey_def deriveHKDF_def validHKDFDomain_def Let_def)
  then have i: "ComputeBlobID demo_crypto demo_hmac CryptoProfileV1 (Some (replicate 32 7)) (ID_Bytes (demo_id 2)) (file_reads [1, 2, 3]) = Inr (?b, 3)"
    using absorb_file_reads [of "[1, 2, 3]"] by (auto simp: ComputeBlobID_def)
  have v: "validateAttachmentDisplayName ''a'' = Inr ()" "validateAttachmentMediaType ''b'' = Inr ()" "stagePlaintext (Some [1, 2, 3]) = Inr [1, 2, 3]" "ParseBlobID ?b = Inr ?b"
    by (simp_all add: validateAttachmentDisplayName_def validateAttachmentMediaType_def stagePlaintext_def ParseBlobID_def str_bytes_def of_char_def)
  have d: "db_notes demo_sender = demo_notes" by (simp add: demo_sender_def)
  from c show ?thesis using s i v f b by (auto simp: AddAttachment_def d Let_def)
qed

theorem attachment_roundtrip_witness:
  "\<exists>row a' db' files'. AddAttachment demo_crypto demo_sha demo_hmac demo_chunk_nonces (Some (replicate 24 9)) demo_fresh 100 500 (demo_id 2) (demo_id 4) ''a'' ''b''
     (Some [1, 2, 3]) demo_account demo_sender Map.empty = (Inr row, a', db', files') \<and>
     ReadAttachment demo_crypto demo_sha demo_hmac whole_writes (demo_id 2) (at_blob row) a' (db_notes db') files' = (Inr (''a'', ''b''), [1, 2, 3])"
proof -
  obtain row a' db' files' where add: "AddAttachment demo_crypto demo_sha demo_hmac demo_chunk_nonces (Some (replicate 24 9)) demo_fresh 100 500 (demo_id 2) (demo_id 4) ''a'' ''b''
     (Some [1, 2, 3]) demo_account demo_sender Map.empty = (Inr row, a', db', files')"
    using demo_AddAttachment by blast
  have "\<not> hydrated (at_blob row) (db_notes demo_sender)" by (simp add: hydrated_def demo_sender_def demo_notes_def)
  from attachment_roundtrip [OF demo_crypto_laws demo_digest_laws add this] add show ?thesis by blast
qed

end
