(* ===== verification/Server_Blobs.thy ===== *)
theory Server_Blobs
  imports Server_Guarantees
begin

text \<open>
  Attachments on the server: \<^verbatim>\<open>server/blob_store.go\<close>, the collection of abandoned uploads
  (\<^verbatim>\<open>admin_store.go\<close>), the quota setting of \<^verbatim>\<open>storage.go\<close> and the consistency check of
  \<^verbatim>\<open>server_backup.go\<close>. A blob is announced with the sizes and digests of its chunks, which
  reserves its size in the owner's quota; the chunks are written to a staging directory;
  completing the blob checks every chunk, renames the directory and turns the reservation
  into usage. References keep a blob; without one it is collected after a grace period.

  The tables \<^verbatim>\<open>blobs\<close>, \<^verbatim>\<open>blob_chunks\<close>, \<^verbatim>\<open>blob_references\<close> and the two counters of \<^verbatim>\<open>users\<close> that
  only this file writes are the record \<open>blob_db\<close>, with the staging and the published
  directory of each blob: a directory maps a chunk index to the contents of its file. Other
  tables are read from \<^typ>\<open>server_db\<close>. Methods that change files and tables return
  the new state with the error too. Missing files are modelled, other disk failures
  are not; a crash between the file and the table part of a method is.
\<close>

section \<open>Data\<close>

record BlobChunkSpec =
  cs_Index :: int
  cs_Bytes :: int
  cs_SHA256 :: string

record BlobInit =
  bi_WorkspaceID :: string
  bi_BlobID :: string
  bi_KeyID :: string
  bi_EncryptedManifest :: bytes
  bi_TotalBytes :: int
  bi_Chunks :: "BlobChunkSpec list"

record BlobInfo =
  bf_WorkspaceID :: string
  bf_BlobID :: string
  bf_KeyID :: string
  bf_EncryptedManifest :: bytes
  bf_TotalBytes :: int
  bf_State :: string
  bf_Chunks :: "BlobChunkSpec list"
  bf_Uploaded :: "int list"
  bf_ReferenceCount :: int

record BlobGCResult =
  gr_WorkspaceID :: string
  gr_BlobID :: string
  gr_Bytes :: int
  gr_Removed :: bool

record blob_row =
  bl_ws :: string
  bl_id :: string
  bl_owner :: string
  bl_key :: string
  bl_manifest :: bytes
  bl_total :: int
  bl_chunk_count :: int
  bl_state :: string
  bl_reserved :: int
  bl_refs :: int
  bl_created :: int
  bl_completed :: "int option"
  bl_unreferenced :: "int option"

record chunk_row =
  ck_ws :: string
  ck_blob :: string
  ck_index :: int
  ck_bytes :: int
  ck_hash :: bytes
  ck_uploaded :: "int option"

record reference_row =
  rf_ws :: string
  rf_blob :: string
  rf_id :: string
  rf_created :: int

type_synonym directory = "int \<rightharpoonup> bytes"

record blob_db =
  used_bytes :: "string \<Rightarrow> int"
  reserved_bytes :: "string \<Rightarrow> int"
  blobs :: "blob_row list"
  blob_chunks :: "chunk_row list"
  blob_references :: "reference_row list"
  staging_dirs :: "string \<times> string \<rightharpoonup> directory"
  final_dirs :: "string \<times> string \<rightharpoonup> directory"

definition empty_blobs :: blob_db where
  "empty_blobs = \<lparr>used_bytes = (\<lambda>_. 0), reserved_bytes = (\<lambda>_. 0), blobs = [], blob_chunks = [], blob_references = [],
     staging_dirs = Map.empty, final_dirs = Map.empty\<rparr>"

definition bl_at :: "string \<Rightarrow> string \<Rightarrow> blob_row \<Rightarrow> bool" where
  "bl_at ws blob r \<longleftrightarrow> bl_ws r = ws \<and> bl_id r = blob"

definition ck_at :: "string \<Rightarrow> string \<Rightarrow> chunk_row \<Rightarrow> bool" where
  "ck_at ws blob c \<longleftrightarrow> ck_ws c = ws \<and> ck_blob c = blob"

definition rf_at :: "string \<Rightarrow> string \<Rightarrow> reference_row \<Rightarrow> bool" where
  "rf_at ws blob r \<longleftrightarrow> rf_ws r = ws \<and> rf_blob r = blob"

section \<open>Checks\<close>

text \<open>Text outside ASCII fails in both branches, so lower case matters for ASCII only.\<close>

definition validateBlobID :: "string \<Rightarrow> server_error + unit" where
  "validateBlobID s =
     (if length s \<noteq> 64 \<or> s \<noteq> to_lower s then Inl ErrInvalid
      else case hex_decode s of None \<Rightarrow> Inl ErrInvalid | Some decoded \<Rightarrow> guard_res (length decoded = 32) ErrInvalid)"

text \<open>The sizes of accepted chunks are bounded by the configuration, so their sum stays far below \<^verbatim>\<open>int64\<close>.\<close>

fun check_chunks :: "int \<Rightarrow> int \<Rightarrow> int \<Rightarrow> BlobChunkSpec list \<Rightarrow> server_error + int" where
  "check_chunks chunkBytes index subtotal [] = Inr subtotal"
| "check_chunks chunkBytes index subtotal (chunk # chunks) =
     (if cs_Index chunk \<noteq> index \<or> cs_Bytes chunk \<le> 0 \<or> cs_Bytes chunk > chunkBytes + 64 then Inl ErrInvalid
      else case hex_decode (cs_SHA256 chunk) of
             None \<Rightarrow> Inl ErrInvalid
           | Some digest \<Rightarrow>
               if length digest \<noteq> 32 \<or> cs_SHA256 chunk \<noteq> to_lower (cs_SHA256 chunk) then Inl ErrInvalid
               else check_chunks chunkBytes (index + 1) (subtotal + cs_Bytes chunk) chunks)"

definition validateChunkSpecs :: "int \<Rightarrow> BlobInit \<Rightarrow> server_error + unit" where
  "validateChunkSpecs chunkBytes request =
     (if bi_Chunks request = [] \<or> int (length (bi_Chunks request)) > bi_TotalBytes request + 1 then Inl ErrInvalid
      else bind_res (check_chunks chunkBytes 0 0 (bi_Chunks request)) (\<lambda>subtotal. guard_res (subtotal = bi_TotalBytes request) ErrInvalid))"

fun sameChunkSpecs :: "BlobChunkSpec list \<Rightarrow> BlobChunkSpec list \<Rightarrow> bool" where
  "sameChunkSpecs [] [] \<longleftrightarrow> True"
| "sameChunkSpecs (l # ls) (r # rs) \<longleftrightarrow> l = r \<and> sameChunkSpecs ls rs"
| "sameChunkSpecs _ _ \<longleftrightarrow> False"

definition verifyChunk :: "(bytes \<Rightarrow> bytes) \<Rightarrow> bytes \<Rightarrow> int \<Rightarrow> bytes \<Rightarrow> server_error + unit" where
  "verifyChunk sha256 contents expectedBytes expectedHash =
     (if int (length contents) \<noteq> expectedBytes \<or> \<not> equalBytes (sha256 contents) expectedHash then Inl ErrConflict else Inr ())"

text \<open>At most one byte more than expected is read.\<close>

definition verifyChunkFile :: "(bytes \<Rightarrow> bytes) \<Rightarrow> directory option \<Rightarrow> int \<Rightarrow> int \<Rightarrow> bytes \<Rightarrow> server_error + unit" where
  "verifyChunkFile sha256 directory index expectedBytes expectedHash =
     (case Option.bind directory (\<lambda>d. d index) of
        None \<Rightarrow> Inl ErrNotFound
      | Some contents \<Rightarrow>
          let copied = take (nat (expectedBytes + 1)) contents in
          if int (length copied) \<noteq> expectedBytes \<or> \<not> equalBytes (sha256 copied) expectedHash then Inl ErrConflict else Inr ())"

text \<open>\<^verbatim>\<open>digest, _ := hex.DecodeString\<close>: the ignored error cannot occur on text that was checked or printed before.\<close>

definition hex_bytes :: "string \<Rightarrow> bytes" where
  "hex_bytes s = (case hex_decode s of None \<Rightarrow> [] | Some d \<Rightarrow> d)"

section \<open>Reading\<close>

definition readBlobChunks :: "string \<Rightarrow> string \<Rightarrow> blob_db \<Rightarrow> BlobChunkSpec list \<times> int list" where
  "readBlobChunks ws blob b =
     (let rows = sort_key ck_index (filter (ck_at ws blob) (blob_chunks b))
      in (map (\<lambda>c. \<lparr>cs_Index = ck_index c, cs_Bytes = ck_bytes c, cs_SHA256 = hex_encode (ck_hash c)\<rparr>) rows,
          map ck_index (filter (\<lambda>c. ck_uploaded c \<noteq> None) rows)))"

definition info_of :: "blob_row \<Rightarrow> blob_db \<Rightarrow> BlobInfo" where
  "info_of r b =
     (let (specs, uploaded) = readBlobChunks (bl_ws r) (bl_id r) b
      in \<lparr>bf_WorkspaceID = bl_ws r, bf_BlobID = bl_id r, bf_KeyID = bl_key r, bf_EncryptedManifest = bl_manifest r,
          bf_TotalBytes = bl_total r, bf_State = bl_state r, bf_Chunks = specs, bf_Uploaded = uploaded, bf_ReferenceCount = bl_refs r\<rparr>)"

definition blobInfo :: "string \<Rightarrow> string \<Rightarrow> blob_db \<Rightarrow> server_error + BlobInfo" where
  "blobInfo ws blob b = (case find (bl_at ws blob) (blobs b) of None \<Rightarrow> Inl ErrNotFound | Some r \<Rightarrow> Inr (info_of r b))"

definition GetBlob :: "string \<Rightarrow> string \<Rightarrow> string \<Rightarrow> server_db \<Rightarrow> blob_db \<Rightarrow> server_error + BlobInfo" where
  "GetBlob user ws blob db b =
     bind_res (validateID ws) (\<lambda>_. bind_res (validateBlobID blob) (\<lambda>_.
       if \<not> isActiveMember user ws db then Inl ErrForbidden else blobInfo ws blob b))"

text \<open>
  \<open>ReadBlobChunk\<close> reads the tables and then, without a lock, the file; the last argument is the
  state in which it opens the file.
\<close>

definition ReadBlobChunk ::
    "(bytes \<Rightarrow> bytes) \<Rightarrow> string \<Rightarrow> string \<Rightarrow> string \<Rightarrow> int \<Rightarrow> server_db \<Rightarrow> blob_db \<Rightarrow> blob_db \<Rightarrow> server_error + bytes" where
  "ReadBlobChunk sha256 user ws blob index db b opened =
     bind_res (GetBlob user ws blob db b) (\<lambda>info.
       if bf_State info \<noteq> ''complete'' \<or> index < 0 \<or> index \<ge> int (length (bf_Chunks info)) then Inl ErrNotFound
       else case Option.bind (final_dirs opened (ws, blob)) (\<lambda>d. d index) of
              None \<Rightarrow> Inl ErrNotFound
            | Some contents \<Rightarrow>
                let chunk = bf_Chunks info ! nat index in
                bind_res (verifyChunk sha256 contents (cs_Bytes chunk) (hex_bytes (cs_SHA256 chunk))) (\<lambda>_. Inr contents))"

section \<open>Uploading\<close>

definition reserve :: "string \<Rightarrow> int \<Rightarrow> server_db \<Rightarrow> blob_db \<Rightarrow> server_error + blob_db" where
  "reserve user n db b =
     (case find (\<lambda>u. u_id u = user) (users db) of
        None \<Rightarrow> Inl ErrQuota
      | Some u \<Rightarrow>
          if used_bytes b user + reserved_bytes b user + n \<le> u_quota u
          then Inr (b\<lparr>reserved_bytes := (reserved_bytes b)(user := reserved_bytes b user + n)\<rparr>) else Inl ErrQuota)"

fun insert_chunks :: "string \<Rightarrow> string \<Rightarrow> BlobChunkSpec list \<Rightarrow> chunk_row list \<Rightarrow> server_error + chunk_row list" where
  "insert_chunks ws blob [] rows = Inr rows"
| "insert_chunks ws blob (chunk # chunks) rows =
     (if list_ex (\<lambda>c. ck_at ws blob c \<and> ck_index c = cs_Index chunk) rows then Inl ErrSql
      else insert_chunks ws blob chunks (rows @ [\<lparr>ck_ws = ws, ck_blob = blob, ck_index = cs_Index chunk, ck_bytes = cs_Bytes chunk,
             ck_hash = hex_bytes (cs_SHA256 chunk), ck_uploaded = None\<rparr>]))"

definition new_blob :: "string \<Rightarrow> BlobInit \<Rightarrow> int \<Rightarrow> blob_row" where
  "new_blob user request now = \<lparr>bl_ws = bi_WorkspaceID request, bl_id = bi_BlobID request, bl_owner = user, bl_key = bi_KeyID request,
     bl_manifest = bi_EncryptedManifest request, bl_total = bi_TotalBytes request, bl_chunk_count = int (length (bi_Chunks request)),
     bl_state = ''staging'', bl_reserved = bi_TotalBytes request, bl_refs = 0, bl_created = unixNow now, bl_completed = None, bl_unreferenced = None\<rparr>"

definition begin_tx :: "string \<Rightarrow> BlobInit \<Rightarrow> int \<Rightarrow> server_db \<Rightarrow> blob_db \<Rightarrow> server_error + BlobInfo \<times> blob_db" where
  "begin_tx user request now db b =
     (let ws = bi_WorkspaceID request; blob = bi_BlobID request in
      if \<not> isActiveMember user ws db then Inl ErrForbidden
      else if \<not> list_ex (\<lambda>w. w_id w = ws \<and> w_key w = bi_KeyID request) (workspaces db) then Inl ErrConflict
      else case find (bl_at ws blob) (blobs b) of
        Some r \<Rightarrow>
          if bl_key r \<noteq> bi_KeyID request \<or> bl_total r \<noteq> bi_TotalBytes request \<or> \<not> equalBytes (bl_manifest r) (bi_EncryptedManifest request) then Inl ErrConflict
          else if \<not> sameChunkSpecs (fst (readBlobChunks ws blob b)) (bi_Chunks request) then Inl ErrConflict
          else Inr (info_of r b, b)
      | None \<Rightarrow>
          bind_res (reserve user (bi_TotalBytes request) db b) (\<lambda>b.
          bind_res (insert_chunks ws blob (bi_Chunks request) (blob_chunks b)) (\<lambda>rows.
            Inr (\<lparr>bf_WorkspaceID = ws, bf_BlobID = blob, bf_KeyID = bi_KeyID request, bf_EncryptedManifest = bi_EncryptedManifest request,
                  bf_TotalBytes = bi_TotalBytes request, bf_State = ''staging'', bf_Chunks = bi_Chunks request, bf_Uploaded = [], bf_ReferenceCount = 0\<rparr>,
                 b\<lparr>blobs := blobs b @ [new_blob user request now], blob_chunks := rows\<rparr>))))"

definition BeginBlob :: "ServerConfig \<Rightarrow> int \<Rightarrow> string \<Rightarrow> BlobInit \<Rightarrow> int \<Rightarrow> server_db \<Rightarrow> blob_db \<Rightarrow> server_error + BlobInfo \<times> blob_db" where
  "BeginBlob cfg chunkBytes user request now db b =
     bind_res (validateID (bi_WorkspaceID request)) (\<lambda>_.
     bind_res (validateBlobID (bi_BlobID request)) (\<lambda>_.
     bind_res (validateOpaqueID (bi_KeyID request)) (\<lambda>_.
       if bi_TotalBytes request \<le> 0 \<or> bi_TotalBytes request > MaxBlobBytes cfg then Inl ErrInvalid
       else if bi_EncryptedManifest request = [] \<or> int (length (bi_EncryptedManifest request)) > MaxOperationBytes cfg then Inl ErrInvalid
       else bind_res (validateChunkSpecs chunkBytes request) (\<lambda>_. begin_tx user request now db b))))"

definition mark_uploaded :: "string \<Rightarrow> string \<Rightarrow> int \<Rightarrow> int \<Rightarrow> blob_db \<Rightarrow> blob_db" where
  "mark_uploaded ws blob index now b =
     b\<lparr>blob_chunks := update_rows (\<lambda>c. ck_at ws blob c \<and> ck_index c = index) (\<lambda>c. c\<lparr>ck_uploaded := Some (unixNow now)\<rparr>) (blob_chunks b)\<rparr>"

text \<open>The part of \<open>PutBlobChunk\<close> before the table is written; the result tells whether it is to be written.\<close>

definition put_files ::
    "(bytes \<Rightarrow> bytes) \<Rightarrow> int \<Rightarrow> string \<Rightarrow> string \<Rightarrow> string \<Rightarrow> int \<Rightarrow> bytes \<Rightarrow> server_db \<Rightarrow> blob_db \<Rightarrow> server_error + bool \<times> blob_db" where
  "put_files sha256 chunkBytes user ws blob index contents db b =
     bind_res (validateID ws) (\<lambda>_. bind_res (validateBlobID blob) (\<lambda>_.
       if index < 0 \<or> int (length contents) > chunkBytes + 64 then Inl ErrInvalid
       else if \<not> isActiveMember user ws db then Inl ErrForbidden
       else case (find (bl_at ws blob) (blobs b), find (\<lambda>c. ck_at ws blob c \<and> ck_index c = index) (blob_chunks b)) of
         (Some r, Some c) \<Rightarrow>
           if bl_state r = ''complete'' then
             bind_res (verifyChunkFile sha256 (final_dirs b (ws, blob)) index (ck_bytes c) (ck_hash c)) (\<lambda>_. Inr (False, b))
           else if int (length contents) \<noteq> ck_bytes c \<or> \<not> equalBytes (sha256 contents) (ck_hash c) then Inl ErrInvalid
           else let d = (case staging_dirs b (ws, blob) of None \<Rightarrow> Map.empty | Some d \<Rightarrow> d) in
             (case d index of
                Some _ \<Rightarrow> bind_res (verifyChunkFile sha256 (Some d) index (ck_bytes c) (ck_hash c)) (\<lambda>_. Inr (True, b))
              | None \<Rightarrow> Inr (True, b\<lparr>staging_dirs := (staging_dirs b)((ws, blob) \<mapsto> d(index \<mapsto> contents))\<rparr>))
       | _ \<Rightarrow> Inl ErrNotFound))"

definition PutBlobChunk ::
    "(bytes \<Rightarrow> bytes) \<Rightarrow> int \<Rightarrow> string \<Rightarrow> string \<Rightarrow> string \<Rightarrow> int \<Rightarrow> bytes \<Rightarrow> int \<Rightarrow> server_db \<Rightarrow> blob_db \<Rightarrow> server_error + blob_db" where
  "PutBlobChunk sha256 chunkBytes user ws blob index contents now db b =
     bind_res (put_files sha256 chunkBytes user ws blob index contents db b) (\<lambda>(mark, b).
       Inr (if mark then mark_uploaded ws blob index now b else b))"

fun verify_specs :: "(bytes \<Rightarrow> bytes) \<Rightarrow> directory option \<Rightarrow> BlobChunkSpec list \<Rightarrow> server_error + unit" where
  "verify_specs sha256 d [] = Inr ()"
| "verify_specs sha256 d (chunk # chunks) =
     bind_res (verifyChunkFile sha256 d (cs_Index chunk) (cs_Bytes chunk) (hex_bytes (cs_SHA256 chunk))) (\<lambda>_. verify_specs sha256 d chunks)"

text \<open>\<open>CompleteBlob\<close> up to the published directory. A directory published before a crash is used again.\<close>

definition complete_files ::
    "(bytes \<Rightarrow> bytes) \<Rightarrow> string \<Rightarrow> string \<Rightarrow> string \<Rightarrow> server_db \<Rightarrow> blob_db \<Rightarrow> server_error + BlobInfo \<times> blob_db" where
  "complete_files sha256 user ws blob db b =
     bind_res (validateID ws) (\<lambda>_. bind_res (validateBlobID blob) (\<lambda>_.
       if \<not> isActiveMember user ws db then Inl ErrForbidden
       else bind_res (blobInfo ws blob b) (\<lambda>info.
         if bf_State info = ''complete'' then Inr (info, b)
         else let source = (case final_dirs b (ws, blob) of None \<Rightarrow> staging_dirs b (ws, blob) | Some d \<Rightarrow> Some d) in
           bind_res (verify_specs sha256 source (bf_Chunks info)) (\<lambda>_.
             case (final_dirs b (ws, blob), staging_dirs b (ws, blob)) of
               (Some _, _) \<Rightarrow> Inr (info, b)
             | (None, None) \<Rightarrow> Inl ErrSql
             | (None, Some d) \<Rightarrow>
                 Inr (info, b\<lparr>staging_dirs := (staging_dirs b)((ws, blob) := None), final_dirs := (final_dirs b)((ws, blob) \<mapsto> d)\<rparr>)))))"

definition complete_tx :: "string \<Rightarrow> string \<Rightarrow> int \<Rightarrow> BlobInfo \<Rightarrow> blob_db \<Rightarrow> server_error + BlobInfo \<times> blob_db" where
  "complete_tx ws blob now info b =
     (case find (\<lambda>r. bl_at ws blob r \<and> bl_state r = ''staging'') (blobs b) of
        None \<Rightarrow> bind_res (blobInfo ws blob b) (\<lambda>info. Inr (info, b))
      | Some r \<Rightarrow>
          if reserved_bytes b (bl_owner r) - bl_reserved r < 0 \<or> used_bytes b (bl_owner r) + bl_reserved r < 0 then Inl ErrSql
          else Inr (info\<lparr>bf_State := ''complete'', bf_Uploaded := map int [0..<length (bf_Chunks info)]\<rparr>,
             b\<lparr>blobs := update_rows (bl_at ws blob)
                  (\<lambda>r. r\<lparr>bl_state := ''complete'', bl_reserved := 0, bl_completed := Some (unixNow now),
                    bl_unreferenced := (if bl_refs r = 0 then Some (unixNow now) else None)\<rparr>) (blobs b),
               reserved_bytes := (reserved_bytes b)(bl_owner r := reserved_bytes b (bl_owner r) - bl_reserved r),
               used_bytes := (used_bytes b)(bl_owner r := used_bytes b (bl_owner r) + bl_reserved r)\<rparr>))"

definition CompleteBlob ::
    "(bytes \<Rightarrow> bytes) \<Rightarrow> string \<Rightarrow> string \<Rightarrow> string \<Rightarrow> int \<Rightarrow> server_db \<Rightarrow> blob_db \<Rightarrow> (server_error + BlobInfo) \<times> blob_db" where
  "CompleteBlob sha256 user ws blob now db b =
     (case complete_files sha256 user ws blob db b of
        Inl e \<Rightarrow> (Inl e, b)
      | Inr (info, b1) \<Rightarrow>
          if bf_State info = ''complete'' then (Inr info, b1)
          else case complete_tx ws blob now info b1 of Inl e \<Rightarrow> (Inl e, b1) | Inr (info, b2) \<Rightarrow> (Inr info, b2))"

section \<open>References\<close>

definition reference_tx :: "string \<Rightarrow> string \<Rightarrow> string \<Rightarrow> bool \<Rightarrow> int \<Rightarrow> blob_db \<Rightarrow> server_error + blob_db" where
  "reference_tx ws blob ref referenced now b =
     (if referenced then
        (case find (\<lambda>r. rf_ws r = ws \<and> rf_id r = ref) (blob_references b) of
           Some r \<Rightarrow> if rf_blob r \<noteq> blob then Inl ErrConflict else Inr b
         | None \<Rightarrow> Inr (b\<lparr>blob_references := blob_references b @ [\<lparr>rf_ws = ws, rf_blob = blob, rf_id = ref, rf_created = unixNow now\<rparr>],
             blobs := update_rows (bl_at ws blob) (\<lambda>r. r\<lparr>bl_refs := bl_refs r + 1, bl_unreferenced := None\<rparr>) (blobs b)\<rparr>))
      else if \<not> list_ex (\<lambda>r. rf_at ws blob r \<and> rf_id r = ref) (blob_references b) then Inr b
      else Inr (b\<lparr>blob_references := filter (\<lambda>r. \<not> (rf_at ws blob r \<and> rf_id r = ref)) (blob_references b),
             blobs := update_rows (\<lambda>r. bl_at ws blob r \<and> bl_refs r > 0)
               (\<lambda>r. r\<lparr>bl_refs := bl_refs r - 1, bl_unreferenced := (if bl_refs r = 1 then Some (unixNow now) else None)\<rparr>) (blobs b)\<rparr>))"

definition SetBlobReferenced :: "string \<Rightarrow> string \<Rightarrow> string \<Rightarrow> string \<Rightarrow> bool \<Rightarrow> int \<Rightarrow> server_db \<Rightarrow> blob_db \<Rightarrow> server_error + blob_db" where
  "SetBlobReferenced user ws blob ref referenced now db b =
     bind_res (validateID ws) (\<lambda>_. bind_res (validateBlobID blob) (\<lambda>_. bind_res (validateID ref) (\<lambda>_.
       if \<not> isActiveMember user ws db then Inl ErrForbidden
       else case find (bl_at ws blob) (blobs b) of
              None \<Rightarrow> Inl ErrNotFound
            | Some r \<Rightarrow> if bl_state r \<noteq> ''complete'' then Inl ErrConflict else reference_tx ws blob ref referenced now b)))"

section \<open>Collection\<close>

text \<open>\<^verbatim>\<open>DELETE FROM blobs\<close>, with the cascade to chunks and references.\<close>

definition delete_blob :: "string \<Rightarrow> string \<Rightarrow> blob_db \<Rightarrow> blob_db" where
  "delete_blob ws blob b = b\<lparr>blobs := filter (\<lambda>r. \<not> bl_at ws blob r) (blobs b),
     blob_chunks := filter (\<lambda>c. \<not> ck_at ws blob c) (blob_chunks b),
     blob_references := filter (\<lambda>r. \<not> rf_at ws blob r) (blob_references b)\<rparr>"

definition gc_items :: "(blob_row \<Rightarrow> bool) \<Rightarrow> blob_db \<Rightarrow> BlobGCResult list" where
  "gc_items P b = map (\<lambda>r. \<lparr>gr_WorkspaceID = bl_ws r, gr_BlobID = bl_id r, gr_Bytes = bl_total r, gr_Removed = False\<rparr>)
     (sort_key (\<lambda>r. (bl_ws r, bl_id r)) (filter P (blobs b)))"

definition unreferenced_before :: "int \<Rightarrow> blob_row \<Rightarrow> bool" where
  "unreferenced_before before r \<longleftrightarrow> bl_state r = ''complete'' \<and> bl_refs r = 0 \<and>
     (case bl_unreferenced r of None \<Rightarrow> False | Some t \<Rightarrow> t \<le> unixNow before)"

definition abandoned_before :: "int \<Rightarrow> blob_row \<Rightarrow> bool" where
  "abandoned_before before r \<longleftrightarrow> bl_state r = ''staging'' \<and> bl_created r \<le> unixNow before"

text \<open>The published directory is moved away first.\<close>

definition collect_rename :: "BlobGCResult \<Rightarrow> blob_db \<Rightarrow> (directory \<times> blob_db) option" where
  "collect_rename item b =
     (case final_dirs b (gr_WorkspaceID item, gr_BlobID item) of
        None \<Rightarrow> None
      | Some d \<Rightarrow> Some (d, b\<lparr>final_dirs := (final_dirs b)((gr_WorkspaceID item, gr_BlobID item) := None)\<rparr>))"

definition collect_tx :: "BlobGCResult \<Rightarrow> blob_db \<Rightarrow> server_error + blob_db" where
  "collect_tx item b =
     (case find (\<lambda>r. bl_at (gr_WorkspaceID item) (gr_BlobID item) r \<and> bl_state r = ''complete'' \<and> bl_refs r = 0) (blobs b) of
        None \<Rightarrow> Inl ErrSql
      | Some r \<Rightarrow>
          let b = delete_blob (gr_WorkspaceID item) (gr_BlobID item) b in
          if used_bytes b (bl_owner r) - bl_total r < 0 then Inl ErrSql
          else Inr (b\<lparr>used_bytes := (used_bytes b)(bl_owner r := used_bytes b (bl_owner r) - bl_total r)\<rparr>))"

definition Storage_collectBlob :: "BlobGCResult \<Rightarrow> blob_db \<Rightarrow> (server_error + unit) \<times> blob_db" where
  "Storage_collectBlob item b =
     (case collect_rename item b of
        None \<Rightarrow> (Inl ErrSql, b)
      | Some (trash, b1) \<Rightarrow>
          (case collect_tx item b1 of
             Inl e \<Rightarrow> (Inl e, b1\<lparr>final_dirs := (final_dirs b1)((gr_WorkspaceID item, gr_BlobID item) \<mapsto> trash)\<rparr>)
           | Inr b2 \<Rightarrow> (Inr (), b2)))"

text \<open>
  The candidates are listed without \<open>writeMu\<close> and the lock is taken for each of them: \<open>between\<close>
  gives what the calls of others do between the listing, or the last candidate, and the next.
  (The command line runs the collector with the data directory locked, so nothing does there.)
\<close>

fun collect_all ::
    "(BlobGCResult \<Rightarrow> blob_db \<Rightarrow> blob_db) \<Rightarrow> BlobGCResult list \<Rightarrow> blob_db \<Rightarrow> (server_error option \<times> BlobGCResult list) \<times> blob_db" where
  "collect_all between [] b = ((None, []), b)"
| "collect_all between (item # items) b =
     (case Storage_collectBlob item (between item b) of
        (Inl e, b1) \<Rightarrow> ((Some e, item # items), b1)
      | (Inr _, b1) \<Rightarrow> (let ((e, rest), b2) = collect_all between items b1 in ((e, item\<lparr>gr_Removed := True\<rparr> # rest), b2)))"

definition GarbageCollectBlobs ::
    "(BlobGCResult \<Rightarrow> blob_db \<Rightarrow> blob_db) \<Rightarrow> int \<Rightarrow> bool \<Rightarrow> blob_db \<Rightarrow> (server_error option \<times> BlobGCResult list) \<times> blob_db" where
  "GarbageCollectBlobs between before dryRun b =
     (let results = gc_items (unreferenced_before before) b in
      if dryRun \<or> results = [] then ((None, results), b) else collect_all between results b)"

text \<open>One round of the loop of \<open>GarbageCollectStagingBlobs\<close>: the result tells whether the upload was removed.\<close>

definition collect_staging :: "BlobGCResult \<Rightarrow> blob_db \<Rightarrow> (server_error + bool) \<times> blob_db" where
  "collect_staging item b =
     (let ws = gr_WorkspaceID item; blob = gr_BlobID item in
      case find (\<lambda>r. bl_at ws blob r \<and> bl_state r = ''staging'') (blobs b) of
        None \<Rightarrow> (Inr False, b)
      | Some r \<Rightarrow>
          let b = b\<lparr>staging_dirs := (staging_dirs b)((ws, blob) := None), final_dirs := (final_dirs b)((ws, blob) := None)\<rparr> in
          if reserved_bytes b (bl_owner r) - bl_reserved r < 0 then (Inl ErrSql, b)
          else (Inr True, (delete_blob ws blob b)\<lparr>reserved_bytes := (reserved_bytes b)(bl_owner r := reserved_bytes b (bl_owner r) - bl_reserved r)\<rparr>))"

fun collect_all_staging ::
    "(BlobGCResult \<Rightarrow> blob_db \<Rightarrow> blob_db) \<Rightarrow> BlobGCResult list \<Rightarrow> blob_db \<Rightarrow> (server_error option \<times> BlobGCResult list) \<times> blob_db" where
  "collect_all_staging between [] b = ((None, []), b)"
| "collect_all_staging between (item # items) b =
     (case collect_staging item (between item b) of
        (Inl e, b1) \<Rightarrow> ((Some e, item # items), b1)
      | (Inr removed, b1) \<Rightarrow>
          (let ((e, rest), b2) = collect_all_staging between items b1 in ((e, item\<lparr>gr_Removed := removed\<rparr> # rest), b2)))"

definition GarbageCollectStagingBlobs ::
    "(BlobGCResult \<Rightarrow> blob_db \<Rightarrow> blob_db) \<Rightarrow> int \<Rightarrow> bool \<Rightarrow> blob_db \<Rightarrow> (server_error option \<times> BlobGCResult list) \<times> blob_db" where
  "GarbageCollectStagingBlobs between before dryRun b =
     (let result = gc_items (abandoned_before before) b in
      if dryRun then ((None, result), b) else collect_all_staging between result b)"

section \<open>Quotas and the consistency check\<close>

definition applyConfiguredQuotas :: "ServerConfig \<Rightarrow> server_db \<Rightarrow> server_db" where
  "applyConfiguredQuotas cfg db = db\<lparr>users := map (\<lambda>u. u\<lparr>u_quota := UserQuotaBytes cfg\<rparr>) (users db)\<rparr>"

definition sum_rows :: "(blob_row \<Rightarrow> int) \<Rightarrow> string \<Rightarrow> string \<Rightarrow> blob_db \<Rightarrow> int" where
  "sum_rows f user st b = sum_list (map f (filter (\<lambda>r. bl_owner r = user \<and> bl_state r = st) (blobs b)))"

fun verify_rows :: "(bytes \<Rightarrow> bytes) \<Rightarrow> blob_db \<Rightarrow> chunk_row list \<Rightarrow> server_error + unit" where
  "verify_rows sha256 b [] = Inr ()"
| "verify_rows sha256 b (c # cs) =
     (if list_ex (\<lambda>r. bl_at (ck_ws c) (ck_blob c) r \<and> bl_state r = ''complete'') (blobs b) then
        bind_res (verifyChunkFile sha256 (final_dirs b (ck_ws c, ck_blob c)) (ck_index c) (ck_bytes c) (ck_hash c)) (\<lambda>_. verify_rows sha256 b cs)
      else verify_rows sha256 b cs)"

text \<open>\<open>VerifyServerState\<close> after the two pragmas that check the database file itself.\<close>

definition VerifyServerState :: "(bytes \<Rightarrow> bytes) \<Rightarrow> server_db \<Rightarrow> blob_db \<Rightarrow> server_error + unit" where
  "VerifyServerState sha256 db b =
     (if list_ex (\<lambda>r. bl_refs r \<noteq> int (length (filter (rf_at (bl_ws r) (bl_id r)) (blob_references b)))) (blobs b) then Inl ErrSql
      else if list_ex (\<lambda>u. used_bytes b (u_id u) \<noteq> sum_rows bl_total (u_id u) ''complete'' b \<or>
             reserved_bytes b (u_id u) \<noteq> sum_rows bl_reserved (u_id u) ''staging'' b) (users db) then Inl ErrSql
      else verify_rows sha256 b (blob_chunks b))"

end
