(* ===== verification/Blob_Invariants.thy ===== *)
theory Blob_Invariants
  imports Server_Blobs
begin

text \<open>
  Histories of the server with its blobs, and what every call keeps. A history interleaves
  the calls of \<^typ>\<open>server_call\<close> with the blob methods; the methods that change files and tables
  also occur in a form that stops between the two, as after a crash. The invariant is the
  consistency that \<open>VerifyServerState\<close> checks, strengthened until every call keeps it.
\<close>

section \<open>Histories\<close>

datatype blob_call =
  BlobOther server_call
| BlobApplyQuotas
| BlobBegin string BlobInit int
| BlobPut string string string int bytes int
| BlobPutCrash string string string int bytes
| BlobComplete string string string int
| BlobCompleteCrash string string string
| BlobReference string string string string bool int
| BlobCollect BlobGCResult
| BlobCollectCrash BlobGCResult
| BlobCollectStaging BlobGCResult
| BlobCollectStagingCrash BlobGCResult

fun keep_db :: "'e + 'a \<times> blob_db \<Rightarrow> blob_db \<Rightarrow> blob_db" where
  "keep_db (Inl e) b = b"
| "keep_db (Inr (x, b')) b = b'"

fun keep_state :: "'e + blob_db \<Rightarrow> blob_db \<Rightarrow> blob_db" where
  "keep_state (Inl e) b = b"
| "keep_state (Inr b') b = b'"

definition drop_dirs :: "BlobGCResult \<Rightarrow> blob_db \<Rightarrow> blob_db" where
  "drop_dirs item b = (if list_ex (\<lambda>r. bl_at (gr_WorkspaceID item) (gr_BlobID item) r \<and> bl_state r = ''staging'') (blobs b)
     then b\<lparr>staging_dirs := (staging_dirs b)((gr_WorkspaceID item, gr_BlobID item) := None),
            final_dirs := (final_dirs b)((gr_WorkspaceID item, gr_BlobID item) := None)\<rparr> else b)"

fun blob_step :: "(bytes \<Rightarrow> bytes) \<Rightarrow> verifier \<Rightarrow> ServerConfig \<Rightarrow> int \<Rightarrow> blob_call \<Rightarrow> server_db \<times> blob_db \<Rightarrow> server_db \<times> blob_db" where
  "blob_step sha256 vf cfg cb (BlobOther c) (db, b) = (serve sha256 vf cfg c db, b)"
| "blob_step sha256 vf cfg cb BlobApplyQuotas (db, b) = (applyConfiguredQuotas cfg db, b)"
| "blob_step sha256 vf cfg cb (BlobBegin user request now) (db, b) = (db, keep_db (BeginBlob cfg cb user request now db b) b)"
| "blob_step sha256 vf cfg cb (BlobPut user ws blob i contents now) (db, b) =
     (db, keep_state (PutBlobChunk sha256 cb user ws blob i contents now db b) b)"
| "blob_step sha256 vf cfg cb (BlobPutCrash user ws blob i contents) (db, b) = (db, keep_db (put_files sha256 cb user ws blob i contents db b) b)"
| "blob_step sha256 vf cfg cb (BlobComplete user ws blob now) (db, b) = (db, snd (CompleteBlob sha256 user ws blob now db b))"
| "blob_step sha256 vf cfg cb (BlobCompleteCrash user ws blob) (db, b) = (db, keep_db (complete_files sha256 user ws blob db b) b)"
| "blob_step sha256 vf cfg cb (BlobReference user ws blob ref referenced now) (db, b) =
     (db, keep_state (SetBlobReferenced user ws blob ref referenced now db b) b)"
| "blob_step sha256 vf cfg cb (BlobCollect item) (db, b) = (db, snd (Storage_collectBlob item b))"
| "blob_step sha256 vf cfg cb (BlobCollectCrash item) (db, b) = (db, (case collect_rename item b of None \<Rightarrow> b | Some (d, b') \<Rightarrow> b'))"
| "blob_step sha256 vf cfg cb (BlobCollectStaging item) (db, b) = (db, snd (collect_staging item b))"
| "blob_step sha256 vf cfg cb (BlobCollectStagingCrash item) (db, b) = (db, drop_dirs item b)"

fun blob_run :: "(bytes \<Rightarrow> bytes) \<Rightarrow> verifier \<Rightarrow> ServerConfig \<Rightarrow> int \<Rightarrow> blob_call list \<Rightarrow> server_db \<times> blob_db \<Rightarrow> server_db \<times> blob_db" where
  "blob_run sha256 vf cfg cb [] s = s"
| "blob_run sha256 vf cfg cb (c # cs) s = blob_run sha256 vf cfg cb cs (blob_step sha256 vf cfg cb c s)"

locale blob_invariant =
  fixes sha256 :: "bytes \<Rightarrow> bytes" and vf :: verifier and cfg :: ServerConfig and cb :: int
    and allowed :: "blob_call \<Rightarrow> bool" and Q :: "server_db \<times> blob_db \<Rightarrow> bool"
  assumes step_keeps: "Q s \<Longrightarrow> allowed c \<Longrightarrow> Q (blob_step sha256 vf cfg cb c s)"
begin

lemma run_keeps: "Q s \<Longrightarrow> list_all allowed cs \<Longrightarrow> Q (blob_run sha256 vf cfg cb cs s)"
  by (induction cs arbitrary: s) (auto simp: step_keeps)

end

text \<open>
  The server over several starts: each start applies the configured quotas before it serves
  its calls, and may have another configuration.
\<close>

fun server_runs ::
    "(bytes \<Rightarrow> bytes) \<Rightarrow> verifier \<Rightarrow> int \<Rightarrow> (ServerConfig \<times> blob_call list) list \<Rightarrow> server_db \<times> blob_db \<Rightarrow> server_db \<times> blob_db" where
  "server_runs sha256 vf cb [] s = s"
| "server_runs sha256 vf cb ((cfg, cs) # runs) (db, b) =
     server_runs sha256 vf cb runs (blob_run sha256 vf cfg cb cs (applyConfiguredQuotas cfg db, b))"

definition in_runs :: "(blob_call \<Rightarrow> bool) \<Rightarrow> (ServerConfig \<times> blob_call list) list \<Rightarrow> bool" where
  "in_runs P runs \<longleftrightarrow> list_all (\<lambda>(cfg, cs). list_all P cs) runs"

lemma in_runs_simps [simp]: "in_runs P []" "in_runs P ((cfg, cs) # runs) \<longleftrightarrow> list_all P cs \<and> in_runs P runs"
  "in_runs P (runs @ runs') \<longleftrightarrow> in_runs P runs \<and> in_runs P runs'"
  by (simp_all add: in_runs_def)

text \<open>What every call keeps of the blobs, whatever the configuration, every history keeps.\<close>

lemma server_runs_keep:
  assumes calls: "\<And>cfg. blob_invariant sha256 vf cfg cb allowed (\<lambda>s. P (snd s))" and start: "P (snd s)" and runs: "in_runs allowed runs"
  shows "P (snd (server_runs sha256 vf cb runs s))"
  using start runs
proof (induction runs arbitrary: s)
  case (Cons run runs)
  obtain cfg cs where run: "run = (cfg, cs)" by (cases run)
  have "P (snd (blob_run sha256 vf cfg cb cs (applyConfiguredQuotas cfg (fst s), snd s)))"
    using blob_invariant.run_keeps [OF calls, of "(applyConfiguredQuotas cfg (fst s), snd s)" cs cfg] Cons.prems run by simp
  with Cons run show ?case by (cases s) simp
qed simp

lemma server_runs_append: "server_runs sha256 vf cb (runs @ runs') s = server_runs sha256 vf cb runs' (server_runs sha256 vf cb runs s)"
  by (induction sha256 vf cb runs s rule: server_runs.induct) auto

text \<open>What each call of others and each collected blob keep, the collector keeps.\<close>

lemma collect_all_keeps:
  assumes "\<And>item b. item \<in> set items \<Longrightarrow> P b \<Longrightarrow> P (snd (Storage_collectBlob item (between item b)))" "P b"
  shows "P (snd (collect_all between items b))"
  using assms
proof (induction items arbitrary: b)
  case (Cons item items)
  obtain r b1 where r: "Storage_collectBlob item (between item b) = (r, b1)" by (cases "Storage_collectBlob item (between item b)") auto
  with Cons.prems(1) [of item b] Cons.prems(2) have "P b1" by simp
  with Cons have "P (snd (collect_all between items b1))" by simp
  with r \<open>P b1\<close> show ?case by (cases r) (auto split: prod.splits)
qed simp

section \<open>The invariant\<close>

definition blob_of :: "blob_row \<Rightarrow> string \<times> string" where "blob_of r = (bl_ws r, bl_id r)"

definition chunk_of :: "chunk_row \<Rightarrow> string \<times> string" where "chunk_of c = (ck_ws c, ck_blob c)"

definition ref_of :: "reference_row \<Rightarrow> string \<times> string" where "ref_of r = (rf_ws r, rf_blob r)"

definition ref_key :: "reference_row \<Rightarrow> string \<times> string" where "ref_key r = (rf_ws r, rf_id r)"

lemma at_of [simp]: "bl_at ws blob = (\<lambda>r. blob_of r = (ws, blob))" "ck_at ws blob = (\<lambda>c. chunk_of c = (ws, blob))"
  "rf_at ws blob = (\<lambda>r. ref_of r = (ws, blob))"
  by (auto simp: bl_at_def ck_at_def rf_at_def blob_of_def chunk_of_def ref_of_def)

definition keys_ok :: "blob_db \<Rightarrow> bool" where
  "keys_ok b \<longleftrightarrow> distinct (map blob_of (blobs b)) \<and> chunk_of ` set (blob_chunks b) \<subseteq> blob_of ` set (blobs b) \<and>
     ref_of ` set (blob_references b) \<subseteq> blob_of ` set (blobs b) \<and> distinct (map ref_key (blob_references b))"

fun ids_ok :: "string \<times> string \<Rightarrow> bool" where
  "ids_ok (ws, blob) \<longleftrightarrow> validateID ws = Inr () \<and> validateBlobID blob = Inr ()"

definition row_ok :: "blob_db \<Rightarrow> blob_row \<Rightarrow> bool" where
  "row_ok b r \<longleftrightarrow> ids_ok (blob_of r) \<and> bl_total r > 0 \<and>
     (bl_state r = ''staging'' \<and> bl_reserved r = bl_total r \<and> bl_refs r = 0 \<or> bl_state r = ''complete'' \<and> bl_reserved r = 0) \<and>
     bl_refs r = int (length (filter (\<lambda>f. ref_of f = blob_of r) (blob_references b))) \<and>
     (\<exists>n > 0. map ck_index (filter (\<lambda>c. chunk_of c = blob_of r) (blob_chunks b)) = map int [0..<n])"

definition sums_ok :: "blob_db \<Rightarrow> bool" where
  "sums_ok b \<longleftrightarrow> used_bytes b = (\<lambda>u. sum_rows bl_total u ''complete'' b) \<and> reserved_bytes b = (\<lambda>u. sum_rows bl_reserved u ''staging'' b)"

definition complete_at :: "blob_db \<Rightarrow> string \<times> string \<Rightarrow> bool" where
  "complete_at b k \<longleftrightarrow> (\<exists>r \<in> set (blobs b). blob_of r = k \<and> bl_state r = ''complete'')"

definition chunk_stored :: "(bytes \<Rightarrow> bytes) \<Rightarrow> directory option \<Rightarrow> chunk_row \<Rightarrow> bool" where
  "chunk_stored sha256 d c \<longleftrightarrow> verifyChunkFile sha256 d (ck_index c) (ck_bytes c) (ck_hash c) = Inr ()"

definition files_ok :: "(bytes \<Rightarrow> bytes) \<Rightarrow> blob_db \<Rightarrow> bool" where
  "files_ok sha256 b \<longleftrightarrow> (\<forall>c \<in> set (blob_chunks b). complete_at b (chunk_of c) \<longrightarrow> chunk_stored sha256 (final_dirs b (chunk_of c)) c)"

definition blob_inv :: "(bytes \<Rightarrow> bytes) \<Rightarrow> blob_db \<Rightarrow> bool" where
  "blob_inv sha256 b \<longleftrightarrow> keys_ok b \<and> (\<forall>r \<in> set (blobs b). row_ok b r) \<and> sums_ok b \<and> files_ok sha256 b"

lemma blob_inv_empty: "blob_inv sha256 empty_blobs"
  by (simp add: blob_inv_def empty_blobs_def keys_ok_def sums_ok_def files_ok_def sum_rows_def)

lemma verify_rows_ok: "(\<forall>c \<in> set cs. complete_at b (chunk_of c) \<longrightarrow> chunk_stored sha256 (final_dirs b (chunk_of c)) c) \<Longrightarrow> verify_rows sha256 b cs = Inr ()"
  by (induction cs) (auto simp: complete_at_def chunk_stored_def chunk_of_def list_ex_iff)

lemma blob_inv_verifies: "blob_inv sha256 b \<Longrightarrow> VerifyServerState sha256 db b = Inr ()"
  by (auto simp: blob_inv_def VerifyServerState_def list_ex_iff row_ok_def sums_ok_def files_ok_def blob_of_def intro!: verify_rows_ok)

section \<open>Sums over the rows\<close>

lemma sum_rows_if: "sum_rows f user st b = sum_list (map (\<lambda>r. if bl_owner r = user \<and> bl_state r = st then f r else 0) (blobs b))"
  by (simp add: sum_rows_def sum_list_map_filter')

lemma sum_update_key:
  fixes g :: "'r \<Rightarrow> int"
  assumes "distinct (map key rows)" "r \<in> set rows" "\<And>x. P x \<longleftrightarrow> key x = key r"
  shows "sum_list (map g (update_rows P f rows)) = sum_list (map g rows) - g r + g (f r)"
  using assms
proof (induction rows)
  case (Cons x rows)
  show ?case
  proof (cases "r \<in> set rows")
    case True
    with Cons.prems have "\<not> P x" by (auto simp: image_iff)
    with Cons True show ?thesis by (simp add: update_rows_def)
  next
    case False
    with Cons.prems have x: "x = r" by auto
    with Cons.prems have "\<And>y. y \<in> set rows \<Longrightarrow> \<not> P y" by (auto simp: image_iff)
    then have "update_rows P f rows = rows" by (rule update_rows_id)
    with x Cons.prems(3) show ?thesis by (simp add: update_rows_def)
  qed
qed simp

lemma sum_delete_key:
  fixes g :: "'r \<Rightarrow> int"
  assumes "distinct (map key rows)" "r \<in> set rows" "\<And>x. P x \<longleftrightarrow> key x = key r"
  shows "sum_list (map g (filter (\<lambda>x. \<not> P x) rows)) = sum_list (map g rows) - g r"
  using assms
proof (induction rows)
  case (Cons x rows)
  show ?case
  proof (cases "r \<in> set rows")
    case True
    with Cons.prems have "\<not> P x" by (auto simp: image_iff)
    with Cons True show ?thesis by simp
  next
    case False
    with Cons.prems have x: "x = r" by auto
    with Cons.prems have "\<And>y. y \<in> set rows \<Longrightarrow> \<not> P y" by (auto simp: image_iff)
    then have "filter (\<lambda>x. \<not> P x) rows = rows" by simp
    with x Cons.prems(3) show ?thesis by simp
  qed
qed simp

section \<open>Announcing a blob\<close>

definition chunk_of_spec :: "string \<Rightarrow> string \<Rightarrow> BlobChunkSpec \<Rightarrow> chunk_row" where
  "chunk_of_spec ws blob s = \<lparr>ck_ws = ws, ck_blob = blob, ck_index = cs_Index s, ck_bytes = cs_Bytes s, ck_hash = hex_bytes (cs_SHA256 s), ck_uploaded = None\<rparr>"

lemma insert_chunks_Inr: "insert_chunks ws blob specs rows = Inr rows' \<Longrightarrow> rows' = rows @ map (chunk_of_spec ws blob) specs"
proof (induction specs arbitrary: rows)
  case (Cons s specs)
  from Cons.prems have "insert_chunks ws blob specs (rows @ [chunk_of_spec ws blob s]) = Inr rows'"
    by (simp add: chunk_of_spec_def split: if_splits)
  from Cons.IH [OF this] show ?case by simp
qed simp

lemma check_chunks_index: "check_chunks cb i t specs = Inr u \<Longrightarrow> map cs_Index specs = map (\<lambda>k. i + int k) [0..<length specs]"
proof (induction specs arbitrary: i t)
  case (Cons s specs)
  then have "cs_Index s = i" "map cs_Index specs = map (\<lambda>k. (i + 1) + int k) [0..<length specs]"
    by (auto split: if_splits option.splits)
  moreover have "map (\<lambda>k. i + int k) [0..<length (s # specs)] = i # map (\<lambda>k. (i + 1) + int k) [0..<length specs]"
    by (simp add: upt_conv_Cons map_Suc_upt [symmetric] del: upt_Suc)
  ultimately show ?case by simp
qed simp

lemma chunk_of_spec_simps [simp]: "chunk_of (chunk_of_spec ws blob s) = (ws, blob)" "ck_index (chunk_of_spec ws blob s) = cs_Index s"
  by (simp_all add: chunk_of_def chunk_of_spec_def)

lemma new_blob_simps [simp]: "blob_of (new_blob user request now) = (bi_WorkspaceID request, bi_BlobID request)"
  "bl_state (new_blob user request now) = ''staging''" "bl_owner (new_blob user request now) = user"
  "bl_total (new_blob user request now) = bi_TotalBytes request" "bl_reserved (new_blob user request now) = bi_TotalBytes request"
  "bl_refs (new_blob user request now) = 0"
  by (simp_all add: new_blob_def blob_of_def)

lemma BeginBlob_Inr:
  assumes "BeginBlob cfg cb user request now db b = Inr (info, b')"
  obtains "b' = b"
  | u where "find (\<lambda>u. u_id u = user) (users db) = Some u" "used_bytes b user + reserved_bytes b user + bi_TotalBytes request \<le> u_quota u"
      "bi_TotalBytes request > 0" "(bi_WorkspaceID request, bi_BlobID request) \<notin> blob_of ` set (blobs b)"
      "map cs_Index (bi_Chunks request) = map int [0..<length (bi_Chunks request)]" "bi_Chunks request \<noteq> []"
      "ids_ok (bi_WorkspaceID request, bi_BlobID request)"
      "b' = b\<lparr>reserved_bytes := (reserved_bytes b)(user := reserved_bytes b user + bi_TotalBytes request),
        blobs := blobs b @ [new_blob user request now],
        blob_chunks := blob_chunks b @ map (chunk_of_spec (bi_WorkspaceID request) (bi_BlobID request)) (bi_Chunks request)\<rparr>"
proof -
  from assms have pos: "bi_TotalBytes request > 0" and tx: "begin_tx user request now db b = Inr (info, b')"
    and specs: "validateChunkSpecs cb request = Inr ()" and ids: "ids_ok (bi_WorkspaceID request, bi_BlobID request)"
    by (auto simp: BeginBlob_def err_simps split: if_splits)
  from specs obtain t where t: "check_chunks cb 0 0 (bi_Chunks request) = Inr t" and ne: "bi_Chunks request \<noteq> []"
    by (auto simp: validateChunkSpecs_def err_simps split: if_splits)
  have ix: "map cs_Index (bi_Chunks request) = map int [0..<length (bi_Chunks request)]"
    using check_chunks_index [OF t] by simp
  show ?thesis
  proof (cases "find (bl_at (bi_WorkspaceID request) (bi_BlobID request)) (blobs b)")
    case (Some r)
    with tx show ?thesis by (auto simp: begin_tx_def Let_def split: if_splits intro: that)
  next
    case None
    with tx obtain b1 rows where b1: "reserve user (bi_TotalBytes request) db b = Inr b1"
      and rows: "insert_chunks (bi_WorkspaceID request) (bi_BlobID request) (bi_Chunks request) (blob_chunks b1) = Inr rows"
      and b': "b' = b1\<lparr>blobs := blobs b1 @ [new_blob user request now], blob_chunks := rows\<rparr>"
      by (auto simp: begin_tx_def Let_def err_simps simp del: at_of split: if_splits)
    from b1 obtain u where u: "find (\<lambda>u. u_id u = user) (users db) = Some u" "used_bytes b user + reserved_bytes b user + bi_TotalBytes request \<le> u_quota u"
      "b1 = b\<lparr>reserved_bytes := (reserved_bytes b)(user := reserved_bytes b user + bi_TotalBytes request)\<rparr>"
      by (auto simp: reserve_def split: option.splits if_splits)
    have fresh: "(bi_WorkspaceID request, bi_BlobID request) \<notin> blob_of ` set (blobs b)"
      using None by (auto simp: find_None_iff)
    show ?thesis using that(2) [OF u(1,2) pos fresh ix ne ids] b' u(3) insert_chunks_Inr [OF rows] by simp
  qed
qed

lemma complete_at_snoc: "bl_state r \<noteq> ''complete'' \<Longrightarrow> complete_at (b\<lparr>blobs := blobs b @ [r]\<rparr>) k \<longleftrightarrow> complete_at b k"
  by (auto simp: complete_at_def)

lemma complete_at_in: "complete_at b k \<Longrightarrow> k \<in> blob_of ` set (blobs b)"
  by (auto simp: complete_at_def)

lemma no_rows:
  assumes "keys_ok b" "k \<notin> blob_of ` set (blobs b)"
  shows "filter (\<lambda>c. chunk_of c = k) (blob_chunks b) = []" "filter (\<lambda>f. ref_of f = k) (blob_references b) = []"
  using assms unfolding filter_empty_conv keys_ok_def by (metis imageI subsetD)+

lemma inv_Begin:
  assumes inv: "blob_inv sha256 b" and b: "BeginBlob cfg cb user request now db b = Inr (info, b')"
  shows "blob_inv sha256 b'"
  using b
proof (cases rule: BeginBlob_Inr)
  case (2 u)
  let ?k = "(bi_WorkspaceID request, bi_BlobID request)"
  let ?new = "map (chunk_of_spec (bi_WorkspaceID request) (bi_BlobID request)) (bi_Chunks request)"
  from inv have k: "keys_ok b" and r: "\<And>r. r \<in> set (blobs b) \<Longrightarrow> row_ok b r" and s: "sums_ok b" and f: "files_ok sha256 b"
    by (auto simp: blob_inv_def)
  have "keys_ok b'" using k 2(4) by (auto simp: keys_ok_def 2(8))
  moreover have "row_ok b' r" if "r \<in> set (blobs b)" for r
  proof -
    have "blob_of r \<noteq> ?k" using that 2(4) by (metis imageI)
    then have "filter (\<lambda>c. chunk_of c = blob_of r) ?new = []" by (auto simp: filter_empty_conv)
    then have "row_ok b' r \<longleftrightarrow> row_ok b r" by (simp add: row_ok_def 2(8))
    with r [OF that] show ?thesis by simp
  qed
  moreover have "row_ok b' (new_blob user request now)"
  proof -
    have "filter (\<lambda>c. chunk_of c = ?k) (blob_chunks b) = []" "filter (\<lambda>f. ref_of f = ?k) (blob_references b) = []"
      using no_rows [OF k 2(4)] by simp_all
    moreover have "filter (\<lambda>c. chunk_of c = ?k) ?new = ?new" by simp
    ultimately show ?thesis using 2(3,5-7) by (auto simp: row_ok_def 2(8) comp_def)
  qed
  moreover have "sums_ok b'" using s by (auto simp: sums_ok_def sum_rows_def 2(8) fun_eq_iff)
  moreover have "files_ok sha256 b'"
  proof -
    have "complete_at b' = complete_at b" by (auto simp: complete_at_def 2(8) fun_eq_iff)
    then show ?thesis using f 2(4) by (auto simp: files_ok_def 2(8) dest: complete_at_in)
  qed
  ultimately show ?thesis by (auto simp: blob_inv_def 2(8))
qed (use inv in simp)

section \<open>Uploading a chunk\<close>

lemma inv_staging [simp]: "blob_inv sha256 (b\<lparr>staging_dirs := d\<rparr>) = blob_inv sha256 b"
  by (simp add: blob_inv_def keys_ok_def row_ok_def sums_ok_def sum_rows_def files_ok_def complete_at_def)

lemma put_files_Inr:
  assumes "put_files sha256 cb user ws blob i contents db b = Inr (mark, b')"
  shows "\<exists>d. b' = b\<lparr>staging_dirs := d\<rparr>"
proof -
  have "\<exists>d. b = b\<lparr>staging_dirs := d\<rparr>" by (rule exI [of _ "staging_dirs b"]) simp
  with assms show ?thesis
    by (auto simp: put_files_def err_simps Let_def simp del: at_of split: if_splits option.splits)
qed

lemma inv_mark:
  assumes "blob_inv sha256 b"
  shows "blob_inv sha256 (mark_uploaded ws blob i now b)"
proof -
  let ?P = "\<lambda>c. chunk_of c = (ws, blob) \<and> ck_index c = i" and ?f = "\<lambda>c. c\<lparr>ck_uploaded := Some (unixNow now)\<rparr>"
  have [simp]: "chunk_of (?f c) = chunk_of c" for c by (simp add: chunk_of_def)
  have "map ck_index (filter R (update_rows ?P ?f rows)) = map ck_index (filter R rows)"
    if "\<And>c. R (?f c) = R c" for R rows
    using that by (simp add: filter_update_rows map_update_rows)
  moreover have "chunk_of ` set (update_rows ?P ?f rows) = chunk_of ` set rows" for rows
    by (simp add: image_update_rows)
  moreover have "chunk_stored sha256 d (?f c) = chunk_stored sha256 d c" for d c by (simp add: chunk_stored_def)
  ultimately show ?thesis using assms
    by (auto simp: mark_uploaded_def blob_inv_def keys_ok_def row_ok_def sums_ok_def sum_rows_def files_ok_def complete_at_def set_update_rows)
qed

lemma inv_Put: "blob_inv sha256 b \<Longrightarrow> PutBlobChunk sha256 cb user ws blob i contents now db b = Inr b' \<Longrightarrow> blob_inv sha256 b'"
  by (auto simp: PutBlobChunk_def err_simps inv_mark dest!: put_files_Inr split: if_splits)

section \<open>Completing a blob\<close>

lemma hex_bytes_encode [simp]: "hex_bytes (hex_encode h) = h"
  by (simp add: hex_bytes_def)

lemma verify_specs_rows:
  "verify_specs sha256 d (map (\<lambda>c. \<lparr>cs_Index = ck_index c, cs_Bytes = ck_bytes c, cs_SHA256 = hex_encode (ck_hash c)\<rparr>) rows) = Inr () \<longleftrightarrow>
   (\<forall>c \<in> set rows. chunk_stored sha256 d c)"
  by (induction rows) (auto simp: err_simps chunk_stored_def)

lemma info_of_simps [simp]: "bf_State (info_of r b) = bl_state r"
  "bf_Chunks (info_of r b) = map (\<lambda>c. \<lparr>cs_Index = ck_index c, cs_Bytes = ck_bytes c, cs_SHA256 = hex_encode (ck_hash c)\<rparr>)
     (sort_key ck_index (filter (\<lambda>c. chunk_of c = blob_of r) (blob_chunks b)))"
  by (simp_all add: info_of_def readBlobChunks_def Let_def blob_of_def)

lemma blobInfo_Inr: "blobInfo ws blob b = Inr info \<longleftrightarrow> (\<exists>r. find (\<lambda>r. blob_of r = (ws, blob)) (blobs b) = Some r \<and> info = info_of r b)"
  by (auto simp: blobInfo_def split: option.splits)

lemma find_key_Some: "find (\<lambda>r. key r = k \<and> P r) rows = Some r \<Longrightarrow> r \<in> set rows \<and> key r = k \<and> P r"
  by (auto simp: find_Some_iff)

lemma complete_files_Inr:
  assumes "complete_files sha256 user ws blob db b = Inr (info, b')"
  obtains "bf_State info = ''complete''" "b' = b"
  | r d st where "r \<in> set (blobs b)" "blob_of r = (ws, blob)" "bl_state r \<noteq> ''complete''" "bf_State info = bl_state r"
      "b' = b\<lparr>staging_dirs := st, final_dirs := (final_dirs b)((ws, blob) \<mapsto> d)\<rparr>"
      "\<And>c. c \<in> set (blob_chunks b) \<Longrightarrow> chunk_of c = (ws, blob) \<Longrightarrow> chunk_stored sha256 (Some d) c"
proof -
  let ?source = "case final_dirs b (ws, blob) of None \<Rightarrow> staging_dirs b (ws, blob) | Some d \<Rightarrow> Some d"
  from assms obtain r where r: "find (\<lambda>r. blob_of r = (ws, blob)) (blobs b) = Some r" "blobInfo ws blob b = Inr (info_of r b)"
    by (auto simp: complete_files_def err_simps blobInfo_Inr split: if_splits)
  then have in_r: "r \<in> set (blobs b)" "blob_of r = (ws, blob)" by (auto simp: find_Some_iff)
  show ?thesis
  proof (cases "bl_state r = ''complete''")
    case True
    with assms r have "info = info_of r b" "b' = b" by (auto simp: complete_files_def err_simps split: if_splits)
    with True that(1) show ?thesis by simp
  next
    case False
    with assms r have v: "verify_specs sha256 ?source (bf_Chunks (info_of r b)) = Inr ()" and i: "info = info_of r b"
      and b': "(case (final_dirs b (ws, blob), staging_dirs b (ws, blob)) of
               (Some _, _) \<Rightarrow> Inr (info, b)
             | (None, None) \<Rightarrow> Inl ErrSql
             | (None, Some d) \<Rightarrow>
                 Inr (info, b\<lparr>staging_dirs := (staging_dirs b)((ws, blob) := None), final_dirs := (final_dirs b)((ws, blob) \<mapsto> d)\<rparr>)) = Inr (info, b')"
      by (auto simp: complete_files_def err_simps Let_def split: if_splits option.splits)
    from v in_r have st: "\<And>c. c \<in> set (blob_chunks b) \<Longrightarrow> chunk_of c = (ws, blob) \<Longrightarrow> chunk_stored sha256 ?source c"
      by (simp add: verify_specs_rows)
    show ?thesis
    proof (cases "final_dirs b (ws, blob)")
      case None
      with b' obtain d where d: "staging_dirs b (ws, blob) = Some d"
        "b' = b\<lparr>staging_dirs := (staging_dirs b)((ws, blob) := None), final_dirs := (final_dirs b)((ws, blob) \<mapsto> d)\<rparr>"
        by (auto split: option.splits)
      show ?thesis by (rule that(2) [OF in_r False _ d(2)]) (use st None d i in simp_all)
    next
      case (Some d)
      then have e: "b' = b\<lparr>staging_dirs := staging_dirs b, final_dirs := (final_dirs b)((ws, blob) \<mapsto> d)\<rparr>"
        using b' by (simp add: fun_upd_idem)
      show ?thesis by (rule that(2) [OF in_r False _ e]) (use st Some i in simp_all)
    qed
  qed
qed

lemma not_complete: "keys_ok b \<Longrightarrow> r \<in> set (blobs b) \<Longrightarrow> bl_state r \<noteq> ''complete'' \<Longrightarrow> \<not> complete_at b (blob_of r)"
  by (auto simp: complete_at_def keys_ok_def dest: distinct_key)

lemma inv_final:
  assumes "blob_inv sha256 b" "\<not> complete_at b k"
  shows "blob_inv sha256 (b\<lparr>final_dirs := (final_dirs b)(k := d)\<rparr>)"
  using assms
  by (auto simp: blob_inv_def keys_ok_def row_ok_def sums_ok_def sum_rows_def files_ok_def complete_at_def)

lemma inv_complete_files:
  assumes inv: "blob_inv sha256 b" and c: "complete_files sha256 user ws blob db b = Inr (info, b')"
  shows "blob_inv sha256 b'"
  using c
proof (cases rule: complete_files_Inr)
  case (2 r d st)
  have "\<not> complete_at b (ws, blob)" using not_complete [of b r] inv 2(1-3) by (auto simp: blob_inv_def)
  then have "\<not> complete_at (b\<lparr>staging_dirs := st\<rparr>) (ws, blob)" by (simp add: complete_at_def)
  with inv have "blob_inv sha256 (b\<lparr>staging_dirs := st, final_dirs := (final_dirs (b\<lparr>staging_dirs := st\<rparr>))((ws, blob) \<mapsto> d)\<rparr>)"
    by (intro inv_final) simp_all
  then show ?thesis by (simp add: 2(5))
qed (use inv in simp)

definition completed_row :: "int \<Rightarrow> blob_row \<Rightarrow> blob_row" where
  "completed_row now r = r\<lparr>bl_state := ''complete'', bl_reserved := 0, bl_completed := Some (unixNow now),
     bl_unreferenced := (if bl_refs r = 0 then Some (unixNow now) else None)\<rparr>"

lemma completed_row_simps [simp]: "blob_of (completed_row now r) = blob_of r" "bl_state (completed_row now r) = ''complete''"
  "bl_owner (completed_row now r) = bl_owner r" "bl_total (completed_row now r) = bl_total r" "bl_reserved (completed_row now r) = 0"
  "bl_refs (completed_row now r) = bl_refs r"
  by (simp_all add: completed_row_def blob_of_def)

lemma complete_tx_Inr:
  assumes "complete_tx ws blob now info b = Inr (info', b')"
  obtains "b' = b"
  | r where "r \<in> set (blobs b)" "blob_of r = (ws, blob)" "bl_state r = ''staging''"
      "b' = b\<lparr>blobs := update_rows (\<lambda>r. blob_of r = (ws, blob)) (completed_row now) (blobs b),
        reserved_bytes := (reserved_bytes b)(bl_owner r := reserved_bytes b (bl_owner r) - bl_reserved r),
        used_bytes := (used_bytes b)(bl_owner r := used_bytes b (bl_owner r) + bl_reserved r)\<rparr>"
proof (cases "find (\<lambda>r. blob_of r = (ws, blob) \<and> bl_state r = ''staging'') (blobs b)")
  case None
  with assms have "b' = b" by (auto simp: complete_tx_def err_simps)
  then show ?thesis by (rule that(1))
next
  case (Some r)
  from find_key_Some [OF this] have r: "r \<in> set (blobs b)" "blob_of r = (ws, blob)" "bl_state r = ''staging''" by auto
  show ?thesis
    by (rule that(2) [OF r]) (use assms Some in \<open>auto simp: complete_tx_def completed_row_def [abs_def] split: if_splits\<close>)
qed

lemma inv_complete_tx:
  assumes inv: "blob_inv sha256 b" and t: "complete_tx ws blob now info b = Inr (info', b')"
    and files: "\<And>c. c \<in> set (blob_chunks b) \<Longrightarrow> chunk_of c = (ws, blob) \<Longrightarrow> chunk_stored sha256 (final_dirs b (ws, blob)) c"
  shows "blob_inv sha256 b'"
  using t
proof (cases rule: complete_tx_Inr)
  case (2 r)
  let ?P = "\<lambda>r. blob_of r = (ws, blob)" and ?f = "completed_row now"
  from inv have k: "keys_ok b" and r: "\<And>r. r \<in> set (blobs b) \<Longrightarrow> row_ok b r" and s: "sums_ok b" and f: "files_ok sha256 b"
    by (auto simp: blob_inv_def)
  have keys: "map blob_of (update_rows ?P ?f (blobs b)) = map blob_of (blobs b)" by (rule map_update_rows) simp
  then have "keys_ok b'" using k by (simp add: keys_ok_def 2(4) image_update_rows)
  moreover have "row_ok b' x" if "x \<in> set (blobs b')" for x
  proof -
    from that obtain y where y: "y \<in> set (blobs b)" "x = y \<or> x = ?f y" by (auto simp: 2(4) set_update_rows)
    with r [OF y(1)] show ?thesis unfolding row_ok_def 2(4) by auto
  qed
  moreover have "sums_ok b'"
  proof -
    have d: "distinct (map blob_of (blobs b))" using k by (simp add: keys_ok_def)
    note u = sum_update_key [OF d 2(1), of ?P _ ?f, unfolded 2(2), OF refl]
    have "bl_reserved r = bl_total r" using r [OF 2(1)] 2(3) by (simp add: row_ok_def)
    with s 2(3) show ?thesis by (auto simp: sums_ok_def sum_rows_if 2(4) u fun_eq_iff)
  qed
  moreover have "files_ok sha256 b'"
  proof -
    have "complete_at b' x \<Longrightarrow> x = (ws, blob) \<or> complete_at b x" for x
      by (auto simp: complete_at_def 2(4) set_update_rows)
    moreover have "blob_chunks b' = blob_chunks b" "final_dirs b' = final_dirs b" by (simp_all add: 2(4))
    ultimately show ?thesis using f files unfolding files_ok_def by metis
  qed
  ultimately show ?thesis by (auto simp: blob_inv_def)
qed (use inv in simp)

lemma inv_Complete: "blob_inv sha256 b \<Longrightarrow> blob_inv sha256 (snd (CompleteBlob sha256 user ws blob now db b))"
proof (cases "complete_files sha256 user ws blob db b")
  case (Inr p)
  assume inv: "blob_inv sha256 b"
  obtain info b1 where p: "p = (info, b1)" by (cases p)
  note c = Inr [unfolded p]
  have inv1: "blob_inv sha256 b1" by (rule inv_complete_files [OF inv c])
  show ?thesis
  proof (cases "bf_State info = ''complete''")
    case True
    with inv1 c show ?thesis by (simp add: CompleteBlob_def)
  next
    case False
    have "blob_inv sha256 b2" if "complete_tx ws blob now info b1 = Inr (info', b2)" for info' b2
      using c False by (cases rule: complete_files_Inr) (use inv_complete_tx [OF inv1 that] in auto)
    with inv1 c False show ?thesis by (auto simp: CompleteBlob_def split: sum.splits)
  qed
qed (simp add: CompleteBlob_def)

section \<open>References\<close>

lemma blob_frame:
  assumes inv: "blob_inv sha256 b" and rows: "blobs b' = update_rows (\<lambda>r. blob_of r = k) f (blobs b)"
    and f: "\<And>r. blob_of (f r) = blob_of r" "\<And>r. bl_state (f r) = bl_state r" "\<And>r. bl_owner (f r) = bl_owner r"
      "\<And>r. bl_total (f r) = bl_total r" "\<And>r. bl_reserved (f r) = bl_reserved r"
    and same: "blob_chunks b' = blob_chunks b" "used_bytes b' = used_bytes b" "reserved_bytes b' = reserved_bytes b" "final_dirs b' = final_dirs b"
    and keys: "ref_of ` set (blob_references b') \<subseteq> blob_of ` set (blobs b)" "distinct (map ref_key (blob_references b'))"
    and refs: "\<And>r. r \<in> set (blobs b') \<Longrightarrow> bl_refs r = int (length (filter (\<lambda>x. ref_of x = blob_of r) (blob_references b')))"
    and staging: "\<And>r. r \<in> set (blobs b') \<Longrightarrow> bl_state r = ''staging'' \<Longrightarrow> bl_refs r = 0"
  shows "blob_inv sha256 b'"
proof -
  have m: "map g (blobs b') = map g (blobs b)" if "\<And>r. g (f r) = g r" for g :: "blob_row \<Rightarrow> 'z"
    by (simp add: rows map_update_rows that)
  have set: "\<exists>r0 \<in> set (blobs b). r = r0 \<or> r = f r0" if "r \<in> set (blobs b')" for r
    using that by (auto simp: rows set_update_rows)
  have "blob_of ` set (blobs b') = blob_of ` set (blobs b)" by (simp add: rows image_update_rows f)
  then have "keys_ok b'" using inv keys m [of blob_of] by (simp add: blob_inv_def keys_ok_def same f)
  moreover have "row_ok b' r" if "r \<in> set (blobs b')" for r
  proof -
    from set [OF that] obtain r0 where r0: "row_ok b r0" "r = r0 \<or> r = f r0" using inv by (auto simp: blob_inv_def)
    then have "bl_total r = bl_total r0" "bl_state r = bl_state r0" "bl_reserved r = bl_reserved r0" "blob_of r = blob_of r0"
      by (auto simp: f)
    with r0(1) staging [OF that] refs [OF that] show ?thesis unfolding row_ok_def same by auto
  qed
  moreover have "sum_rows g u st b' = sum_rows g u st b" if "\<And>r. g (f r) = g r" for g u st
    unfolding sum_rows_if using m [of "\<lambda>r. if bl_owner r = u \<and> bl_state r = st then g r else 0"] by (simp add: f that)
  then have "sums_ok b'" using inv by (simp add: blob_inv_def sums_ok_def f same)
  moreover have "complete_at b' x \<Longrightarrow> complete_at b x" for x
    unfolding complete_at_def using set f by metis
  then have "files_ok sha256 b'" using inv by (auto simp: blob_inv_def files_ok_def same)
  ultimately show ?thesis by (auto simp: blob_inv_def)
qed

lemma filter_key_remove1: "distinct (map key xs) \<Longrightarrow> x \<in> set xs \<Longrightarrow> filter (\<lambda>y. key y \<noteq> key x) xs = remove1 x xs"
proof (induction xs)
  case (Cons y ys)
  show ?case
  proof (cases "x = y")
    case True
    with Cons.prems(1) have "\<forall>z \<in> set ys. key z \<noteq> key x" by (metis distinct.simps(2) imageI list.simps(9) set_map)
    with True show ?thesis by (simp add: filter_id_conv)
  next
    case False
    with Cons.prems have "key y \<noteq> key x" by auto
    with Cons False show ?thesis by auto
  qed
qed simp

lemma blob_of_refs [simp]: "blob_of (r\<lparr>bl_refs := m, bl_unreferenced := n\<rparr>) = blob_of r"
  by (simp add: blob_of_def)

lemma rows_unique: "keys_ok b \<Longrightarrow> r \<in> set (blobs b) \<Longrightarrow> x \<in> set (blobs b) \<Longrightarrow> blob_of x = blob_of r \<Longrightarrow> x = r"
  by (auto simp: keys_ok_def intro: distinct_key)

lemma row_refs: "row_ok b r \<Longrightarrow> bl_refs r = int (length (filter (\<lambda>y. ref_of y = blob_of r) (blob_references b)))"
  by (simp add: row_ok_def)

lemma updated_row:
  assumes "keys_ok b" "r \<in> set (blobs b)" "x \<in> set (update_rows (\<lambda>r'. blob_of r' = blob_of r) f (blobs b))"
  shows "x \<in> set (blobs b) \<and> blob_of x \<noteq> blob_of r \<or> x = f r"
  using assms rows_unique [OF assms(1,2)] by (auto simp: set_update_rows)

lemma inv_add_reference:
  assumes inv: "blob_inv sha256 b" and r: "r \<in> set (blobs b)" "bl_state r = ''complete''"
    and new: "ref_of x = blob_of r" "ref_key x \<notin> ref_key ` set (blob_references b)"
  shows "blob_inv sha256 (b\<lparr>blob_references := blob_references b @ [x],
    blobs := update_rows (\<lambda>r'. blob_of r' = blob_of r) (\<lambda>r. r\<lparr>bl_refs := bl_refs r + 1, bl_unreferenced := None\<rparr>) (blobs b)\<rparr>)" (is "blob_inv _ ?b")
proof -
  let ?f = "\<lambda>r. r\<lparr>bl_refs := bl_refs r + 1, bl_unreferenced := None\<rparr>"
  from inv have k: "keys_ok b" and ok: "\<And>r. r \<in> set (blobs b) \<Longrightarrow> row_ok b r" by (auto simp: blob_inv_def)
  note row = updated_row [OF k r(1), where f = ?f]
  show ?thesis
  proof (rule blob_frame [OF inv, where k = "blob_of r" and f = ?f])
    show "ref_of ` set (blob_references ?b) \<subseteq> blob_of ` set (blobs b)" using k r new(1) by (auto simp: keys_ok_def)
    show "distinct (map ref_key (blob_references ?b))" using k new(2) by (simp add: keys_ok_def)
    show "bl_refs y = int (length (filter (\<lambda>z. ref_of z = blob_of y) (blob_references ?b)))" if "y \<in> set (blobs ?b)" for y
      using row [of y] that row_refs [OF ok, of y] row_refs [OF ok [OF r(1)]] new(1) by auto
    show "bl_refs y = 0" if "y \<in> set (blobs ?b)" "bl_state y = ''staging''" for y
      using row [of y] that ok [of y] r(2) by (auto simp: row_ok_def)
  qed simp_all
qed

lemma inv_drop_reference:
  assumes inv: "blob_inv sha256 b" and r: "r \<in> set (blobs b)" "bl_state r = ''complete''"
    and y: "y \<in> set (blob_references b)" "ref_of y = blob_of r"
  shows "blob_inv sha256 (b\<lparr>blob_references := remove1 y (blob_references b),
    blobs := update_rows (\<lambda>r'. blob_of r' = blob_of r)
      (\<lambda>r. r\<lparr>bl_refs := bl_refs r - 1, bl_unreferenced := (if bl_refs r = 1 then Some t else None)\<rparr>) (blobs b)\<rparr>)" (is "blob_inv _ ?b")
proof -
  let ?f = "\<lambda>r. r\<lparr>bl_refs := bl_refs r - 1, bl_unreferenced := (if bl_refs r = 1 then Some t else None)\<rparr>"
  from inv have k: "keys_ok b" and ok: "\<And>r. r \<in> set (blobs b) \<Longrightarrow> row_ok b r" by (auto simp: blob_inv_def)
  note row = updated_row [OF k r(1), where f = ?f]
  have len: "length (filter (\<lambda>z. ref_of z = q) (remove1 y (blob_references b))) =
      (if ref_of y = q then length (filter (\<lambda>z. ref_of z = q) (blob_references b)) - 1 else length (filter (\<lambda>z. ref_of z = q) (blob_references b)))" for q
    using y(1) by (auto simp: filter_remove1 length_remove1 [of y] remove1_idem)
  have pos: "length (filter (\<lambda>z. ref_of z = blob_of r) (blob_references b)) > 0"
    using y by (auto simp: filter_empty_conv)
  then have one: "int (length (filter (\<lambda>z. ref_of z = blob_of r) (blob_references b)) - Suc 0) =
      int (length (filter (\<lambda>z. ref_of z = blob_of r) (blob_references b))) - 1" by linarith
  show ?thesis
  proof (rule blob_frame [OF inv, where k = "blob_of r" and f = ?f])
    show "ref_of ` set (blob_references ?b) \<subseteq> blob_of ` set (blobs b)"
      using k set_remove1_subset [of y "blob_references b"] by (simp add: keys_ok_def) blast
    have "distinct (map ref_key (filter (\<lambda>z. ref_key z \<noteq> ref_key y) (blob_references b)))"
      using k by (simp add: keys_ok_def distinct_map_filter)
    then show "distinct (map ref_key (blob_references ?b))" using filter_key_remove1 [OF _ y(1), of ref_key] k by (simp add: keys_ok_def)
    show "bl_refs x = int (length (filter (\<lambda>z. ref_of z = blob_of x) (blob_references ?b)))" if "x \<in> set (blobs ?b)" for x
    proof -
      from that have "x \<in> set (update_rows (\<lambda>r'. blob_of r' = blob_of r) ?f (blobs b))" by simp
      from row [OF this] show ?thesis
      proof
        assume "x \<in> set (blobs b) \<and> blob_of x \<noteq> blob_of r"
        with row_refs [OF ok, of x] y(2) show ?thesis by (auto simp: len)
      next
        assume x: "x = ?f r"
        then have "bl_refs x = bl_refs r - 1" "blob_of x = blob_of r" by (simp_all add: blob_of_def)
        with row_refs [OF ok [OF r(1)]] y(2) one show ?thesis by (simp add: len)
      qed
    qed
    show "bl_refs x = 0" if "x \<in> set (blobs ?b)" "bl_state x = ''staging''" for x
    proof -
      from that have "x \<in> set (update_rows (\<lambda>r'. blob_of r' = blob_of r) ?f (blobs b))" by simp
      from row [OF this] show ?thesis
      proof
        assume "x \<in> set (blobs b) \<and> blob_of x \<noteq> blob_of r"
        with ok [of x] that(2) show ?thesis by (auto simp: row_ok_def)
      next
        assume x: "x = ?f r"
        then have "bl_state x = bl_state r" by simp
        with that(2) r(2) show ?thesis by simp
      qed
    qed
  qed simp_all
qed

lemma inv_reference:
  assumes inv: "blob_inv sha256 b" and r: "r \<in> set (blobs b)" "blob_of r = (ws, blob)" "bl_state r = ''complete''"
    and t: "reference_tx ws blob ref on now b = Inr b'"
  shows "blob_inv sha256 b'"
proof -
  let ?x = "\<lparr>rf_ws = ws, rf_blob = blob, rf_id = ref, rf_created = unixNow now\<rparr>"
  let ?P = "\<lambda>y. ref_of y = (ws, blob) \<and> rf_id y = ref"
  from inv have k: "keys_ok b" and ok: "row_ok b r" using r(1) by (auto simp: blob_inv_def)
  consider "b' = b" | "on" "b' \<noteq> b" | y where "\<not> on" "b' \<noteq> b" "y \<in> set (blob_references b)" "?P y"
    using t by (auto simp: reference_tx_def list_ex_iff split: if_splits)
  then show ?thesis
  proof cases
    case 2
    with t have "ref_key ?x \<notin> ref_key ` set (blob_references b)"
      by (auto simp: reference_tx_def find_None_iff ref_key_def split: option.splits if_splits)
    from inv_add_reference [OF inv r(1,3) _ this] t 2 show ?thesis
      by (auto simp: reference_tx_def ref_of_def r(2) split: option.splits if_splits)
  next
    case (3 y)
    have dk: "distinct (map ref_key (blob_references b))" using k by (simp add: keys_ok_def)
    have "filter (\<lambda>x. \<not> ?P x) (blob_references b) = filter (\<lambda>x. ref_key x \<noteq> ref_key y) (blob_references b)"
      by (rule filter_cong) (use 3(4) distinct_key [OF dk _ 3(3)] in \<open>auto simp: ref_key_def ref_of_def\<close>)
    then have refs: "filter (\<lambda>x. \<not> ?P x) (blob_references b) = remove1 y (blob_references b)"
      using filter_key_remove1 [OF dk 3(3)] by simp
    have "bl_refs r > 0" using row_refs [OF ok] 3(3,4) r(2) by (auto simp: filter_empty_conv)
    then have "update_rows (\<lambda>x. blob_of x = (ws, blob) \<and> bl_refs x > 0) f (blobs b) = update_rows (\<lambda>x. blob_of x = blob_of r) f (blobs b)" for f
      using rows_unique [OF k r(1)] r(2) by (auto simp: update_rows_def)
    with inv_drop_reference [OF inv r(1,3) 3(3)] t 3 refs r(2) show ?thesis
      by (auto simp: reference_tx_def list_ex_iff split: if_splits)
  qed (use inv in simp)
qed

lemma inv_SetBlobReferenced: "blob_inv sha256 b \<Longrightarrow> SetBlobReferenced user ws blob ref on now db b = Inr b' \<Longrightarrow> blob_inv sha256 b'"
  by (auto simp: SetBlobReferenced_def err_simps split: option.splits if_splits
      dest!: find_key_Some [where P = "\<lambda>_. True", simplified] intro: inv_reference)

section \<open>Collection\<close>

lemma filter_other: "k \<noteq> q \<Longrightarrow> filter (\<lambda>y. g y = k) (filter (\<lambda>y. g y \<noteq> q) ys) = filter (\<lambda>y. g y = k) ys"
  by (auto intro: filter_cong)

text \<open>Deleting a blob, with the counters reduced by its share.\<close>

lemma inv_delete:
  assumes inv: "blob_inv sha256 b" and r: "r \<in> set (blobs b)" "blob_of r = (ws, blob)"
    and same: "blobs b' = blobs (delete_blob ws blob b)" "blob_chunks b' = blob_chunks (delete_blob ws blob b)"
      "blob_references b' = blob_references (delete_blob ws blob b)"
    and files: "\<And>k. k \<noteq> (ws, blob) \<Longrightarrow> final_dirs b' k = final_dirs b k"
    and used: "used_bytes b' = (if bl_state r = ''complete'' then (used_bytes b)(bl_owner r := used_bytes b (bl_owner r) - bl_total r) else used_bytes b)"
    and reserved: "reserved_bytes b' = (if bl_state r = ''staging'' then (reserved_bytes b)(bl_owner r := reserved_bytes b (bl_owner r) - bl_reserved r) else reserved_bytes b)"
  shows "blob_inv sha256 b'"
proof -
  from inv have k: "keys_ok b" and ok: "\<And>r. r \<in> set (blobs b) \<Longrightarrow> row_ok b r" and s: "sums_ok b" and f: "files_ok sha256 b"
    by (auto simp: blob_inv_def)
  note t = same [unfolded delete_blob_def, simplified]
  have rest: "x \<in> set (blobs b)" "blob_of x \<noteq> (ws, blob)" if "x \<in> set (blobs b')" for x using that by (auto simp: t)
  have "keys_ok b'"
  proof -
    have "g ` set (filter (\<lambda>x. g x \<noteq> (ws, blob)) xs) \<subseteq> blob_of ` set (blobs b')" if "g ` set xs \<subseteq> blob_of ` set (blobs b)" for g :: "'z \<Rightarrow> _" and xs
      using that by (force simp: t)
    with k show ?thesis by (auto simp: keys_ok_def t distinct_map_filter)
  qed
  moreover have "row_ok b' x" if "x \<in> set (blobs b')" for x
  proof -
    have "row_ok b' x \<longleftrightarrow> row_ok b x" by (simp add: row_ok_def t filter_other [OF rest(2) [OF that]] del: filter_filter)
    with ok [OF rest(1) [OF that]] show ?thesis by simp
  qed
  moreover have "sums_ok b'"
  proof -
    have d: "distinct (map blob_of (blobs b))" using k by (simp add: keys_ok_def)
    note u = sum_delete_key [OF d r(1), of "\<lambda>x. blob_of x = (ws, blob)", unfolded r(2), OF refl]
    have "bl_state r = ''staging'' \<or> bl_state r = ''complete''" using ok [OF r(1)] by (auto simp: row_ok_def)
    with s show ?thesis by (auto simp: sums_ok_def sum_rows_if t u used reserved fun_eq_iff)
  qed
  moreover have "files_ok sha256 b'"
  proof -
    have "complete_at b' x \<Longrightarrow> complete_at b x" for x by (auto simp: complete_at_def t)
    with f files show ?thesis by (auto simp: files_ok_def t)
  qed
  ultimately show ?thesis by (auto simp: blob_inv_def)
qed

lemma collect_Inr:
  assumes "Storage_collectBlob item b = (Inr u, b')"
  obtains r where "r \<in> set (blobs b)" "blob_of r = (gr_WorkspaceID item, gr_BlobID item)" "bl_state r = ''complete''" "bl_refs r = 0"
    "b' = (delete_blob (gr_WorkspaceID item) (gr_BlobID item) b)\<lparr>
       used_bytes := (used_bytes b)(bl_owner r := used_bytes b (bl_owner r) - bl_total r),
       final_dirs := (final_dirs b)((gr_WorkspaceID item, gr_BlobID item) := None)\<rparr>"
proof -
  let ?b1 = "b\<lparr>final_dirs := (final_dirs b)((gr_WorkspaceID item, gr_BlobID item) := None)\<rparr>"
  from assms have tx: "collect_tx item ?b1 = Inr b'"
    by (auto simp: Storage_collectBlob_def collect_rename_def split: option.splits sum.splits)
  then obtain r where r: "find (\<lambda>r. blob_of r = (gr_WorkspaceID item, gr_BlobID item) \<and> bl_state r = ''complete'' \<and> bl_refs r = 0) (blobs b) = Some r"
    by (auto simp: collect_tx_def split: option.splits)
  with tx have "b' = (delete_blob (gr_WorkspaceID item) (gr_BlobID item) b)\<lparr>
       used_bytes := (used_bytes b)(bl_owner r := used_bytes b (bl_owner r) - bl_total r),
       final_dirs := (final_dirs b)((gr_WorkspaceID item, gr_BlobID item) := None)\<rparr>"
    by (auto simp: collect_tx_def delete_blob_def Let_def split: if_splits)
  with that [of r] find_key_Some [OF r] show ?thesis by simp
qed

lemma collect_Inl: "Storage_collectBlob item b = (Inl e, b') \<Longrightarrow> b' = b"
  by (auto simp: Storage_collectBlob_def collect_rename_def fun_upd_idem split: option.splits sum.splits)

lemma inv_collect: "blob_inv sha256 b \<Longrightarrow> blob_inv sha256 (snd (Storage_collectBlob item b))"
proof (cases "Storage_collectBlob item b")
  case (Pair res b')
  assume inv: "blob_inv sha256 b"
  show ?thesis
  proof (cases res)
    case (Inr u)
    from Pair Inr obtain r where r: "r \<in> set (blobs b)" "blob_of r = (gr_WorkspaceID item, gr_BlobID item)" "bl_state r = ''complete''"
      "b' = (delete_blob (gr_WorkspaceID item) (gr_BlobID item) b)\<lparr>
       used_bytes := (used_bytes b)(bl_owner r := used_bytes b (bl_owner r) - bl_total r),
       final_dirs := (final_dirs b)((gr_WorkspaceID item, gr_BlobID item) := None)\<rparr>"
      by (auto elim: collect_Inr)
    have "blob_inv sha256 b'" by (rule inv_delete [OF inv r(1,2)]) (simp_all add: r(3,4) delete_blob_def)
    with Pair show ?thesis by simp
  qed (use Pair inv collect_Inl in auto)
qed

lemma inv_drop_dirs:
  assumes "blob_inv sha256 b"
  shows "blob_inv sha256 (drop_dirs item b)"
proof -
  let ?k = "(gr_WorkspaceID item, gr_BlobID item)"
  have "\<not> complete_at (b\<lparr>staging_dirs := d\<rparr>) ?k" if "list_ex (\<lambda>r. blob_of r = ?k \<and> bl_state r = ''staging'') (blobs b)" for d
    using that assms not_complete [of b] by (force simp: list_ex_iff blob_inv_def complete_at_def)
  then show ?thesis
    using assms inv_final [of sha256 "b\<lparr>staging_dirs := (staging_dirs b)(?k := None)\<rparr>" ?k None] by (auto simp: drop_dirs_def)
qed

lemma inv_collect_staging:
  assumes inv: "blob_inv sha256 b"
  shows "blob_inv sha256 (snd (collect_staging item b))"
proof (cases "find (\<lambda>r. blob_of r = (gr_WorkspaceID item, gr_BlobID item) \<and> bl_state r = ''staging'') (blobs b)")
  case None
  with inv show ?thesis by (simp add: collect_staging_def)
next
  case (Some r)
  let ?b = "snd (collect_staging item b)"
  from find_key_Some [OF Some] have r: "r \<in> set (blobs b)" "blob_of r = (gr_WorkspaceID item, gr_BlobID item)" "bl_state r = ''staging''" by auto
  show ?thesis
  proof (cases "reserved_bytes b (bl_owner r) - bl_reserved r < 0")
    case True
    have "list_ex (\<lambda>r. blob_of r = (gr_WorkspaceID item, gr_BlobID item) \<and> bl_state r = ''staging'') (blobs b)"
      using r by (auto simp: list_ex_iff)
    with True Some have "?b = drop_dirs item b" by (simp add: collect_staging_def drop_dirs_def Let_def)
    with inv_drop_dirs [OF inv] show ?thesis by simp
  next
    case False
    with Some have b: "?b = (delete_blob (gr_WorkspaceID item) (gr_BlobID item)
        (b\<lparr>staging_dirs := (staging_dirs b)((gr_WorkspaceID item, gr_BlobID item) := None), final_dirs := (final_dirs b)((gr_WorkspaceID item, gr_BlobID item) := None)\<rparr>))
        \<lparr>reserved_bytes := (reserved_bytes b)(bl_owner r := reserved_bytes b (bl_owner r) - bl_reserved r)\<rparr>"
      by (simp add: collect_staging_def Let_def)
    show ?thesis by (rule inv_delete [OF inv r(1,2)]) (simp_all add: b r(3) delete_blob_def)
  qed
qed

lemma inv_keep_db: "blob_inv sha256 b \<Longrightarrow> (\<And>x b'. r = Inr (x, b') \<Longrightarrow> blob_inv sha256 b') \<Longrightarrow> blob_inv sha256 (keep_db r b)"
  by (cases r) auto

lemma inv_keep_state: "blob_inv sha256 b \<Longrightarrow> (\<And>b'. r = Inr b' \<Longrightarrow> blob_inv sha256 b') \<Longrightarrow> blob_inv sha256 (keep_state r b)"
  by (cases r) auto

text \<open>Every call but an interrupted collection keeps the invariant.\<close>

fun collects_whole :: "blob_call \<Rightarrow> bool" where
  "collects_whole (BlobCollectCrash item) \<longleftrightarrow> False"
| "collects_whole _ \<longleftrightarrow> True"

interpretation consistent: blob_invariant sha256 vf cfg cb collects_whole "\<lambda>s :: server_db \<times> blob_db. blob_inv sha256 (snd s)" for sha256 vf cfg cb
proof
  fix s :: "server_db \<times> blob_db" and c assume inv: "blob_inv sha256 (snd s)" and ok: "collects_whole c"
  obtain db b where s: "s = (db, b)" by (cases s)
  with inv have i: "blob_inv sha256 b" by simp
  show "blob_inv sha256 (snd (blob_step sha256 vf cfg cb c s))"
  proof (cases c)
    case (BlobPutCrash user ws blob j contents)
    show ?thesis by (auto simp: s BlobPutCrash i intro!: inv_keep_db dest!: put_files_Inr)
  qed (use ok i in \<open>auto simp: s inv_Complete inv_collect inv_collect_staging inv_drop_dirs intro!: inv_keep_db inv_keep_state
      intro: inv_Begin inv_Put inv_complete_files inv_SetBlobReferenced\<close>)
qed

section \<open>Quotas\<close>

definition quotas_set :: "ServerConfig \<Rightarrow> server_db \<Rightarrow> bool" where
  "quotas_set cfg db \<longleftrightarrow> list_all (\<lambda>u. u_quota u = UserQuotaBytes cfg) (users db)"

lemma quotas_commit: "(\<And>x db'. r = Inr (x, db') \<Longrightarrow> users db' = users db) \<Longrightarrow> quotas_set cfg db \<Longrightarrow> quotas_set cfg (commit r db)"
  by (rule commit_keeps) (simp_all add: quotas_set_def)

interpretation quotas: served_invariant sha256 vf cfg "\<lambda>_. True" "quotas_set cfg" for sha256 vf cfg
proof
  fix db c assume q: "quotas_set cfg db"
  show "quotas_set cfg (serve sha256 vf cfg c db)"
  proof (cases c)
    case (CallRegister r now)
    show ?thesis unfolding CallRegister serve.simps using q
      by (rule commit_keeps) (use q in \<open>auto simp: quotas_set_def registered_user_def insert_owned_workspace_Inr elim!: Register_Inr\<close>)
  next
    case (CallPushOperations pr ops now)
    have "quotas_set cfg db'" if "quotas_set cfg db1" "pushOperation sha256 vf cfg pr now op db1 = Inr (res, db')" for op res db1 db'
      using that by (auto simp: quotas_set_def pushOperation_tables)
    then show ?thesis unfolding CallPushOperations serve.simps using q by (blast intro: commit_keeps PushOperations_keeps)
  next
    case (CallVerifyChallenge p now token)
    show ?thesis unfolding CallVerifyChallenge serve.simps VerifyChallenge_def by (rule quotas_commit [OF _ q]) (auto elim: verifyChallenge_Inr)
  next
    case (CallRefreshSession pr p now token)
    show ?thesis unfolding CallRefreshSession serve.simps
      by (rule quotas_commit [OF _ q]) (auto simp: RefreshSession_def split: if_splits elim: verifyChallenge_Inr)
  next
    case (CallRevokeDevice pr d now)
    show ?thesis unfolding CallRevokeDevice serve.simps by (rule quotas_commit [OF _ q]) (auto simp: RevokeDevice_def AdminRevokeDevice_def bind_res_Inr_iff revoke_rows_Inr)
  next
    case (CallAdminRevokeDevice d now)
    show ?thesis unfolding CallAdminRevokeDevice serve.simps by (rule quotas_commit [OF _ q]) (auto simp: RevokeDevice_def AdminRevokeDevice_def bind_res_Inr_iff revoke_rows_Inr)
  next
    case (CallCompactWorkspace ws now dry)
    show ?thesis unfolding CallCompactWorkspace serve.simps by (rule quotas_commit [OF _ q]) (auto elim!: CompactWorkspace_Inr)
  next
    case (CallAddDevice pr d name key now)
    show ?thesis unfolding CallAddDevice serve.simps by (rule quotas_commit [OF _ q]) (auto dest!: AddDevice_Inr)
  qed (simp_all only: serve.simps, (rule quotas_commit [OF _ q]; auto simp: PurgeExpiredAuthRecords_def DeleteSession_def insert_owned_workspace_Inr
      dest!: CreateInvite_Inr IssueChallenge_Inr(1) PutKeybag_Inr CreateWorkspace_Inr AddMember_Inr RevokeMember_Inr RotateWorkspaceKey_Inr(2)
        PutSnapshot_Inr AcknowledgeSnapshot_Inr)+)
qed

text \<open>Nobody's bytes go over the quota, or further over it than they were at the start.\<close>

definition within_quota :: "ServerConfig \<Rightarrow> (string \<Rightarrow> int) \<Rightarrow> server_db \<times> blob_db \<Rightarrow> bool" where
  "within_quota cfg start s \<longleftrightarrow> quotas_set cfg (fst s) \<and> (\<forall>u. used_bytes (snd s) u + reserved_bytes (snd s) u \<le> max (start u) (UserQuotaBytes cfg))"

lemma collect_counters:
  assumes "blob_inv sha256 b"
  shows "used_bytes (snd (Storage_collectBlob item b)) u + reserved_bytes (snd (Storage_collectBlob item b)) u \<le> used_bytes b u + reserved_bytes b u"
proof (cases "Storage_collectBlob item b")
  case (Pair res b')
  show ?thesis
  proof (cases res)
    case (Inr x)
    from Pair Inr obtain r where "r \<in> set (blobs b)" "b' = (delete_blob (gr_WorkspaceID item) (gr_BlobID item) b)\<lparr>
       used_bytes := (used_bytes b)(bl_owner r := used_bytes b (bl_owner r) - bl_total r),
       final_dirs := (final_dirs b)((gr_WorkspaceID item, gr_BlobID item) := None)\<rparr>" by (auto elim: collect_Inr)
    moreover from this assms have "bl_total r > 0" by (auto simp: blob_inv_def row_ok_def)
    ultimately show ?thesis using Pair by (auto simp: delete_blob_def)
  qed (use Pair collect_Inl in auto)
qed

lemma collect_staging_counters:
  assumes "blob_inv sha256 b"
  shows "used_bytes (snd (collect_staging item b)) u + reserved_bytes (snd (collect_staging item b)) u \<le> used_bytes b u + reserved_bytes b u"
proof -
  have "bl_reserved r \<ge> 0" if "r \<in> set (blobs b)" for r using that assms by (auto simp: blob_inv_def row_ok_def)
  then show ?thesis by (auto simp: collect_staging_def Let_def delete_blob_def split: option.splits dest!: find_key_Some)
qed

lemma Complete_counters:
  "used_bytes (snd (CompleteBlob sha256 user ws blob now db b)) u + reserved_bytes (snd (CompleteBlob sha256 user ws blob now db b)) u =
   used_bytes b u + reserved_bytes b u"
proof (cases "complete_files sha256 user ws blob db b")
  case (Inr p)
  obtain info b1 where p: "p = (info, b1)" by (cases p)
  from Inr [unfolded p] have f: "used_bytes b1 = used_bytes b \<and> reserved_bytes b1 = reserved_bytes b"
    by (cases rule: complete_files_Inr) simp_all
  have "used_bytes b2 u + reserved_bytes b2 u = used_bytes b1 u + reserved_bytes b1 u" if "complete_tx ws blob now info b1 = Inr (info', b2)" for info' b2
    using that by (cases rule: complete_tx_Inr) simp_all
  then show ?thesis
    by (cases "complete_tx ws blob now info b1") (auto simp: CompleteBlob_def Inr p f)
qed (simp add: CompleteBlob_def)

lemma reference_counters: "SetBlobReferenced user ws blob ref on now db b = Inr b' \<Longrightarrow> used_bytes b' = used_bytes b \<and> reserved_bytes b' = reserved_bytes b"
  by (auto simp: SetBlobReferenced_def reference_tx_def err_simps split: option.splits if_splits)

lemma Begin_counters:
  assumes q: "quotas_set cfg db" and bound: "used_bytes b u + reserved_bytes b u \<le> max m (UserQuotaBytes cfg)"
    and b: "BeginBlob cfg cb user request now db b = Inr (info, b')"
  shows "used_bytes b' u + reserved_bytes b' u \<le> max m (UserQuotaBytes cfg)"
  using b
proof (cases rule: BeginBlob_Inr)
  case (2 x)
  from 2(1) q have "u_quota x = UserQuotaBytes cfg" by (auto simp: quotas_set_def list_all_iff find_Some_iff)
  with 2(2) bound show ?thesis by (auto simp: 2(8))
qed (use bound in simp)

interpretation usage: blob_invariant sha256 vf cfg cb collects_whole "\<lambda>s. blob_inv sha256 (snd s) \<and> within_quota cfg start s" for sha256 vf cfg cb start
proof
  fix s c assume inv: "blob_inv sha256 (snd s) \<and> within_quota cfg start s" and ok: "collects_whole c"
  obtain db b where s: "s = (db, b)" by (cases s)
  from inv have i: "blob_inv sha256 b" and q: "quotas_set cfg db" and bound: "\<And>u. used_bytes b u + reserved_bytes b u \<le> max (start u) (UserQuotaBytes cfg)"
    by (auto simp: s within_quota_def)
  have "within_quota cfg start (blob_step sha256 vf cfg cb c s)"
  proof (cases c)
    case (BlobBegin user request now)
    show ?thesis using Begin_counters [OF q bound]
      by (cases "BeginBlob cfg cb user request now db b") (auto simp: s BlobBegin within_quota_def q bound)
  next
    case (BlobPut user ws blob j contents now)
    have "used_bytes b' = used_bytes b \<and> reserved_bytes b' = reserved_bytes b" if "PutBlobChunk sha256 cb user ws blob j contents now db b = Inr b'" for b'
      using that by (auto simp: PutBlobChunk_def err_simps mark_uploaded_def dest!: put_files_Inr split: if_splits)
    then show ?thesis by (cases "PutBlobChunk sha256 cb user ws blob j contents now db b") (auto simp: s BlobPut within_quota_def q bound)
  next
    case (BlobPutCrash user ws blob j contents)
    show ?thesis using put_files_Inr [of sha256 cb user ws blob j contents db b]
      by (cases "put_files sha256 cb user ws blob j contents db b") (auto simp: s BlobPutCrash within_quota_def q bound)
  next
    case (BlobComplete user ws blob now)
    show ?thesis by (simp add: s BlobComplete within_quota_def q bound Complete_counters)
  next
    case (BlobCompleteCrash user ws blob)
    have "used_bytes b' = used_bytes b \<and> reserved_bytes b' = reserved_bytes b" if "complete_files sha256 user ws blob db b = Inr (info, b')" for info b'
      using that by (cases rule: complete_files_Inr) simp_all
    then show ?thesis by (cases "complete_files sha256 user ws blob db b") (auto simp: s BlobCompleteCrash within_quota_def q bound)
  next
    case (BlobReference user ws blob ref on now)
    show ?thesis using reference_counters [of user ws blob ref on now db b]
      by (cases "SetBlobReferenced user ws blob ref on now db b") (auto simp: s BlobReference within_quota_def q bound)
  next
    case (BlobCollect item)
    show ?thesis using order_trans [OF collect_counters [OF i] bound] by (simp add: s BlobCollect within_quota_def q)
  next
    case (BlobCollectStaging item)
    show ?thesis using order_trans [OF collect_staging_counters [OF i] bound] by (simp add: s BlobCollectStaging within_quota_def q)
  next
    case (BlobCollectStagingCrash item)
    show ?thesis by (simp add: s BlobCollectStagingCrash within_quota_def q bound drop_dirs_def)
  qed (use q bound ok in \<open>auto simp: s within_quota_def quotas.call_keeps applyConfiguredQuotas_def, auto simp: quotas_set_def list_all_iff\<close>)
  with consistent.step_keeps [of sha256 s c vf cfg cb] inv ok show "blob_inv sha256 (snd (blob_step sha256 vf cfg cb c s)) \<and> within_quota cfg start (blob_step sha256 vf cfg cb c s)"
    by blast
qed

lemma runs_inv:
  assumes "in_runs collects_whole runs"
  shows "blob_inv sha256 (snd (server_runs sha256 vf cb runs (empty_server, empty_blobs)))"
  by (rule server_runs_keep [where P = "blob_inv sha256", OF consistent.blob_invariant_axioms _ assms]) (simp add: blob_inv_empty)

lemma owned_total:
  assumes "blob_inv sha256 b"
  shows "sum_list (map bl_total (filter (\<lambda>r. bl_owner r = u) (blobs b))) = used_bytes b u + reserved_bytes b u"
proof -
  have "sum_list (map bl_total (filter (\<lambda>r. bl_owner r = u) rows)) =
      sum_list (map (\<lambda>r. if bl_owner r = u \<and> bl_state r = ''complete'' then bl_total r else 0) rows) +
      sum_list (map (\<lambda>r. if bl_owner r = u \<and> bl_state r = ''staging'' then bl_reserved r else 0) rows)"
    if "\<forall>r \<in> set rows. bl_state r = ''staging'' \<and> bl_reserved r = bl_total r \<or> bl_state r = ''complete''" for rows
    using that by (induction rows) auto
  from this [of "blobs b"] assms show ?thesis by (auto simp: blob_inv_def sums_ok_def sum_rows_if row_ok_def)
qed

section \<open>Reading a complete blob\<close>

lemma verifyChunkFile_Inr:
  "verifyChunkFile sha256 d i e h = Inr () \<longleftrightarrow>
     (\<exists>dir contents. d = Some dir \<and> dir i = Some contents \<and> int (length contents) = e \<and> sha256 contents = h)"
proof -
  have "int (length (take (nat (e + 1)) contents)) = e \<longleftrightarrow> int (length contents) = e" for contents :: bytes
    by (auto simp: min_def)
  moreover have "int (length contents) = e \<Longrightarrow> take (nat (e + 1)) contents = contents" for contents :: bytes by auto
  ultimately show ?thesis
    by (cases d) (auto simp: verifyChunkFile_def Let_def split: option.splits)
qed

lemma chunk_rows_sorted:
  assumes "row_ok b r"
  obtains n where "n > 0" "map ck_index (filter (\<lambda>c. chunk_of c = blob_of r) (blob_chunks b)) = map int [0..<n]"
    "sort_key ck_index (filter (\<lambda>c. chunk_of c = blob_of r) (blob_chunks b)) = filter (\<lambda>c. chunk_of c = blob_of r) (blob_chunks b)"
proof -
  from assms obtain n where n: "n > 0" "map ck_index (filter (\<lambda>c. chunk_of c = blob_of r) (blob_chunks b)) = map int [0..<n]"
    by (auto simp: row_ok_def)
  have "sorted (map int [0..<n])" by (simp add: sorted_map_mono mono_onI)
  with n(2) have "sort_key ck_index (filter (\<lambda>c. chunk_of c = blob_of r) (blob_chunks b)) = filter (\<lambda>c. chunk_of c = blob_of r) (blob_chunks b)"
    by (intro sort_key_id_if_sorted) simp
  with n show ?thesis by (rule that)
qed

lemma find_row: "keys_ok b \<Longrightarrow> r \<in> set (blobs b) \<Longrightarrow> find (\<lambda>x. blob_of x = blob_of r) (blobs b) = Some r"
proof (cases "find (\<lambda>x. blob_of x = blob_of r) (blobs b)")
  case (Some x)
  assume "keys_ok b" "r \<in> set (blobs b)"
  moreover have "x \<in> set (blobs b)" "blob_of x = blob_of r" using find_key_Some [where P = "\<lambda>_. True", simplified, OF Some] by auto
  ultimately show ?thesis using Some rows_unique by simp
qed (auto simp: find_None_iff)

lemma GetBlob_row:
  assumes inv: "blob_inv sha256 b" and r: "r \<in> set (blobs b)" "blob_of r = (ws, blob)" and m: "isActiveMember user ws db"
  shows "GetBlob user ws blob db b = Inr (info_of r b)"
proof -
  have k: "keys_ok b" and "row_ok b r" using inv r(1) by (auto simp: blob_inv_def)
  then have "ids_ok (ws, blob)" using r(2) by (simp add: row_ok_def)
  with k find_row [of b r] r m show ?thesis by (simp add: GetBlob_def blobInfo_def)
qed

lemma ReadBlobChunk_stored:
  assumes inv: "blob_inv sha256 b" and r: "r \<in> set (blobs b)" "blob_of r = (ws, blob)" "bl_state r = ''complete''"
    and m: "isActiveMember user ws db" and c: "c \<in> set (blob_chunks b)" "chunk_of c = (ws, blob)"
  shows "\<exists>contents. ReadBlobChunk sha256 user ws blob (ck_index c) db b b = Inr contents \<and> int (length contents) = ck_bytes c \<and> sha256 contents = ck_hash c"
proof -
  let ?rows = "filter (\<lambda>c. chunk_of c = blob_of r) (blob_chunks b)"
  have ok: "row_ok b r" and k: "keys_ok b" using inv r(1) by (auto simp: blob_inv_def)
  from ok obtain n where n: "map ck_index ?rows = map int [0..<n]" "sort_key ck_index ?rows = ?rows" by (rule chunk_rows_sorted)
  from c r(2) have "c \<in> set ?rows" by simp
  then obtain j where j: "j < length ?rows" "?rows ! j = c" by (auto simp only: in_set_conv_nth)
  have len: "length ?rows = n" using arg_cong [OF n(1), of length] by simp
  with j n(1) have ix: "ck_index c = int j" by (metis (no_types, lifting) add_0 length_map nth_map nth_upt length_upt diff_zero)
  have "complete_at b (chunk_of c)" using r c(2) by (auto simp: complete_at_def)
  then have "chunk_stored sha256 (final_dirs b (ws, blob)) c" using inv c by (auto simp: blob_inv_def files_ok_def dest: bspec)
  then obtain dir contents where f: "final_dirs b (ws, blob) = Some dir" "dir (ck_index c) = Some contents"
    "int (length contents) = ck_bytes c" "sha256 contents = ck_hash c"
    by (auto simp: chunk_stored_def verifyChunkFile_Inr)
  then have "ReadBlobChunk sha256 user ws blob (ck_index c) db b b = Inr contents"
    using j r(3) n(2) by (simp add: ReadBlobChunk_def GetBlob_row [OF inv r(1,2) m] ix verifyChunk_def)
  with f show ?thesis by blast
qed

section \<open>References keep a blob\<close>

fun unreferences :: "reference_row \<Rightarrow> blob_call \<Rightarrow> bool" where
  "unreferences x (BlobReference user ws blob ref on now) \<longleftrightarrow> \<not> on \<and> ref_of x = (ws, blob) \<and> rf_id x = ref"
| "unreferences x _ \<longleftrightarrow> False"

lemma referenced_row:
  assumes "blob_inv sha256 b" "x \<in> set (blob_references b)"
  obtains r where "r \<in> set (blobs b)" "blob_of r = ref_of x" "bl_state r = ''complete''" "bl_refs r > 0"
proof -
  from assms obtain r where r: "r \<in> set (blobs b)" "blob_of r = ref_of x" by (auto simp: blob_inv_def keys_ok_def)
  with assms have ok: "row_ok b r" by (auto simp: blob_inv_def)
  have "bl_refs r > 0" using row_refs [OF ok] assms(2) r(2) by (auto simp: filter_empty_conv)
  moreover with ok have "bl_state r = ''complete''" by (auto simp: row_ok_def)
  ultimately show ?thesis using r that by blast
qed

lemma unreferenced_delete:
  assumes inv: "blob_inv sha256 b" and x: "x \<in> set (blob_references b)" and r: "r \<in> set (blobs b)" "blob_of r = (ws, blob)" "bl_refs r = 0"
  shows "x \<in> set (blob_references (delete_blob ws blob b))"
proof -
  from referenced_row [OF inv x] obtain r' where r': "r' \<in> set (blobs b)" "blob_of r' = ref_of x" "bl_refs r' > 0" by metis
  have "r' = r" if "ref_of x = (ws, blob)"
    using rows_unique [of b r r'] inv r r' that by (simp add: blob_inv_def)
  with r(3) r'(3) x show ?thesis by (auto simp: delete_blob_def)
qed

interpretation referenced: blob_invariant sha256 vf cfg cb "\<lambda>c. collects_whole c \<and> \<not> unreferences x c"
  "\<lambda>s. blob_inv sha256 (snd s) \<and> x \<in> set (blob_references (snd s))" for sha256 vf cfg cb x
proof
  fix s :: "server_db \<times> blob_db" and c
  assume Q: "blob_inv sha256 (snd s) \<and> x \<in> set (blob_references (snd s))" and ok: "collects_whole c \<and> \<not> unreferences x c"
  obtain db b where s: "s = (db, b)" by (cases s)
  with Q have i: "blob_inv sha256 b" and x: "x \<in> set (blob_references b)" by auto
  have "x \<in> set (blob_references (snd (blob_step sha256 vf cfg cb c s)))"
  proof (cases c)
    case (BlobBegin user request now)
    show ?thesis by (cases "BeginBlob cfg cb user request now db b") (auto simp: s BlobBegin x elim!: BeginBlob_Inr)
  next
    case (BlobPut user ws blob j contents now)
    have "blob_references b' = blob_references b" if "PutBlobChunk sha256 cb user ws blob j contents now db b = Inr b'" for b'
      using that by (auto simp: PutBlobChunk_def err_simps mark_uploaded_def dest!: put_files_Inr split: if_splits)
    then show ?thesis by (cases "PutBlobChunk sha256 cb user ws blob j contents now db b") (auto simp: s BlobPut x)
  next
    case (BlobPutCrash user ws blob j contents)
    show ?thesis using put_files_Inr [of sha256 cb user ws blob j contents db b]
      by (cases "put_files sha256 cb user ws blob j contents db b") (auto simp: s BlobPutCrash x)
  next
    case (BlobComplete user ws blob now)
    have f: "blob_references b1 = blob_references b" if "complete_files sha256 user ws blob db b = Inr (info, b1)" for info b1
      using that by (cases rule: complete_files_Inr) simp_all
    have t: "blob_references b2 = blob_references b1" if "complete_tx ws blob now info b1 = Inr (info', b2)" for info info' b1 b2
      using that by (cases rule: complete_tx_Inr) simp_all
    show ?thesis using x by (auto simp: s BlobComplete CompleteBlob_def split: sum.splits dest!: f t)
  next
    case (BlobCompleteCrash user ws blob)
    have "blob_references b1 = blob_references b" if "complete_files sha256 user ws blob db b = Inr (info, b1)" for info b1
      using that by (cases rule: complete_files_Inr) simp_all
    then show ?thesis by (cases "complete_files sha256 user ws blob db b") (auto simp: s BlobCompleteCrash x)
  next
    case (BlobReference user ws blob ref on now)
    show ?thesis using ok x
      by (cases "SetBlobReferenced user ws blob ref on now db b")
        (auto simp: s BlobReference SetBlobReferenced_def reference_tx_def err_simps split: option.splits if_splits)
  next
    case (BlobCollect item)
    show ?thesis
    proof (cases "Storage_collectBlob item b")
      case (Pair res b')
      then show ?thesis using unreferenced_delete [OF i x]
        by (cases res) (auto simp: s BlobCollect x dest!: collect_Inl elim!: collect_Inr)
    qed
  next
    case (BlobCollectStaging item)
    have "bl_refs r = 0" if "r \<in> set (blobs b)" "bl_state r = ''staging''" for r using that i by (auto simp: blob_inv_def row_ok_def)
    then show ?thesis using unreferenced_delete [OF i x] x
      by (auto simp: s BlobCollectStaging collect_staging_def Let_def delete_blob_def split: option.splits dest!: find_key_Some)
  qed (use ok x in \<open>auto simp: s drop_dirs_def\<close>)
  with consistent.step_keeps [of sha256 s c vf cfg cb] Q ok
  show "blob_inv sha256 (snd (blob_step sha256 vf cfg cb c s)) \<and> x \<in> set (blob_references (snd (blob_step sha256 vf cfg cb c s)))" by blast
qed

text \<open>While it is there, nobody replaces or moves the published files of its blob.\<close>

lemma staging_not_referenced:
  assumes inv: "blob_inv sha256 b" and x: "x \<in> set (blob_references b)" and r: "r \<in> set (blobs b)" "bl_refs r = 0"
  shows "blob_of r \<noteq> ref_of x"
proof
  assume "blob_of r = ref_of x"
  with referenced_row [OF inv x] rows_unique [of b r] inv r show False by (metis blob_inv_def less_irrefl)
qed

interpretation published: blob_invariant sha256 vf cfg cb "\<lambda>c. collects_whole c \<and> \<not> unreferences x c"
  "\<lambda>s. (blob_inv sha256 (snd s) \<and> x \<in> set (blob_references (snd s))) \<and> final_dirs (snd s) (ref_of x) = D" for sha256 vf cfg cb x D
proof
  fix s :: "server_db \<times> blob_db" and c
  assume Q: "(blob_inv sha256 (snd s) \<and> x \<in> set (blob_references (snd s))) \<and> final_dirs (snd s) (ref_of x) = D" and ok: "collects_whole c \<and> \<not> unreferences x c"
  obtain db b where s: "s = (db, b)" by (cases s)
  with Q have i: "blob_inv sha256 b" and x: "x \<in> set (blob_references b)" and d: "final_dirs b (ref_of x) = D" by auto
  have refs0: "bl_refs r = 0" if "r \<in> set (blobs b)" "bl_state r \<noteq> ''complete''" for r using that i by (auto simp: blob_inv_def row_ok_def)
  note other = staging_not_referenced [OF i x]
  have files: "final_dirs b1 (ref_of x) = D" if "complete_files sha256 user ws blob db b = Inr (info, b1)" for user ws blob info b1
    using that
  proof (cases rule: complete_files_Inr)
    case 2
    then show ?thesis using d other refs0 by auto
  qed (use d in auto)
  have "final_dirs (snd (blob_step sha256 vf cfg cb c s)) (ref_of x) = D"
  proof (cases c)
    case (BlobBegin user request now)
    show ?thesis by (cases "BeginBlob cfg cb user request now db b") (auto simp: s BlobBegin d elim!: BeginBlob_Inr)
  next
    case (BlobPut user ws blob j contents now)
    have "final_dirs b' = final_dirs b" if "PutBlobChunk sha256 cb user ws blob j contents now db b = Inr b'" for b'
      using that by (auto simp: PutBlobChunk_def err_simps mark_uploaded_def dest!: put_files_Inr split: if_splits)
    then show ?thesis by (cases "PutBlobChunk sha256 cb user ws blob j contents now db b") (auto simp: s BlobPut d)
  next
    case (BlobPutCrash user ws blob j contents)
    show ?thesis using put_files_Inr [of sha256 cb user ws blob j contents db b]
      by (cases "put_files sha256 cb user ws blob j contents db b") (auto simp: s BlobPutCrash d)
  next
    case (BlobComplete user ws blob now)
    have "final_dirs b2 = final_dirs b1" if "complete_tx ws blob now info b1 = Inr (info', b2)" for info info' b1 b2
      using that by (cases rule: complete_tx_Inr) simp_all
    then show ?thesis using d by (auto simp: s BlobComplete CompleteBlob_def files split: sum.splits)
  next
    case (BlobCompleteCrash user ws blob)
    show ?thesis by (cases "complete_files sha256 user ws blob db b") (auto simp: s BlobCompleteCrash d files)
  next
    case (BlobReference user ws blob ref on now)
    show ?thesis using d
      by (cases "SetBlobReferenced user ws blob ref on now db b")
        (auto simp: s BlobReference SetBlobReferenced_def reference_tx_def err_simps split: option.splits if_splits)
  next
    case (BlobCollect item)
    show ?thesis
    proof (cases "Storage_collectBlob item b")
      case (Pair res b')
      then show ?thesis using other d
        by (cases res) (auto simp: s BlobCollect delete_blob_def dest!: collect_Inl elim!: collect_Inr)
    qed
  next
    case (BlobCollectStaging item)
    show ?thesis using other refs0 d
      by (auto simp: s BlobCollectStaging collect_staging_def Let_def delete_blob_def split: option.splits dest!: find_key_Some)
  next
    case (BlobCollectStagingCrash item)
    show ?thesis using other refs0 d by (auto simp: s BlobCollectStagingCrash drop_dirs_def list_ex_iff)
  qed (use ok d in \<open>auto simp: s\<close>)
  with referenced.step_keeps [of sha256 s x c vf cfg cb] Q ok
  show "(blob_inv sha256 (snd (blob_step sha256 vf cfg cb c s)) \<and> x \<in> set (blob_references (snd (blob_step sha256 vf cfg cb c s)))) \<and>
    final_dirs (snd (blob_step sha256 vf cfg cb c s)) (ref_of x) = D" by blast
qed

section \<open>Calls on other blobs\<close>

text \<open>A call changes only the row of the blob that it names.\<close>

fun touches :: "string \<times> string \<Rightarrow> blob_call \<Rightarrow> bool" where
  "touches k (BlobBegin user request now) \<longleftrightarrow> k = (bi_WorkspaceID request, bi_BlobID request)"
| "touches k (BlobPut user ws blob i contents now) \<longleftrightarrow> k = (ws, blob)"
| "touches k (BlobPutCrash user ws blob i contents) \<longleftrightarrow> k = (ws, blob)"
| "touches k (BlobComplete user ws blob now) \<longleftrightarrow> k = (ws, blob)"
| "touches k (BlobCompleteCrash user ws blob) \<longleftrightarrow> k = (ws, blob)"
| "touches k (BlobReference user ws blob ref referenced now) \<longleftrightarrow> k = (ws, blob)"
| "touches k (BlobCollect item) \<longleftrightarrow> k = (gr_WorkspaceID item, gr_BlobID item)"
| "touches k (BlobCollectCrash item) \<longleftrightarrow> k = (gr_WorkspaceID item, gr_BlobID item)"
| "touches k (BlobCollectStaging item) \<longleftrightarrow> k = (gr_WorkspaceID item, gr_BlobID item)"
| "touches k (BlobCollectStagingCrash item) \<longleftrightarrow> k = (gr_WorkspaceID item, gr_BlobID item)"
| "touches k _ \<longleftrightarrow> False"

definition rows_at :: "string \<times> string \<Rightarrow> blob_db \<Rightarrow> blob_row list" where
  "rows_at k b = filter (\<lambda>r. blob_of r = k) (blobs b)"

lemma rows_at_update:
  "(\<And>r. blob_of (f r) = blob_of r) \<Longrightarrow> (\<And>r. P r \<Longrightarrow> blob_of r \<noteq> k) \<Longrightarrow>
   filter (\<lambda>r. blob_of r = k) (update_rows P f rows) = filter (\<lambda>r. blob_of r = k) rows"
  by (induction rows) (auto simp: update_rows_def)

lemma rows_at_delete [simp]:
  "rows_at k (delete_blob ws blob b) = (if k = (ws, blob) then [] else rows_at k b)"
  by (auto simp: rows_at_def delete_blob_def filter_empty_conv intro!: filter_cong)

lemma rows_at_collect:
  "rows_at k (snd (Storage_collectBlob item b)) = rows_at k b \<or> k = (gr_WorkspaceID item, gr_BlobID item)"
proof (cases "Storage_collectBlob item b")
  case (Pair res b')
  then show ?thesis
    by (cases res) (auto simp: rows_at_def delete_blob_def dest!: collect_Inl elim!: collect_Inr intro!: filter_cong [OF refl])
qed

interpretation untouched: blob_invariant sha256 vf cfg cb "\<lambda>c. \<not> touches k c" "\<lambda>s :: server_db \<times> blob_db. rows_at k (snd s) = R" for sha256 vf cfg cb k R
proof
  fix s :: "server_db \<times> blob_db" and c assume R: "rows_at k (snd s) = R" and ok: "\<not> touches k c"
  obtain db b where s: "s = (db, b)" by (cases s)
  with R have r: "filter (\<lambda>r. blob_of r = k) (blobs b) = R" by (simp add: rows_at_def)
  show "rows_at k (snd (blob_step sha256 vf cfg cb c s)) = R"
  proof (cases c)
    case (BlobBegin user request now)
    show ?thesis using ok r by (cases "BeginBlob cfg cb user request now db b") (auto simp: s BlobBegin rows_at_def elim!: BeginBlob_Inr)
  next
    case (BlobPut user ws blob j contents now)
    have "blobs b' = blobs b" if "PutBlobChunk sha256 cb user ws blob j contents now db b = Inr b'" for b'
      using that by (auto simp: PutBlobChunk_def err_simps mark_uploaded_def dest!: put_files_Inr split: if_splits)
    then show ?thesis by (cases "PutBlobChunk sha256 cb user ws blob j contents now db b") (auto simp: s BlobPut rows_at_def r)
  next
    case (BlobPutCrash user ws blob j contents)
    show ?thesis using put_files_Inr [of sha256 cb user ws blob j contents db b]
      by (cases "put_files sha256 cb user ws blob j contents db b") (auto simp: s BlobPutCrash rows_at_def r)
  next
    case (BlobComplete user ws blob now)
    have f: "blobs b1 = blobs b" if "complete_files sha256 user ws blob db b = Inr (info, b1)" for info b1
      using that by (cases rule: complete_files_Inr) simp_all
    have t: "filter (\<lambda>r. blob_of r = k) (blobs b2) = filter (\<lambda>r. blob_of r = k) (blobs b1)" if "complete_tx ws blob now info b1 = Inr (info', b2)" for info info' b1 b2
      using that ok BlobComplete
      by (auto simp: complete_tx_def err_simps Let_def blob_of_def intro!: rows_at_update [unfolded blob_of_def] split: option.splits if_splits)
    show ?thesis using r by (auto simp: s BlobComplete CompleteBlob_def rows_at_def f t split: sum.splits)
  next
    case (BlobCompleteCrash user ws blob)
    have "blobs b1 = blobs b" if "complete_files sha256 user ws blob db b = Inr (info, b1)" for info b1
      using that by (cases rule: complete_files_Inr) simp_all
    then show ?thesis by (cases "complete_files sha256 user ws blob db b") (auto simp: s BlobCompleteCrash rows_at_def r)
  next
    case (BlobReference user ws blob ref on now)
    have "filter (\<lambda>r. blob_of r = k) (blobs b') = R" if "SetBlobReferenced user ws blob ref on now db b = Inr b'" for b'
      using that ok BlobReference r
      by (auto simp: SetBlobReferenced_def reference_tx_def err_simps intro!: rows_at_update split: option.splits if_splits)
    then show ?thesis using r by (cases "SetBlobReferenced user ws blob ref on now db b") (auto simp: s BlobReference rows_at_def)
  next
    case (BlobCollect item)
    show ?thesis using rows_at_collect [of k item b] ok R by (auto simp: s BlobCollect)
  next
    case (BlobCollectStaging item)
    show ?thesis using ok r
      by (auto simp: s BlobCollectStaging collect_staging_def rows_at_def delete_blob_def Let_def split: option.splits intro!: filter_cong [OF refl])
  qed (use ok r in \<open>auto simp: s rows_at_def drop_dirs_def collect_rename_def split: option.splits\<close>)
qed

end
