(* ===== verification/Blob_Guarantees.thy ===== *)
theory Blob_Guarantees
  imports Blob_Invariants
begin

text \<open>
  What the blob methods guarantee over every history of the server, with restarts under other
  configurations: the state passes the server's own consistency check, quotas hold, a referenced
  blob stays readable, and the collector removes exactly the blobs that are due. These hold as
  long as the process does not stop inside \<open>collectBlob\<close> (\<^const>\<open>collects_whole\<close>); the last section
  shows what such an interrupted collection leaves behind.
\<close>

section \<open>The collector\<close>

definition item_of :: "blob_row \<Rightarrow> BlobGCResult" where
  "item_of r = \<lparr>gr_WorkspaceID = bl_ws r, gr_BlobID = bl_id r, gr_Bytes = bl_total r, gr_Removed = False\<rparr>"

lemma item_of_simps [simp]: "(gr_WorkspaceID (item_of r), gr_BlobID (item_of r)) = blob_of r" "gr_WorkspaceID (item_of r) = bl_ws r" "gr_BlobID (item_of r) = bl_id r"
  by (simp_all add: item_of_def blob_of_def)

lemma gc_items_of: "gc_items P b = map item_of (sort_key (\<lambda>r. (bl_ws r, bl_id r)) (filter P (blobs b)))"
  by (simp add: gc_items_def item_of_def)

lemma row_has_chunk:
  assumes "row_ok b r"
  obtains c where "c \<in> set (blob_chunks b)" "chunk_of c = blob_of r"
proof -
  from assms obtain n where "n > 0" "map ck_index (filter (\<lambda>c. chunk_of c = blob_of r) (blob_chunks b)) = map int [0..<n]" by (rule chunk_rows_sorted)
  then have "filter (\<lambda>c. chunk_of c = blob_of r) (blob_chunks b) \<noteq> []" by auto
  then show ?thesis using that by (auto simp: filter_empty_conv)
qed

lemma complete_has_files:
  assumes inv: "blob_inv sha256 b" and r: "r \<in> set (blobs b)" "bl_state r = ''complete''"
  shows "final_dirs b (blob_of r) \<noteq> None"
proof -
  have "row_ok b r" using inv r(1) by (auto simp: blob_inv_def)
  then obtain c where c: "c \<in> set (blob_chunks b)" "chunk_of c = blob_of r" by (rule row_has_chunk)
  with r have "complete_at b (chunk_of c)" by (auto simp: complete_at_def)
  then have "chunk_stored sha256 (final_dirs b (chunk_of c)) c" using inv c by (auto simp: blob_inv_def files_ok_def)
  with c(2) show ?thesis by (auto simp: chunk_stored_def verifyChunkFile_Inr)
qed

lemma total_le_used:
  assumes inv: "blob_inv sha256 b" and r: "r \<in> set (blobs b)" "bl_state r = ''complete''"
  shows "bl_total r \<le> used_bytes b (bl_owner r)"
proof -
  let ?g = "\<lambda>x. if bl_owner x = bl_owner r \<and> bl_state x = ''complete'' then bl_total x else 0"
  have "\<forall>x \<in> set (blobs b). 0 \<le> ?g x" using inv by (auto simp: blob_inv_def row_ok_def)
  then have "?g r \<le> sum_list (map ?g (blobs b))" using r(1) by (intro member_le_sum_list) auto
  with inv r(2) show ?thesis by (simp add: blob_inv_def sums_ok_def sum_rows_if)
qed

lemma collect_succeeds:
  assumes inv: "blob_inv sha256 b" and r: "r \<in> set (blobs b)" "bl_state r = ''complete''" "bl_refs r = 0"
  shows "\<exists>b'. Storage_collectBlob (item_of r) b = (Inr (), b') \<and> blobs b' = filter (\<lambda>x. blob_of x \<noteq> blob_of r) (blobs b)"
proof -
  from complete_has_files [OF inv r(1,2)] obtain d where d: "final_dirs b (blob_of r) = Some d" by auto
  have k: "keys_ok b" using inv by (simp add: blob_inv_def)
  have "find (\<lambda>x. blob_of x = blob_of r \<and> bl_state x = ''complete'' \<and> bl_refs x = 0) (blobs b) = Some r"
  proof (cases "find (\<lambda>x. blob_of x = blob_of r \<and> bl_state x = ''complete'' \<and> bl_refs x = 0) (blobs b)")
    case None
    with r show ?thesis by (auto simp: find_None_iff)
  next
    case (Some x)
    from find_key_Some [OF this] rows_unique [OF k r(1)] have "x = r" by auto
    with Some show ?thesis by simp
  qed
  then show ?thesis
    using total_le_used [OF inv r(1,2)] d
    by (simp add: Storage_collectBlob_def collect_rename_def collect_tx_def delete_blob_def flip: blob_of_def)
qed

lemma collect_all_succeeds:
  assumes "blob_inv sha256 b" "set rs \<subseteq> set (blobs b)" "distinct (map blob_of rs)"
    "\<And>r. r \<in> set rs \<Longrightarrow> bl_state r = ''complete'' \<and> bl_refs r = 0"
    "\<And>item b. blob_inv sha256 b \<Longrightarrow> blob_inv sha256 (between item b)"
    "\<And>item b r. r \<in> set rs \<Longrightarrow> rows_at (blob_of r) (between item b) = rows_at (blob_of r) b"
  shows "fst (collect_all between (map item_of rs) b) = (None, map (\<lambda>r. (item_of r)\<lparr>gr_Removed := True\<rparr>) rs) \<and>
    (\<forall>r \<in> set rs. rows_at (blob_of r) (snd (collect_all between (map item_of rs) b)) = [])"
  using assms
proof (induction rs arbitrary: b)
  case (Cons r rs)
  let ?b = "between (item_of r) b"
  have stays: "x \<in> set (blobs ?b)" if "x \<in> set (r # rs)" for x
  proof -
    from Cons.prems(2) that have "x \<in> set (rows_at (blob_of x) b)" by (auto simp: rows_at_def)
    with Cons.prems(6) [OF that, of "item_of r" b] show ?thesis by (metis filter_is_subset rows_at_def subsetD)
  qed
  from collect_succeeds [OF Cons.prems(5) [OF Cons.prems(1)] stays, of r] Cons.prems(4) obtain b1 where
    b1: "Storage_collectBlob (item_of r) ?b = (Inr (), b1)" "blobs b1 = filter (\<lambda>x. blob_of x \<noteq> blob_of r) (blobs ?b)" by auto
  have "blob_inv sha256 b1" using inv_collect [OF Cons.prems(5) [OF Cons.prems(1)], of "item_of r" "item_of r"] b1(1) by simp
  moreover have "set rs \<subseteq> set (blobs b1)" using stays Cons.prems(3) by (auto simp: b1(2) image_iff)
  ultimately have IH: "fst (collect_all between (map item_of rs) b1) = (None, map (\<lambda>r. (item_of r)\<lparr>gr_Removed := True\<rparr>) rs) \<and>
      (\<forall>r \<in> set rs. rows_at (blob_of r) (snd (collect_all between (map item_of rs) b1)) = [])"
    using Cons.prems(3-6) by (intro Cons.IH) auto
  have "rows_at (blob_of r) (snd (collect_all between (map item_of rs) b1)) = []"
  proof (rule collect_all_keeps)
    fix item b assume "item \<in> set (map item_of rs)" and e: "rows_at (blob_of r) b = []"
    then have "blob_of r \<noteq> (gr_WorkspaceID item, gr_BlobID item)" using Cons.prems(3) by (force simp: blob_of_def)
    with rows_at_collect [of "blob_of r" item "between item b"] Cons.prems(6) [of r item b] e
    show "rows_at (blob_of r) (snd (Storage_collectBlob item (between item b))) = []" by auto
  qed (auto simp: rows_at_def b1(2) filter_empty_conv)
  moreover obtain e rest b2 where c: "collect_all between (map item_of rs) b1 = ((e, rest), b2)" by (cases "collect_all between (map item_of rs) b1") auto
  ultimately show ?case using IH b1 by auto
qed simp

text \<open>An item whose files are gone stops the collector.\<close>

lemma collect_all_stops:
  assumes "item \<in> set items" "final_dirs b (gr_WorkspaceID item, gr_BlobID item) = None"
  shows "fst (fst (collect_all (\<lambda>_ b. b) items b)) = Some ErrSql"
  using assms
proof (induction items arbitrary: b)
  case (Cons x items)
  have err: "e = ErrSql" if "Storage_collectBlob x b = (Inl e, b')" for e b'
    using that by (auto simp: Storage_collectBlob_def collect_tx_def Let_def split: option.splits sum.splits if_splits)
  show ?case
  proof (cases "Storage_collectBlob x b")
    case (Pair res b1)
    show ?thesis
    proof (cases res)
      case (Inl e)
      with Pair err show ?thesis by simp
    next
      case (Inr u)
      with Pair Cons.prems(2) have "x \<noteq> item" by (auto simp: Storage_collectBlob_def collect_rename_def)
      moreover have "final_dirs b1 (gr_WorkspaceID item, gr_BlobID item) = None"
        using Pair Inr Cons.prems(2) by (auto elim!: collect_Inr simp: delete_blob_def)
      ultimately have "fst (fst (collect_all (\<lambda>_ b. b) items b1)) = Some ErrSql" using Cons.prems(1) by (intro Cons.IH) auto
      with Pair Inr show ?thesis by (auto split: prod.splits)
    qed
  qed
qed simp

lemma verify_rows_fails:
  assumes "r \<in> set (blobs b)" "bl_state r = ''complete''" "\<exists>c \<in> set cs. chunk_of c = blob_of r" "final_dirs b (blob_of r) = None"
  shows "verify_rows sha256 b cs \<noteq> Inr ()"
  using assms(3)
proof (induction cs)
  case (Cons c cs)
  show ?case
  proof (cases "chunk_of c = blob_of r")
    case True
    with assms(1,2) have "list_ex (\<lambda>r. bl_at (ck_ws c) (ck_blob c) r \<and> bl_state r = ''complete'') (blobs b)"
      by (auto simp: list_ex_iff chunk_of_def)
    with True assms(4) show ?thesis by (simp add: verifyChunkFile_def chunk_of_def)
  next
    case False
    with Cons show ?thesis by (auto simp: err_simps split: if_splits)
  qed
qed simp

lemma blob_run_append: "blob_run sha256 vf cfg cb (cs @ ds) s = blob_run sha256 vf cfg cb ds (blob_run sha256 vf cfg cb cs s)"
  by (induction cs arbitrary: s) auto

section \<open>A concrete history\<close>

definition demo_blob_id :: string where
  "demo_blob_id = hex_encode demo_digest"

definition demo_init :: BlobInit where
  "demo_init = \<lparr>bi_WorkspaceID = demo_text 3, bi_BlobID = demo_blob_id, bi_KeyID = demo_key, bi_EncryptedManifest = [1], bi_TotalBytes = 1,
     bi_Chunks = [\<lparr>cs_Index = 0, cs_Bytes = 1, cs_SHA256 = demo_blob_id\<rparr>]\<rparr>"

definition demo_reference :: reference_row where
  "demo_reference = \<lparr>rf_ws = demo_text 3, rf_blob = demo_blob_id, rf_id = demo_text 8, rf_created = 0\<rparr>"

definition demo_stored :: blob_db where
  "demo_stored = \<lparr>used_bytes = (\<lambda>_. 0)(demo_text 1 := 1), reserved_bytes = (\<lambda>_. 0),
     blobs = [\<lparr>bl_ws = demo_text 3, bl_id = demo_blob_id, bl_owner = demo_text 1, bl_key = demo_key, bl_manifest = [1], bl_total = 1, bl_chunk_count = 1,
       bl_state = ''complete'', bl_reserved = 0, bl_refs = 0, bl_created = 0, bl_completed = Some 0, bl_unreferenced = Some 0\<rparr>],
     blob_chunks = [\<lparr>ck_ws = demo_text 3, ck_blob = demo_blob_id, ck_index = 0, ck_bytes = 1, ck_hash = demo_digest, ck_uploaded = Some 0\<rparr>],
     blob_references = [], staging_dirs = Map.empty, final_dirs = [(demo_text 3, demo_blob_id) \<mapsto> [0 \<mapsto> [7]]]\<rparr>"

definition demo_blob_calls :: "blob_call list" where
  "demo_blob_calls = [BlobOther (CallCreateInvite ''alice'' 1000000000 0 (demo_text 9) (replicate 40 (CHR ''a''))), BlobOther (CallRegister demo_reg 0),
     BlobBegin (demo_text 1) demo_init 0, BlobPut (demo_text 1) (demo_text 3) demo_blob_id 0 [7] 0, BlobComplete (demo_text 1) (demo_text 3) demo_blob_id 0]"

definition demo_link :: blob_call where
  "demo_link = BlobReference (demo_text 1) (demo_text 3) demo_blob_id (demo_text 8) True 0"

lemma demo_blob_id_simps [simp]: "validateBlobID demo_blob_id = Inr ()" "hex_decode demo_blob_id = Some demo_digest" "to_lower demo_blob_id = demo_blob_id"
  "hex_bytes demo_blob_id = demo_digest"
  by (simp_all add: demo_blob_id_def validateBlobID_def to_lower_hex lower_hex_hex_encode guard_res_def)

lemma demo_member: "isActiveMember (demo_text 1) (demo_text 3) demo_registered"
  by (simp add: isActiveMember_def demo_registered_def empty_server_def new_member_def)

definition demo_begun :: blob_db where
  "demo_begun = empty_blobs\<lparr>reserved_bytes := (\<lambda>_. 0)(demo_text 1 := 1), blobs := [new_blob (demo_text 1) demo_init 0],
     blob_chunks := [\<lparr>ck_ws = demo_text 3, ck_blob = demo_blob_id, ck_index = 0, ck_bytes = 1, ck_hash = demo_digest, ck_uploaded = None\<rparr>]\<rparr>"

lemma demo_begin: "\<exists>info. BeginBlob demo_config 100 (demo_text 1) demo_init 0 demo_registered empty_blobs = Inr (info, demo_begun)"
proof -
  have "list_ex (\<lambda>w. w_id w = demo_text 3 \<and> w_key w = demo_key) (workspaces demo_registered)"
    by (simp add: demo_registered_def empty_server_def new_workspace_def)
  moreover have "\<exists>u. find (\<lambda>u. u_id u = demo_text 1) (users demo_registered) = Some u \<and> u_quota u = 1000"
    by (simp add: demo_registered_def empty_server_def registered_user_def demo_reg_def demo_config_def)
  ultimately show ?thesis
    by (auto simp: BeginBlob_def demo_init_def demo_config_def validateChunkSpecs_def begin_tx_def Let_def demo_member reserve_def
        demo_begun_def empty_blobs_def)
qed

lemma demo_put_chunk: "PutBlobChunk demo_hash 100 (demo_text 1) (demo_text 3) demo_blob_id 0 [7] 0 demo_registered demo_begun =
  Inr (mark_uploaded (demo_text 3) demo_blob_id 0 0 (demo_begun\<lparr>staging_dirs := [(demo_text 3, demo_blob_id) \<mapsto> [0 \<mapsto> [7]]]\<rparr>))"
  by (simp add: PutBlobChunk_def put_files_def demo_member demo_begun_def empty_blobs_def chunk_of_def) (simp add: demo_init_def)

lemma demo_complete: "snd (CompleteBlob demo_hash (demo_text 1) (demo_text 3) demo_blob_id 0 demo_registered
    (mark_uploaded (demo_text 3) demo_blob_id 0 0 (demo_begun\<lparr>staging_dirs := [(demo_text 3, demo_blob_id) \<mapsto> [0 \<mapsto> [7]]]\<rparr>))) = demo_stored"
  by (simp add: CompleteBlob_def complete_files_def complete_tx_def blobInfo_def demo_member demo_begun_def empty_blobs_def mark_uploaded_def
      update_rows_def chunk_of_def blob_of_def info_of_def readBlobChunks_def demo_init_def new_blob_def unixNow_def verifyChunkFile_def demo_stored_def fun_upd_idem)

lemma demo_upload_run: "blob_run demo_hash demo_sig_ok demo_config 100 demo_blob_calls (empty_server, empty_blobs) = (demo_registered, demo_stored)"
proof -
  obtain info where "BeginBlob demo_config 100 (demo_text 1) demo_init 0 demo_registered empty_blobs = Inr (info, demo_begun)" using demo_begin by blast
  then show ?thesis by (simp add: demo_blob_calls_def demo_invite demo_register demo_put_chunk demo_complete)
qed

lemma demo_upload_whole: "list_all collects_whole demo_blob_calls"
  by (simp add: demo_blob_calls_def)

definition demo_runs :: "(ServerConfig \<times> blob_call list) list" where
  "demo_runs = [(demo_config, demo_blob_calls)]"

lemma demo_server_runs: "server_runs demo_hash demo_sig_ok 100 demo_runs (empty_server, empty_blobs) = (demo_registered, demo_stored)"
proof -
  have "applyConfiguredQuotas demo_config empty_server = empty_server" by (simp add: applyConfiguredQuotas_def empty_server_def)
  then show ?thesis by (simp add: demo_runs_def demo_upload_run)
qed

lemma demo_runs_whole: "in_runs collects_whole demo_runs"
  by (simp add: demo_runs_def demo_upload_whole)

lemma demo_link_step: "blob_references (snd (blob_step demo_hash demo_sig_ok demo_config 100 demo_link (demo_registered, demo_stored))) = [demo_reference]"
  by (simp add: demo_link_def SetBlobReferenced_def demo_member demo_stored_def blob_of_def reference_tx_def demo_reference_def unixNow_def)

definition demo_linked :: "(ServerConfig \<times> blob_call list) list" where
  "demo_linked = [(demo_config, demo_blob_calls @ [demo_link])]"

lemma demo_linked_run: "server_runs demo_hash demo_sig_ok 100 demo_linked (empty_server, empty_blobs) =
  (demo_registered, snd (blob_step demo_hash demo_sig_ok demo_config 100 demo_link (demo_registered, demo_stored)))"
proof -
  have "fst (blob_step demo_hash demo_sig_ok demo_config 100 demo_link (demo_registered, demo_stored)) = demo_registered"
    by (simp only: demo_link_def blob_step.simps fst_conv)
  moreover have "applyConfiguredQuotas demo_config empty_server = empty_server" by (simp add: applyConfiguredQuotas_def empty_server_def)
  ultimately show ?thesis
    by (simp only: demo_linked_def server_runs.simps blob_run_append demo_upload_run blob_run.simps) (simp only: prod_eq_iff fst_conv snd_conv)
qed

lemma demo_reconfigured: "applyConfiguredQuotas demo_config demo_registered = demo_registered"
  by (simp add: applyConfiguredQuotas_def demo_registered_def empty_server_def registered_user_def demo_reg_def)

definition demo_between :: "BlobGCResult \<Rightarrow> blob_db \<Rightarrow> blob_db" where
  "demo_between = (\<lambda>item b. snd (blob_run demo_hash demo_sig_ok demo_config 100
     [BlobBegin (demo_text 1) (demo_init\<lparr>bi_BlobID := hex_encode (replicate 32 2)\<rparr>) 0] (demo_registered, b)))"

lemma demo_blob_ids_differ: "demo_blob_id \<noteq> hex_encode (replicate 32 2)"
proof
  assume "demo_blob_id = hex_encode (replicate 32 2)"
  then have "hex_decode demo_blob_id = hex_decode (hex_encode (replicate 32 2))" by (rule arg_cong)
  then have "demo_digest = replicate 32 2" by simp
  then have "hd demo_digest = hd (replicate 32 2)" by (rule arg_cong)
  then show False by (simp add: demo_digest_def)
qed

section \<open>Quotas\<close>

definition owned_bytes :: "string \<Rightarrow> blob_db \<Rightarrow> int" where
  "owned_bytes user b = sum_list (map bl_total (filter (\<lambda>r. bl_owner r = user) (blobs b)))"

lemma last_run_quota:
  assumes "in_runs collects_whole (runs @ [(cfg, cs)])"
  shows "owned_bytes user (snd (server_runs sha256 vf cb (runs @ [(cfg, cs)]) (empty_server, empty_blobs))) \<le>
    max (owned_bytes user (snd (server_runs sha256 vf cb runs (empty_server, empty_blobs)))) (UserQuotaBytes cfg)"
proof -
  obtain db b where s: "server_runs sha256 vf cb runs (empty_server, empty_blobs) = (db, b)" by fastforce
  with runs_inv [of runs sha256 vf cb] assms have inv: "blob_inv sha256 b" by simp
  let ?s = "(applyConfiguredQuotas cfg db, b)"
  have "within_quota cfg (\<lambda>u. owned_bytes u b) ?s"
    using owned_total [OF inv] by (auto simp: within_quota_def quotas_set_def applyConfiguredQuotas_def list_all_iff owned_bytes_def)
  with usage.run_keeps [of sha256 ?s cfg "\<lambda>u. owned_bytes u b" cs vf cb] inv assms
  have "blob_inv sha256 (snd (blob_run sha256 vf cfg cb cs ?s))" "within_quota cfg (\<lambda>u. owned_bytes u b) (blob_run sha256 vf cfg cb cs ?s)" by auto
  then show ?thesis using owned_total by (simp add: server_runs_append s within_quota_def owned_bytes_def)
qed

lemma largest_quota:
  assumes "0 \<le> N" "list_all (\<lambda>(cfg, _). UserQuotaBytes cfg \<le> N) runs" "in_runs collects_whole runs"
  shows "owned_bytes user (snd (server_runs sha256 vf cb runs (empty_server, empty_blobs))) \<le> N"
  using assms
proof (induction runs rule: rev_induct)
  case (snoc run runs)
  obtain cfg cs where run: "run = (cfg, cs)" by (cases run)
  with snoc have "owned_bytes user (snd (server_runs sha256 vf cb runs (empty_server, empty_blobs))) \<le> N" "UserQuotaBytes cfg \<le> N" by auto
  with last_run_quota [of runs cfg cs user sha256 vf cb] snoc.prems(3) run show ?case by simp
qed (simp add: owned_bytes_def empty_blobs_def)

section \<open>Guarantees\<close>

text \<open>
  C16. Over every history of calls, with restarts under other configurations, and with crashes
  between the file and the table part of an upload, of a completion and of the removal of an
  abandoned upload, the server state passes \<open>VerifyServerState\<close>: the reference counts and the
  used and reserved bytes of every user are right, and every chunk of every complete blob is on
  disk with its digest.\<close>

theorem server_state_verifies:
  assumes "in_runs collects_whole runs"
  shows "VerifyServerState sha256 (fst (server_runs sha256 vf cb runs (empty_server, empty_blobs)))
    (snd (server_runs sha256 vf cb runs (empty_server, empty_blobs))) = Inr ()"
  using runs_inv [OF assms] by (blast intro: blob_inv_verifies)

theorem server_state_verifies_witness: "VerifyServerState demo_hash demo_registered demo_stored = Inr ()"
  using server_state_verifies [OF demo_runs_whole, of demo_hash demo_sig_ok 100] by (simp add: demo_server_runs)

text \<open>
  C33. Each start applies its configured quota to every user. While it serves, whatever the
  calls, the bytes of the blobs that a user owns, uploaded or announced, do not grow above that
  quota: they stay below it, or below what the user had at the start when the quota has been
  lowered. So they never exceed the largest quota configured so far. No collection is
  interrupted in the history.\<close>

theorem blobs_within_quota:
  assumes "in_runs collects_whole (runs @ [(cfg, cs)])"
    "s = server_runs sha256 vf cb runs (empty_server, empty_blobs)" "s' = server_runs sha256 vf cb (runs @ [(cfg, cs)]) (empty_server, empty_blobs)"
  shows "owned_bytes user (snd s') \<le> max (owned_bytes user (snd s)) (UserQuotaBytes cfg) \<and>
    (0 \<le> N \<longrightarrow> list_all (\<lambda>(cfg, _). UserQuotaBytes cfg \<le> N) (runs @ [(cfg, cs)]) \<longrightarrow> owned_bytes user (snd s') \<le> N)"
proof (intro conjI impI)
  show "owned_bytes user (snd s') \<le> max (owned_bytes user (snd s)) (UserQuotaBytes cfg)"
    unfolding assms(2,3) using assms(1) by (rule last_run_quota)
  show "owned_bytes user (snd s') \<le> N" if "0 \<le> N" "list_all (\<lambda>(cfg, _). UserQuotaBytes cfg \<le> N) (runs @ [(cfg, cs)])"
    unfolding assms(3) using that assms(1) by (rule largest_quota)
qed

text \<open>The quota is lowered to nothing at the second start; what was stored stays, and no more is added.\<close>

theorem blobs_within_quota_witness:
  "owned_bytes (demo_text 1) demo_stored = 1 \<and>
   owned_bytes (demo_text 1) (snd (server_runs demo_hash demo_sig_ok 100 (demo_runs @ [(demo_config\<lparr>UserQuotaBytes := 0\<rparr>, demo_blob_calls)])
     (empty_server, empty_blobs))) \<le> 1"
proof -
  have o: "owned_bytes (demo_text 1) demo_stored = 1" by (simp add: owned_bytes_def demo_stored_def)
  have "in_runs collects_whole (demo_runs @ [(demo_config\<lparr>UserQuotaBytes := 0\<rparr>, demo_blob_calls)])"
    by (simp add: demo_runs_whole demo_upload_whole)
  from blobs_within_quota [OF this refl refl, of "demo_text 1" demo_hash demo_sig_ok 100 0] o
  show ?thesis by (simp add: demo_server_runs)
qed

text \<open>
  C17. A blob with a reference stays and stays readable: as long as no call takes this
  reference away and no collection is interrupted by a crash (interrupted collections are the
  subject of the last section), every active member of the workspace gets the blob as complete
  and reads every chunk with the announced length and digest, whatever was collected in between.
  The file may be opened some calls later than the tables are read; only a read that falls
  inside \<open>collectBlob\<close>, which moves the files away before it looks for references, is left out.\<close>

theorem referenced_blob_readable:
  assumes "in_runs collects_whole runs" "x \<in> set (blob_references (snd (server_runs sha256 vf cb runs (empty_server, empty_blobs))))"
    "in_runs (\<lambda>c. collects_whole c \<and> \<not> unreferences x c) later"
    "(db, b) = server_runs sha256 vf cb (runs @ later) (empty_server, empty_blobs)"
    "list_all (\<lambda>c. collects_whole c \<and> \<not> unreferences x c) cs" "opened = snd (blob_run sha256 vf cfg cb cs (db, b))"
    "isActiveMember user (rf_ws x) db"
  shows "\<exists>info. GetBlob user (rf_ws x) (rf_blob x) db b = Inr info \<and> bf_State info = ''complete'' \<and> bf_Chunks info \<noteq> [] \<and>
    list_all (\<lambda>chunk. \<exists>contents. ReadBlobChunk sha256 user (rf_ws x) (rf_blob x) (cs_Index chunk) db b opened = Inr contents \<and>
      int (length contents) = cs_Bytes chunk \<and> sha256 contents = hex_bytes (cs_SHA256 chunk)) (bf_Chunks info)"
proof -
  have "blob_inv sha256 b \<and> x \<in> set (blob_references b)"
    using server_runs_keep [where P = "\<lambda>b. blob_inv sha256 b \<and> x \<in> set (blob_references b)", OF referenced.blob_invariant_axioms _ assms(3)]
      runs_inv [OF assms(1)] assms(2,4) by (metis server_runs_append snd_conv)
  then have inv: "blob_inv sha256 b" and x: "x \<in> set (blob_references b)" by auto
  have d: "final_dirs opened (ref_of x) = final_dirs b (ref_of x)"
    using published.run_keeps [OF _ assms(5), of sha256 "(db, b)" "final_dirs b (ref_of x)" vf cfg cb] inv x assms(6) by simp
  have opened: "ReadBlobChunk sha256 user (rf_ws x) (rf_blob x) i db b opened = ReadBlobChunk sha256 user (rf_ws x) (rf_blob x) i db b b" for i
    unfolding ReadBlobChunk_def d [unfolded ref_of_def] ..
  from referenced_row [OF inv x] obtain r where r: "r \<in> set (blobs b)" "blob_of r = (rf_ws x, rf_blob x)" "bl_state r = ''complete''"
    by (auto simp: ref_of_def)
  let ?rows = "filter (\<lambda>c. chunk_of c = blob_of r) (blob_chunks b)"
  have "row_ok b r" using inv r(1) by (auto simp: blob_inv_def)
  then obtain n where n: "n > 0" "map ck_index ?rows = map int [0..<n]" "sort_key ck_index ?rows = ?rows" by (rule chunk_rows_sorted)
  then have "?rows \<noteq> []" by auto
  moreover have "\<exists>contents. ReadBlobChunk sha256 user (rf_ws x) (rf_blob x) (ck_index c) db b opened = Inr contents \<and>
      int (length contents) = ck_bytes c \<and> sha256 contents = ck_hash c" if "c \<in> set ?rows" for c
    using ReadBlobChunk_stored [OF inv r assms(7), of c] that r(2) by (simp add: opened)
  ultimately show ?thesis
    using GetBlob_row [OF inv r(1,2) assms(7)] r(3) n(3) by (auto simp: list_all_iff)
qed

text \<open>The blob is uploaded and referenced; a collection comes before the read, and another between the tables and the file.\<close>

theorem referenced_blob_readable_witness:
  "\<exists>db b info. (db, b) = server_runs demo_hash demo_sig_ok 100 (demo_linked @ [(demo_config, [BlobCollect (item_of (hd (blobs demo_stored)))])])
       (empty_server, empty_blobs) \<and>
     GetBlob (demo_text 1) (demo_text 3) demo_blob_id db b = Inr info \<and> bf_Chunks info \<noteq> [] \<and>
     list_all (\<lambda>chunk. \<exists>contents. ReadBlobChunk demo_hash (demo_text 1) (demo_text 3) demo_blob_id (cs_Index chunk) db b
       (snd (blob_run demo_hash demo_sig_ok demo_config 100 [BlobCollect (item_of (hd (blobs demo_stored)))] (db, b))) = Inr contents) (bf_Chunks info)"
proof -
  let ?gc = "BlobCollect (item_of (hd (blobs demo_stored)))"
  obtain b where b: "(demo_registered, b) = server_runs demo_hash demo_sig_ok 100 (demo_linked @ [(demo_config, [?gc])]) (empty_server, empty_blobs)"
    by (simp add: server_runs_append demo_linked_run demo_reconfigured)
  have x: "demo_reference \<in> set (blob_references (snd (server_runs demo_hash demo_sig_ok 100 demo_linked (empty_server, empty_blobs))))"
    by (simp only: demo_linked_run demo_link_step snd_conv list.set) simp
  have ws: "rf_ws demo_reference = demo_text 3" "rf_blob demo_reference = demo_blob_id" by (simp_all add: demo_reference_def)
  have m: "isActiveMember (demo_text 1) (rf_ws demo_reference) demo_registered" by (simp only: ws demo_member)
  have w: "in_runs collects_whole demo_linked" "in_runs (\<lambda>c. collects_whole c \<and> \<not> unreferences demo_reference c) [(demo_config, [?gc])]"
    "list_all (\<lambda>c. collects_whole c \<and> \<not> unreferences demo_reference c) [?gc]"
    using demo_upload_whole by (simp_all add: demo_linked_def demo_link_def)
  from referenced_blob_readable [OF w(1) x w(2) b w(3) refl m, of demo_config] b show ?thesis
    unfolding ws by (elim exE) (intro exI conjI, assumption, auto simp: list_all_iff)
qed

text \<open>
  C32. A run of the collector after such a history, with any other calls between the listing and
  the removals: a blob that was not due when the candidates were listed, and that these calls do
  not name, is left alone. If these calls name none of the candidates, the run finishes without
  an error, reports every candidate as removed and has removed it; the candidates are the blobs
  without a reference since before the given time.\<close>

theorem GarbageCollectBlobs_exact:
  assumes "in_runs collects_whole runs" "b = snd (server_runs sha256 vf cb runs (empty_server, empty_blobs))"
    "\<forall>item. list_all collects_whole (mid item)" "between = (\<lambda>item b. snd (blob_run sha256 vf cfg cb (mid item) (dbs item, b)))"
    "gc = GarbageCollectBlobs between before False b"
  shows "(\<forall>k. (\<forall>item. \<not> list_ex (touches k) (mid item)) \<and> \<not> list_ex (unreferenced_before before) (rows_at k b) \<longrightarrow> rows_at k (snd gc) = rows_at k b) \<and>
    ((\<forall>r item. r \<in> set (blobs b) \<and> unreferenced_before before r \<longrightarrow> \<not> list_ex (touches (blob_of r)) (mid item)) \<longrightarrow>
       fst (fst gc) = None \<and> snd (fst gc) = map (\<lambda>item. item\<lparr>gr_Removed := True\<rparr>) (gc_items (unreferenced_before before) b) \<and>
       (\<forall>r \<in> set (blobs b). unreferenced_before before r \<longrightarrow> rows_at (blob_of r) (snd gc) = []))"
proof -
  let ?rs = "sort_key (\<lambda>r. (bl_ws r, bl_id r)) (filter (unreferenced_before before) (blobs b))"
  from runs_inv [OF assms(1)] have inv: "blob_inv sha256 b" by (simp add: assms(2))
  have gc: "gc = collect_all between (map item_of ?rs) b" by (simp add: assms(5) GarbageCollectBlobs_def Let_def gc_items_of)
  have free: "rows_at k (between item b) = rows_at k b" if "\<not> list_ex (touches k) (mid item)" for k item b
    using untouched.run_keeps [of k "(dbs item, b)" "rows_at k b" "mid item" sha256 vf cfg cb] that by (simp add: assms(4) list_all_iff list_ex_iff)
  have left: "rows_at k (snd gc) = rows_at k b" if k: "\<forall>item. \<not> list_ex (touches k) (mid item)" "\<not> list_ex (unreferenced_before before) (rows_at k b)" for k
    unfolding gc
  proof (rule collect_all_keeps)
    fix item b' assume i: "item \<in> set (map item_of ?rs)" and b': "rows_at k b' = rows_at k b"
    from i k(2) have "k \<noteq> (gr_WorkspaceID item, gr_BlobID item)" by (auto simp: rows_at_def list_ex_iff blob_of_def)
    with rows_at_collect [of k item "between item b'"] free [of k item b'] k(1) b'
    show "rows_at k (snd (Storage_collectBlob item (between item b'))) = rows_at k b" by simp
  qed simp
  have all: "fst gc = (None, map (\<lambda>r. (item_of r)\<lparr>gr_Removed := True\<rparr>) ?rs) \<and> (\<forall>r \<in> set ?rs. rows_at (blob_of r) (snd gc) = [])"
    if "\<forall>r item. r \<in> set (blobs b) \<and> unreferenced_before before r \<longrightarrow> \<not> list_ex (touches (blob_of r)) (mid item)"
    unfolding gc
  proof (rule collect_all_succeeds [OF inv])
    have "distinct (map blob_of (filter (unreferenced_before before) (blobs b)))"
      using inv by (simp add: blob_inv_def keys_ok_def distinct_map_filter)
    then show "distinct (map blob_of ?rs)" by (simp add: distinct_map)
    show "blob_inv sha256 (between item b')" if "blob_inv sha256 b'" for item b'
      using consistent.run_keeps [of sha256 "(dbs item, b')" "mid item" vf cfg cb] that assms(3) by (simp add: assms(4))
  qed (use that in \<open>auto simp: unreferenced_before_def intro!: free\<close>)
  show ?thesis using left all by (auto simp: gc_items_of)
qed

text \<open>Another upload is announced while the collector runs.\<close>

theorem GarbageCollectBlobs_exact_witness:
  "fst (fst (GarbageCollectBlobs demo_between 0 False demo_stored)) = None \<and>
   rows_at (demo_text 3, demo_blob_id) (snd (GarbageCollectBlobs demo_between 0 False demo_stored)) = []"
proof -
  let ?mid = "\<lambda>_ :: BlobGCResult. [BlobBegin (demo_text 1) (demo_init\<lparr>bi_BlobID := hex_encode (replicate 32 2)\<rparr>) 0]"
  have w: "\<forall>item. list_all collects_whole (?mid item)" by simp
  have b: "demo_stored = snd (server_runs demo_hash demo_sig_ok 100 demo_runs (empty_server, empty_blobs))" by (simp only: demo_server_runs snd_conv)
  have "\<forall>r item. r \<in> set (blobs demo_stored) \<and> unreferenced_before 0 r \<longrightarrow> \<not> list_ex (touches (blob_of r)) (?mid item)"
    by (simp add: demo_stored_def blob_of_def demo_init_def demo_blob_ids_differ)
  moreover have "\<exists>r \<in> set (blobs demo_stored). unreferenced_before 0 r \<and> blob_of r = (demo_text 3, demo_blob_id)"
    by (simp add: demo_stored_def unreferenced_before_def blob_of_def unixNow_def)
  ultimately show ?thesis
    using GarbageCollectBlobs_exact [OF demo_runs_whole b w demo_between_def refl, of 0] by metis
qed

section \<open>An interrupted collection\<close>

text \<open>
  C36. When the process stops in \<open>collectBlob\<close> between moving the files away and the
  transaction, the blob stays in the tables and its bytes stay charged, but its files are gone:
  the consistency check fails, and the next run of the collector ends with an error.\<close>

theorem interrupted_collection:
  assumes "in_runs collects_whole runs" "(db, b) = server_runs sha256 vf cb runs (empty_server, empty_blobs)"
    "r \<in> set (blobs b)" "unreferenced_before before r" "(db, b') = blob_step sha256 vf cfg cb (BlobCollectCrash (item_of r)) (db, b)"
  shows "r \<in> set (blobs b') \<and> used_bytes b' = used_bytes b \<and> VerifyServerState sha256 db b' \<noteq> Inr () \<and>
    fst (fst (GarbageCollectBlobs (\<lambda>_ b. b) before False b')) = Some ErrSql"
proof -
  from runs_inv [OF assms(1), of sha256 vf cb] assms(2) have inv: "blob_inv sha256 b" by (metis snd_conv)
  have c: "bl_state r = ''complete''" using assms(4) by (simp add: unreferenced_before_def)
  from complete_has_files [OF inv assms(3) c] obtain d where "final_dirs b (blob_of r) = Some d" by auto
  then have b': "b' = b\<lparr>final_dirs := (final_dirs b)(blob_of r := None)\<rparr>"
    using assms(5) by (simp add: collect_rename_def flip: blob_of_def)
  have "item_of r \<in> set (gc_items (unreferenced_before before) b')" using assms(3,4) by (auto simp: gc_items_of b')
  then have "fst (fst (GarbageCollectBlobs (\<lambda>_ b. b) before False b')) = Some ErrSql"
    using collect_all_stops [of "item_of r" _ b'] by (auto simp: GarbageCollectBlobs_def Let_def b' simp flip: blob_of_def)
  moreover have "VerifyServerState sha256 db b' \<noteq> Inr ()"
  proof
    assume ok: "VerifyServerState sha256 db b' = Inr ()"
    have "row_ok b r" using inv assms(3) by (auto simp: blob_inv_def)
    then have "\<exists>c \<in> set (blob_chunks b'). chunk_of c = blob_of r" by (rule row_has_chunk) (auto simp: b')
    then have "verify_rows sha256 b' (blob_chunks b') \<noteq> Inr ()" by (intro verify_rows_fails [of r]) (use assms(3) c in \<open>auto simp: b'\<close>)
    with ok show False by (simp add: VerifyServerState_def split: if_splits)
  qed
  ultimately show ?thesis using assms(3) by (simp add: b')
qed

theorem interrupted_collection_witness:
  "VerifyServerState demo_hash demo_registered (demo_stored\<lparr>final_dirs := Map.empty\<rparr>) \<noteq> Inr () \<and>
   fst (fst (GarbageCollectBlobs (\<lambda>_ b. b) 0 False (demo_stored\<lparr>final_dirs := Map.empty\<rparr>))) = Some ErrSql"
proof -
  let ?r = "hd (blobs demo_stored)"
  have r: "?r \<in> set (blobs demo_stored)" "unreferenced_before 0 ?r" "bl_ws ?r = demo_text 3" "bl_id ?r = demo_blob_id"
    by (simp_all add: demo_stored_def unreferenced_before_def unixNow_def)
  have run: "(demo_registered, demo_stored) = server_runs demo_hash demo_sig_ok 100 demo_runs (empty_server, empty_blobs)"
    by (simp only: demo_server_runs)
  have step: "(demo_registered, demo_stored\<lparr>final_dirs := Map.empty\<rparr>) =
      blob_step demo_hash demo_sig_ok demo_config 100 (BlobCollectCrash (item_of ?r)) (demo_registered, demo_stored)"
    using r(3,4) by (simp add: collect_rename_def) (simp add: demo_stored_def)
  from interrupted_collection [OF demo_runs_whole run r(1,2) step] show ?thesis by blast
qed

end
