(* ===== verification/Attachment_Sync.thy ===== *)
theory Attachment_Sync
  imports Attachments Garbage_Collection Server_API Blob_Guarantees
begin

text \<open>
  The transfer of attachments: \<^verbatim>\<open>core/account/attachment_sync.go\<close>, the methods of the HTTP
  transport that it calls (\<^verbatim>\<open>core/transport/http.go\<close>) and the blob handlers of
  \<^verbatim>\<open>server/api.go\<close>. The interface \<^verbatim>\<open>AttachmentSyncTransport\<close> is a record of functions over a
  state of the other side. The HTTP transport implements it with one call per method; the
  session around a call is that of \<open>HTTP_Client\<close> and is not repeated here, so a call is a
  function from a request to an error or a body. The server is such a function over the
  tables and files of \<open>Server_Blobs\<close>.
\<close>

section \<open>Data\<close>

record AttachmentChunk =
  ac_Index :: u32
  ac_Bytes :: int
  ac_SHA256 :: bytes

record RemoteAttachment =
  ra_KeyID :: bytes
  ra_Manifest :: bytes
  ra_Bytes :: int
  ra_Complete :: bool
  ra_Chunks :: "AttachmentChunk list"
  ra_Uploaded :: "u32 list"

record 'r AttachmentSyncTransport =
  GetAttachment :: "ID \<Rightarrow> bytes \<Rightarrow> 'r \<Rightarrow> (sync_error + RemoteAttachment option) \<times> 'r"
  BeginAttachment :: "ID \<Rightarrow> bytes \<Rightarrow> bytes \<Rightarrow> bytes \<Rightarrow> int \<Rightarrow> AttachmentChunk list \<Rightarrow> 'r \<Rightarrow> (sync_error + RemoteAttachment) \<times> 'r"
  PutAttachmentChunk :: "ID \<Rightarrow> bytes \<Rightarrow> u32 \<Rightarrow> bytes \<Rightarrow> 'r \<Rightarrow> (sync_error + unit) \<times> 'r"
  CompleteAttachment :: "ID \<Rightarrow> bytes \<Rightarrow> 'r \<Rightarrow> (sync_error + RemoteAttachment) \<times> 'r"
  ReadAttachmentChunk :: "ID \<Rightarrow> bytes \<Rightarrow> u32 \<Rightarrow> 'r \<Rightarrow> (sync_error + bytes) \<times> 'r"

section \<open>The account\<close>

fun sync_chunks :: "nat \<Rightarrow> int \<Rightarrow> attachmentChunkRecord list \<Rightarrow> account_error + AttachmentChunk list \<times> int" where
  "sync_chunks index subtotal [] = Inr ([], subtotal)"
| "sync_chunks index subtotal (chunk # chunks) =
     (let ciphertextSize = uint (cr_ciphertextSize chunk) in
      if ciphertextSize = 0 \<or> ciphertextSize > int AttachmentChunkBytes + int AEADTagBytes \<or> subtotal > 9223372036854775807 - ciphertextSize
      then Inl (AccPlain ''attachment ciphertext size is invalid'')
      else bind_res (sync_chunks (index + 1) (subtotal + ciphertextSize) chunks) (\<lambda>(rest, n).
        Inr (\<lparr>ac_Index = word_of_nat index, ac_Bytes = ciphertextSize, ac_SHA256 = cr_ciphertextSHA256 chunk\<rparr> # rest, n)))"

definition attachmentSyncManifest :: "crypto_env \<Rightarrow> bytes option \<Rightarrow> ID \<Rightarrow> attachment_row \<Rightarrow> account_error + AttachmentChunk list \<times> int" where
  "attachmentSyncManifest env key workspaceID attachment =
     bind_res (openAttachmentManifest env key (attachment_metadata workspaceID (at_blob attachment) (at_key attachment)) (at_manifest attachment)) (\<lambda>manifest.
       if length (mp_chunks manifest) \<noteq> unat (at_chunks attachment) then Inl (AccPlain ''attachment catalog chunk count mismatch'')
       else sync_chunks 0 0 (mp_chunks manifest))"

definition same_chunk :: "AttachmentChunk \<Rightarrow> AttachmentChunk \<Rightarrow> bool" where
  "same_chunk actual expected \<longleftrightarrow> ac_Index actual = ac_Index expected \<and> ac_Bytes actual = ac_Bytes expected \<and> equalBytes (ac_SHA256 actual) (ac_SHA256 expected)"

definition validateRemoteAttachment :: "attachment_row \<Rightarrow> AttachmentChunk list \<Rightarrow> int \<Rightarrow> RemoteAttachment \<Rightarrow> account_error + unit" where
  "validateRemoteAttachment attachment chunks n remote =
     (if \<not> equalBytes (ra_KeyID remote) (at_key attachment) \<or> \<not> equalBytes (ra_Manifest remote) (at_manifest attachment) \<or>
         ra_Bytes remote \<noteq> n \<or> length (ra_Chunks remote) \<noteq> length chunks
      then Inl (AccPlain ''remote attachment metadata mismatch'')
      else if \<not> list_all2 same_chunk (ra_Chunks remote) chunks then Inl (AccPlain ''remote attachment chunk metadata mismatch'')
      else Inr ())"

text \<open>The loop of \<open>uploadAttachmentChunks\<close>: \<open>file\<close> is the part of the file not read yet.\<close>

fun upload_chunks ::
  "(bytes \<Rightarrow> bytes) \<Rightarrow> 'r AttachmentSyncTransport \<Rightarrow> ID \<Rightarrow> bytes \<Rightarrow> u32 list \<Rightarrow> AttachmentChunk list \<Rightarrow> bytes \<Rightarrow> 'r \<Rightarrow> (account_error + unit) \<times> 'r" where
  "upload_chunks sha256 remote workspaceID blobID uploaded [] content r = (Inr (), r)"
| "upload_chunks sha256 remote workspaceID blobID uploaded (chunk # chunks) content r =
     (let size = nat (ac_Bytes chunk); contents = take size content in
      if length content < size then (Inl (AccPlain ''read local attachment chunk''), r)
      else if \<not> equalBytes (sha256 contents) (ac_SHA256 chunk) then (Inl (AccPlain ''local attachment chunk hash mismatch''), r)
      else if ac_Index chunk \<in> set uploaded then upload_chunks sha256 remote workspaceID blobID uploaded chunks (drop size content) r
      else case PutAttachmentChunk remote workspaceID blobID (ac_Index chunk) contents r of
             (Inl e, r) \<Rightarrow> (Inl (AccSync e), r)
           | (Inr _, r) \<Rightarrow> upload_chunks sha256 remote workspaceID blobID uploaded chunks (drop size content) r)"

definition uploadAttachmentChunks ::
  "(bytes \<Rightarrow> bytes) \<Rightarrow> 'r AttachmentSyncTransport \<Rightarrow> ID \<Rightarrow> bytes \<Rightarrow> AttachmentChunk list \<Rightarrow> u32 list \<Rightarrow> blob_dir \<Rightarrow> 'r \<Rightarrow> (account_error + unit) \<times> 'r" where
  "uploadAttachmentChunks sha256 remote workspaceID blobID chunks uploaded files r =
     (case BlobStore_Open blobID files of
        Inl e \<Rightarrow> (Inl e, r)
      | Inr content \<Rightarrow> upload_chunks sha256 remote workspaceID blobID uploaded chunks content r)"

fun download_chunks ::
  "(bytes \<Rightarrow> bytes) \<Rightarrow> 'r AttachmentSyncTransport \<Rightarrow> ID \<Rightarrow> bytes \<Rightarrow> AttachmentChunk list \<Rightarrow> 'r \<Rightarrow> (account_error + bytes) \<times> 'r" where
  "download_chunks sha256 remote workspaceID blobID [] r = (Inr [], r)"
| "download_chunks sha256 remote workspaceID blobID (chunk # chunks) r =
     (case ReadAttachmentChunk remote workspaceID blobID (ac_Index chunk) r of
        (Inl e, r) \<Rightarrow> (Inl (AccSync e), r)
      | (Inr contents, r) \<Rightarrow>
          if int (length contents) \<noteq> ac_Bytes chunk then (Inl (AccPlain ''remote attachment chunk size mismatch''), r)
          else if \<not> equalBytes (sha256 contents) (ac_SHA256 chunk) then (Inl (AccPlain ''remote attachment chunk hash mismatch''), r)
          else case download_chunks sha256 remote workspaceID blobID chunks r of
                 (Inl e, r) \<Rightarrow> (Inl e, r)
               | (Inr rest, r) \<Rightarrow> (Inr (contents @ rest), r))"

definition downloadAttachmentChunks ::
  "(bytes \<Rightarrow> bytes) \<Rightarrow> 'r AttachmentSyncTransport \<Rightarrow> ID \<Rightarrow> bytes \<Rightarrow> AttachmentChunk list \<Rightarrow> blob_dir \<Rightarrow> 'r \<Rightarrow> (account_error + unit) \<times> blob_dir \<times> 'r" where
  "downloadAttachmentChunks sha256 remote workspaceID blobID chunks files r =
     (let (content, r') = (if BlobStore_Exists blobID files then (Inr [], r) else download_chunks sha256 remote workspaceID blobID chunks r);
          (published, files) = BlobStore_Publish blobID content files
      in (map_sum id (\<lambda>_. ()) published, files, r'))"

text \<open>The part of \<open>synchronizeAttachment\<close> that finds or creates the attachment on the other side and completes it there.\<close>

definition remote_attachment ::
  "'r AttachmentSyncTransport \<Rightarrow> ID \<Rightarrow> attachment_row \<Rightarrow> AttachmentChunk list \<Rightarrow> int \<Rightarrow> bool \<Rightarrow> 'r \<Rightarrow> (account_error + RemoteAttachment) \<times> 'r" where
  "remote_attachment remote workspaceID attachment chunks n localExists r =
     (case GetAttachment remote workspaceID (at_blob attachment) r of
        (Inl e, r) \<Rightarrow> (Inl (AccSync e), r)
      | (Inr (Some found), r) \<Rightarrow> (Inr found, r)
      | (Inr None, r) \<Rightarrow>
          if \<not> localExists then (Inl (AccPlain ''attachment is unavailable on this device and server''), r)
          else case BeginAttachment remote workspaceID (at_blob attachment) (at_key attachment) (at_manifest attachment) n chunks r of
                 (Inl e, r) \<Rightarrow> (Inl (AccSync e), r)
               | (Inr begun, r) \<Rightarrow> (Inr begun, r))"

definition complete_attachment ::
  "(bytes \<Rightarrow> bytes) \<Rightarrow> 'r AttachmentSyncTransport \<Rightarrow> ID \<Rightarrow> attachment_row \<Rightarrow> AttachmentChunk list \<Rightarrow> int \<Rightarrow> bool \<Rightarrow> RemoteAttachment \<Rightarrow> blob_dir \<Rightarrow> 'r
   \<Rightarrow> (account_error + RemoteAttachment) \<times> 'r" where
  "complete_attachment sha256 remote workspaceID attachment chunks n localExists found files r =
     (if ra_Complete found then (Inr found, r)
      else if \<not> localExists then (Inl (AccPlain ''attachment is not complete on server''), r)
      else case uploadAttachmentChunks sha256 remote workspaceID (at_blob attachment) chunks (ra_Uploaded found) files r of
             (Inl e, r) \<Rightarrow> (Inl e, r)
           | (Inr _, r) \<Rightarrow>
               (case CompleteAttachment remote workspaceID (at_blob attachment) r of
                  (Inl e, r) \<Rightarrow> (Inl (AccSync e), r)
                | (Inr completed, r) \<Rightarrow> (bind_res (validateRemoteAttachment attachment chunks n completed) (\<lambda>_. Inr completed), r)))"

definition synchronizeAttachment ::
  "crypto_env \<Rightarrow> (bytes \<Rightarrow> bytes) \<Rightarrow> 'r AttachmentSyncTransport \<Rightarrow> bytes option \<Rightarrow> ID \<Rightarrow> attachment_row \<Rightarrow> blob_dir \<Rightarrow> 'r
   \<Rightarrow> (account_error + unit) \<times> blob_dir \<times> 'r" where
  "synchronizeAttachment env sha256 remote key workspaceID attachment files r =
     (case attachmentSyncManifest env key workspaceID attachment of
        Inl e \<Rightarrow> (Inl e, files, r)
      | Inr (chunks, n) \<Rightarrow>
          let localExists = BlobStore_Exists (at_blob attachment) files in
          (case remote_attachment remote workspaceID attachment chunks n localExists r of
             (Inl e, r) \<Rightarrow> (Inl e, files, r)
           | (Inr found, r) \<Rightarrow>
               (case validateRemoteAttachment attachment chunks n found of
                  Inl e \<Rightarrow> (Inl e, files, r)
                | Inr _ \<Rightarrow>
                    (case complete_attachment sha256 remote workspaceID attachment chunks n localExists found files r of
                       (Inl e, r) \<Rightarrow> (Inl e, files, r)
                     | (Inr completed, r) \<Rightarrow>
                         if \<not> ra_Complete completed then (Inl (AccPlain ''server did not complete attachment publication''), files, r)
                         else if localExists then (Inr (), files, r)
                         else downloadAttachmentChunks sha256 remote workspaceID (at_blob attachment) chunks files r))))"

fun synchronize_rows ::
  "crypto_env \<Rightarrow> (bytes \<Rightarrow> bytes) \<Rightarrow> 'r AttachmentSyncTransport \<Rightarrow> bytes option \<Rightarrow> ID \<Rightarrow> attachment_row list \<Rightarrow> blob_dir \<Rightarrow> 'r
   \<Rightarrow> (account_error + unit) \<times> blob_dir \<times> 'r" where
  "synchronize_rows env sha256 remote key workspaceID [] files r = (Inr (), files, r)"
| "synchronize_rows env sha256 remote key workspaceID (attachment # attachments) files r =
     (if at_manifest attachment = [] then synchronize_rows env sha256 remote key workspaceID attachments files r
      else case synchronizeAttachment env sha256 remote key workspaceID attachment files r of
             (Inl e, files, r) \<Rightarrow> (Inl e, files, r)
           | (Inr _, files, r) \<Rightarrow> synchronize_rows env sha256 remote key workspaceID attachments files r)"

definition ListAttachments :: "ID \<Rightarrow> note_db \<Rightarrow> store_error + attachment_row list" where
  "ListAttachments workspaceID db = scan_attachments (filter (\<lambda>a. at_workspace a = workspaceID) (nd_attachments db))"

definition SynchronizeWorkspaceAttachments ::
  "crypto_env \<Rightarrow> (bytes \<Rightarrow> bytes) \<Rightarrow> 'r AttachmentSyncTransport \<Rightarrow> ID \<Rightarrow> Account \<Rightarrow> note_db \<Rightarrow> blob_dir \<Rightarrow> 'r \<Rightarrow> (account_error + unit) \<times> blob_dir \<times> 'r" where
  "SynchronizeWorkspaceAttachments env sha256 remote workspaceID a db files r =
     (case bind_res (workspaceSession workspaceID a) (\<lambda>entry. bind_res (in_store (ListAttachments workspaceID db)) (\<lambda>rows. Inr (entry, rows))) of
        Inl e \<Rightarrow> (Inl e, files, r)
      | Inr (entry, rows) \<Rightarrow> synchronize_rows env sha256 remote (ke_Key entry) workspaceID rows files r)"


section \<open>The HTTP transport\<close>

datatype blob_request =
  GetBlobRequest string string
| InitRequest BlobInit
| PutRequest string string int bytes
| CompleteRequest string string
| ChunkRequest string string int

datatype blob_body = InfoBody BlobInfo | NoBody | ChunkBody bytes

type_synonym 'r blob_network = "blob_request \<Rightarrow> 'r \<Rightarrow> (sync_error + blob_body) \<times> 'r"

definition attachmentChunksToBlobChunks :: "AttachmentChunk list \<Rightarrow> BlobChunkSpec list" where
  "attachmentChunksToBlobChunks = map (\<lambda>c. \<lparr>cs_Index = uint (ac_Index c), cs_Bytes = ac_Bytes c, cs_SHA256 = hex_encode (ac_SHA256 c)\<rparr>)"

fun remote_chunks :: "int \<Rightarrow> BlobChunkSpec list \<Rightarrow> sync_error + AttachmentChunk list" where
  "remote_chunks index [] = Inr []"
| "remote_chunks index (chunk # chunks) =
     (if cs_Index chunk < 0 \<or> cs_Bytes chunk \<le> 0 \<or> cs_Index chunk \<noteq> index then Inl (PlainError ''transport: malformed blob chunk response'')
      else case hex_decode (cs_SHA256 chunk) of
             None \<Rightarrow> Inl (PlainError ''transport: malformed blob chunk digest'')
           | Some digest \<Rightarrow>
               if length digest \<noteq> 32 \<or> hex_encode digest \<noteq> cs_SHA256 chunk then Inl (PlainError ''transport: malformed blob chunk digest'')
               else bind_res (remote_chunks (index + 1) chunks) (\<lambda>rest.
                 Inr (\<lparr>ac_Index = word_of_int (cs_Index chunk), ac_Bytes = cs_Bytes chunk, ac_SHA256 = digest\<rparr> # rest)))"

definition toRemoteAttachment :: "ID \<Rightarrow> bytes \<Rightarrow> BlobInfo \<Rightarrow> sync_error + RemoteAttachment" where
  "toRemoteAttachment workspaceID blobID v =
     (if bf_WorkspaceID v \<noteq> ID_String workspaceID \<or> bf_BlobID v \<noteq> hex_encode blobID \<or> bf_TotalBytes v < 0 \<or>
         (bf_State v \<noteq> ''staging'' \<and> bf_State v \<noteq> ''complete'')
      then Inl (PlainError ''transport: malformed blob response'')
      else case hex_decode (bf_KeyID v) of
             None \<Rightarrow> Inl (PlainError ''transport: malformed blob key identifier'')
           | Some keyID \<Rightarrow>
               if length keyID \<noteq> 16 \<or> hex_encode keyID \<noteq> bf_KeyID v then Inl (PlainError ''transport: malformed blob key identifier'')
               else bind_res (remote_chunks 0 (bf_Chunks v)) (\<lambda>chunks.
                 if list_ex (\<lambda>i. i < 0 \<or> i \<ge> int (length chunks)) (bf_Uploaded v) then Inl (PlainError ''transport: malformed uploaded blob chunks'')
                 else Inr \<lparr>ra_KeyID = keyID, ra_Manifest = bf_EncryptedManifest v, ra_Bytes = bf_TotalBytes v, ra_Complete = (bf_State v = ''complete''),
                        ra_Chunks = chunks, ra_Uploaded = map word_of_int (bf_Uploaded v)\<rparr>))"

fun as_info :: "blob_body \<Rightarrow> sync_error + BlobInfo" where
  "as_info (InfoBody v) = Inr v"
| "as_info _ = Inl (PlainError ''transport: decode response'')"

definition HTTP_GetAttachment :: "'r blob_network \<Rightarrow> ID \<Rightarrow> bytes \<Rightarrow> 'r \<Rightarrow> (sync_error + RemoteAttachment option) \<times> 'r" where
  "HTTP_GetAttachment call workspaceID blobID r =
     (case call (GetBlobRequest (ID_String workspaceID) (hex_encode blobID)) r of
        (Inl e, r) \<Rightarrow> (if e = PlainError ''transport: remote object not found'' then Inr None else Inl e, r)
      | (Inr body, r) \<Rightarrow> (bind_res (as_info body) (\<lambda>v. map_sum id Some (toRemoteAttachment workspaceID blobID v)), r))"

definition HTTP_BeginAttachment ::
  "'r blob_network \<Rightarrow> ID \<Rightarrow> bytes \<Rightarrow> bytes \<Rightarrow> bytes \<Rightarrow> int \<Rightarrow> AttachmentChunk list \<Rightarrow> 'r \<Rightarrow> (sync_error + RemoteAttachment) \<times> 'r" where
  "HTTP_BeginAttachment call workspaceID blobID keyID manifest totalBytes chunks r =
     (case call (InitRequest \<lparr>bi_WorkspaceID = ID_String workspaceID, bi_BlobID = hex_encode blobID, bi_KeyID = hex_encode keyID, bi_EncryptedManifest = manifest,
                   bi_TotalBytes = totalBytes, bi_Chunks = attachmentChunksToBlobChunks chunks\<rparr>) r of
        (Inl e, r) \<Rightarrow> (Inl e, r)
      | (Inr body, r) \<Rightarrow> (bind_res (as_info body) (toRemoteAttachment workspaceID blobID), r))"

definition HTTP_PutAttachmentChunk :: "'r blob_network \<Rightarrow> ID \<Rightarrow> bytes \<Rightarrow> u32 \<Rightarrow> bytes \<Rightarrow> 'r \<Rightarrow> (sync_error + unit) \<times> 'r" where
  "HTTP_PutAttachmentChunk call workspaceID blobID index contents r =
     (case call (PutRequest (ID_String workspaceID) (hex_encode blobID) (uint index) contents) r of (Inl e, r) \<Rightarrow> (Inl e, r) | (Inr _, r) \<Rightarrow> (Inr (), r))"

definition HTTP_CompleteAttachment :: "'r blob_network \<Rightarrow> ID \<Rightarrow> bytes \<Rightarrow> 'r \<Rightarrow> (sync_error + RemoteAttachment) \<times> 'r" where
  "HTTP_CompleteAttachment call workspaceID blobID r =
     (case call (CompleteRequest (ID_String workspaceID) (hex_encode blobID)) r of
        (Inl e, r) \<Rightarrow> (Inl e, r)
      | (Inr body, r) \<Rightarrow> (bind_res (as_info body) (toRemoteAttachment workspaceID blobID), r))"

abbreviation BlobChunkBytes :: int where "BlobChunkBytes \<equiv> 4194304"

text \<open>\<^verbatim>\<open>getBytes\<close> takes the body as it is; a body that is not a chunk has other bytes, which are not modelled.\<close>

definition HTTP_ReadAttachmentChunk :: "'r blob_network \<Rightarrow> ID \<Rightarrow> bytes \<Rightarrow> u32 \<Rightarrow> 'r \<Rightarrow> (sync_error + bytes) \<times> 'r" where
  "HTTP_ReadAttachmentChunk call workspaceID blobID index r =
     (case call (ChunkRequest (ID_String workspaceID) (hex_encode blobID) (uint index)) r of
        (Inl e, r) \<Rightarrow> (Inl e, r)
      | (Inr (ChunkBody contents), r) \<Rightarrow>
          (if int (length contents) > BlobChunkBytes + 64 then Inl (PlainError ''transport: blob chunk exceeds limit'') else Inr contents, r)
      | (Inr _, r) \<Rightarrow> (Inl (PlainError ''transport: decode response''), r))"

definition HTTP_attachments :: "'r blob_network \<Rightarrow> 'r AttachmentSyncTransport" where
  "HTTP_attachments call = \<lparr>GetAttachment = HTTP_GetAttachment call, BeginAttachment = HTTP_BeginAttachment call,
     PutAttachmentChunk = HTTP_PutAttachmentChunk call, CompleteAttachment = HTTP_CompleteAttachment call, ReadAttachmentChunk = HTTP_ReadAttachmentChunk call\<rparr>"

section \<open>The blob handlers of the server\<close>

fun reply_error :: "http_reply \<Rightarrow> sync_error" where
  "reply_error (ConnectionError e) = e"
| "reply_error (Response status code _) = decodeHTTPError status code"

text \<open>What the client sees of an error that a handler writes.\<close>

definition refuse :: "server_error \<Rightarrow> sync_error + blob_body" where
  "refuse e = Inl (reply_error (writeAPIError e))"

definition readLimitedBody :: "bytes \<Rightarrow> int \<Rightarrow> server_error + bytes" where
  "readLimitedBody body limit = (if int (length body) > limit then Inl ErrInvalid else Inr body)"

text \<open>\<open>decodes\<close> tells whether \<^verbatim>\<open>decodeJSON\<close> takes the body, which has a size limit.\<close>

definition api_beginBlob :: "(BlobInit \<Rightarrow> bool) \<Rightarrow> ServerConfig \<Rightarrow> string \<Rightarrow> BlobInit \<Rightarrow> int \<Rightarrow> server_db \<Rightarrow> blob_db \<Rightarrow> (sync_error + blob_body) \<times> blob_db" where
  "api_beginBlob decodes cfg user input now db b =
     (if \<not> decodes input then (refuse ErrInvalid, b)
      else case BeginBlob cfg BlobChunkBytes user input now db b of Inl e \<Rightarrow> (refuse e, b) | Inr (result, b) \<Rightarrow> (Inr (InfoBody result), b))"

definition api_putBlobChunk ::
  "(bytes \<Rightarrow> bytes) \<Rightarrow> string \<Rightarrow> string \<Rightarrow> string \<Rightarrow> int \<Rightarrow> bytes \<Rightarrow> int \<Rightarrow> server_db \<Rightarrow> blob_db \<Rightarrow> (sync_error + blob_body) \<times> blob_db" where
  "api_putBlobChunk sha256 user ws blob index body now db b =
     (case bind_res (readLimitedBody body (BlobChunkBytes + 65)) (\<lambda>contents. PutBlobChunk sha256 BlobChunkBytes user ws blob index contents now db b) of
        Inl e \<Rightarrow> (refuse e, b)
      | Inr b \<Rightarrow> (Inr NoBody, b))"

definition api_completeBlob :: "(bytes \<Rightarrow> bytes) \<Rightarrow> string \<Rightarrow> string \<Rightarrow> string \<Rightarrow> int \<Rightarrow> server_db \<Rightarrow> blob_db \<Rightarrow> (sync_error + blob_body) \<times> blob_db" where
  "api_completeBlob sha256 user ws blob now db b =
     (case CompleteBlob sha256 user ws blob now db b of (Inl e, b) \<Rightarrow> (refuse e, b) | (Inr result, b) \<Rightarrow> (Inr (InfoBody result), b))"

definition api_getBlob :: "string \<Rightarrow> string \<Rightarrow> string \<Rightarrow> server_db \<Rightarrow> blob_db \<Rightarrow> (sync_error + blob_body) \<times> blob_db" where
  "api_getBlob user ws blob db b = (case GetBlob user ws blob db b of Inl e \<Rightarrow> (refuse e, b) | Inr result \<Rightarrow> (Inr (InfoBody result), b))"

definition api_getBlobChunk :: "(bytes \<Rightarrow> bytes) \<Rightarrow> string \<Rightarrow> string \<Rightarrow> string \<Rightarrow> int \<Rightarrow> server_db \<Rightarrow> blob_db \<Rightarrow> (sync_error + blob_body) \<times> blob_db" where
  "api_getBlobChunk sha256 user ws blob index db b =
     (case ReadBlobChunk sha256 user ws blob index db b b of Inl e \<Rightarrow> (refuse e, b) | Inr contents \<Rightarrow> (Inr (ChunkBody contents), b))"

text \<open>The routes, for an authenticated user; one request is one step, the read of a chunk too.\<close>

fun blob_server :: "(BlobInit \<Rightarrow> bool) \<Rightarrow> (bytes \<Rightarrow> bytes) \<Rightarrow> ServerConfig \<Rightarrow> server_db \<Rightarrow> int \<Rightarrow> string \<Rightarrow> blob_db blob_network" where
  "blob_server decodes sha256 cfg db now user (GetBlobRequest ws blob) b = api_getBlob user ws blob db b"
| "blob_server decodes sha256 cfg db now user (InitRequest input) b = api_beginBlob decodes cfg user input now db b"
| "blob_server decodes sha256 cfg db now user (PutRequest ws blob index contents) b = api_putBlobChunk sha256 user ws blob index contents now db b"
| "blob_server decodes sha256 cfg db now user (CompleteRequest ws blob) b = api_completeBlob sha256 user ws blob now db b"
| "blob_server decodes sha256 cfg db now user (ChunkRequest ws blob index) b = api_getBlobChunk sha256 user ws blob index db b"

abbreviation server_remote :: "(BlobInit \<Rightarrow> bool) \<Rightarrow> (bytes \<Rightarrow> bytes) \<Rightarrow> ServerConfig \<Rightarrow> server_db \<Rightarrow> int \<Rightarrow> string \<Rightarrow> blob_db AttachmentSyncTransport" where
  "server_remote decodes sha256 cfg db now user \<equiv> HTTP_attachments (blob_server decodes sha256 cfg db now user)"


section \<open>Whatever the other side answers\<close>

text \<open>A file that consists of the chunks that a manifest announces.\<close>

fun matches_chunks :: "(bytes \<Rightarrow> bytes) \<Rightarrow> AttachmentChunk list \<Rightarrow> bytes \<Rightarrow> bool" where
  "matches_chunks sha256 [] content \<longleftrightarrow> content = []"
| "matches_chunks sha256 (k # ks) content \<longleftrightarrow>
     int (length (take (nat (ac_Bytes k)) content)) = ac_Bytes k \<and> sha256 (take (nat (ac_Bytes k)) content) = ac_SHA256 k \<and>
     matches_chunks sha256 ks (drop (nat (ac_Bytes k)) content)"

lemma download_chunks_matches:
  "download_chunks sha256 remote ws b chunks r = (Inr content, r') \<Longrightarrow> matches_chunks sha256 chunks content"
proof (induction chunks arbitrary: r content)
  case (Cons k ks)
  from Cons.prems obtain contents r1 rest where c: "int (length contents) = ac_Bytes k" "sha256 contents = ac_SHA256 k"
    and rest: "download_chunks sha256 remote ws b ks r1 = (Inr rest, r')" "content = contents @ rest"
    by (auto simp: equalBytes_iff split: sum.splits prod.splits if_splits)
  from c(1) have "nat (ac_Bytes k) = length contents" by simp
  with c Cons.IH [OF rest(1)] show ?case by (simp add: rest(2))
qed simp

text \<open>What one attachment may add to the files.\<close>

definition verified_file :: "crypto_env \<Rightarrow> (bytes \<Rightarrow> bytes) \<Rightarrow> bytes option \<Rightarrow> ID \<Rightarrow> attachment_row \<Rightarrow> bytes \<Rightarrow> bool" where
  "verified_file env sha256 key ws row content \<longleftrightarrow>
     (case attachmentSyncManifest env key ws row of Inl _ \<Rightarrow> False | Inr (chunks, n) \<Rightarrow> matches_chunks sha256 chunks content)"

lemma downloadAttachmentChunks_files:
  assumes "downloadAttachmentChunks sha256 remote ws b chunks files r = (res, files', r')" "files b = None"
  shows "files' = files \<or> (\<exists>content. files' = files(b \<mapsto> content) \<and> matches_chunks sha256 chunks content)" "res = Inr () \<Longrightarrow> files' b \<noteq> None"
  using assms download_chunks_matches [of sha256 remote ws b chunks r]
  by (auto simp: downloadAttachmentChunks_def BlobStore_Publish_def BlobStore_Exists_def Let_def split: prod.splits sum.splits if_splits)

lemma synchronizeAttachment_files:
  assumes "synchronizeAttachment env sha256 remote key ws row files r = (res, files', r')"
  shows "files' = files \<or> files (at_blob row) = None \<and> (\<exists>content. files' = files(at_blob row \<mapsto> content) \<and> verified_file env sha256 key ws row content)"
    "res = Inr () \<Longrightarrow> files' (at_blob row) \<noteq> None"
proof -
  have "(files' = files \<or> files (at_blob row) = None \<and> (\<exists>content. files' = files(at_blob row \<mapsto> content) \<and> verified_file env sha256 key ws row content)) \<and>
    (res = Inr () \<longrightarrow> files' (at_blob row) \<noteq> None)"
  proof (cases "files (at_blob row)")
    case (Some x)
    with assms show ?thesis
      by (auto simp: synchronizeAttachment_def BlobStore_Exists_def Let_def split: sum.splits prod.splits if_splits)
  next
    case None
    show ?thesis
    proof (cases "\<exists>chunks n r0. attachmentSyncManifest env key ws row = Inr (chunks, n) \<and>
        downloadAttachmentChunks sha256 remote ws (at_blob row) chunks files r0 = (res, files', r')")
      case True
      then obtain chunks n r0 where m: "attachmentSyncManifest env key ws row = Inr (chunks, n)"
        and d: "downloadAttachmentChunks sha256 remote ws (at_blob row) chunks files r0 = (res, files', r')" by blast
      from downloadAttachmentChunks_files [OF d None] None m show ?thesis by (auto simp: verified_file_def)
    next
      case False
      with assms None have "files' = files \<and> res \<noteq> Inr ()"
        by (auto simp: synchronizeAttachment_def BlobStore_Exists_def Let_def split: sum.splits prod.splits if_splits)
      then show ?thesis by simp
    qed
  qed
  then show "files' = files \<or> files (at_blob row) = None \<and> (\<exists>content. files' = files(at_blob row \<mapsto> content) \<and> verified_file env sha256 key ws row content)"
    "res = Inr () \<Longrightarrow> files' (at_blob row) \<noteq> None" by blast+
qed

lemma synchronize_rows_files:
  assumes "synchronize_rows env sha256 remote key ws rows files r = (res, files', r')"
  shows "(\<forall>b content. files b = Some content \<longrightarrow> files' b = Some content) \<and>
    (\<forall>b content. files b = None \<and> files' b = Some content \<longrightarrow> list_ex (\<lambda>row. at_blob row = b \<and> at_manifest row \<noteq> [] \<and> verified_file env sha256 key ws row content) rows) \<and>
    (res = Inr () \<longrightarrow> list_all (\<lambda>row. at_manifest row = [] \<or> files' (at_blob row) \<noteq> None) rows)"
  using assms
proof (induction rows arbitrary: files r)
  case (Cons row rows)
  show ?case
  proof (cases "at_manifest row = []")
    case True
    with Cons show ?thesis by fastforce
  next
    case False
    obtain res1 files1 r1 where one: "synchronizeAttachment env sha256 remote key ws row files r = (res1, files1, r1)"
      by (cases "synchronizeAttachment env sha256 remote key ws row files r") auto
    note f = synchronizeAttachment_files [OF one]
    have new: "files b = None \<and> files1 b = Some content \<Longrightarrow> at_blob row = b \<and> verified_file env sha256 key ws row content" for b content
      using f(1) by (auto split: if_splits)
    have old: "files b = Some content \<Longrightarrow> files1 b = Some content" for b content using f(1) by auto
    show ?thesis
    proof (cases res1)
      case (Inl e)
      with Cons.prems one False have "files' = files1" "res \<noteq> Inr ()" by auto
      with new old False show ?thesis by auto
    next
      case (Inr u)
      with Cons.prems one False have rest: "synchronize_rows env sha256 remote key ws rows files1 r1 = (res, files', r')" by simp
      note IH = Cons.IH [OF rest]
      have "files1 (at_blob row) \<noteq> None" using f(2) Inr by simp
      with IH have "files' (at_blob row) \<noteq> None" by blast
      moreover have "list_ex (\<lambda>row. at_blob row = b \<and> at_manifest row \<noteq> [] \<and> verified_file env sha256 key ws row content) (row # rows)"
        if "files b = None" "files' b = Some content" for b content
      proof (cases "files1 b")
        case None
        with IH that show ?thesis by simp
      next
        case (Some c)
        with IH that have "c = content" by auto
        with new [of b c] that Some False show ?thesis by simp
      qed
      ultimately show ?thesis using IH old by auto
    qed
  qed
qed auto


section \<open>An honest other side\<close>

text \<open>
  What the two directions of the transfer rely on. \<open>holds\<close> is the stored contents of a chunk,
  \<open>calm\<close> a property of states that excludes interrupted requests.
\<close>

locale attachment_exchange =
  fixes remote :: "'r AttachmentSyncTransport"
    and calm :: "'r \<Rightarrow> bool"
    and holds :: "ID \<Rightarrow> bytes \<Rightarrow> 'r \<Rightarrow> u32 \<Rightarrow> bytes option"
  assumes get_keeps: "GetAttachment remote ws b r = (x, r') \<Longrightarrow> r' = r"
    and begin_fresh: "GetAttachment remote ws b r = (Inr None, r0) \<Longrightarrow> BeginAttachment remote ws b k m n cs r = (Inr info, r') \<Longrightarrow> calm r \<Longrightarrow>
      calm r' \<and> holds ws b r' = holds ws b r \<and> ra_Uploaded info = [] \<and> \<not> ra_Complete info"
    and put_stores: "PutAttachmentChunk remote ws b i c r = (Inr (), r') \<Longrightarrow> calm r \<Longrightarrow> holds ws b r i = None \<Longrightarrow>
      calm r' \<and> holds ws b r' = (holds ws b r)(i := Some c)"
    and complete_keeps: "CompleteAttachment remote ws b r = (Inr info, r') \<Longrightarrow> calm r \<Longrightarrow> calm r' \<and> holds ws b r' = holds ws b r"
    and read_returns: "ReadAttachmentChunk remote ws b i r = (Inr c, r') \<Longrightarrow> r' = r \<and> holds ws b r i = Some c"

text \<open>The parts of a file that chunks announce.\<close>

fun split_chunks :: "AttachmentChunk list \<Rightarrow> bytes \<Rightarrow> bytes list" where
  "split_chunks [] content = []"
| "split_chunks (k # ks) content = take (nat (ac_Bytes k)) content # split_chunks ks (drop (nat (ac_Bytes k)) content)"

fun long_enough :: "AttachmentChunk list \<Rightarrow> bytes \<Rightarrow> bool" where
  "long_enough [] content \<longleftrightarrow> True"
| "long_enough (k # ks) content \<longleftrightarrow> nat (ac_Bytes k) \<le> length content \<and> long_enough ks (drop (nat (ac_Bytes k)) content)"

context attachment_exchange
begin

lemma upload_holds:
  assumes "upload_chunks sha256 remote ws b [] chunks content r = (Inr (), r')" "calm r" "distinct (map ac_Index chunks)"
    and "list_all (\<lambda>k. holds ws b r (ac_Index k) = None) chunks"
  shows "calm r' \<and> long_enough chunks content \<and> map (\<lambda>k. holds ws b r' (ac_Index k)) chunks = map Some (split_chunks chunks content) \<and>
    (\<forall>j. j \<notin> ac_Index ` set chunks \<longrightarrow> holds ws b r' j = holds ws b r j)"
  using assms
proof (induction chunks arbitrary: content r)
  case (Cons k ks)
  let ?n = "nat (ac_Bytes k)"
  from Cons.prems(1) obtain r1 where p: "PutAttachmentChunk remote ws b (ac_Index k) (take ?n content) r = (Inr (), r1)"
    and rest: "upload_chunks sha256 remote ws b [] ks (drop ?n content) r1 = (Inr (), r')" and l: "?n \<le> length content"
    by (auto simp: Let_def split: if_splits sum.splits prod.splits)
  from Cons.prems(4) have "holds ws b r (ac_Index k) = None" by simp
  note h = put_stores [OF p Cons.prems(2) this]
  have other: "ac_Index k' \<noteq> ac_Index k" if "k' \<in> set ks" for k' using Cons.prems(3) that by (metis distinct.simps(2) imageI list.simps(9) set_map)
  then have "list_all (\<lambda>k. holds ws b r1 (ac_Index k) = None) ks" using Cons.prems(4) h by (simp add: list_all_iff)
  note IH = Cons.IH [OF rest conjunct1 [OF h] _ this]
  from IH Cons.prems(3) h have "holds ws b r' (ac_Index k) = Some (take ?n content)" by auto
  with IH Cons.prems(3) h l show ?case by auto
qed simp

lemma download_holds:
  assumes "download_chunks sha256 remote ws b chunks r = (Inr content, r')"
  shows "\<exists>parts. map (\<lambda>k. holds ws b r (ac_Index k)) chunks = map Some parts \<and> content = concat parts"
  using assms
proof (induction chunks arbitrary: content)
  case (Cons k ks)
  from Cons.prems obtain contents r1 rest where p: "ReadAttachmentChunk remote ws b (ac_Index k) r = (Inr contents, r1)"
    and rest: "download_chunks sha256 remote ws b ks r1 = (Inr rest, r')" "content = contents @ rest"
    by (auto split: sum.splits prod.splits if_splits)
  from read_returns [OF p] rest have "download_chunks sha256 remote ws b ks r = (Inr rest, r')" by simp
  from Cons.IH [OF this] obtain parts where "map (\<lambda>k. holds ws b r (ac_Index k)) ks = map Some parts" "rest = concat parts" by blast
  with read_returns [OF p] rest(2) show ?case by (intro exI [of _ "contents # parts"]) simp
qed simp

lemma sender_publishes:
  assumes s: "synchronizeAttachment env sha256 remote key ws row files r = (Inr (), files', r')" and f: "files (at_blob row) = Some content"
    and m: "attachmentSyncManifest env key ws row = Inr (chunks, n)" and d: "distinct (map ac_Index chunks)"
    and fresh: "GetAttachment remote ws (at_blob row) r = (Inr None, r0)" "calm r" "\<And>i. holds ws (at_blob row) r i = None"
  shows "calm r' \<and> long_enough chunks content \<and> map (\<lambda>k. holds ws (at_blob row) r' (ac_Index k)) chunks = map Some (split_chunks chunks content)"
proof -
  have [simp]: "r0 = r" using get_keeps [OF fresh(1)] .
  from s f m fresh(1) obtain info r1 where b: "BeginAttachment remote ws (at_blob row) (at_key row) (at_manifest row) n chunks r = (Inr info, r1)"
    by (auto simp: synchronizeAttachment_def remote_attachment_def Let_def split: sum.splits prod.splits if_splits)
  note h = begin_fresh [OF fresh(1) b fresh(2)]
  with s f m fresh(1) b obtain r2 info' where u: "upload_chunks sha256 remote ws (at_blob row) [] chunks content r1 = (Inr (), r2)"
    and c: "CompleteAttachment remote ws (at_blob row) r2 = (Inr info', r')"
    by (auto simp: synchronizeAttachment_def remote_attachment_def complete_attachment_def uploadAttachmentChunks_def BlobStore_Open_def BlobStore_Exists_def
        Let_def split: sum.splits prod.splits if_splits)
  have "list_all (\<lambda>k. holds ws (at_blob row) r1 (ac_Index k) = None) chunks" using h fresh(3) by (simp add: list_all_iff)
  note up = upload_holds [OF u conjunct1 [OF h] d this]
  with complete_keeps [OF c] show ?thesis by simp
qed

lemma receiver_gets:
  assumes s: "synchronizeAttachment env sha256 remote key ws row files r = (Inr (), files', r')" and f: "files (at_blob row) = None"
    and m: "attachmentSyncManifest env key ws row = Inr (chunks, n)"
  shows "\<exists>parts. map (\<lambda>k. holds ws (at_blob row) r (ac_Index k)) chunks = map Some parts \<and> files' (at_blob row) = Some (concat parts)"
proof -
  from s f m obtain found r1 where g: "GetAttachment remote ws (at_blob row) r = (Inr (Some found), r1)"
    by (auto simp: synchronizeAttachment_def remote_attachment_def BlobStore_Exists_def Let_def split: sum.splits prod.splits option.splits)
  have [simp]: "r1 = r" using get_keeps [OF g] .
  from s f m g have "downloadAttachmentChunks sha256 remote ws (at_blob row) chunks files r = (Inr (), files', r')"
    by (auto simp: synchronizeAttachment_def remote_attachment_def complete_attachment_def BlobStore_Exists_def Let_def split: sum.splits prod.splits if_splits)
  then obtain content where "download_chunks sha256 remote ws (at_blob row) chunks r = (Inr content, r')" "files' (at_blob row) = Some content"
    using f by (auto simp: downloadAttachmentChunks_def BlobStore_Publish_def BlobStore_Exists_def Let_def split: sum.splits prod.splits if_splits)
  with download_holds show ?thesis by blast
qed

end


section \<open>The server is such a side\<close>

definition blob_calm :: "blob_db \<Rightarrow> bool" where
  "blob_calm b \<longleftrightarrow> list_all (\<lambda>r. bl_state r = ''staging'' \<or> bl_state r = ''complete'') (blobs b) \<and>
     (\<forall>ws blob. final_dirs b (ws, blob) \<noteq> None \<longrightarrow> (\<exists>r. find (bl_at ws blob) (blobs b) = Some r \<and> bl_state r = ''complete''))"

definition chunk_files :: "string \<Rightarrow> string \<Rightarrow> blob_db \<Rightarrow> directory option" where
  "chunk_files ws blob b = (case final_dirs b (ws, blob) of None \<Rightarrow> staging_dirs b (ws, blob) | Some d \<Rightarrow> Some d)"

definition blob_holds :: "ID \<Rightarrow> bytes \<Rightarrow> blob_db \<Rightarrow> u32 \<Rightarrow> bytes option" where
  "blob_holds ws b db i = Option.bind (chunk_files (ID_String ws) (hex_encode b) db) (\<lambda>d. d (uint i))"

lemma find_SomeD: "find P xs = Some x \<Longrightarrow> P x \<and> x \<in> set xs"
  by (auto simp: find_Some_iff)

lemma calm_final: "blob_calm b \<Longrightarrow> final_dirs b (ws, blob) = Some d \<Longrightarrow> \<exists>r. find (bl_at ws blob) (blobs b) = Some r \<and> bl_state r = ''complete''"
  unfolding blob_calm_def by blast

lemma calm_state: "blob_calm b \<Longrightarrow> r \<in> set (blobs b) \<Longrightarrow> bl_state r = ''staging'' \<or> bl_state r = ''complete''"
  by (auto simp: blob_calm_def list_all_iff)

lemma calm_staging:
  assumes "blob_calm b" "find (bl_at ws blob) (blobs b) = Some r" "bl_state r \<noteq> ''complete''"
  shows "bl_state r = ''staging'' \<and> final_dirs b (ws, blob) = None"
  using assms(3) calm_state [OF assms(1), of r] find_SomeD [OF assms(2)] assms(2) calm_final [OF assms(1), of ws blob]
  by (cases "final_dirs b (ws, blob)") auto

lemma calm_absent: "blob_calm b \<Longrightarrow> find (bl_at ws blob) (blobs b) = None \<Longrightarrow> final_dirs b (ws, blob) = None"
  using calm_final [of b ws blob] by (cases "final_dirs b (ws, blob)") auto

lemma find_append_other: "\<not> P x \<Longrightarrow> find P (xs @ [x]) = find P xs"
  by (induction xs) auto

lemma begin_calm:
  assumes "BeginBlob cfg cb user input now db b = Inr (info, b')" "blob_calm b" "find (bl_at (bi_WorkspaceID input) (bi_BlobID input)) (blobs b) = None"
  shows "blob_calm b' \<and> staging_dirs b' = staging_dirs b \<and> final_dirs b' = final_dirs b \<and> bf_Uploaded info = [] \<and> bf_State info = ''staging''"
proof -
  from assms(1,3) have b': "blobs b' = blobs b @ [new_blob user input now]" "staging_dirs b' = staging_dirs b" "final_dirs b' = final_dirs b"
    and i: "bf_Uploaded info = []" "bf_State info = ''staging''"
    by (auto simp: BeginBlob_def begin_tx_def reserve_def err_simps Let_def split: if_splits option.splits)
  have "\<exists>r. find (bl_at ws blob) (blobs b') = Some r \<and> bl_state r = ''complete''" if "final_dirs b (ws, blob) \<noteq> None" for ws blob
  proof -
    from that assms(2) have old: "\<exists>r. find (bl_at ws blob) (blobs b) = Some r \<and> bl_state r = ''complete''" by (auto simp: blob_calm_def)
    with assms(3) have "\<not> bl_at ws blob (new_blob user input now)" by (auto simp: blob_of_def new_blob_def)
    with old show ?thesis by (simp add: b' find_append_other)
  qed
  moreover have "list_all (\<lambda>r. bl_state r = ''staging'' \<or> bl_state r = ''complete'') (blobs b')" using assms(2) by (simp add: b' blob_calm_def new_blob_def)
  ultimately show ?thesis using b' i by (simp add: blob_calm_def)
qed

lemma PutBlobChunk_calm:
  assumes p: "PutBlobChunk sha256 cb user ws blob i contents now db b = Inr b'" and calm: "blob_calm b"
    and absent: "Option.bind (chunk_files ws blob b) (\<lambda>d. d i) = None"
  shows "blob_calm b' \<and> (\<exists>d. chunk_files ws blob b' = Some (d(i \<mapsto> contents)) \<and> (chunk_files ws blob b = Some d \<or> chunk_files ws blob b = None \<and> d = Map.empty))"
proof -
  from p obtain mark b1 where f: "put_files sha256 cb user ws blob i contents db b = Inr (mark, b1)" and b': "b' = (if mark then mark_uploaded ws blob i now b1 else b1)"
    by (auto simp: PutBlobChunk_def err_simps)
  from f obtain r c where r: "find (bl_at ws blob) (blobs b) = Some r" "find (\<lambda>c. ck_at ws blob c \<and> ck_index c = i) (blob_chunks b) = Some c"
    by (auto simp: put_files_def err_simps split: if_splits option.splits)
  have s: "bl_state r \<noteq> ''complete''"
  proof
    assume "bl_state r = ''complete''"
    with f r have "verifyChunkFile sha256 (final_dirs b (ws, blob)) i (ck_bytes c) (ck_hash c) = Inr ()"
      by (auto simp: put_files_def err_simps split: if_splits option.splits)
    then have "Option.bind (final_dirs b (ws, blob)) (\<lambda>d. d i) \<noteq> None" by (auto simp: verifyChunkFile_def split: option.splits)
    with absent show False by (auto simp: chunk_files_def split: option.splits)
  qed
  with calm_staging [OF calm r(1)] have final: "final_dirs b (ws, blob) = None" by simp
  let ?d = "case staging_dirs b (ws, blob) of None \<Rightarrow> Map.empty | Some d \<Rightarrow> d"
  have none: "?d i = None" using absent final by (auto simp: chunk_files_def split: option.splits)
  with f r s have b1: "b1 = b\<lparr>staging_dirs := (staging_dirs b)((ws, blob) \<mapsto> ?d(i \<mapsto> contents))\<rparr>"
    by (auto simp: put_files_def err_simps Let_def split: if_splits option.splits)
  have "blob_calm b' = blob_calm b" by (simp add: b' b1 mark_uploaded_def blob_calm_def)
  moreover have "chunk_files ws blob b' = Some (?d(i \<mapsto> contents))" by (simp add: b' b1 mark_uploaded_def chunk_files_def final)
  moreover have "chunk_files ws blob b = Some ?d \<or> chunk_files ws blob b = None \<and> ?d = Map.empty" using final by (auto simp: chunk_files_def split: option.splits)
  ultimately show ?thesis using calm by blast
qed

lemma find_update_rows:
  "\<forall>r. bl_at ws' blob' (f r) = bl_at ws' blob' r \<Longrightarrow> find (bl_at ws' blob') (update_rows P f rows) = map_option (\<lambda>r. if P r then f r else r) (find (bl_at ws' blob') rows)"
  by (induction rows) (auto simp: update_rows_def)

lemma CompleteBlob_calm:
  assumes c: "CompleteBlob sha256 user ws blob now db b = (Inr info, b')" and calm: "blob_calm b"
  shows "blob_calm b' \<and> chunk_files ws blob b' = chunk_files ws blob b"
proof -
  from c obtain info1 b1 where f: "complete_files sha256 user ws blob db b = Inr (info1, b1)"
    and rest: "if bf_State info1 = ''complete'' then b' = b1 else complete_tx ws blob now info1 b1 = Inr (info, b')"
    by (auto simp: CompleteBlob_def split: sum.splits prod.splits if_splits)
  from f obtain r where r: "find (bl_at ws blob) (blobs b) = Some r" and i: "info1 = info_of r b"
    by (auto simp: complete_files_def blobInfo_def err_simps Let_def split: if_splits option.splits)
  have st: "bf_State info1 = bl_state r" by (simp add: i info_of_def split: prod.splits)
  show ?thesis
  proof (cases "bl_state r = ''complete''")
    case True
    with f rest r st have "b' = b" by (auto simp: complete_files_def blobInfo_def err_simps Let_def i [symmetric] split: if_splits option.splits)
    with calm show ?thesis by simp
  next
    case False
    note s = calm_staging [OF calm r False]
    from f r s False obtain d where d: "staging_dirs b (ws, blob) = Some d"
      and b1: "b1 = b\<lparr>staging_dirs := (staging_dirs b)((ws, blob) := None), final_dirs := (final_dirs b)((ws, blob) \<mapsto> d)\<rparr>"
      by (auto simp: complete_files_def blobInfo_def err_simps Let_def i [symmetric] st split: if_splits option.splits)
    let ?up = "\<lambda>r. r\<lparr>bl_state := ''complete'', bl_reserved := 0, bl_completed := Some (unixNow now), bl_unreferenced := (if bl_refs r = 0 then Some (unixNow now) else None)\<rparr>"
    have "find (\<lambda>r. bl_at ws blob r \<and> bl_state r = ''staging'') (blobs b) \<noteq> None"
      using r s by (auto simp: find_None_iff dest: find_SomeD)
    with rest st False have b': "blobs b' = update_rows (bl_at ws blob) ?up (blobs b)" "final_dirs b' = final_dirs b1" "staging_dirs b' = staging_dirs b1"
      by (auto simp: complete_tx_def b1 Let_def split: if_splits option.splits)
    have keys: "\<forall>r. bl_at ws' blob' (?up r) = bl_at ws' blob' r" for ws' blob' by (simp add: blob_of_def)
    have "\<exists>r. find (bl_at ws' blob') (blobs b') = Some r \<and> bl_state r = ''complete''" if "final_dirs b' (ws', blob') \<noteq> None" for ws' blob'
    proof (cases "(ws', blob') = (ws, blob)")
      case True
      with r show ?thesis unfolding b'(1) find_update_rows [OF keys] by (auto dest: find_SomeD)
    next
      case False
      with that obtain d' where "final_dirs b (ws', blob') = Some d'" by (auto simp: b' b1 split: if_splits)
      from calm_final [OF calm this] obtain q where q: "find (bl_at ws' blob') (blobs b) = Some q" "bl_state q = ''complete''" by blast
      show ?thesis unfolding b'(1) find_update_rows [OF keys] q(1) using q(2) by simp
    qed
    moreover have "list_all (\<lambda>r. bl_state r = ''staging'' \<or> bl_state r = ''complete'') (blobs b')" using calm by (auto simp: blob_calm_def b'(1) update_rows_def list_all_iff)
    moreover have "chunk_files ws blob b' = chunk_files ws blob b" using s d by (simp add: chunk_files_def b' b1)
    ultimately show ?thesis by (simp add: blob_calm_def)
  qed
qed


lemma refuse_not_found: "reply_error (writeAPIError e) = PlainError ''transport: remote object not found'' \<longleftrightarrow> e = ErrForbidden \<or> e = ErrNotFound"
  by (cases e) (simp_all add: writeAPIError_def decodeHTTPError_def)

lemma server_get: "GetAttachment (server_remote decodes sha256 cfg db now user) ws b r = (x, r') \<Longrightarrow> r' = r"
  by (auto simp: HTTP_attachments_def HTTP_GetAttachment_def api_getBlob_def split: prod.splits sum.splits)

lemma map_sum_Some: "map_sum id Some t \<noteq> Inr None"
  by (cases t) simp_all

lemma server_get_none:
  assumes "GetAttachment (server_remote decodes sha256 cfg db now user) ws b r = (Inr None, r')"
  shows "GetBlob user (ID_String ws) (hex_encode b) db r = Inl ErrForbidden \<or> GetBlob user (ID_String ws) (hex_encode b) db r = Inl ErrNotFound"
  using assms
  by (cases "GetBlob user (ID_String ws) (hex_encode b) db r")
    (auto simp: HTTP_attachments_def HTTP_GetAttachment_def api_getBlob_def refuse_def refuse_not_found map_sum_Some split: prod.splits sum.splits if_splits)

lemma server_begin:
  assumes g: "GetAttachment (server_remote decodes sha256 cfg db now user) ws b r = (Inr None, r0)"
    and s: "BeginAttachment (server_remote decodes sha256 cfg db now user) ws b k m n cs r = (Inr info, r')" and calm: "blob_calm r"
  shows "blob_calm r' \<and> blob_holds ws b r' = blob_holds ws b r \<and> ra_Uploaded info = [] \<and> \<not> ra_Complete info"
proof -
  let ?input = "\<lparr>bi_WorkspaceID = ID_String ws, bi_BlobID = hex_encode b, bi_KeyID = hex_encode k, bi_EncryptedManifest = m, bi_TotalBytes = n,
     bi_Chunks = attachmentChunksToBlobChunks cs\<rparr>"
  from s obtain v where v: "BeginBlob cfg BlobChunkBytes user ?input now db r = Inr (v, r')" and i: "toRemoteAttachment ws b v = Inr info"
    by (auto simp: HTTP_attachments_def HTTP_BeginAttachment_def api_beginBlob_def refuse_def split: prod.splits sum.splits if_splits)
  from v have "validateID (ID_String ws) = Inr ()" "validateBlobID (hex_encode b) = Inr ()" "isActiveMember user (ID_String ws) db"
    by (auto simp: BeginBlob_def begin_tx_def err_simps Let_def split: if_splits)
  with server_get_none [OF g] have "find (bl_at (ID_String ws) (hex_encode b)) (blobs r) = None"
    by (auto simp: GetBlob_def blobInfo_def split: option.splits)
  with begin_calm [OF v calm] have c: "blob_calm r'" "staging_dirs r' = staging_dirs r" "final_dirs r' = final_dirs r" "bf_Uploaded v = []" "bf_State v = ''staging''" by simp_all
  from i c(4,5) have "ra_Uploaded info = []" "\<not> ra_Complete info"
    by (auto simp: toRemoteAttachment_def err_simps split: if_splits option.splits)
  moreover have "chunk_files (ID_String ws) (hex_encode b) r' = chunk_files (ID_String ws) (hex_encode b) r" by (simp add: chunk_files_def c split: option.split)
  ultimately show ?thesis using c(1) by (simp add: blob_holds_def fun_eq_iff)
qed

lemma server_put:
  assumes s: "PutAttachmentChunk (server_remote decodes sha256 cfg db now user) ws b i c r = (Inr (), r')" and calm: "blob_calm r" and none: "blob_holds ws b r i = None"
  shows "blob_calm r' \<and> blob_holds ws b r' = (blob_holds ws b r)(i := Some c)"
proof -
  from s have p: "PutBlobChunk sha256 BlobChunkBytes user (ID_String ws) (hex_encode b) (uint i) c now db r = Inr r'"
    by (auto simp: HTTP_attachments_def HTTP_PutAttachmentChunk_def api_putBlobChunk_def refuse_def readLimitedBody_def split: prod.splits sum.splits if_splits)
  from PutBlobChunk_calm [OF p calm none [unfolded blob_holds_def]] obtain d where "blob_calm r'"
    and d: "chunk_files (ID_String ws) (hex_encode b) r' = Some (d(uint i \<mapsto> c))"
      "chunk_files (ID_String ws) (hex_encode b) r = Some d \<or> chunk_files (ID_String ws) (hex_encode b) r = None \<and> d = Map.empty" by blast
  then show ?thesis by (auto simp: blob_holds_def fun_eq_iff dest: unsigned_word_eqI)
qed

lemma server_complete:
  assumes "CompleteAttachment (server_remote decodes sha256 cfg db now user) ws b r = (Inr info, r')" "blob_calm r"
  shows "blob_calm r' \<and> blob_holds ws b r' = blob_holds ws b r"
proof -
  from assms(1) obtain v where "CompleteBlob sha256 user (ID_String ws) (hex_encode b) now db r = (Inr v, r')"
    by (auto simp: HTTP_attachments_def HTTP_CompleteAttachment_def api_completeBlob_def refuse_def split: prod.splits sum.splits)
  from CompleteBlob_calm [OF this assms(2)] show ?thesis by (simp add: blob_holds_def fun_eq_iff)
qed

lemma server_read:
  assumes "ReadAttachmentChunk (server_remote decodes sha256 cfg db now user) ws b i r = (Inr c, r')"
  shows "r' = r \<and> blob_holds ws b r i = Some c"
proof -
  from assms have "ReadBlobChunk sha256 user (ID_String ws) (hex_encode b) (uint i) db r r = Inr c" "r' = r"
    by (auto simp: HTTP_attachments_def HTTP_ReadAttachmentChunk_def api_getBlobChunk_def refuse_def split: prod.splits sum.splits if_splits)
  then show ?thesis
    by (auto simp: ReadBlobChunk_def err_simps blob_holds_def chunk_files_def Let_def split: if_splits option.splits)
qed

interpretation srv: attachment_exchange "server_remote decodes sha256 cfg db now user" blob_calm blob_holds
  by unfold_locales (erule server_get, erule (2) server_begin, erule (2) server_put, erule (1) server_complete, erule server_read)


section \<open>From one device to another\<close>

lemma sync_chunks_facts:
  assumes "sync_chunks i s recs = Inr (chunks, n)"
  shows "map ac_Index chunks = map word_of_nat [i..<i + length recs]" "map ac_Bytes chunks = map (\<lambda>c. uint (cr_ciphertextSize c)) recs"
  using assms
proof (induction recs arbitrary: i s chunks n)
  case (Cons c recs)
  { case 1
    from 1 obtain chunks' n' where r: "sync_chunks (i + 1) (s + uint (cr_ciphertextSize c)) recs = Inr (chunks', n')"
      and c: "chunks = \<lparr>ac_Index = word_of_nat i, ac_Bytes = uint (cr_ciphertextSize c), ac_SHA256 = cr_ciphertextSHA256 c\<rparr> # chunks'"
      by (auto simp: Let_def err_simps split: if_splits)
    have "[i..<i + length (c # recs)] = i # [i + 1..<i + 1 + length recs]" using upt_conv_Cons [of i "i + length (c # recs)"] by (simp del: upt_Suc)
    with Cons.IH(1) [OF r] show ?case by (simp add: c del: upt_Suc) }
  { case 2
    from 2 obtain chunks' n' where r: "sync_chunks (i + 1) (s + uint (cr_ciphertextSize c)) recs = Inr (chunks', n')"
      and c: "chunks = \<lparr>ac_Index = word_of_nat i, ac_Bytes = uint (cr_ciphertextSize c), ac_SHA256 = cr_ciphertextSHA256 c\<rparr> # chunks'"
      by (auto simp: Let_def err_simps split: if_splits)
    from Cons.IH(2) [OF r] show ?case by (simp add: c) }
qed simp_all

lemma indices_distinct:
  assumes "n \<le> 512"
  shows "distinct (map (word_of_nat :: nat \<Rightarrow> u32) [0..<n])"
proof -
  have "inj_on (word_of_nat :: nat \<Rightarrow> u32) (set [0..<n])"
  proof (rule inj_onI)
    fix x y assume b: "x \<in> set [0..<n]" "y \<in> set [0..<n]" and "(word_of_nat x :: u32) = word_of_nat y"
    then have "unat (word_of_nat x :: u32) = unat (word_of_nat y :: u32)" by simp
    with b assms show "x = y" by (simp add: unat_of_nat)
  qed
  then show ?thesis by (simp add: distinct_map)
qed


lemma read_chunks_split:
  assumes "map ac_Bytes chunks = map (\<lambda>c. uint (cr_ciphertextSize c)) recs" "long_enough chunks content"
  shows "read_chunks m i recs (concat (split_chunks chunks content)) = read_chunks m i recs content"
  using assms
proof (induction chunks arbitrary: i recs content)
  case (Cons k ks)
  then obtain c recs' where recs: "recs = c # recs'" "ac_Bytes k = uint (cr_ciphertextSize c)" "map ac_Bytes ks = map (\<lambda>c. uint (cr_ciphertextSize c)) recs'"
    by (cases recs) auto
  let ?n = "unat (cr_ciphertextSize c)"
  from Cons.prems(2) recs(2) have l: "?n \<le> length content" "long_enough ks (drop ?n content)" by simp_all
  have s: "split_chunks (k # ks) content = take ?n content # split_chunks ks (drop ?n content)" by (simp add: recs(2))
  show ?case using Cons.IH [OF recs(3) l(2)] l(1) by (simp add: recs(1) s Let_def del: split_chunks.simps)
qed simp

lemma attachmentSyncManifest_Inr:
  assumes "attachmentSyncManifest env key ws row = Inr (chunks, n)"
  obtains payload where "openAttachmentManifest env key (attachment_metadata ws (at_blob row) (at_key row)) (at_manifest row) = Inr payload"
    "map ac_Bytes chunks = map (\<lambda>c. uint (cr_ciphertextSize c)) (mp_chunks payload)" "distinct (map ac_Index chunks)"
proof -
  from assms obtain payload where p: "openAttachmentManifest env key (attachment_metadata ws (at_blob row) (at_key row)) (at_manifest row) = Inr payload"
    and s: "sync_chunks 0 0 (mp_chunks payload) = Inr (chunks, n)"
    by (auto simp: attachmentSyncManifest_def err_simps split: if_splits)
  have read: "length (read_records c rest) = c" for c rest by (induction c arbitrary: rest) auto
  from p have "length (mp_chunks payload) \<le> 512"
    by (auto simp: openAttachmentManifest_def decodeAttachmentManifest_def err_simps Let_def read not_less split: if_splits prod.splits)
  then have "distinct (map ac_Index chunks)" using sync_chunks_facts(1) [OF s] indices_distinct by simp
  with p sync_chunks_facts(2) [OF s] that show ?thesis by blast
qed

lemma readAttachmentFrom_rows:
  assumes "Store_GetAttachment b db = Inr row" "Store_GetAttachment b db' = Inr row'"
    and "at_workspace row' = at_workspace row" "at_key row' = at_key row" "at_manifest row' = at_manifest row" "files' b = files b"
  shows "readAttachmentFrom env sha256 hmac dst key ws b db' files' = readAttachmentFrom env sha256 hmac dst key ws b db files"
proof -
  have "BlobStore_Open b files' = BlobStore_Open b files" by (simp add: BlobStore_Open_def assms(6))
  then show ?thesis using assms(1-5) by (simp add: readAttachmentFrom_def)
qed

lemma readAttachmentFrom_split:
  assumes m: "attachmentSyncManifest env key ws row = Inr (chunks, n)" and g: "Store_GetAttachment (at_blob row) db = Inr row"
    and f: "files (at_blob row) = Some content" "long_enough chunks content" "files' (at_blob row) = Some (concat (split_chunks chunks content))"
  shows "readAttachmentFrom env sha256 hmac dst key ws (at_blob row) db files' = readAttachmentFrom env sha256 hmac dst key ws (at_blob row) db files"
  using m
proof (cases rule: attachmentSyncManifest_Inr)
  case (1 payload)
  from read_chunks_split [OF 1(2) f(2)] show ?thesis
    using 1(1) f(1,3) by (simp add: readAttachmentFrom_def g BlobStore_Open_def Let_def)
qed


text \<open>
  C10. An attachment reaches the other devices unchanged. A device uploads an attachment the server
  does not know, over the HTTP transport; later another device of a member, whose catalogue has the
  same manifest but which has no file, synchronizes with the server in a state where the files of the blob are as the
  upload left them. Reading the attachment there gives what reading it on the first device gives,
  name, media type, contents or error.\<close>

theorem attachment_reaches_peer:
  assumes "synchronizeAttachment env sha256 (server_remote decodes sha256 cfg db now user) key ws row files r = (Inr (), files', r1)"
    and "files (at_blob row) = Some content" "Store_GetAttachment (at_blob row) notes = Inr row"
    and "GetAttachment (server_remote decodes sha256 cfg db now user) ws (at_blob row) r = (Inr None, r0)" "blob_calm r"
    and "chunk_files (ID_String ws) (hex_encode (at_blob row)) r = None"
    and "chunk_files (ID_String ws) (hex_encode (at_blob row)) r2 = chunk_files (ID_String ws) (hex_encode (at_blob row)) r1"
    and "synchronizeAttachment env sha256 (server_remote decodes' sha256 cfg db' now' user') key ws (row\<lparr>at_created := created, at_orphaned := mark\<rparr>) peer_files r2 = (Inr (), peer_files', r3)"
    and "peer_files (at_blob row) = None" "Store_GetAttachment (at_blob row) peer_notes = Inr (row\<lparr>at_created := created, at_orphaned := mark\<rparr>)"
  shows "readAttachmentFrom env sha256 hmac dst key ws (at_blob row) peer_notes peer_files' = readAttachmentFrom env sha256 hmac dst key ws (at_blob row) notes files"
proof -
  from assms(1) obtain chunks n where m: "attachmentSyncManifest env key ws row = Inr (chunks, n)"
    by (auto simp: synchronizeAttachment_def split: sum.splits)
  then have m': "attachmentSyncManifest env key ws (row\<lparr>at_created := created, at_orphaned := mark\<rparr>) = Inr (chunks, n)" by (simp add: attachmentSyncManifest_def)
  from m have d: "distinct (map ac_Index chunks)" by (rule attachmentSyncManifest_Inr)
  have none: "blob_holds ws (at_blob row) r i = None" for i by (simp add: blob_holds_def assms(6))
  note up = srv.sender_publishes [OF assms(1,2) m d assms(4,5) none]
  have same: "blob_holds ws (at_blob row) r2 = blob_holds ws (at_blob row) r1" by (simp add: blob_holds_def assms(7) fun_eq_iff)
  from srv.receiver_gets [OF assms(8) _ m'] assms(9) obtain parts where parts: "map (\<lambda>k. blob_holds ws (at_blob row) r2 (ac_Index k)) chunks = map Some parts"
    and f: "peer_files' (at_blob row) = Some (concat parts)" by auto
  from parts up same have "parts = split_chunks chunks content" by (simp add: inj_map_eq_map)
  with f have f': "peer_files' (at_blob row) = Some (concat (split_chunks chunks content))" by simp
  have "readAttachmentFrom env sha256 hmac dst key ws (at_blob row) peer_notes peer_files' = readAttachmentFrom env sha256 hmac dst key ws (at_blob row) notes peer_files'"
    by (rule readAttachmentFrom_rows [OF assms(3,10)]) simp_all
  also have "\<dots> = readAttachmentFrom env sha256 hmac dst key ws (at_blob row) notes files"
    using up by (intro readAttachmentFrom_split [where files = files and files' = peer_files', OF m assms(3,2)] f') simp
  finally show ?thesis .
qed

text \<open>
  C12. Whatever the server answers, a synchronization of the attachments changes no file that is there, every
  file it adds consists of chunks with exactly the sizes and digests of the attachment's authenticated
  manifest, and when it ends without error no attachment with a manifest lacks its file.\<close>

theorem SynchronizeWorkspaceAttachments_safe:
  fixes remote :: "'r AttachmentSyncTransport"
  assumes "SynchronizeWorkspaceAttachments env sha256 remote ws a notes files r = (res, files', r')" "workspaceSession ws a = Inr entry"
  shows "(files b = Some content \<longrightarrow> files' b = Some content) \<and>
    (files b = None \<and> files' b = Some content \<longrightarrow>
       list_ex (\<lambda>row. at_blob row = b \<and> at_workspace row = ws \<and> at_manifest row \<noteq> [] \<and> verified_file env sha256 (ke_Key entry) ws row content) (nd_attachments notes)) \<and>
    (res = Inr () \<longrightarrow> list_all (\<lambda>row. at_workspace row = ws \<longrightarrow> at_manifest row = [] \<or> files' (at_blob row) \<noteq> None) (nd_attachments notes))"
proof (cases "ListAttachments ws notes")
  case (Inl e)
  with assms have "files' = files" "res \<noteq> Inr ()" by (auto simp: SynchronizeWorkspaceAttachments_def)
  then show ?thesis by auto
next
  case (Inr rows)
  then have rows: "rows = filter (\<lambda>row. at_workspace row = ws) (nd_attachments notes)" by (simp add: ListAttachments_def scan_attachments_Inr)
  from assms Inr have "synchronize_rows env sha256 remote (ke_Key entry) ws rows files r = (res, files', r')"
    by (simp add: SynchronizeWorkspaceAttachments_def)
  from synchronize_rows_files [OF this] show ?thesis unfolding rows list_all_iff list_ex_iff set_filter mem_Collect_eq by blast
qed


section \<open>A concrete transfer\<close>

definition demo_sealed :: bytes where
  "demo_sealed = [1, 2, 3] @ replicate 16 7"

definition demo_payload :: attachmentManifestPayload where
  "demo_payload = \<lparr>mp_plaintextSize = 3, mp_mediaType = ''b'', mp_displayName = ''a'',
     mp_chunks = [\<lparr>cr_nonce = replicate 24 0, cr_ciphertextSize = 19, cr_plaintextSize = 3, cr_ciphertextSHA256 = demo_digest\<rparr>]\<rparr>"

definition demo_manifest :: bytes where
  "demo_manifest = (case encodeAttachmentManifest demo_payload of Inl _ \<Rightarrow> [] | Inr b \<Rightarrow> b)"

definition demo_attachment_row :: attachment_row where
  "demo_attachment_row = \<lparr>at_blob = demo_digest, at_workspace = demo_id 3, at_key = replicate 16 1, at_manifest = replicate 24 9 @ demo_manifest @ replicate 16 7,
     at_size = 3, at_chunks = 1, at_created = 0, at_orphaned = None\<rparr>"

abbreviation demo_remote_server :: "blob_db AttachmentSyncTransport" where
  "demo_remote_server \<equiv> server_remote (\<lambda>_. True) demo_hash demo_config demo_registered 0 (demo_text 1)"

abbreviation demo_chunks :: "AttachmentChunk list" where
  "demo_chunks \<equiv> [\<lparr>ac_Index = 0, ac_Bytes = 19, ac_SHA256 = demo_digest\<rparr>]"

lemma demo_manifest_facts: "encodeAttachmentManifest demo_payload = Inr demo_manifest" "length demo_manifest = 83" "decodeAttachmentManifest demo_manifest = Inr demo_payload"
proof -
  show e: "encodeAttachmentManifest demo_payload = Inr demo_manifest" by (simp add: demo_manifest_def encodeAttachmentManifest_def demo_payload_def)
  show "length demo_manifest = 83"
    by (simp add: demo_manifest_def encodeAttachmentManifest_def demo_payload_def appendShortString_def enc_record_def demo_digest_def)
  show "decodeAttachmentManifest demo_manifest = Inr demo_payload"
    by (rule manifest_payload_roundtrip [OF e]) (simp_all add: demo_payload_def record_ok_def demo_digest_def)
qed

lemma demo_open_manifest: "openAttachmentManifest demo_crypto (Some (replicate 32 7)) (attachment_metadata (demo_id 3) demo_digest (replicate 16 1)) (at_manifest demo_attachment_row) = Inr demo_payload"
proof -
  let ?m = "attachment_metadata (demo_id 3) demo_digest (replicate 16 1)"
  have v: "AttachmentMetadata_validate ?m = Inr ()" by (simp add: AttachmentMetadata_validate_def attachment_metadata_def demo_digest_def)
  then obtain aad where aad: "CanonicalAttachmentManifestAAD ?m = Inr aad" by (simp add: CanonicalAttachmentManifestAAD_def Let_def)
  have k: "DeriveBlobManifestKey (ce_hkdf demo_crypto) (AM_CryptoProfile ?m) (Some (replicate 32 7)) (AM_BlobID ?m) = Inr (replicate 32 7)"
    by (simp add: DeriveBlobManifestKey_def deriveHKDF_def validHKDFDomain_def attachment_metadata_def demo_crypto_def demo_digest_def Let_def)
  have "OpenManifest demo_crypto (Some (replicate 32 7)) \<lparr>EM_Metadata = ?m, EM_Nonce = replicate 24 9, EM_Ciphertext = demo_manifest @ replicate 16 7\<rparr> = Inr demo_manifest"
    using demo_manifest_facts(2) by (simp add: OpenManifest_def EncryptedAttachmentManifest_validate_def v aad k openXChaCha_def TakeSecret_def MaxCiphertextBytes_def MaxSecretBytes_def)
      (simp add: demo_crypto_def Let_def TakeSecret_def MaxSecretBytes_def)
  then show ?thesis using demo_manifest_facts by (simp add: openAttachmentManifest_def demo_attachment_row_def)
qed

lemma demo_sync_manifest: "attachmentSyncManifest demo_crypto (Some (replicate 32 7)) (demo_id 3) demo_attachment_row = Inr (demo_chunks, 19)"
  using demo_open_manifest by (simp add: attachmentSyncManifest_def demo_attachment_row_def) (simp add: demo_payload_def)


definition demo_announced :: BlobInit where
  "demo_announced = \<lparr>bi_WorkspaceID = demo_text 3, bi_BlobID = demo_blob_id, bi_KeyID = demo_key, bi_EncryptedManifest = at_manifest demo_attachment_row, bi_TotalBytes = 19,
     bi_Chunks = [\<lparr>cs_Index = 0, cs_Bytes = 19, cs_SHA256 = demo_blob_id\<rparr>]\<rparr>"

definition demo_chunk_row :: "int option \<Rightarrow> chunk_row" where
  "demo_chunk_row uploaded = \<lparr>ck_ws = demo_text 3, ck_blob = demo_blob_id, ck_index = 0, ck_bytes = 19, ck_hash = demo_digest, ck_uploaded = uploaded\<rparr>"

definition demo_server_begun :: blob_db where
  "demo_server_begun = empty_blobs\<lparr>reserved_bytes := (\<lambda>_. 0)(demo_text 1 := 19), blobs := [new_blob (demo_text 1) demo_announced 0],
     blob_chunks := [demo_chunk_row None]\<rparr>"

definition demo_server_staged :: blob_db where
  "demo_server_staged = demo_server_begun\<lparr>staging_dirs := [(demo_text 3, demo_blob_id) \<mapsto> [0 \<mapsto> demo_sealed]], blob_chunks := [demo_chunk_row (Some 0)]\<rparr>"

definition demo_server_done :: blob_db where
  "demo_server_done = empty_blobs\<lparr>used_bytes := (\<lambda>_. 0)(demo_text 1 := 19),
     blobs := [(new_blob (demo_text 1) demo_announced 0)\<lparr>bl_state := ''complete'', bl_reserved := 0, bl_completed := Some 0, bl_unreferenced := Some 0\<rparr>],
     blob_chunks := [demo_chunk_row (Some 0)], final_dirs := [(demo_text 3, demo_blob_id) \<mapsto> [0 \<mapsto> demo_sealed]]\<rparr>"

definition demo_info :: "string \<Rightarrow> int list \<Rightarrow> BlobInfo" where
  "demo_info state uploaded = \<lparr>bf_WorkspaceID = demo_text 3, bf_BlobID = demo_blob_id, bf_KeyID = demo_key, bf_EncryptedManifest = at_manifest demo_attachment_row,
     bf_TotalBytes = 19, bf_State = state, bf_Chunks = [\<lparr>cs_Index = 0, cs_Bytes = 19, cs_SHA256 = demo_blob_id\<rparr>], bf_Uploaded = uploaded, bf_ReferenceCount = 0\<rparr>"

lemma demo_announce: "BeginBlob demo_config BlobChunkBytes (demo_text 1) demo_announced 0 demo_registered empty_blobs = Inr (demo_info ''staging'' [], demo_server_begun)"
proof -
  have "list_ex (\<lambda>w. w_id w = demo_text 3 \<and> w_key w = demo_key) (workspaces demo_registered)"
    by (simp add: demo_registered_def empty_server_def new_workspace_def)
  moreover have "\<exists>u. find (\<lambda>u. u_id u = demo_text 1) (users demo_registered) = Some u \<and> u_quota u = 1000"
    by (simp add: demo_registered_def empty_server_def registered_user_def demo_reg_def demo_config_def)
  moreover have "at_manifest demo_attachment_row \<noteq> []" "length (at_manifest demo_attachment_row) = 123" using demo_manifest_facts(2) by (simp_all add: demo_attachment_row_def)
  ultimately show ?thesis
    by (auto simp: BeginBlob_def demo_announced_def demo_config_def validateChunkSpecs_def begin_tx_def Let_def demo_member reserve_def
        demo_server_begun_def empty_blobs_def demo_digest_def demo_info_def demo_chunk_row_def)
qed

lemma demo_put_sealed: "PutBlobChunk demo_hash BlobChunkBytes (demo_text 1) (demo_text 3) demo_blob_id 0 demo_sealed 0 demo_registered demo_server_begun = Inr demo_server_staged"
  by (simp add: PutBlobChunk_def put_files_def demo_member demo_server_begun_def demo_server_staged_def empty_blobs_def chunk_of_def demo_chunk_row_def demo_sealed_def
      demo_hash_def equalBytes_iff mark_uploaded_def update_rows_def unixNow_def)
    (simp add: demo_announced_def new_blob_def)

lemma demo_finish: "CompleteBlob demo_hash (demo_text 1) (demo_text 3) demo_blob_id 0 demo_registered demo_server_staged = (Inr (demo_info ''complete'' [0]), demo_server_done)"
  by (simp add: CompleteBlob_def complete_files_def complete_tx_def blobInfo_def demo_member demo_server_begun_def demo_server_staged_def empty_blobs_def
      update_rows_def chunk_of_def blob_of_def info_of_def readBlobChunks_def demo_announced_def new_blob_def unixNow_def verifyChunkFile_def demo_server_done_def
      demo_chunk_row_def demo_sealed_def demo_info_def demo_hash_def demo_blob_id_def [symmetric] fun_upd_idem)


lemmas demo_texts = demo_text_def [symmetric] demo_blob_id_def [symmetric] demo_key_def [symmetric]

lemma demo_row_simps: "at_blob demo_attachment_row = demo_digest" "at_key demo_attachment_row = replicate 16 1" "at_workspace demo_attachment_row = demo_id 3"
  by (simp_all add: demo_attachment_row_def)

lemma demo_to_remote: "state = ''staging'' \<or> state = ''complete'' \<Longrightarrow> list_all (\<lambda>i. i = 0) uploaded \<Longrightarrow> toRemoteAttachment (demo_id 3) demo_digest (demo_info state uploaded) =
  Inr \<lparr>ra_KeyID = replicate 16 1, ra_Manifest = at_manifest demo_attachment_row, ra_Bytes = 19, ra_Complete = (state = ''complete''), ra_Chunks = demo_chunks,
    ra_Uploaded = map word_of_int uploaded\<rparr>"
  by (auto simp: toRemoteAttachment_def demo_info_def demo_texts list_ex_iff list_all_iff) (auto simp: demo_key_def demo_blob_id_def demo_digest_def list_ex_iff)

lemma demo_get_absent: "GetAttachment demo_remote_server (demo_id 3) demo_digest empty_blobs = (Inr None, empty_blobs)"
  by (simp add: HTTP_attachments_def HTTP_GetAttachment_def demo_texts api_getBlob_def GetBlob_def blobInfo_def demo_member empty_blobs_def refuse_def refuse_not_found)

lemma demo_validate:
  "validateRemoteAttachment demo_attachment_row demo_chunks 19 \<lparr>ra_KeyID = replicate 16 1, ra_Manifest = at_manifest demo_attachment_row, ra_Bytes = 19, ra_Complete = c, ra_Chunks = demo_chunks, ra_Uploaded = u\<rparr> = Inr ()"
  by (simp add: validateRemoteAttachment_def demo_row_simps equalBytes_iff same_chunk_def)

lemma demo_send:
  "synchronizeAttachment demo_crypto demo_hash demo_remote_server (Some (replicate 32 7)) (demo_id 3) demo_attachment_row [demo_digest \<mapsto> demo_sealed] empty_blobs
     = (Inr (), [demo_digest \<mapsto> demo_sealed], demo_server_done)"
proof -
  have b: "BeginAttachment demo_remote_server (demo_id 3) demo_digest (replicate 16 1) (at_manifest demo_attachment_row) 19 demo_chunks empty_blobs
     = (Inr \<lparr>ra_KeyID = replicate 16 1, ra_Manifest = at_manifest demo_attachment_row, ra_Bytes = 19, ra_Complete = False, ra_Chunks = demo_chunks, ra_Uploaded = []\<rparr>, demo_server_begun)"
    using demo_announce [unfolded demo_announced_def]
    by (simp add: HTTP_attachments_def HTTP_BeginAttachment_def api_beginBlob_def attachmentChunksToBlobChunks_def demo_texts demo_to_remote)
  have p: "PutAttachmentChunk demo_remote_server (demo_id 3) demo_digest 0 demo_sealed demo_server_begun = (Inr (), demo_server_staged)"
    using demo_put_sealed by (simp add: HTTP_attachments_def HTTP_PutAttachmentChunk_def api_putBlobChunk_def readLimitedBody_def demo_texts demo_sealed_def)
  have c: "CompleteAttachment demo_remote_server (demo_id 3) demo_digest demo_server_staged
     = (Inr \<lparr>ra_KeyID = replicate 16 1, ra_Manifest = at_manifest demo_attachment_row, ra_Bytes = 19, ra_Complete = True, ra_Chunks = demo_chunks, ra_Uploaded = [0]\<rparr>, demo_server_done)"
    using demo_finish by (simp add: HTTP_attachments_def HTTP_CompleteAttachment_def api_completeBlob_def demo_texts demo_to_remote)
  have u: "uploadAttachmentChunks demo_hash demo_remote_server (demo_id 3) demo_digest demo_chunks [] [demo_digest \<mapsto> demo_sealed] demo_server_begun = (Inr (), demo_server_staged)"
    using p by (simp add: uploadAttachmentChunks_def BlobStore_Open_def demo_sealed_def demo_hash_def equalBytes_iff)
  show ?thesis
    by (simp add: synchronizeAttachment_def demo_sync_manifest remote_attachment_def complete_attachment_def BlobStore_Exists_def demo_row_simps demo_get_absent b u c
        demo_validate Let_def)
qed

lemma demo_receive:
  "synchronizeAttachment demo_crypto demo_hash demo_remote_server (Some (replicate 32 7)) (demo_id 3) demo_attachment_row Map.empty demo_server_done
     = (Inr (), [demo_digest \<mapsto> demo_sealed], demo_server_done)"
proof -
  have g': "GetBlob (demo_text 1) (demo_text 3) demo_blob_id demo_registered demo_server_done = Inr (demo_info ''complete'' [0])"
    by (simp add: GetBlob_def blobInfo_def demo_member demo_server_done_def empty_blobs_def blob_of_def info_of_def readBlobChunks_def demo_announced_def new_blob_def
        chunk_of_def demo_chunk_row_def demo_info_def demo_texts)
  have g: "GetAttachment demo_remote_server (demo_id 3) demo_digest demo_server_done
     = (Inr (Some \<lparr>ra_KeyID = replicate 16 1, ra_Manifest = at_manifest demo_attachment_row, ra_Bytes = 19, ra_Complete = True, ra_Chunks = demo_chunks, ra_Uploaded = [0]\<rparr>), demo_server_done)"
    using g' by (simp add: HTTP_attachments_def HTTP_GetAttachment_def api_getBlob_def demo_texts demo_to_remote)
  have "ReadBlobChunk demo_hash (demo_text 1) (demo_text 3) demo_blob_id 0 demo_registered demo_server_done demo_server_done = Inr demo_sealed"
    by (simp add: ReadBlobChunk_def g') (simp add: demo_info_def demo_server_done_def empty_blobs_def verifyChunk_def demo_hash_def equalBytes_iff demo_sealed_def)
  then have "ReadAttachmentChunk demo_remote_server (demo_id 3) demo_digest 0 demo_server_done = (Inr demo_sealed, demo_server_done)"
    by (simp add: HTTP_attachments_def HTTP_ReadAttachmentChunk_def api_getBlobChunk_def demo_texts demo_sealed_def)
  then have d: "downloadAttachmentChunks demo_hash demo_remote_server (demo_id 3) demo_digest demo_chunks Map.empty demo_server_done = (Inr (), [demo_digest \<mapsto> demo_sealed], demo_server_done)"
    by (simp add: downloadAttachmentChunks_def BlobStore_Exists_def BlobStore_Publish_def demo_sealed_def demo_hash_def equalBytes_iff)
  show ?thesis
    by (simp add: synchronizeAttachment_def demo_sync_manifest remote_attachment_def complete_attachment_def BlobStore_Exists_def demo_row_simps g d demo_validate Let_def)
qed


definition demo_catalogue :: note_db where
  "demo_catalogue = demo_notes\<lparr>nd_attachments := [demo_attachment_row]\<rparr>"

definition demo_member_account :: Account where
  "demo_member_account = demo_account\<lparr>ac_workspaceKeys := [demo_id 3 \<mapsto> \<lparr>ke_KeyID = replicate 16 1, ke_Key = Some (replicate 32 7), ke_State = 1\<rparr>]\<rparr>"

lemma demo_catalogued: "Store_GetAttachment demo_digest demo_catalogue = Inr demo_attachment_row"
  by (simp add: Store_GetAttachment_def demo_catalogue_def demo_row_simps)

theorem attachment_reaches_peer_witness:
  "\<exists>peer_files r1. synchronizeAttachment demo_crypto demo_hash demo_remote_server (Some (replicate 32 7)) (demo_id 3) demo_attachment_row [demo_digest \<mapsto> demo_sealed] empty_blobs
       = (Inr (), [demo_digest \<mapsto> demo_sealed], r1) \<and>
     synchronizeAttachment demo_crypto demo_hash demo_remote_server (Some (replicate 32 7)) (demo_id 3) demo_attachment_row Map.empty r1 = (Inr (), peer_files, r1) \<and>
     readAttachmentFrom demo_crypto demo_hash demo_hmac whole_writes (Some (replicate 32 7)) (demo_id 3) demo_digest demo_catalogue peer_files =
     readAttachmentFrom demo_crypto demo_hash demo_hmac whole_writes (Some (replicate 32 7)) (demo_id 3) demo_digest demo_catalogue [demo_digest \<mapsto> demo_sealed]"
proof -
  have calm: "blob_calm empty_blobs" "chunk_files (ID_String (demo_id 3)) (hex_encode (at_blob demo_attachment_row)) empty_blobs = None"
    by (simp_all add: blob_calm_def chunk_files_def empty_blobs_def)
  have row: "demo_attachment_row\<lparr>at_created := 0, at_orphaned := None\<rparr> = demo_attachment_row" by (simp add: demo_attachment_row_def)
  from attachment_reaches_peer [where row = demo_attachment_row and created = 0 and mark = None and ?r2.0 = demo_server_done and peer_files = Map.empty and peer_notes = demo_catalogue
      and hmac = demo_hmac and dst = whole_writes, unfolded row demo_row_simps, OF demo_send _ demo_catalogued demo_get_absent calm [unfolded demo_row_simps] refl demo_receive _ demo_catalogued]
  show ?thesis using demo_send demo_receive by auto
qed

theorem SynchronizeWorkspaceAttachments_safe_witness:
  "\<exists>files'. SynchronizeWorkspaceAttachments demo_crypto demo_hash demo_remote_server (demo_id 3) demo_member_account demo_catalogue Map.empty demo_server_done = (Inr (), files', demo_server_done) \<and>
     files' demo_digest = Some demo_sealed \<and> verified_file demo_crypto demo_hash (Some (replicate 32 7)) (demo_id 3) demo_attachment_row demo_sealed"
proof -
  have m: "at_manifest demo_attachment_row \<noteq> []" by (simp add: demo_attachment_row_def)
  have s: "workspaceSession (demo_id 3) demo_member_account = Inr \<lparr>ke_KeyID = replicate 16 1, ke_Key = Some (replicate 32 7), ke_State = 1\<rparr>"
    by (simp add: workspaceSession_def demo_member_account_def demo_account_def)
  have "ListAttachments (demo_id 3) demo_catalogue = Inr [demo_attachment_row]"
    by (simp add: ListAttachments_def demo_catalogue_def demo_row_simps scanAttachment_def)
  with m s demo_receive have run: "SynchronizeWorkspaceAttachments demo_crypto demo_hash demo_remote_server (demo_id 3) demo_member_account demo_catalogue Map.empty demo_server_done
     = (Inr (), [demo_digest \<mapsto> demo_sealed], demo_server_done)"
    by (simp add: SynchronizeWorkspaceAttachments_def)
  from SynchronizeWorkspaceAttachments_safe [where b = demo_digest and content = demo_sealed, OF run s]
  have "verified_file demo_crypto demo_hash (Some (replicate 32 7)) (demo_id 3) demo_attachment_row demo_sealed" by (simp add: demo_catalogue_def)
  with run show ?thesis by auto
qed


section \<open>Attachments of an older key\<close>

lemma synchronize_rows_stops:
  "row \<in> set rows \<Longrightarrow> at_manifest row \<noteq> [] \<Longrightarrow> attachmentSyncManifest env key ws row = Inl e \<Longrightarrow>
   fst (synchronize_rows env sha256 remote key ws rows files r) \<noteq> Inr ()"
proof (induction rows arbitrary: files r)
  case (Cons x rows)
  show ?case
  proof (cases "x = row")
    case True
    with Cons.prems show ?thesis by (simp add: synchronizeAttachment_def)
  next
    case False
    with Cons.prems have "row \<in> set rows" by simp
    from Cons.IH [OF this Cons.prems(2,3)] show ?thesis by (auto split: sum.splits prod.splits)
  qed
qed simp

text \<open>
  One attachment whose manifest does not open with the current key, as every one that was sealed
  before a rotation of the key, ends each synchronization of the workspace with an error, whatever the
  server answers.
\<close>

lemma unreadable_manifest_stops_sync:
  assumes "workspaceSession ws a = Inr entry" "row \<in> set (nd_attachments notes)" "at_workspace row = ws" "at_manifest row \<noteq> []"
    and "openAttachmentManifest env (ke_Key entry) (attachment_metadata ws (at_blob row) (at_key row)) (at_manifest row) = Inl e"
  shows "fst (SynchronizeWorkspaceAttachments env sha256 remote ws a notes files r) \<noteq> Inr ()"
proof (cases "ListAttachments ws notes")
  case (Inl e)
  with assms(1) show ?thesis by (simp add: SynchronizeWorkspaceAttachments_def)
next
  case (Inr rows)
  then have "row \<in> set rows" using assms(2,3) by (auto simp: ListAttachments_def dest!: scan_attachments_Inr)
  moreover have "attachmentSyncManifest env (ke_Key entry) ws row = Inl e" using assms(5) by (simp add: attachmentSyncManifest_def)
  ultimately have "fst (synchronize_rows env sha256 remote (ke_Key entry) ws rows files r) \<noteq> Inr ()" using assms(4) by (intro synchronize_rows_stops [of row])
  then show ?thesis using assms(1) Inr by (simp add: SynchronizeWorkspaceAttachments_def)
qed

end
