(* ===== verification/Spec2Isabelle.thy ===== *)
theory Spec2Isabelle
  imports Key_Guarantees Coordinator HTTP_Sync Notebook_Tree Delivery Garbage_Collection Revision_History Attachment_Sync
begin

text \<open>
  A verification development of Beresta, an encrypted note application that synchronizes
  devices through a server that sees ciphertext only (Go; \<^verbatim>\<open>core/\<close> is the client,
  \<^verbatim>\<open>server/\<close> the server).

  \<^bold>\<open>The program.\<close> A device keeps its notes in a local SQL database. Every change becomes an
  operation: a payload (\<^verbatim>\<open>core/sync/operation.go\<close>, \<^verbatim>\<open>metadata_operation.go\<close>), stamped by a
  hybrid logical clock (\<^verbatim>\<open>core/model\<close>), encrypted, signed (\<^verbatim>\<open>core/crypto\<close>) and written to an
  outbox. A worker (\<^verbatim>\<open>core/sync/worker.go\<close>) pulls pages of operations from a transport, applies
  them in one transaction (\<^verbatim>\<open>core/store/sync_repository.go\<close>), quarantines what it cannot accept,
  and pushes the outbox. The HTTP transport (\<^verbatim>\<open>core/transport/http.go\<close>) talks to the server,
  which authenticates devices by signed challenges (\<^verbatim>\<open>server/identity_store.go\<close>), numbers the
  operations of a workspace (\<^verbatim>\<open>operation_store.go\<close>), hands them out in pages, keeps key
  envelopes and members (\<^verbatim>\<open>resources_store.go\<close>), and removes history that acknowledged
  snapshots cover (\<^verbatim>\<open>snapshot_store.go\<close>, \<^verbatim>\<open>compaction.go\<close>). On a device the commands of
  \<^verbatim>\<open>core/account\<close> change the tables of \<^verbatim>\<open>core/store\<close> and write the operation in one transaction;
  the processor (\<^verbatim>\<open>core/account/sync_processor.go\<close>) verifies received operations and makes the
  same changes; \<^verbatim>\<open>core/account/gc.go\<close> removes what is no longer needed.

  \<^bold>\<open>Theories.\<close>
  \<^item> \<open>Prelude\<close>: bytes, results, big-endian numbers, hexadecimal text, UTF-8.
  \<^item> \<open>Identifiers\<close>, \<open>Hybrid_Clock\<close>: \<^verbatim>\<open>core/model\<close>. Identifiers are a type with their invariant
    length; clock values are words of the width of the source. Shown: parsing inverts
    printing; issued clock values increase; a remote clock moves the local one by at most the
    allowed skew; merging last-writer-wins registers converges in any order.
  \<^item> \<open>CBOR\<close>, \<open>Wire_Codec\<close>, \<open>Note_Operations\<close>: the encodings of \<^verbatim>\<open>core/sync\<close>, with cursors over
    byte lists. Shown: the decoders accept exactly what the encoders write.
  \<^item> \<open>Canonical_Inputs\<close>: the signed and authenticated byte strings of \<^verbatim>\<open>core/crypto\<close>. Shown: equal
    strings have equal contents; signature domains do not overlap.
  \<^item> \<open>Sync_Types\<close>, \<open>Sync_Repository\<close>, \<open>Sync_Worker\<close>: the client's synchronization. The database is
    a record of tables, a transaction a function that returns an error or the new record. The
    worker is written over an environment of functions (its two Go interfaces) and its five
    optional hooks, which the applications configure and which are parameters; the locales
    \<open>operation_transport\<close> and \<open>repo_sync\<close> state what it relies on, of the hooks that they return
    and keep the table invariants. Shown: a page is applied exactly once and as one step, the
    tables stay consistent, a quarantine stops the workspace, a cycle ends, with a bootstrap too.
  \<^item> \<open>Coordinator\<close>: \<^verbatim>\<open>core/sync/coordinator.go\<close> as a step relation over the sections under its mutex. Shown:
    one worker at a time under every interleaving, and no caller waits in vain.
  \<^item> \<open>Object_Encryption\<close>: sealing of objects and keybags (\<^verbatim>\<open>core/crypto/aead.go\<close>, \<^verbatim>\<open>objectblob.go\<close>)
    over an environment of primitives whose documented laws are \<open>crypto_laws\<close>. Shown: opening
    inverts sealing.
  \<^item> \<open>Note_Store\<close>: the tables of notes, notebooks, tags, attachments, documents and revisions
    (\<^verbatim>\<open>core/store\<close>) as lists of rows, one function per method. \<open>Notebook_Tree\<close>: the notebooks stay
    a forest and moving one always returns, as long as no imported snapshot row closes a cycle,
    which the import does not check.
  \<^item> \<open>Sync_Processor\<close>: the unlocked account, verification and application of operations, and the
    local commands (\<^verbatim>\<open>core/account\<close>); the Yjs library is a record of functions.
  \<^item> \<open>Replication\<close>, \<open>Delivery\<close>: the metadata of the notes as a family of registers. Shown: applying an
    operation is one write to one register (a functional refinement), replicas converge (an
    instance of the locale \<open>latest_wins\<close>), payloads are read as they were meant, and a committed
    command is accepted by every other device and, where the note is known, has the same effect.
  \<^item> \<open>Garbage_Collection\<close>: \<^verbatim>\<open>core/account/gc.go\<close>. Shown: the orphan marks are right in every reachable
    state, a run takes nothing from a live note, and only tombstones, files and rows that are old enough.
  \<^item> \<open>Revision_History\<close>: \<^verbatim>\<open>core/account/revisions.go\<close>. Shown: the comparison of two revisions is a shortest
    edit script, and pruning keeps what is younger than the retention and the last checkpoint.
  \<^item> \<open>Attachment_Encryption\<close>, \<open>Attachments\<close>: \<^verbatim>\<open>core/crypto/attachment.go\<close> and \<^verbatim>\<open>core/account/attachments.go\<close>
    over the files of \<^verbatim>\<open>core/store/blob.go\<close>. Shown: what is accepted is whole and unchanged, a
    sealer never uses a nonce twice, and what is attached is read back exactly.
  \<^item> \<open>Attachment_Sync\<close>: \<^verbatim>\<open>core/account/attachment_sync.go\<close>, the attachment methods of the HTTP transport and the blob
    handlers of the server. The locale \<open>attachment_exchange\<close> states what an upload and a download rely on;
    the server is an interpretation. Shown: an attachment is read on the receiving device as on the sending one,
    and no server can change or forge a file.
  \<^item> \<open>Keybag\<close>, \<open>Account_Keys\<close>, \<open>Key_Guarantees\<close>: the keys of an account (\<^verbatim>\<open>core/account/keybag.go\<close>, \<^verbatim>\<open>account.go\<close>,
    \<^verbatim>\<open>sharing.go\<close>, \<^verbatim>\<open>keyrotation.go\<close>, \<^verbatim>\<open>revocation.go\<close>, \<^verbatim>\<open>core/crypto/identity.go\<close>): creation, unlocking, sharing, rotation. Shown: the
    keybag is read as it was written, no key is lost in any history of shares, rotations and restarts, and
    what a sealed key of a wrong size does.
  \<^item> \<open>Server_Tables\<close>, \<open>Server_Identity\<close>, \<open>Server_Resources\<close>, \<open>Server_Operations\<close>: the storage methods of
    the server, each a function from the database to an error or a result and a database.
  \<^item> \<open>Server_History\<close>: the calls as a datatype, their effect, and runs. The locale
    \<open>served_invariant\<close> carries a property of one call over to every history;
    \<open>Server_Invariants\<close>, \<open>Server_Access\<close> and \<open>Server_Log\<close> interpret it for the account tables, the
    operation log, the key envelopes, revoked devices, used challenges and stored rows.
  \<^item> \<open>Server_Guarantees\<close>, \<open>Account_Guarantees\<close>: what follows for every history of the server: the log is
    contiguous, every row in it was pushed and checked, retries are recognised as long as nothing
    of the workspace is compacted, and what a page can miss when calls come between its reads.
  \<^item> \<open>Server_Blobs\<close>, \<open>Blob_Invariants\<close>, \<open>Blob_Guarantees\<close>: \<^verbatim>\<open>server/blob_store.go\<close> with its files. A history
    interleaves the other calls with the blob methods and with crashes between their file and
    table parts, over several starts with configurations of their own; the locale \<open>blob_invariant\<close>
    carries what a step keeps over to histories. The collectors list first and take the lock for
    each blob, with other calls in between; one \<open>collectBlob\<close> is one step, and no theorem is about
    a file that is opened inside it. Shown, for histories in which the process does not stop inside
    \<open>collectBlob\<close>: the server's own consistency check passes, quotas hold, referenced blobs stay
    readable, and the collector removes what is due; and what an interrupted collection breaks.
  \<^item> \<open>Pub_Sub\<close>: the cursor hints of \<^verbatim>\<open>server/pubsub.go\<close>, with reachability as an inductive predicate.
  \<^item> \<open>HTTP_Client\<close>, \<open>Server_API\<close>, \<open>HTTP_Sync\<close>: the two ends of the wire and their composition. The
    network is a function from a request to a reply; the server is one such function, and runs
    the requests of other clients before and between the statements of \<open>PullChanges\<close>.

  \<^bold>\<open>Parameters.\<close> SHA-256, HMAC, Ed25519, HKDF, the AEAD, the NaCl box, Argon2id, the platform key store, the order in which Go visits a map, the Yjs library, random identifiers, nonces and
  tokens, the clock, the network, the hooks of the worker, the requests of other clients and the rate limiters are arguments of the definitions that
  use them; in the sync repository also the effect of an operation on the notes, which
  \<open>Sync_Processor\<close> defines. Nothing is assumed about them except where a theorem says so.

  \<^bold>\<open>Loops.\<close> The loops of the worker and the walk through the notebooks are partial functions with the result \<^term>\<open>None\<close> for not
  returning; termination is a theorem. All other functions are total; no fuel is used. Where
  the source has \<^verbatim>\<open>uint32\<close> or \<^verbatim>\<open>uint64\<close> arithmetic the model has words; \<^verbatim>\<open>int64\<close> columns and times are
  integers, with the range stated where it matters.

  \<^bold>\<open>Not modelled.\<close> The cryptographic primitives, JSON text and TLS, file system code (folder
  transport, directory scans, backups), SQL queries for search and display, goroutine
  scheduling, logging and metrics, the driver of key rotation (\<^verbatim>\<open>core/keyrotation\<close>), the client side of snapshots with the
  collection of the client's operation log that rests on it (\<^verbatim>\<open>core/account/oplog_gc.go\<close>), and the applications.
\<close>

end
